(* ===== verification/Js_Prelude.thy ===== *)
theory Js_Prelude
  imports Complex_Main "HOL-Library.Word" "HOL-Library.AList" "HOL-Library.List_Lexorder"
begin

text \<open>
  What the other theories share: JavaScript strings as lists of UTF-16 code units, the string
  operations the sources use (\<open>trim\<close>, \<open>split\<close>, \<open>endsWith\<close>, decimal
  conversion, iteration by code points), the insertion ordered \<open>Map\<close> as an association list,
  results that may be an error, and the loop \<open>for (const [i, x] of xs.entries())\<close> whose body may
  throw. The lemmas declared here carry the component proofs.
\<close>

named_theorems res_simps \<open>when a computation that may throw returns a value\<close>

section \<open>Results that may be an error\<close>

definition bindE :: "'e + 'a \<Rightarrow> ('a \<Rightarrow> 'e + 'b) \<Rightarrow> 'e + 'b" where
  "bindE m f = (case m of Inl e \<Rightarrow> Inl e | Inr x \<Rightarrow> f x)"

definition throwUnless :: "bool \<Rightarrow> 'e \<Rightarrow> 'e + unit" where
  "throwUnless ok e = (if ok then Inr () else Inl e)"

lemma bindE_simps [simp]: "bindE (Inl e) f = Inl e" "bindE (Inr x) f = f x"
  by (simp_all add: bindE_def)

lemma bindE_Inr_iff [res_simps]: "bindE m f = Inr y \<longleftrightarrow> (\<exists>x. m = Inr x \<and> f x = Inr y)"
  by (cases m) simp_all

lemma bindE_Inl_iff [res_simps]:
  "bindE m f = Inl e \<longleftrightarrow> m = Inl e \<or> (\<exists>x. m = Inr x \<and> f x = Inl e)"
  by (cases m) simp_all

lemma throwUnless_Inr_iff [res_simps]: "throwUnless ok e = Inr u \<longleftrightarrow> ok"
  by (simp add: throwUnless_def)

lemma throwUnless_Inl_iff [res_simps]: "throwUnless ok e = Inl e' \<longleftrightarrow> \<not> ok \<and> e' = e"
  by (auto simp add: throwUnless_def)

lemma throwUnless_simps [simp]: "throwUnless True e = Inr ()" "throwUnless False e = Inl e"
  by (simp_all add: throwUnless_def)

text \<open>\<open>for (const [i, x] of xs.entries()) { body }\<close> with the loop state passed along; the loop
  stops at the first error, as the exception would.\<close>

fun forEntries :: "(nat \<Rightarrow> 'a \<Rightarrow> 's \<Rightarrow> 'e + 's) \<Rightarrow> nat \<Rightarrow> 'a list \<Rightarrow> 's \<Rightarrow> 'e + 's" where
  "forEntries body i [] s = Inr s"
| "forEntries body i (x # xs) s = bindE (body i x s) (\<lambda>s'. forEntries body (Suc i) xs s')"

lemma forEntries_unit_iff:
  assumes "\<And>i x. body i x () = Inr () \<longleftrightarrow> P x"
  shows "forEntries body i xs () = Inr () \<longleftrightarrow> (\<forall>x \<in> set xs. P x)"
  by (induction xs arbitrary: i) (auto simp: res_simps assms)

lemma forEntries_append:
  "forEntries body i (xs @ ys) s =
     bindE (forEntries body i xs s) (\<lambda>s'. forEntries body (i + length xs) ys s')"
proof (induction xs arbitrary: i s)
  case Nil
  show ?case by simp
next
  case (Cons x xs)
  show ?case by (cases "body i x s") (simp_all add: Cons.IH)
qed

section \<open>Strings\<close>

text \<open>A JavaScript string is a sequence of 16-bit code units. \<open>js\<close> writes the literals of
  the sources, which are all ASCII.\<close>

type_synonym jstring = "16 word list"

definition js :: "string \<Rightarrow> jstring" where
  "js s = map (\<lambda>c. of_nat (of_char c)) s"

lemma js_char_inj:
  "(of_nat (of_char c) :: 16 word) = of_nat (of_char d) \<longleftrightarrow> c = d"
proof
  assume eq: "(of_nat (of_char c) :: 16 word) = of_nat (of_char d)"
  have unat: "unat (of_nat (of_char x) :: 16 word) = of_char x" for x :: char
    using nat_of_char_less_256 [of x] by (simp add: unat_of_nat del: nat_of_char_less_256)
  have "unat (of_nat (of_char c) :: 16 word) = unat (of_nat (of_char d) :: 16 word)"
    using eq by simp
  then have "(of_char c :: nat) = of_char d"
    by (simp only: unat)
  then show "c = d" by simp
qed simp

lemma js_inject [simp]: "js s = js t \<longleftrightarrow> s = t"
  unfolding js_def by (rule inj_map_eq_map) (simp add: inj_def js_char_inj)

lemma js_Nil_iff [simp]: "js s = [] \<longleftrightarrow> s = []" "[] = js s \<longleftrightarrow> s = []"
  by (simp_all add: js_def)

lemma js_append: "js (s @ t) = js s @ js t"
  by (simp add: js_def)

subsection \<open>trim, startsWith, endsWith, split\<close>

text \<open>WhiteSpace and LineTerminator of ECMAScript: what \<open>trim\<close> removes.\<close>

definition is_js_space :: "16 word \<Rightarrow> bool" where
  "is_js_space c \<longleftrightarrow> (0x9 \<le> c \<and> c \<le> 0xD) \<or> c = 0x20 \<or> c = 0xA0 \<or> c = 0x1680
     \<or> (0x2000 \<le> c \<and> c \<le> 0x200A) \<or> c = 0x2028 \<or> c = 0x2029 \<or> c = 0x202F \<or> c = 0x205F
     \<or> c = 0x3000 \<or> c = 0xFEFF"

definition js_trim :: "jstring \<Rightarrow> jstring" where
  "js_trim s = rev (dropWhile is_js_space (rev (dropWhile is_js_space s)))"

definition js_startsWith :: "jstring \<Rightarrow> jstring \<Rightarrow> bool" where
  "js_startsWith s p \<longleftrightarrow> take (length p) s = p"

definition js_endsWith :: "jstring \<Rightarrow> jstring \<Rightarrow> bool" where
  "js_endsWith s p \<longleftrightarrow> length p \<le> length s \<and> drop (length s - length p) s = p"

text \<open>\<open>s.split(sep)\<close> for a separator that is not empty.\<close>

fun split_loop :: "jstring \<Rightarrow> jstring \<Rightarrow> jstring \<Rightarrow> jstring list" where
  "split_loop sep acc [] = [rev acc]"
| "split_loop sep acc (c # cs) =
     (if take (length sep) (c # cs) = sep
      then rev acc # split_loop sep [] (drop (length sep - 1) cs)
      else split_loop sep (c # acc) cs)"

definition js_split :: "jstring \<Rightarrow> jstring \<Rightarrow> jstring list" where
  "js_split s sep = split_loop sep [] s"

text \<open>\<open>xs.join(sep)\<close>.\<close>

fun js_join :: "jstring \<Rightarrow> jstring list \<Rightarrow> jstring" where
  "js_join sep [] = []"
| "js_join sep [x] = x"
| "js_join sep (x # y # ys) = x @ sep @ js_join sep (y # ys)"

text \<open>Splitting at a separator of one code unit undoes joining pieces without it.\<close>

lemma split_loop_no_sep:
  "c \<notin> set s \<Longrightarrow> split_loop [c] acc s = [rev acc @ s]"
  by (induction s arbitrary: acc) auto

lemma split_loop_sep:
  "c \<notin> set s \<Longrightarrow> split_loop [c] acc (s @ c # t) = (rev acc @ s) # split_loop [c] [] t"
  by (induction s arbitrary: acc) auto

lemma js_split_no_sep: "c \<notin> set s \<Longrightarrow> js_split s [c] = [s]"
  by (simp add: js_split_def split_loop_no_sep)

lemma js_split_sep: "c \<notin> set s \<Longrightarrow> js_split (s @ c # t) [c] = s # js_split t [c]"
  by (simp add: js_split_def split_loop_sep)

lemma js_split_join:
  "xs \<noteq> [] \<Longrightarrow> \<forall>x \<in> set xs. c \<notin> set x \<Longrightarrow> js_split (js_join [c] xs) [c] = xs"
  by (induction "[c]" xs rule: js_join.induct) (simp_all add: js_split_no_sep js_split_sep)

lemma split_loop_nonempty [simp]: "split_loop sep acc s \<noteq> []"
  by (induction sep acc s rule: split_loop.induct) auto

lemma js_split_nonempty [simp]: "js_split s sep \<noteq> []"
  by (simp add: js_split_def)

subsection \<open>Decimal numbers\<close>

definition digit_unit :: "nat \<Rightarrow> 16 word" where
  "digit_unit d = of_nat (48 + d)"

definition is_digit :: "16 word \<Rightarrow> bool" where
  "is_digit c \<longleftrightarrow> 0x30 \<le> c \<and> c \<le> 0x39"

definition digit_val :: "16 word \<Rightarrow> nat" where
  "digit_val c = unat c - 48"

text \<open>\<open>String(n)\<close> of a natural number.\<close>

fun show_nat :: "nat \<Rightarrow> jstring" where
  "show_nat n = (if n < 10 then [digit_unit n] else show_nat (n div 10) @ [digit_unit (n mod 10)])"

declare show_nat.simps [simp del]

definition digits_val :: "jstring \<Rightarrow> nat" where
  "digits_val s = foldl (\<lambda>n c. 10 * n + digit_val c) 0 s"

lemma unat_digit_unit: "d < 10 \<Longrightarrow> unat (digit_unit d) = 48 + d"
  unfolding digit_unit_def by (simp only: unat_of_nat) simp

lemma is_digit_digit_unit: "d < 10 \<Longrightarrow> is_digit (digit_unit d)"
  by (simp add: is_digit_def word_le_nat_alt unat_digit_unit)

lemma digit_val_digit_unit: "d < 10 \<Longrightarrow> digit_val (digit_unit d) = d"
  by (simp add: digit_val_def unat_digit_unit)

lemma digits_val_snoc: "digits_val (s @ [c]) = 10 * digits_val s + digit_val c"
  by (simp add: digits_val_def)

lemma digits_val_show_nat: "digits_val (show_nat n) = n"
proof (induction n rule: show_nat.induct)
  case (1 n)
  show ?case
  proof (cases "n < 10")
    case True
    then show ?thesis
      by (simp add: show_nat.simps [of n] digits_val_def digit_val_digit_unit)
  next
    case False
    with "1.IH" show ?thesis
      by (simp add: show_nat.simps [of n] digits_val_snoc digit_val_digit_unit)
  qed
qed

lemma show_nat_digits: "c \<in> set (show_nat n) \<Longrightarrow> is_digit c"
proof (induction n rule: show_nat.induct)
  case (1 n)
  then show ?case
    by (cases "n < 10") (auto simp: show_nat.simps [of n] is_digit_digit_unit)
qed

lemma show_nat_nonempty [simp]: "show_nat n \<noteq> []"
  by (subst show_nat.simps) simp

lemma show_nat_inject [simp]: "show_nat m = show_nat n \<longleftrightarrow> m = n"
  by (metis digits_val_show_nat)

lemma digit_unit_inject: "c < 10 \<Longrightarrow> d < 10 \<Longrightarrow> digit_unit c = digit_unit d \<longleftrightarrow> c = d"
  by (metis digit_val_digit_unit)

lemma hd_show_nat_zero: "hd (show_nat n) = digit_unit 0 \<longleftrightarrow> n = 0"
proof (induction n rule: show_nat.induct)
  case (1 n)
  show ?case
  proof (cases "n < 10")
    case True
    then show ?thesis
      by (simp add: show_nat.simps [of n] digit_unit_inject)
  next
    case False
    with "1.IH" show ?thesis
      by (auto simp add: show_nat.simps [of n] hd_append)
  qed
qed

text \<open>\<open>BigInt(s)\<close> of a decimal numeral; the sources only reach it with the numerals of a
  multiplicity, and other text is a \<open>SyntaxError\<close>, which is \<open>None\<close> (the empty text is
  \<open>0n\<close>).\<close>

definition js_BigInt :: "jstring \<Rightarrow> nat option" where
  "js_BigInt s = (if list_all is_digit s then Some (digits_val s) else None)"

subsection \<open>Code points\<close>

text \<open>\<open>for (const character of s)\<close>: a high surrogate followed by a low one is one character,
  every other code unit is a character by itself.\<close>

definition is_high_surrogate :: "16 word \<Rightarrow> bool" where
  "is_high_surrogate c \<longleftrightarrow> 0xD800 \<le> c \<and> c \<le> 0xDBFF"

definition is_low_surrogate :: "16 word \<Rightarrow> bool" where
  "is_low_surrogate c \<longleftrightarrow> 0xDC00 \<le> c \<and> c \<le> 0xDFFF"

fun code_points :: "jstring \<Rightarrow> nat list" where
  "code_points [] = []"
| "code_points [c] = [unat c]"
| "code_points (c # d # s) =
     (if is_high_surrogate c \<and> is_low_surrogate d
      then (0x10000 + (unat c - 0xD800) * 0x400 + (unat d - 0xDC00)) # code_points s
      else unat c # code_points (d # s))"

text \<open>\<open>text\<close> is truthy when it is neither \<open>undefined\<close> nor empty.\<close>

definition truthy :: "jstring option \<Rightarrow> bool" where
  "truthy s \<longleftrightarrow> (case s of None \<Rightarrow> False | Some t \<Rightarrow> t \<noteq> [])"

lemma truthy_simps [simp]: "\<not> truthy None" "truthy (Some t) \<longleftrightarrow> t \<noteq> []"
  by (simp_all add: truthy_def)

section \<open>Arrays\<close>

text \<open>\<open>findIndex\<close>, with \<open>None\<close> for \<open>-1\<close>, and \<open>splice(i, 1)\<close>.\<close>

fun findIndex :: "('a \<Rightarrow> bool) \<Rightarrow> 'a list \<Rightarrow> nat option" where
  "findIndex P [] = None"
| "findIndex P (x # xs) = (if P x then Some 0 else map_option Suc (findIndex P xs))"

definition removeAt :: "nat \<Rightarrow> 'a list \<Rightarrow> 'a list" where
  "removeAt i xs = take i xs @ drop (Suc i) xs"

lemma findIndex_Some:
  "findIndex P xs = Some i \<Longrightarrow> i < length xs \<and> P (xs ! i) \<and> (\<forall>j < i. \<not> P (xs ! j))"
  by (induction xs arbitrary: i) (auto split: if_splits simp: less_Suc_eq_0_disj)

lemma findIndex_None: "findIndex P xs = None \<longleftrightarrow> (\<forall>x \<in> set xs. \<not> P x)"
  by (induction xs) auto

lemma set_removeAt_subset: "set (removeAt i xs) \<subseteq> set xs"
  unfolding removeAt_def using set_take_subset [of i xs] set_drop_subset [of "Suc i" xs] by auto

lemma set_removeAt: "i < length xs \<Longrightarrow> set xs = insert (xs ! i) (set (removeAt i xs))"
  by (subst id_take_nth_drop [of i xs]) (auto simp: removeAt_def)

lemma map_removeAt: "map f (removeAt i xs) = removeAt i (map f xs)"
  by (simp add: removeAt_def take_map drop_map)

lemma sorted_wrt_removeAt: "sorted_wrt P xs \<Longrightarrow> sorted_wrt P (removeAt i xs)"
proof (induction xs arbitrary: i)
  case (Cons x xs)
  then show ?case
    using set_removeAt_subset [of "i - 1" xs]
    by (cases i) (auto simp: removeAt_def)
qed (simp add: removeAt_def)

lemma distinct_removeAt: "distinct xs \<Longrightarrow> distinct (removeAt i xs)"
  by (simp add: removeAt_def set_take_disj_set_drop_if_distinct)

text \<open>What an in-place update of one slot does to the members of an array.\<close>

lemma set_list_update_subset: "set (xs[i := y]) \<subseteq> insert y (set xs)"
  by (rule set_update_subset_insert)

lemma set_list_update_mem: "x \<in> set xs \<Longrightarrow> x \<noteq> xs ! i \<Longrightarrow> x \<in> set (xs[i := y])"
  by (metis in_set_conv_nth length_list_update nth_list_update_neq)

section \<open>Insertion ordered maps\<close>

text \<open>A \<open>Map\<close> is an association list in the order of insertion: \<open>set\<close> on a present key
  keeps its place, on a new key it appends, \<open>delete\<close> removes.\<close>

type_synonym ('k, 'v) jmap = "('k \<times> 'v) list"

abbreviation mapGet :: "('k, 'v) jmap \<Rightarrow> 'k \<Rightarrow> 'v option" where
  "mapGet m k \<equiv> map_of m k"

abbreviation mapSet :: "'k \<Rightarrow> 'v \<Rightarrow> ('k, 'v) jmap \<Rightarrow> ('k, 'v) jmap" where
  "mapSet \<equiv> AList.update"

abbreviation mapDelete :: "'k \<Rightarrow> ('k, 'v) jmap \<Rightarrow> ('k, 'v) jmap" where
  "mapDelete \<equiv> AList.delete"

abbreviation mapKeys :: "('k, 'v) jmap \<Rightarrow> 'k list" where
  "mapKeys m \<equiv> map fst m"

abbreviation mapValues :: "('k, 'v) jmap \<Rightarrow> 'v list" where
  "mapValues m \<equiv> map snd m"

lemma mapGet_mapSet: "mapGet (mapSet k v m) k' = (if k' = k then Some v else mapGet m k')"
  by (simp add: update_conv')

lemma mapGet_mapDelete: "mapGet (mapDelete k m) k' = (if k' = k then None else mapGet m k')"
  by (simp add: delete_conv')

lemma distinct_mapSet: "distinct (mapKeys m) \<Longrightarrow> distinct (mapKeys (mapSet k v m))"
  by (rule distinct_update)

lemma distinct_mapDelete: "distinct (mapKeys m) \<Longrightarrow> distinct (mapKeys (mapDelete k m))"
  by (rule distinct_delete)

lemma mapGet_in_values: "mapGet m k = Some v \<Longrightarrow> v \<in> set (mapValues m)"
  by (force dest: map_of_SomeD)

lemma in_values_mapGet:
  "distinct (mapKeys m) \<Longrightarrow> v \<in> set (mapValues m) \<longleftrightarrow> (\<exists>k. mapGet m k = Some v)"
  by (force dest: map_of_SomeD)

lemma length_mapSet: "length (mapSet k v m) = (if mapGet m k = None then Suc (length m) else length m)"
  by (induction m) auto

lemmas map_simps = mapGet_mapSet mapGet_mapDelete distinct_mapSet distinct_mapDelete

end
