(* ===== verification/Uml_Model.thy ===== *)
theory Uml_Model
  imports Js_Prelude
begin

text \<open>
  The canonical UML document of \<open>collaboration.types.ts\<close>: one record per interface, one
  datatype per union, optional properties as options. A coordinate is a finite JSON number, so a
  rational; it is only copied and compared. The schema fixes \<open>schemaVersion\<close>, so the record
  has no field for it. The order of the keys of an object is not part of a record. Object
  copies (\<open>structuredClone\<close>) are the values themselves.
\<close>

section \<open>JSON values\<close>

datatype json = JNull | JBool bool | JNum rat | JStr jstring | JArr "json list"
  | JObj "(jstring \<times> json) list"

definition jopt :: "jstring \<Rightarrow> ('a \<Rightarrow> json) \<Rightarrow> 'a option \<Rightarrow> (jstring \<times> json) list" where
  "jopt k f v = (case v of None \<Rightarrow> [] | Some x \<Rightarrow> [(k, f x)])"

section \<open>Types\<close>

record type_reference =
  tr_name :: jstring
  tr_elementId :: "jstring option"
  tr_collection :: "bool option"
  tr_nullable :: "bool option"

record uml_parameter =
  pa_id :: jstring
  pa_name :: jstring
  pa_type :: type_reference
  pa_defaultValue :: "jstring option"

datatype visibility = Public | Protected | Private | Package

record uml_attribute =
  at_id :: jstring
  at_name :: jstring
  at_visibility :: visibility
  at_type :: type_reference
  at_isStatic :: bool
  at_isReadOnly :: bool
  at_defaultValue :: "jstring option"

record uml_operation =
  op_id :: jstring
  op_name :: jstring
  op_visibility :: visibility
  op_parameters :: "uml_parameter list"
  op_returnType :: type_reference
  op_isAbstract :: bool
  op_isStatic :: bool

text \<open>\<open>UmlClassifier = UmlClass | UmlInterface\<close>: the common base and the discriminating kind,
  which holds \<open>isAbstract\<close> for a class.\<close>

datatype classifier_kind = KClass bool | KInterface

record uml_classifier =
  cl_id :: jstring
  cl_name :: jstring
  cl_kind :: classifier_kind
  cl_stereotypes :: "jstring list option"
  cl_attributes :: "uml_attribute list"
  cl_operations :: "uml_operation list"

definition is_class :: "uml_classifier \<Rightarrow> bool" where
  "is_class c \<longleftrightarrow> (case cl_kind c of KClass _ \<Rightarrow> True | KInterface \<Rightarrow> False)"

record uml_position =
  po_elementId :: jstring
  po_x :: rat
  po_y :: rat
  po_width :: "rat option"
  po_height :: "rat option"

record relationship_end =
  re_elementId :: jstring
  re_role :: jstring
  re_multiplicity :: jstring
  re_navigable :: bool

datatype relationship_kind =
  Association | Aggregation | Composition | Generalization | Realization | Dependency

record uml_relationship =
  rl_id :: jstring
  rl_kind :: relationship_kind
  rl_name :: "jstring option"
  rl_source :: relationship_end
  rl_target :: relationship_end
  rl_associationClassId :: "jstring option"

record uml_project =
  pr_id :: jstring
  pr_name :: jstring
  pr_description :: "jstring option"

record uml_diagram =
  dg_id :: jstring
  dg_name :: jstring
  dg_elements :: "uml_classifier list"
  dg_relationships :: "uml_relationship list"
  dg_positions :: "uml_position list"

record uml_metadata =
  me_createdAt :: jstring
  me_updatedAt :: jstring
  me_revision :: int
  me_tags :: "jstring list option"

record canonical_model =
  cm_project :: uml_project
  cm_diagram :: uml_diagram
  cm_metadata :: uml_metadata

section \<open>Commands\<close>

datatype command_body =
    ClassifierCreate uml_classifier uml_position
  | ClassifierUpdate jstring uml_classifier
  | ClassifierMove jstring rat rat
  | ClassifierDelete jstring
  | ClassifierDuplicate jstring uml_classifier uml_position
  | AttributeAdd jstring uml_attribute
  | AttributeUpdate jstring jstring uml_attribute
  | AttributeDelete jstring jstring
  | OperationAdd jstring uml_operation
  | OperationUpdate jstring jstring uml_operation
  | OperationDelete jstring jstring
  | RelationshipCreate uml_relationship
  | RelationshipUpdate jstring uml_relationship
  | RelationshipDelete jstring
  | AssociationClassCreate jstring uml_classifier uml_position
  | DiagramClear

record uml_command =
  cmd_timestamp :: jstring
  cmd_body :: command_body

section \<open>The document as a JSON value\<close>

definition json_type_reference :: "type_reference \<Rightarrow> json" where
  "json_type_reference t = JObj ([(js ''name'', JStr (tr_name t))]
     @ jopt (js ''elementId'') JStr (tr_elementId t)
     @ jopt (js ''collection'') JBool (tr_collection t)
     @ jopt (js ''nullable'') JBool (tr_nullable t))"

definition json_parameter :: "uml_parameter \<Rightarrow> json" where
  "json_parameter p = JObj ([(js ''id'', JStr (pa_id p)), (js ''name'', JStr (pa_name p)),
      (js ''type'', json_type_reference (pa_type p))]
     @ jopt (js ''defaultValue'') JStr (pa_defaultValue p))"

definition visibility_text :: "visibility \<Rightarrow> jstring" where
  "visibility_text v = (case v of Public \<Rightarrow> js ''public'' | Protected \<Rightarrow> js ''protected''
     | Private \<Rightarrow> js ''private'' | Package \<Rightarrow> js ''package'')"

definition json_attribute :: "uml_attribute \<Rightarrow> json" where
  "json_attribute a = JObj ([(js ''id'', JStr (at_id a)), (js ''name'', JStr (at_name a)),
      (js ''visibility'', JStr (visibility_text (at_visibility a))),
      (js ''type'', json_type_reference (at_type a)),
      (js ''isStatic'', JBool (at_isStatic a)), (js ''isReadOnly'', JBool (at_isReadOnly a))]
     @ jopt (js ''defaultValue'') JStr (at_defaultValue a))"

definition json_operation :: "uml_operation \<Rightarrow> json" where
  "json_operation p = JObj [(js ''id'', JStr (op_id p)), (js ''name'', JStr (op_name p)),
      (js ''visibility'', JStr (visibility_text (op_visibility p))),
      (js ''parameters'', JArr (map json_parameter (op_parameters p))),
      (js ''returnType'', json_type_reference (op_returnType p)),
      (js ''isAbstract'', JBool (op_isAbstract p)), (js ''isStatic'', JBool (op_isStatic p))]"

definition kind_fields :: "classifier_kind \<Rightarrow> (jstring \<times> json) list" where
  "kind_fields k = (case k of
       KClass a \<Rightarrow> [(js ''kind'', JStr (js ''class'')), (js ''isAbstract'', JBool a)]
     | KInterface \<Rightarrow> [(js ''kind'', JStr (js ''interface''))])"

definition json_classifier :: "uml_classifier \<Rightarrow> json" where
  "json_classifier c = JObj ([(js ''id'', JStr (cl_id c)), (js ''name'', JStr (cl_name c))]
     @ kind_fields (cl_kind c)
     @ jopt (js ''stereotypes'') (\<lambda>ts. JArr (map JStr ts)) (cl_stereotypes c)
     @ [(js ''attributes'', JArr (map json_attribute (cl_attributes c))),
        (js ''operations'', JArr (map json_operation (cl_operations c)))])"

definition json_position :: "uml_position \<Rightarrow> json" where
  "json_position p = JObj ([(js ''elementId'', JStr (po_elementId p)),
      (js ''x'', JNum (po_x p)), (js ''y'', JNum (po_y p))]
     @ jopt (js ''width'') JNum (po_width p) @ jopt (js ''height'') JNum (po_height p))"

definition json_end :: "relationship_end \<Rightarrow> json" where
  "json_end e = JObj [(js ''elementId'', JStr (re_elementId e)), (js ''role'', JStr (re_role e)),
      (js ''multiplicity'', JStr (re_multiplicity e)), (js ''navigable'', JBool (re_navigable e))]"

definition kind_text :: "relationship_kind \<Rightarrow> jstring" where
  "kind_text k = (case k of Association \<Rightarrow> js ''association'' | Aggregation \<Rightarrow> js ''aggregation''
     | Composition \<Rightarrow> js ''composition'' | Generalization \<Rightarrow> js ''generalization''
     | Realization \<Rightarrow> js ''realization'' | Dependency \<Rightarrow> js ''dependency'')"

definition json_relationship :: "uml_relationship \<Rightarrow> json" where
  "json_relationship r = JObj ([(js ''id'', JStr (rl_id r)),
      (js ''kind'', JStr (kind_text (rl_kind r)))]
     @ jopt (js ''name'') JStr (rl_name r)
     @ [(js ''source'', json_end (rl_source r)), (js ''target'', json_end (rl_target r))]
     @ jopt (js ''associationClassId'') JStr (rl_associationClassId r))"

definition json_diagram :: "uml_diagram \<Rightarrow> json" where
  "json_diagram d = JObj [(js ''id'', JStr (dg_id d)), (js ''name'', JStr (dg_name d)),
      (js ''elements'', JArr (map json_classifier (dg_elements d))),
      (js ''relationships'', JArr (map json_relationship (dg_relationships d))),
      (js ''visual'', JObj [(js ''positions'', JArr (map json_position (dg_positions d)))])]"

definition json_model :: "canonical_model \<Rightarrow> json" where
  "json_model m = JObj [(js ''schemaVersion'', JStr (js ''0.1.0'')),
      (js ''project'', JObj ([(js ''id'', JStr (pr_id (cm_project m))),
          (js ''name'', JStr (pr_name (cm_project m)))]
        @ jopt (js ''description'') JStr (pr_description (cm_project m)))),
      (js ''diagram'', json_diagram (cm_diagram m)),
      (js ''metadata'', JObj ([(js ''createdAt'', JStr (me_createdAt (cm_metadata m))),
          (js ''updatedAt'', JStr (me_updatedAt (cm_metadata m))),
          (js ''revision'', JNum (of_int (me_revision (cm_metadata m))))]
        @ jopt (js ''tags'') (\<lambda>ts. JArr (map JStr ts)) (me_tags (cm_metadata m))))]"

lemma kind_text_inject [simp]: "kind_text k = kind_text k' \<longleftrightarrow> k = k'"
  by (cases k; cases k') (simp_all add: kind_text_def)

text \<open>The classifier with an identifier, the first one if several had it.\<close>

definition classifierById :: "uml_classifier list \<Rightarrow> jstring \<Rightarrow> uml_classifier option" where
  "classifierById els i = find (\<lambda>c. cl_id c = i) els"

lemma classifierById_None: "classifierById els i = None \<longleftrightarrow> i \<notin> set (map cl_id els)"
  by (auto simp: classifierById_def find_None_iff)

lemma classifierById_SomeD: "classifierById els i = Some c \<Longrightarrow> c \<in> set els \<and> cl_id c = i"
  by (auto simp: classifierById_def find_Some_iff)

lemma classifierById_eq:
  "distinct (map cl_id els) \<Longrightarrow> classifierById els i = Some c \<longleftrightarrow> c \<in> set els \<and> cl_id c = i"
  by (induction els) (auto simp: classifierById_def)

text \<open>The identifiers a classifier registers, in the order the validator meets them, and its type
  references.\<close>

definition op_ids :: "uml_operation \<Rightarrow> jstring list" where
  "op_ids p = op_id p # map pa_id (op_parameters p)"

definition cl_ids :: "uml_classifier \<Rightarrow> jstring list" where
  "cl_ids c = cl_id c # map at_id (cl_attributes c) @ concat (map op_ids (cl_operations c))"

definition op_refs :: "uml_operation \<Rightarrow> type_reference list" where
  "op_refs p = op_returnType p # map pa_type (op_parameters p)"

definition cl_refs :: "uml_classifier \<Rightarrow> type_reference list" where
  "cl_refs c = map at_type (cl_attributes c) @ concat (map op_refs (cl_operations c))"

end
