(* ===== verification/Cycle_Check.thy ===== *)
theory Cycle_Check
  imports Uml_Model
begin

text \<open>
  \<open>assertAcyclic\<close> of \<open>canonical-model.validation.ts\<close>: the depth-first search for a
  cycle of generalizations or compositions. The adjacency map and the search are as in the source.
  \<open>visiting\<close> is an argument of the search: the source adds an identifier before the loop
  over its targets and deletes it after, so a caller sees it unchanged whenever it goes on;
  \<open>visited\<close> only grows and is passed along. The result is proved to be the acyclicity of the
  relation the relationships of that kind span.
\<close>

section \<open>The search\<close>

definition targetsOf :: "(jstring, jstring list) jmap \<Rightarrow> jstring \<Rightarrow> jstring list" where
  "targetsOf adj i = (case mapGet adj i of None \<Rightarrow> [] | Some ts \<Rightarrow> ts)"

definition addEdge ::
  "relationship_kind \<Rightarrow> (jstring, jstring list) jmap \<Rightarrow> uml_relationship \<Rightarrow> (jstring, jstring list) jmap"
where
  "addEdge kind adj r =
     (if rl_kind r \<noteq> kind then adj
      else mapSet (re_elementId (rl_source r))
             (targetsOf adj (re_elementId (rl_source r)) @ [re_elementId (rl_target r)]) adj)"

definition adjacency ::
  "uml_relationship list \<Rightarrow> relationship_kind \<Rightarrow> (jstring, jstring list) jmap" where
  "adjacency rs kind = foldl (addEdge kind) [] rs"

lemma targetsOf_key: "targetsOf adj i \<noteq> [] \<Longrightarrow> i \<in> set (mapKeys adj)"
  by (cases "mapGet adj i") (force simp: targetsOf_def dest: map_of_SomeD)+

text \<open>The search stops because every call that goes deeper adds a key of the finite adjacency map
  to \<open>visiting\<close>.\<close>

function (sequential) visit ::
    "(jstring, jstring list) jmap \<Rightarrow> jstring set \<Rightarrow> jstring set \<Rightarrow> jstring \<Rightarrow> bool \<times> jstring set"
  and visitAll ::
    "(jstring, jstring list) jmap \<Rightarrow> jstring set \<Rightarrow> jstring set \<Rightarrow> jstring list \<Rightarrow> bool \<times> jstring set"
where
  "visit adj visiting visited i =
     (if i \<in> visiting then (True, visited)
      else if i \<in> visited then (False, visited)
      else (case visitAll adj (insert i visiting) visited (targetsOf adj i) of
              (True, visited') \<Rightarrow> (True, visited')
            | (False, visited') \<Rightarrow> (False, insert i visited')))"
| "visitAll adj visiting visited [] = (False, visited)"
| "visitAll adj visiting visited (t # ts) =
     (case visit adj visiting visited t of
        (True, visited') \<Rightarrow> (True, visited')
      | (False, visited') \<Rightarrow> visitAll adj visiting visited' ts)"
  by pat_completeness auto

definition unvisited_keys :: "(jstring, jstring list) jmap \<Rightarrow> jstring set \<Rightarrow> nat" where
  "unvisited_keys adj visiting = card (set (mapKeys adj) - visiting)"

lemma unvisited_keys_less:
  "i \<in> set (mapKeys adj) \<Longrightarrow> i \<notin> visiting \<Longrightarrow>
     unvisited_keys adj (insert i visiting) < unvisited_keys adj visiting"
  unfolding unvisited_keys_def by (rule psubset_card_mono) auto

lemma unvisited_keys_le:
  "unvisited_keys adj (insert i visiting) \<le> unvisited_keys adj visiting"
  unfolding unvisited_keys_def by (rule card_mono) auto

lemma deeper_call:
  assumes "targetsOf adj i \<noteq> []" and "i \<notin> visiting"
  shows "Suc (2 * unvisited_keys adj (insert i visiting)) < 2 * unvisited_keys adj visiting"
  using unvisited_keys_less [OF targetsOf_key [OF assms(1)] assms(2)] by simp

termination visit
  by (relation "measures
       [\<lambda>x. case x of Inl (adj, vg, vd, i) \<Rightarrow> 2 * unvisited_keys adj vg + 1
          | Inr (adj, vg, vd, ts) \<Rightarrow> 2 * unvisited_keys adj vg + (if ts = [] then 0 else 2),
        \<lambda>x. case x of Inl _ \<Rightarrow> 0 | Inr (adj, vg, vd, ts) \<Rightarrow> length ts]")
    (auto simp: unvisited_keys_le le_imp_less_Suc deeper_call)

declare visit.simps [simp del] visitAll.simps [simp del]

text \<open>\<open>for (const id of adjacency.keys()) if (visit(id)) throw\<close>: \<open>visited\<close> is kept from
  one start to the next, \<open>visiting\<close> is empty between them.\<close>

definition hasCycle :: "uml_relationship list \<Rightarrow> relationship_kind \<Rightarrow> bool" where
  "hasCycle rs kind = fst (visitAll (adjacency rs kind) {} {} (mapKeys (adjacency rs kind)))"

section \<open>The relation the relationships span\<close>

definition edges :: "uml_relationship list \<Rightarrow> relationship_kind \<Rightarrow> (jstring \<times> jstring) set" where
  "edges rs kind = {(re_elementId (rl_source r), re_elementId (rl_target r)) | r.
                      r \<in> set rs \<and> rl_kind r = kind}"

definition graph :: "(jstring, jstring list) jmap \<Rightarrow> (jstring \<times> jstring) set" where
  "graph adj = {(s, t). t \<in> set (targetsOf adj s)}"

lemma targetsOf_addEdge:
  "targetsOf (addEdge kind adj r) i = targetsOf adj i @
     (if rl_kind r = kind \<and> re_elementId (rl_source r) = i then [re_elementId (rl_target r)] else [])"
  by (simp add: addEdge_def targetsOf_def map_simps)

lemma targetsOf_foldl:
  "set (targetsOf (foldl (addEdge kind) adj rs) i) =
     set (targetsOf adj i) \<union> {t. (i, t) \<in> edges rs kind}"
  by (induction rs arbitrary: adj) (auto simp: targetsOf_addEdge edges_def)

lemma graph_adjacency: "graph (adjacency rs kind) = edges rs kind"
  by (auto simp: graph_def adjacency_def targetsOf_foldl) (auto simp: targetsOf_def)

section \<open>Correctness\<close>

lemma visit_sound:
  "fst (visit adj vg vd i) \<Longrightarrow> (\<forall>v \<in> vg. (v, i) \<in> (graph adj)\<^sup>+) \<Longrightarrow> \<not> acyclic (graph adj)"
  "fst (visitAll adj vg vd ts) \<Longrightarrow> (\<forall>v \<in> vg. \<forall>t \<in> set ts. (v, t) \<in> (graph adj)\<^sup>+) \<Longrightarrow>
     \<not> acyclic (graph adj)"
proof (induction adj vg vd i and adj vg vd ts rule: visit_visitAll.induct)
  case (1 adj vg vd i)
  show ?case
  proof (cases "i \<in> vg \<or> i \<in> vd")
    case True
    with "1.prems" show ?thesis
      by (auto simp: visit.simps [of adj vg] acyclic_def split: if_splits)
  next
    case False
    have "fst (visitAll adj (insert i vg) vd (targetsOf adj i))"
      using False "1.prems"(1) by (simp add: visit.simps [of adj vg] split: prod.splits bool.splits)
    moreover have "\<forall>v \<in> insert i vg. \<forall>t \<in> set (targetsOf adj i). (v, t) \<in> (graph adj)\<^sup>+"
      using "1.prems"(2) by (auto simp: graph_def intro: trancl_into_trancl)
    ultimately show ?thesis using False "1.IH" by blast
  qed
next
  case (3 adj vg vd t ts)
  obtain c vd' where v: "visit adj vg vd t = (c, vd')" by fastforce
  show ?case
  proof (cases c)
    case True
    with v 3 show ?thesis by simp
  next
    case False
    with v "3.prems"(1) have "fst (visitAll adj vg vd' ts)" by (simp add: visitAll.simps)
    with v False "3.prems"(2) "3.IH"(2) show ?thesis by simp
  qed
qed (simp add: visitAll.simps)

text \<open>What holds of \<open>visited\<close>: it is closed under the edges and no cycle passes through it.\<close>

definition explored :: "(jstring \<times> jstring) set \<Rightarrow> jstring set \<Rightarrow> bool" where
  "explored E vd \<longleftrightarrow> E `` vd \<subseteq> vd \<and> (\<forall>v \<in> vd. (v, v) \<notin> E\<^sup>+)"

lemma explored_reach: "explored E vd \<Longrightarrow> (x, y) \<in> E\<^sup>* \<Longrightarrow> x \<in> vd \<Longrightarrow> y \<in> vd"
  by (rotate_tac) (induction rule: rtrancl_induct, auto simp: explored_def)

lemma explored_insert:
  assumes "explored E vd" and "E `` {i} \<subseteq> vd" and "i \<notin> vd"
  shows "explored E (insert i vd)"
proof -
  have "(i, i) \<notin> E\<^sup>+"
  proof
    assume "(i, i) \<in> E\<^sup>+"
    then obtain t where "(i, t) \<in> E" and "(t, i) \<in> E\<^sup>*" by (meson tranclD)
    with assms explored_reach [OF assms(1)] show False by auto
  qed
  with assms show ?thesis by (auto simp: explored_def)
qed

lemma visit_complete:
  "visit adj vg vd i = (False, vd') \<Longrightarrow> explored (graph adj) vd \<Longrightarrow> vg \<inter> vd = {} \<Longrightarrow>
     explored (graph adj) vd' \<and> vd \<subseteq> vd' \<and> i \<in> vd' \<and> vg \<inter> vd' = {}"
  "visitAll adj vg vd ts = (False, vd') \<Longrightarrow> explored (graph adj) vd \<Longrightarrow> vg \<inter> vd = {} \<Longrightarrow>
     explored (graph adj) vd' \<and> vd \<subseteq> vd' \<and> set ts \<subseteq> vd' \<and> vg \<inter> vd' = {}"
proof (induction adj vg vd i and adj vg vd ts arbitrary: vd' and vd' rule: visit_visitAll.induct)
  case (1 adj vg vd i)
  show ?case
  proof (cases "i \<in> vd")
    case True
    with "1.prems" show ?thesis by (auto simp: visit.simps [of adj vg] split: if_splits)
  next
    case False
    from False "1.prems"(1) obtain w where
      w: "visitAll adj (insert i vg) vd (targetsOf adj i) = (False, w)" and
      vd': "vd' = insert i w" and i: "i \<notin> vg"
      by (auto simp: visit.simps [of adj vg] split: if_splits prod.splits bool.splits)
    have "explored (graph adj) w \<and> vd \<subseteq> w \<and> set (targetsOf adj i) \<subseteq> w \<and> insert i vg \<inter> w = {}"
      using "1.IH" [OF i False w] "1.prems"(2,3) False by auto
    moreover then have "explored (graph adj) (insert i w)"
      by (intro explored_insert) (auto simp: graph_def)
    ultimately show ?thesis using vd' i by auto
  qed
next
  case (2 adj vg vd)
  then show ?case by (simp add: visitAll.simps)
next
  case (3 adj vg vd t ts)
  from "3.prems"(1) obtain w where
    w: "visit adj vg vd t = (False, w)" and rest: "visitAll adj vg w ts = (False, vd')"
    by (auto simp: visitAll.simps split: prod.splits bool.splits)
  from "3.IH"(1) [OF w] "3.prems"(2,3)
  have "explored (graph adj) w \<and> vd \<subseteq> w \<and> t \<in> w \<and> vg \<inter> w = {}" by blast
  with "3.IH"(2) [OF w [symmetric] _ rest] show ?case by auto
qed

lemma graph_source_key: "(s, t) \<in> graph adj \<Longrightarrow> s \<in> set (mapKeys adj)"
  by (rule targetsOf_key) (auto simp: graph_def)

lemma visitAll_keys_iff:
  "fst (visitAll adj {} {} (mapKeys adj)) \<longleftrightarrow> \<not> acyclic (graph adj)"
proof
  assume "fst (visitAll adj {} {} (mapKeys adj))"
  then show "\<not> acyclic (graph adj)" by (rule visit_sound) simp
next
  assume cyc: "\<not> acyclic (graph adj)"
  show "fst (visitAll adj {} {} (mapKeys adj))"
  proof (rule ccontr)
    assume "\<not> fst (visitAll adj {} {} (mapKeys adj))"
    then obtain w where "visitAll adj {} {} (mapKeys adj) = (False, w)"
      by (cases "visitAll adj {} {} (mapKeys adj)") auto
    then have "explored (graph adj) w \<and> {} \<subseteq> w \<and> set (mapKeys adj) \<subseteq> w \<and> {} \<inter> w = {}"
      by (rule visit_complete(2)) (simp_all add: explored_def)
    moreover from cyc obtain x where "(x, x) \<in> (graph adj)\<^sup>+" by (auto simp: acyclic_def)
    moreover then have "x \<in> set (mapKeys adj)" by (meson graph_source_key tranclD)
    ultimately show False by (simp add: explored_def subset_iff)
  qed
qed

lemma hasCycle_iff: "hasCycle rs kind \<longleftrightarrow> \<not> acyclic (edges rs kind)"
  by (simp add: hasCycle_def visitAll_keys_iff graph_adjacency)

end
