(* ===== verification/Well_Formed.thy ===== *)
theory Well_Formed
  imports Canonical_Validation
begin

text \<open>
  What an accepted document satisfies, stated without loops (\<open>well_formed\<close>), and the proof
  that the validator decides exactly this (\<open>integrity_iff_well_formed\<close> below, and the
  property of the root theory). The passes that register identifiers share one contract, the
  locale \<open>id_registration\<close>, which is interpreted for parameters, operations, attributes and
  elements.
\<close>

section \<open>The contract of an accepted document\<close>

fun json_strings :: "json \<Rightarrow> jstring list"
  and items_strings :: "json list \<Rightarrow> jstring list"
  and fields_strings :: "(jstring \<times> json) list \<Rightarrow> jstring list" where
  "json_strings (JStr s) = [s]"
| "json_strings (JArr xs) = items_strings xs"
| "json_strings (JObj kvs) = fields_strings kvs"
| "json_strings JNull = []"
| "json_strings (JBool b) = []"
| "json_strings (JNum n) = []"
| "items_strings [] = []"
| "items_strings (x # xs) = json_strings x @ items_strings xs"
| "fields_strings [] = []"
| "fields_strings ((k, v) # kvs) = json_strings v @ fields_strings kvs"

definition xml_safe :: "json \<Rightarrow> bool" where
  "xml_safe v \<longleftrightarrow> (\<forall>s \<in> set (json_strings v). \<forall>p \<in> set (code_points s). valid_xml_code_point p)"

definition blank :: "jstring \<Rightarrow> bool" where
  "blank s \<longleftrightarrow> js_trim s = []"

definition unique_names :: "(jstring \<Rightarrow> jstring) \<Rightarrow> jstring list \<Rightarrow> bool" where
  "unique_names lowerEs vs \<longleftrightarrow> distinct (map (normalizedName lowerEs) vs)"

definition names_ok_op :: "(jstring \<Rightarrow> jstring) \<Rightarrow> uml_operation \<Rightarrow> bool" where
  "names_ok_op lowerEs p \<longleftrightarrow> \<not> blank (op_name p)
     \<and> unique_names lowerEs (map pa_name (op_parameters p))
     \<and> (\<forall>q \<in> set (op_parameters p). \<not> blank (pa_name q))"

definition names_ok :: "(jstring \<Rightarrow> jstring) \<Rightarrow> uml_classifier \<Rightarrow> bool" where
  "names_ok lowerEs c \<longleftrightarrow> \<not> blank (cl_name c) \<and> unique_names lowerEs (map at_name (cl_attributes c))
     \<and> (\<forall>a \<in> set (cl_attributes c). \<not> blank (at_name a))
     \<and> (\<forall>p \<in> set (cl_operations c). names_ok_op lowerEs p)"

definition ref_ok :: "uml_classifier list \<Rightarrow> type_reference \<Rightarrow> bool" where
  "ref_ok els t \<longleftrightarrow> \<not> blank (tr_name t) \<and>
     (truthy (tr_elementId t) \<longrightarrow>
       (\<exists>c. classifierById els (the (tr_elementId t)) = Some c \<and> cl_name c = tr_name t))"

definition range_ok :: "jstring \<Rightarrow> bool" where
  "range_ok v \<longleftrightarrow> (case js_split v (js ''..'') of
       lower # upper # _ \<Rightarrow> upper = js ''*''
         \<or> (\<exists>l u. js_BigInt lower = Some l \<and> js_BigInt upper = Some u \<and> l \<le> u)
     | _ \<Rightarrow> True)"

abbreviation source_id :: "uml_relationship \<Rightarrow> jstring" where
  "source_id r \<equiv> re_elementId (rl_source r)"

abbreviation target_id :: "uml_relationship \<Rightarrow> jstring" where
  "target_id r \<equiv> re_elementId (rl_target r)"

definition association_class_ids :: "uml_relationship \<Rightarrow> jstring list" where
  "association_class_ids r =
     (if truthy (rl_associationClassId r) then [the (rl_associationClassId r)] else [])"

definition ends_ok :: "uml_classifier list \<Rightarrow> uml_relationship \<Rightarrow> bool" where
  "ends_ok els r \<longleftrightarrow> (\<exists>s t. classifierById els (source_id r) = Some s
       \<and> classifierById els (target_id r) = Some t
       \<and> (source_id r = target_id r \<longrightarrow> rl_kind r = Association \<or> rl_kind r = Dependency)
       \<and> (rl_kind r = Realization \<longrightarrow> is_class s \<and> \<not> is_class t)
       \<and> (rl_kind r = Generalization \<longrightarrow> is_class s = is_class t))"

definition association_class_ok :: "uml_classifier list \<Rightarrow> uml_relationship \<Rightarrow> bool" where
  "association_class_ok els r \<longleftrightarrow> (\<forall>i \<in> set (association_class_ids r).
       rl_kind r = Association \<and> (\<exists>c. classifierById els i = Some c \<and> is_class c)
       \<and> isManyMultiplicity (re_multiplicity (rl_source r))
       \<and> isManyMultiplicity (re_multiplicity (rl_target r))
       \<and> i \<noteq> source_id r \<and> i \<noteq> target_id r)"

definition relationship_ok :: "uml_classifier list \<Rightarrow> uml_relationship \<Rightarrow> bool" where
  "relationship_ok els r \<longleftrightarrow> ends_ok els r \<and> range_ok (re_multiplicity (rl_source r))
     \<and> range_ok (re_multiplicity (rl_target r)) \<and> association_class_ok els r"

text \<open>\<open>later\<close> repeats the meaning of \<open>earlier\<close>, for an association in either direction.\<close>

definition repeats :: "uml_relationship \<Rightarrow> uml_relationship \<Rightarrow> bool" where
  "repeats earlier later \<longleftrightarrow>
     relationshipSignature later False = relationshipSignature earlier False
     \<or> (rl_kind later = Association
        \<and> relationshipSignature later True = relationshipSignature earlier False)"

definition registered_ids :: "canonical_model \<Rightarrow> jstring list" where
  "registered_ids doc = pr_id (cm_project doc) # dg_id (cm_diagram doc)
     # concat (map cl_ids (dg_elements (cm_diagram doc)))
     @ map rl_id (dg_relationships (cm_diagram doc))"

definition positions_ok :: "uml_classifier list \<Rightarrow> uml_position list \<Rightarrow> bool" where
  "positions_ok els ps \<longleftrightarrow>
     distinct (map po_elementId ps) \<and> set (map po_elementId ps) = set (map cl_id els)"

definition relationships_ok :: "uml_classifier list \<Rightarrow> uml_relationship list \<Rightarrow> bool" where
  "relationships_ok els rs \<longleftrightarrow> (\<forall>r \<in> set rs. relationship_ok els r)
     \<and> sorted_wrt (\<lambda>r r'. \<not> repeats r r') rs
     \<and> distinct (concat (map association_class_ids rs))
     \<and> acyclic (edges rs Generalization) \<and> acyclic (edges rs Composition)"

definition well_formed :: "(jstring \<Rightarrow> jstring) \<Rightarrow> canonical_model \<Rightarrow> bool" where
  "well_formed lowerEs doc \<longleftrightarrow>
     (let els = dg_elements (cm_diagram doc) in
      xml_safe (json_model doc)
      \<and> distinct (registered_ids doc)
      \<and> \<not> blank (pr_name (cm_project doc)) \<and> \<not> blank (dg_name (cm_diagram doc))
      \<and> (\<forall>c \<in> set els. names_ok lowerEs c)
      \<and> unique_names lowerEs (map cl_name els)
      \<and> (\<forall>c \<in> set els. \<forall>t \<in> set (cl_refs c). ref_ok els t)
      \<and> positions_ok els (dg_positions (cm_diagram doc))
      \<and> relationships_ok els (dg_relationships (cm_diagram doc)))"

section \<open>The simple checks\<close>

lemma xml10_iff:
  "assertXml10SafeStrings v path = Inr u \<longleftrightarrow> xml_safe v"
  "xml10Items vs path i = Inr u \<longleftrightarrow> (\<forall>s \<in> set (items_strings vs). \<forall>p \<in> set (code_points s). valid_xml_code_point p)"
  "xml10Fields kvs path = Inr u \<longleftrightarrow> (\<forall>s \<in> set (fields_strings kvs). \<forall>p \<in> set (code_points s). valid_xml_code_point p)"
  by (induction v path and vs path i and kvs path
      rule: assertXml10SafeStrings_xml10Items_xml10Fields.induct)
    (auto simp: res_simps xml_safe_def containsInvalidXml10Character_def list_ex_iff)

lemma registerId_iff [res_simps]:
  "registerId i path ids = Inr ids' \<longleftrightarrow> i \<notin> ids \<and> ids' = insert i ids"
  by (auto simp: registerId_def res_simps)

lemma uniqueNamesLoop_iff:
  "uniqueNamesLoop lowerEs vs path names = Inr u \<longleftrightarrow>
     distinct (map (normalizedName lowerEs) vs) \<and> names \<inter> normalizedName lowerEs ` set vs = {}"
  by (induction vs arbitrary: names) (auto simp: res_simps)

lemma assertUniqueNames_iff [res_simps]:
  "assertUniqueNames lowerEs vs path = Inr u \<longleftrightarrow> unique_names lowerEs vs"
  by (simp add: assertUniqueNames_def uniqueNamesLoop_iff unique_names_def)

lemma assertNonBlankName_iff [res_simps]: "assertNonBlankName v path = Inr u \<longleftrightarrow> \<not> blank v"
  by (simp add: assertNonBlankName_def blank_def res_simps)

lemma assertMultiplicityRange_iff [res_simps]:
  "assertMultiplicityRange v path = Inr u \<longleftrightarrow> range_ok v"
  by (auto simp: assertMultiplicityRange_def range_ok_def res_simps
      split: list.splits option.splits if_splits)

lemma assertAcyclic_iff [res_simps]:
  "assertAcyclic rs kind = Inr u \<longleftrightarrow> acyclic (edges rs kind)"
  by (simp add: assertAcyclic_def res_simps hasCycle_iff)

section \<open>Passes that register identifiers\<close>

text \<open>A check of one item that fails unless the item is in order, its identifiers are new and
  different from each other, and that adds them to the set; a loop of such a check is again one.\<close>

locale id_registration =
  fixes check :: "nat \<Rightarrow> 'a \<Rightarrow> jstring set \<Rightarrow> validation_error + jstring set"
    and ids_of :: "'a \<Rightarrow> jstring list"
    and in_order :: "'a \<Rightarrow> bool"
  assumes check_iff: "check i x ids = Inr ids' \<longleftrightarrow>
    in_order x \<and> distinct (ids_of x) \<and> set (ids_of x) \<inter> ids = {} \<and> ids' = ids \<union> set (ids_of x)"
begin

lemma loop_iff: "forEntries check i xs ids = Inr ids' \<longleftrightarrow>
  (\<forall>x \<in> set xs. in_order x) \<and> distinct (concat (map ids_of xs))
  \<and> set (concat (map ids_of xs)) \<inter> ids = {} \<and> ids' = ids \<union> set (concat (map ids_of xs))"
proof (induction xs arbitrary: i ids)
  case Nil
  show ?case by auto
next
  case (Cons x xs)
  show ?case
    by (simp add: res_simps check_iff Cons.IH) (auto simp: Un_assoc)
qed

end

interpretation parameter_pass: id_registration
  "checkParameter path" "\<lambda>p. [pa_id p]" "\<lambda>p. \<not> blank (pa_name p)" for path
  by unfold_locales (auto simp: checkParameter_def Let_def res_simps)

interpretation attribute_pass: id_registration
  "checkAttribute path" "\<lambda>a. [at_id a]" "\<lambda>a. \<not> blank (at_name a)" for path
  by unfold_locales (auto simp: checkAttribute_def Let_def res_simps)

lemma concat_map_singleton [simp]: "concat (map (\<lambda>x. [f x]) xs) = map f xs"
  by (induction xs) simp_all

interpretation operation_pass: id_registration
  "checkOperation lowerEs path" op_ids "names_ok_op lowerEs" for lowerEs path
  by unfold_locales
    (auto simp: checkOperation_def Let_def res_simps parameter_pass.loop_iff op_ids_def names_ok_op_def)

interpretation element_pass: id_registration
  "checkElement lowerEs" cl_ids "names_ok lowerEs" for lowerEs
  by unfold_locales
    (auto simp: checkElement_def Let_def res_simps attribute_pass.loop_iff operation_pass.loop_iff
      cl_ids_def names_ok_def)

section \<open>The map of the elements\<close>

lemma mapGet_foldl:
  "distinct (map cl_id els) \<Longrightarrow>
     mapGet (foldl (\<lambda>m c. mapSet (cl_id c) c m) m els) i =
       (case classifierById els i of None \<Rightarrow> mapGet m i | Some c \<Rightarrow> Some c)"
proof (induction els arbitrary: m)
  case Nil
  show ?case by (simp add: classifierById_def)
next
  case (Cons c els)
  then have "classifierById els (cl_id c) = None" by (simp add: classifierById_None)
  with Cons show ?case by (auto simp: map_simps classifierById_def split: option.splits)
qed

lemma mapGet_elementsById:
  "distinct (map cl_id els) \<Longrightarrow> mapGet (elementsById els) i = classifierById els i"
  by (simp add: elementsById_def mapGet_foldl split: option.splits)

lemma distinct_foldl_mapSet:
  "distinct (mapKeys m) \<Longrightarrow> distinct (mapKeys (foldl (\<lambda>m c. mapSet (cl_id c) c m) m els))"
  by (induction els arbitrary: m) (simp_all add: map_simps)

lemma set_elementsById:
  assumes "distinct (map cl_id els)"
  shows "set (mapValues (elementsById els)) = set els"
proof -
  have keys: "distinct (mapKeys (elementsById els))"
    unfolding elementsById_def by (rule distinct_foldl_mapSet) simp
  have "c \<in> set (mapValues (elementsById els)) \<longleftrightarrow> c \<in> set els" for c
  proof -
    have "c \<in> set (mapValues (elementsById els)) \<longleftrightarrow> (\<exists>k. mapGet (elementsById els) k = Some c)"
      by (rule in_values_mapGet [OF keys])
    also have "\<dots> \<longleftrightarrow> c \<in> set els"
      by (simp add: mapGet_elementsById [OF assms] classifierById_eq [OF assms])
    finally show ?thesis .
  qed
  then show ?thesis by blast
qed

lemma distinct_cl_ids: "distinct (concat (map cl_ids els)) \<Longrightarrow> distinct (map cl_id els)"
proof (induction els)
  case (Cons c els)
  have mem: "cl_id d \<in> set (cl_ids d)" for d by (simp add: cl_ids_def)
  from Cons.prems have "set (cl_ids c) \<inter> set (concat (map cl_ids els)) = {}" by simp
  then have "cl_id c \<notin> cl_id ` set els"
    using mem by (auto simp: disjoint_iff) metis
  with Cons show ?case by simp
qed simp

section \<open>References and positions\<close>

lemma assertTypeReference_iff:
  "distinct (map cl_id els) \<Longrightarrow>
     assertTypeReference (elementsById els) t path = Inr u \<longleftrightarrow> ref_ok els t"
  by (auto simp: assertTypeReference_def ref_ok_def res_simps mapGet_elementsById split: option.splits)

lemma checkOperationReferences_iff:
  "distinct (map cl_id els) \<Longrightarrow>
     checkOperationReferences (elementsById els) path i p () = Inr () \<longleftrightarrow> (\<forall>t \<in> set (op_refs p). ref_ok els t)"
  by (auto simp: checkOperationReferences_def Let_def res_simps assertTypeReference_iff op_refs_def
      forEntries_unit_iff [where P = "\<lambda>q. ref_ok els (pa_type q)"])

lemma checkElementReferences_iff:
  "distinct (map cl_id els) \<Longrightarrow>
     checkElementReferences (elementsById els) i c () = Inr () \<longleftrightarrow> (\<forall>t \<in> set (cl_refs c). ref_ok els t)"
  by (auto simp: checkElementReferences_def res_simps assertTypeReference_iff cl_refs_def
      forEntries_unit_iff [where P = "\<lambda>a. ref_ok els (at_type a)"]
      forEntries_unit_iff [where P = "\<lambda>p. \<forall>t \<in> set (op_refs p). ref_ok els t"]
      checkOperationReferences_iff)

lemma checkPosition_loop_iff:
  "forEntries (checkPosition elements) i ps seen = Inr seen' \<longleftrightarrow>
     (\<forall>p \<in> set ps. mapGet elements (po_elementId p) \<noteq> None) \<and> distinct (map po_elementId ps)
     \<and> set (map po_elementId ps) \<inter> seen = {} \<and> seen' = seen \<union> set (map po_elementId ps)"
  by (induction ps arbitrary: i seen) (auto simp: checkPosition_def Let_def res_simps)

lemma checkPositioned_loop_iff:
  "forEntries (checkPositioned seen) 0 cs () = Inr () \<longleftrightarrow> (\<forall>c \<in> set cs. cl_id c \<in> seen)"
  by (rule forEntries_unit_iff) (simp add: checkPositioned_def res_simps)

section \<open>Relationships\<close>

lemma checkEnds_iff:
  assumes "distinct (map cl_id els)"
  shows "checkEnds (elementsById els) r path = Inr (s, t) \<longleftrightarrow>
    classifierById els (source_id r) = Some s \<and> classifierById els (target_id r) = Some t \<and> ends_ok els r"
proof (cases "classifierById els (source_id r)")
  case source: (Some s')
  then have "cl_id s' = source_id r" by (simp add: classifierById_SomeD)
  show ?thesis
  proof (cases "classifierById els (target_id r)")
    case (Some t')
    then have "cl_id t' = target_id r" by (simp add: classifierById_SomeD)
    with source Some \<open>cl_id s' = source_id r\<close> show ?thesis
      by (auto simp: checkEnds_def ends_ok_def res_simps mapGet_elementsById [OF assms])
  qed (simp add: checkEnds_def ends_ok_def mapGet_elementsById [OF assms] split: option.splits)
qed (simp add: checkEnds_def ends_ok_def mapGet_elementsById [OF assms] split: option.splits)

lemma checkAssociationClass_iff:
  assumes "distinct (map cl_id els)"
    and "classifierById els (source_id r) = Some s" and "classifierById els (target_id r) = Some t"
  shows "checkAssociationClass (elementsById els) r path s t used = Inr used' \<longleftrightarrow>
    association_class_ok els r \<and> set (association_class_ids r) \<inter> used = {}
    \<and> used' = used \<union> set (association_class_ids r)"
proof (cases "truthy (rl_associationClassId r)")
  case True
  have ids: "cl_id s = source_id r" "cl_id t = target_id r"
    using assms(2,3) by (simp_all add: classifierById_SomeD)
  show ?thesis
  proof (cases "classifierById els (the (rl_associationClassId r))")
    case (Some c)
    then have "cl_id c = the (rl_associationClassId r)" by (simp add: classifierById_SomeD)
    with Some True ids show ?thesis
      by (auto simp: checkAssociationClass_def association_class_ok_def association_class_ids_def
          res_simps mapGet_elementsById [OF assms(1)])
  qed (use True in \<open>auto simp: checkAssociationClass_def association_class_ok_def
          association_class_ids_def mapGet_elementsById [OF assms(1)]\<close>)
qed (auto simp: checkAssociationClass_def association_class_ok_def association_class_ids_def)

definition pass_after :: "relationship_pass \<Rightarrow> uml_relationship list \<Rightarrow> relationship_pass" where
  "pass_after st rs =
     \<lparr>rp_ids = rp_ids st \<union> set (map rl_id rs),
      rp_signatures = rp_signatures st \<union> (\<lambda>r. relationshipSignature r False) ` set rs,
      rp_associationClasses = rp_associationClasses st \<union> set (concat (map association_class_ids rs))\<rparr>"

definition repeats_seen :: "json set \<Rightarrow> uml_relationship \<Rightarrow> bool" where
  "repeats_seen seen r \<longleftrightarrow> relationshipSignature r False \<in> seen
     \<or> (rl_kind r = Association \<and> relationshipSignature r True \<in> seen)"

lemma repeats_seen_after:
  "repeats_seen (insert (relationshipSignature e False) seen) r \<longleftrightarrow> repeats e r \<or> repeats_seen seen r"
  by (auto simp: repeats_seen_def repeats_def)

lemma checkRelationship_iff:
  assumes "distinct (map cl_id els)"
  shows "checkRelationship (elementsById els) i r st = Inr st' \<longleftrightarrow>
    relationship_ok els r \<and> rl_id r \<notin> rp_ids st \<and> \<not> repeats_seen (rp_signatures st) r
    \<and> set (association_class_ids r) \<inter> rp_associationClasses st = {} \<and> st' = pass_after st [r]"
    (is "?check \<longleftrightarrow> ?spec")
proof (cases "ends_ok els r")
  case True
  then obtain s t where
    st: "classifierById els (source_id r) = Some s" "classifierById els (target_id r) = Some t"
    by (auto simp: ends_ok_def)
  then have ends: "checkEnds (elementsById els) r path = Inr (s', t') \<longleftrightarrow> s' = s \<and> t' = t" for path s' t'
    using True by (auto simp: checkEnds_iff [OF assms])
  show ?thesis
    using True
    by (auto simp: checkRelationship_def Let_def res_simps ends relationship_ok_def
        checkAssociationClass_iff [OF assms st] repeats_seen_def pass_after_def)
next
  case False
  then show ?thesis
    by (auto simp: checkRelationship_def Let_def res_simps checkEnds_iff [OF assms] relationship_ok_def)
qed

lemma checkRelationship_loop_iff:
  assumes "distinct (map cl_id els)"
  shows "forEntries (checkRelationship (elementsById els)) i rs st = Inr st' \<longleftrightarrow>
    (\<forall>r \<in> set rs. relationship_ok els r) \<and> distinct (map rl_id rs) \<and> set (map rl_id rs) \<inter> rp_ids st = {}
    \<and> sorted_wrt (\<lambda>r r'. \<not> repeats r r') rs \<and> (\<forall>r \<in> set rs. \<not> repeats_seen (rp_signatures st) r)
    \<and> distinct (concat (map association_class_ids rs))
    \<and> set (concat (map association_class_ids rs)) \<inter> rp_associationClasses st = {}
    \<and> st' = pass_after st rs"
proof (induction rs arbitrary: i st)
  case Nil
  show ?case by (auto simp: pass_after_def)
next
  case (Cons r rs)
  have "distinct (association_class_ids r)" by (simp add: association_class_ids_def)
  moreover have "pass_after (pass_after st [r]) rs = pass_after st (r # rs)"
    by (auto simp: pass_after_def)
  ultimately show ?case
    by (simp add: res_simps checkRelationship_iff [OF assms] Cons.IH)
      (auto simp: pass_after_def repeats_seen_after)
qed

section \<open>The validator decides the contract\<close>

lemma registered_ids_iff:
  "distinct (registered_ids doc) \<longleftrightarrow>
     (let ids = {dg_id (cm_diagram doc), pr_id (cm_project doc)};
          els = concat (map cl_ids (dg_elements (cm_diagram doc)));
          rels = map rl_id (dg_relationships (cm_diagram doc))
      in dg_id (cm_diagram doc) \<noteq> pr_id (cm_project doc) \<and> distinct els \<and> set els \<inter> ids = {}
         \<and> distinct rels \<and> set rels \<inter> (ids \<union> set els) = {})"
  unfolding registered_ids_def Let_def distinct.simps distinct_append by auto

lemma positions_ok_iff:
  "positions_ok els ps \<longleftrightarrow> (\<forall>p \<in> set ps. classifierById els (po_elementId p) \<noteq> None)
     \<and> distinct (map po_elementId ps) \<and> (\<forall>c \<in> set els. cl_id c \<in> set (map po_elementId ps))"
  by (auto simp: positions_ok_def classifierById_None)

lemma relationship_loop_start:
  assumes "distinct (map cl_id els)"
  shows "(\<exists>st. forEntries (checkRelationship (elementsById els)) 0 rs
             \<lparr>rp_ids = ids, rp_signatures = {}, rp_associationClasses = {}\<rparr> = Inr st)
           \<and> acyclic (edges rs Generalization) \<and> acyclic (edges rs Composition) \<longleftrightarrow>
         distinct (map rl_id rs) \<and> set (map rl_id rs) \<inter> ids = {} \<and> relationships_ok els rs"
  unfolding checkRelationship_loop_iff [OF assms] relationships_ok_def
  by (auto simp: repeats_seen_def)

lemma reference_loop_iff:
  "distinct (map cl_id els) \<Longrightarrow> forEntries (checkElementReferences (elementsById els)) 0 cs () = Inr () \<longleftrightarrow>
     (\<forall>c \<in> set cs. \<forall>t \<in> set (cl_refs c). ref_ok els t)"
  by (rule forEntries_unit_iff) (rule checkElementReferences_iff)

lemma integrity_iff_well_formed:
  "assertCanonicalSemanticIntegrity lowerEs doc = Inr () \<longleftrightarrow> well_formed lowerEs doc"
proof -
  let ?els = "dg_elements (cm_diagram doc)" and ?rs = "dg_relationships (cm_diagram doc)"
    and ?ps = "dg_positions (cm_diagram doc)"
    and ?pr = "pr_id (cm_project doc)" and ?dg = "dg_id (cm_diagram doc)"
  let ?ids = "{?dg, ?pr} \<union> set (concat (map cl_ids ?els))"
  let ?start = "\<lparr>rp_ids = ?ids, rp_signatures = {}, rp_associationClasses = {}\<rparr>"
  have code: "assertCanonicalSemanticIntegrity lowerEs doc = Inr () \<longleftrightarrow>
      xml_safe (json_model doc) \<and> ?dg \<noteq> ?pr \<and> \<not> blank (pr_name (cm_project doc))
      \<and> \<not> blank (dg_name (cm_diagram doc))
      \<and> (\<forall>c \<in> set ?els. names_ok lowerEs c) \<and> distinct (concat (map cl_ids ?els))
      \<and> set (concat (map cl_ids ?els)) \<inter> {?dg, ?pr} = {}
      \<and> unique_names lowerEs (map cl_name ?els)
      \<and> forEntries (checkElementReferences (elementsById ?els)) 0 ?els () = Inr ()
      \<and> (\<forall>p \<in> set ?ps. mapGet (elementsById ?els) (po_elementId p) \<noteq> None)
      \<and> distinct (map po_elementId ?ps)
      \<and> (\<forall>c \<in> set (mapValues (elementsById ?els)). cl_id c \<in> set (map po_elementId ?ps))
      \<and> (\<exists>st. forEntries (checkRelationship (elementsById ?els)) 0 ?rs ?start = Inr st)
      \<and> acyclic (edges ?rs Generalization) \<and> acyclic (edges ?rs Composition)" (is "_ \<longleftrightarrow> ?code")
    unfolding assertCanonicalSemanticIntegrity_def Let_def
    by (simp add: res_simps xml10_iff element_pass.loop_iff checkPosition_loop_iff
        checkPositioned_loop_iff del: set_map set_concat)
  show ?thesis
  proof (cases "distinct (concat (map cl_ids ?els))")
    case True
    note els = distinct_cl_ids [OF True]
    show ?thesis
      unfolding code well_formed_def Let_def registered_ids_iff positions_ok_iff
        reference_loop_iff [OF els] relationship_loop_start [OF els] set_elementsById [OF els]
        mapGet_elementsById [OF els]
      by (rule iffI) (elim conjE, intro conjI, assumption+)+
  next
    case False
    then show ?thesis
      unfolding code well_formed_def Let_def registered_ids_iff by simp
  qed
qed

end
