(* ===== verification/Command_Executor.thy ===== *)
theory Command_Executor
  imports Well_Formed
begin

text \<open>
  \<open>uml-command.executor.ts\<close>: the sixteen editing commands applied to a diagram. \<open>mutate\<close>
  has one branch per command, \<open>execute\<close> refuses a command that changes nothing, and
  \<open>affectedElementIds\<close> names the classifiers whose locks a command needs. The source mutates a
  clone; the model returns the new diagram, or the single error the executor throws. The text
  \<open>JSON.stringify(diagram)\<close> compared by \<open>execute\<close> stands for the diagram itself.
\<close>

datatype execution_error = UmlCommandExecutionError

type_synonym mutation = "execution_error + uml_diagram"

section \<open>Lookups and assertions\<close>

definition classifierIndex :: "uml_diagram \<Rightarrow> jstring \<Rightarrow> execution_error + nat" where
  "classifierIndex d i = (case findIndex (\<lambda>c. cl_id c = i) (dg_elements d) of
     None \<Rightarrow> Inl UmlCommandExecutionError | Some n \<Rightarrow> Inr n)"

definition relationshipIndex :: "uml_diagram \<Rightarrow> jstring \<Rightarrow> execution_error + nat" where
  "relationshipIndex d i = (case findIndex (\<lambda>r. rl_id r = i) (dg_relationships d) of
     None \<Rightarrow> Inl UmlCommandExecutionError | Some n \<Rightarrow> Inr n)"

definition findClassifier :: "uml_diagram \<Rightarrow> jstring \<Rightarrow> execution_error + uml_classifier" where
  "findClassifier d i = bindE (classifierIndex d i) (\<lambda>n. Inr (dg_elements d ! n))"

definition findRelationship :: "uml_diagram \<Rightarrow> jstring \<Rightarrow> execution_error + uml_relationship" where
  "findRelationship d i = bindE (relationshipIndex d i) (\<lambda>n. Inr (dg_relationships d ! n))"

definition assertMissingClassifier :: "uml_diagram \<Rightarrow> jstring \<Rightarrow> execution_error + unit" where
  "assertMissingClassifier d i =
     throwUnless (\<not> list_ex (\<lambda>c. cl_id c = i) (dg_elements d)) UmlCommandExecutionError"

definition assertPosition :: "jstring \<Rightarrow> jstring \<Rightarrow> execution_error + unit" where
  "assertPosition positionElementId classifierId =
     throwUnless (\<not> positionElementId \<noteq> classifierId) UmlCommandExecutionError"

section \<open>Type references of a classifier\<close>

definition map_attribute_type ::
  "(type_reference \<Rightarrow> type_reference) \<Rightarrow> uml_attribute \<Rightarrow> uml_attribute" where
  "map_attribute_type f a = a\<lparr>at_type := f (at_type a)\<rparr>"

definition map_parameter_type ::
  "(type_reference \<Rightarrow> type_reference) \<Rightarrow> uml_parameter \<Rightarrow> uml_parameter" where
  "map_parameter_type f p = p\<lparr>pa_type := f (pa_type p)\<rparr>"

definition map_operation_types ::
  "(type_reference \<Rightarrow> type_reference) \<Rightarrow> uml_operation \<Rightarrow> uml_operation" where
  "map_operation_types f p = p\<lparr>op_returnType := f (op_returnType p),
     op_parameters := map (map_parameter_type f) (op_parameters p)\<rparr>"

definition map_classifier_types ::
  "(type_reference \<Rightarrow> type_reference) \<Rightarrow> uml_classifier \<Rightarrow> uml_classifier" where
  "map_classifier_types f c = c\<lparr>cl_attributes := map (map_attribute_type f) (cl_attributes c),
     cl_operations := map (map_operation_types f) (cl_operations c)\<rparr>"

definition syncTypeName :: "jstring \<Rightarrow> jstring \<Rightarrow> type_reference \<Rightarrow> type_reference" where
  "syncTypeName i name t = (if tr_elementId t = Some i then t\<lparr>tr_name := name\<rparr> else t)"

definition syncTypeReferenceNames :: "uml_diagram \<Rightarrow> jstring \<Rightarrow> jstring \<Rightarrow> uml_diagram" where
  "syncTypeReferenceNames d i name =
     d\<lparr>dg_elements := map (map_classifier_types (syncTypeName i name)) (dg_elements d)\<rparr>"

definition removeTypeReference :: "jstring set \<Rightarrow> type_reference \<Rightarrow> type_reference" where
  "removeTypeReference deleted t =
     (if truthy (tr_elementId t) \<and> the (tr_elementId t) \<in> deleted then t\<lparr>tr_elementId := None\<rparr> else t)"

definition referencesClassifier :: "uml_classifier \<Rightarrow> jstring \<Rightarrow> bool" where
  "referencesClassifier c i \<longleftrightarrow> list_ex (\<lambda>a. tr_elementId (at_type a) = Some i) (cl_attributes c)
     \<or> list_ex (\<lambda>p. tr_elementId (op_returnType p) = Some i
          \<or> list_ex (\<lambda>q. tr_elementId (pa_type q) = Some i) (op_parameters p)) (cl_operations c)"

section \<open>Deleting classifiers\<close>

text \<open>One pass of the inner loop: the deleted classifiers, the deleted relationships and the flag
  \<open>changed\<close>.\<close>

definition deletion_step ::
  "jstring set \<times> jstring set \<times> bool \<Rightarrow> uml_relationship \<Rightarrow> jstring set \<times> jstring set \<times> bool" where
  "deletion_step st r = (case st of (deletedIds, deletedRels, changed) \<Rightarrow>
     if rl_id r \<in> deletedRels
        \<or> (re_elementId (rl_source r) \<notin> deletedIds \<and> re_elementId (rl_target r) \<notin> deletedIds)
     then st
     else (if truthy (rl_associationClassId r) \<and> the (rl_associationClassId r) \<notin> deletedIds
           then insert (the (rl_associationClassId r)) deletedIds else deletedIds,
           insert (rl_id r) deletedRels, True))"

definition deletion_pass ::
  "uml_relationship list \<Rightarrow> jstring set \<Rightarrow> jstring set \<Rightarrow> jstring set \<times> jstring set \<times> bool" where
  "deletion_pass rs deletedIds deletedRels = foldl deletion_step (deletedIds, deletedRels, False) rs"

lemma deletion_fold_mono:
  "foldl deletion_step (D, R, c) rs = (D', R', c') \<Longrightarrow> D \<subseteq> D' \<and> R \<subseteq> R' \<and> (c \<longrightarrow> c')
     \<and> R' \<subseteq> R \<union> rl_id ` set rs \<and> (c' \<longrightarrow> c \<or> R \<subset> R')"
proof (induction rs arbitrary: D R c)
  case (Cons r rs)
  obtain D1 R1 c1 where s: "deletion_step (D, R, c) r = (D1, R1, c1)" by (cases "deletion_step (D, R, c) r")
  with Cons.prems have "foldl deletion_step (D1, R1, c1) rs = (D', R', c')" by simp
  from Cons.IH [OF this] s show ?case
    by (auto simp: deletion_step_def split: if_splits)
qed simp

text \<open>\<open>while (changed)\<close>: every pass that changes something deletes another relationship.\<close>

function deletion_loop ::
  "uml_relationship list \<Rightarrow> jstring set \<Rightarrow> jstring set \<Rightarrow> jstring set \<times> jstring set" where
  "deletion_loop rs deletedIds deletedRels =
     (case deletion_pass rs deletedIds deletedRels of (D, R, changed) \<Rightarrow>
        if changed then deletion_loop rs D R else (D, R))"
  by pat_completeness auto

lemma deletion_pass_progress:
  assumes "deletion_pass rs D R = (D', R', True)"
  shows "card (rl_id ` set rs - R') < card (rl_id ` set rs - R)"
proof (rule psubset_card_mono)
  have "R \<subset> R'" and "R' \<subseteq> R \<union> rl_id ` set rs"
    using deletion_fold_mono [of D R False rs D' R' True] assms by (auto simp: deletion_pass_def)
  then show "rl_id ` set rs - R' \<subset> rl_id ` set rs - R" by blast
qed simp

termination deletion_loop
  by (relation "measure (\<lambda>(rs, D, R). card (rl_id ` set rs - R))")
    (auto dest: deletion_pass_progress [OF sym])

declare deletion_loop.simps [simp del]

definition dropAssociationClass :: "jstring set \<Rightarrow> uml_relationship \<Rightarrow> uml_relationship" where
  "dropAssociationClass deleted r =
     (if \<not> truthy (rl_associationClassId r) \<or> the (rl_associationClassId r) \<notin> deleted then r
      else r\<lparr>rl_associationClassId := None\<rparr>)"

definition removeClassifiersAndReferences :: "uml_diagram \<Rightarrow> jstring set \<Rightarrow> uml_diagram" where
  "removeClassifiersAndReferences d initialIds =
     (case deletion_loop (dg_relationships d) initialIds {} of (D, R) \<Rightarrow>
       d\<lparr>dg_elements := map (map_classifier_types (removeTypeReference D))
                          (filter (\<lambda>c. cl_id c \<notin> D) (dg_elements d)),
         dg_positions := filter (\<lambda>p. po_elementId p \<notin> D) (dg_positions d),
         dg_relationships := map (dropAssociationClass D)
                               (filter (\<lambda>r. rl_id r \<notin> R) (dg_relationships d))\<rparr>)"

definition deleteRelationshipAggregate :: "uml_diagram \<Rightarrow> jstring \<Rightarrow> mutation" where
  "deleteRelationshipAggregate d i = bindE (relationshipIndex d i) (\<lambda>n.
     let r = dg_relationships d ! n;
         d' = d\<lparr>dg_relationships := removeAt n (dg_relationships d)\<rparr>
     in Inr (if truthy (rl_associationClassId r)
             then removeClassifiersAndReferences d' {the (rl_associationClassId r)} else d'))"

section \<open>The commands\<close>

definition addClassifier :: "uml_diagram \<Rightarrow> uml_classifier \<Rightarrow> uml_position \<Rightarrow> uml_diagram" where
  "addClassifier d c p = d\<lparr>dg_elements := dg_elements d @ [c], dg_positions := dg_positions d @ [p]\<rparr>"

definition setClassifier :: "uml_diagram \<Rightarrow> nat \<Rightarrow> uml_classifier \<Rightarrow> uml_diagram" where
  "setClassifier d n c = d\<lparr>dg_elements := (dg_elements d)[n := c]\<rparr>"

definition setRelationship :: "uml_diagram \<Rightarrow> nat \<Rightarrow> uml_relationship \<Rightarrow> uml_diagram" where
  "setRelationship d n r = d\<lparr>dg_relationships := (dg_relationships d)[n := r]\<rparr>"

text \<open>The commands on an attribute or operation look the classifier up and mutate it in place.\<close>

definition onClassifier ::
  "uml_diagram \<Rightarrow> jstring \<Rightarrow> (uml_classifier \<Rightarrow> execution_error + uml_classifier) \<Rightarrow> mutation" where
  "onClassifier d i f = bindE (classifierIndex d i) (\<lambda>n.
     bindE (f (dg_elements d ! n)) (\<lambda>c. Inr (setClassifier d n c)))"

definition updateAttribute ::
  "jstring \<Rightarrow> uml_attribute \<Rightarrow> uml_classifier \<Rightarrow> execution_error + uml_classifier" where
  "updateAttribute i a c = (case findIndex (\<lambda>x. at_id x = i) (cl_attributes c) of
     None \<Rightarrow> Inl UmlCommandExecutionError
   | Some n \<Rightarrow> if at_id a \<noteq> i then Inl UmlCommandExecutionError
               else Inr (c\<lparr>cl_attributes := (cl_attributes c)[n := a]\<rparr>))"

definition deleteAttribute :: "jstring \<Rightarrow> uml_classifier \<Rightarrow> execution_error + uml_classifier" where
  "deleteAttribute i c = (case findIndex (\<lambda>x. at_id x = i) (cl_attributes c) of
     None \<Rightarrow> Inl UmlCommandExecutionError
   | Some n \<Rightarrow> Inr (c\<lparr>cl_attributes := removeAt n (cl_attributes c)\<rparr>))"

definition updateOperation ::
  "jstring \<Rightarrow> uml_operation \<Rightarrow> uml_classifier \<Rightarrow> execution_error + uml_classifier" where
  "updateOperation i p c = (case findIndex (\<lambda>x. op_id x = i) (cl_operations c) of
     None \<Rightarrow> Inl UmlCommandExecutionError
   | Some n \<Rightarrow> if op_id p \<noteq> i then Inl UmlCommandExecutionError
               else Inr (c\<lparr>cl_operations := (cl_operations c)[n := p]\<rparr>))"

definition deleteOperation :: "jstring \<Rightarrow> uml_classifier \<Rightarrow> execution_error + uml_classifier" where
  "deleteOperation i c = (case findIndex (\<lambda>x. op_id x = i) (cl_operations c) of
     None \<Rightarrow> Inl UmlCommandExecutionError
   | Some n \<Rightarrow> Inr (c\<lparr>cl_operations := removeAt n (cl_operations c)\<rparr>))"

definition moveClassifier :: "uml_diagram \<Rightarrow> jstring \<Rightarrow> rat \<Rightarrow> rat \<Rightarrow> mutation" where
  "moveClassifier d i x y = bindE (findClassifier d i) (\<lambda>_.
     case findIndex (\<lambda>p. po_elementId p = i) (dg_positions d) of
       None \<Rightarrow> Inl UmlCommandExecutionError
     | Some n \<Rightarrow> Inr (d\<lparr>dg_positions :=
          (dg_positions d)[n := (dg_positions d ! n)\<lparr>po_x := x, po_y := y\<rparr>]\<rparr>))"

definition updateClassifier :: "uml_diagram \<Rightarrow> jstring \<Rightarrow> uml_classifier \<Rightarrow> mutation" where
  "updateClassifier d i c = bindE (classifierIndex d i) (\<lambda>n.
     if cl_id c \<noteq> i then Inl UmlCommandExecutionError
     else (let previousName = cl_name (dg_elements d ! n); d' = setClassifier d n c
           in Inr (if previousName \<noteq> cl_name c then syncTypeReferenceNames d' i (cl_name c) else d')))"

definition createAssociationClass ::
  "uml_diagram \<Rightarrow> jstring \<Rightarrow> uml_classifier \<Rightarrow> uml_position \<Rightarrow> mutation" where
  "createAssociationClass d i c p = bindE (relationshipIndex d i) (\<lambda>n.
     let r = dg_relationships d ! n in
     if rl_kind r \<noteq> Association \<or> truthy (rl_associationClassId r)
        \<or> \<not> isManyMultiplicity (re_multiplicity (rl_source r))
        \<or> \<not> isManyMultiplicity (re_multiplicity (rl_target r))
     then Inl UmlCommandExecutionError
     else bindE (assertMissingClassifier d (cl_id c)) (\<lambda>_.
          bindE (assertPosition (po_elementId p) (cl_id c)) (\<lambda>_.
            Inr (setRelationship (addClassifier d c p) n
                   (r\<lparr>rl_associationClassId := Some (cl_id c)\<rparr>)))))"

fun mutate :: "uml_diagram \<Rightarrow> command_body \<Rightarrow> mutation" where
  "mutate d (ClassifierCreate c p) =
     bindE (assertMissingClassifier d (cl_id c)) (\<lambda>_.
     bindE (assertPosition (po_elementId p) (cl_id c)) (\<lambda>_. Inr (addClassifier d c p)))"
| "mutate d (ClassifierUpdate i c) = updateClassifier d i c"
| "mutate d (ClassifierMove i x y) = moveClassifier d i x y"
| "mutate d (ClassifierDelete i) =
     bindE (findClassifier d i) (\<lambda>_. Inr (removeClassifiersAndReferences d {i}))"
| "mutate d (ClassifierDuplicate i c p) =
     bindE (findClassifier d i) (\<lambda>_.
     bindE (assertMissingClassifier d (cl_id c)) (\<lambda>_.
     bindE (assertPosition (po_elementId p) (cl_id c)) (\<lambda>_. Inr (addClassifier d c p))))"
| "mutate d (AttributeAdd i a) =
     onClassifier d i (\<lambda>c. Inr (c\<lparr>cl_attributes := cl_attributes c @ [a]\<rparr>))"
| "mutate d (AttributeUpdate i j a) = onClassifier d i (updateAttribute j a)"
| "mutate d (AttributeDelete i j) = onClassifier d i (deleteAttribute j)"
| "mutate d (OperationAdd i p) =
     onClassifier d i (\<lambda>c. Inr (c\<lparr>cl_operations := cl_operations c @ [p]\<rparr>))"
| "mutate d (OperationUpdate i j p) = onClassifier d i (updateOperation j p)"
| "mutate d (OperationDelete i j) = onClassifier d i (deleteOperation j)"
| "mutate d (RelationshipCreate r) =
     bindE (throwUnless (\<not> list_ex (\<lambda>x. rl_id x = rl_id r) (dg_relationships d)) UmlCommandExecutionError)
       (\<lambda>_. Inr (d\<lparr>dg_relationships := dg_relationships d @ [r]\<rparr>))"
| "mutate d (RelationshipUpdate i r) = bindE (relationshipIndex d i) (\<lambda>n.
     if rl_id r \<noteq> i then Inl UmlCommandExecutionError else Inr (setRelationship d n r))"
| "mutate d (RelationshipDelete i) = deleteRelationshipAggregate d i"
| "mutate d (AssociationClassCreate i c p) = createAssociationClass d i c p"
| "mutate d DiagramClear = Inr (d\<lparr>dg_elements := [], dg_relationships := [], dg_positions := []\<rparr>)"

definition execute :: "canonical_model \<Rightarrow> uml_command \<Rightarrow> execution_error + canonical_model" where
  "execute doc cmd = bindE (mutate (cm_diagram doc) (cmd_body cmd)) (\<lambda>d.
     bindE (throwUnless (\<not> cm_diagram doc = d) UmlCommandExecutionError)
       (\<lambda>_. Inr (doc\<lparr>cm_diagram := d\<rparr>)))"

section \<open>The classifiers a command needs\<close>

definition relationshipElementIds :: "uml_relationship list \<Rightarrow> jstring set" where
  "relationshipElementIds rs = (\<Union>r \<in> set rs.
     {re_elementId (rl_source r), re_elementId (rl_target r)}
     \<union> (if truthy (rl_associationClassId r) then {the (rl_associationClassId r)} else {}))"

definition allElementIds :: "uml_diagram \<Rightarrow> jstring set" where
  "allElementIds d = set (map cl_id (dg_elements d))"

fun affected :: "uml_diagram \<Rightarrow> command_body \<Rightarrow> execution_error + jstring set" where
  "affected d (ClassifierCreate c p) = Inr {cl_id c}"
| "affected d (ClassifierDuplicate i c p) = Inr {cl_id c}"
| "affected d (ClassifierUpdate i c) = bindE (findClassifier d i) (\<lambda>previous.
     Inr (insert i (if cl_name previous \<noteq> cl_name c
                    then set (map cl_id (filter (\<lambda>x. referencesClassifier x i) (dg_elements d)))
                    else {})))"
| "affected d (ClassifierDelete i) = Inr (allElementIds d)"
| "affected d DiagramClear = Inr (allElementIds d)"
| "affected d (ClassifierMove i x y) = Inr {i}"
| "affected d (AttributeAdd i a) = Inr {i}"
| "affected d (AttributeUpdate i j a) = Inr {i}"
| "affected d (AttributeDelete i j) = Inr {i}"
| "affected d (OperationAdd i p) = Inr {i}"
| "affected d (OperationUpdate i j p) = Inr {i}"
| "affected d (OperationDelete i j) = Inr {i}"
| "affected d (RelationshipCreate r) = Inr (relationshipElementIds [r])"
| "affected d (RelationshipUpdate i r) = bindE (findRelationship d i) (\<lambda>existing.
     Inr (relationshipElementIds [existing, r]))"
| "affected d (RelationshipDelete i) = bindE (findRelationship d i) (\<lambda>r.
     Inr (if truthy (rl_associationClassId r) then allElementIds d else relationshipElementIds [r]))"
| "affected d (AssociationClassCreate i c p) = bindE (findRelationship d i) (\<lambda>r.
     Inr {re_elementId (rl_source r), re_elementId (rl_target r), cl_id c})"

definition affectedElementIds :: "canonical_model \<Rightarrow> uml_command \<Rightarrow> execution_error + jstring set" where
  "affectedElementIds doc cmd = affected (cm_diagram doc) (cmd_body cmd)"

end
