(* ===== verification/Executor_Laws.thy ===== *)
theory Executor_Laws
  imports Command_Executor
begin

text \<open>
  What the commands of \<open>Command_Executor\<close> guarantee: the classifiers outside
  \<open>affectedElementIds\<close> are untouched (so the locks on the named classifiers are enough), the
  deletion loop computes the least closed set, and deleting leaves no dangling identifier.
\<close>

section \<open>Lookups\<close>

lemma classifierIndex_Inr:
  "classifierIndex d i = Inr n \<Longrightarrow> n < length (dg_elements d) \<and> cl_id (dg_elements d ! n) = i"
  by (auto simp: classifierIndex_def dest: findIndex_Some split: option.splits)

lemma relationshipIndex_Inr:
  "relationshipIndex d i = Inr n \<Longrightarrow>
     n < length (dg_relationships d) \<and> rl_id (dg_relationships d ! n) = i"
  by (auto simp: relationshipIndex_def dest: findIndex_Some split: option.splits)

lemma map_classifier_types_id [simp]:
  "cl_id (map_classifier_types f c) = cl_id c" "cl_name (map_classifier_types f c) = cl_name c"
  "cl_kind (map_classifier_types f c) = cl_kind c"
  by (simp_all add: map_classifier_types_def)

lemma cl_refs_map_classifier_types: "cl_refs (map_classifier_types f c) = map f (cl_refs c)"
  by (simp add: cl_refs_def op_refs_def map_classifier_types_def map_attribute_type_def
      map_operation_types_def map_parameter_type_def map_concat comp_def)

lemma map_idI: "(\<And>x. x \<in> set xs \<Longrightarrow> f x = x) \<Longrightarrow> map f xs = xs"
  by (induction xs) auto

lemma map_classifier_types_ident:
  assumes "\<And>t. t \<in> set (cl_refs c) \<Longrightarrow> f t = t"
  shows "map_classifier_types f c = c"
proof -
  have "map (map_attribute_type f) (cl_attributes c) = cl_attributes c"
    using assms by (intro map_idI) (simp add: map_attribute_type_def cl_refs_def)
  moreover have "map (map_operation_types f) (cl_operations c) = cl_operations c"
  proof (rule map_idI)
    fix p assume p: "p \<in> set (cl_operations c)"
    then have refs: "\<And>t. t \<in> set (op_refs p) \<Longrightarrow> f t = t"
      using assms by (force simp: cl_refs_def)
    then have "map (map_parameter_type f) (op_parameters p) = op_parameters p"
      by (intro map_idI) (simp add: map_parameter_type_def op_refs_def)
    with refs [of "op_returnType p"] show "map_operation_types f p = p"
      by (simp add: map_operation_types_def op_refs_def)
  qed
  ultimately show ?thesis by (simp add: map_classifier_types_def)
qed

lemma referencesClassifier_iff:
  "referencesClassifier c i \<longleftrightarrow> (\<exists>t \<in> set (cl_refs c). tr_elementId t = Some i)"
  by (auto simp: referencesClassifier_def cl_refs_def op_refs_def list_ex_iff)

section \<open>The affected classifiers\<close>

lemma filter_map_outside:
  assumes "\<And>x. x \<in> set xs \<Longrightarrow> P x \<Longrightarrow> f x = x" and "\<And>x. P (f x) \<longleftrightarrow> P x"
  shows "filter P (map f xs) = filter P xs"
  using assms by (induction xs) auto

lemma filter_list_update_outside:
  "n < length xs \<Longrightarrow> \<not> P (xs ! n) \<Longrightarrow> \<not> P y \<Longrightarrow> filter P (xs[n := y]) = filter P xs"
proof (induction xs arbitrary: n)
  case (Cons x xs)
  then show ?case by (cases n) auto
qed simp

abbreviation unaffected :: "jstring set \<Rightarrow> uml_diagram \<Rightarrow> uml_classifier list" where
  "unaffected A d \<equiv> filter (\<lambda>c. cl_id c \<notin> A) (dg_elements d)"

lemma onClassifier_unaffected:
  assumes "onClassifier d i f = Inr d'" and "\<And>c c'. f c = Inr c' \<Longrightarrow> cl_id c' = cl_id c"
  shows "unaffected {i} d' = unaffected {i} d"
  using assms
  by (auto simp: onClassifier_def setClassifier_def res_simps filter_list_update_outside
      dest!: classifierIndex_Inr)

lemma member_commands_keep_id:
  "updateAttribute j a c = Inr c' \<Longrightarrow> cl_id c' = cl_id c"
  "deleteAttribute j c = Inr c' \<Longrightarrow> cl_id c' = cl_id c"
  "updateOperation j p c = Inr c' \<Longrightarrow> cl_id c' = cl_id c"
  "deleteOperation j c = Inr c' \<Longrightarrow> cl_id c' = cl_id c"
  by (auto simp: updateAttribute_def deleteAttribute_def updateOperation_def deleteOperation_def
      split: option.splits if_splits)

lemma updateClassifier_unaffected:
  assumes m: "updateClassifier d i c = Inr d'" and a: "affected d (ClassifierUpdate i c) = Inr A"
  shows "unaffected A d' = unaffected A d"
proof -
  from m obtain n where n: "classifierIndex d i = Inr n" and c: "cl_id c = i"
    and d': "d' = (if cl_name (dg_elements d ! n) \<noteq> cl_name c
        then syncTypeReferenceNames (setClassifier d n c) i (cl_name c) else setClassifier d n c)"
    by (auto simp: updateClassifier_def res_simps Let_def split: if_splits)
  note at = classifierIndex_Inr [OF n]
  have A: "A = insert i (if cl_name (dg_elements d ! n) \<noteq> cl_name c
      then set (map cl_id (filter (\<lambda>x. referencesClassifier x i) (dg_elements d))) else {})"
    using a n by (auto simp: findClassifier_def res_simps)
  have slot: "filter (\<lambda>x. cl_id x \<notin> A) ((dg_elements d)[n := c]) = unaffected A d"
    using at c A by (intro filter_list_update_outside) simp_all
  show ?thesis
  proof (cases "cl_name (dg_elements d ! n) \<noteq> cl_name c")
    case True
    have "filter (\<lambda>x. cl_id x \<notin> A)
        (map (map_classifier_types (syncTypeName i (cl_name c))) ((dg_elements d)[n := c]))
        = filter (\<lambda>x. cl_id x \<notin> A) ((dg_elements d)[n := c])"
    proof (rule filter_map_outside)
      fix x assume "x \<in> set ((dg_elements d)[n := c])" and "cl_id x \<notin> A"
      then have "x \<in> set (dg_elements d)"
        using set_list_update_subset [of "dg_elements d" n c] A c by auto
      with \<open>cl_id x \<notin> A\<close> True A have "\<not> referencesClassifier x i" by auto
      then show "map_classifier_types (syncTypeName i (cl_name c)) x = x"
        by (intro map_classifier_types_ident) (auto simp: referencesClassifier_iff syncTypeName_def)
    qed simp
    with True d' slot show ?thesis by (simp add: syncTypeReferenceNames_def setClassifier_def)
  next
    case False
    with d' slot show ?thesis by (simp add: setClassifier_def)
  qed
qed

lemma removeClassifiersAndReferences_all:
  "A = allElementIds d \<Longrightarrow> unaffected A (removeClassifiersAndReferences d ids) = []"
  by (auto simp: removeClassifiersAndReferences_def allElementIds_def filter_empty_conv
      split: prod.splits)

lemma unaffected_all: "unaffected (allElementIds d) d = []"
  by (auto simp: allElementIds_def filter_empty_conv)

lemma mutate_unaffected:
  assumes m: "mutate d b = Inr d'" and a: "affected d b = Inr A"
  shows "unaffected A d' = unaffected A d"
proof (cases b)
  case (ClassifierUpdate i c)
  with m a show ?thesis using updateClassifier_unaffected [of d i c d' A] by simp
next
  case (ClassifierDelete i)
  with m a show ?thesis
    using removeClassifiersAndReferences_all [of A d "{i}"]
    by (auto simp: res_simps unaffected_all)
next
  case (RelationshipDelete i)
  with m a obtain n where n: "relationshipIndex d i = Inr n"
    and "deleteRelationshipAggregate d i = Inr d'"
    by (auto simp: findRelationship_def res_simps)
  let ?d = "d\<lparr>dg_relationships := removeAt n (dg_relationships d)\<rparr>"
  have "allElementIds ?d = allElementIds d" by (simp add: allElementIds_def)
  with RelationshipDelete m a n show ?thesis
    using removeClassifiersAndReferences_all [of A ?d]
    by (auto simp: deleteRelationshipAggregate_def findRelationship_def Let_def unaffected_all
        split: if_splits)
next
  case (AttributeUpdate i j a)
  with m a show ?thesis
    using onClassifier_unaffected [of d i] member_commands_keep_id by auto
next
  case (AttributeDelete i j)
  with m a show ?thesis
    using onClassifier_unaffected [of d i] member_commands_keep_id by auto
next
  case (OperationUpdate i j a)
  with m a show ?thesis
    using onClassifier_unaffected [of d i] member_commands_keep_id by auto
next
  case (OperationDelete i j)
  with m a show ?thesis
    using onClassifier_unaffected [of d i] member_commands_keep_id by auto
next
  case (AttributeAdd i a)
  with m have "onClassifier d i (\<lambda>c. Inr (c\<lparr>cl_attributes := cl_attributes c @ [a]\<rparr>)) = Inr d'" by simp
  then have "unaffected {i} d' = unaffected {i} d" by (rule onClassifier_unaffected) auto
  with AttributeAdd \<open>affected d b = Inr A\<close> show ?thesis by auto
next
  case (OperationAdd i p)
  with m have "onClassifier d i (\<lambda>c. Inr (c\<lparr>cl_operations := cl_operations c @ [p]\<rparr>)) = Inr d'" by simp
  then have "unaffected {i} d' = unaffected {i} d" by (rule onClassifier_unaffected) auto
  with OperationAdd \<open>affected d b = Inr A\<close> show ?thesis by auto
next
  case (AssociationClassCreate i c p)
  with m a show ?thesis
    by (auto simp: createAssociationClass_def Let_def res_simps setRelationship_def addClassifier_def
        split: if_splits)
qed (use m a in \<open>auto simp: res_simps addClassifier_def moveClassifier_def setRelationship_def
      unaffected_all split: option.splits if_splits\<close>)

section \<open>The deletion loop computes the cascade\<close>

definition touches :: "jstring set \<Rightarrow> uml_relationship \<Rightarrow> bool" where
  "touches D r \<longleftrightarrow> source_id r \<in> D \<or> target_id r \<in> D"

text \<open>The classifiers that have to go with the initial ones: the association class of every
  relationship one of whose ends goes.\<close>

inductive_set cascade :: "uml_relationship list \<Rightarrow> jstring set \<Rightarrow> jstring set"
  for rs :: "uml_relationship list" and init :: "jstring set" where
  initial: "i \<in> init \<Longrightarrow> i \<in> cascade rs init"
| by_source: "r \<in> set rs \<Longrightarrow> source_id r \<in> cascade rs init \<Longrightarrow> i \<in> set (association_class_ids r) \<Longrightarrow>
    i \<in> cascade rs init"
| by_target: "r \<in> set rs \<Longrightarrow> target_id r \<in> cascade rs init \<Longrightarrow> i \<in> set (association_class_ids r) \<Longrightarrow>
    i \<in> cascade rs init"

lemma cascade_closed:
  "r \<in> set rs \<Longrightarrow> touches (cascade rs init) r \<Longrightarrow> set (association_class_ids r) \<subseteq> cascade rs init"
  by (auto simp: touches_def intro: cascade.intros)

lemma cascade_least:
  assumes "init \<subseteq> D" and "\<And>r. r \<in> set rs \<Longrightarrow> touches D r \<Longrightarrow> set (association_class_ids r) \<subseteq> D"
  shows "cascade rs init \<subseteq> D"
proof
  fix i assume "i \<in> cascade rs init"
  then show "i \<in> D" using assms by induction (auto simp: touches_def)
qed

definition deletion_inv :: "uml_relationship list \<Rightarrow> jstring set \<Rightarrow> jstring set \<Rightarrow> jstring set \<Rightarrow> bool" where
  "deletion_inv rs init D R \<longleftrightarrow> init \<subseteq> D \<and> D \<subseteq> cascade rs init \<and> R \<subseteq> rl_id ` set rs
     \<and> (\<forall>r \<in> set rs. rl_id r \<in> R \<longrightarrow> touches D r \<and> set (association_class_ids r) \<subseteq> D)"

lemma deletion_step_inv:
  assumes "deletion_inv rs init D R" and "r \<in> set rs" and "inj_on rl_id (set rs)"
    and "deletion_step (D, R, c) r = (D', R', c')"
  shows "deletion_inv rs init D' R'"
proof (cases "rl_id r \<in> R \<or> \<not> touches D r")
  case True
  with assms show ?thesis by (auto simp: deletion_step_def touches_def)
next
  case False
  then have R': "R' = insert (rl_id r) R" and D': "D' = D \<union> set (association_class_ids r)"
    using assms(4) by (auto simp: deletion_step_def touches_def association_class_ids_def split: if_splits)
  have "touches (cascade rs init) r"
    using False assms(1) by (auto simp: deletion_inv_def touches_def)
  then have "D' \<subseteq> cascade rs init"
    using cascade_closed [OF assms(2)] assms(1) D' by (auto simp: deletion_inv_def)
  moreover have "r' = r" if "r' \<in> set rs" "rl_id r' = rl_id r" for r'
    using assms(2,3) that by (auto dest: inj_onD)
  ultimately show ?thesis
    using assms(1,2) False by (auto simp: deletion_inv_def R' D' touches_def)
qed

lemma deletion_fold_inv:
  "deletion_inv rs init D R \<Longrightarrow> set qs \<subseteq> set rs \<Longrightarrow> inj_on rl_id (set rs) \<Longrightarrow>
     foldl deletion_step (D, R, c) qs = (D', R', c') \<Longrightarrow> deletion_inv rs init D' R'"
proof (induction qs arbitrary: D R c)
  case (Cons r qs)
  obtain D1 R1 c1 where s: "deletion_step (D, R, c) r = (D1, R1, c1)" by (cases "deletion_step (D, R, c) r")
  with Cons.prems have "deletion_inv rs init D1 R1"
    by (intro deletion_step_inv [OF _ _ _ s]) auto
  with Cons s show ?case by simp
qed simp

lemma deletion_fold_unchanged:
  "foldl deletion_step (D, R, False) qs = (D', R', False) \<Longrightarrow>
     D' = D \<and> R' = R \<and> (\<forall>r \<in> set qs. touches D r \<longrightarrow> rl_id r \<in> R)"
proof (induction qs)
  case (Cons r qs)
  show ?case
  proof (cases "deletion_step (D, R, False) r = (D, R, False)")
    case True
    with Cons show ?thesis by (auto simp: deletion_step_def touches_def split: if_splits)
  next
    case False
    then obtain D1 R1 where "deletion_step (D, R, False) r = (D1, R1, True)"
      by (auto simp: deletion_step_def split: if_splits)
    with Cons.prems deletion_fold_mono [of D1 R1 True qs D' R' False] show ?thesis by simp
  qed
qed simp

lemma deletion_loop_inv:
  assumes "inj_on rl_id (set rs)"
  shows "deletion_inv rs init D R \<Longrightarrow> deletion_loop rs D R = (D', R') \<Longrightarrow>
    deletion_inv rs init D' R' \<and> (\<forall>r \<in> set rs. touches D' r \<longrightarrow> rl_id r \<in> R')"
  using assms
proof (induction rs D R rule: deletion_loop.induct)
  case (1 rs D R)
  obtain D1 R1 c where p: "deletion_pass rs D R = (D1, R1, c)" by (cases "deletion_pass rs D R")
  then have inv: "deletion_inv rs init D1 R1"
    using "1.prems" by (auto simp: deletion_pass_def intro: deletion_fold_inv)
  show ?case
  proof (cases c)
    case True
    with "1.prems" p have "deletion_loop rs D1 R1 = (D', R')" by (simp add: deletion_loop.simps [of rs D R])
    with "1.IH" [OF p [symmetric] refl] True inv "1.prems" show ?thesis by simp
  next
    case False
    with "1.prems" p have "D' = D1" "R' = R1" by (simp_all add: deletion_loop.simps [of rs D R])
    moreover have "\<forall>r \<in> set rs. touches D1 r \<longrightarrow> rl_id r \<in> R1"
      using deletion_fold_unchanged [of D R rs D1 R1] p False by (simp add: deletion_pass_def)
    ultimately show ?thesis using inv by simp
  qed
qed

lemma deletion_loop_cascade:
  assumes "distinct (map rl_id rs)"
  shows "deletion_loop rs init {} =
    (cascade rs init, rl_id ` {r \<in> set rs. touches (cascade rs init) r})"
proof -
  obtain D R where loop: "deletion_loop rs init {} = (D, R)" by (cases "deletion_loop rs init {}")
  have "inj_on rl_id (set rs)" using assms by (simp add: distinct_map)
  moreover have "deletion_inv rs init init {}" by (auto simp: deletion_inv_def intro: cascade.initial)
  ultimately have inv: "deletion_inv rs init D R" and stop: "\<forall>r \<in> set rs. touches D r \<longrightarrow> rl_id r \<in> R"
    using deletion_loop_inv loop by blast+
  have "cascade rs init \<subseteq> D"
    by (rule cascade_least) (use inv stop in \<open>auto simp: deletion_inv_def\<close>)
  with inv have "D = cascade rs init" by (auto simp: deletion_inv_def)
  moreover have "R = rl_id ` {r \<in> set rs. touches D r}"
    using inv stop by (auto simp: deletion_inv_def)
  ultimately show ?thesis using loop by simp
qed

end
