(* ===== verification/Removal_Laws.thy ===== *)
theory Removal_Laws
  imports Executor_Laws "HOL-Library.Sublist"
begin

text \<open>
  Deleting keeps a document well formed: classifiers, relationships, attributes and operations can
  be deleted, classifiers moved and the diagram cleared without the validator finding a dangling
  identifier, a missing position or a broken name afterwards. The one exception is the deletion of a
  classifier that is an association class: the relationship that loses it can come to repeat a
  parallel one. The last section shows that no other deletion can lead to a repetition.
\<close>

section \<open>Strings of a document\<close>

lemma items_strings_concat [simp]: "items_strings xs = concat (map json_strings xs)"
  by (induction xs) auto

lemma fields_strings_concat [simp]: "fields_strings kvs = concat (map (\<lambda>kv. json_strings (snd kv)) kvs)"
  by (induction kvs) auto

lemma jopt_strings [simp]:
  "set (jopt k f v) = (case v of None \<Rightarrow> {} | Some x \<Rightarrow> {(k, f x)})"
  by (simp add: jopt_def split: option.splits)

abbreviation strings :: "json \<Rightarrow> jstring set" where
  "strings v \<equiv> set (json_strings v)"

lemma strings_type_reference_removed:
  "strings (json_type_reference (removeTypeReference D t)) \<subseteq> strings (json_type_reference t)"
  by (auto simp: json_type_reference_def removeTypeReference_def split: option.splits if_splits)

lemma strings_classifier_types:
  assumes "\<And>t. strings (json_type_reference (f t)) \<subseteq> strings (json_type_reference t)"
  shows "strings (json_classifier (map_classifier_types f c)) \<subseteq> strings (json_classifier c)"
proof -
  have par: "strings (json_parameter (map_parameter_type f p)) \<subseteq> strings (json_parameter p)" for p
    using assms [of "pa_type p"] by (auto simp: json_parameter_def map_parameter_type_def)
  have att: "strings (json_attribute (map_attribute_type f a)) \<subseteq> strings (json_attribute a)" for a
    using assms [of "at_type a"] by (auto simp: json_attribute_def map_attribute_type_def)
  have op: "strings (json_operation (map_operation_types f p)) \<subseteq> strings (json_operation p)" for p
    using assms [of "op_returnType p"] par by (fastforce simp: json_operation_def map_operation_types_def)
  show ?thesis
    using att op by (fastforce simp: json_classifier_def map_classifier_types_def)
qed

lemma strings_dropAssociationClass:
  "strings (json_relationship (dropAssociationClass D r)) \<subseteq> strings (json_relationship r)"
  by (auto simp: json_relationship_def dropAssociationClass_def split: option.splits if_splits)

lemma strings_classifier_removed:
  "strings (json_classifier (map_classifier_types (removeTypeReference D) c)) \<subseteq> strings (json_classifier c)"
  by (rule strings_classifier_types) (rule strings_type_reference_removed)

lemma xml_safe_mono: "strings v' \<subseteq> strings v \<Longrightarrow> xml_safe v \<Longrightarrow> xml_safe v'"
  by (auto simp: xml_safe_def)

lemma strings_json_diagram:
  "strings (json_diagram d) = {dg_id d, dg_name d} \<union> (\<Union>c \<in> set (dg_elements d). strings (json_classifier c))
     \<union> (\<Union>r \<in> set (dg_relationships d). strings (json_relationship r))
     \<union> (\<Union>p \<in> set (dg_positions d). strings (json_position p))"
  by (auto simp: json_diagram_def)

lemma strings_diagram:
  assumes "dg_id d' = dg_id d" "dg_name d' = dg_name d"
    and "\<And>c'. c' \<in> set (dg_elements d') \<Longrightarrow> \<exists>c \<in> set (dg_elements d). strings (json_classifier c') \<subseteq> strings (json_classifier c)"
    and "\<And>r'. r' \<in> set (dg_relationships d') \<Longrightarrow> \<exists>r \<in> set (dg_relationships d). strings (json_relationship r') \<subseteq> strings (json_relationship r)"
    and "\<And>p'. p' \<in> set (dg_positions d') \<Longrightarrow> \<exists>p \<in> set (dg_positions d). strings (json_position p') \<subseteq> strings (json_position p)"
  shows "strings (json_diagram d') \<subseteq> strings (json_diagram d)"
proof -
  have "(\<Union>c \<in> set (dg_elements d'). strings (json_classifier c)) \<subseteq> (\<Union>c \<in> set (dg_elements d). strings (json_classifier c))"
    by (rule UN_least) (use assms(3) in blast)
  moreover have "(\<Union>r \<in> set (dg_relationships d'). strings (json_relationship r)) \<subseteq> (\<Union>r \<in> set (dg_relationships d). strings (json_relationship r))"
    by (rule UN_least) (use assms(4) in blast)
  moreover have "(\<Union>p \<in> set (dg_positions d'). strings (json_position p)) \<subseteq> (\<Union>p \<in> set (dg_positions d). strings (json_position p))"
    by (rule UN_least) (use assms(5) in blast)
  ultimately show ?thesis
    unfolding strings_json_diagram assms(1,2) by (intro Un_mono subset_refl)
qed

lemma xml_safe_diagram:
  assumes "xml_safe (json_model doc)" and "strings (json_diagram d) \<subseteq> strings (json_diagram (cm_diagram doc))"
  shows "xml_safe (json_model (doc\<lparr>cm_diagram := d\<rparr>))"
  using assms(1) by (rule xml_safe_mono [rotated]) (use assms(2) in \<open>auto simp: json_model_def\<close>)

section \<open>A smaller document\<close>

lemma subseq_distinct: "subseq xs ys \<Longrightarrow> distinct ys \<Longrightarrow> distinct xs"
  by (induction rule: list_emb.induct) (auto dest: list_emb_set)

lemma subseq_concat_map:
  "subseq xs ys \<Longrightarrow> subseq (concat (map f xs)) (concat (map f ys))"
  by (induction rule: list_emb.induct) (auto intro: list_emb_append_mono subseq_drop_many)

text \<open>The part of the contract on the relationships, for a sub-list with association classes dropped.\<close>

lemma classifierById_removed:
  "classifierById (map (map_classifier_types f) (filter (\<lambda>c. cl_id c \<notin> D) els)) i =
     (if i \<in> D then None else map_option (map_classifier_types f) (classifierById els i))"
  by (induction els) (auto simp: classifierById_def)

lemma is_class_map_types [simp]: "is_class (map_classifier_types f c) = is_class c"
  by (simp add: is_class_def)

lemma drop_fields [simp]:
  "rl_id (dropAssociationClass D r) = rl_id r" "rl_kind (dropAssociationClass D r) = rl_kind r"
  "rl_source (dropAssociationClass D r) = rl_source r" "rl_target (dropAssociationClass D r) = rl_target r"
  by (simp_all add: dropAssociationClass_def)

lemma association_class_ids_drop:
  "association_class_ids (dropAssociationClass D r) = filter (\<lambda>i. i \<notin> D) (association_class_ids r)"
  by (auto simp: association_class_ids_def dropAssociationClass_def)

abbreviation shrunk_elements :: "jstring set \<Rightarrow> uml_classifier list \<Rightarrow> uml_classifier list" where
  "shrunk_elements D els \<equiv>
     map (map_classifier_types (removeTypeReference D)) (filter (\<lambda>c. cl_id c \<notin> D) els)"

lemma ref_ok_removed:
  "ref_ok els t \<Longrightarrow> ref_ok (shrunk_elements D els) (removeTypeReference D t)"
  by (auto simp: ref_ok_def removeTypeReference_def classifierById_removed)

lemma relationship_ok_removed:
  assumes "relationship_ok els r" and "\<not> touches D r"
  shows "relationship_ok (shrunk_elements D els) (dropAssociationClass D r)"
  using assms
  by (auto simp: relationship_ok_def ends_ok_def association_class_ok_def touches_def
      classifierById_removed association_class_ids_drop)

lemma edges_removed: "edges (map (dropAssociationClass D) (filter Q rs)) k \<subseteq> edges rs k"
  by (auto simp: edges_def)

lemma relationships_ok_removed:
  assumes "relationships_ok els rs" and "\<And>r. r \<in> set rs \<Longrightarrow> Q r \<Longrightarrow> \<not> touches D r"
    and "sorted_wrt (\<lambda>r r'. \<not> repeats r r') (map (dropAssociationClass D) (filter Q rs))"
  shows "relationships_ok (shrunk_elements D els) (map (dropAssociationClass D) (filter Q rs))"
proof -
  have "subseq (concat (map association_class_ids (map (dropAssociationClass D) (filter Q rs))))
      (concat (map association_class_ids rs))"
    by (induction rs) (auto simp: association_class_ids_drop intro: list_emb_append_mono subseq_drop_many)
  then have "distinct (concat (map association_class_ids (map (dropAssociationClass D) (filter Q rs))))"
    using assms(1) by (metis relationships_ok_def subseq_distinct)
  moreover have "acyclic (edges (map (dropAssociationClass D) (filter Q rs)) k)"
    if "acyclic (edges rs k)" for k
    using that edges_removed by (rule acyclic_subset)
  moreover have "\<forall>r \<in> set (map (dropAssociationClass D) (filter Q rs)). relationship_ok (shrunk_elements D els) r"
    using assms(1,2) by (auto simp: relationships_ok_def intro: relationship_ok_removed)
  ultimately show ?thesis using assms(1,3) unfolding relationships_ok_def by blast
qed

lemma positions_ok_removed:
  "positions_ok els ps \<Longrightarrow> positions_ok (shrunk_elements D els) (filter (\<lambda>p. po_elementId p \<notin> D) ps)"
proof -
  assume *: "positions_ok els ps"
  have "map po_elementId (filter (\<lambda>p. po_elementId p \<notin> D) ps) = filter (\<lambda>i. i \<notin> D) (map po_elementId ps)"
    by (simp add: filter_map comp_def)
  moreover have "map cl_id (shrunk_elements D els) = filter (\<lambda>i. i \<notin> D) (map cl_id els)"
    by (simp add: filter_map comp_def)
  ultimately show ?thesis
    using * by (simp only: positions_ok_def distinct_filter set_filter)
qed

lemma op_ids_map_types [simp]: "op_ids (map_operation_types f p) = op_ids p"
  by (simp add: op_ids_def map_operation_types_def map_parameter_type_def comp_def)

lemma cl_ids_map_types [simp]: "cl_ids (map_classifier_types f c) = cl_ids c"
  by (simp add: cl_ids_def map_classifier_types_def map_attribute_type_def comp_def)

lemma names_ok_map_types [simp]: "names_ok lowerEs (map_classifier_types f c) = names_ok lowerEs c"
  by (simp add: names_ok_def names_ok_op_def map_classifier_types_def map_attribute_type_def
      map_operation_types_def map_parameter_type_def comp_def)

lemma well_formed_shrink:
  assumes wf: "well_formed lowerEs doc"
    and d: "d = cm_diagram doc\<lparr>dg_elements := shrunk_elements D (dg_elements (cm_diagram doc)),
      dg_positions := filter (\<lambda>p. po_elementId p \<notin> D) (dg_positions (cm_diagram doc)),
      dg_relationships := map (dropAssociationClass D) (filter Q (dg_relationships (cm_diagram doc)))\<rparr>"
    and Q: "\<And>r. r \<in> set (dg_relationships (cm_diagram doc)) \<Longrightarrow> Q r \<Longrightarrow> \<not> touches D r"
    and sigs: "sorted_wrt (\<lambda>r r'. \<not> repeats r r') (dg_relationships d)"
  shows "well_formed lowerEs (doc\<lparr>cm_diagram := d\<rparr>)"
proof -
  let ?els = "dg_elements (cm_diagram doc)" and ?rs = "dg_relationships (cm_diagram doc)"
  have "xml_safe (json_model (doc\<lparr>cm_diagram := d\<rparr>))"
  proof (rule xml_safe_diagram [OF _ strings_diagram])
    show "xml_safe (json_model doc)" using wf by (simp add: well_formed_def Let_def)
  next
    fix c' assume "c' \<in> set (dg_elements d)"
    then show "\<exists>c \<in> set ?els. strings (json_classifier c') \<subseteq> strings (json_classifier c)"
      using strings_classifier_removed by (auto simp: d)
  next
    fix r' assume "r' \<in> set (dg_relationships d)"
    then show "\<exists>r \<in> set ?rs. strings (json_relationship r') \<subseteq> strings (json_relationship r)"
      using strings_dropAssociationClass by (auto simp: d)
  qed (auto simp: d)
  moreover have "subseq (registered_ids (doc\<lparr>cm_diagram := d\<rparr>)) (registered_ids doc)"
    by (auto simp: registered_ids_def d comp_def
        intro!: list_emb_append_mono subseq_concat_map subseq_map subseq_filter_left)
  moreover have "subseq (map (\<lambda>c. normalizedName lowerEs (cl_name c)) (dg_elements d))
      (map (\<lambda>c. normalizedName lowerEs (cl_name c)) ?els)"
    by (simp add: d comp_def subseq_map)
  moreover have "relationships_ok (dg_elements d) (dg_relationships d)"
    using relationships_ok_removed [of ?els ?rs Q D] wf Q sigs by (simp add: d well_formed_def Let_def)
  moreover have "positions_ok (dg_elements d) (dg_positions d)"
    using wf by (simp add: d well_formed_def Let_def positions_ok_removed)
  moreover have "\<forall>c \<in> set (dg_elements d). \<forall>t \<in> set (cl_refs c). ref_ok (dg_elements d) t"
    using wf by (auto simp: d well_formed_def Let_def cl_refs_map_classifier_types intro: ref_ok_removed)
  moreover have "\<forall>c \<in> set (dg_elements d). names_ok lowerEs c" and "dg_name d = dg_name (cm_diagram doc)"
    using wf by (auto simp: d well_formed_def Let_def)
  ultimately show ?thesis
    using wf by (auto simp: well_formed_def Let_def unique_names_def comp_def dest: subseq_distinct)
qed

section \<open>Deleting classifiers and relationships\<close>

lemma removeClassifiersAndReferences_shrinks:
  assumes "distinct (map rl_id (dg_relationships d))" and "D = cascade (dg_relationships d) init"
  shows "removeClassifiersAndReferences d init =
    d\<lparr>dg_elements := shrunk_elements D (dg_elements d),
      dg_positions := filter (\<lambda>p. po_elementId p \<notin> D) (dg_positions d),
      dg_relationships := map (dropAssociationClass D)
        (filter (\<lambda>r. \<not> touches D r) (dg_relationships d))\<rparr>"
proof -
  have "inj_on rl_id (set (dg_relationships d))" using assms(1) by (simp add: distinct_map)
  then have "filter (\<lambda>r. rl_id r \<notin> rl_id ` {r \<in> set (dg_relationships d). touches D r}) (dg_relationships d)
      = filter (\<lambda>r. \<not> touches D r) (dg_relationships d)"
    by (intro filter_cong) (auto dest: inj_onD)
  then show ?thesis
    unfolding removeClassifiersAndReferences_def deletion_loop_cascade [OF assms(1)] assms(2) [symmetric]
    by simp
qed

lemma removeAt_filter:
  "distinct (map f xs) \<Longrightarrow> n < length xs \<Longrightarrow> removeAt n xs = filter (\<lambda>x. f x \<noteq> f (xs ! n)) xs"
proof (induction xs arbitrary: n)
  case (Cons x xs)
  show ?case
  proof (cases n)
    case 0
    with Cons.prems have "filter (\<lambda>y. f y \<noteq> f x) xs = xs"
      by (intro filter_True) (metis distinct.simps(2) image_eqI list.set_map list.simps(9))
    with 0 show ?thesis by (simp add: removeAt_def)
  next
    case (Suc m)
    with Cons show ?thesis by (auto simp: removeAt_def)
  qed
qed simp

lemma well_formed_distinct:
  "well_formed lowerEs doc \<Longrightarrow> distinct (map rl_id (dg_relationships (cm_diagram doc)))"
  by (simp add: well_formed_def Let_def registered_ids_def)

text \<open>Nothing is removed when the set of identifiers is empty.\<close>

lemma shrink_nothing [simp]:
  "map_classifier_types (removeTypeReference {}) c = c" "dropAssociationClass {} r = r"
  by (auto simp: dropAssociationClass_def removeTypeReference_def intro: map_classifier_types_ident)

lemma well_formed_delete_relationships:
  assumes wf: "well_formed lowerEs doc"
  shows "well_formed lowerEs (doc\<lparr>cm_diagram := cm_diagram doc
    \<lparr>dg_relationships := filter Q (dg_relationships (cm_diagram doc))\<rparr>\<rparr>)"
proof -
  have "map (map_classifier_types (removeTypeReference {})) (dg_elements (cm_diagram doc))
      = dg_elements (cm_diagram doc)"
    and "map (dropAssociationClass {}) (filter Q (dg_relationships (cm_diagram doc)))
      = filter Q (dg_relationships (cm_diagram doc))"
    by (simp_all add: map_idI)
  moreover have "sorted_wrt (\<lambda>r r'. \<not> repeats r r') (filter Q (dg_relationships (cm_diagram doc)))"
    using wf by (simp add: well_formed_def Let_def relationships_ok_def sorted_wrt_filter)
  ultimately show ?thesis
    by (intro well_formed_shrink [OF wf, where D = "{}" and Q = Q]) (simp_all add: touches_def)
qed

lemma well_formed_removeClassifiers:
  assumes wf: "well_formed lowerEs doc"
    and sigs: "sorted_wrt (\<lambda>r r'. \<not> repeats r r')
      (dg_relationships (removeClassifiersAndReferences (cm_diagram doc) init))"
  shows "well_formed lowerEs
    (doc\<lparr>cm_diagram := removeClassifiersAndReferences (cm_diagram doc) init\<rparr>)"
  using sigs
  unfolding removeClassifiersAndReferences_shrinks [OF well_formed_distinct [OF wf] refl]
  by (intro well_formed_shrink [OF wf refl]) simp_all

section \<open>Deleting a member of a classifier\<close>

definition same_header :: "uml_classifier \<Rightarrow> uml_classifier \<Rightarrow> bool" where
  "same_header c c' \<longleftrightarrow> cl_id c' = cl_id c \<and> cl_name c' = cl_name c \<and> cl_kind c' = cl_kind c"

lemma classifierById_headers:
  "list_all2 same_header els els' \<Longrightarrow> rel_option same_header (classifierById els i) (classifierById els' i)"
  by (induction rule: list_all2_induct) (auto simp: classifierById_def same_header_def)

lemma headers_update: "n < length els \<Longrightarrow> same_header (els ! n) c' \<Longrightarrow> list_all2 same_header els (els[n := c'])"
  by (auto simp: list_all2_conv_all_nth nth_list_update same_header_def)

lemma headers_ids: "list_all2 same_header els els' \<Longrightarrow> map cl_id els' = map cl_id els \<and> map cl_name els' = map cl_name els"
  by (induction rule: list_all2_induct) (auto simp: same_header_def)

lemma ref_ok_headers:
  "list_all2 same_header els els' \<Longrightarrow> ref_ok els t \<Longrightarrow> ref_ok els' t"
  using classifierById_headers [of els els' "the (tr_elementId t)"]
  by (auto simp: ref_ok_def same_header_def option_rel_Some1)

lemma relationship_ok_headers:
  assumes h: "list_all2 same_header els els'" and ok: "relationship_ok els r"
  shows "relationship_ok els' r"
proof -
  have look: "\<exists>c'. classifierById els' i = Some c' \<and> is_class c' = is_class c"
    if "classifierById els i = Some c" for i c
    using classifierById_headers [OF h, of i] that
    by (auto simp: option_rel_Some1 same_header_def is_class_def)
  have "ends_ok els' r"
    using ok by (auto simp: relationship_ok_def ends_ok_def dest!: look)
  moreover have "association_class_ok els' r"
    using ok by (auto simp: relationship_ok_def association_class_ok_def dest: look)
  ultimately show ?thesis using ok by (simp add: relationship_ok_def)
qed

definition smaller_classifier :: "(jstring \<Rightarrow> jstring) \<Rightarrow> uml_classifier \<Rightarrow> uml_classifier \<Rightarrow> bool" where
  "smaller_classifier lowerEs c c' \<longleftrightarrow> same_header c c' \<and> subseq (cl_ids c') (cl_ids c)
     \<and> (names_ok lowerEs c \<longrightarrow> names_ok lowerEs c') \<and> set (cl_refs c') \<subseteq> set (cl_refs c)
     \<and> strings (json_classifier c') \<subseteq> strings (json_classifier c)"

lemma subseq_concat_update:
  "n < length xs \<Longrightarrow> subseq (f y) (f (xs ! n)) \<Longrightarrow> subseq (concat (map f (xs[n := y]))) (concat (map f xs))"
proof (induction xs arbitrary: n)
  case (Cons x xs)
  then show ?case by (cases n) (auto intro: list_emb_append_mono)
qed simp

lemma subseq_removeAt: "subseq (removeAt n xs) xs"
proof (induction xs arbitrary: n)
  case (Cons x xs)
  have "subseq xs (x # xs)" by (rule list_emb_Cons) (rule subseq_order.refl)
  with Cons show ?case by (cases n) (auto simp: removeAt_def)
qed (simp add: removeAt_def)

lemma deleteAttribute_smaller:
  assumes "deleteAttribute j c = Inr c'" shows "smaller_classifier lowerEs c c'"
proof -
  from assms obtain n where c': "c' = c\<lparr>cl_attributes := removeAt n (cl_attributes c)\<rparr>"
    by (auto simp: deleteAttribute_def split: option.splits)
  note sub = set_removeAt_subset [of n "cl_attributes c"]
  have "subseq (cl_ids c') (cl_ids c)"
    by (auto simp: cl_ids_def c' intro!: list_emb_append_mono subseq_map subseq_removeAt)
  moreover have "distinct (map f (cl_attributes c)) \<Longrightarrow> distinct (map f (cl_attributes c'))" for f :: "uml_attribute \<Rightarrow> jstring"
    by (simp add: c' map_removeAt distinct_removeAt)
  ultimately show ?thesis
    using sub
    by (auto simp: smaller_classifier_def same_header_def c' names_ok_def unique_names_def cl_refs_def
        json_classifier_def comp_def)
qed

lemma deleteOperation_smaller:
  assumes "deleteOperation j c = Inr c'" shows "smaller_classifier lowerEs c c'"
proof -
  from assms obtain n where c': "c' = c\<lparr>cl_operations := removeAt n (cl_operations c)\<rparr>"
    by (auto simp: deleteOperation_def split: option.splits)
  note sub = set_removeAt_subset [of n "cl_operations c"]
  have "subseq (cl_ids c') (cl_ids c)"
    by (auto simp: cl_ids_def c' intro!: list_emb_append_mono subseq_concat_map subseq_removeAt)
  then show ?thesis
    using sub
    by (auto simp: smaller_classifier_def same_header_def c' names_ok_def cl_refs_def json_classifier_def)
qed

lemma well_formed_smaller_classifier:
  assumes wf: "well_formed lowerEs doc" and n: "n < length (dg_elements (cm_diagram doc))"
    and c': "smaller_classifier lowerEs (dg_elements (cm_diagram doc) ! n) c'"
  shows "well_formed lowerEs (doc\<lparr>cm_diagram := setClassifier (cm_diagram doc) n c'\<rparr>)"
proof -
  let ?els = "dg_elements (cm_diagram doc)" and ?d = "setClassifier (cm_diagram doc) n c'"
  have els: "dg_elements ?d = ?els[n := c']" by (simp add: setClassifier_def)
  have h: "list_all2 same_header ?els (dg_elements ?d)"
    using n c' by (simp add: els headers_update smaller_classifier_def)
  have from_old: "\<exists>c \<in> set ?els. x = c \<or> smaller_classifier lowerEs c x" if "x \<in> set (dg_elements ?d)" for x
  proof (cases "x = c'")
    case True
    with n c' show ?thesis by (intro bexI [of _ "?els ! n"]) simp_all
  next
    case False
    with that set_list_update_subset [of ?els n c'] show ?thesis by (auto simp: els)
  qed
  have "xml_safe (json_model (doc\<lparr>cm_diagram := ?d\<rparr>))"
  proof (rule xml_safe_diagram [OF _ strings_diagram])
    show "xml_safe (json_model doc)" using wf by (simp add: well_formed_def Let_def)
  next
    fix x assume "x \<in> set (dg_elements ?d)"
    from from_old [OF this]
    show "\<exists>c \<in> set ?els. strings (json_classifier x) \<subseteq> strings (json_classifier c)"
      by (auto simp: smaller_classifier_def)
  qed (auto simp: setClassifier_def)
  moreover have "subseq (registered_ids (doc\<lparr>cm_diagram := ?d\<rparr>)) (registered_ids doc)"
    using subseq_concat_update [of n ?els cl_ids c'] n c'
    by (auto simp: registered_ids_def els smaller_classifier_def setClassifier_def)
  moreover have "\<forall>x \<in> set (dg_elements ?d). names_ok lowerEs x"
    using wf from_old by (fastforce simp: well_formed_def Let_def smaller_classifier_def)
  moreover have "\<forall>x \<in> set (dg_elements ?d). \<forall>t \<in> set (cl_refs x). ref_ok (dg_elements ?d) t"
    using wf from_old ref_ok_headers [OF h] by (fastforce simp: well_formed_def Let_def smaller_classifier_def)
  moreover have "relationships_ok (dg_elements ?d) (dg_relationships ?d)"
    using wf relationship_ok_headers [OF h]
    by (auto simp: well_formed_def Let_def relationships_ok_def setClassifier_def)
  moreover have "positions_ok (dg_elements ?d) (dg_positions ?d)"
    using wf headers_ids [OF h]
    by (simp add: well_formed_def Let_def positions_ok_def setClassifier_def del: set_map)
  ultimately show ?thesis
    using wf headers_ids [OF h]
    by (auto simp: well_formed_def Let_def setClassifier_def dest: subseq_distinct)
qed

section \<open>The commands that only remove or move\<close>

fun removes_or_moves :: "command_body \<Rightarrow> bool" where
  "removes_or_moves (ClassifierMove i x y) = True"
| "removes_or_moves (ClassifierDelete i) = True"
| "removes_or_moves (AttributeDelete i j) = True"
| "removes_or_moves (OperationDelete i j) = True"
| "removes_or_moves (RelationshipDelete i) = True"
| "removes_or_moves DiagramClear = True"
| "removes_or_moves _ = False"

lemma well_formed_move:
  assumes wf: "well_formed lowerEs doc" and m: "moveClassifier (cm_diagram doc) i x y = Inr d"
  shows "well_formed lowerEs (doc\<lparr>cm_diagram := d\<rparr>)"
proof -
  let ?ps = "dg_positions (cm_diagram doc)"
  from m obtain n where n: "n < length ?ps"
    and d: "d = cm_diagram doc\<lparr>dg_positions := ?ps[n := (?ps ! n)\<lparr>po_x := x, po_y := y\<rparr>]\<rparr>"
    by (auto simp: moveClassifier_def res_simps dest: findIndex_Some split: option.splits)
  have ids: "map po_elementId (dg_positions d) = map po_elementId ?ps"
    using n by (simp add: d map_update list_update_same_conv)
  have "xml_safe (json_model (doc\<lparr>cm_diagram := d\<rparr>))"
  proof (rule xml_safe_diagram [OF _ strings_diagram])
    show "xml_safe (json_model doc)" using wf by (simp add: well_formed_def Let_def)
  next
    fix p assume "p \<in> set (dg_positions d)"
    then have "po_elementId p \<in> set (map po_elementId ?ps)" using ids by (metis image_eqI set_map)
    then obtain q where "q \<in> set ?ps" "po_elementId q = po_elementId p" by auto
    then show "\<exists>q \<in> set ?ps. strings (json_position p) \<subseteq> strings (json_position q)"
      by (intro bexI [of _ q]) (auto simp: json_position_def split: option.splits)
  qed (auto simp: d)
  moreover have "positions_ok (dg_elements d) (dg_positions d)"
    using wf unfolding positions_ok_def ids by (simp add: well_formed_def Let_def d positions_ok_def)
  ultimately show ?thesis
    using wf by (simp add: well_formed_def Let_def d registered_ids_def)
qed

lemma well_formed_clear:
  "well_formed lowerEs doc \<Longrightarrow> well_formed lowerEs (doc\<lparr>cm_diagram := cm_diagram doc
     \<lparr>dg_elements := [], dg_relationships := [], dg_positions := []\<rparr>\<rparr>)"
  by (rule well_formed_shrink [where D = UNIV and Q = "\<lambda>_. False"]) simp_all

lemma well_formed_deleteRelationship:
  assumes wf: "well_formed lowerEs doc"
    and m: "deleteRelationshipAggregate (cm_diagram doc) i = Inr d"
    and sigs: "sorted_wrt (\<lambda>r r'. \<not> repeats r r') (dg_relationships d)"
  shows "well_formed lowerEs (doc\<lparr>cm_diagram := d\<rparr>)"
proof -
  let ?rs = "dg_relationships (cm_diagram doc)"
  from m obtain n where n: "relationshipIndex (cm_diagram doc) i = Inr n"
    and d: "d = (let r = ?rs ! n; d' = cm_diagram doc\<lparr>dg_relationships := removeAt n ?rs\<rparr>
      in if truthy (rl_associationClassId r)
         then removeClassifiersAndReferences d' {the (rl_associationClassId r)} else d')"
    by (auto simp: deleteRelationshipAggregate_def res_simps Let_def)
  let ?doc = "doc\<lparr>cm_diagram := cm_diagram doc\<lparr>dg_relationships := removeAt n ?rs\<rparr>\<rparr>"
  have "removeAt n ?rs = filter (\<lambda>r. rl_id r \<noteq> rl_id (?rs ! n)) ?rs"
    using relationshipIndex_Inr [OF n] well_formed_distinct [OF wf] by (intro removeAt_filter) simp_all
  then have wf': "well_formed lowerEs ?doc"
    using well_formed_delete_relationships [OF wf] by simp
  show ?thesis
    using well_formed_removeClassifiers [OF wf'] wf' sigs by (auto simp: d Let_def)
qed

lemma mutate_keeps_well_formed:
  assumes "removes_or_moves b" and wf: "well_formed lowerEs doc"
    and m: "mutate (cm_diagram doc) b = Inr d"
    and sigs: "sorted_wrt (\<lambda>r r'. \<not> repeats r r') (dg_relationships d)"
  shows "well_formed lowerEs (doc\<lparr>cm_diagram := d\<rparr>)"
  using assms(1)
proof (cases b rule: removes_or_moves.cases)
  case (1 i x y)
  with m wf show ?thesis by (auto intro: well_formed_move)
next
  case (2 i)
  with m wf sigs show ?thesis by (auto simp: res_simps intro: well_formed_removeClassifiers)
next
  case (3 i j)
  with m wf show ?thesis
    by (auto simp: onClassifier_def res_simps dest: classifierIndex_Inr
        intro!: well_formed_smaller_classifier deleteAttribute_smaller)
next
  case (4 i j)
  with m wf show ?thesis
    by (auto simp: onClassifier_def res_simps dest: classifierIndex_Inr
        intro!: well_formed_smaller_classifier deleteOperation_smaller)
next
  case (5 i)
  with m wf sigs show ?thesis by (auto intro: well_formed_deleteRelationship)
next
  case 6
  with m wf show ?thesis by (auto intro: well_formed_clear)
qed simp_all

section \<open>Deleting leaves no repetition\<close>

text \<open>Relationships can only come to repeat each other when one that stays loses its association
  class. A cascade never does that by itself: an association class enters it through the one
  relationship that has it, and that relationship goes too.\<close>

lemma concat_map_distinct_eq:
  "distinct (concat (map f xs)) \<Longrightarrow> x \<in> set xs \<Longrightarrow> y \<in> set xs \<Longrightarrow> i \<in> set (f x) \<Longrightarrow> i \<in> set (f y) \<Longrightarrow> x = y"
  by (induction xs) fastforce+

lemma cascade_drops_nothing:
  assumes one: "distinct (concat (map association_class_ids rs))" and r: "r \<in> set rs"
    and init: "init \<inter> set (association_class_ids r) = {}"
    and stays: "\<not> touches (cascade rs init) r"
  shows "dropAssociationClass (cascade rs init) r = r"
proof -
  have "i \<notin> cascade rs init" if i: "i \<in> set (association_class_ids r)" for i
  proof
    assume "i \<in> cascade rs init"
    then show False
    proof cases
      case initial
      with i init show False by blast
    next
      case (by_source r')
      with concat_map_distinct_eq [OF one r, of r' i] i stays show False by (simp add: touches_def)
    next
      case (by_target r')
      with concat_map_distinct_eq [OF one r, of r' i] i stays show False by (simp add: touches_def)
    qed
  qed
  then show ?thesis by (auto simp: dropAssociationClass_def association_class_ids_def)
qed

lemma removeClassifiers_no_repeats:
  assumes wf: "well_formed lowerEs doc"
    and init: "\<And>r. r \<in> set (dg_relationships (cm_diagram doc)) \<Longrightarrow> init \<inter> set (association_class_ids r) = {}"
  shows "sorted_wrt (\<lambda>r r'. \<not> repeats r r')
    (dg_relationships (removeClassifiersAndReferences (cm_diagram doc) init))"
proof -
  let ?rs = "dg_relationships (cm_diagram doc)" and ?D = "cascade (dg_relationships (cm_diagram doc)) init"
  have rel: "relationships_ok (dg_elements (cm_diagram doc)) ?rs"
    using wf by (simp add: well_formed_def Let_def)
  then have one: "distinct (concat (map association_class_ids ?rs))" by (simp add: relationships_ok_def)
  have "map (dropAssociationClass ?D) (filter (\<lambda>r. \<not> touches ?D r) ?rs) = filter (\<lambda>r. \<not> touches ?D r) ?rs"
    by (rule map_idI) (simp add: cascade_drops_nothing [OF one _ init])
  moreover have "sorted_wrt (\<lambda>r r'. \<not> repeats r r') (filter (\<lambda>r. \<not> touches ?D r) ?rs)"
    using rel by (simp add: relationships_ok_def sorted_wrt_filter)
  ultimately show ?thesis
    by (simp add: removeClassifiersAndReferences_shrinks [OF well_formed_distinct [OF wf] refl])
qed

lemma deleteRelationship_no_repeats:
  assumes wf: "well_formed lowerEs doc" and m: "deleteRelationshipAggregate (cm_diagram doc) i = Inr d"
  shows "sorted_wrt (\<lambda>r r'. \<not> repeats r r') (dg_relationships d)"
proof -
  let ?rs = "dg_relationships (cm_diagram doc)"
  from m obtain n where n: "relationshipIndex (cm_diagram doc) i = Inr n"
    and d: "d = (let r = ?rs ! n; d' = cm_diagram doc\<lparr>dg_relationships := removeAt n ?rs\<rparr>
      in if truthy (rl_associationClassId r)
         then removeClassifiersAndReferences d' {the (rl_associationClassId r)} else d')"
    by (auto simp: deleteRelationshipAggregate_def res_simps Let_def)
  let ?doc = "doc\<lparr>cm_diagram := cm_diagram doc\<lparr>dg_relationships := removeAt n ?rs\<rparr>\<rparr>"
  have less: "n < length ?rs" using relationshipIndex_Inr [OF n] by simp
  have rest: "removeAt n ?rs = filter (\<lambda>r. rl_id r \<noteq> rl_id (?rs ! n)) ?rs"
    using less well_formed_distinct [OF wf] by (intro removeAt_filter) simp_all
  then have wf': "well_formed lowerEs ?doc" using well_formed_delete_relationships [OF wf] by simp
  have "distinct (concat (map association_class_ids ?rs))"
    using wf by (simp add: well_formed_def Let_def relationships_ok_def)
  note same = concat_map_distinct_eq [OF this, of "?rs ! n"]
  have "set (association_class_ids (?rs ! n)) \<inter> set (association_class_ids r) = {}"
    if "r \<in> set (removeAt n ?rs)" for r
  proof -
    from that have "r \<in> set ?rs" "r \<noteq> ?rs ! n" unfolding rest by auto
    with same [of r] less show ?thesis by auto
  qed
  then show ?thesis
    using removeClassifiers_no_repeats [OF wf', of "{the (rl_associationClassId (?rs ! n))}"] wf'
    by (auto simp: d Let_def association_class_ids_def well_formed_def relationships_ok_def)
qed

text \<open>A command that removes or moves, other than the deletion of an association class.\<close>

lemma mutate_no_repeats:
  assumes "removes_or_moves b" and wf: "well_formed lowerEs doc" and m: "mutate (cm_diagram doc) b = Inr d"
    and used: "\<And>i r. b = ClassifierDelete i \<Longrightarrow> r \<in> set (dg_relationships (cm_diagram doc)) \<Longrightarrow>
      rl_associationClassId r \<noteq> Some i"
  shows "sorted_wrt (\<lambda>r r'. \<not> repeats r r') (dg_relationships d)"
proof -
  have same: "sorted_wrt (\<lambda>r r'. \<not> repeats r r') (dg_relationships (cm_diagram doc))"
    using wf by (simp add: well_formed_def Let_def relationships_ok_def)
  show ?thesis
    using assms(1)
  proof (cases b rule: removes_or_moves.cases)
    case (1 i x y)
    with m same show ?thesis by (auto simp: moveClassifier_def res_simps split: option.splits)
  next
    case (2 i)
    have "truthy v \<Longrightarrow> v = Some (the v)" for v :: "jstring option" by (cases v) (simp_all add: truthy_def)
    with 2 m used have "sorted_wrt (\<lambda>r r'. \<not> repeats r r')
        (dg_relationships (removeClassifiersAndReferences (cm_diagram doc) {i}))"
      by (intro removeClassifiers_no_repeats [OF wf]) (auto simp: association_class_ids_def)
    with 2 m show ?thesis by (auto simp: res_simps)
  next
    case (3 i j)
    with m same show ?thesis by (auto simp: onClassifier_def res_simps setClassifier_def)
  next
    case (4 i j)
    with m same show ?thesis by (auto simp: onClassifier_def res_simps setClassifier_def)
  next
    case (5 i)
    with m wf show ?thesis by (auto intro: deleteRelationship_no_repeats)
  next
    case 6
    with m show ?thesis by auto
  qed simp_all
qed

end
