(* ===== verification/Example_Documents.thy ===== *)
theory Example_Documents
  imports Removal_Laws
begin

text \<open>
  Small documents on which the theorems are applied, and the lemmas that let the simplifier
  evaluate the validator on ASCII text.
\<close>

section \<open>Evaluating ASCII text\<close>

abbreviation char_unit :: "char \<Rightarrow> 16 word" where
  "char_unit c \<equiv> of_nat (of_char c)"

lemma unat_char_unit: "unat (char_unit c) = of_char c"
  using nat_of_char_less_256 [of c] by (simp add: unat_of_nat del: nat_of_char_less_256)

lemma char_unit_no_surrogate: "\<not> is_high_surrogate (char_unit c)"
  using nat_of_char_less_256 [of c]
  by (simp add: is_high_surrogate_def word_le_nat_alt unat_char_unit del: nat_of_char_less_256)

lemma code_points_js: "code_points (js s) = map of_char s"
  unfolding js_def
proof (induction s)
  case (Cons c s)
  then show ?case by (cases s) (simp_all add: unat_char_unit char_unit_no_surrogate)
qed simp

definition js_space_char :: "char \<Rightarrow> bool" where
  "js_space_char c \<longleftrightarrow> is_js_space (char_unit c)"

lemma js_trim_js:
  "js_trim (js s) = js (rev (dropWhile js_space_char (rev (dropWhile js_space_char s))))"
  by (simp add: js_trim_def js_def dropWhile_map rev_map comp_def js_space_char_def [abs_def])

lemma js_space_char_eval:
  "js_space_char c \<longleftrightarrow> (of_char c :: nat) \<in> {9, 10, 11, 12, 13, 32, 160}"
proof -
  have "(of_char c :: nat) < 256" by simp
  then show ?thesis
    by (auto simp: js_space_char_def is_js_space_def word_le_nat_alt word_unat_eq_iff unat_char_unit
        simp del: nat_of_char_less_256)
qed

lemmas eval_text = code_points_js js_trim_js js_space_char_eval valid_xml_code_point_def

section \<open>Documents\<close>

definition ref_to :: "string \<Rightarrow> string option \<Rightarrow> type_reference" where
  "ref_to n i = \<lparr>tr_name = js n, tr_elementId = map_option js i, tr_collection = None, tr_nullable = None\<rparr>"

definition attribute_of :: "string \<Rightarrow> string \<Rightarrow> type_reference \<Rightarrow> uml_attribute" where
  "attribute_of i n t = \<lparr>at_id = js i, at_name = js n, at_visibility = Private, at_type = t,
     at_isStatic = False, at_isReadOnly = False, at_defaultValue = None\<rparr>"

definition class_of :: "string \<Rightarrow> string \<Rightarrow> uml_attribute list \<Rightarrow> uml_classifier" where
  "class_of i n atts = \<lparr>cl_id = js i, cl_name = js n, cl_kind = KClass False, cl_stereotypes = None,
     cl_attributes = atts, cl_operations = []\<rparr>"

definition position_of :: "string \<Rightarrow> uml_position" where
  "position_of i = \<lparr>po_elementId = js i, po_x = 0, po_y = 0, po_width = None, po_height = None\<rparr>"

definition end_of :: "string \<Rightarrow> string \<Rightarrow> relationship_end" where
  "end_of i m = \<lparr>re_elementId = js i, re_role = [], re_multiplicity = js m, re_navigable = True\<rparr>"

definition association_of :: "string \<Rightarrow> string \<Rightarrow> string \<Rightarrow> string option \<Rightarrow> uml_relationship" where
  "association_of i s t ac = \<lparr>rl_id = js i, rl_kind = Association, rl_name = None,
     rl_source = end_of s ''*'', rl_target = end_of t ''*'',
     rl_associationClassId = map_option js ac\<rparr>"

definition document_of ::
  "uml_classifier list \<Rightarrow> uml_relationship list \<Rightarrow> uml_position list \<Rightarrow> canonical_model" where
  "document_of els rs ps = \<lparr>cm_project = \<lparr>pr_id = js ''project_1'', pr_name = js ''Shop'', pr_description = None\<rparr>,
     cm_diagram = \<lparr>dg_id = js ''diagram_1'', dg_name = js ''Main'', dg_elements = els,
       dg_relationships = rs, dg_positions = ps\<rparr>,
     cm_metadata = \<lparr>me_createdAt = js ''t0'', me_updatedAt = js ''t0'', me_revision = 0, me_tags = None\<rparr>\<rparr>"

definition command_of :: "command_body \<Rightarrow> uml_command" where
  "command_of b = \<lparr>cmd_timestamp = js ''t1'', cmd_body = b\<rparr>"

text \<open>Orders and products, an association class for their lines, and a second association of the
  same ends without one.\<close>

definition shop :: canonical_model where
  "shop = document_of
     [class_of ''order'' ''Order'' [], class_of ''product'' ''Product'' [], class_of ''line'' ''Line'' []]
     [association_of ''r1'' ''order'' ''product'' (Some ''line''),
      association_of ''r2'' ''order'' ''product'' None]
     [position_of ''order'', position_of ''product'', position_of ''line'']"

lemmas shop_defs = shop_def document_of_def class_of_def association_of_def position_of_def end_of_def
  attribute_of_def ref_to_def command_of_def

lemmas validator_defs = assertCanonicalSemanticIntegrity_def checkElement_def elementPath_def
  registerId_def assertNonBlankName_def assertUniqueNames_def normalizedName_def
  checkElementReferences_def checkPosition_def checkPositioned_def checkRelationship_def checkEnds_def
  checkAssociationClass_def assertMultiplicityRange_def elementsById_def
  containsInvalidXml10Character_def json_model_def json_diagram_def json_classifier_def json_position_def
  json_relationship_def json_end_def kind_fields_def jopt_def kind_text_def is_class_def
  checkAttribute_def json_attribute_def json_type_reference_def visibility_text_def assertTypeReference_def

lemma multiplicities:
  "js_split (js ''*'') (js ''..'') = [js ''*'']" "js_split (js ''1'') (js ''..'') = [js ''1'']"
  "js_split (js ''0..1'') (js ''..'') = [js ''0'', js ''1'']"
  "js_split (js ''0..*'') (js ''..'') = [js ''0'', js ''*'']"
  "isManyMultiplicity (js ''*'')"
  by (simp_all add: js_def js_split_def isManyMultiplicity_def)

lemmas eval_validator = validator_defs eval_text multiplicities relationshipSignature_def
  json_or_null_def assertAcyclic_def hasCycle_def adjacency_def addEdge_def targetsOf_def
  visit.simps visitAll.simps

lemma shop_valid: "assertCanonicalSemanticIntegrity id shop = Inr ()"
  by (simp add: eval_validator shop_defs)

end
