(* ===== verification/Editing_Properties.thy ===== *)
theory Editing_Properties
  imports Example_Documents
begin

text \<open>
  The properties of the validator and of the command executor, each applied to a small document
  where it has hypotheses.
\<close>

section \<open>The validator\<close>

text \<open>C1. The semantic integrity check returns normally exactly on the well formed documents:
  every identifier used once, no blank or repeated name, every type reference, position and
  relationship end resolved, relationship kinds and multiplicities in order, no repeated
  relationship, no generalization or composition cycle.\<close>

theorem integrity_check_decides_well_formed:
  "assertCanonicalSemanticIntegrity lowerEs doc = Inr () \<longleftrightarrow> well_formed lowerEs doc"
  by (rule integrity_iff_well_formed)

text \<open>C2. The depth-first search throws its error exactly when the relationships of that kind,
  read as edges from source to target, have a cycle, for any number of relationships.\<close>

theorem acyclicity_check_correct:
  "assertAcyclic rs kind =
     (if acyclic (edges rs kind) then Inr ()
      else Inl (semanticError (js ''/diagram/relationships'')
                  (kind_text kind @ js '' relationships cannot form a cycle.'')))"
  by (simp add: assertAcyclic_def hasCycle_iff)

section \<open>The executor\<close>

text \<open>C3. A command changes, adds or removes only classifiers whose identifiers
  \<open>affectedElementIds\<close> names: the others are the same afterwards, in the same order. The
  locks on the named classifiers therefore cover everything a command modifies, including the
  classifiers whose type references a rename rewrites.\<close>

theorem affected_elements_cover_changes:
  assumes "execute doc cmd = Inr doc'" and "affectedElementIds doc cmd = Inr A"
  shows "filter (\<lambda>c. cl_id c \<notin> A) (dg_elements (cm_diagram doc'))
       = filter (\<lambda>c. cl_id c \<notin> A) (dg_elements (cm_diagram doc))"
  using assms by (auto simp: execute_def affectedElementIds_def res_simps intro: mutate_unaffected)

definition library_doc :: canonical_model where
  "library_doc = document_of
     [class_of ''author'' ''Author'' [],
      class_of ''book'' ''Book'' [attribute_of ''a1'' ''writer'' (ref_to ''Author'' (Some ''author''))],
      class_of ''shelf'' ''Shelf'' []] []
     [position_of ''author'', position_of ''book'', position_of ''shelf'']"

definition rename_author :: uml_command where
  "rename_author = command_of (ClassifierUpdate (js ''author'') (class_of ''author'' ''Writer'' []))"

definition library_renamed :: canonical_model where
  "library_renamed = document_of
     [class_of ''author'' ''Writer'' [],
      class_of ''book'' ''Book'' [attribute_of ''a1'' ''writer'' (ref_to ''Writer'' (Some ''author''))],
      class_of ''shelf'' ''Shelf'' []] []
     [position_of ''author'', position_of ''book'', position_of ''shelf'']"

lemmas executor_defs = execute_def classifierIndex_def relationshipIndex_def findClassifier_def
  findRelationship_def updateClassifier_def setClassifier_def syncTypeReferenceNames_def
  map_classifier_types_def map_attribute_type_def map_operation_types_def map_parameter_type_def
  syncTypeName_def affectedElementIds_def referencesClassifier_def

lemma rename_author_runs: "execute library_doc rename_author = Inr library_renamed"
  by (simp add: executor_defs library_doc_def rename_author_def library_renamed_def shop_defs)

lemma rename_author_affects:
  "affectedElementIds library_doc rename_author = Inr {js ''author'', js ''book''}"
  by (simp add: executor_defs library_doc_def rename_author_def shop_defs)

theorem affected_elements_cover_changes_witness:
  "filter (\<lambda>c. cl_id c \<notin> {js ''author'', js ''book''}) (dg_elements (cm_diagram library_renamed))
     = [class_of ''shelf'' ''Shelf'' []]"
  using affected_elements_cover_changes [OF rename_author_runs rename_author_affects]
  by (simp add: library_doc_def shop_defs)

text \<open>Renaming a classifier rewrites every type reference to it: afterwards each reference
  that names the classifier by identifier carries the new name.\<close>

theorem rename_updates_references:
  assumes "execute doc \<lparr>cmd_timestamp = t, cmd_body = ClassifierUpdate i c\<rparr> = Inr doc'"
    and "classifierById (dg_elements (cm_diagram doc)) i = Some old" and "cl_name old \<noteq> cl_name c"
    and "x \<in> set (dg_elements (cm_diagram doc'))" and "r \<in> set (cl_refs x)"
    and "tr_elementId r = Some i"
  shows "tr_name r = cl_name c"
proof -
  have "findIndex (\<lambda>c. cl_id c = i) els = Some n \<Longrightarrow> classifierById els i = Some (els ! n)" for els n
    by (induction els arbitrary: n) (auto simp: classifierById_def split: if_splits)
  with assms(1-3) obtain n where
    "dg_elements (cm_diagram doc') = map (map_classifier_types (syncTypeName i (cl_name c)))
       ((dg_elements (cm_diagram doc))[n := c])"
    by (auto simp: execute_def updateClassifier_def classifierIndex_def res_simps Let_def
        syncTypeReferenceNames_def setClassifier_def split: option.splits if_splits)
  with assms(4,5) obtain t where "r = syncTypeName i (cl_name c) t"
    by (auto simp: cl_refs_map_classifier_types)
  with assms(6) show ?thesis by (auto simp: syncTypeName_def split: if_splits)
qed

theorem rename_updates_references_witness:
  "tr_name (ref_to ''Writer'' (Some ''author'')) = js ''Writer''"
proof -
  have "execute library_doc \<lparr>cmd_timestamp = js ''t1'',
      cmd_body = ClassifierUpdate (js ''author'') (class_of ''author'' ''Writer'' [])\<rparr> = Inr library_renamed"
    using rename_author_runs by (simp add: rename_author_def command_of_def)
  then show ?thesis
    using rename_updates_references [where x = "dg_elements (cm_diagram library_renamed) ! 1"
        and r = "ref_to ''Writer'' (Some ''author'')" and i = "js ''author''" and old = "class_of ''author'' ''Author'' []"]
    by (simp add: library_doc_def library_renamed_def shop_defs classifierById_def cl_refs_def)
qed

text \<open>C4. Deleting classifiers: the loop that collects the classifiers and relationships to delete
  ends with the least set of classifiers that contains the given ones and the association class of
  every relationship with a deleted end, and with exactly the relationships with a deleted end.\<close>

theorem deletion_loop_is_cascade:
  assumes "distinct (map rl_id rs)"
  shows "deletion_loop rs init {} =
    (cascade rs init, rl_id ` {r \<in> set rs. touches (cascade rs init) r})"
  using assms by (rule deletion_loop_cascade)

theorem deletion_loop_is_cascade_witness:
  "cascade [association_of ''r1'' ''order'' ''product'' (Some ''line''),
            association_of ''r2'' ''line'' ''product'' None] {js ''order''}
     = {js ''order'', js ''line''}"
  using deletion_loop_is_cascade [of "[association_of ''r1'' ''order'' ''product'' (Some ''line''),
      association_of ''r2'' ''line'' ''product'' None]" "{js ''order''}"]
  by (simp add: shop_defs deletion_loop.simps deletion_pass_def deletion_step_def insert_commute)

text \<open>C5. Moving or deleting keeps an accepted document acceptable: after \<open>classifier.move\<close>,
  \<open>classifier.delete\<close>, \<open>attribute.delete\<close>, \<open>operation.delete\<close>,
  \<open>relationship.delete\<close> or \<open>diagram.clear\<close> the whole integrity check passes again. The
  one command left out is the deletion of a classifier that is itself the association class of a
  relationship, which can be refused (see below); association classes that go with a relationship or
  with one of its ends are covered.\<close>

theorem removal_keeps_integrity:
  assumes "assertCanonicalSemanticIntegrity lowerEs doc = Inr ()"
    and "removes_or_moves (cmd_body cmd)" and "execute doc cmd = Inr doc'"
    and "\<And>i r. cmd_body cmd = ClassifierDelete i \<Longrightarrow> r \<in> set (dg_relationships (cm_diagram doc)) \<Longrightarrow>
      rl_associationClassId r \<noteq> Some i"
  shows "assertCanonicalSemanticIntegrity lowerEs doc' = Inr ()"
  using assms
  by (auto simp: integrity_iff_well_formed execute_def res_simps
      intro!: mutate_keeps_well_formed intro: mutate_no_repeats)

definition shop_without_product :: canonical_model where
  "shop_without_product = document_of [class_of ''order'' ''Order'' []] [] [position_of ''order'']"

lemmas deletion_defs = execute_def findClassifier_def classifierIndex_def removeClassifiersAndReferences_def
  deletion_loop.simps deletion_pass_def deletion_step_def map_classifier_types_def dropAssociationClass_def

lemma delete_product_runs:
  "execute shop (command_of (ClassifierDelete (js ''product''))) = Inr shop_without_product"
  by (simp add: deletion_defs shop_defs shop_without_product_def)

theorem removal_keeps_integrity_witness:
  "assertCanonicalSemanticIntegrity id shop_without_product = Inr ()"
  by (rule removal_keeps_integrity [OF shop_valid _ delete_product_runs])
    (auto simp: command_of_def shop_defs)

text \<open>The exception of the previous property is needed: deleting the association class of a
  relationship can be refused, because without it the relationship repeats a parallel one. On the
  document \<open>shop\<close>, which the check accepts, the executor carries out the deletion of
  \<open>line\<close> and the check then rejects the result.\<close>

theorem deleting_association_class_can_be_rejected:
  "assertCanonicalSemanticIntegrity id shop = Inr () \<and>
   (\<exists>doc'. execute shop (command_of (ClassifierDelete (js ''line''))) = Inr doc'
     \<and> assertCanonicalSemanticIntegrity id doc' = Inl (semanticError
         (js ''/diagram/relationships/'' @ show_nat 1) (js ''duplicates an existing semantic relationship.'')))"
proof
  let ?doc = "document_of [class_of ''order'' ''Order'' [], class_of ''product'' ''Product'' []]
     [association_of ''r1'' ''order'' ''product'' None, association_of ''r2'' ''order'' ''product'' None]
     [position_of ''order'', position_of ''product'']"
  show "\<exists>doc'. execute shop (command_of (ClassifierDelete (js ''line''))) = Inr doc'
     \<and> assertCanonicalSemanticIntegrity id doc' = Inl (semanticError
         (js ''/diagram/relationships/'' @ show_nat 1) (js ''duplicates an existing semantic relationship.''))"
  proof (intro exI conjI)
    show "execute shop (command_of (ClassifierDelete (js ''line''))) = Inr ?doc"
      by (simp add: deletion_defs shop_defs)
    show "assertCanonicalSemanticIntegrity id ?doc = Inl (semanticError
         (js ''/diagram/relationships/'' @ show_nat 1) (js ''duplicates an existing semantic relationship.''))"
      by (simp add: eval_validator shop_defs)
  qed
qed (rule shop_valid)

text \<open>Executing a command either throws or returns a document that differs, with the project
  and the metadata as before.\<close>

theorem execute_changes_only_the_diagram:
  "case execute doc cmd of
     Inl e \<Rightarrow> (\<exists>e'. mutate (cm_diagram doc) (cmd_body cmd) = Inl e')
                \<or> mutate (cm_diagram doc) (cmd_body cmd) = Inr (cm_diagram doc)
   | Inr doc' \<Rightarrow> cm_diagram doc' \<noteq> cm_diagram doc \<and> cm_project doc' = cm_project doc
                \<and> cm_metadata doc' = cm_metadata doc"
  by (cases "mutate (cm_diagram doc) (cmd_body cmd)") (auto simp: execute_def throwUnless_def)

end
