(* ===== verification/Indexed_Maps.thy ===== *)
theory Indexed_Maps
  imports Js_Prelude
begin

text \<open>
  Maps of maps, \<open>Map<string, Map<string, V>>\<close>, as the collaboration stores keep them: an
  outer key is present only while its inner map has an entry. A \<open>Set\<close> is a map to unit, in
  the order of insertion. The stores use three operations on them: read, put (creating the inner map
  when it is missing) and drop (removing the inner map with its last entry).
\<close>

type_synonym ('a, 'b, 'v) nested = "('a, ('b, 'v) jmap) jmap"

definition inner :: "('a, 'b, 'v) nested \<Rightarrow> 'a \<Rightarrow> ('b, 'v) jmap" where
  "inner m a = (case mapGet m a of None \<Rightarrow> [] | Some i \<Rightarrow> i)"

definition nestedGet :: "('a, 'b, 'v) nested \<Rightarrow> 'a \<Rightarrow> 'b \<Rightarrow> 'v option" where
  "nestedGet m a b = mapGet (inner m a) b"

definition nestedPut :: "'a \<Rightarrow> 'b \<Rightarrow> 'v \<Rightarrow> ('a, 'b, 'v) nested \<Rightarrow> ('a, 'b, 'v) nested" where
  "nestedPut a b v m = mapSet a (mapSet b v (inner m a)) m"

definition nestedDrop :: "'a \<Rightarrow> 'b \<Rightarrow> ('a, 'b, 'v) nested \<Rightarrow> ('a, 'b, 'v) nested" where
  "nestedDrop a b m = (case mapGet m a of None \<Rightarrow> m
     | Some i \<Rightarrow> (if mapDelete b i = [] then mapDelete a m else mapSet a (mapDelete b i) m))"

definition nested_ok :: "('a, 'b, 'v) nested \<Rightarrow> bool" where
  "nested_ok m \<longleftrightarrow> distinct (mapKeys m) \<and> (\<forall>i \<in> set (mapValues m). i \<noteq> [] \<and> distinct (mapKeys i))"

lemma nested_ok_Nil [simp]: "nested_ok []"
  by (simp add: nested_ok_def)

lemma nestedGet_Nil [simp]: "nestedGet [] a b = None"
  by (simp add: nestedGet_def inner_def)

lemma inner_Nil [simp]: "inner [] a = []"
  by (simp add: inner_def)

lemma nested_ok_inner: "nested_ok m \<Longrightarrow> distinct (mapKeys (inner m a))"
  by (cases "mapGet m a") (auto simp: nested_ok_def inner_def dest: map_of_SomeD)

lemma inner_nonempty: "nested_ok m \<Longrightarrow> mapGet m a = Some i \<Longrightarrow> i \<noteq> []"
  by (auto simp: nested_ok_def dest: map_of_SomeD)

lemma nested_ok_outer: "nested_ok m \<Longrightarrow> mapGet m a = None \<longleftrightarrow> inner m a = []"
  by (cases "mapGet m a") (auto simp: inner_def dest: inner_nonempty)

lemma inner_nestedPut: "inner (nestedPut a b v m) a' = (if a' = a then mapSet b v (inner m a) else inner m a')"
  by (simp add: nestedPut_def inner_def mapGet_mapSet)

lemma inner_nestedDrop:
  "inner (nestedDrop a b m) a' = (if a' = a then mapDelete b (inner m a) else inner m a')"
  by (auto simp: nestedDrop_def inner_def mapGet_mapSet mapGet_mapDelete split: option.splits)

lemma nestedGet_nestedPut:
  "nestedGet (nestedPut a b v m) a' b' = (if a' = a \<and> b' = b then Some v else nestedGet m a' b')"
  by (auto simp: nestedGet_def inner_nestedPut mapGet_mapSet)

lemma nestedGet_nestedDrop:
  "nestedGet (nestedDrop a b m) a' b' = (if a' = a \<and> b' = b then None else nestedGet m a' b')"
  by (auto simp: nestedGet_def inner_nestedDrop mapGet_mapDelete)

lemma values_mapSet: "v' \<in> set (mapValues (mapSet k v m)) \<Longrightarrow> v' = v \<or> v' \<in> set (mapValues m)"
  by (induction m) (auto split: if_splits)

lemma values_mapDelete: "v' \<in> set (mapValues (mapDelete k m)) \<Longrightarrow> v' \<in> set (mapValues m)"
  by (auto simp: AList.delete_eq)

lemma mapSet_nonempty [simp]: "mapSet k v m \<noteq> []"
  by (cases m) auto

lemma nested_okI:
  "distinct (mapKeys m) \<Longrightarrow> (\<And>i. i \<in> set (mapValues m) \<Longrightarrow> i \<noteq> [] \<and> distinct (mapKeys i)) \<Longrightarrow> nested_ok m"
  by (simp add: nested_ok_def)

lemma nested_okD:
  "nested_ok m \<Longrightarrow> distinct (mapKeys m)"
  "nested_ok m \<Longrightarrow> i \<in> set (mapValues m) \<Longrightarrow> i \<noteq> [] \<and> distinct (mapKeys i)"
  by (auto simp: nested_ok_def)

lemma nested_ok_set:
  "nested_ok m \<Longrightarrow> i \<noteq> [] \<Longrightarrow> distinct (mapKeys i) \<Longrightarrow> nested_ok (mapSet a i m)"
  by (rule nested_okI) (blast dest: values_mapSet nested_okD intro: distinct_mapSet)+

lemma nested_ok_delete: "nested_ok m \<Longrightarrow> nested_ok (mapDelete a m)"
  by (rule nested_okI) (blast dest: values_mapDelete nested_okD intro: distinct_mapDelete)+

lemma nested_ok_put: "nested_ok m \<Longrightarrow> nested_ok (nestedPut a b v m)"
  unfolding nestedPut_def by (intro nested_ok_set distinct_mapSet nested_ok_inner mapSet_nonempty)

lemma nested_ok_drop: "nested_ok m \<Longrightarrow> nested_ok (nestedDrop a b m)"
proof (cases "mapGet m a")
  case (Some i)
  assume ok: "nested_ok m"
  with Some have "distinct (mapKeys (mapDelete b i))"
    using nested_ok_inner [OF ok, of a] by (intro distinct_mapDelete) (simp add: inner_def)
  with ok Some show ?thesis
    using nested_ok_set [OF ok, of "mapDelete b i" a] by (simp add: nestedDrop_def nested_ok_delete)
qed (simp add: nestedDrop_def)

lemma nestedGet_delete: "nestedGet (mapDelete a m) a' b = (if a' = a then None else nestedGet m a' b)"
  by (simp add: nestedGet_def inner_def mapGet_mapDelete)

lemma inner_keys: "nested_ok m \<Longrightarrow> b \<in> set (mapKeys (inner m a)) \<longleftrightarrow> nestedGet m a b \<noteq> None"
  by (simp add: nestedGet_def map_of_eq_None_iff)

lemma inner_values: "nested_ok m \<Longrightarrow> v \<in> set (mapValues (inner m a)) \<longleftrightarrow> (\<exists>b. nestedGet m a b = Some v)"
  unfolding nestedGet_def by (rule in_values_mapGet) (rule nested_ok_inner)

lemmas nested_simps = nestedGet_nestedPut nestedGet_nestedDrop nestedGet_delete
  nested_ok_put nested_ok_drop nested_ok_delete

section \<open>Broadcasts\<close>

text \<open>What somebody who follows the broadcasts of one document has seen last; before the first
  broadcast, the empty list.\<close>

definition last_event :: "('d \<times> 'e list) list \<Rightarrow> 'd \<Rightarrow> 'e list" where
  "last_event es d = (case filter (\<lambda>(d', _). d' = d) (rev es) of [] \<Rightarrow> [] | (_, xs) # _ \<Rightarrow> xs)"

lemma last_event_simps [simp]:
  "last_event [] d = []"
  "last_event (es @ [(d', xs)]) d = (if d' = d then xs else last_event es d)"
  by (simp_all add: last_event_def)

section \<open>What a socket owns\<close>

text \<open>The interface the stores offer to the gateway for a socket that disconnects: what a socket
  owns, and an operation that takes all of it away and nothing else.\<close>

locale session_store =
  fixes inv :: "'s \<Rightarrow> bool"
    and owned :: "'s \<Rightarrow> 'x \<Rightarrow> 'k set"
    and drop_all :: "'x \<Rightarrow> 's \<Rightarrow> 's"
  assumes drop_all_inv: "inv s \<Longrightarrow> inv (drop_all x s)"
    and drop_all_owned: "inv s \<Longrightarrow> owned (drop_all x s) y = (if y = x then {} else owned s y)"
begin

lemma drop_many_inv: "inv s \<Longrightarrow> inv (fold drop_all xs s)"
  by (induction xs arbitrary: s) (simp_all add: drop_all_inv)

lemma drop_many_owned:
  "inv s \<Longrightarrow> owned (fold drop_all xs s) y = (if y \<in> set xs then {} else owned s y)"
  by (induction xs arbitrary: s) (auto simp: drop_all_inv drop_all_owned)

end

end
