(* ===== verification/Lock_Store.thy ===== *)
theory Lock_Store
  imports Indexed_Maps
begin

text \<open>
  The element locks, src/src/modules/uml-domain/collaboration-lock.store.ts. The store keeps the
  locks by document and element, the keys \<open>document:element\<close> by socket, and the pending timers
  (one per lock, by the identity \<open>setTimeout\<close> returned). Times are milliseconds. Each operation
  runs to its end without interruption, so it reads the clock once here: \<open>now\<close>. A random UUID is an
  argument. The changes emitted are the list \<open>st_events\<close>, in order.
\<close>

section \<open>State\<close>

record stored_lock =
  lk_documentId :: jstring
  lk_elementId :: jstring
  lk_userId :: jstring
  lk_socketId :: jstring
  lk_leaseId :: jstring
  lk_expiresAt :: int
  lk_timer :: nat

record element_lock =
  el_documentId :: jstring
  el_elementId :: jstring
  el_userId :: jstring
  el_socketId :: jstring
  el_leaseId :: jstring
  el_expiresAt :: int

record pending_timer =
  tm_documentId :: jstring
  tm_elementId :: jstring
  tm_due :: int

record lock_store =
  locksByDocument :: "(jstring, jstring, stored_lock) nested"
  lockKeysBySocket :: "(jstring, jstring, unit) nested"
  st_timers :: "(nat, pending_timer) jmap"
  st_nextTimer :: nat
  st_events :: "(jstring \<times> element_lock list) list"

definition empty_lock_store :: lock_store where
  "empty_lock_store = \<lparr>locksByDocument = [], lockKeysBySocket = [], st_timers = [],
     st_nextTimer = 0, st_events = []\<rparr>"

definition lockKey :: "jstring \<Rightarrow> jstring \<Rightarrow> jstring" where
  "lockKey documentId elementId = documentId @ js '':'' @ elementId"

definition toPublic :: "stored_lock \<Rightarrow> element_lock" where
  "toPublic l = \<lparr>el_documentId = lk_documentId l, el_elementId = lk_elementId l,
     el_userId = lk_userId l, el_socketId = lk_socketId l, el_leaseId = lk_leaseId l,
     el_expiresAt = lk_expiresAt l\<rparr>"

definition lockAt :: "lock_store \<Rightarrow> jstring \<Rightarrow> jstring \<Rightarrow> stored_lock option" where
  "lockAt s d e = nestedGet (locksByDocument s) d e"

text \<open>\<open>[...(this.locksByDocument.get(documentId)?.values() ?? [])]\<close>.\<close>

definition documentLocks :: "lock_store \<Rightarrow> jstring \<Rightarrow> stored_lock list" where
  "documentLocks s d = mapValues (inner (locksByDocument s) d)"

text \<open>\<open>[...(this.lockKeysBySocket.get(socketId) ?? [])]\<close>.\<close>

definition socketKeys :: "lock_store \<Rightarrow> jstring \<Rightarrow> jstring list" where
  "socketKeys s x = mapKeys (inner (lockKeysBySocket s) x)"

section \<open>Removal and expiry\<close>

definition clearTimeout :: "nat \<Rightarrow> lock_store \<Rightarrow> lock_store" where
  "clearTimeout i s = s\<lparr>st_timers := mapDelete i (st_timers s)\<rparr>"

definition createExpirationTimer ::
  "int \<Rightarrow> jstring \<Rightarrow> jstring \<Rightarrow> int \<Rightarrow> lock_store \<Rightarrow> nat \<times> lock_store" where
  "createExpirationTimer now d e expiresAt s = (st_nextTimer s,
     s\<lparr>st_timers := mapSet (st_nextTimer s)
          \<lparr>tm_documentId = d, tm_elementId = e, tm_due = now + max 1 (expiresAt - now)\<rparr> (st_timers s),
       st_nextTimer := Suc (st_nextTimer s)\<rparr>)"

definition remove :: "stored_lock \<Rightarrow> lock_store \<Rightarrow> lock_store" where
  "remove l s = (let s' = clearTimeout (lk_timer l) s in
     s'\<lparr>locksByDocument := nestedDrop (lk_documentId l) (lk_elementId l) (locksByDocument s'),
        lockKeysBySocket := nestedDrop (lk_socketId l)
          (lockKey (lk_documentId l) (lk_elementId l)) (lockKeysBySocket s')\<rparr>)"

definition is_expired :: "int \<Rightarrow> stored_lock \<Rightarrow> bool" where
  "is_expired now l \<longleftrightarrow> lk_expiresAt l \<le> now"

text \<open>\<open>expireDocument\<close> calls \<open>emitChange\<close>, which calls \<open>list\<close>, which calls
  \<open>expireDocument\<close> again. The second call finds nothing expired at the same instant (lemma
  \<open>expire_fuel\<close>), so two levels are the whole recursion.\<close>

fun expire :: "nat \<Rightarrow> int \<Rightarrow> jstring \<Rightarrow> lock_store \<Rightarrow> lock_store" where
  "expire 0 now d s = s"
| "expire (Suc n) now d s =
     (let expired = filter (is_expired now) (documentLocks s d);
          s1 = fold remove expired s;
          s2 = expire n now d s1
      in if expired = [] then s
         else s2\<lparr>st_events := st_events s2
                @ [(d, map toPublic (documentLocks s2 d))]\<rparr>)"

definition expireDocument :: "int \<Rightarrow> jstring \<Rightarrow> lock_store \<Rightarrow> lock_store" where
  "expireDocument now d s = expire 2 now d s"

definition list_locks :: "int \<Rightarrow> jstring \<Rightarrow> lock_store \<Rightarrow> lock_store \<times> element_lock list" where
  "list_locks now d s = (let s' = expireDocument now d s in
     (s', map toPublic (documentLocks s' d)))"

definition emitChange :: "int \<Rightarrow> jstring \<Rightarrow> lock_store \<Rightarrow> lock_store" where
  "emitChange now d s = (case list_locks now d s of (s', locks) \<Rightarrow>
     s'\<lparr>st_events := st_events s' @ [(d, locks)]\<rparr>)"

definition renewStored :: "int \<Rightarrow> int \<Rightarrow> stored_lock \<Rightarrow> lock_store \<Rightarrow> stored_lock \<times> lock_store" where
  "renewStored now ttlSeconds l s =
     (let expiresAt = now + ttlSeconds * 1000 in
      case createExpirationTimer now (lk_documentId l) (lk_elementId l) expiresAt
             (clearTimeout (lk_timer l) s) of
        (t, s') \<Rightarrow> (let l' = l\<lparr>lk_expiresAt := expiresAt, lk_timer := t\<rparr> in
          (l', s'\<lparr>locksByDocument :=
             nestedPut (lk_documentId l) (lk_elementId l) l' (locksByDocument s')\<rparr>)))"

section \<open>Operations\<close>

definition acquire ::
  "int \<Rightarrow> jstring \<Rightarrow> jstring \<Rightarrow> jstring \<Rightarrow> jstring \<Rightarrow> jstring \<Rightarrow> int \<Rightarrow> lock_store
     \<Rightarrow> lock_store \<times> (element_lock \<times> element_lock list) option" where
  "acquire now uuid d e u x ttlSeconds s =
     (let s0 = expireDocument now d s in
      case lockAt s0 d e of
        Some existing \<Rightarrow>
          if lk_userId existing \<noteq> u \<or> lk_socketId existing \<noteq> x then (s0, None)
          else (case renewStored now ttlSeconds existing s0 of (l, s1) \<Rightarrow>
                case list_locks now d (emitChange now d s1) of (s2, locks) \<Rightarrow>
                  (s2, Some (toPublic l, locks)))
      | None \<Rightarrow>
          (let expiresAt = now + ttlSeconds * 1000 in
           case createExpirationTimer now d e expiresAt s0 of (t, s1) \<Rightarrow>
             (let l = \<lparr>lk_documentId = d, lk_elementId = e, lk_userId = u, lk_socketId = x,
                       lk_leaseId = uuid, lk_expiresAt = expiresAt, lk_timer = t\<rparr>;
                  s2 = s1\<lparr>locksByDocument := nestedPut d e l (locksByDocument s1),
                          lockKeysBySocket := nestedPut x (lockKey d e) () (lockKeysBySocket s1)\<rparr>
              in case list_locks now d (emitChange now d s2) of (s3, locks) \<Rightarrow>
                   (s3, Some (toPublic l, locks)))))"

definition holds_lease :: "stored_lock \<Rightarrow> jstring \<Rightarrow> jstring \<Rightarrow> jstring \<Rightarrow> bool" where
  "holds_lease l u x lease \<longleftrightarrow> lk_userId l = u \<and> lk_socketId l = x \<and> lk_leaseId l = lease"

definition renew ::
  "int \<Rightarrow> jstring \<Rightarrow> jstring \<Rightarrow> jstring \<Rightarrow> jstring \<Rightarrow> jstring \<Rightarrow> int \<Rightarrow> lock_store
     \<Rightarrow> lock_store \<times> (element_lock \<times> element_lock list) option" where
  "renew now d e u x lease ttlSeconds s =
     (let s0 = expireDocument now d s in
      case lockAt s0 d e of
        None \<Rightarrow> (s0, None)
      | Some l \<Rightarrow>
          if \<not> holds_lease l u x lease then (s0, None)
          else (case renewStored now ttlSeconds l s0 of (l', s1) \<Rightarrow>
                case list_locks now d (emitChange now d s1) of (s2, locks) \<Rightarrow>
                  (s2, Some (toPublic l', locks))))"

definition release ::
  "int \<Rightarrow> jstring \<Rightarrow> jstring \<Rightarrow> jstring \<Rightarrow> jstring \<Rightarrow> jstring \<Rightarrow> lock_store \<Rightarrow> lock_store \<times> bool" where
  "release now d e u x lease s =
     (let s0 = expireDocument now d s in
      case lockAt s0 d e of
        None \<Rightarrow> (s0, False)
      | Some l \<Rightarrow> if \<not> holds_lease l u x lease then (s0, False)
                  else (emitChange now d (remove l s0), True))"

text \<open>\<open>const [documentId, elementId] = lockKey.split(':', 2)\<close>; a missing or empty part is
  falsy.\<close>

definition splitKey :: "jstring \<Rightarrow> (jstring \<times> jstring) option" where
  "splitKey key = (case js_split key (js '':'') of
      d # e # _ \<Rightarrow> if d = [] \<or> e = [] then None else Some (d, e)
    | _ \<Rightarrow> None)"

definition setAdd :: "'a \<Rightarrow> 'a list \<Rightarrow> 'a list" where
  "setAdd x xs = (if x \<in> set xs then xs else xs @ [x])"

definition release_key ::
  "jstring \<Rightarrow> jstring \<Rightarrow> lock_store \<times> jstring list \<Rightarrow> lock_store \<times> jstring list" where
  "release_key x key st = (case st of (s, changedDocuments) \<Rightarrow>
     case splitKey key of
       None \<Rightarrow> (s, changedDocuments)
     | Some (d, e) \<Rightarrow> (case lockAt s d e of
         None \<Rightarrow> (s, changedDocuments)
       | Some l \<Rightarrow> if lk_socketId l = x then (remove l s, setAdd d changedDocuments)
                   else (s, changedDocuments)))"

definition releaseBySocket :: "int \<Rightarrow> jstring \<Rightarrow> lock_store \<Rightarrow> lock_store" where
  "releaseBySocket now x s =
     (case fold (release_key x) (socketKeys s x) (s, []) of
        (s', changedDocuments) \<Rightarrow> fold (emitChange now) changedDocuments s')"

definition release_key_in ::
  "jstring \<Rightarrow> jstring \<Rightarrow> jstring \<Rightarrow> lock_store \<times> bool \<Rightarrow> lock_store \<times> bool" where
  "release_key_in x d key st = (case st of (s, changed) \<Rightarrow>
     case js_split key (js '':'') of
       d' # e # _ \<Rightarrow>
         if d' \<noteq> d \<or> e = [] then (s, changed)
         else (case lockAt s d e of
             None \<Rightarrow> (s, changed)
           | Some l \<Rightarrow> if lk_socketId l = x then (remove l s, True) else (s, changed))
     | _ \<Rightarrow> (s, changed))"

definition releaseBySocketInDocument :: "int \<Rightarrow> jstring \<Rightarrow> jstring \<Rightarrow> lock_store \<Rightarrow> lock_store" where
  "releaseBySocketInDocument now x d s =
     (case fold (release_key_in x d) (socketKeys s x) (s, False) of
        (s', changed) \<Rightarrow> if changed then emitChange now d s' else s')"

definition hasLockOwnedByAnotherSocket ::
  "int \<Rightarrow> jstring \<Rightarrow> jstring set \<Rightarrow> jstring \<Rightarrow> lock_store \<Rightarrow> lock_store \<times> bool" where
  "hasLockOwnedByAnotherSocket now d elementIds x s =
     (let s' = expireDocument now d s in
      (s', \<exists>e \<in> elementIds. case lockAt s' d e of None \<Rightarrow> False | Some l \<Rightarrow> lk_socketId l \<noteq> x))"

definition hasAnyLock :: "int \<Rightarrow> jstring \<Rightarrow> jstring set \<Rightarrow> lock_store \<Rightarrow> lock_store \<times> bool" where
  "hasAnyLock now d elementIds s =
     (let s' = expireDocument now d s in (s', \<exists>e \<in> elementIds. lockAt s' d e \<noteq> None))"

definition reconcileDocumentElements :: "int \<Rightarrow> jstring \<Rightarrow> jstring set \<Rightarrow> lock_store \<Rightarrow> lock_store" where
  "reconcileDocumentElements now d activeElementIds s =
     (let s0 = expireDocument now d s;
          gone = filter (\<lambda>l. lk_elementId l \<notin> activeElementIds) (documentLocks s0 d)
      in if gone = [] then s0 else emitChange now d (fold remove gone s0))"

text \<open>A timer that fires is no longer pending; then its callback runs.\<close>

definition timerFires :: "int \<Rightarrow> nat \<Rightarrow> lock_store \<Rightarrow> lock_store" where
  "timerFires now i s = (case mapGet (st_timers s) i of
      None \<Rightarrow> s
    | Some t \<Rightarrow> (let s' = clearTimeout i s in
        case lockAt s' (tm_documentId t) (tm_elementId t) of
          None \<Rightarrow> s'
        | Some l \<Rightarrow> if now < lk_expiresAt l then s'
                    else emitChange now (tm_documentId t) (remove l s')))"

definition onApplicationShutdown :: "lock_store \<Rightarrow> lock_store" where
  "onApplicationShutdown s =
     fold (\<lambda>locks s. fold (\<lambda>l. clearTimeout (lk_timer l)) (mapValues locks) s)
       (mapValues (locksByDocument s)) s
     \<lparr>locksByDocument := [], lockKeysBySocket := []\<rparr>"

end
