(* ===== verification/Lock_Laws.thy ===== *)
theory Lock_Laws
  imports Lock_Store
begin

text \<open>
  The invariant of the lock store and what its operations do to the locks. The invariant says that the
  three structures agree: each lock is stored under its own document and element, its key is in the
  set of its socket and in no other, and it has a timer of its own that is due when it expires.
\<close>

named_theorems lock_laws \<open>the locks, the invariant and the broadcasts after an operation\<close>

section \<open>Keys\<close>

definition plain_id :: "jstring \<Rightarrow> bool" where
  "plain_id i \<longleftrightarrow> i \<noteq> [] \<and> 0x3A \<notin> set i"

lemma js_colon: "js '':'' = [0x3A]"
  by (simp add: js_def)

lemma js_split_key: "plain_id d \<Longrightarrow> plain_id e \<Longrightarrow> js_split (lockKey d e) (js '':'') = [d, e]"
  by (simp add: plain_id_def lockKey_def js_colon js_split_sep js_split_no_sep)

lemma splitKey_lockKey: "plain_id d \<Longrightarrow> plain_id e \<Longrightarrow> splitKey (lockKey d e) = Some (d, e)"
  by (simp add: splitKey_def js_split_key) (simp add: plain_id_def)

lemma lockKey_inject:
  "plain_id d \<Longrightarrow> plain_id e \<Longrightarrow> plain_id d' \<Longrightarrow> plain_id e' \<Longrightarrow>
     lockKey d e = lockKey d' e' \<longleftrightarrow> d = d' \<and> e = e'"
  by (metis splitKey_lockKey option.inject prod.inject)

section \<open>Invariant\<close>

definition lock_ok :: "lock_store \<Rightarrow> jstring \<Rightarrow> jstring \<Rightarrow> stored_lock \<Rightarrow> bool" where
  "lock_ok s d e l \<longleftrightarrow> lk_documentId l = d \<and> lk_elementId l = e \<and> plain_id d \<and> plain_id e
     \<and> mapGet (st_timers s) (lk_timer l)
          = Some \<lparr>tm_documentId = d, tm_elementId = e, tm_due = lk_expiresAt l\<rparr>"

definition keys_ok :: "lock_store \<Rightarrow> bool" where
  "keys_ok s \<longleftrightarrow> (\<forall>x k. nestedGet (lockKeysBySocket s) x k \<noteq> None \<longleftrightarrow>
     (\<exists>d e l. lockAt s d e = Some l \<and> lk_socketId l = x \<and> k = lockKey d e))"

definition timers_ok :: "lock_store \<Rightarrow> bool" where
  "timers_ok s \<longleftrightarrow> (\<forall>i t. mapGet (st_timers s) i = Some t \<longrightarrow> i < st_nextTimer s
     \<and> (\<exists>l. lockAt s (tm_documentId t) (tm_elementId t) = Some l \<and> lk_timer l = i))"

definition lock_inv :: "lock_store \<Rightarrow> bool" where
  "lock_inv s \<longleftrightarrow> nested_ok (locksByDocument s) \<and> nested_ok (lockKeysBySocket s)
     \<and> (\<forall>d e l. lockAt s d e = Some l \<longrightarrow> lock_ok s d e l) \<and> keys_ok s \<and> timers_ok s"

lemma lock_invD:
  assumes "lock_inv s" and "lockAt s d e = Some l"
  shows "lk_documentId l = d" "lk_elementId l = e" "plain_id d" "plain_id e"
    "mapGet (st_timers s) (lk_timer l)
       = Some \<lparr>tm_documentId = d, tm_elementId = e, tm_due = lk_expiresAt l\<rparr>"
  using assms by (auto simp: lock_inv_def lock_ok_def)

lemma lock_inv_empty: "lock_inv empty_lock_store"
  by (simp add: lock_inv_def empty_lock_store_def keys_ok_def timers_ok_def lockAt_def)

lemma lockAt_events [simp]: "lockAt (s\<lparr>st_events := es\<rparr>) = lockAt s"
  by (intro ext) (simp add: lockAt_def)

lemma documentLocks_events [simp]: "documentLocks (s\<lparr>st_events := es\<rparr>) = documentLocks s"
  by (intro ext) (simp add: documentLocks_def)

lemma lock_inv_events [simp]: "lock_inv (s\<lparr>st_events := es\<rparr>) = lock_inv s"
  by (simp add: lock_inv_def lock_ok_def keys_ok_def timers_ok_def)

text \<open>Two locks never share a timer.\<close>

lemma lock_timer_unique:
  assumes "lock_inv s" "lockAt s d e = Some l" "lockAt s d' e' = Some l'" "lk_timer l = lk_timer l'"
  shows "d = d' \<and> e = e'"
  using lock_invD(5) [OF assms(1,2)] lock_invD(5) [OF assms(1,3)] assms(4) by auto

lemma lockAt_values:
  "lock_inv s \<Longrightarrow> l \<in> set (documentLocks s d) \<longleftrightarrow> (\<exists>e. lockAt s d e = Some l)"
  unfolding lockAt_def documentLocks_def by (rule inner_values) (simp add: lock_inv_def)

section \<open>Removing locks\<close>

lemma lockAt_remove:
  "lock_inv s \<Longrightarrow> lockAt s d e = Some l \<Longrightarrow>
     lockAt (remove l s) d' e' = (if d' = d \<and> e' = e then None else lockAt s d' e')"
  using lock_invD(1,2) [of s d e l]
  by (auto simp: remove_def clearTimeout_def lockAt_def nested_simps Let_def)

lemma lock_inv_remove:
  assumes inv: "lock_inv s" and l: "lockAt s d e = Some l"
  shows "lock_inv (remove l s)"
proof -
  note [simp] = lockAt_remove [OF inv l]
  note dl = lock_invD [OF inv l]
  have timers: "mapGet (st_timers (remove l s)) i = (if i = lk_timer l then None else mapGet (st_timers s) i)" for i
    by (simp add: remove_def clearTimeout_def Let_def mapGet_mapDelete)
  have nextT: "st_nextTimer (remove l s) = st_nextTimer s"
    by (simp add: remove_def clearTimeout_def Let_def)
  have "lock_ok (remove l s) d' e' l'" if "lockAt (remove l s) d' e' = Some l'" for d' e' l'
  proof -
    from that have *: "lockAt s d' e' = Some l'" "\<not> (d' = d \<and> e' = e)" by (auto split: if_splits)
    then have "lk_timer l' \<noteq> lk_timer l" using lock_timer_unique [OF inv *(1) l] by auto
    with lock_invD [OF inv *(1)] show ?thesis by (simp add: lock_ok_def timers)
  qed
  moreover have "keys_ok (remove l s)"
  proof -
    have "nestedGet (lockKeysBySocket (remove l s)) x k \<noteq> None \<longleftrightarrow>
        nestedGet (lockKeysBySocket s) x k \<noteq> None \<and> \<not> (x = lk_socketId l \<and> k = lockKey d e)" for x k
      using dl by (simp add: remove_def clearTimeout_def Let_def nested_simps)
    moreover have "(\<exists>d' e' l'. lockAt (remove l s) d' e' = Some l' \<and> lk_socketId l' = x \<and> k = lockKey d' e')
      \<longleftrightarrow> (\<exists>d' e' l'. lockAt s d' e' = Some l' \<and> lk_socketId l' = x \<and> k = lockKey d' e')
          \<and> \<not> (x = lk_socketId l \<and> k = lockKey d e)" (is "?L \<longleftrightarrow> ?R") for x k
    proof
      assume ?L
      then obtain d' e' l' where *: "lockAt s d' e' = Some l'" "lk_socketId l' = x" "k = lockKey d' e'"
        "\<not> (d' = d \<and> e' = e)" by (auto split: if_splits)
      then have "k \<noteq> lockKey d e" using lock_invD(3,4) [OF inv *(1)] dl(3,4) by (simp add: lockKey_inject)
      with * show ?R by blast
    next
      assume ?R
      then obtain d' e' l' where *: "lockAt s d' e' = Some l'" "lk_socketId l' = x" "k = lockKey d' e'"
        "\<not> (x = lk_socketId l \<and> k = lockKey d e)" by blast
      with l have "\<not> (d' = d \<and> e' = e)" by auto
      with * have "lockAt (remove l s) d' e' = Some l'" by simp
      with * show ?L by blast
    qed
    ultimately show ?thesis using inv by (simp add: lock_inv_def keys_ok_def)
  qed
  moreover have "timers_ok (remove l s)"
    using inv l by (fastforce simp: timers_ok_def timers nextT lock_inv_def)
  moreover have "nested_ok (locksByDocument (remove l s))" "nested_ok (lockKeysBySocket (remove l s))"
    using inv by (simp_all add: remove_def clearTimeout_def Let_def nested_simps lock_inv_def)
  ultimately show ?thesis by (auto simp: lock_inv_def)
qed

lemma fold_remove:
  assumes "lock_inv s" and "\<And>l. l \<in> set ls \<Longrightarrow> \<exists>d e. lockAt s d e = Some l" and "distinct ls"
  shows "lock_inv (fold remove ls s) \<and> (\<forall>d e. lockAt (fold remove ls s) d e =
     (case lockAt s d e of None \<Rightarrow> None | Some l \<Rightarrow> if l \<in> set ls then None else Some l))"
  using assms
proof (induction ls arbitrary: s)
  case Nil
  then show ?case by (auto split: option.split)
next
  case (Cons l ls)
  then obtain d e where l: "lockAt s d e = Some l" by (meson list.set_intros(1))
  note at = lockAt_remove [OF Cons.prems(1) l]
  have same: "lockAt s d' e' = Some l \<Longrightarrow> d' = d \<and> e' = e" for d' e'
    using lock_invD(1,2) [OF Cons.prems(1) l] lock_invD(1,2) [OF Cons.prems(1)] by blast
  have "\<exists>d e. lockAt (remove l s) d e = Some l'" if "l' \<in> set ls" for l'
  proof -
    from that Cons.prems(3) have "l' \<noteq> l" by auto
    from that Cons.prems(2) [of l'] obtain d' e' where *: "lockAt s d' e' = Some l'" by auto
    with \<open>l' \<noteq> l\<close> l have "lockAt (remove l s) d' e' = Some l'" by (auto simp: at)
    then show ?thesis by blast
  qed
  from Cons.IH [OF lock_inv_remove [OF Cons.prems(1) l] this] Cons.prems(3)
  have "lock_inv (fold remove ls (remove l s))"
    "\<And>d e. lockAt (fold remove ls (remove l s)) d e =
      (case lockAt (remove l s) d e of None \<Rightarrow> None | Some l \<Rightarrow> if l \<in> set ls then None else Some l)"
    by auto
  moreover have "(case lockAt (remove l s) d' e' of None \<Rightarrow> None | Some l' \<Rightarrow> if l' \<in> set ls then None else Some l')
    = (case lockAt s d' e' of None \<Rightarrow> None | Some l' \<Rightarrow> if l' \<in> set (l # ls) then None else Some l')" for d' e'
    using l same [of d' e'] by (cases "lockAt s d' e'") (auto simp: at)
  ultimately show ?case by simp
qed

section \<open>Expiry and broadcasts\<close>

definition live :: "int \<Rightarrow> stored_lock option \<Rightarrow> stored_lock option" where
  "live now o' = (case o' of None \<Rightarrow> None | Some l \<Rightarrow> if is_expired now l then None else Some l)"

lemma live_simps [simp]: "live now None = None" "live now (live now o') = live now o'"
  by (auto simp: live_def split: option.split)

lemma distinct_documentLocks: "lock_inv s \<Longrightarrow> distinct (documentLocks s d)"
proof -
  assume inv: "lock_inv s"
  have "distinct (mapKeys (inner (locksByDocument s) d))"
    using inv nested_ok_inner by (auto simp: lock_inv_def)
  moreover have "mapKeys (inner (locksByDocument s) d) = map lk_elementId (documentLocks s d)"
    using inv \<open>distinct (mapKeys (inner (locksByDocument s) d))\<close>
    by (fastforce simp: documentLocks_def lock_inv_def lock_ok_def lockAt_def nestedGet_def
        dest: map_of_is_SomeI)
  ultimately show ?thesis by (simp add: distinct_map)
qed

lemma fold_remove_documentLocks:
  assumes inv: "lock_inv s"
  shows "lock_inv (fold remove (filter P (documentLocks s d)) s)"
    and "lockAt (fold remove (filter P (documentLocks s d)) s) d' e =
      (case lockAt s d' e of None \<Rightarrow> None | Some l \<Rightarrow> if d' = d \<and> P l then None else Some l)"
proof -
  let ?ls = "filter P (documentLocks s d)"
  have mem: "l \<in> set ?ls \<longleftrightarrow> (\<exists>e. lockAt s d e = Some l) \<and> P l" for l
    using lockAt_values [OF inv, of l d] by auto
  have "distinct ?ls" using distinct_documentLocks [OF inv] by simp
  moreover have "\<exists>d e. lockAt s d e = Some l" if "l \<in> set ?ls" for l using that mem by blast
  ultimately have *: "lock_inv (fold remove ?ls s) \<and> (\<forall>d e. lockAt (fold remove ?ls s) d e =
     (case lockAt s d e of None \<Rightarrow> None | Some l \<Rightarrow> if l \<in> set ?ls then None else Some l))"
    by (intro fold_remove [OF inv])
  then show "lock_inv (fold remove ?ls s)" by blast
  show "lockAt (fold remove ?ls s) d' e =
      (case lockAt s d' e of None \<Rightarrow> None | Some l \<Rightarrow> if d' = d \<and> P l then None else Some l)"
  proof (cases "lockAt s d' e")
    case (Some l)
    then have "l \<in> set ?ls \<longleftrightarrow> d' = d \<and> P l"
      using mem [of l] lock_invD(1) [OF inv] by blast
    with * Some show ?thesis by simp
  qed (use * in simp)
qed

lemma filter_documentLocks:
  "lock_inv s \<Longrightarrow> filter P (documentLocks s d) = [] \<longleftrightarrow> (\<forall>e l. lockAt s d e = Some l \<longrightarrow> \<not> P l)"
  using lockAt_values [of s _ d] by (auto simp: filter_empty_conv)

text \<open>The second call of \<open>expireDocument\<close> in the recursion finds nothing to do.\<close>

lemma expire_nothing: "filter (is_expired now) (documentLocks s d) = [] \<Longrightarrow> expire n now d s = s"
  by (cases n) (simp_all add: Let_def del: filter_empty_conv)

lemma expire_fuel:
  assumes inv: "lock_inv s"
  shows "expire (Suc n) now d s =
    (let s1 = fold remove (filter (is_expired now) (documentLocks s d)) s in
     if filter (is_expired now) (documentLocks s d) = [] then s
     else s1\<lparr>st_events := st_events s1 @ [(d, map toPublic (documentLocks s1 d))]\<rparr>)"
proof -
  let ?s1 = "fold remove (filter (is_expired now) (documentLocks s d)) s"
  have "filter (is_expired now) (documentLocks ?s1 d) = []"
    using fold_remove_documentLocks [OF inv]
    by (auto simp: filter_documentLocks split: option.splits if_splits)
  then show ?thesis by (simp add: Let_def expire_nothing)
qed

lemma expireDocument_eq:
  "lock_inv s \<Longrightarrow> expireDocument now d s =
    (let s1 = fold remove (filter (is_expired now) (documentLocks s d)) s in
     if filter (is_expired now) (documentLocks s d) = [] then s
     else s1\<lparr>st_events := st_events s1 @ [(d, map toPublic (documentLocks s1 d))]\<rparr>)"
  unfolding expireDocument_def numeral_2_eq_2 by (rule expire_fuel)

lemma lock_inv_expire [lock_laws]: "lock_inv s \<Longrightarrow> lock_inv (expireDocument now d s)"
  by (simp add: expireDocument_eq Let_def fold_remove_documentLocks(1) del: filter_empty_conv)

lemma lockAt_expire [lock_laws]:
  "lock_inv s \<Longrightarrow> lockAt (expireDocument now d s) d' e =
     (if d' = d then live now (lockAt s d' e) else lockAt s d' e)"
  using filter_documentLocks [of s "is_expired now" d]
  by (auto simp: expireDocument_eq Let_def fold_remove_documentLocks(2) live_def
      simp del: filter_empty_conv split: option.split)

lemma lock_inv_emitChange [lock_laws]: "lock_inv s \<Longrightarrow> lock_inv (emitChange now d s)"
  by (simp add: emitChange_def list_locks_def Let_def lock_inv_expire)

lemma lockAt_emitChange [lock_laws]:
  "lock_inv s \<Longrightarrow> lockAt (emitChange now d s) d' e =
     (if d' = d then live now (lockAt s d' e) else lockAt s d' e)"
  by (simp add: emitChange_def list_locks_def Let_def lockAt_expire)

lemma list_locks_fst: "fst (list_locks now d s) = expireDocument now d s"
  by (simp add: list_locks_def Let_def)

text \<open>What a client that follows the broadcasts of a document sees, and what is stored.\<close>

definition shown :: "lock_store \<Rightarrow> jstring \<Rightarrow> element_lock list" where
  "shown s d = last_event (st_events s) d"

definition announced_except :: "jstring set \<Rightarrow> lock_store \<Rightarrow> bool" where
  "announced_except D s \<longleftrightarrow> (\<forall>d. d \<notin> D \<longrightarrow> shown s d = map toPublic (documentLocks s d))"

lemma announced_event:
  "announced_except D s \<Longrightarrow> announced_except (D - {d})
     (s\<lparr>st_events := st_events s @ [(d, map toPublic (documentLocks s d))]\<rparr>)"
  by (auto simp: announced_except_def shown_def)

lemma announced_remove:
  "announced_except D s \<Longrightarrow> lk_documentId l \<in> D \<Longrightarrow> announced_except D (remove l s)"
  by (auto simp: announced_except_def shown_def remove_def clearTimeout_def Let_def documentLocks_def inner_nestedDrop)

lemma announced_fold_remove:
  "announced_except D s \<Longrightarrow> \<forall>l \<in> set ls. lk_documentId l \<in> D \<Longrightarrow> announced_except D (fold remove ls s)"
  by (induction ls arbitrary: s) (simp_all add: announced_remove)

lemma announced_mono: "announced_except D s \<Longrightarrow> D \<subseteq> D' \<Longrightarrow> announced_except D' s"
  by (auto simp: announced_except_def)

lemma documentLocks_id: "lock_inv s \<Longrightarrow> l \<in> set (filter P (documentLocks s d)) \<Longrightarrow> lk_documentId l = d"
  using lockAt_values [of s l d] lock_invD(1) by auto

lemma announced_expire [lock_laws]:
  assumes "lock_inv s" and "announced_except D s"
  shows "announced_except D (expireDocument now d s)"
proof (cases "filter (is_expired now) (documentLocks s d) = []")
  case False
  let ?ls = "filter (is_expired now) (documentLocks s d)"
  have "announced_except (insert d D) (fold remove ?ls s)"
  proof (rule announced_fold_remove)
    show "announced_except (insert d D) s" using assms(2) by (rule announced_mono) blast
    show "\<forall>l \<in> set ?ls. lk_documentId l \<in> insert d D" using documentLocks_id [OF assms(1)] by blast
  qed
  from announced_event [OF this, of d] False show ?thesis
    by - (rule announced_mono [where D = "insert d D - {d}"],
      auto simp: expireDocument_eq [OF assms(1)] Let_def simp del: filter_empty_conv)
qed (use assms in \<open>simp add: expireDocument_eq Let_def del: filter_empty_conv\<close>)

lemma announced_emitChange [lock_laws]:
  "lock_inv s \<Longrightarrow> announced_except D s \<Longrightarrow> announced_except (D - {d}) (emitChange now d s)"
  by (simp add: emitChange_def list_locks_def Let_def announced_event announced_expire)

section \<open>Storing locks\<close>

definition store_new :: "stored_lock \<Rightarrow> lock_store \<Rightarrow> lock_store" where
  "store_new l s = s\<lparr>
     locksByDocument := nestedPut (lk_documentId l) (lk_elementId l) l (locksByDocument s),
     lockKeysBySocket := nestedPut (lk_socketId l) (lockKey (lk_documentId l) (lk_elementId l)) ()
       (lockKeysBySocket s)\<rparr>"

lemma lockAt_store_new: "lockAt (store_new l s) d e =
    (if d = lk_documentId l \<and> e = lk_elementId l then Some l else lockAt s d e)"
  by (auto simp: store_new_def lockAt_def nested_simps)

lemma createExpirationTimer_fields:
  assumes "createExpirationTimer now d e ex s = (t, s1)"
  shows "t = st_nextTimer s" "st_nextTimer s1 = Suc (st_nextTimer s)" "lockAt s1 = lockAt s"
    "locksByDocument s1 = locksByDocument s" "lockKeysBySocket s1 = lockKeysBySocket s"
    "now < ex \<Longrightarrow> mapGet (st_timers s1) i = (if i = t
       then Some \<lparr>tm_documentId = d, tm_elementId = e, tm_due = ex\<rparr> else mapGet (st_timers s) i)"
  using assms by (auto simp: createExpirationTimer_def lockAt_def mapGet_mapSet intro!: ext)

lemma lock_timer_known:
  "lock_inv s \<Longrightarrow> lockAt s d e = Some l \<Longrightarrow> lk_timer l < st_nextTimer s"
  using lock_invD(5) [of s d e l] by (auto simp: lock_inv_def timers_ok_def)

lemma lock_inv_store_new:
  assumes inv: "lock_inv s" and free: "lockAt s (lk_documentId l) (lk_elementId l) = None"
    and plain: "plain_id (lk_documentId l)" "plain_id (lk_elementId l)"
    and timer: "createExpirationTimer now (lk_documentId l) (lk_elementId l) (lk_expiresAt l) s
                  = (lk_timer l, s1)"
    and later: "now < lk_expiresAt l"
  shows "lock_inv (store_new l s1)"
proof -
  let ?d = "lk_documentId l" and ?e = "lk_elementId l" and ?s = "store_new l s1"
  note f = createExpirationTimer_fields [OF timer]
  note due = f(6) [OF later]
  have timers [simp]: "st_timers ?s = st_timers s1" "st_nextTimer ?s = Suc (st_nextTimer s)"
    by (simp_all add: store_new_def f(2))
  have at: "lockAt ?s d e = (if d = ?d \<and> e = ?e then Some l else lockAt s d e)" for d e
    by (simp add: lockAt_store_new f(3))
  have "lock_ok ?s d e l'" if "lockAt ?s d e = Some l'" for d e l'
  proof (cases "d = ?d \<and> e = ?e")
    case True
    with that have "l' = l" by (simp add: at)
    with True plain due show ?thesis by (simp add: lock_ok_def)
  next
    case False
    with that have *: "lockAt s d e = Some l'" by (auto simp: at split: if_splits)
    with lock_timer_known [OF inv *] lock_invD [OF inv *] show ?thesis
      by (auto simp: lock_ok_def due f(1))
  qed
  moreover have "keys_ok ?s"
  proof -
    have "nestedGet (lockKeysBySocket ?s) x k \<noteq> None \<longleftrightarrow>
        nestedGet (lockKeysBySocket s) x k \<noteq> None \<or> (x = lk_socketId l \<and> k = lockKey ?d ?e)" for x k
      by (auto simp: store_new_def nested_simps f)
    moreover have "(\<exists>d e l'. lockAt ?s d e = Some l' \<and> lk_socketId l' = x \<and> k = lockKey d e) \<longleftrightarrow>
        (\<exists>d e l'. lockAt s d e = Some l' \<and> lk_socketId l' = x \<and> k = lockKey d e)
          \<or> (x = lk_socketId l \<and> k = lockKey ?d ?e)" for x k
      unfolding at using free by (metis option.distinct(1) option.inject)
    ultimately show ?thesis using inv by (simp add: lock_inv_def keys_ok_def)
  qed
  moreover have "timers_ok ?s"
    unfolding timers_ok_def
  proof (intro allI impI)
    fix i t assume t: "mapGet (st_timers ?s) i = Some t"
    show "i < st_nextTimer ?s \<and> (\<exists>l. lockAt ?s (tm_documentId t) (tm_elementId t) = Some l \<and> lk_timer l = i)"
    proof (cases "i = lk_timer l")
      case True
      with t show ?thesis by (auto simp: due at f(1))
    next
      case False
      with t have "mapGet (st_timers s) i = Some t" by (simp add: due)
      with inv free show ?thesis by (fastforce simp: lock_inv_def timers_ok_def at)
    qed
  qed
  moreover have "nested_ok (locksByDocument ?s)" "nested_ok (lockKeysBySocket ?s)"
    using inv by (simp_all add: store_new_def nested_simps f lock_inv_def)
  ultimately show ?thesis by (auto simp: lock_inv_def)
qed

lemma announced_store_new:
  "announced_except D s \<Longrightarrow> announced_except (insert (lk_documentId l) D) (store_new l s)"
  by (auto simp: announced_except_def shown_def store_new_def documentLocks_def inner_nestedPut)

lemma announced_createTimer:
  "createExpirationTimer now d e ex s = (t, s1) \<Longrightarrow> announced_except D s1 = announced_except D s"
  by (auto simp: createExpirationTimer_def announced_except_def shown_def documentLocks_def)

lemma renewStored_fields:
  assumes "renewStored now ttl l s = (l', s1)"
  shows "l' = l\<lparr>lk_expiresAt := now + ttl * 1000, lk_timer := st_nextTimer s\<rparr>"
    "lockAt s1 d e = (if d = lk_documentId l \<and> e = lk_elementId l then Some l' else lockAt s d e)"
    "lockKeysBySocket s1 = lockKeysBySocket s" "st_nextTimer s1 = Suc (st_nextTimer s)"
    "0 < ttl \<Longrightarrow> mapGet (st_timers s1) i = (if i = st_nextTimer s
       then Some \<lparr>tm_documentId = lk_documentId l, tm_elementId = lk_elementId l, tm_due = lk_expiresAt l'\<rparr>
       else if i = lk_timer l then None else mapGet (st_timers s) i)"
    "announced_except D s \<Longrightarrow> announced_except (insert (lk_documentId l) D) s1"
    "nested_ok (locksByDocument s) \<Longrightarrow> nested_ok (locksByDocument s1)"
  using assms
  by (auto simp: renewStored_def createExpirationTimer_def clearTimeout_def Let_def lockAt_def
      nested_simps mapGet_mapSet mapGet_mapDelete announced_except_def shown_def documentLocks_def
      inner_nestedPut)

lemma lock_inv_renewStored:
  assumes inv: "lock_inv s" and l: "lockAt s d e = Some l" and r: "renewStored now ttl l s = (l', s1)"
    and ttl: "0 < ttl"
  shows "lock_inv s1"
proof -
  note dl = lock_invD [OF inv l]
  note f = renewStored_fields [OF r]
  have at: "lockAt s1 d' e' = (if d' = d \<and> e' = e then Some l' else lockAt s d' e')" for d' e'
    by (simp add: f(2) dl(1,2))
  note due = f(5) [OF ttl]
  have "lock_ok s1 d' e' l''" if "lockAt s1 d' e' = Some l''" for d' e' l''
  proof (cases "d' = d \<and> e' = e")
    case True
    with that have "l'' = l'" by (simp add: at)
    with True dl due show ?thesis by (simp add: lock_ok_def f(1))
  next
    case False
    with that have *: "lockAt s d' e' = Some l''" by (auto simp: at split: if_splits)
    with False lock_timer_unique [OF inv * l] have "lk_timer l'' \<noteq> lk_timer l" by blast
    with lock_timer_known [OF inv *] lock_invD [OF inv *] show ?thesis
      by (auto simp: lock_ok_def due)
  qed
  moreover have "keys_ok s1"
  proof -
    have "(\<exists>l'. lockAt s1 d' e' = Some l' \<and> lk_socketId l' = x \<and> k = lockKey d' e') \<longleftrightarrow>
        (\<exists>l'. lockAt s d' e' = Some l' \<and> lk_socketId l' = x \<and> k = lockKey d' e')" for d' e' x k
      unfolding at using l by (auto simp: f(1))
    then show ?thesis using inv by (simp add: lock_inv_def keys_ok_def f(3))
  qed
  moreover have "timers_ok s1"
    unfolding timers_ok_def
  proof (intro allI impI)
    fix i t assume t: "mapGet (st_timers s1) i = Some t"
    show "i < st_nextTimer s1 \<and> (\<exists>l. lockAt s1 (tm_documentId t) (tm_elementId t) = Some l \<and> lk_timer l = i)"
    proof (cases "i = st_nextTimer s")
      case True
      with t show ?thesis by (auto simp: due dl at f(1,4))
    next
      case False
      with t have "mapGet (st_timers s) i = Some t" "i \<noteq> lk_timer l" by (auto simp: due split: if_splits)
      with inv l show ?thesis by (fastforce simp: lock_inv_def timers_ok_def at f(4))
    qed
  qed
  ultimately show ?thesis using inv by (auto simp: lock_inv_def f(3) intro: f(7))
qed

lemma expireDocument_nothing:
  "filter (is_expired now) (documentLocks s d) = [] \<Longrightarrow> expireDocument now d s = s"
  by (simp add: expireDocument_def expire_nothing del: filter_empty_conv)

end
