(* ===== verification/Lock_Refinement.thy ===== *)
theory Lock_Refinement
  imports Lock_Laws
begin

text \<open>
  What the lock store promises, as a table of the locks in force, and that each operation implements
  it. The locks in force at a time are the stored ones that have not expired; the table has no timers,
  no second index and no broadcasts.
\<close>

type_synonym lock_table = "jstring \<Rightarrow> jstring \<Rightarrow> element_lock option"

definition in_force :: "int \<Rightarrow> lock_store \<Rightarrow> lock_table" where
  "in_force now s d e = map_option toPublic (live now (lockAt s d e))"

definition put_lock :: "element_lock \<Rightarrow> lock_table \<Rightarrow> lock_table" where
  "put_lock l T = T(el_documentId l := (T (el_documentId l))(el_elementId l \<mapsto> l))"

definition spec_acquire ::
  "int \<Rightarrow> jstring \<Rightarrow> jstring \<Rightarrow> jstring \<Rightarrow> jstring \<Rightarrow> jstring \<Rightarrow> int \<Rightarrow> lock_table
     \<Rightarrow> element_lock option" where
  "spec_acquire now uuid d e u x ttl T = (case T d e of
      Some l \<Rightarrow> if el_userId l \<noteq> u \<or> el_socketId l \<noteq> x then None
                else Some (l\<lparr>el_expiresAt := now + ttl * 1000\<rparr>)
    | None \<Rightarrow> Some \<lparr>el_documentId = d, el_elementId = e, el_userId = u, el_socketId = x,
                el_leaseId = uuid, el_expiresAt = now + ttl * 1000\<rparr>)"

definition spec_renew ::
  "int \<Rightarrow> jstring \<Rightarrow> jstring \<Rightarrow> jstring \<Rightarrow> jstring \<Rightarrow> jstring \<Rightarrow> int \<Rightarrow> lock_table
     \<Rightarrow> element_lock option" where
  "spec_renew now d e u x lease ttl T = (case T d e of
      Some l \<Rightarrow> if el_userId l = u \<and> el_socketId l = x \<and> el_leaseId l = lease
                then Some (l\<lparr>el_expiresAt := now + ttl * 1000\<rparr>) else None
    | None \<Rightarrow> None)"

definition granted :: "element_lock option \<Rightarrow> lock_table \<Rightarrow> lock_table" where
  "granted r T = (case r of None \<Rightarrow> T | Some l \<Rightarrow> put_lock l T)"

definition spec_release ::
  "jstring \<Rightarrow> jstring \<Rightarrow> jstring \<Rightarrow> jstring \<Rightarrow> jstring \<Rightarrow> lock_table \<Rightarrow> bool" where
  "spec_release d e u x lease T = (case T d e of
      Some l \<Rightarrow> el_userId l = u \<and> el_socketId l = x \<and> el_leaseId l = lease | None \<Rightarrow> False)"

definition drop_locks :: "(element_lock \<Rightarrow> bool) \<Rightarrow> lock_table \<Rightarrow> lock_table" where
  "drop_locks P T d e = (case T d e of None \<Rightarrow> None | Some l \<Rightarrow> if P l then None else Some l)"

section \<open>Operations as steps\<close>

text \<open>Every call the gateway makes, and a timer that fires.\<close>

datatype lock_op =
    Acquire jstring jstring jstring jstring jstring int
  | Renew jstring jstring jstring jstring jstring int
  | Release jstring jstring jstring jstring jstring
  | ReleaseBySocket jstring
  | ReleaseBySocketInDocument jstring jstring
  | HasLockOwnedByAnotherSocket jstring "jstring set" jstring
  | HasAnyLock jstring "jstring set"
  | ReconcileDocumentElements jstring "jstring set"
  | ListLocks jstring
  | TimerFires nat

fun run_op :: "int \<Rightarrow> lock_op \<Rightarrow> lock_store \<Rightarrow> lock_store" where
  "run_op now (Acquire uuid d e u x ttl) s = fst (acquire now uuid d e u x ttl s)"
| "run_op now (Renew d e u x lease ttl) s = fst (renew now d e u x lease ttl s)"
| "run_op now (Release d e u x lease) s = fst (release now d e u x lease s)"
| "run_op now (ReleaseBySocket x) s = releaseBySocket now x s"
| "run_op now (ReleaseBySocketInDocument x d) s = releaseBySocketInDocument now x d s"
| "run_op now (HasLockOwnedByAnotherSocket d A x) s = fst (hasLockOwnedByAnotherSocket now d A x s)"
| "run_op now (HasAnyLock d A) s = fst (hasAnyLock now d A s)"
| "run_op now (ReconcileDocumentElements d A) s = reconcileDocumentElements now d A s"
| "run_op now (ListLocks d) s = fst (list_locks now d s)"
| "run_op now (TimerFires i) s = timerFires now i s"

fun spec_op :: "int \<Rightarrow> lock_op \<Rightarrow> lock_table \<Rightarrow> lock_table" where
  "spec_op now (Acquire uuid d e u x ttl) T = granted (spec_acquire now uuid d e u x ttl T) T"
| "spec_op now (Renew d e u x lease ttl) T = granted (spec_renew now d e u x lease ttl T) T"
| "spec_op now (Release d e u x lease) T =
     (if spec_release d e u x lease T
      then drop_locks (\<lambda>l. el_documentId l = d \<and> el_elementId l = e) T else T)"
| "spec_op now (ReleaseBySocket x) T = drop_locks (\<lambda>l. el_socketId l = x) T"
| "spec_op now (ReleaseBySocketInDocument x d) T =
     drop_locks (\<lambda>l. el_socketId l = x \<and> el_documentId l = d) T"
| "spec_op now (ReconcileDocumentElements d A) T =
     drop_locks (\<lambda>l. el_documentId l = d \<and> el_elementId l \<notin> A) T"
| "spec_op now _ T = T"

text \<open>Identifiers have no colon and are not empty, a lease lasts, and a timer fires when it is due.\<close>

fun op_ok :: "int \<Rightarrow> lock_store \<Rightarrow> lock_op \<Rightarrow> bool" where
  "op_ok now s (Acquire uuid d e u x ttl) \<longleftrightarrow> plain_id d \<and> plain_id e \<and> 0 < ttl"
| "op_ok now s (Renew d e u x lease ttl) \<longleftrightarrow> 0 < ttl"
| "op_ok now s (TimerFires i) \<longleftrightarrow>
     (case mapGet (st_timers s) i of None \<Rightarrow> True | Some t \<Rightarrow> tm_due t \<le> now)"
| "op_ok now s _ \<longleftrightarrow> True"

section \<open>Acquire, renew, release\<close>

definition good :: "lock_store \<Rightarrow> bool" where
  "good s \<longleftrightarrow> lock_inv s \<and> announced_except {} s"

lemma good_expire: "good s \<Longrightarrow> good (expireDocument now d s)"
  by (simp add: good_def lock_laws)

lemma good_emitChange: "lock_inv s \<Longrightarrow> announced_except {d} s \<Longrightarrow> good (emitChange now d s)"
  using announced_emitChange [of s "{d}" d now] by (simp add: good_def lock_laws)

text \<open>The lock table after an operation that expires document \<open>d\<close>, stores or removes locks in
  it and broadcasts.\<close>

lemma in_force_expire [simp]: "lock_inv s \<Longrightarrow> in_force now (expireDocument now d s) = in_force now s"
  by (intro ext) (simp add: in_force_def lockAt_expire)

lemma in_force_emit [simp]: "lock_inv s \<Longrightarrow> in_force now (emitChange now d s) = in_force now s"
  by (intro ext) (simp add: in_force_def lockAt_emitChange)

lemma in_force_expired: "lock_inv s \<Longrightarrow>
  map_option toPublic (lockAt (expireDocument now d s) d e) = in_force now s d e"
  by (simp add: in_force_def lockAt_expire)

lemma toPublic_sel [simp]:
  "el_documentId (toPublic l) = lk_documentId l" "el_elementId (toPublic l) = lk_elementId l"
  "el_userId (toPublic l) = lk_userId l" "el_socketId (toPublic l) = lk_socketId l"
  "el_leaseId (toPublic l) = lk_leaseId l" "el_expiresAt (toPublic l) = lk_expiresAt l"
  by (simp_all add: toPublic_def)

lemma finish_grant:
  assumes "lock_inv s1" "announced_except {d} s1" "lk_documentId l = d" "lk_elementId l = e"
    "now < lk_expiresAt l"
    "\<And>d' e'. lockAt s1 d' e' = (if d' = d \<and> e' = e then Some l else lockAt s0 d' e')"
  shows "good (fst (list_locks now d (emitChange now d s1)))"
    "in_force now (fst (list_locks now d (emitChange now d s1))) = put_lock (toPublic l) (in_force now s0)"
proof -
  show "good (fst (list_locks now d (emitChange now d s1)))"
    by (simp add: list_locks_fst good_expire good_emitChange assms(1,2))
  show "in_force now (fst (list_locks now d (emitChange now d s1))) = put_lock (toPublic l) (in_force now s0)"
    using assms(3-5)
    by (auto simp: list_locks_fst lock_inv_emitChange assms(1,6) in_force_def put_lock_def live_def
        is_expired_def intro!: ext)
qed

lemma renewStored_grant:
  assumes g: "good s" and l: "lockAt s d e = Some l" and ttl: "0 < ttl"
    and r: "renewStored now ttl l s = (l', s1)"
  shows "good (fst (list_locks now d (emitChange now d s1)))"
    "in_force now (fst (list_locks now d (emitChange now d s1))) = put_lock (toPublic l') (in_force now s)"
    "toPublic l' = (toPublic l)\<lparr>el_expiresAt := now + ttl * 1000\<rparr>"
proof -
  have inv: "lock_inv s" using g by (simp add: good_def)
  note f = renewStored_fields [OF r] and dl = lock_invD [OF inv l]
  have "lock_inv s1" by (rule lock_inv_renewStored [OF inv l r ttl])
  moreover have "announced_except {d} s1" using f(6) [of "{}"] g dl by (simp add: good_def)
  moreover have "lk_documentId l' = d" "lk_elementId l' = e" "now < lk_expiresAt l'"
    using dl ttl by (simp_all add: f(1))
  moreover have "lockAt s1 d' e' = (if d' = d \<and> e' = e then Some l' else lockAt s d' e')" for d' e'
    using dl by (simp add: f(2))
  ultimately show "good (fst (list_locks now d (emitChange now d s1)))"
    "in_force now (fst (list_locks now d (emitChange now d s1))) = put_lock (toPublic l') (in_force now s)"
    by (rule finish_grant)+
  show "toPublic l' = (toPublic l)\<lparr>el_expiresAt := now + ttl * 1000\<rparr>"
    by (simp add: f(1) toPublic_def)
qed

lemma acquire_correct:
  assumes g: "good s" and ok: "plain_id d" "plain_id e" "0 < ttl"
  shows "good (fst (acquire now uuid d e u x ttl s))"
    "in_force now (fst (acquire now uuid d e u x ttl s))
       = granted (spec_acquire now uuid d e u x ttl (in_force now s)) (in_force now s)"
    "map_option fst (snd (acquire now uuid d e u x ttl s))
       = spec_acquire now uuid d e u x ttl (in_force now s)"
proof -
  let ?s0 = "expireDocument now d s"
  have inv: "lock_inv s" and g0: "good ?s0" using g by (simp_all add: good_expire) (simp add: good_def)
  then have inv0: "lock_inv ?s0" by (simp add: good_def)
  let ?goal = "\<lambda>r. good (fst r)
    \<and> in_force now (fst r) = granted (spec_acquire now uuid d e u x ttl (in_force now s)) (in_force now s)
    \<and> map_option fst (snd r) = spec_acquire now uuid d e u x ttl (in_force now s)"
  have "?goal (acquire now uuid d e u x ttl s)"
  proof (cases "lockAt ?s0 d e")
    case (Some l)
    then have at: "in_force now s d e = Some (toPublic l)"
      using in_force_expired [OF inv, of now d e] by simp
    show ?thesis
    proof (cases "lk_userId l \<noteq> u \<or> lk_socketId l \<noteq> x")
      case True
      with Some at g0 inv show ?thesis
        by (auto simp: acquire_def Let_def spec_acquire_def granted_def)
    next
      case False
      obtain l' s1 where r: "renewStored now ttl l ?s0 = (l', s1)" by (cases "renewStored now ttl l ?s0")
      note grant = renewStored_grant [OF g0 Some ok(3) r]
      show ?thesis using False Some at grant inv
        by (auto simp: acquire_def Let_def r spec_acquire_def granted_def split: prod.split)
    qed
  next
    case None
    then have at: "in_force now s d e = None" using in_force_expired [OF inv, of now d e] by simp
    obtain t s1 where t: "createExpirationTimer now d e (now + ttl * 1000) ?s0 = (t, s1)"
      by (cases "createExpirationTimer now d e (now + ttl * 1000) ?s0")
    define l where "l = \<lparr>lk_documentId = d, lk_elementId = e, lk_userId = u, lk_socketId = x,
      lk_leaseId = uuid, lk_expiresAt = now + ttl * 1000, lk_timer = t\<rparr>"
    have "lock_inv (store_new l s1)"
      using lock_inv_store_new [OF inv0, of l now s1] None ok t by (simp add: l_def)
    moreover have "announced_except {d} (store_new l s1)"
      using announced_store_new [of "{}" s1 l] announced_createTimer [OF t] g0
      by (simp add: l_def good_def)
    moreover have "lk_documentId l = d" "lk_elementId l = e" "now < lk_expiresAt l"
      using ok by (simp_all add: l_def)
    moreover have "lockAt (store_new l s1) d' e' = (if d' = d \<and> e' = e then Some l else lockAt ?s0 d' e')" for d' e'
      by (simp add: lockAt_store_new createExpirationTimer_fields(3) [OF t]) (simp add: l_def)
    ultimately have "good (fst (list_locks now d (emitChange now d (store_new l s1))))"
      "in_force now (fst (list_locks now d (emitChange now d (store_new l s1))))
         = put_lock (toPublic l) (in_force now ?s0)"
      by (rule finish_grant)+
    moreover have "acquire now uuid d e u x ttl s =
      (case list_locks now d (emitChange now d (store_new l s1)) of (s3, locks) \<Rightarrow> (s3, Some (toPublic l, locks)))"
      using None t by (simp add: acquire_def Let_def store_new_def l_def)
    ultimately show ?thesis
      using at inv by (auto simp: spec_acquire_def granted_def l_def toPublic_def split: prod.split)
  qed
  then show "good (fst (acquire now uuid d e u x ttl s))"
    "in_force now (fst (acquire now uuid d e u x ttl s))
       = granted (spec_acquire now uuid d e u x ttl (in_force now s)) (in_force now s)"
    "map_option fst (snd (acquire now uuid d e u x ttl s))
       = spec_acquire now uuid d e u x ttl (in_force now s)"
    by blast+
qed

lemma renew_correct:
  assumes g: "good s" and ttl: "0 < ttl"
  shows "good (fst (renew now d e u x lease ttl s))
    \<and> in_force now (fst (renew now d e u x lease ttl s))
       = granted (spec_renew now d e u x lease ttl (in_force now s)) (in_force now s)
    \<and> map_option fst (snd (renew now d e u x lease ttl s))
       = spec_renew now d e u x lease ttl (in_force now s)"
proof -
  let ?s0 = "expireDocument now d s"
  have inv: "lock_inv s" and g0: "good ?s0" using g by (simp_all add: good_expire) (simp add: good_def)
  show ?thesis
  proof (cases "lockAt ?s0 d e")
    case None
    then have "in_force now s d e = None" using in_force_expired [OF inv, of now d e] by simp
    with None g0 inv show ?thesis by (simp add: renew_def Let_def spec_renew_def granted_def)
  next
    case (Some l)
    then have at: "in_force now s d e = Some (toPublic l)"
      using in_force_expired [OF inv, of now d e] by simp
    obtain l' s1 where r: "renewStored now ttl l ?s0 = (l', s1)" by (cases "renewStored now ttl l ?s0")
    show ?thesis using Some at renewStored_grant [OF g0 Some ttl r] inv g0
      by (auto simp: renew_def Let_def r spec_renew_def granted_def holds_lease_def split: prod.split)
  qed
qed

lemma in_force_remove:
  "lock_inv s \<Longrightarrow> lockAt s d e = Some l \<Longrightarrow> in_force now (remove l s)
     = drop_locks (\<lambda>l. el_documentId l = d \<and> el_elementId l = e) (in_force now s)"
  by (intro ext) (auto simp: in_force_def lockAt_remove drop_locks_def live_def lock_invD
      split: option.split)

lemma good_remove:
  assumes "good s" and "lockAt s d e = Some l"
  shows "lock_inv (remove l s)" "announced_except {d} (remove l s)"
proof -
  have inv: "lock_inv s" using assms(1) by (simp add: good_def)
  then show "lock_inv (remove l s)" using assms(2) by (rule lock_inv_remove)
  show "announced_except {d} (remove l s)"
    using assms(1) lock_invD(1) [OF inv assms(2)]
    by (intro announced_remove) (auto simp: good_def intro: announced_mono)
qed

lemma release_correct:
  assumes g: "good s"
  shows "good (fst (release now d e u x lease s))
    \<and> in_force now (fst (release now d e u x lease s)) = spec_op now (Release d e u x lease) (in_force now s)
    \<and> snd (release now d e u x lease s) = spec_release d e u x lease (in_force now s)"
proof -
  let ?s0 = "expireDocument now d s"
  have inv: "lock_inv s" and g0: "good ?s0" using g by (simp_all add: good_expire) (simp add: good_def)
  then have inv0: "lock_inv ?s0" by (simp add: good_def)
  show ?thesis
  proof (cases "lockAt ?s0 d e")
    case None
    then have "in_force now s d e = None" using in_force_expired [OF inv, of now d e] by simp
    with None g0 inv show ?thesis by (simp add: release_def Let_def spec_release_def)
  next
    case (Some l)
    then have at: "in_force now s d e = Some (toPublic l)"
      using in_force_expired [OF inv, of now d e] by simp
    show ?thesis using Some at g0 inv good_remove [OF g0 Some] in_force_remove [OF inv0 Some, of now]
      by (auto simp: release_def Let_def spec_release_def holds_lease_def good_emitChange)
  qed
qed

section \<open>Release by socket\<close>

lemma lock_key_in_socket:
  assumes "lock_inv s"
  shows "k \<in> set (socketKeys s x) \<longleftrightarrow>
    (\<exists>d e l. lockAt s d e = Some l \<and> lk_socketId l = x \<and> k = lockKey d e)"
proof -
  have "nested_ok (lockKeysBySocket s)" using assms by (simp add: lock_inv_def)
  from inner_keys [OF this, of k x] show ?thesis
    using assms by (simp add: socketKeys_def lock_inv_def keys_ok_def)
qed

text \<open>One pass over keys of the socket: the locks they name are gone, the rest is untouched, and
  the documents of the removed locks are collected for the broadcast.\<close>

definition key_pair :: "jstring \<Rightarrow> jstring \<times> jstring \<Rightarrow> bool" where
  "key_pair k p \<longleftrightarrow> plain_id (fst p) \<and> plain_id (snd p) \<and> k = lockKey (fst p) (snd p)"

definition named_by :: "jstring list \<Rightarrow> jstring \<Rightarrow> jstring \<Rightarrow> stored_lock \<Rightarrow> bool" where
  "named_by ks x d l \<longleftrightarrow> lk_socketId l = x \<and> lockKey d (lk_elementId l) \<in> set ks"

definition without_named ::
  "jstring list \<Rightarrow> jstring \<Rightarrow> lock_store \<Rightarrow> jstring \<Rightarrow> jstring \<Rightarrow> stored_lock option" where
  "without_named ks x s d e = (case lockAt s d e of None \<Rightarrow> None
     | Some l \<Rightarrow> if named_by ks x d l then None else Some l)"

lemma release_key_eval:
  "plain_id d \<Longrightarrow> plain_id e \<Longrightarrow> release_key x (lockKey d e) (s, ds) =
     (case lockAt s d e of None \<Rightarrow> (s, ds)
      | Some l \<Rightarrow> if lk_socketId l = x then (remove l s, setAdd d ds) else (s, ds))"
  by (simp add: release_key_def splitKey_lockKey)

lemma release_keys:
  assumes "lock_inv s" "announced_except (set ds) s" "\<forall>k \<in> set ks. \<exists>p. key_pair k p"
    and "fold (release_key x) ks (s, ds) = (s', ds')"
  shows "lock_inv s' \<and> announced_except (set ds') s' \<and> (\<forall>d e. lockAt s' d e = without_named ks x s d e)"
  using assms
proof (induction ks arbitrary: s ds)
  case Nil
  then show ?case by (simp add: without_named_def named_by_def split: option.split)
next
  case (Cons k ks)
  then obtain d e where k: "plain_id d" "plain_id e" "k = lockKey d e" by (auto simp: key_pair_def)
  have hit: "named_by (k # ks) x d' l' \<longleftrightarrow> named_by ks x d' l' \<or> (lk_socketId l' = x \<and> d' = d \<and> e' = e)"
    if "lockAt s d' e' = Some l'" for d' e' l'
    using lock_invD [OF Cons.prems(1) that] k by (auto simp: named_by_def lockKey_inject)
  show ?case
  proof (cases "\<exists>l. lockAt s d e = Some l \<and> lk_socketId l = x")
    case True
    then obtain l where l: "lockAt s d e = Some l" "lk_socketId l = x" by blast
    then have "fold (release_key x) ks (remove l s, setAdd d ds) = (s', ds')"
      using Cons.prems(4) k by (simp add: release_key_eval)
    moreover have "announced_except (set (setAdd d ds)) (remove l s)"
      using Cons.prems(2) lock_invD(1) [OF Cons.prems(1) l(1)]
      by (intro announced_remove) (auto simp: setAdd_def intro: announced_mono)
    ultimately have "lock_inv s' \<and> announced_except (set ds') s'
        \<and> (\<forall>d e. lockAt s' d e = without_named ks x (remove l s) d e)"
      using Cons.IH [OF lock_inv_remove [OF Cons.prems(1) l(1)]] Cons.prems(3) by simp
    moreover have "without_named ks x (remove l s) d' e' = without_named (k # ks) x s d' e'" for d' e'
      using hit [of d' e'] l
      by (auto simp: without_named_def lockAt_remove [OF Cons.prems(1) l(1)] split: option.split)
    ultimately show ?thesis by simp
  next
    case False
    then have "fold (release_key x) ks (s, ds) = (s', ds')"
      using Cons.prems(4) k by (auto simp: release_key_eval split: option.splits)
    then have "lock_inv s' \<and> announced_except (set ds') s' \<and> (\<forall>d e. lockAt s' d e = without_named ks x s d e)"
      using Cons.IH Cons.prems by simp
    moreover have "without_named ks x s d' e' = without_named (k # ks) x s d' e'" for d' e'
      using hit [of d' e'] False by (auto simp: without_named_def split: option.split)
    ultimately show ?thesis by simp
  qed
qed

lemma emit_all:
  assumes "lock_inv s" "announced_except (set ds) s"
  shows "good (fold (emitChange now) ds s) \<and> in_force now (fold (emitChange now) ds s) = in_force now s"
  using assms
proof (induction ds arbitrary: s)
  case (Cons d ds)
  have "announced_except (set ds) (emitChange now d s)"
    using announced_emitChange [OF Cons.prems(1,2), of d now] by (rule announced_mono) auto
  from Cons.IH [OF lock_inv_emitChange [OF Cons.prems(1)] this] Cons.prems(1) show ?case by simp
qed (simp add: good_def)

lemma socket_keys_named:
  assumes "lock_inv s" "lockAt s d e = Some l"
  shows "named_by (socketKeys s x) x d l \<longleftrightarrow> lk_socketId l = x"
proof -
  note d = lock_invD [OF assms]
  have "lockKey d e \<in> set (socketKeys s x)" if "lk_socketId l = x"
    using lock_key_in_socket [OF assms(1), of "lockKey d e" x] assms(2) that by blast
  with d(2) show ?thesis by (auto simp: named_by_def)
qed

lemma socket_keys_pairs:
  "lock_inv s \<Longrightarrow> \<forall>k \<in> set (socketKeys s x). \<exists>p. key_pair k p"
proof
  fix k
  assume inv: "lock_inv s" and "k \<in> set (socketKeys s x)"
  then obtain d e l where "lockAt s d e = Some l" "k = lockKey d e" by (auto simp: lock_key_in_socket)
  with lock_invD(3,4) [OF inv] show "\<exists>p. key_pair k p"
    by (intro exI [of _ "(d, e)"]) (simp add: key_pair_def)
qed

lemma releaseBySocket_correct:
  assumes g: "good s"
  shows "good (releaseBySocket now x s)
    \<and> in_force now (releaseBySocket now x s) = spec_op now (ReleaseBySocket x) (in_force now s)"
proof -
  let ?ks = "socketKeys s x"
  have inv: "lock_inv s" and ann: "announced_except (set []) s" using g by (simp_all add: good_def)
  obtain s' ds where f: "fold (release_key x) ?ks (s, []) = (s', ds)"
    by (cases "fold (release_key x) ?ks (s, [])")
  have r: "lock_inv s' \<and> announced_except (set ds) s' \<and> (\<forall>d e. lockAt s' d e = without_named ?ks x s d e)"
    by (rule release_keys [OF inv ann socket_keys_pairs [OF inv] f])
  have "in_force now s' d e = drop_locks (\<lambda>l. el_socketId l = x) (in_force now s) d e" for d e
    using r socket_keys_named [OF inv, of d e _ x]
    by (cases "lockAt s d e") (simp_all add: in_force_def without_named_def drop_locks_def live_def)
  then have "in_force now s' = drop_locks (\<lambda>l. el_socketId l = x) (in_force now s)" by (intro ext)
  with r emit_all [of s' ds now] f show ?thesis by (simp add: releaseBySocket_def)
qed

text \<open>Leaving one document: only the keys of that document count.\<close>

lemma release_key_in_eval:
  "plain_id d' \<Longrightarrow> plain_id e \<Longrightarrow> release_key_in x d (lockKey d' e) (s, c) =
     (if d' \<noteq> d then (s, c) else case lockAt s d e of None \<Rightarrow> (s, c)
      | Some l \<Rightarrow> if lk_socketId l = x then (remove l s, True) else (s, c))"
  by (simp add: release_key_in_def js_split_key) (simp add: plain_id_def)

lemma release_keys_in:
  assumes "lock_inv s" "announced_except (if c then {d} else {}) s" "\<forall>k \<in> set ks. \<exists>p. key_pair k p"
    and "fold (release_key_in x d) ks (s, c) = (s', c')"
  shows "lock_inv s' \<and> announced_except (if c' then {d} else {}) s' \<and> (\<forall>d' e. lockAt s' d' e =
    (if d' = d then without_named ks x s d' e else lockAt s d' e))"
  using assms
proof (induction ks arbitrary: s c)
  case Nil
  then show ?case by (simp add: without_named_def named_by_def split: option.split)
next
  case (Cons k ks)
  then obtain d0 e where k: "plain_id d0" "plain_id e" "k = lockKey d0 e" by (auto simp: key_pair_def)
  have hit: "named_by (k # ks) x d' l' \<longleftrightarrow> named_by ks x d' l' \<or> (lk_socketId l' = x \<and> d' = d0 \<and> e' = e)"
    if "lockAt s d' e' = Some l'" for d' e' l'
    using lock_invD [OF Cons.prems(1) that] k by (auto simp: named_by_def lockKey_inject)
  show ?case
  proof (cases "d0 = d \<and> (\<exists>l. lockAt s d e = Some l \<and> lk_socketId l = x)")
    case True
    then obtain l where l: "lockAt s d e = Some l" "lk_socketId l = x" "d0 = d" by blast
    then have "fold (release_key_in x d) ks (remove l s, True) = (s', c')"
      using Cons.prems(4) k by (simp add: release_key_in_eval)
    moreover have "announced_except {d} (remove l s)"
      using Cons.prems(2) lock_invD(1) [OF Cons.prems(1) l(1)]
      by (intro announced_remove) (auto intro: announced_mono split: if_splits)
    ultimately have "lock_inv s' \<and> announced_except (if c' then {d} else {}) s' \<and> (\<forall>d' e. lockAt s' d' e =
        (if d' = d then without_named ks x (remove l s) d' e else lockAt (remove l s) d' e))"
      using Cons.IH [OF lock_inv_remove [OF Cons.prems(1) l(1)], of True] Cons.prems(3) by simp
    moreover have "without_named ks x (remove l s) d e' = without_named (k # ks) x s d e'" for e'
      using hit [of d e'] l
      by (auto simp: without_named_def lockAt_remove [OF Cons.prems(1) l(1)] split: option.split)
    ultimately show ?thesis by (simp add: lockAt_remove [OF Cons.prems(1) l(1)])
  next
    case False
    then have "fold (release_key_in x d) ks (s, c) = (s', c')"
      using Cons.prems(4) k by (auto simp: release_key_in_eval split: option.splits if_splits)
    then have "lock_inv s' \<and> announced_except (if c' then {d} else {}) s' \<and> (\<forall>d' e. lockAt s' d' e =
        (if d' = d then without_named ks x s d' e else lockAt s d' e))"
      using Cons.IH Cons.prems by simp
    moreover have "without_named ks x s d e' = without_named (k # ks) x s d e'" for e'
      using hit [of d e'] False by (auto simp: without_named_def split: option.split)
    ultimately show ?thesis by simp
  qed
qed

lemma releaseBySocketInDocument_correct:
  assumes g: "good s"
  shows "good (releaseBySocketInDocument now x d s)
    \<and> in_force now (releaseBySocketInDocument now x d s)
        = spec_op now (ReleaseBySocketInDocument x d) (in_force now s)"
proof -
  have inv: "lock_inv s" and ann: "announced_except (if False then {d} else {}) s"
    using g by (simp_all add: good_def)
  obtain s' c where f: "fold (release_key_in x d) (socketKeys s x) (s, False) = (s', c)"
    by (cases "fold (release_key_in x d) (socketKeys s x) (s, False)")
  have r: "lock_inv s' \<and> announced_except (if c then {d} else {}) s' \<and> (\<forall>d' e. lockAt s' d' e =
      (if d' = d then without_named (socketKeys s x) x s d' e else lockAt s d' e))"
    by (rule release_keys_in [OF inv ann socket_keys_pairs [OF inv] f])
  have "in_force now s' d' e = drop_locks (\<lambda>l. el_socketId l = x \<and> el_documentId l = d) (in_force now s) d' e"
    for d' e
    using r socket_keys_named [OF inv, of d' e _ x] lock_invD(1) [OF inv, of d' e]
    by (cases "lockAt s d' e") (auto simp: in_force_def without_named_def drop_locks_def live_def)
  then have "in_force now s' = spec_op now (ReleaseBySocketInDocument x d) (in_force now s)"
    by (intro ext) simp
  with r f show ?thesis
    by (auto simp: releaseBySocketInDocument_def good_emitChange) (simp add: good_def)
qed

section \<open>Queries, reconciliation, timers\<close>

lemma hasLockOwnedByAnotherSocket_correct:
  assumes "good s"
  shows "snd (hasLockOwnedByAnotherSocket now d A x s) \<longleftrightarrow>
    (\<exists>e \<in> A. \<exists>l. in_force now s d e = Some l \<and> el_socketId l \<noteq> x)"
proof -
  have inv: "lock_inv s" using assms by (simp add: good_def)
  have "(case lockAt (expireDocument now d s) d e of None \<Rightarrow> False | Some l \<Rightarrow> lk_socketId l \<noteq> x)
      \<longleftrightarrow> (\<exists>l. in_force now s d e = Some l \<and> el_socketId l \<noteq> x)" for e
    unfolding in_force_expired [OF inv, of now d e, symmetric]
    by (cases "lockAt (expireDocument now d s) d e") auto
  then show ?thesis by (simp add: hasLockOwnedByAnotherSocket_def Let_def)
qed

lemma hasAnyLock_correct:
  "good s \<Longrightarrow> snd (hasAnyLock now d A s) \<longleftrightarrow> (\<exists>e \<in> A. in_force now s d e \<noteq> None)"
  using in_force_expired [of s now d] by (simp add: hasAnyLock_def Let_def good_def) (metis not_None_eq option.map_disc_iff)

lemma reconcile_correct:
  assumes g: "good s"
  shows "good (reconcileDocumentElements now d A s) \<and> in_force now (reconcileDocumentElements now d A s)
    = spec_op now (ReconcileDocumentElements d A) (in_force now s)"
proof -
  let ?s0 = "expireDocument now d s"
  let ?P = "\<lambda>l. lk_elementId l \<notin> A"
  let ?gone = "filter ?P (documentLocks ?s0 d)"
  let ?s1 = "fold remove ?gone ?s0"
  have inv: "lock_inv s" and g0: "good ?s0" using g by (simp_all add: good_expire) (simp add: good_def)
  then have inv0: "lock_inv ?s0" and ann0: "announced_except {d} ?s0"
    by (auto simp: good_def intro: announced_mono)
  note r = fold_remove_documentLocks [OF inv0, of ?P d]
  have "announced_except {d} ?s1"
    using documentLocks_id [OF inv0] by (intro announced_fold_remove ann0) blast
  then have "good (emitChange now d ?s1)" by (rule good_emitChange [OF r(1)])
  moreover have "in_force now ?s1 = drop_locks (\<lambda>l. el_documentId l = d \<and> el_elementId l \<notin> A) (in_force now ?s0)"
  proof (intro ext)
    fix d' e
    show "in_force now ?s1 d' e
      = drop_locks (\<lambda>l. el_documentId l = d \<and> el_elementId l \<notin> A) (in_force now ?s0) d' e"
      using r(2) [of d' e] lock_invD(1) [OF inv0, of d' e]
      by (cases "lockAt ?s0 d' e") (auto simp: in_force_def drop_locks_def live_def)
  qed
  ultimately show ?thesis
    using g0 r(1) inv by (cases "?gone = []") (simp_all add: reconcileDocumentElements_def Let_def
        del: filter_empty_conv)
qed

lemma timer_removes:
  assumes g: "good s" and t: "mapGet (st_timers s) i = Some t" and due: "tm_due t \<le> now"
  shows "\<exists>l. lockAt s (tm_documentId t) (tm_elementId t) = Some l \<and> is_expired now l
    \<and> timerFires now i s = emitChange now (tm_documentId t) (remove l s)"
proof -
  let ?d = "tm_documentId t" and ?e = "tm_elementId t"
  have inv: "lock_inv s" using g by (simp add: good_def)
  then obtain l where l: "lockAt s ?d ?e = Some l" "lk_timer l = i"
    using t unfolding lock_inv_def timers_ok_def by blast
  have "tm_due t = lk_expiresAt l" using lock_invD(5) [OF inv l(1)] l(2) t
    by (metis option.inject pending_timer.select_convs(3))
  with due have exp: "is_expired now l" by (simp add: is_expired_def)
  have "remove l (clearTimeout i s) = remove l s"
    using l(2) by (simp add: remove_def clearTimeout_def Let_def delete_idem)
  moreover have "lockAt (clearTimeout i s) = lockAt s" by (intro ext) (simp add: lockAt_def clearTimeout_def)
  ultimately show ?thesis using l exp t by (simp add: timerFires_def Let_def is_expired_def)
qed

lemma timer_correct:
  assumes g: "good s" and ok: "op_ok now s (TimerFires i)"
  shows "good (timerFires now i s) \<and> in_force now (timerFires now i s) = in_force now s"
proof (cases "mapGet (st_timers s) i")
  case None
  with g show ?thesis by (simp add: timerFires_def)
next
  case (Some t)
  have inv: "lock_inv s" using g by (simp add: good_def)
  from Some ok have "tm_due t \<le> now" by simp
  from timer_removes [OF g Some this] obtain l where
    l: "lockAt s (tm_documentId t) (tm_elementId t) = Some l" "is_expired now l"
      "timerFires now i s = emitChange now (tm_documentId t) (remove l s)" by blast
  have "in_force now (remove l s) = in_force now s"
    using l(2) by (intro ext) (auto simp: in_force_def lockAt_remove [OF inv l(1)] live_def l(1))
  with l(3) good_remove [OF g l(1)] show ?thesis by (simp add: good_emitChange)
qed

lemma run_op_correct:
  assumes "good s" and "op_ok now s op'"
  shows "good (run_op now op' s) \<and> in_force now (run_op now op' s) = spec_op now op' (in_force now s)"
proof (cases op')
  case (TimerFires i)
  with timer_correct assms show ?thesis by (auto simp del: op_ok.simps)
qed (use assms acquire_correct renew_correct release_correct [OF assms(1), unfolded spec_op.simps] releaseBySocket_correct
    releaseBySocketInDocument_correct reconcile_correct [OF assms(1)] in
    \<open>simp_all add: hasLockOwnedByAnotherSocket_def hasAnyLock_def Let_def list_locks_fst good_expire good_def lock_laws\<close>)

inductive locks_reachable :: "lock_store \<Rightarrow> bool" where
  Start: "locks_reachable empty_lock_store"
| Step: "locks_reachable s \<Longrightarrow> op_ok now s op' \<Longrightarrow> locks_reachable (run_op now op' s)"

lemma good_empty: "good empty_lock_store"
  by (simp add: good_def lock_inv_empty announced_except_def shown_def)
    (simp add: empty_lock_store_def documentLocks_def)

lemma locks_reachable_good: "locks_reachable s \<Longrightarrow> good s"
  by (induction rule: locks_reachable.induct) (simp_all add: good_empty run_op_correct)

text \<open>The locks of a socket, as the gateway sees them when it disconnects.\<close>

definition locks_of :: "int \<Rightarrow> lock_store \<Rightarrow> jstring \<Rightarrow> (jstring \<times> jstring) set" where
  "locks_of now s x = {(d, e). \<exists>l. in_force now s d e = Some l \<and> el_socketId l = x}"

interpretation lock_sessions: session_store good "locks_of now" "releaseBySocket now" for now
  by unfold_locales (auto simp: releaseBySocket_correct locks_of_def drop_locks_def
      split: option.splits if_splits)

end
