(* ===== verification/Presence_Store.thy ===== *)
theory Presence_Store
  imports Indexed_Maps
begin

text \<open>
  Who is in a document, src/src/modules/uml-domain/collaboration-presence.store.ts: the participants by
  document and socket, the documents by socket, and the changes emitted. ISO texts of an instant are the
  instant. The invariant says that the two maps agree; the laws say what each operation does to the
  membership and to the broadcasts.
\<close>

section \<open>State\<close>

record participant =
  pt_userId :: jstring
  pt_socketId :: jstring
  pt_joinedAt :: int
  pt_lastSeen :: int
  pt_selection :: "jstring list option"
  pt_cursor :: "(rat \<times> rat) option"

record stored_participant = participant +
  pt_lastPresenceUpdateAt :: int

record presence_store =
  participantsByDocument :: "(jstring, jstring, stored_participant) nested"
  documentIdsBySocket :: "(jstring, jstring, unit) nested"
  ps_events :: "(jstring \<times> participant list) list"

datatype presence_result = NotJoined | RateLimited | Updated "participant list"

definition empty_presence_store :: presence_store where
  "empty_presence_store = \<lparr>participantsByDocument = [], documentIdsBySocket = [], ps_events = []\<rparr>"

section \<open>Operations\<close>

definition list_participants :: "jstring \<Rightarrow> presence_store \<Rightarrow> participant list" where
  "list_participants d s = map participant.truncate (mapValues (inner (participantsByDocument s) d))"

definition emitPresence :: "jstring \<Rightarrow> participant list \<Rightarrow> presence_store \<Rightarrow> presence_store" where
  "emitPresence d ps s = s\<lparr>ps_events := ps_events s @ [(d, ps)]\<rparr>"

definition join ::
  "int \<Rightarrow> jstring \<Rightarrow> jstring \<Rightarrow> jstring \<Rightarrow> nat \<Rightarrow> presence_store \<Rightarrow> presence_store \<times> participant list option" where
  "join now d u x maxParticipants s =
     (let participants = inner (participantsByDocument s) d;
          existing = mapGet participants x
      in if existing = None \<and> maxParticipants \<le> length participants then (s, None)
         else (let p = (case existing of Some p \<Rightarrow> p
                 | None \<Rightarrow> \<lparr>pt_userId = u, pt_socketId = x, pt_joinedAt = now, pt_lastSeen = now,
                             pt_selection = None, pt_cursor = None, pt_lastPresenceUpdateAt = 0\<rparr>);
                   p' = p\<lparr>pt_lastSeen := now\<rparr>;
                   s' = s\<lparr>participantsByDocument := nestedPut d x p' (participantsByDocument s),
                          documentIdsBySocket := nestedPut x d () (documentIdsBySocket s)\<rparr>
               in (emitPresence d (list_participants d s') s', Some (list_participants d s'))))"

definition update ::
  "int \<Rightarrow> jstring \<Rightarrow> jstring \<Rightarrow> jstring list option \<Rightarrow> (rat \<times> rat) option \<Rightarrow> int \<Rightarrow> presence_store
     \<Rightarrow> presence_store \<times> presence_result" where
  "update now d x selection cursor minimumIntervalMs s =
     (case nestedGet (participantsByDocument s) d x of
        None \<Rightarrow> (s, NotJoined)
      | Some p \<Rightarrow>
          if now - pt_lastPresenceUpdateAt p < minimumIntervalMs then (s, RateLimited)
          else (let p1 = p\<lparr>pt_lastPresenceUpdateAt := now, pt_lastSeen := now\<rparr>;
                    p2 = (if selection \<noteq> None then p1\<lparr>pt_selection := selection\<rparr> else p1);
                    p3 = (if cursor \<noteq> None then p2\<lparr>pt_cursor := cursor\<rparr> else p2);
                    s' = s\<lparr>participantsByDocument := nestedPut d x p3 (participantsByDocument s)\<rparr>
                in (emitPresence d (list_participants d s') s', Updated (list_participants d s'))))"

definition touch :: "int \<Rightarrow> jstring \<Rightarrow> jstring \<Rightarrow> presence_store \<Rightarrow> presence_store" where
  "touch now d x s = (case nestedGet (participantsByDocument s) d x of
      None \<Rightarrow> s
    | Some p \<Rightarrow> s\<lparr>participantsByDocument :=
                  nestedPut d x (p\<lparr>pt_lastSeen := now\<rparr>) (participantsByDocument s)\<rparr>)"

definition leave :: "jstring \<Rightarrow> jstring \<Rightarrow> presence_store \<Rightarrow> presence_store \<times> participant list option" where
  "leave d x s =
     (if nestedGet (participantsByDocument s) d x = None then (s, None)
      else (let s' = s\<lparr>participantsByDocument := nestedDrop d x (participantsByDocument s),
                       documentIdsBySocket := nestedDrop x d (documentIdsBySocket s)\<rparr>
            in (emitPresence d (list_participants d s') s', Some (list_participants d s'))))"

definition leave_one :: "jstring \<Rightarrow> jstring \<Rightarrow> presence_store \<times> (jstring \<times> participant list) list
    \<Rightarrow> presence_store \<times> (jstring \<times> participant list) list" where
  "leave_one x d st = (case st of (s, changes) \<Rightarrow>
     case leave d x s of
       (s', None) \<Rightarrow> (s', changes)
     | (s', Some ps) \<Rightarrow> (s', changes @ [(d, ps)]))"

definition leaveBySocket ::
  "jstring \<Rightarrow> presence_store \<Rightarrow> presence_store \<times> (jstring \<times> participant list) list" where
  "leaveBySocket x s = fold (leave_one x) (mapKeys (inner (documentIdsBySocket s) x)) (s, [])"

definition shutdownPresence :: "presence_store \<Rightarrow> presence_store" where
  "shutdownPresence s = s\<lparr>participantsByDocument := [], documentIdsBySocket := []\<rparr>"

section \<open>Invariant\<close>

definition participantAt :: "presence_store \<Rightarrow> jstring \<Rightarrow> jstring \<Rightarrow> stored_participant option" where
  "participantAt s d x = nestedGet (participantsByDocument s) d x"

definition presence_inv :: "presence_store \<Rightarrow> bool" where
  "presence_inv s \<longleftrightarrow> nested_ok (participantsByDocument s) \<and> nested_ok (documentIdsBySocket s)
     \<and> (\<forall>d x. nestedGet (documentIdsBySocket s) x d \<noteq> None \<longleftrightarrow> participantAt s d x \<noteq> None)
     \<and> (\<forall>d x p. participantAt s d x = Some p \<longrightarrow> pt_socketId p = x)"

text \<open>\<open>touch\<close> does not broadcast, so the last broadcast agrees but for \<open>lastSeen\<close>.\<close>

definition but_last_seen :: "participant \<Rightarrow> participant" where
  "but_last_seen p = p\<lparr>pt_lastSeen := 0\<rparr>"

definition presence_announced :: "presence_store \<Rightarrow> bool" where
  "presence_announced s \<longleftrightarrow> (\<forall>d. map but_last_seen (last_event (ps_events s) d)
     = map but_last_seen (list_participants d s))"

definition presence_good :: "presence_store \<Rightarrow> bool" where
  "presence_good s \<longleftrightarrow> presence_inv s \<and> presence_announced s"

lemma presence_good_empty: "presence_good empty_presence_store"
  by (simp add: presence_good_def presence_inv_def presence_announced_def empty_presence_store_def
      participantAt_def list_participants_def)

definition documents_of :: "presence_store \<Rightarrow> jstring \<Rightarrow> jstring set" where
  "documents_of s x = {d. participantAt s d x \<noteq> None}"

section \<open>Laws\<close>

lemma map_values_mapSet:
  "mapGet m k = Some v \<Longrightarrow> f v' = f v \<Longrightarrow> map f (mapValues (mapSet k v' m)) = map f (mapValues m)"
  by (induction m) auto

lemma length_mapDelete: "length (mapDelete k m) \<le> length m"
  by (simp add: AList.delete_eq)

definition with_participant :: "jstring \<Rightarrow> jstring \<Rightarrow> stored_participant \<Rightarrow> presence_store \<Rightarrow> presence_store" where
  "with_participant d x p s =
     s\<lparr>participantsByDocument := nestedPut d x p (participantsByDocument s),
       documentIdsBySocket := nestedPut x d () (documentIdsBySocket s)\<rparr>"

lemma mapSet_idem: "mapGet m k = Some v \<Longrightarrow> mapSet k v m = m"
  by (induction m) (auto split: if_splits)

lemma with_participant_present:
  assumes "presence_inv s" and "participantAt s d x = Some p'"
  shows "s\<lparr>participantsByDocument := nestedPut d x p (participantsByDocument s)\<rparr> = with_participant d x p s"
proof -
  have "nestedGet (documentIdsBySocket s) x d = Some ()"
    using assms by (auto simp: presence_inv_def)
  then have i: "mapGet (inner (documentIdsBySocket s) x) d = Some ()" by (simp add: nestedGet_def)
  then have "mapGet (documentIdsBySocket s) x = Some (inner (documentIdsBySocket s) x)"
    by (auto simp: inner_def split: option.splits)
  with i have "nestedPut x d () (documentIdsBySocket s) = documentIdsBySocket s"
    by (simp add: nestedPut_def mapSet_idem)
  then show ?thesis by (simp add: with_participant_def)
qed

lemma participantAt_with: "participantAt (with_participant d x p s) d' x' =
    (if d' = d \<and> x' = x then Some p else participantAt s d' x')"
  by (simp add: with_participant_def participantAt_def nested_simps)

lemma presence_inv_with:
  "presence_inv s \<Longrightarrow> pt_socketId p = x \<Longrightarrow> presence_inv (with_participant d x p s)"
  by (auto simp: presence_inv_def participantAt_with)
    (auto simp: with_participant_def nested_simps)

lemma emit_fields [simp]:
  "participantsByDocument (emitPresence d ps s) = participantsByDocument s"
  "documentIdsBySocket (emitPresence d ps s) = documentIdsBySocket s"
  "participantAt (emitPresence d ps s) = participantAt s"
  "list_participants d' (emitPresence d ps s) = list_participants d' s"
  "presence_inv (emitPresence d ps s) = presence_inv s"
  by (auto simp: emitPresence_def participantAt_def list_participants_def presence_inv_def intro!: ext)

text \<open>A change to one document followed by its broadcast.\<close>

lemma presence_announced_emit:
  assumes "presence_announced s" "ps_events s' = ps_events s"
    "\<And>d'. d' \<noteq> d \<Longrightarrow> inner (participantsByDocument s') d' = inner (participantsByDocument s) d'"
  shows "presence_announced (emitPresence d (list_participants d s') s')"
  using assms by (auto simp: presence_announced_def) (simp add: emitPresence_def list_participants_def)

lemma presence_good_with:
  assumes "presence_good s" "pt_socketId p = x"
  shows "presence_good (emitPresence d (list_participants d (with_participant d x p s)) (with_participant d x p s))"
  using assms
  by (auto simp: presence_good_def presence_inv_with
      intro!: presence_announced_emit [of s]) (auto simp: with_participant_def inner_nestedPut)

lemma join_correct:
  assumes g: "presence_good s"
  shows "presence_good (fst (join now d u x M s))"
    "snd (join now d u x M s) = None \<longleftrightarrow>
       participantAt s d x = None \<and> M \<le> length (list_participants d s)"
    "documents_of (fst (join now d u x M s)) y = documents_of s y \<union>
       (if y = x \<and> snd (join now d u x M s) \<noteq> None then {d} else {})"
proof -
  let ?full = "participantAt s d x = None \<and> M \<le> length (list_participants d s)"
  let ?p = "(case participantAt s d x of Some p \<Rightarrow> p
     | None \<Rightarrow> \<lparr>pt_userId = u, pt_socketId = x, pt_joinedAt = now, pt_lastSeen = now,
                 pt_selection = None, pt_cursor = None, pt_lastPresenceUpdateAt = 0\<rparr>)
     \<lparr>pt_lastSeen := now\<rparr>"
  let ?s = "with_participant d x ?p s"
  have j: "join now d u x M s = (if ?full then (s, None)
      else (emitPresence d (list_participants d ?s) ?s, Some (list_participants d ?s)))"
    by (simp add: join_def Let_def participantAt_def nestedGet_def list_participants_def with_participant_def)
  have "pt_socketId ?p = x" using g
    by (auto simp: presence_good_def presence_inv_def split: option.split)
  from presence_good_with [OF g this, of d] g show "presence_good (fst (join now d u x M s))"
    by (simp add: j)
  show "snd (join now d u x M s) = None \<longleftrightarrow> ?full" by (simp add: j)
  show "documents_of (fst (join now d u x M s)) y = documents_of s y \<union>
       (if y = x \<and> snd (join now d u x M s) \<noteq> None then {d} else {})"
    by (auto simp: j documents_of_def participantAt_with split: if_splits)
qed

lemma update_correct:
  assumes g: "presence_good s"
  shows "presence_good (fst (update now d x sel cur k s))"
    "documents_of (fst (update now d x sel cur k s)) y = documents_of s y"
proof -
  have inv: "presence_inv s" using g by (simp add: presence_good_def)
  have "presence_good (fst (update now d x sel cur k s))
      \<and> documents_of (fst (update now d x sel cur k s)) y = documents_of s y"
  proof (cases "participantAt s d x")
    case None
    with g show ?thesis by (simp add: update_def participantAt_def)
  next
    case (Some p)
    then have "pt_socketId p = x" using inv by (auto simp: presence_inv_def)
    moreover have "documents_of (with_participant d x p' s) y = documents_of s y" for p'
      using Some by (auto simp: documents_of_def participantAt_with)
    ultimately show ?thesis using Some g
      by (auto simp: update_def Let_def participantAt_def [symmetric] with_participant_present [OF inv Some]
          presence_good_with documents_of_def)
  qed
  then show "presence_good (fst (update now d x sel cur k s))"
    "documents_of (fst (update now d x sel cur k s)) y = documents_of s y" by auto
qed

lemma touch_correct:
  assumes g: "presence_good s"
  shows "presence_good (touch now d x s)" "documents_of (touch now d x s) y = documents_of s y"
proof -
  have inv: "presence_inv s" using g by (simp add: presence_good_def)
  have "presence_good (touch now d x s) \<and> documents_of (touch now d x s) y = documents_of s y"
  proof (cases "participantAt s d x")
    case None
    with g show ?thesis by (simp add: touch_def participantAt_def)
  next
    case (Some p)
    let ?p = "p\<lparr>pt_lastSeen := now\<rparr>"
    have t: "touch now d x s = with_participant d x ?p s"
      using Some with_participant_present [OF inv Some] by (simp add: touch_def participantAt_def)
    have "pt_socketId p = x" using inv Some by (auto simp: presence_inv_def)
    then have "presence_inv (touch now d x s)" by (simp add: t presence_inv_with [OF inv])
    moreover have "map but_last_seen (list_participants d' (touch now d x s))
        = map but_last_seen (list_participants d' s)" for d'
    proof -
      have "mapGet (inner (participantsByDocument s) d) x = Some p"
        using Some by (simp add: participantAt_def nestedGet_def)
      from map_values_mapSet [OF this, of "but_last_seen \<circ> participant.truncate" ?p] show ?thesis
        by (simp add: t list_participants_def with_participant_def inner_nestedPut but_last_seen_def
            participant.truncate_def comp_assoc)
    qed
    moreover have "ps_events (touch now d x s) = ps_events s" by (simp add: t with_participant_def)
    ultimately have "presence_good (touch now d x s)"
      using g by (simp add: presence_good_def presence_announced_def)
    with Some show ?thesis by (auto simp: t documents_of_def participantAt_with)
  qed
  then show "presence_good (touch now d x s)" "documents_of (touch now d x s) y = documents_of s y" by auto
qed

lemma leave_correct:
  assumes g: "presence_good s"
  shows "presence_good (fst (leave d x s))"
    "documents_of (fst (leave d x s)) y = (if y = x then documents_of s y - {d} else documents_of s y)"
    "snd (leave d x s) = None \<longleftrightarrow> d \<notin> documents_of s x"
proof -
  let ?s = "s\<lparr>participantsByDocument := nestedDrop d x (participantsByDocument s),
              documentIdsBySocket := nestedDrop x d (documentIdsBySocket s)\<rparr>"
  have l: "leave d x s = (if participantAt s d x = None then (s, None)
      else (emitPresence d (list_participants d ?s) ?s, Some (list_participants d ?s)))"
    by (simp add: leave_def Let_def participantAt_def)
  have at: "participantAt ?s d' x' = (if d' = d \<and> x' = x then None else participantAt s d' x')" for d' x'
    by (simp add: participantAt_def nested_simps)
  have "presence_inv ?s" using g at
    by (auto simp: presence_good_def presence_inv_def nested_simps split: if_splits)
  moreover have "presence_announced (emitPresence d (list_participants d ?s) ?s)"
    using g by (intro presence_announced_emit [of s]) (auto simp: presence_good_def inner_nestedDrop)
  ultimately show "presence_good (fst (leave d x s))" using g by (simp add: l presence_good_def)
  show "documents_of (fst (leave d x s)) y = (if y = x then documents_of s y - {d} else documents_of s y)"
    by (auto simp: l documents_of_def at split: if_splits)
  show "snd (leave d x s) = None \<longleftrightarrow> d \<notin> documents_of s x" by (simp add: l documents_of_def)
qed

lemma leave_fold:
  "presence_good s \<Longrightarrow> presence_good (fst (fold (leave_one x) ds (s, cs)))
    \<and> documents_of (fst (fold (leave_one x) ds (s, cs))) y =
        (if y = x then documents_of s y - set ds else documents_of s y)"
proof (induction ds arbitrary: s cs)
  case (Cons d ds)
  obtain s' r where l: "leave d x s = (s', r)" by (cases "leave d x s")
  with leave_correct(1) [OF Cons.prems, of d x] leave_correct(2) [OF Cons.prems, of d x y] have "presence_good s'"
    "documents_of s' y = (if y = x then documents_of s y - {d} else documents_of s y)" by simp_all
  moreover obtain cs' where "leave_one x d (s, cs) = (s', cs')"
    using l by (cases r) (simp_all add: leave_one_def)
  ultimately show ?case using Cons.IH [of s' cs'] by auto
qed simp

lemma leaveBySocket_correct:
  assumes "presence_good s"
  shows "presence_good (fst (leaveBySocket x s))"
    "documents_of (fst (leaveBySocket x s)) y = (if y = x then {} else documents_of s y)"
proof -
  have "nested_ok (documentIdsBySocket s)" using assms by (simp add: presence_good_def presence_inv_def)
  from inner_keys [OF this, of _ x] assms
  have "set (mapKeys (inner (documentIdsBySocket s) x)) = documents_of s x"
    by (simp add: presence_good_def presence_inv_def documents_of_def set_eq_iff del: set_map)
  with leave_fold [OF assms, of x "mapKeys (inner (documentIdsBySocket s) x)" "[]" y]
  show "presence_good (fst (leaveBySocket x s))"
    "documents_of (fst (leaveBySocket x s)) y = (if y = x then {} else documents_of s y)"
    by (auto simp: leaveBySocket_def simp del: set_map split: if_splits)
qed

interpretation presence_sessions: session_store presence_good documents_of "\<lambda>x s. fst (leaveBySocket x s)"
  by unfold_locales (simp_all add: leaveBySocket_correct)

section \<open>Runs\<close>

text \<open>The calls of the gateway, all joins with the same capacity.\<close>

inductive presence_reachable :: "nat \<Rightarrow> presence_store \<Rightarrow> bool" for M where
  Start: "presence_reachable M empty_presence_store"
| Join: "presence_reachable M s \<Longrightarrow> presence_reachable M (fst (join now d u x M s))"
| Update: "presence_reachable M s \<Longrightarrow> presence_reachable M (fst (update now d x sel cur k s))"
| Touch: "presence_reachable M s \<Longrightarrow> presence_reachable M (touch now d x s)"
| Leave: "presence_reachable M s \<Longrightarrow> presence_reachable M (fst (leave d x s))"
| LeaveBySocket: "presence_reachable M s \<Longrightarrow> presence_reachable M (fst (leaveBySocket x s))"

lemma presence_reachable_good: "presence_reachable M s \<Longrightarrow> presence_good s"
  by (induction rule: presence_reachable.induct)
    (simp_all add: presence_good_empty join_correct update_correct touch_correct leave_correct leaveBySocket_correct)

definition within_capacity :: "nat \<Rightarrow> presence_store \<Rightarrow> bool" where
  "within_capacity M s \<longleftrightarrow> (\<forall>d. length (list_participants d s) \<le> M)"

lemma within_capacity_emit [simp]: "within_capacity M (emitPresence d ps s) = within_capacity M s"
  by (simp add: within_capacity_def)

lemma within_capacity_with:
  "within_capacity M s \<Longrightarrow> participantAt s d x \<noteq> None \<or> length (list_participants d s) < M \<Longrightarrow>
     within_capacity M (with_participant d x p s)"
  by (auto simp: within_capacity_def list_participants_def with_participant_def inner_nestedPut
      length_mapSet participantAt_def nestedGet_def)

lemma within_capacity_leave: "within_capacity M s \<Longrightarrow> within_capacity M (fst (leave d x s))"
  by (auto simp: leave_def Let_def within_capacity_def list_participants_def inner_nestedDrop
      intro: order_trans [OF length_mapDelete])

lemma within_capacity_leaveBySocket:
  assumes "within_capacity M s"
  shows "within_capacity M (fst (leaveBySocket x s))"
proof -
  have "within_capacity M s \<Longrightarrow> within_capacity M (fst (fold (leave_one x) ds (s, cs)))" for ds s cs
  proof (induction ds arbitrary: s cs)
    case (Cons d ds)
    obtain s' r where l: "leave d x s = (s', r)" by (cases "leave d x s")
    then have "within_capacity M s'" using within_capacity_leave [OF Cons.prems, of d x] by simp
    moreover obtain cs' where "leave_one x d (s, cs) = (s', cs')"
      using l by (cases r) (simp_all add: leave_one_def)
    ultimately show ?case using Cons.IH [of s' cs'] by simp
  qed simp
  with assms show ?thesis by (simp add: leaveBySocket_def)
qed

lemma presence_reachable_capacity: "presence_reachable M s \<Longrightarrow> within_capacity M s"
proof (induction rule: presence_reachable.induct)
  case Start
  show ?case by (simp add: within_capacity_def list_participants_def empty_presence_store_def)
next
  case (Join s now d u x)
  then show ?case
    using within_capacity_with [OF Join.IH, of d x]
    by (auto simp: join_def Let_def participantAt_def nestedGet_def with_participant_def [symmetric]
        list_participants_def)
next
  case (Update s now d x sel cur k)
  have inv: "presence_inv s" using presence_reachable_good [OF Update.hyps] by (simp add: presence_good_def)
  then show ?case
    using within_capacity_with [OF Update.IH, of d x]
    by (auto simp: update_def Let_def Update.IH participantAt_def [symmetric] with_participant_present [OF inv]
        split: option.split)
next
  case (Touch s now d x)
  have inv: "presence_inv s" using presence_reachable_good [OF Touch.hyps] by (simp add: presence_good_def)
  then show ?case
    using within_capacity_with [OF Touch.IH, of d x]
    by (auto simp: touch_def Touch.IH participantAt_def [symmetric] with_participant_present [OF inv]
        split: option.split)
qed (simp_all add: within_capacity_leave within_capacity_leaveBySocket)

end
