(* ===== verification/Rate_Limiter.thy ===== *)
theory Rate_Limiter
  imports Indexed_Maps
begin

text \<open>
  The event rate limiter, src/src/modules/uml-domain/collaboration-rate-limiter.service.ts: a fixed
  window per socket, for commands and for control events. A fixed window lets through at most
  \<open>limit\<close> events of a socket per window, and so at most twice that in any interval of the
  length of a window.
\<close>

record rate_window =
  rw_startedAt :: int
  rw_count :: nat

type_synonym windows = "(jstring, rate_window) jmap"

record rate_limiter =
  commandWindows :: windows
  controlEventWindows :: windows

definition allow :: "windows \<Rightarrow> jstring \<Rightarrow> nat \<Rightarrow> int \<Rightarrow> int \<Rightarrow> bool \<times> windows" where
  "allow windows x limit windowMs now = (case mapGet windows x of
      None \<Rightarrow> (True, mapSet x \<lparr>rw_startedAt = now, rw_count = 1\<rparr> windows)
    | Some current \<Rightarrow>
        if windowMs \<le> now - rw_startedAt current
        then (True, mapSet x \<lparr>rw_startedAt = now, rw_count = 1\<rparr> windows)
        else if limit \<le> rw_count current then (False, windows)
        else (True, mapSet x (current\<lparr>rw_count := rw_count current + 1\<rparr>) windows))"

definition allowCommand :: "jstring \<Rightarrow> nat \<Rightarrow> int \<Rightarrow> int \<Rightarrow> rate_limiter \<Rightarrow> bool \<times> rate_limiter" where
  "allowCommand x limit windowMs now s = (case allow (commandWindows s) x limit windowMs now of
     (ok, w) \<Rightarrow> (ok, s\<lparr>commandWindows := w\<rparr>))"

definition allowControlEvent ::
  "jstring \<Rightarrow> nat \<Rightarrow> int \<Rightarrow> int \<Rightarrow> rate_limiter \<Rightarrow> bool \<times> rate_limiter" where
  "allowControlEvent x limit windowMs now s =
     (case allow (controlEventWindows s) x limit windowMs now of
        (ok, w) \<Rightarrow> (ok, s\<lparr>controlEventWindows := w\<rparr>))"

definition releaseSocket :: "jstring \<Rightarrow> rate_limiter \<Rightarrow> rate_limiter" where
  "releaseSocket x s = s\<lparr>commandWindows := mapDelete x (commandWindows s),
     controlEventWindows := mapDelete x (controlEventWindows s)\<rparr>"

definition shutdownRateLimiter :: "rate_limiter \<Rightarrow> rate_limiter" where
  "shutdownRateLimiter s = s\<lparr>commandWindows := [], controlEventWindows := []\<rparr>"

section \<open>Runs\<close>

text \<open>A sequence of calls, each with its time and socket, and the calls that were allowed.\<close>

fun allowed :: "nat \<Rightarrow> int \<Rightarrow> windows \<Rightarrow> (int \<times> jstring) list \<Rightarrow> (int \<times> jstring) list" where
  "allowed limit windowMs w [] = []"
| "allowed limit windowMs w ((now, x) # calls) = (case allow w x limit windowMs now of
     (ok, w') \<Rightarrow> (if ok then [(now, x)] else []) @ allowed limit windowMs w' calls)"

definition in_interval :: "jstring \<Rightarrow> int \<Rightarrow> int \<Rightarrow> (int \<times> jstring) list \<Rightarrow> nat" where
  "in_interval x a windowMs calls = length (filter (\<lambda>(t, y). y = x \<and> a \<le> t \<and> t < a + windowMs) calls)"

lemma in_interval_simps [simp]:
  "in_interval x a W [] = 0"
  "in_interval x a W ((t, y) # calls) =
     (if y = x \<and> a \<le> t \<and> t < a + W then 1 else 0) + in_interval x a W calls"
  "in_interval x a W (calls @ calls') = in_interval x a W calls + in_interval x a W calls'"
  by (simp_all add: in_interval_def)

lemma allow_other: "y \<noteq> x \<Longrightarrow> mapGet (snd (allow w y limit W now)) x = mapGet w x"
  by (auto simp: allow_def mapGet_mapSet split: option.split)

lemma allow_window:
  assumes "allow w x limit W t = (ok, w')" and "mapGet w' x = Some r" and "0 < limit"
  shows "(rw_startedAt r = t \<and> rw_count r \<le> limit)
    \<or> (\<exists>r'. mapGet w x = Some r' \<and> rw_startedAt r = rw_startedAt r'
        \<and> (rw_count r' \<le> limit \<longrightarrow> rw_count r \<le> limit))"
  using assms by (auto simp: allow_def mapGet_mapSet split: option.splits if_splits)

lemma allowed_late:
  "\<forall>c \<in> set calls. a + W \<le> fst c \<Longrightarrow> in_interval x a W (allowed limit W w calls) = 0"
  by (induction calls arbitrary: w) (auto split: prod.split)

text \<open>What is still allowed in \<open>[a, a + windowMs)\<close>, from the window of the socket: nothing more
  than the rest of the window when it began in the interval, and one more full window otherwise.\<close>

definition budget :: "nat \<Rightarrow> int \<Rightarrow> (int \<times> jstring) list \<Rightarrow> rate_window option \<Rightarrow> nat" where
  "budget L a calls r = (case r of
      None \<Rightarrow> if \<forall>c \<in> set calls. a \<le> fst c then L else 2 * L
    | Some c \<Rightarrow> if a \<le> rw_startedAt c then L - rw_count c
               else if \<forall>c \<in> set calls. a \<le> fst c then 2 * L - rw_count c else 2 * L)"

lemma budget_bound:
  assumes "0 < limit" and "0 < W"
    and "sorted (map fst calls)"
    and "\<And>r. mapGet w x = Some r \<Longrightarrow> rw_count r \<le> limit \<and> (\<forall>c \<in> set calls. rw_startedAt r \<le> fst c)"
  shows "in_interval x a W (allowed limit W w calls) \<le> budget limit a calls (mapGet w x)"
  using assms
proof (induction calls arbitrary: w)
  case (Cons c calls)
  obtain t y where c: "c = (t, y)" by (cases c)
  obtain ok w' where al: "allow w y limit W t = (ok, w')" by (cases "allow w y limit W t")
  have late: "in_interval x a W (allowed limit W w' calls) = 0" if "a + W \<le> t"
    using that Cons.prems(3) by (intro allowed_late) (auto simp: c)
  have srt: "sorted (map fst calls)" "\<forall>c \<in> set calls. t \<le> fst c" using Cons.prems(3) by (auto simp: c)
  show ?case
  proof (cases "y = x")
    case False
    then have same: "mapGet w' x = mapGet w x" using allow_other [of y x w limit W t] al by simp
    have "in_interval x a W (allowed limit W w' calls) \<le> budget limit a calls (mapGet w' x)"
      using Cons.prems srt by (intro Cons.IH) (auto simp: same c)
    also have "\<dots> \<le> budget limit a (c # calls) (mapGet w x)"
      using srt by (auto simp: budget_def same c split: option.split) 
    finally show ?thesis using False al by (simp add: c)
  next
    case True
    have IH: "in_interval x a W (allowed limit W w' calls) \<le> budget limit a calls (mapGet w' x)"
    proof (rule Cons.IH)
      fix r assume "mapGet w' x = Some r"
      from allow_window [OF al [unfolded True] this Cons.prems(1)] Cons.prems(4) srt
      show "rw_count r \<le> limit \<and> (\<forall>c \<in> set calls. rw_startedAt r \<le> fst c)"
        by (elim disjE exE) simp_all
    qed (use Cons.prems srt in auto)
    show ?thesis
      using IH late Cons.prems srt al True
      by (cases "mapGet w x")
        (auto simp: c allow_def budget_def mapGet_mapSet split: if_splits)
  qed
qed simp

text \<open>The sockets with a window, for the gateway.\<close>

definition windows_of :: "rate_limiter \<Rightarrow> jstring \<Rightarrow> bool set" where
  "windows_of s x = {b. mapGet (if b then commandWindows s else controlEventWindows s) x \<noteq> None}"

interpretation limiter_sessions: session_store "\<lambda>_. True" windows_of releaseSocket
  by unfold_locales (auto simp: windows_of_def releaseSocket_def mapGet_mapDelete split: if_splits)

end
