(* ===== verification/Collaboration_Properties.thy ===== *)
theory Collaboration_Properties
  imports Lock_Refinement Presence_Store Rate_Limiter
begin

text \<open>
  The properties of the collaboration stores, each applied to a small run where it has hypotheses.
\<close>

section \<open>Element locks\<close>

text \<open>C16. In every state that a sequence of calls and timers leads to, each operation of the lock
  store changes the locks in force exactly as the lock table prescribes: a lock is granted when the
  element is free or already held by the same user and socket, renewed or released by the holder of
  the lease only, and taken away by disconnecting, leaving the document or removing the element.\<close>

theorem lock_store_implements_table:
  assumes "locks_reachable s" and "op_ok now s op'"
  shows "in_force now (run_op now op' s) = spec_op now op' (in_force now s)"
  using run_op_correct [OF locks_reachable_good [OF assms(1)] assms(2)] by blast

definition sample_lock :: lock_op where
  "sample_lock = Acquire (js ''l1'') (js ''d'') (js ''e'') (js ''u'') (js ''s'') 30"

definition sample_store :: lock_store where
  "sample_store = (let l = \<lparr>lk_documentId = js ''d'', lk_elementId = js ''e'', lk_userId = js ''u'',
       lk_socketId = js ''s'', lk_leaseId = js ''l1'', lk_expiresAt = 30000, lk_timer = 0\<rparr> in
     \<lparr>locksByDocument = [(js ''d'', [(js ''e'', l)])],
      lockKeysBySocket = [(js ''s'', [(lockKey (js ''d'') (js ''e''), ())])],
      st_timers = [(0, \<lparr>tm_documentId = js ''d'', tm_elementId = js ''e'', tm_due = 30000\<rparr>)],
      st_nextTimer = 1, st_events = [(js ''d'', [toPublic l])]\<rparr>)"

lemma list_locks_nothing:
  "filter (is_expired now) (documentLocks s d) = [] \<Longrightarrow> list_locks now d s = (s, map toPublic (documentLocks s d))"
  by (simp add: list_locks_def expireDocument_nothing Let_def del: filter_empty_conv)

lemma emitChange_nothing:
  "filter (is_expired now) (documentLocks s d) = [] \<Longrightarrow> emitChange now d s =
     s\<lparr>st_events := st_events s @ [(d, map toPublic (documentLocks s d))]\<rparr>"
  by (simp add: emitChange_def list_locks_nothing del: filter_empty_conv)

lemma sample_run: "run_op 0 sample_lock empty_lock_store = sample_store"
proof -
  let ?d = "js ''d''" and ?e = "js ''e''" and ?x = "js ''s''"
  let ?t = "\<lparr>tm_documentId = ?d, tm_elementId = ?e, tm_due = 30000\<rparr>"
  let ?l = "\<lparr>lk_documentId = ?d, lk_elementId = ?e, lk_userId = js ''u'', lk_socketId = ?x,
    lk_leaseId = js ''l1'', lk_expiresAt = 30000, lk_timer = 0\<rparr>"
  let ?s = "\<lparr>locksByDocument = [(?d, [(?e, ?l)])], lockKeysBySocket = [(?x, [(lockKey ?d ?e, ())])],
    st_timers = [(0, ?t)], st_nextTimer = 1, st_events = []\<rparr>"
  have "acquire 0 (js ''l1'') ?d ?e (js ''u'') ?x 30 empty_lock_store =
    (case list_locks 0 ?d (emitChange 0 ?d ?s) of (s', locks) \<Rightarrow> (s', Some (toPublic ?l, locks)))"
    unfolding acquire_def Let_def
    by (subst expireDocument_nothing, simp add: documentLocks_def empty_lock_store_def)
      (simp add: empty_lock_store_def lockAt_def createExpirationTimer_def nestedPut_def inner_def
        expireDocument_nothing documentLocks_def)
  then show ?thesis
    by (simp add: sample_lock_def emitChange_nothing list_locks_nothing is_expired_def
        documentLocks_def inner_def) (simp add: sample_store_def Let_def)
qed

lemma sample_lockAt: "lockAt sample_store (js ''d'') (js ''e'') = Some
    \<lparr>lk_documentId = js ''d'', lk_elementId = js ''e'', lk_userId = js ''u'', lk_socketId = js ''s'',
     lk_leaseId = js ''l1'', lk_expiresAt = 30000, lk_timer = 0\<rparr>"
  by (simp add: lockAt_def nestedGet_def inner_def sample_store_def Let_def)

lemma sample_ok: "op_ok 0 s sample_lock"
  by (simp add: sample_lock_def plain_id_def js_def)

lemma sample_reachable: "locks_reachable sample_store"
  unfolding sample_run [symmetric] by (intro locks_reachable.intros sample_ok)

theorem lock_store_implements_table_witness:
  "in_force 0 (run_op 0 sample_lock empty_lock_store) (js ''d'') (js ''e'') = Some
     \<lparr>el_documentId = js ''d'', el_elementId = js ''e'', el_userId = js ''u'', el_socketId = js ''s'',
      el_leaseId = js ''l1'', el_expiresAt = 30000\<rparr>"
  using lock_store_implements_table [OF locks_reachable.Start sample_ok [of empty_lock_store]]
  by (simp add: sample_lock_def granted_def spec_acquire_def put_lock_def)
    (simp add: in_force_def empty_lock_store_def lockAt_def granted_def put_lock_def)

text \<open>C17. Mutual exclusion: \<open>acquire\<close> succeeds exactly when no other user or socket holds
  a lock in force on the element, and then the caller holds it for the whole lease while every other
  lock stays as it was.\<close>

theorem acquire_is_exclusive:
  assumes "locks_reachable s" and "plain_id d" "plain_id e" "0 < ttl"
  shows "(snd (acquire now uuid d e u x ttl s) \<noteq> None \<longleftrightarrow>
      (\<forall>l. in_force now s d e = Some l \<longrightarrow> el_userId l = u \<and> el_socketId l = x))
    \<and> (\<forall>l ls. snd (acquire now uuid d e u x ttl s) = Some (l, ls) \<longrightarrow>
        in_force now (fst (acquire now uuid d e u x ttl s)) d e = Some l \<and> el_userId l = u
        \<and> el_socketId l = x \<and> el_expiresAt l = now + ttl * 1000)
    \<and> (\<forall>d' e'. (d', e') \<noteq> (d, e) \<longrightarrow>
        in_force now (fst (acquire now uuid d e u x ttl s)) d' e' = in_force now s d' e')"
proof -
  have g: "good s" by (rule locks_reachable_good [OF assms(1)])
  note a = acquire_correct [OF g assms(2-4), of now uuid u x]
  let ?T = "in_force now s"
  have own: "?T d e = Some l \<Longrightarrow> el_documentId l = d \<and> el_elementId l = e" for l
    using g lock_invD(1,2) [of s d e]
    by (cases "lockAt s d e") (auto simp: in_force_def live_def good_def split: if_splits)
  have spec: "spec_acquire now uuid d e u x ttl ?T \<noteq> None \<longleftrightarrow>
      (\<forall>l. ?T d e = Some l \<longrightarrow> el_userId l = u \<and> el_socketId l = x)"
    by (auto simp: spec_acquire_def split: option.split)
  have result: "snd (acquire now uuid d e u x ttl s) \<noteq> None \<longleftrightarrow> spec_acquire now uuid d e u x ttl ?T \<noteq> None"
    unfolding a(3) [symmetric] by simp
  have granted_at: "granted (Some l) ?T d' e' = (if d' = d \<and> e' = e then Some l else ?T d' e')"
    "el_userId l = u" "el_socketId l = x" "el_expiresAt l = now + ttl * 1000"
    if l: "spec_acquire now uuid d e u x ttl ?T = Some l" for l d' e'
  proof -
    have f: "el_documentId l = d \<and> el_elementId l = e \<and> el_userId l = u \<and> el_socketId l = x
      \<and> el_expiresAt l = now + ttl * 1000"
    proof (cases "?T d e")
      case None
      with l show ?thesis by (auto simp: spec_acquire_def)
    next
      case (Some l')
      with l have "el_userId l' = u" "el_socketId l' = x" "l = l'\<lparr>el_expiresAt := now + ttl * 1000\<rparr>"
        by (auto simp: spec_acquire_def split: if_splits)
      with own [OF Some] show ?thesis by simp
    qed
    then show "granted (Some l) ?T d' e' = (if d' = d \<and> e' = e then Some l else ?T d' e')"
      by (simp add: granted_def put_lock_def)
    show "el_userId l = u" "el_socketId l = x" "el_expiresAt l = now + ttl * 1000" using f by simp_all
  qed
  show ?thesis
  proof (intro conjI allI impI)
    show "snd (acquire now uuid d e u x ttl s) \<noteq> None \<longleftrightarrow>
      (\<forall>l. ?T d e = Some l \<longrightarrow> el_userId l = u \<and> el_socketId l = x)" using result spec by simp
  next
    fix l ls assume "snd (acquire now uuid d e u x ttl s) = Some (l, ls)"
    with a(3) have l: "spec_acquire now uuid d e u x ttl ?T = Some l" by simp
    show "in_force now (fst (acquire now uuid d e u x ttl s)) d e = Some l" "el_userId l = u"
      "el_socketId l = x" "el_expiresAt l = now + ttl * 1000"
      using a(2) l granted_at(1) [OF l, of d e] granted_at(2-4) [OF l] by simp_all
  next
    fix d' e' assume "(d', e') \<noteq> (d, e)"
    then show "in_force now (fst (acquire now uuid d e u x ttl s)) d' e' = ?T d' e'"
      unfolding a(2) using granted_at(1) by (cases "spec_acquire now uuid d e u x ttl ?T") (auto simp: granted_def)
  qed
qed

theorem acquire_is_exclusive_witness:
  "snd (acquire 0 (js ''l2'') (js ''d'') (js ''e'') (js ''v'') (js ''t'') 30 sample_store) = None"
proof -
  have "in_force 0 sample_store (js ''d'') (js ''e'') = Some
      \<lparr>el_documentId = js ''d'', el_elementId = js ''e'', el_userId = js ''u'', el_socketId = js ''s'',
       el_leaseId = js ''l1'', el_expiresAt = 30000\<rparr>"
    by (simp add: in_force_def sample_lockAt live_def is_expired_def toPublic_def)
  moreover have "plain_id (js ''d'')" "plain_id (js ''e'')" by (simp_all add: plain_id_def js_def)
  note acquire_is_exclusive [OF sample_reachable this, of 30 0 "js ''l2''" "js ''v''" "js ''t''"]
  ultimately show ?thesis by (auto simp flip: not_Some_eq)
qed

text \<open>The lock list that was broadcast last for a document is the list of the locks the store
  holds for it, after every operation: who follows the broadcasts is never behind.\<close>

theorem lock_broadcasts_are_current:
  assumes "locks_reachable s"
  shows "last_event (st_events s) d = map toPublic (documentLocks s d)"
  using locks_reachable_good [OF assms] by (simp add: good_def announced_except_def shown_def)

theorem lock_broadcasts_are_current_witness:
  "last_event (st_events sample_store) (js ''d'') = [
     \<lparr>el_documentId = js ''d'', el_elementId = js ''e'', el_userId = js ''u'', el_socketId = js ''s'',
      el_leaseId = js ''l1'', el_expiresAt = 30000\<rparr>]"
  using lock_broadcasts_are_current [OF sample_reachable, of "js ''d''"]
  by (simp add: documentLocks_def inner_def toPublic_def) (simp add: sample_store_def Let_def toPublic_def)

text \<open>C18. No lock outlives its lease: each stored lock has a pending timer that is due when the lock
  expires, and the timer removes the lock whenever it fires, then or later.\<close>

theorem locks_expire:
  assumes "locks_reachable s" and "lockAt s d e = Some l"
  shows "\<exists>i t. mapGet (st_timers s) i = Some t \<and> tm_due t = lk_expiresAt l
    \<and> (\<forall>now \<ge> tm_due t. lockAt (timerFires now i s) d e = None)"
proof -
  have g: "good s" and inv: "lock_inv s" using locks_reachable_good [OF assms(1)] by (simp_all add: good_def)
  let ?t = "\<lparr>tm_documentId = d, tm_elementId = e, tm_due = lk_expiresAt l\<rparr>"
  have t: "mapGet (st_timers s) (lk_timer l) = Some ?t" by (rule lock_invD(5) [OF inv assms(2)])
  have "lockAt (timerFires now (lk_timer l) s) d e = None" if "tm_due ?t \<le> now" for now
    using timer_removes [OF g t that] assms(2) lock_inv_remove [OF inv assms(2)]
    by (auto simp: lockAt_emitChange lockAt_remove [OF inv assms(2)])
  with t show ?thesis by force
qed

theorem locks_expire_witness:
  "\<exists>i t. mapGet (st_timers sample_store) i = Some t \<and> tm_due t = 30000
    \<and> (\<forall>now \<ge> tm_due t. lockAt (timerFires now i sample_store) (js ''d'') (js ''e'') = None)"
  using locks_expire [OF sample_reachable sample_lockAt] by simp

section \<open>Disconnecting\<close>

text \<open>The synchronous part of \<open>handleDisconnect\<close> of the gateway on the three stores.\<close>

record socket_stores =
  ss_presence :: presence_store
  ss_locks :: lock_store
  ss_limiter :: rate_limiter

definition handleDisconnect :: "int \<Rightarrow> jstring \<Rightarrow> socket_stores \<Rightarrow> socket_stores" where
  "handleDisconnect now x s = \<lparr>ss_presence = fst (leaveBySocket x (ss_presence s)),
     ss_locks = releaseBySocket now x (ss_locks s), ss_limiter = releaseSocket x (ss_limiter s)\<rparr>"

text \<open>When sockets disconnect, in whatever order, nothing of them stays behind: no document
  membership, no lock in force and no rate window, while what the other sockets have is untouched.\<close>

theorem disconnect_leaves_nothing:
  assumes "presence_reachable M (ss_presence s)" and "locks_reachable (ss_locks s)"
  shows "let s' = fold (handleDisconnect now) xs s in
    documents_of (ss_presence s') y = (if y \<in> set xs then {} else documents_of (ss_presence s) y)
    \<and> locks_of now (ss_locks s') y = (if y \<in> set xs then {} else locks_of now (ss_locks s) y)
    \<and> windows_of (ss_limiter s') y = (if y \<in> set xs then {} else windows_of (ss_limiter s) y)"
proof -
  have parts: "ss_presence (fold (handleDisconnect now) xs s) = fold (\<lambda>x p. fst (leaveBySocket x p)) xs (ss_presence s)"
    "ss_locks (fold (handleDisconnect now) xs s) = fold (releaseBySocket now) xs (ss_locks s)"
    "ss_limiter (fold (handleDisconnect now) xs s) = fold releaseSocket xs (ss_limiter s)" for s
    by (induction xs arbitrary: s) (simp_all add: handleDisconnect_def)
  show ?thesis
    unfolding Let_def parts
    using presence_sessions.drop_many_owned [OF presence_reachable_good [OF assms(1)]]
      lock_sessions.drop_many_owned [OF locks_reachable_good [OF assms(2)]]
      limiter_sessions.drop_many_owned [OF TrueI]
    by simp
qed

theorem disconnect_leaves_nothing_witness:
  "locks_of 5 (ss_locks (handleDisconnect 5 (js ''s'') \<lparr>ss_presence = empty_presence_store,
     ss_locks = sample_store,
     ss_limiter = \<lparr>commandWindows = [], controlEventWindows = []\<rparr>\<rparr>)) (js ''s'') = {}"
proof -
  let ?s = "\<lparr>ss_presence = empty_presence_store, ss_locks = sample_store,
     ss_limiter = \<lparr>commandWindows = [], controlEventWindows = []\<rparr>\<rparr>"
  have "presence_reachable 5 (ss_presence ?s)" "locks_reachable (ss_locks ?s)"
    by (simp_all add: presence_reachable.Start sample_reachable)
  from disconnect_leaves_nothing [OF this, of 5 "[js ''s'']" "js ''s''"] show ?thesis by (simp add: Let_def)
qed

end
