(* ===== verification/Mutation_Queue.thy ===== *)
theory Mutation_Queue
  imports Indexed_Maps
begin

text \<open>
  The queue that runs the mutations of a document one after the other,
  src/src/modules/uml-domain/document-mutation-queue.service.ts. A call of \<open>enqueue\<close> chains a
  promise to the tail of its document and waits for the previous tail; the promises are numbered in the
  order of the calls. The event loop runs three kinds of steps: a tail settles once its operation has
  released it and the tail before it has settled, an operation starts once the tail before it has
  settled, and an operation ends (with a result or an exception: the \<open>finally\<close> block runs in
  both cases).
\<close>

section \<open>State\<close>

datatype op_status = Waiting | Running | Ended

datatype priority = Standard | Critical

record queued_operation =
  qo_document :: jstring
  qo_previous :: "nat option"
  qo_status :: op_status
  qo_settled :: bool

record mutation_queue =
  q_tails :: "(jstring, nat) jmap"
  q_pendingByDocument :: "(jstring, nat) jmap"
  q_operations :: "queued_operation list"

definition empty_queue :: mutation_queue where
  "empty_queue = \<lparr>q_tails = [], q_pendingByDocument = [], q_operations = []\<rparr>"

definition pendingOf :: "mutation_queue \<Rightarrow> jstring \<Rightarrow> nat" where
  "pendingOf q d = (case mapGet (q_pendingByDocument q) d of None \<Rightarrow> 0 | Some n \<Rightarrow> n)"

section \<open>Steps\<close>

text \<open>The part of \<open>enqueue\<close> before the first \<open>await\<close>; \<open>None\<close> is
  \<open>DocumentMutationQueueOverloadedError\<close>.\<close>

definition enqueue :: "nat \<Rightarrow> jstring \<Rightarrow> priority \<Rightarrow> mutation_queue \<Rightarrow> mutation_queue option" where
  "enqueue capacity d priority q =
     (let pending = pendingOf q d; standardCapacity = max 1 (capacity - 1)
      in if (priority = Standard \<and> standardCapacity \<le> pending) \<or> (priority = Critical \<and> capacity \<le> pending)
         then None
         else Some \<lparr>q_tails = mapSet d (length (q_operations q)) (q_tails q),
                    q_pendingByDocument = mapSet d (pending + 1) (q_pendingByDocument q),
                    q_operations = q_operations q @ [\<lparr>qo_document = d,
                      qo_previous = mapGet (q_tails q) d, qo_status = Waiting, qo_settled = False\<rparr>]\<rparr>)"

definition previous_settled :: "mutation_queue \<Rightarrow> nat \<Rightarrow> bool" where
  "previous_settled q i = (case qo_previous (q_operations q ! i) of
     None \<Rightarrow> True | Some p \<Rightarrow> qo_settled (q_operations q ! p))"

definition set_operation :: "nat \<Rightarrow> queued_operation \<Rightarrow> mutation_queue \<Rightarrow> mutation_queue" where
  "set_operation i x q = q\<lparr>q_operations := (q_operations q)[i := x]\<rparr>"

text \<open>\<open>await previous\<close> returns and the operation is called.\<close>

definition start :: "nat \<Rightarrow> mutation_queue \<Rightarrow> mutation_queue" where
  "start i q = set_operation i ((q_operations q ! i)\<lparr>qo_status := Running\<rparr>) q"

text \<open>The \<open>finally\<close> block.\<close>

definition finish :: "nat \<Rightarrow> mutation_queue \<Rightarrow> mutation_queue" where
  "finish i q =
     (let d = qo_document (q_operations q ! i);
          remaining = (case mapGet (q_pendingByDocument q) d of None \<Rightarrow> 1 | Some n \<Rightarrow> int n) - 1;
          q1 = set_operation i ((q_operations q ! i)\<lparr>qo_status := Ended\<rparr>) q
      in q1\<lparr>q_tails := (if mapGet (q_tails q) d = Some i then mapDelete d (q_tails q) else q_tails q),
            q_pendingByDocument :=
              (if 0 < remaining then mapSet d (nat remaining) (q_pendingByDocument q)
               else mapDelete d (q_pendingByDocument q))\<rparr>)"

text \<open>\<open>previous.catch(() => undefined).then(() => current)\<close> resolves.\<close>

definition settle :: "nat \<Rightarrow> mutation_queue \<Rightarrow> mutation_queue" where
  "settle i q = set_operation i ((q_operations q ! i)\<lparr>qo_settled := True\<rparr>) q"

definition shutdownQueue :: "mutation_queue \<Rightarrow> mutation_queue" where
  "shutdownQueue q = q\<lparr>q_tails := [], q_pendingByDocument := []\<rparr>"

inductive queue_step :: "nat \<Rightarrow> mutation_queue \<Rightarrow> mutation_queue \<Rightarrow> bool" for capacity where
  Enqueue: "enqueue capacity d p q = Some q' \<Longrightarrow> queue_step capacity q q'"
| Start: "i < length (q_operations q) \<Longrightarrow> qo_status (q_operations q ! i) = Waiting \<Longrightarrow>
    previous_settled q i \<Longrightarrow> queue_step capacity q (start i q)"
| Finish: "i < length (q_operations q) \<Longrightarrow> qo_status (q_operations q ! i) = Running \<Longrightarrow>
    queue_step capacity q (finish i q)"
| Settle: "i < length (q_operations q) \<Longrightarrow> qo_status (q_operations q ! i) = Ended \<Longrightarrow>
    \<not> qo_settled (q_operations q ! i) \<Longrightarrow> previous_settled q i \<Longrightarrow> queue_step capacity q (settle i q)"

inductive_cases queue_stepE: "queue_step capacity q q'"

inductive queue_reachable :: "nat \<Rightarrow> mutation_queue \<Rightarrow> bool" for capacity where
  Empty: "queue_reachable capacity empty_queue"
| Step: "queue_reachable capacity q \<Longrightarrow> queue_step capacity q q' \<Longrightarrow> queue_reachable capacity q'"

section \<open>Invariant\<close>

abbreviation op_at :: "mutation_queue \<Rightarrow> nat \<Rightarrow> queued_operation" where
  "op_at q i \<equiv> q_operations q ! i"

text \<open>The operations of a document, in the order of their calls, and those not over yet.\<close>

definition ops_of :: "mutation_queue \<Rightarrow> jstring \<Rightarrow> nat set" where
  "ops_of q d = {i. i < length (q_operations q) \<and> qo_document (op_at q i) = d}"

definition open_ops :: "mutation_queue \<Rightarrow> jstring \<Rightarrow> nat set" where
  "open_ops q d = {i \<in> ops_of q d. qo_status (op_at q i) \<noteq> Ended}"

definition all_ended_before :: "mutation_queue \<Rightarrow> nat \<Rightarrow> bool" where
  "all_ended_before q i \<longleftrightarrow>
     (\<forall>j \<in> ops_of q (qo_document (op_at q i)). j < i \<longrightarrow> qo_status (op_at q j) = Ended)"

definition chained :: "mutation_queue \<Rightarrow> nat \<Rightarrow> bool" where
  "chained q i \<longleftrightarrow> (case qo_previous (op_at q i) of
      None \<Rightarrow> all_ended_before q i
    | Some p \<Rightarrow> p < i \<and> qo_document (op_at q p) = qo_document (op_at q i)
        \<and> (\<forall>j \<in> ops_of q (qo_document (op_at q i)). j < i \<longrightarrow> j \<le> p))"

definition op_inv :: "mutation_queue \<Rightarrow> nat \<Rightarrow> bool" where
  "op_inv q i \<longleftrightarrow> chained q i
     \<and> (qo_settled (op_at q i) \<longrightarrow> qo_status (op_at q i) = Ended)
     \<and> (qo_status (op_at q i) \<noteq> Waiting \<longrightarrow> all_ended_before q i)"

definition tail_inv :: "mutation_queue \<Rightarrow> jstring \<Rightarrow> bool" where
  "tail_inv q d \<longleftrightarrow> (case mapGet (q_tails q) d of
      None \<Rightarrow> open_ops q d = {}
    | Some t \<Rightarrow> t \<in> open_ops q d \<and> (\<forall>j \<in> ops_of q d. j \<le> t))"

definition pending_inv :: "nat \<Rightarrow> mutation_queue \<Rightarrow> jstring \<Rightarrow> bool" where
  "pending_inv capacity q d \<longleftrightarrow> pendingOf q d = card (open_ops q d)
     \<and> (mapGet (q_pendingByDocument q) d = None \<longleftrightarrow> open_ops q d = {})
     \<and> pendingOf q d \<le> max 1 capacity"

definition queue_inv :: "nat \<Rightarrow> mutation_queue \<Rightarrow> bool" where
  "queue_inv capacity q \<longleftrightarrow> (\<forall>i < length (q_operations q). op_inv q i)
     \<and> (\<forall>d. tail_inv q d \<and> pending_inv capacity q d)"

lemma queue_inv_empty: "queue_inv capacity empty_queue"
  by (simp add: queue_inv_def empty_queue_def tail_inv_def pending_inv_def open_ops_def ops_of_def pendingOf_def)

lemma finite_open_ops [simp]: "finite (open_ops q d)"
  by (simp add: open_ops_def ops_of_def)

text \<open>Once the tail before it has settled, everything before an operation is over.\<close>

lemma previous_settled_ended:
  assumes "queue_inv capacity q" "i < length (q_operations q)" "previous_settled q i"
  shows "all_ended_before q i"
proof (cases "qo_previous (op_at q i)")
  case None
  with assms show ?thesis by (auto simp: queue_inv_def op_inv_def chained_def)
next
  case (Some p)
  let ?d = "qo_document (op_at q i)"
  from Some assms have p: "p < i" "qo_document (op_at q p) = ?d" "\<forall>j \<in> ops_of q ?d. j < i \<longrightarrow> j \<le> p"
    by (auto simp: queue_inv_def op_inv_def chained_def)
  have "qo_settled (op_at q p)" using assms(3) Some by (simp add: previous_settled_def)
  with p(1) assms(1,2) have "qo_status (op_at q p) = Ended" "all_ended_before q p"
    by (auto simp: queue_inv_def op_inv_def)
  with p show ?thesis unfolding all_ended_before_def by (metis order_le_less)
qed

text \<open>A step that changes only one operation, keeping its document and its place in the chain.\<close>

lemma set_operation_sel [simp]:
  "length (q_operations (set_operation i x q)) = length (q_operations q)"
  "q_tails (set_operation i x q) = q_tails q"
  "q_pendingByDocument (set_operation i x q) = q_pendingByDocument q"
  by (simp_all add: set_operation_def)

lemma op_at_set_operation:
  "i < length (q_operations q) \<Longrightarrow> op_at (set_operation i x q) j = (if j = i then x else op_at q j)"
  by (simp add: set_operation_def)

lemma ops_of_set_operation:
  "i < length (q_operations q) \<Longrightarrow> qo_document x = qo_document (op_at q i) \<Longrightarrow>
     ops_of (set_operation i x q) d = ops_of q d"
  by (auto simp: ops_of_def op_at_set_operation)

lemma op_inv_set_operation:
  assumes "op_inv q j" "i < length (q_operations q)" "j < length (q_operations q)"
    and "qo_document x = qo_document (op_at q i)" "qo_previous x = qo_previous (op_at q i)"
    and "qo_status (op_at q i) = Ended \<longrightarrow> qo_status x = Ended"
    and "qo_settled x \<longrightarrow> qo_status x = Ended"
    and "qo_status x \<noteq> Waiting \<longrightarrow> all_ended_before q i"
  shows "op_inv (set_operation i x q) j"
proof -
  let ?q = "set_operation i x q"
  note at = op_at_set_operation [OF assms(2), of x] and ops = ops_of_set_operation [OF assms(2,4)]
  have doc: "qo_document (op_at ?q k) = qo_document (op_at q k)"
    and prev: "qo_previous (op_at ?q k) = qo_previous (op_at q k)"
    and ended: "qo_status (op_at q k) = Ended \<Longrightarrow> qo_status (op_at ?q k) = Ended" for k
    using assms(4-6) by (auto simp: at)
  have before: "all_ended_before q k \<Longrightarrow> all_ended_before ?q k" for k
    by (auto simp: all_ended_before_def doc ops ended)
  have "chained ?q j"
    using assms(1) before by (auto simp: op_inv_def chained_def doc prev ops split: option.splits)
  then show ?thesis
    using assms(1,7,8) before by (auto simp: op_inv_def at)
qed

lemma open_ops_set_operation:
  assumes "i < length (q_operations q)" "qo_document x = qo_document (op_at q i)"
  shows "open_ops (set_operation i x q) d =
    (if qo_status x = Ended then open_ops q d - {i}
     else if qo_document x = d then insert i (open_ops q d) else open_ops q d)"
  using assms by (auto simp: open_ops_def ops_of_set_operation op_at_set_operation)
    (auto simp: ops_of_def)

lemma queue_inv_same_open:
  assumes inv: "queue_inv capacity q" and i: "i < length (q_operations q)"
    and x: "qo_document x = qo_document (op_at q i)" "qo_previous x = qo_previous (op_at q i)"
    and st: "qo_status x = Ended \<longleftrightarrow> qo_status (op_at q i) = Ended"
    and settled: "qo_settled x \<longrightarrow> qo_status x = Ended"
    and before: "qo_status x \<noteq> Waiting \<longrightarrow> all_ended_before q i"
  shows "queue_inv capacity (set_operation i x q)"
proof -
  have "op_inv (set_operation i x q) j" if "j < length (q_operations q)" for j
    using op_inv_set_operation [OF _ i that x _ settled before] inv that st by (simp add: queue_inv_def)
  moreover have "open_ops (set_operation i x q) d = open_ops q d" for d
    using st i x(1) by (auto simp: open_ops_set_operation) (auto simp: open_ops_def ops_of_def)
  moreover from this have "tail_inv (set_operation i x q) d = tail_inv q d"
    "pending_inv capacity (set_operation i x q) d = pending_inv capacity q d" for d
    by (simp_all add: tail_inv_def pending_inv_def pendingOf_def ops_of_set_operation [OF i x(1)]
        cong: option.case_cong)
  ultimately show ?thesis using inv by (simp add: queue_inv_def)
qed

section \<open>Every step keeps the invariant\<close>

lemma same_operations:
  assumes "q_operations q = q_operations q'"
  shows "ops_of q d = ops_of q' d" "open_ops q d = open_ops q' d" "op_inv q i = op_inv q' i"
proof -
  show o: "ops_of q d = ops_of q' d" for d by (simp add: ops_of_def assms)
  show "open_ops q d = open_ops q' d" by (simp add: open_ops_def o assms)
  have b: "all_ended_before q i = all_ended_before q' i" for i by (simp add: all_ended_before_def o assms)
  show "op_inv q i = op_inv q' i" by (simp add: op_inv_def chained_def b o assms cong: option.case_cong)
qed

lemma start_inv:
  assumes "queue_inv capacity q" "i < length (q_operations q)" "qo_status (op_at q i) = Waiting"
    "previous_settled q i"
  shows "queue_inv capacity (start i q)"
  unfolding start_def
proof (rule queue_inv_same_open)
  show "qo_status ((op_at q i)\<lparr>qo_status := Running\<rparr>) \<noteq> Waiting \<longrightarrow> all_ended_before q i"
    using previous_settled_ended [OF assms(1,2,4)] by simp
  have "\<not> qo_settled (op_at q i)"
    using assms by (auto simp: queue_inv_def op_inv_def)
  then show "qo_settled ((op_at q i)\<lparr>qo_status := Running\<rparr>) \<longrightarrow> qo_status ((op_at q i)\<lparr>qo_status := Running\<rparr>) = Ended"
    by simp
qed (use assms in simp_all)

lemma settle_inv:
  assumes "queue_inv capacity q" "i < length (q_operations q)" "qo_status (op_at q i) = Ended"
  shows "queue_inv capacity (settle i q)"
  unfolding settle_def
proof (rule queue_inv_same_open)
  show "qo_status ((op_at q i)\<lparr>qo_settled := True\<rparr>) \<noteq> Waiting \<longrightarrow> all_ended_before q i"
    using assms by (auto simp: queue_inv_def op_inv_def)
qed (use assms in simp_all)

lemma finish_inv:
  assumes inv: "queue_inv capacity q" and i: "i < length (q_operations q)"
    and running: "qo_status (op_at q i) = Running"
  shows "queue_inv capacity (finish i q)"
proof -
  let ?d = "qo_document (op_at q i)" and ?x = "(op_at q i)\<lparr>qo_status := Ended\<rparr>" and ?q = "finish i q"
  let ?q1 = "set_operation i ?x q"
  have ops: "q_operations ?q = q_operations ?q1" by (simp add: finish_def Let_def)
  have before: "all_ended_before q i" using inv i running by (auto simp: queue_inv_def op_inv_def)
  have op1: "op_inv ?q1 j" if "j < length (q_operations q)" for j
    using op_inv_set_operation [OF _ i that, of ?x] inv that before by (simp add: queue_inv_def)
  note same = same_operations [OF ops]
  have ops1: "ops_of ?q1 d = ops_of q d" for d by (rule ops_of_set_operation [OF i]) simp
  have open1: "open_ops ?q1 d = open_ops q d - {i}" for d
    by (simp add: open_ops_set_operation [OF i])
  have mem: "i \<in> open_ops q d \<longleftrightarrow> d = ?d" for d using i running by (auto simp: open_ops_def ops_of_def)
  have tail: "tail_inv ?q d" for d
  proof -
    have t: "mapGet (q_tails ?q) d = (if mapGet (q_tails q) d = Some i \<and> d = ?d then None else mapGet (q_tails q) d)"
      by (auto simp: finish_def Let_def mapGet_mapDelete)
    have inv_d: "tail_inv q d" using inv by (simp add: queue_inv_def)
    show ?thesis
    proof (cases "mapGet (q_tails q) d")
      case None
      with inv_d show ?thesis by (simp add: tail_inv_def t same open1)
    next
      case (Some k)
      with inv_d have k: "k \<in> open_ops q d" "\<forall>j \<in> ops_of q d. j \<le> k" by (simp_all add: tail_inv_def)
      show ?thesis
      proof (cases "k = i")
        case True
        with k mem [of d] have d: "d = ?d" by simp
        have "j = i" if "j \<in> open_ops q d" for j
        proof (rule ccontr)
          assume "j \<noteq> i"
          with that k(2) True have "j < i" by (auto simp: open_ops_def)
          with that before d show False by (auto simp: open_ops_def all_ended_before_def)
        qed
        then have "open_ops q d - {i} = {}" by blast
        moreover have "mapGet (q_tails ?q) d = None" using t Some True d by simp
        ultimately show ?thesis by (simp add: tail_inv_def same open1)
      next
        case False
        with Some k show ?thesis by (simp add: tail_inv_def t same open1 ops1)
      qed
    qed
  qed
  have pending: "pending_inv capacity ?q d" for d
  proof (cases "d = ?d")
    case True
    have p: "pending_inv capacity q d" using inv by (simp add: queue_inv_def)
    with mem [of d] True obtain n where n: "mapGet (q_pendingByDocument q) d = Some n"
      "n = card (open_ops q d)" "i \<in> open_ops q d" "n \<le> max 1 capacity"
      by (auto simp: pending_inv_def pendingOf_def)
    then have "0 < n" by (metis card_gt_0_iff empty_iff finite_open_ops)
    then have g: "mapGet (q_pendingByDocument ?q) d = (if n = 1 then None else Some (n - 1))"
      using True n(1) by (auto simp: finish_def Let_def mapGet_mapSet mapGet_mapDelete)
    have c: "card (open_ops q d - {i}) = n - 1" using n(2,3) by simp
    moreover have "open_ops q d - {i} = {} \<longleftrightarrow> card (open_ops q d - {i}) = 0" by simp
    ultimately have "open_ops q d - {i} = {} \<longleftrightarrow> n = 1" using \<open>0 < n\<close> by auto
    with g c n(4) \<open>0 < n\<close> show ?thesis by (auto simp: pending_inv_def pendingOf_def same open1)
  next
    case False
    have p: "pending_inv capacity q d" using inv by (simp add: queue_inv_def)
    have "mapGet (q_pendingByDocument ?q) d = mapGet (q_pendingByDocument q) d"
      using False by (simp add: finish_def Let_def mapGet_mapSet mapGet_mapDelete)
    moreover have "open_ops q d - {i} = open_ops q d" using mem [of d] False by simp
    ultimately show ?thesis using p by (simp add: pending_inv_def pendingOf_def same open1)
  qed
  from op1 tail pending same show ?thesis by (simp add: queue_inv_def ops)
qed

lemma enqueue_inv:
  assumes inv: "queue_inv capacity q" and e: "enqueue capacity d p q = Some q'"
  shows "queue_inv capacity q'"
proof -
  let ?n = "length (q_operations q)"
  have q': "q_tails q' = mapSet d ?n (q_tails q)"
    "q_pendingByDocument q' = mapSet d (pendingOf q d + 1) (q_pendingByDocument q)"
    "q_operations q' = q_operations q @ [\<lparr>qo_document = d,
       qo_previous = mapGet (q_tails q) d, qo_status = Waiting, qo_settled = False\<rparr>]"
    "pendingOf q d < max 1 capacity"
    using e by (cases p; auto simp: enqueue_def Let_def split: if_splits)+
  have old: "op_at q' j = op_at q j" if "j < ?n" for j using that by (simp add: q' nth_append)
  have new: "op_at q' ?n = \<lparr>qo_document = d, qo_previous = mapGet (q_tails q) d, qo_status = Waiting,
    qo_settled = False\<rparr>" by (simp add: q')
  have ops: "ops_of q' d' = (if d' = d then insert ?n (ops_of q d') else ops_of q d')" for d'
    by (auto simp: ops_of_def q' nth_append less_Suc_eq)
  have opens: "open_ops q' d' = (if d' = d then insert ?n (open_ops q d') else open_ops q d')" for d'
    by (auto simp: open_ops_def ops old new) (auto simp: ops_of_def old)
  have less: "j \<in> ops_of q d' \<Longrightarrow> j < ?n" for j d' by (simp add: ops_of_def)
  have before: "all_ended_before q' j = all_ended_before q j" if "j < ?n" for j
    using that less by (auto simp: all_ended_before_def ops old)
  have "op_inv q' j" if "j < Suc ?n" for j
  proof (cases "j = ?n")
    case True
    have "tail_inv q d" using inv by (simp add: queue_inv_def)
    then have "chained q' ?n"
      using less by (auto simp: tail_inv_def chained_def all_ended_before_def new ops old open_ops_def
          split: option.splits) (auto simp: ops_of_def old)
    with True show ?thesis by (simp add: op_inv_def new)
  next
    case False
    with that have j: "j < ?n" by simp
    have "chained q' j = chained q j"
      using j less by (auto simp: chained_def old before ops split: option.split)
    with j inv before show ?thesis by (simp add: op_inv_def old queue_inv_def)
  qed
  moreover have "tail_inv q' d'" for d'
  proof -
    have "tail_inv q d'" using inv by (simp add: queue_inv_def)
    then show ?thesis using less by (cases "d' = d")
        (auto simp: tail_inv_def q'(1) mapGet_mapSet opens ops intro: less_imp_le split: option.splits)
  qed
  moreover have "pending_inv capacity q' d'" for d'
  proof -
    have "pending_inv capacity q d'" using inv by (simp add: queue_inv_def)
    moreover have "?n \<notin> open_ops q d" using less by (auto simp: open_ops_def)
    ultimately show ?thesis using q'(4)
      by (auto simp: pending_inv_def pendingOf_def q'(2) mapGet_mapSet opens)
  qed
  ultimately show ?thesis by (simp add: queue_inv_def q'(3))
qed

lemma queue_step_inv: "queue_step capacity q q' \<Longrightarrow> queue_inv capacity q \<Longrightarrow> queue_inv capacity q'"
  by (induction rule: queue_step.induct) (auto intro: enqueue_inv start_inv finish_inv settle_inv)

lemma queue_reachable_inv: "queue_reachable capacity q \<Longrightarrow> queue_inv capacity q"
  by (induction rule: queue_reachable.induct) (auto intro: queue_inv_empty queue_step_inv)

text \<open>Somebody can always move: the earliest operation of a document that is not over is running, or
  it waits for a tail that can settle, or it can start.\<close>

lemma settle_chain:
  assumes "queue_inv capacity q" "i < length (q_operations q)" "all_ended_before q i"
    and "qo_status (op_at q i) = Waiting" and "\<not> previous_settled q i"
  shows "\<exists>j \<in> ops_of q (qo_document (op_at q i)). j < i \<and> queue_step capacity q (settle j q)"
proof -
  have "\<exists>j \<in> ops_of q (qo_document (op_at q i)). j < i \<and> qo_status (op_at q j) = Ended
      \<and> \<not> qo_settled (op_at q j) \<and> previous_settled q j"
    if "i < length (q_operations q)" "all_ended_before q i" "\<not> previous_settled q i" for i
    using that
  proof (induction i rule: less_induct)
    case (less i)
    then obtain p where p: "qo_previous (op_at q i) = Some p" "\<not> qo_settled (op_at q p)"
      by (auto simp: previous_settled_def split: option.splits)
    with assms(1) less.prems(1) have "p < i" "qo_document (op_at q p) = qo_document (op_at q i)"
      by (auto simp: queue_inv_def op_inv_def chained_def)
    with less.prems have in_ops: "p \<in> ops_of q (qo_document (op_at q i))" and before: "all_ended_before q p"
      by (auto simp: ops_of_def all_ended_before_def)
    with less.prems \<open>p < i\<close> have ended: "qo_status (op_at q p) = Ended" by (auto simp: all_ended_before_def)
    show ?case
    proof (cases "previous_settled q p")
      case True
      with p ended in_ops \<open>p < i\<close> show ?thesis by blast
    next
      case False
      from less.IH [OF \<open>p < i\<close> _ before False] \<open>p < i\<close> less.prems(1)
        \<open>qo_document (op_at q p) = qo_document (op_at q i)\<close>
      show ?thesis by (metis less_trans)
    qed
  qed
  with assms obtain j where "j \<in> ops_of q (qo_document (op_at q i))" "j < i" "qo_status (op_at q j) = Ended"
    "\<not> qo_settled (op_at q j)" "previous_settled q j" by blast
  then show ?thesis by (intro bexI [of _ j]) (auto simp: ops_of_def intro: queue_step.Settle)
qed

end
