(* ===== verification/Export_Quota.thy ===== *)
theory Export_Quota
  imports Indexed_Maps
begin

text \<open>
  The quota of Spring Boot exports, src/src/modules/uml-domain/spring-boot-export-quota.service.ts: at
  most five exports of an actor in any minute, at most two exports at a time and at most ten thousand
  actors remembered. The closure that \<open>acquire\<close> returns is the index of its flag
  \<open>released\<close>. The ghost field \<open>eq_history\<close> keeps every accepted request, with its
  time; no operation reads it.
\<close>

definition actorLimit :: nat where "actorLimit = 5"
definition actorWindowMs :: int where "actorWindowMs = 60000"
definition maxConcurrentExports :: nat where "maxConcurrentExports = 2"
definition maxTrackedActors :: nat where "maxTrackedActors = 10000"

datatype quota_error = RateLimitExceeded | ConcurrencyLimitExceeded | TrackingCapacityReached

record export_quota =
  eq_actorRequests :: "(jstring, int list) jmap"
  eq_activeExports :: nat
  eq_released :: "bool list"
  eq_history :: "(jstring \<times> int) list"

definition empty_quota :: export_quota where
  "empty_quota = \<lparr>eq_actorRequests = [], eq_activeExports = 0, eq_released = [], eq_history = []\<rparr>"

text \<open>\<open>for (const [actorId, requests] of this.actorRequests)\<close>: the entry that is visited is
  deleted or replaced, so the loop sees every entry of the map once.\<close>

definition prune_entry :: "int \<Rightarrow> jstring \<times> int list \<Rightarrow> (jstring, int list) jmap \<Rightarrow> (jstring, int list) jmap" where
  "prune_entry windowStart entry m = (case entry of (actorId, requests) \<Rightarrow>
     (let activeRequests = filter (\<lambda>t. windowStart < t) requests
      in if activeRequests = [] then mapDelete actorId m
         else if length activeRequests \<noteq> length requests then mapSet actorId activeRequests m
         else m))"

definition pruneExpiredActorRequests :: "int \<Rightarrow> (jstring, int list) jmap \<Rightarrow> (jstring, int list) jmap" where
  "pruneExpiredActorRequests now m = fold (prune_entry (now - actorWindowMs)) m m"

definition acquire :: "int \<Rightarrow> jstring \<Rightarrow> export_quota \<Rightarrow> export_quota \<times> (quota_error + nat)" where
  "acquire now actorId s =
     (let pruned = pruneExpiredActorRequests now (eq_actorRequests s);
          s0 = s\<lparr>eq_actorRequests := pruned\<rparr>;
          requests = (case mapGet pruned actorId of None \<Rightarrow> [] | Some r \<Rightarrow> r)
      in if actorLimit \<le> length requests then (s0, Inl RateLimitExceeded)
         else if maxConcurrentExports \<le> eq_activeExports s0 then (s0, Inl ConcurrencyLimitExceeded)
         else if mapGet pruned actorId = None \<and> maxTrackedActors \<le> length pruned
         then (s0, Inl TrackingCapacityReached)
         else (s0\<lparr>eq_actorRequests := mapSet actorId (requests @ [now]) pruned,
                  eq_activeExports := eq_activeExports s0 + 1,
                  eq_released := eq_released s0 @ [False],
                  eq_history := eq_history s0 @ [(actorId, now)]\<rparr>,
               Inr (length (eq_released s0))))"

text \<open>Calling the closure.\<close>

definition release :: "nat \<Rightarrow> export_quota \<Rightarrow> export_quota" where
  "release i s = (if eq_released s ! i then s
     else s\<lparr>eq_released := (eq_released s)[i := True], eq_activeExports := eq_activeExports s - 1\<rparr>)"

definition cleanup :: "int \<Rightarrow> export_quota \<Rightarrow> export_quota" where
  "cleanup now s = s\<lparr>eq_actorRequests := pruneExpiredActorRequests now (eq_actorRequests s)\<rparr>"

definition shutdownQuota :: "export_quota \<Rightarrow> export_quota" where
  "shutdownQuota s = s\<lparr>eq_actorRequests := [], eq_activeExports := 0\<rparr>"

section \<open>Runs\<close>

text \<open>A state and the time of its last step; the clock does not go back.\<close>

inductive quota_reachable :: "export_quota \<Rightarrow> int \<Rightarrow> bool" where
  Start: "quota_reachable empty_quota now"
| Acquire: "quota_reachable s t \<Longrightarrow> t \<le> now \<Longrightarrow> quota_reachable (fst (acquire now a s)) now"
| Release: "quota_reachable s t \<Longrightarrow> t \<le> now \<Longrightarrow> i < length (eq_released s) \<Longrightarrow>
    quota_reachable (release i s) now"
| Cleanup: "quota_reachable s t \<Longrightarrow> t \<le> now \<Longrightarrow> quota_reachable (cleanup now s) now"

definition requestsOf :: "(jstring, int list) jmap \<Rightarrow> jstring \<Rightarrow> int list" where
  "requestsOf m a = (case mapGet m a of None \<Rightarrow> [] | Some r \<Rightarrow> r)"

definition accepted :: "export_quota \<Rightarrow> jstring \<Rightarrow> int list" where
  "accepted s a = map snd (filter (\<lambda>(b, _). b = a) (eq_history s))"

text \<open>Per actor, the times kept are the accepted ones but for some that are older than the window.\<close>

definition recent :: "int \<Rightarrow> int list \<Rightarrow> int list" where
  "recent now ts = filter (\<lambda>t. now - actorWindowMs < t) ts"

definition last_minute :: "int \<Rightarrow> int list \<Rightarrow> int list" where
  "last_minute b ts = filter (\<lambda>t. b - actorWindowMs < t \<and> t \<le> b) ts"

definition quota_inv :: "export_quota \<Rightarrow> int \<Rightarrow> bool" where
  "quota_inv s now \<longleftrightarrow> distinct (mapKeys (eq_actorRequests s))
     \<and> (\<forall>a. recent now (requestsOf (eq_actorRequests s) a) = recent now (accepted s a))
     \<and> (\<forall>a. \<forall>t \<in> set (accepted s a). t \<le> now)
     \<and> (\<forall>a b. length (last_minute b (accepted s a)) \<le> actorLimit)
     \<and> eq_activeExports s = length (filter Not (eq_released s))
     \<and> eq_activeExports s \<le> maxConcurrentExports
     \<and> length (eq_actorRequests s) \<le> maxTrackedActors"

lemma quota_inv_empty: "quota_inv empty_quota now"
  by (simp add: quota_inv_def empty_quota_def requestsOf_def accepted_def recent_def last_minute_def)

lemma length_filter_eq: "length (filter P xs) = length xs \<Longrightarrow> filter P xs = xs"
  by (metis filter_True length_filter_less nat_neq_iff)

lemma prune_fold:
  assumes "distinct (mapKeys es)" and "\<And>a r. (a, r) \<in> set es \<Longrightarrow> mapGet m a = Some r"
    and "distinct (mapKeys m)"
  shows "distinct (mapKeys (fold (prune_entry w) es m)) \<and> length (fold (prune_entry w) es m) \<le> length m
    \<and> (\<forall>a. mapGet (fold (prune_entry w) es m) a =
        (if a \<in> set (mapKeys es)
         then (case filter (\<lambda>t. w < t) (requestsOf m a) of [] \<Rightarrow> None | r \<Rightarrow> Some r)
         else mapGet m a))"
  using assms
proof (induction es arbitrary: m)
  case Nil
  then show ?case by simp
next
  case (Cons e es)
  obtain a r where e: "e = (a, r)" by (cases e)
  let ?m = "prune_entry w e m"
  have r: "mapGet m a = Some r" using Cons.prems(2) [of a r] by (simp add: e)
  have at: "mapGet ?m b = (if b = a then (case filter (\<lambda>t. w < t) r of [] \<Rightarrow> None | r \<Rightarrow> Some r)
      else mapGet m b)" for b
    using r length_filter_eq [of "\<lambda>t. w < t" r]
    by (auto simp: prune_entry_def e Let_def mapGet_mapSet mapGet_mapDelete split: list.split)
  have dist: "distinct (mapKeys ?m)"
    using Cons.prems(3) by (simp add: prune_entry_def e Let_def distinct_mapSet distinct_mapDelete)
  have len: "length ?m \<le> length m"
  proof -
    have "length (mapSet a v m) = length m" for v
      using r by (induction m) auto
    moreover have "length (mapDelete a m) \<le> length m" by (simp add: AList.delete_eq)
    ultimately show ?thesis by (simp add: prune_entry_def e Let_def)
  qed
  have fst_e: "fst e = a" by (simp add: e)
  have a_es: "a \<notin> set (mapKeys es)" using Cons.prems(1) by (simp add: e)
  have "mapGet ?m b = Some r'" if "(b, r') \<in> set es" for b r'
    using Cons.prems(2) [of b r'] that a_es by (auto simp: at image_iff)
  from Cons.IH [OF _ this dist] Cons.prems(1) have IH:
    "distinct (mapKeys (fold (prune_entry w) es ?m))"
    "length (fold (prune_entry w) es ?m) \<le> length ?m"
    "\<And>b. mapGet (fold (prune_entry w) es ?m) b = (if b \<in> set (mapKeys es)
         then (case filter (\<lambda>t. w < t) (requestsOf ?m b) of [] \<Rightarrow> None | r \<Rightarrow> Some r)
         else mapGet ?m b)" by (simp_all add: e)
  have "mapGet (fold (prune_entry w) es ?m) b = (if b \<in> set (mapKeys (e # es))
         then (case filter (\<lambda>t. w < t) (requestsOf m b) of [] \<Rightarrow> None | r \<Rightarrow> Some r)
         else mapGet m b)" for b
    using a_es r fst_e by (auto simp: IH(3) at requestsOf_def)
  with IH(1,2) len show ?case by simp
qed

lemma prune_correct:
  assumes "distinct (mapKeys m)"
  shows "distinct (mapKeys (pruneExpiredActorRequests now m))"
    "length (pruneExpiredActorRequests now m) \<le> length m"
    "requestsOf (pruneExpiredActorRequests now m) a = recent now (requestsOf m a)"
proof -
  have "(a, r) \<in> set m \<Longrightarrow> mapGet m a = Some r" for a r using assms by simp
  note p = prune_fold [OF assms this assms, of "now - actorWindowMs"]
  then show "distinct (mapKeys (pruneExpiredActorRequests now m))"
    "length (pruneExpiredActorRequests now m) \<le> length m"
    by (simp_all add: pruneExpiredActorRequests_def)
  have "mapGet (pruneExpiredActorRequests now m) a = (if mapGet m a = None then None
      else (case recent now (requestsOf m a) of [] \<Rightarrow> None | r \<Rightarrow> Some r))"
    using p by (simp add: pruneExpiredActorRequests_def recent_def map_of_eq_None_iff)
  then show "requestsOf (pruneExpiredActorRequests now m) a = recent now (requestsOf m a)"
    by (auto simp: requestsOf_def recent_def split: option.split list.split)
qed

section \<open>Every step keeps the invariant\<close>

lemma recent_recent: "now \<le> now' \<Longrightarrow> recent now' (recent now ts) = recent now' ts"
  unfolding recent_def filter_filter by (rule filter_cong) auto

lemma recent_later: "now \<le> now' \<Longrightarrow> recent now ts = recent now ts' \<Longrightarrow> recent now' ts = recent now' ts'"
  using recent_recent by metis

lemma last_minute_recent: "\<forall>t \<in> set ts. t \<le> now \<Longrightarrow> last_minute now ts = recent now ts"
  unfolding last_minute_def recent_def by (rule filter_cong) auto

lemma last_minute_le: "last_minute b (ts @ [now]) = (if b - actorWindowMs < now \<and> now \<le> b
    then last_minute b ts @ [now] else last_minute b ts)"
  by (simp add: last_minute_def)

lemma length_last_minute: "\<forall>t \<in> set ts. t \<le> now \<Longrightarrow> now \<le> b \<Longrightarrow> length (last_minute b ts) \<le> length (recent now ts)"
proof -
  assume a: "\<forall>t \<in> set ts. t \<le> now" "now \<le> b"
  then have "last_minute b ts = filter (\<lambda>t. b - actorWindowMs < t) (recent now ts)"
    unfolding last_minute_def recent_def filter_filter by (intro filter_cong) auto
  then show ?thesis by simp
qed

lemma quota_invD:
  assumes "quota_inv s t"
  shows "distinct (mapKeys (eq_actorRequests s))"
    "recent t (requestsOf (eq_actorRequests s) a) = recent t (accepted s a)"
    "\<forall>u \<in> set (accepted s a). u \<le> t" "length (last_minute b (accepted s a)) \<le> actorLimit"
    "eq_activeExports s = length (filter Not (eq_released s))"
    "eq_activeExports s \<le> maxConcurrentExports" "length (eq_actorRequests s) \<le> maxTrackedActors"
  using assms by (simp_all add: quota_inv_def)

lemma quota_inv_clock:
  assumes "quota_inv s t" and "t \<le> now"
  shows "quota_inv s now"
  unfolding quota_inv_def
proof (intro conjI allI ballI)
  show "recent now (requestsOf (eq_actorRequests s) a) = recent now (accepted s a)" for a
    using assms(2) quota_invD(2) [OF assms(1)] by (rule recent_later)
  show "u \<le> now" if "u \<in> set (accepted s a)" for a u using quota_invD(3) [OF assms(1), of a] that assms(2) by auto
qed (rule quota_invD [OF assms(1)])+

lemma quota_prune:
  assumes "quota_inv s t" and "t \<le> now"
  shows "quota_inv (cleanup now s) now"
proof -
  note d = quota_inv_clock [OF assms]
  note p = prune_correct [OF quota_invD(1) [OF d], of now]
  have acc: "accepted (cleanup now s) = accepted s" by (intro ext) (simp add: accepted_def cleanup_def)
  have "recent now (requestsOf (eq_actorRequests (cleanup now s)) a) = recent now (accepted s a)" for a
    using quota_invD(2) [OF d] p(3) by (simp add: cleanup_def recent_recent)
  moreover have "length (eq_actorRequests (cleanup now s)) \<le> maxTrackedActors"
    using p(2) quota_invD(7) [OF d] by (simp add: cleanup_def)
  ultimately show ?thesis
    unfolding quota_inv_def acc
    using p(1) quota_invD(3-6) [OF d] by (simp add: cleanup_def)
qed

lemma quota_acquire:
  assumes inv: "quota_inv s t" and le: "t \<le> now"
  shows "quota_inv (fst (acquire now a s)) now"
proof -
  let ?s = "cleanup now s"
  let ?pruned = "eq_actorRequests ?s"
  let ?r = "requestsOf ?pruned a"
  have p: "pruneExpiredActorRequests now (eq_actorRequests s) = ?pruned" by (simp add: cleanup_def)
  note d = quota_prune [OF inv le]
  show ?thesis
  proof (cases "\<exists>i. snd (acquire now a s) = Inr i")
    case False
    then have "fst (acquire now a s) = ?s"
      by (auto simp: acquire_def Let_def cleanup_def split: if_splits)
    with d show ?thesis by simp
  next
    case True
    then have ok: "length ?r < actorLimit" "eq_activeExports s < maxConcurrentExports"
      "mapGet ?pruned a = None \<longrightarrow> length ?pruned < maxTrackedActors"
      and f_eq: "fst (acquire now a s) = ?s\<lparr>eq_actorRequests := mapSet a (?r @ [now]) ?pruned,
        eq_activeExports := eq_activeExports s + 1, eq_released := eq_released s @ [False],
        eq_history := eq_history s @ [(a, now)]\<rparr>"
      by (auto simp: acquire_def Let_def cleanup_def requestsOf_def split: if_splits)
    define f where "f = fst (acquire now a s)"
    note f = f_def [unfolded f_eq]
    have acc: "accepted f b = (if b = a then accepted ?s b @ [now] else accepted ?s b)" for b
      by (auto simp: accepted_def cleanup_def f)
    have req: "requestsOf (eq_actorRequests f) b = (if b = a then ?r @ [now] else requestsOf ?pruned b)" for b
      by (simp add: requestsOf_def mapGet_mapSet f)
    have old: "\<forall>t \<in> set (accepted ?s b). t \<le> now" for b using d by (simp add: quota_inv_def)
    have "length (last_minute b (accepted ?s a)) < actorLimit" if "now \<le> b" for b
    proof -
      have "length (last_minute b (accepted ?s a)) \<le> length (recent now (accepted ?s a))"
        by (rule length_last_minute [OF old that])
      also have "\<dots> = length (recent now ?r)" using d by (simp add: quota_inv_def)
      also have "\<dots> \<le> length ?r" by (simp add: recent_def)
      finally show ?thesis using ok(1) by simp
    qed
    then have "length (last_minute b (accepted f c)) \<le> actorLimit" for b c
      using quota_invD(4) [OF d, of b c] by (auto simp del: One_nat_def simp add: acc last_minute_le Suc_le_eq)
    moreover have "recent now (requestsOf (eq_actorRequests f) b) = recent now (accepted f b)" for b
      using quota_invD(2) [OF d] by (simp add: req acc) (simp add: recent_def)
    moreover have "\<forall>t \<in> set (accepted f b). t \<le> now" for b using old by (simp add: acc)
    moreover have "length (eq_actorRequests f) \<le> maxTrackedActors"
      using ok(3) quota_invD(7) [OF d] by (simp add: length_mapSet f Suc_le_eq)
    moreover have "distinct (mapKeys (eq_actorRequests f))"
      using quota_invD(1) [OF d] by (simp add: distinct_mapSet f)
    moreover have "eq_activeExports f = length (filter Not (eq_released f))"
      "eq_activeExports f \<le> maxConcurrentExports"
      using ok(2) quota_invD(5) [OF d] by (simp_all add: cleanup_def f)
    ultimately show ?thesis unfolding f_def [symmetric] quota_inv_def by blast
  qed
qed

lemma quota_release:
  assumes inv: "quota_inv s t" and le: "t \<le> now" and i: "i < length (eq_released s)"
  shows "quota_inv (release i s) now"
proof -
  note d = quota_inv_clock [OF inv le]
  have "length (filter Not ((eq_released s)[i := True])) = length (filter Not (eq_released s)) - 1"
    if "\<not> eq_released s ! i"
    using that i by (subst (2) id_take_nth_drop [OF i]) (simp add: upd_conv_take_nth_drop)
  moreover have "accepted (release i s) = accepted s" by (intro ext) (simp add: accepted_def release_def)
  ultimately show ?thesis
    unfolding quota_inv_def using quota_invD [OF d]
    by (simp add: release_def le_trans [OF diff_le_self])
qed

lemma quota_reachable_inv: "quota_reachable s now \<Longrightarrow> quota_inv s now"
  by (induction rule: quota_reachable.induct)
    (auto intro: quota_inv_empty quota_acquire quota_release quota_prune)

end
