(* ===== verification/Admission_Properties.thy ===== *)
theory Admission_Properties
  imports Presence_Store Rate_Limiter Mutation_Queue Export_Quota
begin

text \<open>
  The properties of presence, of the rate limiter, of the mutation queue and of the export quota, each
  applied to a small run where it has hypotheses.
\<close>

section \<open>Presence\<close>

text \<open>C19. With every join limited to \<open>M\<close> participants, no document ever has more; a socket
  is listed in a document exactly when the document is listed for the socket; and the list that was
  broadcast last is the list of participants, but for \<open>lastSeen\<close>.\<close>

theorem presence_is_bounded_and_consistent:
  assumes "presence_reachable M s"
  shows "length (list_participants d s) \<le> M
    \<and> (nestedGet (documentIdsBySocket s) x d \<noteq> None \<longleftrightarrow> nestedGet (participantsByDocument s) d x \<noteq> None)
    \<and> map but_last_seen (last_event (ps_events s) d) = map but_last_seen (list_participants d s)"
  using presence_reachable_capacity [OF assms] presence_reachable_good [OF assms]
  by (simp_all add: within_capacity_def presence_good_def presence_inv_def presence_announced_def participantAt_def)

theorem presence_is_bounded_and_consistent_witness:
  "length (list_participants (js ''d'')
     (fst (join 7 (js ''d'') (js ''u'') (js ''s'') 1 empty_presence_store))) \<le> 1"
  by (rule presence_is_bounded_and_consistent [OF presence_reachable.Join [OF presence_reachable.Start], THEN conjunct1])

section \<open>Rate limiter\<close>

text \<open>C20. In any interval as long as the window, a socket gets at most twice the limit through,
  whatever the other sockets send and however its calls are spread.\<close>

theorem rate_limit_bound:
  assumes "0 < limit" and "0 < windowMs" and "sorted (map fst calls)"
  shows "in_interval x a windowMs (allowed limit windowMs [] calls) \<le> 2 * limit"
  using budget_bound [OF assms, of "[]" x a] by (auto simp: budget_def split: if_splits)

theorem rate_limit_bound_witness:
  "in_interval (js ''s'') 5 10 (allowed 2 10 [] [(5, js ''s''), (9, js ''s''), (12, js ''s''), (15, js ''s'')]) \<le> 4"
  using rate_limit_bound [of 2 10 "[(5, js ''s''), (9, js ''s''), (12, js ''s''), (15, js ''s'')]" "js ''s''" 5]
  by simp

section \<open>Mutation queue\<close>

text \<open>C21. The mutations of a document run one at a time and in the order of their calls: while one
  runs, every earlier one is over and no later one has begun.\<close>

theorem mutations_run_in_order:
  assumes "queue_reachable capacity q" and "i \<in> ops_of q d" and "qo_status (q_operations q ! i) = Running"
    and "j \<in> ops_of q d" and "j \<noteq> i"
  shows "qo_status (q_operations q ! j) = (if j < i then Ended else Waiting)"
proof -
  have inv: "queue_inv capacity q" by (rule queue_reachable_inv [OF assms(1)])
  have i: "i < length (q_operations q)" "qo_document (op_at q i) = d"
    and j: "j < length (q_operations q)" "qo_document (op_at q j) = d"
    using assms(2,4) by (simp_all add: ops_of_def)
  show ?thesis
  proof (cases "j < i")
    case True
    have "all_ended_before q i" using inv i assms(3) by (auto simp: queue_inv_def op_inv_def)
    with True i assms(4) show ?thesis by (simp add: all_ended_before_def)
  next
    case False
    with assms(5) have "i < j" by simp
    have "qo_status (op_at q j) \<noteq> Waiting \<longrightarrow> all_ended_before q j"
      using inv j by (simp add: queue_inv_def op_inv_def)
    with \<open>i < j\<close> j i assms(2,3) False show ?thesis by (auto simp: all_ended_before_def)
  qed
qed

definition two_mutations :: mutation_queue where
  "two_mutations = start 0 (the (enqueue 8 (js ''d'') Standard (the (enqueue 8 (js ''d'') Standard empty_queue))))"

lemmas queue_eval = two_mutations_def enqueue_def start_def set_operation_def empty_queue_def pendingOf_def
  Let_def ops_of_def previous_settled_def

lemma two_mutations_reachable: "queue_reachable 8 two_mutations"
proof -
  let ?q1 = "the (enqueue 8 (js ''d'') Standard empty_queue)"
  let ?q2 = "the (enqueue 8 (js ''d'') Standard ?q1)"
  have "queue_reachable 8 ?q1"
    by (rule queue_reachable.Step [OF queue_reachable.Empty queue_step.Enqueue [where d = "js ''d''" and p = Standard]])
      (simp add: queue_eval)
  moreover have "queue_step 8 ?q1 ?q2"
    by (rule queue_step.Enqueue [where d = "js ''d''" and p = Standard]) (simp add: queue_eval)
  moreover have "queue_step 8 ?q2 (start 0 ?q2)" by (rule queue_step.Start) (simp_all add: queue_eval)
  ultimately show ?thesis unfolding two_mutations_def by (blast intro: queue_reachable.Step)
qed

theorem mutations_run_in_order_witness: "qo_status (q_operations two_mutations ! 1) = Waiting"
proof -
  have "0 \<in> ops_of two_mutations (js ''d'')" "1 \<in> ops_of two_mutations (js ''d'')"
    "qo_status (q_operations two_mutations ! 0) = Running"
    by (simp_all add: queue_eval)
  from mutations_run_in_order [OF two_mutations_reachable this(1,3,2)] show ?thesis by simp
qed

text \<open>C22. The queue never blocks: as long as a mutation of a document is not over, one of them is
  running, or can start, or the tail of one that is over can settle.\<close>

theorem mutation_queue_progress:
  assumes "queue_reachable capacity q" and "open_ops q d \<noteq> {}"
  shows "\<exists>i \<in> ops_of q d. queue_step capacity q (start i q) \<or> queue_step capacity q (finish i q)
    \<or> queue_step capacity q (settle i q)"
proof -
  have inv: "queue_inv capacity q" by (rule queue_reachable_inv [OF assms(1)])
  define i where "i = Min (open_ops q d)"
  have i: "i \<in> open_ops q d" and first: "\<And>j. j \<in> open_ops q d \<Longrightarrow> i \<le> j"
    using assms(2) by (simp_all add: i_def)
  then have len: "i < length (q_operations q)" "i \<in> ops_of q d" "qo_document (op_at q i) = d"
    "qo_status (op_at q i) \<noteq> Ended"
    by (auto simp: open_ops_def ops_of_def)
  show ?thesis
  proof (cases "qo_status (op_at q i)")
    case Running
    then have "queue_step capacity q (finish i q)" by (intro queue_step.Finish len(1))
    with len(2) show ?thesis by blast
  next
    case Waiting
    have before: "all_ended_before q i"
      unfolding all_ended_before_def len(3) using first by (force simp: open_ops_def)
    show ?thesis
    proof (cases "previous_settled q i")
      case True
      then have "queue_step capacity q (start i q)" using Waiting by (intro queue_step.Start len(1))
      with len(2) show ?thesis by blast
    next
      case False
      from settle_chain [OF inv len(1) before Waiting False] show ?thesis unfolding len(3) by blast
    qed
  qed (use len in simp)
qed

theorem mutation_queue_progress_witness:
  "\<exists>i \<in> ops_of two_mutations (js ''d''). queue_step 8 two_mutations (start i two_mutations)
    \<or> queue_step 8 two_mutations (finish i two_mutations) \<or> queue_step 8 two_mutations (settle i two_mutations)"
proof (rule mutation_queue_progress [OF two_mutations_reachable])
  have "0 \<in> open_ops two_mutations (js ''d'')" by (simp add: queue_eval open_ops_def)
  then show "open_ops two_mutations (js ''d'') \<noteq> {}" by blast
qed

text \<open>A call is refused exactly when the mutations of its document that are not over fill the
  capacity, the last place being kept for critical work; a document with nothing left to do leaves
  no entry behind in the queue.\<close>

theorem mutation_queue_capacity:
  assumes "queue_reachable capacity q"
  shows "(enqueue capacity d p q = None \<longleftrightarrow> card (open_ops q d) \<ge>
      (case p of Standard \<Rightarrow> max 1 (capacity - 1) | Critical \<Rightarrow> capacity))
    \<and> card (open_ops q d) \<le> max 1 capacity
    \<and> (open_ops q d = {} \<longleftrightarrow> mapGet (q_tails q) d = None)
    \<and> (open_ops q d = {} \<longleftrightarrow> mapGet (q_pendingByDocument q) d = None)"
proof (intro conjI)
  have p: "pending_inv capacity q d" and t: "tail_inv q d"
    using queue_reachable_inv [OF assms] by (simp_all add: queue_inv_def)
  show "enqueue capacity d p q = None \<longleftrightarrow> card (open_ops q d) \<ge>
      (case p of Standard \<Rightarrow> max 1 (capacity - 1) | Critical \<Rightarrow> capacity)"
    using p by (cases p) (auto simp: enqueue_def Let_def pending_inv_def)
  show "card (open_ops q d) \<le> max 1 capacity"
    "open_ops q d = {} \<longleftrightarrow> mapGet (q_pendingByDocument q) d = None"
    using p by (auto simp: pending_inv_def)
  show "open_ops q d = {} \<longleftrightarrow> mapGet (q_tails q) d = None"
    using t by (auto simp: tail_inv_def split: option.splits)
qed

theorem mutation_queue_capacity_witness: "card (open_ops two_mutations (js ''d'')) \<le> 8"
  using mutation_queue_capacity [OF two_mutations_reachable, of "js ''d''"] by simp

section \<open>Export quota\<close>

text \<open>C23. With a clock that does not go back, no actor gets more than five exports accepted in any
  60 seconds, no more than two exports are active at a time, one per lease that was not given back,
  and no more than ten thousand actors are remembered.\<close>

theorem export_quota_bounds:
  assumes "quota_reachable s now"
  shows "length (filter (\<lambda>t. b - 60000 < t \<and> t \<le> b) (accepted s a)) \<le> 5
    \<and> eq_activeExports s = length (filter Not (eq_released s)) \<and> eq_activeExports s \<le> 2
    \<and> length (eq_actorRequests s) \<le> 10000"
  using quota_invD [OF quota_reachable_inv [OF assms]]
  by (simp_all add: last_minute_def actorWindowMs_def actorLimit_def maxConcurrentExports_def maxTrackedActors_def)

theorem export_quota_bounds_witness:
  "length (filter (\<lambda>t. 9 - 60000 < t \<and> t \<le> 9)
     (accepted (fst (Export_Quota.acquire 3 (js ''u'') empty_quota)) (js ''u''))) \<le> 5"
  by (rule export_quota_bounds [OF quota_reachable.Acquire [OF quota_reachable.Start [of 0]], THEN conjunct1]) simp

end
