(* ===== verification/Auth_Tokens.thy ===== *)
theory Auth_Tokens
  imports Js_Prelude
begin

text \<open>
  The refresh tokens of src/src/modules/auth/auth.service.ts: \<open>newSessionToken\<close> and
  \<open>parseRefreshToken\<close>. The HMAC of a text under the configured secret (in base64url) and the
  test for a version 4 UUID belong to libraries and are the parameters \<open>hmac\<close> and
  \<open>isUUID\<close>; what the code relies on is \<open>hmac_base64url\<close> (a SHA-256 digest has 43
  base64url characters) and \<open>uuid_text\<close> (36 characters, none of them a dot).
\<close>

definition dot :: "16 word" where "dot = 0x2E"

definition is_base64url :: "16 word \<Rightarrow> bool" where
  "is_base64url c \<longleftrightarrow> (0x41 \<le> c \<and> c \<le> 0x5A) \<or> (0x61 \<le> c \<and> c \<le> 0x7A) \<or> is_digit c
     \<or> c = 0x5F \<or> c = 0x2D"

text \<open>\<open>/^[A-Za-z0-9_-]{43}$/\<close> and \<open>/^(?:0|[1-9][0-9]*)$/\<close>.\<close>

definition is_digest_text :: "jstring \<Rightarrow> bool" where
  "is_digest_text s \<longleftrightarrow> length s = 43 \<and> (\<forall>c \<in> set s. is_base64url c)"

definition is_canonical_number :: "jstring \<Rightarrow> bool" where
  "is_canonical_number s \<longleftrightarrow> s = [0x30] \<or> (s \<noteq> [] \<and> (\<forall>c \<in> set s. is_digit c) \<and> hd s \<noteq> 0x30)"

definition max_safe_integer :: nat where "max_safe_integer = 2 ^ 53 - 1"

datatype parsed_refresh_token =
    Legacy (pt_sessionId: jstring) (pt_token: jstring)
  | Versioned (pt_sessionId: jstring) (pt_token: jstring) (pt_sequence: nat)

definition refreshTokenSignature :: "(jstring \<Rightarrow> jstring) \<Rightarrow> jstring \<Rightarrow> nat \<Rightarrow> jstring" where
  "refreshTokenSignature hmac sessionId sequence = hmac (sessionId @ [dot] @ show_nat sequence)"

definition newSessionToken :: "(jstring \<Rightarrow> jstring) \<Rightarrow> jstring \<Rightarrow> nat \<Rightarrow> jstring" where
  "newSessionToken hmac sessionId sequence =
     sessionId @ [dot] @ show_nat sequence @ [dot] @ refreshTokenSignature hmac sessionId sequence"

text \<open>\<open>timingSafeEqual\<close> on texts of the same length is equality.\<close>

definition isRefreshTokenSignatureValid ::
  "(jstring \<Rightarrow> jstring) \<Rightarrow> jstring \<Rightarrow> nat \<Rightarrow> jstring \<Rightarrow> bool" where
  "isRefreshTokenSignatureValid hmac sessionId sequence signature \<longleftrightarrow>
     refreshTokenSignature hmac sessionId sequence = signature"

text \<open>\<open>Number(middle)\<close> rounds a numeral to a double; a numeral is at most
  \<open>max_safe_integer\<close> exactly when its double is a safe integer, and then nothing is rounded.
  The destructuring \<open>[sessionId, middle, signature, extra]\<close> reads the first four parts.\<close>

definition parseRefreshToken ::
  "(jstring \<Rightarrow> bool) \<Rightarrow> (jstring \<Rightarrow> jstring) \<Rightarrow> jstring option \<Rightarrow> parsed_refresh_token option" where
  "parseRefreshToken isUUID hmac value' =
     (if \<not> truthy value' \<or> 256 < length (the value') then None
      else case js_split (the value') [dot] of
        sessionId # middle # rest \<Rightarrow>
          if sessionId = [] \<or> middle = [] \<or> \<not> isUUID sessionId then None
          else (case rest of
              [] \<Rightarrow> if is_digest_text middle then Some (Legacy sessionId (the value')) else None
            | signature # more \<Rightarrow>
                if (case more of [] \<Rightarrow> False | extra # _ \<Rightarrow> extra \<noteq> [])
                   \<or> \<not> is_canonical_number middle \<or> \<not> is_digest_text signature then None
                else if max_safe_integer < digits_val middle
                   \<or> \<not> isRefreshTokenSignatureValid hmac sessionId (digits_val middle) signature then None
                else Some (Versioned sessionId (the value') (digits_val middle)))
      | _ \<Rightarrow> None)"

section \<open>What the libraries provide\<close>

definition hmac_base64url :: "(jstring \<Rightarrow> jstring) \<Rightarrow> bool" where
  "hmac_base64url hmac \<longleftrightarrow> (\<forall>m. is_digest_text (hmac m))"

definition uuid_text :: "(jstring \<Rightarrow> bool) \<Rightarrow> bool" where
  "uuid_text isUUID \<longleftrightarrow> (\<forall>s. isUUID s \<longrightarrow> length s = 36 \<and> dot \<notin> set s)"

section \<open>Round trip\<close>

lemma digit_no_dot: "is_digit c \<Longrightarrow> c \<noteq> dot"
  by (auto simp: is_digit_def dot_def)

lemma base64url_no_dot: "is_base64url c \<Longrightarrow> c \<noteq> dot"
  by (auto simp: is_base64url_def dot_def is_digit_def)

lemma canonical_show_nat: "is_canonical_number (show_nat n)"
  using show_nat_digits [of _ n] show_nat_nonempty [of n] hd_show_nat_zero [of n]
  by (cases "n = 0") (auto simp: is_canonical_number_def digit_unit_def show_nat.simps)

lemma digit_unit_digit_val: "is_digit c \<Longrightarrow> digit_unit (digit_val c) = c"
  by (simp add: is_digit_def digit_unit_def digit_val_def word_le_nat_alt)

lemma digit_val_less: "is_digit c \<Longrightarrow> digit_val c < 10"
  by (auto simp: is_digit_def digit_val_def word_le_nat_alt)

lemma digits_show_nat_val:
  "s \<noteq> [] \<Longrightarrow> \<forall>c \<in> set s. is_digit c \<Longrightarrow> hd s \<noteq> 0x30 \<Longrightarrow> show_nat (digits_val s) = s \<and> 0 < digits_val s"
proof (induction s rule: rev_induct)
  case (snoc c t)
  have c: "is_digit c" "digit_val c < 10" "digit_unit (digit_val c) = c"
    using snoc.prems by (simp_all add: digit_val_less digit_unit_digit_val)
  show ?case
  proof (cases "t = []")
    case True
    have "digit_val c \<noteq> 0"
    proof
      assume "digit_val c = 0"
      with c(3) have "c = 0x30" by (simp add: digit_unit_def)
      with snoc.prems(3) True show False by simp
    qed
    with True c show ?thesis by (simp add: digits_val_def show_nat.simps)
  next
    case False
    with snoc have "show_nat (digits_val t) = t" "0 < digits_val t" by auto
    with c show ?thesis by (simp add: digits_val_snoc show_nat.simps [of "10 * digits_val t + digit_val c"])
  qed
qed simp

lemma canonical_digits_val: "is_canonical_number s \<Longrightarrow> show_nat (digits_val s) = s"
proof -
  assume "is_canonical_number s"
  moreover have "show_nat (digits_val [0x30]) = [0x30]"
    by (simp add: digits_val_def digit_val_def show_nat.simps digit_unit_def)
  ultimately show ?thesis using digits_show_nat_val [of s] by (auto simp: is_canonical_number_def)
qed

lemma length_show_nat: "n < 10 ^ Suc k \<Longrightarrow> length (show_nat n) \<le> Suc k"
proof (induction k arbitrary: n)
  case (Suc k)
  then have "n div 10 < 10 ^ Suc k" by (simp add: less_mult_imp_div_less mult.commute)
  from Suc.IH [OF this] show ?case by (subst show_nat.simps) simp
qed (simp add: show_nat.simps)

text \<open>The token of a session and sequence number parses to them.\<close>

lemma split_token:
  assumes "dot \<notin> set sid" and "is_digest_text (hmac (sid @ [dot] @ show_nat n))"
  shows "js_split (newSessionToken hmac sid n) [dot] = [sid, show_nat n, refreshTokenSignature hmac sid n]"
proof -
  have "dot \<notin> set (show_nat n)" using show_nat_digits digit_no_dot by blast
  moreover have "dot \<notin> set (refreshTokenSignature hmac sid n)"
    using assms(2) base64url_no_dot by (auto simp: refreshTokenSignature_def is_digest_text_def)
  ultimately show ?thesis using assms(1)
    by (simp add: newSessionToken_def js_split_sep js_split_no_sep)
qed

lemma parse_newSessionToken:
  assumes "hmac_base64url hmac" and "uuid_text isUUID" and "isUUID sid" and "n \<le> max_safe_integer"
  shows "parseRefreshToken isUUID hmac (Some (newSessionToken hmac sid n))
     = Some (Versioned sid (newSessionToken hmac sid n) n)"
proof -
  have sid: "length sid = 36" "dot \<notin> set sid" "sid \<noteq> []" using assms(2,3) by (auto simp: uuid_text_def)
  have sig: "is_digest_text (hmac m)" for m using assms(1) by (simp add: hmac_base64url_def)
  have "n < 10 ^ Suc 15" using assms(4) by (simp add: max_safe_integer_def)
  from length_show_nat [OF this] have "length (newSessionToken hmac sid n) \<le> 256"
    using sid(1) sig [of "sid @ [dot] @ show_nat n"]
    by (simp add: newSessionToken_def refreshTokenSignature_def is_digest_text_def)
  moreover have "newSessionToken hmac sid n \<noteq> []" by (simp add: newSessionToken_def)
  ultimately show ?thesis
    using assms(3,4) sid sig
    by (simp add: parseRefreshToken_def split_token canonical_show_nat digits_val_show_nat
        isRefreshTokenSignatureValid_def) (simp add: refreshTokenSignature_def)
qed

text \<open>Only what the server signed parses as a versioned token: the text is the token of its session and
  number, or that token followed by an empty part and anything else.\<close>

lemma js_join_split: "js_join [c] (js_split s [c]) = s"
proof -
  have "js_join [c] (split_loop [c] acc s) = rev acc @ s" for acc
  proof (induction s arbitrary: acc)
    case (Cons d s)
    show ?case
    proof (cases "d = c")
      case True
      obtain x xs where "split_loop [c] [] s = x # xs" by (cases "split_loop [c] [] s") auto
      with Cons [of "[]"] True show ?thesis by simp
    next
      case False
      with Cons [of "d # acc"] show ?thesis by simp
    qed
  qed simp
  from this [of "[]"] show ?thesis by (simp add: js_split_def)
qed

lemma parse_versioned_sound:
  assumes "parseRefreshToken isUUID hmac v = Some (Versioned sid tok n)"
  shows "v = Some tok \<and> isUUID sid \<and> n \<le> max_safe_integer
    \<and> (tok = newSessionToken hmac sid n \<or> (\<exists>rest. tok = newSessionToken hmac sid n @ [dot] @ rest
          \<and> (rest = [] \<or> hd rest = dot)))"
proof -
  from assms obtain middle sig more where
    split: "js_split (the v) [dot] = sid # middle # sig # more" and
    t: "truthy v" "tok = the v" "isUUID sid" "n = digits_val middle" "n \<le> max_safe_integer"
      "is_canonical_number middle" "refreshTokenSignature hmac sid n = sig"
      "case more of [] \<Rightarrow> True | extra # _ \<Rightarrow> extra = []"
    unfolding parseRefreshToken_def isRefreshTokenSignatureValid_def
    by (auto split: if_splits list.splits)
  have middle: "middle = show_nat n" using canonical_digits_val [OF t(6)] t(4) by simp
  have "the v = js_join [dot] (sid # middle # sig # more)"
    using js_join_split [of dot "the v"] split by simp
  then have v: "the v = newSessionToken hmac sid n @ (if more = [] then [] else [dot] @ js_join [dot] more)"
    using t(7) by (cases more) (simp_all add: newSessionToken_def middle)
  have "js_join [dot] ([] # xs) = [] \<or> hd (js_join [dot] ([] # xs)) = dot" for xs
    by (cases xs) simp_all
  with t(8) have "more = [] \<or> js_join [dot] more = [] \<or> hd (js_join [dot] more) = dot"
    by (cases more) auto
  moreover have "v = Some tok" using t(1,2) by (cases v) simp_all
  ultimately show ?thesis using v t by auto
qed

end
