(* ===== verification/Auth_Sessions.thy ===== *)
theory Auth_Sessions
  imports Auth_Tokens
begin

text \<open>
  Accounts and sessions, src/src/modules/auth: auth.service.ts and access-token-verifier.service.ts on
  the tables of src/prisma/schema.prisma, and auth-session-maintenance.service.ts. Only the columns the
  code reads are kept. Every SQL statement is one atomic step on the database; a request is a sequence of
  them. The functions of other libraries are parameters: the HMAC and the UUID test of
  \<^theory_text>\<open>Auth_Tokens\<close>, \<open>sha256\<close>, the password hash and its check, the lower casing
  of an email and the signing and checking of an access token.
\<close>

section \<open>Tables\<close>

record safe_user =
  us_id :: jstring
  us_email :: jstring
  us_displayName :: jstring

record user_row = safe_user +
  us_passwordHash :: jstring

record session_row =
  se_userId :: jstring
  se_tokenHash :: jstring
  se_refreshSequence :: nat
  se_expiresAt :: int
  se_revokedAt :: "int option"

record auth_db =
  db_users :: "user_row list"
  db_sessions :: "(jstring, session_row) jmap"
  db_consumed :: "(jstring, jstring) jmap"

text \<open>\<open>CAST(x AS UUID)\<close>: the text form of a UUID is in lower case.\<close>

definition uuid_key :: "jstring \<Rightarrow> jstring" where
  "uuid_key s = map (\<lambda>c. if 0x41 \<le> c \<and> c \<le> 0x5A then c + 0x20 else c) s"

definition sessionAt :: "auth_db \<Rightarrow> jstring \<Rightarrow> session_row option" where
  "sessionAt db sid = mapGet (db_sessions db) (uuid_key sid)"

definition putSession :: "jstring \<Rightarrow> session_row \<Rightarrow> auth_db \<Rightarrow> auth_db" where
  "putSession sid r db = db\<lparr>db_sessions := mapSet (uuid_key sid) r (db_sessions db)\<rparr>"

text \<open>The largest value of a PostgreSQL \<open>INTEGER\<close> column.\<close>

definition max_integer_column :: nat where "max_integer_column = 2 ^ 31 - 1"

section \<open>Statements\<close>

definition token_hash_used :: "jstring \<Rightarrow> jstring \<Rightarrow> auth_db \<Rightarrow> bool" where
  "token_hash_used sid h db \<longleftrightarrow>
     (\<exists>e \<in> set (db_sessions db). fst e \<noteq> uuid_key sid \<and> se_tokenHash (snd e) = h)"

text \<open>\<open>INSERT\<close> of a user or a session; \<open>None\<close> is a constraint that fails.\<close>

definition insertUser :: "user_row \<Rightarrow> auth_db \<Rightarrow> auth_db option" where
  "insertUser u db =
     (if \<exists>v \<in> set (db_users db). us_email v = us_email u \<or> us_id v = us_id u then None
      else Some (db\<lparr>db_users := db_users db @ [u]\<rparr>))"

definition insertSession :: "jstring \<Rightarrow> session_row \<Rightarrow> auth_db \<Rightarrow> auth_db option" where
  "insertSession sid r db =
     (if sessionAt db sid \<noteq> None \<or> token_hash_used sid (se_tokenHash r) db
         \<or> \<not> (\<exists>u \<in> set (db_users db). us_id u = se_userId r) then None
      else Some (putSession sid r db))"

definition expectedSequence :: "parsed_refresh_token \<Rightarrow> nat" where
  "expectedSequence p = (case p of Versioned _ _ n \<Rightarrow> n | Legacy _ _ \<Rightarrow> 0)"

definition is_legacy :: "parsed_refresh_token \<Rightarrow> bool" where
  "is_legacy p \<longleftrightarrow> (case p of Legacy _ _ \<Rightarrow> True | Versioned _ _ _ \<Rightarrow> False)"

definition session_live :: "int \<Rightarrow> session_row \<Rightarrow> bool" where
  "session_live now r \<longleftrightarrow> se_revokedAt r = None \<and> now < se_expiresAt r"

text \<open>The statement of \<open>rotateRefreshToken\<close>: \<open>None\<close> is an error of the database (a
  repeated hash, or a sequence number the column cannot hold), otherwise whether a row was rotated.\<close>

definition rotateRefreshToken ::
  "int \<Rightarrow> parsed_refresh_token \<Rightarrow> jstring \<Rightarrow> jstring \<Rightarrow> nat \<Rightarrow> auth_db \<Rightarrow> (bool \<times> auth_db) option" where
  "rotateRefreshToken now p presentedHash nextHash nextSequence db =
     (let sid = pt_sessionId p in
      case sessionAt db sid of
        None \<Rightarrow> Some (False, db)
      | Some r \<Rightarrow>
          if se_tokenHash r = presentedHash \<and> se_refreshSequence r = expectedSequence p \<and> session_live now r
          then (if max_integer_column < nextSequence \<or> token_hash_used sid nextHash db
                   \<or> (is_legacy p \<and> mapGet (db_consumed db) presentedHash \<noteq> None) then None
                else (let db' = putSession sid (r\<lparr>se_tokenHash := nextHash,
                                   se_refreshSequence := nextSequence\<rparr>) db
                      in Some (True, if is_legacy p
                           then db'\<lparr>db_consumed := mapSet presentedHash (uuid_key sid) (db_consumed db')\<rparr>
                           else db')))
          else Some (False, db))"

definition consumed_by :: "jstring \<Rightarrow> jstring \<Rightarrow> auth_db \<Rightarrow> bool" where
  "consumed_by sid h db \<longleftrightarrow> mapGet (db_consumed db) h = Some (uuid_key sid)"

text \<open>\<open>UPDATE ... SET "revokedAt" ... WHERE id = sid AND "revokedAt" IS NULL AND ...\<close>, and
  whether a row was changed.\<close>

definition revokeSession :: "int \<Rightarrow> jstring \<Rightarrow> (session_row \<Rightarrow> bool) \<Rightarrow> auth_db \<Rightarrow> bool \<times> auth_db" where
  "revokeSession now sid condition db = (case sessionAt db sid of
      None \<Rightarrow> (False, db)
    | Some r \<Rightarrow> if se_revokedAt r = None \<and> condition r
                then (True, putSession sid (r\<lparr>se_revokedAt := Some now\<rparr>) db)
                else (False, db))"

definition replayCondition :: "parsed_refresh_token \<Rightarrow> jstring \<Rightarrow> auth_db \<Rightarrow> session_row \<Rightarrow> bool" where
  "replayCondition p h db r = (case p of
      Versioned sid _ n \<Rightarrow> n < se_refreshSequence r
    | Legacy sid _ \<Rightarrow> consumed_by sid h db)"

definition logoutCondition :: "parsed_refresh_token \<Rightarrow> jstring \<Rightarrow> auth_db \<Rightarrow> session_row \<Rightarrow> bool" where
  "logoutCondition p h db r = (case p of
      Versioned sid _ n \<Rightarrow> n \<le> se_refreshSequence r
    | Legacy sid _ \<Rightarrow> se_tokenHash r = h \<or> consumed_by sid h db)"

definition deleteConsumed :: "jstring \<Rightarrow> auth_db \<Rightarrow> auth_db" where
  "deleteConsumed sid db = db\<lparr>db_consumed := filter (\<lambda>(_, s). s \<noteq> uuid_key sid) (db_consumed db)\<rparr>"

text \<open>The cleanup statement: the \<open>batchSize\<close> expired sessions that expired first, and how many
  there were. Their consumed tokens go with them (\<open>onDelete: Cascade\<close>).\<close>

definition expired_batch :: "int \<Rightarrow> nat \<Rightarrow> auth_db \<Rightarrow> jstring list" where
  "expired_batch now batchSize db =
     take batchSize (map fst (sort_key (\<lambda>e. se_expiresAt (snd e))
       (filter (\<lambda>e. se_expiresAt (snd e) \<le> now) (db_sessions db))))"

definition deleteSessions :: "jstring list \<Rightarrow> auth_db \<Rightarrow> auth_db" where
  "deleteSessions sids db =
     db\<lparr>db_sessions := filter (\<lambda>e. fst e \<notin> set sids) (db_sessions db),
        db_consumed := filter (\<lambda>e. snd e \<notin> set sids) (db_consumed db)\<rparr>"

definition deleteExpiredBatch :: "int \<Rightarrow> nat \<Rightarrow> auth_db \<Rightarrow> nat \<times> auth_db" where
  "deleteExpiredBatch now batchSize db =
     (let sids = expired_batch now batchSize db in (length sids, deleteSessions sids db))"

section \<open>Requests\<close>

datatype auth_error = Conflict | Unauthorized | DatabaseError

record auth_result =
  ar_accessToken :: jstring
  ar_expiresIn :: int
  ar_user :: safe_user
  ar_refreshToken :: jstring
  ar_refreshExpiresAt :: int

record auth_config =
  ac_accessTokenTtlSeconds :: int
  ac_refreshTokenTtlSeconds :: int

definition buildAuthResult ::
  "(jstring \<Rightarrow> jstring \<Rightarrow> jstring) \<Rightarrow> auth_config \<Rightarrow> safe_user \<Rightarrow> jstring \<Rightarrow> jstring \<Rightarrow> int \<Rightarrow> auth_result" where
  "buildAuthResult sign config user sid refreshToken refreshExpiresAt =
     \<lparr>ar_accessToken = sign (us_id user) sid, ar_expiresIn = ac_accessTokenTtlSeconds config,
      ar_user = user, ar_refreshToken = refreshToken, ar_refreshExpiresAt = refreshExpiresAt\<rparr>"

definition refreshExpiry :: "auth_config \<Rightarrow> int \<Rightarrow> int" where
  "refreshExpiry config now = now + ac_refreshTokenTtlSeconds config * 1000"

definition normalizeEmail :: "(jstring \<Rightarrow> jstring) \<Rightarrow> jstring \<Rightarrow> jstring" where
  "normalizeEmail lower email = lower (js_trim email)"

text \<open>\<open>uuid\<close> and \<open>userId\<close> are the fresh identifiers; the two inserts are one
  transaction.\<close>

definition register ::
  "(jstring \<Rightarrow> jstring) \<Rightarrow> (jstring \<Rightarrow> jstring) \<Rightarrow> (jstring \<Rightarrow> jstring) \<Rightarrow> (jstring \<Rightarrow> jstring)
     \<Rightarrow> (jstring \<Rightarrow> jstring \<Rightarrow> jstring) \<Rightarrow> auth_config \<Rightarrow> int \<Rightarrow> jstring \<Rightarrow> jstring
     \<Rightarrow> jstring \<Rightarrow> jstring \<Rightarrow> jstring \<Rightarrow> auth_db \<Rightarrow> auth_db \<times> (auth_error + auth_result)" where
  "register hmac sha256 lower hashPassword sign config now uuid userId email displayName password db =
     (let user = \<lparr>us_id = userId, us_email = normalizeEmail lower email,
                  us_displayName = js_trim displayName, us_passwordHash = hashPassword password\<rparr>;
          token = newSessionToken hmac uuid 0; expiresAt = refreshExpiry config now
      in case insertUser user db of
           None \<Rightarrow> (db, Inl Conflict)
         | Some db1 \<Rightarrow>
             (case insertSession uuid \<lparr>se_userId = userId, se_tokenHash = sha256 token,
                     se_refreshSequence = 0, se_expiresAt = expiresAt, se_revokedAt = None\<rparr> db1 of
                None \<Rightarrow> (db, Inl Conflict)
              | Some db2 \<Rightarrow> (db2, Inr (buildAuthResult sign config (safe_user.truncate user) uuid token expiresAt))))"

definition dummy_password_hash :: jstring where
  "dummy_password_hash = js ''$argon2id$v=19$m=19456,p=1,t=2$itoy0/WJ82GRUBcp9drOYA$f+1s4dfv3reO0lTQhPcyfn+VT5bADodp9cIHmpG1iLI''"

definition findUserByEmail :: "jstring \<Rightarrow> auth_db \<Rightarrow> user_row option" where
  "findUserByEmail email db = find (\<lambda>u. us_email u = email) (db_users db)"

definition login ::
  "(jstring \<Rightarrow> jstring) \<Rightarrow> (jstring \<Rightarrow> jstring) \<Rightarrow> (jstring \<Rightarrow> jstring) \<Rightarrow> (jstring \<Rightarrow> jstring \<Rightarrow> bool)
     \<Rightarrow> (jstring \<Rightarrow> jstring \<Rightarrow> jstring) \<Rightarrow> auth_config \<Rightarrow> int \<Rightarrow> jstring \<Rightarrow> jstring \<Rightarrow> jstring
     \<Rightarrow> auth_db \<Rightarrow> auth_db \<times> (auth_error + auth_result)" where
  "login hmac sha256 lower verifyPassword sign config now uuid email password db =
     (let user = findUserByEmail (normalizeEmail lower email) db;
          passwordMatches = verifyPassword
            (case user of None \<Rightarrow> dummy_password_hash | Some u \<Rightarrow> us_passwordHash u) password
      in case user of
           None \<Rightarrow> (db, Inl Unauthorized)
         | Some u \<Rightarrow>
             if \<not> passwordMatches then (db, Inl Unauthorized)
             else (let token = newSessionToken hmac uuid 0; expiresAt = refreshExpiry config now in
                   case insertSession uuid \<lparr>se_userId = us_id u, se_tokenHash = sha256 token,
                          se_refreshSequence = 0, se_expiresAt = expiresAt, se_revokedAt = None\<rparr> db of
                     None \<Rightarrow> (db, Inl DatabaseError)
                   | Some db' \<Rightarrow>
                       (db', Inr (buildAuthResult sign config (safe_user.truncate u) uuid token expiresAt))))"

text \<open>\<open>revokeReplayedSession\<close> and \<open>logout\<close> end the same way; the list has the
  sessions announced as revoked.\<close>

definition revokeAndForget ::
  "int \<Rightarrow> jstring \<Rightarrow> (session_row \<Rightarrow> bool) \<Rightarrow> auth_db \<Rightarrow> auth_db \<times> jstring list" where
  "revokeAndForget now sid condition db = (case revokeSession now sid condition db of
      (revoked, db') \<Rightarrow> if revoked then (deleteConsumed sid db', [sid]) else (db', []))"

definition findSessionUser :: "jstring \<Rightarrow> auth_db \<Rightarrow> (session_row \<times> user_row) option" where
  "findSessionUser sid db = (case sessionAt db sid of
      None \<Rightarrow> None
    | Some r \<Rightarrow> map_option (Pair r) (find (\<lambda>u. us_id u = se_userId r) (db_users db)))"

definition refresh ::
  "(jstring \<Rightarrow> bool) \<Rightarrow> (jstring \<Rightarrow> jstring) \<Rightarrow> (jstring \<Rightarrow> jstring) \<Rightarrow> (jstring \<Rightarrow> jstring \<Rightarrow> jstring)
     \<Rightarrow> auth_config \<Rightarrow> int \<Rightarrow> jstring option \<Rightarrow> auth_db
     \<Rightarrow> auth_db \<times> jstring list \<times> (auth_error + auth_result)" where
  "refresh isUUID hmac sha256 sign config now refreshToken db =
     (case parseRefreshToken isUUID hmac refreshToken of
        None \<Rightarrow> (db, [], Inl Unauthorized)
      | Some p \<Rightarrow>
          (let nextSequence = (case p of Versioned _ _ n \<Rightarrow> n + 1 | Legacy _ _ \<Rightarrow> 1) in
           if max_safe_integer < nextSequence then (db, [], Inl Unauthorized)
           else (let sid = pt_sessionId p;
                     nextToken = newSessionToken hmac sid nextSequence;
                     presentedHash = sha256 (pt_token p); nextHash = sha256 nextToken
                 in case rotateRefreshToken now p presentedHash nextHash nextSequence db of
                      None \<Rightarrow> (db, [], Inl DatabaseError)
                    | Some (False, db1) \<Rightarrow>
                        (case revokeAndForget now sid (replayCondition p presentedHash db1) db1 of
                           (db2, events) \<Rightarrow> (db2, events, Inl Unauthorized))
                    | Some (True, db1) \<Rightarrow>
                        (case findSessionUser sid db1 of
                           None \<Rightarrow> (db1, [], Inl Unauthorized)
                         | Some (r, u) \<Rightarrow> (db1, [], Inr (buildAuthResult sign config (safe_user.truncate u)
                              (uuid_key sid) nextToken (se_expiresAt r)))))))"

definition logout ::
  "(jstring \<Rightarrow> bool) \<Rightarrow> (jstring \<Rightarrow> jstring) \<Rightarrow> (jstring \<Rightarrow> jstring) \<Rightarrow> int \<Rightarrow> jstring option \<Rightarrow> auth_db
     \<Rightarrow> auth_db \<times> jstring list" where
  "logout isUUID hmac sha256 now refreshToken db =
     (case parseRefreshToken isUUID hmac refreshToken of
        None \<Rightarrow> (db, [])
      | Some p \<Rightarrow> revokeAndForget now (pt_sessionId p)
                    (logoutCondition p (sha256 (pt_token p)) db) db)"

section \<open>Access tokens\<close>

record access_claims =
  ct_sub :: jstring
  ct_sid :: jstring
  ct_typ :: jstring
  ct_exp :: int

record principal = safe_user +
  pn_sessionId :: jstring
  pn_accessTokenExpiresAt :: int

text \<open>\<open>verifyJwt\<close> is \<open>jwtService.verifyAsync\<close> with the configured secret, issuer and
  audience. Times are milliseconds, \<open>exp\<close> is in seconds. \<open>isSafeInteger\<close> of an integer.\<close>

definition is_safe_integer :: "int \<Rightarrow> bool" where
  "is_safe_integer n \<longleftrightarrow> \<bar>n\<bar> \<le> int max_safe_integer"

definition active_session :: "int \<Rightarrow> jstring \<Rightarrow> jstring \<Rightarrow> auth_db \<Rightarrow> session_row option" where
  "active_session now userId sid db = (case sessionAt db sid of
      None \<Rightarrow> None
    | Some r \<Rightarrow> if se_userId r = uuid_key userId \<and> session_live now r then Some r else None)"

definition verifyAccessToken ::
  "(jstring \<Rightarrow> bool) \<Rightarrow> (jstring \<Rightarrow> access_claims option) \<Rightarrow> int \<Rightarrow> jstring \<Rightarrow> auth_db
     \<Rightarrow> auth_error + principal" where
  "verifyAccessToken isUUID verifyJwt now token db =
     (if token = [] \<or> 4096 < length token \<or> 0x20 \<in> set token then Inl Unauthorized
      else case verifyJwt token of
        None \<Rightarrow> Inl Unauthorized
      | Some c \<Rightarrow>
          if ct_typ c \<noteq> js ''access'' \<or> \<not> isUUID (ct_sub c) \<or> \<not> isUUID (ct_sid c)
             \<or> \<not> is_safe_integer (ct_exp c) \<or> ct_exp c \<le> now div 1000
          then Inl Unauthorized
          else (case active_session now (ct_sub c) (ct_sid c) db of
              None \<Rightarrow> Inl Unauthorized
            | Some r \<Rightarrow> (case find (\<lambda>u. us_id u = se_userId r) (db_users db) of
                None \<Rightarrow> Inl Unauthorized
              | Some u \<Rightarrow> Inr (safe_user.extend (safe_user.truncate u)
                  \<lparr>pn_sessionId = uuid_key (ct_sid c), pn_accessTokenExpiresAt = ct_exp c\<rparr>))))"

definition isSessionActive :: "(jstring \<Rightarrow> bool) \<Rightarrow> int \<Rightarrow> jstring \<Rightarrow> jstring \<Rightarrow> auth_db \<Rightarrow> bool" where
  "isSessionActive isUUID now userId sid db \<longleftrightarrow>
     isUUID userId \<and> isUUID sid \<and> active_session now userId sid db \<noteq> None"

definition lockActiveSession :: "(jstring \<Rightarrow> bool) \<Rightarrow> int \<Rightarrow> jstring \<Rightarrow> jstring \<Rightarrow> auth_db \<Rightarrow> bool" where
  "lockActiveSession isUUID now userId sid db \<longleftrightarrow>
     isUUID userId \<and> isUUID sid \<and> active_session now userId sid db \<noteq> None"

section \<open>Maintenance\<close>

text \<open>\<open>do { deleted = ... } while (deleted === batchSize)\<close>, with the time each statement reads;
  \<open>None\<close> is a loop that does not end.\<close>

partial_function (option) removeExpiredSessions ::
  "(nat \<Rightarrow> int) \<Rightarrow> nat \<Rightarrow> nat \<Rightarrow> auth_db \<Rightarrow> auth_db option" where
  "removeExpiredSessions clock i batchSize db =
     (case deleteExpiredBatch (clock i) batchSize db of (deleted, db') \<Rightarrow>
        if deleted = batchSize then removeExpiredSessions clock (Suc i) batchSize db' else Some db')"

end
