(* ===== verification/Auth_Laws.thy ===== *)
theory Auth_Laws
  imports Auth_Sessions
begin

text \<open>
  The database under any interleaving of the statements of concurrent requests, and what every sequence
  of them keeps: a revoked session stays revoked, a sequence number is spent once. The rotations that
  succeeded are recorded in the ghost component of the state, with every session identifier used so far;
  a random UUID is taken to be new.
\<close>

record auth_state =
  as_db :: auth_db
  as_spent :: "(jstring \<times> nat) list"
  as_ids :: "jstring set"

inductive auth_step :: "auth_state \<Rightarrow> auth_state \<Rightarrow> bool" where
  InsertUser: "insertUser u (as_db s) = Some db' \<Longrightarrow> auth_step s (s\<lparr>as_db := db'\<rparr>)"
| InsertSession: "uuid_key sid \<notin> as_ids s \<Longrightarrow> se_refreshSequence r = 0 \<Longrightarrow> se_revokedAt r = None \<Longrightarrow>
    insertSession sid r (as_db s) = Some db' \<Longrightarrow>
    auth_step s (s\<lparr>as_db := db', as_ids := insert (uuid_key sid) (as_ids s)\<rparr>)"
| Rotate: "rotateRefreshToken now p h h' (Suc (expectedSequence p)) (as_db s) = Some (True, db') \<Longrightarrow>
    auth_step s (s\<lparr>as_db := db',
      as_spent := as_spent s @ [(uuid_key (pt_sessionId p), expectedSequence p)]\<rparr>)"
| Revoke: "auth_step s (s\<lparr>as_db := snd (revokeSession now sid condition (as_db s))\<rparr>)"
| Forget: "auth_step s (s\<lparr>as_db := deleteConsumed sid (as_db s)\<rparr>)"
| Cleanup: "auth_step s (s\<lparr>as_db := snd (deleteExpiredBatch now n (as_db s))\<rparr>)"

inductive auth_steps :: "auth_state \<Rightarrow> auth_state \<Rightarrow> bool" where
  Refl: "auth_steps s s"
| Step: "auth_steps s s' \<Longrightarrow> auth_step s' s'' \<Longrightarrow> auth_steps s s''"

text \<open>A state to begin with: its sessions have used identifiers, and nothing was recorded yet.\<close>

definition auth_start :: "auth_state \<Rightarrow> bool" where
  "auth_start s \<longleftrightarrow> as_spent s = [] \<and> fst ` set (db_sessions (as_db s)) \<subseteq> as_ids s"

section \<open>Reading after each statement\<close>

lemma sessionAt_putSession:
  "sessionAt (putSession sid r db) sid' = (if uuid_key sid' = uuid_key sid then Some r else sessionAt db sid')"
  by (simp add: sessionAt_def putSession_def mapGet_mapSet)

definition rowAt :: "auth_db \<Rightarrow> jstring \<Rightarrow> session_row option" where
  "rowAt db k = mapGet (db_sessions db) k"

lemma sessionAt_rowAt: "sessionAt db sid = rowAt db (uuid_key sid)"
  by (simp add: sessionAt_def rowAt_def)

lemma rowAt_putSession: "rowAt (putSession sid r db) k = (if k = uuid_key sid then Some r else rowAt db k)"
  by (simp add: rowAt_def putSession_def mapGet_mapSet)

lemma rowAt_consumed [simp]: "rowAt (db\<lparr>db_consumed := c\<rparr>) k = rowAt db k"
  "rowAt (db\<lparr>db_users := us\<rparr>) k = rowAt db k"
  by (simp_all add: rowAt_def)

lemma rotate_effect:
  assumes "rotateRefreshToken now p h h' n db = Some (True, db')"
  shows "\<exists>r. rowAt db (uuid_key (pt_sessionId p)) = Some r \<and> se_tokenHash r = h
    \<and> se_refreshSequence r = expectedSequence p \<and> session_live now r
    \<and> (\<forall>k. rowAt db' k = (if k = uuid_key (pt_sessionId p)
          then Some (r\<lparr>se_tokenHash := h', se_refreshSequence := n\<rparr>) else rowAt db k))"
  using assms
  by (auto simp: rotateRefreshToken_def Let_def sessionAt_rowAt rowAt_putSession split: option.splits if_splits)

lemma rowAt_revoke: "rowAt (snd (revokeSession now sid c db)) k =
    (case rowAt db k of None \<Rightarrow> None | Some r \<Rightarrow>
       if k = uuid_key sid \<and> se_revokedAt r = None \<and> c r then Some (r\<lparr>se_revokedAt := Some now\<rparr>) else Some r)"
  by (auto simp: revokeSession_def sessionAt_rowAt rowAt_putSession split: option.split)

lemma map_of_filter_keys: "map_of (filter (\<lambda>e. fst e \<notin> K) m) k = (if k \<in> K then None else map_of m k)"
  by (induction m) auto

lemma rowAt_deleteSessions: "rowAt (deleteSessions ks db) k = (if k \<in> set ks then None else rowAt db k)"
  by (simp add: rowAt_def deleteSessions_def map_of_filter_keys)

lemma rowAt_insert: "insertSession sid r db = Some db' \<Longrightarrow>
    rowAt db (uuid_key sid) = None \<and> rowAt db' k = (if k = uuid_key sid then Some r else rowAt db k)"
  by (auto simp: insertSession_def sessionAt_rowAt rowAt_putSession split: if_splits)

section \<open>What every step keeps\<close>

definition revoked_at :: "auth_state \<Rightarrow> jstring \<Rightarrow> bool" where
  "revoked_at s k \<longleftrightarrow> k \<in> as_ids s \<and> (\<forall>r. rowAt (as_db s) k = Some r \<longrightarrow> se_revokedAt r \<noteq> None)"

definition spent_inv :: "auth_state \<Rightarrow> bool" where
  "spent_inv s \<longleftrightarrow> (\<forall>k. rowAt (as_db s) k \<noteq> None \<longrightarrow> k \<in> as_ids s)
     \<and> (\<forall>(k, n) \<in> set (as_spent s). k \<in> as_ids s
          \<and> (\<forall>r. rowAt (as_db s) k = Some r \<longrightarrow> n < se_refreshSequence r))
     \<and> distinct (as_spent s)"

lemma revoked_step: "auth_step s s' \<Longrightarrow> revoked_at s k \<Longrightarrow> revoked_at s' k"
proof (induction rule: auth_step.induct)
  case (InsertUser u s db')
  then show ?case by (auto simp: revoked_at_def insertUser_def split: if_splits)
next
  case (InsertSession sid s r db')
  then show ?case using rowAt_insert [OF InsertSession(4)] by (auto simp: revoked_at_def)
next
  case (Rotate now p h h' s db')
  let ?k = "uuid_key (pt_sessionId p)"
  from rotate_effect [OF Rotate(1)] obtain r where "rowAt (as_db s) ?k = Some r" "se_revokedAt r = None"
    and other: "\<And>k. k \<noteq> ?k \<Longrightarrow> rowAt db' k = rowAt (as_db s) k" by (auto simp: session_live_def)
  with Rotate(2) have "k \<noteq> ?k" by (auto simp: revoked_at_def)
  with Rotate(2) other show ?case by (simp add: revoked_at_def)
next
  case (Revoke s now sid c)
  then show ?case by (auto simp: revoked_at_def rowAt_revoke split: option.splits)
next
  case (Forget s sid)
  then show ?case by (simp add: revoked_at_def deleteConsumed_def)
next
  case (Cleanup s now n)
  then show ?case by (simp add: revoked_at_def deleteExpiredBatch_def Let_def rowAt_deleteSessions)
qed

lemma revoked_steps: "auth_steps s s' \<Longrightarrow> revoked_at s k \<Longrightarrow> revoked_at s' k"
  by (induction rule: auth_steps.induct) (auto intro: revoked_step)

lemma spent_start: "auth_start s \<Longrightarrow> spent_inv s"
  by (force simp: auth_start_def spent_inv_def rowAt_def dest: map_of_SomeD)

lemma spent_step: "auth_step s s' \<Longrightarrow> spent_inv s \<Longrightarrow> spent_inv s'"
proof (induction rule: auth_step.induct)
  case (InsertUser u s db')
  then show ?case by (auto simp: spent_inv_def insertUser_def split: if_splits)
next
  case (InsertSession sid s r db')
  have after: "rowAt db' k = (if k = uuid_key sid then Some r else rowAt (as_db s) k)" for k
    using rowAt_insert [OF InsertSession(4)] by blast
  have "(k, n) \<in> set (as_spent s) \<Longrightarrow> k \<noteq> uuid_key sid" for k n
    using InsertSession by (auto simp: spent_inv_def)
  with InsertSession(5) show ?case by (fastforce simp: spent_inv_def after)
next
  case (Rotate now p h h' s db')
  let ?k = "uuid_key (pt_sessionId p)" and ?n = "expectedSequence p"
  from rotate_effect [OF Rotate(1)] obtain r where r: "rowAt (as_db s) ?k = Some r"
    "se_refreshSequence r = ?n" and after: "\<And>k. rowAt db' k = (if k = ?k
      then Some (r\<lparr>se_tokenHash := h', se_refreshSequence := Suc ?n\<rparr>) else rowAt (as_db s) k)" by blast
  have inv: "k \<in> as_ids s" if "rowAt (as_db s) k \<noteq> None" for k using Rotate that by (auto simp: spent_inv_def)
  have spent: "k \<in> as_ids s \<and> (\<forall>r. rowAt (as_db s) k = Some r \<longrightarrow> n < se_refreshSequence r)"
    if "(k, n) \<in> set (as_spent s)" for k n using Rotate that by (auto simp: spent_inv_def)
  have "(?k, ?n) \<notin> set (as_spent s)" using spent [of ?k ?n] r by auto
  moreover have "distinct (as_spent s)" using Rotate by (simp add: spent_inv_def)
  moreover have "?k \<in> as_ids s" using inv [of ?k] r by simp
  moreover have "n < ?n" if "(?k, n) \<in> set (as_spent s)" for n using spent [OF that] r by auto
  ultimately show ?case
    using inv spent by (auto simp: spent_inv_def after less_Suc_eq split: if_splits) 
next
  case (Revoke s now sid c)
  then show ?case by (fastforce simp: spent_inv_def rowAt_revoke split: option.splits if_splits)
next
  case (Forget s sid)
  then show ?case by (simp add: spent_inv_def deleteConsumed_def)
next
  case (Cleanup s now n)
  then show ?case by (auto simp: spent_inv_def deleteExpiredBatch_def Let_def rowAt_deleteSessions split: if_splits)
qed

lemma spent_steps: "auth_steps s s' \<Longrightarrow> spent_inv s \<Longrightarrow> spent_inv s'"
  by (induction rule: auth_steps.induct) (auto intro: spent_step)

section \<open>The cleanup loop\<close>

lemma expired_batch_subset: "set (expired_batch now n db) \<subseteq> {k. \<exists>r. (k, r) \<in> set (db_sessions db) \<and> se_expiresAt r \<le> now}"
proof
  fix k assume "k \<in> set (expired_batch now n db)"
  then obtain e where "e \<in> set (db_sessions db)" "se_expiresAt (snd e) \<le> now" "k = fst e"
    unfolding expired_batch_def by (auto dest!: set_take_subset [THEN subsetD])
  then show "k \<in> {k. \<exists>r. (k, r) \<in> set (db_sessions db) \<and> se_expiresAt r \<le> now}"
    by (intro CollectI exI [of _ "snd e"]) simp
qed

lemma deleteSessions_length:
  assumes "ks \<noteq> []" and "set ks \<subseteq> fst ` set (db_sessions db)"
  shows "length (db_sessions (deleteSessions ks db)) < length (db_sessions db)"
proof -
  from assms obtain e where "e \<in> set (db_sessions db)" "fst e \<in> set ks" by (cases ks) auto
  then show ?thesis by (auto simp: deleteSessions_def intro: length_filter_less)
qed

lemma batch_shrinks:
  assumes "deleteExpiredBatch now n db = (n, db')" and "0 < n"
  shows "length (db_sessions db') < length (db_sessions db)"
proof -
  have "length (expired_batch now n db) = n" "db' = deleteSessions (expired_batch now n db) db"
    using assms(1) by (simp_all add: deleteExpiredBatch_def Let_def)
  moreover have "set (expired_batch now n db) \<subseteq> fst ` set (db_sessions db)"
    using expired_batch_subset [of now n db] by force
  moreover have "expired_batch now n db \<noteq> []" using calculation(1) assms(2) by auto
  ultimately show ?thesis using deleteSessions_length [of "expired_batch now n db" db] by simp
qed

text \<open>The last batch is not full, so it had every expired session.\<close>

lemma short_batch_complete:
  assumes "deleteExpiredBatch now n db = (k, db')" and "k \<noteq> n" and "distinct (mapKeys (db_sessions db))"
  shows "db_sessions db' = filter (\<lambda>e. now < se_expiresAt (snd e)) (db_sessions db)"
proof -
  let ?exp = "filter (\<lambda>e. se_expiresAt (snd e) \<le> now) (db_sessions db)"
  let ?sorted = "sort_key (\<lambda>e. se_expiresAt (snd e)) ?exp"
  have "length (take n ?sorted) \<noteq> n"
    using assms(1,2) by (simp add: deleteExpiredBatch_def Let_def expired_batch_def)
  then have "take n ?sorted = ?sorted" by (simp add: min_def split: if_splits)
  then have keys: "set (expired_batch now n db) = fst ` set ?exp" by (simp add: expired_batch_def)
  have "e \<in> set (db_sessions db) \<Longrightarrow> fst e \<in> fst ` set ?exp \<longleftrightarrow> se_expiresAt (snd e) \<le> now" for e
    using assms(3) by (auto simp: distinct_map inj_on_def)
  then have "filter (\<lambda>e. fst e \<notin> set (expired_batch now n db)) (db_sessions db)
      = filter (\<lambda>e. now < se_expiresAt (snd e)) (db_sessions db)"
    unfolding keys by (intro filter_cong) auto
  then show ?thesis using assms(1) by (auto simp: deleteExpiredBatch_def deleteSessions_def Let_def)
qed

lemma batch_keeps_unexpired:
  assumes "deleteExpiredBatch now n db = (k, db')" and "distinct (mapKeys (db_sessions db))"
  shows "distinct (mapKeys (db_sessions db'))" "set (db_sessions db') \<subseteq> set (db_sessions db)"
    "now \<le> later \<Longrightarrow> filter (\<lambda>e. later < se_expiresAt (snd e)) (db_sessions db')
      = filter (\<lambda>e. later < se_expiresAt (snd e)) (db_sessions db)"
proof -
  have db': "db_sessions db' = filter (\<lambda>e. fst e \<notin> set (expired_batch now n db)) (db_sessions db)"
    using assms(1) by (auto simp: deleteExpiredBatch_def Let_def deleteSessions_def)
  show "distinct (mapKeys (db_sessions db'))" "set (db_sessions db') \<subseteq> set (db_sessions db)"
    using assms(2) by (auto simp: db' intro: distinct_map_filter)
  assume "now \<le> later"
  have "fst e \<notin> set (expired_batch now n db)" if "e \<in> set (db_sessions db)" "later < se_expiresAt (snd e)" for e
  proof
    assume "fst e \<in> set (expired_batch now n db)"
    with expired_batch_subset [of now n db] obtain r where
      "(fst e, r) \<in> set (db_sessions db)" "se_expiresAt r \<le> now" by auto
    with that assms(2) have "r = snd e" by (metis eq_key_imp_eq_value prod.collapse)
    with \<open>se_expiresAt r \<le> now\<close> \<open>now \<le> later\<close> that show False by simp
  qed
  then show "filter (\<lambda>e. later < se_expiresAt (snd e)) (db_sessions db')
      = filter (\<lambda>e. later < se_expiresAt (snd e)) (db_sessions db)"
    unfolding db' filter_filter by (intro filter_cong) auto
qed

lemma cleanup_loop:
  assumes "0 < batchSize" and "distinct (mapKeys (db_sessions db))" and "mono clock"
  shows "\<exists>k db'. removeExpiredSessions clock i batchSize db = Some db' \<and> i \<le> k
    \<and> db_sessions db' = filter (\<lambda>e. clock k < se_expiresAt (snd e)) (db_sessions db)"
  using assms(2)
proof (induction "length (db_sessions db)" arbitrary: db i rule: less_induct)
  case less
  obtain n db1 where b: "deleteExpiredBatch (clock i) batchSize db = (n, db1)"
    by (cases "deleteExpiredBatch (clock i) batchSize db")
  show ?case
  proof (cases "n = batchSize")
    case True
    with b have b': "deleteExpiredBatch (clock i) batchSize db = (batchSize, db1)" by simp
    note keep = batch_keeps_unexpired [OF b less.prems]
    from less.hyps [OF batch_shrinks [OF b' assms(1)] keep(1), of "Suc i"] obtain k db' where
      k: "removeExpiredSessions clock (Suc i) batchSize db1 = Some db'" "Suc i \<le> k"
      "db_sessions db' = filter (\<lambda>e. clock k < se_expiresAt (snd e)) (db_sessions db1)" by blast
    have "clock i \<le> clock k" using monoD [OF assms(3)] k(2) by simp
    from keep(3) [OF this] k b' show ?thesis
      by (intro exI [of _ k] exI [of _ db']) (simp add: removeExpiredSessions.simps [of clock i])
  next
    case False
    with b short_batch_complete [OF b False less.prems] show ?thesis
      by (intro exI [of _ i] exI [of _ db1]) (simp add: removeExpiredSessions.simps [of clock i])
  qed
qed

end
