(* ===== verification/Auth_Properties.thy ===== *)
theory Auth_Properties
  imports Auth_Laws
begin

text \<open>
  The properties of refresh tokens, sessions and their maintenance, each applied to a small database
  where it has hypotheses.
\<close>

section \<open>A small database\<close>

definition sample_uuid :: jstring where
  "sample_uuid = js ''9b2e6f0c-5a41-4c8b-8d3e-0f1a2b3c4d5e''"

definition sample_hmac :: "jstring \<Rightarrow> jstring" where
  "sample_hmac m = replicate 43 0x41"

definition sample_isUUID :: "jstring \<Rightarrow> bool" where
  "sample_isUUID s \<longleftrightarrow> s = sample_uuid"

lemma sample_hmac_ok: "hmac_base64url sample_hmac"
  by (simp add: hmac_base64url_def sample_hmac_def is_digest_text_def is_base64url_def)

lemma sample_uuid_eval: "length sample_uuid = 36" "dot \<notin> set sample_uuid" "uuid_key sample_uuid = sample_uuid"
  by (simp_all add: sample_uuid_def js_def dot_def uuid_key_def)

lemma sample_isUUID_ok: "uuid_text sample_isUUID" "sample_isUUID sample_uuid"
  by (simp_all add: uuid_text_def sample_isUUID_def sample_uuid_eval)

definition sample_token :: "nat \<Rightarrow> jstring" where
  "sample_token n = newSessionToken sample_hmac sample_uuid n"

definition sample_session :: "nat \<Rightarrow> session_row" where
  "sample_session n = \<lparr>se_userId = js ''u'', se_tokenHash = sample_token n, se_refreshSequence = n,
     se_expiresAt = 1000, se_revokedAt = None\<rparr>"

definition sample_user :: user_row where
  "sample_user = \<lparr>us_id = js ''u'', us_email = js ''ana@x'', us_displayName = js ''Ana'', us_passwordHash = []\<rparr>"

definition sample_db :: "nat \<Rightarrow> auth_db" where
  "sample_db n = \<lparr>db_users = [sample_user], db_sessions = [(sample_uuid, sample_session n)], db_consumed = []\<rparr>"

definition sample_state :: "nat \<Rightarrow> auth_state" where
  "sample_state n = \<lparr>as_db = sample_db n, as_spent = [], as_ids = {sample_uuid}\<rparr>"

lemma sample_sessionAt: "sessionAt (sample_db n) sample_uuid = Some (sample_session n)"
  by (simp add: sessionAt_def sample_db_def sample_uuid_eval)

lemma sample_start: "auth_start (sample_state n)"
  by (simp add: auth_start_def sample_state_def sample_db_def)

section \<open>Refresh tokens\<close>

text \<open>C24. Parsing undoes issuing: the token issued for a session and sequence number parses to that
  session and number.\<close>

theorem refresh_token_round_trip:
  assumes "hmac_base64url hmac" and "uuid_text isUUID" and "isUUID sid" and "n \<le> max_safe_integer"
  shows "parseRefreshToken isUUID hmac (Some (newSessionToken hmac sid n))
     = Some (Versioned sid (newSessionToken hmac sid n) n)"
  using assms by (rule parse_newSessionToken)

theorem refresh_token_round_trip_witness:
  "parseRefreshToken sample_isUUID sample_hmac (Some (sample_token 7)) = Some (Versioned sample_uuid (sample_token 7) 7)"
  using refresh_token_round_trip [OF sample_hmac_ok sample_isUUID_ok, of 7]
  by (simp add: sample_token_def max_safe_integer_def)

lemma sample_parse: "n < 100 \<Longrightarrow> parseRefreshToken sample_isUUID sample_hmac (Some (sample_token n))
    = Some (Versioned sample_uuid (sample_token n) n)"
  using parse_newSessionToken [OF sample_hmac_ok sample_isUUID_ok, of n]
  by (simp add: sample_token_def max_safe_integer_def)

text \<open>Nothing the server did not sign parses as a versioned token: the text begins with the token
  of its session and number, and what may follow it starts a new, empty part.\<close>

theorem versioned_token_is_signed:
  assumes "parseRefreshToken isUUID hmac v = Some (Versioned sid tok n)"
  shows "v = Some tok \<and> isUUID sid \<and> n \<le> max_safe_integer
    \<and> (tok = newSessionToken hmac sid n \<or> (\<exists>rest. tok = newSessionToken hmac sid n @ [dot] @ rest
          \<and> (rest = [] \<or> hd rest = dot)))"
  using assms by (rule parse_versioned_sound)

theorem versioned_token_is_signed_witness: "sample_isUUID sample_uuid \<and> (3::nat) \<le> max_safe_integer"
  using versioned_token_is_signed [OF sample_parse [of 3]] by simp

text \<open>The second case of the previous property happens: a token with a dot after it is accepted
  by the parser, because the test of the fourth part takes an empty part for a missing one.\<close>

theorem token_with_trailing_dot_parses:
  "parseRefreshToken sample_isUUID sample_hmac (Some (sample_token 3 @ [dot]))
     = Some (Versioned sample_uuid (sample_token 3 @ [dot]) 3)"
proof -
  have three: "show_nat 3 = [0x33]" by (simp add: show_nat.simps digit_unit_def)
  have "dot \<notin> set (show_nat 3)" "dot \<notin> set (replicate 43 (0x41 :: 16 word))"
    by (simp_all add: three dot_def)
  then have "js_split (sample_token 3 @ [dot]) [dot] = [sample_uuid, show_nat 3, replicate 43 0x41, []]"
    using sample_uuid_eval(2)
    by (simp add: sample_token_def newSessionToken_def refreshTokenSignature_def sample_hmac_def
        js_split_sep js_split_no_sep)
  moreover have "length (sample_token 3 @ [dot]) \<le> 256" "sample_token 3 @ [dot] \<noteq> []"
    by (simp_all add: sample_token_def newSessionToken_def refreshTokenSignature_def sample_hmac_def
        sample_uuid_eval three)
  moreover have "is_digest_text (replicate 43 0x41)" by (simp add: is_digest_text_def is_base64url_def)
  moreover have "sample_uuid \<noteq> []" using sample_uuid_eval(1) by auto
  ultimately show ?thesis
    by (simp add: parseRefreshToken_def canonical_show_nat digits_val_show_nat sample_isUUID_ok(2)
        isRefreshTokenSignatureValid_def refreshTokenSignature_def sample_hmac_def max_safe_integer_def)
qed

section \<open>Sessions\<close>

text \<open>C25. Whatever the order in which the statements of concurrent requests run, the token of a
  session and sequence number is exchanged at most once: after it was, no rotation with that number
  changes a row.\<close>

theorem refresh_token_single_use:
  assumes "auth_start s" and "auth_steps s s'"
  shows "distinct (as_spent s')
    \<and> (\<forall>p now h h' m db'. (uuid_key (pt_sessionId p), expectedSequence p) \<in> set (as_spent s') \<longrightarrow>
        rotateRefreshToken now p h h' m (as_db s') \<noteq> Some (True, db'))"
proof -
  have inv: "spent_inv s'" by (rule spent_steps [OF assms(2) spent_start [OF assms(1)]])
  have "rotateRefreshToken now p h h' m (as_db s') \<noteq> Some (True, db')"
    if "(uuid_key (pt_sessionId p), expectedSequence p) \<in> set (as_spent s')" for p now h h' m db'
  proof
    assume "rotateRefreshToken now p h h' m (as_db s') = Some (True, db')"
    from rotate_effect [OF this] obtain r where
      "rowAt (as_db s') (uuid_key (pt_sessionId p)) = Some r" "se_refreshSequence r = expectedSequence p" by blast
    with inv that show False by (auto simp: spent_inv_def)
  qed
  with inv show ?thesis by (simp add: spent_inv_def)
qed

theorem refresh_token_single_use_witness:
  "\<exists>s'. auth_steps (sample_state 0) s' \<and> as_spent s' = [(sample_uuid, 0)]
    \<and> rotateRefreshToken 5 (Versioned sample_uuid (sample_token 0) 0) (sample_token 0) (sample_token 1) 1 (as_db s')
        \<noteq> Some (True, sample_db 1)"
proof -
  let ?p = "Versioned sample_uuid (sample_token 0) 0"
  obtain db' where r: "rotateRefreshToken 5 ?p (sample_token 0) (sample_token 1) 1 (sample_db 0) = Some (True, db')"
    by (simp add: rotateRefreshToken_def sample_sessionAt Let_def sample_session_def session_live_def
        max_integer_column_def expectedSequence_def is_legacy_def)
      (simp add: token_hash_used_def sample_db_def sample_uuid_eval Let_def)
  let ?s = "(sample_state 0)\<lparr>as_db := db', as_spent := as_spent (sample_state 0) @
    [(uuid_key (pt_sessionId ?p), expectedSequence ?p)]\<rparr>"
  have "rotateRefreshToken 5 ?p (sample_token 0) (sample_token 1) (Suc (expectedSequence ?p))
      (as_db (sample_state 0)) = Some (True, db')"
    using r by (simp add: sample_state_def expectedSequence_def)
  from auth_step.Rotate [OF this] have "auth_step (sample_state 0) ?s" .
  then have steps: "auth_steps (sample_state 0) ?s" by (rule auth_steps.Step [OF auth_steps.Refl])
  with refresh_token_single_use [OF sample_start this] show ?thesis
    by (intro exI [of _ ?s]) (simp add: sample_state_def expectedSequence_def sample_uuid_eval)
qed

text \<open>C26. Revocation is final: once a session is revoked, or removed, no later interleaving of
  statements lets its tokens rotate, its access tokens pass, or a transaction lock it as active.\<close>

theorem revocation_is_final:
  assumes "auth_steps s s'" and "revoked_at s (uuid_key sid)"
  shows "(\<forall>p now h h' m db'. uuid_key (pt_sessionId p) = uuid_key sid \<longrightarrow>
        rotateRefreshToken now p h h' m (as_db s') \<noteq> Some (True, db'))
    \<and> \<not> isSessionActive isUUID now u sid (as_db s') \<and> \<not> lockActiveSession isUUID now u sid (as_db s')
    \<and> (\<forall>c. verifyJwt token = Some c \<and> uuid_key (ct_sid c) = uuid_key sid \<longrightarrow>
        verifyAccessToken isUUID verifyJwt now token (as_db s') = Inl Unauthorized)"
proof -
  have gone: "\<And>r. rowAt (as_db s') (uuid_key sid) = Some r \<Longrightarrow> se_revokedAt r \<noteq> None"
    using revoked_steps [OF assms] by (simp add: revoked_at_def)
  then have inactive: "uuid_key x = uuid_key sid \<Longrightarrow> active_session now u x (as_db s') = None" for x now u
    by (auto simp: active_session_def sessionAt_rowAt session_live_def split: option.split)
  have "rotateRefreshToken now p h h' m (as_db s') \<noteq> Some (True, db')"
    if "uuid_key (pt_sessionId p) = uuid_key sid" for p now h h' m db'
    using gone rotate_effect [of now p h h' m "as_db s'" db'] that by (auto simp: session_live_def)
  with inactive show ?thesis
    by (auto simp: isSessionActive_def lockActiveSession_def verifyAccessToken_def)
qed

theorem revocation_is_final_witness:
  "\<not> isSessionActive sample_isUUID 5 (js ''u'') sample_uuid
     (snd (revokeSession 4 sample_uuid (\<lambda>_. True) (sample_db 2)))"
proof -
  let ?s = "(sample_state 2)\<lparr>as_db := snd (revokeSession 4 sample_uuid (\<lambda>_. True) (as_db (sample_state 2)))\<rparr>"
  have "rowAt (sample_db 2) (uuid_key sample_uuid) = Some (sample_session 2)"
    using sample_sessionAt [of 2] by (simp add: sessionAt_rowAt)
  then have "revoked_at ?s (uuid_key sample_uuid)"
    by (auto simp: revoked_at_def rowAt_revoke sample_state_def sample_uuid_eval sample_session_def)
  from revocation_is_final [OF auth_steps.Refl this, of sample_isUUID 5 "js ''u''"] show ?thesis
    by (simp add: sample_state_def)
qed

text \<open>C27. What \<open>refresh\<close> does with a signed token of a session that is not revoked: an older
  number revokes the session and announces it, whether or not the session has expired; the current
  number of a session in force, with the stored hash, is exchanged for the next one and nothing else
  changes; a number that was never issued changes nothing.\<close>

theorem refresh_outcome:
  assumes "parseRefreshToken isUUID hmac v = Some (Versioned sid tok n)" and "n < max_safe_integer"
    and "sessionAt db sid = Some r" and "se_revokedAt r = None"
    and "refresh isUUID hmac sha256 sign config now v db = (db', events, result)"
  shows "(n < se_refreshSequence r \<longrightarrow> result = Inl Unauthorized \<and> events = [sid]
        \<and> db' = deleteConsumed sid (putSession sid (r\<lparr>se_revokedAt := Some now\<rparr>) db))
    \<and> (n = se_refreshSequence r \<and> now < se_expiresAt r \<and> se_tokenHash r = sha256 tok
        \<and> n < max_integer_column \<and> \<not> token_hash_used sid (sha256 (newSessionToken hmac sid (n + 1))) db
        \<and> (\<exists>u \<in> set (db_users db). us_id u = se_userId r) \<longrightarrow>
          events = [] \<and> (\<exists>a. result = Inr a \<and> ar_refreshToken a = newSessionToken hmac sid (n + 1))
          \<and> db' = putSession sid (r\<lparr>se_tokenHash := sha256 (newSessionToken hmac sid (n + 1)),
              se_refreshSequence := n + 1\<rparr>) db)
    \<and> (se_refreshSequence r < n \<longrightarrow> result = Inl Unauthorized \<and> events = [] \<and> db' = db)"
proof -
  have rot: "refresh isUUID hmac sha256 sign config now v db =
    (case rotateRefreshToken now (Versioned sid tok n) (sha256 tok)
            (sha256 (newSessionToken hmac sid (n + 1))) (n + 1) db of
       None \<Rightarrow> (db, [], Inl DatabaseError)
     | Some (False, db1) \<Rightarrow>
         (case revokeAndForget now sid (replayCondition (Versioned sid tok n) (sha256 tok) db1) db1 of
            (db2, events) \<Rightarrow> (db2, events, Inl Unauthorized))
     | Some (True, db1) \<Rightarrow> (case findSessionUser sid db1 of
           None \<Rightarrow> (db1, [], Inl Unauthorized)
         | Some (r, u) \<Rightarrow> (db1, [], Inr (buildAuthResult sign config (safe_user.truncate u)
              (uuid_key sid) (newSessionToken hmac sid (n + 1)) (se_expiresAt r)))))"
    using assms(1,2) by (simp add: refresh_def Let_def del: One_nat_def)
  have no: "rotateRefreshToken now (Versioned sid tok n) (sha256 tok)
      (sha256 (newSessionToken hmac sid (n + 1))) (n + 1) db = Some (False, db)" if "n \<noteq> se_refreshSequence r"
    using that assms(3) by (simp add: rotateRefreshToken_def Let_def expectedSequence_def)
  show ?thesis
  proof (intro conjI impI)
    assume "n < se_refreshSequence r"
    with no rot assms(3-5) show "result = Inl Unauthorized" "events = [sid]"
      "db' = deleteConsumed sid (putSession sid (r\<lparr>se_revokedAt := Some now\<rparr>) db)"
      by (auto simp: revokeAndForget_def revokeSession_def replayCondition_def)
  next
    assume "se_refreshSequence r < n"
    with no rot assms(3-5) show "result = Inl Unauthorized" "events = []" "db' = db"
      by (auto simp: revokeAndForget_def revokeSession_def replayCondition_def)
  next
    assume a: "n = se_refreshSequence r \<and> now < se_expiresAt r \<and> se_tokenHash r = sha256 tok
        \<and> n < max_integer_column \<and> \<not> token_hash_used sid (sha256 (newSessionToken hmac sid (n + 1))) db
        \<and> (\<exists>u \<in> set (db_users db). us_id u = se_userId r)"
    let ?r = "r\<lparr>se_tokenHash := sha256 (newSessionToken hmac sid (n + 1)), se_refreshSequence := n + 1\<rparr>"
    have yes: "rotateRefreshToken now (Versioned sid tok n) (sha256 tok)
        (sha256 (newSessionToken hmac sid (n + 1))) (n + 1) db = Some (True, putSession sid ?r db)"
      using a assms(3,4)
      by (auto simp: rotateRefreshToken_def Let_def expectedSequence_def is_legacy_def session_live_def)
    obtain u where u: "find (\<lambda>u. us_id u = se_userId r) (db_users db) = Some u"
      using a by (cases "find (\<lambda>u. us_id u = se_userId r) (db_users db)") (auto simp: find_None_iff)
    have "findSessionUser sid (putSession sid ?r db) = Some (?r, u)"
      using u by (simp add: findSessionUser_def sessionAt_putSession) (simp add: putSession_def)
    with yes rot assms(5) show "events = []" "db' = putSession sid ?r db"
      "\<exists>a. result = Inr a \<and> ar_refreshToken a = newSessionToken hmac sid (n + 1)"
      by (auto simp: buildAuthResult_def)
  qed
qed

theorem refresh_outcome_witness:
  "\<exists>db'. refresh sample_isUUID sample_hmac id (\<lambda>_ _. []) \<lparr>ac_accessTokenTtlSeconds = 900, ac_refreshTokenTtlSeconds = 99\<rparr>
     5 (Some (sample_token 1)) (sample_db 2) = (db', [sample_uuid], Inl Unauthorized)"
proof -
  let ?c = "\<lparr>ac_accessTokenTtlSeconds = 900, ac_refreshTokenTtlSeconds = 99\<rparr>"
  obtain db' ev res where r: "refresh sample_isUUID sample_hmac id (\<lambda>_ _. []) ?c 5 (Some (sample_token 1)) (sample_db 2)
    = (db', ev, res)"
    by (cases "refresh sample_isUUID sample_hmac id (\<lambda>_ _. []) ?c 5 (Some (sample_token 1)) (sample_db 2)") auto
  have "(1::nat) < max_safe_integer" by (simp add: max_safe_integer_def)
  from refresh_outcome [OF sample_parse this sample_sessionAt [of 2] _ r] r show ?thesis
    by (auto simp: sample_session_def)
qed

text \<open>\<open>logout\<close> with a signed token that was ever issued for the session, current or older,
  revokes the session and announces it once; a second logout changes nothing.\<close>

theorem logout_revokes:
  assumes "parseRefreshToken isUUID hmac v = Some (Versioned sid tok n)" and "sessionAt db sid = Some r"
    and "n \<le> se_refreshSequence r" and "se_revokedAt r = None"
  shows "snd (logout isUUID hmac sha256 now v db) = [sid]
    \<and> sessionAt (fst (logout isUUID hmac sha256 now v db)) sid = Some (r\<lparr>se_revokedAt := Some now\<rparr>)
    \<and> (let db' = fst (logout isUUID hmac sha256 now v db) in logout isUUID hmac sha256 later v db' = (db', []))"
proof -
  let ?db = "deleteConsumed sid (putSession sid (r\<lparr>se_revokedAt := Some now\<rparr>) db)"
  have l: "logout isUUID hmac sha256 now v db = (?db, [sid])"
    using assms by (simp add: logout_def revokeAndForget_def revokeSession_def logoutCondition_def)
  have at: "sessionAt ?db sid = Some (r\<lparr>se_revokedAt := Some now\<rparr>)"
    using sessionAt_putSession [of sid "r\<lparr>se_revokedAt := Some now\<rparr>" db sid]
    by (simp add: sessionAt_def deleteConsumed_def)
  have "logout isUUID hmac sha256 later v ?db = (?db, [])"
    using assms(1) at by (simp add: logout_def revokeAndForget_def revokeSession_def)
  with l at show ?thesis by (simp add: Let_def)
qed

theorem logout_revokes_witness:
  "snd (logout sample_isUUID sample_hmac id 5 (Some (sample_token 1)) (sample_db 2)) = [sample_uuid]"
  using logout_revokes [OF sample_parse sample_sessionAt [of 2], of 1] by (simp add: sample_session_def)

text \<open>An access token is accepted exactly when it is well formed, signed, of type access, for two
  UUIDs and not expired, and its session is in force and belongs to its user; the principal is that
  user and session. Then \<open>isSessionActive\<close> and the transactional lock agree.\<close>

theorem access_token_accepted_iff:
  assumes "\<forall>r \<in> set (mapValues (db_sessions db)). \<exists>u \<in> set (db_users db). us_id u = se_userId r"
  shows "(\<exists>p. verifyAccessToken isUUID verifyJwt now token db = Inr p) \<longleftrightarrow>
      token \<noteq> [] \<and> length token \<le> 4096 \<and> 0x20 \<notin> set token
      \<and> (\<exists>c. verifyJwt token = Some c \<and> ct_typ c = js ''access'' \<and> is_safe_integer (ct_exp c)
           \<and> now div 1000 < ct_exp c \<and> isSessionActive isUUID now (ct_sub c) (ct_sid c) db)"
    (is "?L \<longleftrightarrow> ?R")
proof -
  have user: "find (\<lambda>u. us_id u = se_userId r) (db_users db) \<noteq> None"
    if "active_session now u sid db = Some r" for u sid r
  proof -
    from that have "sessionAt db sid = Some r" by (auto simp: active_session_def split: option.splits if_splits)
    then have "r \<in> set (mapValues (db_sessions db))" unfolding sessionAt_def by (rule mapGet_in_values)
    with assms show ?thesis by (auto simp: find_None_iff)
  qed
  show ?thesis
  proof
    assume ?L
    then show ?R
      by (auto simp: verifyAccessToken_def isSessionActive_def split: if_splits option.splits)
  next
    assume ?R
    then obtain c r where "verifyJwt token = Some c" "ct_typ c = js ''access''" "is_safe_integer (ct_exp c)"
      "now div 1000 < ct_exp c" "isUUID (ct_sub c)" "isUUID (ct_sid c)"
      "active_session now (ct_sub c) (ct_sid c) db = Some r"
      "token \<noteq> []" "length token \<le> 4096" "0x20 \<notin> set token" by (auto simp: isSessionActive_def)
    with user [of "ct_sub c" "ct_sid c" r] show ?L
      by (cases "find (\<lambda>u. us_id u = se_userId r) (db_users db)") (auto simp: verifyAccessToken_def)
  qed
qed

theorem access_token_accepted_iff_witness:
  "\<not> (\<exists>p. verifyAccessToken sample_isUUID (\<lambda>_. None) 5 (js ''t'') (sample_db 2) = Inr p)"
proof -
  have "\<forall>r \<in> set (mapValues (db_sessions (sample_db 2))). \<exists>u \<in> set (db_users (sample_db 2)). us_id u = se_userId r"
    by (simp add: sample_db_def sample_session_def sample_user_def)
  from access_token_accepted_iff [OF this, of sample_isUUID "\<lambda>_. None" 5 "js ''t''"] show ?thesis by simp
qed

text \<open>C28. The cleanup loop ends for every batch size but zero, and leaves exactly the sessions that had
  not expired when its last statement ran.\<close>

theorem cleanup_removes_expired:
  assumes "0 < batchSize" and "distinct (mapKeys (db_sessions db))" and "mono clock"
  shows "\<exists>k db'. removeExpiredSessions clock 0 batchSize db = Some db'
    \<and> db_sessions db' = filter (\<lambda>e. clock k < se_expiresAt (snd e)) (db_sessions db)"
  using cleanup_loop [OF assms, of 0] by blast

theorem cleanup_removes_expired_witness:
  "\<exists>k db'. removeExpiredSessions int 0 1 (sample_db 2) = Some db'
    \<and> db_sessions db' = filter (\<lambda>e. int k < se_expiresAt (snd e)) (db_sessions (sample_db 2))"
  by (rule cleanup_removes_expired) (simp_all add: sample_db_def mono_def)

end
