(* ===== verification/Server_Tables.thy ===== *)
theory Server_Tables
  imports Auth_Sessions Command_Executor
begin

text \<open>
  The tables of projects and documents of src/prisma/schema.prisma beside those of
  \<^theory_text>\<open>Auth_Sessions\<close>, and the statements on them that several services share. Identifiers
  are stored in the form of \<open>uuid_key\<close>, and a statement compares a given identifier in that
  form. The columns that no code reads are left out.
\<close>

datatype project_role = Owner | Editor

record project_row =
  pj_id :: jstring
  pj_name :: jstring
  pj_description :: "jstring option"
  pj_ownerId :: jstring
  pj_createdAt :: int
  pj_updatedAt :: int

record member_row =
  mb_projectId :: jstring
  mb_userId :: jstring
  mb_role :: project_role
  mb_createdAt :: int

record document_row =
  dc_id :: jstring
  dc_projectId :: jstring
  dc_name :: jstring
  dc_canonicalModel :: canonical_model
  dc_revision :: nat
  dc_createdById :: jstring
  dc_updatedById :: jstring
  dc_createdAt :: int
  dc_updatedAt :: int

record revision_row =
  rv_documentId :: jstring
  rv_revision :: nat
  rv_canonicalModel :: canonical_model
  rv_authorId :: jstring

record operation_row =
  ox_id :: jstring
  ox_operationId :: jstring
  ox_documentId :: jstring
  ox_actorId :: jstring
  ox_baseRevision :: nat
  ox_resultingRevision :: nat
  ox_command :: uml_command
  ox_commandFingerprint :: jstring
  ox_committedAt :: int
  ox_broadcastedAt :: "int option"

record server_db = auth_db +
  db_projects :: "project_row list"
  db_members :: "member_row list"
  db_documents :: "document_row list"
  db_revisions :: "revision_row list"
  db_operations :: "operation_row list"

text \<open>What the controllers answer instead of a result.\<close>

datatype http_error = BadRequest | Unauthenticated | Forbidden | NotFound
  | HttpConflict "nat option" | TooManyRequests | ServerError

section \<open>Shared statements\<close>

definition findProject :: "jstring \<Rightarrow> server_db \<Rightarrow> project_row option" where
  "findProject pid db = find (\<lambda>p. pj_id p = uuid_key pid) (db_projects db)"

definition findMember :: "jstring \<Rightarrow> jstring \<Rightarrow> server_db \<Rightarrow> member_row option" where
  "findMember pid uid db =
     find (\<lambda>m. mb_projectId m = uuid_key pid \<and> mb_userId m = uuid_key uid) (db_members db)"

definition findDocument :: "jstring \<Rightarrow> server_db \<Rightarrow> document_row option" where
  "findDocument did db = find (\<lambda>x. dc_id x = uuid_key did) (db_documents db)"

text \<open>\<open>lockActiveSession\<close> of the access token verifier on this database.\<close>

definition sessionLocked :: "(jstring \<Rightarrow> bool) \<Rightarrow> int \<Rightarrow> jstring \<Rightarrow> jstring \<Rightarrow> server_db \<Rightarrow> bool" where
  "sessionLocked isUUID now uid sid db = lockActiveSession isUUID now uid sid (auth_db.truncate db)"

text \<open>The unique constraints \<open>[documentId, revision]\<close> and
  \<open>[documentId, operationId]\<close>; \<open>None\<close> is error P2002.\<close>

definition insertRevision :: "revision_row \<Rightarrow> server_db \<Rightarrow> server_db option" where
  "insertRevision r db =
     (if \<exists>r' \<in> set (db_revisions db). rv_documentId r' = rv_documentId r \<and> rv_revision r' = rv_revision r
      then None else Some (db\<lparr>db_revisions := db_revisions db @ [r]\<rparr>))"

definition findOperation :: "jstring \<Rightarrow> jstring \<Rightarrow> server_db \<Rightarrow> operation_row option" where
  "findOperation did opId db =
     find (\<lambda>x. ox_documentId x = uuid_key did \<and> ox_operationId x = uuid_key opId) (db_operations db)"

definition insertOperation :: "operation_row \<Rightarrow> server_db \<Rightarrow> server_db option" where
  "insertOperation x db =
     (if \<exists>x' \<in> set (db_operations db). ox_documentId x' = ox_documentId x \<and> ox_operationId x' = ox_operationId x
      then None else Some (db\<lparr>db_operations := db_operations db @ [x]\<rparr>))"

text \<open>The unique constraint \<open>[projectId, name]\<close> of documents.\<close>

definition nameTaken :: "document_row \<Rightarrow> server_db \<Rightarrow> bool" where
  "nameTaken x db \<longleftrightarrow> (\<exists>y \<in> set (db_documents db).
     dc_id y \<noteq> dc_id x \<and> dc_projectId y = dc_projectId x \<and> dc_name y = dc_name x)"

text \<open>\<open>updateMany ... where id, revision, member ... data revision: increment 1\<close> with the
  function that changes the other columns. \<open>extra\<close> is what else the condition asks of the row.
  \<open>OutOfRange\<close> is a revision that the column cannot hold.\<close>

datatype update_result = NoRow | Updated server_db | UniqueViolation | OutOfRange

definition compareAndSetDocument ::
  "jstring \<Rightarrow> nat \<Rightarrow> jstring \<Rightarrow> (document_row \<Rightarrow> bool) \<Rightarrow> (document_row \<Rightarrow> document_row) \<Rightarrow> server_db
     \<Rightarrow> update_result" where
  "compareAndSetDocument did base uid extra f db =
     (case findDocument did db of
        None \<Rightarrow> NoRow
      | Some x \<Rightarrow>
          if dc_revision x = base \<and> extra x \<and> findMember (dc_projectId x) uid db \<noteq> None
          then (let y = (f x)\<lparr>dc_revision := dc_revision x + 1\<rparr> in
                if max_integer_column \<le> dc_revision x then OutOfRange
                else if nameTaken y db then UniqueViolation
                else Updated (db\<lparr>db_documents :=
                  map (\<lambda>z. if dc_id z = uuid_key did then y else z) (db_documents db)\<rparr>))
          else NoRow)"

text \<open>Deleting documents takes their revisions and operations with them (\<open>onDelete: Cascade\<close>).\<close>

definition deleteDocuments :: "(document_row \<Rightarrow> bool) \<Rightarrow> server_db \<Rightarrow> server_db" where
  "deleteDocuments P db =
     (let gone = set (map dc_id (filter P (db_documents db))) in
      db\<lparr>db_documents := filter (\<lambda>x. \<not> P x) (db_documents db),
         db_revisions := filter (\<lambda>r. rv_documentId r \<notin> gone) (db_revisions db),
         db_operations := filter (\<lambda>x. ox_documentId x \<notin> gone) (db_operations db)\<rparr>)"

end
