(* ===== verification/Model_Persistence.thy ===== *)
theory Model_Persistence
  imports Server_Tables Removal_Laws
begin

text \<open>
  What is written to the \<open>canonicalModel\<close> column,
  src/src/modules/uml-domain/canonical-model.validator.ts: the document that the validator accepted,
  with the identifiers of its project and diagram derived from the rows it belongs to, its revision, and
  the time of the change as \<open>Date.prototype.toISOString\<close> prints it.
\<close>

section \<open>ISO dates\<close>

text \<open>The civil date of a day counted from 1970-01-01, in the proleptic Gregorian calendar.\<close>

definition civil_date :: "int \<Rightarrow> int \<times> nat \<times> nat" where
  "civil_date days =
     (let z = days + 719468;
          era = z div 146097;
          dayOfEra = z mod 146097;
          yearOfEra = (dayOfEra - dayOfEra div 1460 + dayOfEra div 36524 - dayOfEra div 146096) div 365;
          dayOfYear = dayOfEra - (365 * yearOfEra + yearOfEra div 4 - yearOfEra div 100);
          month = (5 * dayOfYear + 2) div 153;
          day = dayOfYear - (153 * month + 2) div 5 + 1
      in (yearOfEra + era * 400 + (if month < 10 then 0 else 1),
          nat (if month < 10 then month + 3 else month - 9), nat day))"

definition padStart :: "nat \<Rightarrow> jstring \<Rightarrow> jstring" where
  "padStart n s = replicate (n - length s) 0x30 @ s"

text \<open>A year outside 0 to 9999 has a sign and six digits.\<close>

definition iso_year :: "int \<Rightarrow> jstring" where
  "iso_year y = (if 0 \<le> y \<and> y \<le> 9999 then padStart 4 (show_nat (nat y))
     else js (if y < 0 then ''-'' else ''+'') @ padStart 6 (show_nat (nat (abs y))))"

definition toISOString :: "int \<Rightarrow> jstring" where
  "toISOString t =
     (let ms = nat (t mod 86400000);
          two = (\<lambda>n. padStart 2 (show_nat n))
      in case civil_date (t div 86400000) of (y, m, d) \<Rightarrow>
           iso_year y @ js ''-'' @ two m @ js ''-'' @ two d @ js ''T'' @ two (ms div 3600000)
           @ js '':'' @ two (ms div 60000 mod 60) @ js '':'' @ two (ms div 1000 mod 60)
           @ js ''.'' @ padStart 3 (show_nat (ms mod 1000)) @ js ''Z'')"

section \<open>Validation and normalisation\<close>

text \<open>\<open>id.toLowerCase().replaceAll('-', '')\<close> after the prefix; the identifiers are UUIDs.\<close>

definition toCanonicalPersistenceId :: "jstring \<Rightarrow> jstring \<Rightarrow> jstring" where
  "toCanonicalPersistenceId kind i = kind @ js ''_'' @ filter (\<lambda>c. c \<noteq> 0x2D) (uuid_key i)"

text \<open>\<open>schemaIn\<close> and \<open>schema\<close> are the compiled schema on the value that came in and on the
  remapped document. \<open>Inl\<close> is the \<open>BadRequestException\<close> with the error of the validator.\<close>

definition validateAndNormalize ::
  "('v \<Rightarrow> validation_issue list + canonical_model) \<Rightarrow> (canonical_model \<Rightarrow> validation_issue list + canonical_model)
     \<Rightarrow> (jstring \<Rightarrow> jstring) \<Rightarrow> 'v \<Rightarrow> nat \<Rightarrow> int \<Rightarrow> (jstring \<times> jstring) option
     \<Rightarrow> validation_error + canonical_model" where
  "validateAndNormalize schemaIn schema lowerEs value persistedRevision updatedAt identity =
     bindE (validateCanonicalModel schemaIn lowerEs value) (\<lambda>normalized.
     bindE (case identity of
         None \<Rightarrow> Inr normalized
       | Some (projectId, documentId) \<Rightarrow>
           validateCanonicalModel schema lowerEs (normalized
             \<lparr>cm_project := (cm_project normalized)\<lparr>pr_id := toCanonicalPersistenceId (js ''project'') projectId\<rparr>,
              cm_diagram := (cm_diagram normalized)\<lparr>dg_id := toCanonicalPersistenceId (js ''diagram'') documentId\<rparr>\<rparr>))
       (\<lambda>normalized. Inr (normalized\<lparr>cm_metadata := (cm_metadata normalized)
          \<lparr>me_revision := int persistedRevision, me_updatedAt := toISOString updatedAt\<rparr>\<rparr>)))"

section \<open>Laws\<close>

lemma validateCanonicalModel_Inr:
  "validateCanonicalModel schema lowerEs v = Inr m \<longleftrightarrow> schema v = Inr m \<and> well_formed lowerEs m"
  by (auto simp: validateCanonicalModel_def integrity_iff_well_formed res_simps split: sum.splits)


text \<open>Code units that are characters by themselves and allowed in XML.\<close>

definition plain_unit :: "16 word \<Rightarrow> bool" where
  "plain_unit c \<longleftrightarrow> 0x20 \<le> c \<and> c \<le> 0x7E"

lemma plain_code_points: "\<forall>c \<in> set s. plain_unit c \<Longrightarrow> code_points s = map unat s"
  by (induction s rule: code_points.induct) (auto simp: plain_unit_def is_high_surrogate_def word_le_nat_alt)

lemma plain_valid:
  assumes "\<forall>c \<in> set s. plain_unit c" and "p \<in> set (code_points s)"
  shows "valid_xml_code_point p"
  using assms by (auto simp: plain_code_points valid_xml_code_point_def plain_unit_def word_le_nat_alt)

lemma plain_digit: "is_digit c \<Longrightarrow> plain_unit c"
  by (simp add: is_digit_def plain_unit_def word_le_nat_alt)

lemma plain_show_nat [simp]: "c \<in> set (show_nat n) \<Longrightarrow> plain_unit c"
  using show_nat_digits plain_digit by blast

lemma plain_padStart: "c \<in> set (padStart n (show_nat m)) \<Longrightarrow> plain_unit c"
  by (auto simp: padStart_def plain_unit_def dest: plain_show_nat [unfolded plain_unit_def])

lemma plain_iso_year: "c \<in> set (iso_year y) \<Longrightarrow> plain_unit c"
  by (auto simp: iso_year_def js_def dest: plain_padStart split: if_splits) (simp_all add: plain_unit_def)

lemma plain_toISOString: "c \<in> set (toISOString t) \<Longrightarrow> plain_unit c"
  by (auto simp: toISOString_def Let_def js_def split: prod.splits dest: plain_padStart plain_iso_year)
    (simp_all add: plain_unit_def)

lemma strings_metadata:
  "strings (json_model (m\<lparr>cm_metadata := (cm_metadata m)\<lparr>me_revision := r, me_updatedAt := t\<rparr>\<rparr>))
     \<subseteq> insert t (strings (json_model m))"
  by (auto simp: json_model_def)

lemma well_formed_metadata:
  assumes "well_formed lowerEs m"
  shows "well_formed lowerEs (m\<lparr>cm_metadata := (cm_metadata m)
    \<lparr>me_revision := r, me_updatedAt := toISOString t\<rparr>\<rparr>)" (is "well_formed lowerEs ?m")
proof -
  have "xml_safe (json_model ?m)"
    using assms strings_metadata [where m = m and r = r and t = "toISOString t"] plain_valid [of "toISOString t"]
      plain_toISOString
    by (auto simp: xml_safe_def well_formed_def Let_def)
  with assms show ?thesis by (simp add: well_formed_def Let_def registered_ids_def)
qed

text \<open>What validation and normalisation return: a well formed document with the identifiers,
  the revision and the time that were asked for.\<close>

lemma validateAndNormalize_Inr:
  assumes "validateAndNormalize schemaIn schema lowerEs v r t identity = Inr m"
  shows "well_formed lowerEs m \<and> me_revision (cm_metadata m) = int r
    \<and> me_updatedAt (cm_metadata m) = toISOString t"
  using assms
  by (cases identity)
    (auto simp: validateAndNormalize_def res_simps validateCanonicalModel_Inr well_formed_metadata)

lemma validateAndNormalize_identity:
  assumes "validateAndNormalize schemaIn schema lowerEs v r t (Some (pid, did)) = Inr m"
    and "\<And>d d'. schema d = Inr d' \<Longrightarrow> d' = d"
  shows "\<exists>doc. schemaIn v = Inr doc \<and> well_formed lowerEs doc
    \<and> pr_id (cm_project m) = toCanonicalPersistenceId (js ''project'') pid
    \<and> dg_id (cm_diagram m) = toCanonicalPersistenceId (js ''diagram'') did
    \<and> dg_elements (cm_diagram m) = dg_elements (cm_diagram doc)
    \<and> dg_relationships (cm_diagram m) = dg_relationships (cm_diagram doc)
    \<and> dg_positions (cm_diagram m) = dg_positions (cm_diagram doc)"
  using assms(1) by (auto simp: validateAndNormalize_def res_simps validateCanonicalModel_Inr dest!: assms(2))

end
