(* ===== verification/Documents.thy ===== *)
theory Documents
  imports Model_Persistence Lock_Store
begin

text \<open>
  The document routes, src/src/modules/uml-domain/documents.service.ts. Requests validate their body
  before the transaction. In \<open>update\<close> the database read at the start of the transaction and the
  one its \<open>UPDATE\<close> meets are two arguments, since other transactions may commit in between; the
  row locks on session and membership hold over the whole transaction. \<open>busy\<close> is whether the
  mutation queue refuses the document, \<open>schemaIn\<close> the schema validator on the body.
\<close>

datatype document_change =
    ResyncRequired jstring nat "jstring list"
  | DocumentDeleted jstring

definition lockCollaboratorMembership :: "jstring \<Rightarrow> jstring \<Rightarrow> server_db \<Rightarrow> http_error + unit" where
  "lockCollaboratorMembership pid uid db =
     bindE (throwUnless (findProject pid db \<noteq> None) NotFound) (\<lambda>_.
       throwUnless (findMember pid uid db \<noteq> None) NotFound)"

definition lockRequest ::
  "(jstring \<Rightarrow> bool) \<Rightarrow> int \<Rightarrow> jstring \<Rightarrow> jstring \<Rightarrow> jstring \<Rightarrow> server_db \<Rightarrow> http_error + unit" where
  "lockRequest isUUID now pid uid sid db =
     bindE (throwUnless (sessionLocked isUUID now uid sid db) Unauthenticated) (\<lambda>_.
       lockCollaboratorMembership pid uid db)"

definition findProjectDocument :: "jstring \<Rightarrow> jstring \<Rightarrow> server_db \<Rightarrow> document_row option" where
  "findProjectDocument pid did db =
     find (\<lambda>x. dc_id x = uuid_key did \<and> dc_projectId x = uuid_key pid) (db_documents db)"

definition activeElementIds :: "canonical_model \<Rightarrow> jstring list" where
  "activeElementIds m = map cl_id (dg_elements (cm_diagram m))"

definition list_documents :: "jstring \<Rightarrow> jstring \<Rightarrow> server_db \<Rightarrow> document_row list" where
  "list_documents pid uid db =
     (if findMember pid uid db = None then []
      else sort_key (\<lambda>x. - dc_updatedAt x) (filter (\<lambda>x. dc_projectId x = uuid_key pid) (db_documents db)))"

text \<open>\<open>INSERT\<close> of a document with its first revision; \<open>None\<close> is error P2002.\<close>

definition insertDocument :: "document_row \<Rightarrow> server_db \<Rightarrow> server_db option" where
  "insertDocument x db =
     (if findDocument (dc_id x) db \<noteq> None \<or> nameTaken x db then None
      else insertRevision \<lparr>rv_documentId = dc_id x, rv_revision = dc_revision x,
             rv_canonicalModel = dc_canonicalModel x, rv_authorId = dc_createdById x\<rparr>
           (db\<lparr>db_documents := db_documents db @ [x]\<rparr>))"

definition createDocument ::
  "(jstring \<Rightarrow> bool) \<Rightarrow> ('v \<Rightarrow> validation_issue list + canonical_model)
     \<Rightarrow> (canonical_model \<Rightarrow> validation_issue list + canonical_model) \<Rightarrow> (jstring \<Rightarrow> jstring) \<Rightarrow> int \<Rightarrow> jstring
     \<Rightarrow> jstring \<Rightarrow> jstring \<Rightarrow> jstring \<Rightarrow> jstring \<Rightarrow> 'v \<Rightarrow> server_db \<Rightarrow> server_db \<times> (http_error + document_row)" where
  "createDocument isUUID schemaIn schema lowerEs now documentId pid uid sid name body db =
     (case validateAndNormalize schemaIn schema lowerEs body 0 now (Some (pid, documentId)) of
        Inl e \<Rightarrow> (db, Inl BadRequest)
      | Inr m \<Rightarrow>
          (case lockRequest isUUID now pid uid sid db of
             Inl e \<Rightarrow> (db, Inl e)
           | Inr _ \<Rightarrow>
               (let x = \<lparr>dc_id = uuid_key documentId, dc_projectId = uuid_key pid, dc_name = name,
                         dc_canonicalModel = m, dc_revision = 0, dc_createdById = uuid_key uid,
                         dc_updatedById = uuid_key uid, dc_createdAt = now, dc_updatedAt = now\<rparr>
                in case insertDocument x db of
                     None \<Rightarrow> (db, Inl (HttpConflict None))
                   | Some db' \<Rightarrow> (db', Inr x))))"

definition getDocument :: "jstring \<Rightarrow> jstring \<Rightarrow> jstring \<Rightarrow> server_db \<Rightarrow> http_error + document_row" where
  "getDocument pid did uid db = (case findProjectDocument pid did db of
      Some x \<Rightarrow> if findMember pid uid db \<noteq> None then Inr x else Inl NotFound
    | None \<Rightarrow> Inl NotFound)"

definition withAuthorizedDocumentSnapshot ::
  "(jstring \<Rightarrow> bool) \<Rightarrow> int \<Rightarrow> jstring \<Rightarrow> jstring \<Rightarrow> jstring \<Rightarrow> jstring \<Rightarrow> (document_row \<Rightarrow> http_error + 'r)
     \<Rightarrow> server_db \<Rightarrow> http_error + 'r" where
  "withAuthorizedDocumentSnapshot isUUID now pid did uid sid read db =
     bindE (lockRequest isUUID now pid uid sid db) (\<lambda>_.
       case findProjectDocument pid did db of None \<Rightarrow> Inl NotFound | Some x \<Rightarrow> read x)"

text \<open>The first half of the update transaction: authorization, revision and locks.\<close>

definition checkUpdate ::
  "(jstring \<Rightarrow> bool) \<Rightarrow> int \<Rightarrow> jstring \<Rightarrow> jstring \<Rightarrow> jstring \<Rightarrow> jstring \<Rightarrow> nat \<Rightarrow> lock_store \<Rightarrow> server_db
     \<Rightarrow> lock_store \<times> (http_error + unit)" where
  "checkUpdate isUUID now pid did uid sid expectedRevision locks db =
     (case lockRequest isUUID now pid uid sid db of
        Inl e \<Rightarrow> (locks, Inl e)
      | Inr _ \<Rightarrow> (case findProjectDocument pid did db of
          None \<Rightarrow> (locks, Inl NotFound)
        | Some x \<Rightarrow>
            if dc_revision x \<noteq> expectedRevision then (locks, Inl (HttpConflict (Some (dc_revision x))))
            else (case hasAnyLock now did (set (activeElementIds (dc_canonicalModel x))) locks of
                (locks', locked) \<Rightarrow> (locks', throwUnless (\<not> locked) (HttpConflict None)))))"

text \<open>The second half: the conditional update and the new revision.\<close>

definition commitUpdate ::
  "int \<Rightarrow> jstring \<Rightarrow> jstring \<Rightarrow> jstring \<Rightarrow> nat \<Rightarrow> jstring option \<Rightarrow> canonical_model \<Rightarrow> server_db
     \<Rightarrow> server_db \<times> (http_error + document_row)" where
  "commitUpdate now pid did uid expectedRevision name m db =
     (case compareAndSetDocument did expectedRevision uid (\<lambda>x. dc_projectId x = uuid_key pid)
         (\<lambda>x. x\<lparr>dc_name := (case name of None \<Rightarrow> dc_name x | Some n \<Rightarrow> n), dc_canonicalModel := m,
                dc_updatedById := uuid_key uid, dc_updatedAt := now\<rparr>) db of
        NoRow \<Rightarrow>
          (case findProjectDocument pid did db of
             Some x \<Rightarrow> if findMember pid uid db \<noteq> None then (db, Inl (HttpConflict (Some (dc_revision x))))
                       else (db, Inl NotFound)
           | None \<Rightarrow> (db, Inl NotFound))
      | OutOfRange \<Rightarrow> (db, Inl ServerError)
      | UniqueViolation \<Rightarrow> (db, Inl (HttpConflict None))
      | Updated db1 \<Rightarrow>
          (case findDocument did db1 of
             None \<Rightarrow> (db, Inl ServerError)
           | Some persisted \<Rightarrow>
               (case insertRevision \<lparr>rv_documentId = uuid_key did, rv_revision = dc_revision persisted,
                       rv_canonicalModel = m, rv_authorId = uuid_key uid\<rparr> db1 of
                  None \<Rightarrow> (db, Inl (HttpConflict None))
                | Some db2 \<Rightarrow> (db2, Inr persisted))))"

definition updateDocument ::
  "(jstring \<Rightarrow> bool) \<Rightarrow> ('v \<Rightarrow> validation_issue list + canonical_model)
     \<Rightarrow> (canonical_model \<Rightarrow> validation_issue list + canonical_model) \<Rightarrow> (jstring \<Rightarrow> jstring) \<Rightarrow> int \<Rightarrow> bool
     \<Rightarrow> jstring \<Rightarrow> jstring \<Rightarrow> jstring \<Rightarrow> jstring \<Rightarrow> jstring option \<Rightarrow> nat \<Rightarrow> 'v \<Rightarrow> lock_store \<Rightarrow> server_db \<Rightarrow> server_db
     \<Rightarrow> lock_store \<times> server_db \<times> document_change list \<times> (http_error + document_row)" where
  "updateDocument isUUID schemaIn schema lowerEs now busy pid did uid sid name expectedRevision body
       locks dbRead dbWrite =
     (case validateAndNormalize schemaIn schema lowerEs body (expectedRevision + 1) now (Some (pid, did)) of
        Inl e \<Rightarrow> (locks, dbWrite, [], Inl BadRequest)
      | Inr m \<Rightarrow>
          if busy then (locks, dbWrite, [], Inl TooManyRequests)
          else (case checkUpdate isUUID now pid did uid sid expectedRevision locks dbRead of
              (locks', Inl e) \<Rightarrow> (locks', dbWrite, [], Inl e)
            | (locks', Inr _) \<Rightarrow>
                (case commitUpdate now pid did uid expectedRevision name m dbWrite of
                   (db', Inl e) \<Rightarrow> (locks', db', [], Inl e)
                 | (db', Inr x) \<Rightarrow> (locks', db',
                     [ResyncRequired did (dc_revision x) (activeElementIds (dc_canonicalModel x))], Inr x))))"

definition deleteDocument ::
  "(jstring \<Rightarrow> bool) \<Rightarrow> int \<Rightarrow> bool \<Rightarrow> jstring \<Rightarrow> jstring \<Rightarrow> jstring \<Rightarrow> jstring \<Rightarrow> server_db
     \<Rightarrow> server_db \<times> document_change list \<times> (http_error + unit)" where
  "deleteDocument isUUID now busy pid did uid sid db =
     (if busy then (db, [], Inl TooManyRequests)
      else case lockRequest isUUID now pid uid sid db of
        Inl e \<Rightarrow> (db, [], Inl e)
      | Inr _ \<Rightarrow>
          if findProjectDocument pid did db = None then (db, [], Inl NotFound)
          else (deleteDocuments (\<lambda>x. dc_id x = uuid_key did \<and> dc_projectId x = uuid_key pid) db,
                [DocumentDeleted did], Inr ()))"

end
