(* ===== verification/Command_Text.thy ===== *)
theory Command_Text
  imports Uml_Model
begin

text \<open>
  The text of a command that its fingerprint is taken of: \<open>stableJson\<close> and
  \<open>commandFingerprint\<close> of src/src/modules/uml-domain/document-command.service.ts, on the JSON
  values of \<^theory_text>\<open>Uml_Model\<close>. \<open>showNumber\<close> is \<open>JSON.stringify\<close> on a number,
  \<open>sha256\<close> the hash in hexadecimal.
\<close>

section \<open>Commands as JSON values\<close>

fun command_type :: "command_body \<Rightarrow> jstring" where
  "command_type (ClassifierCreate cl p) = js ''classifier.create''"
| "command_type (ClassifierUpdate i cl) = js ''classifier.update''"
| "command_type (ClassifierMove i x y) = js ''classifier.move''"
| "command_type (ClassifierDelete i) = js ''classifier.delete''"
| "command_type (ClassifierDuplicate i cl p) = js ''classifier.duplicate''"
| "command_type (AttributeAdd i a) = js ''attribute.add''"
| "command_type (AttributeUpdate i j a) = js ''attribute.update''"
| "command_type (AttributeDelete i j) = js ''attribute.delete''"
| "command_type (OperationAdd i p) = js ''operation.add''"
| "command_type (OperationUpdate i j p) = js ''operation.update''"
| "command_type (OperationDelete i j) = js ''operation.delete''"
| "command_type (RelationshipCreate r) = js ''relationship.create''"
| "command_type (RelationshipUpdate i r) = js ''relationship.update''"
| "command_type (RelationshipDelete i) = js ''relationship.delete''"
| "command_type (AssociationClassCreate i cl p) = js ''association-class.create''"
| "command_type DiagramClear = js ''diagram.clear''"

fun command_fields :: "command_body \<Rightarrow> (jstring \<times> json) list" where
  "command_fields (ClassifierCreate cl p) = [(js ''classifier'', json_classifier cl), (js ''position'', json_position p)]"
| "command_fields (ClassifierUpdate i cl) = [(js ''elementId'', JStr i), (js ''classifier'', json_classifier cl)]"
| "command_fields (ClassifierMove i x y) = [(js ''elementId'', JStr i), (js ''position'', JObj [(js ''x'', JNum x), (js ''y'', JNum y)])]"
| "command_fields (ClassifierDelete i) = [(js ''elementId'', JStr i)]"
| "command_fields (ClassifierDuplicate i cl p) = [(js ''sourceElementId'', JStr i), (js ''classifier'', json_classifier cl), (js ''position'', json_position p)]"
| "command_fields (AttributeAdd i a) = [(js ''classifierId'', JStr i), (js ''attribute'', json_attribute a)]"
| "command_fields (AttributeUpdate i j a) = [(js ''classifierId'', JStr i), (js ''attributeId'', JStr j), (js ''attribute'', json_attribute a)]"
| "command_fields (AttributeDelete i j) = [(js ''classifierId'', JStr i), (js ''attributeId'', JStr j)]"
| "command_fields (OperationAdd i p) = [(js ''classifierId'', JStr i), (js ''operation'', json_operation p)]"
| "command_fields (OperationUpdate i j p) = [(js ''classifierId'', JStr i), (js ''operationId'', JStr j), (js ''operation'', json_operation p)]"
| "command_fields (OperationDelete i j) = [(js ''classifierId'', JStr i), (js ''operationId'', JStr j)]"
| "command_fields (RelationshipCreate r) = [(js ''relationship'', json_relationship r)]"
| "command_fields (RelationshipUpdate i r) = [(js ''relationshipId'', JStr i), (js ''relationship'', json_relationship r)]"
| "command_fields (RelationshipDelete i) = [(js ''relationshipId'', JStr i)]"
| "command_fields (AssociationClassCreate i cl p) = [(js ''relationshipId'', JStr i), (js ''classifier'', json_classifier cl), (js ''position'', json_position p)]"
| "command_fields DiagramClear = []"

definition json_command :: "uml_command \<Rightarrow> json" where
  "json_command c = JObj ([(js ''timestamp'', JStr (cmd_timestamp c)), (js ''type'', JStr (command_type (cmd_body c)))]
     @ command_fields (cmd_body c))"

section \<open>The text\<close>

definition hex_unit :: "nat \<Rightarrow> 16 word" where
  "hex_unit d = of_nat (if d < 10 then 48 + d else 87 + d)"

definition hex4 :: "16 word \<Rightarrow> jstring" where
  "hex4 c = (let n = unat c in
     [hex_unit (n div 4096), hex_unit (n div 256 mod 16), hex_unit (n div 16 mod 16), hex_unit (n mod 16)])"

text \<open>\<open>JSON.stringify\<close> of a string: a backslash before a quote, a backslash and a control
  character, and \<open>\u\<close> before a surrogate without partner.\<close>

definition escape_unit :: "16 word \<Rightarrow> jstring" where
  "escape_unit c = [0x5C] @
     (if c = 0x8 then js ''b'' else if c = 0x9 then js ''t'' else if c = 0xA then js ''n''
      else if c = 0xC then js ''f'' else if c = 0xD then js ''r''
      else if c = 0x22 \<or> c = 0x5C then [c] else js ''u'' @ hex4 c)"

definition needs_escape :: "16 word \<Rightarrow> bool" where
  "needs_escape c \<longleftrightarrow> c < 0x20 \<or> c = 0x22 \<or> c = 0x5C \<or> is_high_surrogate c \<or> is_low_surrogate c"

fun quote_units :: "jstring \<Rightarrow> jstring" where
  "quote_units [] = []"
| "quote_units [c] = (if needs_escape c then escape_unit c else [c])"
| "quote_units (c # d # s) =
     (if is_high_surrogate c \<and> is_low_surrogate d then c # d # quote_units s
      else (if needs_escape c then escape_unit c else [c]) @ quote_units (d # s))"

definition quoteJSON :: "jstring \<Rightarrow> jstring" where
  "quoteJSON s = [0x22] @ quote_units s @ [0x22]"

fun stableJson :: "(rat \<Rightarrow> jstring) \<Rightarrow> json \<Rightarrow> jstring" where
  "stableJson showNumber JNull = js ''null''"
| "stableJson showNumber (JBool b) = js (if b then ''true'' else ''false'')"
| "stableJson showNumber (JNum n) = showNumber n"
| "stableJson showNumber (JStr s) = quoteJSON s"
| "stableJson showNumber (JArr xs) = js ''['' @ js_join (js '','') (map (stableJson showNumber) xs) @ js '']''"
| "stableJson showNumber (JObj kvs) = js ''{'' @ js_join (js '','')
     (map snd (sort_key fst (map (\<lambda>(k, v). (k, quoteJSON k @ js '':'' @ stableJson showNumber v)) kvs))) @ js ''}''"

definition commandFingerprint :: "(rat \<Rightarrow> jstring) \<Rightarrow> (jstring \<Rightarrow> jstring) \<Rightarrow> nat \<Rightarrow> uml_command \<Rightarrow> jstring" where
  "commandFingerprint showNumber sha256 baseRevision command =
     sha256 (stableJson showNumber
       (JObj [(js ''baseRevision'', JNum (of_nat baseRevision)), (js ''command'', json_command command)]))"

end
