(* ===== verification/Document_Commands.thy ===== *)
theory Document_Commands
  imports Documents Command_Text
begin

text \<open>
  Editing commands on stored documents, src/src/modules/uml-domain/document-command.service.ts. The
  statements of the transaction are grouped at the points where another transaction may come in between:
  the authorization with the read of the document, the lookup of the operation with the computation of
  the next model, and the writes, which run on the row locked by the \<open>UPDATE\<close>. Each of the three
  gets the database it meets. \<open>locks\<close> is the store of element locks of the process.
\<close>

datatype collaboration_error_code = UNAUTHENTICATED | SESSION_REVOKED | FORBIDDEN | NOT_FOUND | NOT_JOINED
  | INVALID_COMMAND | INVALID_MODEL | REVISION_CONFLICT | ELEMENT_LOCKED | OPERATION_ID_REUSED
  | RATE_LIMITED | INTERNAL_ERROR

text \<open>An error of the service, or one of the database: P2002 and any other.\<close>

datatype process_error =
    CollaborationOperationError collaboration_error_code "nat option"
  | KnownUniqueConstraint
  | DatabaseError

record collaboration_identity =
  ci_userId :: jstring
  ci_sessionId :: jstring
  ci_accessTokenExpiresAt :: int

record document_command =
  dm_operationId :: jstring
  dm_documentId :: jstring
  dm_baseRevision :: nat
  dm_command :: uml_command

record processed_command =
  pc_operationId :: jstring
  pc_documentId :: jstring
  pc_baseRevision :: nat
  pc_revision :: nat
  pc_committedAt :: jstring
  pc_command :: uml_command
  pc_idempotent :: bool
  pc_requiresBroadcast :: bool
  pc_activeElementIds :: "jstring list"

abbreviation failWith :: "collaboration_error_code \<Rightarrow> process_error" where
  "failWith code \<equiv> CollaborationOperationError code None"

section \<open>Reading\<close>

text \<open>\<open>getAuthorizedDocument\<close> and \<open>getCurrentDocument\<close>; every role may collaborate.\<close>

definition getAuthorizedDocument :: "jstring \<Rightarrow> jstring \<Rightarrow> server_db \<Rightarrow> document_row option" where
  "getAuthorizedDocument did uid db = (case findDocument did db of
      None \<Rightarrow> None
    | Some x \<Rightarrow> if findMember (dc_projectId x) uid db \<noteq> None then Some x else None)"

definition getCurrentDocument :: "jstring \<Rightarrow> server_db \<Rightarrow> document_row option" where
  "getCurrentDocument did db = findDocument did db"

record broadcast_authorization =
  ba_documentExists :: bool
  ba_activeSessions :: "(jstring \<times> jstring) set"
  ba_authorizedUserIds :: "jstring set"

text \<open>The two queries of \<open>getBroadcastAuthorization\<close>, each on the database it meets, and what
  is made of the answers. \<open>sessionKey\<close> joins the user and the session of a row; here they are a
  pair.\<close>

definition activeSessionsOf :: "int \<Rightarrow> collaboration_identity list \<Rightarrow> server_db \<Rightarrow> (jstring \<times> jstring) set" where
  "activeSessionsOf now identities db =
     (\<lambda>e. (se_userId (snd e), fst e)) ` set (filter (\<lambda>(sid, r). session_live now r
        \<and> (\<exists>i \<in> set identities. sid = uuid_key (ci_sessionId i) \<and> se_userId r = uuid_key (ci_userId i)))
        (db_sessions db))"

definition authorizedUsersOf :: "jstring \<Rightarrow> collaboration_identity list \<Rightarrow> server_db \<Rightarrow> jstring set option" where
  "authorizedUsersOf did identities db = map_option
     (\<lambda>x. mb_userId ` set (filter (\<lambda>m. mb_projectId m = dc_projectId x
        \<and> mb_userId m \<in> uuid_key ` ci_userId ` set identities) (db_members db)))
     (findDocument did db)"

definition broadcastAuthorization :: "(jstring \<times> jstring) set \<Rightarrow> jstring set option \<Rightarrow> broadcast_authorization" where
  "broadcastAuthorization sessions document = \<lparr>ba_documentExists = (document \<noteq> None), ba_activeSessions = sessions,
     ba_authorizedUserIds = (case document of None \<Rightarrow> {} | Some members \<Rightarrow> members)\<rparr>"

section \<open>The transaction\<close>

definition lockCommandAuthorization ::
  "(jstring \<Rightarrow> bool) \<Rightarrow> int \<Rightarrow> collaboration_identity \<Rightarrow> jstring \<Rightarrow> server_db \<Rightarrow> process_error + document_row" where
  "lockCommandAuthorization isUUID now identity did db =
     bindE (throwUnless (sessionLocked isUUID now (ci_userId identity) (ci_sessionId identity) db)
              (failWith SESSION_REVOKED)) (\<lambda>_.
     case findDocument did db of
       None \<Rightarrow> Inl (failWith NOT_FOUND)
     | Some x \<Rightarrow>
         bindE (throwUnless (findProject (dc_projectId x) db \<noteq> None) (failWith NOT_FOUND)) (\<lambda>_.
         bindE (throwUnless (findMember (dc_projectId x) (ci_userId identity) db \<noteq> None)
                  (failWith NOT_FOUND)) (\<lambda>_. Inr x)))"

definition resolveExisting ::
  "operation_row \<Rightarrow> collaboration_identity \<Rightarrow> document_command \<Rightarrow> jstring \<Rightarrow> process_error + processed_command" where
  "resolveExisting x identity input fp =
     (if ox_actorId x \<noteq> ci_userId identity \<or> ox_commandFingerprint x \<noteq> fp
      then Inl (failWith OPERATION_ID_REUSED)
      else Inr \<lparr>pc_operationId = dm_operationId input, pc_documentId = dm_documentId input,
             pc_baseRevision = dm_baseRevision input, pc_revision = ox_resultingRevision x,
             pc_committedAt = toISOString (ox_committedAt x), pc_command = dm_command input,
             pc_idempotent = True, pc_requiresBroadcast = (ox_broadcastedAt x = None),
             pc_activeElementIds = []\<rparr>)"

text \<open>The command is already known, or this is what to write: the model, the elements of the model
  before it was normalised, and the time.\<close>

datatype prepared_command =
    Finished processed_command
  | Prepared canonical_model "jstring list" int

definition prepareCommand ::
  "(canonical_model \<Rightarrow> validation_issue list + canonical_model) \<Rightarrow> (jstring \<Rightarrow> jstring) \<Rightarrow> int
     \<Rightarrow> collaboration_identity \<Rightarrow> document_command \<Rightarrow> jstring \<Rightarrow> jstring \<Rightarrow> document_row \<Rightarrow> lock_store \<Rightarrow> server_db
     \<Rightarrow> lock_store \<times> (process_error + prepared_command)" where
  "prepareCommand schema lowerEs now identity input fp socketId document locks db =
     (case findOperation (dm_documentId input) (dm_operationId input) db of
        Some existing \<Rightarrow> (locks, bindE (resolveExisting existing identity input fp) (\<lambda>r. Inr (Finished r)))
      | None \<Rightarrow>
          if dc_revision document \<noteq> dm_baseRevision input
          then (locks, Inl (CollaborationOperationError REVISION_CONFLICT (Some (dc_revision document))))
          else (case affectedElementIds (dc_canonicalModel document) (dm_command input) of
              Inl _ \<Rightarrow> (locks, Inl (failWith INVALID_COMMAND))
            | Inr elementIds \<Rightarrow>
                (case hasLockOwnedByAnotherSocket now (dm_documentId input) elementIds socketId locks of
                   (locks', locked) \<Rightarrow> (locks',
                     bindE (throwUnless (\<not> locked) (failWith ELEMENT_LOCKED)) (\<lambda>_.
                     case execute (dc_canonicalModel document) (dm_command input) of
                       Inl _ \<Rightarrow> Inl (failWith INVALID_COMMAND)
                     | Inr nextModel \<Rightarrow>
                         (case validateAndNormalize schema schema lowerEs nextModel (dm_baseRevision input + 1) now
                                 (Some (dc_projectId document, dm_documentId input)) of
                            Inl _ \<Rightarrow> Inl (failWith INVALID_MODEL)
                          | Inr m \<Rightarrow> Inr (Prepared m (map cl_id (dg_elements (cm_diagram nextModel))) now)))))))"

definition commitCommand ::
  "jstring \<Rightarrow> collaboration_identity \<Rightarrow> document_command \<Rightarrow> jstring \<Rightarrow> canonical_model \<Rightarrow> jstring list \<Rightarrow> int
     \<Rightarrow> server_db \<Rightarrow> server_db \<times> (process_error + processed_command)" where
  "commitCommand rowId identity input fp m elementIds committedAt db =
     (case compareAndSetDocument (dm_documentId input) (dm_baseRevision input) (ci_userId identity) (\<lambda>x. True)
         (\<lambda>x. x\<lparr>dc_canonicalModel := m, dc_updatedById := uuid_key (ci_userId identity),
                dc_updatedAt := committedAt\<rparr>) db of
        NoRow \<Rightarrow> (db,
          (case findOperation (dm_documentId input) (dm_operationId input) db of
             Some duplicate \<Rightarrow> resolveExisting duplicate identity input fp
           | None \<Rightarrow> (case getAuthorizedDocument (dm_documentId input) (ci_userId identity) db of
               None \<Rightarrow> Inl (failWith NOT_FOUND)
             | Some current \<Rightarrow>
                 Inl (CollaborationOperationError REVISION_CONFLICT (Some (dc_revision current))))))
      | OutOfRange \<Rightarrow> (db, Inl DatabaseError)
      | UniqueViolation \<Rightarrow> (db, Inl KnownUniqueConstraint)
      | Updated db1 \<Rightarrow>
          (case Option.bind (insertRevision \<lparr>rv_documentId = uuid_key (dm_documentId input),
                  rv_revision = dm_baseRevision input + 1, rv_canonicalModel = m,
                  rv_authorId = uuid_key (ci_userId identity)\<rparr> db1)
                (insertOperation \<lparr>ox_id = rowId, ox_operationId = uuid_key (dm_operationId input),
                   ox_documentId = uuid_key (dm_documentId input), ox_actorId = uuid_key (ci_userId identity),
                   ox_baseRevision = dm_baseRevision input, ox_resultingRevision = dm_baseRevision input + 1,
                   ox_command = dm_command input, ox_commandFingerprint = fp, ox_committedAt = committedAt,
                   ox_broadcastedAt = None\<rparr>) of
             None \<Rightarrow> (db, Inl KnownUniqueConstraint)
           | Some db2 \<Rightarrow> (db2, Inr \<lparr>pc_operationId = dm_operationId input, pc_documentId = dm_documentId input,
               pc_baseRevision = dm_baseRevision input, pc_revision = dm_baseRevision input + 1,
               pc_committedAt = toISOString committedAt, pc_command = dm_command input, pc_idempotent = False,
               pc_requiresBroadcast = True, pc_activeElementIds = elementIds\<rparr>)))"

definition processInTransaction ::
  "(jstring \<Rightarrow> bool) \<Rightarrow> (canonical_model \<Rightarrow> validation_issue list + canonical_model) \<Rightarrow> (jstring \<Rightarrow> jstring) \<Rightarrow> int
     \<Rightarrow> jstring \<Rightarrow> collaboration_identity \<Rightarrow> document_command \<Rightarrow> jstring \<Rightarrow> jstring \<Rightarrow> lock_store
     \<Rightarrow> server_db \<Rightarrow> server_db \<Rightarrow> server_db \<Rightarrow> lock_store \<times> server_db \<times> (process_error + processed_command)" where
  "processInTransaction isUUID schema lowerEs now rowId identity input fp socketId locks dbDocument dbOperation dbWrite =
     (case lockCommandAuthorization isUUID now identity (dm_documentId input) dbDocument of
        Inl e \<Rightarrow> (locks, dbWrite, Inl e)
      | Inr document \<Rightarrow>
          (case prepareCommand schema lowerEs now identity input fp socketId document locks dbOperation of
             (locks', Inl e) \<Rightarrow> (locks', dbWrite, Inl e)
           | (locks', Inr (Finished r)) \<Rightarrow> (locks', dbWrite, Inr r)
           | (locks', Inr (Prepared m elementIds committedAt)) \<Rightarrow>
               (locks', commitCommand rowId identity input fp m elementIds committedAt dbWrite)))"

definition findExistingForActor ::
  "(jstring \<Rightarrow> bool) \<Rightarrow> int \<Rightarrow> collaboration_identity \<Rightarrow> document_command \<Rightarrow> jstring \<Rightarrow> server_db
     \<Rightarrow> process_error + processed_command option" where
  "findExistingForActor isUUID now identity input fp db =
     bindE (throwUnless (isSessionActive isUUID now (ci_userId identity) (ci_sessionId identity) (auth_db.truncate db))
              (failWith SESSION_REVOKED)) (\<lambda>_.
     case (findOperation (dm_documentId input) (dm_operationId input) db,
           getAuthorizedDocument (dm_documentId input) (ci_userId identity) db) of
       (Some x, Some _) \<Rightarrow> bindE (resolveExisting x identity input fp) (\<lambda>r. Inr (Some r))
     | _ \<Rightarrow> Inr None)"

definition process ::
  "(jstring \<Rightarrow> bool) \<Rightarrow> (canonical_model \<Rightarrow> validation_issue list + canonical_model) \<Rightarrow> (jstring \<Rightarrow> jstring)
     \<Rightarrow> (rat \<Rightarrow> jstring) \<Rightarrow> (jstring \<Rightarrow> jstring) \<Rightarrow> int \<Rightarrow> jstring \<Rightarrow> collaboration_identity \<Rightarrow> document_command \<Rightarrow> jstring
     \<Rightarrow> lock_store \<Rightarrow> server_db \<Rightarrow> server_db \<Rightarrow> server_db \<Rightarrow> lock_store \<times> server_db \<times> (process_error + processed_command)" where
  "process isUUID schema lowerEs showNumber sha256 now rowId identity input socketId locks dbDocument dbOperation dbWrite =
     (let fp = commandFingerprint showNumber sha256 (dm_baseRevision input) (dm_command input) in
      case processInTransaction isUUID schema lowerEs now rowId identity input fp socketId locks
             dbDocument dbOperation dbWrite of
        (locks', db', Inl KnownUniqueConstraint) \<Rightarrow> (locks', db',
          (case findExistingForActor isUUID now identity input fp db' of
             Inl e \<Rightarrow> Inl e
           | Inr (Some duplicate) \<Rightarrow> Inr duplicate
           | Inr None \<Rightarrow> Inl KnownUniqueConstraint))
      | r \<Rightarrow> r)"

section \<open>Delivery of operations\<close>

definition deliver :: "int \<Rightarrow> (operation_row \<Rightarrow> bool) \<Rightarrow> server_db \<Rightarrow> server_db" where
  "deliver now P db = db\<lparr>db_operations :=
     map (\<lambda>x. if P x \<and> ox_broadcastedAt x = None then x\<lparr>ox_broadcastedAt := Some now\<rparr> else x) (db_operations db)\<rparr>"

definition markBroadcastDelivered :: "int \<Rightarrow> jstring \<Rightarrow> jstring \<Rightarrow> server_db \<Rightarrow> server_db" where
  "markBroadcastDelivered now did opId =
     deliver now (\<lambda>x. ox_documentId x = uuid_key did \<and> ox_operationId x = uuid_key opId)"

definition markPendingBroadcastsDelivered :: "int \<Rightarrow> jstring \<Rightarrow> server_db \<Rightarrow> server_db" where
  "markPendingBroadcastsDelivered now did = deliver now (\<lambda>x. ox_documentId x = uuid_key did)"

text \<open>\<open>[...new Set(xs)]\<close> keeps the first of equal values.\<close>

definition listDocumentsAwaitingDelivery :: "nat \<Rightarrow> server_db \<Rightarrow> jstring list" where
  "listDocumentsAwaitingDelivery limit db =
     rev (remdups (rev (map ox_documentId (take limit (sort_key ox_committedAt (sort_key ox_id
       (filter (\<lambda>x. ox_broadcastedAt x = None) (db_operations db))))))))"

definition hasPendingBroadcasts :: "jstring \<Rightarrow> server_db \<Rightarrow> bool" where
  "hasPendingBroadcasts did db =
     list_ex (\<lambda>x. ox_documentId x = uuid_key did \<and> ox_broadcastedAt x = None) (db_operations db)"

end
