(* ===== verification/Projects.thy ===== *)
theory Projects
  imports Server_Tables
begin

text \<open>
  Projects and their members, src/src/modules/projects/projects.service.ts and
  project-member.guard.ts. A transaction is one step; the changes published to the collaboration event
  bus are returned with the result. \<open>lower\<close> is \<open>toLowerCase\<close> on an email.
\<close>

datatype project_change =
    MemberGranted jstring jstring
  | MemberRemoved jstring jstring "jstring list"
  | ProjectDeleted jstring "jstring list"

record project_response =
  pp_id :: jstring
  pp_name :: jstring
  pp_description :: "jstring option"
  pp_role :: project_role
  pp_createdAt :: int
  pp_updatedAt :: int

record member_response =
  mr_userId :: jstring
  mr_email :: jstring
  mr_displayName :: jstring
  mr_role :: project_role
  mr_createdAt :: int

definition project_response_of :: "project_row \<Rightarrow> project_role \<Rightarrow> project_response" where
  "project_response_of p role = \<lparr>pp_id = pj_id p, pp_name = pj_name p, pp_description = pj_description p,
     pp_role = role, pp_createdAt = pj_createdAt p, pp_updatedAt = pj_updatedAt p\<rparr>"

definition optionalDescription :: "jstring option \<Rightarrow> jstring option" where
  "optionalDescription description = (case description of
      None \<Rightarrow> None
    | Some d \<Rightarrow> if js_trim d = [] then None else Some (js_trim d))"

definition assertOwner :: "jstring \<Rightarrow> jstring \<Rightarrow> server_db \<Rightarrow> http_error + unit" where
  "assertOwner pid uid db = (case findMember pid uid db of
      None \<Rightarrow> Inl NotFound
    | Some m \<Rightarrow> if mb_role m \<noteq> Owner then Inl Forbidden else Inr ())"

definition lockMutationSession :: "(jstring \<Rightarrow> bool) \<Rightarrow> int \<Rightarrow> jstring \<Rightarrow> jstring \<Rightarrow> server_db \<Rightarrow> http_error + unit" where
  "lockMutationSession isUUID now uid sid db = throwUnless (sessionLocked isUUID now uid sid db) Unauthenticated"

definition listForUser :: "jstring \<Rightarrow> server_db \<Rightarrow> project_response list" where
  "listForUser uid db =
     List.map_filter (\<lambda>p. map_option (\<lambda>m. project_response_of p (mb_role m)) (findMember (pj_id p) uid db))
       (sort_key (\<lambda>p. - pj_updatedAt p) (db_projects db))"

definition create ::
  "(jstring \<Rightarrow> bool) \<Rightarrow> int \<Rightarrow> jstring \<Rightarrow> jstring \<Rightarrow> jstring \<Rightarrow> jstring \<Rightarrow> jstring option \<Rightarrow> server_db
     \<Rightarrow> server_db \<times> (http_error + project_response)" where
  "create isUUID now uuid uid sid name description db =
     (case lockMutationSession isUUID now uid sid db of
        Inl e \<Rightarrow> (db, Inl e)
      | Inr _ \<Rightarrow>
          (let p = \<lparr>pj_id = uuid_key uuid, pj_name = name, pj_description = optionalDescription description,
                    pj_ownerId = uuid_key uid, pj_createdAt = now, pj_updatedAt = now\<rparr>;
               m = \<lparr>mb_projectId = uuid_key uuid, mb_userId = uuid_key uid, mb_role = Owner, mb_createdAt = now\<rparr>
           in if findProject uuid db \<noteq> None then (db, Inl ServerError)
              else (db\<lparr>db_projects := db_projects db @ [p], db_members := db_members db @ [m]\<rparr>,
                    Inr (project_response_of p Owner))))"

definition getForUser :: "jstring \<Rightarrow> jstring \<Rightarrow> server_db \<Rightarrow> http_error + project_response" where
  "getForUser pid uid db = (case (findProject pid db, findMember pid uid db) of
      (Some p, Some m) \<Rightarrow> Inr (project_response_of p (mb_role m))
    | _ \<Rightarrow> Inl NotFound)"

text \<open>An absent field is \<open>None\<close>; a description that is \<open>null\<close> is \<open>Some None\<close>.\<close>

definition updateOwnerProject ::
  "(jstring \<Rightarrow> bool) \<Rightarrow> int \<Rightarrow> jstring \<Rightarrow> jstring \<Rightarrow> jstring \<Rightarrow> jstring option \<Rightarrow> jstring option option
     \<Rightarrow> server_db \<Rightarrow> server_db \<times> (http_error + project_response)" where
  "updateOwnerProject isUUID now pid uid sid name description db =
     (if name = None \<and> description = None then (db, Inl BadRequest)
      else case lockMutationSession isUUID now uid sid db of
        Inl e \<Rightarrow> (db, Inl e)
      | Inr _ \<Rightarrow>
          (if findProject pid db \<noteq> None \<and> map_option mb_role (findMember pid uid db) = Some Owner
           then (let change = (\<lambda>p. if pj_id p \<noteq> uuid_key pid then p
                   else p\<lparr>pj_name := (case name of None \<Rightarrow> pj_name p | Some n \<Rightarrow> n),
                          pj_description := (case description of None \<Rightarrow> pj_description p
                             | Some d \<Rightarrow> optionalDescription d),
                          pj_updatedAt := now\<rparr>);
                     db' = db\<lparr>db_projects := map change (db_projects db)\<rparr>
                 in (db', getForUser pid uid db'))
           else (db, Inl NotFound)))"

definition projectDocumentIds :: "jstring \<Rightarrow> server_db \<Rightarrow> jstring list" where
  "projectDocumentIds pid db =
     map dc_id (filter (\<lambda>x. dc_projectId x = uuid_key pid) (db_documents db))"

definition deleteProjectRow :: "jstring \<Rightarrow> server_db \<Rightarrow> server_db" where
  "deleteProjectRow pid db =
     (let db' = deleteDocuments (\<lambda>x. dc_projectId x = uuid_key pid) db in
      db'\<lparr>db_projects := filter (\<lambda>p. pj_id p \<noteq> uuid_key pid) (db_projects db'),
          db_members := filter (\<lambda>m. mb_projectId m \<noteq> uuid_key pid) (db_members db')\<rparr>)"

definition deleteOwnerProject ::
  "(jstring \<Rightarrow> bool) \<Rightarrow> int \<Rightarrow> jstring \<Rightarrow> jstring \<Rightarrow> jstring \<Rightarrow> server_db
     \<Rightarrow> server_db \<times> project_change list \<times> (http_error + unit)" where
  "deleteOwnerProject isUUID now pid uid sid db =
     (case lockMutationSession isUUID now uid sid db of
        Inl e \<Rightarrow> (db, [], Inl e)
      | Inr _ \<Rightarrow>
          if findProject pid db = None then (db, [], Inl NotFound)
          else (case assertOwner pid uid db of
              Inl e \<Rightarrow> (db, [], Inl e)
            | Inr _ \<Rightarrow> (deleteProjectRow pid db, [ProjectDeleted pid (projectDocumentIds pid db)], Inr ())))"

definition userById :: "jstring \<Rightarrow> server_db \<Rightarrow> user_row option" where
  "userById uid db = find (\<lambda>u. us_id u = uuid_key uid) (db_users db)"

text \<open>\<open>orderBy: [{ role: 'desc' }, { createdAt: 'asc' }]\<close>: editors before the owner.\<close>

definition listMembers :: "jstring \<Rightarrow> jstring \<Rightarrow> server_db \<Rightarrow> http_error + member_response list" where
  "listMembers pid ownerId db = bindE (assertOwner pid ownerId db) (\<lambda>_.
     Inr (List.map_filter (\<lambda>m. map_option (\<lambda>u. \<lparr>mr_userId = mb_userId m, mr_email = us_email u,
              mr_displayName = us_displayName u, mr_role = mb_role m, mr_createdAt = mb_createdAt m\<rparr>)
            (userById (mb_userId m) db))
       (sort_key (\<lambda>m. if mb_role m = Owner then (1::nat) else 0)
         (sort_key mb_createdAt (filter (\<lambda>m. mb_projectId m = uuid_key pid) (db_members db))))))"

definition addEditor ::
  "(jstring \<Rightarrow> bool) \<Rightarrow> (jstring \<Rightarrow> jstring) \<Rightarrow> int \<Rightarrow> jstring \<Rightarrow> jstring \<Rightarrow> jstring \<Rightarrow> jstring \<Rightarrow> jstring
     \<Rightarrow> server_db \<Rightarrow> server_db \<times> project_change list \<times> (http_error + member_response)" where
  "addEditor isUUID lower now pid ownerId sid uid email db =
     (case bindE (lockMutationSession isUUID now ownerId sid db) (\<lambda>_. assertOwner pid ownerId db) of
        Inl e \<Rightarrow> (db, [], Inl e)
      | Inr _ \<Rightarrow>
          (case find (\<lambda>u. us_id u = uuid_key uid \<and> us_email u = lower (js_trim email)) (db_users db) of
             None \<Rightarrow> (db, [], Inl NotFound)
           | Some u \<Rightarrow>
               if findMember pid (us_id u) db \<noteq> None then (db, [], Inl (HttpConflict None))
               else (db\<lparr>db_members := db_members db @ [\<lparr>mb_projectId = uuid_key pid, mb_userId = us_id u,
                          mb_role = Editor, mb_createdAt = now\<rparr>]\<rparr>,
                     [MemberGranted pid (us_id u)],
                     Inr \<lparr>mr_userId = us_id u, mr_email = us_email u, mr_displayName = us_displayName u,
                          mr_role = Editor, mr_createdAt = now\<rparr>)))"

definition removeEditor ::
  "(jstring \<Rightarrow> bool) \<Rightarrow> int \<Rightarrow> jstring \<Rightarrow> jstring \<Rightarrow> jstring \<Rightarrow> jstring \<Rightarrow> server_db
     \<Rightarrow> server_db \<times> project_change list \<times> (http_error + unit)" where
  "removeEditor isUUID now pid ownerId sid uid db =
     (case lockMutationSession isUUID now ownerId sid db of
        Inl e \<Rightarrow> (db, [], Inl e)
      | Inr _ \<Rightarrow>
          if findProject pid db = None then (db, [], Inl NotFound)
          else (case assertOwner pid ownerId db of
              Inl e \<Rightarrow> (db, [], Inl e)
            | Inr _ \<Rightarrow> (case findMember pid uid db of
                None \<Rightarrow> (db, [], Inl NotFound)
              | Some m \<Rightarrow>
                  if mb_role m = Owner then (db, [], Inl Forbidden)
                  else (db\<lparr>db_members := filter (\<lambda>m. \<not> (mb_projectId m = uuid_key pid
                             \<and> mb_userId m = uuid_key uid)) (db_members db)\<rparr>,
                        [MemberRemoved pid uid (projectDocumentIds pid db)], Inr ()))))"

section \<open>The guard of the project routes\<close>

text \<open>The accepted roles of the route, when it names any; \<open>None\<close> as parameter is a missing or
  repeated one, \<open>None\<close> as user a request without principal.\<close>

definition canActivate ::
  "(jstring \<Rightarrow> bool) \<Rightarrow> project_role list option \<Rightarrow> jstring option \<Rightarrow> jstring option \<Rightarrow> server_db
     \<Rightarrow> http_error + project_role" where
  "canActivate isUUID acceptedRoles projectId userId db =
     (if \<not> truthy projectId \<or> \<not> isUUID (the projectId) then Inl BadRequest
      else case userId of
        None \<Rightarrow> Inl ServerError
      | Some uid \<Rightarrow> (case findMember (the projectId) uid db of
          None \<Rightarrow> Inl NotFound
        | Some m \<Rightarrow> (case acceptedRoles of
            None \<Rightarrow> Inr (mb_role m)
          | Some roles \<Rightarrow> if mb_role m \<notin> set roles then Inl Forbidden else Inr (mb_role m))))"

end
