(* ===== verification/Project_Laws.thy ===== *)
theory Project_Laws
  imports Projects
begin

text \<open>
  The invariant of projects and members and what the operations of the projects service keep of it.
\<close>

lemma uuid_key_idem [simp]: "uuid_key (uuid_key s) = uuid_key s"
proof -
  have "\<not> c + 0x20 \<le> 0x5A" if "0x41 \<le> c" "c \<le> 0x5A" for c :: "16 word"
  proof -
    have "unat (c + 0x20) = unat c + 0x20"
      using that by (simp add: word_le_nat_alt unat_word_ariths)
    with that show ?thesis by (simp add: word_le_nat_alt)
  qed
  then show ?thesis by (auto simp: uuid_key_def)
qed

text \<open>Stored identifiers are in the form of \<open>uuid_key\<close>.\<close>

definition key :: "jstring \<Rightarrow> bool" where
  "key s \<longleftrightarrow> uuid_key s = s"

lemma key_uuid_key [simp]: "key (uuid_key s)"
  by (simp add: key_def)

definition owner_ok :: "server_db \<Rightarrow> project_row \<Rightarrow> bool" where
  "owner_ok db p \<longleftrightarrow> (\<exists>m \<in> set (db_members db). mb_projectId m = pj_id p \<and> mb_userId m = pj_ownerId p \<and> mb_role m = Owner)
     \<and> (\<forall>m \<in> set (db_members db). mb_projectId m = pj_id p \<and> mb_role m = Owner \<longrightarrow> mb_userId m = pj_ownerId p)"

definition project_inv :: "server_db \<Rightarrow> bool" where
  "project_inv db \<longleftrightarrow> distinct (map pj_id (db_projects db))
     \<and> distinct (map (\<lambda>m. (mb_projectId m, mb_userId m)) (db_members db))
     \<and> (\<forall>p \<in> set (db_projects db). key (pj_id p) \<and> owner_ok db p)
     \<and> (\<forall>m \<in> set (db_members db). mb_projectId m \<in> pj_id ` set (db_projects db))
     \<and> (\<forall>x \<in> set (db_documents db). dc_projectId x \<in> pj_id ` set (db_projects db))
     \<and> (\<forall>u \<in> set (db_users db). key (us_id u))"

lemma find_SomeD: "find P xs = Some x \<Longrightarrow> x \<in> set xs \<and> P x"
  by (auto simp: find_Some_iff)

lemma findMember_Some:
  "findMember pid uid db = Some m \<Longrightarrow> m \<in> set (db_members db) \<and> mb_projectId m = uuid_key pid \<and> mb_userId m = uuid_key uid"
  by (auto simp: findMember_def find_Some_iff)

lemma findMember_None:
  "findMember pid uid db = None \<longleftrightarrow> (\<forall>m \<in> set (db_members db). \<not> (mb_projectId m = uuid_key pid \<and> mb_userId m = uuid_key uid))"
  by (auto simp: findMember_def find_None_iff)

lemma findProject_None:
  "findProject pid db = None \<longleftrightarrow> uuid_key pid \<notin> pj_id ` set (db_projects db)"
  by (force simp: findProject_def find_None_iff image_iff)

section \<open>Operations as steps\<close>

datatype project_op =
    CreateProject jstring jstring "jstring option"
  | UpdateProject jstring "jstring option" "jstring option option"
  | DeleteProject jstring
  | AddEditor jstring jstring jstring
  | RemoveEditor jstring jstring

text \<open>The database, the published changes, and whether the request succeeded.\<close>

fun run_project ::
  "(jstring \<Rightarrow> bool) \<Rightarrow> (jstring \<Rightarrow> jstring) \<Rightarrow> int \<Rightarrow> jstring \<Rightarrow> jstring \<Rightarrow> project_op \<Rightarrow> server_db
     \<Rightarrow> server_db \<times> project_change list \<times> bool" where
  "run_project isUUID lower now uid sid (CreateProject uuid name description) db =
     (case create isUUID now uuid uid sid name description db of (db', r) \<Rightarrow> (db', [], \<not> isl r))"
| "run_project isUUID lower now uid sid (UpdateProject pid name description) db =
     (case updateOwnerProject isUUID now pid uid sid name description db of (db', r) \<Rightarrow> (db', [], \<not> isl r))"
| "run_project isUUID lower now uid sid (DeleteProject pid) db =
     (case deleteOwnerProject isUUID now pid uid sid db of (db', c, r) \<Rightarrow> (db', c, \<not> isl r))"
| "run_project isUUID lower now uid sid (AddEditor pid user email) db =
     (case addEditor isUUID lower now pid uid sid user email db of (db', c, r) \<Rightarrow> (db', c, \<not> isl r))"
| "run_project isUUID lower now uid sid (RemoveEditor pid user) db =
     (case removeEditor isUUID now pid uid sid user db of (db', c, r) \<Rightarrow> (db', c, \<not> isl r))"

fun op_project :: "project_op \<Rightarrow> jstring option" where
  "op_project (CreateProject uuid name description) = None"
| "op_project (UpdateProject pid name description) = Some pid"
| "op_project (DeleteProject pid) = Some pid"
| "op_project (AddEditor pid user email) = Some pid"
| "op_project (RemoveEditor pid user) = Some pid"

lemma unfold_run [simp]:
  "fst (case r of (db', e) \<Rightarrow> (db', c, \<not> isl e)) = fst r"
  "fst (case r' of (db', c, e) \<Rightarrow> (db', c, \<not> isl e)) = fst r'"
  by (simp_all split: prod.split)

lemma assertOwner_Inr: "assertOwner pid uid db = Inr u \<longleftrightarrow> map_option mb_role (findMember pid uid db) = Some Owner"
  by (auto simp: assertOwner_def split: option.split)

lemma lockMutationSession_if:
  "lockMutationSession isUUID now uid sid db = (if sessionLocked isUUID now uid sid db then Inr () else Inl Unauthenticated)"
  by (simp add: lockMutationSession_def throwUnless_def)

text \<open>A request that changes the database came with an active session, of the owner when it is about an
  existing project.\<close>

lemma change_authorized:
  assumes "fst (run_project isUUID lower now uid sid op' db) \<noteq> db"
  shows "sessionLocked isUUID now uid sid db
    \<and> (\<forall>pid. op_project op' = Some pid \<longrightarrow> map_option mb_role (findMember pid uid db) = Some Owner)"
proof (cases op')
  case (CreateProject uuid name description)
  with assms show ?thesis
    by (cases "sessionLocked isUUID now uid sid db") (auto simp: create_def lockMutationSession_if)
next
  case (UpdateProject pid name description)
  with assms show ?thesis
    by (cases "sessionLocked isUUID now uid sid db")
      (auto simp: updateOwnerProject_def lockMutationSession_if split: if_splits)
next
  case (DeleteProject pid)
  with assms show ?thesis
    by (cases "sessionLocked isUUID now uid sid db"; cases "assertOwner pid uid db")
      (auto simp: deleteOwnerProject_def lockMutationSession_if assertOwner_Inr split: if_splits)
next
  case (AddEditor pid user email)
  with assms show ?thesis
    by (cases "sessionLocked isUUID now uid sid db"; cases "assertOwner pid uid db")
      (auto simp: addEditor_def lockMutationSession_if assertOwner_Inr split: if_splits)
next
  case (RemoveEditor pid user)
  with assms show ?thesis
    by (cases "sessionLocked isUUID now uid sid db"; cases "assertOwner pid uid db")
      (auto simp: removeEditor_def lockMutationSession_if assertOwner_Inr split: if_splits)
qed

section \<open>The invariant is kept\<close>

lemma project_invD:
  assumes "project_inv db"
  shows "distinct (map pj_id (db_projects db))" "distinct (map (\<lambda>m. (mb_projectId m, mb_userId m)) (db_members db))"
    "p \<in> set (db_projects db) \<Longrightarrow> key (pj_id p) \<and> owner_ok db p"
    "m \<in> set (db_members db) \<Longrightarrow> mb_projectId m \<in> pj_id ` set (db_projects db)"
    "x \<in> set (db_documents db) \<Longrightarrow> dc_projectId x \<in> pj_id ` set (db_projects db)"
    "u \<in> set (db_users db) \<Longrightarrow> key (us_id u)"
  using assms by (auto simp: project_inv_def)

lemma member_unique:
  assumes "project_inv db" "m \<in> set (db_members db)" "m' \<in> set (db_members db)"
    "mb_projectId m = mb_projectId m'" "mb_userId m = mb_userId m'"
  shows "m = m'"
  using project_invD(2) [OF assms(1)] assms(2-) by (auto simp: distinct_map inj_on_def)

lemma inv_create:
  assumes "project_inv db"
  shows "project_inv (fst (create isUUID now uuid uid sid name description db))"
proof -
  let ?p = "\<lparr>pj_id = uuid_key uuid, pj_name = name, pj_description = optionalDescription description,
    pj_ownerId = uuid_key uid, pj_createdAt = now, pj_updatedAt = now\<rparr>"
  let ?m = "\<lparr>mb_projectId = uuid_key uuid, mb_userId = uuid_key uid, mb_role = Owner, mb_createdAt = now\<rparr>"
  let ?db = "db\<lparr>db_projects := db_projects db @ [?p], db_members := db_members db @ [?m]\<rparr>"
  have "project_inv ?db" if "uuid_key uuid \<notin> pj_id ` set (db_projects db)"
  proof -
    note d = project_invD [OF assms]
    have fresh: "mb_projectId m \<noteq> uuid_key uuid" if "m \<in> set (db_members db)" for m
      using d(4) [OF that] \<open>uuid_key uuid \<notin> _\<close> by auto
    have "owner_ok ?db ?p" using fresh by (auto simp: owner_ok_def)
    moreover have "owner_ok ?db p" if "p \<in> set (db_projects db)" for p
    proof -
      have "pj_id p \<noteq> uuid_key uuid" using that \<open>uuid_key uuid \<notin> _\<close> by (force simp: image_iff)
      then show ?thesis using d(3) [OF that] by (auto simp: owner_ok_def)
    qed
    ultimately show ?thesis using d fresh that by (auto simp: project_inv_def)
  qed
  then show ?thesis using assms
    by (cases "sessionLocked isUUID now uid sid db")
      (auto simp: create_def lockMutationSession_if Let_def findProject_None)
qed

lemma owner_ok_same_members: "db_members db' = db_members db \<Longrightarrow> owner_ok db' = owner_ok db"
  by (intro ext) (simp add: owner_ok_def)

lemma inv_map_projects:
  assumes "project_inv db" and f: "\<And>p. pj_id (f p) = pj_id p" "\<And>p. pj_ownerId (f p) = pj_ownerId p"
  shows "project_inv (db\<lparr>db_projects := map f (db_projects db)\<rparr>)"
proof -
  have "pj_id \<circ> f = pj_id" by (simp add: comp_def f)
  moreover have "pj_id ` f ` S = pj_id ` S" for S using f(1) by (auto simp: image_image)
  moreover have "owner_ok (db\<lparr>db_projects := map f (db_projects db)\<rparr>) (f p) = owner_ok db p" for p
    by (simp add: owner_ok_def f)
  ultimately show ?thesis using project_invD [OF assms(1)] by (simp add: project_inv_def f)
qed

lemma inv_update:
  assumes "project_inv db"
  shows "project_inv (fst (updateOwnerProject isUUID now pid uid sid name description db))"
  using assms
  by (cases "sessionLocked isUUID now uid sid db")
    (simp_all add: updateOwnerProject_def lockMutationSession_if Let_def inv_map_projects)

lemma deleteProjectRow_simps:
  "db_projects (deleteProjectRow pid db) = filter (\<lambda>p. pj_id p \<noteq> uuid_key pid) (db_projects db)"
  "db_members (deleteProjectRow pid db) = filter (\<lambda>m. mb_projectId m \<noteq> uuid_key pid) (db_members db)"
  "db_documents (deleteProjectRow pid db) = filter (\<lambda>x. dc_projectId x \<noteq> uuid_key pid) (db_documents db)"
  "db_revisions (deleteProjectRow pid db) =
     filter (\<lambda>r. rv_documentId r \<notin> set (projectDocumentIds pid db)) (db_revisions db)"
  "db_operations (deleteProjectRow pid db) =
     filter (\<lambda>x. ox_documentId x \<notin> set (projectDocumentIds pid db)) (db_operations db)"
  "db_users (deleteProjectRow pid db) = db_users db"
  by (simp_all add: deleteProjectRow_def deleteDocuments_def projectDocumentIds_def Let_def)

lemma inv_delete:
  assumes "project_inv db"
  shows "project_inv (deleteProjectRow pid db)"
proof -
  note d = project_invD [OF assms]
  have rest: "i \<in> pj_id ` {p \<in> set (db_projects db). pj_id p \<noteq> uuid_key pid}"
    if "i \<in> pj_id ` set (db_projects db)" "i \<noteq> uuid_key pid" for i
    using that by auto
  have "owner_ok (deleteProjectRow pid db) p" if "p \<in> set (db_projects db)" "pj_id p \<noteq> uuid_key pid" for p
    using d(3) [OF that(1)] that(2) by (auto simp: owner_ok_def deleteProjectRow_simps)
  with d show ?thesis
    by (simp add: project_inv_def deleteProjectRow_simps rest distinct_map_filter)
qed

lemma inv_add_member:
  assumes "project_inv db" and "mb_projectId m \<in> pj_id ` set (db_projects db)" and "mb_role m = Editor"
    and "\<forall>m' \<in> set (db_members db). \<not> (mb_projectId m' = mb_projectId m \<and> mb_userId m' = mb_userId m)"
  shows "project_inv (db\<lparr>db_members := db_members db @ [m]\<rparr>)"
proof -
  have "owner_ok (db\<lparr>db_members := db_members db @ [m]\<rparr>) p = owner_ok db p" for p
    using assms(3) by (auto simp: owner_ok_def)
  with project_invD [OF assms(1)] assms(2,4) show ?thesis by (auto simp: project_inv_def)
qed

lemma inv_remove_member:
  assumes "project_inv db" and "m \<in> set (db_members db)" and "mb_role m \<noteq> Owner"
  shows "project_inv (db\<lparr>db_members := filter (\<lambda>m'. \<not> (mb_projectId m' = mb_projectId m
    \<and> mb_userId m' = mb_userId m)) (db_members db)\<rparr>)" (is "project_inv ?db")
proof -
  have "owner_ok ?db p" if "p \<in> set (db_projects db)" for p
    using project_invD(3) [OF assms(1) that] member_unique [OF assms(1,2)] assms(3)
    by (auto simp: owner_ok_def)
  with project_invD [OF assms(1)] show ?thesis
    by (auto simp: project_inv_def intro: distinct_map_filter)
qed

lemma run_project_inv:
  assumes "project_inv db"
  shows "project_inv (fst (run_project isUUID lower now uid sid op' db))"
proof (cases op')
  case (CreateProject uuid name description)
  then show ?thesis by (simp add: inv_create [OF assms])
next
  case (UpdateProject pid name description)
  then show ?thesis by (simp add: inv_update [OF assms])
next
  case (DeleteProject pid)
  then show ?thesis using assms
    by (cases "sessionLocked isUUID now uid sid db"; cases "assertOwner pid uid db")
      (auto simp: deleteOwnerProject_def lockMutationSession_if inv_delete)
next
  case (AddEditor pid user email)
  show ?thesis
  proof (cases "fst (run_project isUUID lower now uid sid op' db) = db")
    case False
    from change_authorized [OF False] AddEditor obtain m where
      "findMember pid uid db = Some m" by auto
    with project_invD(4) [OF assms] have pid: "uuid_key pid \<in> pj_id ` set (db_projects db)"
      using findMember_Some by metis
    from False AddEditor obtain u where u: "u \<in> set (db_users db)" "findMember pid (us_id u) db = None"
      "fst (run_project isUUID lower now uid sid op' db) = db\<lparr>db_members := db_members db @
         [\<lparr>mb_projectId = uuid_key pid, mb_userId = us_id u, mb_role = Editor, mb_createdAt = now\<rparr>]\<rparr>"
      by (cases "sessionLocked isUUID now uid sid db"; cases "assertOwner pid uid db")
        (auto simp: addEditor_def lockMutationSession_if dest!: find_SomeD split: option.splits if_splits)
    have "uuid_key (us_id u) = us_id u" using project_invD(6) [OF assms u(1)] by (simp add: key_def)
    with u pid show ?thesis by (auto simp: findMember_None intro!: inv_add_member [OF assms])
  qed (use assms in simp)
next
  case (RemoveEditor pid user)
  show ?thesis
  proof (cases "fst (run_project isUUID lower now uid sid op' db) = db")
    case False
    with RemoveEditor obtain m where m: "findMember pid user db = Some m" "mb_role m \<noteq> Owner"
      "fst (run_project isUUID lower now uid sid op' db) = db\<lparr>db_members := filter (\<lambda>m. \<not> (mb_projectId m = uuid_key pid
                             \<and> mb_userId m = uuid_key user)) (db_members db)\<rparr>"
      by (cases "sessionLocked isUUID now uid sid db"; cases "assertOwner pid uid db")
        (auto simp: removeEditor_def lockMutationSession_if split: option.splits if_splits)
    from inv_remove_member [OF assms _ m(2)] findMember_Some [OF m(1)] show ?thesis by (simp add: m(3))
  qed (use assms in simp)
qed

inductive project_reachable :: "(jstring \<Rightarrow> bool) \<Rightarrow> (jstring \<Rightarrow> jstring) \<Rightarrow> server_db \<Rightarrow> bool" for isUUID lower where
  Start: "db_projects db = [] \<Longrightarrow> db_members db = [] \<Longrightarrow> db_documents db = [] \<Longrightarrow>
    (\<forall>u \<in> set (db_users db). key (us_id u)) \<Longrightarrow> project_reachable isUUID lower db"
| Step: "project_reachable isUUID lower db \<Longrightarrow>
    project_reachable isUUID lower (fst (run_project isUUID lower now uid sid op' db))"

lemma project_reachable_inv: "project_reachable isUUID lower db \<Longrightarrow> project_inv db"
proof (induction rule: project_reachable.induct)
  case (Start db)
  then show ?case by (simp add: project_inv_def)
qed (rule run_project_inv)

end
