(* ===== verification/Document_Laws.thy ===== *)
theory Document_Laws
  imports Document_Commands Project_Laws
begin

text \<open>
  How the operations on documents change the tables: every one either leaves documents and revisions
  alone, adds a document with its first revision, replaces the content of one document and adds the next
  revision (\<open>advances\<close>), or deletes documents with what belongs to them.
\<close>

lemma findDocument_Some: "findDocument did db = Some x \<Longrightarrow> x \<in> set (db_documents db) \<and> dc_id x = uuid_key did"
  by (auto simp: findDocument_def dest: find_SomeD)

lemma findDocument_None: "findDocument did db = None \<longleftrightarrow> uuid_key did \<notin> dc_id ` set (db_documents db)"
  by (force simp: findDocument_def find_None_iff image_iff)

lemma findProjectDocument_Some:
  "findProjectDocument pid did db = Some x \<Longrightarrow> x \<in> set (db_documents db) \<and> dc_id x = uuid_key did
     \<and> dc_projectId x = uuid_key pid"
  by (auto simp: findProjectDocument_def dest: find_SomeD)

lemma findOperation_Some:
  "findOperation did opId db = Some x \<Longrightarrow> x \<in> set (db_operations db) \<and> ox_documentId x = uuid_key did
     \<and> ox_operationId x = uuid_key opId"
  by (auto simp: findOperation_def dest: find_SomeD)

lemma findOperation_None:
  "findOperation did opId db = None \<longleftrightarrow> (\<forall>x \<in> set (db_operations db).
     \<not> (ox_documentId x = uuid_key did \<and> ox_operationId x = uuid_key opId))"
  by (auto simp: findOperation_def find_None_iff)

section \<open>Conditional updates\<close>

lemma compareAndSet_Updated:
  "compareAndSetDocument did base uid extra f db = Updated db' \<longleftrightarrow>
     (\<exists>x. findDocument did db = Some x \<and> dc_revision x = base \<and> extra x
        \<and> findMember (dc_projectId x) uid db \<noteq> None \<and> base < max_integer_column
        \<and> \<not> nameTaken ((f x)\<lparr>dc_revision := base + 1\<rparr>) db
        \<and> db' = db\<lparr>db_documents := map (\<lambda>z. if dc_id z = uuid_key did
             then (f x)\<lparr>dc_revision := base + 1\<rparr> else z) (db_documents db)\<rparr>)"
  by (auto simp: compareAndSetDocument_def Let_def split: option.splits if_splits)

text \<open>A document row replaced by its successor, with the row of the new revision and the rows of
  operations that come with it.\<close>

definition advances :: "server_db \<Rightarrow> document_row \<Rightarrow> document_row \<Rightarrow> jstring \<Rightarrow> operation_row list \<Rightarrow> server_db \<Rightarrow> bool" where
  "advances db x y author ops db' \<longleftrightarrow> x \<in> set (db_documents db)
     \<and> dc_id y = dc_id x \<and> dc_projectId y = dc_projectId x \<and> dc_revision y = dc_revision x + 1
     \<and> (\<forall>r \<in> set (db_revisions db). \<not> (rv_documentId r = dc_id x \<and> rv_revision r = dc_revision y))
     \<and> (\<forall>q \<in> set ops. \<forall>q' \<in> set (db_operations db). \<not> (ox_documentId q' = ox_documentId q
          \<and> ox_operationId q' = ox_operationId q))
     \<and> db' = db\<lparr>db_documents := map (\<lambda>z. if dc_id z = dc_id x then y else z) (db_documents db),
          db_revisions := db_revisions db @ [\<lparr>rv_documentId = dc_id x, rv_revision = dc_revision y,
            rv_canonicalModel = dc_canonicalModel y, rv_authorId = author\<rparr>],
          db_operations := db_operations db @ ops\<rparr>"

lemma insertRevision_Some:
  "insertRevision r db = Some db' \<longleftrightarrow> (\<forall>r' \<in> set (db_revisions db). \<not> (rv_documentId r' = rv_documentId r
     \<and> rv_revision r' = rv_revision r)) \<and> db' = db\<lparr>db_revisions := db_revisions db @ [r]\<rparr>"
  by (auto simp: insertRevision_def)

lemma insertOperation_Some:
  "insertOperation x db = Some db' \<longleftrightarrow> (\<forall>x' \<in> set (db_operations db). \<not> (ox_documentId x' = ox_documentId x
     \<and> ox_operationId x' = ox_operationId x)) \<and> db' = db\<lparr>db_operations := db_operations db @ [x]\<rparr>"
  by (auto simp: insertOperation_def)

lemma advances_update [simp]:
  "x \<in> set (db_documents db) \<Longrightarrow> find (\<lambda>z. dc_id z = dc_id x)
     (map (\<lambda>z. if dc_id z = dc_id x then y else z) (db_documents db)) = (if dc_id y = dc_id x then Some y else None)"
proof (induction "db_documents db" arbitrary: db)
  case (Cons z zs)
  have "find (\<lambda>z. dc_id z = dc_id x) (map (\<lambda>z. if dc_id z = dc_id x then y else z) ys) = None"
    if "dc_id y \<noteq> dc_id x" for ys
    using that by (auto simp: find_None_iff)
  moreover have "find (\<lambda>z. dc_id z = dc_id x) (map (\<lambda>z. if dc_id z = dc_id x then y else z) ys) = Some y"
    if "dc_id y = dc_id x" "x \<in> set ys" for ys
    using that by (induction ys) auto
  ultimately show ?case using Cons.prems by auto
qed simp

section \<open>What the operations do to the tables\<close>

definition command_operation ::
  "jstring \<Rightarrow> collaboration_identity \<Rightarrow> document_command \<Rightarrow> jstring \<Rightarrow> int \<Rightarrow> operation_row" where
  "command_operation rowId identity input fp t = \<lparr>ox_id = rowId, ox_operationId = uuid_key (dm_operationId input),
     ox_documentId = uuid_key (dm_documentId input), ox_actorId = uuid_key (ci_userId identity),
     ox_baseRevision = dm_baseRevision input, ox_resultingRevision = dm_baseRevision input + 1,
     ox_command = dm_command input, ox_commandFingerprint = fp, ox_committedAt = t, ox_broadcastedAt = None\<rparr>"

definition accepted :: "document_command \<Rightarrow> jstring list \<Rightarrow> int \<Rightarrow> processed_command" where
  "accepted input elementIds t = \<lparr>pc_operationId = dm_operationId input, pc_documentId = dm_documentId input,
     pc_baseRevision = dm_baseRevision input, pc_revision = dm_baseRevision input + 1,
     pc_committedAt = toISOString t, pc_command = dm_command input, pc_idempotent = False,
     pc_requiresBroadcast = True, pc_activeElementIds = elementIds\<rparr>"

lemma resolveExisting_idempotent: "resolveExisting x identity input fp = Inr r \<Longrightarrow> pc_idempotent r"
  by (auto simp: resolveExisting_def split: if_splits)

lemma commitCommand_cases:
  assumes "commitCommand rowId identity input fp m els t db = (db', r)"
  shows "db' = db \<and> (\<forall>p. r = Inr p \<longrightarrow> pc_idempotent p)
    \<or> (\<exists>x y. findDocument (dm_documentId input) db = Some x \<and> dc_revision x = dm_baseRevision input
         \<and> findMember (dc_projectId x) (ci_userId identity) db \<noteq> None
         \<and> dc_canonicalModel y = m
         \<and> advances db x y (uuid_key (ci_userId identity)) [command_operation rowId identity input fp t] db'
         \<and> r = Inr (accepted input els t))"
proof (cases "compareAndSetDocument (dm_documentId input) (dm_baseRevision input) (ci_userId identity) (\<lambda>x. True)
    (\<lambda>x. x\<lparr>dc_canonicalModel := m, dc_updatedById := uuid_key (ci_userId identity), dc_updatedAt := t\<rparr>) db")
  case (Updated db1)
  then obtain x where x: "findDocument (dm_documentId input) db = Some x" "dc_revision x = dm_baseRevision input"
    "findMember (dc_projectId x) (ci_userId identity) db \<noteq> None"
    and db1: "db1 = db\<lparr>db_documents := map (\<lambda>z. if dc_id z = uuid_key (dm_documentId input)
       then x\<lparr>dc_canonicalModel := m, dc_updatedById := uuid_key (ci_userId identity), dc_updatedAt := t,
              dc_revision := dm_baseRevision input + 1\<rparr> else z) (db_documents db)\<rparr>"
    unfolding compareAndSet_Updated by auto
  let ?y = "x\<lparr>dc_canonicalModel := m, dc_updatedById := uuid_key (ci_userId identity), dc_updatedAt := t,
              dc_revision := dm_baseRevision input + 1\<rparr>"
  show ?thesis
  proof (cases "db' = db \<and> r = Inl KnownUniqueConstraint")
    case False
    with assms Updated x findDocument_Some [OF x(1)]
    have "advances db x ?y (uuid_key (ci_userId identity)) [command_operation rowId identity input fp t] db'
      \<and> r = Inr (accepted input els t)"
      by (auto simp: commitCommand_def db1 advances_def command_operation_def accepted_def insertRevision_Some
          insertOperation_Some bind_eq_Some_conv split: option.splits)
    then show ?thesis using x by (intro disjI2 exI [of _ x] exI [of _ ?y]) simp
  qed simp
next
  case NoRow
  with assms show ?thesis
    by (auto simp: commitCommand_def resolveExisting_idempotent split: option.splits)
qed (use assms in \<open>auto simp: commitCommand_def\<close>)

lemma commitUpdate_cases:
  assumes "commitUpdate now pid did uid expected name m db = (db', r)"
  shows "db' = db \<and> isl r
    \<or> (\<exists>x y. findDocument did db = Some x \<and> dc_projectId x = uuid_key pid \<and> dc_revision x = expected
         \<and> findMember pid uid db \<noteq> None \<and> dc_canonicalModel y = m
         \<and> advances db x y (uuid_key uid) [] db' \<and> r = Inr y)"
proof (cases "compareAndSetDocument did expected uid (\<lambda>x. dc_projectId x = uuid_key pid)
    (\<lambda>x. x\<lparr>dc_name := (case name of None \<Rightarrow> dc_name x | Some n \<Rightarrow> n), dc_canonicalModel := m,
           dc_updatedById := uuid_key uid, dc_updatedAt := now\<rparr>) db")
  case (Updated db1)
  then obtain x where x: "findDocument did db = Some x" "dc_revision x = expected" "dc_projectId x = uuid_key pid"
    "findMember (dc_projectId x) uid db \<noteq> None"
    and db1: "db1 = db\<lparr>db_documents := map (\<lambda>z. if dc_id z = uuid_key did
       then x\<lparr>dc_name := (case name of None \<Rightarrow> dc_name x | Some n \<Rightarrow> n), dc_canonicalModel := m,
           dc_updatedById := uuid_key uid, dc_updatedAt := now, dc_revision := expected + 1\<rparr> else z) (db_documents db)\<rparr>"
    unfolding compareAndSet_Updated by auto
  let ?y = "x\<lparr>dc_name := (case name of None \<Rightarrow> dc_name x | Some n \<Rightarrow> n), dc_canonicalModel := m,
           dc_updatedById := uuid_key uid, dc_updatedAt := now, dc_revision := expected + 1\<rparr>"
  have found: "findDocument did db1 = Some ?y"
    using findDocument_Some [OF x(1)] advances_update [of x db ?y] by (simp add: findDocument_def db1)
  have member: "findMember pid uid db \<noteq> None" using x(3,4) by (simp add: findMember_def)
  show ?thesis
  proof (cases "db' = db \<and> isl r")
    case False
    with assms Updated x found findDocument_Some [OF x(1)]
    have "advances db x ?y (uuid_key uid) [] db' \<and> r = Inr ?y"
      by (auto simp: commitUpdate_def db1 advances_def insertRevision_Some split: option.splits)
    then show ?thesis using x member
      by (intro disjI2 exI [of _ x] exI [of _ ?y]) simp
  qed simp
qed (use assms in \<open>auto simp: commitUpdate_def split: option.splits if_splits\<close>)

lemma createDocument_cases:
  assumes "createDocument isUUID schemaIn schema lowerEs now documentId pid uid sid name body db = (db', r)"
  shows "db' = db \<and> isl r
    \<or> (\<exists>x m. r = Inr x \<and> dc_id x = uuid_key documentId \<and> dc_projectId x = uuid_key pid \<and> dc_revision x = 0
         \<and> dc_name x = name \<and> dc_canonicalModel x = m
         \<and> validateAndNormalize schemaIn schema lowerEs body 0 now (Some (pid, documentId)) = Inr m
         \<and> lockRequest isUUID now pid uid sid db = Inr ()
         \<and> insertDocument x db = Some db')"
  using assms
  by (auto simp: createDocument_def Let_def split: sum.splits option.splits)

lemma insertDocument_Some:
  assumes "insertDocument x db = Some db'" and "key (dc_id x)"
  shows "dc_id x \<notin> dc_id ` set (db_documents db)
    \<and> (\<forall>r \<in> set (db_revisions db). \<not> (rv_documentId r = dc_id x \<and> rv_revision r = dc_revision x))
    \<and> db' = db\<lparr>db_documents := db_documents db @ [x], db_revisions := db_revisions db @
         [\<lparr>rv_documentId = dc_id x, rv_revision = dc_revision x, rv_canonicalModel = dc_canonicalModel x,
           rv_authorId = dc_createdById x\<rparr>]\<rparr>"
  using assms by (auto simp: insertDocument_def insertRevision_Some findDocument_None key_def split: if_splits)

lemma updateDocument_cases:
  assumes "updateDocument isUUID schemaIn schema lowerEs now busy pid did uid sid name expected body locks dbRead db
    = (locks', db', changes, r)"
  shows "db' = db \<and> isl r \<and> changes = []
    \<or> (\<exists>x y m. \<not> busy \<and> validateAndNormalize schemaIn schema lowerEs body (expected + 1) now (Some (pid, did)) = Inr m
         \<and> checkUpdate isUUID now pid did uid sid expected locks dbRead = (locks', Inr ())
         \<and> findDocument did db = Some x \<and> dc_projectId x = uuid_key pid \<and> dc_revision x = expected
         \<and> findMember pid uid db \<noteq> None
         \<and> dc_canonicalModel y = m \<and> advances db x y (uuid_key uid) [] db' \<and> r = Inr y
         \<and> changes = [ResyncRequired did (expected + 1) (activeElementIds m)])"
proof (cases "validateAndNormalize schemaIn schema lowerEs body (expected + 1) now (Some (pid, did))")
  case (Inr m)
  note valid = this
  show ?thesis
  proof (cases "busy \<or> isl (snd (checkUpdate isUUID now pid did uid sid expected locks dbRead))")
    case True
    with assms valid show ?thesis
      by (cases busy; cases "checkUpdate isUUID now pid did uid sid expected locks dbRead")
        (auto simp: updateDocument_def isl_def)
  next
    case False
    then obtain locks1 u where chk: "checkUpdate isUUID now pid did uid sid expected locks dbRead = (locks1, Inr u)"
      by (cases "checkUpdate isUUID now pid did uid sid expected locks dbRead";
          cases "snd (checkUpdate isUUID now pid did uid sid expected locks dbRead)") auto
    obtain db1 r1 where c: "commitUpdate now pid did uid expected name m db = (db1, r1)" by fastforce
    from commitUpdate_cases [OF c] show ?thesis
    proof (elim disjE exE conjE)
      assume "db1 = db" "isl r1"
      with assms valid False chk c show ?thesis by (auto simp: updateDocument_def isl_def)
    next
      fix x y
      assume 1: "findDocument did db = Some x" "dc_projectId x = uuid_key pid" "dc_revision x = expected"
        "findMember pid uid db \<noteq> None" "dc_canonicalModel y = m" "advances db x y (uuid_key uid) [] db1" "r1 = Inr y"
      then have "dc_revision y = expected + 1" by (simp add: advances_def)
      with 1 assms valid False chk c show ?thesis
        by (intro disjI2 exI [of _ x] exI [of _ y] exI [of _ m]) (simp add: updateDocument_def)
    qed
  qed
qed (use assms in \<open>auto simp: updateDocument_def\<close>)

lemma deleteDocument_cases:
  assumes "deleteDocument isUUID now busy pid did uid sid db = (db', changes, r)"
  shows "db' = db \<and> isl r \<and> changes = []
    \<or> \<not> busy \<and> lockRequest isUUID now pid uid sid db = Inr () \<and> findProjectDocument pid did db \<noteq> None
      \<and> db' = deleteDocuments (\<lambda>x. dc_id x = uuid_key did \<and> dc_projectId x = uuid_key pid) db
      \<and> r = Inr () \<and> changes = [DocumentDeleted did]"
proof (cases "lockRequest isUUID now pid uid sid db")
  case (Inl e)
  then show ?thesis using assms by (cases busy) (simp_all add: deleteDocument_def Inl, auto)
qed (use assms in \<open>auto simp: deleteDocument_def split: if_splits\<close>)

text \<open>The transaction of a command, with what it wrote.\<close>

text \<open>What a command that was committed has read and written: the document it found before, the
  model it computed from it, and the row it met when it wrote.\<close>

definition command_effect ::
  "(jstring \<Rightarrow> bool) \<Rightarrow> (canonical_model \<Rightarrow> validation_issue list + canonical_model) \<Rightarrow> (jstring \<Rightarrow> jstring) \<Rightarrow> int
     \<Rightarrow> jstring \<Rightarrow> collaboration_identity \<Rightarrow> document_command \<Rightarrow> jstring \<Rightarrow> jstring \<Rightarrow> lock_store
     \<Rightarrow> server_db \<Rightarrow> server_db \<Rightarrow> server_db \<Rightarrow> lock_store \<Rightarrow> server_db \<Rightarrow> process_error + processed_command \<Rightarrow> bool" where
  "command_effect isUUID schema lowerEs now rowId identity input fp socketId locks dbDocument dbOperation db locks' db' r \<longleftrightarrow>
     (\<exists>doc m els x y n. lockCommandAuthorization isUUID now identity (dm_documentId input) dbDocument = Inr doc
         \<and> dc_revision doc = dm_baseRevision input
         \<and> findOperation (dm_documentId input) (dm_operationId input) dbOperation = None
         \<and> execute (dc_canonicalModel doc) (dm_command input) = Inr n
         \<and> els = map cl_id (dg_elements (cm_diagram n))
         \<and> validateAndNormalize schema schema lowerEs n (dm_baseRevision input + 1) now
              (Some (dc_projectId doc, dm_documentId input)) = Inr m
         \<and> (\<exists>ids. affectedElementIds (dc_canonicalModel doc) (dm_command input) = Inr ids
              \<and> hasLockOwnedByAnotherSocket now (dm_documentId input) ids socketId locks = (locks', False))
         \<and> findDocument (dm_documentId input) db = Some x \<and> dc_revision x = dm_baseRevision input
         \<and> findMember (dc_projectId x) (ci_userId identity) db \<noteq> None
         \<and> dc_canonicalModel y = m
         \<and> advances db x y (uuid_key (ci_userId identity)) [command_operation rowId identity input fp now] db'
         \<and> r = Inr (accepted input els now))"

lemma prepareCommand_Prepared:
  assumes "prepareCommand schema lowerEs now identity input fp socketId doc locks db = (locks', Inr (Prepared m els t))"
  shows "findOperation (dm_documentId input) (dm_operationId input) db = None \<and> dc_revision doc = dm_baseRevision input
    \<and> (\<exists>ids. affectedElementIds (dc_canonicalModel doc) (dm_command input) = Inr ids
         \<and> hasLockOwnedByAnotherSocket now (dm_documentId input) ids socketId locks = (locks', False))
    \<and> (\<exists>n. execute (dc_canonicalModel doc) (dm_command input) = Inr n
         \<and> validateAndNormalize schema schema lowerEs n (dm_baseRevision input + 1) now
              (Some (dc_projectId doc, dm_documentId input)) = Inr m
         \<and> els = map cl_id (dg_elements (cm_diagram n))) \<and> t = now"
proof (cases "findOperation (dm_documentId input) (dm_operationId input) db")
  case None
  note op = this
  show ?thesis
  proof (cases "dc_revision doc = dm_baseRevision input")
    case True
    note rev = this
    show ?thesis
    proof (cases "affectedElementIds (dc_canonicalModel doc) (dm_command input)")
      case (Inr ids)
      obtain l b where h: "hasLockOwnedByAnotherSocket now (dm_documentId input) ids socketId locks = (l, b)" by fastforce
      with assms op rev Inr show ?thesis
        by (cases b; cases "execute (dc_canonicalModel doc) (dm_command input)")
          (auto simp: prepareCommand_def split: sum.splits)
    qed (use assms op rev in \<open>simp add: prepareCommand_def\<close>)
  qed (use assms op in \<open>simp add: prepareCommand_def\<close>)
next
  case (Some x)
  with assms show ?thesis by (cases "resolveExisting x identity input fp") (simp_all add: prepareCommand_def)
qed

lemma prepareCommand_Finished:
  assumes "prepareCommand schema lowerEs now identity input fp socketId doc locks db = (locks', Inr (Finished r))"
  shows "locks' = locks \<and> (\<exists>x. findOperation (dm_documentId input) (dm_operationId input) db = Some x
    \<and> resolveExisting x identity input fp = Inr r)"
proof (cases "findOperation (dm_documentId input) (dm_operationId input) db")
  case None
  with assms show ?thesis
    by (cases "affectedElementIds (dc_canonicalModel doc) (dm_command input)"; cases "dc_revision doc = dm_baseRevision input")
      (auto simp: prepareCommand_def bindE_Inr_iff split: prod.splits sum.splits)
next
  case (Some x)
  with assms show ?thesis by (cases "resolveExisting x identity input fp") (simp_all add: prepareCommand_def)
qed

lemma processInTransaction_cases:
  assumes "processInTransaction isUUID schema lowerEs now rowId identity input fp socketId locks dbDocument dbOperation db
    = (locks', db', r)"
  shows "db' = db \<and> (\<forall>p. r = Inr p \<longrightarrow> pc_idempotent p)
    \<or> command_effect isUUID schema lowerEs now rowId identity input fp socketId locks dbDocument dbOperation db locks' db' r"
proof (cases "lockCommandAuthorization isUUID now identity (dm_documentId input) dbDocument")
  case (Inr doc)
  note auth = this
  obtain locks1 q where q: "prepareCommand schema lowerEs now identity input fp socketId doc locks dbOperation = (locks1, q)"
    by fastforce
  show ?thesis
  proof (cases q)
    case (Inr p)
    show ?thesis
    proof (cases p)
      case (Finished f)
      with prepareCommand_Finished [of schema] q Inr have "pc_idempotent f"
        using resolveExisting_idempotent by metis
      with assms auth q Inr Finished show ?thesis by (auto simp: processInTransaction_def)
    next
      case (Prepared m els t)
      with prepareCommand_Prepared [of schema] q Inr obtain ids n where
        prep: "findOperation (dm_documentId input) (dm_operationId input) dbOperation = None"
        "dc_revision doc = dm_baseRevision input"
        "affectedElementIds (dc_canonicalModel doc) (dm_command input) = Inr ids"
        "hasLockOwnedByAnotherSocket now (dm_documentId input) ids socketId locks = (locks1, False)"
        "execute (dc_canonicalModel doc) (dm_command input) = Inr n"
        "validateAndNormalize schema schema lowerEs n (dm_baseRevision input + 1) now
              (Some (dc_projectId doc, dm_documentId input)) = Inr m"
        "els = map cl_id (dg_elements (cm_diagram n))" "t = now"
        by metis
      from assms auth q Inr Prepared have "locks' = locks1"
        "commitCommand rowId identity input fp m els t db = (db', r)"
        by (auto simp: processInTransaction_def)
      from commitCommand_cases [OF this(2)] show ?thesis
      proof (elim disjE exE conjE)
        fix x y
        assume "findDocument (dm_documentId input) db = Some x" "dc_revision x = dm_baseRevision input"
          "findMember (dc_projectId x) (ci_userId identity) db \<noteq> None" "dc_canonicalModel y = m"
          "advances db x y (uuid_key (ci_userId identity)) [command_operation rowId identity input fp t] db'"
          "r = Inr (accepted input els t)"
        with prep auth \<open>locks' = locks1\<close> show ?thesis
          unfolding command_effect_def by (intro disjI2 exI [of _ doc] exI [of _ m] exI [of _ els] exI [of _ x] exI [of _ y] exI [of _ n]) simp
      qed simp
    qed
  qed (use assms auth q in \<open>auto simp: processInTransaction_def\<close>)
qed (use assms in \<open>auto simp: processInTransaction_def\<close>)

lemma process_cases:
  assumes "process isUUID schema lowerEs showNumber sha256 now rowId identity input socketId locks dbDocument dbOperation db
    = (locks', db', r)"
  shows "db' = db \<and> (\<forall>p. r = Inr p \<longrightarrow> pc_idempotent p)
    \<or> command_effect isUUID schema lowerEs now rowId identity input
        (commandFingerprint showNumber sha256 (dm_baseRevision input) (dm_command input)) socketId locks
        dbDocument dbOperation db locks' db' r"
proof -
  let ?fp = "commandFingerprint showNumber sha256 (dm_baseRevision input) (dm_command input)"
  obtain l1 db1 r1 where t: "processInTransaction isUUID schema lowerEs now rowId identity input ?fp socketId locks
    dbDocument dbOperation db = (l1, db1, r1)" by (metis prod_cases3)
  show ?thesis
  proof (cases "r1 = Inl KnownUniqueConstraint")
    case True
    have idem: "pc_idempotent p" if "findExistingForActor isUUID now identity input ?fp db1 = Inr (Some p)" for p
      using that by (auto simp: findExistingForActor_def res_simps split: option.splits dest: resolveExisting_idempotent)
    from processInTransaction_cases [OF t] True have "db1 = db" by (auto simp: command_effect_def)
    with assms t True show ?thesis
      by (auto simp: process_def idem split: sum.splits option.splits)
  next
    case False
    with assms t have "locks' = l1" "db' = db1" "r = r1"
      by (auto simp: process_def split: sum.splits process_error.splits)
    with processInTransaction_cases [OF t] show ?thesis by simp
  qed
qed

end
