(* ===== verification/Document_History.thy ===== *)
theory Document_History
  imports Document_Laws
begin

text \<open>
  The history of documents: every document has the revisions from zero to its current one, each stored
  once, and every stored operation is the step from its base revision to the next. The abstract store
  (\<open>store_step\<close>) maps a document to the list of its models; creating starts a list, an accepted
  change appends to it, deletion removes it, and nothing else is possible.
\<close>

section \<open>The contract\<close>

definition revisions_of :: "jstring \<Rightarrow> server_db \<Rightarrow> revision_row list" where
  "revisions_of did db = filter (\<lambda>r. rv_documentId r = did) (db_revisions db)"

definition models_of :: "jstring \<Rightarrow> server_db \<Rightarrow> canonical_model list" where
  "models_of did db = map rv_canonicalModel (revisions_of did db)"

definition stored_model_ok :: "(jstring \<Rightarrow> jstring) \<Rightarrow> nat \<Rightarrow> canonical_model \<Rightarrow> bool" where
  "stored_model_ok lowerEs r m \<longleftrightarrow> well_formed lowerEs m \<and> me_revision (cm_metadata m) = int r"

definition document_ok :: "(jstring \<Rightarrow> jstring) \<Rightarrow> server_db \<Rightarrow> document_row \<Rightarrow> bool" where
  "document_ok lowerEs db x \<longleftrightarrow> key (dc_id x)
     \<and> map rv_revision (revisions_of (dc_id x) db) = [0..<Suc (dc_revision x)]
     \<and> models_of (dc_id x) db ! dc_revision x = dc_canonicalModel x
     \<and> (\<forall>r \<le> dc_revision x. stored_model_ok lowerEs r (models_of (dc_id x) db ! r))"

definition operation_ok ::
  "(canonical_model \<Rightarrow> validation_issue list + canonical_model) \<Rightarrow> (jstring \<Rightarrow> jstring) \<Rightarrow> server_db
     \<Rightarrow> operation_row \<Rightarrow> bool" where
  "operation_ok schema lowerEs db q \<longleftrightarrow> (\<exists>x \<in> set (db_documents db). dc_id x = ox_documentId q
     \<and> ox_resultingRevision q = ox_baseRevision q + 1 \<and> ox_resultingRevision q \<le> dc_revision x
     \<and> (\<exists>n. execute (models_of (dc_id x) db ! ox_baseRevision q) (ox_command q) = Inr n
          \<and> validateAndNormalize schema schema lowerEs n (ox_resultingRevision q) (ox_committedAt q)
              (Some (dc_projectId x, dc_id x)) = Inr (models_of (dc_id x) db ! ox_resultingRevision q)))"

definition history_ok ::
  "(canonical_model \<Rightarrow> validation_issue list + canonical_model) \<Rightarrow> (jstring \<Rightarrow> jstring) \<Rightarrow> server_db \<Rightarrow> bool" where
  "history_ok schema lowerEs db \<longleftrightarrow> distinct (map dc_id (db_documents db))
     \<and> (\<forall>x \<in> set (db_documents db). document_ok lowerEs db x)
     \<and> (\<forall>r \<in> set (db_revisions db). rv_documentId r \<in> dc_id ` set (db_documents db))
     \<and> (\<forall>q \<in> set (db_operations db). operation_ok schema lowerEs db q)
     \<and> distinct (map (\<lambda>q. (ox_documentId q, ox_operationId q)) (db_operations db))
     \<and> distinct (map (\<lambda>q. (ox_documentId q, ox_resultingRevision q)) (db_operations db))"

text \<open>A row that was read from an older database, against the newer one: the project is the same,
  the revision not smaller, and the same revision has the same model.\<close>

definition row_agrees :: "document_row \<Rightarrow> document_row \<Rightarrow> bool" where
  "row_agrees x y \<longleftrightarrow> (dc_id x = dc_id y \<longrightarrow> dc_projectId x = dc_projectId y \<and> dc_revision x \<le> dc_revision y
     \<and> (dc_revision x = dc_revision y \<longrightarrow> dc_canonicalModel x = dc_canonicalModel y))"

definition agrees :: "server_db \<Rightarrow> server_db \<Rightarrow> bool" where
  "agrees older newer \<longleftrightarrow>
     (\<forall>x \<in> set (db_documents older). \<forall>y \<in> set (db_documents newer). row_agrees x y)"

section \<open>The four kinds of change\<close>

definition undelivered :: "operation_row \<Rightarrow> operation_row" where
  "undelivered q = q\<lparr>ox_broadcastedAt := None\<rparr>"

definition keeps_documents :: "server_db \<Rightarrow> server_db \<Rightarrow> bool" where
  "keeps_documents db db' \<longleftrightarrow> db_documents db' = db_documents db \<and> db_revisions db' = db_revisions db
     \<and> map undelivered (db_operations db') = map undelivered (db_operations db)"

definition adds_document :: "server_db \<Rightarrow> document_row \<Rightarrow> jstring \<Rightarrow> server_db \<Rightarrow> bool" where
  "adds_document db x author db' \<longleftrightarrow> dc_revision x = 0 \<and> dc_id x \<notin> dc_id ` set (db_documents db)
     \<and> db_documents db' = db_documents db @ [x]
     \<and> db_revisions db' = db_revisions db @ [\<lparr>rv_documentId = dc_id x, rv_revision = 0,
           rv_canonicalModel = dc_canonicalModel x, rv_authorId = author\<rparr>]
     \<and> db_operations db' = db_operations db"

definition removes_documents :: "server_db \<Rightarrow> (document_row \<Rightarrow> bool) \<Rightarrow> server_db \<Rightarrow> bool" where
  "removes_documents db P db' \<longleftrightarrow> db_documents db' = filter (\<lambda>x. \<not> P x) (db_documents db)
     \<and> db_revisions db' = filter (\<lambda>r. rv_documentId r \<notin> dc_id ` {x \<in> set (db_documents db). P x}) (db_revisions db)
     \<and> db_operations db' = filter (\<lambda>q. ox_documentId q \<notin> dc_id ` {x \<in> set (db_documents db). P x}) (db_operations db)"

lemma history_okD:
  assumes "history_ok schema lowerEs db"
  shows "distinct (map dc_id (db_documents db))"
    "x \<in> set (db_documents db) \<Longrightarrow> document_ok lowerEs db x"
    "r \<in> set (db_revisions db) \<Longrightarrow> rv_documentId r \<in> dc_id ` set (db_documents db)"
    "q \<in> set (db_operations db) \<Longrightarrow> operation_ok schema lowerEs db q"
    "distinct (map (\<lambda>q. (ox_documentId q, ox_operationId q)) (db_operations db))"
    "distinct (map (\<lambda>q. (ox_documentId q, ox_resultingRevision q)) (db_operations db))"
  using assms by (auto simp: history_ok_def)

lemma document_unique:
  assumes "history_ok schema lowerEs db" "x \<in> set (db_documents db)" "y \<in> set (db_documents db)" "dc_id x = dc_id y"
  shows "x = y"
  using history_okD(1) [OF assms(1)] assms(2-) by (auto simp: distinct_map inj_on_def)

lemma length_models: "document_ok lowerEs db x \<Longrightarrow> length (models_of (dc_id x) db) = Suc (dc_revision x)"
  by (drule arg_cong [of "map rv_revision _" _ length, OF conjunct1 [OF conjunct2 [OF iffD1 [OF document_ok_def]]]])
    (simp add: models_of_def)

lemma operation_okE:
  assumes "operation_ok schema lowerEs db q"
  obtains z n where "z \<in> set (db_documents db)" "ox_documentId q = dc_id z"
    "ox_resultingRevision q = ox_baseRevision q + 1" "ox_resultingRevision q \<le> dc_revision z"
    "execute (models_of (dc_id z) db ! ox_baseRevision q) (ox_command q) = Inr n"
    "validateAndNormalize schema schema lowerEs n (ox_resultingRevision q) (ox_committedAt q)
       (Some (dc_projectId z, dc_id z)) = Inr (models_of (dc_id z) db ! ox_resultingRevision q)"
  using assms unfolding operation_ok_def by metis

lemma operation_okI:
  assumes "z \<in> set (db_documents db)" "ox_documentId q = dc_id z"
    "ox_resultingRevision q = ox_baseRevision q + 1" "ox_resultingRevision q \<le> dc_revision z"
    "execute (models_of (dc_id z) db ! ox_baseRevision q) (ox_command q) = Inr n"
    "validateAndNormalize schema schema lowerEs n (ox_resultingRevision q) (ox_committedAt q)
       (Some (dc_projectId z, dc_id z)) = Inr (models_of (dc_id z) db ! ox_resultingRevision q)"
  shows "operation_ok schema lowerEs db q"
  using assms unfolding operation_ok_def by metis

text \<open>Only documents, their revisions and the operations matter.\<close>

lemma keeps_models: "keeps_documents db db' \<Longrightarrow> models_of did db' = models_of did db \<and> revisions_of did db' = revisions_of did db"
  by (simp add: keeps_documents_def models_of_def revisions_of_def)

lemma undelivered_fields:
  "map undelivered qs = map undelivered qs' \<Longrightarrow> (\<And>q. f (undelivered q) = f q) \<Longrightarrow> map f qs = map f qs'"
  by (metis (mono_tags, lifting) list.map_comp list.map_cong0 comp_apply)

lemma operation_ok_undelivered: "operation_ok schema lowerEs db (undelivered q) = operation_ok schema lowerEs db q"
  by (simp add: operation_ok_def undelivered_def)

lemma keeps_history:
  assumes "history_ok schema lowerEs db" and k: "keeps_documents db db'"
  shows "history_ok schema lowerEs db'"
proof -
  note same = k [unfolded keeps_documents_def]
  have "document_ok lowerEs db' x = document_ok lowerEs db x" for x
    by (simp add: document_ok_def keeps_models [OF k])
  moreover have "operation_ok schema lowerEs db' q = operation_ok schema lowerEs db q" for q
    by (simp add: operation_ok_def keeps_models [OF k] same)
  moreover have "(\<forall>q \<in> set (db_operations db'). operation_ok schema lowerEs db q)
    = (\<forall>q \<in> set (map undelivered (db_operations db')). operation_ok schema lowerEs db q)"
    by (simp add: operation_ok_undelivered)
  moreover have "(\<forall>q \<in> set (db_operations db). operation_ok schema lowerEs db q)
    = (\<forall>q \<in> set (map undelivered (db_operations db)). operation_ok schema lowerEs db q)"
    by (simp add: operation_ok_undelivered)
  moreover have "map (\<lambda>q. (ox_documentId q, ox_operationId q)) (db_operations db') = map (\<lambda>q. (ox_documentId q, ox_operationId q)) (db_operations db)"
    "map (\<lambda>q. (ox_documentId q, ox_resultingRevision q)) (db_operations db') = map (\<lambda>q. (ox_documentId q, ox_resultingRevision q)) (db_operations db)"
    using same by (auto intro!: undelivered_fields simp: undelivered_def)
  ultimately show ?thesis using assms(1) same by (simp add: history_ok_def)
qed

lemma adds_history:
  assumes h: "history_ok schema lowerEs db" and a: "adds_document db x author db'"
    and k: "key (dc_id x)" and m: "stored_model_ok lowerEs 0 (dc_canonicalModel x)"
  shows "history_ok schema lowerEs db'"
proof -
  note a = a [unfolded adds_document_def] and d = history_okD [OF h]
  have old: "revisions_of did db' = revisions_of did db" if "did \<noteq> dc_id x" for did
    using that a by (simp add: revisions_of_def)
  have other: "dc_id y \<noteq> dc_id x" if "y \<in> set (db_documents db)" for y
    using that a by (metis imageI)
  have "revisions_of (dc_id x) db = []"
    using d(3) a by (simp add: revisions_of_def filter_empty_conv) metis
  with a k m have "document_ok lowerEs db' x"
    by (simp add: document_ok_def models_of_def revisions_of_def)
  moreover have "document_ok lowerEs db' y" if "y \<in> set (db_documents db)" for y
    using d(2) [OF that] by (simp add: document_ok_def models_of_def old other [OF that])
  moreover have "operation_ok schema lowerEs db' q" if "q \<in> set (db_operations db)" for q
  proof -
    from d(4) [OF that] obtain y where y: "y \<in> set (db_documents db)" "dc_id y = ox_documentId q" and
      "operation_ok schema lowerEs db q" by (auto simp: operation_ok_def)
    then show ?thesis using a other [OF y(1)]
      by (auto simp: operation_ok_def models_of_def old dest: other)
  qed
  ultimately show ?thesis using d a by (auto simp: history_ok_def)
qed

lemma advances_history:
  assumes h: "history_ok schema lowerEs db" and a: "advances db x y author qs db'"
    and m: "stored_model_ok lowerEs (dc_revision y) (dc_canonicalModel y)"
    and q: "\<And>q. q \<in> set qs \<Longrightarrow> ox_documentId q = dc_id x \<and> ox_baseRevision q = dc_revision x
      \<and> ox_resultingRevision q = dc_revision y
      \<and> (\<exists>n. execute (dc_canonicalModel x) (ox_command q) = Inr n
           \<and> validateAndNormalize schema schema lowerEs n (dc_revision y) (ox_committedAt q)
               (Some (dc_projectId x, dc_id x)) = Inr (dc_canonicalModel y))"
    and one: "length qs \<le> 1"
  shows "history_ok schema lowerEs db'"
proof -
  let ?f = "\<lambda>z. if dc_id z = dc_id x then y else z"
  note d = history_okD [OF h]
  have a: "x \<in> set (db_documents db)" "dc_id y = dc_id x" "dc_projectId y = dc_projectId x"
    "dc_revision y = Suc (dc_revision x)"
    "\<And>q q'. q \<in> set qs \<Longrightarrow> q' \<in> set (db_operations db) \<Longrightarrow> ox_documentId q' = ox_documentId q \<Longrightarrow>
       ox_operationId q' \<noteq> ox_operationId q"
    "db_documents db' = map ?f (db_documents db)"
    "db_revisions db' = db_revisions db @ [\<lparr>rv_documentId = dc_id x, rv_revision = dc_revision y,
            rv_canonicalModel = dc_canonicalModel y, rv_authorId = author\<rparr>]"
    "db_operations db' = db_operations db @ qs"
    using a by (auto simp: advances_def)
  have docs: "map dc_id (map ?f zs) = map dc_id zs" for zs using a by auto
  have x: "x \<in> set (db_documents db)" "document_ok lowerEs db x" using a d(2) by auto
  have len: "length (models_of (dc_id x) db) = Suc (dc_revision x)" by (rule length_models [OF x(2)])
  have old: "models_of did db' = models_of did db" "revisions_of did db' = revisions_of did db"
    if "did \<noteq> dc_id x" for did
    using that a by (simp_all add: revisions_of_def models_of_def)
  have new: "models_of (dc_id x) db' = models_of (dc_id x) db @ [dc_canonicalModel y]"
    "map rv_revision (revisions_of (dc_id x) db') = map rv_revision (revisions_of (dc_id x) db) @ [dc_revision y]"
    using a by (simp_all add: revisions_of_def models_of_def)
  have "document_ok lowerEs db' y"
    using x(2) m a new len by (auto simp: document_ok_def nth_append le_Suc_eq)
  moreover have "document_ok lowerEs db' z" if "z \<in> set (db_documents db)" "dc_id z \<noteq> dc_id x" for z
    using d(2) [OF that(1)] by (simp add: document_ok_def old that(2))
  moreover have ops: "operation_ok schema lowerEs db' q" if "q \<in> set (db_operations db)" for q
  proof -
    from d(4) [OF that] obtain z n where z: "z \<in> set (db_documents db)" "ox_documentId q = dc_id z"
      "ox_resultingRevision q = ox_baseRevision q + 1" "ox_resultingRevision q \<le> dc_revision z"
      "execute (models_of (dc_id z) db ! ox_baseRevision q) (ox_command q) = Inr n"
      "validateAndNormalize schema schema lowerEs n (ox_resultingRevision q) (ox_committedAt q)
        (Some (dc_projectId z, dc_id z)) = Inr (models_of (dc_id z) db ! ox_resultingRevision q)"
      by (rule operation_okE)
    show ?thesis
    proof (cases "dc_id z = dc_id x")
      case True
      then have "z = x" using document_unique [OF h z(1) x(1)] by simp
      with z a len show ?thesis by (intro operation_okI [of y _ _ n]) (auto simp: new nth_append)
    next
      case False
      with z a show ?thesis by (intro operation_okI [of z _ _ n]) (auto simp: old)
    qed
  qed
  moreover have newop: "operation_ok schema lowerEs db' q" if "q \<in> set qs" for q
  proof -
    from assms(4) [OF that] obtain n where "ox_documentId q = dc_id x" "ox_baseRevision q = dc_revision x"
      "ox_resultingRevision q = dc_revision y" "execute (dc_canonicalModel x) (ox_command q) = Inr n"
      "validateAndNormalize schema schema lowerEs n (dc_revision y) (ox_committedAt q)
        (Some (dc_projectId x, dc_id x)) = Inr (dc_canonicalModel y)" by auto
    moreover have "models_of (dc_id x) db ! dc_revision x = dc_canonicalModel x"
      using x(2) by (simp add: document_ok_def)
    ultimately show ?thesis
      using a len by (intro operation_okI [of y _ _ n]) (auto simp: new nth_append)
  qed
  moreover have fresh: "ox_resultingRevision q \<noteq> dc_revision y"
    if "q \<in> set (db_operations db)" "ox_documentId q = dc_id x" for q
    using d(4) [OF that(1)]
  proof (rule operation_okE)
    fix z
    assume "z \<in> set (db_documents db)" "ox_documentId q = dc_id z" "ox_resultingRevision q \<le> dc_revision z"
    with document_unique [OF h _ x(1)] that(2) a(4) show ?thesis by fastforce
  qed
  moreover have "rv_documentId r \<in> dc_id ` set (db_documents db')" if "r \<in> set (db_revisions db')" for r
  proof -
    have ids: "dc_id ` set (db_documents db') = dc_id ` set (db_documents db)"
      using docs [of "db_documents db"] by (simp only: a(6) flip: set_map)
    show ?thesis unfolding ids using that d(3) [of r] x(1) a by auto
  qed
  moreover have "distinct (map dc_id (db_documents db'))"
    using d(1) docs [of "db_documents db"] by (simp only: a(6))
  moreover have "distinct (map (\<lambda>q. (ox_documentId q, ox_operationId q)) (db_operations db'))"
    "distinct (map (\<lambda>q. (ox_documentId q, ox_resultingRevision q)) (db_operations db'))"
  proof -
    consider "qs = []" | q where "qs = [q]" using one by (cases qs) auto
    then have "distinct (map (\<lambda>q. (ox_documentId q, ox_operationId q)) (db_operations db'))
      \<and> distinct (map (\<lambda>q. (ox_documentId q, ox_resultingRevision q)) (db_operations db'))"
    proof cases
      case 1
      then show ?thesis using d(5,6) a(8) by simp
    next
      case 2
      have "(ox_documentId q', ox_operationId q') \<noteq> (ox_documentId q, ox_operationId q)"
        "(ox_documentId q', ox_resultingRevision q') \<noteq> (ox_documentId q, ox_resultingRevision q)"
        if "q' \<in> set (db_operations db)" for q'
        using a(5) [of q q'] that 2 assms(4) [of q] fresh [OF that] by auto
      then have "(ox_documentId q, ox_operationId q) \<notin> (\<lambda>q. (ox_documentId q, ox_operationId q)) ` set (db_operations db)"
        "(ox_documentId q, ox_resultingRevision q) \<notin> (\<lambda>q. (ox_documentId q, ox_resultingRevision q)) ` set (db_operations db)"
        by (metis (mono_tags, lifting) imageE)+
      then show ?thesis using d(5,6) a(8) 2 by simp
    qed
    then show "distinct (map (\<lambda>q. (ox_documentId q, ox_operationId q)) (db_operations db'))"
      "distinct (map (\<lambda>q. (ox_documentId q, ox_resultingRevision q)) (db_operations db'))" by auto
  qed
  moreover have "document_ok lowerEs db' z" if "z \<in> set (db_documents db')" for z
    using that calculation(1,2) by (auto simp: a(6) split: if_splits)
  moreover have "operation_ok schema lowerEs db' q" if "q \<in> set (db_operations db')" for q
    using that ops newop by (auto simp: a(8))
  ultimately show ?thesis by (simp add: history_ok_def)
qed

lemma removes_history:
  assumes h: "history_ok schema lowerEs db" and r: "removes_documents db P db'"
  shows "history_ok schema lowerEs db'"
proof -
  note r = r [unfolded removes_documents_def] and d = history_okD [OF h]
  let ?gone = "dc_id ` {x \<in> set (db_documents db). P x}"
  have kept: "dc_id z \<notin> ?gone" if "z \<in> set (db_documents db)" "\<not> P z" for z
    using document_unique [OF h that(1)] that(2) by auto
  have same: "revisions_of did db' = revisions_of did db" if "did \<notin> ?gone" for did
    using that r by (auto simp: revisions_of_def intro!: filter_cong)
  have "document_ok lowerEs db' z" if "z \<in> set (db_documents db)" "\<not> P z" for z
    using d(2) [OF that(1)] by (simp add: document_ok_def models_of_def same [OF kept [OF that]])
  moreover have "operation_ok schema lowerEs db' q" if q: "q \<in> set (db_operations db)" "ox_documentId q \<notin> ?gone" for q
  proof -
    from d(4) [OF q(1)] obtain z n where z: "z \<in> set (db_documents db)" "ox_documentId q = dc_id z"
      "ox_resultingRevision q = ox_baseRevision q + 1" "ox_resultingRevision q \<le> dc_revision z"
      "execute (models_of (dc_id z) db ! ox_baseRevision q) (ox_command q) = Inr n"
      "validateAndNormalize schema schema lowerEs n (ox_resultingRevision q) (ox_committedAt q)
        (Some (dc_projectId z, dc_id z)) = Inr (models_of (dc_id z) db ! ox_resultingRevision q)"
      by (rule operation_okE)
    with q(2) have gone: "dc_id z \<notin> ?gone" by simp
    then have "\<not> P z" using z(1) by auto
    with z(1) r have "z \<in> set (db_documents db')" by simp
    moreover have "models_of (dc_id z) db' = models_of (dc_id z) db" by (simp add: models_of_def same [OF gone])
    ultimately show ?thesis using z by (intro operation_okI [of z _ _ n]) simp_all
  qed
  moreover have "rv_documentId v \<in> dc_id ` {z \<in> set (db_documents db). \<not> P z}"
    if "v \<in> set (db_revisions db)" "rv_documentId v \<notin> ?gone" for v
    using d(3) [OF that(1)] that(2) by auto
  ultimately show ?thesis using d r by (simp add: history_ok_def distinct_map_filter)
qed

section \<open>Rows read from an older database\<close>

lemma agrees_self: "history_ok schema lowerEs db \<Longrightarrow> agrees db db"
  by (auto simp: agrees_def row_agrees_def dest: document_unique)

lemma agrees_keeps: "keeps_documents db db' \<Longrightarrow> agrees h db' = agrees h db"
  by (simp add: agrees_def keeps_documents_def)

lemma agrees_adds:
  "adds_document db x author db' \<Longrightarrow> agrees h db \<Longrightarrow> dc_id x \<notin> dc_id ` set (db_documents h) \<Longrightarrow> agrees h db'"
  unfolding agrees_def adds_document_def row_agrees_def by (force simp: image_iff)

lemma agrees_removes: "removes_documents db P db' \<Longrightarrow> agrees h db \<Longrightarrow> agrees h db'"
  by (auto simp: agrees_def removes_documents_def)

lemma agrees_advances:
  assumes "advances db x y author qs db'" and "agrees h db"
  shows "agrees h db'"
proof -
  have "row_agrees z y" if "row_agrees z x" for z
    using that assms(1) by (auto simp: row_agrees_def advances_def)
  with assms show ?thesis by (auto simp: agrees_def advances_def)
qed

section \<open>What the operations do, in these terms\<close>

lemma keeps_refl [simp]: "keeps_documents db db"
  by (simp add: keeps_documents_def)

lemma keeps_deliver [simp]: "keeps_documents db (deliver now P db)"
  by (simp add: keeps_documents_def deliver_def undelivered_def)

lemma removes_deleteDocuments: "removes_documents db P (deleteDocuments P db)"
  by (auto simp: removes_documents_def deleteDocuments_def Let_def)

lemma run_project_documents:
  "keeps_documents db (fst (run_project isUUID lower now uid sid op' db))
     \<or> (\<exists>P. removes_documents db P (fst (run_project isUUID lower now uid sid op' db)))"
proof (cases op')
  case (CreateProject uuid name description)
  then show ?thesis
    by (cases "sessionLocked isUUID now uid sid db")
      (auto simp: create_def lockMutationSession_if Let_def keeps_documents_def)
next
  case (UpdateProject pid name description)
  then show ?thesis
    by (cases "sessionLocked isUUID now uid sid db")
      (auto simp: updateOwnerProject_def lockMutationSession_if Let_def keeps_documents_def)
next
  case (DeleteProject pid)
  have "removes_documents db (\<lambda>x. dc_projectId x = uuid_key pid) (deleteProjectRow pid db)"
    by (auto simp: removes_documents_def deleteProjectRow_simps projectDocumentIds_def)
  then show ?thesis using DeleteProject
    by (cases "sessionLocked isUUID now uid sid db"; cases "assertOwner pid uid db")
      (auto simp: deleteOwnerProject_def lockMutationSession_if)
next
  case (AddEditor pid user email)
  then show ?thesis
    by (cases "sessionLocked isUUID now uid sid db"; cases "assertOwner pid uid db")
      (auto simp: addEditor_def lockMutationSession_if keeps_documents_def split: option.splits)
next
  case (RemoveEditor pid user)
  then show ?thesis
    by (cases "sessionLocked isUUID now uid sid db"; cases "assertOwner pid uid db")
      (auto simp: removeEditor_def lockMutationSession_if keeps_documents_def split: option.splits)
qed

lemma project_inv_documents:
  assumes "project_inv db" and "db_projects db' = db_projects db" "db_members db' = db_members db" "db_users db' = db_users db"
    and "\<And>x. x \<in> set (db_documents db') \<Longrightarrow> dc_projectId x \<in> pj_id ` set (db_projects db)"
  shows "project_inv db'"
  using assms by (simp add: project_inv_def owner_ok_same_members [OF assms(3)])

lemma project_inv_advances: "project_inv db \<Longrightarrow> advances db x y author qs db' \<Longrightarrow> project_inv db'"
  by (rule project_inv_documents [of db]) (auto simp: advances_def dest: project_invD(5) split: if_splits)

lemma project_inv_deleteDocuments: "project_inv db \<Longrightarrow> project_inv (deleteDocuments P db)"
  by (rule project_inv_documents [of db]) (auto simp: deleteDocuments_def Let_def dest: project_invD(5))

section \<open>Histories\<close>

text \<open>The databases that any sequence of requests runs through, the latest first. Every request may
  read what an earlier state held before it writes: \<open>dbRead\<close>, \<open>dbDocument\<close> and
  \<open>dbOperation\<close> are any of them. \<open>Accounts\<close> is any change of the tables of users and
  sessions. A new document gets an identifier that no document had before (\<open>randomUUID\<close>).\<close>

inductive server_history ::
  "(jstring \<Rightarrow> bool) \<Rightarrow> ('v \<Rightarrow> validation_issue list + canonical_model)
     \<Rightarrow> (canonical_model \<Rightarrow> validation_issue list + canonical_model) \<Rightarrow> (jstring \<Rightarrow> jstring) \<Rightarrow> (jstring \<Rightarrow> jstring)
     \<Rightarrow> (rat \<Rightarrow> jstring) \<Rightarrow> (jstring \<Rightarrow> jstring) \<Rightarrow> server_db list \<Rightarrow> bool"
  for isUUID schemaIn schema lowerEs lower showNumber sha256 where
  Start: "db_projects db = [] \<Longrightarrow> db_members db = [] \<Longrightarrow> db_documents db = [] \<Longrightarrow> db_revisions db = [] \<Longrightarrow>
    db_operations db = [] \<Longrightarrow> (\<forall>u \<in> set (db_users db). key (us_id u)) \<Longrightarrow>
    server_history isUUID schemaIn schema lowerEs lower showNumber sha256 [db]"
| Accounts: "server_history isUUID schemaIn schema lowerEs lower showNumber sha256 (db # hs) \<Longrightarrow>
    (\<forall>u \<in> set users. key (us_id u)) \<Longrightarrow> server_history isUUID schemaIn schema lowerEs lower showNumber sha256
      (db\<lparr>db_users := users, db_sessions := sessions, db_consumed := consumed\<rparr> # db # hs)"
| Project: "server_history isUUID schemaIn schema lowerEs lower showNumber sha256 (db # hs) \<Longrightarrow>
    server_history isUUID schemaIn schema lowerEs lower showNumber sha256
      (fst (run_project isUUID lower now uid sid op' db) # db # hs)"
| Create: "server_history isUUID schemaIn schema lowerEs lower showNumber sha256 (db # hs) \<Longrightarrow>
    (\<forall>h \<in> set (db # hs). findDocument did h = None) \<Longrightarrow>
    server_history isUUID schemaIn schema lowerEs lower showNumber sha256
      (fst (createDocument isUUID schemaIn schema lowerEs now did pid uid sid name body db) # db # hs)"
| Update: "server_history isUUID schemaIn schema lowerEs lower showNumber sha256 (db # hs) \<Longrightarrow>
    dbRead \<in> set (db # hs) \<Longrightarrow> server_history isUUID schemaIn schema lowerEs lower showNumber sha256
      (fst (snd (updateDocument isUUID schemaIn schema lowerEs now busy pid did uid sid rename expected body locks
        dbRead db)) # db # hs)"
| Delete: "server_history isUUID schemaIn schema lowerEs lower showNumber sha256 (db # hs) \<Longrightarrow>
    server_history isUUID schemaIn schema lowerEs lower showNumber sha256
      (fst (deleteDocument isUUID now busy pid did uid sid db) # db # hs)"
| Command: "server_history isUUID schemaIn schema lowerEs lower showNumber sha256 (db # hs) \<Longrightarrow>
    dbDocument \<in> set (db # hs) \<Longrightarrow> dbOperation \<in> set (db # hs) \<Longrightarrow>
    server_history isUUID schemaIn schema lowerEs lower showNumber sha256
      (fst (snd (process isUUID schema lowerEs showNumber sha256 now rowId identity input socketId locks
        dbDocument dbOperation db)) # db # hs)"
| Deliver: "server_history isUUID schemaIn schema lowerEs lower showNumber sha256 (db # hs) \<Longrightarrow>
    server_history isUUID schemaIn schema lowerEs lower showNumber sha256 (deliver now P db # db # hs)"

text \<open>The abstract document store.\<close>

inductive store_step :: "(jstring \<rightharpoonup> canonical_model list) \<Rightarrow> (jstring \<rightharpoonup> canonical_model list) \<Rightarrow> bool" where
  Stutter: "store_step s s"
| Create: "s did = None \<Longrightarrow> store_step s (s(did \<mapsto> [m]))"
| Append: "s did = Some ms \<Longrightarrow> store_step s (s(did \<mapsto> ms @ [m]))"
| Remove: "store_step s (s |` K)"

definition document_store :: "server_db \<Rightarrow> jstring \<rightharpoonup> canonical_model list" where
  "document_store db did = (if did \<in> dc_id ` set (db_documents db) then Some (models_of did db) else None)"

section \<open>The invariant\<close>

definition server_inv ::
  "(canonical_model \<Rightarrow> validation_issue list + canonical_model) \<Rightarrow> (jstring \<Rightarrow> jstring) \<Rightarrow> server_db list \<Rightarrow> bool" where
  "server_inv schema lowerEs H \<longleftrightarrow> H \<noteq> [] \<and> project_inv (hd H) \<and> history_ok schema lowerEs (hd H)
     \<and> (\<forall>h \<in> set H. agrees h (hd H))"

lemma server_inv_step:
  assumes "server_inv schema lowerEs (db # hs)" and "project_inv db'" "history_ok schema lowerEs db'"
    and "\<And>h. h \<in> set (db # hs) \<Longrightarrow> agrees h db'"
  shows "server_inv schema lowerEs (db' # db # hs)"
  using assms agrees_self [OF assms(3)] by (auto simp: server_inv_def)

lemma server_inv_keeps:
  assumes "server_inv schema lowerEs (db # hs)" and "project_inv db'" and "keeps_documents db db'"
  shows "server_inv schema lowerEs (db' # db # hs)"
  using assms by (intro server_inv_step) (auto simp: server_inv_def agrees_keeps keeps_history)

lemma server_inv_removes:
  assumes "server_inv schema lowerEs (db # hs)" and "project_inv db'" and "removes_documents db P db'"
  shows "server_inv schema lowerEs (db' # db # hs)"
  using assms by (intro server_inv_step) (auto simp: server_inv_def intro: agrees_removes removes_history)

lemma createDocument_adds:
  assumes "createDocument isUUID schemaIn schema lowerEs now did pid uid sid name body db = (db', r)" and "db' \<noteq> db"
  shows "\<exists>x author. adds_document db x author db' \<and> dc_id x = uuid_key did \<and> r = Inr x \<and> dc_projectId x = uuid_key pid
    \<and> stored_model_ok lowerEs 0 (dc_canonicalModel x) \<and> findProject pid db \<noteq> None
    \<and> db_projects db' = db_projects db \<and> db_members db' = db_members db \<and> db_users db' = db_users db"
proof -
  from createDocument_cases [OF assms(1)] assms(2) obtain x m where x: "r = Inr x" "dc_id x = uuid_key did"
    "dc_projectId x = uuid_key pid" "dc_revision x = 0" "dc_canonicalModel x = m"
    "validateAndNormalize schemaIn schema lowerEs body 0 now (Some (pid, did)) = Inr m"
    "lockRequest isUUID now pid uid sid db = Inr ()" "insertDocument x db = Some db'" by auto
  have "key (dc_id x)" using x(2) by simp
  from insertDocument_Some [OF x(8) this] x validateAndNormalize_Inr [OF x(6)]
  show ?thesis
    by (intro exI [of _ x] exI [of _ "dc_createdById x"])
      (auto simp: adds_document_def stored_model_ok_def lockRequest_def lockCollaboratorMembership_def res_simps)
qed

text \<open>A committed command was computed from the very model it replaces, however old the database that
  it read was.\<close>

lemma toCanonicalPersistenceId_key [simp]: "toCanonicalPersistenceId kind (uuid_key i) = toCanonicalPersistenceId kind i"
  by (simp add: toCanonicalPersistenceId_def)

lemma command_effect_advances:
  assumes e: "command_effect isUUID schema lowerEs now rowId identity input fp socketId locks dbDocument dbOperation
      db locks' db' r"
    and h: "history_ok schema lowerEs db" and old: "agrees dbDocument db"
  shows "\<exists>x y n. findDocument (dm_documentId input) db = Some x \<and> dc_revision x = dm_baseRevision input
    \<and> findMember (dc_projectId x) (ci_userId identity) db \<noteq> None
    \<and> execute (dc_canonicalModel x) (dm_command input) = Inr n
    \<and> validateAndNormalize schema schema lowerEs n (dm_baseRevision input + 1) now
        (Some (dc_projectId x, dm_documentId input)) = Inr (dc_canonicalModel y)
    \<and> (\<exists>ids. affectedElementIds (dc_canonicalModel x) (dm_command input) = Inr ids
         \<and> hasLockOwnedByAnotherSocket now (dm_documentId input) ids socketId locks = (locks', False))
    \<and> advances db x y (uuid_key (ci_userId identity)) [command_operation rowId identity input fp now] db'
    \<and> r = Inr (accepted input (map cl_id (dg_elements (cm_diagram n))) now)
    \<and> history_ok schema lowerEs db'"
proof -
  from e obtain doc m x y n ids where
    doc: "lockCommandAuthorization isUUID now identity (dm_documentId input) dbDocument = Inr doc"
      "dc_revision doc = dm_baseRevision input"
    and n: "execute (dc_canonicalModel doc) (dm_command input) = Inr n"
      "validateAndNormalize schema schema lowerEs n (dm_baseRevision input + 1) now
        (Some (dc_projectId doc, dm_documentId input)) = Inr m"
      "affectedElementIds (dc_canonicalModel doc) (dm_command input) = Inr ids"
      "hasLockOwnedByAnotherSocket now (dm_documentId input) ids socketId locks = (locks', False)"
    and x: "findDocument (dm_documentId input) db = Some x" "dc_revision x = dm_baseRevision input"
      "findMember (dc_projectId x) (ci_userId identity) db \<noteq> None" "dc_canonicalModel y = m"
      "advances db x y (uuid_key (ci_userId identity)) [command_operation rowId identity input fp now] db'"
      "r = Inr (accepted input (map cl_id (dg_elements (cm_diagram n))) now)"
    unfolding command_effect_def by blast
  have "findDocument (dm_documentId input) dbDocument = Some doc"
    using doc(1) by (auto simp: lockCommandAuthorization_def res_simps split: option.splits)
  with findDocument_Some x(1) old have "row_agrees doc x" "dc_id doc = dc_id x"
    by (auto simp: agrees_def dest!: findDocument_Some)
  with doc(2) x(2) have same: "dc_canonicalModel doc = dc_canonicalModel x" "dc_projectId doc = dc_projectId x"
    by (auto simp: row_agrees_def)
  have did: "dc_id x = uuid_key (dm_documentId input)" using findDocument_Some [OF x(1)] by simp
  have rev: "dc_revision y = dm_baseRevision input + 1" using x(2,5) by (simp add: advances_def)
  have norm: "validateAndNormalize schema schema lowerEs n (dm_baseRevision input + 1) now
      (Some (dc_projectId x, dc_id x)) = Inr m"
    using n(2) by (simp add: same did validateAndNormalize_def)
  have "history_ok schema lowerEs db'"
  proof (rule advances_history [OF h x(5)])
    show "stored_model_ok lowerEs (dc_revision y) (dc_canonicalModel y)"
      using validateAndNormalize_Inr [OF n(2)] x(4) rev by (simp add: stored_model_ok_def)
  next
    fix q
    assume "q \<in> set [command_operation rowId identity input fp now]"
    then show "ox_documentId q = dc_id x \<and> ox_baseRevision q = dc_revision x \<and> ox_resultingRevision q = dc_revision y
      \<and> (\<exists>n. execute (dc_canonicalModel x) (ox_command q) = Inr n
           \<and> validateAndNormalize schema schema lowerEs n (dc_revision y) (ox_committedAt q)
               (Some (dc_projectId x, dc_id x)) = Inr (dc_canonicalModel y))"
      using norm n(1) x(2,4) did rev same(1) by (simp add: command_operation_def)
  qed simp
  with x n show ?thesis
    by (intro exI [of _ x] exI [of _ y] exI [of _ n]) (simp add: same)
qed

lemma server_history_inv:
  assumes "server_history isUUID schemaIn schema lowerEs lower showNumber sha256 H"
  shows "server_inv schema lowerEs H"
  using assms
proof (induction rule: server_history.induct)
  case (Start db)
  then show ?case by (simp add: server_inv_def project_inv_def history_ok_def agrees_def)
next
  case (Accounts db hs users sessions consumed)
  then show ?case
    by (intro server_inv_keeps)
      (auto simp: keeps_documents_def server_inv_def project_inv_def owner_ok_def)
next
  case (Project db hs now uid sid op')
  have "project_inv (fst (run_project isUUID lower now uid sid op' db))"
    using Project.IH by (simp add: server_inv_def run_project_inv)
  then show ?case
    using run_project_documents [of db isUUID lower now uid sid op'] server_inv_keeps [OF Project.IH]
      server_inv_removes [OF Project.IH] by blast
next
  case (Create db hs did now pid uid sid name body)
  obtain db' r where c: "createDocument isUUID schemaIn schema lowerEs now did pid uid sid name body db = (db', r)"
    by fastforce
  show ?case
  proof (cases "db' = db")
    case True
    then show ?thesis using c Create.IH by (auto intro!: server_inv_keeps simp: server_inv_def)
  next
    case False
    from createDocument_adds [OF c False] obtain x author where
      x: "adds_document db x author db'" "dc_id x = uuid_key did" "dc_projectId x = uuid_key pid"
      "stored_model_ok lowerEs 0 (dc_canonicalModel x)" "findProject pid db \<noteq> None"
      "db_projects db' = db_projects db" "db_members db' = db_members db" "db_users db' = db_users db" by blast
    have inv: "project_inv db" "history_ok schema lowerEs db" "\<And>h. h \<in> set (db # hs) \<Longrightarrow> agrees h db"
      using Create.IH by (auto simp: server_inv_def)
    have "project_inv db'"
      by (rule project_inv_documents [OF inv(1)])
        (use x project_invD(5) [OF inv(1)] in \<open>auto simp: adds_document_def findProject_None\<close>)
    moreover have "history_ok schema lowerEs db'" using adds_history [OF inv(2) x(1)] x(2,4) by simp
    moreover have "agrees h db'" if "h \<in> set (db # hs)" for h
      using agrees_adds [OF x(1) inv(3) [OF that]] Create.hyps(2) that x(2) by (auto simp: findDocument_None)
    ultimately show ?thesis using server_inv_step [OF Create.IH] c by simp
  qed
next
  case (Update db hs dbRead now busy pid did uid sid rename expected body locks)
  obtain l db' c r where u: "updateDocument isUUID schemaIn schema lowerEs now busy pid did uid sid rename expected body
    locks dbRead db = (l, db', c, r)" by (metis prod_cases4)
  have inv: "project_inv db" "history_ok schema lowerEs db" "\<And>h. h \<in> set (db # hs) \<Longrightarrow> agrees h db"
    using Update.IH by (auto simp: server_inv_def)
  from updateDocument_cases [OF u] show ?case
  proof (elim disjE exE conjE)
    assume "db' = db"
    then show ?thesis using u inv Update.IH by (auto intro!: server_inv_keeps)
  next
    fix x y m
    assume m: "validateAndNormalize schemaIn schema lowerEs body (expected + 1) now (Some (pid, did)) = Inr m"
      "dc_canonicalModel y = m" "advances db x y (uuid_key uid) [] db'" "dc_revision x = expected"
    then have "stored_model_ok lowerEs (dc_revision y) (dc_canonicalModel y)"
      using validateAndNormalize_Inr [OF m(1)] by (simp add: stored_model_ok_def advances_def)
    with m have "history_ok schema lowerEs db'" by (intro advances_history [OF inv(2) m(3)]) auto
    with m inv agrees_advances [OF m(3)] project_inv_advances [OF inv(1) m(3)] u show ?thesis
      by (auto intro!: server_inv_step [OF Update.IH])
  qed
next
  case (Delete db hs now busy pid did uid sid)
  obtain db' c r where u: "deleteDocument isUUID now busy pid did uid sid db = (db', c, r)" by (metis prod_cases3)
  have inv: "project_inv db" using Delete.IH by (auto simp: server_inv_def)
  from deleteDocument_cases [OF u] show ?case
  proof (elim disjE conjE)
    assume "db' = db"
    then show ?thesis using u inv Delete.IH by (auto intro!: server_inv_keeps)
  next
    assume "db' = deleteDocuments (\<lambda>x. dc_id x = uuid_key did \<and> dc_projectId x = uuid_key pid) db"
    then show ?thesis
      using u server_inv_removes [OF Delete.IH project_inv_deleteDocuments [OF inv] removes_deleteDocuments] by simp
  qed
next
  case (Command db hs dbDocument dbOperation now rowId identity input socketId locks)
  let ?fp = "commandFingerprint showNumber sha256 (dm_baseRevision input) (dm_command input)"
  obtain l db' r where p: "process isUUID schema lowerEs showNumber sha256 now rowId identity input socketId locks
    dbDocument dbOperation db = (l, db', r)" by (metis prod_cases3)
  have inv: "project_inv db" "history_ok schema lowerEs db" "\<And>h. h \<in> set (db # hs) \<Longrightarrow> agrees h db"
    using Command.IH by (auto simp: server_inv_def)
  from process_cases [OF p] show ?case
  proof (elim disjE conjE)
    assume "db' = db"
    then show ?thesis using p inv Command.IH by (auto intro!: server_inv_keeps)
  next
    assume "command_effect isUUID schema lowerEs now rowId identity input ?fp socketId locks dbDocument dbOperation
      db l db' r"
    from command_effect_advances [OF this inv(2) inv(3) [OF Command.hyps(2)]] obtain x y where
      a: "advances db x y (uuid_key (ci_userId identity)) [command_operation rowId identity input ?fp now] db'"
      and h: "history_ok schema lowerEs db'" by auto
    have "server_inv schema lowerEs (db' # db # hs)"
      by (rule server_inv_step [OF Command.IH project_inv_advances [OF inv(1) a] h])
        (rule agrees_advances [OF a inv(3)])
    then show ?thesis by (simp add: p)
  qed
next
  case (Deliver db hs now P)
  have "project_inv (deliver now P db)"
    by (rule project_inv_documents [of db])
      (use Deliver.IH in \<open>auto simp: server_inv_def deliver_def dest: project_invD(5)\<close>)
  then show ?case by (intro server_inv_keeps [OF Deliver.IH]) simp_all
qed

section \<open>Refinement of the abstract store\<close>

text \<open>One step of a history is one of the four kinds of change.\<close>

lemma history_change:
  assumes "server_history isUUID schemaIn schema lowerEs lower showNumber sha256 (db' # db # hs)"
  shows "server_inv schema lowerEs (db # hs) \<and>
    (keeps_documents db db' \<or> (\<exists>x a. adds_document db x a db') \<or> (\<exists>x y a qs. advances db x y a qs db')
     \<or> (\<exists>P. removes_documents db P db'))"
proof -
  note inv = server_history_inv [where H = "db # hs"]
  from assms show ?thesis
  proof (cases rule: server_history.cases)
    case (Accounts users sessions consumed)
    then show ?thesis using inv by (auto simp: keeps_documents_def)
  next
    case (Project now uid sid op')
    with inv [OF Project(2)] run_project_documents [of db isUUID lower now uid sid op'] show ?thesis by auto
  next
    case (Create did now pid uid sid name body)
    obtain db1 r where c: "createDocument isUUID schemaIn schema lowerEs now did pid uid sid name body db = (db1, r)"
      by fastforce
    with Create createDocument_adds [OF c] inv show ?thesis by (cases "db1 = db") auto
  next
    case (Update dbRead now busy pid did uid sid rename expected body locks)
    obtain l db1 c r where u: "updateDocument isUUID schemaIn schema lowerEs now busy pid did uid sid rename expected body
      locks dbRead db = (l, db1, c, r)" by (metis prod_cases4)
    from updateDocument_cases [OF u] have "db1 = db \<or> (\<exists>x y a qs. advances db x y a qs db1)" by blast
    with Update u inv show ?thesis by auto
  next
    case (Delete now busy pid did uid sid)
    obtain db1 c r where u: "deleteDocument isUUID now busy pid did uid sid db = (db1, c, r)" by (metis prod_cases3)
    from deleteDocument_cases [OF u] have "db1 = db \<or> (\<exists>P. removes_documents db P db1)"
      using removes_deleteDocuments by blast
    with Delete u inv show ?thesis by auto
  next
    case (Command dbDocument dbOperation now rowId identity input socketId locks)
    obtain l db1 r where p: "process isUUID schema lowerEs showNumber sha256 now rowId identity input socketId locks
      dbDocument dbOperation db = (l, db1, r)" by (metis prod_cases3)
    from process_cases [OF p] have "db1 = db \<or> (\<exists>x y a qs. advances db x y a qs db1)"
      by (auto simp: command_effect_def)
    with Command p inv show ?thesis by auto
  next
    case (Deliver now P)
    then show ?thesis using inv by auto
  qed
qed

lemma store_keeps: "keeps_documents db db' \<Longrightarrow> document_store db' = document_store db"
  by (intro ext) (simp add: document_store_def keeps_models, simp add: keeps_documents_def)

lemma store_adds:
  assumes "history_ok schema lowerEs db" "adds_document db x a db'"
  shows "document_store db (dc_id x) = None" "document_store db' = (document_store db)(dc_id x \<mapsto> [dc_canonicalModel x])"
proof -
  note a = assms(2) [unfolded adds_document_def]
  show "document_store db (dc_id x) = None" using a by (simp add: document_store_def)
  have "revisions_of (dc_id x) db = []"
    using history_okD(3) [OF assms(1)] a by (simp add: revisions_of_def filter_empty_conv) metis
  then show "document_store db' = (document_store db)(dc_id x \<mapsto> [dc_canonicalModel x])"
    using a by (intro ext) (auto simp: document_store_def models_of_def revisions_of_def)
qed

lemma store_advances:
  assumes "advances db x y a qs db'"
  shows "document_store db (dc_id x) = Some (models_of (dc_id x) db)"
    "document_store db' = (document_store db)(dc_id x \<mapsto> models_of (dc_id x) db @ [dc_canonicalModel y])"
proof -
  note a = assms [unfolded advances_def]
  have "(\<lambda>z. dc_id (if dc_id z = dc_id x then y else z)) = dc_id" using a by auto
  then have ids: "dc_id ` (\<lambda>z. if dc_id z = dc_id x then y else z) ` S = dc_id ` S" for S
    by (simp only: image_image)
  show "document_store db (dc_id x) = Some (models_of (dc_id x) db)"
    using a by (simp add: document_store_def)
  show "document_store db' = (document_store db)(dc_id x \<mapsto> models_of (dc_id x) db @ [dc_canonicalModel y])"
    using a ids by (intro ext) (simp add: document_store_def models_of_def revisions_of_def)
qed

lemma store_removes:
  assumes "history_ok schema lowerEs db" "removes_documents db P db'"
  shows "document_store db' = document_store db |` (- (dc_id ` {x \<in> set (db_documents db). P x}))"
proof (intro ext)
  fix did
  note r = assms(2) [unfolded removes_documents_def]
  let ?gone = "dc_id ` {x \<in> set (db_documents db). P x}"
  have "did \<in> dc_id ` set (db_documents db') \<longleftrightarrow> did \<in> dc_id ` set (db_documents db) - ?gone"
    using r document_unique [OF assms(1)] by auto
  moreover have "models_of did db' = models_of did db" if "did \<notin> ?gone"
    using that r by (auto simp: models_of_def revisions_of_def intro!: arg_cong [where f = "map rv_canonicalModel"] filter_cong)
  ultimately show "document_store db' did = (document_store db |` (- ?gone)) did"
    by (simp add: document_store_def restrict_map_def)
qed

lemma history_store_step:
  assumes "server_history isUUID schemaIn schema lowerEs lower showNumber sha256 (db' # db # hs)"
  shows "store_step (document_store db) (document_store db')"
proof -
  from history_change [OF assms] have h: "history_ok schema lowerEs db"
    and "keeps_documents db db' \<or> (\<exists>x a. adds_document db x a db') \<or> (\<exists>x y a qs. advances db x y a qs db')
     \<or> (\<exists>P. removes_documents db P db')" by (auto simp: server_inv_def)
  then show ?thesis
  proof (elim disjE exE)
    assume "keeps_documents db db'"
    then show ?thesis by (simp add: store_keeps store_step.Stutter)
  next
    fix x a
    assume "adds_document db x a db'"
    with store_adds [OF h this] show ?thesis by (simp add: store_step.Create)
  next
    fix x y a qs
    assume "advances db x y a qs db'"
    with store_advances [OF this] show ?thesis by (simp add: store_step.Append)
  next
    fix P
    assume "removes_documents db P db'"
    with store_removes [OF h this] show ?thesis by (simp add: store_step.Remove)
  qed
qed

end
