(* ===== verification/Document_Examples.thy ===== *)
theory Document_Examples
  imports Document_History Example_Documents Lock_Laws
begin

text \<open>
  A small history of the server, evaluated step by step: a user with a session creates a project and a
  document in it and adds a class to its diagram by a command. The theorems on histories are applied to it.
\<close>

lemma uuid_key_js: "\<forall>c \<in> set s. (of_char c :: nat) < 65 \<or> 90 < (of_char c :: nat) \<Longrightarrow> uuid_key (js s) = js s"
  by (induction s) (auto simp: uuid_key_def js_def word_le_nat_alt unat_char_unit)

definition ann :: jstring where "ann = js ''a1''"
definition ann_session :: jstring where "ann_session = js ''5e''"
definition shop_project :: jstring where "shop_project = js ''b0''"
definition shop_diagram :: jstring where "shop_diagram = js ''d0''"

lemma example_keys [simp]: "uuid_key ann = ann" "uuid_key ann_session = ann_session"
  "uuid_key shop_project = shop_project" "uuid_key shop_diagram = shop_diagram"
  "uuid_key (js ''c1'') = js ''c1''"
  by (simp_all add: ann_def ann_session_def shop_project_def shop_diagram_def uuid_key_js)

definition first_db :: server_db where
  "first_db = \<lparr>db_users = [\<lparr>us_id = ann, us_email = js ''ann@x.org'', us_displayName = js ''Ann'', us_passwordHash = js ''h''\<rparr>],
     db_sessions = [(ann_session, \<lparr>se_userId = ann, se_tokenHash = js ''t'', se_refreshSequence = 0,
        se_expiresAt = 1000, se_revokedAt = None\<rparr>)],
     db_consumed = [], db_projects = [], db_members = [], db_documents = [], db_revisions = [], db_operations = []\<rparr>"

definition project_db :: server_db where
  "project_db = first_db\<lparr>db_projects := [\<lparr>pj_id = shop_project, pj_name = js ''Shop'', pj_description = None,
       pj_ownerId = ann, pj_createdAt = 10, pj_updatedAt = 10\<rparr>],
     db_members := [\<lparr>mb_projectId = shop_project, mb_userId = ann, mb_role = Owner, mb_createdAt = 10\<rparr>]\<rparr>"

text \<open>The example server accepts every document that is typed as one.\<close>

abbreviation accept_all :: "canonical_model \<Rightarrow> validation_issue list + canonical_model" where
  "accept_all m \<equiv> Inr m"

definition order_body :: canonical_model where
  "order_body = document_of [class_of ''order'' ''Order'' []] [] [position_of ''order'']"

definition stored :: "canonical_model \<Rightarrow> nat \<Rightarrow> int \<Rightarrow> canonical_model" where
  "stored m r t = m\<lparr>cm_project := (cm_project m)\<lparr>pr_id := js ''project_b0''\<rparr>,
     cm_diagram := (cm_diagram m)\<lparr>dg_id := js ''diagram_d0''\<rparr>,
     cm_metadata := (cm_metadata m)\<lparr>me_revision := int r, me_updatedAt := toISOString t\<rparr>\<rparr>"

definition row_of :: "nat \<Rightarrow> canonical_model \<Rightarrow> int \<Rightarrow> document_row" where
  "row_of r m t = \<lparr>dc_id = shop_diagram, dc_projectId = shop_project, dc_name = js ''Main'', dc_canonicalModel = m,
     dc_revision = r, dc_createdById = ann, dc_updatedById = ann, dc_createdAt = 20, dc_updatedAt = t\<rparr>"

definition revision_of :: "nat \<Rightarrow> canonical_model \<Rightarrow> revision_row" where
  "revision_of r m = \<lparr>rv_documentId = shop_diagram, rv_revision = r, rv_canonicalModel = m, rv_authorId = ann\<rparr>"

definition order_model :: canonical_model where "order_model = stored order_body 0 20"

definition document_db :: server_db where
  "document_db = project_db\<lparr>db_documents := [row_of 0 order_model 20], db_revisions := [revision_of 0 order_model]\<rparr>"

definition add_product :: uml_command where
  "add_product = command_of (ClassifierCreate (class_of ''product'' ''Product'' []) (position_of ''product''))"

definition product_body :: canonical_model where
  "product_body = order_model\<lparr>cm_diagram := (cm_diagram order_model)
     \<lparr>dg_elements := [class_of ''order'' ''Order'' [], class_of ''product'' ''Product'' []],
      dg_positions := [position_of ''order'', position_of ''product'']\<rparr>\<rparr>"

definition product_model :: canonical_model where "product_model = stored product_body 1 30"

definition ann_identity :: collaboration_identity where
  "ann_identity = \<lparr>ci_userId = ann, ci_sessionId = ann_session, ci_accessTokenExpiresAt = 1\<rparr>"

abbreviation no_number :: "rat \<Rightarrow> jstring" where "no_number n \<equiv> []"

section \<open>Evaluation\<close>

lemma ann_active: "now < 1000 \<Longrightarrow> db_sessions db = db_sessions first_db \<Longrightarrow> sessionLocked (\<lambda>_. True) now ann ann_session db"
  by (simp add: sessionLocked_def lockActiveSession_def active_session_def sessionAt_def session_live_def
      auth_db.defs first_db_def)

lemma project_created:
  "create (\<lambda>_. True) 10 shop_project ann ann_session (js ''Shop'') None first_db =
     (project_db, Inr \<lparr>pp_id = shop_project, pp_name = js ''Shop'', pp_description = None, pp_role = Owner,
        pp_createdAt = 10, pp_updatedAt = 10\<rparr>)"
  by (simp add: create_def lockMutationSession_if ann_active project_db_def findProject_def
      optionalDescription_def) (simp add: first_db_def Let_def project_response_of_def)

lemma persistence_ids:
  "toCanonicalPersistenceId (js ''project'') shop_project = js ''project_b0''"
  "toCanonicalPersistenceId (js ''diagram'') shop_diagram = js ''diagram_d0''"
  by (simp_all add: toCanonicalPersistenceId_def)
    (simp_all add: shop_project_def shop_diagram_def js_def)

lemma order_valid: "assertCanonicalSemanticIntegrity id order_body = Inr ()"
  by (simp add: eval_validator shop_defs order_body_def)

text \<open>The documents with their stored identifiers and the metadata they came with.\<close>

definition with_ids :: "canonical_model \<Rightarrow> canonical_model" where
  "with_ids m = m\<lparr>cm_project := (cm_project m)\<lparr>pr_id := js ''project_b0''\<rparr>,
     cm_diagram := (cm_diagram m)\<lparr>dg_id := js ''diagram_d0''\<rparr>\<rparr>"

lemma order_valid_ids: "well_formed id (with_ids order_body)"
  unfolding integrity_iff_well_formed [symmetric]
  by (simp add: eval_validator shop_defs order_body_def with_ids_def)

lemma order_normalized:
  "validateAndNormalize accept_all accept_all id order_body 0 20 (Some (shop_project, shop_diagram)) = Inr order_model"
proof -
  have "validateCanonicalModel accept_all id order_body = Inr order_body"
    using order_valid by (simp add: validateCanonicalModel_def)
  moreover have "validateCanonicalModel accept_all id (with_ids order_body) = Inr (with_ids order_body)"
    using order_valid_ids by (simp add: validateCanonicalModel_Inr)
  ultimately show ?thesis
    by (simp add: validateAndNormalize_def persistence_ids with_ids_def) (simp add: order_model_def stored_def)
qed

lemma document_created:
  "createDocument (\<lambda>_. True) accept_all accept_all id 20 shop_diagram shop_project ann ann_session (js ''Main'')
     order_body project_db = (document_db, Inr (row_of 0 order_model 20))"
proof -
  have "lockRequest (\<lambda>_. True) 20 shop_project ann ann_session project_db = Inr ()"
    by (simp add: lockRequest_def ann_active lockCollaboratorMembership_def findProject_def findMember_def project_db_def)
  moreover have "insertDocument (row_of 0 order_model 20) project_db = Some document_db"
    by (simp add: insertDocument_def findDocument_def nameTaken_def insertRevision_def row_of_def)
      (simp add: project_db_def first_db_def document_db_def row_of_def revision_of_def)
  ultimately show ?thesis
    by (simp add: createDocument_def order_normalized) (simp add: row_of_def)
qed

lemma product_added: "execute order_model add_product = Inr product_body"
  by (simp add: execute_def add_product_def command_of_def assertMissingClassifier_def assertPosition_def addClassifier_def
      order_model_def stored_def order_body_def product_body_def document_of_def class_of_def position_of_def)

lemma product_valid: "well_formed id product_body"
proof -
  let ?plain = "with_ids (document_of [class_of ''order'' ''Order'' [], class_of ''product'' ''Product'' []] []
    [position_of ''order'', position_of ''product''])"
  have "well_formed id ?plain"
    unfolding integrity_iff_well_formed [symmetric] by (simp add: eval_validator shop_defs with_ids_def)
  from well_formed_metadata [OF this, where r = 0 and t = 20] show ?thesis
    by (simp add: product_body_def order_model_def stored_def order_body_def document_of_def with_ids_def)
qed

lemma example_normalized:
  assumes "well_formed id body"
    and "body\<lparr>cm_project := (cm_project body)\<lparr>pr_id := js ''project_b0''\<rparr>,
      cm_diagram := (cm_diagram body)\<lparr>dg_id := js ''diagram_d0''\<rparr>\<rparr> = body"
  shows "validateAndNormalize accept_all accept_all id body 1 30 (Some (shop_project, shop_diagram)) = Inr (stored body 1 30)"
proof -
  have "validateCanonicalModel accept_all id body = Inr body"
    using assms(1) by (simp add: validateCanonicalModel_Inr)
  with assms(2) have "validateAndNormalize accept_all accept_all id body 1 30 (Some (shop_project, shop_diagram)) =
      Inr (body\<lparr>cm_metadata := (cm_metadata body)\<lparr>me_revision := int 1, me_updatedAt := toISOString 30\<rparr>\<rparr>)"
    by (simp add: validateAndNormalize_def persistence_ids)
  moreover have "stored body 1 30 = (body\<lparr>cm_project := (cm_project body)\<lparr>pr_id := js ''project_b0''\<rparr>,
      cm_diagram := (cm_diagram body)\<lparr>dg_id := js ''diagram_d0''\<rparr>\<rparr>)\<lparr>cm_metadata := (cm_metadata body)
      \<lparr>me_revision := int 1, me_updatedAt := toISOString 30\<rparr>\<rparr>" by (simp add: stored_def)
  ultimately show ?thesis unfolding assms(2) by simp
qed

lemma product_normalized:
  "validateAndNormalize accept_all accept_all id product_body 1 30 (Some (shop_project, shop_diagram)) = Inr product_model"
  unfolding product_model_def
  by (rule example_normalized [OF product_valid]) (simp add: product_body_def order_model_def stored_def)

lemma product_ids: "map cl_id (dg_elements (cm_diagram product_body)) = [js ''order'', js ''product'']"
  by (simp add: product_body_def class_of_def)

text \<open>Any command on the created document, when nothing is locked.\<close>

definition input_of :: "uml_command \<Rightarrow> document_command" where
  "input_of cmd = \<lparr>dm_operationId = js ''c1'', dm_documentId = shop_diagram, dm_baseRevision = 0, dm_command = cmd\<rparr>"

definition after_command :: "uml_command \<Rightarrow> canonical_model \<Rightarrow> server_db" where
  "after_command cmd m = document_db\<lparr>db_documents := [row_of 1 m 30],
     db_revisions := [revision_of 0 order_model, revision_of 1 m],
     db_operations := [command_operation (js ''f0'') ann_identity (input_of cmd)
       (commandFingerprint no_number id 0 cmd) 30]\<rparr>"

lemma ann_reads: "lockCommandAuthorization (\<lambda>_. True) 30 ann_identity shop_diagram document_db = Inr (row_of 0 order_model 20)"
  by (simp add: lockCommandAuthorization_def ann_identity_def ann_active findDocument_def findProject_def findMember_def
      document_db_def project_db_def row_of_def)

lemma nothing_locked:
  "hasLockOwnedByAnotherSocket now did ids socketId empty_lock_store = (empty_lock_store, False)"
  by (simp add: hasLockOwnedByAnotherSocket_def expireDocument_nothing empty_lock_store_def lockAt_def nestedGet_def
      inner_def documentLocks_def)

lemma example_command:
  assumes "affectedElementIds order_model cmd = Inr ids" "execute order_model cmd = Inr body"
    "validateAndNormalize accept_all accept_all id body 1 30 (Some (shop_project, shop_diagram)) = Inr m"
  shows "process (\<lambda>_. True) accept_all id no_number id 30 (js ''f0'') ann_identity (input_of cmd) (js ''s1'') empty_lock_store
     document_db document_db document_db
   = (empty_lock_store, after_command cmd m, Inr (accepted (input_of cmd) (map cl_id (dg_elements (cm_diagram body))) 30))"
proof -
  let ?fp = "commandFingerprint no_number id 0 cmd" and ?els = "map cl_id (dg_elements (cm_diagram body))"
  have found: "findDocument shop_diagram document_db = Some (row_of 0 order_model 20)"
    "findMember shop_project ann document_db \<noteq> None"
    by (simp_all add: findDocument_def findMember_def document_db_def row_of_def project_db_def)
  have prep: "prepareCommand accept_all id 30 ann_identity (input_of cmd) ?fp (js ''s1'') (row_of 0 order_model 20)
    empty_lock_store document_db = (empty_lock_store, Inr (Prepared m ?els 30))"
    by (simp add: prepareCommand_def input_of_def findOperation_def document_db_def project_db_def first_db_def row_of_def
        assms [unfolded One_nat_def] nothing_locked)
  have "commitCommand (js ''f0'') ann_identity (input_of cmd) ?fp m ?els 30 document_db
    = (after_command cmd m, Inr (accepted (input_of cmd) ?els 30))"
    using found
    by (simp add: commitCommand_def compareAndSetDocument_def Let_def input_of_def ann_identity_def row_of_def
        nameTaken_def insertRevision_def insertOperation_def max_integer_column_def)
      (simp add: document_db_def project_db_def first_db_def after_command_def row_of_def revision_of_def
        command_operation_def ann_identity_def input_of_def accepted_def)
  with ann_reads prep show ?thesis
    by (simp add: process_def processInTransaction_def input_of_def)
qed

definition add_product_input :: document_command where
  "add_product_input = input_of add_product"

definition add_product_row :: operation_row where
  "add_product_row = command_operation (js ''f0'') ann_identity add_product_input
     (commandFingerprint no_number id 0 add_product) 30"

definition command_db :: server_db where
  "command_db = document_db\<lparr>db_documents := [row_of 1 product_model 30],
     db_revisions := [revision_of 0 order_model, revision_of 1 product_model], db_operations := [add_product_row]\<rparr>"

lemma command_processed:
  "process (\<lambda>_. True) accept_all id no_number id 30 (js ''f0'') ann_identity add_product_input (js ''s1'') empty_lock_store
     document_db document_db document_db
   = (empty_lock_store, command_db, Inr (accepted add_product_input [js ''order'', js ''product''] 30))"
proof -
  have "affectedElementIds order_model add_product = Inr {js ''product''}"
    by (simp add: affectedElementIds_def add_product_def command_of_def class_of_def)
  from example_command [OF this product_added product_normalized] show ?thesis
    by (simp add: command_db_def after_command_def add_product_row_def add_product_input_def product_ids)
qed

text \<open>Moving the class of the created document.\<close>

definition move_order :: uml_command where
  "move_order = command_of (ClassifierMove (js ''order'') 5 7)"

definition moved_body :: canonical_model where
  "moved_body = order_model\<lparr>cm_diagram := (cm_diagram order_model)
     \<lparr>dg_positions := [(position_of ''order'')\<lparr>po_x := 5, po_y := 7\<rparr>]\<rparr>\<rparr>"

definition moved_model :: canonical_model where "moved_model = stored moved_body 1 30"

lemma order_moved: "execute order_model move_order = Inr moved_body"
  by (simp add: execute_def move_order_def command_of_def moveClassifier_def order_model_def
      stored_def order_body_def moved_body_def document_of_def class_of_def position_of_def findClassifier_def classifierIndex_def)

lemma order_move_needs: "affectedElementIds order_model move_order = Inr {js ''order''}"
  by (simp add: affectedElementIds_def move_order_def command_of_def order_model_def stored_def order_body_def
      document_of_def class_of_def findClassifier_def classifierIndex_def)

lemma moved_normalized:
  "validateAndNormalize accept_all accept_all id moved_body 1 30 (Some (shop_project, shop_diagram)) = Inr moved_model"
  unfolding moved_model_def
proof (rule example_normalized)
  let ?plain = "with_ids (document_of [class_of ''order'' ''Order'' []] [] [(position_of ''order'')\<lparr>po_x := 5, po_y := 7\<rparr>])"
  have "well_formed id ?plain"
    unfolding integrity_iff_well_formed [symmetric] by (simp add: eval_validator shop_defs with_ids_def)
  from well_formed_metadata [OF this, where r = 0 and t = 20] show "well_formed id moved_body"
    by (simp add: moved_body_def order_model_def stored_def order_body_def document_of_def with_ids_def)
qed (simp add: moved_body_def order_model_def stored_def)

lemmas order_move_processed = example_command [OF order_move_needs order_moved moved_normalized]

section \<open>The history\<close>

abbreviation example_history :: "server_db list \<Rightarrow> bool" where
  "example_history \<equiv> server_history (\<lambda>_. True) accept_all accept_all id id no_number id"

lemma first_history: "example_history [first_db]"
  by (rule server_history.Start) (simp_all add: first_db_def key_def)

lemma project_history: "example_history [project_db, first_db]"
  using server_history.Project [OF first_history, of 10 ann ann_session "CreateProject shop_project (js ''Shop'') None"]
  by (simp add: project_created)

lemma document_history: "example_history [document_db, project_db, first_db]"
proof -
  have "findDocument shop_diagram project_db = None" "findDocument shop_diagram first_db = None"
    by (simp_all add: findDocument_def project_db_def first_db_def)
  then show ?thesis
    using server_history.Create [OF project_history, of shop_diagram 20 shop_project ann ann_session "js ''Main''" order_body]
    by (simp add: document_created)
qed

lemma command_history: "example_history [command_db, document_db, project_db, first_db]"
  using server_history.Command [OF document_history, of document_db document_db 30 "js ''f0''" ann_identity
    add_product_input "js ''s1''" empty_lock_store]
  by (simp add: command_processed)

end
