(* ===== verification/Command_Text_Laws.thy ===== *)
theory Command_Text_Laws
  imports Command_Text
begin

text \<open>
  The text of \<open>stableJson\<close> is unambiguous: it gives back the value up to the order of the keys of
  its objects, so two commands have the same text only when they are the same. The texts of values are a
  prefix code, shown for string escapes, strings, lists and values in turn.
\<close>

section \<open>Strings\<close>

text \<open>The pieces that \<open>JSON.stringify\<close> treats one at a time: one code unit, or a pair of
  surrogates.\<close>

fun pieces :: "jstring \<Rightarrow> jstring list" where
  "pieces [] = []"
| "pieces [c] = [[c]]"
| "pieces (c # d # s) = (if is_high_surrogate c \<and> is_low_surrogate d then [c, d] # pieces s else [c] # pieces (d # s))"

definition piece_text :: "jstring \<Rightarrow> jstring" where
  "piece_text p = (case p of [c] \<Rightarrow> if needs_escape c then escape_unit c else [c] | _ \<Rightarrow> p)"

definition is_piece :: "jstring \<Rightarrow> bool" where
  "is_piece p \<longleftrightarrow> (\<exists>c. p = [c]) \<or> (\<exists>c d. p = [c, d] \<and> is_high_surrogate c \<and> is_low_surrogate d)"

lemma concat_pieces: "concat (pieces s) = s"
  by (induction s rule: pieces.induct) auto

lemma pieces_are: "p \<in> set (pieces s) \<Longrightarrow> is_piece p"
  by (induction s rule: pieces.induct) (auto simp: is_piece_def split: if_splits)

lemma quote_units_pieces: "quote_units s = concat (map piece_text (pieces s))"
  by (induction s rule: quote_units.induct) (auto simp: piece_text_def)

lemma hex_unit_inject: "a < 16 \<Longrightarrow> b < 16 \<Longrightarrow> hex_unit a = hex_unit b \<longleftrightarrow> a = b"
  by (auto simp: hex_unit_def word_unat_eq_iff unat_of_nat split: if_splits)

lemma hex_digits_value:
  "(n::nat) = 4096 * (n div 4096) + 256 * (n div 256 mod 16) + 16 * (n div 16 mod 16) + n mod 16"
proof -
  have "n div 16 div 16 = n div 256" "n div 256 div 16 = n div 4096"
    by (simp_all flip: div_mult2_eq)
  then show ?thesis
    using mult_div_mod_eq [of 16 n] mult_div_mod_eq [of 16 "n div 16"] mult_div_mod_eq [of 16 "n div 256"] by linarith
qed

lemma hex4_inject: "hex4 c = hex4 d \<longleftrightarrow> c = d"
proof
  have lt: "unat x div 4096 < 16" for x :: "16 word"
  proof -
    have "unat x < 2 ^ LENGTH(16)" by (rule unsigned_less)
    then show ?thesis by simp
  qed
  assume "hex4 c = hex4 d"
  then have "unat c div 4096 = unat d div 4096" "unat c div 256 mod 16 = unat d div 256 mod 16"
    "unat c div 16 mod 16 = unat d div 16 mod 16" "unat c mod 16 = unat d mod 16"
    using lt by (simp_all add: hex4_def Let_def hex_unit_inject)
  then have "unat c = unat d" using hex_digits_value [of "unat c"] hex_digits_value [of "unat d"] by simp
  then show "c = d" by (simp add: word_unat_eq_iff)
qed simp

lemma length_hex4 [simp]: "length (hex4 c) = 4"
  by (simp add: hex4_def Let_def)

lemma escape_prefix: "escape_unit c @ r = escape_unit d @ r' \<Longrightarrow> c = d \<and> r = r'"
  by (auto simp: escape_unit_def js_def hex4_inject split: if_splits)

lemma hd_surrogate: "is_high_surrogate c \<Longrightarrow> c \<noteq> 0x22 \<and> c \<noteq> 0x5C \<and> needs_escape c"
  by (auto simp: is_high_surrogate_def needs_escape_def)

lemma piece_prefix:
  assumes "is_piece p" "is_piece q" and eq: "piece_text p @ r = piece_text q @ r'"
  shows "p = q \<and> r = r'"
proof -
  have first: "piece_text [c] = c # [] \<and> \<not> needs_escape c \<or> (needs_escape c \<and> piece_text [c] = escape_unit c \<and> (\<exists>t. escape_unit c = 0x5C # t))" for c
    by (simp add: piece_text_def escape_unit_def)
  have plain: "\<not> needs_escape c \<Longrightarrow> c \<noteq> 0x5C \<and> \<not> is_high_surrogate c" for c
    by (simp add: needs_escape_def)
  from assms(1,2) show ?thesis
    unfolding is_piece_def
  proof (elim disjE exE conjE)
    fix c d
    assume p: "p = [c]" "q = [d]"
    with first [of c] first [of d] eq plain [of c] plain [of d] escape_prefix [of c r d r'] show ?thesis by auto
  next
    fix c d e
    assume "p = [c]" "q = [d, e]" "is_high_surrogate d"
    with first [of c] eq plain [of c] hd_surrogate [of d] show ?thesis by (auto simp: piece_text_def)
  next
    fix c d e
    assume "p = [d, e]" "is_high_surrogate d" "q = [c]"
    with first [of c] eq plain [of c] hd_surrogate [of d] show ?thesis by (auto simp: piece_text_def)
  next
    fix c d e f
    assume "p = [c, d]" "q = [e, f]"
    with eq show ?thesis by (simp add: piece_text_def)
  qed
qed

lemma piece_head: "is_piece p \<Longrightarrow> \<exists>c t. piece_text p = c # t \<and> c \<noteq> 0x22"
  by (auto simp: is_piece_def piece_text_def escape_unit_def needs_escape_def dest: hd_surrogate)

lemma pieces_prefix:
  assumes "\<forall>p \<in> set ps. is_piece p" "\<forall>p \<in> set qs. is_piece p"
    and "concat (map piece_text ps) @ 0x22 # r = concat (map piece_text qs) @ 0x22 # r'"
  shows "ps = qs \<and> r = r'"
  using assms
proof (induction ps arbitrary: qs)
  case Nil
  then show ?case by (cases qs) (auto dest!: piece_head)
next
  case (Cons p ps)
  show ?case
  proof (cases qs)
    case Nil
    with Cons.prems piece_head [of p] show ?thesis by auto
  next
    case (Cons q qs')
    with Cons.prems piece_prefix [of p q "concat (map piece_text ps) @ 0x22 # r" "concat (map piece_text qs') @ 0x22 # r'"]
    show ?thesis using Cons.IH [of qs'] by auto
  qed
qed

lemma quote_prefix: "quoteJSON s @ r = quoteJSON t @ r' \<Longrightarrow> s = t \<and> r = r'"
  using pieces_prefix [of "pieces s" "pieces t" r r'] pieces_are concat_pieces
  by (metis (no_types, lifting) append.assoc append_Cons append_Nil list.inject quoteJSON_def quote_units_pieces)

section \<open>Lists of texts\<close>

text \<open>What may follow a value.\<close>

definition delimited :: "jstring \<Rightarrow> bool" where
  "delimited s \<longleftrightarrow> s = [] \<or> hd s = 0x2C \<or> hd s = 0x5D \<or> hd s = 0x7D"

definition prefix_text :: "('a \<Rightarrow> jstring) \<Rightarrow> 'a \<Rightarrow> bool" where
  "prefix_text f x \<longleftrightarrow> (\<forall>y s t. delimited s \<longrightarrow> delimited t \<longrightarrow> f x @ s = f y @ t \<longrightarrow> x = y \<and> s = t)"

lemma prefix_textD:
  "prefix_text f x \<Longrightarrow> f x @ s = f y @ t \<Longrightarrow> delimited s \<Longrightarrow> delimited t \<Longrightarrow> x = y \<and> s = t"
  unfolding prefix_text_def by blast

lemma join_Cons: "js_join c (x # xs) = x @ (if xs = [] then [] else c @ js_join c xs)"
  by (cases xs) simp_all

lemma join_prefix:
  assumes code: "\<forall>x \<in> set xs. prefix_text f x" and start: "\<And>y. \<exists>c t. f y = c # t \<and> c \<noteq> 0x5D \<and> c \<noteq> 0x7D"
    and close: "close = 0x5D \<or> close = (0x7D :: 16 word)"
    and "js_join [0x2C] (map f xs) @ close # s = js_join [0x2C] (map f ys) @ close # t"
  shows "xs = ys \<and> s = t"
  using assms(1,4)
proof (induction xs arbitrary: ys)
  case Nil
  show ?case
  proof (cases ys)
    case (Cons y zs)
    with Nil start [of y] close show ?thesis by (auto simp: join_Cons)
  qed (use Nil in simp)
next
  case (Cons x xs)
  let ?tail = "\<lambda>zs u. (if zs = [] then [] else 0x2C # js_join [0x2C] (map f zs)) @ close # u"
  show ?case
  proof (cases ys)
    case Nil
    with Cons.prems start [of x] close show ?thesis by (auto simp: join_Cons)
  next
    case (Cons y ys')
    have d: "delimited (?tail zs u)" for zs u using close by (auto simp: delimited_def)
    from Cons.prems(2) Cons have "f x @ ?tail xs s = f y @ ?tail ys' t" by (simp add: join_Cons split: if_splits)
    with prefix_textD [of f x "?tail xs s" y "?tail ys' t"] Cons.prems(1) d
    have 1: "x = y" "?tail xs s = ?tail ys' t" by simp_all
    have "xs = ys' \<and> s = t"
    proof (cases "xs = [] \<or> ys' = []")
      case True
      with 1(2) close show ?thesis by (auto split: if_splits)
    next
      case False
      with 1(2) have "js_join [0x2C] (map f xs) @ close # s = js_join [0x2C] (map f ys') @ close # t" by simp
      with Cons.IH [of ys'] Cons.prems(1) show ?thesis by simp
    qed
    with 1(1) Cons show ?thesis by simp
  qed
qed

section \<open>Values\<close>

text \<open>A value with the keys of its objects sorted; its text without sorting.\<close>

fun sort_keys :: "json \<Rightarrow> json" where
  "sort_keys (JArr xs) = JArr (map sort_keys xs)"
| "sort_keys (JObj kvs) = JObj (sort_key fst (map (\<lambda>(k, v). (k, sort_keys v)) kvs))"
| "sort_keys JNull = JNull"
| "sort_keys (JBool b) = JBool b"
| "sort_keys (JNum n) = JNum n"
| "sort_keys (JStr s) = JStr s"

fun plain_text :: "(rat \<Rightarrow> jstring) \<Rightarrow> json \<Rightarrow> jstring" where
  "plain_text showNumber JNull = js ''null''"
| "plain_text showNumber (JBool b) = js (if b then ''true'' else ''false'')"
| "plain_text showNumber (JNum n) = showNumber n"
| "plain_text showNumber (JStr s) = quoteJSON s"
| "plain_text showNumber (JArr xs) = js ''['' @ js_join (js '','') (map (plain_text showNumber) xs) @ js '']''"
| "plain_text showNumber (JObj kvs) = js ''{'' @ js_join (js '','')
     (map (\<lambda>(k, v). quoteJSON k @ js '':'' @ plain_text showNumber v) kvs) @ js ''}''"

lemma insort_key_map: "(\<And>x. g (f x) = h x) \<Longrightarrow> map f (insort_key h x xs) = insort_key g (f x) (map f xs)"
  by (induction xs) auto

lemma sort_key_map: "(\<And>x. g (f x) = h x) \<Longrightarrow> map f (sort_key h xs) = sort_key g (map f xs)"
  by (induction xs) (simp_all add: insort_key_map [of g f h])

lemma stableJson_sorted: "stableJson showNumber j = plain_text showNumber (sort_keys j)"
proof (induction j)
  case (JArr xs)
  then show ?case by (simp cong: map_cong)
next
  case (JObj kvs)
  let ?text = "\<lambda>(k, v). quoteJSON k @ js '':'' @ plain_text showNumber v"
  have 1: "map (\<lambda>(k, v). (k, quoteJSON k @ js '':'' @ stableJson showNumber v)) kvs
    = map (\<lambda>kv. (fst kv, ?text kv)) (map (\<lambda>(k, v). (k, sort_keys v)) kvs)"
    using JObj by (auto simp: case_prod_beta)
  have 2: "map snd (sort_key fst (map (\<lambda>kv. (fst kv, ?text kv)) ms)) = map ?text (sort_key fst ms)" for ms
    by (simp add: sort_key_map [of fst "\<lambda>kv. (fst kv, ?text kv)" fst ms, symmetric] comp_def)
  show ?case unfolding stableJson.simps sort_keys.simps plain_text.simps 1 2 ..
qed simp_all

text \<open>The texts of numbers: distinct, and of digits, signs, points and exponents.\<close>

definition number_unit :: "16 word \<Rightarrow> bool" where
  "number_unit c \<longleftrightarrow> is_digit c \<or> c = 0x2B \<or> c = 0x2D \<or> c = 0x2E \<or> c = 0x65"

definition number_text :: "(rat \<Rightarrow> jstring) \<Rightarrow> bool" where
  "number_text showNumber \<longleftrightarrow> inj showNumber \<and> (\<forall>n. showNumber n \<noteq> [] \<and> list_all number_unit (showNumber n)
     \<and> hd (showNumber n) \<noteq> 0x65)"

lemma number_prefix:
  assumes "number_text showNumber" "delimited s" "delimited t" "showNumber m @ s = showNumber n @ t"
  shows "m = n \<and> s = t"
proof -
  have stop: "takeWhile number_unit u = []" if "delimited u" for u
    using that by (cases u) (auto simp: delimited_def number_unit_def is_digit_def)
  have "takeWhile number_unit (showNumber k @ u) = showNumber k" if "delimited u" for k u
    using assms(1) stop [OF that] by (simp add: number_text_def list_all_iff takeWhile_append2)
  with assms have "showNumber m = showNumber n" by metis
  with assms show ?thesis by (auto simp: number_text_def inj_def)
qed

text \<open>The first code unit tells the constructors apart.\<close>

definition first_units :: "json \<Rightarrow> 16 word set" where
  "first_units j = (case j of JNull \<Rightarrow> {0x6E} | JBool b \<Rightarrow> {if b then 0x74 else 0x66}
     | JNum n \<Rightarrow> {c. number_unit c \<and> c \<noteq> 0x65} | JStr s \<Rightarrow> {0x22} | JArr xs \<Rightarrow> {0x5B} | JObj kvs \<Rightarrow> {0x7B})"

lemma plain_text_first:
  assumes "number_text showNumber"
  shows "\<exists>c t. plain_text showNumber j = c # t \<and> c \<in> first_units j \<and> c \<noteq> 0x5D \<and> c \<noteq> 0x7D"
proof (cases j)
  case (JNum n)
  with assms show ?thesis
    by (cases "showNumber n") (auto simp: number_text_def first_units_def number_unit_def is_digit_def dest: spec [of _ n])
qed (auto simp: first_units_def js_def quoteJSON_def)

lemma same_first:
  assumes "number_text showNumber" "plain_text showNumber i @ s = plain_text showNumber j @ t"
  shows "\<exists>c. c \<in> first_units i \<and> c \<in> first_units j"
  using plain_text_first [OF assms(1), of i] plain_text_first [OF assms(1), of j] assms(2) by auto

lemma member_prefix:
  assumes "prefix_text (plain_text showNumber) v"
  shows "prefix_text (\<lambda>(k, v). quoteJSON k @ js '':'' @ plain_text showNumber v) (k, v)"
  unfolding prefix_text_def
proof (intro allI impI)
  fix y s t
  assume "delimited s" "delimited t"
    and eq: "(case (k, v) of (k, v) \<Rightarrow> quoteJSON k @ js '':'' @ plain_text showNumber v) @ s
      = (case y of (k, v) \<Rightarrow> quoteJSON k @ js '':'' @ plain_text showNumber v) @ t"
  obtain k' v' where y: "y = (k', v')" by fastforce
  from eq y quote_prefix [of k "js '':'' @ plain_text showNumber v @ s" k' "js '':'' @ plain_text showNumber v' @ t"]
  have "k = k'" "plain_text showNumber v @ s = plain_text showNumber v' @ t" by auto
  with assms y \<open>delimited s\<close> \<open>delimited t\<close> show "(k, v) = y \<and> s = t" unfolding prefix_text_def by auto
qed

lemma plain_text_prefix:
  assumes n: "number_text showNumber"
  shows "prefix_text (plain_text showNumber) j"
proof (induction j)
  case (JNum m)
  show ?case unfolding prefix_text_def
  proof (intro allI impI)
    fix y s t
    assume d: "delimited s" "delimited t" and eq: "plain_text showNumber (JNum m) @ s = plain_text showNumber y @ t"
    from same_first [OF n eq] obtain k where "y = JNum k"
      by (cases y) (auto simp: first_units_def number_unit_def is_digit_def split: if_splits)
    with eq d number_prefix [OF n d] show "JNum m = y \<and> s = t" by simp
  qed
next
  case (JStr u)
  show ?case unfolding prefix_text_def
  proof (intro allI impI)
    fix y s t
    assume eq: "plain_text showNumber (JStr u) @ s = plain_text showNumber y @ t"
    from same_first [OF n eq] obtain k where "y = JStr k"
      by (cases y) (auto simp: first_units_def number_unit_def is_digit_def split: if_splits)
    with eq quote_prefix [of u s k t] show "JStr u = y \<and> s = t" by simp
  qed
next
  case (JArr xs)
  show ?case unfolding prefix_text_def
  proof (intro allI impI)
    fix y s t
    assume eq: "plain_text showNumber (JArr xs) @ s = plain_text showNumber y @ t"
    from same_first [OF n eq] obtain ys where y: "y = JArr ys"
      by (cases y) (auto simp: first_units_def number_unit_def is_digit_def split: if_splits)
    have "\<exists>c t. plain_text showNumber j = c # t \<and> c \<noteq> 0x5D \<and> c \<noteq> 0x7D" for j
      using plain_text_first [OF n, of j] by blast
    note join = join_prefix [where close = "0x5D" and f = "plain_text showNumber", OF _ this disjI1 [OF refl]]
    have "js_join [0x2C] (map (plain_text showNumber) xs) @ 0x5D # s = js_join [0x2C] (map (plain_text showNumber) ys) @ 0x5D # t"
      using eq y by (simp add: js_def)
    from join [OF _ this] JArr y show "JArr xs = y \<and> s = t" by simp
  qed
next
  case (JObj kvs)
  show ?case unfolding prefix_text_def
  proof (intro allI impI)
    fix y s t
    assume eq: "plain_text showNumber (JObj kvs) @ s = plain_text showNumber y @ t"
    from same_first [OF n eq] obtain ys where y: "y = JObj ys"
      by (cases y) (auto simp: first_units_def number_unit_def is_digit_def split: if_splits)
    let ?f = "\<lambda>(k, v). quoteJSON k @ js '':'' @ plain_text showNumber v"
    have "\<exists>c t. ?f kv = c # t \<and> c \<noteq> 0x5D \<and> c \<noteq> 0x7D" for kv
      by (cases kv) (simp add: quoteJSON_def)
    moreover have "\<forall>kv \<in> set kvs. prefix_text ?f kv"
      using JObj member_prefix by (auto simp: snds.simps)
    ultimately show "JObj kvs = y \<and> s = t"
      using join_prefix [of kvs ?f "0x7D" s ys t] eq y by (simp add: js_def)
  qed
next
  case JNull
  show ?case unfolding prefix_text_def
  proof (intro allI impI)
    fix y s t
    assume eq: "plain_text showNumber JNull @ s = plain_text showNumber y @ t"
    from same_first [OF n eq] have "y = JNull"
      by (cases y) (auto simp: first_units_def number_unit_def is_digit_def split: if_splits)
    with eq show "JNull = y \<and> s = t" by simp
  qed
next
  case (JBool b)
  show ?case unfolding prefix_text_def
  proof (intro allI impI)
    fix y s t
    assume eq: "plain_text showNumber (JBool b) @ s = plain_text showNumber y @ t"
    from same_first [OF n eq] have "y = JBool b"
      by (cases y) (auto simp: first_units_def number_unit_def is_digit_def split: if_splits)
    with eq show "JBool b = y \<and> s = t" by simp
  qed
qed

lemma stableJson_inject:
  assumes "number_text showNumber"
  shows "stableJson showNumber a = stableJson showNumber b \<longleftrightarrow> sort_keys a = sort_keys b"
proof
  assume "stableJson showNumber a = stableJson showNumber b"
  with plain_text_prefix [OF assms, of "sort_keys a"] show "sort_keys a = sort_keys b"
    unfolding prefix_text_def stableJson_sorted by (metis append_Nil2 delimited_def)
qed (simp add: stableJson_sorted)

section \<open>Commands\<close>

text \<open>Objects with distinct keys and equal sorted values have equal sorted fields.\<close>

lemma map_of_sort_key: "distinct (map fst kvs) \<Longrightarrow> map_of (sort_key fst kvs) = map_of kvs"
  by (subst map_of_inject_set) (simp_all add: distinct_map inj_on_def)

definition orElse :: "'a option \<Rightarrow> 'a option \<Rightarrow> 'a option" where
  "orElse a b = (case a of None \<Rightarrow> b | Some v \<Rightarrow> Some v)"

lemma orElse_simps [simp]: "orElse None b = b" "orElse (Some v) b = Some v" "orElse a None = a"
  by (simp_all add: orElse_def split: option.split)

lemma lookup_append: "map_of (xs @ ys) k = orElse (map_of xs k) (map_of ys k)"
  by (simp add: orElse_def map_add_def split: option.split)

lemma map_of_jopt: "map_of (jopt k f v) k' = (if k' = k then map_option f v else None)"
  by (simp add: jopt_def split: option.split)

lemma keys_jopt: "map fst (jopt k f v) = (if v = None then [] else [k])"
  by (simp add: jopt_def split: option.split)

lemma optional_key: "x \<in> set (if c then [] else [k]) \<longleftrightarrow> \<not> c \<and> x = k" "distinct (if c then [] else [k])"
  by simp_all

lemma option_inject: "(\<And>a b. f a = f b \<longleftrightarrow> a = b) \<Longrightarrow> map_option f x = map_option f y \<longleftrightarrow> x = y"
  by (cases x; cases y) auto

lemma list_inject: "(\<And>a b. f a = f b \<longleftrightarrow> a = b) \<Longrightarrow> map f xs = map f ys \<longleftrightarrow> xs = ys"
  by (simp add: inj_def inj_map_eq_map)

lemma sorted_fields:
  assumes "sort_keys (JObj kvs) = sort_keys (JObj kvs')" "distinct (map fst kvs)" "distinct (map fst kvs')"
  shows "map_option sort_keys (map_of kvs k) = map_option sort_keys (map_of kvs' k)"
proof -
  let ?m = "map (\<lambda>(k, v). (k, sort_keys v))"
  have keys: "map fst (?m xs) = map fst xs" for xs by (induction xs) auto
  have "map_of (sort_key fst (?m kvs)) = map_of (?m kvs)" "map_of (sort_key fst (?m kvs')) = map_of (?m kvs')"
    using assms(2,3) by (intro map_of_sort_key; simp only: keys)+
  with assms(1) have "map_of (?m kvs) k = map_of (?m kvs') k" by simp
  then show ?thesis by (simp add: map_of_map)
qed

lemmas lookup_simps = lookup_append map_of_jopt option.map_comp comp_def keys_jopt optional_key option_inject list_inject

text \<open>Every kind of object of a command is determined by its fields.\<close>

lemma json_type_reference_inject [simp]: "sort_keys (json_type_reference t) = sort_keys (json_type_reference u) \<longleftrightarrow> t = u"
proof
  assume eq: "sort_keys (json_type_reference t) = sort_keys (json_type_reference u)"
  note f = sorted_fields [OF eq [unfolded json_type_reference_def]]
  show "t = u"
    using f [of "js ''name''"] f [of "js ''elementId''"] f [of "js ''collection''"] f [of "js ''nullable''"]
    by (simp add: lookup_simps del: map_of_append)
qed simp

lemma json_parameter_inject [simp]: "sort_keys (json_parameter t) = sort_keys (json_parameter u) \<longleftrightarrow> t = u"
proof
  assume eq: "sort_keys (json_parameter t) = sort_keys (json_parameter u)"
  note f = sorted_fields [OF eq [unfolded json_parameter_def]]
  show "t = u"
    using f [of "js ''id''"] f [of "js ''name''"] f [of "js ''type''"] f [of "js ''defaultValue''"]
    by (simp add: lookup_simps del: map_of_append)
qed simp

lemma visibility_text_inject [simp]: "visibility_text v = visibility_text w \<longleftrightarrow> v = w"
  by (cases v; cases w) (simp_all add: visibility_text_def)

lemma json_attribute_inject [simp]: "sort_keys (json_attribute t) = sort_keys (json_attribute u) \<longleftrightarrow> t = u"
proof
  assume eq: "sort_keys (json_attribute t) = sort_keys (json_attribute u)"
  note f = sorted_fields [OF eq [unfolded json_attribute_def]]
  show "t = u"
    using f [of "js ''id''"] f [of "js ''name''"] f [of "js ''visibility''"] f [of "js ''type''"] f [of "js ''isStatic''"]
      f [of "js ''isReadOnly''"] f [of "js ''defaultValue''"]
    by (simp add: lookup_simps del: map_of_append)
qed simp

lemma json_operation_inject [simp]: "sort_keys (json_operation t) = sort_keys (json_operation u) \<longleftrightarrow> t = u"
proof
  assume eq: "sort_keys (json_operation t) = sort_keys (json_operation u)"
  note f = sorted_fields [OF eq [unfolded json_operation_def]]
  show "t = u"
    using f [of "js ''id''"] f [of "js ''name''"] f [of "js ''visibility''"] f [of "js ''parameters''"]
      f [of "js ''returnType''"] f [of "js ''isAbstract''"] f [of "js ''isStatic''"]
    by (simp add: lookup_simps)
qed simp

lemma json_classifier_inject [simp]: "sort_keys (json_classifier t) = sort_keys (json_classifier u) \<longleftrightarrow> t = u"
proof
  assume eq: "sort_keys (json_classifier t) = sort_keys (json_classifier u)"
  note f = sorted_fields [OF eq [unfolded json_classifier_def]]
  show "t = u"
    using f [of "js ''id''"] f [of "js ''name''"] f [of "js ''kind''"] f [of "js ''isAbstract''"] f [of "js ''stereotypes''"]
      f [of "js ''attributes''"] f [of "js ''operations''"]
    by (cases "cl_kind t"; cases "cl_kind u") (simp_all add: lookup_simps kind_fields_def del: map_of_append)
qed simp

lemma json_position_inject [simp]: "sort_keys (json_position t) = sort_keys (json_position u) \<longleftrightarrow> t = u"
proof
  assume eq: "sort_keys (json_position t) = sort_keys (json_position u)"
  note f = sorted_fields [OF eq [unfolded json_position_def]]
  show "t = u"
    using f [of "js ''elementId''"] f [of "js ''x''"] f [of "js ''y''"] f [of "js ''width''"] f [of "js ''height''"]
    by (simp add: lookup_simps del: map_of_append)
qed simp

lemma json_end_inject [simp]: "sort_keys (json_end t) = sort_keys (json_end u) \<longleftrightarrow> t = u"
proof
  assume eq: "sort_keys (json_end t) = sort_keys (json_end u)"
  note f = sorted_fields [OF eq [unfolded json_end_def]]
  show "t = u"
    using f [of "js ''elementId''"] f [of "js ''role''"] f [of "js ''multiplicity''"] f [of "js ''navigable''"]
    by simp
qed simp

lemma json_relationship_inject [simp]: "sort_keys (json_relationship t) = sort_keys (json_relationship u) \<longleftrightarrow> t = u"
proof
  assume eq: "sort_keys (json_relationship t) = sort_keys (json_relationship u)"
  note f = sorted_fields [OF eq [unfolded json_relationship_def]]
  show "t = u"
    using f [of "js ''id''"] f [of "js ''kind''"] f [of "js ''name''"] f [of "js ''source''"] f [of "js ''target''"]
      f [of "js ''associationClassId''"]
    by (simp add: lookup_simps del: map_of_append)
qed simp

lemma command_keys: "distinct (map fst (command_fields b)) \<and> js ''timestamp'' \<notin> fst ` set (command_fields b)
    \<and> js ''type'' \<notin> fst ` set (command_fields b)"
  by (cases b) simp_all

lemma command_fields_inject:
  assumes "command_type a = command_type b"
    and "\<And>k. map_option sort_keys (map_of (command_fields a) k) = map_option sort_keys (map_of (command_fields b) k)"
  shows "a = b"
proof -
  note f = assms(2) [of "js ''classifier''"] assms(2) [of "js ''position''"] assms(2) [of "js ''elementId''"]
    assms(2) [of "js ''sourceElementId''"] assms(2) [of "js ''classifierId''"] assms(2) [of "js ''attributeId''"]
    assms(2) [of "js ''attribute''"] assms(2) [of "js ''operationId''"] assms(2) [of "js ''operation''"]
    assms(2) [of "js ''relationshipId''"] assms(2) [of "js ''relationship''"]
  have position: "x = x' \<and> y = y'" if "sort_keys (JObj [(js ''x'', JNum x), (js ''y'', JNum y)]) =
      sort_keys (JObj [(js ''x'', JNum x'), (js ''y'', JNum y')])" for x y x' y'
    using sorted_fields [OF that, of "js ''x''"] sorted_fields [OF that, of "js ''y''"] by simp
  show ?thesis
  proof (cases "\<exists>i x y. a = ClassifierMove i x y")
    case True
    then obtain i x y where a: "a = ClassifierMove i x y" by blast
    with assms(1) obtain j x' y' where b: "b = ClassifierMove j x' y'" by (cases b) simp_all
    from f a b position [of x y x' y'] show ?thesis by (simp del: sort_keys.simps(2))
  next
    case False
    then show ?thesis
      by (cases a; cases b; (use assms(1) in \<open>simp; fail\<close>)?) (use False f in \<open>simp_all\<close>)
  qed
qed

lemma json_command_inject [simp]: "sort_keys (json_command c) = sort_keys (json_command d) \<longleftrightarrow> c = d"
proof
  assume eq: "sort_keys (json_command c) = sort_keys (json_command d)"
  have "distinct (map fst ([(js ''timestamp'', JStr (cmd_timestamp c)), (js ''type'', JStr (command_type (cmd_body c)))]
     @ command_fields (cmd_body c)))" for c :: uml_command
    using command_keys [of "cmd_body c"] by simp
  note f = sorted_fields [OF eq [unfolded json_command_def] this this]
  have "cmd_timestamp c = cmd_timestamp d" "command_type (cmd_body c) = command_type (cmd_body d)"
    using f [of "js ''timestamp''"] f [of "js ''type''"] by simp_all
  moreover have "map_option sort_keys (map_of (command_fields (cmd_body c)) k)
      = map_option sort_keys (map_of (command_fields (cmd_body d)) k)" for k
  proof (cases "k \<in> {js ''timestamp'', js ''type''}")
    case True
    then have "map_of (command_fields b) k = None" for b
      unfolding map_of_eq_None_iff using command_keys [of b] by (metis insertE singletonD)
    then show ?thesis by simp
  next
    case False
    with f [of k] show ?thesis by simp
  qed
  ultimately show "c = d" using command_fields_inject [of "cmd_body c" "cmd_body d"] by simp
qed simp

lemma fingerprint_text_inject:
  assumes "number_text showNumber"
  shows "stableJson showNumber (JObj [(js ''baseRevision'', JNum (of_nat r)), (js ''command'', json_command c)])
      = stableJson showNumber (JObj [(js ''baseRevision'', JNum (of_nat r')), (js ''command'', json_command c')])
    \<longleftrightarrow> r = r' \<and> c = c'"
proof
  assume "stableJson showNumber (JObj [(js ''baseRevision'', JNum (of_nat r)), (js ''command'', json_command c)])
      = stableJson showNumber (JObj [(js ''baseRevision'', JNum (of_nat r')), (js ''command'', json_command c')])"
  then have eq: "sort_keys (JObj [(js ''baseRevision'', JNum (of_nat r)), (js ''command'', json_command c)])
    = sort_keys (JObj [(js ''baseRevision'', JNum (of_nat r')), (js ''command'', json_command c')])"
    unfolding stableJson_inject [OF assms] .
  from sorted_fields [OF eq, of "js ''baseRevision''"] sorted_fields [OF eq, of "js ''command''"]
  show "r = r' \<and> c = c'" by simp
qed simp

end
