(* ===== verification/Document_Properties.thy ===== *)
theory Document_Properties
  imports Document_Examples Command_Text_Laws
begin

text \<open>
  Properties of projects, stored documents and editing commands over all histories of requests
  (\<^theory_text>\<open>Document_History\<close>), applied to the small history of
  \<^theory_text>\<open>Document_Examples\<close>.
\<close>

text \<open>C29. Whatever requests ran, and however stale their reads were: the revisions of a document are
  numbered from zero to its current one, each stored once and in this order, the document is the last of
  them, and every one is a well formed model that carries its own number.\<close>

theorem documents_keep_their_history:
  assumes "server_history isUUID schemaIn schema lowerEs lower showNumber sha256 (db # hs)"
    and "x \<in> set (db_documents db)"
  shows "map rv_revision (revisions_of (dc_id x) db) = [0..<Suc (dc_revision x)]
    \<and> models_of (dc_id x) db ! dc_revision x = dc_canonicalModel x
    \<and> (\<forall>r \<in> {0..dc_revision x}. well_formed lowerEs (models_of (dc_id x) db ! r)
         \<and> me_revision (cm_metadata (models_of (dc_id x) db ! r)) = int r)"
  using server_history_inv [OF assms(1)] assms(2)
  by (auto simp: server_inv_def document_ok_def stored_model_ok_def dest!: history_okD(2))

theorem documents_keep_their_history_witness:
  "map rv_revision (revisions_of shop_diagram command_db) = [0, 1]
     \<and> models_of shop_diagram command_db ! 1 = product_model \<and> well_formed id (models_of shop_diagram command_db ! 1)"
proof -
  note h = documents_keep_their_history [OF command_history, of "row_of 1 product_model 30"]
  have "row_of 1 product_model 30 \<in> set (db_documents command_db)" by (simp add: command_db_def)
  from h [OF this] have "map rv_revision (revisions_of shop_diagram command_db) = [0..<2]"
    "models_of shop_diagram command_db ! 1 = product_model"
    and all: "\<forall>r \<in> {0..1}. well_formed id (models_of shop_diagram command_db ! r)"
    by (simp_all add: row_of_def numeral_2_eq_2)
  moreover from all have "well_formed id (models_of shop_diagram command_db ! 1)" by (rule bspec) simp
  ultimately show ?thesis by (simp add: upt_rec)
qed

text \<open>C30. Every stored operation is a step of its document: executing its command on the model of its
  base revision and normalising the result gives the model of its resulting revision. No two operations
  of a document share an identifier or a revision.\<close>

theorem operations_replay:
  assumes "server_history isUUID schemaIn schema lowerEs lower showNumber sha256 (db # hs)"
    and "q \<in> set (db_operations db)"
  shows "(\<exists>x n. x \<in> set (db_documents db) \<and> dc_id x = ox_documentId q
      \<and> ox_resultingRevision q = ox_baseRevision q + 1 \<and> ox_resultingRevision q \<le> dc_revision x
      \<and> execute (models_of (dc_id x) db ! ox_baseRevision q) (ox_command q) = Inr n
      \<and> validateAndNormalize schema schema lowerEs n (ox_resultingRevision q) (ox_committedAt q)
          (Some (dc_projectId x, dc_id x)) = Inr (models_of (dc_id x) db ! ox_resultingRevision q))
    \<and> {q' \<in> set (db_operations db). ox_documentId q' = ox_documentId q
         \<and> (ox_operationId q' = ox_operationId q \<or> ox_resultingRevision q' = ox_resultingRevision q)} = {q}"
proof -
  from server_history_inv [OF assms(1)] have h: "history_ok schema lowerEs db" by (simp add: server_inv_def)
  have "q' = q" if "q' \<in> set (db_operations db)" "ox_documentId q' = ox_documentId q"
    "ox_operationId q' = ox_operationId q \<or> ox_resultingRevision q' = ox_resultingRevision q" for q'
    using history_okD(5,6) [OF h] that assms(2) by (auto simp: distinct_map inj_on_def)
  with history_okD(4) [OF h assms(2)] assms(2) show ?thesis
    unfolding operation_ok_def by auto
qed

theorem operations_replay_witness:
  "\<exists>n. execute (models_of shop_diagram command_db ! 0) add_product = Inr n
     \<and> validateAndNormalize accept_all accept_all id n 1 30 (Some (shop_project, shop_diagram))
         = Inr (models_of shop_diagram command_db ! 1)"
proof -
  have row: "add_product_row \<in> set (db_operations command_db)" by (simp add: command_db_def)
  from operations_replay [OF command_history row] obtain x n where
    "x \<in> set (db_documents command_db)" "execute (models_of (dc_id x) command_db ! ox_baseRevision add_product_row)
       (ox_command add_product_row) = Inr n"
    "validateAndNormalize accept_all accept_all id n (ox_resultingRevision add_product_row) (ox_committedAt add_product_row)
       (Some (dc_projectId x, dc_id x)) = Inr (models_of (dc_id x) command_db ! ox_resultingRevision add_product_row)"
    by blast
  moreover from this(1) have "x = row_of 1 product_model 30" by (simp add: command_db_def)
  ultimately show ?thesis
    by (simp add: row_of_def add_product_row_def command_operation_def add_product_input_def input_of_def)
qed

text \<open>C31. The tables implement a store of histories: seen as a map from documents to the list of their
  models, every step of the server leaves the map alone, starts a document with one model, appends one
  model to one document, or forgets documents.\<close>

theorem tables_implement_document_store:
  assumes "server_history isUUID schemaIn schema lowerEs lower showNumber sha256 (db' # db # hs)"
  shows "store_step (document_store db) (document_store db')"
  using assms by (rule history_store_step)

theorem tables_implement_document_store_witness:
  "store_step [shop_diagram \<mapsto> [order_model]] [shop_diagram \<mapsto> [order_model, product_model]]"
proof -
  have "document_store document_db = [shop_diagram \<mapsto> [order_model]]"
    "document_store command_db = [shop_diagram \<mapsto> [order_model, product_model]]"
    by (auto simp: document_store_def document_db_def command_db_def row_of_def models_of_def revisions_of_def
        revision_of_def fun_eq_iff)
  with tables_implement_document_store [OF command_history] show ?thesis by simp
qed

text \<open>C32. No update is lost. A command that was not seen before and succeeds was computed from the
  model that it replaces, at the revision it named, even when the databases it read were older; its
  sender is a member of the project then, none of the elements it needs was locked by another socket,
  and exactly this document changes, to the next revision. In all other cases nothing is written.\<close>

theorem command_applies_to_current_revision:
  assumes "server_history isUUID schemaIn schema lowerEs lower showNumber sha256 (db # hs)"
    and "dbDocument \<in> set (db # hs)" and "dbOperation \<in> set (db # hs)"
    and "process isUUID schema lowerEs showNumber sha256 now rowId identity input socketId locks dbDocument dbOperation db
      = (locks', db', r)"
  shows "(db' = db \<and> (case r of Inl e \<Rightarrow> True | Inr p \<Rightarrow> pc_idempotent p))
    \<or> (\<exists>x y n ids. findDocument (dm_documentId input) db = Some x \<and> dc_revision x = dm_baseRevision input
        \<and> findMember (dc_projectId x) (ci_userId identity) db \<noteq> None
        \<and> affectedElementIds (dc_canonicalModel x) (dm_command input) = Inr ids
        \<and> hasLockOwnedByAnotherSocket now (dm_documentId input) ids socketId locks = (locks', False)
        \<and> execute (dc_canonicalModel x) (dm_command input) = Inr n
        \<and> validateAndNormalize schema schema lowerEs n (dm_baseRevision input + 1) now
            (Some (dc_projectId x, dm_documentId input)) = Inr (dc_canonicalModel y)
        \<and> dc_revision y = dc_revision x + 1
        \<and> db_documents db' = map (\<lambda>z. if dc_id z = dc_id x then y else z) (db_documents db)
        \<and> r = Inr (accepted input (map cl_id (dg_elements (cm_diagram n))) now))"
proof -
  from server_history_inv [OF assms(1)] assms(2) have h: "history_ok schema lowerEs db" "agrees dbDocument db"
    by (auto simp: server_inv_def)
  from process_cases [OF assms(4)] show ?thesis
  proof (elim disjE conjE)
    assume "db' = db" "\<forall>p. r = Inr p \<longrightarrow> pc_idempotent p"
    then show ?thesis by (simp split: sum.split)
  next
    assume "command_effect isUUID schema lowerEs now rowId identity input
      (commandFingerprint showNumber sha256 (dm_baseRevision input) (dm_command input)) socketId locks
      dbDocument dbOperation db locks' db' r"
    from command_effect_advances [OF this h] obtain x y n ids where
      "findDocument (dm_documentId input) db = Some x" "dc_revision x = dm_baseRevision input"
      "findMember (dc_projectId x) (ci_userId identity) db \<noteq> None"
      "affectedElementIds (dc_canonicalModel x) (dm_command input) = Inr ids"
      "hasLockOwnedByAnotherSocket now (dm_documentId input) ids socketId locks = (locks', False)"
      "execute (dc_canonicalModel x) (dm_command input) = Inr n"
      "validateAndNormalize schema schema lowerEs n (dm_baseRevision input + 1) now
        (Some (dc_projectId x, dm_documentId input)) = Inr (dc_canonicalModel y)"
      and a: "advances db x y (uuid_key (ci_userId identity)) [command_operation rowId identity input
        (commandFingerprint showNumber sha256 (dm_baseRevision input) (dm_command input)) now] db'"
      and "r = Inr (accepted input (map cl_id (dg_elements (cm_diagram n))) now)" by blast
    moreover from a have "dc_revision y = dc_revision x + 1"
      "db_documents db' = map (\<lambda>z. if dc_id z = dc_id x then y else z) (db_documents db)"
      by (simp_all add: advances_def)
    ultimately show ?thesis
      by (intro disjI2 exI [of _ x] exI [of _ y] exI [of _ n] exI [of _ ids]) simp
  qed
qed

theorem command_applies_to_current_revision_witness:
  "command_db \<noteq> document_db \<and> (\<exists>y. db_documents command_db = [y] \<and> dc_revision y = 1)"
proof -
  have "db_documents command_db \<noteq> db_documents document_db" by (simp add: command_db_def document_db_def row_of_def)
  then have "command_db \<noteq> document_db" by metis
  moreover from this command_applies_to_current_revision [OF document_history _ _ command_processed]
  obtain x y where "findDocument shop_diagram document_db = Some x" "dc_revision y = dc_revision x + 1"
    "db_documents command_db = map (\<lambda>z. if dc_id z = dc_id x then y else z) (db_documents document_db)"
    by (auto simp: add_product_input_def input_of_def)
  ultimately show ?thesis
    by (auto simp: findDocument_def document_db_def row_of_def split: if_splits)
qed

text \<open>A command whose operation is stored is not run again. Its sender gets the revision and the
  time that were recorded, marked as a repetition; anybody else, or the sender with another command or
  base revision under the same identifier, gets \<open>OPERATION_ID_REUSED\<close>. Nothing is written and no
  lock is looked at.\<close>

theorem stored_operation_is_not_repeated:
  assumes "findOperation (dm_documentId input) (dm_operationId input) dbOperation = Some q"
    and "lockCommandAuthorization isUUID now identity (dm_documentId input) dbDocument = Inr x"
  shows "process isUUID schema lowerEs showNumber sha256 now rowId identity input socketId locks dbDocument dbOperation db =
    (locks, db,
     if ox_actorId q = ci_userId identity
       \<and> ox_commandFingerprint q = commandFingerprint showNumber sha256 (dm_baseRevision input) (dm_command input)
     then Inr \<lparr>pc_operationId = dm_operationId input, pc_documentId = dm_documentId input,
       pc_baseRevision = dm_baseRevision input, pc_revision = ox_resultingRevision q,
       pc_committedAt = toISOString (ox_committedAt q), pc_command = dm_command input, pc_idempotent = True,
       pc_requiresBroadcast = (ox_broadcastedAt q = None), pc_activeElementIds = []\<rparr>
     else Inl (failWith OPERATION_ID_REUSED))"
  using assms
  by (simp add: process_def processInTransaction_def prepareCommand_def resolveExisting_def)

lemma add_product_found: "findOperation shop_diagram (js ''c1'') command_db = Some add_product_row"
  by (simp add: findOperation_def command_db_def add_product_row_def command_operation_def add_product_input_def input_of_def)

lemma ann_authorized: "lockCommandAuthorization (\<lambda>_. True) 40 ann_identity shop_diagram command_db = Inr (row_of 1 product_model 30)"
  by (simp add: lockCommandAuthorization_def ann_identity_def ann_active command_db_def document_db_def project_db_def
      row_of_def findDocument_def findProject_def findMember_def)

definition sample_locks :: lock_store where
  "sample_locks = empty_lock_store\<lparr>st_nextTimer := 7\<rparr>"

theorem stored_operation_is_not_repeated_witness:
  "process (\<lambda>_. True) accept_all id no_number id 40 (js ''f1'') ann_identity add_product_input (js ''s1'') sample_locks
     command_db command_db command_db
   = (sample_locks, command_db, Inr ((accepted add_product_input [] 30)\<lparr>pc_idempotent := True\<rparr>))"
  using stored_operation_is_not_repeated [of add_product_input command_db add_product_row "\<lambda>_. True" 40 ann_identity
      command_db "row_of 1 product_model 30" accept_all id no_number id "js ''f1''" "js ''s1''" sample_locks command_db]
    add_product_found ann_authorized
  by (simp add: add_product_input_def input_of_def add_product_row_def command_operation_def ann_identity_def accepted_def)

text \<open>C33. Nothing about projects, members and documents is written without an active session. A
  request that creates, replaces or deletes a document, or a command, comes from a member of its project,
  and one that changes an existing project from its owner.\<close>

theorem writes_are_authorized:
  "(fst (createDocument isUUID schemaIn schema lowerEs now did pid uid sid name body db) \<noteq> db \<longrightarrow>
      sessionLocked isUUID now uid sid db \<and> findMember pid uid db \<noteq> None)
   \<and> (fst (snd (updateDocument isUUID schemaIn schema lowerEs now busy pid did uid sid rename expected body locks dbRead db)) \<noteq> db \<longrightarrow>
      sessionLocked isUUID now uid sid dbRead \<and> findMember pid uid dbRead \<noteq> None \<and> findMember pid uid db \<noteq> None)
   \<and> (fst (deleteDocument isUUID now busy pid did uid sid db) \<noteq> db \<longrightarrow>
      sessionLocked isUUID now uid sid db \<and> findMember pid uid db \<noteq> None)
   \<and> (fst (snd (process isUUID schema lowerEs showNumber sha256 now rowId identity input socketId locks dbRead dbOperation db)) \<noteq> db \<longrightarrow>
      sessionLocked isUUID now (ci_userId identity) (ci_sessionId identity) dbRead
      \<and> (\<exists>x. findDocument (dm_documentId input) db = Some x \<and> findMember (dc_projectId x) (ci_userId identity) db \<noteq> None))
   \<and> (fst (run_project isUUID lower now uid sid op' db) \<noteq> db \<longrightarrow> sessionLocked isUUID now uid sid db
      \<and> (\<forall>pid. op_project op' = Some pid \<longrightarrow> map_option mb_role (findMember pid uid db) = Some Owner))"
  (is "?create \<and> ?update \<and> ?delete \<and> ?process \<and> ?project")
proof -
  have locked: "sessionLocked isUUID now uid sid d \<and> findMember pid uid d \<noteq> None"
    if "lockRequest isUUID now pid uid sid d = Inr ()" for d
    using that by (simp add: lockRequest_def lockCollaboratorMembership_def res_simps)
  obtain db1 r1 where c: "createDocument isUUID schemaIn schema lowerEs now did pid uid sid name body db = (db1, r1)" by fastforce
  obtain l2 db2 c2 r2 where u: "updateDocument isUUID schemaIn schema lowerEs now busy pid did uid sid rename expected body
    locks dbRead db = (l2, db2, c2, r2)" by (metis prod_cases4)
  obtain db3 c3 r3 where d: "deleteDocument isUUID now busy pid did uid sid db = (db3, c3, r3)" by (metis prod_cases3)
  obtain l4 db4 r4 where p: "process isUUID schema lowerEs showNumber sha256 now rowId identity input socketId locks
    dbRead dbOperation db = (l4, db4, r4)" by (metis prod_cases3)
  have ?create using createDocument_cases [OF c] locked by (auto simp: c)
  moreover have "lockRequest isUUID now pid uid sid dbRead = Inr ()"
    if "checkUpdate isUUID now pid did uid sid expected locks dbRead = (l2, Inr ())"
    using that by (cases "lockRequest isUUID now pid uid sid dbRead") (simp_all add: checkUpdate_def)
  then have ?update using updateDocument_cases [OF u] locked by (auto simp: u)
  moreover have ?delete using deleteDocument_cases [OF d] locked by (auto simp: d)
  moreover have ?process using process_cases [OF p]
    by (auto simp: p command_effect_def lockCommandAuthorization_def res_simps)
  moreover have ?project using change_authorized by blast
  ultimately show ?thesis by blast
qed

theorem writes_are_authorized_witness:
  "sessionLocked (\<lambda>_. True) 20 ann ann_session project_db \<and> findMember shop_project ann project_db \<noteq> None
   \<and> sessionLocked (\<lambda>_. True) 30 ann ann_session document_db \<and> findMember shop_project ann document_db \<noteq> None
   \<and> map_option mb_role (findMember shop_project ann document_db) = Some Owner"
proof -
  have read: "lockRequest (\<lambda>_. True) 30 shop_project ann ann_session document_db = Inr ()"
    "findProjectDocument shop_project shop_diagram document_db = Some (row_of 0 order_model 20)"
    "findProject shop_project document_db \<noteq> None" "assertOwner shop_project ann document_db = Inr ()"
    by (simp_all add: lockRequest_def ann_active lockCollaboratorMembership_def findProject_def findMember_def
        findProjectDocument_def assertOwner_def document_db_def project_db_def row_of_def)
  have found: "findDocument shop_diagram document_db = Some (row_of 0 order_model 20)"
    "findMember shop_project ann document_db \<noteq> None"
    by (simp_all add: findDocument_def findMember_def document_db_def project_db_def row_of_def)
  have rows: "db_documents document_db = [row_of 0 order_model 20]" "db_projects document_db \<noteq> []"
    "db_revisions document_db = [revision_of 0 order_model]"
    by (simp_all add: document_db_def project_db_def)
  have create: "fst (createDocument (\<lambda>_. True) accept_all accept_all id 20 shop_diagram shop_project ann ann_session (js ''Main'')
     order_body project_db) \<noteq> project_db"
    unfolding document_created by (simp add: document_db_def project_db_def first_db_def)
  have unlocked: "hasAnyLock 30 shop_diagram ids empty_lock_store = (empty_lock_store, False)" for ids
    by (simp add: hasAnyLock_def expireDocument_nothing empty_lock_store_def lockAt_def nestedGet_def
        inner_def documentLocks_def)
  let ?moved = "document_db\<lparr>db_documents := [row_of 1 moved_model 30]\<rparr>"
  have cas: "compareAndSetDocument shop_diagram 0 ann (\<lambda>x. dc_projectId x = shop_project) (\<lambda>x. x\<lparr>dc_name := dc_name x,
      dc_canonicalModel := moved_model, dc_updatedById := ann, dc_updatedAt := 30\<rparr>) document_db = Updated ?moved"
    using found by (simp add: compareAndSetDocument_def Let_def nameTaken_def max_integer_column_def rows row_of_def)
  have "findDocument shop_diagram ?moved = Some (row_of 1 moved_model 30)"
    by (simp add: findDocument_def row_of_def)
  with cas have "db_revisions (fst (commitUpdate 30 shop_project shop_diagram ann 0 None moved_model document_db))
      \<noteq> db_revisions document_db"
    by (simp add: commitUpdate_def insertRevision_def rows row_of_def revision_of_def)
  then have "fst (commitUpdate 30 shop_project shop_diagram ann 0 None moved_model document_db) \<noteq> document_db" by metis
  moreover have "fst (commitUpdate 30 shop_project shop_diagram ann 0 None moved_model document_db) =
    fst (snd (updateDocument (\<lambda>_. True) accept_all accept_all id 30 False shop_project shop_diagram ann ann_session
      None 0 moved_body empty_lock_store document_db document_db))"
    by (simp add: updateDocument_def checkUpdate_def read unlocked moved_normalized [unfolded One_nat_def] row_of_def
        split: prod.split sum.split)
  ultimately have update: "fst (snd (updateDocument (\<lambda>_. True) accept_all accept_all id 30 False shop_project shop_diagram
      ann ann_session None 0 moved_body empty_lock_store document_db document_db)) \<noteq> document_db" by simp
  have "db_documents (fst (deleteDocument (\<lambda>_. True) 30 False shop_project shop_diagram ann ann_session document_db)) = []"
    using read by (simp add: deleteDocument_def deleteDocuments_def Let_def rows row_of_def)
  then have delete: "fst (deleteDocument (\<lambda>_. True) 30 False shop_project shop_diagram ann ann_session document_db) \<noteq> document_db"
    using rows by fastforce
  have "db_projects (fst (run_project (\<lambda>_. True) id 30 ann ann_session (DeleteProject shop_project) document_db)) = []"
    using read by (simp add: deleteOwnerProject_def lockMutationSession_def ann_active document_db_def project_db_def
        deleteProjectRow_def deleteDocuments_def Let_def)
  then have project: "fst (run_project (\<lambda>_. True) id 30 ann ann_session (DeleteProject shop_project) document_db) \<noteq> document_db"
    using rows by fastforce
  have "db_documents command_db \<noteq> db_documents document_db" by (simp add: command_db_def rows row_of_def)
  then have command: "fst (snd (process (\<lambda>_. True) accept_all id no_number id 30 (js ''f0'') ann_identity add_product_input
      (js ''s1'') empty_lock_store document_db document_db document_db)) \<noteq> document_db"
    unfolding command_processed by auto
  note second = writes_are_authorized [THEN conjunct2]
  note third = second [THEN conjunct2]
  note fourth = third [THEN conjunct2]
  from writes_are_authorized [THEN conjunct1, THEN mp, OF create] second [THEN conjunct1, THEN mp, OF update]
    third [THEN conjunct1, THEN mp, OF delete] fourth [THEN conjunct1, THEN mp, OF command]
    fourth [THEN conjunct2, THEN mp, OF project]
  show ?thesis by (simp add: ann_identity_def)
qed

text \<open>C34. A project always has exactly one member who is its owner, the user who created it; every
  member and every document belongs to a stored project. So deleting a project leaves none of them
  behind, and no request can take the ownership away.\<close>

theorem projects_keep_their_owner:
  assumes "server_history isUUID schemaIn schema lowerEs lower showNumber sha256 (db # hs)"
  shows "(\<forall>p \<in> set (db_projects db). {m \<in> set (db_members db). mb_projectId m = pj_id p \<and> mb_role m = Owner}
        = {m \<in> set (db_members db). mb_projectId m = pj_id p \<and> mb_userId m = pj_ownerId p}
      \<and> (\<exists>m. {m \<in> set (db_members db). mb_projectId m = pj_id p \<and> mb_role m = Owner} = {m}))
    \<and> mb_projectId ` set (db_members db) \<subseteq> pj_id ` set (db_projects db)
    \<and> dc_projectId ` set (db_documents db) \<subseteq> pj_id ` set (db_projects db)"
proof -
  have inv: "project_inv db" using server_history_inv [OF assms] by (simp add: server_inv_def)
  have "{m \<in> set (db_members db). mb_projectId m = pj_id p \<and> mb_role m = Owner}
        = {m \<in> set (db_members db). mb_projectId m = pj_id p \<and> mb_userId m = pj_ownerId p}
      \<and> (\<exists>m. {m \<in> set (db_members db). mb_projectId m = pj_id p \<and> mb_role m = Owner} = {m})"
    if "p \<in> set (db_projects db)" for p
  proof -
    from project_invD(3) [OF inv that] obtain m where m: "m \<in> set (db_members db)" "mb_projectId m = pj_id p"
      "mb_userId m = pj_ownerId p" "mb_role m = Owner"
      and only: "\<And>m'. m' \<in> set (db_members db) \<Longrightarrow> mb_projectId m' = pj_id p \<Longrightarrow> mb_role m' = Owner \<Longrightarrow>
        mb_userId m' = pj_ownerId p" by (auto simp: owner_ok_def)
    have same: "m' = m" if "m' \<in> set (db_members db)" "mb_projectId m' = pj_id p" "mb_userId m' = pj_ownerId p" for m'
      using member_unique [OF inv that(1) m(1)] that m by simp
    have "{m \<in> set (db_members db). mb_projectId m = pj_id p \<and> mb_role m = Owner} = {m}"
      "{m \<in> set (db_members db). mb_projectId m = pj_id p \<and> mb_userId m = pj_ownerId p} = {m}"
      using m only same by blast+
    then show ?thesis by auto
  qed
  with project_invD(4,5) [OF inv] show ?thesis by blast
qed

theorem projects_keep_their_owner_witness:
  "{m \<in> set (db_members command_db). mb_projectId m = shop_project \<and> mb_role m = Owner}
    = {m \<in> set (db_members command_db). mb_projectId m = shop_project \<and> mb_userId m = ann}"
  using projects_keep_their_owner [OF command_history]
  by (simp add: command_db_def document_db_def project_db_def)

lemma find_append_None: "find P xs = None \<Longrightarrow> find P (xs @ ys) = find P ys"
  by (induction xs) (auto split: if_splits)

text \<open>A document that was created can be read back by its creator: the route returns the row that
  was written, with the elements, relationships and positions of the body, at revision zero, and under
  the identifiers of the project and the row. \<open>schema\<close> accepts a document only as it is.\<close>

theorem created_document_is_read_back:
  assumes "createDocument isUUID schemaIn schema lowerEs now did pid uid sid name body db = (db', Inr x)"
    and "\<And>d d'. schema d = Inr d' \<Longrightarrow> d' = d"
  shows "getDocument pid did uid db' = Inr x \<and> dc_revision x = 0 \<and> dc_name x = name
    \<and> pr_id (cm_project (dc_canonicalModel x)) = toCanonicalPersistenceId (js ''project'') pid
    \<and> dg_id (cm_diagram (dc_canonicalModel x)) = toCanonicalPersistenceId (js ''diagram'') did
    \<and> (\<exists>doc. schemaIn body = Inr doc \<and> assertCanonicalSemanticIntegrity lowerEs doc = Inr ()
        \<and> dg_elements (cm_diagram (dc_canonicalModel x)) = dg_elements (cm_diagram doc)
        \<and> dg_relationships (cm_diagram (dc_canonicalModel x)) = dg_relationships (cm_diagram doc)
        \<and> dg_positions (cm_diagram (dc_canonicalModel x)) = dg_positions (cm_diagram doc))"
proof -
  from createDocument_cases [OF assms(1)] obtain m where x: "dc_id x = uuid_key did" "dc_projectId x = uuid_key pid"
    "dc_revision x = 0" "dc_name x = name" "dc_canonicalModel x = m"
    "validateAndNormalize schemaIn schema lowerEs body 0 now (Some (pid, did)) = Inr m"
    "lockRequest isUUID now pid uid sid db = Inr ()" "insertDocument x db = Some db'" by auto
  have k: "key (dc_id x)" using x(1) by simp
  from insertDocument_Some [OF x(8) k] have db': "dc_id x \<notin> dc_id ` set (db_documents db)"
    "db_documents db' = db_documents db @ [x]" "db_members db' = db_members db" by auto
  then have "find (\<lambda>z. dc_id z = uuid_key did \<and> dc_projectId z = uuid_key pid) (db_documents db) = None"
    using x(1) by (force simp: find_None_iff image_iff)
  with db' x(1,2) have "findProjectDocument pid did db' = Some x"
    by (simp add: findProjectDocument_def find_append_None)
  moreover have "findMember pid uid db' \<noteq> None"
    using x(7) db'(3) by (simp add: lockRequest_def lockCollaboratorMembership_def res_simps findMember_def)
  ultimately have "getDocument pid did uid db' = Inr x" by (simp add: getDocument_def)
  with x validateAndNormalize_identity [OF x(6) assms(2)] show ?thesis
    by (simp add: integrity_iff_well_formed) blast
qed

theorem created_document_is_read_back_witness:
  "getDocument shop_project shop_diagram ann document_db = Inr (row_of 0 order_model 20)"
  using created_document_is_read_back [OF document_created] by simp

section \<open>Element locks and the spelling of an identifier\<close>

lemma same_key_lookups:
  assumes "uuid_key did' = uuid_key did"
  shows "findDocument did' = findDocument did" "findOperation did' = findOperation did"
    "toCanonicalPersistenceId kind did' = toCanonicalPersistenceId kind did"
    "getAuthorizedDocument did' = getAuthorizedDocument did"
    "lockCommandAuthorization isUUID now identity did' = lockCommandAuthorization isUUID now identity did"
    "validateAndNormalize schema schema lowerEs n r t (Some (pid, did')) = validateAndNormalize schema schema lowerEs n r t (Some (pid, did))"
  using assms
  by (simp_all add: fun_eq_iff findDocument_def findOperation_def toCanonicalPersistenceId_def getAuthorizedDocument_def
      lockCommandAuthorization_def validateAndNormalize_def)

lemma same_key_update:
  assumes "uuid_key did' = uuid_key did"
  shows "compareAndSetDocument did' = compareAndSetDocument did"
  unfolding compareAndSetDocument_def [abs_def] findDocument_def assms by (rule refl)

lemma no_locks:
  assumes "documentLocks locks did = []"
  shows "hasLockOwnedByAnotherSocket now did ids socketId locks = (locks, False)"
proof -
  have "lockAt locks did e = None" for e
    using assms by (simp add: documentLocks_def lockAt_def nestedGet_def)
  then show ?thesis
    by (simp add: hasLockOwnedByAnotherSocket_def expireDocument_nothing assms)
qed

text \<open>Two spellings of an identifier without locks give the same preparation.\<close>

lemma prepareCommand_same_key:
  assumes "uuid_key did' = uuid_key (dm_documentId input)" and "documentLocks locks did' = []"
    and "documentLocks locks' (dm_documentId input) = []"
    and "prepareCommand schema lowerEs now identity input fp socketId doc locks' db = (l, r)"
    and "prepareCommand schema lowerEs now identity (input\<lparr>dm_documentId := did'\<rparr>) fp socketId doc locks db = (l', r')"
  shows "isl r' = isl r \<and> (\<forall>m els t. r' = Inr (Prepared m els t) \<longleftrightarrow> r = Inr (Prepared m els t))"
  using assms(4,5)
  by (auto simp: prepareCommand_def same_key_lookups [OF assms(1)] no_locks [OF assms(2)] no_locks [OF assms(3)]
      resolveExisting_def split: option.splits if_splits sum.splits)

lemma commitCommand_same_key:
  assumes "uuid_key did' = uuid_key (dm_documentId input)"
  shows "fst (commitCommand rowId identity (input\<lparr>dm_documentId := did'\<rparr>) fp m els t db)
    = fst (commitCommand rowId identity input fp m els t db)"
  by (auto simp: commitCommand_def same_key_lookups [OF assms] same_key_update [OF assms] assms split: update_result.splits option.splits)

lemma processInTransaction_same_key:
  assumes "uuid_key did' = uuid_key (dm_documentId input)" and "documentLocks locks did' = []"
    and "documentLocks locks' (dm_documentId input) = []"
  shows "fst (snd (processInTransaction isUUID schema lowerEs now rowId identity (input\<lparr>dm_documentId := did'\<rparr>) fp socketId
      locks dbDocument dbOperation db))
    = fst (snd (processInTransaction isUUID schema lowerEs now rowId identity input fp socketId
      locks' dbDocument dbOperation db))"
proof (cases "lockCommandAuthorization isUUID now identity (dm_documentId input) dbDocument")
  case (Inr doc)
  obtain l r where p: "prepareCommand schema lowerEs now identity input fp socketId doc locks' dbOperation = (l, r)" by fastforce
  obtain l' r' where p': "prepareCommand schema lowerEs now identity (input\<lparr>dm_documentId := did'\<rparr>) fp socketId doc locks dbOperation
    = (l', r')" by fastforce
  note same = prepareCommand_same_key [OF assms p p']
  show ?thesis
  proof (cases "\<exists>m els t. r = Inr (Prepared m els t)")
    case True
    then obtain m els t where "r = Inr (Prepared m els t)" "r' = Inr (Prepared m els t)" using same by blast
    then show ?thesis using Inr p p' commitCommand_same_key [OF assms(1)]
      by (simp add: processInTransaction_def same_key_lookups [OF assms(1)])
  next
    case False
    with same have "\<nexists>m els t. r' = Inr (Prepared m els t)" by blast
    with False Inr p p' show ?thesis
      by (auto simp: processInTransaction_def same_key_lookups [OF assms(1)] split: sum.split prepared_command.split)
  qed
qed (simp add: processInTransaction_def same_key_lookups [OF assms(1)])

lemma process_database:
  "fst (snd (process isUUID schema lowerEs showNumber sha256 now rowId identity input socketId locks dbDocument dbOperation db))
    = fst (snd (processInTransaction isUUID schema lowerEs now rowId identity input
        (commandFingerprint showNumber sha256 (dm_baseRevision input) (dm_command input)) socketId locks dbDocument dbOperation db))"
  by (simp add: process_def Let_def split: prod.split sum.split process_error.split)

text \<open>C35. Element locks are kept by the spelling of a document's identifier, the tables compare
  identifiers as UUIDs. A command that names the document in another spelling, one in upper case for
  example, has the effect on the tables that it would have if no element of the document were locked.\<close>

theorem locks_depend_on_spelling:
  assumes "uuid_key did' = uuid_key (dm_documentId input)" and "documentLocks locks did' = []"
  shows "fst (snd (process isUUID schema lowerEs showNumber sha256 now rowId identity (input\<lparr>dm_documentId := did'\<rparr>) socketId
      locks dbDocument dbOperation db))
    = fst (snd (process isUUID schema lowerEs showNumber sha256 now rowId identity input socketId
      empty_lock_store dbDocument dbOperation db))"
proof -
  have "documentLocks empty_lock_store (dm_documentId input) = []"
    by (simp add: documentLocks_def empty_lock_store_def inner_def)
  from processInTransaction_same_key [OF assms this] show ?thesis by (simp add: process_database)
qed

text \<open>The socket s2 holds the lock of the class: the command of s1 is refused under the stored
  spelling of the document and carried out under the one in upper case.\<close>

definition order_lock :: stored_lock where
  "order_lock = \<lparr>lk_documentId = shop_diagram, lk_elementId = js ''order'', lk_userId = js ''b2'', lk_socketId = js ''s2'',
     lk_leaseId = js ''l1'', lk_expiresAt = 60, lk_timer = 0\<rparr>"

definition held_locks :: lock_store where
  "held_locks = empty_lock_store\<lparr>locksByDocument := [(shop_diagram, [(js ''order'', order_lock)])]\<rparr>"

theorem locks_depend_on_spelling_witness:
  "snd (snd (process (\<lambda>_. True) accept_all id no_number id 30 (js ''f0'') ann_identity (input_of move_order) (js ''s1'')
      held_locks document_db document_db document_db)) = Inl (failWith ELEMENT_LOCKED)
   \<and> fst (snd (process (\<lambda>_. True) accept_all id no_number id 30 (js ''f0'') ann_identity
      ((input_of move_order)\<lparr>dm_documentId := js ''D0''\<rparr>) (js ''s1'') held_locks document_db document_db document_db))
     = after_command move_order moved_model"
proof
  have "documentLocks held_locks shop_diagram = [order_lock]"
    by (simp add: documentLocks_def held_locks_def inner_def)
  then have "hasLockOwnedByAnotherSocket 30 shop_diagram {js ''order''} (js ''s1'') held_locks = (held_locks, True)"
    by (simp add: hasLockOwnedByAnotherSocket_def expireDocument_nothing is_expired_def order_lock_def lockAt_def nestedGet_def
        held_locks_def inner_def)
  then show "snd (snd (process (\<lambda>_. True) accept_all id no_number id 30 (js ''f0'') ann_identity (input_of move_order) (js ''s1'')
      held_locks document_db document_db document_db)) = Inl (failWith ELEMENT_LOCKED)"
    using ann_reads order_move_needs
    by (simp add: process_def processInTransaction_def prepareCommand_def input_of_def findOperation_def row_of_def
        document_db_def project_db_def first_db_def)
  have "uuid_key (js ''D0'') = shop_diagram" by (simp add: shop_diagram_def uuid_key_def js_def)
  moreover have "documentLocks held_locks (js ''D0'') = []"
    by (simp add: documentLocks_def held_locks_def inner_def shop_diagram_def)
  ultimately show "fst (snd (process (\<lambda>_. True) accept_all id no_number id 30 (js ''f0'') ann_identity
      ((input_of move_order)\<lparr>dm_documentId := js ''D0''\<rparr>) (js ''s1'') held_locks document_db document_db document_db))
     = after_command move_order moved_model"
    using locks_depend_on_spelling [of "js ''D0''" "input_of move_order" held_locks] order_move_processed
    by (simp add: input_of_def)
qed

section \<open>Fingerprints\<close>

text \<open>C36. The text that the fingerprint of a command is taken of determines the base revision and the
  command, and the order of the keys of an object does not matter for it: two commands with the same
  fingerprint are the same unless \<open>sha256\<close> collides on their texts. \<open>showNumber\<close> gives
  distinct texts of digits, signs, points and exponents.\<close>

theorem fingerprint_determines_command:
  assumes "number_text showNumber"
    and "commandFingerprint showNumber sha256 r c = commandFingerprint showNumber sha256 r' c'"
  shows "(r = r' \<and> c = c') \<or>
    (\<exists>s s'. s = stableJson showNumber (JObj [(js ''baseRevision'', JNum (of_nat r)), (js ''command'', json_command c)])
       \<and> s' = stableJson showNumber (JObj [(js ''command'', json_command c'), (js ''baseRevision'', JNum (of_nat r'))])
       \<and> s \<noteq> s' \<and> sha256 s = sha256 s')"
proof -
  have swap: "stableJson showNumber (JObj [(js ''command'', json_command c'), (js ''baseRevision'', JNum (of_nat r'))])
    = stableJson showNumber (JObj [(js ''baseRevision'', JNum (of_nat r')), (js ''command'', json_command c')])"
    by (simp add: js_def)
  show ?thesis
    unfolding swap using assms(2) fingerprint_text_inject [OF assms(1), of r c r' c']
    by (auto simp: commandFingerprint_def)
qed

definition fraction_text :: "rat \<Rightarrow> jstring" where
  "fraction_text n = (case quotient_of n of (a, b) \<Rightarrow>
     (if a < 0 then [0x2D] else []) @ show_nat (nat \<bar>a\<bar>) @ 0x2E # show_nat (nat b))"

lemma digits_plain: "is_digit c \<Longrightarrow> c \<noteq> 0x2D \<and> c \<noteq> 0x2E \<and> c \<noteq> 0x65"
  by (auto simp: is_digit_def)

lemma fraction_text_numbers: "number_text fraction_text"
proof -
  have no: "0x2D \<notin> set (show_nat k)" "0x2E \<notin> set (show_nat k)" for k
    using show_nat_digits digits_plain by blast+
  have head: "show_nat k @ t \<noteq> 0x2D # u" for k t u
    using no(1) [of k] by (cases "show_nat k") auto
  have "m = n" if eq: "fraction_text m = fraction_text n" for m n
  proof -
    obtain a b c d where q: "quotient_of m = (a, b)" "quotient_of n = (c, d)" by fastforce
    from eq q head have sign: "a < 0 \<longleftrightarrow> c < 0"
      unfolding fraction_text_def by (auto split: if_splits) metis+
    with eq q no have "show_nat (nat \<bar>a\<bar>) = show_nat (nat \<bar>c\<bar>)" "show_nat (nat b) = show_nat (nat d)"
      unfolding fraction_text_def by (auto simp: append_Cons_eq_iff split: if_splits)
    then have "\<bar>a\<bar> = \<bar>c\<bar>" "b = d"
      using quotient_of_denom_pos [OF q(1)] quotient_of_denom_pos [OF q(2)] by (simp_all add: eq_nat_nat_iff)
    with sign have "a = c" by (simp add: abs_if split: if_splits)
    with \<open>b = d\<close> quotient_of_div [OF q(1)] quotient_of_div [OF q(2)] show ?thesis by simp
  qed
  moreover have "fraction_text n \<noteq> [] \<and> list_all number_unit (fraction_text n) \<and> hd (fraction_text n) \<noteq> 0x65" for n
  proof -
    obtain a b where q: "quotient_of n = (a, b)" by fastforce
    have "hd (show_nat k @ t) \<noteq> 0x65" for k t
      using show_nat_digits [of "hd (show_nat k)" k] digits_plain by (simp add: hd_append)
    then show ?thesis
      by (auto simp: fraction_text_def q list_all_iff number_unit_def dest: show_nat_digits)
  qed
  ultimately show ?thesis by (simp add: number_text_def inj_def)
qed

theorem fingerprint_determines_command_witness:
  "commandFingerprint fraction_text id 0 add_product \<noteq> commandFingerprint fraction_text id 0 move_order"
  using fingerprint_determines_command [OF fraction_text_numbers, of id 0 add_product 0 move_order]
  by (auto simp: add_product_def move_order_def command_of_def)

end
