(* ===== verification/Async_Programs.thy ===== *)
theory Async_Programs
  imports Js_Prelude
begin

text \<open>
  Asynchronous functions. A program runs in segments: between two \<open>await\<close>s nothing else runs, at an
  \<open>await\<close> any other code may change the state before the program goes on. A program is a value:
  it returns, throws, reads the state and what the world gives it (the clock, the rows of a query), writes
  the state, or awaits. The calculus at the end reasons about a program in the presence of all the others,
  by an invariant that everybody keeps at every \<open>await\<close>.
\<close>

section \<open>Programs\<close>

datatype ('e, 's, 'x, 'a) async =
    Return 'a
  | Throw 'x
  | Read "'e \<Rightarrow> 's \<Rightarrow> ('e, 's, 'x, 'a) async"
  | Write 's "('e, 's, 'x, 'a) async"
  | Await "'s \<Rightarrow> bool" "('e, 's, 'x, 'a) async"

lemma async_induct [case_names Return Throw Read Write Await]:
  assumes "\<And>v. P (Return v)" and "\<And>err. P (Throw err)" and "\<And>f. (\<And>e s. P (f e s)) \<Longrightarrow> P (Read f)"
    and "\<And>s p. P p \<Longrightarrow> P (Write s p)" and "\<And>c p. P p \<Longrightarrow> P (Await c p)"
  shows "P p"
proof (induction p)
  case (Read f)
  then have "P (f e s)" for e s by blast
  then show ?case by (rule assms(3))
qed (use assms in auto)

primrec thenA ::
  "('e, 's, 'x, 'a) async \<Rightarrow> ('a \<Rightarrow> ('e, 's, 'x, 'b) async) \<Rightarrow> ('e, 's, 'x, 'b) async" where
  "thenA (Return v) k = k v"
| "thenA (Throw err) k = Throw err"
| "thenA (Read f) k = Read (\<lambda>e s. thenA (f e s) k)"
| "thenA (Write s p) k = Write s (thenA p k)"
| "thenA (Await c p) k = Await c (thenA p k)"

primrec catchA ::
  "('e, 's, 'x, 'a) async \<Rightarrow> ('x \<Rightarrow> ('e, 's, 'x, 'a) async) \<Rightarrow> ('e, 's, 'x, 'a) async" where
  "catchA (Return v) h = Return v"
| "catchA (Throw err) h = h err"
| "catchA (Read f) h = Read (\<lambda>e s. catchA (f e s) h)"
| "catchA (Write s p) h = Write s (catchA p h)"
| "catchA (Await c p) h = Await c (catchA p h)"

primrec finallyA ::
  "('e, 's, 'x, 'a) async \<Rightarrow> ('e, 's, 'x, unit) async \<Rightarrow> ('e, 's, 'x, 'a) async" where
  "finallyA (Return v) q = thenA q (\<lambda>_. Return v)"
| "finallyA (Throw err) q = thenA q (\<lambda>_. Throw err)"
| "finallyA (Read f) q = Read (\<lambda>e s. finallyA (f e s) q)"
| "finallyA (Write s p) q = Write s (finallyA p q)"
| "finallyA (Await c p) q = Await c (finallyA p q)"

definition getsA :: "('e \<Rightarrow> 's \<Rightarrow> 'a) \<Rightarrow> ('e, 's, 'x, 'a) async" where
  "getsA f = Read (\<lambda>e s. Return (f e s))"

definition modifyA :: "('e \<Rightarrow> 's \<Rightarrow> 's) \<Rightarrow> ('e, 's, 'x, unit) async" where
  "modifyA f = Read (\<lambda>e s. Write (f e s) (Return ()))"

text \<open>A call that changes the state and returns a value.\<close>

definition callA :: "('e \<Rightarrow> 's \<Rightarrow> 's \<times> 'a) \<Rightarrow> ('e, 's, 'x, 'a) async" where
  "callA f = Read (\<lambda>e s. Write (fst (f e s)) (Return (snd (f e s))))"

definition ensureA :: "('e \<Rightarrow> 's \<Rightarrow> bool) \<Rightarrow> 'x \<Rightarrow> ('e, 's, 'x, unit) async" where
  "ensureA b err = Read (\<lambda>e s. if b e s then Return () else Throw err)"

definition pauseA :: "('e, 's, 'x, unit) async" where
  "pauseA = Await (\<lambda>_. True) (Return ())"

definition whenA :: "bool \<Rightarrow> ('e, 's, 'x, unit) async \<Rightarrow> ('e, 's, 'x, unit) async" where
  "whenA b p = (if b then p else Return ())"

primrec forEachA :: "('b \<Rightarrow> ('e, 's, 'x, unit) async) \<Rightarrow> 'b list \<Rightarrow> ('e, 's, 'x, unit) async" where
  "forEachA f [] = Return ()"
| "forEachA f (x # xs) = thenA (f x) (\<lambda>_. forEachA f xs)"

text \<open>\<open>flatMap\<close> with a function that has effects.\<close>

primrec flatMapA :: "('b \<Rightarrow> ('e, 's, 'x, 'a list) async) \<Rightarrow> 'b list \<Rightarrow> ('e, 's, 'x, 'a list) async" where
  "flatMapA f [] = Return []"
| "flatMapA f (x # xs) = thenA (f x) (\<lambda>ys. thenA (flatMapA f xs) (\<lambda>zs. Return (ys @ zs)))"

lemma thenA_assoc: "thenA (thenA p k) l = thenA p (\<lambda>v. thenA (k v) l)"
  by (induction p rule: async_induct) simp_all

section \<open>Running\<close>

datatype ('e, 's, 'x, 'a) outcome =
    Finished "'x + 'a"
  | Suspended "'s \<Rightarrow> bool" "('e, 's, 'x, 'a) async"

text \<open>One segment.\<close>

primrec run :: "('e, 's, 'x, 'a) async \<Rightarrow> 'e \<Rightarrow> 's \<Rightarrow> 's \<times> ('e, 's, 'x, 'a) outcome" where
  "run (Return v) e s = (s, Finished (Inr v))"
| "run (Throw err) e s = (s, Finished (Inl err))"
| "run (Read f) e s = run (f e s) e s"
| "run (Write s' p) e s = run p e s'"
| "run (Await c p) e s = (s, Suspended c p)"

text \<open>All segments, where others change the state from one to the next as \<open>rely\<close> allows.\<close>

inductive exec ::
  "('s \<Rightarrow> 's \<Rightarrow> bool) \<Rightarrow> ('e, 's, 'x, 'a) async \<Rightarrow> 's \<Rightarrow> 'x + 'a \<Rightarrow> 's \<Rightarrow> bool" for rely where
  Last: "run p e s = (s', Finished r) \<Longrightarrow> exec rely p s r s'"
| Segment: "run p e s = (s1, Suspended c p') \<Longrightarrow> rely s1 s2 \<Longrightarrow> c s2 \<Longrightarrow> exec rely p' s2 r s' \<Longrightarrow> exec rely p s r s'"

section \<open>Reasoning\<close>

text \<open>\<open>s0\<close> is the state at the start of the segment and \<open>e\<close> what the world gave to it.
  \<open>G\<close> has to hold at the end of every segment but the last, \<open>R\<close> relates it to the state
  at the start of the next one, \<open>Q\<close> has to hold when the program is over.\<close>

primrec wp ::
  "('e, 's, 'x, 'a) async \<Rightarrow> ('e \<Rightarrow> 's \<Rightarrow> 's \<Rightarrow> bool) \<Rightarrow> ('s \<Rightarrow> 's \<Rightarrow> bool)
     \<Rightarrow> ('x + 'a \<Rightarrow> 'e \<Rightarrow> 's \<Rightarrow> 's \<Rightarrow> bool) \<Rightarrow> 'e \<Rightarrow> 's \<Rightarrow> 's \<Rightarrow> bool" where
  "wp (Return v) G R Q e s0 s = Q (Inr v) e s0 s"
| "wp (Throw err) G R Q e s0 s = Q (Inl err) e s0 s"
| "wp (Read f) G R Q e s0 s = wp (f e s) G R Q e s0 s"
| "wp (Write s' p) G R Q e s0 s = wp p G R Q e s0 s'"
| "wp (Await c p) G R Q e s0 s = (G e s0 s \<and> (\<forall>e' s'. R s s' \<and> c s' \<longrightarrow> wp p G R Q e' s' s'))"

lemma wp_thenA [simp]:
  "wp (thenA p k) G R Q e s0 s
    = wp p G R (\<lambda>r e s0 s. case r of Inr v \<Rightarrow> wp (k v) G R Q e s0 s | Inl err \<Rightarrow> Q (Inl err) e s0 s) e s0 s"
  by (induction p arbitrary: e s0 s rule: async_induct) simp_all

lemma wp_catchA [simp]:
  "wp (catchA p h) G R Q e s0 s
    = wp p G R (\<lambda>r e s0 s. case r of Inl err \<Rightarrow> wp (h err) G R Q e s0 s | Inr v \<Rightarrow> Q (Inr v) e s0 s) e s0 s"
  by (induction p arbitrary: e s0 s rule: async_induct) simp_all

lemma wp_finallyA [simp]:
  "wp (finallyA p q) G R Q e s0 s
    = wp p G R (\<lambda>r e s0 s. wp q G R (\<lambda>r' e s0 s. case r' of Inr _ \<Rightarrow> Q r e s0 s | Inl err \<Rightarrow> Q (Inl err) e s0 s) e s0 s) e s0 s"
  by (induction p arbitrary: e s0 s rule: async_induct) (simp_all cong: sum.case_cong)

lemma wp_small [simp]:
  "wp (getsA f) G R Q e s0 s = Q (Inr (f e s)) e s0 s"
  "wp (modifyA g) G R Q' e s0 s = Q' (Inr ()) e s0 (g e s)"
  "wp (callA h) G R Q e s0 s = Q (Inr (snd (h e s))) e s0 (fst (h e s))"
  "wp (ensureA b err) G R Q' e s0 s = (if b e s then Q' (Inr ()) e s0 s else Q' (Inl err) e s0 s)"
  "wp pauseA G R Q' e s0 s = (G e s0 s \<and> (\<forall>e' s'. R s s' \<longrightarrow> Q' (Inr ()) e' s' s'))"
  "wp (whenA c p) G R Q' e s0 s = (if c then wp p G R Q' e s0 s else Q' (Inr ()) e s0 s)"
  by (simp_all add: getsA_def modifyA_def callA_def ensureA_def pauseA_def whenA_def)

lemma wp_mono:
  assumes "wp p G R Q e s0 s" and "\<And>r e s0 s. Q r e s0 s \<Longrightarrow> Q' r e s0 s"
  shows "wp p G R Q' e s0 s"
  using assms(1) by (induction p arbitrary: e s0 s rule: async_induct) (auto intro: assms(2))

text \<open>One segment of a program.\<close>

lemma wp_run:
  assumes "wp p G R Q e s0 s" and "run p e s = (s', out)"
  shows "case out of Finished r \<Rightarrow> Q r e s0 s'
    | Suspended c p' \<Rightarrow> G e s0 s' \<and> (\<forall>e' s''. R s' s'' \<and> c s'' \<longrightarrow> wp p' G R Q e' s'' s'')"
  using assms by (induction p arbitrary: s rule: async_induct) auto

text \<open>A whole run in the presence of others.\<close>

lemma wp_exec:
  assumes "exec rely p s r s'" and "\<And>e. wp p G R Q e s s"
    and "\<And>e s0 s s2. G e s0 s \<Longrightarrow> rely s s2 \<Longrightarrow> R s s2"
  shows "\<exists>e s0. Q r e s0 s'"
  using assms(1,2)
proof (induction rule: exec.induct)
  case (Last p e s s' r)
  from wp_run [OF Last.prems Last.hyps] show ?case by auto
next
  case (Segment p e s s1 c p' s2 r s')
  from wp_run [OF Segment.prems Segment.hyps(1)] have "G e s s1" "\<And>e'. R s1 s2 \<Longrightarrow> wp p' G R Q e' s2 s2"
    using Segment.hyps(3) by auto
  with assms(3) Segment.hyps(2) Segment.IH show ?case by blast
qed

lemma wp_weaken:
  assumes "wp p G R Q e s0 s" and "\<And>e s0 s. G e s0 s \<Longrightarrow> G' e s0 s" and "\<And>s s'. R' s s' \<Longrightarrow> R s s'"
    and "\<And>r e s0 s. Q r e s0 s \<Longrightarrow> Q' r e s0 s"
  shows "wp p G' R' Q' e s0 s"
  using assms(1)
proof (induction p arbitrary: e s0 s rule: async_induct)
  case (Await c p)
  then show ?case using assms(2,3) by simp
qed (auto intro: assms(4))

section \<open>Programs that keep a condition\<close>

text \<open>\<open>K e s0 s\<close> holds at the end of every segment, where it may be assumed at the start of every
  segment, whatever the world gives to it. An invariant is a \<open>K\<close> that looks at \<open>s\<close> only,
  a guarantee one that compares \<open>s\<close> with \<open>s0\<close>.\<close>

definition keeps :: "('e \<Rightarrow> 's \<Rightarrow> 's \<Rightarrow> bool) \<Rightarrow> ('e, 's, 'x, 'a) async \<Rightarrow> bool" where
  "keeps K p \<longleftrightarrow> (\<forall>e s0 s. K e s0 s \<longrightarrow> wp p K (\<lambda>_ s'. \<forall>e. K e s' s') (\<lambda>_. K) e s0 s)"

named_theorems keeps_intros \<open>programs that keep a condition\<close>

lemma keepsI: "(\<And>e s0 s. K e s0 s \<Longrightarrow> wp p K (\<lambda>_ s'. \<forall>e. K e s' s') (\<lambda>_. K) e s0 s) \<Longrightarrow> keeps K p"
  by (simp add: keeps_def)

lemma keepsD: "keeps K p \<Longrightarrow> K e s0 s \<Longrightarrow> wp p K (\<lambda>_ s'. \<forall>e. K e s' s') (\<lambda>_. K) e s0 s"
  by (simp add: keeps_def)

lemma keeps_Return [keeps_intros]: "keeps K (Return v)"
  and keeps_Throw [keeps_intros]: "keeps K (Throw err)"
  and keeps_getsA [keeps_intros]: "keeps K (getsA f)"
  and keeps_ensureA [keeps_intros]: "keeps K (ensureA b err)"
  and keeps_pauseA [keeps_intros]: "keeps K pauseA"
  by (simp_all add: keeps_def)

text \<open>The first part of a program establishes \<open>Q\<close> for the rest.\<close>

lemma keeps_then_wp:
  assumes "K e s0 s \<Longrightarrow> wp p K (\<lambda>_ s'. \<forall>e. K e s' s') Q e s0 s"
    and "\<And>v e s0 s. Q (Inr v) e s0 s \<Longrightarrow> wp (k v) K (\<lambda>_ s'. \<forall>e. K e s' s') (\<lambda>_. K) e s0 s"
    and "\<And>err e s0 s. Q (Inl err) e s0 s \<Longrightarrow> K e s0 s" and "K e s0 s"
  shows "wp (thenA p k) K (\<lambda>_ s'. \<forall>e. K e s' s') (\<lambda>_. K) e s0 s"
  using assms(1) [OF assms(4)] by (simp, elim wp_mono) (auto intro: assms(2,3) split: sum.split)

lemma keeps_thenA [keeps_intros]:
  assumes "keeps K p" and "\<And>v. keeps K (k v)"
  shows "keeps K (thenA p k)"
proof (rule keepsI)
  fix e s0 s
  assume "K e s0 s"
  then show "wp (thenA p k) K (\<lambda>_ s'. \<forall>e. K e s' s') (\<lambda>_. K) e s0 s"
    by (rule keeps_then_wp [where Q = "\<lambda>_. K", rotated 3]) (auto intro: keepsD assms)
qed

lemma keeps_catchA [keeps_intros]:
  assumes "keeps K p" and "\<And>err. keeps K (h err)"
  shows "keeps K (catchA p h)"
proof (rule keepsI)
  fix e s0 s
  assume "K e s0 s"
  with assms(1) have "wp p K (\<lambda>_ s'. \<forall>e. K e s' s') (\<lambda>_. K) e s0 s" by (rule keepsD)
  then show "wp (catchA p h) K (\<lambda>_ s'. \<forall>e. K e s' s') (\<lambda>_. K) e s0 s"
    by (simp, elim wp_mono) (simp add: keepsD [OF assms(2)] split: sum.split)
qed

lemma keeps_finallyA [keeps_intros]:
  assumes "keeps K p" and "keeps K q"
  shows "keeps K (finallyA p q)"
proof (rule keepsI)
  fix e s0 s
  assume "K e s0 s"
  with assms(1) have "wp p K (\<lambda>_ s'. \<forall>e. K e s' s') (\<lambda>_. K) e s0 s" by (rule keepsD)
  moreover have "wp q K (\<lambda>_ s'. \<forall>e. K e s' s') (\<lambda>r e s0 s. case r of Inr _ \<Rightarrow> K e s0 s | Inl err \<Rightarrow> K e s0 s) e s0 s"
    if "K e s0 s" for e s0 s
    using keepsD [OF assms(2) that] by (rule wp_mono) (simp split: sum.split)
  ultimately show "wp (finallyA p q) K (\<lambda>_ s'. \<forall>e. K e s' s') (\<lambda>_. K) e s0 s"
    by (simp, elim wp_mono) (auto split: sum.split elim: wp_mono)
qed

lemma keeps_Read [keeps_intros]: "(\<And>e s. keeps K (f e s)) \<Longrightarrow> keeps K (Read f)"
  and keeps_Await [keeps_intros]: "keeps K q \<Longrightarrow> keeps K (Await c q)"
  and keeps_modifyA: "(\<And>e s0 s. K e s0 s \<Longrightarrow> K e s0 (g e s)) \<Longrightarrow> keeps K (modifyA g)"
  and keeps_callA: "(\<And>e s0 s. K e s0 s \<Longrightarrow> K e s0 (fst (h e s))) \<Longrightarrow> keeps K (callA h)"
  and keeps_whenA [keeps_intros]: "keeps K w \<Longrightarrow> keeps K (whenA cond w)"
  by (simp_all add: keeps_def)

lemma keeps_forEachA [keeps_intros]: "(\<And>x. keeps K (f x)) \<Longrightarrow> keeps K (forEachA f xs)"
  by (induction xs) (auto intro: keeps_intros)

lemma keeps_flatMapA [keeps_intros]: "(\<And>x. keeps K (f x)) \<Longrightarrow> keeps K (flatMapA f xs)"
  by (induction xs) (auto intro!: keeps_intros)

section \<open>What a program returns\<close>

primrec returns :: "('a \<Rightarrow> bool) \<Rightarrow> ('e, 's, 'x, 'a) async \<Rightarrow> bool" where
  "returns V (Return v) = V v"
| "returns V (Throw err) = True"
| "returns V (Read f) = (\<forall>e s. returns V (f e s))"
| "returns V (Write s p) = returns V p"
| "returns V (Await c p) = returns V p"

lemma returns_thenA: "returns U p \<Longrightarrow> (\<And>v. U v \<Longrightarrow> returns V (k v)) \<Longrightarrow> returns V (thenA p k)"
  by (induction p rule: async_induct) auto

lemma returns_True [simp]: "returns (\<lambda>_. True) p"
  by (induction p rule: async_induct) auto

lemma wp_returns: "wp p G R Q e s0 s \<Longrightarrow> returns V p \<Longrightarrow>
    wp p G R (\<lambda>r e s0 s. Q r e s0 s \<and> (\<forall>v. r = Inr v \<longrightarrow> V v)) e s0 s"
  by (induction p arbitrary: e s0 s rule: async_induct) auto

lemma keeps_thenA_returns:
  assumes "keeps K p" and "returns V p" and "\<And>v. V v \<Longrightarrow> keeps K (k v)"
  shows "keeps K (thenA p k)"
proof (rule keepsI)
  fix e s0 s
  assume K: "K e s0 s"
  then show "wp (thenA p k) K (\<lambda>_ s'. \<forall>e. K e s' s') (\<lambda>_. K) e s0 s"
    by (rule keeps_then_wp [where Q = "\<lambda>r e s0 s. K e s0 s \<and> (\<forall>v. r = Inr v \<longrightarrow> V v)", rotated 3])
      (use wp_returns [OF keepsD [OF assms(1) K] assms(2)] in \<open>auto intro: keepsD assms(3)\<close>)
qed

end
