(* ===== verification/Gateway_State.thy ===== *)
theory Gateway_State
  imports Projects Document_Commands Presence_Store Rate_Limiter Mutation_Queue Async_Programs
begin

text \<open>
  The state of the collaboration gateway, src/src/modules/uml-domain/collaboration.gateway.ts, and the
  parts of it that run without an \<open>await\<close>: the data of a socket, the rooms, the admission of
  connections, the replies, and the listeners that turn a change of presence or locks into a broadcast on
  the queue of the document. The state holds the stores, the queue and the database. A socket is named
  by its identifier, a room by its document; objects that are compared by reference have numbers. What
  was sent is a list, in order. A socket that is closed stays in \<open>gw_clients\<close>, disconnected and
  in no room, as the handlers that still run refer to it.
\<close>

section \<open>Configuration\<close>

record gateway_config =
  cf_maxDocumentsPerSocket :: nat
  cf_maxParticipantsPerDocument :: nat
  cf_presenceMinIntervalMs :: int
  cf_lockTtlSeconds :: int
  cf_commandLimit :: nat
  cf_commandWindowMs :: int
  cf_controlEventLimit :: nat
  cf_controlEventWindowMs :: int
  cf_maxConnectedSockets :: nat
  cf_maxSocketsPerSession :: nat
  cf_maxPendingMutationsPerDocument :: nat
  cf_operationRecoveryBatchSize :: nat

text \<open>With the functions of other packages.\<close>

record gateway_params = gateway_config +
  gp_isUUID :: "jstring \<Rightarrow> bool"
  gp_verifyJwt :: "jstring \<Rightarrow> access_claims option"
  gp_schema :: "canonical_model \<Rightarrow> validation_issue list + canonical_model"
  gp_lowerEs :: "jstring \<Rightarrow> jstring"
  gp_showNumber :: "rat \<Rightarrow> jstring"
  gp_sha256 :: "jstring \<Rightarrow> jstring"

section \<open>Messages\<close>

record collaboration_failure =
  fl_operationId :: "jstring option"
  fl_code :: collaboration_error_code
  fl_message :: jstring
  fl_currentRevision :: "nat option"
  fl_resyncRequired :: "bool option"

record document_operation_event =
  oe_operationId :: jstring
  oe_documentId :: jstring
  oe_actorId :: jstring
  oe_baseRevision :: nat
  oe_revision :: nat
  oe_command :: uml_command
  oe_committedAt :: jstring

datatype server_event =
    DocumentOperationEvent document_operation_event
  | PresenceChanged jstring "participant list"
  | LockChanged jstring "element_lock list"
  | DocumentResyncRequired jstring nat
  | DocumentDeletedEvent jstring
  | DocumentAccessRevoked jstring collaboration_failure
  | SessionRevoked collaboration_failure

datatype reply =
    FailureReply collaboration_failure
  | JoinReply jstring nat "canonical_model option" bool "participant list" "element_lock list"
  | LeaveReply jstring
  | CommandReply jstring jstring nat jstring
  | PresenceReply jstring "participant list"
  | LockReply element_lock "element_lock list"
  | ReleaseReply jstring "element_lock list"

text \<open>An event to a socket, or the call of the acknowledgement callback of a request.\<close>

datatype outgoing = Emit jstring server_event | Ack nat reply

text \<open>The payloads of the requests.\<close>

record join_payload =
  jn_documentId :: jstring
  jn_knownRevision :: "nat option"

record presence_payload =
  pu_documentId :: jstring
  pu_selection :: "jstring list option"
  pu_cursor :: "(rat \<times> rat) option"

record lock_payload =
  lp_documentId :: jstring
  lp_elementId :: jstring

record lease_payload = lock_payload +
  lp_leaseId :: jstring

datatype gateway_error =
    OperationError collaboration_error_code "nat option"
  | PayloadError
  | QueueOverloaded
  | OtherError

definition failure_message :: "collaboration_error_code \<Rightarrow> jstring" where
  "failure_message code = (case code of
      UNAUTHENTICATED \<Rightarrow> js ''Authentication is required.''
    | SESSION_REVOKED \<Rightarrow> js ''The session is no longer active.''
    | FORBIDDEN \<Rightarrow> js ''The operation is not permitted.''
    | NOT_FOUND \<Rightarrow> js ''Document not found.''
    | NOT_JOINED \<Rightarrow> js ''Join the document before using this event.''
    | INVALID_COMMAND \<Rightarrow> js ''The collaboration payload or command is invalid.''
    | INVALID_MODEL \<Rightarrow> js ''The command would produce an invalid UML model.''
    | REVISION_CONFLICT \<Rightarrow> js ''Document revision conflict.''
    | ELEMENT_LOCKED \<Rightarrow> js ''An affected element is locked by another participant.''
    | OPERATION_ID_REUSED \<Rightarrow> js ''The operation identifier cannot be reused.''
    | RATE_LIMITED \<Rightarrow> js ''Too many collaboration requests.''
    | INTERNAL_ERROR \<Rightarrow> js ''The operation could not be completed.'')"

definition failure ::
  "collaboration_error_code \<Rightarrow> jstring option \<Rightarrow> nat option \<Rightarrow> collaboration_failure" where
  "failure code operationId currentRevision = \<lparr>
     fl_operationId = (if truthy operationId then operationId else None), fl_code = code,
     fl_message = failure_message code, fl_currentRevision = currentRevision,
     fl_resyncRequired = (if currentRevision = None then None else Some True)\<rparr>"

definition toFailure :: "gateway_error \<Rightarrow> jstring option \<Rightarrow> collaboration_failure" where
  "toFailure err operationId = (case err of
      OperationError code currentRevision \<Rightarrow> failure code operationId currentRevision
    | PayloadError \<Rightarrow> failure INVALID_COMMAND operationId None
    | QueueOverloaded \<Rightarrow> failure RATE_LIMITED operationId None
    | OtherError \<Rightarrow> failure INTERNAL_ERROR operationId None)"

section \<open>State\<close>

text \<open>\<open>socket.data\<close> with the socket's own state: whether it is connected, the documents of its
  rooms, and whether its transport has closed.\<close>

record client =
  sk_identity :: "collaboration_identity option"
  sk_joined :: "jstring set"
  sk_projects :: "(jstring, jstring) jmap"
  sk_pending :: "jstring set"
  sk_joinTail :: "nat option"
  sk_expiryTimer :: "int option"
  sk_reservedSession :: "jstring option"
  sk_connected :: bool
  sk_rooms :: "jstring set"
  sk_transportClosed :: bool

definition new_client :: client where
  "new_client = \<lparr>sk_identity = None, sk_joined = {}, sk_projects = [], sk_pending = {}, sk_joinTail = None,
     sk_expiryTimer = None, sk_reservedSession = None, sk_connected = False, sk_rooms = {}, sk_transportClosed = False\<rparr>"

record member_eviction =
  ev_key :: "jstring \<times> jstring"
  ev_userId :: jstring
  ev_revocation :: nat

record resync_change =
  rc_object :: nat
  rc_revision :: nat
  rc_activeElementIds :: "jstring list"

text \<open>A join of a socket in the chain of \<open>joinTail\<close> promises.\<close>

record join_tail =
  jt_previous :: "nat option"
  jt_released :: bool
  jt_settled :: bool

datatype change_kind = PresenceChange | LockChange

text \<open>Work that was started without waiting for it. The number is the operation on the queue,
  \<open>None\<close> when the queue was full.\<close>

datatype background =
    AuthorizedBroadcast jstring change_kind "nat option"
  | CriticalWork jstring "nat option"
  | FinishRemoval jstring jstring
  | RecoverOperations

record gateway =
  gw_clients :: "(jstring, client) jmap"
  gw_sent :: "outgoing list"
  gw_closing :: "jstring list"
  gw_connectedSocketIds :: "jstring set"
  gw_socketIdsBySession :: "(jstring, jstring set) jmap"
  gw_revokedProjectMemberKeys :: "(jstring \<times> jstring, nat) jmap"
  gw_nextObject :: nat
  gw_deletedDocumentIds :: "jstring set"
  gw_pendingResyncChanges :: "(jstring, resync_change) jmap"
  gw_pendingMemberEvictions :: "(jstring, (jstring \<times> jstring, member_eviction) jmap) jmap"
  gw_pendingMemberRevocations :: "(nat, (jstring \<times> jstring) \<times> jstring set) jmap"
  gw_scheduledCritical :: "jstring set"
  gw_criticalRetryTimers :: "(jstring, int) jmap"
  gw_pendingRecovery :: "jstring set"
  gw_recoveryInFlight :: bool
  gw_background :: "background list"
  gw_joinTails :: "join_tail list"
  gw_presence :: presence_store
  gw_locks :: lock_store
  gw_limiter :: rate_limiter
  gw_queue :: mutation_queue
  gw_db :: server_db

text \<open>What the world gives to a segment: the clock, a random UUID, whether the database failed to answer,
  and which of two concurrent queries it answers first.\<close>

record world =
  en_now :: int
  en_uuid :: jstring
  en_fails :: bool
  en_first :: bool

type_synonym 'a handler = "(world, gateway, gateway_error, 'a) async"

definition clientOf :: "gateway \<Rightarrow> jstring \<Rightarrow> client" where
  "clientOf g x = (case mapGet (gw_clients g) x of None \<Rightarrow> new_client | Some c \<Rightarrow> c)"

definition setClient :: "jstring \<Rightarrow> (client \<Rightarrow> client) \<Rightarrow> gateway \<Rightarrow> gateway" where
  "setClient x f g = g\<lparr>gw_clients := mapSet x (f (clientOf g x)) (gw_clients g)\<rparr>"

definition emit :: "jstring \<Rightarrow> server_event \<Rightarrow> gateway \<Rightarrow> gateway" where
  "emit x ev g = g\<lparr>gw_sent := gw_sent g @ [Emit x ev]\<rparr>"

text \<open>\<open>queueMicrotask(() => client.disconnect(true))\<close>.\<close>

definition closeLater :: "jstring \<Rightarrow> gateway \<Rightarrow> gateway" where
  "closeLater x g = g\<lparr>gw_closing := gw_closing g @ [x]\<rparr>"

definition connectedClients :: "gateway \<Rightarrow> jstring list" where
  "connectedClients g = filter (\<lambda>x. sk_connected (clientOf g x)) (mapKeys (gw_clients g))"

definition roomClients :: "jstring \<Rightarrow> gateway \<Rightarrow> jstring list" where
  "roomClients d g = filter (\<lambda>x. d \<in> sk_rooms (clientOf g x)) (connectedClients g)"

definition hasActiveAccessToken :: "int \<Rightarrow> collaboration_identity \<Rightarrow> bool" where
  "hasActiveAccessToken now i \<longleftrightarrow> now div 1000 < ci_accessTokenExpiresAt i"

definition projectMemberKey :: "jstring \<Rightarrow> jstring \<Rightarrow> jstring \<times> jstring" where
  "projectMemberKey pid uid = (pid, uid)"

definition hasCurrentProjectAccessForUser :: "jstring \<Rightarrow> jstring \<Rightarrow> gateway \<Rightarrow> bool" where
  "hasCurrentProjectAccessForUser pid uid g \<longleftrightarrow>
     mapGet (gw_revokedProjectMemberKeys g) (projectMemberKey pid uid) = None"

definition hasCurrentProjectAccess :: "jstring \<Rightarrow> jstring \<Rightarrow> gateway \<Rightarrow> bool" where
  "hasCurrentProjectAccess x d g =
     (case (sk_identity (clientOf g x), mapGet (sk_projects (clientOf g x)) d) of
        (Some i, Some pid) \<Rightarrow> pid = [] \<or> hasCurrentProjectAccessForUser pid (ci_userId i) g
      | _ \<Rightarrow> True)"

definition isJoinActive :: "jstring \<Rightarrow> jstring \<Rightarrow> gateway \<Rightarrow> bool" where
  "isJoinActive x d g \<longleftrightarrow> sk_connected (clientOf g x)
     \<and> (d \<in> sk_pending (clientOf g x) \<or> d \<in> sk_joined (clientOf g x))"

definition hasElement :: "document_row \<Rightarrow> jstring \<Rightarrow> bool" where
  "hasElement document elementId \<longleftrightarrow>
     list_ex (\<lambda>c. cl_id c = elementId) (dg_elements (cm_diagram (dc_canonicalModel document)))"

section \<open>Admission of connections\<close>

definition reserveSocket :: "gateway_params \<Rightarrow> jstring \<Rightarrow> jstring \<Rightarrow> gateway \<Rightarrow> gateway \<times> bool" where
  "reserveSocket P x sid g =
     (if cf_maxConnectedSockets P \<le> card (gw_connectedSocketIds g) then (g, False)
      else (let sessionSocketIds = (case mapGet (gw_socketIdsBySession g) sid of None \<Rightarrow> {} | Some s \<Rightarrow> s)
            in if cf_maxSocketsPerSession P \<le> card sessionSocketIds then (g, False)
               else (g\<lparr>gw_connectedSocketIds := insert x (gw_connectedSocketIds g),
                       gw_socketIdsBySession := mapSet sid (insert x sessionSocketIds) (gw_socketIdsBySession g)\<rparr>,
                     True)))"

definition releaseSocketReservation :: "jstring \<Rightarrow> gateway \<Rightarrow> gateway" where
  "releaseSocketReservation x g = (case sk_reservedSession (clientOf g x) of
      None \<Rightarrow> g
    | Some sid \<Rightarrow>
        if sid = [] then g
        else (let g1 = g\<lparr>gw_connectedSocketIds := gw_connectedSocketIds g - {x},
                   gw_socketIdsBySession := (case mapGet (gw_socketIdsBySession g) sid of
                       None \<Rightarrow> gw_socketIdsBySession g
                     | Some s \<Rightarrow> if s - {x} = {} then mapDelete sid (gw_socketIdsBySession g)
                                else mapSet sid (s - {x}) (gw_socketIdsBySession g))\<rparr>
              in setClient x (\<lambda>c. c\<lparr>sk_reservedSession := None\<rparr>) g1))"

section \<open>The queue and the listeners of the stores\<close>

text \<open>The synchronous half of a call of \<open>run\<close> or \<open>runCritical\<close>: the number of the
  operation, or \<open>None\<close> when the queue is full.\<close>

definition enqueueOperation ::
  "gateway_params \<Rightarrow> jstring \<Rightarrow> priority \<Rightarrow> gateway \<Rightarrow> gateway \<times> nat option" where
  "enqueueOperation P d priority g =
     (case enqueue (cf_maxPendingMutationsPerDocument P) d priority (gw_queue g) of
        None \<Rightarrow> (g, None)
      | Some q \<Rightarrow> (g\<lparr>gw_queue := q\<rparr>, Some (length (q_operations (gw_queue g)))))"

definition scheduleAuthorizedBroadcast ::
  "gateway_params \<Rightarrow> change_kind \<Rightarrow> jstring \<Rightarrow> gateway \<Rightarrow> gateway" where
  "scheduleAuthorizedBroadcast P kind d g = (case enqueueOperation P d Standard g of
     (g', i) \<Rightarrow> g'\<lparr>gw_background := gw_background g' @ [AuthorizedBroadcast d kind i]\<rparr>)"

text \<open>A call of a store, with the listeners of the changes it emitted.\<close>

definition withPresence ::
  "gateway_params \<Rightarrow> (presence_store \<Rightarrow> presence_store \<times> 'r) \<Rightarrow> gateway \<Rightarrow> gateway \<times> 'r" where
  "withPresence P f g = (case f (gw_presence g) of (s, r) \<Rightarrow>
     (fold (\<lambda>(d, _). scheduleAuthorizedBroadcast P PresenceChange d)
        (drop (length (ps_events (gw_presence g))) (ps_events s)) (g\<lparr>gw_presence := s\<rparr>), r))"

definition withLocks ::
  "gateway_params \<Rightarrow> (lock_store \<Rightarrow> lock_store \<times> 'r) \<Rightarrow> gateway \<Rightarrow> gateway \<times> 'r" where
  "withLocks P f g = (case f (gw_locks g) of (s, r) \<Rightarrow>
     (fold (\<lambda>(d, _). scheduleAuthorizedBroadcast P LockChange d)
        (drop (length (st_events (gw_locks g))) (st_events s)) (g\<lparr>gw_locks := s\<rparr>), r))"

section \<open>Leaving\<close>

definition onDisconnect :: "gateway_params \<Rightarrow> int \<Rightarrow> jstring \<Rightarrow> gateway \<Rightarrow> gateway" where
  "onDisconnect P now x g =
     (let g1 = setClient x (\<lambda>c. c\<lparr>sk_expiryTimer := None\<rparr>) (releaseSocketReservation x g);
          g2 = fst (withPresence P (leaveBySocket x) g1);
          g3 = fst (withLocks P (\<lambda>s. (releaseBySocket now x s, ())) g2)
      in setClient x (\<lambda>c. c\<lparr>sk_joined := {}, sk_projects := [], sk_pending := {}, sk_joinTail := None\<rparr>)
           (g3\<lparr>gw_limiter := releaseSocket x (gw_limiter g3)\<rparr>))"

text \<open>\<open>client.disconnect(true)\<close>: a connected socket leaves its rooms and is gone before the
  handler of the gateway runs.\<close>

definition disconnectClient :: "gateway_params \<Rightarrow> int \<Rightarrow> jstring \<Rightarrow> gateway \<Rightarrow> gateway" where
  "disconnectClient P now x g =
     (if sk_connected (clientOf g x)
      then onDisconnect P now x (setClient x (\<lambda>c. c\<lparr>sk_connected := False, sk_rooms := {}\<rparr>) g)
      else g)"

definition handleConnection :: "gateway_params \<Rightarrow> int \<Rightarrow> jstring \<Rightarrow> gateway \<Rightarrow> gateway" where
  "handleConnection P now x g =
     (if sk_identity (clientOf g x) = None then disconnectClient P now x g else g)"

definition disconnectRevoked :: "jstring \<Rightarrow> gateway \<Rightarrow> gateway" where
  "disconnectRevoked x g = closeLater x (emit x (SessionRevoked (failure SESSION_REVOKED None None)) g)"

definition disconnectExpiredToken :: "jstring \<Rightarrow> gateway \<Rightarrow> gateway" where
  "disconnectExpiredToken x g = closeLater x g"

definition onSessionRevoked :: "jstring \<Rightarrow> gateway \<Rightarrow> gateway" where
  "onSessionRevoked sid g =
     fold (\<lambda>x g. if map_option ci_sessionId (sk_identity (clientOf g x)) = Some sid then disconnectRevoked x g else g)
       (connectedClients g) g"

text \<open>\<open>removeDocumentState\<close> leaves the room, awaits that, and then runs this.\<close>

definition leaveRoom :: "jstring \<Rightarrow> jstring \<Rightarrow> gateway \<Rightarrow> gateway" where
  "leaveRoom x d = setClient x (\<lambda>c. c\<lparr>sk_rooms := sk_rooms c - {d}\<rparr>)"

definition removeFromStores :: "gateway_params \<Rightarrow> int \<Rightarrow> jstring \<Rightarrow> jstring \<Rightarrow> gateway \<Rightarrow> gateway" where
  "removeFromStores P now x d g =
     (let g1 = setClient x (\<lambda>c. c\<lparr>sk_joined := sk_joined c - {d}, sk_projects := mapDelete d (sk_projects c),
                  sk_pending := sk_pending c - {d}\<rparr>) g;
          g2 = fst (withPresence P (leave d x) g1)
      in fst (withLocks P (\<lambda>s. (releaseBySocketInDocument now x d s, ())) g2))"

section \<open>Changes of documents and projects\<close>

definition scheduleCriticalDocumentWork :: "gateway_params \<Rightarrow> jstring \<Rightarrow> gateway \<Rightarrow> gateway" where
  "scheduleCriticalDocumentWork P d g =
     (if d \<in> gw_scheduledCritical g \<or> mapGet (gw_criticalRetryTimers g) d \<noteq> None then g
      else (case enqueueOperation P d Critical (g\<lparr>gw_scheduledCritical := insert d (gw_scheduledCritical g)\<rparr>) of
        (g', i) \<Rightarrow> g'\<lparr>gw_background := gw_background g' @ [CriticalWork d i]\<rparr>))"

definition markDeleted :: "gateway_params \<Rightarrow> jstring \<Rightarrow> gateway \<Rightarrow> gateway" where
  "markDeleted P d g = scheduleCriticalDocumentWork P d
     (g\<lparr>gw_deletedDocumentIds := insert d (gw_deletedDocumentIds g),
        gw_pendingResyncChanges := mapDelete d (gw_pendingResyncChanges g)\<rparr>)"

fun handleExternalDocumentChange :: "gateway_params \<Rightarrow> document_change \<Rightarrow> gateway \<Rightarrow> gateway" where
  "handleExternalDocumentChange P (DocumentDeleted d) g = markDeleted P d g"
| "handleExternalDocumentChange P (ResyncRequired d revision ids) g =
     (if d \<in> gw_deletedDocumentIds g then g
      else scheduleCriticalDocumentWork P d
        (g\<lparr>gw_pendingResyncChanges := mapSet d \<lparr>rc_object = gw_nextObject g, rc_revision = revision,
              rc_activeElementIds = ids\<rparr> (gw_pendingResyncChanges g),
           gw_nextObject := Suc (gw_nextObject g)\<rparr>))"

definition evictMember ::
  "gateway_params \<Rightarrow> jstring \<times> jstring \<Rightarrow> jstring \<Rightarrow> nat \<Rightarrow> jstring \<Rightarrow> gateway \<Rightarrow> gateway" where
  "evictMember P k uid revocation d g =
     (let evictions = (case mapGet (gw_pendingMemberEvictions g) d of None \<Rightarrow> [] | Some es \<Rightarrow> es)
      in scheduleCriticalDocumentWork P d
           (g\<lparr>gw_pendingMemberEvictions := mapSet d
                (mapSet k \<lparr>ev_key = k, ev_userId = uid, ev_revocation = revocation\<rparr> evictions)
                (gw_pendingMemberEvictions g)\<rparr>))"

definition forgetRevocation :: "jstring \<times> jstring \<Rightarrow> gateway \<Rightarrow> gateway" where
  "forgetRevocation k g = (case mapGet (gw_revokedProjectMemberKeys g) k of
      None \<Rightarrow> g
    | Some revocation \<Rightarrow> g\<lparr>gw_pendingMemberRevocations := mapDelete revocation (gw_pendingMemberRevocations g)\<rparr>)"

fun handleProjectCollaborationChange :: "gateway_params \<Rightarrow> project_change \<Rightarrow> gateway \<Rightarrow> gateway" where
  "handleProjectCollaborationChange P (MemberGranted pid uid) g =
     (let k = projectMemberKey pid uid; g1 = forgetRevocation k g in
      g1\<lparr>gw_revokedProjectMemberKeys := mapDelete k (gw_revokedProjectMemberKeys g1)\<rparr>)"
| "handleProjectCollaborationChange P (MemberRemoved pid uid documentIds) g =
     (let k = projectMemberKey pid uid; g1 = forgetRevocation k g; revocation = gw_nextObject g1;
          g2 = g1\<lparr>gw_revokedProjectMemberKeys := mapSet k revocation (gw_revokedProjectMemberKeys g1),
                   gw_nextObject := Suc revocation\<rparr>
      in if set documentIds = {}
         then g2\<lparr>gw_revokedProjectMemberKeys := mapDelete k (gw_revokedProjectMemberKeys g2)\<rparr>
         else fold (evictMember P k uid revocation) (rev (remdups (rev documentIds)))
                (g2\<lparr>gw_pendingMemberRevocations :=
                     mapSet revocation (k, set documentIds) (gw_pendingMemberRevocations g2)\<rparr>))"
| "handleProjectCollaborationChange P (ProjectDeleted pid documentIds) g =
     fold (markDeleted P) documentIds g"

definition hasCriticalDocumentWork :: "jstring \<Rightarrow> gateway \<Rightarrow> bool" where
  "hasCriticalDocumentWork d g \<longleftrightarrow> d \<in> gw_deletedDocumentIds g
     \<or> mapGet (gw_pendingMemberEvictions g) d \<noteq> None \<or> mapGet (gw_pendingResyncChanges g) d \<noteq> None
     \<or> d \<in> gw_pendingRecovery g"

definition scheduleCriticalDocumentRetry :: "int \<Rightarrow> jstring \<Rightarrow> gateway \<Rightarrow> gateway" where
  "scheduleCriticalDocumentRetry now d g =
     (if mapGet (gw_criticalRetryTimers g) d \<noteq> None then g
      else g\<lparr>gw_criticalRetryTimers := mapSet d (now + 1000) (gw_criticalRetryTimers g)\<rparr>)"

definition retryTimerFires :: "gateway_params \<Rightarrow> jstring \<Rightarrow> gateway \<Rightarrow> gateway" where
  "retryTimerFires P d g =
     (let g1 = g\<lparr>gw_criticalRetryTimers := mapDelete d (gw_criticalRetryTimers g)\<rparr> in
      if hasCriticalDocumentWork d g1 then scheduleCriticalDocumentWork P d g1 else g1)"

definition completeMemberEviction :: "jstring \<Rightarrow> member_eviction \<Rightarrow> gateway \<Rightarrow> gateway" where
  "completeMemberEviction d eviction g =
     (case mapGet (gw_pendingMemberRevocations g) (ev_revocation eviction) of
        None \<Rightarrow> g
      | Some (k, documentIds) \<Rightarrow>
          if documentIds - {d} \<noteq> {}
          then g\<lparr>gw_pendingMemberRevocations :=
                  mapSet (ev_revocation eviction) (k, documentIds - {d}) (gw_pendingMemberRevocations g)\<rparr>
          else g\<lparr>gw_pendingMemberRevocations := mapDelete (ev_revocation eviction) (gw_pendingMemberRevocations g),
                 gw_revokedProjectMemberKeys :=
                   (if mapGet (gw_revokedProjectMemberKeys g) k = Some (ev_revocation eviction)
                    then mapDelete k (gw_revokedProjectMemberKeys g) else gw_revokedProjectMemberKeys g)\<rparr>)"

definition completeMemberEvictions ::
  "jstring \<Rightarrow> (jstring \<times> jstring, member_eviction) jmap option \<Rightarrow> gateway \<Rightarrow> gateway" where
  "completeMemberEvictions d evictions g = (case evictions of
      None \<Rightarrow> g
    | Some es \<Rightarrow> fold (completeMemberEviction d) (mapValues es) g)"

section \<open>Shutdown\<close>

definition onModuleDestroy :: "gateway \<Rightarrow> gateway" where
  "onModuleDestroy g = g\<lparr>gw_revokedProjectMemberKeys := [], gw_deletedDocumentIds := {}, gw_pendingResyncChanges := [],
     gw_pendingMemberEvictions := [], gw_pendingMemberRevocations := [], gw_scheduledCritical := {},
     gw_criticalRetryTimers := [], gw_pendingRecovery := {}, gw_connectedSocketIds := {}, gw_socketIdsBySession := []\<rparr>"

end
