(* ===== verification/Gateway_Broadcast.thy ===== *)
theory Gateway_Broadcast
  imports Gateway_State
begin

text \<open>
  The parts of the gateway that wait: calls of the database, the two queues, the checks of a request, and
  the broadcast to the room of a document, which asks the database who may still receive it.
\<close>

section \<open>Waiting\<close>

text \<open>A query of the database and a statement that changes it are sent with the clock of the segment that
  awaits them. The database answers at a moment of its own, or fails, and the program goes on later still,
  when the database may have changed again.\<close>

definition answerA :: "(gateway \<Rightarrow> 'r) \<Rightarrow> 'r handler" where
  "answerA f = Await (\<lambda>_. True) (Read (\<lambda>e g. if en_fails e then Throw OtherError else Return (f g)))"

definition queryA :: "(world \<Rightarrow> gateway \<Rightarrow> 'r) \<Rightarrow> 'r handler" where
  "queryA f = Read (\<lambda>e _. thenA (answerA (f e)) (\<lambda>r. thenA pauseA (\<lambda>_. Return r)))"

definition statementA :: "(world \<Rightarrow> server_db \<Rightarrow> server_db \<times> 'r) \<Rightarrow> 'r handler" where
  "statementA f = Read (\<lambda>e _. Await (\<lambda>_. True) (Read (\<lambda>e' g. if en_fails e' then Throw OtherError
     else (case f e (gw_db g) of (db, r) \<Rightarrow> Write (g\<lparr>gw_db := db\<rparr>) (thenA pauseA (\<lambda>_. Return r))))))"

text \<open>\<open>Promise.all\<close> of two queries: the database answers them in either order.\<close>

definition bothA :: "(world \<Rightarrow> gateway \<Rightarrow> 'r) \<Rightarrow> (world \<Rightarrow> gateway \<Rightarrow> 'q) \<Rightarrow> ('r \<times> 'q) handler" where
  "bothA f1 f2 = Read (\<lambda>e _.
     thenA (if en_first e
            then thenA (answerA (f1 e)) (\<lambda>r. thenA (answerA (f2 e)) (\<lambda>q. Return (r, q)))
            else thenA (answerA (f2 e)) (\<lambda>q. thenA (answerA (f1 e)) (\<lambda>r. Return (r, q))))
       (\<lambda>both. thenA pauseA (\<lambda>_. Return both)))"

text \<open>The second half of a call of \<open>run\<close>, once the operation has its number on the queue.\<close>

definition runQueued :: "nat \<Rightarrow> 'r handler \<Rightarrow> 'r handler" where
  "runQueued i operation = Await (\<lambda>g. previous_settled (gw_queue g) i)
     (thenA (modifyA (\<lambda>_ g. g\<lparr>gw_queue := start i (gw_queue g)\<rparr>)) (\<lambda>_.
      finallyA operation (modifyA (\<lambda>_ g. g\<lparr>gw_queue := finish i (gw_queue g)\<rparr>))))"

definition queueRun :: "gateway_params \<Rightarrow> jstring \<Rightarrow> 'r handler \<Rightarrow> 'r handler" where
  "queueRun P d operation = thenA (callA (\<lambda>_. enqueueOperation P d Standard)) (\<lambda>i.
     case i of None \<Rightarrow> Throw QueueOverloaded | Some i \<Rightarrow> runQueued i operation)"

definition tail_settled :: "gateway \<Rightarrow> nat option \<Rightarrow> bool" where
  "tail_settled g i = (case i of None \<Rightarrow> True | Some i \<Rightarrow> jt_settled (gw_joinTails g ! i))"

definition releaseJoin :: "nat \<Rightarrow> jstring \<Rightarrow> gateway \<Rightarrow> gateway" where
  "releaseJoin i x g =
     (let g1 = g\<lparr>gw_joinTails := (gw_joinTails g)[i := (gw_joinTails g ! i)\<lparr>jt_released := True\<rparr>]\<rparr> in
      if sk_joinTail (clientOf g1 x) = Some i then setClient x (\<lambda>c. c\<lparr>sk_joinTail := None\<rparr>) g1 else g1)"

definition runSocketJoin :: "jstring \<Rightarrow> 'r handler \<Rightarrow> 'r handler" where
  "runSocketJoin x operation = thenA (callA (\<lambda>_ g.
       let previous = sk_joinTail (clientOf g x); i = length (gw_joinTails g) in
       (setClient x (\<lambda>c. c\<lparr>sk_joinTail := Some i\<rparr>) (g\<lparr>gw_joinTails := gw_joinTails g
          @ [\<lparr>jt_previous = previous, jt_released = False, jt_settled = False\<rparr>]\<rparr>), (i, previous))))
     (\<lambda>(i, previous). Await (\<lambda>g. tail_settled g previous)
        (finallyA operation (modifyA (\<lambda>_. releaseJoin i x))))"

section \<open>Checks of a request\<close>

definition replyA :: "nat \<Rightarrow> reply \<Rightarrow> unit handler" where
  "replyA a r = modifyA (\<lambda>_ g. g\<lparr>gw_sent := gw_sent g @ [Ack a r]\<rparr>)"

definition validateA :: "'p option \<Rightarrow> 'p handler" where
  "validateA payload = (case payload of None \<Rightarrow> Throw PayloadError | Some p \<Rightarrow> Return p)"

definition identityA :: "jstring \<Rightarrow> collaboration_identity handler" where
  "identityA x = Read (\<lambda>e g. case sk_identity (clientOf g x) of
      None \<Rightarrow> Throw (OperationError UNAUTHENTICATED None) | Some i \<Rightarrow> Return i)"

definition requireLocalIdentity :: "jstring \<Rightarrow> collaboration_identity handler" where
  "requireLocalIdentity x = thenA (identityA x) (\<lambda>i.
     thenA (ensureA (\<lambda>e _. hasActiveAccessToken (en_now e) i) (OperationError UNAUTHENTICATED None)) (\<lambda>_. Return i))"

definition sessionActiveA :: "gateway_params \<Rightarrow> collaboration_identity \<Rightarrow> bool handler" where
  "sessionActiveA P i =
     (if \<not> gp_isUUID P (ci_userId i) \<or> \<not> gp_isUUID P (ci_sessionId i) then thenA pauseA (\<lambda>_. Return False)
      else queryA (\<lambda>e g. isSessionActive (gp_isUUID P) (en_now e) (ci_userId i) (ci_sessionId i)
             (auth_db.truncate (gw_db g))))"

definition assertActiveSession :: "gateway_params \<Rightarrow> jstring \<Rightarrow> unit handler" where
  "assertActiveSession P x = thenA (requireLocalIdentity x) (\<lambda>i. thenA (sessionActiveA P i) (\<lambda>active.
     if active then Return () else Throw (OperationError SESSION_REVOKED None)))"

definition assertCurrentProjectAccess :: "jstring \<Rightarrow> jstring \<Rightarrow> unit handler" where
  "assertCurrentProjectAccess pid uid =
     ensureA (\<lambda>_. hasCurrentProjectAccessForUser pid uid) (OperationError NOT_FOUND None)"

definition getAuthorizedDocumentOrThrow :: "gateway_params \<Rightarrow> jstring \<Rightarrow> jstring \<Rightarrow> document_row handler" where
  "getAuthorizedDocumentOrThrow P x d =
     thenA (assertActiveSession P x) (\<lambda>_.
     thenA (identityA x) (\<lambda>i.
     thenA (queryA (\<lambda>_ g. getAuthorizedDocument d (ci_userId i) (gw_db g))) (\<lambda>r. case r of
         None \<Rightarrow> Throw (OperationError NOT_FOUND None)
       | Some document \<Rightarrow>
           thenA (identityA x) (\<lambda>i.
           thenA (assertCurrentProjectAccess (dc_projectId document) (ci_userId i)) (\<lambda>_. Return document)))))"

definition authenticationFailure :: "jstring \<Rightarrow> gateway_error \<Rightarrow> gateway \<Rightarrow> gateway" where
  "authenticationFailure x err g = (case err of
      OperationError code _ \<Rightarrow>
        if code = SESSION_REVOKED then disconnectRevoked x g
        else if code = UNAUTHENTICATED then disconnectExpiredToken x g else g
    | _ \<Rightarrow> g)"

definition disconnectForAuthenticationFailure :: "jstring \<Rightarrow> gateway_error \<Rightarrow> unit handler" where
  "disconnectForAuthenticationFailure x err = modifyA (\<lambda>_. authenticationFailure x err)"

text \<open>Reply with a failure and disconnect when the failure is one of the authentication.\<close>

definition refuseA :: "jstring \<Rightarrow> nat \<Rightarrow> jstring option \<Rightarrow> gateway_error \<Rightarrow> unit handler" where
  "refuseA x a operationId err = thenA (replyA a (FailureReply (toFailure err operationId))) (\<lambda>_.
     disconnectForAuthenticationFailure x err)"

definition requireAuthorizedDocument ::
  "gateway_params \<Rightarrow> jstring \<Rightarrow> jstring \<Rightarrow> nat \<Rightarrow> document_row option handler" where
  "requireAuthorizedDocument P x d a =
     catchA (thenA (getAuthorizedDocumentOrThrow P x d) (\<lambda>document. Return (Some document)))
       (\<lambda>err. thenA (refuseA x a None err) (\<lambda>_. Return None))"

definition requireActiveSession :: "gateway_params \<Rightarrow> jstring \<Rightarrow> nat \<Rightarrow> bool handler" where
  "requireActiveSession P x a =
     catchA (thenA (assertActiveSession P x) (\<lambda>_. Return True))
       (\<lambda>err. thenA (refuseA x a None err) (\<lambda>_. Return False))"

definition allowControlEventA :: "gateway_params \<Rightarrow> jstring \<Rightarrow> bool handler" where
  "allowControlEventA P x = callA (\<lambda>e g.
     case allowControlEvent x (cf_controlEventLimit P) (cf_controlEventWindowMs P) (en_now e) (gw_limiter g) of
       (ok, l) \<Rightarrow> (g\<lparr>gw_limiter := l\<rparr>, ok))"

definition allowCommandA :: "gateway_params \<Rightarrow> jstring \<Rightarrow> bool handler" where
  "allowCommandA P x = callA (\<lambda>e g.
     case allowCommand x (cf_commandLimit P) (cf_commandWindowMs P) (en_now e) (gw_limiter g) of
       (ok, l) \<Rightarrow> (g\<lparr>gw_limiter := l\<rparr>, ok))"

definition admitEvent :: "bool handler \<Rightarrow> jstring \<Rightarrow> nat \<Rightarrow> jstring option \<Rightarrow> bool handler" where
  "admitEvent admission x a operationId =
     thenA (catchA (thenA (requireLocalIdentity x) (\<lambda>_. Return True))
              (\<lambda>err. thenA (refuseA x a operationId err) (\<lambda>_. Return False))) (\<lambda>known.
     if \<not> known then Return False
     else thenA admission (\<lambda>ok.
       if ok then Return True
       else thenA (replyA a (FailureReply (failure RATE_LIMITED operationId None))) (\<lambda>_. Return False)))"

definition admitControlEvent :: "gateway_params \<Rightarrow> jstring \<Rightarrow> nat \<Rightarrow> bool handler" where
  "admitControlEvent P x a = admitEvent (allowControlEventA P x) x a None"

definition admitCommand :: "gateway_params \<Rightarrow> jstring \<Rightarrow> nat \<Rightarrow> jstring option \<Rightarrow> bool handler" where
  "admitCommand P x a operationId = admitEvent (allowCommandA P x) x a operationId"

section \<open>Leaving a document\<close>

definition finishRemoval :: "gateway_params \<Rightarrow> jstring \<Rightarrow> jstring \<Rightarrow> unit handler" where
  "finishRemoval P x d = modifyA (\<lambda>e. removeFromStores P (en_now e) x d)"

definition removeDocumentState :: "gateway_params \<Rightarrow> jstring \<Rightarrow> jstring \<Rightarrow> unit handler" where
  "removeDocumentState P x d = thenA (modifyA (\<lambda>_. leaveRoom x d)) (\<lambda>_. thenA pauseA (\<lambda>_. finishRemoval P x d))"

text \<open>\<open>revokeDocumentAccess\<close> up to its \<open>await\<close>; what follows is
  \<open>finishRemoval\<close>.\<close>

definition revokeDocumentAccess :: "jstring \<Rightarrow> jstring \<Rightarrow> gateway \<Rightarrow> gateway" where
  "revokeDocumentAccess x d g =
     leaveRoom x d (emit x (DocumentAccessRevoked d (failure FORBIDDEN None None)) g)"

definition finishRemovals :: "gateway_params \<Rightarrow> jstring \<Rightarrow> jstring list \<Rightarrow> unit handler" where
  "finishRemovals P d xs = forEachA (\<lambda>x. thenA pauseA (\<lambda>_. finishRemoval P x d)) xs"

section \<open>Broadcasting\<close>

text \<open>The first loop over the sockets of the room. A removal that nobody waits for goes on in the
  background.\<close>

definition recipientIdentity ::
  "gateway_params \<Rightarrow> jstring \<Rightarrow> jstring \<Rightarrow> collaboration_identity list handler" where
  "recipientIdentity P d x = callA (\<lambda>e g. case sk_identity (clientOf g x) of
      None \<Rightarrow> (disconnectClient P (en_now e) x g, [])
    | Some i \<Rightarrow>
        if \<not> hasActiveAccessToken (en_now e) i then (disconnectExpiredToken x g, [])
        else if \<not> hasCurrentProjectAccess x d g
        then ((revokeDocumentAccess x d g)\<lparr>gw_background := gw_background g @ [FinishRemoval x d]\<rparr>, [])
        else (g, [i]))"

text \<open>The second loop, after the database has answered: what it tells is decided by those answers and by
  the state of the gateway in this segment. It returns the sockets to remove.\<close>

definition deliverTo ::
  "gateway_params \<Rightarrow> jstring \<Rightarrow> server_event \<Rightarrow> jstring option \<Rightarrow> broadcast_authorization \<Rightarrow> jstring
     \<Rightarrow> jstring list handler" where
  "deliverTo P d ev excluded authorization x = callA (\<lambda>e g.
     if excluded = Some x \<or> d \<notin> sk_rooms (clientOf g x) then (g, [])
     else case sk_identity (clientOf g x) of
       None \<Rightarrow> (disconnectClient P (en_now e) x g, [])
     | Some i \<Rightarrow>
         if \<not> hasActiveAccessToken (en_now e) i then (disconnectExpiredToken x g, [])
         else if \<not> hasCurrentProjectAccess x d g then (revokeDocumentAccess x d g, [x])
         else if (ci_userId i, ci_sessionId i) \<notin> ba_activeSessions authorization then (disconnectRevoked x g, [])
         else if \<not> ba_documentExists authorization \<or> ci_userId i \<notin> ba_authorizedUserIds authorization
         then (revokeDocumentAccess x d g, [x])
         else if d \<in> gw_deletedDocumentIds g then (g, [])
         else (emit x ev g, []))"

definition getBroadcastAuthorization ::
  "jstring \<Rightarrow> collaboration_identity list \<Rightarrow> broadcast_authorization handler" where
  "getBroadcastAuthorization d identities =
     (if identities = [] then thenA pauseA (\<lambda>_. Return (broadcastAuthorization {} None))
      else thenA (bothA (\<lambda>e g. activeSessionsOf (en_now e) identities (gw_db g))
                    (\<lambda>_ g. authorizedUsersOf d identities (gw_db g)))
             (\<lambda>(sessions, document). Return (broadcastAuthorization sessions document)))"

definition broadcastToAuthorizedRoom ::
  "gateway_params \<Rightarrow> jstring \<Rightarrow> server_event \<Rightarrow> jstring option \<Rightarrow> unit handler" where
  "broadcastToAuthorizedRoom P d ev excluded = Read (\<lambda>_ g.
     if d \<in> gw_deletedDocumentIds g then Return ()
     else (let recipients = roomClients d g in
       thenA (flatMapA (recipientIdentity P d) recipients) (\<lambda>identities.
       thenA (getBroadcastAuthorization d identities) (\<lambda>authorization.
       thenA (flatMapA (deliverTo P d ev excluded authorization) recipients) (\<lambda>removals.
       finishRemovals P d removals)))))"

end
