(* ===== verification/Gateway_Handlers.thy ===== *)
theory Gateway_Handlers
  imports Gateway_Broadcast
begin

text \<open>
  The handlers of the gateway, each as one program in the order of the source: the handshake, the seven
  requests of a client, and the work in the background (broadcasts of presence and locks, critical work
  on a document, recovery of undelivered operations). A payload is \<open>None\<close> when the contract
  validator throws, an acknowledgement callback is a number and \<open>None\<close> when the client sent none.
\<close>

section \<open>The handshake\<close>

definition rememberPrincipal :: "int \<Rightarrow> principal \<Rightarrow> client \<Rightarrow> client" where
  "rememberPrincipal now p c = c\<lparr>sk_reservedSession := Some (pn_sessionId p),
     sk_identity := Some \<lparr>ci_userId = us_id p, ci_sessionId = pn_sessionId p,
       ci_accessTokenExpiresAt = pn_accessTokenExpiresAt p\<rparr>,
     sk_joined := {}, sk_projects := [],
     sk_expiryTimer := Some (now + max 1 (pn_accessTokenExpiresAt p * 1000 - now))\<rparr>"

text \<open>The middleware; the result says whether it called \<open>next()\<close> without an error.\<close>

definition handshake :: "gateway_params \<Rightarrow> jstring \<Rightarrow> jstring option \<Rightarrow> bool handler" where
  "handshake P x token = (case token of
      None \<Rightarrow> Return False
    | Some t \<Rightarrow>
        catchA
          (thenA (queryA (\<lambda>e g. verifyAccessToken (gp_isUUID P) (gp_verifyJwt P) (en_now e) t
               (auth_db.truncate (gw_db g)))) (\<lambda>r. case r of
             Inl _ \<Rightarrow> Throw OtherError
           | Inr account \<Rightarrow>
               thenA (getsA (\<lambda>_ g. sk_transportClosed (clientOf g x))) (\<lambda>transportClosed.
               if transportClosed then Return False
               else thenA (callA (\<lambda>_. reserveSocket P x (pn_sessionId account))) (\<lambda>reserved.
                 if \<not> reserved then Return False
                 else thenA (modifyA (\<lambda>e. setClient x (rememberPrincipal (en_now e) account))) (\<lambda>_.
                   Return True)))))
          (\<lambda>_. thenA (modifyA (\<lambda>_. releaseSocketReservation x)) (\<lambda>_. Return False)))"

text \<open>The server connects a socket whose middleware has passed, unless its transport has closed.\<close>

definition connectA :: "gateway_params \<Rightarrow> jstring \<Rightarrow> jstring option \<Rightarrow> unit handler" where
  "connectA P x token = thenA (handshake P x token) (\<lambda>ok. whenA ok (thenA pauseA (\<lambda>_. modifyA (\<lambda>e g.
     if sk_transportClosed (clientOf g x) then g
     else handleConnection P (en_now e) x (setClient x (\<lambda>c. c\<lparr>sk_connected := True\<rparr>) g)))))"

definition transportCloses :: "jstring \<Rightarrow> gateway \<Rightarrow> gateway" where
  "transportCloses x g = releaseSocketReservation x (setClient x (\<lambda>c. c\<lparr>sk_transportClosed := True\<rparr>) g)"

section \<open>Joining and leaving\<close>

definition presenceA :: "gateway_params \<Rightarrow> (world \<Rightarrow> presence_store \<Rightarrow> presence_store \<times> 'r) \<Rightarrow> 'r handler" where
  "presenceA P f = callA (\<lambda>e. withPresence P (f e))"

definition locksA :: "gateway_params \<Rightarrow> (world \<Rightarrow> lock_store \<Rightarrow> lock_store \<times> 'r) \<Rightarrow> 'r handler" where
  "locksA P f = callA (\<lambda>e. withLocks P (f e))"

definition ensureJoinActive :: "jstring \<Rightarrow> jstring \<Rightarrow> unit handler" where
  "ensureJoinActive x d = ensureA (\<lambda>_. isJoinActive x d) (OperationError NOT_JOINED None)"

text \<open>After the session was found active once more.\<close>

definition confirmJoin :: "gateway_params \<Rightarrow> jstring \<Rightarrow> jstring \<Rightarrow> document_row \<Rightarrow> collaboration_identity \<Rightarrow> unit handler" where
  "confirmJoin P x d document i =
     catchA
       (thenA (assertActiveSession P x) (\<lambda>_.
        thenA (ensureJoinActive x d) (\<lambda>_.
        assertCurrentProjectAccess (dc_projectId document) (ci_userId i))))
       (\<lambda>err. thenA (removeDocumentState P x d) (\<lambda>_. Throw err))"

text \<open>From \<open>await client.join\<close> to the entry in the two sets of the socket. A failure leaves the
  room before it is thrown.\<close>

definition leaveRoomAndThrow :: "jstring \<Rightarrow> jstring \<Rightarrow> collaboration_error_code \<Rightarrow> 'r handler" where
  "leaveRoomAndThrow x d code = thenA (modifyA (\<lambda>_. leaveRoom x d)) (\<lambda>_. thenA pauseA (\<lambda>_.
     Throw (OperationError code None)))"

definition enterDocument ::
  "gateway_params \<Rightarrow> jstring \<Rightarrow> jstring \<Rightarrow> document_row \<Rightarrow> collaboration_identity \<Rightarrow> participant list handler" where
  "enterDocument P x d document i =
     thenA (modifyA (\<lambda>_. setClient x (\<lambda>c. c\<lparr>sk_rooms := insert d (sk_rooms c)\<rparr>))) (\<lambda>_.
     thenA pauseA (\<lambda>_.
     thenA (getsA (\<lambda>_. isJoinActive x d)) (\<lambda>active.
     if \<not> active then leaveRoomAndThrow x d NOT_JOINED
     else thenA (presenceA P (\<lambda>e. join (en_now e) d (ci_userId i) x (cf_maxParticipantsPerDocument P))) (\<lambda>r.
       case r of
         None \<Rightarrow> leaveRoomAndThrow x d RATE_LIMITED
       | Some participants \<Rightarrow>
           thenA (getsA (\<lambda>_. isJoinActive x d)) (\<lambda>active.
           if \<not> active
           then thenA (presenceA P (\<lambda>_ s. (fst (leave d x s), ()))) (\<lambda>_. leaveRoomAndThrow x d NOT_JOINED)
           else thenA (modifyA (\<lambda>_. setClient x (\<lambda>c. c\<lparr>sk_joined := insert d (sk_joined c),
                    sk_projects := mapSet d (dc_projectId document) (sk_projects c),
                    sk_pending := sk_pending c - {d}\<rparr>))) (\<lambda>_.
             Return participants))))))"

definition joinInQueue :: "gateway_params \<Rightarrow> jstring \<Rightarrow> nat \<Rightarrow> join_payload \<Rightarrow> unit handler" where
  "joinInQueue P x a input = (let d = jn_documentId input in
     thenA (ensureJoinActive x d) (\<lambda>_.
     thenA (getAuthorizedDocumentOrThrow P x d) (\<lambda>document.
     thenA (ensureJoinActive x d) (\<lambda>_.
     thenA (ensureA (\<lambda>_ g. d \<in> sk_joined (clientOf g x)
         \<or> card (sk_joined (clientOf g x)) < cf_maxDocumentsPerSocket P) (OperationError RATE_LIMITED None)) (\<lambda>_.
     thenA (identityA x) (\<lambda>i.
     thenA (enterDocument P x d document i) (\<lambda>participants.
     thenA (confirmJoin P x d document i) (\<lambda>_.
     let resyncRequired = (jn_knownRevision input \<noteq> None \<and> jn_knownRevision input \<noteq> Some (dc_revision document)) in
     thenA (locksA P (\<lambda>e. list_locks (en_now e) d)) (\<lambda>locks.
     replyA a (JoinReply d (dc_revision document)
       (if jn_knownRevision input = None \<or> resyncRequired then Some (dc_canonicalModel document) else None)
       resyncRequired participants locks))))))))))"

definition setPending :: "jstring \<Rightarrow> (jstring set \<Rightarrow> jstring set) \<Rightarrow> gateway \<Rightarrow> gateway" where
  "setPending x f = setClient x (\<lambda>c. c\<lparr>sk_pending := f (sk_pending c)\<rparr>)"

definition joinDocument :: "gateway_params \<Rightarrow> jstring \<Rightarrow> nat option \<Rightarrow> join_payload option \<Rightarrow> unit handler" where
  "joinDocument P x ack payload = (case ack of None \<Rightarrow> Return () | Some a \<Rightarrow>
     catchA
       (thenA (admitControlEvent P x a) (\<lambda>ok. whenA ok (
        thenA (validateA payload) (\<lambda>input. let d = jn_documentId input in
        catchA
          (thenA (modifyA (\<lambda>_. setPending x (insert d))) (\<lambda>_.
           runSocketJoin x (queueRun P d (joinInQueue P x a input))))
          (\<lambda>err. thenA (modifyA (\<lambda>_. setPending x (\<lambda>ds. ds - {d}))) (\<lambda>_. Throw err))))))
       (\<lambda>err. refuseA x a None err))"

definition leaveDocument :: "gateway_params \<Rightarrow> jstring \<Rightarrow> nat option \<Rightarrow> jstring option \<Rightarrow> unit handler" where
  "leaveDocument P x ack payload = (case ack of None \<Rightarrow> Return () | Some a \<Rightarrow>
     catchA
       (thenA (admitControlEvent P x a) (\<lambda>ok. whenA ok (
        thenA (validateA payload) (\<lambda>d.
        thenA (requireActiveSession P x a) (\<lambda>active. whenA active (
        thenA (getsA (\<lambda>_ g. d \<in> sk_joined (clientOf g x))) (\<lambda>joined.
        thenA (callA (\<lambda>_ g. (setPending x (\<lambda>ds. ds - {d}) g, d \<in> sk_pending (clientOf g x)))) (\<lambda>pending.
        if \<not> joined \<and> \<not> pending then replyA a (FailureReply (failure NOT_JOINED None None))
        else thenA (whenA joined (removeDocumentState P x d)) (\<lambda>_. replyA a (LeaveReply d))))))))))
       (\<lambda>err. replyA a (FailureReply (toFailure err None))))"

definition ensureJoined :: "jstring \<Rightarrow> jstring \<Rightarrow> unit handler" where
  "ensureJoined x d = ensureA (\<lambda>_ g. d \<in> sk_joined (clientOf g x)) (OperationError NOT_JOINED None)"

section \<open>Commands\<close>

definition throwProcess :: "process_error \<Rightarrow> 'r handler" where
  "throwProcess err = Throw (case err of
      CollaborationOperationError code currentRevision \<Rightarrow> OperationError code currentRevision
    | KnownUniqueConstraint \<Rightarrow> OtherError
    | DatabaseError \<Rightarrow> OtherError)"

text \<open>The transaction of \<open>DocumentCommandService.process\<close>, which is awaited when it begins and
  when it ends: other code runs between its statements, and the locks are looked at when the command was
  executed.\<close>

definition processTransaction ::
  "gateway_params \<Rightarrow> collaboration_identity \<Rightarrow> document_command \<Rightarrow> jstring \<Rightarrow> jstring
     \<Rightarrow> (process_error + processed_command) handler" where
  "processTransaction P i input fp x =
     thenA pauseA (\<lambda>_.
     thenA (queryA (\<lambda>e g. lockCommandAuthorization (gp_isUUID P) (en_now e) i (dm_documentId input) (gw_db g))) (\<lambda>r.
     case r of
       Inl err \<Rightarrow> Return (Inl err)
     | Inr document \<Rightarrow>
         thenA (queryA (\<lambda>_. gw_db)) (\<lambda>db.
         thenA (locksA P (\<lambda>e s. prepareCommand (gp_schema P) (gp_lowerEs P) (en_now e) i input fp x document s db)) (\<lambda>r.
         case r of
           Inl err \<Rightarrow> Return (Inl err)
         | Inr (Document_Commands.Finished c) \<Rightarrow> Return (Inr c)
         | Inr (Prepared m elementIds committedAt) \<Rightarrow>
             statementA (\<lambda>e. commitCommand (en_uuid e) i input fp m elementIds committedAt)))))"

definition processA ::
  "gateway_params \<Rightarrow> collaboration_identity \<Rightarrow> document_command \<Rightarrow> jstring \<Rightarrow> processed_command handler" where
  "processA P i input x =
     (let fp = commandFingerprint (gp_showNumber P) (gp_sha256 P) (dm_baseRevision input) (dm_command input) in
      thenA (processTransaction P i input fp x) (\<lambda>r. thenA pauseA (\<lambda>_. case r of
          Inr c \<Rightarrow> Return c
        | Inl KnownUniqueConstraint \<Rightarrow>
            thenA (queryA (\<lambda>e g. findExistingForActor (gp_isUUID P) (en_now e) i input fp (gw_db g))) (\<lambda>r.
            case r of
              Inl err \<Rightarrow> throwProcess err
            | Inr (Some duplicate) \<Rightarrow> Return duplicate
            | Inr None \<Rightarrow> throwProcess KnownUniqueConstraint)
        | Inl err \<Rightarrow> throwProcess err)))"

text \<open>Telling the others: the operation when it is still the last one, else that they have to reload.\<close>

definition announceCommand ::
  "gateway_params \<Rightarrow> jstring \<Rightarrow> collaboration_identity \<Rightarrow> jstring \<Rightarrow> processed_command \<Rightarrow> unit handler" where
  "announceCommand P x i d committed =
     thenA (queryA (\<lambda>_ g. getCurrentDocument d (gw_db g))) (\<lambda>r. case r of
       None \<Rightarrow> Return ()
     | Some currentDocument \<Rightarrow>
         thenA (locksA P (\<lambda>e s. (reconcileDocumentElements (en_now e) d
             (set (activeElementIds (dc_canonicalModel currentDocument))) s, ()))) (\<lambda>_.
         thenA
           (if dc_revision currentDocument = pc_revision committed
            then broadcastToAuthorizedRoom P d (DocumentOperationEvent \<lparr>oe_operationId = pc_operationId committed,
                oe_documentId = pc_documentId committed, oe_actorId = ci_userId i,
                oe_baseRevision = pc_baseRevision committed, oe_revision = pc_revision committed,
                oe_command = pc_command committed, oe_committedAt = pc_committedAt committed\<rparr>) (Some x)
            else broadcastToAuthorizedRoom P d (DocumentResyncRequired d (dc_revision currentDocument)) None) (\<lambda>_.
         statementA (\<lambda>e db. (markBroadcastDelivered (en_now e) d (pc_operationId committed) db, ())))))"

definition commandInQueue :: "gateway_params \<Rightarrow> jstring \<Rightarrow> document_command \<Rightarrow> reply handler" where
  "commandInQueue P x input = (let d = dm_documentId input in
     thenA (getAuthorizedDocumentOrThrow P x d) (\<lambda>_.
     thenA (ensureJoined x d) (\<lambda>_.
     thenA (identityA x) (\<lambda>i.
     thenA (processA P i input x) (\<lambda>committed.
     thenA (presenceA P (\<lambda>e s. (touch (en_now e) d x s, ()))) (\<lambda>_.
     thenA (whenA (pc_requiresBroadcast committed) (announceCommand P x i d committed)) (\<lambda>_.
     Return (CommandReply (pc_operationId committed) (pc_documentId committed) (pc_revision committed)
       (pc_committedAt committed)))))))))"

text \<open>\<open>operationId\<close> is what \<open>operationIdFromPayload\<close> finds in the payload, valid or not.\<close>

definition executeCommand ::
  "gateway_params \<Rightarrow> jstring \<Rightarrow> nat option \<Rightarrow> jstring option \<Rightarrow> document_command option \<Rightarrow> unit handler" where
  "executeCommand P x ack operationId payload = (case ack of None \<Rightarrow> Return () | Some a \<Rightarrow>
     catchA
       (thenA (admitCommand P x a operationId) (\<lambda>ok. whenA ok (
        thenA (validateA payload) (\<lambda>input.
        thenA (queueRun P (dm_documentId input) (commandInQueue P x input)) (\<lambda>response.
        replyA a response)))))
       (\<lambda>err. refuseA x a operationId err))"

section \<open>Presence\<close>

definition updatePresence :: "gateway_params \<Rightarrow> jstring \<Rightarrow> nat option \<Rightarrow> presence_payload option \<Rightarrow> unit handler" where
  "updatePresence P x ack payload = (case ack of None \<Rightarrow> Return () | Some a \<Rightarrow>
     catchA
       (thenA (admitControlEvent P x a) (\<lambda>ok. whenA ok (
        thenA (validateA payload) (\<lambda>input. let d = pu_documentId input in
        thenA (requireAuthorizedDocument P x d a) (\<lambda>document. whenA (document \<noteq> None) (
        thenA (getsA (\<lambda>_ g. d \<in> sk_joined (clientOf g x))) (\<lambda>joined.
        if \<not> joined then replyA a (FailureReply (failure NOT_JOINED None None))
        else thenA (presenceA P (\<lambda>e. update (en_now e) d x (pu_selection input) (pu_cursor input)
               (cf_presenceMinIntervalMs P))) (\<lambda>r. replyA a (case r of
            RateLimited \<Rightarrow> FailureReply (failure RATE_LIMITED None None)
          | NotJoined \<Rightarrow> FailureReply (failure NOT_JOINED None None)
          | Presence_Store.Updated participants \<Rightarrow> PresenceReply d participants)))))))))
       (\<lambda>err. replyA a (FailureReply (toFailure err None))))"

section \<open>Locks\<close>

text \<open>The checks that \<open>lock:acquire\<close>, \<open>lock:renew\<close> and
  \<open>lock:release\<close> share before they call the store.\<close>

definition checkElement :: "gateway_params \<Rightarrow> jstring \<Rightarrow> jstring \<Rightarrow> jstring \<Rightarrow> collaboration_identity handler" where
  "checkElement P x d elementId =
     thenA (getAuthorizedDocumentOrThrow P x d) (\<lambda>document.
     thenA (ensureJoined x d) (\<lambda>_.
     thenA (ensureA (\<lambda>_ _. hasElement document elementId) (OperationError INVALID_COMMAND None)) (\<lambda>_.
     identityA x)))"

definition acquireInQueue ::
  "gateway_params \<Rightarrow> jstring \<Rightarrow> lock_payload \<Rightarrow> (element_lock \<times> element_lock list) option handler" where
  "acquireInQueue P x input = thenA (checkElement P x (lp_documentId input) (lp_elementId input)) (\<lambda>i.
     locksA P (\<lambda>e. acquire (en_now e) (en_uuid e) (lp_documentId input) (lp_elementId input) (ci_userId i) x
       (cf_lockTtlSeconds P)))"

definition acquireLock :: "gateway_params \<Rightarrow> jstring \<Rightarrow> nat option \<Rightarrow> lock_payload option \<Rightarrow> unit handler" where
  "acquireLock P x ack payload = (case ack of None \<Rightarrow> Return () | Some a \<Rightarrow>
     catchA
       (thenA (admitControlEvent P x a) (\<lambda>ok. whenA ok (
        thenA (validateA payload) (\<lambda>input.
        thenA (queueRun P (lp_documentId input) (acquireInQueue P x input)) (\<lambda>result. case result of
            None \<Rightarrow> replyA a (FailureReply (failure ELEMENT_LOCKED None None))
          | Some (lock, locks) \<Rightarrow>
              thenA (presenceA P (\<lambda>e s. (touch (en_now e) (lp_documentId input) x s, ()))) (\<lambda>_.
              replyA a (LockReply lock locks)))))))
       (\<lambda>err. refuseA x a None err))"

definition renewInQueue ::
  "gateway_params \<Rightarrow> jstring \<Rightarrow> lease_payload \<Rightarrow> (element_lock \<times> element_lock list) option handler" where
  "renewInQueue P x input = thenA (checkElement P x (lp_documentId input) (lp_elementId input)) (\<lambda>i.
     locksA P (\<lambda>e. renew (en_now e) (lp_documentId input) (lp_elementId input) (ci_userId i) x (lp_leaseId input)
       (cf_lockTtlSeconds P)))"

definition releaseInQueue :: "gateway_params \<Rightarrow> jstring \<Rightarrow> lease_payload \<Rightarrow> bool handler" where
  "releaseInQueue P x input = thenA (checkElement P x (lp_documentId input) (lp_elementId input)) (\<lambda>i.
     locksA P (\<lambda>e. release (en_now e) (lp_documentId input) (lp_elementId input) (ci_userId i) x (lp_leaseId input)))"

datatype lease_action = RenewLease | ReleaseLease

definition updateLockLease ::
  "gateway_params \<Rightarrow> jstring \<Rightarrow> lease_payload option \<Rightarrow> nat \<Rightarrow> lease_action \<Rightarrow> unit handler" where
  "updateLockLease P x payload a action =
     catchA
       (thenA (admitControlEvent P x a) (\<lambda>ok. whenA ok (
        thenA (validateA payload) (\<lambda>input. let d = lp_documentId input in
        if action = RenewLease
        then thenA (queueRun P d (renewInQueue P x input)) (\<lambda>result. case result of
            None \<Rightarrow> replyA a (FailureReply (failure FORBIDDEN None None))
          | Some (lock, locks) \<Rightarrow> replyA a (LockReply lock locks))
        else thenA (queueRun P d (releaseInQueue P x input)) (\<lambda>released.
          if \<not> released then replyA a (FailureReply (failure FORBIDDEN None None))
          else thenA (locksA P (\<lambda>e. list_locks (en_now e) d)) (\<lambda>locks. replyA a (ReleaseReply d locks)))))))
       (\<lambda>err. refuseA x a None err)"

definition renewLock :: "gateway_params \<Rightarrow> jstring \<Rightarrow> nat option \<Rightarrow> lease_payload option \<Rightarrow> unit handler" where
  "renewLock P x ack payload = (case ack of None \<Rightarrow> Return ()
     | Some a \<Rightarrow> updateLockLease P x payload a RenewLease)"

definition releaseLock :: "gateway_params \<Rightarrow> jstring \<Rightarrow> nat option \<Rightarrow> lease_payload option \<Rightarrow> unit handler" where
  "releaseLock P x ack payload = (case ack of None \<Rightarrow> Return ()
     | Some a \<Rightarrow> updateLockLease P x payload a ReleaseLease)"

section \<open>Critical work on a document\<close>

definition evictDeletedDocument :: "gateway_params \<Rightarrow> jstring \<Rightarrow> unit handler" where
  "evictDeletedDocument P d = finallyA
     (thenA (getsA (\<lambda>_. roomClients d)) (\<lambda>xs.
      thenA (forEachA (\<lambda>x. modifyA (\<lambda>_ g. leaveRoom x d (emit x (DocumentDeletedEvent d) g))) xs) (\<lambda>_.
      thenA (finishRemovals P d xs) (\<lambda>_.
      locksA P (\<lambda>e s. (reconcileDocumentElements (en_now e) d {} s, ()))))))
     (modifyA (\<lambda>_ g. g\<lparr>gw_deletedDocumentIds := gw_deletedDocumentIds g - {d}\<rparr>))"

definition evictMembers :: "gateway_params \<Rightarrow> jstring \<Rightarrow> (jstring \<times> jstring, member_eviction) jmap \<Rightarrow> unit handler" where
  "evictMembers P d evictions =
     thenA (flatMapA (\<lambda>eviction. callA (\<lambda>_ g.
         let xs = filter (\<lambda>x. map_option ci_userId (sk_identity (clientOf g x)) = Some (ev_userId eviction)
                      \<and> \<not> hasCurrentProjectAccess x d g) (roomClients d g)
         in (fold (\<lambda>x. revokeDocumentAccess x d) xs g, xs))) (mapValues evictions)) (\<lambda>removals.
     finishRemovals P d removals)"

definition forgetRecovery :: "jstring \<Rightarrow> unit handler" where
  "forgetRecovery d = modifyA (\<lambda>_ g. g\<lparr>gw_pendingRecovery := gw_pendingRecovery g - {d}\<rparr>)"

text \<open>The second half: telling the room to reload, for a change or for operations nobody announced.\<close>

definition resyncDocument :: "gateway_params \<Rightarrow> jstring \<Rightarrow> bool \<Rightarrow> unit handler" where
  "resyncDocument P d pendingBroadcasts =
     thenA (getsA (\<lambda>_ g. mapGet (gw_pendingResyncChanges g) d)) (\<lambda>change.
     thenA (if pendingBroadcasts then queryA (\<lambda>_ g. getCurrentDocument d (gw_db g)) else Return None) (\<lambda>currentDocument.
     if pendingBroadcasts \<and> currentDocument = None
     then thenA (statementA (\<lambda>e db. (markPendingBroadcastsDelivered (en_now e) d db, ()))) (\<lambda>_. forgetRecovery d)
     else
       (case (case (currentDocument, change) of
           (Some document, _) \<Rightarrow> Some (dc_revision document, activeElementIds (dc_canonicalModel document))
         | (None, Some c) \<Rightarrow> Some (rc_revision c, rc_activeElementIds c)
         | (None, None) \<Rightarrow> None) of
        None \<Rightarrow> Return ()
      | Some (revision, ids) \<Rightarrow>
          thenA (locksA P (\<lambda>e s. (reconcileDocumentElements (en_now e) d (set ids) s, ()))) (\<lambda>_.
          thenA (broadcastToAuthorizedRoom P d (DocumentResyncRequired d revision) None) (\<lambda>_.
          thenA (modifyA (\<lambda>_ g. if map_option rc_object (mapGet (gw_pendingResyncChanges g) d) = map_option rc_object change
              then g\<lparr>gw_pendingResyncChanges := mapDelete d (gw_pendingResyncChanges g)\<rparr> else g)) (\<lambda>_.
          whenA pendingBroadcasts
            (thenA (statementA (\<lambda>e db. (markPendingBroadcastsDelivered (en_now e) d db, ()))) (\<lambda>_.
             forgetRecovery d))))))))"

definition processCriticalDocumentWork :: "gateway_params \<Rightarrow> jstring \<Rightarrow> unit handler" where
  "processCriticalDocumentWork P d =
     thenA (callA (\<lambda>_ g. (g\<lparr>gw_pendingMemberEvictions := mapDelete d (gw_pendingMemberEvictions g)\<rparr>,
         mapGet (gw_pendingMemberEvictions g) d))) (\<lambda>evictions.
     thenA (getsA (\<lambda>_ g. d \<in> gw_deletedDocumentIds g)) (\<lambda>deleted.
     if deleted
     then thenA (evictDeletedDocument P d) (\<lambda>_.
       thenA (modifyA (\<lambda>_. completeMemberEvictions d evictions)) (\<lambda>_. forgetRecovery d))
     else
       thenA (case evictions of None \<Rightarrow> Return ()
         | Some es \<Rightarrow> thenA (evictMembers P d es) (\<lambda>_. modifyA (\<lambda>_. completeMemberEvictions d evictions))) (\<lambda>_.
       thenA (getsA (\<lambda>_ g. d \<in> gw_deletedDocumentIds g)) (\<lambda>deleted.
       if deleted then thenA (evictDeletedDocument P d) (\<lambda>_. forgetRecovery d)
       else
         thenA (getsA (\<lambda>_ g. d \<in> gw_pendingRecovery g)) (\<lambda>recoveryRequested.
         thenA (if recoveryRequested then queryA (\<lambda>_ g. hasPendingBroadcasts d (gw_db g)) else Return False) (\<lambda>pendingBroadcasts.
         thenA (whenA (recoveryRequested \<and> \<not> pendingBroadcasts) (forgetRecovery d)) (\<lambda>_.
         resyncDocument P d pendingBroadcasts)))))))"

section \<open>Work in the background\<close>

definition currentPayload :: "gateway_params \<Rightarrow> change_kind \<Rightarrow> jstring \<Rightarrow> server_event handler" where
  "currentPayload P kind d = (case kind of
      PresenceChange \<Rightarrow> getsA (\<lambda>_ g. PresenceChanged d (list_participants d (gw_presence g)))
    | LockChange \<Rightarrow> thenA (locksA P (\<lambda>e. list_locks (en_now e) d)) (\<lambda>locks. Return (LockChanged d locks)))"

definition recoverUndeliveredOperations :: "gateway_params \<Rightarrow> unit handler" where
  "recoverUndeliveredOperations P =
     thenA (callA (\<lambda>_ g. (g\<lparr>gw_recoveryInFlight := True\<rparr>, gw_recoveryInFlight g))) (\<lambda>inFlight.
     if inFlight then Return ()
     else finallyA
       (catchA
         (thenA (queryA (\<lambda>_ g. listDocumentsAwaitingDelivery (cf_operationRecoveryBatchSize P) (gw_db g)))
           (forEachA (\<lambda>d. modifyA (\<lambda>_ g.
              scheduleCriticalDocumentWork P d (g\<lparr>gw_pendingRecovery := insert d (gw_pendingRecovery g)\<rparr>)))))
         (\<lambda>_. Return ()))
       (modifyA (\<lambda>_ g. g\<lparr>gw_recoveryInFlight := False\<rparr>)))"

definition afterCriticalWork :: "gateway_params \<Rightarrow> jstring \<Rightarrow> bool \<Rightarrow> unit handler" where
  "afterCriticalWork P d failed = modifyA (\<lambda>e g.
     let g1 = g\<lparr>gw_scheduledCritical := gw_scheduledCritical g - {d}\<rparr> in
     if \<not> hasCriticalDocumentWork d g1 then g1
     else if failed then scheduleCriticalDocumentRetry (en_now e) d g1
     else scheduleCriticalDocumentWork P d g1)"

fun backgroundA :: "gateway_params \<Rightarrow> background \<Rightarrow> unit handler" where
  "backgroundA P (AuthorizedBroadcast d kind None) = Return ()"
| "backgroundA P (AuthorizedBroadcast d kind (Some i)) =
     catchA (runQueued i (thenA (currentPayload P kind d) (\<lambda>ev. broadcastToAuthorizedRoom P d ev None))) (\<lambda>_. Return ())"
| "backgroundA P (CriticalWork d None) = thenA pauseA (\<lambda>_. afterCriticalWork P d True)"
| "backgroundA P (CriticalWork d (Some i)) =
     thenA (catchA (thenA (runQueued i (processCriticalDocumentWork P d)) (\<lambda>_. Return False)) (\<lambda>_. Return True))
       (\<lambda>failed. thenA pauseA (\<lambda>_. afterCriticalWork P d failed))"
| "backgroundA P (FinishRemoval x d) = finishRemoval P x d"
| "backgroundA P RecoverOperations = recoverUndeliveredOperations P"

end
