(* ===== verification/Gateway_System.thy ===== *)
theory Gateway_System
  imports Gateway_Handlers Lock_Refinement
begin

text \<open>
  The gateway as a whole: its state, the handlers that are not over, each with the condition it waits
  for, and the steps of the event loop. A step starts a handler, runs a segment of one, or is something
  that happens: a socket closes, a timer fires, a promise settles, the database or another service
  changes. The handshake of a socket is tagged with the socket, as there is one of each;
  \<open>sy_sockets\<close> has the sockets that began one.
\<close>

section \<open>Requests\<close>

datatype request =
    Join "nat option" "join_payload option"
  | Leave "nat option" "jstring option"
  | Command "nat option" "jstring option" "document_command option"
  | Presence "nat option" "presence_payload option"
  | AcquireLock "nat option" "lock_payload option"
  | RenewLock "nat option" "lease_payload option"
  | ReleaseLock "nat option" "lease_payload option"

fun requestA :: "gateway_params \<Rightarrow> jstring \<Rightarrow> request \<Rightarrow> unit handler" where
  "requestA P x (Join ack payload) = joinDocument P x ack payload"
| "requestA P x (Leave ack payload) = leaveDocument P x ack payload"
| "requestA P x (Command ack operationId payload) = executeCommand P x ack operationId payload"
| "requestA P x (Presence ack payload) = updatePresence P x ack payload"
| "requestA P x (AcquireLock ack payload) = acquireLock P x ack payload"
| "requestA P x (RenewLock ack payload) = renewLock P x ack payload"
| "requestA P x (ReleaseLock ack payload) = releaseLock P x ack payload"

text \<open>What the contract of the protocol says of the identifiers of a lock: the patterns of both leave
  no colon in them.\<close>

fun request_ok :: "request \<Rightarrow> bool" where
  "request_ok (AcquireLock ack (Some p)) \<longleftrightarrow> plain_id (lp_documentId p) \<and> plain_id (lp_elementId p)"
| "request_ok r \<longleftrightarrow> True"

section \<open>Steps\<close>

type_synonym task = "jstring option \<times> (gateway \<Rightarrow> bool) \<times> unit handler"

record system =
  sy_gateway :: gateway
  sy_sockets :: "jstring set"
  sy_tasks :: "task list"

text \<open>A task after its segment.\<close>

definition continue :: "jstring option \<Rightarrow> (world, gateway, gateway_error, unit) outcome \<Rightarrow> task list" where
  "continue t out = (case out of Async_Programs.Finished _ \<Rightarrow> [] | Suspended c p \<Rightarrow> [(t, c, p)])"

definition joinSettles :: "nat \<Rightarrow> gateway \<Rightarrow> gateway" where
  "joinSettles i g = g\<lparr>gw_joinTails := (gw_joinTails g)[i := (gw_joinTails g ! i)\<lparr>jt_settled := True\<rparr>]\<rparr>"

text \<open>What happens to the gateway outside of its handlers.\<close>

inductive gateway_event :: "gateway_params \<Rightarrow> gateway \<Rightarrow> gateway \<Rightarrow> bool" for P where
  Close: "gw_closing g = x # xs \<Longrightarrow> gateway_event P g (disconnectClient P now x (g\<lparr>gw_closing := xs\<rparr>))"
| Disconnect: "gateway_event P g (disconnectClient P now x g)"
| TransportCloses: "gateway_event P g (transportCloses x g)"
| TokenExpires: "sk_expiryTimer (clientOf g x) = Some t \<Longrightarrow> t \<le> now \<Longrightarrow>
    gateway_event P g (disconnectExpiredToken x (setClient x (\<lambda>c. c\<lparr>sk_expiryTimer := None\<rparr>) g))"
| LockExpires: "mapGet (st_timers (gw_locks g)) i = Some t \<Longrightarrow> tm_due t \<le> now \<Longrightarrow>
    gateway_event P g (fst (withLocks P (\<lambda>s. (timerFires now i s, ())) g))"
| Retry: "mapGet (gw_criticalRetryTimers g) d = Some t \<Longrightarrow> t \<le> now \<Longrightarrow> gateway_event P g (retryTimerFires P d g)"
| Recovery: "gateway_event P g (g\<lparr>gw_background := gw_background g @ [RecoverOperations]\<rparr>)"
| QueueSettles: "i < length (q_operations (gw_queue g)) \<Longrightarrow> qo_status (q_operations (gw_queue g) ! i) = Ended \<Longrightarrow>
    previous_settled (gw_queue g) i \<Longrightarrow> gateway_event P g (g\<lparr>gw_queue := settle i (gw_queue g)\<rparr>)"
| JoinSettles: "i < length (gw_joinTails g) \<Longrightarrow> jt_released (gw_joinTails g ! i) \<Longrightarrow>
    tail_settled g (jt_previous (gw_joinTails g ! i)) \<Longrightarrow> gateway_event P g (joinSettles i g)"
| DatabaseChanges: "gateway_event P g (g\<lparr>gw_db := db\<rparr>)"
| DocumentChanges: "gateway_event P g (handleExternalDocumentChange P c g)"
| ProjectChanges: "gateway_event P g (handleProjectCollaborationChange P c' g)"
| SessionEnds: "gateway_event P g (onSessionRevoked sid g)"

inductive system_step :: "gateway_params \<Rightarrow> system \<Rightarrow> system \<Rightarrow> bool" for P where
  Connect: "x \<notin> sy_sockets s \<Longrightarrow>
    system_step P s \<lparr>sy_gateway = setClient x id (sy_gateway s), sy_sockets = insert x (sy_sockets s),
      sy_tasks = sy_tasks s @ [(Some x, \<lambda>_. True, connectA P x token)]\<rparr>"
| Request: "sk_connected (clientOf (sy_gateway s) x) \<Longrightarrow> request_ok r \<Longrightarrow>
    system_step P s (s\<lparr>sy_tasks := sy_tasks s @ [(None, \<lambda>_. True, requestA P x r)]\<rparr>)"
| Background: "gw_background (sy_gateway s) = b # bs \<Longrightarrow>
    system_step P s \<lparr>sy_gateway = (sy_gateway s)\<lparr>gw_background := bs\<rparr>, sy_sockets = sy_sockets s,
      sy_tasks = sy_tasks s @ [(None, \<lambda>_. True, backgroundA P b)]\<rparr>"
| Resume: "sy_tasks s = ts @ (t, c, p) # ts' \<Longrightarrow> c (sy_gateway s) \<Longrightarrow> run p e (sy_gateway s) = (g, out) \<Longrightarrow>
    system_step P s \<lparr>sy_gateway = g, sy_sockets = sy_sockets s, sy_tasks = ts @ continue t out @ ts'\<rparr>"
| Event: "gateway_event P (sy_gateway s) g \<Longrightarrow> system_step P s (s\<lparr>sy_gateway := g\<rparr>)"

definition new_gateway :: "server_db \<Rightarrow> gateway" where
  "new_gateway db = \<lparr>gw_clients = [], gw_sent = [], gw_closing = [], gw_connectedSocketIds = {},
     gw_socketIdsBySession = [], gw_revokedProjectMemberKeys = [], gw_nextObject = 0, gw_deletedDocumentIds = {},
     gw_pendingResyncChanges = [], gw_pendingMemberEvictions = [], gw_pendingMemberRevocations = [],
     gw_scheduledCritical = {}, gw_criticalRetryTimers = [], gw_pendingRecovery = {}, gw_recoveryInFlight = False,
     gw_background = [RecoverOperations], gw_joinTails = [], gw_presence = empty_presence_store,
     gw_locks = empty_lock_store, gw_limiter = \<lparr>commandWindows = [], controlEventWindows = []\<rparr>,
     gw_queue = empty_queue, gw_db = db\<rparr>"

inductive system_reachable :: "gateway_params \<Rightarrow> system \<Rightarrow> bool" for P where
  Start: "system_reachable P \<lparr>sy_gateway = new_gateway db, sy_sockets = {}, sy_tasks = []\<rparr>"
| Step: "system_reachable P s \<Longrightarrow> system_step P s s' \<Longrightarrow> system_reachable P s'"

section \<open>Conditions that every task keeps\<close>

text \<open>Tasks with tags share a state. A task may rely on what the others guarantee; the tasks without a
  tag rely on nothing but the invariant.\<close>

locale shared_state =
  fixes inv :: "'s \<Rightarrow> bool" and rely :: "'t option \<Rightarrow> 's \<Rightarrow> 's \<Rightarrow> bool"
    and guar :: "'t option \<Rightarrow> 'e \<Rightarrow> 's \<Rightarrow> 's \<Rightarrow> bool"
  assumes rely_refl: "rely t s s"
    and rely_guar: "rely t s s1 \<Longrightarrow> guar t' e s1 s2 \<Longrightarrow> t = None \<or> t' \<noteq> t \<Longrightarrow> rely t s s2"
begin

definition good_program :: "'t option \<Rightarrow> ('e, 's, 'x, 'a) async \<Rightarrow> 'e \<Rightarrow> 's \<Rightarrow> bool" where
  "good_program t p e s \<longleftrightarrow> wp p (\<lambda>e s0 s. inv s \<and> guar t e s0 s) (\<lambda>s s'. inv s' \<and> rely t s s')
     (\<lambda>_ e s0 s. inv s \<and> guar t e s0 s) e s s"

text \<open>A task is fine since some state that it left, and the state now is one it could rely on.\<close>

definition good_task :: "'s \<Rightarrow> 't option \<Rightarrow> ('s \<Rightarrow> bool) \<Rightarrow> ('e, 's, 'x, 'a) async \<Rightarrow> bool" where
  "good_task s t c p \<longleftrightarrow> (\<exists>s0. rely t s0 s \<and> (\<forall>e s'. inv s' \<and> rely t s0 s' \<and> c s' \<longrightarrow> good_program t p e s'))"

lemma good_task_new: "(\<And>e s'. inv s' \<Longrightarrow> rely t s s' \<Longrightarrow> good_program t p e s') \<Longrightarrow> good_task s t c p"
  using rely_refl [of t s] by (auto simp: good_task_def)

lemma good_task_others: "good_task s t c p \<Longrightarrow> guar t' e s s' \<Longrightarrow> t = None \<or> t' \<noteq> t \<Longrightarrow> good_task s' t c p"
  unfolding good_task_def using rely_guar by blast

lemma good_task_run:
  assumes "good_task s t c p" and "inv s" and "c s" and "run p e s = (s', out)"
  shows "inv s' \<and> guar t e s s' \<and> (\<forall>c' p'. out = Suspended c' p' \<longrightarrow> good_task s' t c' p')"
proof -
  from assms(1-3) have "good_program t p e s" by (auto simp: good_task_def)
  from wp_run [OF this [unfolded good_program_def] assms(4)] show ?thesis
    using rely_refl [of t s'] by (cases out) (auto simp: good_task_def good_program_def)
qed

text \<open>A program that keeps a condition suits a task without a tag.\<close>

lemma keeps_good_program:
  assumes "keeps (\<lambda>e s0 s. inv s \<and> guar t e s0 s) p" and "inv s" and "\<And>e s. guar t e s s"
  shows "good_program t p e s"
proof -
  have "wp p (\<lambda>e s0 s. inv s \<and> guar t e s0 s) (\<lambda>_ s'. \<forall>e. inv s' \<and> guar t e s' s') (\<lambda>_ e s0 s. inv s \<and> guar t e s0 s) e s s"
    using keepsD [OF assms(1), of s e s] assms(2,3) by simp
  then show ?thesis unfolding good_program_def by (rule wp_weaken) (auto simp: assms(3))
qed

end

end
