(* ===== verification/Gateway_Laws.thy ===== *)
theory Gateway_Laws
  imports Gateway_System
begin

text \<open>
  The part of the gateway's state that says who is connected and where, and what was told of the
  documents: the view. Most operations leave
  it alone, which the lemmas in \<open>view_laws\<close> say; the others change it as stated here. The owners
  of locks complete the picture.
\<close>

named_theorems view_laws \<open>the view after an operation\<close>

section \<open>The view\<close>

text \<open>The events that show what is in a document, with the document, and those that were sent.\<close>

fun documentOf :: "server_event \<Rightarrow> jstring option" where
  "documentOf (DocumentOperationEvent operation) = Some (oe_documentId operation)"
| "documentOf (PresenceChanged d _) = Some d"
| "documentOf (LockChanged d _) = Some d"
| "documentOf (DocumentResyncRequired d _) = Some d"
| "documentOf _ = None"

definition contents :: "outgoing list \<Rightarrow> (jstring \<times> server_event) list" where
  "contents sent = concat (map (\<lambda>m. case m of
      Emit x ev \<Rightarrow> if documentOf ev = None then [] else [(x, ev)]
    | Ack _ _ \<Rightarrow> []) sent)"

lemma contents_append [simp]: "contents (ms @ ms') = contents ms @ contents ms'"
  and contents_single [simp]: "contents [Ack a r] = []"
    "contents [Emit x ev] = (if documentOf ev = None then [] else [(x, ev)])"
    "contents [] = []"
  by (simp_all add: contents_def)

record gateway_view =
  vw_joined :: "jstring \<Rightarrow> jstring set"
  vw_connected :: "jstring \<Rightarrow> bool"
  vw_identity :: "jstring \<Rightarrow> collaboration_identity option"
  vw_reserved :: "jstring \<Rightarrow> jstring option"
  vw_closed :: "jstring \<Rightarrow> bool"
  vw_presence :: presence_store
  vw_locks :: lock_store
  vw_sockets :: "jstring set"
  vw_bySession :: "(jstring, jstring set) jmap"
  vw_contents :: "(jstring \<times> server_event) list"

definition view :: "gateway \<Rightarrow> gateway_view" where
  "view g = \<lparr>vw_joined = (\<lambda>x. sk_joined (clientOf g x)), vw_connected = (\<lambda>x. sk_connected (clientOf g x)),
     vw_identity = (\<lambda>x. sk_identity (clientOf g x)), vw_reserved = (\<lambda>x. sk_reservedSession (clientOf g x)),
     vw_closed = (\<lambda>x. sk_transportClosed (clientOf g x)), vw_presence = gw_presence g, vw_locks = gw_locks g,
     vw_sockets = gw_connectedSocketIds g, vw_bySession = gw_socketIdsBySession g,
     vw_contents = contents (gw_sent g)\<rparr>"

lemma view_sel [simp]:
  "vw_joined (view g) x = sk_joined (clientOf g x)" "vw_connected (view g) x = sk_connected (clientOf g x)"
  "vw_identity (view g) x = sk_identity (clientOf g x)" "vw_reserved (view g) x = sk_reservedSession (clientOf g x)"
  "vw_closed (view g) x = sk_transportClosed (clientOf g x)" "vw_presence (view g) = gw_presence g"
  "vw_locks (view g) = gw_locks g" "vw_sockets (view g) = gw_connectedSocketIds g"
  "vw_bySession (view g) = gw_socketIdsBySession g" "vw_contents (view g) = contents (gw_sent g)"
  by (simp_all add: view_def)

lemma clientOf_setClient [simp]:
  "clientOf (setClient x f g) y = (if y = x then f (clientOf g x) else clientOf g y)"
  by (simp add: clientOf_def setClient_def mapGet_mapSet)

lemma setClient_sel [simp]:
  "gw_presence (setClient x f g) = gw_presence g" "gw_locks (setClient x f g) = gw_locks g"
  "gw_sent (setClient x f g) = gw_sent g" "gw_db (setClient x f g) = gw_db g"
  "gw_connectedSocketIds (setClient x f g) = gw_connectedSocketIds g"
  "gw_socketIdsBySession (setClient x f g) = gw_socketIdsBySession g"
  by (simp_all add: setClient_def)

lemma clientOf_update [simp]:
  "clientOf (g\<lparr>gw_sent := a1\<rparr>) = clientOf g" "clientOf (g\<lparr>gw_closing := a2\<rparr>) = clientOf g"
  "clientOf (g\<lparr>gw_connectedSocketIds := a3\<rparr>) = clientOf g" "clientOf (g\<lparr>gw_socketIdsBySession := a4\<rparr>) = clientOf g"
  "clientOf (g\<lparr>gw_revokedProjectMemberKeys := a5\<rparr>) = clientOf g" "clientOf (g\<lparr>gw_nextObject := a6\<rparr>) = clientOf g"
  "clientOf (g\<lparr>gw_deletedDocumentIds := a7\<rparr>) = clientOf g" "clientOf (g\<lparr>gw_pendingResyncChanges := a8\<rparr>) = clientOf g"
  "clientOf (g\<lparr>gw_pendingMemberEvictions := a9\<rparr>) = clientOf g" "clientOf (g\<lparr>gw_pendingMemberRevocations := a10\<rparr>) = clientOf g"
  "clientOf (g\<lparr>gw_scheduledCritical := a11\<rparr>) = clientOf g" "clientOf (g\<lparr>gw_criticalRetryTimers := a12\<rparr>) = clientOf g"
  "clientOf (g\<lparr>gw_pendingRecovery := a13\<rparr>) = clientOf g" "clientOf (g\<lparr>gw_recoveryInFlight := a14\<rparr>) = clientOf g"
  "clientOf (g\<lparr>gw_background := a15\<rparr>) = clientOf g" "clientOf (g\<lparr>gw_joinTails := a16\<rparr>) = clientOf g"
  "clientOf (g\<lparr>gw_presence := a17\<rparr>) = clientOf g" "clientOf (g\<lparr>gw_locks := a18\<rparr>) = clientOf g"
  "clientOf (g\<lparr>gw_limiter := a19\<rparr>) = clientOf g" "clientOf (g\<lparr>gw_queue := a20\<rparr>) = clientOf g"
  "clientOf (g\<lparr>gw_db := a21\<rparr>) = clientOf g"
  by (simp_all add: clientOf_def fun_eq_iff)

lemma view_update [view_laws]:
  "view (g\<lparr>gw_sent := gw_sent g @ [Ack a r]\<rparr>) = view g" "view (g\<lparr>gw_closing := a2\<rparr>) = view g"
  "view (g\<lparr>gw_revokedProjectMemberKeys := a5\<rparr>) = view g" "view (g\<lparr>gw_nextObject := a6\<rparr>) = view g"
  "view (g\<lparr>gw_deletedDocumentIds := a7\<rparr>) = view g" "view (g\<lparr>gw_pendingResyncChanges := a8\<rparr>) = view g"
  "view (g\<lparr>gw_pendingMemberEvictions := a9\<rparr>) = view g" "view (g\<lparr>gw_pendingMemberRevocations := a10\<rparr>) = view g"
  "view (g\<lparr>gw_scheduledCritical := a11\<rparr>) = view g" "view (g\<lparr>gw_criticalRetryTimers := a12\<rparr>) = view g"
  "view (g\<lparr>gw_pendingRecovery := a13\<rparr>) = view g" "view (g\<lparr>gw_recoveryInFlight := a14\<rparr>) = view g"
  "view (g\<lparr>gw_background := a15\<rparr>) = view g" "view (g\<lparr>gw_joinTails := a16\<rparr>) = view g"
  "view (g\<lparr>gw_limiter := a19\<rparr>) = view g" "view (g\<lparr>gw_queue := a20\<rparr>) = view g"
  "view (g\<lparr>gw_db := a21\<rparr>) = view g"
  by (simp_all add: view_def)

lemma view_store [view_laws]:
  "view (g\<lparr>gw_presence := ps\<rparr>) = (view g)\<lparr>vw_presence := ps\<rparr>"
  "view (g\<lparr>gw_locks := ls\<rparr>) = (view g)\<lparr>vw_locks := ls\<rparr>"
  by (simp_all add: view_def)

lemma view_setClient:
  "view (setClient x f g) = (view g)
    \<lparr>vw_joined := (vw_joined (view g))(x := sk_joined (f (clientOf g x))),
     vw_connected := (vw_connected (view g))(x := sk_connected (f (clientOf g x))),
     vw_identity := (vw_identity (view g))(x := sk_identity (f (clientOf g x))),
     vw_reserved := (vw_reserved (view g))(x := sk_reservedSession (f (clientOf g x))),
     vw_closed := (vw_closed (view g))(x := sk_transportClosed (f (clientOf g x)))\<rparr>"
  by (simp add: view_def fun_eq_iff)

lemma view_client [view_laws]:
  "view (setClient x (\<lambda>c. c\<lparr>sk_rooms := r c\<rparr>) g) = view g"
  "view (setClient x (\<lambda>c. c\<lparr>sk_pending := p c\<rparr>) g) = view g"
  "view (setClient x (\<lambda>c. c\<lparr>sk_joinTail := j c\<rparr>) g) = view g"
  "view (setClient x (\<lambda>c. c\<lparr>sk_expiryTimer := t c\<rparr>) g) = view g"
  "view (setClient x id g) = view g"
  by (simp_all add: view_setClient fun_upd_idem)

section \<open>Operations that leave the view alone\<close>

lemma view_messages [view_laws]:
  "documentOf ev = None \<Longrightarrow> view (emit x ev g) = view g" "view (closeLater x g) = view g" "view (disconnectRevoked x g) = view g"
  "view (disconnectExpiredToken x g) = view g" "view (leaveRoom x d g) = view g" "view (setPending x f g) = view g"
  "view (revokeDocumentAccess x d g) = view g" "view (authenticationFailure x err g) = view g"
  "view (joinSettles i g) = view g" "view (releaseJoin i x g) = view g"
proof -
  show emit: "documentOf ev = None \<Longrightarrow> view (emit x ev g) = view g" for x ev g
    by (simp add: view_def emit_def)
  show "view (closeLater x g) = view g" "view (disconnectRevoked x g) = view g"
    "view (disconnectExpiredToken x g) = view g" "view (leaveRoom x d g) = view g" "view (setPending x f g) = view g"
    "view (revokeDocumentAccess x d g) = view g" "view (authenticationFailure x err g) = view g"
    "view (joinSettles i g) = view g" "view (releaseJoin i x g) = view g"
    by (simp_all add: emit closeLater_def disconnectRevoked_def disconnectExpiredToken_def leaveRoom_def setPending_def
        revokeDocumentAccess_def authenticationFailure_def joinSettles_def releaseJoin_def Let_def view_laws split: gateway_error.split)
qed

lemma view_fold: "(\<And>y g. view (f y g) = view g) \<Longrightarrow> view (fold f ys g) = view g"
  by (induction ys arbitrary: g) simp_all

lemma view_queue [view_laws]:
  "view (fst (enqueueOperation P d p g)) = view g" "view (scheduleAuthorizedBroadcast P kind d g) = view g"
  "view (scheduleCriticalDocumentWork P d g) = view g" "view (markDeleted P d g) = view g"
  "view (retryTimerFires P d g) = view g" "view (scheduleCriticalDocumentRetry now d g) = view g"
  "view (evictMember P k uid r d g) = view g" "view (forgetRevocation k g) = view g"
  "view (completeMemberEviction d ev g) = view g" "view (completeMemberEvictions d evs g) = view g"
  "view (handleExternalDocumentChange P change g) = view g" "view (onSessionRevoked sid g) = view g"
proof -
  show enqueue: "view (fst (enqueueOperation P d p g)) = view g" for d p g
    by (simp add: enqueueOperation_def view_laws split: option.split)
  show "view (scheduleAuthorizedBroadcast P kind d g) = view g"
    using enqueue [of d Standard g] by (simp add: scheduleAuthorizedBroadcast_def view_laws case_prod_unfold)
  show critical: "view (scheduleCriticalDocumentWork P d g) = view g" for d g
    using enqueue [of d Critical "g\<lparr>gw_scheduledCritical := insert d (gw_scheduledCritical g)\<rparr>"]
    by (simp add: scheduleCriticalDocumentWork_def view_laws case_prod_unfold)
  then show deleted: "view (markDeleted P d g) = view g" for d g by (simp add: markDeleted_def view_laws)
  show "view (retryTimerFires P d g) = view g" by (simp add: retryTimerFires_def Let_def view_laws critical)
  show "view (scheduleCriticalDocumentRetry now d g) = view g" by (simp add: scheduleCriticalDocumentRetry_def view_laws)
  show "view (evictMember P k uid r d g) = view g" by (simp add: evictMember_def Let_def view_laws critical)
  show "view (forgetRevocation k g) = view g" by (simp add: forgetRevocation_def view_laws split: option.split)
  show complete: "view (completeMemberEviction d ev g) = view g" for ev g
    by (simp add: completeMemberEviction_def view_laws split: option.split)
  show "view (completeMemberEvictions d evs g) = view g"
    by (auto simp: completeMemberEvictions_def complete intro!: view_fold split: option.split)
  show "view (handleExternalDocumentChange P change g) = view g"
    by (cases change) (simp_all add: view_laws critical deleted)
  show "view (onSessionRevoked sid g) = view g" unfolding onSessionRevoked_def by (rule view_fold) (simp add: view_laws)
qed

lemma view_projects [view_laws]: "view (handleProjectCollaborationChange P change g) = view g"
proof (cases change)
  case (MemberRemoved pid uid ids)
  have "view (fold (evictMember P k u r) ds g) = view g" for k u r ds g by (rule view_fold) (simp add: view_laws)
  with MemberRemoved show ?thesis by (simp add: Let_def view_laws)
next
  case (ProjectDeleted pid ids)
  then show ?thesis by (simp, intro view_fold) (simp add: view_laws)
qed (simp add: Let_def view_laws)

section \<open>Operations on the stores\<close>

lemma view_broadcasts [view_laws]:
  "view (fold (\<lambda>(d, _). scheduleAuthorizedBroadcast P kind d) ds g) = view g"
  by (rule view_fold) (simp add: view_laws case_prod_unfold)

lemma withPresence_view [view_laws]:
  "view (fst (withPresence P f g)) = (view g)\<lparr>vw_presence := fst (f (gw_presence g))\<rparr>"
  "snd (withPresence P f g) = snd (f (gw_presence g))"
  by (cases "f (gw_presence g)"; simp add: withPresence_def view_laws)+

lemma withLocks_view [view_laws]:
  "view (fst (withLocks P f g)) = (view g)\<lparr>vw_locks := fst (f (gw_locks g))\<rparr>"
  "snd (withLocks P f g) = snd (f (gw_locks g))"
  by (cases "f (gw_locks g)"; simp add: withLocks_def view_laws)+

text \<open>Selectors after the stores.\<close>

lemma store_sel [simp]:
  "gw_presence (fst (withPresence P f g)) = fst (f (gw_presence g))"
  "gw_locks (fst (withPresence P f g)) = gw_locks g"
  "gw_locks (fst (withLocks P h g)) = fst (h (gw_locks g))"
  "gw_presence (fst (withLocks P h g)) = gw_presence g"
  using view_sel(6,7) [of "fst (withPresence P f g)"] view_sel(6,7) [of "fst (withLocks P h g)"]
  by (simp_all add: view_laws)

lemma clientOf_store [simp]:
  "clientOf (fst (enqueueOperation P d pr g)) = clientOf g"
  "clientOf (scheduleAuthorizedBroadcast P kind d g) = clientOf g"
  "clientOf (fst (withPresence P f g)) = clientOf g" "clientOf (fst (withLocks P h g)) = clientOf g"
proof -
  show enqueue: "clientOf (fst (enqueueOperation P d pr g)) = clientOf g" for d pr g
    by (simp add: enqueueOperation_def split: option.split)
  show schedule: "clientOf (scheduleAuthorizedBroadcast P kind d g) = clientOf g" for kind d g
    using enqueue [of d Standard g] by (simp add: scheduleAuthorizedBroadcast_def case_prod_unfold)
  have presence: "clientOf (fold (\<lambda>(d, _). scheduleAuthorizedBroadcast P kind d) ds g) = clientOf g"
    for kind g and ds :: "(jstring \<times> participant list) list"
    by (induction ds arbitrary: g) (auto simp: schedule)
  have locks: "clientOf (fold (\<lambda>(d, _). scheduleAuthorizedBroadcast P kind d) ds g) = clientOf g"
    for kind g and ds :: "(jstring \<times> element_lock list) list"
    by (induction ds arbitrary: g) (auto simp: schedule)
  show "clientOf (fst (withPresence P f g)) = clientOf g"
    by (cases "f (gw_presence g)") (simp add: withPresence_def presence)
  show "clientOf (fst (withLocks P h g)) = clientOf g"
    by (cases "h (gw_locks g)") (simp add: withLocks_def locks)
qed

end
