(* ===== verification/Lock_Owners.thy ===== *)
theory Lock_Owners
  imports Lock_Refinement Document_Commands
begin

text \<open>
  In which documents a socket has locks, expired ones included: no operation but \<open>acquire\<close> adds
  an owner, and releasing by socket removes it.
\<close>

definition owners :: "lock_store \<Rightarrow> (jstring \<times> jstring) set" where
  "owners s = {(d, x). \<exists>e l. lockAt s d e = Some l \<and> lk_socketId l = x}"

named_theorems owner_laws \<open>the owners of locks after an operation\<close>

lemma ownersI: "lockAt s d e = Some l \<Longrightarrow> (d, lk_socketId l) \<in> owners s"
  by (auto simp: owners_def)

lemma owners_shrink:
  "(\<And>d e l. lockAt s' d e = Some l \<Longrightarrow> \<exists>l'. lockAt s d e = Some l' \<and> lk_socketId l' = lk_socketId l) \<Longrightarrow> owners s' \<subseteq> owners s"
  by (fastforce simp: owners_def)

lemma live_Some: "live now r = Some l \<Longrightarrow> r = Some l"
  by (auto simp: live_def split: option.splits if_splits)

lemma owners_expire [owner_laws]: "lock_inv s \<Longrightarrow> owners (expireDocument now d s) \<subseteq> owners s"
  by (rule owners_shrink) (auto simp: lockAt_expire dest: live_Some split: if_splits)

lemma owners_emit [owner_laws]: "lock_inv s \<Longrightarrow> owners (emitChange now d s) \<subseteq> owners s"
  by (rule owners_shrink) (auto simp: lockAt_emitChange dest: live_Some split: if_splits)

lemma owners_list [owner_laws]: "lock_inv s \<Longrightarrow> owners (fst (list_locks now d s)) \<subseteq> owners s"
  by (simp add: list_locks_fst owners_expire)

lemma owners_remove: "lock_inv s \<Longrightarrow> lockAt s d e = Some l \<Longrightarrow> owners (remove l s) \<subseteq> owners s"
  by (rule owners_shrink) (auto simp: lockAt_remove split: if_splits)

lemma owners_emit_all: "lock_inv s \<Longrightarrow> owners (fold (emitChange now) ds s) \<subseteq> owners s"
proof (induction ds arbitrary: s)
  case (Cons d ds)
  from Cons.IH [OF lock_inv_emitChange [OF Cons.prems]] owners_emit [OF Cons.prems] show ?case by fastforce
qed simp

lemma owners_announce:
  assumes "lock_inv s"
  shows "owners (fst (list_locks now d (emitChange now d s))) \<subseteq> owners s"
  using owners_list [OF lock_inv_emitChange [OF assms]] owners_emit [OF assms] by blast

lemma owners_renewStored:
  assumes "lock_inv s" and "lockAt s d e = Some l" and "0 < ttl" and "renewStored now ttl l s = (l', s')"
  shows "lock_inv s'" and "owners s' \<subseteq> owners s"
proof -
  show "lock_inv s'" using lock_inv_renewStored [OF assms(1,2,4)] assms(3) by simp
  have "lk_documentId l = d" "lk_elementId l = e" using lock_invD [OF assms(1,2)] by simp_all
  then show "owners s' \<subseteq> owners s"
    using assms(2) renewStored_fields [OF assms(4)] by (intro owners_shrink) (auto split: if_splits)
qed

text \<open>What each operation does; \<open>good\<close> is the invariant of \<^theory_text>\<open>Lock_Refinement\<close>.\<close>

lemma owners_acquire [owner_laws]:
  assumes g: "good s" and "plain_id d" "plain_id e" "0 < ttl"
  shows "owners (fst (acquire now uuid d e u x ttl s)) \<subseteq> insert (d, x) (owners s)"
proof -
  let ?s0 = "expireDocument now d s"
  have inv: "lock_inv s" and inv0: "lock_inv ?s0" using g by (simp_all add: good_def lock_inv_expire)
  note sub = owners_expire [OF inv, of now d]
  show ?thesis
  proof (cases "lockAt ?s0 d e")
    case (Some l)
    obtain l' s1 where r: "renewStored now ttl l ?s0 = (l', s1)" by (cases "renewStored now ttl l ?s0")
    have "owners (fst (list_locks now d (emitChange now d s1))) \<subseteq> owners ?s0"
      using owners_renewStored [OF inv0 Some assms(4) r] owners_announce by blast
    with Some sub show ?thesis by (auto simp: acquire_def Let_def r case_prod_unfold)
  next
    case None
    obtain t s1 where t: "createExpirationTimer now d e (now + ttl * 1000) ?s0 = (t, s1)"
      by (cases "createExpirationTimer now d e (now + ttl * 1000) ?s0")
    define l where "l = \<lparr>lk_documentId = d, lk_elementId = e, lk_userId = u, lk_socketId = x,
      lk_leaseId = uuid, lk_expiresAt = now + ttl * 1000, lk_timer = t\<rparr>"
    have "lock_inv (store_new l s1)"
      using lock_inv_store_new [OF inv0, of l now s1] None assms t by (simp add: l_def)
    from owners_announce [OF this] have "owners (fst (list_locks now d (emitChange now d (store_new l s1)))) \<subseteq> owners (store_new l s1)" .
    moreover have "owners (store_new l s1) \<subseteq> insert (d, x) (owners ?s0)"
      by (auto simp: owners_def lockAt_store_new createExpirationTimer_fields(3) [OF t] l_def split: if_splits)
    moreover have "fst (acquire now uuid d e u x ttl s) = fst (list_locks now d (emitChange now d (store_new l s1)))"
      using None t by (simp add: acquire_def Let_def store_new_def l_def case_prod_unfold)
    ultimately show ?thesis using sub by auto
  qed
qed

lemma owners_renew [owner_laws]:
  assumes g: "good s" and "0 < ttl"
  shows "owners (fst (renew now d e u x lease ttl s)) \<subseteq> owners s"
proof -
  let ?s0 = "expireDocument now d s"
  have inv: "lock_inv s" and inv0: "lock_inv ?s0" using g by (simp_all add: good_def lock_inv_expire)
  note sub = owners_expire [OF inv, of now d]
  show ?thesis
  proof (cases "lockAt ?s0 d e")
    case (Some l)
    obtain l' s1 where r: "renewStored now ttl l ?s0 = (l', s1)" by (cases "renewStored now ttl l ?s0")
    have "owners (fst (list_locks now d (emitChange now d s1))) \<subseteq> owners ?s0"
      using owners_renewStored [OF inv0 Some assms(2) r] owners_announce by blast
    with Some sub show ?thesis by (auto simp: renew_def Let_def r case_prod_unfold)
  qed (use sub in \<open>simp add: renew_def Let_def\<close>)
qed

lemma owners_release [owner_laws]:
  assumes g: "good s"
  shows "owners (fst (release now d e u x lease s)) \<subseteq> owners s"
proof -
  let ?s0 = "expireDocument now d s"
  have inv: "lock_inv s" and inv0: "lock_inv ?s0" using g by (simp_all add: good_def lock_inv_expire)
  note sub = owners_expire [OF inv, of now d]
  show ?thesis
  proof (cases "lockAt ?s0 d e")
    case (Some l)
    have "owners (emitChange now d (remove l ?s0)) \<subseteq> owners ?s0"
      using owners_emit [OF lock_inv_remove [OF inv0 Some]] owners_remove [OF inv0 Some] by blast
    with Some sub show ?thesis by (auto simp: release_def Let_def)
  qed (use sub in \<open>simp add: release_def Let_def\<close>)
qed

lemma owners_reconcile [owner_laws]:
  assumes g: "good s"
  shows "owners (reconcileDocumentElements now d A s) \<subseteq> owners s"
proof -
  let ?s0 = "expireDocument now d s"
  have inv: "lock_inv s" and inv0: "lock_inv ?s0" using g by (simp_all add: good_def lock_inv_expire)
  let ?gone = "filter (\<lambda>l. lk_elementId l \<notin> A) (documentLocks ?s0 d)"
  note r = fold_remove_documentLocks [OF inv0, of "\<lambda>l. lk_elementId l \<notin> A" d]
  have "owners (fold remove ?gone ?s0) \<subseteq> owners ?s0"
    by (rule owners_shrink) (auto simp: r(2) split: option.splits if_splits)
  with owners_emit [OF r(1), of now d] owners_expire [OF inv, of now d] show ?thesis
    by (auto simp: reconcileDocumentElements_def Let_def simp del: filter_empty_conv)
qed

lemma owners_timer [owner_laws]:
  assumes g: "good s" and "mapGet (st_timers s) i = Some t" and "tm_due t \<le> now"
  shows "owners (timerFires now i s) \<subseteq> owners s"
proof -
  have inv: "lock_inv s" using g by (simp add: good_def)
  from timer_removes [OF assms] obtain l where l: "lockAt s (tm_documentId t) (tm_elementId t) = Some l"
    "timerFires now i s = emitChange now (tm_documentId t) (remove l s)" by blast
  show ?thesis
    using owners_emit [OF lock_inv_remove [OF inv l(1)]] owners_remove [OF inv l(1)] unfolding l(2) by blast
qed

lemma without_socket:
  "lock_inv s \<Longrightarrow> without_named (socketKeys s x) x s d e = Some l \<longleftrightarrow> lockAt s d e = Some l \<and> lk_socketId l \<noteq> x"
  using socket_keys_named [of s d e _ x] by (cases "lockAt s d e") (auto simp: without_named_def)

lemma owners_releaseBySocket [owner_laws]:
  assumes g: "good s"
  shows "owners (releaseBySocket now x s) \<subseteq> {p \<in> owners s. snd p \<noteq> x}"
proof -
  let ?ks = "socketKeys s x"
  have inv: "lock_inv s" and ann: "announced_except (set []) s" using g by (simp_all add: good_def)
  obtain s' ds where f: "fold (release_key x) ?ks (s, []) = (s', ds)" by (cases "fold (release_key x) ?ks (s, [])")
  have r: "lock_inv s'" "lockAt s' d e = without_named ?ks x s d e" for d e
    using release_keys [OF inv ann socket_keys_pairs [OF inv] f] by blast+
  have "owners s' \<subseteq> {p \<in> owners s. snd p \<noteq> x}"
    by (auto simp: owners_def r(2) without_socket [OF inv])
  with owners_emit_all [OF r(1)] f show ?thesis by (auto simp: releaseBySocket_def)
qed

lemma owners_releaseInDocument [owner_laws]:
  assumes g: "good s"
  shows "owners (releaseBySocketInDocument now x d s) \<subseteq> owners s - {(d, x)}"
proof -
  let ?ks = "socketKeys s x"
  have inv: "lock_inv s" and ann: "announced_except (if False then {d} else {}) s" using g by (simp_all add: good_def)
  obtain s' c where f: "fold (release_key_in x d) ?ks (s, False) = (s', c)"
    by (cases "fold (release_key_in x d) ?ks (s, False)")
  have r: "lock_inv s'" "lockAt s' d' e = (if d' = d then without_named ?ks x s d' e else lockAt s d' e)" for d' e
    using release_keys_in [OF inv ann socket_keys_pairs [OF inv] f] by blast+
  have "owners s' \<subseteq> owners s - {(d, x)}"
    by (auto simp: owners_def r(2) without_socket [OF inv] split: if_splits)
  with owners_emit [OF r(1), of now d] f show ?thesis by (auto simp: releaseBySocketInDocument_def)
qed

lemma prepareCommand_locks:
  "fst (prepareCommand schema lowerEs now i input fp x document s db) = s
   \<or> fst (prepareCommand schema lowerEs now i input fp x document s db) = expireDocument now (dm_documentId input) s"
  by (auto simp: prepareCommand_def hasLockOwnedByAnotherSocket_def Let_def split: option.splits sum.splits)

lemma owners_prepare [owner_laws]:
  "good s \<Longrightarrow> owners (fst (prepareCommand schema lowerEs now i input fp x document s db)) \<subseteq> owners s"
  using prepareCommand_locks [of schema lowerEs now i input fp x document s db] owners_expire [of s now "dm_documentId input"]
  by (auto simp: good_def)

lemma good_prepare: "good s \<Longrightarrow> good (fst (prepareCommand schema lowerEs now i input fp x document s db))"
  using prepareCommand_locks [of schema lowerEs now i input fp x document s db] good_expire by metis

lemma owners_empty: "owners empty_lock_store = {}"
  by (simp add: owners_def empty_lock_store_def lockAt_def)

end
