(* ===== verification/Gateway_Invariant.thy ===== *)
theory Gateway_Invariant
  imports Gateway_Laws Lock_Owners
begin

text \<open>
  The invariant of the gateway: who is shown in a document is connected and has joined it, and so is who
  has a lock in it; and the reservations of connections are those of the sockets, within the limits. The
  invariant holds whenever no segment runs. Beside it, what a handshake may rely on.
\<close>

section \<open>Sessions\<close>

definition session_inv :: "gateway_params \<Rightarrow> gateway_view \<Rightarrow> bool" where
  "session_inv P v \<longleftrightarrow> presence_reachable (cf_maxParticipantsPerDocument P) (vw_presence v) \<and> locks_reachable (vw_locks v)
     \<and> (\<forall>x. documents_of (vw_presence v) x = vw_joined v x)
     \<and> (\<forall>x. vw_joined v x \<noteq> {} \<longrightarrow> vw_connected v x)
     \<and> (\<forall>(d, x) \<in> owners (vw_locks v). d \<in> vw_joined v x)"

lemma session_invD:
  assumes "session_inv P v"
  shows "presence_reachable (cf_maxParticipantsPerDocument P) (vw_presence v)" "locks_reachable (vw_locks v)"
    "presence_good (vw_presence v)" "good (vw_locks v)" "documents_of (vw_presence v) x = vw_joined v x"
    "d \<in> vw_joined v x \<Longrightarrow> vw_connected v x" "(d, x) \<in> owners (vw_locks v) \<Longrightarrow> d \<in> vw_joined v x"
  using assms by (auto simp: session_inv_def presence_reachable_good locks_reachable_good)

lemma session_invI:
  assumes "presence_reachable (cf_maxParticipantsPerDocument P) (vw_presence v)" and "locks_reachable (vw_locks v)"
    and "\<And>x. documents_of (vw_presence v) x = vw_joined v x"
    and "\<And>d x. d \<in> vw_joined v x \<Longrightarrow> vw_connected v x"
    and "\<And>d x. (d, x) \<in> owners (vw_locks v) \<Longrightarrow> d \<in> vw_joined v x"
  shows "session_inv P v"
  using assms by (auto simp: session_inv_def)

lemma session_presence:
  assumes "session_inv P v" and "presence_reachable (cf_maxParticipantsPerDocument P) ps"
    and "\<And>x. documents_of ps x = documents_of (vw_presence v) x"
  shows "session_inv P (v\<lparr>vw_presence := ps\<rparr>)"
  using assms by (simp add: session_inv_def)

lemma session_locks:
  assumes "session_inv P v" and "locks_reachable ls"
    and "\<And>d x. (d, x) \<in> owners ls \<Longrightarrow> (d, x) \<in> owners (vw_locks v) \<or> d \<in> vw_joined v x"
  shows "session_inv P (v\<lparr>vw_locks := ls\<rparr>)"
  using assms by (fastforce simp: session_inv_def)

text \<open>Every call of the lock store by the gateway.\<close>

lemma owners_run_op:
  assumes "good s" and "op_ok now s op'"
  shows "owners (run_op now op' s) \<subseteq> owners s \<union> (case op' of Acquire uuid d e u x ttl \<Rightarrow> {(d, x)} | _ \<Rightarrow> {})"
proof (cases op')
  case (Acquire uuid d e u x ttl)
  with assms owners_acquire [of s d e ttl now uuid u x] show ?thesis by auto
next
  case (TimerFires i)
  with assms owners_timer [of s i _ now] show ?thesis
    by (cases "mapGet (st_timers s) i") (auto simp: timerFires_def)
next
  case (HasLockOwnedByAnotherSocket d A x)
  with assms(1) owners_expire [of s now d] show ?thesis by (simp add: hasLockOwnedByAnotherSocket_def Let_def good_def)
next
  case (HasAnyLock d A)
  with assms(1) owners_expire [of s now d] show ?thesis by (simp add: hasAnyLock_def Let_def good_def)
next
  case (ReleaseBySocket x)
  with owners_releaseBySocket [OF assms(1), of now x] show ?thesis by auto
next
  case (ReleaseBySocketInDocument x d)
  with owners_releaseInDocument [OF assms(1), of now x d] show ?thesis by auto
qed (use assms owners_renew [of s] owners_release [of s] owners_reconcile [of s now] owners_list [of s now] in
    \<open>auto simp: good_def\<close>)

lemma session_lock_op:
  assumes "session_inv P v" and "op_ok now (vw_locks v) op'"
    and "\<And>uuid d e u x ttl. op' = Acquire uuid d e u x ttl \<Longrightarrow> d \<in> vw_joined v x"
  shows "session_inv P (v\<lparr>vw_locks := run_op now op' (vw_locks v)\<rparr>)"
proof (rule session_locks [OF assms(1)])
  show "locks_reachable (run_op now op' (vw_locks v))"
    using session_invD(2) [OF assms(1)] assms(2) by (rule locks_reachable.Step)
  fix d x
  assume "(d, x) \<in> owners (run_op now op' (vw_locks v))"
  with owners_run_op [OF session_invD(4) [OF assms(1)] assms(2)] assms(3)
  show "(d, x) \<in> owners (vw_locks v) \<or> d \<in> vw_joined v x" by (auto split: lock_op.splits)
qed

section \<open>Reservations\<close>

definition reservation_inv :: "gateway_params \<Rightarrow> gateway_view \<Rightarrow> bool" where
  "reservation_inv P v \<longleftrightarrow> finite (vw_sockets v) \<and> card (vw_sockets v) \<le> cf_maxConnectedSockets P
     \<and> (\<forall>sid S. mapGet (vw_bySession v) sid = Some S \<longrightarrow> S \<noteq> {} \<and> finite S \<and> card S \<le> cf_maxSocketsPerSession P)
     \<and> (\<forall>x sid. vw_reserved v x = Some sid \<longleftrightarrow> (\<exists>S. mapGet (vw_bySession v) sid = Some S \<and> x \<in> S))
     \<and> (\<forall>x. x \<in> vw_sockets v \<longleftrightarrow> vw_reserved v x \<noteq> None)
     \<and> (\<forall>x. vw_reserved v x \<noteq> Some [])
     \<and> (\<forall>x. vw_connected v x \<and> \<not> vw_closed v x \<longrightarrow> vw_reserved v x \<noteq> None)"

lemma reservation_invI:
  assumes "finite (vw_sockets v)" and "card (vw_sockets v) \<le> cf_maxConnectedSockets P"
    and "\<And>sid S. mapGet (vw_bySession v) sid = Some S \<Longrightarrow> S \<noteq> {} \<and> finite S \<and> card S \<le> cf_maxSocketsPerSession P"
    and "\<And>x sid. vw_reserved v x = Some sid \<longleftrightarrow> (\<exists>S. mapGet (vw_bySession v) sid = Some S \<and> x \<in> S)"
    and "\<And>x. x \<in> vw_sockets v \<longleftrightarrow> vw_reserved v x \<noteq> None" and "\<And>x. vw_reserved v x \<noteq> Some []"
    and "\<And>x. vw_connected v x \<Longrightarrow> \<not> vw_closed v x \<Longrightarrow> vw_reserved v x \<noteq> None"
  shows "reservation_inv P v"
  using assms unfolding reservation_inv_def by blast

lemma reservation_invD:
  assumes "reservation_inv P v"
  shows "finite (vw_sockets v)" "card (vw_sockets v) \<le> cf_maxConnectedSockets P"
    "mapGet (vw_bySession v) sid = Some S \<Longrightarrow> S \<noteq> {} \<and> finite S \<and> card S \<le> cf_maxSocketsPerSession P"
    "vw_reserved v x = Some sid \<longleftrightarrow> (\<exists>S. mapGet (vw_bySession v) sid = Some S \<and> x \<in> S)"
    "x \<in> vw_sockets v \<longleftrightarrow> vw_reserved v x \<noteq> None" "vw_reserved v x \<noteq> Some []"
    "vw_connected v x \<Longrightarrow> \<not> vw_closed v x \<Longrightarrow> vw_reserved v x \<noteq> None"
  using assms unfolding reservation_inv_def by blast+

definition gateway_inv :: "gateway_params \<Rightarrow> gateway \<Rightarrow> bool" where
  "gateway_inv P g \<longleftrightarrow> session_inv P (view g) \<and> reservation_inv P (view g)"

lemma gateway_invD: "gateway_inv P g \<Longrightarrow> session_inv P (view g)" "gateway_inv P g \<Longrightarrow> reservation_inv P (view g)"
  by (simp_all add: gateway_inv_def)

text \<open>What everything but the handshake of a socket does to it: it neither connects it nor gives it an
  identity or a reservation, and takes away the reservation of one that is not connected only when its
  transport has closed.\<close>

definition calm :: "gateway_view \<Rightarrow> gateway_view \<Rightarrow> jstring \<Rightarrow> bool" where
  "calm v v' x \<longleftrightarrow> (vw_connected v' x \<longrightarrow> vw_connected v x) \<and> (vw_identity v x = None \<longrightarrow> vw_identity v' x = None)
     \<and> (vw_reserved v x = None \<longrightarrow> vw_reserved v' x = None)
     \<and> (\<not> vw_connected v x \<and> vw_reserved v x \<noteq> None \<longrightarrow> vw_reserved v' x = vw_reserved v x \<or> vw_closed v' x)
     \<and> (vw_closed v x \<longrightarrow> vw_closed v' x)"

lemma calm_refl [simp]: "calm v v x"
  by (simp add: calm_def)

lemma calm_trans: "calm v v' x \<Longrightarrow> calm v' v'' x \<Longrightarrow> calm v v'' x"
  by (auto simp: calm_def)

text \<open>An operation that keeps the invariant, leaves every handshake in peace and tells nobody what is in
  a document.\<close>

definition steady :: "gateway_params \<Rightarrow> gateway \<Rightarrow> gateway \<Rightarrow> bool" where
  "steady P g g' \<longleftrightarrow> (gateway_inv P g \<longrightarrow> gateway_inv P g' \<and> (\<forall>x. calm (view g) (view g') x)
     \<and> vw_contents (view g') = vw_contents (view g))"

lemma steady_view: "view g' = view g \<Longrightarrow> steady P g g'"
  by (simp add: steady_def gateway_inv_def)

lemma steady_refl [simp]: "steady P g g"
  by (rule steady_view) simp

lemma steady_trans [trans]: "steady P g g' \<Longrightarrow> steady P g' g'' \<Longrightarrow> steady P g g''"
  unfolding steady_def by (auto intro: calm_trans)

lemma steady_fold: "(\<And>y g. steady P g (f y g)) \<Longrightarrow> steady P g (fold f ys g)"
  by (induction ys arbitrary: g) (auto intro: steady_trans)

text \<open>The stores.\<close>

lemma steady_session:
  assumes "session_inv P (view g) \<Longrightarrow> session_inv P (view g')"
    and "view g' = (view g)\<lparr>vw_joined := j, vw_presence := ps, vw_locks := ls\<rparr>"
  shows "steady P g g'"
  using assms by (auto simp: steady_def gateway_inv_def reservation_inv_def calm_def)

lemma view_stores:
  "v\<lparr>vw_presence := ps\<rparr> = v\<lparr>vw_joined := vw_joined v, vw_presence := ps, vw_locks := vw_locks v\<rparr>"
  "v\<lparr>vw_locks := ls\<rparr> = v\<lparr>vw_joined := vw_joined v, vw_presence := vw_presence v, vw_locks := ls\<rparr>"
  by simp_all

lemma steady_locks:
  assumes "fst (f (gw_locks g)) = run_op now op' (gw_locks g)" and "op_ok now (gw_locks g) op'"
    and "\<And>uuid d e u x ttl. op' = Acquire uuid d e u x ttl \<Longrightarrow> d \<in> sk_joined (clientOf g x)"
  shows "steady P g (fst (withLocks P f g))"
proof (rule steady_session)
  show "view (fst (withLocks P f g)) = (view g)\<lparr>vw_joined := vw_joined (view g), vw_presence := vw_presence (view g),
      vw_locks := fst (f (gw_locks g))\<rparr>" by (simp add: view_laws)
  assume "session_inv P (view g)"
  from session_lock_op [OF this, of now op'] assms show "session_inv P (view (fst (withLocks P f g)))"
    by (simp add: view_laws)
qed

lemma steady_presence:
  assumes "\<And>s. presence_reachable (cf_maxParticipantsPerDocument P) s \<Longrightarrow>
      presence_reachable (cf_maxParticipantsPerDocument P) (fst (f s)) \<and> (\<forall>x. documents_of (fst (f s)) x = documents_of s x)"
  shows "steady P g (fst (withPresence P f g))"
proof (rule steady_session)
  show "view (fst (withPresence P f g)) = (view g)\<lparr>vw_joined := vw_joined (view g), vw_presence := fst (f (gw_presence g)),
      vw_locks := vw_locks (view g)\<rparr>" by (simp add: view_laws)
  assume v: "session_inv P (view g)"
  from session_presence [OF v, of "fst (f (gw_presence g))"] assms session_invD(1) [OF v]
  show "session_inv P (view (fst (withPresence P f g)))" by (simp add: view_laws)
qed

lemma steady_touch: "steady P g (fst (withPresence P (\<lambda>s. (touch now d x s, ())) g))"
  and steady_update: "steady P g (fst (withPresence P (update now d x sel cur k) g))"
  by (rule steady_presence, simp add: presence_reachable.intros touch_correct update_correct presence_reachable_good)+

section \<open>Leaving\<close>

lemma steady_removeFromStores: "steady P g (removeFromStores P now x d g)"
proof (rule steady_session)
  let ?ps = "fst (leave d x (gw_presence g))" and ?ls = "releaseBySocketInDocument now x d (gw_locks g)"
  let ?j = "(vw_joined (view g))(x := sk_joined (clientOf g x) - {d})"
  show v: "view (removeFromStores P now x d g) = (view g)\<lparr>vw_joined := ?j, vw_presence := ?ps, vw_locks := ?ls\<rparr>"
    by (simp add: removeFromStores_def Let_def view_laws view_setClient fun_upd_idem)
  assume inv: "session_inv P (view g)"
  note i = session_invD [OF inv]
  have "locks_reachable ?ls"
    using locks_reachable.Step [OF i(2), of now "ReleaseBySocketInDocument x d"] by simp
  moreover have "presence_reachable (cf_maxParticipantsPerDocument P) ?ps"
    using i(1) by (simp add: presence_reachable.Leave)
  moreover have "documents_of ?ps y = ?j y" for y
    using leave_correct(2) [OF i(3)] i(5) [of y] i(5) [of x] by simp
  moreover have "e \<in> ?j y" if "(e, y) \<in> owners ?ls" for e y
    using owners_releaseInDocument [OF i(4)] i(7) [of e y] that by auto
  moreover have "sk_connected (clientOf g y)" if "e \<in> ?j y" for e y
    using i(6) [of e y] that by (auto split: if_splits)
  ultimately show "session_inv P (view (removeFromStores P now x d g))"
    unfolding v by (intro session_invI) (simp_all split: if_splits)
qed

lemma view_release:
  "view (releaseSocketReservation x g) = (case sk_reservedSession (clientOf g x) of
      None \<Rightarrow> view g
    | Some sid \<Rightarrow> if sid = [] then view g
        else (view g)\<lparr>vw_reserved := (vw_reserved (view g))(x := None), vw_sockets := gw_connectedSocketIds g - {x},
          vw_bySession := (case mapGet (gw_socketIdsBySession g) sid of None \<Rightarrow> gw_socketIdsBySession g
            | Some s \<Rightarrow> if s - {x} = {} then mapDelete sid (gw_socketIdsBySession g)
                       else mapSet sid (s - {x}) (gw_socketIdsBySession g))\<rparr>)"
  by (simp add: releaseSocketReservation_def Let_def split: option.split)
    (simp add: view_def setClient_def clientOf_def mapGet_mapSet fun_eq_iff split: option.split)

lemma reservation_release:
  assumes inv: "reservation_inv P (view g)" and gone: "sk_connected (clientOf g x) \<Longrightarrow> sk_transportClosed (clientOf g x)"
  shows "reservation_inv P (view (releaseSocketReservation x g))"
proof (cases "sk_reservedSession (clientOf g x)")
  case None
  with inv show ?thesis by (simp add: view_release)
next
  case (Some sid)
  note i = reservation_invD [OF inv, unfolded view_sel]
  from Some i(6) [of x] have sid: "sid \<noteq> []" by auto
  from Some i(4) [of x sid] obtain S where S: "mapGet (gw_socketIdsBySession g) sid = Some S" "x \<in> S" by auto
  define rest where "rest = (if S - {x} = {} then None else Some (S - {x}))"
  define left where "left = (if S - {x} = {} then mapDelete sid (gw_socketIdsBySession g)
      else mapSet sid (S - {x}) (gw_socketIdsBySession g))"
  have get: "mapGet left sid' = (if sid' = sid then rest else mapGet (gw_socketIdsBySession g) sid')" for sid'
    by (simp add: left_def rest_def mapGet_mapSet mapGet_mapDelete)
  have rest: "rest = Some T \<Longrightarrow> T = S - {x} \<and> T \<noteq> {}" for T by (auto simp: rest_def split: if_splits)
  have v: "view (releaseSocketReservation x g) = (view g)\<lparr>vw_reserved := (vw_reserved (view g))(x := None),
      vw_sockets := gw_connectedSocketIds g - {x}, vw_bySession := left\<rparr>"
    using Some sid S(1) by (simp add: view_release left_def)
  have size: "T \<noteq> {} \<and> finite T \<and> card T \<le> cf_maxSocketsPerSession P" if "mapGet left t = Some T" for t T
  proof (cases "t = sid")
    case True
    with that rest [of T] have "T = S - {x}" "T \<noteq> {}" by (auto simp: get)
    with i(3) [OF S(1)] card_Diff1_le [of S x] show ?thesis by (simp add: le_trans)
  next
    case False
    with that i(3) show ?thesis by (simp add: get)
  qed
  have owns: "((vw_reserved (view g))(x := None)) y = Some t \<longleftrightarrow> (\<exists>T. mapGet left t = Some T \<and> y \<in> T)" for y t
  proof (cases "t = sid")
    case True
    have "(\<exists>T. rest = Some T \<and> y \<in> T) \<longleftrightarrow> y \<in> S \<and> y \<noteq> x" by (auto simp: rest_def)
    moreover have "sk_reservedSession (clientOf g y) = Some sid \<longleftrightarrow> y \<in> S" using i(4) [of y sid] S(1) by simp
    ultimately show ?thesis using True by (simp add: get)
  next
    case False
    then have "sk_reservedSession (clientOf g x) \<noteq> Some t" using Some by simp
    with False i(4) [of y t] i(4) [of x t] show ?thesis by (cases "y = x") (simp_all add: get)
  qed
  let ?v = "view (releaseSocketReservation x g)"
  show ?thesis
  proof (rule reservation_invI)
    show "card (vw_sockets ?v) \<le> cf_maxConnectedSockets P"
      using i(2) card_Diff1_le [of "gw_connectedSocketIds g" x] unfolding v by simp
    show "T \<noteq> {} \<and> finite T \<and> card T \<le> cf_maxSocketsPerSession P" if "mapGet (vw_bySession ?v) t = Some T" for t T
      using that size unfolding v by simp
    show "vw_reserved ?v y = Some t \<longleftrightarrow> (\<exists>T. mapGet (vw_bySession ?v) t = Some T \<and> y \<in> T)" for y t
      using owns [of y t] unfolding v by (simp del: fun_upd_apply)
    show "y \<in> vw_sockets ?v \<longleftrightarrow> vw_reserved ?v y \<noteq> None" for y using i(5) [of y] unfolding v by simp
    show "vw_reserved ?v y \<noteq> Some []" for y using i(6) [of y] unfolding v by simp
    show "vw_reserved ?v y \<noteq> None" if "vw_connected ?v y" "\<not> vw_closed ?v y" for y
      using that i(7) [of y] gone unfolding v by (auto simp: not_None_eq)
    show "finite (vw_sockets ?v)" using i(1) unfolding v by simp
  qed
qed

lemma view_release_sel:
  "vw_joined (view (releaseSocketReservation x g)) = vw_joined (view g)"
  "vw_connected (view (releaseSocketReservation x g)) = vw_connected (view g)"
  "vw_identity (view (releaseSocketReservation x g)) = vw_identity (view g)"
  "vw_closed (view (releaseSocketReservation x g)) = vw_closed (view g)"
  "vw_presence (view (releaseSocketReservation x g)) = vw_presence (view g)"
  "vw_locks (view (releaseSocketReservation x g)) = vw_locks (view g)"
  "vw_contents (view (releaseSocketReservation x g)) = vw_contents (view g)"
  "y \<noteq> x \<Longrightarrow> vw_reserved (view (releaseSocketReservation x g)) y = vw_reserved (view g) y"
  "vw_reserved (view g) y = None \<Longrightarrow> vw_reserved (view (releaseSocketReservation x g)) y = None"
  by (simp_all add: view_release split: option.split)

lemma release_sel [simp]:
  "gw_presence (releaseSocketReservation x g) = gw_presence g" "gw_locks (releaseSocketReservation x g) = gw_locks g"
  using view_release_sel(5,6) [of x g] by simp_all

lemma reservation_others [simp]:
  "reservation_inv P (v\<lparr>vw_joined := j\<rparr>) = reservation_inv P v"
  "reservation_inv P (v\<lparr>vw_presence := ps\<rparr>) = reservation_inv P v"
  "reservation_inv P (v\<lparr>vw_locks := ls\<rparr>) = reservation_inv P v"
  "reservation_inv P (v\<lparr>vw_identity := i\<rparr>) = reservation_inv P v"
  by (simp_all add: reservation_inv_def)

lemma reservation_fewer:
  "reservation_inv P v \<Longrightarrow> reservation_inv P (v\<lparr>vw_connected := (vw_connected v)(x := False)\<rparr>)"
  "reservation_inv P v \<Longrightarrow> reservation_inv P (v\<lparr>vw_closed := (vw_closed v)(x := True)\<rparr>)"
proof -
  assume inv: "reservation_inv P v"
  note i = reservation_invD [OF inv]
  show "reservation_inv P (v\<lparr>vw_connected := (vw_connected v)(x := False)\<rparr>)"
    by (rule reservation_invI) (use i in \<open>simp_all split: if_splits\<close>)
  show "reservation_inv P (v\<lparr>vw_closed := (vw_closed v)(x := True)\<rparr>)"
    by (rule reservation_invI) (use i in \<open>simp_all split: if_splits\<close>)
qed

lemma steady_disconnect: "steady P g (disconnectClient P now x g)"
proof (cases "sk_connected (clientOf g x)")
  case True
  define g0 where "g0 = setClient x (\<lambda>c. c\<lparr>sk_connected := False, sk_rooms := {}\<rparr>) g"
  define g1 where "g1 = releaseSocketReservation x g0"
  let ?ps = "fst (leaveBySocket x (gw_presence g))" and ?ls = "releaseBySocket now x (gw_locks g)"
  let ?j = "(vw_joined (view g))(x := {})"
  have v0: "view g0 = (view g)\<lparr>vw_connected := (vw_connected (view g))(x := False)\<rparr>"
    by (simp add: g0_def view_setClient fun_upd_idem)
  note sel1 = view_release_sel [where x = x and g = g0, folded g1_def]
  have stores: "gw_presence g1 = gw_presence g" "gw_locks g1 = gw_locks g" "vw_joined (view g1) = vw_joined (view g)"
    using sel1(1,5,6) by (simp_all add: v0)
  have v: "view (disconnectClient P now x g) = (view g1)\<lparr>vw_joined := ?j, vw_presence := ?ps, vw_locks := ?ls\<rparr>"
    using True stores
    by (simp add: disconnectClient_def onDisconnect_def Let_def view_laws g0_def [symmetric] g1_def [symmetric])
      (simp add: view_setClient fun_upd_idem view_laws stores)
  have "session_inv P (view (disconnectClient P now x g))" if inv: "session_inv P (view g)"
  proof -
    note i = session_invD [OF inv]
    have "documents_of ?ps y = ?j y" for y using leaveBySocket_correct(2) [OF i(3)] i(5) by simp
    moreover have "e \<in> ?j y" if "(e, y) \<in> owners ?ls" for e y
    proof -
      from owners_releaseBySocket [OF i(4), of now x] that have "(e, y) \<in> owners (gw_locks g)" "y \<noteq> x" by auto
      with i(7) [of e y] show ?thesis by simp
    qed
    moreover have "((vw_connected (view g))(x := False)) y" if "e \<in> ?j y" for e y
      using i(6) [of e y] that by (auto split: if_splits)
    ultimately show ?thesis
      using presence_reachable.LeaveBySocket [OF i(1)] locks_reachable.Step [OF i(2), of now "ReleaseBySocket x"]
      unfolding v by (intro session_invI) (simp_all add: sel1(2) v0 del: fun_upd_apply)
  qed
  moreover have "reservation_inv P (view (disconnectClient P now x g))" if inv: "reservation_inv P (view g)"
  proof -
    have "reservation_inv P (view g0)" using inv unfolding v0 by (rule reservation_fewer)
    then have "reservation_inv P (view g1)" unfolding g1_def by (rule reservation_release) (simp add: g0_def)
    then show ?thesis unfolding v by simp
  qed
  moreover have "calm (view g) (view (disconnectClient P now x g)) y" for y
    using True sel1 unfolding v by (cases "y = x") (auto simp: calm_def v0)
  moreover have "vw_contents (view (disconnectClient P now x g)) = vw_contents (view g)"
    using sel1(7) by (simp only: v) (simp add: v0)
  ultimately show ?thesis unfolding steady_def gateway_inv_def by blast
qed (simp add: disconnectClient_def)

lemma steady_transportCloses: "steady P g (transportCloses x g)"
proof -
  define g0 where "g0 = setClient x (\<lambda>c. c\<lparr>sk_transportClosed := True\<rparr>) g"
  have stores: "gw_presence g0 = gw_presence g" "gw_locks g0 = gw_locks g" by (simp_all add: g0_def)
  have v0: "view g0 = (view g)\<lparr>vw_closed := (vw_closed (view g))(x := True)\<rparr>"
    by (simp add: g0_def view_setClient fun_upd_idem)
  note sel1 = view_release_sel [where x = x and g = g0]
  have "session_inv P (view (releaseSocketReservation x g0))" if "session_inv P (view g)"
    using that by (simp add: session_inv_def sel1 v0 stores)
  moreover have "reservation_inv P (view (releaseSocketReservation x g0))" if "reservation_inv P (view g)"
  proof (rule reservation_release)
    show "reservation_inv P (view g0)" using that unfolding v0 by (rule reservation_fewer)
  qed (simp add: g0_def)
  moreover have "calm (view g) (view (releaseSocketReservation x g0)) y" for y
    using sel1 by (cases "y = x") (auto simp: calm_def v0)
  moreover have "vw_contents (view (releaseSocketReservation x g0)) = vw_contents (view g)"
    using sel1(7) by (simp add: v0)
  ultimately show ?thesis unfolding steady_def gateway_inv_def transportCloses_def g0_def [symmetric] by blast
qed

section \<open>Events\<close>

lemma steady_event: "gateway_event P g g' \<Longrightarrow> steady P g g'"
proof (induction rule: gateway_event.induct)
  case (Close g x xs now)
  have "steady P g (g\<lparr>gw_closing := xs\<rparr>)" by (rule steady_view) (simp add: view_laws)
  then show ?case using steady_disconnect by (rule steady_trans)
next
  case (Disconnect g now x)
  show ?case by (rule steady_disconnect)
next
  case (TransportCloses g x)
  show ?case by (rule steady_transportCloses)
next
  case (LockExpires g i t now)
  then show ?case by (intro steady_locks [where op' = "TimerFires i" and now = now]) auto
qed (rule steady_view, simp add: view_laws)+

end
