(* ===== verification/Gateway_Segments.thy ===== *)
theory Gateway_Segments
  imports Gateway_Invariant
begin

text \<open>
  What every segment of every handler does: it keeps the invariant, it leaves the handshakes of the others
  in peace, and it shows what is in a document only to sockets in its room with an access token that is
  valid by the clock of that segment. A program built from steady operations does; entering a document,
  acquiring a lock and the broadcast need more, and so does the handshake.
\<close>

section \<open>What a segment may do\<close>

text \<open>The access token of the socket has not expired and the socket is in the room of the document.\<close>

definition receives :: "world \<Rightarrow> gateway \<Rightarrow> jstring \<Rightarrow> jstring \<Rightarrow> bool" where
  "receives e g d x = (case sk_identity (clientOf g x) of
      None \<Rightarrow> False
    | Some i \<Rightarrow> hasActiveAccessToken (en_now e) i \<and> d \<in> sk_rooms (clientOf g x))"

text \<open>What was sent since the segment began at \<open>g0\<close>.\<close>

definition delivered :: "world \<Rightarrow> gateway \<Rightarrow> gateway \<Rightarrow> bool" where
  "delivered e g0 g \<longleftrightarrow> (\<exists>new. contents (gw_sent g) = contents (gw_sent g0) @ new
     \<and> (\<forall>(x, ev) \<in> set new. \<exists>d. documentOf ev = Some d \<and> receives e g0 d x))"

definition kept :: "gateway_params \<Rightarrow> world \<Rightarrow> gateway \<Rightarrow> gateway \<Rightarrow> bool" where
  "kept P e g0 g \<longleftrightarrow> gateway_inv P g \<and> (\<forall>x. calm (view g0) (view g) x) \<and> delivered e g0 g"

lemma delivered_refl [simp]: "delivered e g g"
  by (simp add: delivered_def)

lemma delivered_same: "contents (gw_sent g') = contents (gw_sent g) \<Longrightarrow> delivered e g0 g' = delivered e g0 g"
  by (simp add: delivered_def)

lemma delivered_emit:
  assumes "delivered e g0 g" and "documentOf ev = Some d" and "receives e g0 d x"
  shows "delivered e g0 (emit x ev g)"
proof -
  let ?ok = "\<lambda>(x, ev). \<exists>d. documentOf ev = Some d \<and> receives e g0 d x"
  from assms(1) obtain new where new: "contents (gw_sent g) = contents (gw_sent g0) @ new" "\<forall>m \<in> set new. ?ok m"
    unfolding delivered_def by blast
  then have "contents (gw_sent (emit x ev g)) = contents (gw_sent g0) @ (new @ [(x, ev)])"
    using assms(2) by (simp add: emit_def)
  moreover have "\<forall>m \<in> set (new @ [(x, ev)]). ?ok m" using new(2) assms(2,3) by simp
  ultimately show ?thesis unfolding delivered_def by blast
qed

lemma kept_refl [simp]: "kept P e g g \<longleftrightarrow> gateway_inv P g"
  by (simp add: kept_def)

lemma kept_steady:
  assumes "kept P e g0 g" and "steady P g g'"
  shows "kept P e g0 g'"
proof -
  from assms have "gateway_inv P g'" "\<forall>x. calm (view g) (view g') x" "contents (gw_sent g') = contents (gw_sent g)"
    by (simp_all add: kept_def steady_def)
  with assms(1) delivered_same [of g' g e g0] show ?thesis unfolding kept_def by (blast intro: calm_trans)
qed

lemma kept_view: "kept P e g0 g \<Longrightarrow> view g' = view g \<Longrightarrow> kept P e g0 g'"
  by (erule kept_steady) (rule steady_view)

section \<open>Programs of steady operations\<close>

named_theorems segments \<open>programs whose segments keep the invariant\<close>

declare keeps_intros [segments]

lemma keeps_steady: "(\<And>e g. steady P g (f e g)) \<Longrightarrow> keeps (kept P) (modifyA f)"
  and keeps_steady_call: "(\<And>e g. steady P g (fst (h e g))) \<Longrightarrow> keeps (kept P) (callA h)"
  by (auto intro!: keeps_modifyA keeps_callA intro: kept_steady)

lemma keeps_view: "(\<And>e g. view (f e g) = view g) \<Longrightarrow> keeps (kept P) (modifyA f)"
  and keeps_view_call: "(\<And>e g. view (fst (h e g)) = view g) \<Longrightarrow> keeps (kept P) (callA h)"
  by (auto intro!: keeps_steady keeps_steady_call steady_view)

lemma keeps_Write: "(\<And>e g. keeps K (f e g)) \<Longrightarrow> (\<And>e g0 g. K e g0 g \<Longrightarrow> K e g0 (w e g)) \<Longrightarrow>
    keeps K (Read (\<lambda>e g. Write (w e g) (f e g)))"
  by (simp add: keeps_def)

lemma keeps_if [segments]: "(b \<Longrightarrow> keeps K p) \<Longrightarrow> (\<not> b \<Longrightarrow> keeps K q) \<Longrightarrow> keeps K (if b then p else q)"
  and keeps_option [segments]: "keeps K n \<Longrightarrow> (\<And>v. o' = Some v \<Longrightarrow> keeps K (f v)) \<Longrightarrow>
    keeps K (case o' of None \<Rightarrow> n | Some v \<Rightarrow> f v)"
  and keeps_sum [segments]: "(\<And>u. r = Inl u \<Longrightarrow> keeps K (f1 u)) \<Longrightarrow> (\<And>w. r = Inr w \<Longrightarrow> keeps K (f2 w)) \<Longrightarrow>
    keeps K (case r of Inl u \<Rightarrow> f1 u | Inr w \<Rightarrow> f2 w)"
  and keeps_pair [segments]: "(\<And>u w. z = (u, w) \<Longrightarrow> keeps K (f3 u w)) \<Longrightarrow> keeps K (case z of (u, w) \<Rightarrow> f3 u w)"
  and keeps_Let [segments]: "keeps K (f4 v') \<Longrightarrow> keeps K (Let v' f4)"
  by (auto split: option.split sum.split prod.split simp: Let_def)

lemma keeps_answer [segments]: "keeps (kept P) (answerA f)"
  unfolding answerA_def by (intro segments)

lemma keeps_query [segments]: "keeps (kept P) (queryA f)" "keeps (kept P) (bothA f1 f2)"
  unfolding queryA_def bothA_def by (intro segments)+

lemma keeps_statement [segments]: "keeps (kept P) (statementA f)"
proof (rule keepsI)
  fix e g0 g
  assume "kept P e g0 g"
  moreover have "kept P e' g' (g'\<lparr>gw_db := db\<rparr>)" if "gateway_inv P g'" for e' g' db
    using kept_view [of P e' g' g' "g'\<lparr>gw_db := db\<rparr>"] that by (simp add: view_laws)
  ultimately show "wp (statementA f) (kept P) (\<lambda>_ g'. \<forall>e. kept P e g' g') (\<lambda>_. kept P) e g0 g"
    by (auto simp: statementA_def split: prod.split)
qed

lemma keeps_queued [segments]: "keeps (kept P) p \<Longrightarrow> keeps (kept P) (runQueued i p)"
  unfolding runQueued_def by (intro segments keeps_view) (simp_all add: view_laws)

lemma keeps_queueRun [segments]: "keeps (kept P) p \<Longrightarrow> keeps (kept P) (queueRun P d p)"
  unfolding queueRun_def by (intro segments keeps_view_call) (simp_all add: view_laws)

lemma keeps_socketJoin [segments]: "keeps (kept P) p \<Longrightarrow> keeps (kept P) (runSocketJoin x p)"
  unfolding runSocketJoin_def by (intro segments keeps_view_call keeps_view) (simp_all add: view_laws Let_def)

lemma keeps_reply [segments]: "keeps (kept P) (replyA a r)"
  unfolding replyA_def by (intro keeps_view) (simp add: view_laws)

lemma keeps_validate [segments]: "keeps (kept P) (validateA payload)"
  unfolding validateA_def by (intro segments)

lemma keeps_identity [segments]: "keeps (kept P) (identityA x)"
  unfolding identityA_def by (intro segments)

lemma keeps_checks [segments]:
  "keeps (kept P) (requireLocalIdentity x)" "keeps (kept P) (sessionActiveA P' i)"
  "keeps (kept P) (assertActiveSession P' x)" "keeps (kept P) (assertCurrentProjectAccess pid uid)"
  "keeps (kept P) (getAuthorizedDocumentOrThrow P' x d)" "keeps (kept P) (refuseA x a operationId err)"
  "keeps (kept P) (requireAuthorizedDocument P' x d a)" "keeps (kept P) (requireActiveSession P' x a)"
proof -
  show identity: "keeps (kept P) (requireLocalIdentity x)" unfolding requireLocalIdentity_def by (intro segments)
  have active: "keeps (kept P) (sessionActiveA P' i)" for i unfolding sessionActiveA_def by (intro segments)
  then show "keeps (kept P) (sessionActiveA P' i)" .
  show session: "keeps (kept P) (assertActiveSession P' x)"
    unfolding assertActiveSession_def by (intro segments identity active)
  have access: "keeps (kept P) (assertCurrentProjectAccess pid uid)" for pid uid
    unfolding assertCurrentProjectAccess_def by (intro segments)
  then show "keeps (kept P) (assertCurrentProjectAccess pid uid)" .
  show document: "keeps (kept P) (getAuthorizedDocumentOrThrow P' x d)"
    unfolding getAuthorizedDocumentOrThrow_def by (intro segments session access)
  have refuse: "keeps (kept P) (refuseA x a operationId err)" for operationId err
    unfolding refuseA_def disconnectForAuthenticationFailure_def by (intro segments keeps_view) (simp add: view_laws)
  then show "keeps (kept P) (refuseA x a operationId err)" .
  show "keeps (kept P) (requireAuthorizedDocument P' x d a)" "keeps (kept P) (requireActiveSession P' x a)"
    unfolding requireAuthorizedDocument_def requireActiveSession_def by (intro segments document session refuse)+
qed

lemma keeps_admission [segments]:
  "keeps (kept P) (admitControlEvent P' x a)" "keeps (kept P) (admitCommand P' x a operationId)"
proof -
  have event: "keeps (kept P) (admitEvent p x a operationId)" if "keeps (kept P) p" for p operationId
    unfolding admitEvent_def using that by (intro segments)
  have "keeps (kept P) (allowControlEventA P' x)" "keeps (kept P) (allowCommandA P' x)"
    unfolding allowControlEventA_def allowCommandA_def by (intro keeps_view_call; simp add: view_laws split: prod.split)+
  with event show "keeps (kept P) (admitControlEvent P' x a)" "keeps (kept P) (admitCommand P' x a operationId)"
    by (simp_all add: admitControlEvent_def admitCommand_def)
qed

section \<open>Leaving and broadcasting\<close>

lemma keeps_removal [segments]:
  "keeps (kept P) (finishRemoval P x d)" "keeps (kept P) (removeDocumentState P x d)"
  "keeps (kept P) (finishRemovals P d xs)"
proof -
  show removal: "keeps (kept P) (finishRemoval P x d)" for x
    unfolding finishRemoval_def by (intro keeps_steady steady_removeFromStores)
  show "keeps (kept P) (removeDocumentState P x d)"
    unfolding removeDocumentState_def by (intro segments removal keeps_view) (simp add: view_laws)
  show "keeps (kept P) (finishRemovals P d xs)"
    unfolding finishRemovals_def by (intro segments removal)
qed

lemma keeps_recipient [segments]: "keeps (kept P) (recipientIdentity P d x)"
  unfolding recipientIdentity_def
proof (rule keeps_steady_call)
  fix e g
  have "steady P g ((revokeDocumentAccess x d g)\<lparr>gw_background := bs\<rparr>)" "steady P g (disconnectExpiredToken x g)" for bs
    by (rule steady_view, simp add: view_laws)+
  then show "steady P g (fst (case sk_identity (clientOf g x) of None \<Rightarrow> (disconnectClient P (en_now e) x g, [])
      | Some i \<Rightarrow> if \<not> hasActiveAccessToken (en_now e) i then (disconnectExpiredToken x g, [])
          else if \<not> hasCurrentProjectAccess x d g
          then ((revokeDocumentAccess x d g)\<lparr>gw_background := gw_background g @ [FinishRemoval x d]\<rparr>, [])
          else (g, [i])))"
    by (simp add: steady_disconnect split: option.split)
qed

text \<open>The second loop, which nothing interrupts: the sockets keep their identities and enter no room.\<close>

definition narrowed :: "gateway \<Rightarrow> gateway \<Rightarrow> bool" where
  "narrowed g0 g \<longleftrightarrow> (\<forall>x. sk_identity (clientOf g x) = sk_identity (clientOf g0 x)
     \<and> sk_rooms (clientOf g x) \<subseteq> sk_rooms (clientOf g0 x))"

lemma clientOf_messages [simp]:
  "clientOf (emit x ev g) = clientOf g" "clientOf (closeLater x g) = clientOf g"
  "clientOf (disconnectRevoked x g) = clientOf g" "clientOf (disconnectExpiredToken x g) = clientOf g"
  by (simp_all add: emit_def closeLater_def disconnectRevoked_def disconnectExpiredToken_def)

lemma narrowed_refl [simp]: "narrowed g g"
  by (simp add: narrowed_def)

lemma narrowed_trans: "narrowed g0 g \<Longrightarrow> narrowed g g' \<Longrightarrow> narrowed g0 g'"
  by (auto simp: narrowed_def)

lemma narrowed_release: "sk_identity (clientOf (releaseSocketReservation x g) y) = sk_identity (clientOf g y)"
    "sk_rooms (clientOf (releaseSocketReservation x g) y) = sk_rooms (clientOf g y)"
  by (simp_all add: releaseSocketReservation_def Let_def split: option.split)

lemma narrowed_disconnect: "narrowed g (disconnectClient P now x g)"
  by (simp add: narrowed_def disconnectClient_def onDisconnect_def Let_def narrowed_release)

lemma narrowed_revoke: "narrowed g (revokeDocumentAccess x d g)"
  by (auto simp: narrowed_def revokeDocumentAccess_def leaveRoom_def)

lemma wp_flatMap_call:
  assumes "\<And>x g. J g \<Longrightarrow> J (fst (h x e g))" and "J g"
  shows "wp (flatMapA (\<lambda>x. callA (h x)) xs) G R (\<lambda>_ e' g0' s. e' = e \<and> g0' = g0 \<and> J s) e g0 g"
  using assms(2)
proof (induction xs arbitrary: g)
  case (Cons x xs)
  from Cons.IH [OF assms(1) [OF Cons.prems], of x] show ?case
    by simp (erule wp_mono, simp split: sum.split)
qed simp

text \<open>One turn of the loop.\<close>

definition delivery :: "gateway_params \<Rightarrow> jstring \<Rightarrow> server_event \<Rightarrow> jstring option \<Rightarrow> broadcast_authorization \<Rightarrow> jstring
    \<Rightarrow> world \<Rightarrow> gateway \<Rightarrow> gateway \<times> jstring list" where
  "delivery P d ev excluded authorization x e g =
    (if excluded = Some x \<or> d \<notin> sk_rooms (clientOf g x) then (g, [])
     else case sk_identity (clientOf g x) of
       None \<Rightarrow> (disconnectClient P (en_now e) x g, [])
     | Some i \<Rightarrow>
         if \<not> hasActiveAccessToken (en_now e) i then (disconnectExpiredToken x g, [])
         else if \<not> hasCurrentProjectAccess x d g then (revokeDocumentAccess x d g, [x])
         else if (ci_userId i, ci_sessionId i) \<notin> ba_activeSessions authorization then (disconnectRevoked x g, [])
         else if \<not> ba_documentExists authorization \<or> ci_userId i \<notin> ba_authorizedUserIds authorization
         then (revokeDocumentAccess x d g, [x])
         else if d \<in> gw_deletedDocumentIds g then (g, [])
         else (emit x ev g, []))"

lemma kept_delivery:
  assumes "kept P e g0 g" and "narrowed g0 g" and "documentOf ev = Some d"
    and g'_def: "g' = fst (delivery P d ev excluded authorization x e g)"
  shows "kept P e g0 g' \<and> narrowed g0 g'"
proof -
  have "g' = emit x ev g \<and> receives e g0 d x \<or> g' \<in> {g, disconnectClient P (en_now e) x g,
      disconnectExpiredToken x g, revokeDocumentAccess x d g, disconnectRevoked x g}"
  proof (cases "sk_identity (clientOf g x)")
    case (Some i)
    with assms(2) show ?thesis by (auto simp: delivery_def g'_def receives_def narrowed_def)
  qed (simp add: delivery_def g'_def)
  then consider "g' = emit x ev g" "receives e g0 d x" | "g' \<in> {g, disconnectClient P (en_now e) x g,
      disconnectExpiredToken x g, revokeDocumentAccess x d g, disconnectRevoked x g}" by blast
  then show ?thesis
  proof cases
    case 1
    have "gateway_inv P g'" "calm (view g0) (view g') y" for y
      using assms(1) 1 by (auto simp: kept_def gateway_inv_def session_inv_def reservation_inv_def calm_def emit_def)
    with delivered_emit [of e g0 g ev d x] 1 assms show ?thesis by (auto simp: kept_def narrowed_def)
  next
    case 2
    then have "narrowed g g'" "steady P g g'"
      using narrowed_disconnect [of g P "en_now e" x] narrowed_revoke [of g x d] steady_disconnect [of P g "en_now e" x]
        steady_view [of g' g P] by (auto simp: narrowed_def view_laws)
    with assms(1,2) show ?thesis by (blast intro: kept_steady narrowed_trans)
  qed
qed

lemma wp_deliverTo:
  assumes "kept P e g0 g" and "narrowed g0 g" and "documentOf ev = Some d"
  shows "wp (flatMapA (deliverTo P d ev excluded authorization) xs) G R (\<lambda>_ e g0. kept P e g0) e g0 g"
proof -
  have "deliverTo P d ev excluded authorization = (\<lambda>x. callA (delivery P d ev excluded authorization x))"
    unfolding deliverTo_def by (intro ext arg_cong [where f = callA]) (simp add: delivery_def)
  moreover have "wp (flatMapA (\<lambda>x. callA (delivery P d ev excluded authorization x)) xs) G R
      (\<lambda>_ e' g0' s. e' = e \<and> g0' = g0 \<and> kept P e g0 s \<and> narrowed g0 s) e g0 g"
    using kept_delivery [OF _ _ assms(3)] assms(1,2) by (intro wp_flatMap_call) blast+
  ultimately show ?thesis by (auto elim!: wp_mono)
qed

text \<open>The authorization is awaited, so the loop begins a segment.\<close>

lemma wp_awaited_authorization:
  assumes "kept P e g0 g"
    and "\<And>authorization e g. gateway_inv P g \<Longrightarrow> wp (k authorization) (kept P) (\<lambda>_ s'. \<forall>e. kept P e s' s') (\<lambda>_. kept P) e g g"
  shows "wp (thenA (getBroadcastAuthorization d identities) k) (kept P) (\<lambda>_ s'. \<forall>e. kept P e s' s') (\<lambda>_. kept P) e g0 g"
  using assms by (simp add: getBroadcastAuthorization_def bothA_def answerA_def)

lemma keeps_broadcast [segments]:
  assumes "documentOf ev = Some d"
  shows "keeps (kept P) (broadcastToAuthorizedRoom P d ev excluded)"
  unfolding broadcastToAuthorizedRoom_def Let_def
proof (rule keeps_Read, rule keeps_if, rule keeps_Return, rule keeps_thenA)
  fix g :: gateway
  show "keeps (kept P) (flatMapA (recipientIdentity P d) (roomClients d g))" by (intro segments)
next
  fix g identities
  let ?loop = "\<lambda>authorization. thenA (flatMapA (deliverTo P d ev excluded authorization) (roomClients d g))
      (finishRemovals P d)"
  have "wp (?loop authorization) (kept P) (\<lambda>_ g'. \<forall>e. kept P e g' g') (\<lambda>_. kept P) e g1 g1"
    if "gateway_inv P g1" for e g1 authorization
  proof (rule keeps_then_wp [where K = "kept P" and Q = "\<lambda>_. kept P"])
    show "kept P e g1 g1" using that by simp
    show "wp (flatMapA (deliverTo P d ev excluded authorization) (roomClients d g)) (kept P)
        (\<lambda>_ g'. \<forall>e. kept P e g' g') (\<lambda>_. kept P) e g1 g1"
      using that assms by (intro wp_deliverTo) auto
    show "wp (finishRemovals P d v) (kept P) (\<lambda>_ g'. \<forall>e. kept P e g' g') (\<lambda>_. kept P) e g0 g'"
      if "kept P e g0 g'" for v e g0 g'
      using keepsD [OF keeps_removal(3) that] .
  qed
  then show "keeps (kept P) (thenA (getBroadcastAuthorization d identities) ?loop)"
    by (intro keepsI wp_awaited_authorization)
qed

end
