(* ===== verification/Gateway_Kept.thy ===== *)
theory Gateway_Kept
  imports Gateway_Segments
begin

text \<open>
  The handlers of the gateway, one by one: their segments keep the invariant, leave the handshakes alone
  and show documents only to those in their rooms.
\<close>

text \<open>A lock lasts for some time, and the empty string is no UUID.\<close>

definition params_ok :: "gateway_params \<Rightarrow> bool" where
  "params_ok P \<longleftrightarrow> 0 < cf_lockTtlSeconds P \<and> \<not> gp_isUUID P []"

section \<open>The stores\<close>

lemma keeps_presence:
  assumes "\<And>e s. presence_reachable (cf_maxParticipantsPerDocument P) s \<Longrightarrow>
      presence_reachable (cf_maxParticipantsPerDocument P) (fst (f e s)) \<and> (\<forall>x. documents_of (fst (f e s)) x = documents_of s x)"
  shows "keeps (kept P) (presenceA P f)"
  unfolding presenceA_def by (intro keeps_steady_call steady_presence assms)

lemma keeps_touch [segments]: "keeps (kept P) (presenceA P (\<lambda>e s. (touch (en_now e) d x s, ())))"
  and keeps_update [segments]: "keeps (kept P) (presenceA P (\<lambda>e. update (en_now e) d x sel cur k))"
  unfolding presenceA_def by (intro keeps_steady_call steady_touch steady_update)+

lemma keeps_locks:
  assumes "\<And>e s. fst (f e s) = s \<or>
      (\<exists>op'. fst (f e s) = run_op (en_now e) op' s \<and> op_ok (en_now e) s op' \<and> (\<forall>uuid d e u x ttl. op' \<noteq> Acquire uuid d e u x ttl))"
  shows "keeps (kept P) (locksA P f)"
  unfolding locksA_def
proof (rule keeps_steady_call)
  fix e g
  show "steady P g (fst (withLocks P (f e) g))"
    using assms [of e "gw_locks g"]
  proof (elim disjE exE conjE)
    assume "fst (f e (gw_locks g)) = gw_locks g"
    moreover have "(view g)\<lparr>vw_locks := gw_locks g\<rparr> = view g" by (rule gateway_view.equality) simp_all
    ultimately show ?thesis by (intro steady_view) (simp add: view_laws)
  next
    fix op'
    assume "fst (f e (gw_locks g)) = run_op (en_now e) op' (gw_locks g)" "op_ok (en_now e) (gw_locks g) op'"
      "\<forall>uuid d e u x ttl. op' \<noteq> Acquire uuid d e u x ttl"
    then show ?thesis by (intro steady_locks) auto
  qed
qed

lemma keeps_list [segments]: "keeps (kept P) (locksA P (\<lambda>e. list_locks (en_now e) d))"
  by (rule keeps_locks) (auto intro!: exI [of _ "ListLocks d"])

lemma keeps_reconcile [segments]: "keeps (kept P) (locksA P (\<lambda>e s. (reconcileDocumentElements (en_now e) d A s, ())))"
  by (rule keeps_locks) (auto intro!: exI [of _ "ReconcileDocumentElements d A"])

lemma keeps_release [segments]: "keeps (kept P) (locksA P (\<lambda>e. release (en_now e) d el u x lease))"
  by (rule keeps_locks) (auto intro!: exI [of _ "Release d el u x lease"])

lemma keeps_renew [segments]: "params_ok P \<Longrightarrow>
    keeps (kept P) (locksA P (\<lambda>e. renew (en_now e) d el u x lease (cf_lockTtlSeconds P)))"
  by (rule keeps_locks) (auto intro!: exI [of _ "Renew d el u x lease (cf_lockTtlSeconds P)"] simp: params_ok_def)

lemma keeps_prepare [segments]:
  "keeps (kept P) (locksA P (\<lambda>e s. prepareCommand schema lowerEs (en_now e) i input fp x document s db))"
proof (rule keeps_locks)
  fix e s
  show "fst (prepareCommand schema lowerEs (en_now e) i input fp x document s db) = s \<or>
    (\<exists>op'. fst (prepareCommand schema lowerEs (en_now e) i input fp x document s db) = run_op (en_now e) op' s
       \<and> op_ok (en_now e) s op' \<and> (\<forall>uuid d e u x ttl. op' \<noteq> Acquire uuid d e u x ttl))"
    using prepareCommand_locks [of schema lowerEs "en_now e" i input fp x document s db]
    by (auto intro!: exI [of _ "HasAnyLock (dm_documentId input) {}"] simp: hasAnyLock_def Let_def)
qed

section \<open>Joining and leaving\<close>

lemma keeps_ensure [segments]:
  "keeps (kept P) (ensureJoinActive x d)" "keeps (kept P) (ensureJoined x d)" "keeps (kept P) (leaveRoomAndThrow x d code)"
  unfolding ensureJoinActive_def ensureJoined_def leaveRoomAndThrow_def
  by (intro segments keeps_view; simp add: view_laws)+

lemma keeps_confirm [segments]: "keeps (kept P) (confirmJoin P x d document i)"
  unfolding confirmJoin_def by (intro segments)

lemma keeps_setPending [segments]:
  "keeps (kept P) (modifyA (\<lambda>_. setPending x f))" "keeps (kept P) (callA (\<lambda>_ g. (setPending x f g, b g)))"
  by (intro keeps_view keeps_view_call; simp add: view_laws)+

text \<open>A socket enters a document in one segment.\<close>

lemma steady_enter:
  assumes "isJoinActive x d g" and "snd (join now d u x (cf_maxParticipantsPerDocument P) (gw_presence g)) \<noteq> None"
  shows "steady P g (setClient x (\<lambda>c. c\<lparr>sk_joined := insert d (sk_joined c), sk_projects := m c, sk_pending := p c\<rparr>)
      (fst (withPresence P (join now d u x (cf_maxParticipantsPerDocument P)) g)))"
    (is "steady P g ?g")
proof (rule steady_session)
  let ?ps = "fst (join now d u x (cf_maxParticipantsPerDocument P) (gw_presence g))"
  let ?j = "(vw_joined (view g))(x := insert d (sk_joined (clientOf g x)))"
  show v: "view ?g = (view g)\<lparr>vw_joined := ?j, vw_presence := ?ps, vw_locks := gw_locks g\<rparr>"
    by (rule gateway_view.equality) (simp_all add: view_laws view_setClient fun_eq_iff)
  assume inv: "session_inv P (view g)"
  note i = session_invD [OF inv]
  have "documents_of ?ps y = ?j y" for y
    using join_correct(3) [OF i(3), of now d u x _ y] i(5) [of y] assms(2) by auto
  moreover have "e \<in> ?j y" if "(e, y) \<in> owners (gw_locks g)" for e y
    using i(7) [of e y] that by auto
  moreover have "sk_connected (clientOf g y)" if "e \<in> ?j y" for e y
    using i(6) [of e y] that assms(1) by (auto simp: isJoinActive_def split: if_splits)
  ultimately show "session_inv P (view ?g)"
    using presence_reachable.Join [OF i(1), of now d u x] i(2) unfolding v
    by (intro session_invI) (simp_all del: fun_upd_apply)
qed

lemma steady_full:
  assumes "snd (join now d u x M (gw_presence g)) = None"
  shows "steady P g (fst (withPresence P (join now d u x M) g))"
proof (rule steady_view)
  have "fst (join now d u x M (gw_presence g)) = gw_presence g"
    using assms by (auto simp: join_def Let_def split: if_splits)
  moreover have "(view g)\<lparr>vw_presence := gw_presence g\<rparr> = view g" by (rule gateway_view.equality) simp_all
  ultimately show "view (fst (withPresence P (join now d u x M) g)) = view g" by (simp add: view_laws)
qed

lemma isJoinActive_store [simp]: "isJoinActive x d (fst (withPresence P f g)) = isJoinActive x d g"
  by (simp add: isJoinActive_def)

lemma keeps_enter [segments]: "keeps (kept P) (enterDocument P x d document i)"
  unfolding enterDocument_def
proof (rule keeps_thenA [OF _ keeps_thenA [OF keeps_pauseA]])
  show "keeps (kept P) (modifyA (\<lambda>_. setClient x (\<lambda>c. c\<lparr>sk_rooms := insert d (sk_rooms c)\<rparr>)))"
    by (rule keeps_view) (simp add: view_laws)
next
  let ?join = "\<lambda>e. join (en_now e) d (ci_userId i) x (cf_maxParticipantsPerDocument P)"
  let ?enter = "\<lambda>participants. thenA (getsA (\<lambda>_. isJoinActive x d)) (\<lambda>active.
           if \<not> active
           then thenA (presenceA P (\<lambda>_ s. (fst (leave d x s), ()))) (\<lambda>_. leaveRoomAndThrow x d NOT_JOINED)
           else thenA (modifyA (\<lambda>_. setClient x (\<lambda>c. c\<lparr>sk_joined := insert d (sk_joined c),
                    sk_projects := mapSet d (dc_projectId document) (sk_projects c),
                    sk_pending := sk_pending c - {d}\<rparr>))) (\<lambda>_.
             Return participants))"
  show "keeps (kept P) (thenA (getsA (\<lambda>_. isJoinActive x d)) (\<lambda>active.
     if \<not> active then leaveRoomAndThrow x d NOT_JOINED
     else thenA (presenceA P ?join) (\<lambda>r. case r of None \<Rightarrow> leaveRoomAndThrow x d RATE_LIMITED
       | Some participants \<Rightarrow> ?enter participants)))"
  proof (rule keepsI)
    fix e g0 g
    assume k: "kept P e g0 g"
    note full = keepsD [OF keeps_ensure(3) kept_steady [OF k steady_full]]
    show "wp (thenA (getsA (\<lambda>_. isJoinActive x d)) (\<lambda>active.
       if \<not> active then leaveRoomAndThrow x d NOT_JOINED
       else thenA (presenceA P ?join) (\<lambda>r. case r of None \<Rightarrow> leaveRoomAndThrow x d RATE_LIMITED
         | Some participants \<Rightarrow> ?enter participants))) (kept P) (\<lambda>_ s'. \<forall>e. kept P e s' s') (\<lambda>_. kept P) e g0 g"
    proof (cases "isJoinActive x d g")
      case True
      with full show ?thesis
        by (auto simp: presenceA_def withPresence_view split: option.split intro!: kept_steady [OF k steady_enter])
    qed (use keepsD [OF keeps_ensure(3) k, of x d NOT_JOINED] in simp)
  qed
qed

lemma keeps_join [segments]: "keeps (kept P) (joinDocument P x ack payload)"
  unfolding joinDocument_def joinInQueue_def Let_def by (intro segments)

lemma keeps_leave [segments]: "keeps (kept P) (leaveDocument P x ack payload)"
  unfolding leaveDocument_def by (intro segments)

section \<open>Commands\<close>

lemma returns_query: "(\<And>e g. V (f e g)) \<Longrightarrow> returns V (queryA f)"
  and returns_statement: "(\<And>e db. V (snd (f' e db))) \<Longrightarrow> returns V (statementA f')"
  and returns_call: "(\<And>e g. V (snd (h e g))) \<Longrightarrow> returns V (callA h)"
  and returns_locks: "(\<And>e s. V (snd (l e s))) \<Longrightarrow> returns V (locksA P l)"
  by (simp_all add: queryA_def answerA_def pauseA_def statementA_def callA_def locksA_def withLocks_view split: prod.split)
    (metis snd_conv)

text \<open>Whatever was processed is about the document of the command.\<close>

definition about :: "jstring \<Rightarrow> process_error + processed_command \<Rightarrow> bool" where
  "about d r \<longleftrightarrow> (\<forall>c. r = Inr c \<longrightarrow> pc_documentId c = d)"

lemma about_existing: "about (dm_documentId input) (resolveExisting y i input fp)"
  by (simp add: about_def resolveExisting_def)

lemma about_commit: "about (dm_documentId input) (snd (commitCommand u i input fp m ids t db))"
  using about_existing [of input _ i fp]
  by (auto simp: commitCommand_def about_def split: update_result.split option.split)

lemma about_prepare: "snd (prepareCommand schema lowerEs now i input fp x document s db) = Inr (Document_Commands.Finished c) \<Longrightarrow>
    pc_documentId c = dm_documentId input"
  by (auto simp: prepareCommand_def resolveExisting_def res_simps Let_def split: option.splits sum.splits if_splits prod.splits)

lemma about_find: "findExistingForActor isUUID now i input fp db = Inr (Some c) \<Longrightarrow> pc_documentId c = dm_documentId input"
  by (auto simp: findExistingForActor_def resolveExisting_def res_simps split: option.splits if_splits)

lemma returns_process: "returns (\<lambda>c. pc_documentId c = dm_documentId input) (processA P i input x)"
proof -
  let ?d = "dm_documentId input"
  have "returns (about ?d) (processTransaction P i input fp x)" for fp
    unfolding processTransaction_def
    by (auto intro!: returns_thenA [where U = "\<lambda>_. True"] returns_statement about_commit
        returns_thenA [where U = "\<lambda>r. \<forall>c. r = Inr (Document_Commands.Finished c) \<longrightarrow> pc_documentId c = ?d"]
        returns_locks about_prepare simp: about_def split: sum.split prepared_command.split)
  moreover have "returns (\<lambda>c. pc_documentId c = ?d) (thenA
      (queryA (\<lambda>e g. findExistingForActor (gp_isUUID P) (en_now e) i input fp (gw_db g))) (\<lambda>r. case r of
          Inl err \<Rightarrow> throwProcess err
        | Inr (Some duplicate) \<Rightarrow> Return duplicate
        | Inr None \<Rightarrow> throwProcess KnownUniqueConstraint))" for fp
    by (rule returns_thenA [OF returns_query [where V = "\<lambda>r. \<forall>c. r = Inr (Some c) \<longrightarrow> pc_documentId c = ?d"]])
      (auto intro: about_find simp: throwProcess_def split: sum.split option.split)
  ultimately show ?thesis
    unfolding processA_def Let_def
    by (intro returns_thenA [where U = "about ?d"])
      (auto simp: about_def throwProcess_def pauseA_def split: sum.split process_error.split)
qed

lemma keeps_throw [segments]: "keeps (kept P) (throwProcess err)"
  unfolding throwProcess_def by (intro segments)

lemma keeps_process [segments]: "keeps (kept P) (processA P i input x)"
proof -
  have "keeps (kept P) (processTransaction P i input fp x)" for fp
    unfolding processTransaction_def by (auto intro!: segments split: sum.split prepared_command.split)
  then show ?thesis
    unfolding processA_def Let_def by (auto intro!: segments split: sum.split process_error.split option.split)
qed

lemma keeps_announce [segments]:
  "pc_documentId committed = d \<Longrightarrow> keeps (kept P) (announceCommand P x i d committed)"
  unfolding announceCommand_def by (intro segments) simp_all

lemma keeps_command [segments]: "keeps (kept P) (executeCommand P x ack operationId payload)"
proof -
  have "keeps (kept P) (commandInQueue P x input)" for input
    unfolding commandInQueue_def Let_def
    by (intro segments keeps_thenA_returns [OF keeps_process returns_process])
  then show ?thesis unfolding executeCommand_def by (intro segments)
qed

section \<open>Presence and locks\<close>

lemma keeps_updatePresence [segments]: "keeps (kept P) (updatePresence P x ack payload)"
  unfolding updatePresence_def Let_def by (intro segments)

text \<open>The socket has joined the document when the store is called.\<close>

lemma keeps_checkElement:
  assumes "\<And>i e g0 g. kept P e g0 g \<Longrightarrow> d \<in> sk_joined (clientOf g x) \<Longrightarrow>
      wp (k i) (kept P) (\<lambda>_ s'. \<forall>e. kept P e s' s') (\<lambda>_. kept P) e g0 g"
  shows "keeps (kept P) (thenA (checkElement P x d elementId) k)"
  unfolding checkElement_def thenA_assoc
proof (rule keeps_thenA)
  show "keeps (kept P) (getAuthorizedDocumentOrThrow P x d)" by (intro segments)
  show "keeps (kept P) (thenA (ensureJoined x d) (\<lambda>_. thenA (ensureA (\<lambda>_ _. hasElement document elementId)
      (OperationError INVALID_COMMAND None)) (\<lambda>_. thenA (identityA x) k)))" for document
    using assms by (intro keepsI) (simp add: ensureJoined_def identityA_def split: option.split)
qed

lemma returns_validate: "returns (\<lambda>input. payload = Some input) (validateA payload)"
  by (simp add: validateA_def split: option.split)

lemma keeps_acquire [segments]:
  assumes "params_ok P" and "request_ok (AcquireLock ack payload)"
  shows "keeps (kept P) (acquireLock P x ack payload)"
proof -
  have "keeps (kept P) (acquireInQueue P x input)" if "payload = Some input" for input
    unfolding acquireInQueue_def
  proof (rule keeps_checkElement)
    fix i e g0 g
    assume "kept P e g0 g" "lp_documentId input \<in> sk_joined (clientOf g x)"
    then show "wp (locksA P (\<lambda>e. acquire (en_now e) (en_uuid e) (lp_documentId input) (lp_elementId input) (ci_userId i) x
       (cf_lockTtlSeconds P))) (kept P) (\<lambda>_ s'. \<forall>e. kept P e s' s') (\<lambda>_. kept P) e g0 g"
      using assms that by (simp add: locksA_def, elim kept_steady)
        (rule steady_locks [where now = "en_now e" and op' = "Acquire (en_uuid e) (lp_documentId input)
           (lp_elementId input) (ci_userId i) x (cf_lockTtlSeconds P)"]; simp add: params_ok_def)
  qed
  then have "keeps (kept P) (queueRun P (lp_documentId input) (acquireInQueue P x input))" if "payload = Some input" for input
    using that by (intro segments)
  then have body: "keeps (kept P) (thenA (validateA payload) (\<lambda>input.
      thenA (queueRun P (lp_documentId input) (acquireInQueue P x input)) (k input)))"
    if "\<And>input v. keeps (kept P) (k input v)" for k
    using that by (intro keeps_thenA_returns [OF keeps_validate returns_validate] keeps_thenA) simp_all
  have admitted: "keeps (kept P) (catchA (thenA (admitControlEvent P x a) (\<lambda>ok. whenA ok p)) (\<lambda>err. refuseA x a None err))"
    if "keeps (kept P) p" for p a using that by (intro segments)
  show ?thesis
    unfolding acquireLock_def by (rule keeps_option, rule keeps_Return, rule admitted, rule body) (intro segments)
qed

lemma keeps_lease [segments]:
  assumes "params_ok P"
  shows "keeps (kept P) (renewLock P x ack lease)" "keeps (kept P) (releaseLock P x ack lease)"
proof -
  have "keeps (kept P) (renewInQueue P x input)" "keeps (kept P) (releaseInQueue P x input)" for input
    unfolding renewInQueue_def releaseInQueue_def checkElement_def by (intro segments assms)+
  then have "keeps (kept P) (updateLockLease P x lease a action)" for a action
    unfolding updateLockLease_def Let_def by (intro segments)
  then show "keeps (kept P) (renewLock P x ack lease)" "keeps (kept P) (releaseLock P x ack lease)"
    by (auto simp: renewLock_def releaseLock_def intro: keeps_intros split: option.split)
qed

lemma keeps_request:
  assumes "params_ok P" and "request_ok r"
  shows "keeps (kept P) (requestA P x r)"
  using assms by (cases r) (simp_all add: segments)

section \<open>Work in the background\<close>

lemma keeps_forget [segments]: "keeps (kept P) (forgetRecovery d)"
  unfolding forgetRecovery_def by (rule keeps_view) (simp add: view_laws)

lemma keeps_evictDeleted [segments]: "keeps (kept P) (evictDeletedDocument P d)"
  unfolding evictDeletedDocument_def by (intro segments keeps_view) (simp_all add: view_laws)

lemma keeps_evictMembers [segments]: "keeps (kept P) (evictMembers P d evictions)"
  unfolding evictMembers_def
  by (intro segments keeps_view_call) (simp_all add: view_laws Let_def view_fold)

lemma keeps_resync [segments]: "keeps (kept P) (resyncDocument P d pendingBroadcasts)"
  unfolding resyncDocument_def by (intro segments keeps_view) (simp_all add: view_laws)

lemma keeps_critical [segments]: "keeps (kept P) (processCriticalDocumentWork P d)"
  unfolding processCriticalDocumentWork_def by (intro segments keeps_view keeps_view_call) (simp_all add: view_laws)

lemma keeps_recover [segments]: "keeps (kept P) (recoverUndeliveredOperations P)"
  unfolding recoverUndeliveredOperations_def by (intro segments keeps_view keeps_view_call) (simp_all add: view_laws)

lemma keeps_after [segments]: "keeps (kept P) (afterCriticalWork P d failed)"
  unfolding afterCriticalWork_def by (intro keeps_view) (simp add: view_laws Let_def)

lemma keeps_change [segments]:
  "keeps (kept P) (thenA (currentPayload P kind d) (\<lambda>ev. broadcastToAuthorizedRoom P d ev None))"
proof (rule keeps_thenA_returns)
  show "keeps (kept P) (currentPayload P kind d)"
    unfolding currentPayload_def by (cases kind) (auto intro!: segments)
  show "returns (\<lambda>ev. documentOf ev = Some d) (currentPayload P kind d)"
    unfolding currentPayload_def by (cases kind) (auto intro!: returns_thenA [where U = "\<lambda>_. True"] simp: getsA_def)
qed (intro segments)

lemma keeps_background: "keeps (kept P) (backgroundA P b)"
  by (induction P b rule: backgroundA.induct) (auto intro!: segments)

end
