(* ===== verification/Gateway_Reachable.thy ===== *)
theory Gateway_Reachable
  imports Gateway_Kept
begin

text \<open>
  The handshake, which relies on nobody else touching its socket before it is connected, and then the
  system: in every reachable state of it the invariant holds, and every task that waits will keep it.
\<close>

section \<open>The handshake\<close>

definition relies :: "jstring option \<Rightarrow> gateway \<Rightarrow> gateway \<Rightarrow> bool" where
  "relies t g g' \<longleftrightarrow> (\<forall>x. t = Some x \<longrightarrow> calm (view g) (view g') x)"

definition guarantees :: "jstring option \<Rightarrow> world \<Rightarrow> gateway \<Rightarrow> gateway \<Rightarrow> bool" where
  "guarantees t e g g' \<longleftrightarrow> (\<forall>x. t \<noteq> Some x \<longrightarrow> calm (view g) (view g') x) \<and> delivered e g g'"

interpretation gate: shared_state "gateway_inv P" relies guarantees for P
  by unfold_locales (auto simp: relies_def guarantees_def intro: calm_trans)

lemma kept_guarantees: "kept P e g0 g \<longleftrightarrow> gateway_inv P g \<and> guarantees None e g0 g"
  by (simp add: kept_def guarantees_def)

lemma keeps_good:
  assumes "keeps (kept P) p" and "gateway_inv P g"
  shows "gate.good_program P None p e g"
proof (rule gate.keeps_good_program)
  show "keeps (\<lambda>e s0 s. gateway_inv P s \<and> guarantees None e s0 s) p"
    using assms(1) by (simp add: kept_guarantees [abs_def])
qed (simp_all add: assms(2) guarantees_def)

lemma view_reserve:
  "view (fst (reserveSocket P x sid g)) = (if snd (reserveSocket P x sid g)
     then (view g)\<lparr>vw_sockets := insert x (gw_connectedSocketIds g),
       vw_bySession := mapSet sid (insert x (case mapGet (gw_socketIdsBySession g) sid of None \<Rightarrow> {} | Some s \<Rightarrow> s))
         (gw_socketIdsBySession g)\<rparr>
     else view g)"
  by (simp add: reserveSocket_def Let_def view_def)

lemma reservation_take:
  assumes inv: "reservation_inv P v" and new: "vw_reserved v x = None" and sid: "sid \<noteq> []"
    and S: "S = (case mapGet (vw_bySession v) sid of None \<Rightarrow> {} | Some s \<Rightarrow> s)"
    and room: "card (vw_sockets v) < cf_maxConnectedSockets P" "card S < cf_maxSocketsPerSession P"
  shows "reservation_inv P (v\<lparr>vw_reserved := (vw_reserved v)(x := Some sid), vw_sockets := insert x (vw_sockets v),
    vw_bySession := mapSet sid (insert x S) (vw_bySession v)\<rparr>)" (is "reservation_inv P ?v")
proof -
  note i = reservation_invD [OF inv]
  have owned: "vw_reserved v y = Some sid \<longleftrightarrow> y \<in> S" for y
    using i(4) [of y sid] by (auto simp: S split: option.split)
  have fin: "finite S" using i(3) [of sid] by (auto simp: S split: option.split)
  show ?thesis
  proof (rule reservation_invI)
    show "finite (vw_sockets ?v)" "card (vw_sockets ?v) \<le> cf_maxConnectedSockets P"
      using i(1) room(1) by (simp_all add: card_insert_if)
    show "T \<noteq> {} \<and> finite T \<and> card T \<le> cf_maxSocketsPerSession P" if "mapGet (vw_bySession ?v) t = Some T" for t T
      using that i(3) [of t T] fin room(2) by (auto simp: mapGet_mapSet card_insert_if split: if_splits)
    show "vw_reserved ?v y = Some t \<longleftrightarrow> (\<exists>T. mapGet (vw_bySession ?v) t = Some T \<and> y \<in> T)" for y t
      using i(4) [of y t] i(4) [of x t] owned [of y] new by (auto simp: mapGet_mapSet)
    show "y \<in> vw_sockets ?v \<longleftrightarrow> vw_reserved ?v y \<noteq> None" for y using i(5) [of y] by simp
    show "vw_reserved ?v y \<noteq> Some []" for y using i(6) [of y] sid by simp
    show "vw_reserved ?v y \<noteq> None" if "vw_connected ?v y" "\<not> vw_closed ?v y" for y using that i(7) [of y] by simp
  qed
qed

text \<open>A socket without a connection or a reservation is given both, within the limits, and an identity.\<close>

lemma handshake_accepts:
  assumes inv: "gateway_inv P g" and new: "\<not> sk_connected (clientOf g x)" "sk_reservedSession (clientOf g x) = None"
    and ok: "snd (reserveSocket P x (pn_sessionId p) g)" and sid: "pn_sessionId p \<noteq> []"
    and g': "g' = setClient x (rememberPrincipal now p) (fst (reserveSocket P x (pn_sessionId p) g))"
  shows "gateway_inv P g'" "y \<noteq> x \<Longrightarrow> calm (view g) (view g') y" "contents (gw_sent g') = contents (gw_sent g)"
    "\<not> sk_connected (clientOf g' x)" "sk_reservedSession (clientOf g' x) = Some (pn_sessionId p)"
proof -
  define S where "S = (case mapGet (gw_socketIdsBySession g) (pn_sessionId p) of None \<Rightarrow> {} | Some s \<Rightarrow> s)"
  have room: "card (gw_connectedSocketIds g) < cf_maxConnectedSockets P" "card S < cf_maxSocketsPerSession P"
    using ok by (auto simp: reserveSocket_def S_def Let_def split: if_splits)
  then have r: "fst (reserveSocket P x (pn_sessionId p) g) = g\<lparr>gw_connectedSocketIds := insert x (gw_connectedSocketIds g),
      gw_socketIdsBySession := mapSet (pn_sessionId p) (insert x S) (gw_socketIdsBySession g)\<rparr>"
    by (simp add: reserveSocket_def S_def Let_def)
  have s: "session_inv P (view g)" using inv by (rule gateway_invD)
  have "sk_joined (clientOf g x) = {}" using session_invD(6) [OF s, of _ x] new(1) by auto
  then obtain i where v: "view g' = (view g)\<lparr>vw_reserved := (vw_reserved (view g))(x := Some (pn_sessionId p)),
      vw_sockets := insert x (vw_sockets (view g)),
      vw_bySession := mapSet (pn_sessionId p) (insert x S) (vw_bySession (view g)),
      vw_identity := i\<rparr>"
    by (intro that [of "vw_identity (view g')"] gateway_view.equality)
      (simp_all add: g' r fun_eq_iff rememberPrincipal_def)
  have "reservation_inv P (view g')"
    unfolding v by (simp only: reservation_others, rule reservation_take) (use inv new sid room in \<open>simp_all add: gateway_inv_def S_def\<close>)
  moreover have "session_inv P (view g')"
    using s unfolding v by (simp add: session_inv_def)
  ultimately show "gateway_inv P g'" by (simp add: gateway_inv_def)
  show "calm (view g) (view g') y" if "y \<noteq> x"
    using that by (simp add: calm_def g' r rememberPrincipal_def)
  show "contents (gw_sent g') = contents (gw_sent g)" "\<not> sk_connected (clientOf g' x)"
    "sk_reservedSession (clientOf g' x) = Some (pn_sessionId p)"
    using new by (simp_all add: g' r rememberPrincipal_def)
qed

lemma connect_accepts:
  assumes inv: "gateway_inv P g" and reserved: "sk_reservedSession (clientOf g x) \<noteq> None"
    and g': "g' = handleConnection P now x (setClient x (\<lambda>c. c\<lparr>sk_connected := True\<rparr>) g)"
  shows "gateway_inv P g' \<and> guarantees (Some x) e g g'"
proof -
  define g1 where "g1 = setClient x (\<lambda>c. c\<lparr>sk_connected := True\<rparr>) g"
  have v: "view g1 = (view g)\<lparr>vw_connected := (vw_connected (view g))(x := True)\<rparr>"
    by (rule gateway_view.equality) (simp_all add: g1_def fun_eq_iff)
  have "session_inv P (view g1)" using gateway_invD(1) [OF inv] unfolding v by (simp add: session_inv_def)
  moreover have "reservation_inv P (view g1)"
  proof -
    note i = reservation_invD [OF gateway_invD(2) [OF inv]]
    show ?thesis unfolding v
      by (rule reservation_invI) (use i reserved in \<open>simp_all del: not_None_eq split: if_splits\<close>)
  qed
  ultimately have "gateway_inv P g1" by (simp add: gateway_inv_def)
  moreover have "steady P g1 g'" using steady_disconnect by (simp add: g' g1_def handleConnection_def)
  ultimately have "gateway_inv P g'" "calm (view g1) (view g') y" "contents (gw_sent g') = contents (gw_sent g)" for y
    by (simp_all add: steady_def) (simp add: g1_def)
  moreover have "calm (view g) (view g1) y" if "y \<noteq> x" for y using that by (simp add: calm_def v)
  ultimately show ?thesis using calm_trans [of "view g" "view g1" _ "view g'"] by (auto simp: guarantees_def delivered_def)
qed

definition idle :: "jstring \<Rightarrow> gateway \<Rightarrow> bool" where
  "idle x g \<longleftrightarrow> \<not> sk_connected (clientOf g x) \<and> sk_reservedSession (clientOf g x) = None"

lemma idle_calm: "idle x g \<Longrightarrow> calm (view g) (view g') x \<Longrightarrow> idle x g'"
  by (auto simp: idle_def calm_def)

lemma guarantees_refl [simp]: "guarantees t e g g"
  by (simp add: guarantees_def)

lemma verified_session: "params_ok P \<Longrightarrow> verifyAccessToken (gp_isUUID P) jwt now t db = Inr p \<Longrightarrow> pn_sessionId p \<noteq> []"
  by (auto simp: verifyAccessToken_def params_ok_def uuid_key_def safe_user.defs principal.defs
      split: if_splits option.splits)

lemma connect_good:
  assumes ok: "params_ok P" and "gateway_inv P g" and "idle x g"
  shows "gate.good_program P (Some x) (connectA P x token) e g"
proof (cases token)
  case None
  with assms show ?thesis by (simp add: gate.good_program_def connectA_def handshake_def)
next
  case (Some t)
  let ?G = "\<lambda>e g0 g. gateway_inv P g \<and> guarantees (Some x) e g0 g"
  let ?R = "\<lambda>g g'. gateway_inv P g' \<and> relies (Some x) g g'"
  have released: "?G e' g' (releaseSocketReservation x g')" if "gateway_inv P g'" "idle x g'" for e' g'
    using that by (simp add: releaseSocketReservation_def idle_def)
  have connected: "gateway_inv P g3 \<and> guarantees (Some x) e3 g2 g3"
    if g1: "sk_reservedSession (clientOf g1 x) \<noteq> None" "\<not> sk_connected (clientOf g1 x)" and R: "?R g1 g2"
      and open': "\<not> sk_transportClosed (clientOf g2 x)"
      and g3: "g3 = handleConnection P now x (setClient x (\<lambda>c. c\<lparr>sk_connected := True\<rparr>) g2)" for g1 g2 g3 e3 now
  proof -
    from R g1 open' have "sk_reservedSession (clientOf g2 x) \<noteq> None" by (auto simp: relies_def calm_def)
    with R g3 show ?thesis by (intro connect_accepts) auto
  qed
  have accepted: "?G e' g' g1 \<and> sk_reservedSession (clientOf g1 x) \<noteq> None \<and> \<not> sk_connected (clientOf g1 x)"
    if g': "gateway_inv P g'" "idle x g'" and p: "snd (reserveSocket P x (pn_sessionId p) g')" "pn_sessionId p \<noteq> []"
      and g1: "g1 = setClient x (rememberPrincipal now p) (fst (reserveSocket P x (pn_sessionId p) g'))" for e' g' g1 p now
    using handshake_accepts [OF g'(1) _ _ p g1] g'(2) by (auto simp: idle_def guarantees_def delivered_def)
  have refused: "fst (reserveSocket P x sid g') = g'" if "\<not> snd (reserveSocket P x sid g')" for sid g'
    using that by (auto simp: reserveSocket_def Let_def split: if_splits)
  have idle': "idle x g1" if "relies (Some x) g g1" for g1
    using that assms(3) idle_calm by (auto simp: relies_def)
  then have idle'': "idle x g'" if "relies (Some x) g g1" "relies (Some x) g1 g'" for g1 g'
    using that idle_calm by (auto simp: relies_def)
  have remembered: "?G e' g' g1 \<and> sk_reservedSession (clientOf g1 x) \<noteq> None \<and> \<not> sk_connected (clientOf g1 x)"
    if "gateway_inv P g'" "relies (Some x) g h" "relies (Some x) h g'" "snd (reserveSocket P x (pn_sessionId p) g')"
      and p: "verifyAccessToken (gp_isUUID P) (gp_verifyJwt P) t0 t db = Inr p"
      and g1: "g1 = setClient x (rememberPrincipal now p) (fst (reserveSocket P x (pn_sessionId p) g'))"
    for e' h g' g1 now p t0 db
    using accepted [OF that(1) idle'' [OF that(2,3)] that(4) verified_session [OF ok p] g1] .
  have welcomed: "gateway_inv P g3 \<and> guarantees (Some x) e3 g2 g3"
    if g': "gateway_inv P g'" "relies (Some x) g h" "relies (Some x) h g'" "snd (reserveSocket P x (pn_sessionId p) g')"
      and p: "verifyAccessToken (gp_isUUID P) (gp_verifyJwt P) t0 t db = Inr p"
      and g2: "\<not> sk_transportClosed (clientOf g2 x)" "gateway_inv P g2"
        "relies (Some x) (setClient x (rememberPrincipal now p) (fst (reserveSocket P x (pn_sessionId p) g'))) g2"
      and g3: "g3 = handleConnection P now' x (setClient x (\<lambda>c. c\<lparr>sk_connected := True\<rparr>) g2)"
    for h g' now p t0 db e3 g2 g3 now'
    using remembered [OF g' p refl] g2 by (intro connected [OF _ _ _ g2(1) g3]) auto
  show ?thesis
    using assms(2,3) Some unfolding gate.good_program_def connectA_def handshake_def
    by (auto simp: queryA_def answerA_def refused split: sum.split dest: idle' idle'' released remembered welcomed)
qed

section \<open>The system\<close>

lemma gateway_inv_new: "gateway_inv P (new_gateway db)"
proof -
  have c: "clientOf (new_gateway db) x = new_client" for x by (simp add: clientOf_def new_gateway_def)
  have "documents_of empty_presence_store x = {}" for x
    by (simp add: documents_of_def participantAt_def empty_presence_store_def nestedGet_def)
  then show ?thesis
    by (simp add: gateway_inv_def session_inv_def reservation_inv_def c)
      (simp add: new_gateway_def new_client_def presence_reachable.Start locks_reachable.Start owners_empty)
qed

definition tags :: "task list \<Rightarrow> jstring list" where
  "tags ts = concat (map (\<lambda>(t, _). case t of None \<Rightarrow> [] | Some x \<Rightarrow> [x]) ts)"

lemma tags_simps [simp]:
  "tags [] = []" "tags (ts @ ts') = tags ts @ tags ts'" "tags ((None, r) # ts) = tags ts"
  "tags ((Some x, r) # ts) = x # tags ts"
  by (simp_all add: tags_def)

lemma tags_mem: "(Some x, r) \<in> set ts \<Longrightarrow> x \<in> set (tags ts)"
  by (cases r) (force simp: tags_def)

definition system_inv :: "gateway_params \<Rightarrow> system \<Rightarrow> bool" where
  "system_inv P s \<longleftrightarrow> gateway_inv P (sy_gateway s) \<and> distinct (tags (sy_tasks s))
     \<and> set (tags (sy_tasks s)) \<subseteq> sy_sockets s \<and> (\<forall>x. x \<notin> sy_sockets s \<longrightarrow> idle x (sy_gateway s))
     \<and> (\<forall>(t, c, p) \<in> set (sy_tasks s). gate.good_task P (sy_gateway s) t c p)"

lemma steady_guarantees: "steady P g g' \<Longrightarrow> gateway_inv P g \<Longrightarrow> gateway_inv P g' \<and> guarantees t e g g'"
  by (simp add: steady_def guarantees_def delivered_def)

text \<open>The tasks that do not run are fine with what a task without a tag, or of another socket, guarantees.\<close>

lemma others_good:
  assumes "\<forall>(t, c, p) \<in> set ts. gate.good_task P g t c p" and "guarantees t' e g g'"
    and "\<And>x. t' = Some x \<Longrightarrow> x \<notin> set (tags ts)"
  shows "\<forall>(t, c, p) \<in> set ts. gate.good_task P g' t c p"
proof safe
  fix t c p
  assume m: "(t, c, p) \<in> set ts"
  have "t = None \<or> t' \<noteq> t" using m assms(3) tags_mem by (cases t) auto
  with m assms(1,2) show "gate.good_task P g' t c p" by (blast intro: gate.good_task_others)
qed

lemma idle_others: "guarantees t e g g' \<Longrightarrow> t \<noteq> Some x \<Longrightarrow> idle x g \<Longrightarrow> idle x g'"
  by (auto simp: guarantees_def intro: idle_calm)

lemma system_inv_steady:
  assumes "system_inv P s" and "steady P (sy_gateway s) g"
  shows "system_inv P (s\<lparr>sy_gateway := g\<rparr>)"
proof -
  fix e
  have "gateway_inv P g" "guarantees None e (sy_gateway s) g"
    using assms steady_guarantees by (auto simp: system_inv_def)
  with assms(1) others_good [of "sy_tasks s" P "sy_gateway s" None e g] idle_others [of None e "sy_gateway s" g]
  show ?thesis by (auto simp: system_inv_def)
qed

lemma system_inv_task:
  assumes "system_inv P s" and "\<And>e g. gateway_inv P g \<Longrightarrow> gate.good_program P None p e g"
  shows "system_inv P (s\<lparr>sy_tasks := sy_tasks s @ [(None, c, p)]\<rparr>)"
  using assms gate.good_task_new [of P None "sy_gateway s" p c] by (auto simp: system_inv_def)

lemma system_inv_step:
  assumes "params_ok P" and "system_step P s s'" and "system_inv P s"
  shows "system_inv P s'"
  using assms(2,3)
proof (induction rule: system_step.induct)
  case (Connect x s token)
  let ?g = "setClient x id (sy_gateway s)"
  have "system_inv P (s\<lparr>sy_gateway := ?g\<rparr>)"
    by (intro system_inv_steady Connect.prems steady_view) (simp add: view_laws)
  moreover have "gate.good_task P ?g (Some x) (\<lambda>_. True) (connectA P x token)"
  proof (rule gate.good_task_new)
    fix e g
    assume "gateway_inv P g" "relies (Some x) ?g g"
    moreover have "idle x ?g" using Connect by (simp add: system_inv_def idle_def)
    ultimately show "gate.good_program P (Some x) (connectA P x token) e g"
      using connect_good [OF assms(1)] idle_calm by (auto simp: relies_def)
  qed
  ultimately show ?case using Connect.hyps by (auto simp: system_inv_def)
next
  case (Request s x r)
  then show ?case using keeps_good keeps_request [OF assms(1)] by (intro system_inv_task) blast+
next
  case (Background s b bs)
  let ?s = "s\<lparr>sy_gateway := (sy_gateway s)\<lparr>gw_background := bs\<rparr>\<rparr>"
  have "system_inv P ?s" by (intro system_inv_steady Background.prems steady_view) (simp add: view_laws)
  from system_inv_task [OF this keeps_good [OF keeps_background], of "\<lambda>_. True" b] show ?case by (cases s) simp
next
  case (Resume s ts t c p ts' e g out)
  let ?g = "sy_gateway s"
  from Resume have "gate.good_task P ?g t c p" "gateway_inv P ?g" by (auto simp: system_inv_def)
  from gate.good_task_run [OF this Resume.hyps(2,3)]
  have r: "gateway_inv P g" "guarantees t e ?g g" "\<And>c' p'. out = Suspended c' p' \<Longrightarrow> gate.good_task P g t c' p'" by blast+
  have other: "\<forall>(t, c, p) \<in> set (ts @ ts'). gate.good_task P g t c p"
    by (rule others_good [OF _ r(2)]) (use Resume in \<open>auto simp: system_inv_def\<close>)
  have idle: "idle x g" if "x \<notin> sy_sockets s" for x
    by (rule idle_others [OF r(2)]) (use that Resume in \<open>auto simp: system_inv_def\<close>)
  have "set (tags (continue t out)) \<subseteq> (case t of None \<Rightarrow> {} | Some x \<Rightarrow> {x})" "distinct (tags (continue t out))"
    by (cases t; cases out; simp add: continue_def)+
  with Resume have "distinct (tags (ts @ continue t out @ ts'))" "set (tags (ts @ continue t out @ ts')) \<subseteq> sy_sockets s"
    by (cases t; auto simp: system_inv_def)+
  with r(1) idle other show ?case
    by (auto simp: system_inv_def continue_def split: outcome.splits dest: r(3))
next
  case (Event s g)
  from system_inv_steady [OF Event.prems steady_event [OF Event.hyps]] show ?case .
qed

theorem system_inv_reachable:
  assumes "params_ok P" and "system_reachable P s"
  shows "system_inv P s"
  using assms(2)
proof (induction rule: system_reachable.induct)
  case (Start db)
  have "idle x (new_gateway db)" for x by (simp add: idle_def clientOf_def new_gateway_def new_client_def)
  then show ?case by (simp add: system_inv_def gateway_inv_new)
next
  case (Step s s')
  then show ?case using system_inv_step [OF assms(1)] by blast
qed

end
