(* ===== verification/Gateway_Answers.thy ===== *)
theory Gateway_Answers
  imports Gateway_Laws
begin

text \<open>
  Replies: a handler that was given an acknowledgement calls it exactly once and does not throw, however
  the checks, the database and the queues decide and whatever other code runs in between. The parts of a
  handler either leave the acknowledgement alone, or call it unless they throw, or are a gate: they call
  it exactly when the rest of the handler will not.
\<close>

section \<open>The replies to a request\<close>

definition answersTo :: "nat \<Rightarrow> gateway \<Rightarrow> reply list" where
  "answersTo a g = concat (map (\<lambda>m. case m of Emit x ev \<Rightarrow> [] | Ack b r \<Rightarrow> if b = a then [r] else []) (gw_sent g))"

named_theorems answer_laws \<open>operations that reply to nobody\<close>

lemma answers_sent: "gw_sent g' = gw_sent g \<Longrightarrow> answersTo a g' = answersTo a g"
  by (simp add: answersTo_def)

lemma answers_update [answer_laws]:
  "answersTo a (g\<lparr>gw_clients := a1\<rparr>) = answersTo a g" "answersTo a (g\<lparr>gw_closing := a2\<rparr>) = answersTo a g"
  "answersTo a (g\<lparr>gw_connectedSocketIds := a3\<rparr>) = answersTo a g" "answersTo a (g\<lparr>gw_socketIdsBySession := a4\<rparr>) = answersTo a g"
  "answersTo a (g\<lparr>gw_background := a15\<rparr>) = answersTo a g" "answersTo a (g\<lparr>gw_joinTails := a16\<rparr>) = answersTo a g"
  "answersTo a (g\<lparr>gw_presence := a17\<rparr>) = answersTo a g" "answersTo a (g\<lparr>gw_locks := a18\<rparr>) = answersTo a g"
  "answersTo a (g\<lparr>gw_limiter := a19\<rparr>) = answersTo a g" "answersTo a (g\<lparr>gw_queue := a20\<rparr>) = answersTo a g"
  "answersTo a (g\<lparr>gw_db := a21\<rparr>) = answersTo a g"
  by (simp_all add: answersTo_def)

lemma answers_reply: "answersTo a (g\<lparr>gw_sent := gw_sent g @ [Ack a r]\<rparr>) = answersTo a g @ [r]"
  by (simp add: answersTo_def)

lemma answers_emit [answer_laws]: "answersTo a (emit x ev g) = answersTo a g"
  by (simp add: answersTo_def emit_def)

lemma answers_client [answer_laws]: "answersTo a (setClient x f g) = answersTo a g"
  by (simp add: setClient_def answer_laws)

lemma answers_fold: "(\<And>y g. answersTo a (f y g) = answersTo a g) \<Longrightarrow> answersTo a (fold f ys g) = answersTo a g"
  by (induction ys arbitrary: g) simp_all

lemma answers_queue [answer_laws]:
  "answersTo a (fst (enqueueOperation P d p g)) = answersTo a g"
  "answersTo a (scheduleAuthorizedBroadcast P kind d g) = answersTo a g"
proof -
  show enqueue: "answersTo a (fst (enqueueOperation P d p g)) = answersTo a g" for p
    by (simp add: enqueueOperation_def answer_laws split: option.split)
  show "answersTo a (scheduleAuthorizedBroadcast P kind d g) = answersTo a g"
    using enqueue [of Standard] by (simp add: scheduleAuthorizedBroadcast_def answer_laws case_prod_unfold)
qed

lemma answers_stores [answer_laws]:
  "answersTo a (fst (withPresence P f g)) = answersTo a g" "answersTo a (fst (withLocks P h g)) = answersTo a g"
proof -
  have broadcasts: "answersTo a (fold (\<lambda>(d, _). scheduleAuthorizedBroadcast P kind d) ds g) = answersTo a g"
    for kind g and ds :: "(jstring \<times> 'q) list"
    by (rule answers_fold) (simp add: answer_laws case_prod_unfold)
  show "answersTo a (fst (withPresence P f g)) = answersTo a g" "answersTo a (fst (withLocks P h g)) = answersTo a g"
    by (simp_all add: withPresence_def withLocks_def broadcasts answer_laws split: prod.split)
qed

lemma answers_messages [answer_laws]:
  "answersTo a (closeLater x g) = answersTo a g" "answersTo a (disconnectRevoked x g) = answersTo a g"
  "answersTo a (disconnectExpiredToken x g) = answersTo a g" "answersTo a (leaveRoom x d g) = answersTo a g"
  "answersTo a (setPending x f g) = answersTo a g" "answersTo a (revokeDocumentAccess x d g) = answersTo a g"
  "answersTo a (authenticationFailure x err g) = answersTo a g" "answersTo a (releaseJoin i x g) = answersTo a g"
  "answersTo a (removeFromStores P now x d g) = answersTo a g" "answersTo a (releaseSocketReservation x g) = answersTo a g"
  by (simp_all add: closeLater_def disconnectRevoked_def disconnectExpiredToken_def leaveRoom_def setPending_def
      revokeDocumentAccess_def authenticationFailure_def releaseJoin_def removeFromStores_def releaseSocketReservation_def
      Let_def answer_laws split: gateway_error.split option.split)

lemma answers_disconnect [answer_laws]: "answersTo a (disconnectClient P now x g) = answersTo a g"
  by (simp add: disconnectClient_def onDisconnect_def Let_def answer_laws)

section \<open>Programs that reply to nobody\<close>

definition silent :: "nat \<Rightarrow> 'r handler \<Rightarrow> bool" where
  "silent a p \<longleftrightarrow> (\<forall>rs. keeps (\<lambda>_ _ g. answersTo a g = rs) p)"

named_theorems silent_intros \<open>programs that leave an acknowledgement alone\<close>

lemma silent_call: "(\<And>e g. answersTo a (fst (h e g)) = answersTo a g) \<Longrightarrow> silent a (callA h)"
  and silent_modify: "(\<And>e g. answersTo a (f e g) = answersTo a g) \<Longrightarrow> silent a (modifyA f)"
  by (simp_all add: silent_def keeps_callA keeps_modifyA)

lemma silent_basic [silent_intros]:
  "silent a (Return v)" "silent a (Throw err)" "silent a (getsA f)" "silent a (ensureA b err)" "silent a pauseA"
  by (simp_all add: silent_def keeps_intros)

lemma silent_thenA [silent_intros]: "silent a p \<Longrightarrow> (\<And>v. silent a (k v)) \<Longrightarrow> silent a (thenA p k)"
  and silent_catchA [silent_intros]: "silent a p \<Longrightarrow> (\<And>err. silent a (h err)) \<Longrightarrow> silent a (catchA p h)"
  and silent_finallyA [silent_intros]: "silent a p \<Longrightarrow> silent a q \<Longrightarrow> silent a (finallyA p q)"
  and silent_Read [silent_intros]: "(\<And>e s. silent a (f e s)) \<Longrightarrow> silent a (Read f)"
  and silent_Await [silent_intros]: "silent a p \<Longrightarrow> silent a (Await c p)"
  and silent_whenA [silent_intros]: "silent a w \<Longrightarrow> silent a (whenA cond w)"
  and silent_forEachA [silent_intros]: "(\<And>x. silent a (g x)) \<Longrightarrow> silent a (forEachA g xs)"
  and silent_flatMapA [silent_intros]: "(\<And>x. silent a (l x)) \<Longrightarrow> silent a (flatMapA l xs)"
  by (simp_all add: silent_def keeps_intros)

lemma silent_cases [silent_intros]:
  "silent a p \<Longrightarrow> silent a q \<Longrightarrow> silent a (if b then p else q)"
  "silent a n \<Longrightarrow> (\<And>v. silent a (f v)) \<Longrightarrow> silent a (case v' of None \<Rightarrow> n | Some v \<Rightarrow> f v)"
  "(\<And>u. silent a (f1 u)) \<Longrightarrow> (\<And>w. silent a (f2 w)) \<Longrightarrow> silent a (case r of Inl u \<Rightarrow> f1 u | Inr w \<Rightarrow> f2 w)"
  "(\<And>u w. silent a (f3 u w)) \<Longrightarrow> silent a (case z of (u, w) \<Rightarrow> f3 u w)"
  by (auto split: option.split sum.split prod.split)

lemma silent_answer [silent_intros]: "silent a (answerA f)"
  unfolding answerA_def by (intro silent_intros)

lemma silent_waiting [silent_intros]:
  "silent a (queryA f)" "silent a (bothA f1 f2)" "silent a (statementA f')" "silent a p \<Longrightarrow> silent a (runQueued i p)"
  "silent a p \<Longrightarrow> silent a (queueRun P d p)"
proof -
  show "silent a (queryA f)" "silent a (bothA f1 f2)"
    unfolding queryA_def bothA_def by (intro silent_intros)+
  show "silent a (statementA f')"
    by (auto simp: silent_def keeps_def statementA_def answer_laws split: prod.split)
  show queued: "silent a p \<Longrightarrow> silent a (runQueued i p)" for i
    unfolding runQueued_def by (intro silent_intros silent_modify) (simp_all add: answer_laws)
  show "silent a p \<Longrightarrow> silent a (queueRun P d p)"
    unfolding queueRun_def by (intro silent_intros silent_call queued) (simp_all add: answer_laws)
qed

lemma silent_checks [silent_intros]:
  "silent a (identityA x)" "silent a (requireLocalIdentity x)" "silent a (sessionActiveA P i)"
  "silent a (assertActiveSession P x)" "silent a (assertCurrentProjectAccess pid uid)"
  "silent a (getAuthorizedDocumentOrThrow P x d)" "silent a (validateA payload)" "silent a (ensureJoined x d)"
  "silent a (ensureJoinActive x d)" "silent a (disconnectForAuthenticationFailure x err)"
proof -
  show identity: "silent a (identityA x)" unfolding identityA_def by (intro silent_intros)
  show local: "silent a (requireLocalIdentity x)" unfolding requireLocalIdentity_def by (intro silent_intros identity)
  have active: "silent a (sessionActiveA P i)" for i unfolding sessionActiveA_def by (intro silent_intros)
  then show "silent a (sessionActiveA P i)" .
  show session: "silent a (assertActiveSession P x)" unfolding assertActiveSession_def by (intro silent_intros local active)
  have access: "silent a (assertCurrentProjectAccess pid uid)" for pid uid
    unfolding assertCurrentProjectAccess_def by (intro silent_intros)
  then show "silent a (assertCurrentProjectAccess pid uid)" .
  show "silent a (getAuthorizedDocumentOrThrow P x d)"
    unfolding getAuthorizedDocumentOrThrow_def by (intro silent_intros session identity access)
  show "silent a (validateA payload)" "silent a (ensureJoined x d)" "silent a (ensureJoinActive x d)"
    unfolding validateA_def ensureJoined_def ensureJoinActive_def by (intro silent_intros)+
  show "silent a (disconnectForAuthenticationFailure x err)"
    unfolding disconnectForAuthenticationFailure_def by (intro silent_modify) (simp add: answer_laws)
qed

lemma silent_stores [silent_intros]:
  "silent a (presenceA P f)" "silent a (locksA P h)" "silent a (finishRemoval P x d)" "silent a (removeDocumentState P x d)"
  "silent a (finishRemovals P d xs)" "silent a (leaveRoomAndThrow x d code)"
  unfolding presenceA_def locksA_def finishRemoval_def removeDocumentState_def finishRemovals_def leaveRoomAndThrow_def
  by (intro silent_intros silent_call silent_modify; simp add: answer_laws)+

lemma silent_broadcast [silent_intros]: "silent a (broadcastToAuthorizedRoom P d ev excluded)"
proof -
  have "silent a (recipientIdentity P d x)" "silent a (deliverTo P d ev excluded authorization x)" for x authorization
    unfolding recipientIdentity_def deliverTo_def by (intro silent_call; simp add: answer_laws split: option.split)+
  moreover have "silent a (getBroadcastAuthorization d identities)" for identities
    unfolding getBroadcastAuthorization_def by (intro silent_intros)
  ultimately show ?thesis unfolding broadcastToAuthorizedRoom_def Let_def by (intro silent_intros)
qed

lemma silent_command [silent_intros]: "silent a (commandInQueue P x input)"
proof -
  have throw: "silent a (throwProcess err)" for err :: process_error
    unfolding throwProcess_def by (intro silent_intros)
  have transaction: "silent a (processTransaction P i input fp x)" for i fp
    unfolding processTransaction_def by (auto intro!: silent_intros split: sum.split prepared_command.split)
  then have "silent a (processA P i input x)" for i
    unfolding processA_def Let_def
    by (auto intro!: silent_intros throw split: sum.split process_error.split option.split)
  moreover have "silent a (announceCommand P x i d committed)" for i d committed
    unfolding announceCommand_def by (intro silent_intros)
  ultimately show ?thesis unfolding commandInQueue_def Let_def by (intro silent_intros)
qed

lemma silent_locks [silent_intros]:
  "silent a (acquireInQueue P x lock)" "silent a (renewInQueue P x lease)" "silent a (releaseInQueue P x lease)"
  unfolding acquireInQueue_def renewInQueue_def releaseInQueue_def checkElement_def by (intro silent_intros)+

lemma silent_enter [silent_intros]: "silent a (enterDocument P x d document i)" "silent a (confirmJoin P x d document i)"
  unfolding enterDocument_def confirmJoin_def by (intro silent_intros silent_modify; simp add: answer_laws)+

section \<open>Programs that reply\<close>

text \<open>Other code never calls the acknowledgement.\<close>

definition others :: "nat \<Rightarrow> gateway \<Rightarrow> gateway \<Rightarrow> bool" where
  "others a g g' \<longleftrightarrow> answersTo a g' = answersTo a g"

abbreviation outcome_of :: "nat \<Rightarrow> 'r handler \<Rightarrow> (gateway_error + 'r \<Rightarrow> gateway \<Rightarrow> bool) \<Rightarrow> world \<Rightarrow> gateway \<Rightarrow> gateway \<Rightarrow> bool" where
  "outcome_of a p Q \<equiv> wp p (\<lambda>_ _ _. True) (others a) (\<lambda>r _ _ g. Q r g)"

lemma wp_others:
  assumes "wp p (\<lambda>_ _ g. answersTo a g = rs) (\<lambda>_ g'. \<forall>e::world. answersTo a g' = rs) Q e g0 g"
  shows "wp p (\<lambda>_ _ _. True) (others a) Q e g0 g"
  using assms by (induction p arbitrary: e g0 g rule: async_induct) (auto simp: others_def)

lemma silent_outcome:
  assumes "silent a p" and "answersTo a g = rs"
  shows "outcome_of a p (\<lambda>_ g. answersTo a g = rs) e g0 g"
proof -
  have "keeps (\<lambda>_ _ g. answersTo a g = rs) p" using assms(1) unfolding silent_def by blast
  from keepsD [OF this assms(2), of e g0] show ?thesis by (rule wp_others)
qed

lemma outcome_bind:
  assumes "outcome_of a p Q1 e g0 g"
    and "\<And>v e g0 g. Q1 (Inr v) g \<Longrightarrow> outcome_of a (k v) Q2 e g0 g" and "\<And>err g. Q1 (Inl err) g \<Longrightarrow> Q2 (Inl err) g"
  shows "outcome_of a (thenA p k) Q2 e g0 g"
  using assms(1) by (simp, elim wp_mono) (auto intro: assms(2,3) split: sum.split)

lemma outcome_catch:
  assumes "outcome_of a p Q1 e g0 g"
    and "\<And>err e g0 g. Q1 (Inl err) g \<Longrightarrow> outcome_of a (h err) Q2 e g0 g" and "\<And>v g. Q1 (Inr v) g \<Longrightarrow> Q2 (Inr v) g"
  shows "outcome_of a (catchA p h) Q2 e g0 g"
  using assms(1) by (simp, elim wp_mono) (auto intro: assms(2,3) split: sum.split)

text \<open>\<open>gate\<close>: a program that throws before it replied, or replies once exactly when its result is not
  \<open>ok\<close>; \<open>answering\<close>: it replies once or throws before. \<open>concluding\<close>: it replies once and
  does not throw.\<close>

definition replied :: "nat \<Rightarrow> reply list \<Rightarrow> gateway \<Rightarrow> bool" where
  "replied a rs g \<longleftrightarrow> (\<exists>r. answersTo a g = rs @ [r])"

fun gated :: "nat \<Rightarrow> ('r \<Rightarrow> bool) \<Rightarrow> reply list \<Rightarrow> gateway_error + 'r \<Rightarrow> gateway \<Rightarrow> bool" where
  "gated a ok rs (Inl err) g \<longleftrightarrow> answersTo a g = rs"
| "gated a ok rs (Inr v) g \<longleftrightarrow> (if ok v then answersTo a g = rs else replied a rs g)"

definition gate :: "nat \<Rightarrow> ('r \<Rightarrow> bool) \<Rightarrow> 'r handler \<Rightarrow> bool" where
  "gate a ok p \<longleftrightarrow> (\<forall>rs e g0 g. answersTo a g = rs \<longrightarrow> outcome_of a p (gated a ok rs) e g0 g)"

abbreviation answering :: "nat \<Rightarrow> 'r handler \<Rightarrow> bool" where
  "answering a \<equiv> gate a (\<lambda>_. False)"

definition concluding :: "nat \<Rightarrow> 'r handler \<Rightarrow> bool" where
  "concluding a p \<longleftrightarrow> (\<forall>rs e g0 g. answersTo a g = rs \<longrightarrow>
     outcome_of a p (\<lambda>r g. (\<exists>v. r = Inr v) \<and> replied a rs g) e g0 g)"

named_theorems answering_intros \<open>programs that reply once\<close>

lemma gateI: "(\<And>rs e g0 g. answersTo a g = rs \<Longrightarrow> outcome_of a p (gated a ok rs) e g0 g) \<Longrightarrow> gate a ok p"
  and gateD: "gate a ok p \<Longrightarrow> answersTo a g = rs \<Longrightarrow> outcome_of a p (gated a ok rs) e g0 g"
  unfolding gate_def by blast+

lemma gate_Throw [answering_intros]: "gate a ok (Throw err)"
  by (simp add: gate_def)

lemma gate_if [answering_intros]: "gate a ok p \<Longrightarrow> gate a ok q \<Longrightarrow> gate a ok (if b then p else q)"
  and gate_option [answering_intros]: "gate a ok n \<Longrightarrow> (\<And>v. gate a ok (f v)) \<Longrightarrow> gate a ok (case v' of None \<Rightarrow> n | Some v \<Rightarrow> f v)"
  and gate_pair [answering_intros]: "(\<And>u w. gate a ok (f3 u w)) \<Longrightarrow> gate a ok (case z of (u, w) \<Rightarrow> f3 u w)"
  by (auto split: option.split prod.split)

lemma gate_silent [answering_intros]:
  assumes "silent a p" and "\<And>v. gate a ok (k v)"
  shows "gate a ok (thenA p k)"
proof (rule gateI)
  fix rs e g0 g
  assume "answersTo a g = rs"
  from silent_outcome [OF assms(1) this] show "outcome_of a (thenA p k) (gated a ok rs) e g0 g"
    by (rule outcome_bind) (auto intro: gateD [OF assms(2)])
qed

lemma gate_whenA:
  assumes "gate a ok' p" and "answering a (q :: unit handler)"
  shows "answering a (thenA p (\<lambda>v. whenA (ok' v) q))"
proof (rule gateI)
  fix rs e g0 g
  assume "answersTo a g = rs"
  from gateD [OF assms(1) this] show "outcome_of a (thenA p (\<lambda>v. whenA (ok' v) q)) (gated a (\<lambda>_. False) rs) e g0 g"
    by (rule outcome_bind) (auto intro: gateD [OF assms(2), simplified])
qed

lemma gate_catchA [answering_intros]:
  assumes "gate a ok p" and "\<And>err. gate a ok (h err)"
  shows "gate a ok (catchA p h)"
proof (rule gateI)
  fix rs e g0 g
  assume "answersTo a g = rs"
  from gateD [OF assms(1) this] show "outcome_of a (catchA p h) (gated a ok rs) e g0 g"
    by (rule outcome_catch) (auto intro: gateD [OF assms(2)])
qed

lemma concluding_catchA:
  assumes "answering a p" and "\<And>err. concluding a (h err)"
  shows "concluding a (catchA p h)"
  unfolding concluding_def
proof (intro allI impI)
  fix rs e g0 g
  assume "answersTo a g = rs"
  from gateD [OF assms(1) this]
  show "outcome_of a (catchA p h) (\<lambda>r g. (\<exists>v. r = Inr v) \<and> replied a rs g) e g0 g"
    by (rule outcome_catch) (use assms(2) in \<open>auto simp: concluding_def\<close>)
qed

lemma concluding_reply: "concluding a (replyA a r)"
  by (auto simp: concluding_def replyA_def replied_def answers_reply)

lemma concluding_refuse: "concluding a (refuseA x a operationId err)"
  by (auto simp: concluding_def refuseA_def replyA_def disconnectForAuthenticationFailure_def replied_def answers_reply answer_laws)

lemma answering_concluding: "concluding a p \<Longrightarrow> answering a p"
proof (rule gateI)
  fix rs e g0 g
  assume "concluding a p" "answersTo a g = rs"
  then have "outcome_of a p (\<lambda>r g. (\<exists>v. r = Inr v) \<and> replied a rs g) e g0 g" unfolding concluding_def by blast
  then show "outcome_of a p (gated a (\<lambda>_. False) rs) e g0 g" by (rule wp_mono) auto
qed

lemma answering_reply [answering_intros]: "answering a (replyA a r)"
  by (rule answering_concluding [OF concluding_reply])

text \<open>What comes after the reply leaves it alone and does not throw.\<close>

lemma answering_after [answering_intros]:
  assumes "answering a p" and "\<And>e g. answersTo a (f e g) = answersTo a g"
  shows "answering a (finallyA p (modifyA f))"
proof (rule gateI)
  fix rs e g0 g
  assume "answersTo a g = rs"
  from gateD [OF assms(1) this] have "outcome_of a p (\<lambda>r g. gated a (\<lambda>_. False) rs r g) e g0 g" .
  then show "outcome_of a (finallyA p (modifyA f)) (gated a (\<lambda>_. False) rs) e g0 g"
    by (simp, elim wp_mono) (auto simp: assms(2) replied_def elim!: gated.elims)
qed

text \<open>A check that refuses the request when it fails.\<close>

lemma gate_refused [answering_intros]:
  assumes "silent a p" and "\<And>w. ok (f w)" and "\<not> ok v0"
  shows "gate a ok (catchA (thenA p (\<lambda>w. Return (f w))) (\<lambda>err. thenA (refuseA x a operationId err) (\<lambda>_. Return v0)))"
proof (rule gateI)
  fix rs e g0 g
  assume "answersTo a g = rs"
  from silent_outcome [OF assms(1) this]
  have "outcome_of a (thenA p (\<lambda>w. Return (f w))) (\<lambda>r g. answersTo a g = rs \<and> (\<forall>w. r = Inr w \<longrightarrow> ok w)) e g0 g"
    by (rule outcome_bind) (simp_all add: assms(2))
  then show "outcome_of a (catchA (thenA p (\<lambda>w. Return (f w))) (\<lambda>err. thenA (refuseA x a operationId err) (\<lambda>_. Return v0)))
      (gated a ok rs) e g0 g"
    by (rule outcome_catch)
      (simp_all add: assms(3) refuseA_def replyA_def disconnectForAuthenticationFailure_def replied_def answers_reply answer_laws)
qed

lemma gate_admission [answering_intros]:
  "gate a (\<lambda>ok. ok) (admitControlEvent P x a)" "gate a (\<lambda>ok. ok) (admitCommand P x a operationId)"
  "gate a (\<lambda>ok. ok) (requireActiveSession P x a)" "gate a (\<lambda>document. document \<noteq> None) (requireAuthorizedDocument P x d a)"
proof -
  have event: "gate a (\<lambda>ok. ok) (admitEvent p x a operationId)" if p: "silent a p" for p operationId
    unfolding admitEvent_def
  proof (rule gateI)
    let ?rest = "\<lambda>known. if \<not> known then Return False else thenA p (\<lambda>ok. if ok then Return True
        else thenA (replyA a (FailureReply (failure RATE_LIMITED operationId None))) (\<lambda>_. Return False))"
    fix rs e g0 g
    assume r: "answersTo a g = rs"
    have "gate a (\<lambda>ok. ok) (catchA (thenA (requireLocalIdentity x) (\<lambda>_. Return True))
        (\<lambda>err. thenA (refuseA x a operationId err) (\<lambda>_. Return False)))"
      by (intro answering_intros silent_intros) simp_all
    from gateD [OF this r]
    show "outcome_of a (thenA (catchA (thenA (requireLocalIdentity x) (\<lambda>_. Return True))
        (\<lambda>err. thenA (refuseA x a operationId err) (\<lambda>_. Return False))) ?rest) (gated a (\<lambda>ok. ok) rs) e g0 g"
    proof (rule outcome_bind)
      fix known e g0 g
      assume k: "gated a (\<lambda>ok. ok) rs (Inr known) g"
      show "outcome_of a (?rest known) (gated a (\<lambda>ok. ok) rs) e g0 g"
      proof (cases known)
        case True
        with k have "answersTo a g = rs" by simp
        from silent_outcome [OF p this] have "outcome_of a (thenA p (\<lambda>ok. if ok then Return True
          else thenA (replyA a (FailureReply (failure RATE_LIMITED operationId None))) (\<lambda>_. Return False)))
          (gated a (\<lambda>ok. ok) rs) e g0 g"
          by (rule outcome_bind) (simp_all add: replyA_def replied_def answers_reply)
        with True show ?thesis by simp
      qed (use k in simp)
    qed simp
  qed
  have "silent a (allowControlEventA P x)" "silent a (allowCommandA P x)"
    unfolding allowControlEventA_def allowCommandA_def by (intro silent_call; simp add: answer_laws split: prod.split)+
  then show "gate a (\<lambda>ok. ok) (admitControlEvent P x a)" "gate a (\<lambda>ok. ok) (admitCommand P x a operationId)"
    by (simp_all add: admitControlEvent_def admitCommand_def event)
  show "gate a (\<lambda>ok. ok) (requireActiveSession P x a)"
    unfolding requireActiveSession_def by (rule gate_refused) (simp_all add: silent_intros)
  show "gate a (\<lambda>document. document \<noteq> None) (requireAuthorizedDocument P x d a)"
    unfolding requireAuthorizedDocument_def by (rule gate_refused) (simp_all add: silent_intros)
qed

section \<open>The handlers\<close>

lemma gate_Await [answering_intros]: "gate a ok p \<Longrightarrow> gate a ok (Await c p)"
  by (rule gateI) (auto simp: others_def intro: gateD)

lemma answering_queued [answering_intros]:
  assumes "answering a p"
  shows "answering a (queueRun P d p)" "answering a (runSocketJoin x p)"
proof -
  have "answering a (runQueued i p)" for i
    unfolding runQueued_def by (intro answering_intros silent_modify assms) (simp_all add: answer_laws)
  then show "answering a (queueRun P d p)"
    unfolding queueRun_def by (intro answering_intros silent_call) (simp_all add: answer_laws)
  show "answering a (runSocketJoin x p)"
    unfolding runSocketJoin_def by (intro answering_intros silent_call assms) (simp_all add: answer_laws Let_def)
qed

lemma answering_inside [answering_intros]: "answering a (joinInQueue P x a input)"
  unfolding joinInQueue_def Let_def by (intro answering_intros silent_intros)

lemma silent_setPending [silent_intros]:
  "silent a (modifyA (\<lambda>_. setPending x f))" "silent a (callA (\<lambda>_ g. (setPending x f g, b g)))"
  by (intro silent_modify silent_call; simp add: answer_laws)+

lemmas handler_intros = concluding_catchA gate_whenA [OF gate_admission(1)] gate_whenA [OF gate_admission(2)]
  gate_whenA [OF gate_admission(3)] gate_whenA [OF gate_admission(4)] concluding_reply concluding_refuse

lemma concluding_requests:
  "concluding a (joinDocument P x (Some a) jp)" "concluding a (leaveDocument P x (Some a) dp)"
  "concluding a (executeCommand P x (Some a) operationId cp)" "concluding a (updatePresence P x (Some a) pp)"
  "concluding a (acquireLock P x (Some a) kp)" "concluding a (updateLockLease P x lease a action)"
  unfolding joinDocument_def leaveDocument_def executeCommand_def updatePresence_def acquireLock_def updateLockLease_def
    option.case Let_def
  by (intro handler_intros answering_intros silent_intros)+

fun acknowledgement :: "request \<Rightarrow> nat option" where
  "acknowledgement (Join ack payload) = ack"
| "acknowledgement (Leave ack payload) = ack"
| "acknowledgement (Command ack operationId payload) = ack"
| "acknowledgement (Presence ack payload) = ack"
| "acknowledgement (AcquireLock ack payload) = ack"
| "acknowledgement (RenewLock ack payload) = ack"
| "acknowledgement (ReleaseLock ack payload) = ack"

lemma concluding_request: "acknowledgement r = Some a \<Longrightarrow> concluding a (requestA P x r)"
  by (cases r) (simp_all add: concluding_requests renewLock_def releaseLock_def)

lemma request_replies:
  assumes "exec (others a) (requestA P x r) g res g'" and "acknowledgement r = Some a"
  shows "(\<exists>v. res = Inr v) \<and> replied a (answersTo a g) g'"
proof -
  have "wp (requestA P x r) (\<lambda>_ _ _. True) (others a)
      (\<lambda>r _ _ g'. (\<exists>v. r = Inr v) \<and> replied a (answersTo a g) g') e g g" for e
    using concluding_request [OF assms(2)] unfolding concluding_def by blast
  from wp_exec [OF assms(1) this] show ?thesis by simp
qed

end
