(* ===== verification/Gateway_Discretion.thy ===== *)
theory Gateway_Discretion
  imports Gateway_Kept Gateway_Answers Project_Laws
begin

text \<open>
  What the gateway does not tell. A document is closed to a socket while a reason holds for which its user
  may not read it: the session has ended, or the user is no member of the project of the document. While
  the reason lasts, whatever else changes in the database, in the stores and among the sockets at every
  \<open>await\<close>, a handler or a job that runs tells the socket nothing about the document, neither by an
  event nor by a reply. The database is asked anew by every handler, and what it answers while the
  document is closed lets nothing through.
\<close>

section \<open>Closed documents\<close>

datatype barrier = SessionEnded | NoMembership

text \<open>Who is kept out of what, and why.\<close>

record window =
  wn_barrier :: barrier
  wn_socket :: jstring
  wn_user :: jstring
  wn_session :: jstring
  wn_document :: jstring

definition barred :: "window \<Rightarrow> server_db \<Rightarrow> bool" where
  "barred w db = (case wn_barrier w of
      SessionEnded \<Rightarrow> list_all (\<lambda>(sid, r). sid = uuid_key (wn_session w) \<and> se_userId r = uuid_key (wn_user w)
        \<longrightarrow> se_revokedAt r \<noteq> None) (db_sessions db)
    | NoMembership \<Rightarrow> list_all (\<lambda>x. dc_id x = uuid_key (wn_document w) \<longrightarrow>
        list_all (\<lambda>m. \<not> (uuid_key (mb_projectId m) = uuid_key (dc_projectId x) \<and> mb_userId m = uuid_key (wn_user w)))
          (db_members db)) (db_documents db))"

text \<open>The socket is authenticated as the user, with the session, or not at all.\<close>

definition known :: "window \<Rightarrow> gateway \<Rightarrow> bool" where
  "known w g = (case sk_identity (clientOf g (wn_socket w)) of
      None \<Rightarrow> True
    | Some i \<Rightarrow> ci_userId i = wn_user w \<and> ci_sessionId i = wn_session w)"

definition shut :: "window \<Rightarrow> gateway \<Rightarrow> bool" where
  "shut w g \<longleftrightarrow> known w g \<and> barred w (gw_db g)"

text \<open>Identifiers are compared the way the database compares them.\<close>

definition concerns :: "window \<Rightarrow> jstring \<Rightarrow> bool" where
  "concerns w d \<longleftrightarrow> uuid_key d = uuid_key (wn_document w)"

text \<open>Every reply but that of leaving shows something of the document, a failure if it has the current
  revision.\<close>

fun reveals :: "reply \<Rightarrow> bool" where
  "reveals (FailureReply f) \<longleftrightarrow> fl_currentRevision f \<noteq> None"
| "reveals (LeaveReply d) \<longleftrightarrow> False"
| "reveals _ \<longleftrightarrow> True"

text \<open>The events about the document that the socket was sent, and the replies that show something, in
  answer to the acknowledgement \<open>a\<close>.\<close>

definition told :: "window \<Rightarrow> nat option \<Rightarrow> gateway \<Rightarrow> (jstring \<times> server_event) list \<times> reply list" where
  "told w a g =
     (filter (\<lambda>(x, ev). x = wn_socket w \<and> (case documentOf ev of None \<Rightarrow> False | Some d \<Rightarrow> concerns w d)) (contents (gw_sent g)),
      case a of None \<Rightarrow> [] | Some b \<Rightarrow> filter reveals (answersTo b g))"

section \<open>Operations that tell nothing\<close>

definition hushed :: "window \<Rightarrow> nat option \<Rightarrow> gateway \<Rightarrow> gateway \<Rightarrow> bool" where
  "hushed w a g g' \<longleftrightarrow> told w a g' = told w a g
     \<and> sk_identity (clientOf g' (wn_socket w)) = sk_identity (clientOf g (wn_socket w))"

lemma hushed_known: "hushed w a g g' \<Longrightarrow> known w g' = known w g"
  by (simp add: hushed_def known_def)

lemma hushed_same:
  assumes "contents (gw_sent g') = contents (gw_sent g)" and "\<And>b. answersTo b g' = answersTo b g"
    and "\<And>x. sk_identity (clientOf g' x) = sk_identity (clientOf g x)"
  shows "hushed w a g g'"
  using assms by (simp add: hushed_def told_def split: option.split)

lemma hushed_view:
  assumes "view g' = view g" and "\<And>b. answersTo b g' = answersTo b g"
  shows "hushed w a g g'"
proof (rule hushed_same [OF _ assms(2)])
  show "contents (gw_sent g') = contents (gw_sent g)" using assms(1) by (metis view_sel(10))
  show "sk_identity (clientOf g' x) = sk_identity (clientOf g x)" for x using assms(1) by (metis view_sel(3))
qed

lemma contents_stores:
  "contents (gw_sent (fst (withPresence P f g))) = contents (gw_sent g)"
  "contents (gw_sent (fst (withLocks P h g))) = contents (gw_sent g)"
  using view_sel(10) [of "fst (withPresence P f g)"] view_sel(10) [of "fst (withLocks P h g)"]
  by (simp_all add: view_laws)

lemma hushed_stores: "hushed w a g (fst (withPresence P f g))" "hushed w a g (fst (withLocks P h g))"
  by (rule hushed_same; simp add: contents_stores answer_laws)+

lemma hushed_removal: "hushed w a g (removeFromStores P now x d g)"
  by (rule hushed_same) (simp_all add: removeFromStores_def Let_def contents_stores answer_laws)

lemma hushed_disconnect: "hushed w a g (disconnectClient P now x g)"
proof (rule hushed_same)
  have "contents (gw_sent (releaseSocketReservation y h)) = contents (gw_sent h)" for y h
    by (simp add: releaseSocketReservation_def Let_def split: option.split)
  then show "contents (gw_sent (disconnectClient P now x g)) = contents (gw_sent g)"
    by (simp add: disconnectClient_def onDisconnect_def Let_def contents_stores)
  show "sk_identity (clientOf (disconnectClient P now x g) y) = sk_identity (clientOf g y)" for y
    using narrowed_disconnect [of g P now x] by (simp add: narrowed_def)
qed (simp add: answer_laws)

text \<open>A failure without a revision, or one that nobody counts.\<close>

definition harmless :: "nat option \<Rightarrow> gateway_error \<Rightarrow> bool" where
  "harmless a err \<longleftrightarrow> a = None \<or> (case err of OperationError code r \<Rightarrow> r = None | _ \<Rightarrow> True)"

lemma harmless_simps [simp]:
  "harmless None err" "harmless a (OperationError code None)" "harmless a PayloadError" "harmless a QueueOverloaded"
  "harmless a OtherError"
  by (simp_all add: harmless_def)

lemma hushed_reply:
  assumes "a = Some b \<Longrightarrow> \<not> reveals r"
  shows "hushed w a g (g\<lparr>gw_sent := gw_sent g @ [Ack b r]\<rparr>)"
proof -
  have "answersTo b' (g\<lparr>gw_sent := gw_sent g @ [Ack b r]\<rparr>) = answersTo b' g @ (if b = b' then [r] else [])" for b'
    by (simp add: answersTo_def)
  with assms show ?thesis by (auto simp: hushed_def told_def split: option.split)
qed

lemma failure_hidden: "harmless (Some b) err \<Longrightarrow> \<not> reveals (FailureReply (toFailure err operationId))"
  by (simp add: harmless_def toFailure_def failure_def split: gateway_error.splits)

lemma hushed_emit:
  assumes "x = wn_socket w \<Longrightarrow> documentOf ev = Some d \<Longrightarrow> \<not> concerns w d" and "documentOf ev \<in> {None, Some d}"
  shows "hushed w a g (emit x ev g)"
  using assms by (auto simp: hushed_def told_def emit_def answersTo_def split: option.split)

section \<open>Programs that tell nothing\<close>

text \<open>Between segments the others keep the document closed and tell the socket nothing about it. The
  condition \<open>V\<close> is on the result of the program.\<close>

definition discreet :: "window \<Rightarrow> nat option \<Rightarrow> (gateway_error + 'r \<Rightarrow> bool) \<Rightarrow> 'r handler \<Rightarrow> bool" where
  "discreet w a V p \<longleftrightarrow> (\<forall>ms e g0 g. known w g \<and> told w a g = ms \<longrightarrow>
     wp p (\<lambda>_ _ g. told w a g = ms) (\<lambda>_ g. shut w g \<and> told w a g = ms)
       (\<lambda>r _ _ g. known w g \<and> told w a g = ms \<and> V r) e g0 g)"

lemma discreetI:
  "(\<And>ms e g0 g. known w g \<Longrightarrow> told w a g = ms \<Longrightarrow>
     wp p (\<lambda>_ _ g. told w a g = ms) (\<lambda>_ g. shut w g \<and> told w a g = ms)
       (\<lambda>r _ _ g. known w g \<and> told w a g = ms \<and> V r) e g0 g) \<Longrightarrow> discreet w a V p"
  unfolding discreet_def by blast

lemma discreetD:
  "discreet w a V p \<Longrightarrow> known w g \<Longrightarrow> told w a g = ms \<Longrightarrow>
     wp p (\<lambda>_ _ g. told w a g = ms) (\<lambda>_ g. shut w g \<and> told w a g = ms)
       (\<lambda>r _ _ g. known w g \<and> told w a g = ms \<and> V r) e g0 g"
  unfolding discreet_def by blast

lemma discreet_mono: "discreet w a V p \<Longrightarrow> (\<And>r. V r \<Longrightarrow> V' r) \<Longrightarrow> discreet w a V' p"
  by (rule discreetI, drule discreetD, assumption+, erule wp_mono) simp

lemma discreet_simple:
  "V (Inr v) \<Longrightarrow> discreet w a V (Return v)" "V (Inl err) \<Longrightarrow> discreet w a V (Throw err)"
  "(\<And>e g. discreet w a V (f e g)) \<Longrightarrow> discreet w a V (Read f)"
  by (simp_all add: discreet_def)

lemma discreet_Await:
  assumes "discreet w a V p"
  shows "discreet w a V (Await c p)"
proof (rule discreetI)
  fix ms e g0 g
  assume "known w g" "told w a g = ms"
  with discreetD [OF assms] show "wp (Await c p) (\<lambda>_ _ g. told w a g = ms) (\<lambda>_ g. shut w g \<and> told w a g = ms)
      (\<lambda>r _ _ g. known w g \<and> told w a g = ms \<and> V r) e g0 g"
    by (simp add: shut_def)
qed

lemma discreet_thenA:
  assumes "discreet w a U p" and "\<And>v. U (Inr v) \<Longrightarrow> discreet w a V (k v)" and "\<And>err. U (Inl err) \<Longrightarrow> V (Inl err)"
  shows "discreet w a V (thenA p k)"
proof (rule discreetI)
  fix ms e g0 g
  assume "known w g" "told w a g = ms"
  from discreetD [OF assms(1) this, of e g0] show "wp (thenA p k) (\<lambda>_ _ g. told w a g = ms) (\<lambda>_ g. shut w g \<and> told w a g = ms)
      (\<lambda>r _ _ g. known w g \<and> told w a g = ms \<and> V r) e g0 g"
    by (simp, elim wp_mono) (auto split: sum.split intro: assms(3) discreetD [OF assms(2)])
qed

lemma discreet_catchA:
  assumes "discreet w a U p" and "\<And>err. U (Inl err) \<Longrightarrow> discreet w a V (h err)" and "\<And>v. U (Inr v) \<Longrightarrow> V (Inr v)"
  shows "discreet w a V (catchA p h)"
proof (rule discreetI)
  fix ms e g0 g
  assume "known w g" "told w a g = ms"
  from discreetD [OF assms(1) this, of e g0] show "wp (catchA p h) (\<lambda>_ _ g. told w a g = ms) (\<lambda>_ g. shut w g \<and> told w a g = ms)
      (\<lambda>r _ _ g. known w g \<and> told w a g = ms \<and> V r) e g0 g"
    by (simp, elim wp_mono) (auto split: sum.split intro: assms(3) discreetD [OF assms(2)])
qed

lemma discreet_finallyA:
  assumes "discreet w a V p" and "discreet w a (\<lambda>r. \<forall>err. r = Inl err \<longrightarrow> V (Inl err)) q"
  shows "discreet w a V (finallyA p q)"
proof (rule discreetI)
  fix ms e g0 g
  assume "known w g" "told w a g = ms"
  from discreetD [OF assms(1) this, of e g0] show "wp (finallyA p q) (\<lambda>_ _ g. told w a g = ms) (\<lambda>_ g. shut w g \<and> told w a g = ms)
      (\<lambda>r _ _ g. known w g \<and> told w a g = ms \<and> V r) e g0 g"
    by (simp, elim wp_mono) (rule wp_mono [OF discreetD [OF assms(2)]]; simp split: sum.split)
qed

lemma discreet_call:
  assumes "\<And>e g. known w g \<Longrightarrow> hushed w a g (fst (h e g)) \<and> V (Inr (snd (h e g)))"
  shows "discreet w a V (callA h)"
  by (rule discreetI) (use assms in \<open>simp add: hushed_def known_def\<close>)

lemma discreet_modify:
  assumes "\<And>e g. hushed w a g (f e g)" and "V (Inr ())"
  shows "discreet w a V (modifyA f)"
  by (rule discreetI) (use assms in \<open>simp add: hushed_def known_def\<close>)

text \<open>The database answers while the document is closed.\<close>

lemma discreet_answer:
  assumes "\<And>g. shut w g \<Longrightarrow> V (Inr (f g))" and "V (Inl OtherError)"
  shows "discreet w a V (answerA f)"
  by (rule discreetI) (use assms in \<open>simp add: answerA_def shut_def\<close>)

lemma discreet_pauseA: "V (Inr ()) \<Longrightarrow> discreet w a V pauseA"
  by (rule discreetI) (simp add: shut_def)

lemma discreet_query:
  assumes "\<And>e g. shut w g \<Longrightarrow> V (Inr (f e g))" and "V (Inl OtherError)"
  shows "discreet w a V (queryA f)"
  unfolding queryA_def
  by (intro discreet_simple(3) discreet_thenA [where U = V] discreet_answer discreet_thenA [where U = "\<lambda>r. r = Inr ()"]
      discreet_pauseA discreet_simple(1) assms) simp_all

lemma discreet_both:
  assumes "\<And>e g g'. shut w g \<Longrightarrow> shut w g' \<Longrightarrow> V (Inr (f1 e g, f2 e g'))" and "V (Inl OtherError)"
  shows "discreet w a V (bothA f1 f2)"
proof -
  have answer: "discreet w a (\<lambda>r. r = Inl OtherError \<or> (\<exists>g. shut w g \<and> r = Inr (f g))) (answerA f)" for f :: "gateway \<Rightarrow> 'q"
    by (rule discreet_answer) auto
  show ?thesis
    unfolding bothA_def
    by (intro discreet_simple(3) discreet_thenA [where U = V])
      (auto intro!: discreet_thenA [OF answer] discreet_thenA [where U = "\<lambda>r. r = Inr ()"] discreet_pauseA discreet_simple assms)
qed

text \<open>Programs of which nothing else is needed.\<close>

definition quiet :: "window \<Rightarrow> nat option \<Rightarrow> 'r handler \<Rightarrow> bool" where
  "quiet w a p \<longleftrightarrow> discreet w a (\<lambda>r. \<forall>err. r = Inl err \<longrightarrow> harmless a err) p"

named_theorems quiet_intros \<open>programs that tell nothing\<close>

lemma quiet_basic [quiet_intros]:
  "quiet w a (Return v)" "quiet w a (getsA f)" "quiet w a pauseA"
  by (auto simp: quiet_def getsA_def intro!: discreet_simple discreet_pauseA)

lemma quiet_Throw: "harmless a err \<Longrightarrow> quiet w a (Throw err)"
  and quiet_ensureA: "harmless a err \<Longrightarrow> quiet w a (ensureA b err)"
  by (auto simp: quiet_def ensureA_def intro!: discreet_simple)

lemma quiet_errors [quiet_intros]:
  "quiet w a (Throw (OperationError code None))" "quiet w a (ensureA b (OperationError code None))"
  "quiet w a (Throw PayloadError)" "quiet w a (Throw QueueOverloaded)" "quiet w a (Throw OtherError)"
  "quiet w None (Throw err)"
  by (auto intro: quiet_Throw quiet_ensureA)

lemma quiet_thenA [quiet_intros]: "quiet w a p \<Longrightarrow> (\<And>v. quiet w a (k v)) \<Longrightarrow> quiet w a (thenA p k)"
  unfolding quiet_def by (erule discreet_thenA) auto

lemma quiet_catchA [quiet_intros]:
  "quiet w a p \<Longrightarrow> (\<And>err. harmless a err \<Longrightarrow> quiet w a (h err)) \<Longrightarrow> quiet w a (catchA p h)"
  unfolding quiet_def by (erule discreet_catchA) auto

lemma quiet_finallyA [quiet_intros]: "quiet w a p \<Longrightarrow> quiet w a q \<Longrightarrow> quiet w a (finallyA p q)"
  unfolding quiet_def by (erule discreet_finallyA) (erule discreet_mono, simp)

lemma quiet_Read [quiet_intros]: "(\<And>e g. quiet w a (f e g)) \<Longrightarrow> quiet w a (Read f)"
  and quiet_Await [quiet_intros]: "quiet w a p \<Longrightarrow> quiet w a (Await c p)"
  by (auto simp: quiet_def intro: discreet_simple discreet_Await)

lemma quiet_whenA [quiet_intros]: "quiet w a q \<Longrightarrow> quiet w a (whenA cond q)"
  by (simp add: whenA_def quiet_basic)

lemma quiet_loops [quiet_intros]:
  "(\<And>x. quiet w a (f x)) \<Longrightarrow> quiet w a (forEachA f xs)" "(\<And>x. quiet w a (l x)) \<Longrightarrow> quiet w a (flatMapA l xs)"
  by (induction xs; auto intro!: quiet_basic quiet_thenA)+

lemma quiet_cases [quiet_intros]:
  "quiet w a p \<Longrightarrow> quiet w a q \<Longrightarrow> quiet w a (if b then p else q)"
  "quiet w a n \<Longrightarrow> (\<And>v. quiet w a (f v)) \<Longrightarrow> quiet w a (case v' of None \<Rightarrow> n | Some v \<Rightarrow> f v)"
  "(\<And>u. quiet w a (f1 u)) \<Longrightarrow> (\<And>v. quiet w a (f2 v)) \<Longrightarrow> quiet w a (case r of Inl u \<Rightarrow> f1 u | Inr v \<Rightarrow> f2 v)"
  "(\<And>u v. quiet w a (f3 u v)) \<Longrightarrow> quiet w a (case z of (u, v) \<Rightarrow> f3 u v)"
  by (auto split: option.split sum.split prod.split)

lemma quiet_call: "(\<And>e g. hushed w a g (fst (h e g))) \<Longrightarrow> quiet w a (callA h)"
  unfolding quiet_def by (rule discreet_call) simp

lemma quiet_modify: "(\<And>e g. hushed w a g (f e g)) \<Longrightarrow> quiet w a (modifyA f)"
  unfolding quiet_def by (rule discreet_modify) simp_all

lemma quiet_waiting [quiet_intros]:
  "quiet w a (queryA f)" "quiet w a (bothA f1 f2)" "quiet w a (statementA f')" "quiet w a p \<Longrightarrow> quiet w a (runQueued i p)"
  "quiet w a p \<Longrightarrow> quiet w a (queueRun P d p)" "quiet w a p \<Longrightarrow> quiet w a (runSocketJoin x p)"
proof -
  show "quiet w a (queryA f)" "quiet w a (bothA f1 f2)"
    unfolding quiet_def by (intro discreet_query discreet_both; simp)+
  have "hushed w a g (g\<lparr>gw_db := db\<rparr>)" for g db
    by (rule hushed_same) (simp_all add: answer_laws)
  then have "quiet w a (Read (\<lambda>e' g. if en_fails e' then Throw OtherError
      else (case f' e (gw_db g) of (db, r) \<Rightarrow> Write (g\<lparr>gw_db := db\<rparr>) (thenA pauseA (\<lambda>_. Return r)))))" for e
    unfolding quiet_def
    by (intro discreetI) (auto simp: hushed_def known_def shut_def split: prod.split)
  then show "quiet w a (statementA f')"
    unfolding statementA_def by (rule quiet_Read [OF quiet_Await])
  show queued: "quiet w a p \<Longrightarrow> quiet w a (runQueued i p)" for i
    unfolding runQueued_def by (intro quiet_intros quiet_modify hushed_same) (simp_all add: answer_laws)
  show "quiet w a p \<Longrightarrow> quiet w a (queueRun P d p)"
    unfolding queueRun_def
    by (intro quiet_intros quiet_call queued hushed_view) (simp_all add: answer_laws view_laws)
  show "quiet w a p \<Longrightarrow> quiet w a (runSocketJoin x p)"
    unfolding runSocketJoin_def
    by (intro quiet_intros quiet_call quiet_modify hushed_view) (simp_all add: answer_laws Let_def view_laws)
qed

section \<open>The checks\<close>

lemma quiet_checks [quiet_intros]:
  "quiet w a (identityA x)" "quiet w a (requireLocalIdentity x)" "quiet w a (sessionActiveA P i)"
  "quiet w a (assertActiveSession P x)" "quiet w a (assertCurrentProjectAccess pid uid)"
  "quiet w a (getAuthorizedDocumentOrThrow P x d)" "quiet w a (validateA payload)" "quiet w a (ensureJoined x d)"
  "quiet w a (ensureJoinActive x d)" "quiet w a (disconnectForAuthenticationFailure x err)"
proof -
  show identity: "quiet w a (identityA x)" unfolding identityA_def by (intro quiet_intros)
  show local: "quiet w a (requireLocalIdentity x)" unfolding requireLocalIdentity_def by (intro quiet_intros identity)
  have active: "quiet w a (sessionActiveA P i)" for i unfolding sessionActiveA_def by (intro quiet_intros)
  then show "quiet w a (sessionActiveA P i)" .
  show session: "quiet w a (assertActiveSession P x)" unfolding assertActiveSession_def by (intro quiet_intros local active)
  have access: "quiet w a (assertCurrentProjectAccess pid uid)" for pid uid
    unfolding assertCurrentProjectAccess_def by (intro quiet_intros)
  then show "quiet w a (assertCurrentProjectAccess pid uid)" .
  show "quiet w a (getAuthorizedDocumentOrThrow P x d)"
    unfolding getAuthorizedDocumentOrThrow_def by (intro quiet_intros session identity access)
  show "quiet w a (validateA payload)" "quiet w a (ensureJoined x d)" "quiet w a (ensureJoinActive x d)"
    unfolding validateA_def ensureJoined_def ensureJoinActive_def by (intro quiet_intros)+
  show "quiet w a (disconnectForAuthenticationFailure x err)"
    unfolding disconnectForAuthenticationFailure_def by (intro quiet_modify hushed_view) (simp_all add: answer_laws view_laws)
qed

lemma quiet_stores [quiet_intros]:
  "quiet w a (presenceA P f)" "quiet w a (locksA P h)" "quiet w a (finishRemoval P x d)" "quiet w a (removeDocumentState P x d)"
  "quiet w a (finishRemovals P d xs)" "quiet w a (leaveRoomAndThrow x d code)"
proof -
  show "quiet w a (presenceA P f)" "quiet w a (locksA P h)"
    unfolding presenceA_def locksA_def by (intro quiet_call hushed_stores)+
  have leave: "quiet w a (modifyA (\<lambda>_. leaveRoom x d))" for x
    by (intro quiet_modify hushed_view) (simp_all add: answer_laws view_laws)
  have removal: "quiet w a (finishRemoval P x d)" for x
    unfolding finishRemoval_def by (intro quiet_modify hushed_removal)
  then show "quiet w a (finishRemoval P x d)" .
  show "quiet w a (removeDocumentState P x d)" "quiet w a (finishRemovals P d xs)" "quiet w a (leaveRoomAndThrow x d code)"
    unfolding removeDocumentState_def finishRemovals_def leaveRoomAndThrow_def by (intro quiet_intros leave removal)+
qed

lemma quiet_setPending [quiet_intros]:
  "quiet w a (modifyA (\<lambda>_. setPending x f))" "quiet w a (callA (\<lambda>_ g. (setPending x f g, b g)))"
  by (intro quiet_modify quiet_call hushed_view; simp add: answer_laws view_laws)+

lemma quiet_reply: "(a = Some b \<Longrightarrow> \<not> reveals r) \<Longrightarrow> quiet w a (replyA b r)"
  unfolding replyA_def by (intro quiet_modify hushed_reply)

lemma quiet_replies [quiet_intros]:
  "quiet w None (replyA b r)" "quiet w a (replyA b (FailureReply (failure code operationId None)))"
  "quiet w a (replyA b (LeaveReply d))"
  "harmless a err \<Longrightarrow> quiet w a (replyA b (FailureReply (toFailure err operationId)))"
  "harmless a err \<Longrightarrow> quiet w a (refuseA x b operationId err)"
proof -
  show failure: "quiet w a (replyA b (FailureReply (toFailure err operationId)))" if "harmless a err" for err operationId
    using that failure_hidden [of b err operationId] by (intro quiet_reply) auto
  show "harmless a err \<Longrightarrow> quiet w a (refuseA x b operationId err)"
    unfolding refuseA_def by (intro quiet_intros failure)
qed (auto intro!: quiet_reply simp: failure_def)

lemma quiet_admission [quiet_intros]:
  "quiet w a (admitControlEvent P x b)" "quiet w a (admitCommand P x b operationId)"
  "quiet w a (requireActiveSession P x b)" "quiet w a (requireAuthorizedDocument P x d b)"
proof -
  have event: "quiet w a (admitEvent p x b operationId)" if "quiet w a p" for p operationId
    unfolding admitEvent_def by (intro quiet_intros that)
  have "quiet w a (allowControlEventA P x)" "quiet w a (allowCommandA P x)"
    unfolding allowControlEventA_def allowCommandA_def
    by (intro quiet_call hushed_view; simp add: answer_laws view_laws split: prod.split)+
  with event show "quiet w a (admitControlEvent P x b)" "quiet w a (admitCommand P x b operationId)"
    by (simp_all add: admitControlEvent_def admitCommand_def)
  show "quiet w a (requireActiveSession P x b)" "quiet w a (requireAuthorizedDocument P x d b)"
    unfolding requireActiveSession_def requireAuthorizedDocument_def by (intro quiet_intros; assumption)+
qed

section \<open>The broadcast\<close>

text \<open>What the database answers about a closed document keeps its socket out.\<close>

definition shields :: "window \<Rightarrow> broadcast_authorization \<Rightarrow> bool" where
  "shields w authorization \<longleftrightarrow> (wn_user w, wn_session w) \<notin> ba_activeSessions authorization
     \<or> \<not> ba_documentExists authorization \<or> wn_user w \<notin> ba_authorizedUserIds authorization"

lemma sessions_shield:
  assumes "barred w db" and "wn_barrier w = SessionEnded"
  shows "(wn_user w, wn_session w) \<notin> activeSessionsOf now identities db"
  using assms by (fastforce simp: barred_def activeSessionsOf_def session_live_def list_all_iff)

lemma members_shield:
  assumes "barred w db" and "wn_barrier w = NoMembership" and "concerns w d"
    and "authorizedUsersOf d identities db = Some members"
  shows "wn_user w \<notin> members"
proof
  assume "wn_user w \<in> members"
  moreover from assms(4) obtain x where x: "findDocument d db = Some x"
    and "members = mb_userId ` {m \<in> set (db_members db). mb_projectId m = dc_projectId x
      \<and> mb_userId m \<in> uuid_key ` ci_userId ` set identities}"
    by (auto simp: authorizedUsersOf_def)
  ultimately obtain m where m: "m \<in> set (db_members db)" "mb_projectId m = dc_projectId x"
    and u: "wn_user w = mb_userId m" and i: "mb_userId m \<in> uuid_key ` ci_userId ` set identities"
    by blast
  from i obtain i :: collaboration_identity where "mb_userId m = uuid_key (ci_userId i)" by auto
  with u have "mb_userId m = uuid_key (wn_user w)" by simp
  moreover have "x \<in> set (db_documents db)" "dc_id x = uuid_key (wn_document w)"
    using x assms(3) by (auto simp: findDocument_def find_Some_iff concerns_def)
  ultimately show False using assms(1,2) m by (auto simp: barred_def list_all_iff)
qed

lemma discreet_authorization:
  "discreet w a (\<lambda>r. case r of Inl err \<Rightarrow> harmless a err | Inr authorization \<Rightarrow> concerns w d \<longrightarrow> shields w authorization)
     (getBroadcastAuthorization d identities)"
proof (cases "identities = []")
  case True
  then show ?thesis
    by (auto simp: getBroadcastAuthorization_def broadcastAuthorization_def shields_def
        intro!: discreet_thenA [where U = "\<lambda>r. r = Inr ()"] discreet_pauseA discreet_simple)
next
  case False
  have "shields w (broadcastAuthorization (activeSessionsOf now identities (gw_db g)) (authorizedUsersOf d identities (gw_db g')))"
    if "shut w g" "shut w g'" "concerns w d" for now g g'
    using sessions_shield [of w "gw_db g"] members_shield [of w "gw_db g'" d identities] that
    by (cases "wn_barrier w") (auto simp: shields_def broadcastAuthorization_def shut_def split: option.splits)
  then have "discreet w a (\<lambda>r. case r of Inl err \<Rightarrow> harmless a err
      | Inr (sessions, document) \<Rightarrow> concerns w d \<longrightarrow> shields w (broadcastAuthorization sessions document))
    (bothA (\<lambda>e g. activeSessionsOf (en_now e) identities (gw_db g)) (\<lambda>_ g. authorizedUsersOf d identities (gw_db g)))"
    by (intro discreet_both) simp_all
  then show ?thesis
    unfolding getBroadcastAuthorization_def if_not_P [OF False]
    by (rule discreet_thenA) (auto intro: discreet_simple)
qed

lemma hushed_delivery:
  assumes "known w g" and "documentOf ev = Some d" and "concerns w d \<longrightarrow> shields w authorization"
  shows "hushed w a g (fst (delivery P d ev excluded authorization x e g))"
proof -
  let ?g = "fst (delivery P d ev excluded authorization x e g)"
  have "?g = emit x ev g \<and> (x = wn_socket w \<longrightarrow> \<not> concerns w d) \<or> ?g \<in> {g, disconnectClient P (en_now e) x g,
      disconnectExpiredToken x g, revokeDocumentAccess x d g, disconnectRevoked x g}"
  proof (cases "sk_identity (clientOf g x)")
    case (Some i)
    with assms show ?thesis by (auto simp: delivery_def known_def shields_def)
  qed (simp add: delivery_def)
  moreover have "hushed w a g (disconnectExpiredToken x g)" "hushed w a g (revokeDocumentAccess x d g)"
    "hushed w a g (disconnectRevoked x g)" "hushed w a g g"
    by (rule hushed_view; simp add: view_laws answer_laws)+
  moreover have "hushed w a g (emit x ev g)" if "x = wn_socket w \<longrightarrow> \<not> concerns w d"
    using that assms(2) by (intro hushed_emit [where d = d]) auto
  ultimately show ?thesis using hushed_disconnect by auto
qed

lemma quiet_deliver:
  assumes "documentOf ev = Some d" and "concerns w d \<longrightarrow> shields w authorization"
  shows "quiet w a (deliverTo P d ev excluded authorization x)"
proof -
  have "deliverTo P d ev excluded authorization x = callA (delivery P d ev excluded authorization x)"
    unfolding deliverTo_def by (intro arg_cong [where f = callA] ext) (simp add: delivery_def)
  with hushed_delivery [OF _ assms] show ?thesis unfolding quiet_def by (simp add: discreet_call)
qed

lemma quiet_recipient: "quiet w a (recipientIdentity P d x)"
  unfolding recipientIdentity_def
proof (rule quiet_call)
  fix e g
  have "hushed w a g ((revokeDocumentAccess x d g)\<lparr>gw_background := bs\<rparr>)" "hushed w a g (disconnectExpiredToken x g)"
    "hushed w a g g" for bs
    by (rule hushed_view; simp add: view_laws answer_laws)+
  then show "hushed w a g (fst (case sk_identity (clientOf g x) of None \<Rightarrow> (disconnectClient P (en_now e) x g, [])
      | Some i \<Rightarrow> if \<not> hasActiveAccessToken (en_now e) i then (disconnectExpiredToken x g, [])
          else if \<not> hasCurrentProjectAccess x d g
          then ((revokeDocumentAccess x d g)\<lparr>gw_background := gw_background g @ [FinishRemoval x d]\<rparr>, [])
          else (g, [i])))"
    by (simp add: hushed_disconnect split: option.split)
qed

lemma quiet_broadcast [quiet_intros]:
  assumes "documentOf ev = Some d"
  shows "quiet w a (broadcastToAuthorizedRoom P d ev excluded)"
proof -
  have "quiet w a (thenA (getBroadcastAuthorization d identities) (\<lambda>authorization.
      thenA (flatMapA (deliverTo P d ev excluded authorization) xs) (finishRemovals P d)))" for identities xs
    unfolding quiet_def
    by (rule discreet_thenA [OF discreet_authorization])
      (auto simp: quiet_def [symmetric] intro!: quiet_intros quiet_deliver assms)
  then show ?thesis
    unfolding broadcastToAuthorizedRoom_def Let_def
    by (intro quiet_Read quiet_cases(1) quiet_basic(1) quiet_thenA [OF quiet_loops(2) [OF quiet_recipient]])
qed

section \<open>Handlers whose replies do not count\<close>

lemma quiet_thenA_returns:
  assumes "quiet w a p" and "returns U p" and "\<And>v. U v \<Longrightarrow> quiet w a (k v)"
  shows "quiet w a (thenA p k)"
proof -
  have "discreet w a (\<lambda>r. (\<forall>err. r = Inl err \<longrightarrow> harmless a err) \<and> (\<forall>v. r = Inr v \<longrightarrow> U v)) p"
    by (rule discreetI, rule wp_mono, rule wp_returns [OF discreetD [OF assms(1) [unfolded quiet_def]] assms(2)]) auto
  then show ?thesis
    unfolding quiet_def by (rule discreet_thenA) (use assms(3) in \<open>auto simp: quiet_def\<close>)
qed

lemma quiet_joining [quiet_intros]: "quiet w a (enterDocument P x d document i)" "quiet w a (confirmJoin P x d document i)"
proof -
  show "quiet w a (enterDocument P x d document i)"
    unfolding enterDocument_def by (intro quiet_intros quiet_modify hushed_same) (simp_all add: answer_laws)
  show "quiet w a (confirmJoin P x d document i)"
    unfolding confirmJoin_def by (intro quiet_intros quiet_Throw)
qed

lemma quiet_process: "quiet w None (processA P i input x)"
proof -
  have throw: "quiet w None (throwProcess err)" for err :: process_error
    unfolding throwProcess_def by (intro quiet_intros)
  have "quiet w None (processTransaction P i input fp x)" for fp
    unfolding processTransaction_def by (auto intro!: quiet_intros split: sum.split prepared_command.split)
  then show ?thesis
    unfolding processA_def Let_def
    by (auto intro!: quiet_intros throw split: sum.split process_error.split option.split)
qed

lemma quiet_command: "quiet w None (commandInQueue P x input)"
proof -
  have "quiet w None (announceCommand P x i d committed)" if "pc_documentId committed = d" for i d committed
    unfolding announceCommand_def by (intro quiet_intros) (simp_all add: that)
  then show ?thesis
    unfolding commandInQueue_def Let_def
    by (intro quiet_intros quiet_thenA_returns [OF quiet_process returns_process]) simp_all
qed

lemma quiet_element [quiet_intros]:
  "quiet w a (checkElement P x d elementId)" "quiet w a (acquireInQueue P x lock)" "quiet w a (renewInQueue P x lease)"
  "quiet w a (releaseInQueue P x lease)"
  unfolding acquireInQueue_def renewInQueue_def releaseInQueue_def checkElement_def by (intro quiet_intros)+

section \<open>Work in the background\<close>

lemma quiet_forget [quiet_intros]: "quiet w a (forgetRecovery d)"
  unfolding forgetRecovery_def by (intro quiet_modify hushed_view) (simp_all add: view_laws answersTo_def)

lemma quiet_evict [quiet_intros]: "quiet w a (evictDeletedDocument P d)" "quiet w a (evictMembers P d evictions)"
proof -
  have "hushed w a g (leaveRoom x d (emit x (DocumentDeletedEvent d) g))" for x g
    by (rule hushed_view) (simp_all add: view_laws answer_laws)
  moreover have "hushed w a g (g\<lparr>gw_deletedDocumentIds := ds\<rparr>)" for g ds
    by (rule hushed_view) (simp_all add: view_laws answersTo_def)
  ultimately show "quiet w a (evictDeletedDocument P d)"
    unfolding evictDeletedDocument_def by (intro quiet_intros quiet_modify) simp_all
  have "hushed w a g (fold (\<lambda>x. revokeDocumentAccess x d) xs g)" for xs g
    by (intro hushed_view view_fold answers_fold) (simp_all add: view_laws answer_laws)
  then show "quiet w a (evictMembers P d evictions)"
    unfolding evictMembers_def by (intro quiet_intros quiet_call) (simp add: Let_def)
qed

lemma answers_fields:
  "answersTo b (g\<lparr>gw_pendingResyncChanges := a8\<rparr>) = answersTo b g"
  "answersTo b (g\<lparr>gw_pendingMemberEvictions := a9\<rparr>) = answersTo b g"
  "answersTo b (g\<lparr>gw_scheduledCritical := a12\<rparr>) = answersTo b g" "answersTo b (g\<lparr>gw_pendingRecovery := a13\<rparr>) = answersTo b g"
  "answersTo b (g\<lparr>gw_recoveryInFlight := a14\<rparr>) = answersTo b g" "answersTo b (g\<lparr>gw_criticalRetryTimers := a15\<rparr>) = answersTo b g"
  "answersTo b (g\<lparr>gw_pendingMemberRevocations := a16, gw_revokedProjectMemberKeys := a17\<rparr>) = answersTo b g"
  "answersTo b (g\<lparr>gw_pendingMemberRevocations := a16\<rparr>) = answersTo b g"
  by (simp_all add: answersTo_def)

lemma answers_critical:
  "answersTo b (scheduleCriticalDocumentWork P d g) = answersTo b g"
  "answersTo b (scheduleCriticalDocumentRetry now d g) = answersTo b g"
  "answersTo b (completeMemberEvictions d evictions g) = answersTo b g"
proof -
  show "answersTo b (scheduleCriticalDocumentWork P d g) = answersTo b g"
    using answers_queue(1) [of b P d Critical "g\<lparr>gw_scheduledCritical := insert d (gw_scheduledCritical g)\<rparr>"]
    by (simp add: scheduleCriticalDocumentWork_def answer_laws answers_fields case_prod_unfold)
  show "answersTo b (scheduleCriticalDocumentRetry now d g) = answersTo b g"
    by (simp add: scheduleCriticalDocumentRetry_def answers_fields)
  have "answersTo b (completeMemberEviction d ev g) = answersTo b g" for ev g
    by (simp add: completeMemberEviction_def answers_fields split: option.split)
  then show "answersTo b (completeMemberEvictions d evictions g) = answersTo b g"
    by (auto simp: completeMemberEvictions_def intro!: answers_fold split: option.split)
qed

lemma quiet_critical [quiet_intros]: "quiet w None (processCriticalDocumentWork P d)"
proof -
  have "quiet w None (resyncDocument P d pendingBroadcasts)" for pendingBroadcasts
    unfolding resyncDocument_def
    by (intro quiet_intros quiet_modify hushed_view) (simp_all add: view_laws answers_fields)
  then show ?thesis
    unfolding processCriticalDocumentWork_def
    by (intro quiet_intros quiet_modify quiet_call hushed_view) (simp_all add: view_laws answers_fields answers_critical)
qed

lemma quiet_background: "quiet w None (backgroundA P b)"
proof -
  have change: "quiet w None (thenA (currentPayload P kind d) (\<lambda>ev. broadcastToAuthorizedRoom P d ev None))" for kind d
  proof (rule quiet_thenA_returns)
    show "quiet w None (currentPayload P kind d)"
      unfolding currentPayload_def by (cases kind) (auto intro!: quiet_intros)
    show "returns (\<lambda>ev. documentOf ev = Some d) (currentPayload P kind d)"
      unfolding currentPayload_def by (cases kind) (auto intro!: returns_thenA [where U = "\<lambda>_. True"] simp: getsA_def)
  qed (intro quiet_intros)
  have after: "quiet w None (afterCriticalWork P d failed)" for d failed
    unfolding afterCriticalWork_def
    by (intro quiet_modify hushed_view) (simp_all add: view_laws answers_fields answers_critical Let_def)
  have recover: "quiet w None (recoverUndeliveredOperations P)"
    unfolding recoverUndeliveredOperations_def
    by (intro quiet_intros quiet_modify quiet_call hushed_view) (simp_all add: view_laws answers_fields answers_critical)
  show ?thesis
  proof (cases b)
    case (AuthorizedBroadcast d kind i)
    show ?thesis
      unfolding AuthorizedBroadcast
      by (cases i) (auto intro!: quiet_basic quiet_catchA quiet_waiting(4) change)
  next
    case (CriticalWork d i)
    then show ?thesis by (cases i) (auto intro!: quiet_intros after)
  qed (auto intro!: quiet_intros recover)
qed

section \<open>The requests of the socket itself\<close>

text \<open>A program that throws before it has shown anything.\<close>

definition refused :: "window \<Rightarrow> nat option \<Rightarrow> 'r handler \<Rightarrow> bool" where
  "refused w a p \<longleftrightarrow> discreet w a (\<lambda>r. \<exists>err. r = Inl err \<and> harmless a err) p"

lemma refused_quiet: "refused w a p \<Longrightarrow> quiet w a p"
  unfolding refused_def quiet_def by (erule discreet_mono) auto

lemma refused_first: "refused w a p \<Longrightarrow> refused w a (thenA p k)"
  unfolding refused_def by (erule discreet_thenA) auto

lemma refused_later: "quiet w a p \<Longrightarrow> (\<And>v. refused w a (k v)) \<Longrightarrow> refused w a (thenA p k)"
  unfolding refused_def quiet_def by (erule discreet_thenA) auto

lemma refused_queueRun:
  assumes "refused w a p"
  shows "refused w a (queueRun P d p)"
proof -
  have step: "hushed w a g (g\<lparr>gw_queue := q\<rparr>)" for g q
    by (rule hushed_view) (simp_all add: view_laws answer_laws)
  have "refused w a (runQueued i p)" for i
    using assms unfolding refused_def runQueued_def
    by (intro discreet_Await discreet_thenA [where U = "\<lambda>r. r = Inr ()"] discreet_finallyA discreet_modify step) simp_all
  then show ?thesis
    unfolding queueRun_def
    by (intro refused_later quiet_call hushed_view)
      (auto simp: view_laws answer_laws refused_def intro: discreet_simple split: option.split)
qed

definition own_identity :: "window \<Rightarrow> nat option \<Rightarrow> gateway_error + collaboration_identity \<Rightarrow> bool" where
  "own_identity w a r = (case r of Inl err \<Rightarrow> harmless a err
    | Inr i \<Rightarrow> ci_userId i = wn_user w \<and> ci_sessionId i = wn_session w)"

lemma discreet_identity: "discreet w a (own_identity w a) (identityA (wn_socket w))"
  by (rule discreetI) (auto simp: identityA_def known_def own_identity_def split: option.splits)

lemma discreet_localIdentity: "discreet w a (own_identity w a) (requireLocalIdentity (wn_socket w))"
  unfolding requireLocalIdentity_def
proof (rule discreet_thenA [OF discreet_identity])
  show "discreet w a (own_identity w a) (thenA (ensureA (\<lambda>e _. hasActiveAccessToken (en_now e) i)
      (OperationError UNAUTHENTICATED None)) (\<lambda>_. Return i))"
    if "own_identity w a (Inr i)" for i
    by (rule discreetI) (use that in \<open>simp add: own_identity_def\<close>)
qed

lemma session_inactive:
  assumes "barred w db" and "wn_barrier w = SessionEnded"
  shows "\<not> isSessionActive isUUID now (wn_user w) (wn_session w) (auth_db.truncate db)"
proof
  assume "isSessionActive isUUID now (wn_user w) (wn_session w) (auth_db.truncate db)"
  then obtain r where "mapGet (db_sessions db) (uuid_key (wn_session w)) = Some r" "se_userId r = uuid_key (wn_user w)"
      "se_revokedAt r = None"
    by (auto simp: isSessionActive_def active_session_def sessionAt_def session_live_def auth_db.defs
        split: option.splits if_splits)
  with map_of_SomeD [of "db_sessions db" "uuid_key (wn_session w)" r] assms show False
    by (auto simp: barred_def list_all_iff)
qed

lemma refused_session:
  assumes "wn_barrier w = SessionEnded"
  shows "refused w a (assertActiveSession P (wn_socket w))"
  unfolding refused_def assertActiveSession_def
proof (rule discreet_thenA [OF discreet_localIdentity])
  fix i
  assume i: "own_identity w a (Inr i)"
  have "discreet w a (\<lambda>r. case r of Inl err \<Rightarrow> harmless a err | Inr active \<Rightarrow> \<not> active) (sessionActiveA P i)"
    unfolding sessionActiveA_def
    using i session_inactive [OF _ assms]
    by (auto simp: own_identity_def shut_def
        intro!: discreet_thenA [where U = "\<lambda>r. r = Inr ()"] discreet_pauseA discreet_simple discreet_query)
  then show "discreet w a (\<lambda>r. \<exists>err. r = Inl err \<and> harmless a err) (thenA (sessionActiveA P i) (\<lambda>active.
      if active then Return () else Throw (OperationError SESSION_REVOKED None)))"
    by (rule discreet_thenA) (auto intro: discreet_simple)
qed (simp add: own_identity_def)

lemma document_unreadable:
  assumes "barred w db" and "wn_barrier w = NoMembership" and "concerns w d"
  shows "getAuthorizedDocument d (wn_user w) db = None"
proof (cases "findDocument d db")
  case (Some x)
  then have x: "x \<in> set (db_documents db)" "dc_id x = uuid_key (wn_document w)"
    using assms(3) by (auto simp: findDocument_def find_Some_iff concerns_def)
  have "findMember (dc_projectId x) (wn_user w) db = None"
    using assms(1,2) x by (auto simp: findMember_def find_None_iff barred_def list_all_iff)
  with Some show ?thesis by (simp add: getAuthorizedDocument_def)
qed (simp add: getAuthorizedDocument_def)

lemma refused_document:
  assumes "concerns w d"
  shows "refused w a (getAuthorizedDocumentOrThrow P (wn_socket w) d)"
proof (cases "wn_barrier w")
  case SessionEnded
  then show ?thesis unfolding getAuthorizedDocumentOrThrow_def by (intro refused_first refused_session)
next
  case NoMembership
  let ?k = "\<lambda>r. case r of None \<Rightarrow> Throw (OperationError NOT_FOUND None)
       | Some document \<Rightarrow> thenA (identityA (wn_socket w)) (\<lambda>i.
           thenA (assertCurrentProjectAccess (dc_projectId document) (ci_userId i)) (\<lambda>_. Return document))"
  have "refused w a (thenA (queryA (\<lambda>_ g. getAuthorizedDocument d (ci_userId i) (gw_db g))) ?k)"
    if "own_identity w a (Inr i)" for i
  proof -
    have "discreet w a (\<lambda>r. r = Inl OtherError \<or> r = Inr None) (queryA (\<lambda>_ g. getAuthorizedDocument d (ci_userId i) (gw_db g)))"
      using that document_unreadable [OF _ NoMembership assms]
      by (intro discreet_query) (auto simp: shut_def own_identity_def)
    then show ?thesis unfolding refused_def by (rule discreet_thenA) (auto intro: discreet_simple)
  qed
  then have "refused w a (thenA (identityA (wn_socket w)) (\<lambda>i.
      thenA (queryA (\<lambda>_ g. getAuthorizedDocument d (ci_userId i) (gw_db g))) ?k))"
    unfolding refused_def by (intro discreet_thenA [OF discreet_identity]) (auto simp: own_identity_def)
  then show ?thesis
    unfolding getAuthorizedDocumentOrThrow_def by (rule refused_later [OF quiet_checks(4)])
qed

section \<open>Handlers and jobs\<close>

text \<open>A handler of a request of a socket, or a job in the background.\<close>

datatype work = Handler jstring request | Job background

fun workA :: "gateway_params \<Rightarrow> work \<Rightarrow> unit handler" where
  "workA P (Handler x r) = requestA P x r"
| "workA P (Job b) = backgroundA P b"

text \<open>The document that a request is about, when its payload is valid, and the acknowledgement of a
  request of the socket about the document.\<close>

fun subject :: "request \<Rightarrow> jstring option" where
  "subject (Join ack payload) = map_option jn_documentId payload"
| "subject (Leave ack payload) = payload"
| "subject (Command ack operationId payload) = map_option dm_documentId payload"
| "subject (Presence ack payload) = map_option pu_documentId payload"
| "subject (AcquireLock ack payload) = map_option lp_documentId payload"
| "subject (RenewLock ack payload) = map_option lp_documentId payload"
| "subject (ReleaseLock ack payload) = map_option lp_documentId payload"

fun ownAcknowledgement :: "window \<Rightarrow> work \<Rightarrow> nat option" where
  "ownAcknowledgement w (Handler x r) =
     (if x = wn_socket w \<and> (case subject r of None \<Rightarrow> False | Some d \<Rightarrow> concerns w d) then acknowledgement r else None)"
| "ownAcknowledgement w (Job b) = None"

text \<open>Either the replies of the handler do not count, or the socket asks for the document and is refused.\<close>

definition hopeless :: "window \<Rightarrow> nat option \<Rightarrow> jstring \<Rightarrow> jstring \<Rightarrow> bool" where
  "hopeless w a x d \<longleftrightarrow> a = None \<or> x = wn_socket w \<and> concerns w d"

lemma hopeless_cases:
  assumes "hopeless w a x d" and "a = None \<Longrightarrow> quiet w None p"
    and "refused w a (getAuthorizedDocumentOrThrow P x d) \<Longrightarrow> quiet w a p"
  shows "quiet w a p"
  using assms refused_document [of w d a P] by (cases "a = None") (auto simp: hopeless_def)

lemma quiet_joinInQueue:
  assumes "hopeless w a x (jn_documentId input)"
  shows "quiet w a (joinInQueue P x b input)"
  using assms
proof (rule hopeless_cases)
  show "quiet w None (joinInQueue P x b input)" unfolding joinInQueue_def Let_def by (intro quiet_intros)
  assume "refused w a (getAuthorizedDocumentOrThrow P x (jn_documentId input))"
  then show "quiet w a (joinInQueue P x b input)"
    unfolding joinInQueue_def Let_def by (intro refused_quiet refused_later [OF quiet_checks(9)] refused_first)
qed

lemma quiet_commandInQueue:
  assumes "hopeless w a x (dm_documentId input)"
  shows "quiet w a (thenA (queueRun P (dm_documentId input) (commandInQueue P x input)) (replyA b))"
  using assms
proof (rule hopeless_cases)
  show "quiet w None (thenA (queueRun P (dm_documentId input) (commandInQueue P x input)) (replyA b))"
    by (intro quiet_intros quiet_command)
  assume "refused w a (getAuthorizedDocumentOrThrow P x (dm_documentId input))"
  then have "refused w a (commandInQueue P x input)"
    unfolding commandInQueue_def Let_def by (intro refused_first)
  then have "refused w a (queueRun P (dm_documentId input) (commandInQueue P x input))"
    by (rule refused_queueRun)
  then show "quiet w a (thenA (queueRun P (dm_documentId input) (commandInQueue P x input)) (replyA b))"
    by (intro refused_quiet refused_first)
qed

lemma refused_checkElement:
  "refused w a (getAuthorizedDocumentOrThrow P x d) \<Longrightarrow> refused w a (thenA (checkElement P x d elementId) k)"
  unfolding checkElement_def by (intro refused_first)

lemma quiet_lockInQueue:
  assumes "hopeless w a x d" and "a = None \<Longrightarrow> quiet w None p" and "\<And>v. a = None \<Longrightarrow> quiet w None (k v)"
    and "\<exists>elementId l. p = thenA (checkElement P x d elementId) l"
  shows "quiet w a (thenA (queueRun P d p) k)"
  using assms(1)
proof (rule hopeless_cases)
  show "quiet w None (thenA (queueRun P d p) k)" if "a = None" using that assms(2,3) by (intro quiet_intros)
  assume "refused w a (getAuthorizedDocumentOrThrow P x d)"
  with assms(4) show "quiet w a (thenA (queueRun P d p) k)"
    by (auto intro: refused_quiet refused_first refused_queueRun refused_checkElement)
qed

lemma quiet_validated:
  "(\<And>input. payload = Some input \<Longrightarrow> quiet w a (k input)) \<Longrightarrow> quiet w a (thenA (validateA payload) k)"
  by (cases payload) (simp_all add: validateA_def quiet_errors)

text \<open>What all requests with an acknowledgement share.\<close>

lemma quiet_admitted:
  "quiet w a p \<Longrightarrow> quiet w a (catchA (thenA (admitControlEvent P x b) (\<lambda>ok. whenA ok p)) (\<lambda>err. refuseA x b operationId err))"
  "quiet w a p \<Longrightarrow> quiet w a (catchA (thenA (admitCommand P x b operationId) (\<lambda>ok. whenA ok p)) (\<lambda>err. refuseA x b operationId err))"
  "quiet w a p \<Longrightarrow> quiet w a (catchA (thenA (admitControlEvent P x b) (\<lambda>ok. whenA ok p))
     (\<lambda>err. replyA b (FailureReply (toFailure err None))))"
  by (intro quiet_intros; assumption)+

lemma quiet_unreadable:
  assumes "hopeless w a x d" and "a = None \<Longrightarrow> quiet w None p"
  shows "quiet w a (thenA (requireAuthorizedDocument P x d b) (\<lambda>document. whenA (document \<noteq> None) p))"
  using assms(1)
proof (rule hopeless_cases)
  show "quiet w None (thenA (requireAuthorizedDocument P x d b) (\<lambda>document. whenA (document \<noteq> None) p))" if "a = None"
    using that assms(2) by (intro quiet_intros)
  let ?none = "\<lambda>r. r = Inr None \<or> (\<exists>err. r = Inl err \<and> harmless a err)"
  assume r: "refused w a (getAuthorizedDocumentOrThrow P x d)"
  have refuse: "discreet w a ?none (thenA (refuseA x b None err) (\<lambda>_. Return None))" if "harmless a err" for err
    using quiet_replies(5) [OF that] unfolding quiet_def by (rule discreet_thenA) (auto intro: discreet_simple)
  have "discreet w a ?none (requireAuthorizedDocument P x d b)"
    unfolding requireAuthorizedDocument_def
    by (rule discreet_catchA [OF refused_first [OF r, unfolded refused_def]]) (auto intro: refuse)
  then show "quiet w a (thenA (requireAuthorizedDocument P x d b) (\<lambda>document. whenA (document \<noteq> None) p))"
    unfolding quiet_def by (rule discreet_thenA) (auto simp: whenA_def intro: discreet_simple)
qed

lemma quiet_request:
  assumes "\<And>d. subject r = Some d \<Longrightarrow> hopeless w a x d"
  shows "quiet w a (requestA P x r)"
proof (cases r)
  case (Join ack payload)
  then show ?thesis
    using assms quiet_joinInQueue
    by (auto simp: joinDocument_def Let_def intro!: quiet_admitted(1) quiet_validated quiet_catchA quiet_thenA quiet_setPending
        quiet_waiting(5,6) quiet_Throw quiet_basic split: option.split)
next
  case (Leave ack payload)
  then show ?thesis
    by (auto simp: leaveDocument_def intro!: quiet_admitted(3) quiet_validated quiet_intros split: option.split)
next
  case (Command ack operationId payload)
  then show ?thesis
    using assms quiet_commandInQueue
    by (auto simp: executeCommand_def intro!: quiet_admitted(2) quiet_validated quiet_basic split: option.split)
next
  case (Presence ack payload)
  then show ?thesis
    using assms
    by (auto simp: updatePresence_def Let_def simp del: not_None_eq
        intro!: quiet_admitted(3) quiet_validated quiet_unreadable quiet_basic split: option.split) (intro quiet_intros)
next
  case (AcquireLock ack payload)
  then show ?thesis
    using assms
    by (auto simp: acquireLock_def intro!: quiet_admitted(1) quiet_validated quiet_lockInQueue quiet_basic
        split: option.split) ((intro quiet_intros)+, auto simp: acquireInQueue_def)
next
  case (RenewLock ack payload)
  then show ?thesis
    using assms
    by (auto simp: renewLock_def updateLockLease_def Let_def intro!: quiet_admitted(1) quiet_validated quiet_lockInQueue quiet_basic
        split: option.split) ((intro quiet_intros)+, auto simp: renewInQueue_def)
next
  case (ReleaseLock ack payload)
  then show ?thesis
    using assms
    by (auto simp: releaseLock_def updateLockLease_def Let_def intro!: quiet_admitted(1) quiet_validated quiet_lockInQueue quiet_basic
        split: option.split) ((intro quiet_intros)+, auto simp: releaseInQueue_def)
qed

text \<open>A whole run, where the others keep the document closed and tell nothing.\<close>

lemma quiet_work: "quiet w (ownAcknowledgement w job) (workA P job)"
proof (cases job)
  case (Handler x r)
  have "hopeless w (ownAcknowledgement w job) x d" if "subject r = Some d" for d
    using that Handler by (simp add: hopeless_def)
  with Handler quiet_request [of r w "ownAcknowledgement w job" x P] show ?thesis by simp
next
  case (Job b)
  then show ?thesis by (simp add: quiet_background)
qed

lemma quiet_exec:
  assumes "exec (\<lambda>g1 g2. shut w g2 \<and> told w a g2 = told w a g1) p g res g'" and "quiet w a p" and "shut w g"
  shows "told w a g' = told w a g"
proof -
  from assms(3) have "known w g" by (simp add: shut_def)
  with assms(2) have "wp p (\<lambda>_ _ g1. told w a g1 = told w a g) (\<lambda>_ g1. shut w g1 \<and> told w a g1 = told w a g)
      (\<lambda>r _ _ g1. known w g1 \<and> told w a g1 = told w a g \<and> (\<forall>err. r = Inl err \<longrightarrow> harmless a err)) e g g" for e
    unfolding quiet_def by (rule discreetD) simp
  from wp_exec [OF assms(1) this] show ?thesis by auto
qed

end
