(* ===== verification/Gateway_Examples.thy ===== *)
theory Gateway_Examples
  imports Gateway_Reachable Gateway_Discretion Document_Examples
begin

text \<open>
  A run of the gateway, evaluated step by step: a socket connects with a token of the example user and
  joins the example document, and the change of presence is sent to the room.
\<close>

section \<open>Runs\<close>

datatype choice =
    DoConnect jstring "jstring option"
  | DoRequest jstring request
  | DoBackground
  | DoResume nat world
  | DoSettle nat

fun perform :: "gateway_params \<Rightarrow> choice \<Rightarrow> system \<Rightarrow> system option" where
  "perform P (DoConnect x token) s = (if x \<in> sy_sockets s then None
     else Some \<lparr>sy_gateway = setClient x id (sy_gateway s), sy_sockets = insert x (sy_sockets s),
       sy_tasks = sy_tasks s @ [(Some x, \<lambda>_. True, connectA P x token)]\<rparr>)"
| "perform P (DoRequest x r) s = (if sk_connected (clientOf (sy_gateway s) x) \<and> request_ok r
     then Some (s\<lparr>sy_tasks := sy_tasks s @ [(None, \<lambda>_. True, requestA P x r)]\<rparr>) else None)"
| "perform P DoBackground s = (case gw_background (sy_gateway s) of
      [] \<Rightarrow> None
    | b # bs \<Rightarrow> Some \<lparr>sy_gateway = (sy_gateway s)\<lparr>gw_background := bs\<rparr>, sy_sockets = sy_sockets s,
        sy_tasks = sy_tasks s @ [(None, \<lambda>_. True, backgroundA P b)]\<rparr>)"
| "perform P (DoResume n e) s = (case drop n (sy_tasks s) of
      [] \<Rightarrow> None
    | (t, c, p) # ts' \<Rightarrow> if c (sy_gateway s)
        then (case run p e (sy_gateway s) of (g, out) \<Rightarrow> Some \<lparr>sy_gateway = g, sy_sockets = sy_sockets s,
          sy_tasks = take n (sy_tasks s) @ continue t out @ ts'\<rparr>)
        else None)"
| "perform P (DoSettle i) s = (let q = gw_queue (sy_gateway s) in
     if i < length (q_operations q) \<and> qo_status (q_operations q ! i) = Ended \<and> previous_settled q i
     then Some (s\<lparr>sy_gateway := (sy_gateway s)\<lparr>gw_queue := settle i q\<rparr>\<rparr>) else None)"

lemma perform_step: "perform P choice s = Some s' \<Longrightarrow> system_step P s s'"
proof (induction P choice s rule: perform.induct)
  case (4 P n e s)
  then obtain t c p ts' where d: "drop n (sy_tasks s) = (t, c, p) # ts'" "c (sy_gateway s)"
    by (auto split: list.splits if_splits)
  moreover obtain g out where r: "run p e (sy_gateway s) = (g, out)" by (cases "run p e (sy_gateway s)")
  moreover have "sy_tasks s = take n (sy_tasks s) @ (t, c, p) # ts'" using append_take_drop_id [of n "sy_tasks s"] d(1) by simp
  ultimately show ?case using 4 system_step.Resume [of s "take n (sy_tasks s)" t c p ts' e g out P] by auto
next
  case (5 P i s)
  then show ?case by (auto simp: Let_def intro!: system_step.Event gateway_event.QueueSettles split: if_splits)
qed (auto intro: system_step.intros split: if_splits list.splits)

primrec performs :: "gateway_params \<Rightarrow> choice list \<Rightarrow> system \<Rightarrow> system option" where
  "performs P [] s = Some s"
| "performs P (choice # choices) s = Option.bind (perform P choice s) (performs P choices)"

lemma performs_reachable: "performs P choices s = Some s' \<Longrightarrow> system_reachable P s \<Longrightarrow> system_reachable P s'"
proof (induction choices arbitrary: s)
  case (Cons choice choices)
  then obtain s1 where "perform P choice s = Some s1" "performs P choices s1 = Some s'"
    by (auto simp: bind_eq_Some_conv)
  with Cons.IH [of s1] system_reachable.Step [OF Cons.prems(2) perform_step] show ?case by blast
qed simp

text \<open>How a segment of a composed program runs.\<close>

named_theorems run_laws \<open>one segment of a program\<close>

lemma run_thenA [run_laws]:
  "run (thenA p k) e s = (case run p e s of
      (s', Async_Programs.Finished (Inr v)) \<Rightarrow> run (k v) e s'
    | (s', Async_Programs.Finished (Inl err)) \<Rightarrow> (s', Async_Programs.Finished (Inl err))
    | (s', Suspended c p') \<Rightarrow> (s', Suspended c (thenA p' k)))"
  by (induction p arbitrary: s rule: async_induct) simp_all

lemma run_catchA [run_laws]:
  "run (catchA p h) e s = (case run p e s of
      (s', Async_Programs.Finished (Inl err)) \<Rightarrow> run (h err) e s'
    | (s', Async_Programs.Finished (Inr v)) \<Rightarrow> (s', Async_Programs.Finished (Inr v))
    | (s', Suspended c p') \<Rightarrow> (s', Suspended c (catchA p' h)))"
  by (induction p arbitrary: s rule: async_induct) simp_all

lemma run_finallyA [run_laws]:
  "run (finallyA p q) e s = (case run p e s of
      (s', Async_Programs.Finished r) \<Rightarrow> (case run q e s' of
          (s2, Async_Programs.Finished (Inr _)) \<Rightarrow> (s2, Async_Programs.Finished r)
        | (s2, Async_Programs.Finished (Inl err)) \<Rightarrow> (s2, Async_Programs.Finished (Inl err))
        | (s2, Suspended c p') \<Rightarrow> (s2, Suspended c (thenA p' (\<lambda>_. case r of Inr v \<Rightarrow> Return v | Inl err \<Rightarrow> Throw err))))
    | (s', Suspended c p') \<Rightarrow> (s', Suspended c (finallyA p' q)))"
proof (induction p arbitrary: s rule: async_induct)
  case (Return v)
  then show ?case by (auto simp: run_thenA split: prod.splits outcome.splits sum.splits)
next
  case (Throw err)
  then show ?case by (auto simp: run_thenA split: prod.splits outcome.splits sum.splits)
qed simp_all

lemma run_small [run_laws]:
  "run (getsA f) e s = (s, Async_Programs.Finished (Inr (f e s)))"
  "run (modifyA g) e s = (g e s, Async_Programs.Finished (Inr ()))"
  "run (callA h) e s = (fst (h e s), Async_Programs.Finished (Inr (snd (h e s))))"
  "run (ensureA b err) e s = (s, Async_Programs.Finished (if b e s then Inr () else Inl err))"
  "run pauseA e s = (s, Suspended (\<lambda>_. True) (Return ()))"
  "run (whenA cond q) e s = (if cond then run q e s else (s, Async_Programs.Finished (Inr ())))"
  by (simp_all add: getsA_def modifyA_def callA_def ensureA_def pauseA_def whenA_def)

section \<open>The example\<close>

definition sample_params :: gateway_params where
  "sample_params = \<lparr>cf_maxDocumentsPerSocket = 5, cf_maxParticipantsPerDocument = 50, cf_presenceMinIntervalMs = 50,
     cf_lockTtlSeconds = 30, cf_commandLimit = 10, cf_commandWindowMs = 1000, cf_controlEventLimit = 60,
     cf_controlEventWindowMs = 10000, cf_maxConnectedSockets = 3, cf_maxSocketsPerSession = 2,
     cf_maxPendingMutationsPerDocument = 8, cf_operationRecoveryBatchSize = 20,
     gp_isUUID = (\<lambda>i. i \<noteq> []),
     gp_verifyJwt = (\<lambda>_. Some \<lparr>ct_sub = ann, ct_sid = ann_session, ct_typ = js ''access'', ct_exp = 500\<rparr>),
     gp_schema = Inr, gp_lowerEs = id, gp_showNumber = (\<lambda>_. []), gp_sha256 = id\<rparr>"

definition at_time :: "int \<Rightarrow> world" where
  "at_time now = \<lparr>en_now = now, en_uuid = js ''f1'', en_fails = False, en_first = True\<rparr>"

definition tab :: jstring where "tab = js ''s1''"

lemma sample_sel [simp]:
  "cf_maxDocumentsPerSocket sample_params = 5" "cf_maxParticipantsPerDocument sample_params = 50"
  "cf_lockTtlSeconds sample_params = 30" "cf_controlEventLimit sample_params = 60"
  "cf_controlEventWindowMs sample_params = 10000" "cf_maxConnectedSockets sample_params = 3"
  "cf_maxSocketsPerSession sample_params = 2" "cf_maxPendingMutationsPerDocument sample_params = 8"
  "gp_isUUID sample_params i = (i \<noteq> [])"
  by (simp_all add: sample_params_def)

lemma at_time_sel [simp]: "en_now (at_time t) = t" "en_uuid (at_time t) = js ''f1''" "en_fails (at_time t) = False"
  "en_first (at_time t)"
  by (simp_all add: at_time_def)

lemma sample_nonempty [simp]: "ann \<noteq> []" "ann_session \<noteq> []" "shop_diagram \<noteq> []" "tab \<noteq> []"
  by (simp_all add: ann_def ann_session_def shop_diagram_def tab_def js_def)

lemma sample_params_ok: "params_ok sample_params"
  by (simp add: params_ok_def)

section \<open>What the database answers\<close>

lemma ann_verified [simp]:
  "now < 1000 \<Longrightarrow> verifyAccessToken (gp_isUUID sample_params) (gp_verifyJwt sample_params) now (js ''jwt'')
     (auth_db.truncate document_db) = Inr \<lparr>us_id = ann, us_email = js ''ann@x.org'', us_displayName = js ''Ann'',
       pn_sessionId = ann_session, pn_accessTokenExpiresAt = 500\<rparr>"
  by (simp add: verifyAccessToken_def sample_params_def is_safe_integer_def max_safe_integer_def active_session_def
      sessionAt_def session_live_def auth_db.defs document_db_def project_db_def first_db_def safe_user.defs principal.defs)
    (simp add: ann_def ann_session_def js_def)

lemma ann_current:
  "now < 1000 \<Longrightarrow> isSessionActive (gp_isUUID sample_params) now ann ann_session (auth_db.truncate document_db)"
  by (simp add: isSessionActive_def active_session_def sessionAt_def session_live_def auth_db.defs document_db_def
      project_db_def first_db_def)

lemma ann_may_read: "getAuthorizedDocument shop_diagram ann document_db = Some (row_of 0 order_model 20)"
  by (simp add: getAuthorizedDocument_def findDocument_def findMember_def document_db_def project_db_def row_of_def)

lemma nothing_listed: "list_locks now d empty_lock_store = (empty_lock_store, [])"
  by (simp add: list_locks_def expireDocument_nothing empty_lock_store_def documentLocks_def inner_def Let_def)

section \<open>Connecting\<close>

definition start_system :: system where
  "start_system = \<lparr>sy_gateway = new_gateway document_db, sy_sockets = {}, sy_tasks = []\<rparr>"

definition tab_identity :: collaboration_identity where
  "tab_identity = \<lparr>ci_userId = ann, ci_sessionId = ann_session, ci_accessTokenExpiresAt = 500\<rparr>"

definition tab_client :: client where
  "tab_client = \<lparr>sk_identity = Some tab_identity, sk_joined = {}, sk_projects = [],
     sk_pending = {}, sk_joinTail = None, sk_expiryTimer = Some 500000, sk_reservedSession = Some ann_session,
     sk_connected = True, sk_rooms = {}, sk_transportClosed = False\<rparr>"

definition connected_gateway :: gateway where
  "connected_gateway = (new_gateway document_db)\<lparr>gw_clients := [(tab, tab_client)], gw_connectedSocketIds := {tab},
     gw_socketIdsBySession := [(ann_session, {tab})]\<rparr>"

definition connected_system :: system where
  "connected_system = \<lparr>sy_gateway = connected_gateway, sy_sockets = {tab}, sy_tasks = []\<rparr>"

lemmas client_laws = clientOf_def setClient_def continue_def Let_def

lemma connect_run:
  "performs sample_params (DoConnect tab (Some (js ''jwt'')) # replicate 4 (DoResume 0 (at_time 25))) start_system
     = Some connected_system"
  by (simp add: start_system_def new_gateway_def numeral_eq_Suc client_laws)
    (simp add: run_laws client_laws connectA_def handshake_def queryA_def answerA_def reserveSocket_def handleConnection_def
      rememberPrincipal_def new_client_def,
     simp add: connected_system_def connected_gateway_def new_gateway_def tab_client_def tab_identity_def)

section \<open>Joining\<close>

definition tab_participant :: stored_participant where
  "tab_participant = \<lparr>pt_userId = ann, pt_socketId = tab, pt_joinedAt = 25, pt_lastSeen = 25, pt_selection = None,
     pt_cursor = None, pt_lastPresenceUpdateAt = 0\<rparr>"

definition joined_gateway :: gateway where
  "joined_gateway = connected_gateway
     \<lparr>gw_clients := [(tab, tab_client\<lparr>sk_joined := {shop_diagram}, sk_projects := [(shop_diagram, shop_project)],
        sk_rooms := {shop_diagram}\<rparr>)],
      gw_sent := [Ack 0 (JoinReply shop_diagram 0 (Some order_model) False [participant.truncate tab_participant] [])],
      gw_background := [RecoverOperations, AuthorizedBroadcast shop_diagram PresenceChange (Some 1)],
      gw_joinTails := [\<lparr>jt_previous = None, jt_released = True, jt_settled = False\<rparr>],
      gw_presence := \<lparr>participantsByDocument = [(shop_diagram, [(tab, tab_participant)])],
        documentIdsBySocket = [(tab, [(shop_diagram, ())])],
        ps_events = [(shop_diagram, [participant.truncate tab_participant])]\<rparr>,
      gw_limiter := \<lparr>commandWindows = [], controlEventWindows = [(tab, \<lparr>rw_startedAt = 25, rw_count = 1\<rparr>)]\<rparr>,
      gw_queue := \<lparr>q_tails = [(shop_diagram, 1)], q_pendingByDocument = [(shop_diagram, 1)],
        q_operations = [\<lparr>qo_document = shop_diagram, qo_previous = None, qo_status = Ended, qo_settled = False\<rparr>,
          \<lparr>qo_document = shop_diagram, qo_previous = Some 0, qo_status = Waiting, qo_settled = False\<rparr>]\<rparr>\<rparr>"

definition joined_system :: system where
  "joined_system = \<lparr>sy_gateway = joined_gateway, sy_sockets = {tab}, sy_tasks = []\<rparr>"

lemmas request_laws = run_laws client_laws admitControlEvent_def admitEvent_def requireLocalIdentity_def identityA_def
  hasActiveAccessToken_def allowControlEventA_def allowControlEvent_def allow_def validateA_def queryA_def answerA_def replyA_def
  queueRun_def enqueueOperation_def runQueued_def enqueue_def empty_queue_def pendingOf_def start_def finish_def
  previous_settled_def set_operation_def

lemmas join_laws = joinDocument_def setPending_def runSocketJoin_def tail_settled_def joinInQueue_def ensureJoinActive_def
  isJoinActive_def getAuthorizedDocumentOrThrow_def assertActiveSession_def sessionActiveA_def assertCurrentProjectAccess_def
  hasCurrentProjectAccessForUser_def enterDocument_def presenceA_def locksA_def confirmJoin_def releaseJoin_def
  withPresence_def withLocks_def join_def empty_presence_store_def inner_def nestedPut_def emitPresence_def
  list_participants_def scheduleAuthorizedBroadcast_def nothing_listed participant.defs

lemma join_run:
  "performs sample_params (DoRequest tab (Join (Some 0) (Some \<lparr>jn_documentId = shop_diagram, jn_knownRevision = None\<rparr>))
     # replicate 10 (DoResume 0 (at_time 25))) connected_system = Some joined_system"
  by (simp add: numeral_eq_Suc connected_system_def connected_gateway_def new_gateway_def tab_client_def tab_identity_def client_laws)
    (simp add: request_laws join_laws ann_current ann_may_read,
     simp add: joined_system_def joined_gateway_def connected_gateway_def new_gateway_def tab_client_def tab_identity_def
       tab_participant_def participant.defs row_of_def empty_queue_def)

lemma joined_reachable: "system_reachable sample_params joined_system"
  using performs_reachable [OF connect_run] performs_reachable [OF join_run]
  by (simp add: start_system_def system_reachable.Start)

section \<open>The broadcast\<close>

definition broadcast_choices :: "choice list" where
  "broadcast_choices = [DoBackground, DoBackground, DoSettle 0, DoResume 1 (at_time 26), DoResume 1 (at_time 26),
     DoResume 1 (at_time 26), DoResume 1 (at_time 26)]"

lemmas broadcast_laws = request_laws settle_def currentPayload_def broadcastToAuthorizedRoom_def roomClients_def
  connectedClients_def recipientIdentity_def hasCurrentProjectAccess_def hasCurrentProjectAccessForUser_def
  getBroadcastAuthorization_def bothA_def broadcastAuthorization_def deliverTo_def list_participants_def inner_def participant.defs

lemma ann_receives:
  "now < 1000 \<Longrightarrow> activeSessionsOf now
     [\<lparr>ci_userId = ann, ci_sessionId = ann_session, ci_accessTokenExpiresAt = 500\<rparr>] document_db = {(ann, ann_session)}"
  "authorizedUsersOf shop_diagram
     [\<lparr>ci_userId = ann, ci_sessionId = ann_session, ci_accessTokenExpiresAt = 500\<rparr>] document_db = Some {ann}"
  by (simp_all add: activeSessionsOf_def authorizedUsersOf_def findDocument_def document_db_def project_db_def first_db_def
      row_of_def session_live_def)

section \<open>Programs with nobody else there\<close>

text \<open>A program with nobody else there, in states that are all as \<open>ok\<close> says.\<close>

primrec alone :: "('s \<Rightarrow> bool) \<Rightarrow> nat \<Rightarrow> ('e, 's, 'x, 'a) async \<Rightarrow> 'e \<Rightarrow> 's \<Rightarrow> ('s \<times> ('x + 'a)) option" where
  "alone ok 0 p e s = None"
| "alone ok (Suc n) p e s = (case run p e s of
      (s', Async_Programs.Finished r) \<Rightarrow> Some (s', r)
    | (s', Suspended c p') \<Rightarrow> if c s' \<and> ok s' then alone ok n p' e s' else None)"

lemma alone_exec: "alone ok n p e s = Some (s', r) \<Longrightarrow> (\<And>s. ok s \<Longrightarrow> rely s s) \<Longrightarrow> exec rely p s r s'"
proof (induction n arbitrary: p s)
  case (Suc n)
  then show ?case
    by (auto split: prod.splits outcome.splits if_splits intro: exec.Last exec.Segment)
qed simp

section \<open>Closed documents\<close>

text \<open>The user is no member of the project any more, and the socket has not been told: it is still in the
  room when the change of presence is sent, and when it moves its cursor.\<close>

definition memberless_db :: server_db where
  "memberless_db = document_db\<lparr>db_members := []\<rparr>"

definition tab_window :: window where
  "tab_window = \<lparr>wn_barrier = NoMembership, wn_socket = tab, wn_user = ann, wn_session = ann_session,
     wn_document = shop_diagram\<rparr>"

definition memberless_gateway :: gateway where
  "memberless_gateway = joined_gateway\<lparr>gw_queue := settle 0 (gw_queue joined_gateway), gw_db := memberless_db\<rparr>"

lemma tab_barred: "barred tab_window memberless_db"
  by (simp add: barred_def tab_window_def memberless_db_def list_all_iff)

lemma tab_known: "known tab_window g \<longleftrightarrow> sk_identity (clientOf g tab) = None
    \<or> map_option ci_userId (sk_identity (clientOf g tab)) = Some ann
      \<and> map_option ci_sessionId (sk_identity (clientOf g tab)) = Some ann_session"
  by (simp add: known_def tab_window_def split: option.split)

lemma tab_shut: "shut tab_window memberless_gateway"
  by (simp add: shut_def tab_known tab_barred memberless_gateway_def joined_gateway_def clientOf_def tab_client_def
      tab_identity_def)

lemma ann_kept_out:
  "now < 1000 \<Longrightarrow> activeSessionsOf now
     [\<lparr>ci_userId = ann, ci_sessionId = ann_session, ci_accessTokenExpiresAt = 500\<rparr>] memberless_db = {(ann, ann_session)}"
  "authorizedUsersOf shop_diagram
     [\<lparr>ci_userId = ann, ci_sessionId = ann_session, ci_accessTokenExpiresAt = 500\<rparr>] memberless_db = Some {}"
  "getAuthorizedDocument shop_diagram ann memberless_db = None"
  "now < 1000 \<Longrightarrow> isSessionActive (gp_isUUID sample_params) now ann ann_session (auth_db.truncate memberless_db)"
proof -
  show "now < 1000 \<Longrightarrow> activeSessionsOf now
     [\<lparr>ci_userId = ann, ci_sessionId = ann_session, ci_accessTokenExpiresAt = 500\<rparr>] memberless_db = {(ann, ann_session)}"
    using ann_receives(1) [of now] by (simp add: memberless_db_def activeSessionsOf_def)
  show "now < 1000 \<Longrightarrow> isSessionActive (gp_isUUID sample_params) now ann ann_session (auth_db.truncate memberless_db)"
    using ann_current [of now] by (simp add: memberless_db_def auth_db.defs)
qed (simp_all add: memberless_db_def authorizedUsersOf_def getAuthorizedDocument_def findDocument_def findMember_def
    document_db_def project_db_def row_of_def)

text \<open>The second task has heard from the database who may be told, and is about to tell the socket. It
  does even if the database has changed since, here to one in which nobody is a member.\<close>

lemma broadcast_run:
  "case performs sample_params broadcast_choices joined_system of
     None \<Rightarrow> False
   | Some s \<Rightarrow> length (sy_tasks s) = 2 \<and> known tab_window (sy_gateway s)
       \<and> (case sy_tasks s ! 1 of (t, c, p) \<Rightarrow> c ((sy_gateway s)\<lparr>gw_db := memberless_db\<rparr>) \<and> contents (gw_sent (sy_gateway s)) = [] \<and> contents (gw_sent (fst (run p (at_time 26)
            ((sy_gateway s)\<lparr>gw_db := memberless_db\<rparr>))))
         = [(tab, PresenceChanged shop_diagram [participant.truncate tab_participant])])"
  by (simp add: broadcast_choices_def joined_system_def joined_gateway_def connected_gateway_def new_gateway_def
      tab_client_def tab_identity_def tab_participant_def client_laws)
    (simp add: broadcast_laws tab_known ann_receives finishRemovals_def emit_def contents_def tab_participant_def)

lemma closed_broadcast_run:
  "case alone (shut tab_window) 10 (workA sample_params (Job (AuthorizedBroadcast shop_diagram PresenceChange (Some 1)))) (at_time 28)
      memberless_gateway of
     None \<Rightarrow> False
   | Some (g, r) \<Rightarrow> r = Inr () \<and> gw_sent g = gw_sent memberless_gateway
       @ [Emit tab (DocumentAccessRevoked shop_diagram (failure FORBIDDEN None None))]"
  by (simp add: memberless_gateway_def joined_gateway_def connected_gateway_def new_gateway_def tab_client_def tab_identity_def
      tab_participant_def client_laws numeral_eq_Suc settle_def)
    (simp add: broadcast_laws shut_def tab_known tab_barred ann_kept_out finishRemovals_def revokeDocumentAccess_def leaveRoom_def emit_def
      finishRemoval_def removeFromStores_def leave_def nestedGet_def nestedDrop_def join_laws,
     simp add: releaseBySocketInDocument_def socketKeys_def empty_lock_store_def inner_def
       memberless_gateway_def joined_gateway_def connected_gateway_def new_gateway_def tab_participant_def participant.defs)

definition presence_request :: request where
  "presence_request = Presence (Some 7) (Some \<lparr>pu_documentId = shop_diagram, pu_selection = None, pu_cursor = None\<rparr>)"

lemma closed_presence_run:
  "case alone (shut tab_window) 10 (workA sample_params (Handler tab presence_request)) (at_time 28) memberless_gateway of
     None \<Rightarrow> False
   | Some (g, r) \<Rightarrow> r = Inr () \<and> answersTo 7 g = [FailureReply (failure NOT_FOUND None None)]"
  by (simp add: memberless_gateway_def joined_gateway_def connected_gateway_def new_gateway_def tab_client_def tab_identity_def
      tab_participant_def client_laws numeral_eq_Suc settle_def presence_request_def)
    (simp add: request_laws join_laws shut_def tab_known tab_barred ann_kept_out updatePresence_def requireAuthorizedDocument_def refuseA_def
      disconnectForAuthenticationFailure_def authenticationFailure_def answersTo_def toFailure_def)

section \<open>Leaving\<close>

lemma leave_run:
  "case alone (\<lambda>_. True) 5 (requestA sample_params tab (Leave (Some 7) (Some shop_diagram))) (at_time 27) joined_gateway of
     None \<Rightarrow> False
   | Some (g, r) \<Rightarrow> r = Inr () \<and> answersTo 7 g = [LeaveReply shop_diagram] \<and> sk_joined (clientOf g tab) = {}"
  by (simp add: joined_gateway_def connected_gateway_def new_gateway_def tab_client_def tab_identity_def
      tab_participant_def client_laws numeral_eq_Suc)
    (simp add: request_laws join_laws leaveDocument_def requireActiveSession_def ann_current removeDocumentState_def
      leaveRoom_def finishRemoval_def removeFromStores_def leave_def nestedGet_def nestedDrop_def,
     simp add: answersTo_def releaseBySocketInDocument_def socketKeys_def empty_lock_store_def inner_def)

end
