(* ===== verification/Gateway_Properties.thy ===== *)
theory Gateway_Properties
  imports Gateway_Examples
begin

text \<open>
  The properties of the collaboration gateway as a running system: every reachable state of the event
  loop, with any number of sockets, handlers and events of the world in between.
\<close>

text \<open>C37. In every reachable state a socket that is shown as a participant of a document, or that owns
  a lock in it, expired or not, is connected and has joined that document, whatever disconnections,
  revocations, evictions and late handlers came in between.\<close>

theorem participants_and_owners_have_joined:
  assumes "params_ok P" and "system_reachable P s"
    and "participantAt (gw_presence (sy_gateway s)) d x \<noteq> None
      \<or> (\<exists>i l. lockAt (gw_locks (sy_gateway s)) d i = Some l \<and> lk_socketId l = x)"
  shows "sk_connected (clientOf (sy_gateway s) x) \<and> d \<in> sk_joined (clientOf (sy_gateway s) x)"
proof -
  have v: "session_inv P (view (sy_gateway s))"
    using system_inv_reachable [OF assms(1,2)] by (simp add: system_inv_def gateway_inv_def)
  note i = session_invD [OF v]
  have "d \<in> sk_joined (clientOf (sy_gateway s) x)"
    using assms(3) i(5) [of x] i(7) [of d x] by (auto simp: documents_of_def owners_def)
  with i(6) [of d x] show ?thesis by simp
qed

theorem participants_and_owners_have_joined_witness:
  "sk_connected (clientOf joined_gateway tab) \<and> shop_diagram \<in> sk_joined (clientOf joined_gateway tab)"
proof -
  have "participantAt (gw_presence (sy_gateway joined_system)) shop_diagram tab \<noteq> None"
    by (simp add: joined_system_def joined_gateway_def participantAt_def nestedGet_def inner_def)
  with participants_and_owners_have_joined [OF sample_params_ok joined_reachable, of shop_diagram tab]
  show ?thesis by (simp add: joined_system_def)
qed

text \<open>C38. A document is closed to a socket while its session is revoked, or while its user is no member of
  the project of the document or the document is gone. While it is closed, from the start of a handler or a
  job in the background to its end, that handler or job tells the socket nothing about the document:
  it sends it no operation, no participants, no locks and no request to reload, and when it answers a
  request of the socket itself about the document, the reply is a failure without the revision (or, to
  leaving, a confirmation). Everything else may change at every \<open>await\<close>, and the database may
  answer at any moment of its own. Whether a broadcast that has its answer already when the document is
  closed still goes out is another matter (see below).\<close>

theorem closed_documents_are_not_told:
  assumes "shut w g"
    and "exec (\<lambda>g1 g2. shut w g2 \<and> told w (ownAcknowledgement w job) g2 = told w (ownAcknowledgement w job) g1)
      (workA P job) g res g'"
  shows "told w (ownAcknowledgement w job) g' = told w (ownAcknowledgement w job) g"
  using quiet_exec [OF assms(2) quiet_work assms(1)] .

theorem closed_documents_are_not_told_witness:
  "shut tab_window memberless_gateway
   \<and> (\<exists>g'. exec (\<lambda>g1 g2. shut tab_window g2 \<and> told tab_window None g2 = told tab_window None g1)
        (workA sample_params (Job (AuthorizedBroadcast shop_diagram PresenceChange (Some 1)))) memberless_gateway (Inr ()) g'
     \<and> gw_sent g' = gw_sent memberless_gateway
         @ [Emit tab (DocumentAccessRevoked shop_diagram (failure FORBIDDEN None None))]
     \<and> told tab_window None g' = told tab_window None memberless_gateway)
   \<and> (\<exists>g'. exec (\<lambda>g1 g2. shut tab_window g2 \<and> told tab_window (Some 7) g2 = told tab_window (Some 7) g1)
        (workA sample_params (Handler tab presence_request)) memberless_gateway (Inr ()) g'
     \<and> answersTo 7 g' = [FailureReply (failure NOT_FOUND None None)]
     \<and> told tab_window (Some 7) g' = told tab_window (Some 7) memberless_gateway)"
proof (intro conjI)
  show "shut tab_window memberless_gateway" by (rule tab_shut)
  let ?b = "Job (AuthorizedBroadcast shop_diagram PresenceChange (Some 1))" and ?h = "Handler tab presence_request"
  let ?rely = "\<lambda>a g1 g2. shut tab_window g2 \<and> told tab_window a g2 = told tab_window a g1"
  from closed_broadcast_run obtain g where g: "alone (shut tab_window) 10 (workA sample_params ?b) (at_time 28) memberless_gateway = Some (g, Inr ())"
    "gw_sent g = gw_sent memberless_gateway @ [Emit tab (DocumentAccessRevoked shop_diagram (failure FORBIDDEN None None))]"
    by (auto split: option.splits)
  have b: "exec (?rely None) (workA sample_params ?b) memberless_gateway (Inr ()) g" using g(1) by (rule alone_exec) simp
  have "told tab_window None g = told tab_window None memberless_gateway"
    by (rule closed_documents_are_not_told
        [where w = tab_window and job = ?b, OF tab_shut, unfolded ownAcknowledgement.simps, OF b])
  with b g(2) show "\<exists>g'. exec (?rely None) (workA sample_params ?b) memberless_gateway (Inr ()) g'
     \<and> gw_sent g' = gw_sent memberless_gateway
         @ [Emit tab (DocumentAccessRevoked shop_diagram (failure FORBIDDEN None None))]
     \<and> told tab_window None g' = told tab_window None memberless_gateway"
    by (intro exI [of _ g] conjI)
  from closed_presence_run obtain g1 where g1: "alone (shut tab_window) 10 (workA sample_params ?h) (at_time 28) memberless_gateway = Some (g1, Inr ())"
    "answersTo 7 g1 = [FailureReply (failure NOT_FOUND None None)]" by (auto split: option.splits)
  have h: "exec (?rely (Some 7)) (workA sample_params ?h) memberless_gateway (Inr ()) g1" using g1(1) by (rule alone_exec) simp
  have own: "ownAcknowledgement tab_window ?h = Some 7"
    by (simp add: tab_window_def presence_request_def concerns_def)
  have "told tab_window (Some 7) g1 = told tab_window (Some 7) memberless_gateway"
    by (rule closed_documents_are_not_told [where w = tab_window and job = ?h, OF tab_shut, unfolded own, OF h])
  with h g1(2) show "\<exists>g'. exec (?rely (Some 7)) (workA sample_params ?h) memberless_gateway (Inr ()) g'
     \<and> answersTo 7 g' = [FailureReply (failure NOT_FOUND None None)]
     \<and> told tab_window (Some 7) g' = told tab_window (Some 7) memberless_gateway"
    by (intro exI [of _ g1] conjI)
qed

text \<open>A broadcast asks the database once, and then tells what it was allowed to tell then to the sockets
  that are still in the room with a valid access token. The segment that tells looks at the state of the
  gateway, not at the database.\<close>

theorem contents_stay_in_rooms:
  assumes "params_ok P" and "system_reachable P s" and "(t, c, p) \<in> set (sy_tasks s)" and "c (sy_gateway s)"
    and "run p e (sy_gateway s) = (g, out)"
  shows "\<exists>new. contents (gw_sent g) = contents (gw_sent (sy_gateway s)) @ new
    \<and> (\<forall>(x, ev) \<in> set new. \<exists>d. documentOf ev = Some d \<and> receives e (sy_gateway s) d x)"
proof -
  have i: "gateway_inv P (sy_gateway s)" "gate.good_task P (sy_gateway s) t c p"
    using system_inv_reachable [OF assms(1,2)] assms(3) by (auto simp: system_inv_def)
  from gate.good_task_run [OF i(2,1) assms(4,5)] have "delivered e (sy_gateway s) g"
    by (simp add: guarantees_def)
  then show ?thesis by (simp add: delivered_def)
qed

text \<open>So a change that commits between the answer and the delivery comes too late for that broadcast:
  in a reachable state that is closed to the socket by then, the segment that follows tells it.\<close>

theorem late_revocation_is_told:
  "\<exists>s (p :: unit handler). system_reachable sample_params s \<and> shut tab_window (sy_gateway s)
     \<and> (\<exists>t c. (t, c, p) \<in> set (sy_tasks s) \<and> c (sy_gateway s)) \<and> contents (gw_sent (sy_gateway s)) = []
     \<and> contents (gw_sent (fst (run p (at_time 26) (sy_gateway s))))
         = [(tab, PresenceChanged shop_diagram [participant.truncate tab_participant])]"
proof -
  from broadcast_run obtain s where s: "performs sample_params broadcast_choices joined_system = Some s"
      "length (sy_tasks s) = 2" "known tab_window (sy_gateway s)"
    and r: "case sy_tasks s ! 1 of (t, c, p) \<Rightarrow> c ((sy_gateway s)\<lparr>gw_db := memberless_db\<rparr>)
      \<and> contents (gw_sent (sy_gateway s)) = []
      \<and> contents (gw_sent (fst (run p (at_time 26) ((sy_gateway s)\<lparr>gw_db := memberless_db\<rparr>))))
        = [(tab, PresenceChanged shop_diagram [participant.truncate tab_participant])]"
    by (auto split: option.splits)
  obtain t c p where task: "sy_tasks s ! 1 = (t, c, p)" by (cases "sy_tasks s ! 1")
  let ?s = "s\<lparr>sy_gateway := (sy_gateway s)\<lparr>gw_db := memberless_db\<rparr>\<rparr>"
  have "system_reachable sample_params s" using performs_reachable [OF s(1) joined_reachable] .
  then have "system_reachable sample_params ?s"
    by (rule system_reachable.Step) (intro system_step.Event gateway_event.DatabaseChanges)
  moreover have "(t, c, p) \<in> set (sy_tasks ?s)" using task s(2) nth_mem [of 1 "sy_tasks s"] by simp
  moreover have "shut tab_window (sy_gateway ?s)"
    using s(3) tab_barred by (simp add: shut_def known_def)
  ultimately show ?thesis
    using r task by (intro exI [of _ ?s] exI [of _ p]) auto
qed

text \<open>C39. Sockets with an open transport that are connected never exceed the limit of the server, nor
  those of one session the limit of a session, although handshakes run concurrently and wait for the
  database between the check of the token and the reservation.\<close>

theorem connections_are_bounded:
  assumes "params_ok P" and "system_reachable P s"
  defines "open' \<equiv> {x. sk_connected (clientOf (sy_gateway s) x) \<and> \<not> sk_transportClosed (clientOf (sy_gateway s) x)}"
  shows "finite open' \<and> card open' \<le> cf_maxConnectedSockets P
    \<and> card {x \<in> open'. sk_reservedSession (clientOf (sy_gateway s) x) = Some sid} \<le> cf_maxSocketsPerSession P"
proof -
  let ?g = "sy_gateway s"
  have "reservation_inv P (view ?g)"
    using system_inv_reachable [OF assms(1,2)] by (simp add: system_inv_def gateway_inv_def)
  note i = reservation_invD [OF this, unfolded view_sel]
  have sub: "open' \<subseteq> gw_connectedSocketIds ?g" using i(5,7) by (auto simp: open'_def)
  have "card {x \<in> open'. sk_reservedSession (clientOf ?g x) = Some sid} \<le> cf_maxSocketsPerSession P"
  proof (cases "mapGet (gw_socketIdsBySession ?g) sid")
    case None
    then have none: "{x \<in> open'. sk_reservedSession (clientOf ?g x) = Some sid} = {}" using i(4) by auto
    show ?thesis unfolding none by simp
  next
    case (Some S)
    then have "{x \<in> open'. sk_reservedSession (clientOf ?g x) = Some sid} \<subseteq> S" using i(4) by auto
    with i(3) [OF Some] card_mono [of S] show ?thesis by (meson le_trans)
  qed
  with sub i(1,2) card_mono [of "gw_connectedSocketIds ?g" open'] show ?thesis
    using finite_subset le_trans by blast
qed

theorem connections_are_bounded_witness:
  "finite {x. sk_connected (clientOf joined_gateway x) \<and> \<not> sk_transportClosed (clientOf joined_gateway x)}
   \<and> card {x. sk_connected (clientOf joined_gateway x) \<and> \<not> sk_transportClosed (clientOf joined_gateway x)} \<le> 3
   \<and> sk_connected (clientOf joined_gateway tab)"
  using connections_are_bounded [OF sample_params_ok joined_reachable]
  by (simp add: joined_system_def) (simp add: joined_gateway_def clientOf_def tab_client_def)

text \<open>C40. A request with an acknowledgement is answered exactly once and its handler never throws: however
  the checks, the database and the queues decide, and whatever code that does not use this acknowledgement
  runs at its awaits, a handler that is over has called it with one reply.\<close>

theorem requests_are_answered_once:
  assumes "exec (\<lambda>g1 g2. answersTo a g2 = answersTo a g1) (requestA P x r) g res g'" and "acknowledgement r = Some a"
  shows "res = Inr () \<and> (\<exists>reply. answersTo a g' = answersTo a g @ [reply])"
proof -
  have "others a = (\<lambda>g1 g2. answersTo a g2 = answersTo a g1)" by (simp add: fun_eq_iff others_def)
  with assms request_replies [of a P x r g res g'] show ?thesis by (auto simp: replied_def)
qed

theorem requests_are_answered_once_witness:
  "\<exists>g'. exec (\<lambda>g1 g2. answersTo 7 g2 = answersTo 7 g1) (requestA sample_params tab (Leave (Some 7) (Some shop_diagram)))
     joined_gateway (Inr ()) g' \<and> answersTo 7 g' = [LeaveReply shop_diagram]
     \<and> (\<exists>reply. answersTo 7 g' = answersTo 7 joined_gateway @ [reply])"
proof -
  from leave_run obtain g' where
    g': "alone (\<lambda>_. True) 5 (requestA sample_params tab (Leave (Some 7) (Some shop_diagram))) (at_time 27) joined_gateway = Some (g', Inr ())"
    "answersTo 7 g' = [LeaveReply shop_diagram]" by (auto split: option.splits)
  have e: "exec (\<lambda>g1 g2. answersTo 7 g2 = answersTo 7 g1) (requestA sample_params tab (Leave (Some 7) (Some shop_diagram)))
     joined_gateway (Inr ()) g'" using g'(1) by (rule alone_exec) simp
  from requests_are_answered_once [OF e] have "\<exists>reply. answersTo 7 g' = answersTo 7 joined_gateway @ [reply]" by simp
  with e g'(2) show ?thesis by blast
qed

end
