(* ===== verification/Relational_Names.thy ===== *)
theory Relational_Names
  imports Command_Text
begin

text \<open>
  The names of the relational model, the last part of
  src/src/modules/generation/relational-model/relational-model.transformer.ts: identifiers of PostgreSQL
  and Java derived from the names of a diagram, shortened with a stable hash where they are too long. The
  decomposition of Unicode text (\<open>normalize('NFKD')\<close>), lower casing and the collation of
  \<open>localeCompare\<close> belong to the platform, the argument \<open>p\<close>. Every name is shown to have the
  form its language asks for, within its length, and not to be a reserved word.
\<close>

record platform =
  pl_nfkd :: "jstring \<Rightarrow> jstring"
  pl_lower :: "jstring \<Rightarrow> jstring"
  pl_compare :: "jstring \<Rightarrow> jstring \<Rightarrow> int"

section \<open>Reserved words\<close>

definition JAVA_RESERVED_WORDS :: "string list" where
  "JAVA_RESERVED_WORDS =
    [''abstract'', ''assert'', ''boolean'', ''break'', ''byte'', ''case'', ''catch'', ''char'',
     ''class'', ''const'', ''continue'', ''default'', ''do'', ''double'', ''else'', ''enum'',
     ''extends'', ''final'', ''finally'', ''float'', ''for'', ''goto'', ''if'', ''implements'',
     ''import'', ''instanceof'', ''int'', ''interface'', ''long'', ''native'', ''new'',
     ''package'', ''private'', ''protected'', ''public'', ''return'', ''short'', ''static'',
     ''strictfp'', ''super'', ''switch'', ''synchronized'', ''this'', ''throw'', ''throws'',
     ''transient'', ''try'', ''void'', ''volatile'', ''while'', ''true'', ''false'', ''null'']"

definition POSTGRES_RESERVED_WORDS :: "string list" where
  "POSTGRES_RESERVED_WORDS =
    [''all'', ''analyse'', ''and'', ''any'', ''array'', ''as'', ''asc'', ''authorization'',
     ''between'', ''binary'', ''both'', ''case'', ''cast'', ''check'', ''class'', ''collate'',
     ''column'', ''constraint'', ''create'', ''current_catalog'', ''current_date'',
     ''current_role'', ''current_schema'', ''current_time'', ''current_timestamp'',
     ''current_user'', ''default'', ''deferrable'', ''desc'', ''distinct'', ''do'', ''else'',
     ''end'', ''except'', ''false'', ''fetch'', ''for'', ''foreign'', ''from'', ''grant'',
     ''group'', ''having'', ''in'', ''initially'', ''intersect'', ''into'', ''is'', ''isnull'',
     ''join'', ''leading'', ''limit'', ''localtime'', ''localtimestamp'', ''new'', ''not'',
     ''null'', ''offset'', ''old'', ''on'', ''only'', ''or'', ''order'', ''placing'',
     ''primary'', ''references'', ''returning'', ''select'', ''session_user'', ''some'',
     ''symmetric'', ''table'', ''then'', ''to'', ''trailing'', ''true'', ''union'', ''unique'',
     ''user'', ''using'', ''variadic'', ''verbose'', ''when'', ''where'', ''window'', ''with'']"

definition java_reserved :: "jstring \<Rightarrow> bool" where
  "java_reserved s \<longleftrightarrow> s \<in> set (map js JAVA_RESERVED_WORDS)"

definition postgres_reserved :: "jstring \<Rightarrow> bool" where
  "postgres_reserved s \<longleftrightarrow> s \<in> set (map js POSTGRES_RESERVED_WORDS)"

section \<open>Letters\<close>

definition is_lower_letter :: "16 word \<Rightarrow> bool" where
  "is_lower_letter c \<longleftrightarrow> 0x61 \<le> c \<and> c \<le> 0x7A"

definition is_upper_letter :: "16 word \<Rightarrow> bool" where
  "is_upper_letter c \<longleftrightarrow> 0x41 \<le> c \<and> c \<le> 0x5A"

definition is_alnum :: "16 word \<Rightarrow> bool" where
  "is_alnum c \<longleftrightarrow> is_lower_letter c \<or> is_upper_letter c \<or> is_digit c"

abbreviation underscore :: "16 word" where
  "underscore \<equiv> 0x5F"

text \<open>\<open>toLowerCase\<close> and \<open>toUpperCase\<close> on ASCII text.\<close>

definition ascii_lower :: "16 word \<Rightarrow> 16 word" where
  "ascii_lower c = (if is_upper_letter c then c + 32 else c)"

definition ascii_upper :: "16 word \<Rightarrow> 16 word" where
  "ascii_upper c = (if is_lower_letter c then c - 32 else c)"

section \<open>The hash\<close>

text \<open>The first code unit of every character that \<open>for (const character of value)\<close> yields.\<close>

fun char_units :: "jstring \<Rightarrow> 16 word list" where
  "char_units [] = []"
| "char_units [c] = [c]"
| "char_units (c # d # s) =
     (if is_high_surrogate c \<and> is_low_surrogate d then c # char_units s else c # char_units (d # s))"

text \<open>\<open>Math.imul\<close> and \<open>^\<close> work on 32 bits, and \<open>>>> 0\<close> reads the word as unsigned.\<close>

definition fnv1a :: "jstring \<Rightarrow> 32 word" where
  "fnv1a s = foldl (\<lambda>h c. xor h (ucast c) * 16777619) 2166136261 (char_units s)"

text \<open>\<open>n.toString(16)\<close> of a number that is not negative.\<close>

function show_hex :: "int \<Rightarrow> jstring" where
  "show_hex n = (if n < 16 then [hex_unit (nat n)] else show_hex (n div 16) @ [hex_unit (nat (n mod 16))])"
  by pat_completeness auto
termination
  by (relation "measure nat") auto

declare show_hex.simps [simp del]

definition js_padStart :: "nat \<Rightarrow> 16 word \<Rightarrow> jstring \<Rightarrow> jstring" where
  "js_padStart k c s = replicate (k - length s) c @ s"

definition shortStableHash :: "jstring \<Rightarrow> jstring" where
  "shortStableHash s = js_padStart 8 (digit_unit 0) (show_hex (uint (fnv1a s)))"

text \<open>\<open>hashInput\<close> is the value itself unless it is given.\<close>

definition truncateIdentifier :: "jstring \<Rightarrow> jstring \<Rightarrow> jstring" where
  "truncateIdentifier s hashInput =
     (if length s \<le> 63 then s else take 54 s @ [underscore] @ shortStableHash hashInput)"

definition appendStableHash :: "jstring \<Rightarrow> jstring \<Rightarrow> jstring" where
  "appendStableHash s discriminator =
     (let t = s @ [underscore] @ shortStableHash discriminator in truncateIdentifier t t)"

definition appendStableJavaNameHash :: "jstring \<Rightarrow> jstring \<Rightarrow> jstring" where
  "appendStableJavaNameHash s discriminator =
     (let suffix = underscore # shortStableHash discriminator
      in take (160 - length suffix) s @ suffix)"

definition artifactId :: "jstring \<Rightarrow> jstring" where
  "artifactId s = (if length s \<le> 160 then s
     else (let hash = shortStableHash s in take (160 - length hash - 1) s @ [underscore] @ hash))"

definition boundedLogicalName :: "jstring \<Rightarrow> jstring" where
  "boundedLogicalName s = (if length s \<le> 240 then s
     else (let suffix = underscore # shortStableHash s in take (240 - length suffix) s @ suffix))"

section \<open>Identifiers\<close>

text \<open>The regular expressions in the order they are applied: \<open>([a-z0-9])([A-Z])\<close> and
  \<open>([A-Z]+)([A-Z][a-z])\<close> set an underscore between their groups, \<open>[^A-Za-z0-9]+\<close> becomes one
  underscore, \<open>^_+|_+$\<close> is removed.\<close>

fun word_breaks :: "jstring \<Rightarrow> jstring" where
  "word_breaks (c # d # s) =
     (if (is_lower_letter c \<or> is_digit c) \<and> is_upper_letter d then c # underscore # d # word_breaks s
      else c # word_breaks (d # s))"
| "word_breaks s = s"

function acronym_breaks :: "jstring \<Rightarrow> jstring" where
  "acronym_breaks [] = []"
| "acronym_breaks (c # s) =
     (let run = takeWhile is_upper_letter (c # s); rest = dropWhile is_upper_letter (c # s)
      in if 2 \<le> length run \<and> rest \<noteq> [] \<and> is_lower_letter (hd rest)
         then butlast run @ [underscore, last run, hd rest] @ acronym_breaks (tl rest)
         else c # acronym_breaks s)"
  by pat_completeness auto
termination
  by (relation "measure length") (auto simp: less_Suc_eq_le intro: le_trans [OF diff_le_self length_dropWhile_le])

function squeeze :: "jstring \<Rightarrow> jstring" where
  "squeeze [] = []"
| "squeeze (c # s) = (if is_alnum c then c # squeeze s
     else underscore # squeeze (dropWhile (\<lambda>d. \<not> is_alnum d) s))"
  by pat_completeness auto
termination
  by (relation "measure length") (auto simp: less_Suc_eq_le length_dropWhile_le)

definition strip_underscores :: "jstring \<Rightarrow> jstring" where
  "strip_underscores s =
     rev (dropWhile (\<lambda>c. c = underscore) (rev (dropWhile (\<lambda>c. c = underscore) s)))"

definition snake :: "platform \<Rightarrow> jstring \<Rightarrow> jstring" where
  "snake p s =
     (let ascii = filter (\<lambda>c. \<not> (0x300 \<le> c \<and> c \<le> 0x36F)) (pl_nfkd p s)
      in map ascii_lower (strip_underscores (squeeze (acronym_breaks (word_breaks ascii)))))"

definition toPhysicalName :: "platform \<Rightarrow> jstring \<Rightarrow> jstring" where
  "toPhysicalName p s =
     (let normalized = (if snake p s = [] then js ''unnamed'' else snake p s);
          identifier = (if is_lower_letter (hd normalized) then normalized else js ''n_'' @ normalized);
          name = (if postgres_reserved identifier then identifier @ [underscore] else identifier)
      in truncateIdentifier name name)"

definition constraintName :: "platform \<Rightarrow> jstring \<Rightarrow> jstring" where
  "constraintName p s = toPhysicalName p s"

text \<open>\<open>.split('_').filter(Boolean)\<close>, and a part with its first letter in upper case.\<close>

definition name_parts :: "jstring \<Rightarrow> jstring list" where
  "name_parts s = filter (\<lambda>part. part \<noteq> []) (js_split s [underscore])"

definition capitalize :: "jstring \<Rightarrow> jstring" where
  "capitalize s = (case s of [] \<Rightarrow> [] | c # cs \<Rightarrow> ascii_upper c # cs)"

definition toJavaPropertyName :: "platform \<Rightarrow> jstring \<Rightarrow> jstring" where
  "toJavaPropertyName p s =
     (let result = (case name_parts (toPhysicalName p s) of [] \<Rightarrow> js ''value''
            | first # parts \<Rightarrow> first @ concat (map capitalize parts));
          safeResult = (if java_reserved result then result @ js ''Value'' else result)
      in if is_lower_letter (hd safeResult) \<or> is_upper_letter (hd safeResult)
            \<or> hd safeResult \<in> {underscore, 0x24}
         then safeResult else js ''value'' @ safeResult)"

definition toJavaTypeName :: "platform \<Rightarrow> jstring \<Rightarrow> jstring" where
  "toJavaTypeName p s =
     (let result = concat (map capitalize (name_parts (toPhysicalName p s)))
      in if result \<noteq> [] \<and> is_upper_letter (hd result) then result else js ''Type'' @ result)"

text \<open>The name of a column that refers to another table; \<open>replace(/_+$/g, '')\<close> first.\<close>

definition referenceColumnPhysicalName :: "platform \<Rightarrow> jstring \<Rightarrow> jstring" where
  "referenceColumnPhysicalName p s =
     (let base = rev (dropWhile (\<lambda>c. c = underscore) (rev (toPhysicalName p s))) @ js ''_id''
      in truncateIdentifier base (s @ js ''_id''))"

section \<open>The form of the names\<close>

definition physical_char :: "16 word \<Rightarrow> bool" where
  "physical_char c \<longleftrightarrow> is_lower_letter c \<or> is_digit c \<or> c = underscore"

text \<open>The patterns \<open>^[a-z][a-z0-9_]{0,62}$\<close>, \<open>^[A-Za-z_$][A-Za-z0-9_$]{0,159}$\<close> and
  \<open>^[A-Z][A-Za-z0-9_$]{0,159}$\<close> of the contract; no dollar is ever generated.\<close>

definition is_physical_name :: "jstring \<Rightarrow> bool" where
  "is_physical_name s \<longleftrightarrow> s \<noteq> [] \<and> is_lower_letter (hd s) \<and> list_all physical_char s \<and> length s \<le> 63"

definition java_char :: "16 word \<Rightarrow> bool" where
  "java_char c \<longleftrightarrow> is_alnum c \<or> c = underscore"

definition is_java_property :: "jstring \<Rightarrow> bool" where
  "is_java_property s \<longleftrightarrow> s \<noteq> [] \<and> is_lower_letter (hd s) \<and> list_all java_char s \<and> length s \<le> 160"

definition is_java_type_name :: "jstring \<Rightarrow> bool" where
  "is_java_type_name s \<longleftrightarrow> s \<noteq> [] \<and> is_upper_letter (hd s) \<and> list_all java_char s \<and> length s \<le> 160"

lemma letter_disjoint [simp]:
  "\<not> is_lower_letter underscore" "\<not> is_upper_letter underscore" "\<not> is_digit underscore"
  "\<not> is_alnum underscore" "physical_char underscore" "java_char underscore"
  by (simp_all add: is_lower_letter_def is_upper_letter_def is_digit_def is_alnum_def physical_char_def
      java_char_def)

lemma upper_not_lower: "is_upper_letter c \<Longrightarrow> \<not> is_lower_letter c"
  by (auto simp: is_lower_letter_def is_upper_letter_def word_le_nat_alt)

lemma upper_not_digit: "is_upper_letter c \<Longrightarrow> \<not> is_digit c"
  by (auto simp: is_digit_def is_upper_letter_def word_le_nat_alt)

lemma lower_not_digit: "is_lower_letter c \<Longrightarrow> \<not> is_digit c"
  by (auto simp: is_digit_def is_lower_letter_def word_le_nat_alt)

lemma is_lower_letter_ascii_lower: "is_upper_letter c \<Longrightarrow> is_lower_letter (c + 32)"
  by (auto simp: is_lower_letter_def is_upper_letter_def word_le_nat_alt unat_word_ariths)

lemma is_upper_letter_ascii_upper: "is_lower_letter c \<Longrightarrow> is_upper_letter (c - 32)"
  by (auto simp: is_lower_letter_def is_upper_letter_def word_le_nat_alt unat_sub_if')

lemma ascii_lower_char: "is_alnum c \<or> c = underscore \<Longrightarrow> physical_char (ascii_lower c)"
  by (auto simp: ascii_lower_def physical_char_def is_alnum_def is_lower_letter_ascii_lower)

lemma ascii_upper_char: "physical_char c \<Longrightarrow> java_char (ascii_upper c)"
  by (auto simp: ascii_upper_def physical_char_def java_char_def is_alnum_def is_upper_letter_ascii_upper)

lemma physical_java_char: "physical_char c \<Longrightarrow> java_char c"
  by (auto simp: physical_char_def java_char_def is_alnum_def)

subsection \<open>The hash\<close>

lemma hex_unit_char: "d < 16 \<Longrightarrow> physical_char (hex_unit d) \<and> hex_unit d \<noteq> underscore"
proof -
  have "\<forall>d\<in>set [0..<16]. physical_char (hex_unit d) \<and> hex_unit d \<noteq> underscore"
    by (simp add: upt_rec hex_unit_def physical_char_def is_lower_letter_def is_digit_def)
  then show "d < 16 \<Longrightarrow> physical_char (hex_unit d) \<and> hex_unit d \<noteq> underscore" by simp
qed

lemma show_hex_chars: "c \<in> set (show_hex n) \<Longrightarrow> physical_char c \<and> c \<noteq> underscore"
proof (induction n rule: show_hex.induct)
  case (1 n)
  have digit: "nat (n mod 16) < 16" by (simp add: nat_less_iff)
  show ?case
  proof (cases "n < 16")
    case True
    then have "nat n < 16" by simp
    with True "1.prems" show ?thesis by (simp add: show_hex.simps [of n] hex_unit_char)
  next
    case False
    with "1.prems" "1.IH" digit show ?thesis by (auto simp: show_hex.simps [of n] hex_unit_char)
  qed
qed

lemma length_show_hex: "0 < k \<Longrightarrow> n < 16 ^ k \<Longrightarrow> length (show_hex n) \<le> k"
proof (induction n arbitrary: k rule: show_hex.induct)
  case (1 n)
  show ?case
  proof (cases "n < 16")
    case True
    with "1.prems" show ?thesis by (simp add: show_hex.simps [of n])
  next
    case False
    with "1.prems" obtain j where k: "k = Suc j" "0 < j"
      by (cases k; cases "k - 1") auto
    have "m < 16 * y \<Longrightarrow> m div 16 < y" for m y :: int by presburger
    with "1.prems" k have "n div 16 < 16 ^ j" by simp
    with "1.IH" [OF False, of j] k False show ?thesis
      by (simp add: show_hex.simps [of n])
  qed
qed

lemma length_hash [simp]: "length (shortStableHash s) = 8"
proof -
  have "uint (fnv1a s) < 2 ^ LENGTH(32)" by (rule unsigned_less)
  then have "uint (fnv1a s) < 16 ^ 8" by simp
  then have "length (show_hex (uint (fnv1a s))) \<le> 8"
    by (intro length_show_hex) simp_all
  then show ?thesis by (simp add: shortStableHash_def js_padStart_def)
qed

lemma hash_chars:
  "c \<in> set (shortStableHash s) \<Longrightarrow> physical_char c \<and> c \<noteq> underscore"
  by (auto simp: shortStableHash_def js_padStart_def physical_char_def is_digit_digit_unit
      dest!: show_hex_chars) (simp_all add: digit_unit_def)

lemma hash_physical: "list_all physical_char (shortStableHash s)"
  by (auto simp: list_all_iff dest: hash_chars)

subsection \<open>Bounded texts\<close>

lemma length_artifactId: "length (artifactId s) \<le> 160"
  by (simp add: artifactId_def Let_def)

lemma length_boundedLogicalName: "length (boundedLogicalName s) \<le> 240"
  by (simp add: boundedLogicalName_def Let_def)

lemma length_truncateIdentifier: "length (truncateIdentifier s h) \<le> 63"
  by (simp add: truncateIdentifier_def)

lemma truncateIdentifier_physical:
  assumes "s \<noteq> []" "is_lower_letter (hd s)" "list_all physical_char s"
  shows "is_physical_name (truncateIdentifier s h)"
  using assms
  by (auto simp: is_physical_name_def truncateIdentifier_def list_all_iff hd_append
      dest: in_set_takeD hash_chars)

lemma appendStableHash_physical:
  "is_physical_name s \<Longrightarrow> is_physical_name (appendStableHash s d)"
  unfolding appendStableHash_def Let_def
  by (rule truncateIdentifier_physical)
    (auto simp: is_physical_name_def hash_physical)

lemma appendStableJavaNameHash_property:
  "is_java_property s \<Longrightarrow> is_java_property (appendStableJavaNameHash s d)"
  by (auto simp: is_java_property_def appendStableJavaNameHash_def Let_def list_all_iff hd_append hd_conv_nth
      dest!: in_set_takeD hash_chars intro: physical_java_char)

lemma appendStableJavaNameHash_type:
  "is_java_type_name s \<Longrightarrow> is_java_type_name (appendStableJavaNameHash s d)"
  by (auto simp: is_java_type_name_def appendStableJavaNameHash_def Let_def list_all_iff hd_append hd_conv_nth
      dest!: in_set_takeD hash_chars intro: physical_java_char)

subsection \<open>Identifiers\<close>

lemma squeeze_chars: "c \<in> set (squeeze s) \<Longrightarrow> is_alnum c \<or> c = underscore"
  by (induction s rule: squeeze.induct) (auto split: if_splits)

lemma strip_underscores_subset: "set (strip_underscores s) \<subseteq> set s"
  by (auto simp: strip_underscores_def dest!: set_dropWhileD)

lemma last_strip_underscores: "strip_underscores s \<noteq> [] \<Longrightarrow> last (strip_underscores s) \<noteq> underscore"
  unfolding strip_underscores_def last_rev
  by (metis (mono_tags, lifting) hd_dropWhile rev_is_Nil_conv hd_rev last_rev)

lemma ascii_lower_underscore: "ascii_lower c = underscore \<longleftrightarrow> c = underscore"
  using is_lower_letter_ascii_lower [of c] by (auto simp: ascii_lower_def)

lemma snake_chars: "list_all physical_char (snake p s)"
  unfolding snake_def Let_def list_all_iff
  by (auto dest!: subsetD [OF strip_underscores_subset] squeeze_chars intro: ascii_lower_char)

lemma last_snake: "snake p s \<noteq> [] \<Longrightarrow> last (snake p s) \<noteq> underscore"
  unfolding snake_def Let_def
  by (simp add: last_map ascii_lower_underscore last_strip_underscores)

text \<open>The text before it is shortened, without the underscore after a reserved word.\<close>

definition name_stem :: "platform \<Rightarrow> jstring \<Rightarrow> jstring" where
  "name_stem p s =
     (let normalized = (if snake p s = [] then js ''unnamed'' else snake p s)
      in if is_lower_letter (hd normalized) then normalized else js ''n_'' @ normalized)"

lemma js_literal_chars [simp]:
  "is_lower_letter (hd (js ''unnamed''))" "list_all physical_char (js ''unnamed'')"
  "is_lower_letter (hd (js ''n_''))" "list_all physical_char (js ''n_'')"
  "list_all physical_char (js ''_id'')" "last (js ''unnamed'') \<noteq> underscore"
  by (simp_all add: js_def is_lower_letter_def physical_char_def is_digit_def)

lemma name_stem_physical:
  "name_stem p s \<noteq> []" "is_lower_letter (hd (name_stem p s))" "list_all physical_char (name_stem p s)"
  "last (name_stem p s) \<noteq> underscore"
  using snake_chars [of p s] last_snake [of p s] by (auto simp: name_stem_def Let_def)

lemma toPhysicalName_stem:
  "toPhysicalName p s = (let stem = name_stem p s;
     name = (if postgres_reserved stem then stem @ [underscore] else stem) in truncateIdentifier name name)"
  by (simp add: toPhysicalName_def name_stem_def Let_def)

lemma toPhysicalName_physical: "is_physical_name (toPhysicalName p s)"
  unfolding toPhysicalName_stem Let_def
  using name_stem_physical [of p s] by (intro truncateIdentifier_physical) auto

subsection \<open>Reserved words\<close>

definition lower_word :: "string \<Rightarrow> bool" where
  "lower_word w \<longleftrightarrow> w \<noteq> [] \<and> list_all (\<lambda>c. c \<in> set ''abcdefghijklmnopqrstuvwxyz'') w"

lemma java_words_lower: "list_all lower_word JAVA_RESERVED_WORDS"
  by code_simp

text \<open>No reserved word of PostgreSQL is longer than seventeen characters, ends in an underscore or in
  \<open>_id\<close>, or has an underscore before its last eight characters.\<close>

definition hash_free :: "string \<Rightarrow> bool" where
  "hash_free w \<longleftrightarrow> length w \<le> 17 \<and> last w \<noteq> CHR ''_'' \<and> (length w < 9 \<or> w ! (length w - 9) \<noteq> CHR ''_'')
     \<and> drop (length w - 3) w \<noteq> ''_id''"

lemma postgres_words_hash_free: "list_all hash_free POSTGRES_RESERVED_WORDS"
  by code_simp

lemma js_underscore: "(of_nat (of_char c) :: 16 word) = underscore \<longleftrightarrow> c = CHR ''_''"
  using js_char_inj [of c "CHR ''_''"] by simp

lemma lower_word_chars: "lower_word w \<Longrightarrow> c \<in> set (js w) \<Longrightarrow> is_lower_letter c"
  by (auto simp: lower_word_def list_all_iff js_def is_lower_letter_def dest!: bspec)

lemma java_reserved_lower: "java_reserved s \<Longrightarrow> c \<in> set s \<Longrightarrow> is_lower_letter c"
  using java_words_lower by (auto simp: java_reserved_def list_all_iff intro: lower_word_chars)

lemma postgres_reserved_hash_free:
  assumes "postgres_reserved s"
  shows "length s \<le> 17" "s = t @ [underscore] \<Longrightarrow> False" "s = u @ underscore # h \<Longrightarrow> length h = 8 \<Longrightarrow> False"
    "s = v @ js ''_id'' \<Longrightarrow> False"
proof -
  obtain w where w: "s = js w" "hash_free w"
    using assms postgres_words_hash_free by (auto simp: postgres_reserved_def list_all_iff)
  then show "length s \<le> 17" by (simp add: js_def hash_free_def)
  have nth: "s ! i = underscore \<longleftrightarrow> w ! i = CHR ''_''" if "i < length w" for i
    using that by (simp add: w js_def js_underscore)
  have len: "length s = length w" by (simp add: w js_def)
  show False if "s = t @ [underscore]"
    using that w(2) nth [of "length t"] len by (cases w rule: rev_cases) (auto simp: hash_free_def nth_append)
  show False if "s = u @ underscore # h" "length h = 8"
  proof -
    have "length w - 9 = length u" "length w = length u + 9" using that len by auto
    with that w(2) nth [of "length u"] show False by (simp add: hash_free_def)
  qed
  show False if "s = v @ js ''_id''"
  proof -
    have "drop (length s - 3) s = js ''_id''" using that by (simp add: js_def)
    then have "js (drop (length w - 3) w) = js ''_id''" by (simp add: w js_def drop_map)
    with w(2) show False by (simp add: hash_free_def)
  qed
qed

text \<open>A name of a column or table: an identifier of PostgreSQL that is not reserved.\<close>

definition physical_name :: "jstring \<Rightarrow> bool" where
  "physical_name s \<longleftrightarrow> is_physical_name s \<and> \<not> postgres_reserved s"

lemma truncated_not_reserved:
  "\<not> postgres_reserved s \<Longrightarrow> \<not> postgres_reserved (truncateIdentifier s h)"
  using postgres_reserved_hash_free(1) [of "truncateIdentifier s h"]
  by (auto simp: truncateIdentifier_def)

lemma toPhysicalName_name: "physical_name (toPhysicalName p s)"
  unfolding physical_name_def toPhysicalName_stem Let_def
  using toPhysicalName_physical [of p s, unfolded toPhysicalName_stem Let_def]
    postgres_reserved_hash_free(2) [of "name_stem p s @ [underscore]"]
  by (auto intro!: truncated_not_reserved)

lemma appendStableHash_name: "physical_name s \<Longrightarrow> physical_name (appendStableHash s d)"
  unfolding physical_name_def
  using appendStableHash_physical [of s d]
    postgres_reserved_hash_free(3) [of "s @ [underscore] @ shortStableHash d" s "shortStableHash d"]
  by (auto simp: appendStableHash_def Let_def intro!: truncated_not_reserved)

lemma referenceColumnPhysicalName_name: "physical_name (referenceColumnPhysicalName p s)"
proof -
  define t where "t = rev (dropWhile (\<lambda>c. c = underscore) (rev (toPhysicalName p s)))"
  define u where "u = rev (takeWhile (\<lambda>c. c = underscore) (rev (toPhysicalName p s)))"
  have phys: "is_physical_name (toPhysicalName p s)" by (rule toPhysicalName_physical)
  have split: "toPhysicalName p s = t @ u"
    unfolding t_def u_def rev_append [symmetric] by simp
  have u: "c = underscore" if "c \<in> set u" for c
    using that by (auto simp: u_def dest: set_takeWhileD)
  have "t \<noteq> []"
  proof
    assume "t = []"
    then have "hd (toPhysicalName p s) \<in> set u"
      using phys split by (simp add: is_physical_name_def)
    then have "hd (toPhysicalName p s) = underscore" by (rule u)
    then show False using phys by (simp add: is_physical_name_def)
  qed
  then have t: "list_all physical_char t" "t \<noteq> []" "hd t = hd (toPhysicalName p s)"
    using phys split by (simp_all add: is_physical_name_def)
  have "is_physical_name (truncateIdentifier (t @ js ''_id'') (s @ js ''_id''))"
    using t phys by (intro truncateIdentifier_physical) (simp_all add: is_physical_name_def)
  moreover have "\<not> postgres_reserved (truncateIdentifier (t @ js ''_id'') (s @ js ''_id''))"
    by (intro truncated_not_reserved notI) (erule postgres_reserved_hash_free(4), rule refl)
  ultimately show ?thesis
    by (simp add: physical_name_def referenceColumnPhysicalName_def Let_def t_def [symmetric])
qed

subsection \<open>Java names\<close>

lemma concat_split_loop: "concat (split_loop [u] acc s) = rev acc @ filter (\<lambda>c. c \<noteq> u) s"
  by (induction s arbitrary: acc) auto

lemma concat_name_parts: "concat (name_parts s) = filter (\<lambda>c. c \<noteq> underscore) s"
proof -
  have "concat (filter (\<lambda>part. part \<noteq> []) xss) = concat xss" for xss :: "jstring list"
    by (induction xss) auto
  then show ?thesis
    by (simp add: name_parts_def js_split_def concat_split_loop)
qed

lemma length_capitalize [simp]: "length (capitalize s) = length s"
  by (simp add: capitalize_def split: list.split)

lemma capitalize_chars: "list_all physical_char s \<Longrightarrow> list_all java_char (capitalize s)"
  by (auto simp: capitalize_def list_all_iff ascii_upper_char physical_java_char split: list.split)

lemma length_concat_capitalize [simp]:
  "length (concat (map capitalize parts)) = length (concat parts)"
  by (simp add: length_concat comp_def)

lemma concat_capitalize_chars:
  "list_all physical_char (concat parts) \<Longrightarrow> list_all java_char (concat (map capitalize parts))"
  by (induction parts) (auto simp: capitalize_chars)

lemma name_parts_physical:
  assumes "is_physical_name s"
  obtains first parts where "name_parts s = first # parts" "first \<noteq> []" "hd first = hd s"
    "list_all physical_char (concat (first # parts))" "length (concat (first # parts)) \<le> 63"
proof -
  have eq: "concat (name_parts s) = filter (\<lambda>c. c \<noteq> underscore) s" by (rule concat_name_parts)
  obtain c cs where s: "s = c # cs" "is_lower_letter c" "list_all physical_char s" "length s \<le> 63"
    using assms by (cases s) (auto simp: is_physical_name_def)
  then have hd: "concat (name_parts s) = c # filter (\<lambda>c. c \<noteq> underscore) cs"
    unfolding eq by auto
  then obtain first parts where parts: "name_parts s = first # parts"
    by (cases "name_parts s") auto
  have "first \<in> set (name_parts s)" by (simp add: parts)
  then have first: "first \<noteq> []" by (simp add: name_parts_def)
  show thesis
  proof (rule that [OF parts first])
    have "hd (concat (name_parts s)) = c" unfolding hd by simp
    then have "hd first = c" using first by (simp add: parts)
    then show "hd first = hd s" by (simp add: s(1))
    have chars: "list_all physical_char (concat (name_parts s))"
      unfolding eq using s(3) by (auto simp: list_all_iff)
    have "length (concat (name_parts s)) \<le> 63"
      unfolding eq by (rule le_trans [OF length_filter_le s(4)])
    with chars show "list_all physical_char (concat (first # parts))" "length (concat (first # parts)) \<le> 63"
      by (simp_all only: parts)
  qed
qed

text \<open>A property name is short enough for the suffix \<open>Id\<close> of a relationship column.\<close>

definition java_property :: "jstring \<Rightarrow> bool" where
  "java_property s \<longleftrightarrow> is_java_property s \<and> \<not> java_reserved s"

lemma js_java_literals [simp]:
  "list_all java_char (js ''Value'')" "list_all java_char (js ''Id'')" "length (js s) = length s"
  "is_java_property (js ''ownerId'')" "is_java_property (js ''value'')" "is_java_property (js ''id'')"
  by (simp_all add: js_def java_char_def is_alnum_def is_lower_letter_def is_upper_letter_def is_java_property_def)

lemma not_reserved_with: "c \<in> set s \<Longrightarrow> \<not> is_lower_letter c \<Longrightarrow> \<not> java_reserved s"
  by (auto dest: java_reserved_lower)

lemma not_reserved_Value: "\<not> java_reserved (s @ js ''Value'')"
  by (rule not_reserved_with [of "0x56"]) (simp_all add: js_def is_lower_letter_def)

lemma not_reserved_Id: "\<not> java_reserved (s @ js ''Id'')"
  by (rule not_reserved_with [of "0x49"]) (simp_all add: js_def is_lower_letter_def)

lemma not_reserved_underscore: "\<not> java_reserved (s @ underscore # h)"
  by (rule not_reserved_with [of underscore]) simp_all

lemma toJavaPropertyName_property:
  "java_property (toJavaPropertyName p s)" "length (toJavaPropertyName p s) \<le> 68"
proof -
  obtain first parts where parts: "name_parts (toPhysicalName p s) = first # parts" "first \<noteq> []"
      "hd first = hd (toPhysicalName p s)" "list_all physical_char (concat (first # parts))"
      "length (concat (first # parts)) \<le> 63"
    using name_parts_physical [OF toPhysicalName_physical] .
  let ?r = "first @ concat (map capitalize parts)"
  have lower: "is_lower_letter (hd ?r)" "?r \<noteq> []"
    using parts toPhysicalName_physical [of p s] by (auto simp: is_physical_name_def)
  have chars: "list_all java_char ?r"
    using parts(4) concat_capitalize_chars [of parts] by (auto simp: list_all_iff physical_java_char)
  have len: "length ?r \<le> 63" using parts(5) by (simp add: length_concat comp_def)
  have name: "toJavaPropertyName p s = (if java_reserved ?r then ?r @ js ''Value'' else ?r)"
    using lower by (auto simp: toJavaPropertyName_def Let_def parts(1) hd_append)
  show "length (toJavaPropertyName p s) \<le> 68" using len unfolding name by simp
  show "java_property (toJavaPropertyName p s)"
    using lower chars len not_reserved_Value [of ?r]
    unfolding name java_property_def is_java_property_def by (auto simp: hd_append)
qed

lemma java_property_Id: "java_property (toJavaPropertyName p s @ js ''Id'')"
  using toJavaPropertyName_property [of p s] not_reserved_Id
  by (auto simp: java_property_def is_java_property_def)

lemma appendStableJavaNameHash_java_property:
  "java_property s \<Longrightarrow> java_property (appendStableJavaNameHash s d)"
  using appendStableJavaNameHash_property [of s d] not_reserved_underscore
  by (auto simp: java_property_def appendStableJavaNameHash_def Let_def)

lemma toJavaTypeName_type: "is_java_type_name (toJavaTypeName p s)"
proof -
  obtain first parts where parts: "name_parts (toPhysicalName p s) = first # parts" "first \<noteq> []"
      "hd first = hd (toPhysicalName p s)" "list_all physical_char (concat (first # parts))"
      "length (concat (first # parts)) \<le> 63"
    using name_parts_physical [OF toPhysicalName_physical] .
  let ?r = "concat (map capitalize (first # parts))"
  obtain c cs where first: "first = c # cs" using parts(2) by (cases first) auto
  have "is_lower_letter c" using parts(3) toPhysicalName_physical [of p s] first
    by (simp add: is_physical_name_def)
  then have "is_upper_letter (hd ?r)" "?r \<noteq> []"
    by (auto simp: first capitalize_def ascii_upper_def is_upper_letter_ascii_upper)
  moreover have "list_all java_char ?r" by (rule concat_capitalize_chars [OF parts(4)])
  moreover have "length ?r \<le> 160" using parts(5) by (simp only: length_concat_capitalize)
  ultimately show ?thesis
    by (simp add: toJavaTypeName_def Let_def parts(1) is_java_type_name_def)
qed

end
