(* ===== verification/Relational_Model.thy ===== *)
theory Relational_Model
  imports Relational_Names Canonical_Validation
begin

text \<open>
  The relational model of src/src/modules/generation/relational-model/relational-model.types.ts and the
  class \<open>BuildState\<close> of relational-model.transformer.ts that collects it. A table is an object that
  several maps hold and that grows after it was added, so it is stored once, under its identifier, and a
  reference to it is that identifier; \<open>addTable\<close> refuses a second table with the same identifier. A
  computation (\<open>'a build\<close>) takes the state and gives a value with the next state, or what it throws.
\<close>

section \<open>The model\<close>

datatype severity = ErrorSeverity | WarningSeverity | InfoSeverity

record relational_diagnostic =
  rd_severity :: severity
  rd_code :: jstring
  rd_message :: jstring
  rd_path :: "jstring option"
  rd_sourceIds :: "jstring list option"

record traceability =
  tc_sourceIds :: "jstring list"
  tc_sourcePaths :: "jstring list"
  tc_rule :: jstring

text \<open>\<open>generated\<close> is present or not; its only value is \<open>UUID\<close>.\<close>

record relational_column =
  co_id :: jstring
  co_logicalName :: jstring
  co_physicalName :: jstring
  co_javaPropertyName :: jstring
  co_javaType :: jstring
  co_postgresType :: jstring
  co_umlType :: jstring
  co_nullable :: bool
  co_primaryKey :: bool
  co_generated :: bool
  co_defaultValue :: "jstring option"
  co_source :: traceability

text \<open>A primary key and a unique constraint have the same fields.\<close>

record relational_key =
  ky_id :: jstring
  ky_physicalName :: jstring
  ky_columnIds :: "jstring list"
  ky_source :: traceability

datatype on_delete = NO_ACTION | CASCADE | SET_NULL

record foreign_key =
  fk_id :: jstring
  fk_physicalName :: jstring
  fk_columnIds :: "jstring list"
  fk_referencedTableId :: jstring
  fk_referencedColumnIds :: "jstring list"
  fk_sourceMultiplicity :: "jstring option"
  fk_targetMultiplicity :: "jstring option"
  fk_onDelete :: on_delete
  fk_source :: traceability

datatype inheritance_role = RootRole | SubclassRole

record relational_inheritance =
  ih_role :: inheritance_role
  ih_parentTableId :: "jstring option"
  ih_parentColumnIds :: "jstring list option"
  ih_source :: traceability

datatype table_kind = EntityTable | JoinTable | AssociationClassTable | CollectionTable

record relational_table =
  tb_id :: jstring
  tb_logicalName :: jstring
  tb_physicalName :: jstring
  tb_javaEntityName :: jstring
  tb_kind :: table_kind
  tb_isAbstract :: "bool option"
  tb_sourceClassifierId :: "jstring option"
  tb_sourceRelationshipId :: "jstring option"
  tb_columns :: "relational_column list"
  tb_primaryKey :: relational_key
  tb_foreignKeys :: "foreign_key list"
  tb_uniqueConstraints :: "relational_key list"
  tb_inheritance :: "relational_inheritance option"
  tb_source :: traceability

text \<open>The schema versions and the conventions are constants.\<close>

record relational_model =
  rm_projectId :: jstring
  rm_projectName :: jstring
  rm_tables :: "relational_table list"
  rm_diagnostics :: "relational_diagnostic list"

section \<open>Sorting\<close>

text \<open>\<open>toSorted\<close> is stable, so for a consistent comparison its result is that of inserting each value
  before the first one that is not smaller.\<close>

fun insertSorted :: "('a \<Rightarrow> 'a \<Rightarrow> int) \<Rightarrow> 'a \<Rightarrow> 'a list \<Rightarrow> 'a list" where
  "insertSorted cmp x [] = [x]"
| "insertSorted cmp x (y # ys) = (if cmp x y \<le> 0 then x # y # ys else y # insertSorted cmp x ys)"

definition toSorted :: "('a \<Rightarrow> 'a \<Rightarrow> int) \<Rightarrow> 'a list \<Rightarrow> 'a list" where
  "toSorted cmp xs = foldr (insertSorted cmp) xs []"

definition byKey :: "('k \<Rightarrow> 'k \<Rightarrow> int) \<Rightarrow> ('a \<Rightarrow> 'k) \<Rightarrow> 'a \<Rightarrow> 'a \<Rightarrow> int" where
  "byKey cmp f x y = cmp (f x) (f y)"

text \<open>\<open>toSorted()\<close> without a comparison: by code units.\<close>

fun compareUnits :: "jstring \<Rightarrow> jstring \<Rightarrow> int" where
  "compareUnits [] [] = 0"
| "compareUnits [] (d # t) = -1"
| "compareUnits (c # s) [] = 1"
| "compareUnits (c # s) (d # t) = (if c < d then -1 else if d < c then 1 else compareUnits s t)"

text \<open>\<open>[...new Set(values)]\<close> keeps the first of equal values.\<close>

definition unique :: "'a list \<Rightarrow> 'a list" where
  "unique xs = rev (remdups (rev xs))"

definition uniqueSorted :: "platform \<Rightarrow> jstring list \<Rightarrow> jstring list" where
  "uniqueSorted p xs = toSorted (pl_compare p) (unique xs)"

definition trace :: "platform \<Rightarrow> jstring list \<Rightarrow> jstring list \<Rightarrow> jstring \<Rightarrow> traceability" where
  "trace p sourceIds sourcePaths rule = \<lparr>tc_sourceIds = uniqueSorted p sourceIds,
     tc_sourcePaths = uniqueSorted p sourcePaths, tc_rule = rule\<rparr>"

section \<open>The state\<close>

record build_state =
  bs_canonical :: canonical_model
  bs_classifiers :: "(jstring, uml_classifier) jmap"
  bs_classifierTables :: "(jstring, jstring) jmap"
  bs_tables :: "(jstring, relational_table) jmap"
  bs_tableNameOwners :: "(jstring, jstring) jmap"
  bs_javaEntityNameOwners :: "(jstring, jstring) jmap"
  bs_diagnostics :: "relational_diagnostic list"

text \<open>The text of an optional property where it is known to be there.\<close>

definition textOf :: "jstring option \<Rightarrow> jstring" where
  "textOf s = (case s of None \<Rightarrow> [] | Some t \<Rightarrow> t)"

definition initial_state :: "canonical_model \<Rightarrow> build_state" where
  "initial_state c = \<lparr>bs_canonical = c, bs_classifiers = elementsById (dg_elements (cm_diagram c)),
     bs_classifierTables = [], bs_tables = [], bs_tableNameOwners = [], bs_javaEntityNameOwners = [],
     bs_diagnostics = []\<rparr>"

text \<open>What is thrown: a \<open>RelationalModelGenerationError\<close>, the plain \<open>Error\<close> of a table without its
  key column, the \<open>SyntaxError\<close> of \<open>BigInt\<close>, or the use of a table that is not there, which the
  source cannot express.\<close>

datatype build_error = GenerationError "relational_diagnostic list" | NoPrimaryKeyColumn jstring
  | MultiplicitySyntaxError | NoSuchTable jstring

type_synonym 'a build = "build_state \<Rightarrow> build_error + ('a \<times> build_state)"

definition ret :: "'a \<Rightarrow> 'a build" where
  "ret x st = Inr (x, st)"

definition thenB :: "'a build \<Rightarrow> ('a \<Rightarrow> 'b build) \<Rightarrow> 'b build" where
  "thenB m f st = (case m st of Inl e \<Rightarrow> Inl e | Inr (x, st') \<Rightarrow> f x st')"

definition throwB :: "build_error \<Rightarrow> 'a build" where
  "throwB e st = Inl e"

definition getB :: "(build_state \<Rightarrow> 'a) \<Rightarrow> 'a build" where
  "getB f st = Inr (f st, st)"

definition modifyB :: "(build_state \<Rightarrow> build_state) \<Rightarrow> unit build" where
  "modifyB f st = Inr ((), f st)"

fun forEachB :: "('a \<Rightarrow> unit build) \<Rightarrow> 'a list \<Rightarrow> unit build" where
  "forEachB f [] = ret ()"
| "forEachB f (x # xs) = thenB (f x) (\<lambda>_. forEachB f xs)"

definition whenB :: "bool \<Rightarrow> unit build \<Rightarrow> unit build" where
  "whenB c m = (if c then m else ret ())"

section \<open>Diagnostics\<close>

definition pushDiagnostic :: "relational_diagnostic \<Rightarrow> unit build" where
  "pushDiagnostic d = modifyB (\<lambda>st. st\<lparr>bs_diagnostics := bs_diagnostics st @ [d]\<rparr>)"

definition info :: "platform \<Rightarrow> jstring \<Rightarrow> jstring \<Rightarrow> jstring \<Rightarrow> jstring list \<Rightarrow> unit build" where
  "info p code message path sourceIds = pushDiagnostic \<lparr>rd_severity = InfoSeverity, rd_code = code,
     rd_message = message, rd_path = Some path, rd_sourceIds = Some (uniqueSorted p sourceIds)\<rparr>"

definition warning :: "platform \<Rightarrow> jstring \<Rightarrow> jstring \<Rightarrow> jstring \<Rightarrow> jstring list \<Rightarrow> unit build" where
  "warning p code message path sourceIds = pushDiagnostic \<lparr>rd_severity = WarningSeverity, rd_code = code,
     rd_message = message, rd_path = Some path, rd_sourceIds = Some (uniqueSorted p sourceIds)\<rparr>"

text \<open>\<open>fail\<close> with a diagnostic of severity \<open>ERROR\<close>, as all of its calls have.\<close>

definition failB :: "platform \<Rightarrow> jstring \<Rightarrow> jstring \<Rightarrow> jstring option \<Rightarrow> jstring list \<Rightarrow> 'a build" where
  "failB p code message path sourceIds st = Inl (GenerationError (bs_diagnostics st @
     [\<lparr>rd_severity = ErrorSeverity, rd_code = code, rd_message = message, rd_path = path,
       rd_sourceIds = Some (uniqueSorted p sourceIds)\<rparr>]))"

text \<open>\<open>sourcePaths[0]\<close>, with and without the assertion that it is there; every trace has a path.\<close>

definition firstPath :: "traceability \<Rightarrow> jstring option" where
  "firstPath tc = (case tc_sourcePaths tc of [] \<Rightarrow> None | path # _ \<Rightarrow> Some path)"

definition warningAt :: "platform \<Rightarrow> jstring \<Rightarrow> jstring \<Rightarrow> traceability \<Rightarrow> jstring list \<Rightarrow> unit build" where
  "warningAt p code message source sourceIds = pushDiagnostic \<lparr>rd_severity = WarningSeverity, rd_code = code,
     rd_message = message, rd_path = firstPath source, rd_sourceIds = Some (uniqueSorted p sourceIds)\<rparr>"

section \<open>Paths\<close>

definition classifierPath :: "jstring \<Rightarrow> jstring" where
  "classifierPath classifierId = js ''/diagram/elements/'' @ classifierId"

definition attributePath :: "jstring \<Rightarrow> jstring \<Rightarrow> jstring" where
  "attributePath classifierId attributeId =
     classifierPath classifierId @ js ''/attributes/'' @ attributeId"

definition relationshipPath :: "jstring \<Rightarrow> jstring" where
  "relationshipPath relationshipId = js ''/diagram/relationships/'' @ relationshipId"

definition relationshipEndPath :: "jstring \<Rightarrow> jstring \<Rightarrow> jstring" where
  "relationshipEndPath relationshipId side = relationshipPath relationshipId @ js ''/'' @ side"

definition or_else :: "jstring \<Rightarrow> jstring \<Rightarrow> jstring" where
  "or_else s t = (if s = [] then t else s)"

definition relationshipEndpointPath :: "platform \<Rightarrow> uml_relationship \<Rightarrow> relationship_end \<Rightarrow> jstring" where
  "relationshipEndpointPath p r e = relationshipPath (rl_id r) @ js ''/ends/'' @ re_elementId e @ js ''/''
     @ toPhysicalName p (or_else (re_role e) (js ''unnamed'')) @ js ''/'' @ re_multiplicity e @ js ''/''
     @ js (if re_navigable e then ''navigable'' else ''not-navigable'')"

end
