(* ===== verification/Relational_State.thy ===== *)
theory Relational_State
  imports Relational_Model
begin

text \<open>
  The operations of \<open>BuildState\<close> on tables, and the helpers of
  src/src/modules/generation/relational-model/relational-model.transformer.ts that work on one table.
  \<open>addColumn\<close>, \<open>addForeignKey\<close> and \<open>addUniqueConstraint\<close> work on the value of a table: the
  source also calls them on tables it has not added yet. On an added table they go through
  \<open>onTable\<close>, which writes the object back.
\<close>

definition tableOf :: "jstring \<Rightarrow> relational_table build" where
  "tableOf tid st = (case mapGet (bs_tables st) tid of None \<Rightarrow> Inl (NoSuchTable tid) | Some t \<Rightarrow> Inr (t, st))"

definition setTable :: "relational_table \<Rightarrow> unit build" where
  "setTable t = modifyB (\<lambda>st. st\<lparr>bs_tables := mapSet (tb_id t) t (bs_tables st)\<rparr>)"

definition onTable :: "jstring \<Rightarrow> (relational_table \<Rightarrow> (relational_table \<times> 'a) build) \<Rightarrow> 'a build" where
  "onTable tid f = thenB (tableOf tid) (\<lambda>t. thenB (f t) (\<lambda>(t', x). thenB (setTable t') (\<lambda>_. ret x)))"

section \<open>addTable\<close>

text \<open>The owner of a name, when it is another table.\<close>

definition otherOwner :: "(jstring, jstring) jmap \<Rightarrow> jstring \<Rightarrow> jstring \<Rightarrow> jstring option" where
  "otherOwner owners name tid = (case mapGet owners name of
     Some owner \<Rightarrow> if owner \<noteq> [] \<and> owner \<noteq> tid then Some owner else None | None \<Rightarrow> None)"

definition sourceIdsOf :: "jstring \<Rightarrow> build_state \<Rightarrow> jstring list" where
  "sourceIdsOf tid st = (case mapGet (bs_tables st) tid of
     Some t \<Rightarrow> tc_sourceIds (tb_source t) | None \<Rightarrow> [])"

definition resolveTableName :: "platform \<Rightarrow> relational_table \<Rightarrow> relational_table build" where
  "resolveTableName p t =
     thenB (getB (\<lambda>st. otherOwner (bs_tableNameOwners st) (tb_physicalName t) (tb_id t))) (\<lambda>owner.
       case owner of None \<Rightarrow> ret t
       | Some existingOwner \<Rightarrow>
           let resolved = appendStableHash (tb_physicalName t) (tb_id t) in
           thenB (getB (\<lambda>st. mapGet (bs_tableNameOwners st) resolved \<noteq> None)) (\<lambda>taken.
           thenB (whenB taken (failB p (js ''PHYSICAL_TABLE_NAME_COLLISION'')
                   (js ''Classes map to the same physical table name '' @ tb_physicalName t @ js ''.'')
                   (firstPath (tb_source t)) (tc_sourceIds (tb_source t) @ [existingOwner]))) (\<lambda>_.
           thenB (getB (sourceIdsOf existingOwner)) (\<lambda>existingIds.
           thenB (warningAt p (js ''PHYSICAL_TABLE_NAME_COLLISION_RESOLVED'')
                   (js ''Physical table name '' @ tb_physicalName t @ js '' was disambiguated with a stable hash.'')
                   (tb_source t) (tc_sourceIds (tb_source t) @ existingIds)) (\<lambda>_.
             ret (t\<lparr>tb_physicalName := resolved,
                    tb_primaryKey := (tb_primaryKey t)\<lparr>ky_physicalName :=
                      constraintName p (js ''pk_'' @ resolved)\<rparr>\<rparr>))))))"

definition resolveEntityName :: "platform \<Rightarrow> relational_table \<Rightarrow> relational_table build" where
  "resolveEntityName p t =
     thenB (getB (\<lambda>st. otherOwner (bs_javaEntityNameOwners st) (tb_javaEntityName t) (tb_id t))) (\<lambda>owner.
       case owner of None \<Rightarrow> ret t
       | Some existingOwner \<Rightarrow>
           let resolved = appendStableJavaNameHash (tb_javaEntityName t) (tb_id t) in
           thenB (getB (\<lambda>st. mapGet (bs_javaEntityNameOwners st) resolved \<noteq> None)) (\<lambda>taken.
           thenB (whenB taken (failB p (js ''JAVA_ENTITY_NAME_COLLISION'')
                   (js ''Classes map to the same Java entity name '' @ tb_javaEntityName t @ js ''.'')
                   (firstPath (tb_source t)) (tc_sourceIds (tb_source t) @ [existingOwner]))) (\<lambda>_.
           thenB (getB (sourceIdsOf existingOwner)) (\<lambda>existingIds.
           thenB (warningAt p (js ''JAVA_ENTITY_NAME_COLLISION_RESOLVED'')
                   (js ''Java entity name '' @ tb_javaEntityName t @ js '' was disambiguated with a stable hash.'')
                   (tb_source t) (tc_sourceIds (tb_source t) @ existingIds)) (\<lambda>_.
             ret (t\<lparr>tb_javaEntityName := resolved\<rparr>))))))"

definition registerTable :: "relational_table \<Rightarrow> unit build" where
  "registerTable t = modifyB (\<lambda>st. st\<lparr>
     bs_tables := mapSet (tb_id t) t (bs_tables st),
     bs_tableNameOwners := mapSet (tb_physicalName t) (tb_id t) (bs_tableNameOwners st),
     bs_javaEntityNameOwners := mapSet (tb_javaEntityName t) (tb_id t) (bs_javaEntityNameOwners st),
     bs_classifierTables := (if truthy (tb_sourceClassifierId t)
       then mapSet (textOf (tb_sourceClassifierId t)) (tb_id t) (bs_classifierTables st)
       else bs_classifierTables st)\<rparr>)"

text \<open>The added table is returned as its identifier.\<close>

definition addTable :: "platform \<Rightarrow> relational_table \<Rightarrow> jstring build" where
  "addTable p t =
     thenB (getB (\<lambda>st. mapGet (bs_tables st) (tb_id t) \<noteq> None)) (\<lambda>present.
     thenB (whenB present (failB p (js ''ARTIFACT_ID_COLLISION'')
             (js ''Generated table artifact '' @ tb_id t @ js '' is duplicated.'') None
             (tc_sourceIds (tb_source t)))) (\<lambda>_.
     thenB (resolveTableName p t) (\<lambda>t.
     thenB (resolveEntityName p t) (\<lambda>t.
     thenB (registerTable t) (\<lambda>_. ret (tb_id t))))))"

section \<open>addColumn\<close>

definition resolveColumnId :: "platform \<Rightarrow> relational_table \<Rightarrow> relational_column \<Rightarrow> relational_column build" where
  "resolveColumnId p t c =
     (if co_id c \<notin> co_id ` set (tb_columns t) then ret c
      else let resolved = artifactId (co_id c @ js ''_''
               @ shortStableHash (js_join (js ''|'') (tc_sourceIds (co_source c)))) in
        thenB (whenB (resolved \<in> co_id ` set (tb_columns t)) (failB p (js ''ARTIFACT_ID_COLLISION'')
                (js ''Generated column artifact '' @ co_id c @ js '' is duplicated.'')
                (firstPath (co_source c)) (tc_sourceIds (co_source c)))) (\<lambda>_.
        thenB (warningAt p (js ''ARTIFACT_ID_COLLISION_RESOLVED'')
                (js ''Generated column artifact '' @ co_id c @ js '' was disambiguated with a stable hash.'')
                (co_source c) (tc_sourceIds (co_source c))) (\<lambda>_.
          ret (c\<lparr>co_id := resolved\<rparr>))))"

definition resolveColumnName :: "platform \<Rightarrow> relational_table \<Rightarrow> relational_column \<Rightarrow> relational_column build" where
  "resolveColumnName p t c =
     (case find (\<lambda>d. co_physicalName d = co_physicalName c) (tb_columns t) of None \<Rightarrow> ret c
      | Some existing \<Rightarrow>
        let resolved = appendStableHash (co_physicalName c) (co_id c);
            ids = tc_sourceIds (co_source c) @ tc_sourceIds (co_source existing) in
        thenB (whenB (resolved \<in> co_physicalName ` set (tb_columns t))
                (failB p (js ''PHYSICAL_COLUMN_NAME_COLLISION'')
                  (js ''Multiple artifacts map to '' @ tb_physicalName t @ js ''.'' @ co_physicalName c @ js ''.'')
                  (firstPath (co_source c)) ids)) (\<lambda>_.
        thenB (warningAt p (js ''PHYSICAL_COLUMN_NAME_COLLISION_RESOLVED'')
                (js ''Physical column name '' @ co_physicalName c @ js '' was disambiguated with a stable hash.'')
                (co_source c) ids) (\<lambda>_.
          ret (c\<lparr>co_physicalName := resolved\<rparr>))))"

definition resolvePropertyName :: "platform \<Rightarrow> relational_table \<Rightarrow> relational_column \<Rightarrow> relational_column build" where
  "resolvePropertyName p t c =
     (case find (\<lambda>d. co_javaPropertyName d = co_javaPropertyName c) (tb_columns t) of None \<Rightarrow> ret c
      | Some existing \<Rightarrow>
        let resolved = appendStableJavaNameHash (co_javaPropertyName c) (co_id c);
            ids = tc_sourceIds (co_source c) @ tc_sourceIds (co_source existing) in
        thenB (whenB (resolved \<in> co_javaPropertyName ` set (tb_columns t))
                (failB p (js ''JAVA_PROPERTY_NAME_COLLISION'')
                  (js ''Multiple columns map to '' @ tb_physicalName t @ js ''.'' @ co_javaPropertyName c @ js ''.'')
                  (firstPath (co_source c)) ids)) (\<lambda>_.
        thenB (warningAt p (js ''JAVA_PROPERTY_NAME_COLLISION_RESOLVED'')
                (js ''Java property name '' @ co_javaPropertyName c @ js '' was disambiguated with a stable hash.'')
                (co_source c) ids) (\<lambda>_.
          ret (c\<lparr>co_javaPropertyName := resolved\<rparr>))))"

definition addColumn ::
  "platform \<Rightarrow> relational_column \<Rightarrow> relational_table \<Rightarrow> (relational_table \<times> relational_column) build" where
  "addColumn p c t =
     thenB (resolveColumnId p t c) (\<lambda>c.
     thenB (resolveColumnName p t c) (\<lambda>c.
     thenB (resolvePropertyName p t c) (\<lambda>c.
       ret (t\<lparr>tb_columns := tb_columns t @ [c]\<rparr>, c))))"

section \<open>addForeignKey, addUniqueConstraint\<close>

definition addForeignKey ::
  "platform \<Rightarrow> foreign_key \<Rightarrow> relational_table \<Rightarrow> (relational_table \<times> unit) build" where
  "addForeignKey p k t =
     thenB (whenB (fk_physicalName k \<in> fk_physicalName ` set (tb_foreignKeys t)
                \<or> ky_physicalName (tb_primaryKey t) = fk_physicalName k)
             (failB p (js ''PHYSICAL_CONSTRAINT_NAME_COLLISION'')
               (js ''Multiple constraints map to '' @ tb_physicalName t @ js ''.'' @ fk_physicalName k @ js ''.'')
               (firstPath (fk_source k)) (tc_sourceIds (fk_source k)))) (\<lambda>_.
       ret (t\<lparr>tb_foreignKeys := tb_foreignKeys t @ [k]\<rparr>, ()))"

definition addUniqueConstraint ::
  "platform \<Rightarrow> relational_key \<Rightarrow> relational_table \<Rightarrow> (relational_table \<times> unit) build" where
  "addUniqueConstraint p k t =
     thenB (whenB (ky_physicalName k \<in> ky_physicalName ` set (tb_uniqueConstraints t)
                \<or> ky_physicalName (tb_primaryKey t) = ky_physicalName k
                \<or> ky_physicalName k \<in> fk_physicalName ` set (tb_foreignKeys t))
             (failB p (js ''PHYSICAL_CONSTRAINT_NAME_COLLISION'')
               (js ''Multiple constraints map to '' @ tb_physicalName t @ js ''.'' @ ky_physicalName k @ js ''.'')
               (firstPath (ky_source k)) (tc_sourceIds (ky_source k)))) (\<lambda>_.
       ret (t\<lparr>tb_uniqueConstraints := tb_uniqueConstraints t @ [k]\<rparr>, ()))"

section \<open>Classifiers and keys\<close>

definition tableForClassifier :: "platform \<Rightarrow> jstring \<Rightarrow> jstring list \<Rightarrow> jstring \<Rightarrow> jstring build" where
  "tableForClassifier p classifierId sourceIds path =
     thenB (getB (\<lambda>st. mapGet (bs_classifierTables st) classifierId)) (\<lambda>found. case found of
       Some tid \<Rightarrow> ret tid
     | None \<Rightarrow> failB p (js ''UNMAPPED_CLASSIFIER'')
         (js ''Classifier '' @ classifierId @ js '' has no relational table.'') (Some path) sourceIds)"

text \<open>A key without columns has no first one to be found.\<close>

definition primaryKeyColumn :: "relational_table \<Rightarrow> relational_column build" where
  "primaryKeyColumn t = (case find (\<lambda>c. [co_id c] = take 1 (ky_columnIds (tb_primaryKey t))) (tb_columns t) of
     Some c \<Rightarrow> ret c | None \<Rightarrow> throwB (NoPrimaryKeyColumn (tb_id t)))"

definition requireSinglePrimaryKey ::
  "platform \<Rightarrow> jstring \<Rightarrow> jstring \<Rightarrow> jstring list \<Rightarrow> relational_column build" where
  "requireSinglePrimaryKey p tid path sourceIds =
     thenB (tableOf tid) (\<lambda>t.
     thenB (whenB (length (ky_columnIds (tb_primaryKey t)) \<noteq> 1)
             (failB p (js ''COMPOSITE_PRIMARY_KEY_REFERENCE_UNSUPPORTED'')
               (js ''Table '' @ tb_physicalName t @ js '' has a composite primary key and cannot be referenced by a single relational column.'')
               (Some path) sourceIds)) (\<lambda>_.
       primaryKeyColumn t))"

definition primaryKeyForTable ::
  "platform \<Rightarrow> jstring \<Rightarrow> jstring \<Rightarrow> jstring \<Rightarrow> traceability \<Rightarrow> jstring list \<Rightarrow> relational_key" where
  "primaryKeyForTable p tableId physicalName firstColumnId source additionalColumnIds =
     \<lparr>ky_id = artifactId (js ''pk_'' @ tableId), ky_physicalName = constraintName p (js ''pk_'' @ physicalName),
      ky_columnIds = firstColumnId # additionalColumnIds, ky_source = source\<rparr>"

section \<open>Multiplicities\<close>

text \<open>\<open>None\<close> as upper bound is \<open>*\<close>.\<close>

type_synonym bounds = "nat \<times> nat option"

definition bigInt :: "jstring \<Rightarrow> nat build" where
  "bigInt s = (case js_BigInt s of Some n \<Rightarrow> ret n | None \<Rightarrow> throwB MultiplicitySyntaxError)"

definition parseMultiplicity :: "jstring \<Rightarrow> bounds build" where
  "parseMultiplicity s =
     (if s = js ''*'' then ret (0, None)
      else case js_split s (js ''..'') of
        lower # upper # _ \<Rightarrow> thenB (bigInt lower) (\<lambda>l.
          if upper = js ''*'' then ret (l, None) else thenB (bigInt upper) (\<lambda>u. ret (l, Some u)))
      | _ \<Rightarrow> thenB (bigInt s) (\<lambda>n. ret (n, Some n)))"

definition isMany :: "jstring \<Rightarrow> bool build" where
  "isMany s = thenB (parseMultiplicity s) (\<lambda>(l, u). ret (case u of None \<Rightarrow> True | Some n \<Rightarrow> n > 1))"

definition lowerBound :: "jstring \<Rightarrow> nat build" where
  "lowerBound s = thenB (parseMultiplicity s) (\<lambda>(l, u). ret l)"

section \<open>Scalar types and columns\<close>

definition scalarTypes :: "(string \<times> string \<times> string) list" where
  "scalarTypes =
    [(''string'', ''String'', ''varchar(255)''), (''text'', ''String'', ''text''),
     (''varchar'', ''String'', ''varchar(255)''), (''char'', ''Character'', ''char''),
     (''character'', ''Character'', ''char''), (''boolean'', ''Boolean'', ''boolean''),
     (''bool'', ''Boolean'', ''boolean''), (''byte'', ''Byte'', ''smallint''),
     (''short'', ''Short'', ''smallint''), (''integer'', ''Integer'', ''integer''),
     (''int'', ''Integer'', ''integer''), (''int32'', ''Integer'', ''integer''),
     (''long'', ''Long'', ''bigint''), (''int64'', ''Long'', ''bigint''),
     (''float'', ''Float'', ''real''), (''double'', ''Double'', ''double precision''),
     (''decimal'', ''BigDecimal'', ''numeric(19,2)''), (''bigdecimal'', ''BigDecimal'', ''numeric(19,2)''),
     (''numeric'', ''BigDecimal'', ''numeric(19,2)''), (''biginteger'', ''BigInteger'', ''numeric(38,0)''),
     (''localdate'', ''LocalDate'', ''date''), (''date'', ''LocalDate'', ''date''),
     (''localdatetime'', ''LocalDateTime'', ''timestamp(3)''), (''datetime'', ''Instant'', ''timestamptz(3)''),
     (''instant'', ''Instant'', ''timestamptz(3)''), (''timestamp'', ''Instant'', ''timestamptz(3)''),
     (''uuid'', ''UUID'', ''uuid''), (''bytes'', ''byte[]'', ''bytea''), (''bytea'', ''byte[]'', ''bytea''),
     (''json'', ''JsonNode'', ''jsonb''), (''jsonnode'', ''JsonNode'', ''jsonb'')]"

definition scalarKey :: "platform \<Rightarrow> jstring \<Rightarrow> jstring" where
  "scalarKey p name = pl_lower p (filter (\<lambda>c. c \<noteq> 0x20) (last (js_split (js_trim name) (js ''.''))))"

text \<open>\<open>mapping[key]\<close> also finds what an object literal inherits: its \<open>constructor\<close> and
  \<open>__proto__\<close> are objects without the two properties. The missing properties are empty texts here; the
  contract of the model refuses both.\<close>

definition lookupScalar :: "jstring \<Rightarrow> (jstring \<times> jstring) option" where
  "lookupScalar key = (if key \<in> {js ''constructor'', js ''__proto__''} then Some ([], [])
     else map_of (map (\<lambda>(k, j, d). (js k, js j, js d)) scalarTypes) key)"

definition scalarType ::
  "platform \<Rightarrow> type_reference \<Rightarrow> jstring \<Rightarrow> jstring list \<Rightarrow> (jstring \<times> jstring) build" where
  "scalarType p t path sourceIds = (case lookupScalar (scalarKey p (tr_name t)) of
     Some result \<Rightarrow> ret result
   | None \<Rightarrow> failB p (js ''UNSUPPORTED_UML_TYPE'')
       (js ''UML type '' @ tr_name t @ js '' has no deterministic relational mapping.'') (Some path) sourceIds)"

definition isCompatibleIdentifierAttribute :: "uml_attribute \<Rightarrow> bool" where
  "isCompatibleIdentifierAttribute a \<longleftrightarrow>
     tr_collection (at_type a) \<noteq> Some True \<and> \<not> truthy (tr_elementId (at_type a))"

definition createSyntheticIdColumn ::
  "platform \<Rightarrow> uml_classifier \<Rightarrow> jstring \<Rightarrow> relational_column build" where
  "createSyntheticIdColumn p c tableId =
     thenB (info p (js ''SYNTHETIC_IDENTIFIER'')
       (js ''Class '' @ cl_name c @ js '' has no id attribute; a generated UUID identifier is used.'')
       (classifierPath (cl_id c)) [cl_id c]) (\<lambda>_.
     ret \<lparr>co_id = artifactId (js ''column_'' @ tableId @ js ''_id''), co_logicalName = js ''id'',
          co_physicalName = js ''id'', co_javaPropertyName = js ''id'', co_javaType = js ''UUID'',
          co_postgresType = js ''uuid'', co_umlType = js ''UUID'', co_nullable = False, co_primaryKey = True,
          co_generated = True, co_defaultValue = Some (js ''gen_random_uuid()''),
          co_source = trace p [cl_id c] [classifierPath (cl_id c)] (js ''identifier.synthetic-uuid'')\<rparr>)"

definition createAttributeColumn ::
  "platform \<Rightarrow> uml_classifier \<Rightarrow> uml_attribute \<Rightarrow> jstring \<Rightarrow> bool \<Rightarrow> relational_column build" where
  "createAttributeColumn p c a tableId primaryKey =
     (let path = attributePath (cl_id c) (at_id a) in
      thenB (whenB (truthy (tr_elementId (at_type a)))
              (failB p (js ''IDENTIFIER_REFERENCE_UNSUPPORTED'')
                (js ''Identifier attribute '' @ cl_name c @ js ''.'' @ at_name a @ js '' cannot reference another classifier.'')
                (Some path) [cl_id c, at_id a, textOf (tr_elementId (at_type a))])) (\<lambda>_.
      thenB (scalarType p (at_type a) path [cl_id c, at_id a]) (\<lambda>(javaType, postgresType).
        ret \<lparr>co_id = artifactId (js ''column_'' @ tableId @ js ''_'' @ toPhysicalName p (at_name a)),
             co_logicalName = at_name a, co_physicalName = toPhysicalName p (at_name a),
             co_javaPropertyName = toJavaPropertyName p (at_name a), co_javaType = javaType,
             co_postgresType = postgresType, co_umlType = tr_name (at_type a),
             co_nullable = (if primaryKey then False else tr_nullable (at_type a) = Some True),
             co_primaryKey = primaryKey, co_generated = False, co_defaultValue = at_defaultValue a,
             co_source = trace p [cl_id c, at_id a] [path]
               (js (if primaryKey then ''identifier.explicit-id-attribute'' else ''attribute.scalar-column''))\<rparr>)))"

end
