(* ===== verification/Relational_Builder.thy ===== *)
theory Relational_Builder
  imports Relational_State
begin

text \<open>
  The passes of src/src/modules/generation/relational-model/relational-model.transformer.ts in the order
  of \<open>generateRelationalModel\<close>: entity tables, association classes, attributes, relationships. A table
  that was added is passed as its identifier and read where the source reads the object.
\<close>

section \<open>Sorted classifiers, attributes, relationships\<close>

definition sortedClassifiers :: "platform \<Rightarrow> uml_classifier list \<Rightarrow> uml_classifier list" where
  "sortedClassifiers p = toSorted (byKey (pl_compare p) cl_id)"

definition sortedAttributes :: "platform \<Rightarrow> uml_attribute list \<Rightarrow> uml_attribute list" where
  "sortedAttributes p = toSorted (byKey (pl_compare p) at_id)"

definition sortedRelationships :: "platform \<Rightarrow> uml_relationship list \<Rightarrow> uml_relationship list" where
  "sortedRelationships p = toSorted (byKey (pl_compare p) rl_id)"

section \<open>Entity tables\<close>

definition isIdName :: "platform \<Rightarrow> jstring \<Rightarrow> bool" where
  "isIdName p name \<longleftrightarrow> pl_lower p (js_trim name) = js ''id''"

definition namedIdAttribute :: "platform \<Rightarrow> uml_classifier \<Rightarrow> uml_attribute option" where
  "namedIdAttribute p c = find (\<lambda>a. \<not> at_isStatic a \<and> isIdName p (at_name a)) (cl_attributes c)"

definition association_class_ids_of :: "uml_relationship list \<Rightarrow> jstring set" where
  "association_class_ids_of rs = set (List.map_filter rl_associationClassId rs)"

text \<open>The column of the identifier: the attribute \<open>id\<close> when it is a scalar, else a synthetic UUID.\<close>

definition identifierColumn :: "platform \<Rightarrow> uml_classifier \<Rightarrow> jstring \<Rightarrow> relational_column build" where
  "identifierColumn p c tableId = (case namedIdAttribute p c of
     None \<Rightarrow> createSyntheticIdColumn p c tableId
   | Some a \<Rightarrow> if isCompatibleIdentifierAttribute a then createAttributeColumn p c a tableId True
       else thenB (warning p (js ''INCOMPATIBLE_IDENTIFIER_ATTRIBUTE'')
              (js ''Attribute '' @ cl_name c @ js ''.'' @ at_name a
                 @ js '' is not a scalar identifier; a synthetic UUID is used.'')
              (attributePath (cl_id c) (at_id a)) [cl_id c, at_id a]) (\<lambda>_.
            createSyntheticIdColumn p c tableId))"

definition entityTable :: "platform \<Rightarrow> uml_classifier \<Rightarrow> bool \<Rightarrow> relational_column \<Rightarrow> relational_table" where
  "entityTable p c isAbstract idColumn =
     (let tableId = artifactId (js ''table_'' @ cl_id c); physicalName = toPhysicalName p (cl_name c);
          source = trace p [cl_id c] [classifierPath (cl_id c)] (js ''classifier.entity-table'')
      in \<lparr>tb_id = tableId, tb_logicalName = cl_name c, tb_physicalName = physicalName,
          tb_javaEntityName = toJavaTypeName p (cl_name c), tb_kind = EntityTable,
          tb_isAbstract = Some isAbstract, tb_sourceClassifierId = Some (cl_id c),
          tb_sourceRelationshipId = None, tb_columns = [idColumn],
          tb_primaryKey = primaryKeyForTable p tableId physicalName (co_id idColumn) source [],
          tb_foreignKeys = [], tb_uniqueConstraints = [],
          tb_inheritance = Some \<lparr>ih_role = RootRole, ih_parentTableId = None, ih_parentColumnIds = None,
            ih_source = trace p [cl_id c] [classifierPath (cl_id c)] (js ''inheritance.joined-root'')\<rparr>,
          tb_source = source\<rparr>)"

definition buildEntityTable :: "platform \<Rightarrow> jstring set \<Rightarrow> uml_classifier \<Rightarrow> unit build" where
  "buildEntityTable p associationClassIds c = (case cl_kind c of
     KInterface \<Rightarrow> info p (js ''INTERFACE_NOT_PERSISTED'')
       (js ''Interface '' @ cl_name c @ js '' is not materialized as a table in 6A.1.'')
       (classifierPath (cl_id c)) [cl_id c]
   | KClass isAbstract \<Rightarrow>
       if cl_id c \<in> associationClassIds then ret ()
       else thenB (identifierColumn p c (artifactId (js ''table_'' @ cl_id c))) (\<lambda>idColumn.
         thenB (addTable p (entityTable p c isAbstract idColumn)) (\<lambda>_.
         thenB (whenB isAbstract (warning p (js ''ABSTRACT_ENTITY_TABLE'')
                 (js ''Abstract class '' @ cl_name c @ js '' still receives a JOINED root table.'')
                 (classifierPath (cl_id c)) [cl_id c])) (\<lambda>_.
         whenB (cl_operations c \<noteq> []) (info p (js ''OPERATIONS_NOT_PERSISTED'')
                 (js ''Operations of '' @ cl_name c @ js '' are not persistence artifacts in 6A.1.'')
                 (classifierPath (cl_id c)) [cl_id c])))))"

definition buildEntityTables :: "platform \<Rightarrow> unit build" where
  "buildEntityTables p =
     thenB (getB (\<lambda>st. cm_diagram (bs_canonical st))) (\<lambda>d.
       forEachB (buildEntityTable p (association_class_ids_of (dg_relationships d)))
         (sortedClassifiers p (dg_elements d)))"

section \<open>Foreign keys of relationships\<close>

definition js_bool :: "bool \<Rightarrow> jstring" where
  "js_bool b = js (if b then ''true'' else ''false'')"

definition relationshipEndKey :: "relationship_end \<Rightarrow> jstring" where
  "relationshipEndKey e = js_join (js ''|'') [re_elementId e, re_role e, re_multiplicity e, js_bool (re_navigable e)]"

text \<open>A table with the end of a relationship at it.\<close>

type_synonym endpoint = "jstring \<times> relationship_end"

definition relationshipEndpointKey :: "endpoint \<Rightarrow> jstring" where
  "relationshipEndpointKey = (\<lambda>(tid, e). js_join (js ''|'')
     [tid, re_elementId e, re_role e, re_multiplicity e, js_bool (re_navigable e)])"

text \<open>Two values in the order of a sort.\<close>

definition sortedPair :: "('a \<Rightarrow> 'a \<Rightarrow> int) \<Rightarrow> 'a \<Rightarrow> 'a \<Rightarrow> 'a \<times> 'a" where
  "sortedPair cmp x y = (if cmp x y \<le> 0 then (x, y) else (y, x))"

definition canonicalRelationshipMultiplicities :: "platform \<Rightarrow> uml_relationship \<Rightarrow> jstring \<times> jstring" where
  "canonicalRelationshipMultiplicities p r =
     (case sortedPair (byKey (pl_compare p) relationshipEndKey) (rl_source r) (rl_target r) of
        (e, f) \<Rightarrow> (re_multiplicity e, re_multiplicity f))"

definition createRelationshipColumn ::
  "platform \<Rightarrow> jstring \<Rightarrow> jstring \<Rightarrow> relationship_end \<Rightarrow> relationship_end \<Rightarrow> uml_relationship \<Rightarrow> bool \<Rightarrow> jstring
   \<Rightarrow> jstring option \<Rightarrow> relational_column build" where
  "createRelationshipColumn p tableId referencedTable ownerEnd referencedEnd r primaryKey rule logicalNameOverride =
     thenB (requireSinglePrimaryKey p referencedTable (relationshipPath (rl_id r))
             [rl_id r, re_elementId ownerEnd, re_elementId referencedEnd]) (\<lambda>referencedId.
     thenB (tableOf referencedTable) (\<lambda>referenced.
     thenB (getB (\<lambda>st. mapGet (bs_classifiers st) (re_elementId referencedEnd))) (\<lambda>classifier.
       let logicalName = (if truthy logicalNameOverride then textOf logicalNameOverride
             else or_else (re_role ownerEnd) (tb_logicalName referenced));
           columnName = referenceColumnPhysicalName p logicalName
       in ret \<lparr>co_id = artifactId (js ''column_'' @ tableId @ js ''_'' @ columnName),
            co_logicalName = logicalName, co_physicalName = columnName,
            co_javaPropertyName = toJavaPropertyName p logicalName @ js ''Id'',
            co_javaType = co_javaType referencedId, co_postgresType = co_postgresType referencedId,
            co_umlType = (case classifier of Some c \<Rightarrow> or_else (cl_name c) (tb_logicalName referenced)
               | None \<Rightarrow> tb_logicalName referenced),
            co_nullable = False, co_primaryKey = primaryKey, co_generated = False, co_defaultValue = None,
            co_source = trace p [rl_id r, re_elementId ownerEnd, re_elementId referencedEnd]
              [relationshipPath (rl_id r), relationshipEndpointPath p r ownerEnd] rule\<rparr>)))"

definition addForeignKeyForRelationship ::
  "platform \<Rightarrow> jstring \<Rightarrow> relational_column \<Rightarrow> jstring \<Rightarrow> uml_relationship \<Rightarrow> jstring \<Rightarrow> on_delete \<Rightarrow> unit build" where
  "addForeignKeyForRelationship p tid column referencedTable r rule onDelete =
     (let source = trace p [rl_id r, re_elementId (rl_source r), re_elementId (rl_target r)]
            [relationshipPath (rl_id r)] rule;
          (sourceMultiplicity, targetMultiplicity) = canonicalRelationshipMultiplicities p r
      in thenB (tableOf tid) (\<lambda>t.
         thenB (requireSinglePrimaryKey p referencedTable (relationshipPath (rl_id r)) (tc_sourceIds source))
           (\<lambda>referencedId.
         onTable tid (addForeignKey p
           \<lparr>fk_id = artifactId (js ''fk_'' @ tb_id t @ js ''_'' @ toPhysicalName p (co_logicalName column)),
            fk_physicalName = constraintName p (js ''fk_'' @ tb_physicalName t @ js ''_'' @ co_physicalName column),
            fk_columnIds = [co_id column], fk_referencedTableId = referencedTable,
            fk_referencedColumnIds = [co_id referencedId],
            fk_sourceMultiplicity = Some sourceMultiplicity, fk_targetMultiplicity = Some targetMultiplicity,
            fk_onDelete = onDelete, fk_source = source\<rparr>))))"

definition addReferenceColumn ::
  "platform \<Rightarrow> jstring \<Rightarrow> jstring \<Rightarrow> jstring \<Rightarrow> jstring \<Rightarrow> bool \<Rightarrow> bool \<Rightarrow> jstring list \<Rightarrow> jstring list \<Rightarrow> jstring
   \<Rightarrow> on_delete \<Rightarrow> uml_relationship option \<Rightarrow> relational_column build" where
  "addReferenceColumn p ownerTable referencedTable logicalName umlType nullable uniq sourceIds sourcePaths rule
      onDelete r =
     thenB (requireSinglePrimaryKey p referencedTable (hd sourcePaths) sourceIds) (\<lambda>referencedId.
     thenB (tableOf referencedTable) (\<lambda>referenced.
     let columnName = referenceColumnPhysicalName p logicalName;
         multiplicities = map_option (canonicalRelationshipMultiplicities p) r in
     thenB (onTable ownerTable (addColumn p
       \<lparr>co_id = artifactId (js ''column_'' @ ownerTable @ js ''_'' @ columnName),
        co_logicalName = logicalName, co_physicalName = columnName,
        co_javaPropertyName = toJavaPropertyName p logicalName,
        co_javaType = tb_javaEntityName referenced, co_postgresType = co_postgresType referencedId,
        co_umlType = umlType, co_nullable = nullable, co_primaryKey = False, co_generated = False,
        co_defaultValue = None, co_source = trace p sourceIds sourcePaths rule\<rparr>)) (\<lambda>stored.
     thenB (tableOf ownerTable) (\<lambda>owner.
     thenB (onTable ownerTable (addForeignKey p
       \<lparr>fk_id = artifactId (js ''fk_'' @ ownerTable @ js ''_'' @ co_id stored),
        fk_physicalName = constraintName p (js ''fk_'' @ tb_physicalName owner @ js ''_'' @ co_physicalName stored),
        fk_columnIds = [co_id stored], fk_referencedTableId = referencedTable,
        fk_referencedColumnIds = [co_id referencedId],
        fk_sourceMultiplicity = map_option fst multiplicities,
        fk_targetMultiplicity = map_option snd multiplicities,
        fk_onDelete = onDelete, fk_source = trace p sourceIds sourcePaths (rule @ js ''.foreign-key'')\<rparr>)) (\<lambda>_.
     thenB (whenB uniq (onTable ownerTable (addUniqueConstraint p
       \<lparr>ky_id = artifactId (js ''unique_'' @ ownerTable @ js ''_'' @ co_id stored),
        ky_physicalName = constraintName p (js ''uk_'' @ tb_physicalName owner @ js ''_'' @ co_physicalName stored),
        ky_columnIds = [co_id stored],
        ky_source = trace p sourceIds sourcePaths (rule @ js ''.unique'')\<rparr>))) (\<lambda>_.
       ret stored))))))"

section \<open>Collection tables\<close>

definition collectionTable ::
  "platform \<Rightarrow> relational_table \<Rightarrow> uml_classifier \<Rightarrow> uml_attribute \<Rightarrow> relational_key \<Rightarrow> traceability \<Rightarrow> relational_table" where
  "collectionTable p ownerTable c a primaryKey source =
     \<lparr>tb_id = artifactId (js ''table_collection_'' @ cl_id c @ js ''_'' @ at_id a),
      tb_logicalName = boundedLogicalName (cl_name c @ js ''.'' @ at_name a),
      tb_physicalName = toPhysicalName p (tb_physicalName ownerTable @ js ''_'' @ at_name a),
      tb_javaEntityName = toJavaTypeName p (cl_name c @ at_name a), tb_kind = CollectionTable,
      tb_isAbstract = None, tb_sourceClassifierId = None, tb_sourceRelationshipId = None, tb_columns = [],
      tb_primaryKey = primaryKey, tb_foreignKeys = [], tb_uniqueConstraints = [], tb_inheritance = None,
      tb_source = source\<rparr>"

text \<open>The value column, and the table it refers to when the elements are objects.\<close>

definition collectionValueColumn ::
  "platform \<Rightarrow> uml_classifier \<Rightarrow> uml_attribute \<Rightarrow> jstring \<Rightarrow> traceability
   \<Rightarrow> (relational_column \<times> jstring option) build" where
  "collectionValueColumn p c a tableId collectionSource =
     (let path = attributePath (cl_id c) (at_id a) in
      if truthy (tr_elementId (at_type a)) then
        let element = textOf (tr_elementId (at_type a)); ids = [cl_id c, at_id a, element] in
        thenB (tableForClassifier p element ids path) (\<lambda>targetTable.
        thenB (requireSinglePrimaryKey p targetTable path ids) (\<lambda>targetId.
        thenB (tableOf targetTable) (\<lambda>target.
          ret (\<lparr>co_id = artifactId (js ''column_'' @ tableId @ js ''_value_id''), co_logicalName = at_name a,
            co_physicalName = js ''value_id'', co_javaPropertyName = toJavaPropertyName p (at_name a),
            co_javaType = tb_javaEntityName target, co_postgresType = co_postgresType targetId,
            co_umlType = tr_name (at_type a), co_nullable = False, co_primaryKey = True, co_generated = False,
            co_defaultValue = None,
            co_source = trace p ids [path, classifierPath element] (js ''attribute.collection-class-reference'')\<rparr>,
            Some targetTable))))
      else
        thenB (scalarType p (at_type a) path [cl_id c, at_id a]) (\<lambda>(javaType, postgresType).
          ret (\<lparr>co_id = artifactId (js ''column_'' @ tableId @ js ''_value''), co_logicalName = at_name a,
            co_physicalName = js ''value'', co_javaPropertyName = js ''value'', co_javaType = javaType,
            co_postgresType = postgresType, co_umlType = tr_name (at_type a), co_nullable = False,
            co_primaryKey = True, co_generated = False, co_defaultValue = None,
            co_source = collectionSource\<rparr>, None)))"

definition collectionOwnerColumn ::
  "uml_classifier \<Rightarrow> jstring \<Rightarrow> relational_column \<Rightarrow> traceability \<Rightarrow> relational_column" where
  "collectionOwnerColumn c tableId ownerId source =
     \<lparr>co_id = artifactId (js ''column_'' @ tableId @ js ''_owner_id''), co_logicalName = cl_name c @ js ''Id'',
      co_physicalName = js ''owner_id'', co_javaPropertyName = js ''ownerId'', co_javaType = co_javaType ownerId,
      co_postgresType = co_postgresType ownerId, co_umlType = cl_name c, co_nullable = False,
      co_primaryKey = True, co_generated = False, co_defaultValue = None, co_source = source\<rparr>"

definition collectionOwnerKey ::
  "platform \<Rightarrow> jstring \<Rightarrow> jstring \<Rightarrow> relational_column \<Rightarrow> jstring \<Rightarrow> relational_column \<Rightarrow> traceability \<Rightarrow> foreign_key" where
  "collectionOwnerKey p tableId physicalName storedOwner ownerTable ownerId source =
     \<lparr>fk_id = artifactId (js ''fk_'' @ tableId @ js ''_owner''),
      fk_physicalName = constraintName p (js ''fk_'' @ physicalName @ js ''_owner''),
      fk_columnIds = [co_id storedOwner], fk_referencedTableId = ownerTable,
      fk_referencedColumnIds = [co_id ownerId], fk_sourceMultiplicity = None, fk_targetMultiplicity = None,
      fk_onDelete = CASCADE, fk_source = source\<rparr>"

definition addCollectionValueKey ::
  "platform \<Rightarrow> uml_classifier \<Rightarrow> uml_attribute \<Rightarrow> jstring \<Rightarrow> jstring \<Rightarrow> jstring \<Rightarrow> relational_column \<Rightarrow> jstring \<Rightarrow> unit build"
where
  "addCollectionValueKey p c a stored tableId physicalName storedValue target =
     (let path = attributePath (cl_id c) (at_id a); element = textOf (tr_elementId (at_type a));
          ids = [cl_id c, at_id a, element] in
      thenB (requireSinglePrimaryKey p target path ids) (\<lambda>targetId.
      onTable stored (addForeignKey p
        \<lparr>fk_id = artifactId (js ''fk_'' @ tableId @ js ''_value''),
         fk_physicalName = constraintName p (js ''fk_'' @ physicalName @ js ''_value''),
         fk_columnIds = [co_id storedValue], fk_referencedTableId = target,
         fk_referencedColumnIds = [co_id targetId], fk_sourceMultiplicity = None, fk_targetMultiplicity = None,
         fk_onDelete = NO_ACTION,
         fk_source = trace p ids [path, classifierPath element]
           (js ''attribute.collection-class-reference-fk'')\<rparr>)))"

text \<open>The columns go into the new table before it is added, and its key is set again from them.\<close>

definition createCollectionTable ::
  "platform \<Rightarrow> jstring \<Rightarrow> uml_classifier \<Rightarrow> uml_attribute \<Rightarrow> unit build" where
  "createCollectionTable p ownerTable c a =
     (let path = attributePath (cl_id c) (at_id a);
          tableId = artifactId (js ''table_collection_'' @ cl_id c @ js ''_'' @ at_id a);
          source = trace p [cl_id c, at_id a] [path] (js ''attribute.collection-table'') in
      thenB (tableOf ownerTable) (\<lambda>owner.
      let physicalName = toPhysicalName p (tb_physicalName owner @ js ''_'' @ at_name a);
          key = (\<lambda>c d. primaryKeyForTable p tableId physicalName (co_id c) source [co_id d]) in
      thenB (requireSinglePrimaryKey p ownerTable path [cl_id c, at_id a]) (\<lambda>ownerId.
      let ownerColumn = collectionOwnerColumn c tableId ownerId source in
      thenB (collectionValueColumn p c a tableId source) (\<lambda>(valueColumn, targetTable).
      thenB (addColumn p ownerColumn (collectionTable p owner c a (key ownerColumn valueColumn) source))
        (\<lambda>(table, storedOwner).
      thenB (addColumn p valueColumn table) (\<lambda>(table, storedValue).
      thenB (addTable p (table\<lparr>tb_primaryKey := key storedOwner storedValue\<rparr>)) (\<lambda>stored.
      thenB (onTable stored (addForeignKey p
        (collectionOwnerKey p tableId physicalName storedOwner ownerTable ownerId source))) (\<lambda>_.
      thenB (case targetTable of None \<Rightarrow> ret ()
             | Some target \<Rightarrow> addCollectionValueKey p c a stored tableId physicalName storedValue target) (\<lambda>_.
      info p (js ''COLLECTION_TABLE_CREATED'')
        (js ''Collection attribute '' @ cl_name c @ js ''.'' @ at_name a @ js '' is represented by '' @ physicalName @ js ''.'')
        path [cl_id c, at_id a])))))))))"

end
