(* ===== verification/Relational_Order.thy ===== *)
theory Relational_Order
  imports Relational_Builder Cycle_Check
begin

text \<open>
  \<open>sortedGeneralizations\<close> of
  src/src/modules/generation/relational-model/relational-model.transformer.ts: generalizations in the
  order of the depth of their parent, so that a parent's key is settled before its children take it over.
  The map from a child to its parents is the adjacency of \<^theory_text>\<open>Cycle_Check\<close>. The comparison of the
  sort shares one cache of depths; here every comparison starts with an empty one, and the depth is shown
  not to depend on a cache of right depths.
\<close>

section \<open>Depth\<close>

function (sequential) depth ::
    "(jstring, jstring list) jmap \<Rightarrow> jstring set \<Rightarrow> (jstring, nat) jmap \<Rightarrow> jstring \<Rightarrow> nat \<times> (jstring, nat) jmap"
  and depths ::
    "(jstring, jstring list) jmap \<Rightarrow> jstring set \<Rightarrow> (jstring, nat) jmap \<Rightarrow> jstring list \<Rightarrow> nat list \<times> (jstring, nat) jmap"
where
  "depth byChild visiting cache i =
     (case mapGet cache i of Some n \<Rightarrow> (n, cache)
      | None \<Rightarrow>
        if i \<in> visiting then (0, cache)
        else (case depths byChild (insert i visiting) cache (targetsOf byChild i) of (ns, cache') \<Rightarrow>
                let result = (if ns = [] then 0 else Max (set ns) + 1)
                in (result, mapSet i result cache')))"
| "depths byChild visiting cache [] = ([], cache)"
| "depths byChild visiting cache (t # ts) =
     (case depth byChild visiting cache t of (n, cache') \<Rightarrow>
        (case depths byChild visiting cache' ts of (ns, cache'') \<Rightarrow> (n # ns, cache'')))"
  by pat_completeness auto

termination depth
  by (relation "measures
       [\<lambda>x. case x of Inl (adj, vg, vd, i) \<Rightarrow> 2 * unvisited_keys adj vg + 1
          | Inr (adj, vg, vd, ts) \<Rightarrow> 2 * unvisited_keys adj vg + (if ts = [] then 0 else 2),
        \<lambda>x. case x of Inl _ \<Rightarrow> 0 | Inr (adj, vg, vd, ts) \<Rightarrow> length ts]")
    (auto simp: unvisited_keys_le le_imp_less_Suc deeper_call)

declare depth.simps [simp del] depths.simps [simp del]

definition depthOf :: "(jstring, jstring list) jmap \<Rightarrow> jstring \<Rightarrow> nat" where
  "depthOf byChild i = fst (depth byChild {} [] i)"

definition compareGeneralizations ::
  "platform \<Rightarrow> (jstring, jstring list) jmap \<Rightarrow> uml_relationship \<Rightarrow> uml_relationship \<Rightarrow> int" where
  "compareGeneralizations p byChild l r =
     (let d = int (depthOf byChild (re_elementId (rl_target l))) - int (depthOf byChild (re_elementId (rl_target r)))
      in if d \<noteq> 0 then d else pl_compare p (rl_id l) (rl_id r))"

definition sortedGeneralizations :: "platform \<Rightarrow> uml_relationship list \<Rightarrow> uml_relationship list" where
  "sortedGeneralizations p rs =
     (let generalizations = filter (\<lambda>r. rl_kind r = Generalization) rs
      in toSorted (compareGeneralizations p (adjacency generalizations Generalization)) generalizations)"

section \<open>The longest chain of parents\<close>

definition is_depth :: "(jstring \<times> jstring) set \<Rightarrow> (jstring \<Rightarrow> nat) \<Rightarrow> bool" where
  "is_depth E h \<longleftrightarrow> (\<forall>i. h i = (if E `` {i} = {} then 0 else Max (h ` (E `` {i})) + 1))"

definition right_cache :: "(jstring \<Rightarrow> nat) \<Rightarrow> (jstring, nat) jmap \<Rightarrow> bool" where
  "right_cache h cache \<longleftrightarrow> (\<forall>i n. mapGet cache i = Some n \<longrightarrow> n = h i)"

lemma is_depthD: "is_depth E h \<Longrightarrow> h i = (if E `` {i} = {} then 0 else Max (h ` (E `` {i})) + 1)"
  unfolding is_depth_def by (rule spec)

lemma graph_image: "graph adj `` {i} = set (targetsOf adj i)"
  by (auto simp: graph_def)

lemma depth_right:
  assumes "acyclic (graph adj)" "is_depth (graph adj) h"
  shows "right_cache h cache \<Longrightarrow> (\<forall>v \<in> vg. (v, i) \<in> (graph adj)\<^sup>+) \<Longrightarrow>
           fst (depth adj vg cache i) = h i \<and> right_cache h (snd (depth adj vg cache i))"
    and "right_cache h cache \<Longrightarrow> (\<forall>v \<in> vg. \<forall>t \<in> set ts. (v, t) \<in> (graph adj)\<^sup>+) \<Longrightarrow>
           fst (depths adj vg cache ts) = map h ts \<and> right_cache h (snd (depths adj vg cache ts))"
  using assms
proof (induction adj vg cache i and adj vg cache ts rule: depth_depths.induct)
  case (1 adj vg cache i)
  show ?case
  proof (cases "mapGet cache i")
    case (Some n)
    with "1.prems"(1) show ?thesis by (simp add: depth.simps [of adj vg] right_cache_def)
  next
    case None
    have i: "i \<notin> vg" using "1.prems"(2,3) by (auto simp: acyclic_def)
    have below: "\<forall>v \<in> insert i vg. \<forall>t \<in> set (targetsOf adj i). (v, t) \<in> (graph adj)\<^sup>+"
      using "1.prems"(2) by (auto simp: graph_def intro: trancl_into_trancl)
    obtain ns cache' where d: "depths adj (insert i vg) cache (targetsOf adj i) = (ns, cache')" by fastforce
    from "1.IH" [OF None i "1.prems"(1) below "1.prems"(3,4)] d
    have ns: "ns = map h (targetsOf adj i)" "right_cache h cache'" by simp_all
    have "h i = (if ns = [] then 0 else Max (set ns) + 1)"
      by (subst is_depthD [OF "1.prems"(4)]) (simp add: ns graph_image)
    moreover have "depth adj vg cache i = (h i, mapSet i (h i) cache')"
      by (simp add: depth.simps [of adj vg cache i] None i d calculation [symmetric] Let_def)
    moreover have "right_cache h (mapSet i (h i) cache')"
      using ns(2) by (simp add: right_cache_def map_simps)
    ultimately show ?thesis by simp
  qed
next
  case (3 adj vg cache t ts)
  obtain n c where n: "depth adj vg cache t = (n, c)" by fastforce
  from "3.IH"(1) "3.prems" n have "n = h t" "right_cache h c" by simp_all
  moreover obtain ns c' where ns: "depths adj vg c ts = (ns, c')" by fastforce
  ultimately have "ns = map h ts \<and> right_cache h c'"
    using "3.IH"(2) [OF n [symmetric]] "3.prems" by simp
  with \<open>n = h t\<close> show ?case by (simp add: depths.simps n ns)
qed (simp add: depths.simps)

lemma finite_graph: "finite (graph adj)"
proof -
  have "graph adj \<subseteq> (\<Union>i \<in> set (mapKeys adj). {i} \<times> set (targetsOf adj i))"
    using graph_source_key [of _ _ adj] by (auto simp: graph_def)
  then show ?thesis by (rule finite_subset) simp
qed

lemma is_depth_exists:
  assumes "acyclic (graph adj)"
  obtains h where "is_depth (graph adj) h"
proof -
  let ?F = "\<lambda>h i. if graph adj `` {i} = {} then 0 else Max (h ` (graph adj `` {i})) + (1::nat)"
  have "wf ((graph adj)\<inverse>)"
    using assms finite_graph by (rule finite_acyclic_wf_converse [rotated])
  moreover have "adm_wf ((graph adj)\<inverse>) ?F"
  proof (unfold adm_wf_def, intro allI impI)
    fix f g :: "jstring \<Rightarrow> nat" and x
    assume "\<forall>z. (z, x) \<in> (graph adj)\<inverse> \<longrightarrow> f z = g z"
    then have "f ` (graph adj `` {x}) = g ` (graph adj `` {x})" by (intro image_cong) auto
    then show "?F f x = ?F g x" by simp
  qed
  ultimately have fixpoint: "wfrec ((graph adj)\<inverse>) ?F = ?F (wfrec ((graph adj)\<inverse>) ?F)"
    by (rule wfrec_fixpoint)
  have "is_depth (graph adj) (wfrec ((graph adj)\<inverse>) ?F)"
    unfolding is_depth_def using fun_cong [OF fixpoint] by blast
  then show thesis by (rule that)
qed

lemma depthOf_is_depth: "acyclic (graph adj) \<Longrightarrow> is_depth (graph adj) (depthOf adj)"
proof -
  assume acyclic: "acyclic (graph adj)"
  then obtain h where h: "is_depth (graph adj) h" by (rule is_depth_exists)
  have "depthOf adj = h"
    unfolding depthOf_def using depth_right(1) [OF acyclic h, of "[]" "{}"]
    by (auto simp: right_cache_def)
  with h show ?thesis by simp
qed

lemma depthOf_less:
  assumes "acyclic (graph adj)" "(i, j) \<in> graph adj"
  shows "depthOf adj j < depthOf adj i"
proof -
  have "depthOf adj i = Max (depthOf adj ` (graph adj `` {i})) + 1"
  proof -
    have "graph adj `` {i} \<noteq> {}" using assms(2) by blast
    then show ?thesis by (subst is_depthD [OF depthOf_is_depth [OF assms(1)]]) simp
  qed
  moreover have "depthOf adj j \<le> Max (depthOf adj ` (graph adj `` {i}))"
    using assms(2) by (intro Max_ge finite_imageI) (auto simp: graph_image, simp add: graph_def)
  ultimately show ?thesis by simp
qed

section \<open>The order\<close>

lemma set_insertSorted [simp]: "set (insertSorted cmp x ys) = insert x (set ys)"
  by (induction ys) auto

lemma set_toSorted [simp]: "set (toSorted cmp xs) = set xs"
  unfolding toSorted_def by (induction xs) auto

lemma insertSorted_key:
  assumes "\<And>x y. f x < f y \<Longrightarrow> cmp x y \<le> 0" "\<And>x y. f y < f x \<Longrightarrow> \<not> cmp x y \<le> 0"
  shows "sorted (map f ys) \<Longrightarrow> sorted (map f (insertSorted cmp x ys))"
proof (induction ys)
  case (Cons y ys)
  show ?case
  proof (cases "cmp x y \<le> 0")
    case True
    with assms(2) [of y x] have "f x \<le> f y" by (meson leI)
    with True Cons.prems show ?thesis by auto
  next
    case False
    with assms(1) [of x y] have "f y \<le> f x" by (meson leI)
    with False Cons show ?thesis by auto
  qed
qed simp

lemma toSorted_key:
  fixes f :: "'a \<Rightarrow> 'k::linorder"
  assumes "\<And>x y. f x < f y \<Longrightarrow> cmp x y \<le> 0" "\<And>x y. f y < f x \<Longrightarrow> \<not> cmp x y \<le> 0"
  shows "sorted (map f (toSorted cmp xs))"
  unfolding toSorted_def by (induction xs) (auto intro: insertSorted_key [where f = f, OF assms])

lemma edges_filter: "edges (filter (\<lambda>r. rl_kind r = kind) rs) kind = edges rs kind"
  by (auto simp: edges_def)

lemma sortedGeneralizations_depth:
  "sorted (map (\<lambda>r. depthOf (adjacency (filter (\<lambda>r. rl_kind r = Generalization) rs) Generalization)
     (re_elementId (rl_target r))) (sortedGeneralizations p rs))"
  unfolding sortedGeneralizations_def Let_def
  by (rule toSorted_key) (auto simp: compareGeneralizations_def Let_def)

end
