(* ===== verification/Relational_Passes.thy ===== *)
theory Relational_Passes
  imports Relational_Order
begin

text \<open>
  The other passes of src/src/modules/generation/relational-model/relational-model.transformer.ts:
  association classes, attributes, inheritance, associations and join tables, and the finished model.
\<close>

section \<open>Attributes\<close>

definition addAttributeToTable ::
  "platform \<Rightarrow> jstring \<Rightarrow> uml_classifier \<Rightarrow> uml_attribute \<Rightarrow> unit build" where
  "addAttributeToTable p tid c a =
     (let path = attributePath (cl_id c) (at_id a) in
      if at_isStatic a then
        info p (js ''STATIC_ATTRIBUTE_IGNORED'') (js ''Static attribute '' @ at_name a @ js '' is not persisted.'')
          path [cl_id c, at_id a]
      else thenB (tableOf tid) (\<lambda>t.
        if isIdName p (at_name a) \<and> at_id a \<in> set (tc_sourceIds (ky_source (tb_primaryKey t))) then ret ()
        else if tr_collection (at_type a) = Some True then createCollectionTable p tid c a
        else if truthy (tr_elementId (at_type a)) then
          let element = textOf (tr_elementId (at_type a)) in
          thenB (getB (\<lambda>st. mapGet (bs_classifiers st) element)) (\<lambda>target.
            if target = None \<or> \<not> is_class (the target) then
              warning p (js ''INTERFACE_ATTRIBUTE_REFERENCE'')
                (js ''Attribute '' @ at_name a @ js '' references a non-persisted classifier and is ignored.'')
                path [cl_id c, at_id a, element]
            else thenB (tableForClassifier p element [cl_id c, at_id a] path) (\<lambda>targetTable.
              thenB (addReferenceColumn p tid targetTable (at_name a) (tr_name (at_type a))
                (tr_nullable (at_type a) = Some True) False [cl_id c, at_id a, cl_id (the target)]
                [path, classifierPath (cl_id (the target))] (js ''attribute.class-reference'') NO_ACTION None)
                (\<lambda>_. ret ())))
        else thenB (createAttributeColumn p c a tid False) (\<lambda>column.
          thenB (onTable tid (addColumn p column)) (\<lambda>_. ret ()))))"

definition buildClassifierAttributes :: "platform \<Rightarrow> unit build" where
  "buildClassifierAttributes p =
     thenB (getB (\<lambda>st. dg_elements (cm_diagram (bs_canonical st)))) (\<lambda>els.
       forEachB (\<lambda>c.
         if \<not> is_class c then ret ()
         else thenB (getB (\<lambda>st. mapGet (bs_classifierTables st) (cl_id c))) (\<lambda>found. case found of
           None \<Rightarrow> ret ()
         | Some tid \<Rightarrow> thenB (tableOf tid) (\<lambda>t.
             if tb_kind t \<noteq> EntityTable then ret ()
             else forEachB (addAttributeToTable p tid c) (sortedAttributes p (cl_attributes c)))))
         (sortedClassifiers p els))"

section \<open>Association classes\<close>

definition associationClassTable ::
  "platform \<Rightarrow> uml_relationship \<Rightarrow> uml_classifier \<Rightarrow> relational_key \<Rightarrow> traceability \<Rightarrow> relational_table" where
  "associationClassTable p r ac primaryKey source =
     \<lparr>tb_id = artifactId (js ''table_'' @ cl_id ac), tb_logicalName = cl_name ac,
      tb_physicalName = toPhysicalName p (cl_name ac), tb_javaEntityName = toJavaTypeName p (cl_name ac),
      tb_kind = AssociationClassTable,
      tb_isAbstract = (case cl_kind ac of KClass isAbstract \<Rightarrow> Some isAbstract | KInterface \<Rightarrow> None),
      tb_sourceClassifierId = Some (cl_id ac), tb_sourceRelationshipId = Some (rl_id r), tb_columns = [],
      tb_primaryKey = primaryKey, tb_foreignKeys = [], tb_uniqueConstraints = [], tb_inheritance = None,
      tb_source = source\<rparr>"

text \<open>The key of an association class: its explicit identifier, or the two columns of the ends.\<close>

definition associationClassKey ::
  "platform \<Rightarrow> uml_classifier \<Rightarrow> relational_column option \<Rightarrow> relational_column \<Rightarrow> relational_column
   \<Rightarrow> traceability \<Rightarrow> relational_key" where
  "associationClassKey p ac idColumn first second source =
     primaryKeyForTable p (artifactId (js ''table_'' @ cl_id ac)) (toPhysicalName p (cl_name ac))
       (case idColumn of Some c \<Rightarrow> co_id c | None \<Rightarrow> co_id first)
       (case idColumn of Some c \<Rightarrow> co_source c | None \<Rightarrow> source)
       (case idColumn of Some c \<Rightarrow> [] | None \<Rightarrow> [co_id second])"

text \<open>\<open>explicitIdColumn ? f(explicitIdColumn) : undefined\<close>.\<close>

definition optionalB :: "'a option \<Rightarrow> ('a \<Rightarrow> 'b build) \<Rightarrow> 'b option build" where
  "optionalB x f = (case x of None \<Rightarrow> ret None | Some y \<Rightarrow> thenB (f y) (\<lambda>z. ret (Some z)))"

definition associationClassIdColumn ::
  "platform \<Rightarrow> uml_relationship \<Rightarrow> uml_classifier \<Rightarrow> relational_column option build" where
  "associationClassIdColumn p r ac =
     (let named = namedIdAttribute p ac in
      thenB (case named of None \<Rightarrow> ret ()
             | Some a \<Rightarrow> whenB (\<not> isCompatibleIdentifierAttribute a)
                 (failB p (js ''INCOMPATIBLE_ASSOCIATION_CLASS_IDENTIFIER'')
                   (js ''Association class '' @ cl_name ac
                     @ js '' has an id attribute that cannot be used as a scalar primary key.'')
                   (Some (attributePath (cl_id ac) (at_id a))) [cl_id ac, at_id a, rl_id r])) (\<lambda>_.
      optionalB named (\<lambda>a. createAttributeColumn p ac a (artifactId (js ''table_'' @ cl_id ac)) True)))"

text \<open>With an explicit identifier the pair of ends is unique.\<close>

definition addEndpointConstraint ::
  "platform \<Rightarrow> uml_relationship \<Rightarrow> uml_classifier \<Rightarrow> jstring \<Rightarrow> relational_column \<Rightarrow> relational_column
   \<Rightarrow> relationship_end \<Rightarrow> relationship_end \<Rightarrow> unit build" where
  "addEndpointConstraint p r ac stored storedFirst storedSecond firstEnd secondEnd =
     thenB (tableOf stored) (\<lambda>t. onTable stored (addUniqueConstraint p
       \<lparr>ky_id = artifactId (js ''unique_'' @ stored @ js ''_endpoints''),
        ky_physicalName = constraintName p (js ''uk_'' @ tb_physicalName t @ js ''_endpoints''),
        ky_columnIds = [co_id storedFirst, co_id storedSecond],
        ky_source = trace p [rl_id r, cl_id ac, re_elementId firstEnd, re_elementId secondEnd]
          [relationshipPath (rl_id r), relationshipEndpointPath p r firstEnd,
           relationshipEndpointPath p r secondEnd] (js ''association-class.endpoint-unique'')\<rparr>))"

text \<open>\<open>explicitIdColumn ? state.addColumn(table, explicitIdColumn) : undefined\<close>.\<close>

definition addOptionalColumn ::
  "platform \<Rightarrow> relational_column option \<Rightarrow> relational_table \<Rightarrow> (relational_table \<times> relational_column option) build" where
  "addOptionalColumn p column table = (case column of None \<Rightarrow> ret (table, None)
     | Some c \<Rightarrow> thenB (addColumn p c table) (\<lambda>(table, c). ret (table, Some c)))"

definition buildAssociationClassTable ::
  "platform \<Rightarrow> uml_relationship \<Rightarrow> uml_classifier \<Rightarrow> unit build" where
  "buildAssociationClassTable p r ac =
     thenB (tableForClassifier p (re_elementId (rl_source r)) [rl_id r, re_elementId (rl_source r)]
             (relationshipEndPath (rl_id r) (js ''source''))) (\<lambda>sourceTable.
     thenB (tableForClassifier p (re_elementId (rl_target r)) [rl_id r, re_elementId (rl_target r)]
             (relationshipEndPath (rl_id r) (js ''target''))) (\<lambda>targetTable.
     thenB (associationClassIdColumn p r ac) (\<lambda>idColumn.
     let source = trace p [cl_id ac, rl_id r] [classifierPath (cl_id ac), relationshipPath (rl_id r)]
           (js ''association-class.table'');
         tableId = artifactId (js ''table_'' @ cl_id ac);
         ((firstTable, firstEnd), (secondTable, secondEnd)) =
           sortedPair (byKey (pl_compare p) relationshipEndpointKey)
             (sourceTable, rl_source r) (targetTable, rl_target r) in
     thenB (createRelationshipColumn p tableId firstTable firstEnd firstEnd r (idColumn = None)
             (js ''association-class.endpoint-key'') None) (\<lambda>firstColumn.
     thenB (createRelationshipColumn p tableId secondTable secondEnd secondEnd r (idColumn = None)
             (js ''association-class.endpoint-key'') None) (\<lambda>secondColumn.
     thenB (addColumn p firstColumn (associationClassTable p r ac
             (associationClassKey p ac idColumn firstColumn secondColumn source) source)) (\<lambda>(table, storedFirst).
     thenB (addColumn p secondColumn table) (\<lambda>(table, storedSecond).
     thenB (addOptionalColumn p idColumn table) (\<lambda>(table, storedId).
     thenB (addTable p (table\<lparr>tb_primaryKey :=
             associationClassKey p ac storedId storedFirst storedSecond source\<rparr>)) (\<lambda>stored.
     thenB (addForeignKeyForRelationship p stored storedFirst firstTable r
             (js ''association-class.endpoint-fk'') NO_ACTION) (\<lambda>_.
     thenB (addForeignKeyForRelationship p stored storedSecond secondTable r
             (js ''association-class.endpoint-fk'') NO_ACTION) (\<lambda>_.
     thenB (whenB (idColumn \<noteq> None)
             (addEndpointConstraint p r ac stored storedFirst storedSecond firstEnd secondEnd)) (\<lambda>_.
     thenB (forEachB (addAttributeToTable p stored ac) (sortedAttributes p (cl_attributes ac))) (\<lambda>_.
     info p (js ''ASSOCIATION_CLASS_TABLE'')
       (js ''Association class '' @ cl_name ac @ js (if idColumn \<noteq> None
          then '' uses its explicit id and a unique endpoint pair.''
          else '' is represented as a composite-key table.''))
       (relationshipPath (rl_id r)) [rl_id r, cl_id ac])))))))))))))"

definition buildAssociationClassTables :: "platform \<Rightarrow> unit build" where
  "buildAssociationClassTables p =
     thenB (getB (\<lambda>st. dg_relationships (cm_diagram (bs_canonical st)))) (\<lambda>rs.
       forEachB (\<lambda>r.
         if \<not> truthy (rl_associationClassId r) then ret ()
         else let i = textOf (rl_associationClassId r) in
           thenB (getB (\<lambda>st. mapGet (bs_classifiers st) i)) (\<lambda>found.
             if found = None \<or> \<not> is_class (the found) then
               failB p (js ''ASSOCIATION_CLASS_NOT_FOUND'')
                 (js ''Association class '' @ i @ js '' is not a persistable class.'')
                 (Some (relationshipPath (rl_id r))) [rl_id r, i]
             else buildAssociationClassTable p r (the found)))
         (sortedRelationships p rs))"

section \<open>Inheritance\<close>

text \<open>The key column of a joined subclass: the one it had, with the type of the parent's.\<close>

definition joinedColumn ::
  "platform \<Rightarrow> uml_relationship \<Rightarrow> uml_classifier \<Rightarrow> uml_classifier \<Rightarrow> relational_column \<Rightarrow> relational_column
   \<Rightarrow> relational_column" where
  "joinedColumn p r source target childId parentId = childId\<lparr>
     co_generated := False, co_defaultValue := None, co_javaType := co_javaType parentId,
     co_postgresType := co_postgresType parentId, co_umlType := co_umlType parentId, co_nullable := False,
     co_source := trace p ([rl_id r, cl_id source, cl_id target] @ tc_sourceIds (co_source childId))
       (relationshipPath (rl_id r) # tc_sourcePaths (co_source childId)) (js ''identifier.joined-parent'')\<rparr>"

definition buildGeneralization :: "platform \<Rightarrow> uml_relationship \<Rightarrow> unit build" where
  "buildGeneralization p r =
     thenB (getB (\<lambda>st. (mapGet (bs_classifiers st) (re_elementId (rl_source r)),
                         mapGet (bs_classifiers st) (re_elementId (rl_target r))))) (\<lambda>(source, target).
     let path = relationshipPath (rl_id r) in
     if source = None \<or> target = None \<or> \<not> is_class (the source) \<or> \<not> is_class (the target) then
       info p (js ''INTERFACE_INHERITANCE_NOT_PERSISTED'')
         (js ''Interface inheritance is not materialized as a JOINED table hierarchy.'') path
         [rl_id r, re_elementId (rl_source r), re_elementId (rl_target r)]
     else let source = the source; target = the target; ids = [rl_id r, cl_id source, cl_id target] in
       thenB (tableForClassifier p (cl_id source) [rl_id r, cl_id source] path) (\<lambda>childTable.
       thenB (tableForClassifier p (cl_id target) [rl_id r, cl_id target] path) (\<lambda>parentTable.
       thenB (tableOf childTable) (\<lambda>child.
       thenB (whenB (\<exists>ih \<in> set_option (tb_inheritance child). ih_role ih = SubclassRole)
               (failB p (js ''MULTIPLE_INHERITANCE_PARENTS'')
                 (js ''Class '' @ cl_name source @ js '' has more than one JOINED parent.'') (Some path) ids)) (\<lambda>_.
       thenB (requireSinglePrimaryKey p childTable path ids) (\<lambda>childId.
       thenB (requireSinglePrimaryKey p parentTable path ids) (\<lambda>parentId.
       thenB (whenB (\<not> co_generated childId \<and> \<not> co_generated parentId
                   \<and> (co_javaType childId \<noteq> co_javaType parentId \<or> co_postgresType childId \<noteq> co_postgresType parentId))
               (failB p (js ''JOINED_IDENTIFIER_TYPE_MISMATCH'')
                 (js ''JOINED subclass '' @ cl_name source @ js '' must reuse the identifier type of ''
                   @ cl_name target @ js ''.'') (Some path) ids)) (\<lambda>_.
       thenB (onTable childTable (\<lambda>t. ret (t\<lparr>tb_columns := map (\<lambda>c. if co_id c = co_id childId
                 then joinedColumn p r source target childId parentId else c) (tb_columns t)\<rparr>, ()))) (\<lambda>_.
       thenB (info p (js ''JOINED_IDENTIFIER_REUSED'')
               (js ''JOINED subclass '' @ cl_name source @ js '' reuses the primary-key type of ''
                 @ cl_name target @ js ''.'') path ids) (\<lambda>_.
       thenB (onTable childTable (\<lambda>t. ret (t\<lparr>tb_inheritance := Some
               \<lparr>ih_role = SubclassRole, ih_parentTableId = Some parentTable,
                ih_parentColumnIds = Some [co_id parentId],
                ih_source = trace p ids [path] (js ''inheritance.joined-subclass'')\<rparr>\<rparr>, ()))) (\<lambda>_.
       thenB (tableOf parentTable) (\<lambda>parent.
         onTable childTable (addForeignKey p
           \<lparr>fk_id = artifactId (js ''fk_'' @ childTable @ js ''_joined_parent''),
            fk_physicalName = constraintName p (js ''fk_'' @ tb_physicalName child @ js ''_'' @ tb_physicalName parent),
            fk_columnIds = [co_id childId], fk_referencedTableId = parentTable,
            fk_referencedColumnIds = [co_id parentId], fk_sourceMultiplicity = None, fk_targetMultiplicity = None,
            fk_onDelete = CASCADE,
            fk_source = trace p ids [path] (js ''inheritance.joined-primary-key-fk'')\<rparr>)))))))))))))"

end
