(* ===== verification/Relational_Associations.thy ===== *)
theory Relational_Associations
  imports Relational_Passes
begin

text \<open>
  Associations, aggregations and compositions as columns or join tables, and the whole of
  \<open>generateRelationalModel\<close>, src/src/modules/generation/relational-model/relational-model.transformer.ts.
\<close>

section \<open>Multiplicities of a relationship\<close>

definition reportMultiplicityPolicy :: "platform \<Rightarrow> uml_relationship \<Rightarrow> unit build" where
  "reportMultiplicityPolicy p r =
     (let path = relationshipPath (rl_id r);
          ids = [rl_id r, re_elementId (rl_source r), re_elementId (rl_target r)] in
      thenB (parseMultiplicity (re_multiplicity (rl_source r))) (\<lambda>s.
      thenB (parseMultiplicity (re_multiplicity (rl_target r))) (\<lambda>t.
      thenB (whenB (\<exists>b \<in> {s, t}. snd b = Some 0)
              (failB p (js ''ZERO_MULTIPLICITY_UNSUPPORTED'')
                (js ''A relationship end with upper multiplicity 0 has no relational representation.'')
                (Some path) ids)) (\<lambda>_.
      whenB (\<exists>b \<in> {s, t}. fst b > 1 \<or> (\<exists>u \<in> set_option (snd b). u > 1))
        (warning p (js ''MULTIPLICITY_RANGE_NOT_ENFORCED'')
          (js ''Finite UML multiplicity bounds above one are preserved on foreign keys but are not enforced by this relational contract.'')
          path ids)))))"

section \<open>One to one, one to many\<close>

text \<open>The end that owns the foreign key of a one-to-one relationship (true for the source), and
  whether the identifiers decided.\<close>

definition chooseOneToOneOwner :: "platform \<Rightarrow> uml_relationship \<Rightarrow> jstring \<Rightarrow> jstring \<Rightarrow> bool \<times> bool" where
  "chooseOneToOneOwner p r sourceTable targetTable =
     (if re_navigable (rl_source r) \<noteq> re_navigable (rl_target r) then (\<not> re_navigable (rl_source r), False)
      else (pl_compare p sourceTable targetTable \<le> 0, True))"

definition trimmedName :: "uml_relationship \<Rightarrow> jstring" where
  "trimmedName r = or_else (case rl_name r of None \<Rightarrow> [] | Some n \<Rightarrow> js_trim n) (rl_id r)"

definition referenceLogicalName :: "platform \<Rightarrow> relational_table \<Rightarrow> jstring \<Rightarrow> uml_relationship \<Rightarrow> jstring" where
  "referenceLogicalName p owner logicalName r =
     (let names = co_physicalName ` set (tb_columns owner);
          named = logicalName @ js ''_'' @ trimmedName r in
      if referenceColumnPhysicalName p logicalName \<notin> names then logicalName
      else if referenceColumnPhysicalName p named \<notin> names then named
      else logicalName @ js ''_'' @ rl_id r)"

text \<open>The column for a relationship in the table of the end \<open>ownerEnd\<close>.\<close>

definition addRelationshipColumn ::
  "platform \<Rightarrow> uml_relationship \<Rightarrow> jstring \<Rightarrow> jstring \<Rightarrow> relationship_end \<Rightarrow> relationship_end \<Rightarrow> bool \<Rightarrow> string \<Rightarrow> unit build"
where
  "addRelationshipColumn p r ownerTable referencedTable ownerEnd referencedEnd uniq rule =
     thenB (tableOf ownerTable) (\<lambda>owner.
     thenB (tableOf referencedTable) (\<lambda>referenced.
     let name = referenceLogicalName p owner (or_else (re_role referencedEnd) (tb_logicalName referenced)) r in
     thenB (lowerBound (re_multiplicity referencedEnd)) (\<lambda>lower.
     thenB (addReferenceColumn p ownerTable referencedTable name (tb_logicalName referenced) (lower = 0) uniq
       [rl_id r, re_elementId ownerEnd, re_elementId referencedEnd]
       [relationshipPath (rl_id r), relationshipEndpointPath p r ownerEnd,
        relationshipEndpointPath p r referencedEnd]
       (js ''relationship.'' @ kind_text (rl_kind r) @ js rule) NO_ACTION (Some r)) (\<lambda>_. ret ()))))"

definition buildComposition :: "platform \<Rightarrow> uml_relationship \<Rightarrow> jstring \<Rightarrow> jstring \<Rightarrow> unit build" where
  "buildComposition p r ownerTable partTable =
     (let ids = [rl_id r, re_elementId (rl_source r), re_elementId (rl_target r)] in
      thenB (parseMultiplicity (re_multiplicity (rl_source r))) (\<lambda>(ownerLower, ownerUpper).
      thenB (whenB (case ownerUpper of None \<Rightarrow> True | Some n \<Rightarrow> n > 1)
              (failB p (js ''COMPOSITION_MULTIPLE_OWNERS_UNSUPPORTED'')
                (js ''Composition requires source to be the owner and each part to have at most one owner.'')
                (Some (relationshipEndPath (rl_id r) (js ''source''))) ids)) (\<lambda>_.
      thenB (parseMultiplicity (re_multiplicity (rl_target r))) (\<lambda>(partLower, partUpper).
      thenB (tableOf partTable) (\<lambda>part.
      thenB (tableOf ownerTable) (\<lambda>owner.
      let name = referenceLogicalName p part (or_else (re_role (rl_source r)) (tb_logicalName owner)) r in
      thenB (addReferenceColumn p partTable ownerTable name (tb_logicalName owner) (ownerLower = 0)
        (case partUpper of None \<Rightarrow> False | Some n \<Rightarrow> n \<le> 1) ids
        [relationshipPath (rl_id r), relationshipEndpointPath p r (rl_source r),
         relationshipEndpointPath p r (rl_target r)]
        (js ''relationship.composition.owner-to-part'') CASCADE (Some r)) (\<lambda>_. ret ()))))))) "

section \<open>Join tables\<close>

text \<open>Whether a relationship gets a join table; asked of every relationship of the diagram.\<close>

definition isJoinRelationship :: "uml_relationship \<Rightarrow> bool build" where
  "isJoinRelationship r =
     (if truthy (rl_associationClassId r) \<or> rl_kind r \<notin> {Association, Aggregation} then ret False
      else thenB (isMany (re_multiplicity (rl_source r))) (\<lambda>many.
        if many then isMany (re_multiplicity (rl_target r)) else ret False))"

definition relationshipTablePairKey :: "uml_relationship \<Rightarrow> jstring" where
  "relationshipTablePairKey r =
     (case sortedPair compareUnits (re_elementId (rl_source r)) (re_elementId (rl_target r)) of
        (i, j) \<Rightarrow> js_join (js ''|'') [i, j])"

fun filterB :: "('a \<Rightarrow> bool build) \<Rightarrow> 'a list \<Rightarrow> 'a list build" where
  "filterB f [] = ret []"
| "filterB f (x # xs) = thenB (f x) (\<lambda>b. thenB (filterB f xs) (\<lambda>ys. ret (if b then x # ys else ys)))"

definition joinTablePhysicalName ::
  "platform \<Rightarrow> uml_relationship \<Rightarrow> jstring \<Rightarrow> jstring \<Rightarrow> jstring build" where
  "joinTablePhysicalName p r sourceTable targetTable =
     thenB (tableOf sourceTable) (\<lambda>source.
     thenB (tableOf targetTable) (\<lambda>target.
     let (firstName, secondName) = sortedPair compareUnits (tb_physicalName source) (tb_physicalName target);
         (firstRole, secondRole) = sortedPair compareUnits
           (toPhysicalName p (or_else (re_role (rl_source r)) (js ''source'')))
           (toPhysicalName p (or_else (re_role (rl_target r)) (js ''target'')));
         base = (if sourceTable = targetTable then firstName @ js ''_'' @ js_join (js ''_'') [firstRole, secondRole]
                 else js_join (js ''_'') [firstName, secondName]) in
     thenB (getB (\<lambda>st. dg_relationships (cm_diagram (bs_canonical st)))) (\<lambda>rs.
     thenB (filterB (\<lambda>q. thenB (isJoinRelationship q) (\<lambda>join. ret (join \<and> rl_kind q = rl_kind r
              \<and> relationshipTablePairKey q = relationshipTablePairKey r))) rs) (\<lambda>parallel.
     ret (if length parallel \<le> 1 then toPhysicalName p base
       else toPhysicalName p (base @ js ''_'' @ trimmedName r
         @ (if length (filter (\<lambda>q. trimmedName q = trimmedName r) parallel) > 1
            then js ''_'' @ rl_id r else [])))))))"

text \<open>The name of the column of an end; ends with the same name are told apart by their element.\<close>

definition joinEndpointLogicalName ::
  "platform \<Rightarrow> (relational_table \<times> relationship_end) list \<Rightarrow> relational_table \<times> relationship_end \<Rightarrow> nat \<Rightarrow> jstring" where
  "joinEndpointLogicalName p endpoints endpoint index =
     (let logicalNameOf = (\<lambda>(t, e). or_else (re_role e) (tb_logicalName t));
          (t, e) = endpoint; logicalName = logicalNameOf endpoint;
          duplicateCount = length (filter (\<lambda>q. referenceColumnPhysicalName p (logicalNameOf q)
            = referenceColumnPhysicalName p logicalName) endpoints)
      in if duplicateCount = 1 then logicalName
         else logicalName @ js ''_'' @ js_join (js ''_'') [re_elementId e, or_else (re_role e) (js ''endpoint''),
           re_multiplicity e] @ js ''_'' @ show_nat index)"

definition joinTable ::
  "platform \<Rightarrow> uml_relationship \<Rightarrow> jstring \<Rightarrow> relational_table \<Rightarrow> relational_table \<Rightarrow> relational_key \<Rightarrow> traceability
   \<Rightarrow> relational_table" where
  "joinTable p r physicalName first second primaryKey source =
     \<lparr>tb_id = artifactId (js ''table_relation_'' @ rl_id r),
      tb_logicalName = boundedLogicalName (if truthy (rl_name r) then textOf (rl_name r)
        else (case sortedPair compareUnits (tb_logicalName first) (tb_logicalName second) of
                (m, n) \<Rightarrow> js_join (js ''_'') [m, n])),
      tb_physicalName = physicalName,
      tb_javaEntityName = toJavaTypeName p (tb_javaEntityName first @ tb_javaEntityName second @ js ''Join''),
      tb_kind = JoinTable, tb_isAbstract = None, tb_sourceClassifierId = None,
      tb_sourceRelationshipId = Some (rl_id r), tb_columns = [], tb_primaryKey = primaryKey,
      tb_foreignKeys = [], tb_uniqueConstraints = [], tb_inheritance = None, tb_source = source\<rparr>"

definition createJoinTable :: "platform \<Rightarrow> uml_relationship \<Rightarrow> jstring \<Rightarrow> jstring \<Rightarrow> unit build" where
  "createJoinTable p r sourceTable targetTable =
     (let tableId = artifactId (js ''table_relation_'' @ rl_id r);
          ((firstTable, firstEnd), (secondTable, secondEnd)) =
            sortedPair (byKey (pl_compare p) relationshipEndpointKey)
              (sourceTable, rl_source r) (targetTable, rl_target r) in
      thenB (tableOf firstTable) (\<lambda>first.
      thenB (tableOf secondTable) (\<lambda>second.
      let endpoints = [(first, firstEnd), (second, secondEnd)] in
      thenB (createRelationshipColumn p tableId firstTable firstEnd firstEnd r True (js ''join.endpoint-key'')
              (Some (joinEndpointLogicalName p endpoints (first, firstEnd) 0))) (\<lambda>firstColumn.
      thenB (createRelationshipColumn p tableId secondTable secondEnd secondEnd r True (js ''join.endpoint-key'')
              (Some (joinEndpointLogicalName p endpoints (second, secondEnd) 1))) (\<lambda>secondColumn.
      thenB (joinTablePhysicalName p r sourceTable targetTable) (\<lambda>physicalName.
      let source = trace p [rl_id r, re_elementId (rl_source r), re_elementId (rl_target r)]
            [relationshipPath (rl_id r), relationshipEndpointPath p r (rl_source r),
             relationshipEndpointPath p r (rl_target r)] (js ''relationship.many-to-many-join-table'');
          key = (\<lambda>c d. primaryKeyForTable p tableId physicalName (co_id c) source [co_id d]);
          table = joinTable p r physicalName first second (key firstColumn secondColumn) source in
      thenB (addColumn p firstColumn table) (\<lambda>(table, storedFirst).
      thenB (addColumn p secondColumn table) (\<lambda>(table, storedSecond).
      thenB (addTable p (table\<lparr>tb_primaryKey := key storedFirst storedSecond\<rparr>)) (\<lambda>stored.
      thenB (addForeignKeyForRelationship p stored storedFirst firstTable r (js ''join.endpoint-fk'') NO_ACTION) (\<lambda>_.
      addForeignKeyForRelationship p stored storedSecond secondTable r (js ''join.endpoint-fk'') NO_ACTION))))))))))"

section \<open>Associations\<close>

definition buildAssociation :: "platform \<Rightarrow> uml_relationship \<Rightarrow> unit build" where
  "buildAssociation p r =
     thenB (getB (\<lambda>st. (mapGet (bs_classifiers st) (re_elementId (rl_source r)),
                         mapGet (bs_classifiers st) (re_elementId (rl_target r))))) (\<lambda>(source, target).
     let path = relationshipPath (rl_id r); ids = [rl_id r, re_elementId (rl_source r), re_elementId (rl_target r)] in
     if source = None \<or> target = None \<or> \<not> is_class (the source) \<or> \<not> is_class (the target) then
       warning p (js ''INTERFACE_ASSOCIATION_NOT_PERSISTED'')
         (js ''Associations involving interfaces are not materialized in 6A.1.'') path ids
     else
       thenB (tableForClassifier p (cl_id (the source)) [rl_id r, cl_id (the source)] path) (\<lambda>sourceTable.
       thenB (tableForClassifier p (cl_id (the target)) [rl_id r, cl_id (the target)] path) (\<lambda>targetTable.
       thenB (reportMultiplicityPolicy p r) (\<lambda>_.
       if rl_kind r = Composition then buildComposition p r sourceTable targetTable
       else
         thenB (isMany (re_multiplicity (rl_source r))) (\<lambda>sourceMany.
         thenB (isMany (re_multiplicity (rl_target r))) (\<lambda>targetMany.
         if sourceMany \<and> targetMany then createJoinTable p r sourceTable targetTable
         else if \<not> sourceMany \<and> \<not> targetMany then
           let (ownerIsSource, tieBreak) = chooseOneToOneOwner p r sourceTable targetTable in
           thenB (whenB tieBreak (warning p (js ''ONE_TO_ONE_OWNER_TIE_BREAK'')
             (js ''Both 1:1 endpoints are equally navigable; the endpoint with the stable classifier ID owns the FK.'')
             path ids)) (\<lambda>_.
           if ownerIsSource
           then addRelationshipColumn p r sourceTable targetTable (rl_source r) (rl_target r) True ''.one-to-one''
           else addRelationshipColumn p r targetTable sourceTable (rl_target r) (rl_source r) True ''.one-to-one'')
         else if targetMany
           then addRelationshipColumn p r targetTable sourceTable (rl_target r) (rl_source r) False ''.foreign-key''
           else addRelationshipColumn p r sourceTable targetTable (rl_source r) (rl_target r) False ''.foreign-key''))))))"

definition buildRelationship :: "platform \<Rightarrow> uml_relationship \<Rightarrow> unit build" where
  "buildRelationship p r =
     (let path = relationshipPath (rl_id r); ids = [rl_id r, re_elementId (rl_source r), re_elementId (rl_target r)]
      in case rl_kind r of
        Generalization \<Rightarrow> ret ()
      | Realization \<Rightarrow> info p (js ''REALIZATION_NOT_PERSISTED'')
          (js ''Interface realization is not a relational persistence artifact.'') path ids
      | Dependency \<Rightarrow> info p (js ''DEPENDENCY_NOT_PERSISTED'')
          (js ''Dependency is not a relational persistence artifact.'') path ids
      | _ \<Rightarrow> if truthy (rl_associationClassId r) then ret () else buildAssociation p r)"

definition buildRelationships :: "platform \<Rightarrow> unit build" where
  "buildRelationships p =
     thenB (getB (\<lambda>st. dg_relationships (cm_diagram (bs_canonical st)))) (\<lambda>rs.
     thenB (forEachB (buildGeneralization p) (sortedGeneralizations p rs)) (\<lambda>_.
       forEachB (buildRelationship p) (sortedRelationships p rs)))"

section \<open>The model\<close>

definition compareColumns :: "platform \<Rightarrow> relational_column \<Rightarrow> relational_column \<Rightarrow> int" where
  "compareColumns p c d = (if co_primaryKey c \<noteq> co_primaryKey d then (if co_primaryKey c then -1 else 1)
     else pl_compare p (co_id c) (co_id d))"

definition normalizeTable :: "platform \<Rightarrow> relational_table \<Rightarrow> relational_table" where
  "normalizeTable p t = t\<lparr>tb_columns := toSorted (compareColumns p) (tb_columns t),
     tb_foreignKeys := toSorted (byKey (pl_compare p) fk_id) (tb_foreignKeys t),
     tb_uniqueConstraints := toSorted (byKey (pl_compare p) ky_id) (tb_uniqueConstraints t)\<rparr>"

definition severity_rank :: "severity \<Rightarrow> int" where
  "severity_rank s = (case s of ErrorSeverity \<Rightarrow> 0 | WarningSeverity \<Rightarrow> 1 | InfoSeverity \<Rightarrow> 2)"

definition first_nonzero :: "int list \<Rightarrow> int" where
  "first_nonzero ns = (case filter (\<lambda>n. n \<noteq> 0) ns of [] \<Rightarrow> 0 | n # _ \<Rightarrow> n)"

definition compareDiagnostics :: "platform \<Rightarrow> relational_diagnostic \<Rightarrow> relational_diagnostic \<Rightarrow> int" where
  "compareDiagnostics p l r = first_nonzero
     [severity_rank (rd_severity l) - severity_rank (rd_severity r),
      pl_compare p (rd_code l) (rd_code r),
      pl_compare p (case rd_path l of None \<Rightarrow> [] | Some s \<Rightarrow> s) (case rd_path r of None \<Rightarrow> [] | Some s \<Rightarrow> s),
      pl_compare p (rd_message l) (rd_message r)]"

definition toModel :: "platform \<Rightarrow> build_state \<Rightarrow> relational_model" where
  "toModel p st = \<lparr>rm_projectId = pr_id (cm_project (bs_canonical st)),
     rm_projectName = pr_name (cm_project (bs_canonical st)),
     rm_tables = map (normalizeTable p) (toSorted (byKey (pl_compare p) tb_id) (mapValues (bs_tables st))),
     rm_diagnostics = toSorted (compareDiagnostics p) (bs_diagnostics st)\<rparr>"

definition buildAll :: "platform \<Rightarrow> unit build" where
  "buildAll p = thenB (buildEntityTables p) (\<lambda>_. thenB (buildAssociationClassTables p) (\<lambda>_.
     thenB (buildClassifierAttributes p) (\<lambda>_. buildRelationships p)))"

end
