(* ===== verification/Relational_Contract.thy ===== *)
theory Relational_Contract
  imports Relational_Associations
begin

text \<open>
  src/src/modules/generation/relational-model/relational-model.validator.ts: the semantic check of a
  relational model, with all of its issues in order, and \<open>generateRelationalModel\<close>, which runs the
  passes and the check. The JSON schema of the contract is interpreted by a library: its issues are the
  argument \<open>contract\<close>.
\<close>

section \<open>Issues\<close>

definition semanticIssue :: "jstring \<Rightarrow> jstring \<Rightarrow> validation_issue" where
  "semanticIssue path message = \<lparr>is_path = path, is_keyword = js ''semantic'', is_message = message\<rparr>"

definition issue_if :: "bool \<Rightarrow> jstring \<Rightarrow> jstring \<Rightarrow> validation_issue list" where
  "issue_if c path message = (if c then [semanticIssue path message] else [])"

text \<open>\<open>for (const [i, x] of xs.entries())\<close> collecting issues, without and with a state.\<close>

fun entryIssues :: "(nat \<Rightarrow> 'a \<Rightarrow> validation_issue list) \<Rightarrow> nat \<Rightarrow> 'a list \<Rightarrow> validation_issue list" where
  "entryIssues f i [] = []"
| "entryIssues f i (x # xs) = f i x @ entryIssues f (Suc i) xs"

fun entryIssuesWith :: "(nat \<Rightarrow> 'a \<Rightarrow> 's \<Rightarrow> validation_issue list \<times> 's) \<Rightarrow> nat \<Rightarrow> 'a list \<Rightarrow> 's
  \<Rightarrow> validation_issue list \<times> 's" where
  "entryIssuesWith f i [] s = ([], s)"
| "entryIssuesWith f i (x # xs) s =
     (case f i x s of (issues, s') \<Rightarrow>
        (case entryIssuesWith f (Suc i) xs s' of (rest, s'') \<Rightarrow> (issues @ rest, s'')))"

definition tablesById :: "relational_table list \<Rightarrow> (jstring, relational_table) jmap" where
  "tablesById ts = foldl (\<lambda>m t. mapSet (tb_id t) t m) [] ts"

definition columnsById :: "relational_column list \<Rightarrow> (jstring, relational_column) jmap" where
  "columnsById cs = foldl (\<lambda>m c. mapSet (co_id c) c m) [] cs"

section \<open>Names of tables\<close>

type_synonym table_names = "jstring set \<times> jstring set \<times> jstring set"

definition tableNameIssues :: "nat \<Rightarrow> relational_table \<Rightarrow> table_names \<Rightarrow> validation_issue list \<times> table_names" where
  "tableNameIssues i t = (\<lambda>(ids, tableNames, entityNames).
     let tablePath = js ''/tables/'' @ show_nat i in
     (issue_if (tb_id t \<in> ids) (tablePath @ js ''/id'') (js ''duplicates table identifier '' @ tb_id t @ js ''.'')
      @ issue_if (tb_physicalName t \<in> tableNames) (tablePath @ js ''/physicalName'')
          (js ''duplicates physical table name '' @ tb_physicalName t @ js ''.'')
      @ issue_if (tb_javaEntityName t \<in> entityNames) (tablePath @ js ''/javaEntityName'')
          (js ''duplicates Java entity name '' @ tb_javaEntityName t @ js ''.''),
      (insert (tb_id t) ids, insert (tb_physicalName t) tableNames, insert (tb_javaEntityName t) entityNames)))"

section \<open>Columns\<close>

definition javaTypesByPostgresType :: "(string \<times> string list) list" where
  "javaTypesByPostgresType =
    [(''varchar(255)'', [''String'']), (''text'', [''String'']), (''char'', [''Character'', ''String'']),
     (''boolean'', [''Boolean'']), (''smallint'', [''Byte'', ''Short'']), (''integer'', [''Integer'']),
     (''bigint'', [''Long'']), (''real'', [''Float'']), (''double precision'', [''Double'']),
     (''numeric(19,2)'', [''BigDecimal'']), (''numeric(38,0)'', [''BigInteger'']), (''date'', [''LocalDate'']),
     (''timestamp(3)'', [''LocalDateTime'']), (''timestamptz(3)'', [''Instant'']), (''uuid'', [''UUID'']),
     (''bytea'', [''byte[]'']), (''jsonb'', [''JsonNode''])]"

definition compatibleTypes :: "jstring \<Rightarrow> jstring \<Rightarrow> bool" where
  "compatibleTypes javaType postgresType \<longleftrightarrow>
     (\<exists>(d, js_types) \<in> set javaTypesByPostgresType. postgresType = js d \<and> javaType \<in> set (map js js_types))"

definition isForeignKeyColumn :: "relational_table \<Rightarrow> relational_column \<Rightarrow> bool" where
  "isForeignKeyColumn t c \<longleftrightarrow> (\<exists>k \<in> set (tb_foreignKeys t). co_id c \<in> set (fk_columnIds k))"

definition columnIssues ::
  "relational_table \<Rightarrow> jstring \<Rightarrow> nat \<Rightarrow> relational_column \<Rightarrow> table_names \<Rightarrow> validation_issue list \<times> table_names" where
  "columnIssues t tablePath i c = (\<lambda>(ids, physicalColumns, javaProperties).
     let columnPath = tablePath @ js ''/columns/'' @ show_nat i in
     (issue_if (co_id c \<in> ids) (columnPath @ js ''/id'') (js ''duplicates column identifier '' @ co_id c @ js ''.'')
      @ issue_if (co_physicalName c \<in> physicalColumns) (columnPath @ js ''/physicalName'')
          (js ''duplicates physical column name '' @ tb_physicalName t @ js ''.'' @ co_physicalName c @ js ''.'')
      @ issue_if (co_javaPropertyName c \<in> javaProperties) (columnPath @ js ''/javaPropertyName'')
          (js ''duplicates Java property name '' @ tb_javaEntityName t @ js ''.'' @ co_javaPropertyName c @ js ''.'')
      @ issue_if (\<not> isForeignKeyColumn t c \<and> \<not> compatibleTypes (co_javaType c) (co_postgresType c))
          (columnPath @ js ''/javaType'')
          (js ''Java type '' @ co_javaType c @ js '' is not compatible with PostgreSQL type '' @ co_postgresType c @ js ''.''),
      (insert (co_id c) ids, insert (co_physicalName c) physicalColumns,
       insert (co_javaPropertyName c) javaProperties)))"

definition primaryKeyIssues :: "relational_table \<Rightarrow> jstring \<Rightarrow> nat \<Rightarrow> jstring \<Rightarrow> validation_issue list" where
  "primaryKeyIssues t tablePath i columnId =
     (let path = tablePath @ js ''/primaryKey/columnIds/'' @ show_nat i in
      case mapGet (columnsById (tb_columns t)) columnId of
        None \<Rightarrow> [semanticIssue path (js ''references missing column '' @ columnId @ js ''.'')]
      | Some c \<Rightarrow> if \<not> co_primaryKey c
          then [semanticIssue path (js ''references a column that is not marked primaryKey.'')]
          else issue_if (co_nullable c) path (js ''primary-key columns cannot be nullable.''))"

definition undeclaredIssues :: "relational_table \<Rightarrow> jstring \<Rightarrow> nat \<Rightarrow> relational_column \<Rightarrow> validation_issue list" where
  "undeclaredIssues t tablePath i c =
     issue_if (co_primaryKey c \<and> co_id c \<notin> set (ky_columnIds (tb_primaryKey t)))
       (tablePath @ js ''/columns/'' @ show_nat i @ js ''/primaryKey'')
       (js ''primaryKey columns must be declared by the table primary key.'')"

section \<open>Constraints\<close>

text \<open>The names of constraints so far, those of tables and indexes of the whole schema so far, and the
  identifiers of the constraints of the same kind.\<close>

record constraint_names =
  cn_constraints :: "jstring set"
  cn_relations :: "jstring set"
  cn_ids :: "jstring set"

definition registerConstraintName :: "jstring \<Rightarrow> jstring \<Rightarrow> constraint_names \<Rightarrow> validation_issue list \<times> constraint_names" where
  "registerConstraintName name path s =
     (issue_if (name \<in> cn_constraints s) path (js ''duplicates constraint name '' @ name @ js ''.''),
      s\<lparr>cn_constraints := insert name (cn_constraints s)\<rparr>)"

definition registerIndexBackedConstraintName ::
  "jstring \<Rightarrow> jstring \<Rightarrow> constraint_names \<Rightarrow> validation_issue list \<times> constraint_names" where
  "registerIndexBackedConstraintName name path s =
     (issue_if (name \<in> cn_relations s) path (js ''duplicates schema-wide relation name '' @ name @ js ''.''),
      s\<lparr>cn_relations := insert name (cn_relations s)\<rparr>)"

definition registerKeyName :: "jstring \<Rightarrow> jstring \<Rightarrow> constraint_names \<Rightarrow> validation_issue list \<times> constraint_names" where
  "registerKeyName name path s =
     (case registerConstraintName name path s of (issues, s') \<Rightarrow>
        (case registerIndexBackedConstraintName name path s' of (rest, s'') \<Rightarrow> (issues @ rest, s'')))"

definition missingColumnIssues ::
  "relational_table \<Rightarrow> jstring \<Rightarrow> string \<Rightarrow> nat \<Rightarrow> jstring \<Rightarrow> validation_issue list" where
  "missingColumnIssues t path message i columnId =
     issue_if (mapGet (columnsById (tb_columns t)) columnId = None)
       (path @ js ''/columnIds/'' @ show_nat i) (js message @ columnId @ js ''.'')"

definition uniqueIssues ::
  "relational_table \<Rightarrow> jstring \<Rightarrow> nat \<Rightarrow> relational_key \<Rightarrow> constraint_names \<Rightarrow> validation_issue list \<times> constraint_names" where
  "uniqueIssues t tablePath i k s =
     (let path = tablePath @ js ''/uniqueConstraints/'' @ show_nat i in
      case registerKeyName (ky_physicalName k) (path @ js ''/physicalName'') s of (issues, s') \<Rightarrow>
        (issue_if (ky_id k \<in> cn_ids s) (path @ js ''/id'')
           (js ''duplicates unique constraint identifier '' @ ky_id k @ js ''.'')
         @ issues
         @ entryIssues (missingColumnIssues t path ''references missing column '') 0 (ky_columnIds k),
         s'\<lparr>cn_ids := insert (ky_id k) (cn_ids s')\<rparr>))"

definition isDeclaredKey :: "relational_table \<Rightarrow> jstring list \<Rightarrow> bool" where
  "isDeclaredKey t columnIds \<longleftrightarrow> columnIds = ky_columnIds (tb_primaryKey t)
     \<or> (\<exists>k \<in> set (tb_uniqueConstraints t). columnIds = ky_columnIds k)"

text \<open>The columns on both sides of a foreign key, by their positions.\<close>

definition typeIssues :: "relational_table \<Rightarrow> relational_table \<Rightarrow> jstring \<Rightarrow> nat \<Rightarrow> jstring \<times> jstring \<Rightarrow> validation_issue list" where
  "typeIssues t referenced path i = (\<lambda>(columnId, referencedId).
     (case (mapGet (columnsById (tb_columns t)) columnId, mapGet (columnsById (tb_columns referenced)) referencedId) of
        (Some localColumn, Some referencedColumn) \<Rightarrow>
          issue_if (co_postgresType localColumn \<noteq> co_postgresType referencedColumn)
            (path @ js ''/columnIds/'' @ show_nat i)
            (js ''foreign-key column '' @ columnId @ js '' type '' @ co_postgresType localColumn
              @ js '' must match referenced column '' @ co_postgresType referencedColumn @ js ''.'')
      | _ \<Rightarrow> []))"

definition referenceIssues ::
  "(jstring, relational_table) jmap \<Rightarrow> relational_table \<Rightarrow> jstring \<Rightarrow> foreign_key \<Rightarrow> validation_issue list" where
  "referenceIssues tables t path k =
     (case mapGet tables (fk_referencedTableId k) of
        None \<Rightarrow> [semanticIssue (path @ js ''/referencedTableId'')
                   (js ''references missing table '' @ fk_referencedTableId k @ js ''.'')]
      | Some referenced \<Rightarrow>
          entryIssues (\<lambda>i columnId. issue_if (mapGet (columnsById (tb_columns referenced)) columnId = None)
            (path @ js ''/referencedColumnIds/'' @ show_nat i)
            (js ''references missing column '' @ columnId @ js '' on '' @ tb_physicalName referenced @ js ''.''))
            0 (fk_referencedColumnIds k)
          @ issue_if (\<not> isDeclaredKey referenced (fk_referencedColumnIds k)) (path @ js ''/referencedColumnIds'')
              (js ''must reference the primary key or a unique constraint on '' @ tb_physicalName referenced @ js ''.'')
          @ (if length (fk_columnIds k) = length (fk_referencedColumnIds k)
             then entryIssues (typeIssues t referenced path) 0 (zip (fk_columnIds k) (fk_referencedColumnIds k))
             else []))"

definition foreignKeyIssues ::
  "(jstring, relational_table) jmap \<Rightarrow> relational_table \<Rightarrow> jstring \<Rightarrow> nat \<Rightarrow> foreign_key \<Rightarrow> constraint_names
   \<Rightarrow> validation_issue list \<times> constraint_names" where
  "foreignKeyIssues tables t tablePath i k s =
     (let path = tablePath @ js ''/foreignKeys/'' @ show_nat i in
      case registerConstraintName (fk_physicalName k) (path @ js ''/physicalName'') s of (issues, s') \<Rightarrow>
        (issue_if (fk_id k \<in> cn_ids s) (path @ js ''/id'')
           (js ''duplicates foreign-key identifier '' @ fk_id k @ js ''.'')
         @ issues
         @ entryIssues (missingColumnIssues t path ''references missing local column '') 0 (fk_columnIds k)
         @ referenceIssues tables t path k
         @ issue_if (length (fk_columnIds k) \<noteq> length (fk_referencedColumnIds k)) path
             (js ''foreign-key local and referenced column counts must match.'')
         @ issue_if ((fk_sourceMultiplicity k = None) \<noteq> (fk_targetMultiplicity k = None)) path
             (js ''relationship foreign keys must provide both UML multiplicities or neither.'')
         @ issue_if (fk_onDelete k = SET_NULL \<and> (\<exists>i \<in> set (fk_columnIds k).
               \<exists>c \<in> set_option (mapGet (columnsById (tb_columns t)) i). \<not> co_nullable c))
             (path @ js ''/onDelete'') (js ''SET_NULL foreign keys require nullable local columns.''),
         s'\<lparr>cn_ids := insert (fk_id k) (cn_ids s')\<rparr>))"

section \<open>Inheritance\<close>

definition is_subclass :: "relational_table \<Rightarrow> bool" where
  "is_subclass t \<longleftrightarrow> (\<exists>ih \<in> set_option (tb_inheritance t). ih_role ih = SubclassRole)"

definition is_root :: "relational_table \<Rightarrow> bool" where
  "is_root t \<longleftrightarrow> (\<exists>ih \<in> set_option (tb_inheritance t). ih_role ih = RootRole)"

definition parentIdOf :: "relational_table \<Rightarrow> jstring option" where
  "parentIdOf t = (case tb_inheritance t of None \<Rightarrow> None
     | Some ih \<Rightarrow> (if truthy (ih_parentTableId ih) then ih_parentTableId ih else None))"

text \<open>The loop ends since every round adds the identifier of a table to \<open>seen\<close>.\<close>

function inheritanceChain :: "(jstring, relational_table) jmap \<Rightarrow> jstring set \<Rightarrow> relational_table \<Rightarrow> jstring option" where
  "inheritanceChain tables seen current =
     (if \<not> is_subclass current
      then Some (js ''inheritance chain must terminate at a table with inheritance role root.'')
      else case parentIdOf current of None \<Rightarrow> None
      | Some parentId \<Rightarrow>
          (case mapGet tables parentId of None \<Rightarrow> None
           | Some parent \<Rightarrow>
               if tb_id parent \<in> seen then Some (js ''inheritance chain contains a cycle at '' @ tb_id parent @ js ''.'')
               else if is_root parent then None
               else if \<not> is_subclass parent
               then Some (js ''inheritance chain must terminate at a table with inheritance role root.'')
               else inheritanceChain tables (insert (tb_id parent) seen) parent))"
  by pat_completeness auto

lemma unseen_tables_less:
  "mapGet tables i = Some t \<Longrightarrow> tb_id t \<notin> seen \<Longrightarrow>
     card (tb_id ` set (mapValues tables) - insert (tb_id t) seen) < card (tb_id ` set (mapValues tables) - seen)"
proof -
  assume found: "mapGet tables i = Some t" "tb_id t \<notin> seen"
  then have "tb_id t \<in> tb_id ` set (mapValues tables) - seen"
    using mapGet_in_values [OF found(1)] by (simp add: imageI)
  then show ?thesis by (intro psubset_card_mono) auto
qed

termination inheritanceChain
  by (relation "measure (\<lambda>(tables, seen, current). card (tb_id ` set (mapValues tables) - seen))")
    (simp_all only: in_measure split_conv unseen_tables_less wf_measure not_False_eq_True)

declare inheritanceChain.simps [simp del]

definition inheritanceChainIssue :: "(jstring, relational_table) jmap \<Rightarrow> relational_table \<Rightarrow> jstring option" where
  "inheritanceChainIssue tables t = inheritanceChain tables {tb_id t} t"

definition joinedForeignKeys :: "relational_table \<Rightarrow> relational_table \<Rightarrow> jstring list \<Rightarrow> foreign_key list" where
  "joinedForeignKeys t parent parentColumnIds = filter (\<lambda>k. fk_referencedTableId k = tb_id parent
     \<and> fk_onDelete k = CASCADE \<and> fk_columnIds k = ky_columnIds (tb_primaryKey t)
     \<and> fk_referencedColumnIds k = parentColumnIds) (tb_foreignKeys t)"

definition subclassIssues ::
  "(jstring, relational_table) jmap \<Rightarrow> relational_table \<Rightarrow> jstring \<Rightarrow> jstring \<Rightarrow> jstring list \<Rightarrow> validation_issue list" where
  "subclassIssues tables t path parentTableId parentColumnIds =
     (case mapGet tables parentTableId of
        None \<Rightarrow> [semanticIssue (path @ js ''/parentTableId'')
                   (js ''references missing parent table '' @ parentTableId @ js ''.'')]
      | Some parent \<Rightarrow>
          entryIssues (\<lambda>i columnId. issue_if (columnId \<notin> co_id ` set (tb_columns parent))
            (path @ js ''/parentColumnIds/'' @ show_nat i)
            (js ''references missing parent column '' @ columnId @ js ''.'')) 0 parentColumnIds
          @ issue_if (parentColumnIds \<noteq> ky_columnIds (tb_primaryKey parent)) (path @ js ''/parentColumnIds'')
              (js ''must reference the primary key of '' @ tb_physicalName parent @ js ''.'')
          @ (case inheritanceChainIssue tables t of None \<Rightarrow> [] | Some message \<Rightarrow> [semanticIssue path message])
          @ (case joinedForeignKeys t parent parentColumnIds of [k] \<Rightarrow> []
             | [] \<Rightarrow> [semanticIssue path
                 (js ''subclass inheritance requires a cascading primary-key foreign key to its parent.'')]
             | _ \<Rightarrow> [semanticIssue path
                 (js ''subclass inheritance requires exactly one cascading primary-key foreign key to its parent.'')]))"

definition inheritanceIssues ::
  "(jstring, relational_table) jmap \<Rightarrow> relational_table \<Rightarrow> jstring \<Rightarrow> validation_issue list" where
  "inheritanceIssues tables t tablePath =
     (let path = tablePath @ js ''/inheritance'' in
      case tb_inheritance t of None \<Rightarrow> []
      | Some ih \<Rightarrow>
          if ih_role ih = SubclassRole then
            (if truthy (ih_parentTableId ih) \<and> ih_parentColumnIds ih \<noteq> None
             then subclassIssues tables t path (textOf (ih_parentTableId ih)) (the (ih_parentColumnIds ih))
             else [semanticIssue path
               (js ''subclass inheritance requires parentTableId and parentColumnIds.'')])
          else issue_if (truthy (ih_parentTableId ih) \<or> ih_parentColumnIds ih \<noteq> None) path
             (js ''root inheritance cannot declare parent table metadata.''))"

section \<open>The whole check\<close>

definition tableIssues ::
  "(jstring, relational_table) jmap \<Rightarrow> nat \<Rightarrow> relational_table \<Rightarrow> jstring set \<Rightarrow> validation_issue list \<times> jstring set" where
  "tableIssues tables i t relations =
     (let tablePath = js ''/tables/'' @ show_nat i;
          (keyIssues, s) = registerKeyName (ky_physicalName (tb_primaryKey t)) (tablePath @ js ''/primaryKey/physicalName'')
            \<lparr>cn_constraints = {}, cn_relations = relations, cn_ids = {}\<rparr>;
          (uniques, s') = entryIssuesWith (uniqueIssues t tablePath) 0 (tb_uniqueConstraints t) s;
          (foreigns, s'') = entryIssuesWith (foreignKeyIssues tables t tablePath) 0 (tb_foreignKeys t) (s'\<lparr>cn_ids := {}\<rparr>)
      in (keyIssues
          @ fst (entryIssuesWith (columnIssues t tablePath) 0 (tb_columns t) ({}, {}, {}))
          @ entryIssues (primaryKeyIssues t tablePath) 0 (ky_columnIds (tb_primaryKey t))
          @ entryIssues (undeclaredIssues t tablePath) 0 (tb_columns t)
          @ uniques @ foreigns @ inheritanceIssues tables t tablePath, cn_relations s''))"

definition validateRelationalModelSemantics :: "relational_model \<Rightarrow> validation_issue list" where
  "validateRelationalModelSemantics m =
     fst (entryIssuesWith tableNameIssues 0 (rm_tables m) ({}, {}, {}))
     @ fst (entryIssuesWith (tableIssues (tablesById (rm_tables m))) 0 (rm_tables m)
         (tb_physicalName ` set (rm_tables m)))"

definition assertRelationalModelContract ::
  "(relational_model \<Rightarrow> validation_issue list) \<Rightarrow> relational_model \<Rightarrow> validation_issue list + unit" where
  "assertRelationalModelContract contract m =
     (if contract m \<noteq> [] then Inl (contract m)
      else throwUnless (validateRelationalModelSemantics m = []) (validateRelationalModelSemantics m))"

section \<open>Generation\<close>

datatype generation_outcome = RelationalModelGenerationError "relational_diagnostic list"
  | OtherError build_error | CanonicalSyntaxError

definition issueDiagnostic :: "jstring \<Rightarrow> validation_issue \<Rightarrow> relational_diagnostic" where
  "issueDiagnostic code issue = \<lparr>rd_severity = ErrorSeverity, rd_code = code, rd_message = is_message issue,
     rd_path = Some (is_path issue), rd_sourceIds = None\<rparr>"

definition canonicalDiagnostic :: "validation_issue \<Rightarrow> relational_diagnostic" where
  "canonicalDiagnostic issue = issueDiagnostic (js (if is_keyword issue = js ''semantic''
     then ''CANONICAL_SEMANTIC_INVALID'' else ''CANONICAL_SCHEMA_INVALID'')) issue"

definition generateFrom ::
  "platform \<Rightarrow> (relational_model \<Rightarrow> validation_issue list) \<Rightarrow> canonical_model \<Rightarrow> generation_outcome + relational_model" where
  "generateFrom p contract canonical = (case buildAll p (initial_state canonical) of
     Inl (GenerationError diagnostics) \<Rightarrow> Inl (RelationalModelGenerationError diagnostics)
   | Inl e \<Rightarrow> Inl (OtherError e)
   | Inr (_, st) \<Rightarrow>
      (case assertRelationalModelContract contract (toModel p st) of
         Inl issues \<Rightarrow> Inl (RelationalModelGenerationError
           (map (issueDiagnostic (js ''RELATIONAL_CONTRACT_INVALID'')) issues))
       | Inr _ \<Rightarrow> Inr (toModel p st)))"

definition generateRelationalModel ::
  "platform \<Rightarrow> (relational_model \<Rightarrow> validation_issue list) \<Rightarrow> ('v \<Rightarrow> validation_issue list + canonical_model)
   \<Rightarrow> (jstring \<Rightarrow> jstring) \<Rightarrow> 'v \<Rightarrow> generation_outcome + relational_model" where
  "generateRelationalModel p contract schema lowerEs input =
     (case validateCanonicalModel schema lowerEs input of
        Inl (CanonicalModelValidationError issues) \<Rightarrow>
          Inl (RelationalModelGenerationError (map canonicalDiagnostic issues))
      | Inl BigIntSyntaxError \<Rightarrow> Inl CanonicalSyntaxError
      | Inr canonical \<Rightarrow> generateFrom p contract canonical)"

end
