(* ===== verification/Relational_Laws.thy ===== *)
theory Relational_Laws
  imports Relational_Contract
begin

text \<open>
  What the operations of \<open>BuildState\<close> keep. \<open>wpB m Q\<close> says that \<open>m\<close> ends with \<open>Q\<close>, or throws a
  generation error that reports an error; the plain errors of the source are excluded. The invariant says
  that the names of tables and columns are valid and tell them apart, that keys are made of columns that
  are there, and that foreign keys refer to the key of a table that is there.
\<close>

section \<open>Computations\<close>

definition reports_error :: "relational_diagnostic list \<Rightarrow> bool" where
  "reports_error ds \<longleftrightarrow> (\<exists>d \<in> set ds. rd_severity d = ErrorSeverity)"

definition tolerated :: "build_error \<Rightarrow> bool" where
  "tolerated e \<longleftrightarrow> (\<exists>ds. e = GenerationError ds \<and> reports_error ds)"

definition wpB :: "'a build \<Rightarrow> ('a \<Rightarrow> build_state \<Rightarrow> bool) \<Rightarrow> build_state \<Rightarrow> bool" where
  "wpB m Q st = (case m st of Inl e \<Rightarrow> tolerated e | Inr (x, st') \<Rightarrow> Q x st')"

named_theorems wpB_simps

lemma wpB_basic [wpB_simps]:
  "wpB (ret x) Q = Q x"
  "wpB (thenB m f) Q = wpB m (\<lambda>x. wpB (f x) Q)"
  "wpB (getB g) Q st \<longleftrightarrow> Q (g st) st"
  "wpB (modifyB h) Q' st \<longleftrightarrow> Q' () (h st)"
  "wpB (whenB c n) Q' st \<longleftrightarrow> (if c then wpB n Q' st else Q' () st)"
  by (auto simp: fun_eq_iff wpB_def ret_def thenB_def getB_def modifyB_def whenB_def split: sum.splits)

lemma wpB_fail [wpB_simps]: "wpB (failB p code message path ids) Q st \<longleftrightarrow> True"
  by (simp add: wpB_def failB_def tolerated_def reports_error_def)

lemma wpB_mono: "wpB m Q st \<Longrightarrow> (\<And>x st'. Q x st' \<Longrightarrow> R x st') \<Longrightarrow> wpB m R st"
  by (auto simp: wpB_def split: sum.splits)

lemma wpB_case_prod [wpB_simps]: "wpB (case z of (x, y) \<Rightarrow> f x y) Q = (case z of (x, y) \<Rightarrow> wpB (f x y) Q)"
  by (simp split: prod.split)

text \<open>A loop keeps what every round keeps.\<close>

lemma wpB_forEach:
  assumes "I st" and "\<And>x st. x \<in> set xs \<Longrightarrow> I st \<Longrightarrow> wpB (f x) (\<lambda>_. I) st"
  shows "wpB (forEachB f xs) (\<lambda>_. I) st"
  using assms
proof (induction xs arbitrary: st)
  case (Cons x xs)
  have "wpB (f x) (\<lambda>_. I) st" using Cons.prems by simp
  then show ?case
    unfolding forEachB.simps wpB_simps by (rule wpB_mono) (use Cons in auto)
qed (simp add: wpB_simps)

section \<open>What holds of a table\<close>

definition column_ok :: "relational_column \<Rightarrow> bool" where
  "column_ok c \<longleftrightarrow> physical_name (co_physicalName c) \<and> java_property (co_javaPropertyName c) \<and> length (co_id c) \<le> 160"

definition columns_ok :: "relational_column list \<Rightarrow> bool" where
  "columns_ok cs \<longleftrightarrow> list_all column_ok cs \<and> distinct (map co_id cs) \<and> distinct (map co_physicalName cs)
     \<and> distinct (map co_javaPropertyName cs)"

definition ids_of :: "relational_table \<Rightarrow> jstring set" where
  "ids_of t = co_id ` set (tb_columns t)"

definition key_ok :: "relational_table \<Rightarrow> relational_key \<Rightarrow> bool" where
  "key_ok t k \<longleftrightarrow> physical_name (ky_physicalName k) \<and> ky_columnIds k \<noteq> [] \<and> set (ky_columnIds k) \<subseteq> ids_of t"

definition foreign_ok :: "relational_table \<Rightarrow> foreign_key \<Rightarrow> bool" where
  "foreign_ok t k \<longleftrightarrow> physical_name (fk_physicalName k) \<and> length (fk_columnIds k) = 1
     \<and> set (fk_columnIds k) \<subseteq> ids_of t"

definition table_ok :: "relational_table \<Rightarrow> bool" where
  "table_ok t \<longleftrightarrow> tb_id t \<noteq> [] \<and> length (tb_id t) \<le> 160 \<and> physical_name (tb_physicalName t)
     \<and> is_java_type_name (tb_javaEntityName t) \<and> columns_ok (tb_columns t) \<and> key_ok t (tb_primaryKey t)
     \<and> list_all (key_ok t) (tb_uniqueConstraints t) \<and> list_all (foreign_ok t) (tb_foreignKeys t)
     \<and> distinct (map fk_physicalName (tb_foreignKeys t))
     \<and> distinct (map ky_physicalName (tb_primaryKey t # tb_uniqueConstraints t))
     \<and> ky_physicalName (tb_primaryKey t) \<notin> fk_physicalName ` set (tb_foreignKeys t)"

section \<open>The invariant of the state\<close>

definition tableAt :: "build_state \<Rightarrow> jstring \<Rightarrow> relational_table option" where
  "tableAt st = mapGet (bs_tables st)"

definition tableOfClass :: "build_state \<Rightarrow> jstring \<Rightarrow> jstring option" where
  "tableOfClass st = mapGet (bs_classifierTables st)"

definition nameOwner :: "build_state \<Rightarrow> jstring \<Rightarrow> jstring option" where
  "nameOwner st = mapGet (bs_tableNameOwners st)"

definition entityOwner :: "build_state \<Rightarrow> jstring \<Rightarrow> jstring option" where
  "entityOwner st = mapGet (bs_javaEntityNameOwners st)"

definition refers :: "build_state \<Rightarrow> foreign_key \<Rightarrow> bool" where
  "refers st k \<longleftrightarrow> (\<exists>u. tableAt st (fk_referencedTableId k) = Some u
     \<and> fk_referencedColumnIds k = ky_columnIds (tb_primaryKey u) \<and> length (ky_columnIds (tb_primaryKey u)) = 1)"

definition classesOf :: "canonical_model \<Rightarrow> jstring set" where
  "classesOf d = {cl_id c | c. c \<in> set (dg_elements (cm_diagram d)) \<and> is_class c}"

definition stored_ok :: "build_state \<Rightarrow> jstring \<Rightarrow> relational_table \<Rightarrow> bool" where
  "stored_ok st tid t \<longleftrightarrow> tb_id t = tid \<and> table_ok t
     \<and> nameOwner st (tb_physicalName t) = Some tid
     \<and> entityOwner st (tb_javaEntityName t) = Some tid
     \<and> (\<forall>i. tb_sourceClassifierId t = Some i \<longrightarrow>
          tid = artifactId (js ''table_'' @ i) \<and> i \<in> classesOf (bs_canonical st))
     \<and> (\<forall>k \<in> set (tb_foreignKeys t). refers st k)"

text \<open>The multiplicities that can be read; those of the schema are.\<close>

definition multiplicity_text :: "jstring \<Rightarrow> bool" where
  "multiplicity_text s \<longleftrightarrow> s = js ''*'' \<or> (case js_split s (js ''..'') of
       lower # upper # _ \<Rightarrow> list_all is_digit lower \<and> (upper = js ''*'' \<or> list_all is_digit upper)
     | _ \<Rightarrow> list_all is_digit s)"

definition readable_multiplicities :: "canonical_model \<Rightarrow> bool" where
  "readable_multiplicities d \<longleftrightarrow> (\<forall>r \<in> set (dg_relationships (cm_diagram d)).
     \<forall>e \<in> {rl_source r, rl_target r}. multiplicity_text (re_multiplicity e))"

definition no_errors :: "build_state \<Rightarrow> bool" where
  "no_errors st \<longleftrightarrow> \<not> reports_error (bs_diagnostics st)"

definition build_inv :: "build_state \<Rightarrow> bool" where
  "build_inv st \<longleftrightarrow> distinct (mapKeys (bs_tables st))
     \<and> (\<forall>tid t. tableAt st tid = Some t \<longrightarrow> stored_ok st tid t)
     \<and> (\<forall>i tid. tableOfClass st i = Some tid \<longrightarrow>
          (\<exists>t. tableAt st tid = Some t \<and> tb_sourceClassifierId t = Some i))
     \<and> bs_classifiers st = elementsById (dg_elements (cm_diagram (bs_canonical st)))
     \<and> readable_multiplicities (bs_canonical st) \<and> no_errors st"

text \<open>What never changes of an added table, and that columns are only added.\<close>

definition same_table :: "relational_table \<Rightarrow> relational_table \<Rightarrow> bool" where
  "same_table t t' \<longleftrightarrow> tb_id t' = tb_id t \<and> tb_physicalName t' = tb_physicalName t
     \<and> tb_javaEntityName t' = tb_javaEntityName t \<and> tb_primaryKey t' = tb_primaryKey t
     \<and> tb_sourceClassifierId t' = tb_sourceClassifierId t \<and> ids_of t \<subseteq> ids_of t'"

definition grows :: "build_state \<Rightarrow> build_state \<Rightarrow> bool" where
  "grows st st' \<longleftrightarrow> bs_canonical st' = bs_canonical st \<and> bs_classifiers st' = bs_classifiers st
     \<and> (\<forall>i. tableOfClass st i \<noteq> None \<longrightarrow> tableOfClass st' i \<noteq> None)
     \<and> (\<forall>tid t. tableAt st tid = Some t \<longrightarrow>
          (\<exists>t'. tableAt st' tid = Some t' \<and> same_table t t'))"

text \<open>Only diagnostics that are no errors were added.\<close>

definition quiet :: "build_state \<Rightarrow> build_state \<Rightarrow> bool" where
  "quiet st st' \<longleftrightarrow> (\<exists>ds. st' = st\<lparr>bs_diagnostics := ds\<rparr> \<and> (no_errors st \<longrightarrow> no_errors st'))"

lemma same_table_refl [simp]: "same_table t t"
  by (simp add: same_table_def)

lemma same_table_trans: "same_table t u \<Longrightarrow> same_table u v \<Longrightarrow> same_table t v"
  by (auto simp: same_table_def)

lemma grows_refl [simp]: "grows st st"
  by (auto simp: grows_def)

lemma grows_table: "grows st st' \<Longrightarrow> tableAt st tid = Some t \<Longrightarrow> \<exists>t'. tableAt st' tid = Some t' \<and> same_table t t'"
  by (simp add: grows_def)

lemma grows_class: "grows st st' \<Longrightarrow> tableOfClass st i \<noteq> None \<Longrightarrow> tableOfClass st' i \<noteq> None"
  by (simp add: grows_def)

lemma grows_trans:
  assumes "grows st st'" "grows st' st''"
  shows "grows st st''"
proof -
  have "\<exists>t'. tableAt st'' tid = Some t' \<and> same_table t t'" if "tableAt st tid = Some t" for tid t
    using grows_table [OF assms(1) that] grows_table [OF assms(2)] by (blast intro: same_table_trans)
  moreover have "tableOfClass st'' i \<noteq> None" if "tableOfClass st i \<noteq> None" for i
    by (intro grows_class [OF assms(2)] grows_class [OF assms(1)] that)
  ultimately show ?thesis using assms by (simp add: grows_def)
qed

lemma quiet_refl [simp]: "quiet st st"
  unfolding quiet_def by (rule exI [of _ "bs_diagnostics st"]) simp

lemma quiet_trans: "quiet st st' \<Longrightarrow> quiet st' st'' \<Longrightarrow> quiet st st''"
  by (auto simp: quiet_def)

lemma quietD:
  assumes "quiet st st'"
  shows "tableAt st' = tableAt st" "tableOfClass st' = tableOfClass st" "nameOwner st' = nameOwner st"
    "entityOwner st' = entityOwner st" "bs_tables st' = bs_tables st" "bs_classifiers st' = bs_classifiers st"
    "bs_classifierTables st' = bs_classifierTables st" "bs_canonical st' = bs_canonical st"
    "bs_tableNameOwners st' = bs_tableNameOwners st" "bs_javaEntityNameOwners st' = bs_javaEntityNameOwners st"
    "no_errors st \<Longrightarrow> no_errors st'"
  using assms
  by (auto simp: quiet_def tableAt_def [abs_def] tableOfClass_def [abs_def] nameOwner_def [abs_def]
      entityOwner_def [abs_def])

lemma grows_refers: "grows st st' \<Longrightarrow> refers st k \<Longrightarrow> refers st' k"
  unfolding grows_def refers_def same_table_def by metis

lemma quiet_grows: "quiet st st' \<Longrightarrow> grows st st'"
  by (auto simp: grows_def dest: quietD)

lemma quiet_inv: "quiet st st' \<Longrightarrow> build_inv st \<Longrightarrow> build_inv st'"
  unfolding build_inv_def stored_ok_def refers_def by (simp add: quietD)

lemma inv_no_errors: "build_inv st \<Longrightarrow> no_errors st"
  by (simp add: build_inv_def)

lemma inv_table: "build_inv st \<Longrightarrow> tableAt st tid = Some t \<Longrightarrow> stored_ok st tid t"
  by (simp add: build_inv_def)

lemma inv_classifierTable:
  "build_inv st \<Longrightarrow> tableOfClass st i = Some tid \<Longrightarrow>
     \<exists>t. tableAt st tid = Some t \<and> tb_sourceClassifierId t = Some i"
  unfolding build_inv_def by blast

section \<open>Diagnostics\<close>

lemma wpB_pushDiagnostic:
  assumes "rd_severity d \<noteq> ErrorSeverity" "\<And>st'. quiet st st' \<Longrightarrow> Q () st'"
  shows "wpB (pushDiagnostic d) Q st"
  unfolding pushDiagnostic_def wpB_simps
  by (rule assms(2)) (use assms(1) in \<open>auto simp: quiet_def no_errors_def reports_error_def\<close>)

lemma wpB_info: "(\<And>st'. quiet st st' \<Longrightarrow> Q () st') \<Longrightarrow> wpB (info p code message path ids) Q st"
  unfolding info_def by (rule wpB_pushDiagnostic) simp_all

lemma wpB_warning: "(\<And>st'. quiet st st' \<Longrightarrow> Q () st') \<Longrightarrow> wpB (warning p code message path ids) Q st"
  unfolding warning_def by (rule wpB_pushDiagnostic) simp_all

lemma wpB_warningAt: "(\<And>st'. quiet st st' \<Longrightarrow> Q () st') \<Longrightarrow> wpB (warningAt p code message source ids) Q st"
  unfolding warningAt_def by (rule wpB_pushDiagnostic) simp_all

lemmas wpB_quiet = wpB_info wpB_warning wpB_warningAt

section \<open>Columns\<close>

lemma wpB_resolveColumnId:
  assumes "length (co_id c) \<le> 160"
    and "\<And>c' st'. quiet st st' \<Longrightarrow> c' = c\<lparr>co_id := co_id c'\<rparr> \<Longrightarrow> length (co_id c') \<le> 160 \<Longrightarrow>
           co_id c' \<notin> ids_of t \<Longrightarrow> Q c' st'"
  shows "wpB (resolveColumnId p t c) Q st"
  using assms unfolding resolveColumnId_def Let_def
  by (auto simp: wpB_simps ids_of_def length_artifactId intro!: wpB_quiet)

lemma find_name_None: "find (\<lambda>d. f d = x) xs = None \<longleftrightarrow> x \<notin> f ` set xs"
  by (auto simp: find_None_iff)

lemma wpB_resolveColumnName:
  assumes "physical_name (co_physicalName c)"
    and "\<And>c' st'. quiet st st' \<Longrightarrow> c' = c\<lparr>co_physicalName := co_physicalName c'\<rparr> \<Longrightarrow>
           physical_name (co_physicalName c') \<Longrightarrow> co_physicalName c' \<notin> co_physicalName ` set (tb_columns t) \<Longrightarrow> Q c' st'"
  shows "wpB (resolveColumnName p t c) Q st"
  using assms unfolding resolveColumnName_def Let_def
  by (auto simp: wpB_simps find_name_None appendStableHash_name intro!: wpB_quiet split: option.split)

lemma wpB_resolvePropertyName:
  assumes "java_property (co_javaPropertyName c)"
    and "\<And>c' st'. quiet st st' \<Longrightarrow> c' = c\<lparr>co_javaPropertyName := co_javaPropertyName c'\<rparr> \<Longrightarrow>
           java_property (co_javaPropertyName c') \<Longrightarrow>
           co_javaPropertyName c' \<notin> co_javaPropertyName ` set (tb_columns t) \<Longrightarrow> Q c' st'"
  shows "wpB (resolvePropertyName p t c) Q st"
  using assms unfolding resolvePropertyName_def Let_def
  by (auto simp: wpB_simps find_name_None appendStableJavaNameHash_java_property intro!: wpB_quiet
      split: option.split)

lemma wpB_addColumn:
  assumes "column_ok c" "columns_ok (tb_columns t)"
    and "\<And>c' st'. quiet st st' \<Longrightarrow>
           c' = c\<lparr>co_id := co_id c', co_physicalName := co_physicalName c', co_javaPropertyName := co_javaPropertyName c'\<rparr> \<Longrightarrow>
           columns_ok (tb_columns t @ [c']) \<Longrightarrow> Q (t\<lparr>tb_columns := tb_columns t @ [c']\<rparr>, c') st'"
  shows "wpB (addColumn p c t) Q st"
  unfolding addColumn_def wpB_simps
proof (rule wpB_resolveColumnId)
  show "length (co_id c) \<le> 160" using assms(1) by (simp add: column_ok_def)
  fix c1 st1
  assume 1: "quiet st st1" "c1 = c\<lparr>co_id := co_id c1\<rparr>" "length (co_id c1) \<le> 160" "co_id c1 \<notin> ids_of t"
  then have fields1: "co_physicalName c1 = co_physicalName c" "co_javaPropertyName c1 = co_javaPropertyName c"
    by (metis relational_column.select_convs relational_column.surjective relational_column.update_convs(1))+
  show "wpB (resolveColumnName p t c1) (\<lambda>x. wpB (resolvePropertyName p t x)
      (\<lambda>x. Q (t\<lparr>tb_columns := tb_columns t @ [x]\<rparr>, x))) st1"
  proof (rule wpB_resolveColumnName)
    show "physical_name (co_physicalName c1)" using assms(1) by (simp add: column_ok_def fields1)
    fix c2 st2
    assume 2: "quiet st1 st2" "c2 = c1\<lparr>co_physicalName := co_physicalName c2\<rparr>"
      "physical_name (co_physicalName c2)" "co_physicalName c2 \<notin> co_physicalName ` set (tb_columns t)"
    then have fields2: "co_id c2 = co_id c1" "co_javaPropertyName c2 = co_javaPropertyName c1"
      by (metis relational_column.select_convs relational_column.surjective relational_column.update_convs(3))+
    show "wpB (resolvePropertyName p t c2) (\<lambda>x. Q (t\<lparr>tb_columns := tb_columns t @ [x]\<rparr>, x)) st2"
    proof (rule wpB_resolvePropertyName)
      show "java_property (co_javaPropertyName c2)" using assms(1) by (simp add: column_ok_def fields1 fields2)
      fix c3 st3
      assume 3: "quiet st2 st3" "c3 = c2\<lparr>co_javaPropertyName := co_javaPropertyName c3\<rparr>"
        "java_property (co_javaPropertyName c3)"
        "co_javaPropertyName c3 \<notin> co_javaPropertyName ` set (tb_columns t)"
      then have fields3: "co_id c3 = co_id c2" "co_physicalName c3 = co_physicalName c2"
        by (metis relational_column.select_convs relational_column.surjective relational_column.update_convs(4))+
      show "Q (t\<lparr>tb_columns := tb_columns t @ [c3]\<rparr>, c3) st3"
      proof (rule assms(3))
        show "quiet st st3" using 1(1) 2(1) 3(1) by (blast intro: quiet_trans)
        show "c3 = c\<lparr>co_id := co_id c3, co_physicalName := co_physicalName c3,
            co_javaPropertyName := co_javaPropertyName c3\<rparr>"
          by (subst 3(2), subst 2(2), subst 1(2)) (simp add: fields2 fields3)
        show "columns_ok (tb_columns t @ [c3])"
          using assms(2) 1 2 3 by (auto simp: columns_ok_def column_ok_def fields2 fields3 ids_of_def)
      qed
    qed
  qed
qed

section \<open>Changing a table\<close>

lemma setTable_inv:
  assumes "build_inv st" "tableAt st (tb_id t') = Some t" "same_table t t'" "table_ok t'"
    and "\<And>k. k \<in> set (tb_foreignKeys t') \<Longrightarrow> refers st k"
  shows "build_inv (st\<lparr>bs_tables := mapSet (tb_id t') t' (bs_tables st)\<rparr>)
     \<and> grows st (st\<lparr>bs_tables := mapSet (tb_id t') t' (bs_tables st)\<rparr>)"
proof -
  define st' where "st' = st\<lparr>bs_tables := mapSet (tb_id t') t' (bs_tables st)\<rparr>"
  have at: "tableAt st' i = (if i = tb_id t' then Some t' else tableAt st i)" for i
    by (simp add: st'_def tableAt_def mapGet_mapSet)
  have rest: "tableOfClass st' = tableOfClass st" "nameOwner st' = nameOwner st" "entityOwner st' = entityOwner st"
      "bs_canonical st' = bs_canonical st" "bs_classifiers st' = bs_classifiers st"
      "bs_diagnostics st' = bs_diagnostics st"
    by (simp_all add: st'_def tableOfClass_def nameOwner_def entityOwner_def)
  have grows: "grows st st'" using assms(2,3) by (auto simp: grows_def at rest)
  have old: "stored_ok st i u" if "tableAt st i = Some u" for i u
    using assms(1) that by (rule inv_table)
  have "stored_ok st' i u" if "tableAt st' i = Some u" for i u
  proof (cases "i = tb_id t'")
    case True
    then have "u = t'" using that by (simp add: at)
    then show ?thesis
      using True old [OF assms(2)] assms(3,4,5) grows_refers [OF grows]
      by (auto simp: stored_ok_def rest same_table_def)
  next
    case False
    then show ?thesis
      using that old [of i u] grows_refers [OF grows] by (auto simp: stored_ok_def rest at)
  qed
  moreover have "\<exists>t. tableAt st' tid = Some t \<and> tb_sourceClassifierId t = Some i"
    if "tableOfClass st i = Some tid" for i tid
    using inv_classifierTable [OF assms(1) that] assms(2,3) by (auto simp: at same_table_def)
  moreover have "no_errors st'" using inv_no_errors [OF assms(1)] by (simp add: no_errors_def rest)
  moreover have "distinct (mapKeys (bs_tables st'))"
    using assms(1) by (simp add: st'_def build_inv_def distinct_mapSet)
  ultimately have "build_inv st'"
    using assms(1) unfolding build_inv_def rest by auto
  with grows show ?thesis by (simp add: st'_def)
qed

lemma wpB_tableOf: "tableAt st tid = Some t \<Longrightarrow> Q t st \<Longrightarrow> wpB (tableOf tid) Q st"
  by (simp add: wpB_def tableOf_def tableAt_def)

text \<open>What a function given to \<open>onTable\<close> has to end with.\<close>

definition replacing ::
  "build_state \<Rightarrow> jstring \<Rightarrow> relational_table \<Rightarrow> ('a \<Rightarrow> build_state \<Rightarrow> bool) \<Rightarrow> relational_table \<times> 'a \<Rightarrow> build_state \<Rightarrow> bool"
where
  "replacing st tid t Q z st' \<longleftrightarrow> quiet st st' \<and> same_table t (fst z) \<and> table_ok (fst z)
     \<and> (\<forall>k \<in> set (tb_foreignKeys (fst z)). refers st k)
     \<and> (\<forall>st''. build_inv st'' \<longrightarrow> grows st st'' \<longrightarrow> tableAt st'' tid = Some (fst z) \<longrightarrow> Q (snd z) st'')"

lemma wpB_onTable:
  assumes "build_inv st" "tableAt st tid = Some t" and "wpB (f t) (replacing st tid t Q) st"
  shows "wpB (onTable tid f) Q st"
  unfolding onTable_def wpB_basic
proof (rule wpB_tableOf [OF assms(2)], rule wpB_mono [OF assms(3)])
  fix z :: "relational_table \<times> 'a" and st'
  obtain t' x where z: "z = (t', x)" by (cases z)
  assume "replacing st tid t Q z st'"
  then have t': "quiet st st'" "same_table t t'" "table_ok t'" "\<And>k. k \<in> set (tb_foreignKeys t') \<Longrightarrow> refers st k"
      "\<And>st''. build_inv st'' \<Longrightarrow> grows st st'' \<Longrightarrow> tableAt st'' tid = Some t' \<Longrightarrow> Q x st''"
    by (auto simp: z replacing_def)
  have id: "tb_id t' = tid"
    using t'(2) inv_table [OF assms(1,2)] by (simp add: same_table_def stored_ok_def)
  have "build_inv (st'\<lparr>bs_tables := mapSet (tb_id t') t' (bs_tables st')\<rparr>)
     \<and> grows st' (st'\<lparr>bs_tables := mapSet (tb_id t') t' (bs_tables st')\<rparr>)"
    using t' assms(2) quiet_inv [OF t'(1) assms(1)] quietD(1) [OF t'(1)] grows_refers [OF quiet_grows [OF t'(1)]]
    by (intro setTable_inv [where t = t]) (auto simp: id)
  moreover have "tableAt (st'\<lparr>bs_tables := mapSet (tb_id t') t' (bs_tables st')\<rparr>) tid = Some t'"
    by (simp add: tableAt_def mapGet_mapSet id)
  ultimately show "wpB (case z of (t', x) \<Rightarrow> thenB (setTable t') (\<lambda>_. ret x)) Q st'"
    unfolding z setTable_def split_conv wpB_simps
    by (intro t'(5)) (auto intro: grows_trans quiet_grows t'(1))
qed

lemma table_okD: "build_inv st \<Longrightarrow> tableAt st tid = Some t \<Longrightarrow> table_ok t"
  by (drule (1) inv_table) (simp add: stored_ok_def)

lemma tableAt_id: "build_inv st \<Longrightarrow> tableAt st tid = Some t \<Longrightarrow> tb_id t = tid"
  by (drule (1) inv_table) (simp add: stored_ok_def)

lemma stored_refers: "build_inv st \<Longrightarrow> tableAt st tid = Some t \<Longrightarrow> k \<in> set (tb_foreignKeys t) \<Longrightarrow> refers st k"
  by (drule (1) inv_table) (simp add: stored_ok_def)

lemma key_ok_mono: "key_ok t k \<Longrightarrow> ids_of t \<subseteq> ids_of t' \<Longrightarrow> key_ok t' k"
  by (auto simp: key_ok_def)

lemma foreign_ok_mono: "foreign_ok t k \<Longrightarrow> ids_of t \<subseteq> ids_of t' \<Longrightarrow> foreign_ok t' k"
  by (auto simp: foreign_ok_def)

lemma table_ok_ids:
  assumes "table_ok t" "columns_ok cs" "ids_of t \<subseteq> co_id ` set cs"
  shows "table_ok (t\<lparr>tb_columns := cs\<rparr>)"
proof -
  have "ids_of t \<subseteq> ids_of (t\<lparr>tb_columns := cs\<rparr>)" using assms(3) by (simp add: ids_of_def)
  note mono = key_ok_mono [OF _ this] foreign_ok_mono [OF _ this]
  show ?thesis using assms(1,2) mono by (simp add: table_ok_def list_all_iff)
qed

lemma wpB_addColumn_on:
  assumes "build_inv st" "tableAt st tid = Some t" "column_ok c"
    and "\<And>c' t' st'. build_inv st' \<Longrightarrow> grows st st' \<Longrightarrow> tableAt st' tid = Some t' \<Longrightarrow> co_id c' \<in> ids_of t' \<Longrightarrow> Q c' st'"
  shows "wpB (onTable tid (addColumn p c)) Q st"
proof (rule wpB_onTable [OF assms(1,2)], rule wpB_addColumn [OF assms(3)])
  show "columns_ok (tb_columns t)" using table_okD [OF assms(1,2)] by (simp add: table_ok_def)
  fix c' st'
  assume c': "quiet st st'" "columns_ok (tb_columns t @ [c'])"
  have "table_ok (t\<lparr>tb_columns := tb_columns t @ [c']\<rparr>)"
    by (rule table_ok_ids [OF table_okD [OF assms(1,2)] c'(2)]) (auto simp: ids_of_def)
  then show "replacing st tid t Q (t\<lparr>tb_columns := tb_columns t @ [c']\<rparr>, c') st'"
    using c'(1) stored_refers [OF assms(1,2)] assms(4)
    by (auto simp: replacing_def same_table_def ids_of_def)
qed

lemma wpB_addForeignKey_on:
  assumes "build_inv st" "tableAt st tid = Some t" "foreign_ok t k" "refers st k"
    and "\<And>st'. build_inv st' \<Longrightarrow> grows st st' \<Longrightarrow> Q () st'"
  shows "wpB (onTable tid (addForeignKey p k)) Q st"
proof (rule wpB_onTable [OF assms(1,2)])
  have "table_ok (t\<lparr>tb_foreignKeys := tb_foreignKeys t @ [k]\<rparr>)"
    if "fk_physicalName k \<notin> fk_physicalName ` set (tb_foreignKeys t)"
      "ky_physicalName (tb_primaryKey t) \<noteq> fk_physicalName k"
    using table_okD [OF assms(1,2)] assms(3) that
    by (auto simp: table_ok_def key_ok_def foreign_ok_def ids_of_def list_all_iff)
  then show "wpB (addForeignKey p k t) (replacing st tid t Q) st"
    using stored_refers [OF assms(1,2)] assms(4,5)
    by (auto simp: addForeignKey_def wpB_simps replacing_def same_table_def ids_of_def)
qed

lemma wpB_addUniqueConstraint_on:
  assumes "build_inv st" "tableAt st tid = Some t" "key_ok t k"
    and "\<And>st'. build_inv st' \<Longrightarrow> grows st st' \<Longrightarrow> Q () st'"
  shows "wpB (onTable tid (addUniqueConstraint p k)) Q st"
proof (rule wpB_onTable [OF assms(1,2)])
  have "table_ok (t\<lparr>tb_uniqueConstraints := tb_uniqueConstraints t @ [k]\<rparr>)"
    if "ky_physicalName k \<notin> ky_physicalName ` set (tb_uniqueConstraints t)"
      "ky_physicalName (tb_primaryKey t) \<noteq> ky_physicalName k"
    using table_okD [OF assms(1,2)] assms(3) that
    by (auto simp: table_ok_def key_ok_def foreign_ok_def ids_of_def list_all_iff)
  then show "wpB (addUniqueConstraint p k t) (replacing st tid t Q) st"
    using stored_refers [OF assms(1,2)] assms(4)
    by (auto simp: addUniqueConstraint_def wpB_simps replacing_def same_table_def ids_of_def)
qed

section \<open>Adding a table\<close>

lemma wpB_resolveTableName:
  assumes "\<And>st'. quiet st st' \<Longrightarrow> otherOwner (bs_tableNameOwners st) (tb_physicalName t) (tb_id t) = None \<Longrightarrow> Q t st'"
    and "\<And>st'. quiet st st' \<Longrightarrow> mapGet (bs_tableNameOwners st) (appendStableHash (tb_physicalName t) (tb_id t)) = None \<Longrightarrow>
      Q (t\<lparr>tb_physicalName := appendStableHash (tb_physicalName t) (tb_id t),
           tb_primaryKey := (tb_primaryKey t)\<lparr>ky_physicalName :=
             constraintName p (js ''pk_'' @ appendStableHash (tb_physicalName t) (tb_id t))\<rparr>\<rparr>) st'"
  shows "wpB (resolveTableName p t) Q st"
  using assms unfolding resolveTableName_def Let_def
  by (auto simp: wpB_simps intro!: wpB_warningAt split: option.split)

lemma wpB_resolveEntityName:
  assumes "\<And>st'. quiet st st' \<Longrightarrow> otherOwner (bs_javaEntityNameOwners st) (tb_javaEntityName t) (tb_id t) = None \<Longrightarrow> Q t st'"
    and "\<And>st'. quiet st st' \<Longrightarrow>
      mapGet (bs_javaEntityNameOwners st) (appendStableJavaNameHash (tb_javaEntityName t) (tb_id t)) = None \<Longrightarrow>
      Q (t\<lparr>tb_javaEntityName := appendStableJavaNameHash (tb_javaEntityName t) (tb_id t)\<rparr>) st'"
  shows "wpB (resolveEntityName p t) Q st"
  using assms unfolding resolveEntityName_def Let_def
  by (auto simp: wpB_simps intro!: wpB_warningAt split: option.split)

text \<open>A name is free when no stored table has it.\<close>

definition free_names :: "build_state \<Rightarrow> relational_table \<Rightarrow> bool" where
  "free_names st t \<longleftrightarrow> (\<forall>tid u. tableAt st tid = Some u \<longrightarrow>
     tb_physicalName u \<noteq> tb_physicalName t \<and> tb_javaEntityName u \<noteq> tb_javaEntityName t)"

definition new_table :: "build_state \<Rightarrow> relational_table \<Rightarrow> bool" where
  "new_table st t \<longleftrightarrow> table_ok t \<and> tb_foreignKeys t = [] \<and> tb_uniqueConstraints t = []
     \<and> (\<forall>i. tb_sourceClassifierId t = Some i \<longrightarrow>
          tb_id t = artifactId (js ''table_'' @ i) \<and> i \<in> classesOf (bs_canonical st))"

lemma registerTable_inv:
  assumes "build_inv st" "new_table st t" "tableAt st (tb_id t) = None" "free_names st t"
  shows "wpB (registerTable t) (\<lambda>_ st'. build_inv st' \<and> grows st st' \<and> tableAt st' (tb_id t) = Some t
     \<and> (truthy (tb_sourceClassifierId t) \<longrightarrow> tableOfClass st' (textOf (tb_sourceClassifierId t)) \<noteq> None)) st"
proof -
  define st' where "st' = st\<lparr>
     bs_tables := mapSet (tb_id t) t (bs_tables st),
     bs_tableNameOwners := mapSet (tb_physicalName t) (tb_id t) (bs_tableNameOwners st),
     bs_javaEntityNameOwners := mapSet (tb_javaEntityName t) (tb_id t) (bs_javaEntityNameOwners st),
     bs_classifierTables := (if truthy (tb_sourceClassifierId t)
       then mapSet (textOf (tb_sourceClassifierId t)) (tb_id t) (bs_classifierTables st)
       else bs_classifierTables st)\<rparr>"
  have at: "tableAt st' i = (if i = tb_id t then Some t else tableAt st i)" for i
    by (simp add: st'_def tableAt_def mapGet_mapSet)
  have owner: "nameOwner st' n = (if n = tb_physicalName t then Some (tb_id t) else nameOwner st n)"
      "entityOwner st' n = (if n = tb_javaEntityName t then Some (tb_id t) else entityOwner st n)" for n
    by (simp_all add: st'_def nameOwner_def entityOwner_def mapGet_mapSet)
  have of_class: "tableOfClass st' i = (if tb_sourceClassifierId t = Some i \<and> i \<noteq> [] then Some (tb_id t)
      else tableOfClass st i)" for i
    by (cases "tb_sourceClassifierId t") (auto simp: st'_def tableOfClass_def mapGet_mapSet textOf_def)
  have rest: "bs_canonical st' = bs_canonical st" "bs_classifiers st' = bs_classifiers st"
      "bs_diagnostics st' = bs_diagnostics st"
    by (simp_all add: st'_def)
  have grows: "grows st st'" using assms(3) by (auto simp: grows_def at of_class rest)
  have "stored_ok st' i u" if "tableAt st' i = Some u" for i u
  proof (cases "i = tb_id t")
    case True
    then show ?thesis
      using that assms(2) by (auto simp: at stored_ok_def owner rest new_table_def)
  next
    case False
    then have "tableAt st i = Some u" using that by (simp add: at)
    then show ?thesis
      using inv_table [OF assms(1)] assms(4) grows_refers [OF grows]
      by (auto simp: stored_ok_def owner rest free_names_def)
  qed
  moreover have "\<exists>u. tableAt st' tid = Some u \<and> tb_sourceClassifierId u = Some i"
    if "tableOfClass st' i = Some tid" for i tid
    using that inv_classifierTable [OF assms(1), of i tid] assms(3) by (auto simp: at of_class split: if_splits)
  moreover have "no_errors st'" using inv_no_errors [OF assms(1)] by (simp add: no_errors_def rest)
  moreover have "distinct (mapKeys (bs_tables st'))"
    using assms(1) by (simp add: st'_def build_inv_def distinct_mapSet)
  ultimately have "build_inv st'"
    using assms(1) unfolding build_inv_def rest by auto
  moreover have "truthy (tb_sourceClassifierId t) \<longrightarrow> tableOfClass st' (textOf (tb_sourceClassifierId t)) \<noteq> None"
    by (cases "tb_sourceClassifierId t") (auto simp: of_class textOf_def)
  ultimately show ?thesis
    using grows at [of "tb_id t"] unfolding registerTable_def wpB_simps st'_def by simp
qed

lemma otherOwner_free:
  assumes "build_inv st" "tableAt st tid = Some u" "tid \<noteq> i"
  shows "otherOwner (bs_tableNameOwners st) (tb_physicalName u) i \<noteq> None"
    "otherOwner (bs_javaEntityNameOwners st) (tb_javaEntityName u) i \<noteq> None"
    "mapGet (bs_tableNameOwners st) (tb_physicalName u) \<noteq> None"
    "mapGet (bs_javaEntityNameOwners st) (tb_javaEntityName u) \<noteq> None"
  using inv_table [OF assms(1,2)] assms(3)
  by (auto simp: otherOwner_def stored_ok_def nameOwner_def entityOwner_def table_ok_def)

text \<open>The table after its name was resolved is the same but for its names.\<close>

definition renamed :: "relational_table \<Rightarrow> relational_table \<Rightarrow> bool" where
  "renamed t t' \<longleftrightarrow> tb_id t' = tb_id t \<and> tb_columns t' = tb_columns t
     \<and> ky_columnIds (tb_primaryKey t') = ky_columnIds (tb_primaryKey t)
     \<and> tb_sourceClassifierId t' = tb_sourceClassifierId t"

lemma free_table_name:
  assumes "build_inv st" "new_table st t" "tableAt st (tb_id t) = None"
    and "\<And>t' st'. quiet st st' \<Longrightarrow> new_table st t' \<Longrightarrow> renamed t t' \<Longrightarrow> tb_javaEntityName t' = tb_javaEntityName t \<Longrightarrow>
       (\<forall>tid u. tableAt st tid = Some u \<longrightarrow> tb_physicalName u \<noteq> tb_physicalName t') \<Longrightarrow> Q t' st'"
  shows "wpB (resolveTableName p t) Q st"
proof (rule wpB_resolveTableName)
  note free = otherOwner_free [OF assms(1)]
  fix st'
  assume q: "quiet st st'"
  show "Q t st'" if none: "otherOwner (bs_tableNameOwners st) (tb_physicalName t) (tb_id t) = None"
  proof (rule assms(4) [OF q assms(2)])
    show "\<forall>tid u. tableAt st tid = Some u \<longrightarrow> tb_physicalName u \<noteq> tb_physicalName t"
      using free(1) [of _ _ "tb_id t"] none assms(3) by (metis option.distinct(1))
  qed (simp_all add: renamed_def)
  let ?n = "appendStableHash (tb_physicalName t) (tb_id t)"
  let ?t = "t\<lparr>tb_physicalName := ?n,
       tb_primaryKey := (tb_primaryKey t)\<lparr>ky_physicalName := constraintName p (js ''pk_'' @ ?n)\<rparr>\<rparr>"
  show "Q ?t st'" if none: "mapGet (bs_tableNameOwners st) ?n = None"
  proof (rule assms(4) [OF q])
    have "ids_of ?t = ids_of t" by (simp add: ids_of_def)
    then show "new_table st ?t"
      using assms(2)
      by (simp add: new_table_def table_ok_def appendStableHash_name key_ok_def constraintName_def toPhysicalName_name)
    show "\<forall>tid u. tableAt st tid = Some u \<longrightarrow> tb_physicalName u \<noteq> tb_physicalName ?t"
      using free(3) [of _ _ "tb_id t"] none assms(3) by (auto, metis option.distinct(1))
  qed (simp_all add: renamed_def)
qed

lemma free_entity_name:
  assumes "build_inv st" "new_table st t" "tableAt st (tb_id t) = None"
    and "\<And>t' st'. quiet st st' \<Longrightarrow> new_table st t' \<Longrightarrow> renamed t t' \<Longrightarrow> tb_physicalName t' = tb_physicalName t \<Longrightarrow>
       (\<forall>tid u. tableAt st tid = Some u \<longrightarrow> tb_javaEntityName u \<noteq> tb_javaEntityName t') \<Longrightarrow> Q t' st'"
  shows "wpB (resolveEntityName p t) Q st"
proof (rule wpB_resolveEntityName)
  note free = otherOwner_free [OF assms(1)]
  fix st'
  assume q: "quiet st st'"
  show "Q t st'" if none: "otherOwner (bs_javaEntityNameOwners st) (tb_javaEntityName t) (tb_id t) = None"
  proof (rule assms(4) [OF q assms(2)])
    show "\<forall>tid u. tableAt st tid = Some u \<longrightarrow> tb_javaEntityName u \<noteq> tb_javaEntityName t"
      using free(2) [of _ _ "tb_id t"] none assms(3) by (metis option.distinct(1))
  qed (simp_all add: renamed_def)
  let ?n = "appendStableJavaNameHash (tb_javaEntityName t) (tb_id t)"
  let ?t = "t\<lparr>tb_javaEntityName := ?n\<rparr>"
  show "Q ?t st'" if none: "mapGet (bs_javaEntityNameOwners st) ?n = None"
  proof (rule assms(4) [OF q])
    have "ids_of ?t = ids_of t" by (simp add: ids_of_def)
    then show "new_table st ?t"
      using assms(2) by (simp add: new_table_def table_ok_def appendStableJavaNameHash_type key_ok_def)
    show "\<forall>tid u. tableAt st tid = Some u \<longrightarrow> tb_javaEntityName u \<noteq> tb_javaEntityName ?t"
      using free(4) [of _ _ "tb_id t"] none assms(3) by (auto, metis option.distinct(1))
  qed (simp_all add: renamed_def)
qed

lemma quiet_new_table: "quiet st st' \<Longrightarrow> new_table st' t = new_table st t"
  by (simp add: new_table_def quietD)

lemma wpB_addTable:
  assumes "build_inv st" "new_table st t"
    and "\<And>t' st'. build_inv st' \<Longrightarrow> grows st st' \<Longrightarrow> tableAt st' (tb_id t) = Some t' \<Longrightarrow> renamed t t' \<Longrightarrow>
       (truthy (tb_sourceClassifierId t) \<longrightarrow> tableOfClass st' (textOf (tb_sourceClassifierId t)) \<noteq> None) \<Longrightarrow> Q (tb_id t) st'"
  shows "wpB (addTable p t) Q st"
proof (cases "tableAt st (tb_id t)")
  case (Some u)
  then show ?thesis by (simp add: addTable_def wpB_simps tableAt_def)
next
  case None
  then have absent: "mapGet (bs_tables st) (tb_id t) = None" by (simp add: tableAt_def)
  have "wpB (resolveTableName p t) (\<lambda>x. wpB (resolveEntityName p x) (\<lambda>x. wpB (registerTable x) (\<lambda>_. Q (tb_id x)))) st"
  proof (rule free_table_name [OF assms(1,2) None])
    fix t1 st1
    assume 1: "quiet st st1" "new_table st t1" "renamed t t1"
      "\<forall>tid u. tableAt st tid = Some u \<longrightarrow> tb_physicalName u \<noteq> tb_physicalName t1"
    note at1 = quietD(1) [OF 1(1)]
    show "wpB (resolveEntityName p t1) (\<lambda>x. wpB (registerTable x) (\<lambda>_. Q (tb_id x))) st1"
    proof (rule free_entity_name)
      show "build_inv st1" by (rule quiet_inv [OF 1(1) assms(1)])
      show "new_table st1 t1" using 1 by (simp add: quiet_new_table)
      show "tableAt st1 (tb_id t1) = None" using 1(3) None by (simp add: at1 renamed_def)
      fix t2 st2
      assume 2: "quiet st1 st2" "new_table st1 t2" "renamed t1 t2" "tb_physicalName t2 = tb_physicalName t1"
        "\<forall>tid u. tableAt st1 tid = Some u \<longrightarrow> tb_javaEntityName u \<noteq> tb_javaEntityName t2"
      have q: "quiet st st2" using 1(1) 2(1) by (rule quiet_trans)
      have t2: "renamed t t2" using 1(3) 2(3) by (simp add: renamed_def)
      show "wpB (registerTable t2) (\<lambda>_. Q (tb_id t2)) st2"
      proof (rule wpB_mono [OF registerTable_inv])
        show "build_inv st2" by (rule quiet_inv [OF q assms(1)])
        show "new_table st2 t2" using 2 by (simp add: quiet_new_table)
        show "tableAt st2 (tb_id t2) = None" using None t2 by (simp add: quietD [OF q] renamed_def)
        show "free_names st2 t2"
          using 1(4) 2(4,5) unfolding free_names_def quietD [OF 2(1)] by (simp add: at1)
        fix x st3
        assume "build_inv st3 \<and> grows st2 st3 \<and> tableAt st3 (tb_id t2) = Some t2
          \<and> (truthy (tb_sourceClassifierId t2) \<longrightarrow> tableOfClass st3 (textOf (tb_sourceClassifierId t2)) \<noteq> None)"
        then show "Q (tb_id t2) st3"
          using assms(3) [of st3 t2] t2 grows_trans [OF quiet_grows [OF q]] by (simp add: renamed_def)
      qed
    qed
  qed
  then show ?thesis by (simp add: addTable_def wpB_basic absent)
qed

section \<open>Classifiers, keys and multiplicities\<close>

lemma wpB_tableForClassifier:
  assumes "build_inv st" "\<And>tid t. tableAt st tid = Some t \<Longrightarrow> Q tid st"
  shows "wpB (tableForClassifier p i ids path) Q st"
proof (cases "tableOfClass st i")
  case None
  then show ?thesis by (simp add: tableForClassifier_def wpB_simps tableOfClass_def)
next
  case (Some tid)
  then show ?thesis
    using inv_classifierTable [OF assms(1) Some] assms(2)
    by (auto simp: tableForClassifier_def wpB_simps tableOfClass_def)
qed

lemma wpB_primaryKeyColumn:
  assumes "table_ok t" "ky_columnIds (tb_primaryKey t) = [i]"
    and "\<And>c. c \<in> set (tb_columns t) \<Longrightarrow> co_id c = i \<Longrightarrow> Q c st"
  shows "wpB (primaryKeyColumn t) Q st"
proof -
  have "i \<in> ids_of t" using assms(1,2) by (simp add: table_ok_def key_ok_def)
  then have "find (\<lambda>c. co_id c = i) (tb_columns t) \<noteq> None"
    by (auto simp: ids_of_def find_None_iff)
  then obtain c where "find (\<lambda>c. co_id c = i) (tb_columns t) = Some c" by auto
  moreover from this have "c \<in> set (tb_columns t)" "co_id c = i" by (auto simp: find_Some_iff)
  ultimately show ?thesis using assms(3) by (simp add: primaryKeyColumn_def assms(2) wpB_simps)
qed

lemma wpB_requireSinglePrimaryKey:
  assumes "build_inv st" "tableAt st tid = Some t"
    and "\<And>c. c \<in> set (tb_columns t) \<Longrightarrow> ky_columnIds (tb_primaryKey t) = [co_id c] \<Longrightarrow> Q c st"
  shows "wpB (requireSinglePrimaryKey p tid path ids) Q st"
  unfolding requireSinglePrimaryKey_def wpB_simps
proof (rule wpB_tableOf [OF assms(2)])
  show "if length (ky_columnIds (tb_primaryKey t)) \<noteq> 1 then True else wpB (primaryKeyColumn t) Q st"
  proof (cases "length (ky_columnIds (tb_primaryKey t)) = 1")
    case True
    then obtain i where i: "ky_columnIds (tb_primaryKey t) = [i]" by (auto simp: length_Suc_conv)
    have "wpB (primaryKeyColumn t) Q st"
      by (rule wpB_primaryKeyColumn [OF table_okD [OF assms(1,2)] i]) (use assms(3) i in auto)
    with True show ?thesis by simp
  qed simp
qed

lemma single_key_refers:
  assumes "tableAt st tid = Some t" "ky_columnIds (tb_primaryKey t) = [co_id c]"
    and "fk_referencedTableId k = tid" "fk_referencedColumnIds k = [co_id c]"
  shows "refers st k"
  using assms by (simp add: refers_def)

lemma wpB_parseMultiplicity: "multiplicity_text s \<Longrightarrow> (\<And>b. Q b st) \<Longrightarrow> wpB (parseMultiplicity s) Q st"
  by (auto simp: parseMultiplicity_def multiplicity_text_def bigInt_def js_BigInt_def wpB_simps
      split: list.splits option.splits if_splits)

lemma wpB_isMany: "multiplicity_text s \<Longrightarrow> (\<And>b. Q b st) \<Longrightarrow> wpB (isMany s) Q st"
  unfolding isMany_def wpB_simps by (rule wpB_parseMultiplicity) (auto simp: wpB_simps split: prod.split)

lemma wpB_lowerBound: "multiplicity_text s \<Longrightarrow> (\<And>n. Q n st) \<Longrightarrow> wpB (lowerBound s) Q st"
  unfolding lowerBound_def wpB_simps by (rule wpB_parseMultiplicity) (auto simp: wpB_simps split: prod.split)

section \<open>New columns\<close>

lemma literal_names [simp]:
  "physical_name (js ''id'')" "physical_name (js ''owner_id'')" "physical_name (js ''value_id'')"
  "physical_name (js ''value'')" "java_property (js ''id'')" "java_property (js ''ownerId'')"
  "java_property (js ''value'')"
  by (simp_all add: physical_name_def is_physical_name_def java_property_def postgres_reserved_def
      java_reserved_def POSTGRES_RESERVED_WORDS_def JAVA_RESERVED_WORDS_def)
    (simp_all add: js_def physical_char_def is_lower_letter_def)

lemma wpB_scalarType: "(\<And>j d. Q (j, d) st) \<Longrightarrow> wpB (scalarType p t path ids) Q st"
  by (auto simp: scalarType_def wpB_simps split: option.split)

lemma wpB_createAttributeColumn:
  assumes "\<And>c. column_ok c \<Longrightarrow> Q c st"
  shows "wpB (createAttributeColumn p c a tableId primaryKey) Q st"
  using assms unfolding createAttributeColumn_def Let_def
  by (auto simp: wpB_simps column_ok_def toPhysicalName_name toJavaPropertyName_property length_artifactId
      intro!: wpB_scalarType)

lemma wpB_createSyntheticIdColumn:
  assumes "\<And>c st'. quiet st st' \<Longrightarrow> column_ok c \<Longrightarrow> Q c st'"
  shows "wpB (createSyntheticIdColumn p c tableId) Q st"
  unfolding createSyntheticIdColumn_def wpB_simps
  by (rule wpB_info, rule assms) (simp_all add: column_ok_def length_artifactId)

lemma wpB_createRelationshipColumn:
  assumes "build_inv st" "tableAt st referenced = Some t"
    and "\<And>c. column_ok c \<Longrightarrow> Q c st"
  shows "wpB (createRelationshipColumn p tableId referenced ownerEnd referencedEnd r primaryKey rule name) Q st"
  unfolding createRelationshipColumn_def wpB_simps
proof (rule wpB_requireSinglePrimaryKey [OF assms(1,2)], rule wpB_tableOf [OF assms(2)])
qed (auto simp: wpB_simps Let_def column_ok_def referenceColumnPhysicalName_name java_property_Id
      length_artifactId intro!: assms(3))

end
