(* ===== verification/Relational_Kept.thy ===== *)
theory Relational_Kept
  imports Relational_Laws
begin

text \<open>
  The passes of the transformer keep the invariant of \<^theory_text>\<open>Relational_Laws\<close>: they are sequences of
  operations on tables that are there.
\<close>

section \<open>Reference columns\<close>

lemma constraintName_name: "physical_name (constraintName p s)"
  by (simp add: constraintName_def toPhysicalName_name)

lemma grows_at: "grows st st' \<Longrightarrow> tableAt st tid \<noteq> None \<Longrightarrow> tableAt st' tid \<noteq> None"
  using grows_table by fastforce

lemma grows_ids: "grows st st' \<Longrightarrow> tableAt st tid = Some t \<Longrightarrow> tableAt st' tid = Some t' \<Longrightarrow> ids_of t \<subseteq> ids_of t'"
  using grows_table [of st st' tid t] by (auto simp: same_table_def)

lemma grows_key: "grows st st' \<Longrightarrow> tableAt st tid = Some t \<Longrightarrow> tableAt st' tid = Some t' \<Longrightarrow>
    tb_primaryKey t' = tb_primaryKey t"
  using grows_table [of st st' tid t] by (auto simp: same_table_def)

lemma foreign_okI:
  "physical_name (fk_physicalName k) \<Longrightarrow> fk_columnIds k = [i] \<Longrightarrow> i \<in> ids_of t \<Longrightarrow> foreign_ok t k"
  by (simp add: foreign_ok_def)

lemma key_okI: "physical_name (ky_physicalName k) \<Longrightarrow> ky_columnIds k \<noteq> [] \<Longrightarrow> set (ky_columnIds k) \<subseteq> ids_of t \<Longrightarrow> key_ok t k"
  by (simp add: key_ok_def)

text \<open>A continuation that only needs the invariant and what grew.\<close>

definition going_on :: "build_state \<Rightarrow> ('a \<Rightarrow> build_state \<Rightarrow> bool) \<Rightarrow> bool" where
  "going_on st Q \<longleftrightarrow> (\<forall>x st'. build_inv st' \<longrightarrow> grows st st' \<longrightarrow> Q x st')"

lemma going_onD: "going_on st Q \<Longrightarrow> build_inv st' \<Longrightarrow> grows st st' \<Longrightarrow> Q x st'"
  by (simp add: going_on_def)

lemma going_on_quiet: "going_on st Q \<Longrightarrow> build_inv st \<Longrightarrow> quiet st st' \<Longrightarrow> Q x st'"
  by (simp add: going_on_def quiet_inv quiet_grows)

lemma going_on_grows: "going_on st Q \<Longrightarrow> grows st st' \<Longrightarrow> going_on st' Q"
  by (auto simp: going_on_def intro: grows_trans)

lemma wpB_addReferenceColumn:
  assumes "build_inv st" "tableAt st owner \<noteq> None" "tableAt st referenced \<noteq> None" "going_on st Q"
  shows "wpB (addReferenceColumn p owner referenced name umlType nullable uniq ids paths rule onDelete r) Q st"
proof -
  obtain o1 u where at: "tableAt st owner = Some o1" "tableAt st referenced = Some u" using assms(2,3) by auto
  show ?thesis
    unfolding addReferenceColumn_def wpB_basic(1,2) Let_def
  proof (rule wpB_requireSinglePrimaryKey [OF assms(1) at(2)], rule wpB_tableOf [OF at(2)],
      rule wpB_addColumn_on [OF assms(1) at(1)])
    fix k c :: relational_column and t :: relational_table and st'
    assume k: "k \<in> set (tb_columns u)" "ky_columnIds (tb_primaryKey u) = [co_id k]"
      and st': "build_inv st'" "grows st st'" "tableAt st' owner = Some t" "co_id c \<in> ids_of t"
    obtain u' where u': "tableAt st' referenced = Some u'" "tb_primaryKey u' = tb_primaryKey u"
      using grows_table [OF st'(2) at(2)] by (auto simp: same_table_def)
    show "wpB (tableOf owner) (\<lambda>x. wpB (onTable owner (addForeignKey p
       \<lparr>fk_id = artifactId (js ''fk_'' @ owner @ js ''_'' @ co_id c),
        fk_physicalName = constraintName p (js ''fk_'' @ tb_physicalName x @ js ''_'' @ co_physicalName c),
        fk_columnIds = [co_id c], fk_referencedTableId = referenced, fk_referencedColumnIds = [co_id k],
        fk_sourceMultiplicity = map_option fst (map_option (canonicalRelationshipMultiplicities p) r),
        fk_targetMultiplicity = map_option snd (map_option (canonicalRelationshipMultiplicities p) r),
        fk_onDelete = onDelete, fk_source = trace p ids paths (rule @ js ''.foreign-key'')\<rparr>))
      (\<lambda>_. wpB (whenB uniq (onTable owner (addUniqueConstraint p
         \<lparr>ky_id = artifactId (js ''unique_'' @ owner @ js ''_'' @ co_id c),
          ky_physicalName = constraintName p (js ''uk_'' @ tb_physicalName x @ js ''_'' @ co_physicalName c),
          ky_columnIds = [co_id c], ky_source = trace p ids paths (rule @ js ''.unique'')\<rparr>)))
        (\<lambda>_. Q c))) st'"
    proof (rule wpB_tableOf [OF st'(3)], rule wpB_addForeignKey_on [OF st'(1,3)])
      fix st''
      assume st'': "build_inv st''" "grows st' st''"
      then obtain t'' where t'': "tableAt st'' owner = Some t''" "ids_of t \<subseteq> ids_of t''"
        using grows_table [OF st''(2) st'(3)] by (auto simp: same_table_def)
      have on: "going_on st'' Q"
        by (rule going_on_grows [OF assms(4) grows_trans [OF st'(2) st''(2)]])
      show "wpB (whenB uniq (onTable owner (addUniqueConstraint p
         \<lparr>ky_id = artifactId (js ''unique_'' @ owner @ js ''_'' @ co_id c),
          ky_physicalName = constraintName p (js ''uk_'' @ tb_physicalName t @ js ''_'' @ co_physicalName c),
          ky_columnIds = [co_id c], ky_source = trace p ids paths (rule @ js ''.unique'')\<rparr>)))
        (\<lambda>_. Q c) st''"
        unfolding wpB_simps using st'(4) t''(2)
        by (auto intro!: wpB_addUniqueConstraint_on [OF st''(1) t''(1)] key_okI
            intro: going_onD [OF on] st''(1) simp: constraintName_name)
    qed (auto intro!: foreign_okI st'(4) single_key_refers [OF u'(1)] simp: constraintName_name u'(2) k(2))
  qed (simp add: column_ok_def referenceColumnPhysicalName_name toJavaPropertyName_property length_artifactId)
qed

lemma wpB_addForeignKeyForRelationship:
  assumes "build_inv st" "tableAt st tid = Some t" "co_id c \<in> ids_of t" "tableAt st referenced \<noteq> None" "going_on st Q"
  shows "wpB (addForeignKeyForRelationship p tid c referenced r rule onDelete) Q st"
proof -
  obtain u where u: "tableAt st referenced = Some u" using assms(4) by auto
  show ?thesis
    unfolding addForeignKeyForRelationship_def Let_def case_prod_unfold wpB_simps
    by (rule wpB_tableOf [OF assms(2)], rule wpB_requireSinglePrimaryKey [OF assms(1) u],
        rule wpB_addForeignKey_on [OF assms(1,2)])
      (auto intro!: foreign_okI assms(3) single_key_refers [OF u] simp: constraintName_name
        intro: going_onD [OF assms(5)])
qed

section \<open>New tables\<close>

lemma artifactId_nonempty [simp]: "artifactId s = [] \<longleftrightarrow> s = []"
  by (auto simp: artifactId_def Let_def)

lemma new_tableI:
  assumes "tb_id t \<noteq> []" "length (tb_id t) \<le> 160" "physical_name (tb_physicalName t)"
    and "is_java_type_name (tb_javaEntityName t)" "columns_ok (tb_columns t)" "key_ok t (tb_primaryKey t)"
    and "tb_foreignKeys t = []" "tb_uniqueConstraints t = []"
    and "\<And>i. tb_sourceClassifierId t = Some i \<Longrightarrow>
           tb_id t = artifactId (js ''table_'' @ i) \<and> i \<in> classesOf (bs_canonical st)"
  shows "new_table st t"
  using assms by (simp add: new_table_def table_ok_def)

text \<open>Two columns put into a table without columns.\<close>

lemma wpB_twoColumns:
  assumes "column_ok c" "column_ok d" "tb_columns t = []"
    and "\<And>c' d' st'. quiet st st' \<Longrightarrow> columns_ok [c', d'] \<Longrightarrow> Q (t\<lparr>tb_columns := [c', d']\<rparr>) c' d' st'"
  shows "wpB (addColumn p c t) (\<lambda>(t1, c'). wpB (addColumn p d t1) (\<lambda>(t2, d'). Q t2 c' d')) st"
proof (rule wpB_addColumn [OF assms(1)], unfold split_conv)
  show "columns_ok (tb_columns t)" by (simp add: assms(3) columns_ok_def)
  fix c' st1
  assume 1: "quiet st st1" "columns_ok (tb_columns t @ [c'])"
  show "wpB (addColumn p d (t\<lparr>tb_columns := tb_columns t @ [c']\<rparr>)) (\<lambda>(t2, d'). Q t2 c' d') st1"
  proof (rule wpB_addColumn [OF assms(2)])
    fix d' st2
    assume "quiet st1 st2" "columns_ok (tb_columns (t\<lparr>tb_columns := tb_columns t @ [c']\<rparr>) @ [d'])"
    then show "(case (t\<lparr>tb_columns := tb_columns t @ [c'],
        tb_columns := tb_columns (t\<lparr>tb_columns := tb_columns t @ [c']\<rparr>) @ [d']\<rparr>, d') of (t2, d') \<Rightarrow> Q t2 c' d') st2"
      using assms(4) [OF quiet_trans [OF 1(1)], of st2 c' d'] by (simp add: assms(3))
  qed (use 1(2) in simp)
qed

lemma wpB_info_last: "going_on st Q \<Longrightarrow> build_inv st \<Longrightarrow> wpB (info p code message path ids) Q st"
  by (rule wpB_info) (rule going_on_quiet)

lemma primaryKeyForTable_ok:
  "set (i # is) \<subseteq> ids_of t \<Longrightarrow> key_ok t (primaryKeyForTable p tableId name i source is)"
  by (simp add: key_ok_def primaryKeyForTable_def constraintName_name)

section \<open>Collection tables\<close>

lemma wpB_collectionValueColumn:
  assumes "build_inv st"
    and "\<And>c target. column_ok c \<Longrightarrow> (\<forall>tid \<in> set_option target. tableAt st tid \<noteq> None) \<Longrightarrow> Q (c, target) st"
  shows "wpB (collectionValueColumn p c a tableId source) Q st"
proof (cases "truthy (tr_elementId (at_type a))")
  case True
  show ?thesis
    unfolding collectionValueColumn_def Let_def if_P [OF True] wpB_basic(1,2)
  proof (rule wpB_tableForClassifier [OF assms(1)])
    fix tid t
    assume t: "tableAt st tid = Some t"
    show "wpB (requireSinglePrimaryKey p tid (attributePath (cl_id c) (at_id a))
        [cl_id c, at_id a, textOf (tr_elementId (at_type a))]) (\<lambda>x. wpB (tableOf tid) (\<lambda>xa. Q
       (\<lparr>co_id = artifactId (js ''column_'' @ tableId @ js ''_value_id''), co_logicalName = at_name a,
            co_physicalName = js ''value_id'', co_javaPropertyName = toJavaPropertyName p (at_name a),
            co_javaType = tb_javaEntityName xa, co_postgresType = co_postgresType x,
            co_umlType = tr_name (at_type a), co_nullable = False, co_primaryKey = True, co_generated = False,
            co_defaultValue = None,
            co_source = trace p [cl_id c, at_id a, textOf (tr_elementId (at_type a))]
              [attributePath (cl_id c) (at_id a), classifierPath (textOf (tr_elementId (at_type a)))]
              (js ''attribute.collection-class-reference'')\<rparr>,
            Some tid))) st"
      by (rule wpB_requireSinglePrimaryKey [OF assms(1) t], rule wpB_tableOf [OF t], rule assms(2))
        (simp_all add: t column_ok_def toJavaPropertyName_property length_artifactId)
  qed
next
  case False
  then show ?thesis
    unfolding collectionValueColumn_def Let_def
    by (auto simp: wpB_simps column_ok_def length_artifactId intro!: wpB_scalarType assms(2))
qed

lemma wpB_addCollectionValueKey:
  assumes "build_inv st" "tableAt st stored = Some t" "co_id v \<in> ids_of t" "tableAt st target \<noteq> None" "going_on st Q"
  shows "wpB (addCollectionValueKey p c a stored tableId name v target) Q st"
proof -
  obtain u where u: "tableAt st target = Some u" using assms(4) by auto
  show ?thesis
    unfolding addCollectionValueKey_def Let_def wpB_basic(1,2)
    by (rule wpB_requireSinglePrimaryKey [OF assms(1) u], rule wpB_addForeignKey_on [OF assms(1,2)])
      (auto intro!: foreign_okI assms(3) single_key_refers [OF u] simp: constraintName_name
        intro: going_onD [OF assms(5)])
qed

lemma wpB_createCollectionTable:
  assumes "build_inv st" "tableAt st owner = Some t" "going_on st Q"
  shows "wpB (createCollectionTable p owner c a) Q st"
  unfolding createCollectionTable_def Let_def wpB_basic(1,2) wpB_case_prod
proof (rule wpB_tableOf [OF assms(2)], rule wpB_requireSinglePrimaryKey [OF assms(1,2)],
    rule wpB_collectionValueColumn [OF assms(1)], unfold split_conv, rule wpB_twoColumns, goal_cases)
  case (4 ownerId v target c' d' st')
  let ?id = "artifactId (js ''table_collection_'' @ cl_id c @ js ''_'' @ at_id a)"
  let ?name = "toPhysicalName p (tb_physicalName t @ js ''_'' @ at_name a)"
  let ?source = "trace p [cl_id c, at_id a] [attributePath (cl_id c) (at_id a)] (js ''attribute.collection-table'')"
  let ?key = "primaryKeyForTable p ?id ?name (co_id c') ?source [co_id d']"
  let ?owner = "collectionOwnerColumn c ?id ownerId ?source"
  let ?table = "(collectionTable p t c a (primaryKeyForTable p ?id ?name (co_id ?owner) ?source [co_id v]) ?source)
    \<lparr>tb_columns := [c', d'], tb_primaryKey := ?key\<rparr>"
  have inv: "build_inv st'" by (rule quiet_inv [OF 4(5) assms(1)])
  have at: "tableAt st' = tableAt st" by (rule quietD(1) [OF 4(5)])
  have on: "going_on st' Q" by (rule going_on_grows [OF assms(3) quiet_grows [OF 4(5)]])
  have new: "new_table st' ?table"
    by (rule new_tableI) (simp_all add: collectionTable_def length_artifactId toPhysicalName_name
        toJavaTypeName_type 4(6) primaryKeyForTable_ok ids_of_def)
  show ?case
  proof (rule wpB_addTable [OF inv new])
    fix t' st2
    assume st2: "build_inv st2" "grows st' st2" "tableAt st2 (tb_id ?table) = Some t'" "renamed ?table t'"
    have ids: "ids_of t' = {co_id c', co_id d'}" using st2(4) by (simp add: renamed_def ids_of_def)
    have owner: "tableAt st' owner = Some t" using assms(2) by (simp add: at)
    obtain o2 where o2: "tableAt st2 owner = Some o2" "tb_primaryKey o2 = tb_primaryKey t"
      using grows_table [OF st2(2) owner] by (auto simp: same_table_def)
    show "wpB (onTable (tb_id ?table) (addForeignKey p (collectionOwnerKey p ?id ?name c' owner ownerId ?source)))
       (\<lambda>_. wpB (case target of None \<Rightarrow> ret ()
          | Some tid \<Rightarrow> addCollectionValueKey p c a (tb_id ?table) ?id ?name d' tid)
         (\<lambda>_. wpB (info p (js ''COLLECTION_TABLE_CREATED'')
            (js ''Collection attribute '' @ cl_name c @ js ''.'' @ at_name a @ js '' is represented by '' @ ?name @ js ''.'')
            (attributePath (cl_id c) (at_id a)) [cl_id c, at_id a]) Q)) st2"
    proof (rule wpB_addForeignKey_on [OF st2(1,3)])
      show "foreign_ok t' (collectionOwnerKey p ?id ?name c' owner ownerId ?source)"
        by (simp add: foreign_ok_def collectionOwnerKey_def constraintName_name ids)
      show "refers st2 (collectionOwnerKey p ?id ?name c' owner ownerId ?source)"
        by (rule single_key_refers [OF o2(1)]) (simp_all add: o2(2) 4(2) collectionOwnerKey_def)
      fix st3
      assume st3: "build_inv st3" "grows st2 st3"
      obtain t3 where t3: "tableAt st3 (tb_id ?table) = Some t3" "co_id d' \<in> ids_of t3"
        using grows_table [OF st3(2) st2(3)] ids by (auto simp: same_table_def)
      have g3: "grows st' st3" by (rule grows_trans [OF st2(2) st3(2)])
      have on3: "going_on st3 Q" by (rule going_on_grows [OF on g3])
      have target: "tableAt st3 tid \<noteq> None" if "target = Some tid" for tid
        using 4(4) that by (intro grows_at [OF g3]) (simp add: at)
      have last: "going_on st3 (\<lambda>_. wpB (info p code message path ids') Q)" for code message path ids'
        unfolding going_on_def by (auto intro: wpB_info_last going_on_grows [OF on3])
      show "wpB (case target of None \<Rightarrow> ret ()
          | Some tid \<Rightarrow> addCollectionValueKey p c a (tb_id ?table) ?id ?name d' tid)
         (\<lambda>_. wpB (info p (js ''COLLECTION_TABLE_CREATED'')
            (js ''Collection attribute '' @ cl_name c @ js ''.'' @ at_name a @ js '' is represented by '' @ ?name @ js ''.'')
            (attributePath (cl_id c) (at_id a)) [cl_id c, at_id a]) Q) st3"
        using target wpB_addCollectionValueKey [OF st3(1) t3 _ last]
        by (cases target) (auto simp: wpB_simps intro: wpB_info_last on3 st3(1))
    qed
  qed
qed (simp_all add: column_ok_def collectionOwnerColumn_def collectionTable_def length_artifactId)

section \<open>Loops\<close>

text \<open>A loop whose rounds each achieve something that is not undone.\<close>

lemma wpB_forEach_each:
  assumes "build_inv st"
    and step: "\<And>x st' R. x \<in> set xs \<Longrightarrow> build_inv st' \<Longrightarrow> grows st st' \<Longrightarrow>
      (\<And>st''. build_inv st'' \<Longrightarrow> grows st' st'' \<Longrightarrow> D x st'' \<Longrightarrow> R () st'') \<Longrightarrow> wpB (f x) R st'"
    and stable: "\<And>x st' st''. D x st' \<Longrightarrow> grows st' st'' \<Longrightarrow> D x st''"
    and last: "\<And>st'. build_inv st' \<Longrightarrow> grows st st' \<Longrightarrow> \<forall>x \<in> set xs. D x st' \<Longrightarrow> Q () st'"
  shows "wpB (forEachB f xs) Q st"
proof -
  have "wpB (forEachB f ys) Q st'" if "set ys \<subseteq> set xs" "build_inv st'" "grows st st'" "\<forall>x \<in> set xs - set ys. D x st'"
    for ys st'
    using that
  proof (induction ys arbitrary: st')
    case Nil
    then show ?case by (simp add: wpB_simps last)
  next
    case (Cons y ys)
    show ?case
      unfolding forEachB.simps wpB_simps
    proof (rule step)
      fix st''
      assume st'': "build_inv st''" "grows st' st''" "D y st''"
      show "wpB (forEachB f ys) Q st''"
      proof (rule Cons.IH [OF _ st''(1)])
        show "grows st st''" by (rule grows_trans [OF Cons.prems(3) st''(2)])
        show "\<forall>x \<in> set xs - set ys. D x st''"
        proof
          fix x assume "x \<in> set xs - set ys"
          then show "D x st''"
            using Cons.prems(4) st''(3) stable [OF _ st''(2)] by (cases "x = y") auto
        qed
      qed (use Cons.prems in simp)
    qed (use Cons.prems in auto)
  qed
  from this [of xs st] show ?thesis using assms(1) by simp
qed

lemma wpB_forEach_going:
  assumes "build_inv st"
    and "\<And>x st' R. x \<in> set xs \<Longrightarrow> build_inv st' \<Longrightarrow> grows st st' \<Longrightarrow> going_on st' R \<Longrightarrow> wpB (f x) R st'"
    and "going_on st Q"
  shows "wpB (forEachB f xs) Q st"
  by (rule wpB_forEach_each [where D = "\<lambda>_ _. True", OF assms(1)])
    (use assms(2,3) in \<open>auto simp: going_on_def\<close>)

section \<open>Attributes\<close>

lemma wpB_addAttributeToTable:
  assumes "build_inv st" "tableAt st tid \<noteq> None" "going_on st Q"
  shows "wpB (addAttributeToTable p tid c a) Q st"
proof (cases "at_isStatic a")
  case True
  then show ?thesis by (simp add: addAttributeToTable_def wpB_info_last assms)
next
  case False
  obtain t where t: "tableAt st tid = Some t" using assms(2) by auto
  have on: "Q x st" for x using assms(1,3) by (simp add: going_on_def)
  have column: "wpB (createAttributeColumn p c a tid False) (\<lambda>column. wpB (onTable tid (addColumn p column)) (\<lambda>_. Q ())) st"
    by (rule wpB_createAttributeColumn, rule wpB_addColumn_on [OF assms(1) t]) (auto intro: going_onD [OF assms(3)])
  have reference: "wpB (tableForClassifier p i ids path) (\<lambda>targetTable. wpB (addReferenceColumn p tid targetTable
      name umlType nullable uniq ids' paths rule onDelete r) (\<lambda>_. Q ())) st"
    for i ids path name umlType nullable uniq ids' paths rule onDelete r
    by (rule wpB_tableForClassifier [OF assms(1)], rule wpB_addReferenceColumn [OF assms(1,2)])
      (use assms(3) in \<open>auto simp: going_on_def\<close>)
  show ?thesis
    unfolding addAttributeToTable_def Let_def if_not_P [OF False] wpB_basic(1,2)
  proof (rule wpB_tableOf [OF t])
  qed (auto simp: wpB_simps on column reference wpB_createCollectionTable [OF assms(1) t assms(3)]
      intro!: wpB_warning going_on_quiet [OF assms(3,1)])
qed

lemma wpB_addAttributes:
  assumes "build_inv st" "tableAt st tid \<noteq> None" "going_on st Q"
  shows "wpB (forEachB (addAttributeToTable p tid c) as) Q st"
  by (rule wpB_forEach_going [OF assms(1) _ assms(3)], rule wpB_addAttributeToTable)
    (assumption | rule grows_at [OF _ assms(2)])+

lemma set_sortedClassifiers [simp]: "set (sortedClassifiers p els) = set els"
  and set_sortedRelationships [simp]: "set (sortedRelationships p rs) = set rs"
  by (simp_all add: sortedClassifiers_def sortedRelationships_def)

lemma tableOfClass_at: "build_inv st \<Longrightarrow> tableOfClass st i = Some tid \<Longrightarrow> tableAt st tid \<noteq> None"
  using inv_classifierTable by fastforce

lemma wpB_buildClassifierAttributes:
  assumes "build_inv st" "going_on st Q"
  shows "wpB (buildClassifierAttributes p) Q st"
  unfolding buildClassifierAttributes_def wpB_simps
proof (rule wpB_forEach_going [OF assms(1) _ assms(2)])
  fix c st' and R :: "unit \<Rightarrow> build_state \<Rightarrow> bool"
  assume st': "build_inv st'" "going_on st' R"
  have on: "R x st'" for x using st' by (simp add: going_on_def)
  show "wpB (if \<not> is_class c then ret () else thenB (getB (\<lambda>st. mapGet (bs_classifierTables st) (cl_id c))) (\<lambda>found.
      case found of None \<Rightarrow> ret () | Some tid \<Rightarrow> thenB (tableOf tid) (\<lambda>t.
        if tb_kind t \<noteq> EntityTable then ret ()
        else forEachB (addAttributeToTable p tid c) (sortedAttributes p (cl_attributes c))))) R st'"
  proof (cases "tableOfClass st' (cl_id c)")
    case None
    then show ?thesis by (simp add: wpB_simps on tableOfClass_def)
  next
    case (Some tid)
    obtain t where t: "tableAt st' tid = Some t" using tableOfClass_at [OF st'(1) Some] by auto
    have "wpB (tableOf tid) (\<lambda>t. wpB (if tb_kind t \<noteq> EntityTable then ret ()
        else forEachB (addAttributeToTable p tid c) (sortedAttributes p (cl_attributes c))) R) st'"
      by (rule wpB_tableOf [OF t]) (use t in \<open>auto simp: wpB_simps on intro!: wpB_addAttributes st'\<close>)
    then show ?thesis using Some by (simp add: wpB_simps on tableOfClass_def)
  qed
qed

section \<open>Entity tables\<close>

lemma wpB_identifierColumn:
  assumes "\<And>col st'. quiet st st' \<Longrightarrow> column_ok col \<Longrightarrow> Q col st'"
  shows "wpB (identifierColumn p c tableId) Q st"
proof -
  have synthetic: "wpB (createSyntheticIdColumn p c tableId) Q st1" if "quiet st st1" for st1
    by (rule wpB_createSyntheticIdColumn, rule assms) (rule quiet_trans [OF that])
  have explicit: "wpB (createAttributeColumn p c a tableId True) Q st" for a
    by (rule wpB_createAttributeColumn, rule assms [OF quiet_refl])
  show ?thesis
    unfolding identifierColumn_def
    by (auto simp: wpB_simps synthetic explicit split: option.split intro!: wpB_warning)
qed

definition has_table :: "jstring set \<Rightarrow> uml_classifier \<Rightarrow> build_state \<Rightarrow> bool" where
  "has_table excluded c st \<longleftrightarrow> (is_class c \<longrightarrow> cl_id c \<noteq> [] \<longrightarrow> cl_id c \<notin> excluded \<longrightarrow> tableOfClass st (cl_id c) \<noteq> None)"

lemma has_table_grows: "has_table X c st \<Longrightarrow> grows st st' \<Longrightarrow> has_table X c st'"
  by (simp add: has_table_def grows_def)

lemma entityTable_new:
  assumes "column_ok col" "cl_id c \<in> classesOf (bs_canonical st)"
  shows "new_table st (entityTable p c isAbstract col)"
  using assms
  by (intro new_tableI)
    (auto simp: entityTable_def Let_def length_artifactId toPhysicalName_name toJavaTypeName_type columns_ok_def
      primaryKeyForTable_ok ids_of_def)

lemma wpB_buildEntityTable:
  assumes "build_inv st" "c \<in> set (dg_elements (cm_diagram (bs_canonical st)))"
    and "\<And>st'. build_inv st' \<Longrightarrow> grows st st' \<Longrightarrow> has_table X c st' \<Longrightarrow> Q () st'"
  shows "wpB (buildEntityTable p X c) Q st"
proof (cases "cl_kind c")
  case KInterface
  then have "has_table X c st'" for st' by (simp add: has_table_def is_class_def)
  then show ?thesis
    unfolding buildEntityTable_def KInterface classifier_kind.case
    by (intro wpB_info assms(3)) (auto intro: quiet_inv [OF _ assms(1)] quiet_grows)
next
  case (KClass isAbstract)
  show ?thesis
  proof (cases "cl_id c \<in> X")
    case True
    then show ?thesis using assms(1,3) by (simp add: buildEntityTable_def KClass wpB_simps has_table_def)
  next
    case False
    have going: "going_on st2 Q" if "build_inv st2" "grows st st2" "has_table X c st2" for st2
      unfolding going_on_def using that assms(3) by (auto intro: grows_trans has_table_grows)
    show ?thesis
      unfolding buildEntityTable_def KClass classifier_kind.case if_not_P [OF False] wpB_basic(1,2)
    proof (rule wpB_identifierColumn)
      fix col st1
      assume 1: "quiet st st1" "column_ok col"
      have inv1: "build_inv st1" by (rule quiet_inv [OF 1(1) assms(1)])
      have "cl_id c \<in> classesOf (bs_canonical st1)"
        using assms(2) KClass by (auto simp: classesOf_def is_class_def quietD [OF 1(1)])
      note new = entityTable_new [OF 1(2) this, of p isAbstract]
      show "wpB (addTable p (entityTable p c isAbstract col)) (\<lambda>_. wpB (whenB isAbstract
          (warning p (js ''ABSTRACT_ENTITY_TABLE'')
                 (js ''Abstract class '' @ cl_name c @ js '' still receives a JOINED root table.'')
                 (classifierPath (cl_id c)) [cl_id c]))
         (\<lambda>_. wpB (whenB (cl_operations c \<noteq> []) (info p (js ''OPERATIONS_NOT_PERSISTED'')
                 (js ''Operations of '' @ cl_name c @ js '' are not persistence artifacts in 6A.1.'')
                 (classifierPath (cl_id c)) [cl_id c])) Q)) st1"
      proof (rule wpB_addTable [OF inv1 new])
        fix t st2
        assume 2: "build_inv st2" "grows st1 st2" "truthy (tb_sourceClassifierId (entityTable p c isAbstract col)) \<longrightarrow>
          tableOfClass st2 (textOf (tb_sourceClassifierId (entityTable p c isAbstract col))) \<noteq> None"
        have on: "going_on st2 Q"
          using 2 by (intro going) (auto intro: grows_trans quiet_grows 1(1)
              simp: has_table_def entityTable_def Let_def textOf_def)
        have last: "wpB (whenB (cl_operations c \<noteq> []) (info p code message path ids)) Q st3"
          if "build_inv st3" "grows st2 st3" for code message path ids st3
          using that by (auto simp: wpB_simps intro!: wpB_info_last going_on_grows [OF on] intro: going_onD [OF on])
        have abstract: "wpB (warning p code message path ids)
            (\<lambda>_. wpB (whenB (cl_operations c \<noteq> []) (info p code' message' path' ids')) Q) st2"
          for code message path ids code' message' path' ids'
          by (rule wpB_warning, rule last) (auto intro: quiet_inv [OF _ 2(1)] quiet_grows)
        show "wpB (whenB isAbstract (warning p (js ''ABSTRACT_ENTITY_TABLE'')
                 (js ''Abstract class '' @ cl_name c @ js '' still receives a JOINED root table.'')
                 (classifierPath (cl_id c)) [cl_id c]))
         (\<lambda>_. wpB (whenB (cl_operations c \<noteq> []) (info p (js ''OPERATIONS_NOT_PERSISTED'')
                 (js ''Operations of '' @ cl_name c @ js '' are not persistence artifacts in 6A.1.'')
                 (classifierPath (cl_id c)) [cl_id c])) Q) st2"
          unfolding wpB_basic(5) [of isAbstract] using abstract last [OF 2(1) grows_refl] by simp
      qed
    qed
  qed
qed

lemma wpB_buildEntityTables:
  assumes "build_inv st"
    and "\<And>st'. build_inv st' \<Longrightarrow> grows st st' \<Longrightarrow> (\<forall>c \<in> set (dg_elements (cm_diagram (bs_canonical st))).
       has_table (association_class_ids_of (dg_relationships (cm_diagram (bs_canonical st)))) c st') \<Longrightarrow> Q () st'"
  shows "wpB (buildEntityTables p) Q st"
  unfolding buildEntityTables_def wpB_simps
  by (rule wpB_forEach_each [where D = "has_table (association_class_ids_of (dg_relationships (cm_diagram (bs_canonical st))))",
        OF assms(1)], rule wpB_buildEntityTable)
    (auto simp: grows_def [of st] intro: has_table_grows assms(2))

section \<open>Association classes\<close>

lemma sortedPair_cases:
  assumes "sortedPair cmp x y = (a, b)" "P x" "P y"
  shows "P a" "P b"
  using assms by (auto simp: sortedPair_def split: if_splits)

lemma wpB_associationClassIdColumn:
  assumes "\<And>col. (\<forall>c \<in> set_option col. column_ok c) \<Longrightarrow> Q col st"
  shows "wpB (associationClassIdColumn p r ac) Q st"
  using assms unfolding associationClassIdColumn_def Let_def optionalB_def
  by (auto simp: wpB_simps split: option.split intro!: wpB_createAttributeColumn)

lemma wpB_addOptionalColumn:
  assumes "columns_ok (tb_columns t)" "\<forall>c \<in> set_option col. column_ok c"
    and "\<And>col' extra st'. quiet st st' \<Longrightarrow> columns_ok (tb_columns t @ extra) \<Longrightarrow>
       (\<forall>c \<in> set_option col'. c \<in> set extra) \<Longrightarrow> Q (t\<lparr>tb_columns := tb_columns t @ extra\<rparr>, col') st'"
  shows "wpB (addOptionalColumn p col t) Q st"
proof (cases col)
  case None
  have "Q (t\<lparr>tb_columns := tb_columns t @ []\<rparr>, None) st" by (rule assms(3)) (use assms(1) in auto)
  with None show ?thesis by (simp add: addOptionalColumn_def wpB_simps)
next
  case (Some c)
  have "wpB (addColumn p c t) (\<lambda>(t', c'). Q (t', Some c')) st"
  proof (rule wpB_addColumn)
    fix c' st'
    assume "quiet st st'" "columns_ok (tb_columns t @ [c'])"
    then show "(case (t\<lparr>tb_columns := tb_columns t @ [c']\<rparr>, c') of (t', c') \<Rightarrow> Q (t', Some c')) st'"
      using assms(3) [of st' "[c']" "Some c'"] by simp
  qed (use assms Some in auto)
  with Some show ?thesis by (simp add: addOptionalColumn_def wpB_simps)
qed

lemma associationClassTable_new:
  assumes "cl_id ac \<in> classesOf (bs_canonical st)" "columns_ok (c # d # extra)" "\<forall>c \<in> set_option col. c \<in> set extra"
  shows "new_table st ((associationClassTable p r ac key source)\<lparr>tb_columns := c # d # extra,
    tb_primaryKey := associationClassKey p ac col c d source'\<rparr>)"
  using assms
  by (intro new_tableI) (auto simp: associationClassTable_def length_artifactId toPhysicalName_name
      toJavaTypeName_type associationClassKey_def primaryKeyForTable_ok ids_of_def split: option.split)

lemma wpB_addEndpointConstraint:
  assumes "build_inv st" "tableAt st stored = Some t" "{co_id c, co_id d} \<subseteq> ids_of t" "going_on st Q"
  shows "wpB (addEndpointConstraint p r ac stored c d e f) Q st"
  unfolding addEndpointConstraint_def wpB_basic(1,2)
  by (rule wpB_tableOf [OF assms(2)], rule wpB_addUniqueConstraint_on [OF assms(1,2)])
    (use assms(3) in \<open>auto intro!: key_okI simp: constraintName_name intro: going_onD [OF assms(4)]\<close>)

text \<open>The foreign keys of both ends of a new table.\<close>

lemma wpB_endpointKeys:
  assumes "build_inv st" "tableAt st tid = Some t" "co_id c \<in> ids_of t" "co_id d \<in> ids_of t"
    and "tableAt st first \<noteq> None" "tableAt st second \<noteq> None" "going_on st Q"
  shows "wpB (addForeignKeyForRelationship p tid c first r rule onDelete)
     (\<lambda>_. wpB (addForeignKeyForRelationship p tid d second r rule' onDelete') Q) st"
proof (rule wpB_addForeignKeyForRelationship [OF assms(1-3,5)])
  show "going_on st (\<lambda>_. wpB (addForeignKeyForRelationship p tid d second r rule' onDelete') Q)"
    unfolding going_on_def
  proof (intro allI impI)
    fix st'
    assume st': "build_inv st'" "grows st st'"
    obtain t' where "tableAt st' tid = Some t'" "co_id d \<in> ids_of t'"
      using grows_table [OF st'(2) assms(2)] assms(4) by (auto simp: same_table_def)
    then show "wpB (addForeignKeyForRelationship p tid d second r rule' onDelete') Q st'"
      by (rule wpB_addForeignKeyForRelationship [OF st'(1)])
        (intro grows_at [OF st'(2)] assms(6), rule going_on_grows [OF assms(7) st'(2)])
  qed
qed

lemma wpB_buildAssociationClassTable:
  assumes "build_inv st" "ac \<in> set (dg_elements (cm_diagram (bs_canonical st)))" "is_class ac"
    and "\<And>st'. build_inv st' \<Longrightarrow> grows st st' \<Longrightarrow> has_table {} ac st' \<Longrightarrow> Q () st'"
  shows "wpB (buildAssociationClassTable p r ac) Q st"
  unfolding buildAssociationClassTable_def Let_def wpB_basic(1,2)
proof (rule wpB_tableForClassifier [OF assms(1)], rule wpB_tableForClassifier [OF assms(1)],
    rule wpB_associationClassIdColumn, goal_cases)
  case (1 s sT t tT col)
  obtain fT fE gT gE where pair: "sortedPair (byKey (pl_compare p) relationshipEndpointKey)
      (s, rl_source r) (t, rl_target r) = ((fT, fE), (gT, gE))" by (metis surj_pair)
  have at: "tableAt st fT \<noteq> None" "tableAt st gT \<noteq> None"
    using sortedPair_cases [OF pair, where P = "\<lambda>(tid, e). tableAt st tid \<noteq> None"] 1 by auto
  obtain fU gU where tables: "tableAt st fT = Some fU" "tableAt st gT = Some gU" using at by auto
  show ?case
    unfolding pair split_conv wpB_case_prod wpB_basic(1,2)
  proof (rule wpB_createRelationshipColumn [OF assms(1) tables(1)],
      rule wpB_createRelationshipColumn [OF assms(1) tables(2)], rule wpB_twoColumns, goal_cases)
    case (4 c d c' d' st1)
    show ?case
    proof (rule wpB_addOptionalColumn [OF _ 1(3)], simp add: 4(4), goal_cases)
      case (1 col' extra st2)
      have q: "quiet st st2" by (rule quiet_trans [OF 4(3) 1(1)])
      have of_class: "cl_id ac \<in> classesOf (bs_canonical st2)"
        using assms(2,3) by (auto simp: classesOf_def quietD [OF q])
      have inv: "build_inv st2" by (rule quiet_inv [OF q assms(1)])
      have cols: "columns_ok (c' # d' # extra)" using 1(2) by simp
      show ?case
        unfolding split_conv
      proof (rule wpB_addTable [OF inv], goal_cases)
        case 1
        show ?case using associationClassTable_new [OF of_class cols \<open>\<forall>c \<in> set_option col'. c \<in> set extra\<close>] by simp
      next
        case (2 t3 st3)
        have g: "grows st st3" by (rule grows_trans [OF quiet_grows [OF q] 2(2)])
        have ids: "co_id c' \<in> ids_of t3" "co_id d' \<in> ids_of t3" using 2(4) by (auto simp: renamed_def ids_of_def)
        have "has_table {} ac st3"
          using 2(5) by (auto simp: has_table_def associationClassTable_def textOf_def)
        then have on: "going_on st3 Q"
          unfolding going_on_def by (auto intro: assms(4) grows_trans [OF g] has_table_grows)
        show ?case
        proof (rule wpB_endpointKeys [OF 2(1,3) ids grows_at [OF g at(1)] grows_at [OF g at(2)]],
            unfold going_on_def, intro allI impI, goal_cases)
          case (1 _ st4)
          obtain t4 where t4: "tableAt st4 (tb_id t3) = Some t4" "{co_id c', co_id d'} \<subseteq> ids_of t4"
            using grows_table [OF 1(2) 2(3)] ids 2(4) by (auto simp: same_table_def renamed_def)
          have on4: "going_on st4 Q" by (rule going_on_grows [OF on 1(2)])
          have rest: "going_on st4 (\<lambda>_. wpB (forEachB (addAttributeToTable p (tb_id t3) ac) as)
              (\<lambda>_. wpB (info p code message path ids') Q))" for as code message path ids'
            unfolding going_on_def
          proof (intro allI impI, rule wpB_addAttributes)
            fix st5
            assume st5: "build_inv st5" "grows st4 st5"
            then show "tableAt st5 (tb_id t3) \<noteq> None" by (intro grows_at [OF st5(2)]) (simp add: t4(1))
            show "going_on st5 (\<lambda>_. wpB (info p code message path ids') Q)"
              unfolding going_on_def
              by (auto intro: wpB_info_last going_on_grows [OF going_on_grows [OF on4 st5(2)]])
          qed
          have id: "tb_id t3 = artifactId (js ''table_'' @ cl_id ac)"
            using 2(4) by (simp add: renamed_def associationClassTable_def)
          show ?case
            using wpB_addEndpointConstraint [OF 1(1) t4 rest] going_onD [OF rest 1(1) grows_refl]
            unfolding wpB_basic(5) id by (simp add: associationClassTable_def)
        qed
      qed
    qed
  qed (simp_all add: associationClassTable_def)
qed

lemma elementsById_found:
  "mapGet (elementsById els) i = Some c \<Longrightarrow> c \<in> set els \<and> cl_id c = i"
proof -
  have "mapGet (foldl (\<lambda>m c. mapSet (cl_id c) c m) m els) i = Some c \<Longrightarrow>
      mapGet m i = Some c \<or> (c \<in> set els \<and> cl_id c = i)" for m
    by (induction els arbitrary: m) (fastforce simp: mapGet_mapSet split: if_splits)+
  from this [of "[]"] show "mapGet (elementsById els) i = Some c \<Longrightarrow> c \<in> set els \<and> cl_id c = i"
    by (simp add: elementsById_def)
qed

lemma inv_classifier:
  "build_inv st \<Longrightarrow> mapGet (bs_classifiers st) i = Some c \<Longrightarrow>
     c \<in> set (dg_elements (cm_diagram (bs_canonical st))) \<and> cl_id c = i"
  using elementsById_found by (simp add: build_inv_def)

definition has_association_class :: "uml_relationship \<Rightarrow> build_state \<Rightarrow> bool" where
  "has_association_class r st \<longleftrightarrow> (\<forall>i. rl_associationClassId r = Some i \<longrightarrow> i \<noteq> [] \<longrightarrow> tableOfClass st i \<noteq> None)"

lemma wpB_buildAssociationClassTables:
  assumes "build_inv st"
    and "\<And>st'. build_inv st' \<Longrightarrow> grows st st' \<Longrightarrow> (\<forall>r \<in> set (dg_relationships (cm_diagram (bs_canonical st))).
       has_association_class r st') \<Longrightarrow> Q () st'"
  shows "wpB (buildAssociationClassTables p) Q st"
  unfolding buildAssociationClassTables_def wpB_simps
proof (rule wpB_forEach_each [where D = has_association_class, OF assms(1)], goal_cases)
  case (1 r st1 R)
  show ?case
  proof (cases "truthy (rl_associationClassId r)")
    case False
    then have "has_association_class r st1" by (auto simp: has_association_class_def)
    then show ?thesis using False 1 by (simp add: wpB_simps)
  next
    case True
    then obtain i where i: "rl_associationClassId r = Some i" "i \<noteq> []" by (cases "rl_associationClassId r") auto
    show ?thesis
    proof (cases "mapGet (bs_classifiers st1) i")
      case None
      then show ?thesis by (simp add: i textOf_def wpB_simps)
    next
      case (Some ac)
      note ac = inv_classifier [OF 1(2) Some]
      have "wpB (buildAssociationClassTable p r ac) R st1" if "is_class ac"
        by (rule wpB_buildAssociationClassTable [OF 1(2) _ that])
          (use ac i that 1(4) in \<open>auto simp: has_table_def has_association_class_def\<close>)
      then show ?thesis using Some by (simp add: i textOf_def wpB_simps)
    qed
  qed
next
  case (2 r st1 st2)
  then show ?case by (auto simp: has_association_class_def dest: grows_class)
next
  case (3 st1)
  then show ?case by (intro assms(2)) simp_all
qed

section \<open>Inheritance\<close>

lemma wpB_updateTable:
  assumes "build_inv st" "tableAt st tid = Some t" "same_table t (g t)" "table_ok (g t)"
    and "tb_foreignKeys (g t) = tb_foreignKeys t"
    and "\<And>st'. build_inv st' \<Longrightarrow> grows st st' \<Longrightarrow> tableAt st' tid = Some (g t) \<Longrightarrow> Q () st'"
  shows "wpB (onTable tid (\<lambda>t. ret (g t, ()))) Q st"
  by (rule wpB_onTable [OF assms(1,2)])
    (use assms(3-6) stored_refers [OF assms(1,2)] in \<open>auto simp: wpB_simps replacing_def\<close>)

lemma joined_columns:
  assumes "table_ok t" "i = co_id k" "k \<in> set (tb_columns t)"
  shows "table_ok (t\<lparr>tb_columns := map (\<lambda>c. if co_id c = i then joinedColumn p r s u k parent else c) (tb_columns t)\<rparr>)"
    and "ids_of (t\<lparr>tb_columns := map (\<lambda>c. if co_id c = i then joinedColumn p r s u k parent else c) (tb_columns t)\<rparr>) = ids_of t"
proof -
  let ?f = "\<lambda>c. if co_id c = i then joinedColumn p r s u k parent else c"
  have "co_id c = co_id k \<Longrightarrow> c = k" if "c \<in> set (tb_columns t)" for c
    using assms that by (auto simp: table_ok_def columns_ok_def distinct_map dest: inj_onD)
  then have same: "co_id (?f c) = co_id c" "co_physicalName (?f c) = co_physicalName c"
      "co_javaPropertyName (?f c) = co_javaPropertyName c" if "c \<in> set (tb_columns t)" for c
    using that assms(2) by (auto simp: joinedColumn_def)
  have maps: "map co_id (map ?f (tb_columns t)) = map co_id (tb_columns t)"
      "map co_physicalName (map ?f (tb_columns t)) = map co_physicalName (tb_columns t)"
      "map co_javaPropertyName (map ?f (tb_columns t)) = map co_javaPropertyName (tb_columns t)"
    unfolding map_map by (rule map_cong [OF refl], simp add: same)+
  have "columns_ok (map ?f (tb_columns t))"
  proof -
    have "column_ok (?f c)" if "c \<in> set (tb_columns t)" for c
      using assms(1) that unfolding column_ok_def same [OF that]
      by (simp add: table_ok_def columns_ok_def list_all_iff column_ok_def)
    then have "list_all column_ok (map ?f (tb_columns t))" unfolding list_all_iff set_map by blast
    then show ?thesis using assms(1) unfolding columns_ok_def maps by (simp add: table_ok_def columns_ok_def)
  qed
  moreover have ids: "co_id ` set (map ?f (tb_columns t)) = ids_of t"
    unfolding ids_of_def set_map [symmetric] maps by simp
  ultimately show "table_ok (t\<lparr>tb_columns := map ?f (tb_columns t)\<rparr>)"
    by (intro table_ok_ids [OF assms(1)]) simp_all
  show "ids_of (t\<lparr>tb_columns := map ?f (tb_columns t)\<rparr>) = ids_of t"
    using ids by (simp add: ids_of_def)
qed

lemma wpB_whenB_failB: "Q () st \<Longrightarrow> wpB (whenB c (failB p code message path ids)) Q st"
  by (simp add: wpB_simps)

lemma wpB_buildGeneralization:
  assumes "build_inv st" "going_on st Q"
  shows "wpB (buildGeneralization p r) Q st"
  unfolding buildGeneralization_def Let_def wpB_basic(1,2) wpB_basic(3)
proof (cases "mapGet (bs_classifiers st) (re_elementId (rl_source r)) = None
    \<or> mapGet (bs_classifiers st) (re_elementId (rl_target r)) = None
    \<or> \<not> is_class (the (mapGet (bs_classifiers st) (re_elementId (rl_source r))))
    \<or> \<not> is_class (the (mapGet (bs_classifiers st) (re_elementId (rl_target r))))", goal_cases)
  case 1
  show ?case unfolding split_conv if_P [OF 1] by (rule wpB_info_last [OF assms(2,1)])
next
  case 2
  show ?case
    unfolding split_conv if_not_P [OF 2] wpB_basic(1,2)
  proof (rule wpB_tableForClassifier [OF assms(1)], rule wpB_tableForClassifier [OF assms(1)], goal_cases)
    case (1 c cT q qT)
    show ?case
    proof (rule wpB_tableOf [OF 1(1)], rule wpB_whenB_failB, rule wpB_requireSinglePrimaryKey [OF assms(1) 1(1)],
        rule wpB_requireSinglePrimaryKey [OF assms(1) 1(2)], rule wpB_whenB_failB, goal_cases)
      case (1 k kp)
      note tables = \<open>tableAt st c = Some cT\<close> \<open>tableAt st q = Some qT\<close>
      note k = 1(1) 1(4)
      let ?cols = "map (\<lambda>c. if co_id c = co_id k then joinedColumn p r
          (the (mapGet (bs_classifiers st) (re_elementId (rl_source r))))
          (the (mapGet (bs_classifiers st) (re_elementId (rl_target r)))) k kp else c)"
      have ok: "table_ok (cT\<lparr>tb_columns := ?cols (tb_columns cT)\<rparr>)"
          "ids_of (cT\<lparr>tb_columns := ?cols (tb_columns cT)\<rparr>) = ids_of cT"
        using joined_columns [OF table_okD [OF assms(1) tables(1)] refl 1(1)] by blast+
      show ?case
      proof (rule wpB_updateTable [OF assms(1) tables(1)], goal_cases)
        case (4 st1)
        show ?case
        proof (rule wpB_info, goal_cases)
          case (1 st2)
          have st2: "build_inv st2" by (rule quiet_inv [OF 1 4(1)])
          note at2 = quietD(1) [OF 1]
          have g2: "grows st st2" by (rule grows_trans [OF 4(2) quiet_grows [OF 1]])
          have child: "tableAt st2 c = Some (cT\<lparr>tb_columns := ?cols (tb_columns cT)\<rparr>)" using 4(3) by (simp add: at2)
          show ?case
          proof (rule wpB_updateTable [OF st2 child], goal_cases)
            case (4 st3)
            obtain qU where q: "tableAt st3 q = Some qU" "tb_primaryKey qU = tb_primaryKey qT"
              using grows_table [OF grows_trans [OF g2 4(2)] tables(2)] by (auto simp: same_table_def)
            have "co_id k \<in> ids_of cT" using k(1) by (simp add: ids_of_def)
            then have mem: "co_id k \<in> co_id ` set (?cols (tb_columns cT))" using ok(2) by (simp add: ids_of_def)
            show ?case
            proof (rule wpB_tableOf [OF q(1)], rule wpB_addForeignKey_on [OF 4(1,3)], goal_cases)
              case 1
              show ?case using mem by (simp add: foreign_ok_def constraintName_name ids_of_def)
            next
              case 2
              show ?case by (rule single_key_refers [OF q(1)]) (simp_all add: q(2) k(2))
            next
              case (3 st4)
              show ?case by (rule going_onD [OF assms(2) 3(1)]) (intro grows_trans [OF g2 grows_trans [OF 4(2) 3(2)]])
            qed
          qed (use ok in \<open>auto simp: same_table_def table_ok_def key_ok_def [abs_def] foreign_ok_def [abs_def] ids_of_def\<close>)
        qed
      qed (simp_all add: same_table_def ok)
    qed
  qed
qed

section \<open>Associations\<close>

definition readable :: "uml_relationship \<Rightarrow> bool" where
  "readable r \<longleftrightarrow> multiplicity_text (re_multiplicity (rl_source r)) \<and> multiplicity_text (re_multiplicity (rl_target r))"

lemma inv_readable:
  "build_inv st \<Longrightarrow> r \<in> set (dg_relationships (cm_diagram (bs_canonical st))) \<Longrightarrow> readable r"
  by (auto simp: build_inv_def readable_multiplicities_def readable_def)

lemma wpB_reportMultiplicityPolicy:
  assumes "readable r" "\<And>st'. quiet st st' \<Longrightarrow> Q () st'"
  shows "wpB (reportMultiplicityPolicy p r) Q st"
  unfolding reportMultiplicityPolicy_def Let_def wpB_basic(1,2)
  by (intro wpB_parseMultiplicity)
    (use assms in \<open>auto simp: wpB_simps readable_def intro!: wpB_warning\<close>)

lemma wpB_addRelationshipColumn:
  assumes "build_inv st" "tableAt st owner \<noteq> None" "tableAt st referenced \<noteq> None"
    and "multiplicity_text (re_multiplicity e)" "going_on st Q"
  shows "wpB (addRelationshipColumn p r owner referenced f e uniq rule) Q st"
proof -
  obtain o1 u where at: "tableAt st owner = Some o1" "tableAt st referenced = Some u" using assms(2,3) by auto
  show ?thesis
    unfolding addRelationshipColumn_def Let_def wpB_basic(1,2)
    by (rule wpB_tableOf [OF at(1)], rule wpB_tableOf [OF at(2)], rule wpB_lowerBound [OF assms(4)],
        rule wpB_addReferenceColumn [OF assms(1-3)]) (use assms(5) in \<open>auto simp: going_on_def\<close>)
qed

lemma wpB_buildComposition:
  assumes "build_inv st" "tableAt st owner \<noteq> None" "tableAt st part \<noteq> None" "readable r" "going_on st Q"
  shows "wpB (buildComposition p r owner part) Q st"
proof -
  obtain o1 u where at: "tableAt st owner = Some o1" "tableAt st part = Some u" using assms(2,3) by auto
  have m: "multiplicity_text (re_multiplicity (rl_source r))" "multiplicity_text (re_multiplicity (rl_target r))"
    using assms(4) by (simp_all add: readable_def)
  show ?thesis
    unfolding buildComposition_def Let_def wpB_basic(1,2) wpB_case_prod case_prod_unfold
    by (rule wpB_parseMultiplicity [OF m(1)], rule wpB_whenB_failB, rule wpB_parseMultiplicity [OF m(2)],
        rule wpB_tableOf [OF at(2)], rule wpB_tableOf [OF at(1)], rule wpB_addReferenceColumn [OF assms(1,3,2)])
      (use assms(5) in \<open>auto simp: going_on_def\<close>)
qed

lemma wpB_isJoinRelationship: "readable r \<Longrightarrow> (\<And>b. Q b st) \<Longrightarrow> wpB (isJoinRelationship r) Q st"
  by (auto simp: isJoinRelationship_def wpB_simps readable_def intro!: wpB_isMany)

lemma wpB_filterB:
  assumes "\<And>x R. x \<in> set xs \<Longrightarrow> (\<And>b. R b st) \<Longrightarrow> wpB (f x) R st" "\<And>ys. Q ys st"
  shows "wpB (filterB f xs) Q st"
  using assms
proof (induction xs arbitrary: Q)
  case (Cons x xs)
  show ?case
    unfolding filterB.simps wpB_simps
    by (rule Cons.prems(1), simp, rule Cons.IH) (auto intro: Cons.prems)
qed (simp add: wpB_simps)

lemma wpB_joinTablePhysicalName:
  assumes "build_inv st" "tableAt st source \<noteq> None" "tableAt st target \<noteq> None"
    and "\<And>name. physical_name name \<Longrightarrow> Q name st"
  shows "wpB (joinTablePhysicalName p r source target) Q st"
proof -
  obtain s t where at: "tableAt st source = Some s" "tableAt st target = Some t" using assms(2,3) by auto
  show ?thesis
    unfolding joinTablePhysicalName_def Let_def wpB_basic(1-3) wpB_case_prod case_prod_unfold
    by (rule wpB_tableOf [OF at(1)], rule wpB_tableOf [OF at(2)], rule wpB_filterB)
      (auto simp: wpB_simps toPhysicalName_name intro!: assms(4) wpB_isJoinRelationship intro: inv_readable [OF assms(1)])
qed

lemma wpB_createJoinTable:
  assumes "build_inv st" "tableAt st source \<noteq> None" "tableAt st target \<noteq> None" "going_on st Q"
  shows "wpB (createJoinTable p r source target) Q st"
proof -
  obtain fT fE gT gE where pair: "sortedPair (byKey (pl_compare p) relationshipEndpointKey)
      (source, rl_source r) (target, rl_target r) = ((fT, fE), (gT, gE))" by (metis surj_pair)
  have at: "tableAt st fT \<noteq> None" "tableAt st gT \<noteq> None"
    using sortedPair_cases [OF pair, where P = "\<lambda>(tid, e). tableAt st tid \<noteq> None"] assms(2,3) by auto
  obtain fU gU where tables: "tableAt st fT = Some fU" "tableAt st gT = Some gU" using at by auto
  show ?thesis
    unfolding createJoinTable_def Let_def pair split_conv wpB_case_prod wpB_basic(1,2)
  proof (rule wpB_tableOf [OF tables(1)], rule wpB_tableOf [OF tables(2)],
      rule wpB_createRelationshipColumn [OF assms(1) tables(1)],
      rule wpB_createRelationshipColumn [OF assms(1) tables(2)],
      rule wpB_joinTablePhysicalName [OF assms(1-3)], rule wpB_twoColumns, goal_cases)
    case (4 c d name c' d' st1)
    have inv: "build_inv st1" by (rule quiet_inv [OF 4(4) assms(1)])
    show ?case
    proof (rule wpB_addTable [OF inv], goal_cases)
      case 1
      show ?case
        using 4(3,5) by (intro new_tableI) (simp_all add: joinTable_def length_artifactId toJavaTypeName_type
            primaryKeyForTable_ok ids_of_def)
    next
      case (2 t2 st2)
      have g: "grows st st2" by (rule grows_trans [OF quiet_grows [OF 4(4)] 2(2)])
      have ids: "co_id c' \<in> ids_of t2" "co_id d' \<in> ids_of t2" using 2(4) by (auto simp: renamed_def ids_of_def)
      show ?case
        by (rule wpB_endpointKeys [OF 2(1,3) ids grows_at [OF g at(1)] grows_at [OF g at(2)] going_on_grows [OF assms(4) g]])
    qed
  qed (simp_all add: joinTable_def)
qed

lemma wpB_buildAssociation:
  assumes "build_inv st" "readable r" "going_on st Q"
  shows "wpB (buildAssociation p r) Q st"
  unfolding buildAssociation_def Let_def wpB_basic(1-3) split_conv
proof (cases "mapGet (bs_classifiers st) (re_elementId (rl_source r)) = None
    \<or> mapGet (bs_classifiers st) (re_elementId (rl_target r)) = None
    \<or> \<not> is_class (the (mapGet (bs_classifiers st) (re_elementId (rl_source r))))
    \<or> \<not> is_class (the (mapGet (bs_classifiers st) (re_elementId (rl_target r))))", goal_cases)
  case 1
  show ?case unfolding if_P [OF 1] by (rule wpB_warning) (rule going_on_quiet [OF assms(3,1)])
next
  case 2
  have m: "multiplicity_text (re_multiplicity (rl_source r))" "multiplicity_text (re_multiplicity (rl_target r))"
    using assms(2) by (simp_all add: readable_def)
  show ?case
    unfolding if_not_P [OF 2] wpB_basic(1,2)
  proof (rule wpB_tableForClassifier [OF assms(1)], rule wpB_tableForClassifier [OF assms(1)],
      rule wpB_reportMultiplicityPolicy [OF assms(2)], goal_cases)
    case (1 s sT t tT st1)
    have inv: "build_inv st1" by (rule quiet_inv [OF 1(3) assms(1)])
    have at: "tableAt st1 s \<noteq> None" "tableAt st1 t \<noteq> None" using 1 by (simp_all add: quietD(1) [OF 1(3)])
    have on: "going_on st1 Q" by (rule going_on_grows [OF assms(3) quiet_grows [OF 1(3)]])
    have columns: "wpB (addRelationshipColumn p r s t e (rl_target r) uniq rule) Q st2"
        "wpB (addRelationshipColumn p r t s e (rl_source r) uniq rule) Q st2"
      if "quiet st1 st2" for e uniq rule st2
      using that at m
      by (auto intro!: wpB_addRelationshipColumn quiet_inv [OF that inv] going_on_grows [OF on quiet_grows [OF that]]
          simp: quietD(1) [OF that])
    have columns': "wpB (addRelationshipColumn p r s t e (rl_target r) uniq rule) Q st1"
        "wpB (addRelationshipColumn p r t s e (rl_source r) uniq rule) Q st1" for e uniq rule
      by (rule columns [OF quiet_refl])+
    show ?case
    proof (cases "rl_kind r = Composition")
      case True
      show ?thesis unfolding if_P [OF True] by (rule wpB_buildComposition [OF inv at assms(2) on])
    next
      case False
      show ?thesis
        unfolding if_not_P [OF False] wpB_basic(1,2)
      proof (rule wpB_isMany [OF m(1)], rule wpB_isMany [OF m(2)], goal_cases)
        case (1 many many')
        show ?case
          using wpB_createJoinTable [OF inv at on, of p r] columns columns'
          by (auto simp: wpB_simps split: prod.split intro!: wpB_warning)
      qed
    qed
  qed
qed

lemma wpB_buildRelationship:
  assumes "build_inv st" "readable r" "going_on st Q"
  shows "wpB (buildRelationship p r) Q st"
  using wpB_buildAssociation [OF assms] wpB_info_last [OF assms(3,1)] going_onD [OF assms(3,1) grows_refl]
  by (auto simp: buildRelationship_def Let_def wpB_simps split: relationship_kind.split)

lemma wpB_buildRelationships:
  assumes "build_inv st" "going_on st Q"
  shows "wpB (buildRelationships p) Q st"
  unfolding buildRelationships_def wpB_basic(1-3)
proof (rule wpB_forEach_going [OF assms(1)])
  show "going_on st (\<lambda>_. wpB (forEachB (buildRelationship p)
      (sortedRelationships p (dg_relationships (cm_diagram (bs_canonical st))))) Q)"
    unfolding going_on_def
  proof (intro allI impI, rule wpB_forEach_going, assumption)
    fix st1 r st2 and R :: "unit \<Rightarrow> build_state \<Rightarrow> bool"
    assume *: "grows st st1" "build_inv st2" "grows st1 st2" "going_on st2 R"
      "r \<in> set (sortedRelationships p (dg_relationships (cm_diagram (bs_canonical st))))"
    then have "readable r" by (intro inv_readable [OF assms(1)]) simp
    then show "wpB (buildRelationship p r) R st2" using * by (intro wpB_buildRelationship)
  next
    fix st1 assume "grows st st1"
    then show "going_on st1 Q" by (rule going_on_grows [OF assms(2)])
  qed
qed (rule wpB_buildGeneralization)

section \<open>The whole build\<close>

lemma initial_inv: "readable_multiplicities d \<Longrightarrow> build_inv (initial_state d)"
  by (simp add: build_inv_def initial_state_def tableAt_def tableOfClass_def no_errors_def reports_error_def)

lemma wpB_buildAll:
  assumes "readable_multiplicities d"
    and "\<And>st. build_inv st \<Longrightarrow> bs_canonical st = d \<Longrightarrow>
      (\<forall>c \<in> set (dg_elements (cm_diagram d)). is_class c \<longrightarrow> cl_id c \<noteq> [] \<longrightarrow> tableOfClass st (cl_id c) \<noteq> None) \<Longrightarrow> Q () st"
  shows "wpB (buildAll p) Q (initial_state d)"
  unfolding buildAll_def wpB_basic(1,2)
proof (rule wpB_buildEntityTables [OF initial_inv [OF assms(1)]], rule wpB_buildAssociationClassTables, assumption,
    rule wpB_buildClassifierAttributes, assumption, unfold going_on_def, intro allI impI,
    rule wpB_buildRelationships, assumption, unfold going_on_def, intro allI impI, goal_cases)
  case (1 st1 st2 x st3 y st4)
  have d1: "bs_canonical (initial_state d) = d" by (simp add: initial_state_def)
  have d: "bs_canonical st1 = d" "bs_canonical st4 = d" using 1 d1 by (auto simp: grows_def)
  have g: "grows st2 st4" by (rule grows_trans [OF 1(8,10)])
  have "tableOfClass st4 (cl_id c) \<noteq> None"
    if c: "c \<in> set (dg_elements (cm_diagram d))" "is_class c" "cl_id c \<noteq> []" for c
  proof (cases "cl_id c \<in> association_class_ids_of (dg_relationships (cm_diagram d))")
    case True
    then obtain r where "r \<in> set (dg_relationships (cm_diagram d))" "rl_associationClassId r = Some (cl_id c)"
      by (auto simp: association_class_ids_of_def List.map_filter_def)
    then have "tableOfClass st2 (cl_id c) \<noteq> None"
      using 1(6) c(3) by (auto simp: has_association_class_def d)
    then show ?thesis by (rule grows_class [OF g])
  next
    case False
    then have "tableOfClass st1 (cl_id c) \<noteq> None"
      using 1(3) c by (auto simp: has_table_def d1)
    then show ?thesis by (intro grows_class [OF g] grows_class [OF 1(5)])
  qed
  then have "Q () st4" using 1(9) d by (intro assms(2)) auto
  then show ?case by simp
qed

end
