(* ===== verification/Relational_Consistency.thy ===== *)
theory Relational_Consistency
  imports Relational_Contract
begin

text \<open>
  What a relational model has to satisfy, stated without loops, and the proof that the validator
  (\<open>validateRelationalModelSemantics\<close>) reports no issue exactly for the models that do. Its loops collect
  issues while they remember the names seen so far: the locale \<open>issue_loop\<close> says when such a loop is
  silent, and is interpreted for tables, columns, unique constraints, foreign keys and whole tables.
\<close>

section \<open>The contract\<close>

definition columnIds :: "relational_table \<Rightarrow> jstring set" where
  "columnIds t = co_id ` set (tb_columns t)"

definition consistent_reference :: "relational_table list \<Rightarrow> relational_table \<Rightarrow> foreign_key \<Rightarrow> bool" where
  "consistent_reference ts t k \<longleftrightarrow> set (fk_columnIds k) \<subseteq> columnIds t
     \<and> length (fk_columnIds k) = length (fk_referencedColumnIds k)
     \<and> (\<exists>u \<in> set ts. tb_id u = fk_referencedTableId k \<and> isDeclaredKey u (fk_referencedColumnIds k)
          \<and> set (fk_referencedColumnIds k) \<subseteq> columnIds u
          \<and> (\<forall>(i, j) \<in> set (zip (fk_columnIds k) (fk_referencedColumnIds k)).
               \<forall>c \<in> set (tb_columns t). \<forall>d \<in> set (tb_columns u).
                 co_id c = i \<longrightarrow> co_id d = j \<longrightarrow> co_postgresType c = co_postgresType d))
     \<and> (fk_sourceMultiplicity k = None \<longleftrightarrow> fk_targetMultiplicity k = None)
     \<and> (fk_onDelete k = SET_NULL \<longrightarrow>
          (\<forall>c \<in> set (tb_columns t). co_id c \<in> set (fk_columnIds k) \<longrightarrow> co_nullable c))"

text \<open>A joined subclass has the key of its parent as its own, and its chain of parents ends at a root.\<close>

inductive reaches_root :: "relational_table list \<Rightarrow> relational_table \<Rightarrow> bool" for ts where
  parent_is_root: "is_subclass t \<Longrightarrow> parentIdOf t = Some (tb_id u) \<Longrightarrow> u \<in> set ts \<Longrightarrow> is_root u \<Longrightarrow> reaches_root ts t"
| parent_reaches: "is_subclass t \<Longrightarrow> parentIdOf t = Some (tb_id u) \<Longrightarrow> u \<in> set ts \<Longrightarrow> reaches_root ts u \<Longrightarrow> reaches_root ts t"

definition consistent_subclass :: "relational_table list \<Rightarrow> relational_table \<Rightarrow> bool" where
  "consistent_subclass ts t \<longleftrightarrow> (\<exists>u \<in> set ts. parentIdOf t = Some (tb_id u)
     \<and> (\<exists>ih \<in> set_option (tb_inheritance t). ih_parentColumnIds ih = Some (ky_columnIds (tb_primaryKey u)))
     \<and> set (ky_columnIds (tb_primaryKey u)) \<subseteq> columnIds u
     \<and> length (joinedForeignKeys t u (ky_columnIds (tb_primaryKey u))) = 1) \<and> reaches_root ts t"

definition consistent_inheritance :: "relational_table list \<Rightarrow> relational_table \<Rightarrow> bool" where
  "consistent_inheritance ts t \<longleftrightarrow> (is_subclass t \<longrightarrow> consistent_subclass ts t)
     \<and> (is_root t \<longrightarrow> parentIdOf t = None \<and> (\<forall>ih \<in> set_option (tb_inheritance t). ih_parentColumnIds ih = None))"

definition consistent_parts :: "relational_table list \<Rightarrow> relational_table \<Rightarrow> bool" where
  "consistent_parts ts t \<longleftrightarrow>
     distinct (map co_id (tb_columns t)) \<and> distinct (map co_physicalName (tb_columns t))
     \<and> distinct (map co_javaPropertyName (tb_columns t))
     \<and> distinct (map ky_physicalName (tb_primaryKey t # tb_uniqueConstraints t) @ map fk_physicalName (tb_foreignKeys t))
     \<and> distinct (map ky_id (tb_uniqueConstraints t)) \<and> distinct (map fk_id (tb_foreignKeys t))
     \<and> (\<forall>c \<in> set (tb_columns t). isForeignKeyColumn t c \<or> compatibleTypes (co_javaType c) (co_postgresType c))
     \<and> (\<forall>i \<in> set (ky_columnIds (tb_primaryKey t)).
          \<exists>c \<in> set (tb_columns t). co_id c = i \<and> co_primaryKey c \<and> \<not> co_nullable c)
     \<and> (\<forall>c \<in> set (tb_columns t). co_primaryKey c \<longrightarrow> co_id c \<in> set (ky_columnIds (tb_primaryKey t)))
     \<and> (\<forall>k \<in> set (tb_uniqueConstraints t). set (ky_columnIds k) \<subseteq> columnIds t)
     \<and> (\<forall>k \<in> set (tb_foreignKeys t). consistent_reference ts t k)"

definition consistent_table :: "relational_table list \<Rightarrow> relational_table \<Rightarrow> bool" where
  "consistent_table ts t \<longleftrightarrow> consistent_parts ts t \<and> consistent_inheritance ts t"

text \<open>Tables and the indexes behind keys share one space of names.\<close>

definition indexNames :: "relational_table \<Rightarrow> jstring list" where
  "indexNames t = map ky_physicalName (tb_primaryKey t # tb_uniqueConstraints t)"

definition consistent_schema :: "relational_model \<Rightarrow> bool" where
  "consistent_schema m \<longleftrightarrow> distinct (map tb_id (rm_tables m)) \<and> distinct (map tb_javaEntityName (rm_tables m))
     \<and> distinct (map tb_physicalName (rm_tables m) @ concat (map indexNames (rm_tables m)))
     \<and> (\<forall>t \<in> set (rm_tables m). consistent_table (rm_tables m) t)"

section \<open>Loops that collect issues\<close>

fun passes :: "('a \<Rightarrow> 's \<Rightarrow> bool) \<Rightarrow> ('a \<Rightarrow> 's \<Rightarrow> 's) \<Rightarrow> 'a list \<Rightarrow> 's \<Rightarrow> bool" where
  "passes ok next [] s = True"
| "passes ok next (x # xs) s = (ok x s \<and> passes ok next xs (next x s))"

locale issue_loop =
  fixes body :: "nat \<Rightarrow> 'a \<Rightarrow> 's \<Rightarrow> validation_issue list \<times> 's" and good :: "'a \<Rightarrow> bool"
    and ok :: "'a \<Rightarrow> 's \<Rightarrow> bool" and nxt :: "'a \<Rightarrow> 's \<Rightarrow> 's"
  assumes silent: "good x \<Longrightarrow> fst (body i x s) = [] \<longleftrightarrow> ok x s"
    and step: "snd (body i x s) = nxt x s"
begin

lemma loop_Cons:
  "fst (entryIssuesWith body i (x # xs) s) = fst (body i x s) @ fst (entryIssuesWith body (Suc i) xs (nxt x s))"
  "snd (entryIssuesWith body i (x # xs) s) = snd (entryIssuesWith body (Suc i) xs (nxt x s))"
  unfolding step [of i x s, symmetric] by (simp_all split: prod.split)

lemma loop_state: "snd (entryIssuesWith body i xs s) = fold nxt xs s"
  by (induction xs arbitrary: i s) (simp_all add: loop_Cons del: entryIssuesWith.simps(2))

lemma loop_silent:
  "\<forall>x \<in> set xs. good x \<Longrightarrow> fst (entryIssuesWith body i xs s) = [] \<longleftrightarrow> passes ok nxt xs s"
  by (induction xs arbitrary: i s) (simp_all add: loop_Cons silent del: entryIssuesWith.simps(2))

lemma loop_each:
  "fst (entryIssuesWith body i xs s) = [] \<Longrightarrow> x \<in> set xs \<Longrightarrow> \<exists>j s'. fst (body j x s') = []"
  by (induction xs arbitrary: i s) (auto simp: loop_Cons simp del: entryIssuesWith.simps(2))

end

lemma entryIssues_silent:
  assumes "\<And>i x. f i x = [] \<longleftrightarrow> P x"
  shows "entryIssues f i xs = [] \<longleftrightarrow> (\<forall>x \<in> set xs. P x)"
  by (induction xs arbitrary: i) (simp_all add: assms)

lemma issue_if_Nil [simp]: "issue_if c path message = [] \<longleftrightarrow> \<not> c"
  by (simp add: issue_if_def)

section \<open>Maps by identifier\<close>

lemma mapGet_index:
  assumes "distinct (map key xs)"
  shows "mapGet (foldl (\<lambda>m x. mapSet (key x) x m) [] xs) i = Some x \<longleftrightarrow> x \<in> set xs \<and> key x = i"
proof -
  have "mapGet (foldl (\<lambda>m x. mapSet (key x) x m) m xs) i = Some x \<longleftrightarrow>
      (if i \<in> key ` set xs then x \<in> set xs \<and> key x = i else mapGet m i = Some x)" for m
    using assms
  proof (induction xs arbitrary: m)
    case (Cons y ys)
    then have new: "key y \<notin> key ` set ys" and old: "distinct (map key ys)" by simp_all
    have "x \<in> set ys \<Longrightarrow> key x \<noteq> key y" using new by (metis imageI)
    with Cons.IH [OF old, of "mapSet (key y) y m"] new show ?case by (auto simp: mapGet_mapSet)
  qed simp
  from this [of "[]"] show ?thesis by auto
qed

lemma mapGet_index_None:
  "mapGet (foldl (\<lambda>m x. mapSet (key x) x m) [] xs) i = None \<longleftrightarrow> i \<notin> key ` set xs"
proof -
  have "mapGet (foldl (\<lambda>m x. mapSet (key x) x m) m xs) i = None \<longleftrightarrow> i \<notin> key ` set xs \<and> mapGet m i = None" for m
  proof (induction xs arbitrary: m)
    case (Cons y ys)
    then show ?case by (auto simp: mapGet_mapSet)
  qed simp
  from this [of "[]"] show ?thesis by simp
qed

lemma distinct_key_eq:
  assumes "distinct (map key xs)" "x \<in> set xs" "y \<in> set xs" "key x = key y"
  shows "x = y"
  using assms by (simp add: distinct_map inj_on_def)

lemma columnsById_None: "mapGet (columnsById cs) i = None \<longleftrightarrow> i \<notin> co_id ` set cs"
  unfolding columnsById_def by (rule mapGet_index_None)

lemma columnsById_Some:
  "distinct (map co_id cs) \<Longrightarrow> mapGet (columnsById cs) i = Some c \<longleftrightarrow> c \<in> set cs \<and> co_id c = i"
  unfolding columnsById_def by (rule mapGet_index)

lemma tablesById_None: "mapGet (tablesById ts) i = None \<longleftrightarrow> i \<notin> tb_id ` set ts"
  unfolding tablesById_def by (rule mapGet_index_None)

lemma tablesById_Some:
  "distinct (map tb_id ts) \<Longrightarrow> mapGet (tablesById ts) i = Some t \<longleftrightarrow> t \<in> set ts \<and> tb_id t = i"
  unfolding tablesById_def by (rule mapGet_index)

section \<open>Names of tables and columns\<close>

definition new_in :: "'k \<Rightarrow> 'k \<Rightarrow> 'k \<Rightarrow> 'k set \<times> 'k set \<times> 'k set \<Rightarrow> bool" where
  "new_in a b c = (\<lambda>(A, B, C). a \<notin> A \<and> b \<notin> B \<and> c \<notin> C)"

definition add_to :: "'k \<Rightarrow> 'k \<Rightarrow> 'k \<Rightarrow> 'k set \<times> 'k set \<times> 'k set \<Rightarrow> 'k set \<times> 'k set \<times> 'k set" where
  "add_to a b c = (\<lambda>(A, B, C). (insert a A, insert b B, insert c C))"

lemma passes_new_in:
  "passes (\<lambda>x s. new_in (f x) (g x) (h x) s \<and> P x) (\<lambda>x. add_to (f x) (g x) (h x)) xs (A, B, C) \<longleftrightarrow>
     distinct (map f xs) \<and> f ` set xs \<inter> A = {} \<and> distinct (map g xs) \<and> g ` set xs \<inter> B = {}
     \<and> distinct (map h xs) \<and> h ` set xs \<inter> C = {} \<and> (\<forall>x \<in> set xs. P x)"
  by (induction xs arbitrary: A B C) (auto simp: new_in_def add_to_def)

interpretation table_names: issue_loop tableNameIssues "\<lambda>_. True"
    "\<lambda>t s. new_in (tb_id t) (tb_physicalName t) (tb_javaEntityName t) s \<and> True"
    "\<lambda>t. add_to (tb_id t) (tb_physicalName t) (tb_javaEntityName t)"
  by unfold_locales (auto simp: tableNameIssues_def Let_def new_in_def add_to_def split: prod.splits)

interpretation columns: issue_loop "columnIssues t tablePath" "\<lambda>_. True"
    "\<lambda>c s. new_in (co_id c) (co_physicalName c) (co_javaPropertyName c) s
       \<and> (isForeignKeyColumn t c \<or> compatibleTypes (co_javaType c) (co_postgresType c))"
    "\<lambda>c. add_to (co_id c) (co_physicalName c) (co_javaPropertyName c)" for t tablePath
  by unfold_locales (auto simp: columnIssues_def Let_def new_in_def add_to_def split: prod.splits)

lemma tableNameIssues_silent:
  "fst (entryIssuesWith tableNameIssues 0 ts ({}, {}, {})) = [] \<longleftrightarrow>
     distinct (map tb_id ts) \<and> distinct (map tb_physicalName ts) \<and> distinct (map tb_javaEntityName ts)"
  using table_names.loop_silent [of ts 0 "({}, {}, {})"]
    passes_new_in [of tb_id tb_physicalName tb_javaEntityName "\<lambda>_. True" ts "{}" "{}" "{}"] by simp

lemma columnIssues_silent:
  "fst (entryIssuesWith (columnIssues t path) 0 (tb_columns t) ({}, {}, {})) = [] \<longleftrightarrow>
     distinct (map co_id (tb_columns t)) \<and> distinct (map co_physicalName (tb_columns t))
     \<and> distinct (map co_javaPropertyName (tb_columns t))
     \<and> (\<forall>c \<in> set (tb_columns t). isForeignKeyColumn t c \<or> compatibleTypes (co_javaType c) (co_postgresType c))"
  by (subst columns.loop_silent) (simp_all add: passes_new_in)

section \<open>Keys\<close>

lemma primaryKeyIssues_silent:
  assumes "distinct (map co_id (tb_columns t))"
  shows "primaryKeyIssues t path i columnId = [] \<longleftrightarrow>
    (\<exists>c \<in> set (tb_columns t). co_id c = columnId \<and> co_primaryKey c \<and> \<not> co_nullable c)"
proof (cases "mapGet (columnsById (tb_columns t)) columnId")
  case None
  then have missing: "columnId \<notin> co_id ` set (tb_columns t)" by (rule iffD1 [OF columnsById_None])
  have "primaryKeyIssues t path i columnId \<noteq> []"
    unfolding primaryKeyIssues_def Let_def None option.case by (rule list.distinct(2))
  with missing show ?thesis by (metis imageI)
next
  case (Some c)
  then have "c \<in> set (tb_columns t)" "co_id c = columnId" by (simp_all only: columnsById_Some [OF assms])
  then have "(\<exists>d \<in> set (tb_columns t). co_id d = columnId \<and> co_primaryKey d \<and> \<not> co_nullable d) \<longleftrightarrow>
      co_primaryKey c \<and> \<not> co_nullable c"
    using distinct_key_eq [OF assms] by metis
  moreover have "primaryKeyIssues t path i columnId = [] \<longleftrightarrow> co_primaryKey c \<and> \<not> co_nullable c"
    unfolding primaryKeyIssues_def Let_def Some option.case by simp
  ultimately show ?thesis by (simp only:)
qed

definition unique_ok :: "relational_table \<Rightarrow> relational_key \<Rightarrow> constraint_names \<Rightarrow> bool" where
  "unique_ok t k s \<longleftrightarrow> ky_id k \<notin> cn_ids s \<and> ky_physicalName k \<notin> cn_constraints s
     \<and> ky_physicalName k \<notin> cn_relations s \<and> set (ky_columnIds k) \<subseteq> columnIds t"

definition unique_next :: "relational_key \<Rightarrow> constraint_names \<Rightarrow> constraint_names" where
  "unique_next k s = \<lparr>cn_constraints = insert (ky_physicalName k) (cn_constraints s),
     cn_relations = insert (ky_physicalName k) (cn_relations s), cn_ids = insert (ky_id k) (cn_ids s)\<rparr>"

lemmas register_defs = registerKeyName_def registerConstraintName_def registerIndexBackedConstraintName_def

lemma missingColumnIssues_silent:
  "entryIssues (missingColumnIssues t path message) i is = [] \<longleftrightarrow> set is \<subseteq> columnIds t"
  by (subst entryIssues_silent [where P = "\<lambda>i. i \<in> columnIds t"])
    (auto simp: missingColumnIssues_def columnIds_def columnsById_None)

interpretation uniques: issue_loop "uniqueIssues t tablePath" "\<lambda>_. True" "unique_ok t" unique_next for t tablePath
  by unfold_locales
    (auto simp: uniqueIssues_def Let_def register_defs unique_ok_def unique_next_def missingColumnIssues_silent)

lemma passes_unique:
  "passes (unique_ok t) unique_next ks s \<longleftrightarrow>
     distinct (map ky_id ks) \<and> ky_id ` set ks \<inter> cn_ids s = {}
     \<and> distinct (map ky_physicalName ks) \<and> ky_physicalName ` set ks \<inter> cn_constraints s = {}
     \<and> ky_physicalName ` set ks \<inter> cn_relations s = {} \<and> (\<forall>k \<in> set ks. set (ky_columnIds k) \<subseteq> columnIds t)"
  by (induction ks arbitrary: s) (auto simp: unique_ok_def unique_next_def)

lemma fold_unique_next:
  "fold unique_next ks s = \<lparr>cn_constraints = ky_physicalName ` set ks \<union> cn_constraints s,
     cn_relations = ky_physicalName ` set ks \<union> cn_relations s, cn_ids = ky_id ` set ks \<union> cn_ids s\<rparr>"
  by (induction ks arbitrary: s) (auto simp: unique_next_def)


text \<open>A foreign key, once the columns of the table and the tables of the schema have distinct identifiers.\<close>

definition reference_ok :: "relational_table list \<Rightarrow> relational_table \<Rightarrow> foreign_key \<Rightarrow> constraint_names \<Rightarrow> bool" where
  "reference_ok ts t k s \<longleftrightarrow> fk_id k \<notin> cn_ids s \<and> fk_physicalName k \<notin> cn_constraints s
     \<and> consistent_reference ts t k"

definition reference_next :: "foreign_key \<Rightarrow> constraint_names \<Rightarrow> constraint_names" where
  "reference_next k s = s\<lparr>cn_constraints := insert (fk_physicalName k) (cn_constraints s),
     cn_ids := insert (fk_id k) (cn_ids s)\<rparr>"

lemma columnsById_all:
  assumes "distinct (map co_id cs)"
  shows "(\<forall>c \<in> set_option (mapGet (columnsById cs) i). P c) \<longleftrightarrow> (\<forall>c \<in> set cs. co_id c = i \<longrightarrow> P c)"
  using columnsById_Some [OF assms, of i] by (auto simp: elem_set)

lemma typeIssues_silent:
  assumes "distinct (map co_id (tb_columns t))" "distinct (map co_id (tb_columns u))"
  shows "typeIssues t u path n (i, j) = [] \<longleftrightarrow> (\<forall>c \<in> set (tb_columns t). \<forall>d \<in> set (tb_columns u).
    co_id c = i \<longrightarrow> co_id d = j \<longrightarrow> co_postgresType c = co_postgresType d)"
proof -
  have "typeIssues t u path n (i, j) = [] \<longleftrightarrow> (\<forall>c \<in> set_option (mapGet (columnsById (tb_columns t)) i).
      \<forall>d \<in> set_option (mapGet (columnsById (tb_columns u)) j). co_postgresType c = co_postgresType d)"
    by (auto simp: typeIssues_def split: option.splits)
  also have "\<dots> \<longleftrightarrow> (\<forall>c \<in> set (tb_columns t). co_id c = i \<longrightarrow>
      (\<forall>d \<in> set (tb_columns u). co_id d = j \<longrightarrow> co_postgresType c = co_postgresType d))"
    unfolding columnsById_all [OF assms(1)] columnsById_all [OF assms(2)] ..
  finally show ?thesis by blast
qed

definition referenced_ok :: "relational_table \<Rightarrow> foreign_key \<Rightarrow> relational_table \<Rightarrow> bool" where
  "referenced_ok t k u \<longleftrightarrow> isDeclaredKey u (fk_referencedColumnIds k) \<and> set (fk_referencedColumnIds k) \<subseteq> columnIds u
     \<and> (length (fk_columnIds k) = length (fk_referencedColumnIds k) \<longrightarrow>
        (\<forall>(i, j) \<in> set (zip (fk_columnIds k) (fk_referencedColumnIds k)).
               \<forall>c \<in> set (tb_columns t). \<forall>d \<in> set (tb_columns u).
                 co_id c = i \<longrightarrow> co_id d = j \<longrightarrow> co_postgresType c = co_postgresType d))"

lemma referenceIssues_silent:
  assumes "distinct (map tb_id ts)" "distinct (map co_id (tb_columns t))"
    and cols: "\<forall>u \<in> set ts. distinct (map co_id (tb_columns u))"
  shows "referenceIssues (tablesById ts) t path k = [] \<longleftrightarrow>
    (\<exists>u \<in> set ts. tb_id u = fk_referencedTableId k \<and> referenced_ok t k u)"
proof (cases "mapGet (tablesById ts) (fk_referencedTableId k)")
  case None
  then have "fk_referencedTableId k \<notin> tb_id ` set ts" by (rule iffD1 [OF tablesById_None])
  moreover have "referenceIssues (tablesById ts) t path k \<noteq> []"
    unfolding referenceIssues_def None option.case by (rule list.distinct(2))
  ultimately show ?thesis by (metis imageI)
next
  case (Some u)
  then have u: "u \<in> set ts" "tb_id u = fk_referencedTableId k" by (simp_all only: tablesById_Some [OF assms(1)])
  have only: "v = u" if "v \<in> set ts" "tb_id v = fk_referencedTableId k" for v
    using distinct_key_eq [OF assms(1) that(1) u(1)] that(2) u(2) by simp
  have types: "entryIssues (typeIssues t u path) 0 (zip is js) = [] \<longleftrightarrow> (\<forall>(i, j) \<in> set (zip is js).
      \<forall>c \<in> set (tb_columns t). \<forall>d \<in> set (tb_columns u).
        co_id c = i \<longrightarrow> co_id d = j \<longrightarrow> co_postgresType c = co_postgresType d)" for "is" js
    using typeIssues_silent [OF assms(2), of u] u(1) cols
    by (subst entryIssues_silent [where P = "\<lambda>(i, j). \<forall>c \<in> set (tb_columns t). \<forall>d \<in> set (tb_columns u).
        co_id c = i \<longrightarrow> co_id d = j \<longrightarrow> co_postgresType c = co_postgresType d"]) auto
  have present: "entryIssues (\<lambda>i columnId. issue_if (mapGet (columnsById (tb_columns u)) columnId = None) (a i) (b columnId))
      0 is = [] \<longleftrightarrow> set is \<subseteq> columnIds u" for a b "is"
    by (subst entryIssues_silent [where P = "\<lambda>i. i \<in> columnIds u"]) (auto simp: columnIds_def columnsById_None)
  have "referenceIssues (tablesById ts) t path k = [] \<longleftrightarrow> referenced_ok t k u"
    unfolding referenceIssues_def Some option.case append_is_Nil_conv present issue_if_Nil referenced_ok_def
    by (auto simp: types)
  with u only show ?thesis by metis
qed

lemma foreignKeyIssues_silent:
  assumes "distinct (map tb_id ts)" "distinct (map co_id (tb_columns t))"
    and "\<forall>u \<in> set ts. distinct (map co_id (tb_columns u))"
  shows "fst (foreignKeyIssues (tablesById ts) t tablePath i k s) = [] \<longleftrightarrow> reference_ok ts t k s"
proof -
  have nullable: "(\<exists>i \<in> set is. \<exists>c \<in> set_option (mapGet (columnsById (tb_columns t)) i). \<not> co_nullable c) \<longleftrightarrow>
      \<not> (\<forall>c \<in> set (tb_columns t). co_id c \<in> set is \<longrightarrow> co_nullable c)" for "is"
    using columnsById_all [OF assms(2), where P = co_nullable] by blast
  show ?thesis
    unfolding foreignKeyIssues_def Let_def registerConstraintName_def prod.case fst_conv append_is_Nil_conv
      issue_if_Nil missingColumnIssues_silent referenceIssues_silent [OF assms] nullable
      reference_ok_def consistent_reference_def referenced_ok_def
    by auto
qed

lemma foreignKeyIssues_next:
  "snd (foreignKeyIssues tables t tablePath i k s) = reference_next k s"
  by (simp add: foreignKeyIssues_def Let_def registerConstraintName_def reference_next_def)


text \<open>What the maps of the check need: identifiers that are keys.\<close>

definition indexed :: "relational_table list \<Rightarrow> bool" where
  "indexed ts \<longleftrightarrow> distinct (map tb_id ts) \<and> (\<forall>t \<in> set ts. distinct (map co_id (tb_columns t)))"

interpretation references: issue_loop "foreignKeyIssues (tablesById ts) t tablePath"
    "\<lambda>_. indexed ts \<and> t \<in> set ts" "reference_ok ts t" reference_next for ts t tablePath
  by unfold_locales (simp_all add: foreignKeyIssues_silent foreignKeyIssues_next indexed_def)

lemma passes_reference:
  "passes (reference_ok ts t) reference_next ks s \<longleftrightarrow>
     distinct (map fk_id ks) \<and> fk_id ` set ks \<inter> cn_ids s = {}
     \<and> distinct (map fk_physicalName ks) \<and> fk_physicalName ` set ks \<inter> cn_constraints s = {}
     \<and> (\<forall>k \<in> set ks. consistent_reference ts t k)"
  by (induction ks arbitrary: s) (auto simp: reference_ok_def reference_next_def)

lemma fold_reference_next: "cn_relations (fold reference_next ks s) = cn_relations s"
  by (induction ks arbitrary: s) (simp_all add: reference_next_def)

section \<open>Chains of parents\<close>

lemma root_not_subclass: "is_root t \<Longrightarrow> \<not> is_subclass t"
  by (auto simp: is_root_def is_subclass_def)

text \<open>The number of steps to the root.\<close>

inductive climbs :: "relational_table list \<Rightarrow> nat \<Rightarrow> relational_table \<Rightarrow> bool" for ts where
  climbs_root: "is_subclass t \<Longrightarrow> parentIdOf t = Some (tb_id u) \<Longrightarrow> u \<in> set ts \<Longrightarrow> is_root u \<Longrightarrow> climbs ts 0 t"
| climbs_Suc: "is_subclass t \<Longrightarrow> parentIdOf t = Some (tb_id u) \<Longrightarrow> u \<in> set ts \<Longrightarrow> climbs ts n u \<Longrightarrow> climbs ts (Suc n) t"

inductive_cases climbs_0: "climbs ts 0 t"
inductive_cases climbs_SucE: "climbs ts (Suc n) t"

lemma reaches_root_climbs: "reaches_root ts t \<longleftrightarrow> (\<exists>n. climbs ts n t)"
proof
  show "reaches_root ts t \<Longrightarrow> \<exists>n. climbs ts n t"
    by (induction rule: reaches_root.induct) (blast intro: climbs.intros)+
  assume "\<exists>n. climbs ts n t"
  then obtain n where "climbs ts n t" ..
  then show "reaches_root ts t" by induction (blast intro: reaches_root.intros)+
qed

lemma climbs_subclass: "climbs ts n t \<Longrightarrow> is_subclass t"
  by (cases rule: climbs.cases)

lemma same_parent:
  assumes "distinct (map tb_id ts)" "parentIdOf t = Some (tb_id u)" "u \<in> set ts"
    "parentIdOf t = Some (tb_id v)" "v \<in> set ts"
  shows "v = u"
proof -
  from assms(2,4) have "tb_id v = tb_id u" by simp
  then show ?thesis by (rule distinct_key_eq [OF assms(1,5,3)])
qed

lemma climbs_unique:
  assumes "distinct (map tb_id ts)"
  shows "climbs ts n t \<Longrightarrow> climbs ts m t \<Longrightarrow> m = n"
proof (induction n t arbitrary: m rule: climbs.induct)
  case (climbs_root t u)
  note parent = same_parent [OF assms climbs_root.hyps(2,3)]
  from climbs_root.prems show ?case
  proof cases
    case (climbs_Suc v k)
    then have "climbs ts k u" using parent by metis
    then show ?thesis using climbs_subclass root_not_subclass climbs_root.hyps(4) by metis
  qed simp
next
  case (climbs_Suc t u n)
  note parent = same_parent [OF assms climbs_Suc.hyps(2,3)] and same = climbs_Suc.IH
    and sub = climbs_subclass [OF climbs_Suc.hyps(4)]
  from climbs_Suc.prems show ?case
  proof cases
    case (climbs_root v)
    then have "is_root u" using parent by metis
    then show ?thesis using sub root_not_subclass by metis
  next
    case (climbs_Suc v k)
    then have "climbs ts k u" using parent by metis
    with same climbs_Suc(1) show ?thesis by simp
  qed
qed

lemma chain_silent:
  assumes "distinct (map tb_id ts)"
  shows "climbs ts n t \<Longrightarrow> \<forall>u \<in> set ts. tb_id u \<in> seen \<longrightarrow> \<not> is_root u \<and> (\<forall>m. climbs ts m u \<longrightarrow> n \<le> m)
    \<Longrightarrow> inheritanceChain (tablesById ts) seen t = None"
proof (induction n t arbitrary: seen rule: climbs.induct)
  case (climbs_root t u)
  then have found: "mapGet (tablesById ts) (tb_id u) = Some u" by (simp add: tablesById_Some [OF assms])
  from climbs_root show ?case by (subst inheritanceChain.simps) (auto simp: found)
next
  case (climbs_Suc t u n)
  then have found: "mapGet (tablesById ts) (tb_id u) = Some u" by (simp add: tablesById_Some [OF assms])
  have unseen: "tb_id u \<notin> seen" using climbs_Suc by fastforce
  have "\<forall>v \<in> set ts. tb_id v \<in> insert (tb_id u) seen \<longrightarrow> \<not> is_root v \<and> (\<forall>m. climbs ts m v \<longrightarrow> n \<le> m)"
  proof (intro ballI impI)
    fix v assume v: "v \<in> set ts" "tb_id v \<in> insert (tb_id u) seen"
    show "\<not> is_root v \<and> (\<forall>m. climbs ts m v \<longrightarrow> n \<le> m)"
    proof (cases "tb_id v = tb_id u")
      case True
      then have "v = u" using distinct_key_eq [OF assms v(1) climbs_Suc.hyps(3)] by simp
      with climbs_Suc.hyps show ?thesis
        using climbs_unique [OF assms] climbs_subclass root_not_subclass by blast
    next
      case False
      with v climbs_Suc.prems show ?thesis by (metis Suc_leD insertE)
    qed
  qed
  from climbs_Suc.IH [OF this] climbs_Suc.hyps unseen climbs_subclass [OF climbs_Suc.hyps(4)] show ?case
    by (subst inheritanceChain.simps) (auto simp: found dest: root_not_subclass)
qed

definition parents_present :: "relational_table list \<Rightarrow> bool" where
  "parents_present ts \<longleftrightarrow> (\<forall>t \<in> set ts. is_subclass t \<longrightarrow> (\<exists>u \<in> set ts. parentIdOf t = Some (tb_id u)))"

lemma chain_reaches:
  assumes "distinct (map tb_id ts)" "parents_present ts"
  shows "inheritanceChain (tablesById ts) seen t = None \<Longrightarrow> t \<in> set ts \<Longrightarrow> reaches_root ts t"
proof (induction "tablesById ts" seen t rule: inheritanceChain.induct)
  case (1 seen t)
  from 1(2) have sub: "is_subclass t" by (subst (asm) inheritanceChain.simps) (simp split: if_splits)
  with 1(3) assms(2) obtain u where u: "u \<in> set ts" "parentIdOf t = Some (tb_id u)"
    unfolding parents_present_def by blast
  then have found: "mapGet (tablesById ts) (tb_id u) = Some u" by (simp add: tablesById_Some [OF assms(1)])
  show ?case
  proof (cases "is_root u")
    case True
    with sub u show ?thesis by (blast intro: parent_is_root)
  next
    case False
    have "is_subclass u \<and> tb_id u \<notin> seen \<and> inheritanceChain (tablesById ts) (insert (tb_id u) seen) u = None"
      using 1(2) unfolding inheritanceChain.simps [of "tablesById ts" seen t]
      by (simp add: sub u found False split: if_splits)
    then have "reaches_root ts u" using 1(1) [of "tb_id u" u] sub u found False by simp
    with sub u show ?thesis by (blast intro: parent_reaches)
  qed
qed


section \<open>Tables\<close>

lemma inheritanceChainIssue_iff:
  assumes "distinct (map tb_id ts)" "parents_present ts" "t \<in> set ts" "is_subclass t"
  shows "inheritanceChainIssue (tablesById ts) t = None \<longleftrightarrow> reaches_root ts t"
proof
  show "inheritanceChainIssue (tablesById ts) t = None \<Longrightarrow> reaches_root ts t"
    unfolding inheritanceChainIssue_def using chain_reaches [OF assms(1,2) _ assms(3)] .
  assume "reaches_root ts t"
  then obtain n where n: "climbs ts n t" unfolding reaches_root_climbs ..
  have "u = t" if "u \<in> set ts" "tb_id u \<in> {tb_id t}" for u
    using distinct_key_eq [OF assms(1) that(1) assms(3)] that(2) by simp
  then have "\<forall>u \<in> set ts. tb_id u \<in> {tb_id t} \<longrightarrow> \<not> is_root u \<and> (\<forall>m. climbs ts m u \<longrightarrow> n \<le> m)"
    using climbs_unique [OF assms(1) n] assms(4) root_not_subclass by blast
  then show "inheritanceChainIssue (tablesById ts) t = None"
    unfolding inheritanceChainIssue_def by (rule chain_silent [OF assms(1) n])
qed

text \<open>A subclass whose own entry is right; whether its chain ends is a matter of the whole schema.\<close>

definition subclass_entry :: "relational_table list \<Rightarrow> relational_table \<Rightarrow> bool" where
  "subclass_entry ts t \<longleftrightarrow> (\<exists>u \<in> set ts. parentIdOf t = Some (tb_id u)
     \<and> (\<exists>ih \<in> set_option (tb_inheritance t). ih_parentColumnIds ih = Some (ky_columnIds (tb_primaryKey u)))
     \<and> set (ky_columnIds (tb_primaryKey u)) \<subseteq> columnIds u
     \<and> length (joinedForeignKeys t u (ky_columnIds (tb_primaryKey u))) = 1)"

definition root_entry :: "relational_table \<Rightarrow> bool" where
  "root_entry t \<longleftrightarrow> parentIdOf t = None \<and> (\<forall>ih \<in> set_option (tb_inheritance t). ih_parentColumnIds ih = None)"

lemma one_element: "(case xs of [x] \<Rightarrow> [] | [] \<Rightarrow> [a] | _ \<Rightarrow> [b]) = [] \<longleftrightarrow> length xs = 1"
  by (auto split: list.split)

lemma subclassIssues_silent:
  assumes "distinct (map tb_id ts)"
  shows "subclassIssues (tablesById ts) t path i cids = [] \<longleftrightarrow>
    (\<exists>u \<in> set ts. tb_id u = i \<and> cids = ky_columnIds (tb_primaryKey u) \<and> set cids \<subseteq> columnIds u
       \<and> length (joinedForeignKeys t u cids) = 1) \<and> inheritanceChainIssue (tablesById ts) t = None"
proof (cases "mapGet (tablesById ts) i")
  case None
  then have "i \<notin> tb_id ` set ts" by (rule iffD1 [OF tablesById_None])
  moreover have "subclassIssues (tablesById ts) t path i cids \<noteq> []"
    unfolding subclassIssues_def None option.case by (rule list.distinct(2))
  ultimately show ?thesis by (metis imageI)
next
  case (Some u)
  then have u: "u \<in> set ts" "tb_id u = i" by (simp_all only: tablesById_Some [OF assms])
  have only: "v = u" if "v \<in> set ts" "tb_id v = i" for v
    using distinct_key_eq [OF assms that(1) u(1)] that(2) u(2) by simp
  have present: "entryIssues (\<lambda>n j. issue_if (j \<notin> co_id ` set (tb_columns u)) (a n) (b j)) 0 cids = []
      \<longleftrightarrow> set cids \<subseteq> columnIds u" for a b
    by (subst entryIssues_silent [where P = "\<lambda>j. j \<in> columnIds u"]) (auto simp: columnIds_def)
  have "subclassIssues (tablesById ts) t path i cids = [] \<longleftrightarrow> cids = ky_columnIds (tb_primaryKey u)
      \<and> set cids \<subseteq> columnIds u \<and> length (joinedForeignKeys t u cids) = 1
      \<and> inheritanceChainIssue (tablesById ts) t = None"
    unfolding subclassIssues_def Some option.case append_is_Nil_conv present issue_if_Nil one_element
    by (auto split: option.split)
  with u only show ?thesis by metis
qed

lemma inheritanceIssues_silent:
  assumes "distinct (map tb_id ts)"
  shows "inheritanceIssues (tablesById ts) t path = [] \<longleftrightarrow>
    (is_subclass t \<longrightarrow> subclass_entry ts t \<and> inheritanceChainIssue (tablesById ts) t = None) \<and> (is_root t \<longrightarrow> root_entry t)"
proof (cases "tb_inheritance t")
  case (Some ih)
  show ?thesis
  proof (cases "ih_role ih")
    case SubclassRole
    show ?thesis
    proof (cases "truthy (ih_parentTableId ih) \<and> ih_parentColumnIds ih \<noteq> None")
      case True
      then obtain i cids where "ih_parentTableId ih = Some i" "ih_parentColumnIds ih = Some cids" by (auto simp: truthy_def split: option.splits)
      with True show ?thesis
        by (auto simp: inheritanceIssues_def Let_def Some SubclassRole subclassIssues_silent [OF assms]
          is_subclass_def is_root_def subclass_entry_def parentIdOf_def textOf_def)
    next
      case False
      then show ?thesis
        by (auto simp: inheritanceIssues_def Let_def Some SubclassRole is_subclass_def is_root_def
          subclass_entry_def parentIdOf_def split: if_splits)
    qed
  next
    case RootRole
    then show ?thesis
      by (auto simp: inheritanceIssues_def Some is_subclass_def is_root_def root_entry_def parentIdOf_def)
  qed
qed (simp add: inheritanceIssues_def is_subclass_def is_root_def)

text \<open>A table, with the names of tables and indexes so far.\<close>

definition table_ok_alone :: "relational_table list \<Rightarrow> relational_table \<Rightarrow> bool" where
  "table_ok_alone ts t \<longleftrightarrow> consistent_parts ts t
     \<and> (is_subclass t \<longrightarrow> subclass_entry ts t \<and> inheritanceChainIssue (tablesById ts) t = None) \<and> (is_root t \<longrightarrow> root_entry t)"

definition table_ok_in :: "relational_table list \<Rightarrow> relational_table \<Rightarrow> jstring set \<Rightarrow> bool" where
  "table_ok_in ts t R \<longleftrightarrow> set (indexNames t) \<inter> R = {} \<and> table_ok_alone ts t"

definition add_indexes :: "relational_table \<Rightarrow> jstring set \<Rightarrow> jstring set" where
  "add_indexes t R = set (indexNames t) \<union> R"

definition start_names :: "relational_table \<Rightarrow> jstring set \<Rightarrow> constraint_names" where
  "start_names t R = \<lparr>cn_constraints = {ky_physicalName (tb_primaryKey t)},
     cn_relations = insert (ky_physicalName (tb_primaryKey t)) R, cn_ids = {}\<rparr>"

lemma tableIssues_parts:
  "fst (tableIssues tables i t R) = [] \<longleftrightarrow>
     (let path = js ''/tables/'' @ show_nat i; s = start_names t R;
          s' = fold unique_next (tb_uniqueConstraints t) s\<lparr>cn_ids := {}\<rparr> in
      ky_physicalName (tb_primaryKey t) \<notin> R
      \<and> fst (entryIssuesWith (columnIssues t path) 0 (tb_columns t) ({}, {}, {})) = []
      \<and> entryIssues (primaryKeyIssues t path) 0 (ky_columnIds (tb_primaryKey t)) = []
      \<and> entryIssues (undeclaredIssues t path) 0 (tb_columns t) = []
      \<and> fst (entryIssuesWith (uniqueIssues t path) 0 (tb_uniqueConstraints t) s) = []
      \<and> fst (entryIssuesWith (foreignKeyIssues tables t path) 0 (tb_foreignKeys t) s') = []
      \<and> inheritanceIssues tables t path = [])"
  by (simp add: tableIssues_def Let_def register_defs start_names_def case_prod_beta uniques.loop_state)

lemma tableIssues_next: "snd (tableIssues tables i t R) = add_indexes t R"
proof -
  have "cn_relations (snd (entryIssuesWith (foreignKeyIssues tables t path) 0 ks s)) = cn_relations s" for path ks s
  proof -
    have "cn_relations (snd (entryIssuesWith (foreignKeyIssues tables t path) i ks s)) = cn_relations s" for i
    proof (induction ks arbitrary: i s)
      case (Cons k ks)
      have "snd (entryIssuesWith (foreignKeyIssues tables t path) i (k # ks) s) =
          snd (entryIssuesWith (foreignKeyIssues tables t path) (Suc i) ks (reference_next k s))"
        unfolding foreignKeyIssues_next [of tables t path i k s, symmetric] by (simp split: prod.split)
      then show ?case by (simp add: Cons.IH) (simp add: reference_next_def)
    qed simp
    then show ?thesis .
  qed
  then show ?thesis
    by (simp add: tableIssues_def Let_def register_defs case_prod_beta uniques.loop_state fold_unique_next
      add_indexes_def indexNames_def)
qed


lemma tableIssues_silent:
  assumes "indexed ts" "t \<in> set ts"
  shows "fst (tableIssues (tablesById ts) i t R) = [] \<longleftrightarrow> table_ok_in ts t R"
proof -
  have ids: "distinct (map tb_id ts)" and cols: "distinct (map co_id (tb_columns t))"
    using assms by (auto simp: indexed_def)
  have primary: "entryIssues (primaryKeyIssues t path) 0 (ky_columnIds (tb_primaryKey t)) = [] \<longleftrightarrow>
      (\<forall>i \<in> set (ky_columnIds (tb_primaryKey t)). \<exists>c \<in> set (tb_columns t). co_id c = i \<and> co_primaryKey c \<and> \<not> co_nullable c)" for path
    by (rule entryIssues_silent) (rule primaryKeyIssues_silent [OF cols])
  have undeclared: "entryIssues (undeclaredIssues t path) 0 (tb_columns t) = [] \<longleftrightarrow>
      (\<forall>c \<in> set (tb_columns t). co_primaryKey c \<longrightarrow> co_id c \<in> set (ky_columnIds (tb_primaryKey t)))" for path
    by (rule entryIssues_silent) (auto simp: undeclaredIssues_def)
  have uniq: "fst (entryIssuesWith (uniqueIssues t path) 0 (tb_uniqueConstraints t) s) = [] \<longleftrightarrow>
      passes (unique_ok t) unique_next (tb_uniqueConstraints t) s" for path s
    by (rule uniques.loop_silent) simp
  have foreign: "fst (entryIssuesWith (foreignKeyIssues (tablesById ts) t path) 0 (tb_foreignKeys t) s) = [] \<longleftrightarrow>
      passes (reference_ok ts t) reference_next (tb_foreignKeys t) s" for path s
    by (rule references.loop_silent) (simp add: assms)
  have "fst (tableIssues (tablesById ts) i t R) = [] \<longleftrightarrow> ky_physicalName (tb_primaryKey t) \<notin> R
      \<and> (distinct (map co_id (tb_columns t)) \<and> distinct (map co_physicalName (tb_columns t))
      \<and> distinct (map co_javaPropertyName (tb_columns t))
      \<and> (\<forall>c \<in> set (tb_columns t). isForeignKeyColumn t c \<or> compatibleTypes (co_javaType c) (co_postgresType c)))
      \<and> (\<forall>i \<in> set (ky_columnIds (tb_primaryKey t)). \<exists>c \<in> set (tb_columns t). co_id c = i \<and> co_primaryKey c \<and> \<not> co_nullable c)
      \<and> (\<forall>c \<in> set (tb_columns t). co_primaryKey c \<longrightarrow> co_id c \<in> set (ky_columnIds (tb_primaryKey t)))
      \<and> passes (unique_ok t) unique_next (tb_uniqueConstraints t) (start_names t R)
      \<and> passes (reference_ok ts t) reference_next (tb_foreignKeys t)
          (fold unique_next (tb_uniqueConstraints t) (start_names t R)\<lparr>cn_ids := {}\<rparr>)
      \<and> inheritanceIssues (tablesById ts) t (js ''/tables/'' @ show_nat i) = []"
    unfolding tableIssues_parts Let_def columnIssues_silent primary undeclared uniq foreign ..
  also have "\<dots> \<longleftrightarrow> table_ok_in ts t R"
    unfolding inheritanceIssues_silent [OF ids] passes_unique passes_reference fold_unique_next start_names_def
      table_ok_in_def table_ok_alone_def consistent_parts_def indexNames_def
    by auto
  finally show ?thesis .
qed

interpretation tables: issue_loop "tableIssues (tablesById ts)" "\<lambda>t. indexed ts \<and> t \<in> set ts"
    "table_ok_in ts" add_indexes for ts
  by unfold_locales (simp_all add: tableIssues_silent tableIssues_next)

lemma passes_tables:
  "passes (table_ok_in ts) add_indexes us R \<longleftrightarrow>
     distinct (concat (map indexNames us)) \<and> set (concat (map indexNames us)) \<inter> R = {} \<and> (\<forall>t \<in> set us. table_ok_alone ts t)"
proof (induction us arbitrary: R)
  case (Cons t us)
  have "table_ok_alone ts t \<Longrightarrow> distinct (indexNames t)"
    by (simp add: table_ok_alone_def consistent_parts_def indexNames_def)
  then show ?case
    unfolding passes.simps Cons.IH table_ok_in_def [of ts t] add_indexes_def [of t] by auto
qed simp

lemma consistent_table_alone:
  assumes "distinct (map tb_id ts)"
  shows "(\<forall>t \<in> set ts. table_ok_alone ts t) \<longleftrightarrow> (\<forall>t \<in> set ts. consistent_table ts t)"
proof -
  have alone: "table_ok_alone ts t \<longleftrightarrow> consistent_table ts t" if "parents_present ts" "t \<in> set ts" for t
    using inheritanceChainIssue_iff [OF assms that]
    by (auto simp: table_ok_alone_def consistent_table_def consistent_inheritance_def consistent_subclass_def
      subclass_entry_def root_entry_def)
  have "\<forall>t \<in> set ts. table_ok_alone ts t \<Longrightarrow> parents_present ts"
    unfolding parents_present_def table_ok_alone_def subclass_entry_def by blast
  moreover have "\<forall>t \<in> set ts. consistent_table ts t \<Longrightarrow> parents_present ts"
    unfolding parents_present_def consistent_table_def consistent_inheritance_def consistent_subclass_def by blast
  ultimately show ?thesis using alone by metis
qed

theorem semantics_silent: "validateRelationalModelSemantics m = [] \<longleftrightarrow> consistent_schema m"
proof -
  let ?ts = "rm_tables m" and ?R = "tb_physicalName ` set (rm_tables m)"
  have validate: "validateRelationalModelSemantics m = [] \<longleftrightarrow>
      distinct (map tb_id ?ts) \<and> distinct (map tb_physicalName ?ts) \<and> distinct (map tb_javaEntityName ?ts)
      \<and> fst (entryIssuesWith (tableIssues (tablesById ?ts)) 0 ?ts ?R) = []"
    unfolding validateRelationalModelSemantics_def append_is_Nil_conv tableNameIssues_silent by blast
  have loop: "fst (entryIssuesWith (tableIssues (tablesById ?ts)) 0 ?ts ?R) = [] \<longleftrightarrow>
      distinct (concat (map indexNames ?ts)) \<and> set (concat (map indexNames ?ts)) \<inter> ?R = {}
      \<and> (\<forall>t \<in> set ?ts. consistent_table ?ts t)" if "indexed ?ts"
  proof -
    have "fst (entryIssuesWith (tableIssues (tablesById ?ts)) 0 ?ts ?R) = [] \<longleftrightarrow>
        passes (table_ok_in ?ts) add_indexes ?ts ?R"
      by (rule tables.loop_silent) (simp add: that)
    then show ?thesis
      using that by (simp add: passes_tables consistent_table_alone indexed_def)
  qed
  have silent_indexed: "indexed ?ts" if "validateRelationalModelSemantics m = []"
  proof -
    have "distinct (map co_id (tb_columns t))" if "t \<in> set ?ts" for t
    proof -
      obtain j R where "fst (tableIssues (tablesById ?ts) j t R) = []"
        using tables.loop_each [OF _ \<open>t \<in> set ?ts\<close>] \<open>validateRelationalModelSemantics m = []\<close> validate by blast
      then show ?thesis unfolding tableIssues_parts Let_def columnIssues_silent by blast
    qed
    with that validate show ?thesis by (simp add: indexed_def)
  qed
  have consistent_indexed: "indexed ?ts" if "consistent_schema m"
    using that by (simp add: consistent_schema_def indexed_def consistent_table_def consistent_parts_def)
  show ?thesis
    using validate loop silent_indexed consistent_indexed unfolding consistent_schema_def distinct_append set_map
    by blast
qed

end
