(* ===== verification/Relational_Examples.thy ===== *)
theory Relational_Examples
  imports Relational_Kept Relational_Consistency Example_Documents
begin

text \<open>
  A platform for ASCII text, and documents with what is generated from them: invoices and customers, a
  class with an identifier of its own, and a reference to a joined subclass, which is refused.
\<close>

section \<open>ASCII\<close>

definition ascii_platform :: platform where
  "ascii_platform = \<lparr>pl_nfkd = (\<lambda>s. s), pl_lower = map ascii_lower, pl_compare = compareUnits\<rparr>"

fun compareChars :: "string \<Rightarrow> string \<Rightarrow> int" where
  "compareChars [] [] = 0"
| "compareChars [] (d # t) = -1"
| "compareChars (c # s) [] = 1"
| "compareChars (c # s) (d # t) = (if (of_char c :: nat) < of_char d then -1
     else if (of_char d :: nat) < of_char c then 1 else compareChars s t)"

lemma compareUnits_js: "compareUnits (js s) (js t) = compareChars s t"
  unfolding js_def
  by (induction s t rule: compareChars.induct) (simp_all add: word_less_nat_alt unat_char_unit)

lemma artifactId_js: "length s \<le> 160 \<Longrightarrow> artifactId (js s) = js s"
  by (simp add: artifactId_def js_def)

lemma pl_sel [simp]: "pl_compare ascii_platform = compareUnits" "pl_lower ascii_platform = map ascii_lower" "pl_nfkd ascii_platform s = s"
  by (simp_all add: ascii_platform_def)

lemmas eval_names = snake_def js_def is_lower_letter_def is_upper_letter_def is_digit_def strip_underscores_def
  is_alnum_def ascii_lower_def word_le_nat_alt

lemma snakes:
  "snake ascii_platform (js ''Customer'') = js ''customer''"
  "snake ascii_platform (js ''customer'') = js ''customer''"
  "snake ascii_platform (js ''pk_customer'') = js ''pk_customer''"
  "snake ascii_platform (js ''Invoice'') = js ''invoice''"
  "snake ascii_platform (js ''pk_invoice'') = js ''pk_invoice''"
  "snake ascii_platform (js ''fk_invoice_customer_id'') = js ''fk_invoice_customer_id''"
  "snake ascii_platform (js ''Vip'') = js ''vip''"
  "snake ascii_platform (js ''pk_vip'') = js ''pk_vip''"
  "snake ascii_platform (js ''fk_vip_customer'') = js ''fk_vip_customer''"
  "snake ascii_platform (js ''unnamed'') = js ''unnamed''"
  "snake ascii_platform (js ''id'') = js ''id''"
  "snake ascii_platform (js ''Person'') = js ''person''"
  "snake ascii_platform (js ''person'') = js ''person''"
  "snake ascii_platform (js ''pk_person'') = js ''pk_person''"
  "snake ascii_platform (js ''buyer'') = js ''buyer''"
  "snake ascii_platform (js ''fk_customer_person'') = js ''fk_customer_person''"
  "snake ascii_platform (js ''fk_invoice_buyer_id'') = js ''fk_invoice_buyer_id''"
  by (simp_all add: eval_names)


lemma toPhysicalName_eval:
  assumes "snake p (js s) = js w" "w \<noteq> []" "is_lower_letter (hd (js w))" "w \<notin> set POSTGRES_RESERVED_WORDS" "length w \<le> 63"
  shows "toPhysicalName p (js s) = js w"
proof -
  have "\<not> postgres_reserved (js w)" using assms(4) by (auto simp: postgres_reserved_def)
  with assms show ?thesis by (simp add: toPhysicalName_def truncateIdentifier_def)
qed

lemma names [simp]:
  "toPhysicalName ascii_platform (js ''Customer'') = js ''customer''"
  "toPhysicalName ascii_platform (js ''customer'') = js ''customer''"
  "toPhysicalName ascii_platform (js ''pk_customer'') = js ''pk_customer''"
  "toPhysicalName ascii_platform (js ''Invoice'') = js ''invoice''"
  "toPhysicalName ascii_platform (js ''pk_invoice'') = js ''pk_invoice''"
  "toPhysicalName ascii_platform (js ''fk_invoice_customer_id'') = js ''fk_invoice_customer_id''"
  "toPhysicalName ascii_platform (js ''Vip'') = js ''vip''"
  "toPhysicalName ascii_platform (js ''pk_vip'') = js ''pk_vip''"
  "toPhysicalName ascii_platform (js ''fk_vip_customer'') = js ''fk_vip_customer''"
  "toPhysicalName ascii_platform (js ''unnamed'') = js ''unnamed''"
  "toPhysicalName ascii_platform (js ''id'') = js ''id''"
  "toPhysicalName ascii_platform (js ''Person'') = js ''person''"
  "toPhysicalName ascii_platform (js ''person'') = js ''person''"
  "toPhysicalName ascii_platform (js ''pk_person'') = js ''pk_person''"
  "toPhysicalName ascii_platform (js ''buyer'') = js ''buyer''"
  "toPhysicalName ascii_platform (js ''fk_customer_person'') = js ''fk_customer_person''"
  "toPhysicalName ascii_platform (js ''fk_invoice_buyer_id'') = js ''fk_invoice_buyer_id''"
  by (rule toPhysicalName_eval, rule snakes; simp add: POSTGRES_RESERVED_WORDS_def js_def is_lower_letter_def word_le_nat_alt)+

lemma java_names [simp]:
  "toJavaTypeName ascii_platform (js ''Customer'') = js ''Customer''"
  "toJavaTypeName ascii_platform (js ''Invoice'') = js ''Invoice''"
  "toJavaTypeName ascii_platform (js ''Vip'') = js ''Vip''"
  "toJavaTypeName ascii_platform (js ''Person'') = js ''Person''"
  "toJavaPropertyName ascii_platform (js ''Customer'') = js ''customer''"
  "toJavaPropertyName ascii_platform (js ''id'') = js ''id''"
  "toJavaPropertyName ascii_platform (js ''buyer'') = js ''buyer''"
  "referenceColumnPhysicalName ascii_platform (js ''buyer'') = js ''buyer_id''"
  "referenceColumnPhysicalName ascii_platform (js ''Customer'') = js ''customer_id''"
  unfolding toJavaTypeName_def toJavaPropertyName_def referenceColumnPhysicalName_def names
  by (simp_all add: name_parts_def js_split_def js_def is_upper_letter_def is_lower_letter_def word_le_nat_alt
    capitalize_def ascii_upper_def truncateIdentifier_def java_reserved_def JAVA_RESERVED_WORDS_def)

section \<open>Customers and invoices\<close>

text \<open>Invoices refer to their customer; a VIP is a customer.\<close>

definition billing :: canonical_model where
  "billing = document_of [class_of ''aa'' ''Customer'' [], class_of ''bb'' ''Invoice'' [], class_of ''cc'' ''Vip'' []]
     [(association_of ''r1'' ''bb'' ''aa'' None)\<lparr>rl_target := end_of ''aa'' ''1''\<rparr>,
      (association_of ''r2'' ''cc'' ''aa'' None)\<lparr>rl_kind := Generalization\<rparr>] []"

lemmas run_build = thenB_def ret_def throwB_def getB_def modifyB_def whenB_def pushDiagnostic_def info_def
  warning_def warningAt_def

lemmas run_states = buildEntityTables_def initial_state_def sortedClassifiers_def sortedRelationships_def
  sortedAttributes_def toSorted_def byKey_def elementsById_def association_class_ids_of_def buildEntityTable_def
  identifierColumn_def namedIdAttribute_def createSyntheticIdColumn_def entityTable_def primaryKeyForTable_def
  constraintName_def addTable_def resolveTableName_def resolveEntityName_def otherOwner_def registerTable_def textOf_def

lemmas run_relationships = buildRelationships_def sortedGeneralizations_def compareGeneralizations_def
  buildGeneralization_def buildRelationship_def buildAssociation_def tableForClassifier_def tableOf_def
  requireSinglePrimaryKey_def primaryKeyColumn_def onTable_def setTable_def joinedColumn_def addForeignKey_def
  reportMultiplicityPolicy_def parseMultiplicity_def bigInt_def isMany_def lowerBound_def addRelationshipColumn_def
  referenceLogicalName_def or_else_def addReferenceColumn_def addColumn_def resolveColumnId_def resolveColumnName_def
  resolvePropertyName_def canonicalRelationshipMultiplicities_def sortedPair_def relationshipEndKey_def

lemmas run_models = toModel_def normalizeTable_def compareColumns_def buildAll_def buildAssociationClassTables_def
  buildClassifierAttributes_def generateFrom_def assertRelationalModelContract_def

lemma digit_text: "js_BigInt (js ''1'') = Some 1"
  by (simp add: js_BigInt_def js_def is_digit_def digits_val_def digit_val_def word_le_nat_alt)

lemmas run_validator = validateRelationalModelSemantics_def tableNameIssues_def tableIssues_def issue_if_def
  columnIssues_def isForeignKeyColumn_def compatibleTypes_def javaTypesByPostgresType_def primaryKeyIssues_def
  columnsById_def tablesById_def undeclaredIssues_def registerKeyName_def registerConstraintName_def
  registerIndexBackedConstraintName_def uniqueIssues_def foreignKeyIssues_def missingColumnIssues_def
  referenceIssues_def isDeclaredKey_def typeIssues_def inheritanceIssues_def subclassIssues_def
  inheritanceChainIssue_def inheritanceChain.simps joinedForeignKeys_def is_subclass_def is_root_def parentIdOf_def
  throwUnless_def

lemma billing_generated:
  "\<exists>m. generateFrom ascii_platform (\<lambda>_. []) billing = Inr m
     \<and> map (\<lambda>t. (tb_id t, is_subclass t, length (tb_columns t), length (tb_foreignKeys t))) (rm_tables m) =
       [(js ''table_aa'', False, 1, 0), (js ''table_bb'', False, 2, 1), (js ''table_cc'', True, 1, 1)]"
  by (simp add: billing_def document_of_def class_of_def association_of_def end_of_def run_build run_states run_relationships run_models
    compareUnits_js js_append [symmetric] artifactId_js Let_def is_class_def multiplicities digit_text run_validator)


lemma billing_model:
  obtains m where "generateFrom ascii_platform (\<lambda>_. []) billing = Inr m"
    "map tb_id (rm_tables m) = [js ''table_aa'', js ''table_bb'', js ''table_cc'']"
  using billing_generated by (auto simp: map_eq_Cons_conv)

lemma billing_table:
  obtains m t where "generateFrom ascii_platform (\<lambda>_. []) billing = Inr m" "t \<in> set (rm_tables m)"
    "is_subclass t" "length (tb_foreignKeys t) = 1"
proof -
  obtain m x y t where m: "generateFrom ascii_platform (\<lambda>_. []) billing = Inr m" "rm_tables m = [x, y, t]"
    "is_subclass t" "length (tb_foreignKeys t) = 1"
    using billing_generated by (auto simp: map_eq_Cons_conv)
  then have "t \<in> set (rm_tables m)" by simp
  with m show thesis by (intro that)
qed

lemma billing_subclass:
  obtains m t where "generateFrom ascii_platform (\<lambda>_. []) billing = Inr m" "t \<in> set (rm_tables m)" "is_subclass t"
  by (rule billing_table)

lemma billing_foreign_key:
  obtains m t k where "generateFrom ascii_platform (\<lambda>_. []) billing = Inr m" "t \<in> set (rm_tables m)"
    "tb_foreignKeys t = [k]"
  by (rule billing_table) (auto simp: length_Suc_conv)

lemma readable_texts: "multiplicity_text (js ''*'')" "multiplicity_text (js ''1'')"
  unfolding multiplicity_text_def multiplicities by (simp_all add: js_def is_digit_def word_le_nat_alt)

lemma billing_readable: "readable_multiplicities billing"
  by (simp add: readable_multiplicities_def billing_def document_of_def association_of_def end_of_def readable_texts)

section \<open>An explicit identifier\<close>

text \<open>A class with an attribute \<open>id\<close> of a scalar type.\<close>

definition with_identifier :: canonical_model where
  "with_identifier = document_of
     [class_of ''aa'' ''Customer'' [attribute_of ''aaid'' ''id'' (ref_to ''Long'' None)]] [] []"

lemma hashes:
  "shortStableHash (js ''aa|aaid'') = js ''1c2bcbee''"
  "shortStableHash (js ''column_table_aa_id_1c2bcbee'') = js ''9e0745fd''"
  by code_simp+

lemma identifier_text:
  "isIdName ascii_platform (js ''id'')" "\<not> isIdName ascii_platform (js ''buyer'')"
  "scalarKey ascii_platform (js ''Long'') = js ''long''"
  by (simp_all add: isIdName_def scalarKey_def eval_text) (simp_all add: js_def js_split_def ascii_lower_def is_upper_letter_def word_le_nat_alt)

lemma suffixed: "appendStableJavaNameHash (js s) d = js (take 151 s) @ js ''_'' @ shortStableHash d"
  by (simp add: appendStableJavaNameHash_def Let_def js_def take_map)

lemma suffixed_name: "length s \<le> 54 \<Longrightarrow> appendStableHash (js s) d = js s @ js ''_'' @ shortStableHash d"
  by (simp add: appendStableHash_def truncateIdentifier_def js_def)

lemmas run_attributes = createAttributeColumn_def isCompatibleIdentifierAttribute_def scalarType_def lookupScalar_def
  scalarTypes_def addAttributeToTable_def attributePath_def classifierPath_def

lemma identifier_is_stored_twice:
  "\<exists>m. generateFrom ascii_platform (\<lambda>_. []) with_identifier = Inr m
     \<and> map (\<lambda>t. map (\<lambda>c. (co_physicalName c, co_primaryKey c)) (tb_columns t)) (rm_tables m) =
       [[(js ''id'', True), (js ''id_9e0745fd'', False)]]"
  by (simp add: with_identifier_def document_of_def class_of_def attribute_of_def ref_to_def run_build run_states
    run_relationships run_models run_attributes identifier_text hashes suffixed suffixed_name trace_def uniqueSorted_def unique_def
    compareUnits_js js_append [symmetric] artifactId_js Let_def is_class_def run_validator)


section \<open>A reference to a joined subclass\<close>

text \<open>A person has a \<open>Long\<close> identifier that a customer, a joined subclass, takes over; an invoice has
  its buyer as an attribute.\<close>

definition with_buyer :: canonical_model where
  "with_buyer = document_of
     [class_of ''aa'' ''Person'' [attribute_of ''aaid'' ''id'' (ref_to ''Long'' None)],
      class_of ''bb'' ''Customer'' [],
      class_of ''cc'' ''Invoice'' [attribute_of ''ccb'' ''buyer'' (ref_to ''Customer'' (Some ''bb''))]]
     [(association_of ''r1'' ''bb'' ''aa'' None)\<lparr>rl_kind := Generalization\<rparr>] []"

lemma reference_to_subclass_is_rejected:
  "\<exists>ds. generateFrom ascii_platform (\<lambda>_. []) with_buyer = Inl (RelationalModelGenerationError ds)
     \<and> map (\<lambda>e. (rd_code e, rd_message e)) ds = [(js ''RELATIONAL_CONTRACT_INVALID'',
         js ''foreign-key column column_table_cc_buyer_id type uuid must match referenced column bigint.'')]"
  by (simp add: with_buyer_def document_of_def class_of_def attribute_of_def ref_to_def association_of_def end_of_def run_build run_states
    run_relationships run_models run_attributes identifier_text hashes suffixed suffixed_name trace_def uniqueSorted_def unique_def
    compareUnits_js js_append [symmetric] artifactId_js Let_def is_class_def run_validator multiplicities digit_text semanticIssue_def issueDiagnostic_def)

end
