(* ===== verification/Relational_Properties.thy ===== *)
theory Relational_Properties
  imports Relational_Examples "HOL-Library.Multiset"
begin

text \<open>
  What \<open>generateRelationalModel\<close> guarantees of a model it returns, from the invariant of its state
  (\<^theory_text>\<open>Relational_Kept\<close>) and the contract it is checked against (\<^theory_text>\<open>Relational_Consistency\<close>).
\<close>

section \<open>The tables of a model\<close>

lemma mset_toSorted [simp]: "mset (toSorted cmp xs) = mset xs"
proof -
  have "mset (insertSorted cmp x ys) = add_mset x (mset ys)" for x ys
    by (induction cmp x ys rule: insertSorted.induct) auto
  then show ?thesis by (induction xs) (simp_all add: toSorted_def)
qed

lemma length_toSorted [simp]: "length (toSorted cmp xs) = length xs"
  by (metis mset_toSorted size_mset)

lemma normalizeTable_sel [simp]:
  "tb_id (normalizeTable p t) = tb_id t" "tb_physicalName (normalizeTable p t) = tb_physicalName t"
  "tb_javaEntityName (normalizeTable p t) = tb_javaEntityName t"
  "tb_sourceClassifierId (normalizeTable p t) = tb_sourceClassifierId t"
  "tb_primaryKey (normalizeTable p t) = tb_primaryKey t"
  "tb_inheritance (normalizeTable p t) = tb_inheritance t"
  "set (tb_columns (normalizeTable p t)) = set (tb_columns t)"
  "set (tb_foreignKeys (normalizeTable p t)) = set (tb_foreignKeys t)"
  "set (tb_uniqueConstraints (normalizeTable p t)) = set (tb_uniqueConstraints t)"
  by (simp_all add: normalizeTable_def)

lemma set_toModel: "set (rm_tables (toModel p st)) = normalizeTable p ` set (mapValues (bs_tables st))"
  unfolding toModel_def by (simp only: relational_model.simps set_map set_toSorted)

lemma generated_consistent:
  assumes "generateFrom p contract d = Inr m"
  shows "consistent_schema m"
  using assms unfolding semantics_silent [symmetric]
  by (auto simp: generateFrom_def assertRelationalModelContract_def throwUnless_Inr_iff
      split: sum.splits build_error.splits if_splits)

text \<open>A returned model is that of a state with the invariant, and consistent.\<close>

lemma generated_from:
  assumes "generateFrom p contract d = Inr m" "readable_multiplicities d"
  obtains st where "build_inv st" "m = toModel p st" "bs_canonical st = d" "consistent_schema m"
    "\<forall>c \<in> set (dg_elements (cm_diagram d)). is_class c \<longrightarrow> cl_id c \<noteq> [] \<longrightarrow> tableOfClass st (cl_id c) \<noteq> None"
proof -
  obtain st where built: "buildAll p (initial_state d) = Inr ((), st)" and m: "m = toModel p st"
    using assms(1) by (auto simp: generateFrom_def split: sum.splits build_error.splits)
  note consistent = generated_consistent [OF assms(1)]
  have "wpB (buildAll p) (\<lambda>_ st'. st' = st \<longrightarrow> thesis) (initial_state d)"
    using that m consistent by (intro wpB_buildAll [OF assms(2)]) blast
  with built show thesis by (simp add: wpB_def)
qed

lemma table_of_state:
  assumes "build_inv st" "t \<in> set (rm_tables (toModel p st))"
  obtains u where "tableAt st (tb_id t) = Some u" "t = normalizeTable p u"
proof -
  from assms(2) obtain u where u: "u \<in> set (mapValues (bs_tables st))" and t: "t = normalizeTable p u"
    unfolding set_toModel by blast
  from assms(1) u obtain tid where tid: "tableAt st tid = Some u"
    unfolding build_inv_def tableAt_def by (metis in_values_mapGet)
  then have "tb_id u = tid" by (rule tableAt_id [OF assms(1)])
  with tid t show thesis by (intro that) simp_all
qed

lemma table_in_model:
  assumes "tableAt st tid = Some u"
  shows "normalizeTable p u \<in> set (rm_tables (toModel p st))"
  unfolding set_toModel using mapGet_in_values [OF assms [unfolded tableAt_def]] by (rule imageI)

section \<open>Names\<close>

text \<open>C6. A returned model names its artifacts with valid identifiers: tables, columns and constraints
  with unreserved PostgreSQL identifiers of at most 63 characters, entities and properties with Java names
  of at most 160, and no two tables, no two columns of a table share a name.\<close>

theorem generated_names_are_valid:
  assumes "generateFrom p contract d = Inr m" "readable_multiplicities d"
  shows "distinct (map tb_physicalName (rm_tables m)) \<and> distinct (map tb_javaEntityName (rm_tables m))
    \<and> (\<forall>t \<in> set (rm_tables m).
         physical_name (tb_physicalName t) \<and> is_java_type_name (tb_javaEntityName t)
       \<and> distinct (map co_physicalName (tb_columns t)) \<and> distinct (map co_javaPropertyName (tb_columns t))
       \<and> (\<forall>c \<in> set (tb_columns t). physical_name (co_physicalName c) \<and> java_property (co_javaPropertyName c))
       \<and> (\<forall>k \<in> set (tb_primaryKey t # tb_uniqueConstraints t). physical_name (ky_physicalName k))
       \<and> (\<forall>k \<in> set (tb_foreignKeys t). physical_name (fk_physicalName k)))"
proof -
  obtain st where st: "build_inv st" "m = toModel p st" and consistent: "consistent_schema m"
    by (rule generated_from [OF assms])
  have valid: "physical_name (tb_physicalName t) \<and> is_java_type_name (tb_javaEntityName t)
       \<and> (\<forall>c \<in> set (tb_columns t). physical_name (co_physicalName c) \<and> java_property (co_javaPropertyName c))
       \<and> (\<forall>k \<in> set (tb_primaryKey t # tb_uniqueConstraints t). physical_name (ky_physicalName k))
       \<and> (\<forall>k \<in> set (tb_foreignKeys t). physical_name (fk_physicalName k))" if t: "t \<in> set (rm_tables m)" for t
  proof -
    obtain u where u: "tableAt st (tb_id t) = Some u" "t = normalizeTable p u"
      by (rule table_of_state [OF st(1) t [unfolded st(2)]])
    from table_okD [OF st(1) u(1)] show ?thesis
      by (simp add: u(2) table_ok_def columns_ok_def column_ok_def key_ok_def foreign_ok_def list_all_iff)
  qed
  from consistent valid show ?thesis
    by (simp add: consistent_schema_def consistent_table_def consistent_parts_def)
qed

theorem generated_names_are_valid_witness:
  "\<exists>m. generateFrom ascii_platform (\<lambda>_. []) billing = Inr m
     \<and> map tb_id (rm_tables m) = [js ''table_aa'', js ''table_bb'', js ''table_cc'']
     \<and> distinct (map tb_physicalName (rm_tables m))
     \<and> (\<forall>t \<in> set (rm_tables m). \<forall>c \<in> set (tb_columns t). physical_name (co_physicalName c))"
proof -
  obtain m where m: "generateFrom ascii_platform (\<lambda>_. []) billing = Inr m"
    "map tb_id (rm_tables m) = [js ''table_aa'', js ''table_bb'', js ''table_cc'']"
    by (rule billing_model)
  from generated_names_are_valid [OF m(1) billing_readable] m show ?thesis
    by (intro exI [of _ m] conjI ballI) simp_all
qed

section \<open>Types\<close>

text \<open>C7. The validator of relational models reports nothing exactly for the consistent schemas: unique
  identifiers and names, keys over the columns of their tables, foreign keys to declared keys of the same
  types, and inheritance chains that end at a root over cascading primary-key references.\<close>

theorem validator_decides_consistency: "validateRelationalModelSemantics m = [] \<longleftrightarrow> consistent_schema m"
  by (rule semantics_silent)

text \<open>C8. In a returned model every column of a foreign key has the PostgreSQL type of the column it refers
  to, which is part of a declared key of an existing table; every other column has a Java type of its
  PostgreSQL type.\<close>

theorem foreign_keys_are_well_typed:
  assumes "generateFrom p contract d = Inr m" and t: "t \<in> set (rm_tables m)"
  shows "(\<forall>k \<in> set (tb_foreignKeys t). \<exists>u \<in> set (rm_tables m). tb_id u = fk_referencedTableId k
      \<and> isDeclaredKey u (fk_referencedColumnIds k)
      \<and> list_all2 (\<lambda>i j. \<exists>c \<in> set (tb_columns t). \<exists>r \<in> set (tb_columns u).
          co_id c = i \<and> co_id r = j \<and> co_postgresType c = co_postgresType r)
        (fk_columnIds k) (fk_referencedColumnIds k))
    \<and> (\<forall>c \<in> set (tb_columns t). isForeignKeyColumn t c \<or> compatibleTypes (co_javaType c) (co_postgresType c))"
proof -
  have parts: "consistent_parts (rm_tables m) t"
    using generated_consistent [OF assms(1)] t by (simp add: consistent_schema_def consistent_table_def)
  have "\<exists>u \<in> set (rm_tables m). tb_id u = fk_referencedTableId k \<and> isDeclaredKey u (fk_referencedColumnIds k)
      \<and> list_all2 (\<lambda>i j. \<exists>c \<in> set (tb_columns t). \<exists>r \<in> set (tb_columns u).
          co_id c = i \<and> co_id r = j \<and> co_postgresType c = co_postgresType r)
        (fk_columnIds k) (fk_referencedColumnIds k)" if "k \<in> set (tb_foreignKeys t)" for k
  proof -
    have k: "consistent_reference (rm_tables m) t k" using parts that by (simp add: consistent_parts_def)
    then obtain u where u: "u \<in> set (rm_tables m)" "tb_id u = fk_referencedTableId k"
        "isDeclaredKey u (fk_referencedColumnIds k)" "set (fk_referencedColumnIds k) \<subseteq> columnIds u"
      and types: "\<forall>(i, j) \<in> set (zip (fk_columnIds k) (fk_referencedColumnIds k)).
           \<forall>c \<in> set (tb_columns t). \<forall>d \<in> set (tb_columns u).
             co_id c = i \<longrightarrow> co_id d = j \<longrightarrow> co_postgresType c = co_postgresType d"
      unfolding consistent_reference_def by blast
    have cols: "set (fk_columnIds k) \<subseteq> columnIds t" "length (fk_columnIds k) = length (fk_referencedColumnIds k)"
      using k unfolding consistent_reference_def by blast+
    have "\<exists>c \<in> set (tb_columns t). \<exists>r \<in> set (tb_columns u).
        co_id c = i \<and> co_id r = j \<and> co_postgresType c = co_postgresType r"
      if ij: "(i, j) \<in> set (zip (fk_columnIds k) (fk_referencedColumnIds k))" for i j
    proof -
      have "i \<in> columnIds t" "j \<in> columnIds u" using set_zip_leftD [OF ij] set_zip_rightD [OF ij] cols u by blast+
      then show ?thesis using types ij unfolding columnIds_def by fastforce
    qed
    with u cols show ?thesis by (auto simp: list_all2_iff)
  qed
  with parts show ?thesis by (simp add: consistent_parts_def)
qed


theorem foreign_keys_are_well_typed_witness:
  "\<exists>m t k. generateFrom ascii_platform (\<lambda>_. []) billing = Inr m \<and> t \<in> set (rm_tables m)
     \<and> tb_foreignKeys t = [k] \<and> (\<exists>u \<in> set (rm_tables m). tb_id u = fk_referencedTableId k)"
proof -
  obtain m t k where m: "generateFrom ascii_platform (\<lambda>_. []) billing = Inr m" "t \<in> set (rm_tables m)"
    "tb_foreignKeys t = [k]"
    by (rule billing_foreign_key)
  from foreign_keys_are_well_typed [OF m(1,2)] m show ?thesis by (metis list.set_intros(1))
qed

section \<open>Inheritance\<close>

text \<open>The PostgreSQL types of the columns of the primary key, in order.\<close>

definition has_key_types :: "relational_table \<Rightarrow> jstring list \<Rightarrow> bool" where
  "has_key_types t ds \<longleftrightarrow> list_all2 (\<lambda>i d. \<exists>c \<in> set (tb_columns t). co_id c = i \<and> co_postgresType c = d)
     (ky_columnIds (tb_primaryKey t)) ds"

lemma key_types_exist:
  assumes "set (ky_columnIds (tb_primaryKey t)) \<subseteq> columnIds t"
  shows "\<exists>ds. has_key_types t ds"
proof -
  have "\<exists>ds. list_all2 (\<lambda>i d. \<exists>c \<in> set (tb_columns t). co_id c = i \<and> co_postgresType c = d) is ds"
    if "set is \<subseteq> columnIds t" for "is"
    using that
  proof (induction "is")
    case (Cons i "is")
    then obtain ds c where "list_all2 (\<lambda>i d. \<exists>c \<in> set (tb_columns t). co_id c = i \<and> co_postgresType c = d) is ds"
        "c \<in> set (tb_columns t)" "co_id c = i"
      by (auto simp: columnIds_def)
    then have "list_all2 (\<lambda>i d. \<exists>c \<in> set (tb_columns t). co_id c = i \<and> co_postgresType c = d)
        (i # is) (co_postgresType c # ds)" by auto
    then show ?case ..
  qed (blast intro: list_all2_Nil [THEN iffD2])
  from this [OF assms] show ?thesis by (simp add: has_key_types_def)
qed

text \<open>A joined subclass has the key types of its parent.\<close>

lemma subclass_key_types:
  assumes m: "consistent_schema m" and t: "t \<in> set (rm_tables m)" "is_subclass t"
    and u: "u \<in> set (rm_tables m)" "parentIdOf t = Some (tb_id u)" and ds: "has_key_types u ds"
  shows "has_key_types t ds"
proof -
  have ids: "distinct (map tb_id (rm_tables m))" using m by (simp add: consistent_schema_def)
  have parts: "consistent_parts (rm_tables m) t" and sub: "consistent_subclass (rm_tables m) t"
    using m t by (simp_all add: consistent_schema_def consistent_table_def consistent_inheritance_def)
  from sub obtain v where v: "v \<in> set (rm_tables m)" "parentIdOf t = Some (tb_id v)"
      and one: "length (joinedForeignKeys t v (ky_columnIds (tb_primaryKey v))) = 1"
    unfolding consistent_subclass_def by blast
  have vu: "v = u" by (rule same_parent [OF ids u(2,1) v(2,1)])
  from one obtain k where "k \<in> set (joinedForeignKeys t u (ky_columnIds (tb_primaryKey u)))"
    unfolding vu by (metis list.set_sel(1) list.size(3) zero_neq_one)
  then have k: "k \<in> set (tb_foreignKeys t)" "fk_referencedTableId k = tb_id u"
      "fk_columnIds k = ky_columnIds (tb_primaryKey t)" "fk_referencedColumnIds k = ky_columnIds (tb_primaryKey u)"
    by (auto simp: joinedForeignKeys_def)
  then have "consistent_reference (rm_tables m) t k" using parts by (simp add: consistent_parts_def)
  then obtain w where w: "w \<in> set (rm_tables m)" "tb_id w = fk_referencedTableId k"
      and types: "\<forall>(i, j) \<in> set (zip (fk_columnIds k) (fk_referencedColumnIds k)).
           \<forall>c \<in> set (tb_columns t). \<forall>d \<in> set (tb_columns w).
             co_id c = i \<longrightarrow> co_id d = j \<longrightarrow> co_postgresType c = co_postgresType d"
      and cols: "set (fk_columnIds k) \<subseteq> columnIds t" "length (fk_columnIds k) = length (fk_referencedColumnIds k)"
    unfolding consistent_reference_def by blast
  have "w = u" using distinct_key_eq [OF ids w(1) u(1)] w(2) k(2) by simp
  then have types: "co_postgresType c = co_postgresType e"
    if "(i, j) \<in> set (zip (ky_columnIds (tb_primaryKey t)) (ky_columnIds (tb_primaryKey u)))"
      "c \<in> set (tb_columns t)" "e \<in> set (tb_columns u)" "co_id c = i" "co_id e = j" for i j c e
    using types that k(3,4) by fastforce
  show ?thesis unfolding has_key_types_def list_all2_conv_all_nth
  proof (intro conjI allI impI)
    have len: "length (ky_columnIds (tb_primaryKey u)) = length ds"
      using ds by (simp add: has_key_types_def list_all2_lengthD)
    with cols k show "length (ky_columnIds (tb_primaryKey t)) = length ds" by simp
    fix n assume n: "n < length (ky_columnIds (tb_primaryKey t))"
    let ?i = "ky_columnIds (tb_primaryKey t) ! n" and ?j = "ky_columnIds (tb_primaryKey u) ! n"
    have nu: "n < length (ky_columnIds (tb_primaryKey u))" using n cols k by simp
    have "?i \<in> columnIds t" using cols(1) k(3) nth_mem [OF n] by auto
    then obtain c where c: "c \<in> set (tb_columns t)" "co_id c = ?i" by (auto simp: columnIds_def)
    obtain e where e: "e \<in> set (tb_columns u)" "co_id e = ?j" "co_postgresType e = ds ! n"
      using ds nu unfolding has_key_types_def list_all2_conv_all_nth by blast
    have "(?i, ?j) \<in> set (zip (ky_columnIds (tb_primaryKey t)) (ky_columnIds (tb_primaryKey u)))"
      using n nu by (auto simp: in_set_zip)
    from types [OF this c(1) e(1) c(2) e(2)] c e
    show "\<exists>c \<in> set (tb_columns t). co_id c = ?i \<and> co_postgresType c = ds ! n" by auto
  qed
qed

text \<open>C9. In a returned model every joined subclass hangs, over its parents, from a root whose primary key
  has the same PostgreSQL types as its own.\<close>

theorem joined_hierarchies_share_key_types:
  assumes "generateFrom p contract d = Inr m" "t \<in> set (rm_tables m)" "is_subclass t"
  shows "reaches_root (rm_tables m) t
    \<and> (\<exists>u \<in> set (rm_tables m). is_root u \<and> (\<exists>ds. has_key_types u ds \<and> has_key_types t ds))"
proof -
  note m = generated_consistent [OF assms(1)]
  have root_types: "\<exists>ds. has_key_types u ds" if "u \<in> set (rm_tables m)" for u
  proof (rule key_types_exist)
    have "consistent_parts (rm_tables m) u"
      using m that by (simp add: consistent_schema_def consistent_table_def)
    then show "set (ky_columnIds (tb_primaryKey u)) \<subseteq> columnIds u"
      by (auto simp: consistent_parts_def columnIds_def)
  qed
  have shared: "\<exists>u \<in> set (rm_tables m). is_root u \<and> (\<exists>ds. has_key_types u ds \<and> has_key_types t ds)"
    if "reaches_root (rm_tables m) t" "t \<in> set (rm_tables m)" for t
    using that
  proof induction
    case (parent_is_root t u)
    then show ?case using root_types [of u] subclass_key_types [OF m, of t u] by blast
  next
    case (parent_reaches t u)
    then show ?case using subclass_key_types [OF m, of t u] by blast
  qed
  have "reaches_root (rm_tables m) t"
    using m assms(2,3) by (simp add: consistent_schema_def consistent_table_def consistent_inheritance_def consistent_subclass_def)
  with shared assms(2) show ?thesis by blast
qed

theorem joined_hierarchies_share_key_types_witness:
  "\<exists>m t. generateFrom ascii_platform (\<lambda>_. []) billing = Inr m \<and> t \<in> set (rm_tables m) \<and> is_subclass t
     \<and> reaches_root (rm_tables m) t"
proof -
  obtain m t where m: "generateFrom ascii_platform (\<lambda>_. []) billing = Inr m" "t \<in> set (rm_tables m)" "is_subclass t"
    by (rule billing_subclass)
  from joined_hierarchies_share_key_types [OF m] m show ?thesis by blast
qed

section \<open>Classes\<close>

text \<open>C10. A returned model has exactly one table for every class of the diagram, under the identifier
  derived from the class, and tables of classifiers only for classes: an interface has none.\<close>

theorem classes_have_one_table:
  assumes "generateFrom p contract d = Inr m" "readable_multiplicities d"
  shows "(\<forall>c \<in> set (dg_elements (cm_diagram d)). is_class c \<longrightarrow> cl_id c \<noteq> [] \<longrightarrow>
      (\<exists>!t. t \<in> set (rm_tables m) \<and> tb_sourceClassifierId t = Some (cl_id c)))
    \<and> (\<forall>t \<in> set (rm_tables m). \<forall>i. tb_sourceClassifierId t = Some i \<longrightarrow>
         tb_id t = artifactId (js ''table_'' @ i) \<and> i \<in> classesOf d)"
proof -
  obtain st where st: "build_inv st" "m = toModel p st" "bs_canonical st = d"
    and classes: "\<forall>c \<in> set (dg_elements (cm_diagram d)). is_class c \<longrightarrow> cl_id c \<noteq> [] \<longrightarrow> tableOfClass st (cl_id c) \<noteq> None"
    by (rule generated_from [OF assms])
  have source: "tb_id t = artifactId (js ''table_'' @ i) \<and> i \<in> classesOf d"
    if t: "t \<in> set (rm_tables m)" and i: "tb_sourceClassifierId t = Some i" for t i
  proof -
    obtain u where u: "tableAt st (tb_id t) = Some u" "t = normalizeTable p u"
      by (rule table_of_state [OF st(1) t [unfolded st(2)]])
    from inv_table [OF st(1) u(1)] i show ?thesis unfolding u(2) by (simp add: stored_ok_def st(3))
  qed
  have ids: "distinct (map tb_id (rm_tables m))"
    using generated_consistent [OF assms(1)] by (simp add: consistent_schema_def)
  have "\<exists>!t. t \<in> set (rm_tables m) \<and> tb_sourceClassifierId t = Some i" if "tableOfClass st i \<noteq> None" for i
  proof (rule ex_ex1I)
    from that obtain tid t where "tableAt st tid = Some t" "tb_sourceClassifierId t = Some i"
      using st(1) unfolding build_inv_def by blast
    then show "\<exists>t. t \<in> set (rm_tables m) \<and> tb_sourceClassifierId t = Some i"
      unfolding st(2) using table_in_model normalizeTable_sel(4) by metis
    fix t u
    assume "t \<in> set (rm_tables m) \<and> tb_sourceClassifierId t = Some i"
      "u \<in> set (rm_tables m) \<and> tb_sourceClassifierId u = Some i"
    then show "t = u" using source by (intro distinct_key_eq [OF ids]) auto
  qed
  with classes source show ?thesis by blast
qed

theorem classes_have_one_table_witness:
  "\<exists>m. generateFrom ascii_platform (\<lambda>_. []) billing = Inr m
     \<and> (\<exists>!t. t \<in> set (rm_tables m) \<and> tb_sourceClassifierId t = Some (js ''bb''))"
proof -
  obtain m where m: "generateFrom ascii_platform (\<lambda>_. []) billing = Inr m" by (rule billing_model)
  have "class_of ''bb'' ''Invoice'' [] \<in> set (dg_elements (cm_diagram billing))"
    by (simp add: billing_def document_of_def)
  with classes_have_one_table [OF m billing_readable] m show ?thesis
    by (fastforce simp: class_of_def is_class_def)
qed

section \<open>Errors\<close>

text \<open>Generation from a document with readable multiplicities fails only by a
  \<open>RelationalModelGenerationError\<close>, which reports an error, and a model it returns reports none: no use of
  a table without its key column, no unreadable number.\<close>

theorem failures_report_errors:
  assumes "readable_multiplicities d"
  shows "(case generateFrom p contract d of
      Inl (RelationalModelGenerationError ds) \<Rightarrow> reports_error ds
    | Inl _ \<Rightarrow> False
    | Inr m \<Rightarrow> \<not> reports_error (rm_diagnostics m))"
proof -
  have built: "wpB (buildAll p) (\<lambda>_ st. no_errors st) (initial_state d)"
    by (rule wpB_buildAll [OF assms]) (rule inv_no_errors)
  have issues: "reports_error (map (issueDiagnostic code) is)" if "is \<noteq> []" for code "is"
    using that by (cases "is") (simp_all add: reports_error_def issueDiagnostic_def)
  have quiet_model: "reports_error (rm_diagnostics (toModel p st)) = reports_error (bs_diagnostics st)" for st
    by (simp add: toModel_def reports_error_def)
  show ?thesis
  proof (cases "buildAll p (initial_state d)")
    case (Inl e)
    with built show ?thesis by (auto simp: wpB_def tolerated_def generateFrom_def)
  next
    case (Inr z)
    then obtain st where "buildAll p (initial_state d) = Inr ((), st)" "no_errors st"
      using built by (cases z) (auto simp: wpB_def)
    then show ?thesis
      by (auto simp: generateFrom_def assertRelationalModelContract_def throwUnless_def issues quiet_model no_errors_def)
  qed
qed

theorem failures_report_errors_witness:
  "\<exists>m. generateFrom ascii_platform (\<lambda>_. []) billing = Inr m \<and> \<not> reports_error (rm_diagnostics m)"
proof -
  obtain m where "generateFrom ascii_platform (\<lambda>_. []) billing = Inr m" by (rule billing_model)
  with failures_report_errors [OF billing_readable, of ascii_platform "\<lambda>_. []"] show ?thesis by simp
qed

end
