(* ===== verification/Relational_Determinism.thy ===== *)
theory Relational_Determinism
  imports Relational_Properties
begin

text \<open>
  The relational model does not depend on the order in which a document lists its classifiers, their
  attributes and its relationships. A step of the build is steady when it does the same in the states of
  two reordered documents; every step is, since it reads the diagram only through sorted lists, by
  identifier, or to count.
\<close>

section \<open>Sorting\<close>

definition total_order_on :: "('a \<Rightarrow> 'a \<Rightarrow> int) \<Rightarrow> 'a set \<Rightarrow> bool" where
  "total_order_on cmp A \<longleftrightarrow> (\<forall>x \<in> A. \<forall>y \<in> A. (cmp x y \<le> 0 \<or> cmp y x \<le> 0)
     \<and> (cmp x y \<le> 0 \<longrightarrow> cmp y x \<le> 0 \<longrightarrow> x = y) \<and> (\<forall>z \<in> A. cmp x y \<le> 0 \<longrightarrow> cmp y z \<le> 0 \<longrightarrow> cmp x z \<le> 0))"

lemma total_order_subset: "total_order_on cmp A \<Longrightarrow> B \<subseteq> A \<Longrightarrow> total_order_on cmp B"
  unfolding total_order_on_def by blast

lemma total_order_byKey:
  assumes "total_order_on cmp (key ` A)" "inj_on key A"
  shows "total_order_on (byKey cmp key) A"
  using assms unfolding total_order_on_def byKey_def inj_on_def by blast

lemma sorted_toSorted:
  assumes "total_order_on cmp (set xs)"
  shows "sorted_wrt (\<lambda>x y. cmp x y \<le> 0) (toSorted cmp xs)"
proof -
  have insert_sorted: "sorted_wrt (\<lambda>x y. cmp x y \<le> 0) (insertSorted cmp x ys)"
    if "sorted_wrt (\<lambda>x y. cmp x y \<le> 0) ys" "insert x (set ys) \<subseteq> set xs" for x ys
    using that
  proof (induction ys)
    case (Cons y ys)
    note total = assms [unfolded total_order_on_def]
    show ?case
    proof (cases "cmp x y \<le> 0")
      case True
      have "cmp x z \<le> 0" if "z \<in> set ys" for z
        using total True that Cons.prems by (metis insert_subset list.set(2) sorted_wrt.simps(2) subsetD)
      with True Cons.prems show ?thesis by simp
    next
      case False
      then have "cmp y x \<le> 0" using total Cons.prems by (metis insert_subset list.set(2))
      with False Cons show ?thesis by simp
    qed
  qed simp
  have "sorted_wrt (\<lambda>x y. cmp x y \<le> 0) (foldr (insertSorted cmp) ys [])" if "set ys \<subseteq> set xs" for ys
    using that
  proof (induction ys)
    case (Cons y ys)
    have "set (foldr (insertSorted cmp) ys []) = set ys"
      using set_toSorted [of cmp ys] unfolding toSorted_def .
    with Cons show ?case by (auto intro: insert_sorted)
  qed simp
  then show ?thesis unfolding toSorted_def by simp
qed

lemma sorted_unique:
  assumes "total_order_on cmp (set xs)"
  shows "mset ys = mset xs \<Longrightarrow> sorted_wrt (\<lambda>x y. cmp x y \<le> 0) xs \<Longrightarrow> sorted_wrt (\<lambda>x y. cmp x y \<le> 0) ys \<Longrightarrow> ys = xs"
  using assms
proof (induction xs arbitrary: ys)
  case (Cons x xs)
  then obtain y zs where ys: "ys = y # zs" by (cases ys) auto
  have same: "set ys = set (x # xs)" using Cons.prems(1) by (metis set_mset_mset)
  have "y = x \<or> cmp y x \<le> 0" using same Cons.prems(3) ys by auto
  moreover have "y = x \<or> cmp x y \<le> 0" using same Cons.prems(2) ys by auto
  ultimately have "y = x"
    using Cons.prems(4) same ys unfolding total_order_on_def by (metis list.set_intros(1))
  moreover have "zs = xs"
    using Cons.prems \<open>y = x\<close> ys by (intro Cons.IH) (auto intro: total_order_subset)
  ultimately show ?case using ys by simp
qed simp

lemma toSorted_reordered:
  assumes "total_order_on cmp (set xs)" "mset ys = mset xs"
  shows "toSorted cmp ys = toSorted cmp xs"
proof -
  have same: "set ys = set xs" using assms(2) by (metis set_mset_mset)
  have "sorted_wrt (\<lambda>x y. cmp x y \<le> 0) (toSorted cmp zs)" if "set zs = set xs" for zs
    using assms(1) that by (intro sorted_toSorted) simp
  from this [of xs] this [of ys] assms same show ?thesis
    by (intro sorted_unique [of cmp "toSorted cmp xs" "toSorted cmp ys"]) (simp_all only: set_toSorted mset_toSorted)
qed

lemma toSorted_byKey_reordered:
  assumes "total_order_on cmp (key ` set xs)" "distinct (map key xs)" "mset ys = mset xs"
  shows "toSorted (byKey cmp key) ys = toSorted (byKey cmp key) xs"
  using assms by (intro toSorted_reordered total_order_byKey) (simp_all add: distinct_map)

lemma list_all2_toSorted:
  assumes "\<And>x y. R x y \<Longrightarrow> key x = key y"
  shows "list_all2 R xs ys \<Longrightarrow> list_all2 R (toSorted (byKey cmp key) xs) (toSorted (byKey cmp key) ys)"
proof -
  have inserted: "list_all2 R xs ys \<Longrightarrow> R x y \<Longrightarrow>
      list_all2 R (insertSorted (byKey cmp key) x xs) (insertSorted (byKey cmp key) y ys)" for x y xs ys
  proof (induction rule: list_all2_induct)
    case (Cons u us v vs)
    then have "key u = key v" "key x = key y" using assms by blast+
    with Cons show ?case by (simp add: byKey_def)
  qed simp
  show "list_all2 R xs ys \<Longrightarrow> list_all2 R (toSorted (byKey cmp key) xs) (toSorted (byKey cmp key) ys)"
    unfolding toSorted_def by (induction rule: list_all2_induct) (simp_all add: inserted)
qed

section \<open>Reordered documents\<close>

definition reordered_class :: "uml_classifier \<Rightarrow> uml_classifier \<Rightarrow> bool" where
  "reordered_class c c' \<longleftrightarrow> (\<exists>as. mset as = mset (cl_attributes c) \<and> c' = c\<lparr>cl_attributes := as\<rparr>)"

definition reordered :: "canonical_model \<Rightarrow> canonical_model \<Rightarrow> bool" where
  "reordered d d' \<longleftrightarrow> cm_project d' = cm_project d
     \<and> mset (dg_relationships (cm_diagram d')) = mset (dg_relationships (cm_diagram d))
     \<and> (\<exists>els. mset els = mset (dg_elements (cm_diagram d)) \<and> list_all2 reordered_class els (dg_elements (cm_diagram d')))"

text \<open>Identifiers that are unique and that the platform orders, one attribute \<open>id\<close> at most in a class, no
  cycle of generalizations.\<close>

definition well_identified :: "platform \<Rightarrow> canonical_model \<Rightarrow> bool" where
  "well_identified p d \<longleftrightarrow>
     distinct (map cl_id (dg_elements (cm_diagram d))) \<and> distinct (map rl_id (dg_relationships (cm_diagram d)))
     \<and> total_order_on (pl_compare p) (cl_id ` set (dg_elements (cm_diagram d)))
     \<and> total_order_on (pl_compare p) (rl_id ` set (dg_relationships (cm_diagram d)))
     \<and> (\<forall>c \<in> set (dg_elements (cm_diagram d)). distinct (map at_id (cl_attributes c))
          \<and> total_order_on (pl_compare p) (at_id ` set (cl_attributes c))
          \<and> (\<forall>a \<in> set (cl_attributes c). \<forall>b \<in> set (cl_attributes c).
               isIdName p (at_name a) \<longrightarrow> isIdName p (at_name b) \<longrightarrow> a = b))
     \<and> acyclic (edges (dg_relationships (cm_diagram d)) Generalization)"

definition same_class :: "platform \<Rightarrow> uml_classifier \<Rightarrow> uml_classifier \<Rightarrow> bool" where
  "same_class p c c' \<longleftrightarrow> (\<exists>as. c' = c\<lparr>cl_attributes := as\<rparr>)
     \<and> sortedAttributes p (cl_attributes c') = sortedAttributes p (cl_attributes c)
     \<and> namedIdAttribute p c' = namedIdAttribute p c"

lemma find_unique:
  assumes "\<And>x y. x \<in> set xs \<Longrightarrow> y \<in> set xs \<Longrightarrow> P x \<Longrightarrow> P y \<Longrightarrow> x = y" "set ys = set xs"
  shows "find P ys = find P xs"
proof (cases "find P xs")
  case None
  then show ?thesis using assms(2) by (metis find_None_iff)
next
  case (Some x)
  then have x: "x \<in> set xs" "P x" by (auto simp: find_Some_iff)
  then obtain y where "find P ys = Some y" using assms(2) by (metis find_None_iff not_Some_eq)
  then have "y \<in> set ys" "P y" by (auto simp: find_Some_iff)
  with x assms have "y = x" by blast
  with \<open>find P ys = Some y\<close> Some show ?thesis by simp
qed

lemma reordered_same_class:
  assumes "well_identified p d" "c \<in> set (dg_elements (cm_diagram d))" "reordered_class c c'"
  shows "same_class p c c'"
proof -
  obtain as where as: "mset as = mset (cl_attributes c)" "c' = c\<lparr>cl_attributes := as\<rparr>"
    using assms(3) unfolding reordered_class_def by blast
  have set: "set as = set (cl_attributes c)" using as(1) by (metis set_mset_mset)
  have "sortedAttributes p as = sortedAttributes p (cl_attributes c)"
    unfolding sortedAttributes_def using assms(1,2) as(1)
    by (intro toSorted_byKey_reordered) (auto simp: well_identified_def)
  moreover have "namedIdAttribute p c' = namedIdAttribute p c"
    unfolding namedIdAttribute_def using assms(1,2) set by (intro find_unique) (auto simp: well_identified_def as(2))
  ultimately show ?thesis using as unfolding same_class_def by auto
qed

text \<open>What a step of the build can see of two documents.\<close>

definition same_content :: "platform \<Rightarrow> canonical_model \<Rightarrow> canonical_model \<Rightarrow> bool" where
  "same_content p d d' \<longleftrightarrow> well_identified p d \<and> reordered d d'"

lemma same_sortedClassifiers:
  assumes "same_content p d d'"
  shows "list_all2 (same_class p) (sortedClassifiers p (dg_elements (cm_diagram d)))
    (sortedClassifiers p (dg_elements (cm_diagram d')))"
proof -
  let ?els = "dg_elements (cm_diagram d)"
  obtain els where els: "mset els = mset ?els" "list_all2 reordered_class els (dg_elements (cm_diagram d'))"
    and d: "well_identified p d"
    using assms unfolding same_content_def reordered_def by blast
  have set: "set els = set ?els" using els(1) by (metis set_mset_mset)
  have "list_all2 (same_class p) els (dg_elements (cm_diagram d'))"
    using els(2) by (rule list.rel_mono_strong) (auto simp: set intro: reordered_same_class [OF d])
  then have "list_all2 (same_class p) (sortedClassifiers p els) (sortedClassifiers p (dg_elements (cm_diagram d')))"
    unfolding sortedClassifiers_def by (rule list_all2_toSorted [rotated]) (auto simp: same_class_def)
  moreover have "sortedClassifiers p els = sortedClassifiers p ?els"
    unfolding sortedClassifiers_def using d els(1)
    by (intro toSorted_byKey_reordered) (auto simp: well_identified_def)
  ultimately show ?thesis by simp
qed


lemma same_lookup:
  assumes "same_content p d d'"
  shows "rel_option (same_class p) (mapGet (elementsById (dg_elements (cm_diagram d))) i)
    (mapGet (elementsById (dg_elements (cm_diagram d'))) i)"
proof -
  let ?els = "dg_elements (cm_diagram d)" and ?els' = "dg_elements (cm_diagram d')"
  obtain els where els: "mset els = mset ?els" "list_all2 reordered_class els ?els'" and d: "well_identified p d"
    using assms unfolding same_content_def reordered_def by blast
  have set: "set els = set ?els" using els(1) by (metis set_mset_mset)
  have ids: "distinct (map cl_id ?els)" using d by (simp add: well_identified_def)
  have "list_all2 (\<lambda>c c'. cl_id c = cl_id c') els ?els'"
    using els(2) by (rule list.rel_mono_strong) (auto simp: reordered_class_def)
  then have same_ids: "map cl_id els = map cl_id ?els'" by (induction rule: list_all2_induct) simp_all
  have "mset (map cl_id els) = mset (map cl_id ?els)" using els(1) by simp
  then have ids': "distinct (map cl_id ?els')" using ids same_ids by (metis mset_eq_imp_distinct_iff)
  have found: "\<exists>c' \<in> set ?els'. same_class p c c' \<and> cl_id c' = cl_id c" if "c \<in> set ?els" for c
  proof -
    from that have "c \<in> set els" by (simp only: set)
    then obtain n where n: "n < length els" "els ! n = c" unfolding in_set_conv_nth by blast
    with els(2) have c': "reordered_class c (?els' ! n)" "?els' ! n \<in> set ?els'"
      by (auto simp: list_all2_conv_all_nth)
    from c'(1) have "cl_id (?els' ! n) = cl_id c" by (auto simp: reordered_class_def)
    with c' reordered_same_class [OF d that c'(1)] show ?thesis by blast
  qed
  show ?thesis
  proof (cases "classifierById ?els i")
    case (Some c)
    then have c: "c \<in> set ?els" "cl_id c = i" by (simp_all add: classifierById_eq [OF ids])
    with found obtain c' where "c' \<in> set ?els'" "same_class p c c'" "cl_id c' = i" by auto
    then show ?thesis
      using Some classifierById_eq [OF ids', of i c'] by (simp add: mapGet_elementsById [OF ids] mapGet_elementsById [OF ids'])
  next
    case None
    then have "i \<notin> cl_id ` set ?els" by (auto simp: classifierById_None)
    moreover have "cl_id ` set ?els = cl_id ` set ?els'"
      using same_ids set by (metis list.set_map)
    ultimately have "classifierById ?els' i = None" by (auto simp: classifierById_None)
    then show ?thesis
      using None by (simp add: mapGet_elementsById [OF ids] mapGet_elementsById [OF ids'])
  qed
qed

lemma same_sortedRelationships:
  "same_content p d d' \<Longrightarrow> sortedRelationships p (dg_relationships (cm_diagram d')) =
     sortedRelationships p (dg_relationships (cm_diagram d))"
  unfolding sortedRelationships_def same_content_def well_identified_def reordered_def
  by (intro toSorted_byKey_reordered) auto

lemma is_depth_unique:
  assumes "acyclic E" "finite E" "is_depth E g" "is_depth E h"
  shows "g i = h i"
proof -
  have "wf (E\<inverse>)" using assms(2,1) by (rule finite_acyclic_wf_converse)
  then show ?thesis
  proof (induction i rule: wf_induct_rule)
    case (less i)
    then have "g ` (E `` {i}) = h ` (E `` {i})" by (intro image_cong) auto
    then show ?case using is_depthD [OF assms(3), of i] is_depthD [OF assms(4), of i] by simp
  qed
qed

lemma same_sortedGeneralizations:
  assumes "same_content p d d'"
  shows "sortedGeneralizations p (dg_relationships (cm_diagram d')) =
    sortedGeneralizations p (dg_relationships (cm_diagram d))"
proof -
  let ?gs = "filter (\<lambda>r. rl_kind r = Generalization) (dg_relationships (cm_diagram d))"
    and ?gs' = "filter (\<lambda>r. rl_kind r = Generalization) (dg_relationships (cm_diagram d'))"
  have ms: "mset ?gs' = mset ?gs"
    using assms by (simp add: same_content_def reordered_def mset_filter)
  then have sets: "set ?gs' = set ?gs" by (metis set_mset_mset)
  have edges: "edges ?gs' Generalization = edges ?gs Generalization" unfolding edges_def sets ..
  have acyclic: "acyclic (edges ?gs Generalization)"
    using assms by (simp add: same_content_def well_identified_def edges_filter)
  have ids: "distinct (map rl_id ?gs)" "total_order_on (pl_compare p) (rl_id ` set ?gs)"
    using assms by (auto simp: same_content_def well_identified_def distinct_map intro: total_order_subset inj_on_subset)
  have depths: "depthOf (adjacency ?gs' Generalization) = depthOf (adjacency ?gs Generalization)"
  proof
    fix i
    show "depthOf (adjacency ?gs' Generalization) i = depthOf (adjacency ?gs Generalization) i"
      using acyclic depthOf_is_depth [of "adjacency ?gs Generalization"]
        depthOf_is_depth [of "adjacency ?gs' Generalization"] finite_graph [of "adjacency ?gs Generalization"]
      unfolding graph_adjacency edges by (intro is_depth_unique)
  qed
  let ?cmp = "compareGeneralizations p (adjacency ?gs Generalization)"
  have cmp: "compareGeneralizations p (adjacency ?gs' Generalization) = ?cmp"
    by (intro ext) (simp add: compareGeneralizations_def depths)
  have "total_order_on ?cmp (set ?gs)"
  proof -
    have "total_order_on (byKey (pl_compare p) rl_id) (set ?gs)"
      using ids by (intro total_order_byKey) (auto simp: distinct_map)
    then show ?thesis
      unfolding total_order_on_def compareGeneralizations_def byKey_def Let_def by (smt (verit))
  qed
  then show ?thesis
    unfolding sortedGeneralizations_def Let_def cmp using ms by (rule toSorted_reordered)
qed


section \<open>Steady steps\<close>

definition reads :: "canonical_model \<Rightarrow> build_state \<Rightarrow> bool" where
  "reads d st \<longleftrightarrow> bs_canonical st = d \<and> bs_classifiers st = elementsById (dg_elements (cm_diagram d))"

text \<open>The same state of the build of another document.\<close>

definition moved :: "canonical_model \<Rightarrow> build_state \<Rightarrow> build_state" where
  "moved d st = st\<lparr>bs_canonical := d, bs_classifiers := elementsById (dg_elements (cm_diagram d))\<rparr>"

lemma moved_sel [simp]:
  "bs_canonical (moved d st) = d" "bs_classifiers (moved d st) = elementsById (dg_elements (cm_diagram d))"
  "bs_classifierTables (moved d st) = bs_classifierTables st" "bs_tables (moved d st) = bs_tables st"
  "bs_tableNameOwners (moved d st) = bs_tableNameOwners st"
  "bs_javaEntityNameOwners (moved d st) = bs_javaEntityNameOwners st"
  "bs_diagnostics (moved d st) = bs_diagnostics st"
  by (simp_all add: moved_def)

definition steady :: "platform \<Rightarrow> canonical_model \<Rightarrow> canonical_model \<Rightarrow> 'a build \<Rightarrow> bool" where
  "steady p d d' m \<longleftrightarrow> (same_content p d d' \<longrightarrow> (\<forall>st. reads d st \<longrightarrow>
     (case m st of Inl e \<Rightarrow> m (moved d' st) = Inl e
      | Inr (x, st') \<Rightarrow> m (moved d' st) = Inr (x, moved d' st') \<and> reads d st')))"

named_theorems steady_rules

lemma steady_basic [steady_rules]:
  "steady p d d' (ret x)" "steady p d d' (throwB e)" "steady p d d' (failB q code message path ids)"
  by (simp_all add: steady_def ret_def throwB_def failB_def)

lemma steadyD:
  "steady p d d' m \<Longrightarrow> same_content p d d' \<Longrightarrow> reads d st \<Longrightarrow>
     (case m st of Inl e \<Rightarrow> m (moved d' st) = Inl e
      | Inr (x, st') \<Rightarrow> m (moved d' st) = Inr (x, moved d' st') \<and> reads d st')"
  by (simp add: steady_def)

lemma steady_thenB [steady_rules]:
  assumes "steady p d d' m" "\<And>x. steady p d d' (f x)"
  shows "steady p d d' (thenB m f)"
  unfolding steady_def
proof (intro impI allI)
  fix st
  assume *: "same_content p d d'" "reads d st"
  note m = steadyD [OF assms(1) *]
  show "case thenB m f st of Inl e \<Rightarrow> thenB m f (moved d' st) = Inl e
    | Inr (x, st') \<Rightarrow> thenB m f (moved d' st) = Inr (x, moved d' st') \<and> reads d st'"
  proof (cases "m st")
    case (Inl e)
    with m show ?thesis by (simp add: thenB_def)
  next
    case (Inr z)
    obtain x st1 where z: "z = (x, st1)" by (cases z)
    with m Inr have "m (moved d' st) = Inr (x, moved d' st1)" "reads d st1" by simp_all
    with steadyD [OF assms(2) *(1), of st1 x] Inr z show ?thesis
      by (simp add: thenB_def split: sum.splits prod.splits)
  qed
qed

text \<open>A reading of the state, of which what follows may not show the difference.\<close>

lemma steady_read:
  assumes "\<And>st. same_content p d d' \<Longrightarrow> reads d st \<Longrightarrow> f (g (moved d' st)) = f (g st)" "\<And>x. steady p d d' (f x)"
  shows "steady p d d' (thenB (getB g) f)"
  unfolding steady_def
proof (intro impI allI)
  fix st
  assume *: "same_content p d d'" "reads d st"
  from assms(1) [OF *] steadyD [OF assms(2) *, of "g st"]
  show "case thenB (getB g) f st of Inl e \<Rightarrow> thenB (getB g) f (moved d' st) = Inl e
    | Inr (x, st') \<Rightarrow> thenB (getB g) f (moved d' st) = Inr (x, moved d' st') \<and> reads d st'"
    by (simp add: thenB_def getB_def split: sum.splits prod.splits)
qed

lemma steady_getB: "(\<And>st. g (moved d' st) = g st) \<Longrightarrow> steady p d d' (getB g)"
  by (simp add: steady_def getB_def)

lemma steady_modifyB:
  "(\<And>st. h (moved d' st) = moved d' (h st)) \<Longrightarrow> (\<And>st. reads d st \<Longrightarrow> reads d (h st)) \<Longrightarrow> steady p d d' (modifyB h)"
  by (simp add: steady_def modifyB_def)

lemma steady_cases [steady_rules]:
  "(c \<Longrightarrow> steady p d d' m) \<Longrightarrow> (\<not> c \<Longrightarrow> steady p d d' n) \<Longrightarrow> steady p d d' (if c then m else n)"
  "steady p d d' n \<Longrightarrow> (\<And>y. steady p d d' (h y)) \<Longrightarrow> steady p d d' (case x of None \<Rightarrow> n | Some y \<Rightarrow> h y)"
  "(\<And>y z. steady p d d' (k y z)) \<Longrightarrow> steady p d d' (case w of (y, z) \<Rightarrow> k y z)"
  "steady p d d' a \<Longrightarrow> (\<And>b bs. steady p d d' (l b bs)) \<Longrightarrow> steady p d d' (case v of [] \<Rightarrow> a | b # bs \<Rightarrow> l b bs)"
  by (auto split: option.split prod.split list.split)

lemma steady_whenB [steady_rules]: "steady p d d' m \<Longrightarrow> steady p d d' (whenB c m)"
  by (simp add: whenB_def steady_basic)

lemma steady_forEachB [steady_rules]: "(\<And>x. steady p d d' (f x)) \<Longrightarrow> steady p d d' (forEachB f xs)"
  by (induction xs) (auto intro: steady_rules)

lemma steady_tables [steady_rules]:
  "steady p d d' (tableOf tid)" "steady p d d' (setTable t)" "steady p d d' (registerTable t)"
  "steady p d d' (pushDiagnostic x)"
  by (auto simp: steady_def tableOf_def setTable_def registerTable_def pushDiagnostic_def modifyB_def reads_def moved_def
      split: option.splits)

lemma steady_stored [steady_rules]:
  "steady p d d' (getB (\<lambda>st. mapGet (bs_tables st) i))" "steady p d d' (getB (\<lambda>st. mapGet (bs_classifierTables st) i))"
  "steady p d d' (getB (\<lambda>st. mapGet (bs_tables st) i \<noteq> None))"
  "steady p d d' (getB (\<lambda>st. mapGet (bs_tableNameOwners st) n \<noteq> None))"
  "steady p d d' (getB (\<lambda>st. mapGet (bs_javaEntityNameOwners st) n \<noteq> None))"
  "steady p d d' (getB (\<lambda>st. otherOwner (bs_tableNameOwners st) n i))"
  "steady p d d' (getB (\<lambda>st. otherOwner (bs_javaEntityNameOwners st) n i))" "steady p d d' (getB (sourceIdsOf i))"
  by (simp_all add: steady_getB sourceIdsOf_def)

lemma steady_onTable [steady_rules]: "(\<And>t. steady p d d' (f t)) \<Longrightarrow> steady p d d' (onTable tid f)"
  unfolding onTable_def by (intro steady_rules)

lemma steady_diagnostics [steady_rules]:
  "steady p d d' (info q code message path ids)" "steady p d d' (warning q code message path ids)"
  "steady p d d' (warningAt q code message source ids)"
  unfolding info_def warning_def warningAt_def by (rule steady_rules)+

lemma steady_addTable [steady_rules]: "steady p d d' (addTable q t)"
  unfolding addTable_def resolveTableName_def resolveEntityName_def Let_def by (intro steady_rules)

lemma steady_addColumn [steady_rules]: "steady p d d' (addColumn q c t)"
  unfolding addColumn_def resolveColumnId_def resolveColumnName_def resolvePropertyName_def Let_def
  by (intro steady_rules)

lemma steady_keys [steady_rules]:
  "steady p d d' (addForeignKey q k t)" "steady p d d' (addUniqueConstraint q u t)"
  "steady p d d' (tableForClassifier q i ids path)" "steady p d d' (requireSinglePrimaryKey q tid path ids)"
  unfolding addForeignKey_def addUniqueConstraint_def tableForClassifier_def requireSinglePrimaryKey_def
    primaryKeyColumn_def
  by (intro steady_rules)+

lemma steady_multiplicities [steady_rules]:
  "steady p d d' (parseMultiplicity s)" "steady p d d' (isMany s)" "steady p d d' (lowerBound s)"
  unfolding isMany_def lowerBound_def parseMultiplicity_def bigInt_def by (intro steady_rules)+

lemma steady_columns [steady_rules]:
  "steady p d d' (scalarType q t path ids)" "steady p d d' (createSyntheticIdColumn q c tid)"
  "steady p d d' (createAttributeColumn q c a tid primaryKey)" "steady p d d' (identifierColumn q c tid)"
  unfolding scalarType_def createSyntheticIdColumn_def createAttributeColumn_def identifierColumn_def Let_def
  by (intro steady_rules)+


section \<open>Reading the diagram\<close>

lemma same_classD:
  assumes "same_class p c c'"
  shows "cl_id c' = cl_id c" "cl_name c' = cl_name c" "cl_kind c' = cl_kind c" "is_class c' = is_class c"
    "cl_operations c' = cl_operations c" "namedIdAttribute p c' = namedIdAttribute p c"
    "sortedAttributes p (cl_attributes c') = sortedAttributes p (cl_attributes c)"
  using assms by (auto simp: same_class_def is_class_def)

lemma lookup_same:
  assumes "same_content p d d'" "reads d st" "\<And>c c'. same_class p c c' \<Longrightarrow> f (Some c') = f (Some c)"
  shows "f (mapGet (bs_classifiers (moved d' st)) i) = f (mapGet (bs_classifiers st) i)"
proof -
  have "rel_option (same_class p) (mapGet (bs_classifiers st) i) (mapGet (bs_classifiers (moved d' st)) i)"
    using same_lookup [OF assms(1)] assms(2) by (simp add: reads_def)
  then show ?thesis by cases (simp_all add: assms(3))
qed

lemma steady_lookup:
  assumes "\<And>c c'. same_class p c c' \<Longrightarrow> f (Some c') = f (Some c)" "\<And>x. steady p d d' (f x)"
  shows "steady p d d' (thenB (getB (\<lambda>st. mapGet (bs_classifiers st) i)) f)"
proof (rule steady_read)
  fix st
  assume "same_content p d d'" "reads d st"
  then show "f (mapGet (bs_classifiers (moved d' st)) i) = f (mapGet (bs_classifiers st) i)"
    by (rule lookup_same) (rule assms(1))
qed (rule assms(2))

lemma steady_lookups:
  assumes "\<And>c c' x. same_class p c c' \<Longrightarrow> f (Some c', x) = f (Some c, x)"
    "\<And>c c' x. same_class p c c' \<Longrightarrow> f (x, Some c') = f (x, Some c)" "\<And>x. steady p d d' (f x)"
  shows "steady p d d' (thenB (getB (\<lambda>st. (mapGet (bs_classifiers st) i, mapGet (bs_classifiers st) j))) f)"
proof (rule steady_read)
  fix st
  assume *: "same_content p d d'" "reads d st"
  show "f (mapGet (bs_classifiers (moved d' st)) i, mapGet (bs_classifiers (moved d' st)) j) =
      f (mapGet (bs_classifiers st) i, mapGet (bs_classifiers st) j)"
    using lookup_same [OF *, of "\<lambda>x. f (x, mapGet (bs_classifiers (moved d' st)) j)" i]
      lookup_same [OF *, of "\<lambda>x. f (mapGet (bs_classifiers st) i, x)" j] assms(1,2) by simp
qed (rule assms(3))

lemma forEachB_same: "list_all2 R xs ys \<Longrightarrow> (\<And>x y. R x y \<Longrightarrow> f y = f x) \<Longrightarrow> forEachB f ys = forEachB f xs"
  by (induction rule: list_all2_induct) auto

lemma steady_classifiers:
  assumes "\<And>c c'. same_class p c c' \<Longrightarrow> f c' = f c" "\<And>c. steady p d d' (f c)"
  shows "steady p d d' (thenB (getB (\<lambda>st. dg_elements (cm_diagram (bs_canonical st))))
    (\<lambda>els. forEachB f (sortedClassifiers p els)))"
proof (rule steady_read)
  fix st
  assume *: "same_content p d d'" "reads d st"
  then show "forEachB f (sortedClassifiers p (dg_elements (cm_diagram (bs_canonical (moved d' st))))) =
      forEachB f (sortedClassifiers p (dg_elements (cm_diagram (bs_canonical st))))"
    using forEachB_same [OF same_sortedClassifiers [OF *(1)] assms(1)] by (simp add: reads_def)
qed (intro steady_rules assms(2))

lemma steady_relationships:
  assumes "\<And>r. steady p d d' (f r)"
  shows "steady p d d' (thenB (getB (\<lambda>st. dg_relationships (cm_diagram (bs_canonical st))))
    (\<lambda>rs. forEachB f (sortedRelationships p rs)))"
  by (rule steady_read) (auto simp: reads_def same_sortedRelationships intro: steady_rules assms)

section \<open>Entity tables\<close>

lemma same_names:
  assumes "same_class p c c'"
  shows "createAttributeColumn q c' a tid primaryKey = createAttributeColumn q c a tid primaryKey"
    "createSyntheticIdColumn q c' tid = createSyntheticIdColumn q c tid"
    "entityTable q c' isAbstract column = entityTable q c isAbstract column"
  by (simp_all add: createAttributeColumn_def createSyntheticIdColumn_def entityTable_def same_classD [OF assms])

lemma same_identifierColumn:
  assumes "same_class p c c'"
  shows "identifierColumn p c' tid = identifierColumn p c tid"
  by (cases "namedIdAttribute p c")
    (simp_all add: identifierColumn_def same_names [OF assms] same_classD [OF assms])

lemma same_buildEntityTable:
  assumes "same_class p c c'"
  shows "buildEntityTable p ids c' = buildEntityTable p ids c"
  by (cases "cl_kind c") (simp_all add: buildEntityTable_def same_classD [OF assms] same_names [OF assms]
    same_identifierColumn [OF assms])

lemma steady_buildEntityTable [steady_rules]: "steady p d d' (buildEntityTable q ids c)"
  unfolding buildEntityTable_def
  by (cases "cl_kind c"; simp only: classifier_kind.case) (intro steady_rules)+

lemma steady_buildEntityTables: "steady p d d' (buildEntityTables p)"
  unfolding buildEntityTables_def
proof (rule steady_read)
  fix st
  assume *: "same_content p d d'" "reads d st"
  have "set (dg_relationships (cm_diagram d')) = set (dg_relationships (cm_diagram d))"
    using *(1) unfolding same_content_def reordered_def by (metis set_mset_mset)
  then have ids: "association_class_ids_of (dg_relationships (cm_diagram d')) =
      association_class_ids_of (dg_relationships (cm_diagram d))"
    by (simp add: association_class_ids_of_def List.map_filter_def)
  show "forEachB (buildEntityTable p (association_class_ids_of (dg_relationships (cm_diagram (bs_canonical (moved d' st))))))
        (sortedClassifiers p (dg_elements (cm_diagram (bs_canonical (moved d' st))))) =
      forEachB (buildEntityTable p (association_class_ids_of (dg_relationships (cm_diagram (bs_canonical st)))))
        (sortedClassifiers p (dg_elements (cm_diagram (bs_canonical st))))"
    using *(2) forEachB_same [OF same_sortedClassifiers [OF *(1)] same_buildEntityTable] by (simp add: reads_def ids)
qed (intro steady_rules)

section \<open>Attributes\<close>

lemma steady_createRelationshipColumn [steady_rules]:
  "steady p d d' (createRelationshipColumn q tid u e f r primaryKey rule name)"
  unfolding createRelationshipColumn_def Let_def
  by (intro steady_lookup steady_rules) (simp add: same_classD(2))

lemma steady_references [steady_rules]:
  "steady p d d' (addForeignKeyForRelationship q tid c u r rule onDelete)"
  "steady p d d' (addReferenceColumn q tid u name umlType nullable uniq ids paths rule onDelete r')"
  unfolding addForeignKeyForRelationship_def addReferenceColumn_def Let_def by (intro steady_rules)+

lemma steady_createCollectionTable [steady_rules]: "steady p d d' (createCollectionTable q tid c a)"
  unfolding createCollectionTable_def collectionValueColumn_def addCollectionValueKey_def Let_def
    case_prod_unfold
  by (intro steady_rules)

lemma same_createCollectionTable:
  assumes "same_class p c c'"
  shows "createCollectionTable q tid c' a = createCollectionTable q tid c a"
proof -
  note same = same_classD [OF assms]
  have "collectionValueColumn q c' = collectionValueColumn q c" "collectionOwnerColumn c' = collectionOwnerColumn c"
      "\<And>t. collectionTable q t c' = collectionTable q t c" "addCollectionValueKey q c' = addCollectionValueKey q c"
    by (intro ext; simp only: collectionValueColumn_def collectionOwnerColumn_def collectionTable_def
        addCollectionValueKey_def same)+
  then show ?thesis unfolding createCollectionTable_def by (simp only: same)
qed

lemma same_addAttributeToTable:
  assumes "same_class p c c'"
  shows "addAttributeToTable q tid c' a = addAttributeToTable q tid c a"
  unfolding addAttributeToTable_def same_createCollectionTable [OF assms] same_names [OF assms]
    same_classD(1,2) [OF assms] ..

lemma steady_addAttributeToTable [steady_rules]: "steady p d d' (addAttributeToTable q tid c a)"
  unfolding addAttributeToTable_def Let_def
  by (intro steady_lookup steady_rules) (simp add: same_classD)

lemma steady_buildClassifierAttributes: "steady p d d' (buildClassifierAttributes p)"
  unfolding buildClassifierAttributes_def
proof (rule steady_classifiers)
  fix c c'
  assume "same_class p c c'"
  note same = same_classD [OF this] same_addAttributeToTable [OF this]
  show "(if \<not> is_class c' then ret ()
      else thenB (getB (\<lambda>st. mapGet (bs_classifierTables st) (cl_id c'))) (\<lambda>found. case found of None \<Rightarrow> ret ()
        | Some tid \<Rightarrow> thenB (tableOf tid) (\<lambda>t. if tb_kind t \<noteq> EntityTable then ret ()
            else forEachB (addAttributeToTable p tid c') (sortedAttributes p (cl_attributes c'))))) =
    (if \<not> is_class c then ret ()
      else thenB (getB (\<lambda>st. mapGet (bs_classifierTables st) (cl_id c))) (\<lambda>found. case found of None \<Rightarrow> ret ()
        | Some tid \<Rightarrow> thenB (tableOf tid) (\<lambda>t. if tb_kind t \<noteq> EntityTable then ret ()
            else forEachB (addAttributeToTable p tid c) (sortedAttributes p (cl_attributes c)))))"
    unfolding same(1,4,7) same(8) [abs_def] ..
qed (intro steady_rules)


section \<open>Association classes and inheritance\<close>

lemma steady_association_classes [steady_rules]:
  "steady p d d' (associationClassIdColumn q r ac)" "steady p d d' (addEndpointConstraint q r ac i c e u v)"
  "steady p d d' (addOptionalColumn q column t)"
  unfolding associationClassIdColumn_def addEndpointConstraint_def addOptionalColumn_def optionalB_def Let_def
  by (intro steady_rules)+

lemma steady_buildAssociationClassTable: "steady p d d' (buildAssociationClassTable q r ac)"
  unfolding buildAssociationClassTable_def Let_def case_prod_unfold by (intro steady_rules)

lemma same_associationClassIdColumn:
  assumes "same_class p c c'"
  shows "associationClassIdColumn p r c' = associationClassIdColumn p r c"
  by (cases "namedIdAttribute p c")
    (simp_all add: associationClassIdColumn_def optionalB_def Let_def same_names [OF assms] same_classD [OF assms])

lemma same_buildAssociationClassTable:
  assumes "same_class p c c'"
  shows "buildAssociationClassTable p r c' = buildAssociationClassTable p r c"
proof -
  note same = same_classD [OF assms]
  have "associationClassTable p r c' = associationClassTable p r c" "associationClassKey p c' = associationClassKey p c"
      "addEndpointConstraint p r c' = addEndpointConstraint p r c"
      "\<And>stored. addAttributeToTable p stored c' = addAttributeToTable p stored c"
    by (intro ext; simp add: associationClassTable_def associationClassKey_def addEndpointConstraint_def same
        same_addAttributeToTable [OF assms])+
  then show ?thesis
    unfolding buildAssociationClassTable_def same_associationClassIdColumn [OF assms] by (simp only: same)
qed

lemma steady_buildAssociationClassTables: "steady p d d' (buildAssociationClassTables p)"
  unfolding buildAssociationClassTables_def Let_def
  by (intro steady_relationships steady_lookup steady_rules steady_buildAssociationClassTable)
    (simp add: same_classD same_buildAssociationClassTable)

lemma same_joinedColumn:
  "same_class p c c' \<Longrightarrow> joinedColumn q r c' t = joinedColumn q r c t"
  "same_class p c c' \<Longrightarrow> joinedColumn q r s c' = joinedColumn q r s c"
  by (intro ext; simp add: joinedColumn_def same_classD)+

lemma steady_buildGeneralization [steady_rules]: "steady p d d' (buildGeneralization q r)"
  unfolding buildGeneralization_def Let_def
  apply (rule steady_lookups)
  subgoal premises same for c c' x
    by (simp only: prod.case option.sel option.distinct same_classD [OF same] same_joinedColumn [OF same])
  subgoal premises same for c c' x
    by (simp only: prod.case option.sel option.distinct same_classD [OF same] same_joinedColumn [OF same])
  subgoal unfolding case_prod_unfold by (intro steady_rules)
  done

section \<open>Associations\<close>

text \<open>A computation that reads nothing: it has a value or meets an unreadable number.\<close>

definition pureB :: "'a build \<Rightarrow> 'a option \<Rightarrow> bool" where
  "pureB m v \<longleftrightarrow> m = (\<lambda>st. case v of None \<Rightarrow> Inl MultiplicitySyntaxError | Some x \<Rightarrow> Inr (x, st))"

lemma pure_ret: "\<exists>v. pureB (ret x) v"
  by (intro exI [of _ "Some x"]) (simp add: pureB_def ret_def fun_eq_iff)

lemma pure_thenB: "\<exists>v. pureB m v \<Longrightarrow> (\<And>x. \<exists>v. pureB (f x) v) \<Longrightarrow> \<exists>v. pureB (thenB m f) v"
proof (elim exE)
  fix v
  assume m: "pureB m v" and f: "\<And>x. \<exists>v. pureB (f x) v"
  show "\<exists>v. pureB (thenB m f) v"
  proof (cases v)
    case None
    with m show ?thesis by (intro exI [of _ None]) (simp add: pureB_def thenB_def fun_eq_iff)
  next
    case (Some x)
    from f obtain w where "pureB (f x) w" by blast
    with m Some show ?thesis by (intro exI [of _ w]) (simp add: pureB_def thenB_def fun_eq_iff)
  qed
qed

lemma pure_bigInt: "\<exists>v. pureB (bigInt s) v"
  by (intro exI [of _ "js_BigInt s"]) (auto simp: pureB_def bigInt_def ret_def throwB_def fun_eq_iff split: option.split)

lemma pure_isMany: "\<exists>v. pureB (isMany s) v"
  unfolding isMany_def parseMultiplicity_def
  by (auto intro!: pure_thenB pure_ret pure_bigInt split: list.split prod.split)

lemma pure_isJoinRelationship: "\<exists>v. pureB (isJoinRelationship r) v"
  unfolding isJoinRelationship_def by (auto intro!: pure_thenB pure_ret pure_isMany)

text \<open>Filtering by such a computation keeps the elements, in the order of the list.\<close>

lemma filterB_pure:
  assumes "\<And>x. pureB (f x) (v x)"
  shows "filterB f xs = (\<lambda>st. if \<exists>x \<in> set xs. v x = None then Inl MultiplicitySyntaxError
    else Inr (filter (\<lambda>x. v x = Some True) xs, st))"
proof (induction xs)
  case (Cons x xs)
  then show ?case using assms [of x]
    by (cases "v x") (auto simp: fun_eq_iff thenB_def ret_def pureB_def)
qed (simp add: ret_def fun_eq_iff)

lemma filterB_reordered:
  assumes "\<And>x. \<exists>v. pureB (f x) v" "mset ys = mset xs" "\<And>us ws. mset us = mset ws \<Longrightarrow> g us = g ws"
  shows "thenB (filterB f ys) g = thenB (filterB f xs) g"
proof -
  obtain v where v: "\<And>x. pureB (f x) (v x)" using assms(1) by metis
  have "set ys = set xs" using assms(2) by (metis set_mset_mset)
  moreover have "g (filter (\<lambda>x. v x = Some True) ys) = g (filter (\<lambda>x. v x = Some True) xs)"
    by (intro assms(3)) (simp only: mset_filter assms(2))
  ultimately show ?thesis unfolding filterB_pure [OF v] thenB_def
    by (intro ext, cases "\<exists>x \<in> set xs. v x = None") auto
qed

lemma steady_filterB [steady_rules]: "(\<And>x. steady p d d' (f x)) \<Longrightarrow> steady p d d' (filterB f xs)"
  by (induction xs) (auto intro: steady_rules)

lemma steady_isJoinRelationship [steady_rules]: "steady p d d' (isJoinRelationship r)"
  unfolding isJoinRelationship_def by (intro steady_rules)

lemma steady_joinTablePhysicalName [steady_rules]: "steady p d d' (joinTablePhysicalName q r i j)"
proof -
  let ?parallel = "\<lambda>u. thenB (isJoinRelationship u) (\<lambda>join. ret (join \<and> rl_kind u = rl_kind r
              \<and> relationshipTablePairKey u = relationshipTablePairKey r))"
  have counts: "length us = length ws \<and> length (filter Q us) = length (filter Q ws)"
    if "mset us = mset ws" for us ws :: "uml_relationship list" and Q
  proof
    show "length us = length ws" using that by (rule mset_eq_length)
    have "mset (filter Q us) = mset (filter Q ws)" unfolding mset_filter that ..
    then show "length (filter Q us) = length (filter Q ws)" by (rule mset_eq_length)
  qed
  have read: "steady p d d' (thenB (getB (\<lambda>st. dg_relationships (cm_diagram (bs_canonical st))))
      (\<lambda>rs. thenB (filterB ?parallel rs) g))"
    if g: "\<And>us ws. length us = length ws \<Longrightarrow> (\<And>Q. length (filter Q us) = length (filter Q ws)) \<Longrightarrow> g us = g ws"
      "\<And>us. steady p d d' (g us)" for g :: "uml_relationship list \<Rightarrow> jstring build"
  proof (rule steady_read)
    fix st
    assume *: "same_content p d d'" "reads d st"
    then have "mset (dg_relationships (cm_diagram (bs_canonical (moved d' st)))) =
        mset (dg_relationships (cm_diagram (bs_canonical st)))"
      by (simp add: same_content_def reordered_def reads_def)
    moreover have "g us = g ws" if "mset us = mset ws" for us ws
      using counts [OF that] by (intro g(1)) blast+
    ultimately show "thenB (filterB ?parallel (dg_relationships (cm_diagram (bs_canonical (moved d' st))))) g =
        thenB (filterB ?parallel (dg_relationships (cm_diagram (bs_canonical st)))) g"
      by (intro filterB_reordered pure_thenB pure_isJoinRelationship pure_ret) assumption+
  qed (intro steady_rules g(2))
  show ?thesis
    unfolding joinTablePhysicalName_def Let_def
    by (intro read steady_rules) simp
qed

lemma steady_reportMultiplicityPolicy [steady_rules]: "steady p d d' (reportMultiplicityPolicy q r)"
  unfolding reportMultiplicityPolicy_def Let_def by (intro steady_rules)

lemma steady_associations [steady_rules]:
  "steady p d d' (addRelationshipColumn q r i j e f uniq rule)" "steady p d d' (buildComposition q r i j)"
  "steady p d d' (createJoinTable q r i j)"
  unfolding addRelationshipColumn_def buildComposition_def createJoinTable_def Let_def
    case_prod_unfold
  by (intro steady_rules)+

lemma steady_buildAssociation [steady_rules]: "steady p d d' (buildAssociation q r)"
  unfolding buildAssociation_def Let_def
  by (rule steady_lookups) (auto simp: same_classD intro!: steady_rules)

lemma steady_buildRelationship [steady_rules]: "steady p d d' (buildRelationship q r)"
  unfolding buildRelationship_def Let_def
  by (cases "rl_kind r"; simp only: relationship_kind.case) (intro steady_rules)+

lemma steady_buildRelationships: "steady p d d' (buildRelationships p)"
  unfolding buildRelationships_def
  by (rule steady_read) (auto simp: reads_def same_sortedRelationships same_sortedGeneralizations intro!: steady_rules)

section \<open>The build\<close>

lemma steady_buildAll: "steady p d d' (buildAll p)"
  unfolding buildAll_def
  by (intro steady_thenB steady_buildEntityTables steady_buildAssociationClassTables steady_buildClassifierAttributes
    steady_buildRelationships)

text \<open>C11. The model generated from a document does not depend on the order in which the document lists its
  classifiers, the attributes of a class and its relationships: for unique identifiers, at most one
  attribute named \<open>id\<close> in a class and no cycle of generalizations, two reordered documents have the same
  model, or fail with the same diagnostics.\<close>

theorem reordered_documents_have_one_model:
  assumes "well_identified p d" "reordered d d'"
  shows "generateFrom p contract d' = generateFrom p contract d"
proof -
  have *: "same_content p d d'" "reads d (initial_state d)"
    using assms by (simp_all add: same_content_def reads_def initial_state_def)
  have start: "initial_state d' = moved d' (initial_state d)" by (simp add: initial_state_def moved_def)
  have model: "toModel p (moved d' st) = toModel p st" if "reads d st" for st
    using that assms(2) by (simp add: toModel_def reads_def reordered_def)
  from steadyD [OF steady_buildAll *] show ?thesis
    unfolding generateFrom_def start
    by (auto simp: model split: sum.split prod.split)
qed

section \<open>An example\<close>

lemma compareUnits_total: "total_order_on compareUnits A"
proof -
  have "compareUnits x y \<le> 0 \<or> compareUnits y x \<le> 0" for x y
    by (induction x y rule: compareUnits.induct) auto
  moreover have "compareUnits x y \<le> 0 \<Longrightarrow> compareUnits y x \<le> 0 \<Longrightarrow> x = y" for x y
    by (induction x y rule: compareUnits.induct) (auto split: if_splits)
  moreover have "compareUnits x y \<le> 0 \<Longrightarrow> compareUnits y z \<le> 0 \<Longrightarrow> compareUnits x z \<le> 0" for x y z
  proof (induction x y arbitrary: z rule: compareUnits.induct)
    case (4 c s d t)
    then show ?case by (cases z) (auto split: if_splits)
  next
    case (1)
    then show ?case by simp
  next
    case (2 d t)
    then show ?case by (cases z) auto
  next
    case (3 c s)
    then show ?case by simp
  qed
  ultimately show ?thesis unfolding total_order_on_def by blast
qed

definition catalog :: canonical_model where
  "catalog = document_of [class_of ''aa'' ''Customer'' [attribute_of ''a1'' ''name'' (ref_to ''String'' None),
       attribute_of ''a2'' ''id'' (ref_to ''Long'' None)], class_of ''bb'' ''Invoice'' [], class_of ''cc'' ''Vip'' []]
     [association_of ''r1'' ''bb'' ''aa'' None, (association_of ''r2'' ''cc'' ''aa'' None)\<lparr>rl_kind := Generalization\<rparr>] []"

definition catalog_shuffled :: canonical_model where
  "catalog_shuffled = document_of [class_of ''cc'' ''Vip'' [], class_of ''bb'' ''Invoice'' [],
       class_of ''aa'' ''Customer'' [attribute_of ''a2'' ''id'' (ref_to ''Long'' None),
       attribute_of ''a1'' ''name'' (ref_to ''String'' None)]]
     [(association_of ''r2'' ''cc'' ''aa'' None)\<lparr>rl_kind := Generalization\<rparr>, association_of ''r1'' ''bb'' ''aa'' None] []"

lemma catalog_reordered: "reordered catalog catalog_shuffled"
proof -
  have "mset (rev (dg_elements (cm_diagram catalog))) = mset (dg_elements (cm_diagram catalog))"
    by simp
  moreover have "list_all2 reordered_class (rev (dg_elements (cm_diagram catalog))) (dg_elements (cm_diagram catalog_shuffled))"
    unfolding catalog_def catalog_shuffled_def reordered_class_def
    by (simp add: document_of_def class_of_def add_mset_commute)
  moreover have "mset (dg_relationships (cm_diagram catalog_shuffled)) = mset (dg_relationships (cm_diagram catalog))"
    "cm_project catalog_shuffled = cm_project catalog"
    unfolding catalog_def catalog_shuffled_def by (simp_all add: document_of_def)
  ultimately show ?thesis unfolding reordered_def by blast
qed

lemma edges_list:
  "edges [] k = {}"
  "edges (r # rs) k = (if rl_kind r = k then insert (source_id r, target_id r) (edges rs k) else edges rs k)"
  by (auto simp: edges_def)

lemma catalog_identified: "well_identified ascii_platform catalog"
proof -
  have "edges (dg_relationships (cm_diagram catalog)) Generalization = {(js ''cc'', js ''aa'')}"
    by (simp add: edges_list catalog_def document_of_def association_of_def end_of_def)
  moreover have "acyclic {(js ''cc'', js ''aa'')}"
    by (simp add: acyclic_insert wf_acyclic)
  ultimately show ?thesis
    unfolding well_identified_def
    by (simp add: compareUnits_total)
      (simp add: catalog_def document_of_def class_of_def association_of_def attribute_of_def isIdName_def js_def js_trim_def
        is_js_space_def ascii_lower_def)
qed

lemma reordered_documents_have_one_model_witness:
  "generateFrom ascii_platform (\<lambda>_. []) catalog_shuffled = generateFrom ascii_platform (\<lambda>_. []) catalog
   \<and> cm_diagram catalog_shuffled \<noteq> cm_diagram catalog"
  using reordered_documents_have_one_model [OF catalog_identified catalog_reordered, of "\<lambda>_. []"]
  by (simp add: catalog_def catalog_shuffled_def document_of_def class_of_def js_def)

section \<open>Parents first\<close>

text \<open>Without a cycle of generalizations, the pass that joins subclasses treats the generalizations of a
  parent before those that name it as the parent: a generalization never comes before one whose child is its
  own parent, so the key of a parent has its final type when a child takes it over.\<close>

theorem parents_are_joined_first:
  assumes "acyclic (edges rs Generalization)"
    and "sortedGeneralizations p rs = us @ earlier # vs @ later # ws"
  shows "source_id later \<noteq> target_id earlier"
proof
  let ?adj = "adjacency (filter (\<lambda>r. rl_kind r = Generalization) rs) Generalization"
  let ?d = "\<lambda>r. depthOf ?adj (target_id r)"
  assume eq: "source_id later = target_id earlier"
  have "later \<in> set (sortedGeneralizations p rs)" by (simp add: assms(2))
  then have "(source_id later, target_id later) \<in> graph ?adj"
    unfolding graph_adjacency by (auto simp: edges_def sortedGeneralizations_def Let_def)
  moreover have "acyclic (graph ?adj)" using assms(1) by (simp only: graph_adjacency edges_filter)
  ultimately have "?d later < ?d earlier" using depthOf_less eq by metis
  moreover have "?d earlier \<le> ?d later"
    using sortedGeneralizations_depth [of rs p] unfolding assms(2) by (simp add: sorted_append)
  ultimately show False by simp
qed

definition gold_is_vip :: uml_relationship where
  "gold_is_vip = (association_of ''r1'' ''dd'' ''cc'' None)\<lparr>rl_kind := Generalization\<rparr>"

definition vip_is_customer :: uml_relationship where
  "vip_is_customer = (association_of ''r2'' ''cc'' ''aa'' None)\<lparr>rl_kind := Generalization\<rparr>"

lemma parents_are_joined_first_witness:
  "sortedGeneralizations ascii_platform [gold_is_vip, vip_is_customer] = [] @ vip_is_customer # [] @ gold_is_vip # []
   \<and> source_id gold_is_vip \<noteq> target_id vip_is_customer"
proof -
  have "acyclic (edges [gold_is_vip, vip_is_customer] Generalization)"
    by (simp add: edges_list gold_is_vip_def vip_is_customer_def association_of_def end_of_def acyclic_insert wf_acyclic
        js_def rtrancl_insert)
  moreover have sorted: "sortedGeneralizations ascii_platform [gold_is_vip, vip_is_customer]
      = [] @ vip_is_customer # [] @ gold_is_vip # []"
    by (simp add: gold_is_vip_def vip_is_customer_def association_of_def end_of_def js_def sortedGeneralizations_def
        toSorted_def compareGeneralizations_def depthOf_def depth.simps depths.simps adjacency_def addEdge_def targetsOf_def Let_def map_simps)
  ultimately show ?thesis using parents_are_joined_first [OF _ sorted] by simp
qed

end
