(* ===== verification/Export_Resources.thy ===== *)
theory Export_Resources
  imports Relational_Contract
begin

text \<open>
  The resources of the exported API, from
  src/src/modules/generation/spring-boot-export/spring-boot-export.artifacts.ts: which columns identify
  an entity, which fields and references it has over its hierarchy, which resources it depends on, in which
  order they can be created, and which lie on a cycle.
\<close>

section \<open>Descriptors\<close>

datatype artifact_error = SpringBootExportArtifactError jstring jstring

record owned_column =
  oc_owner :: relational_table
  oc_column :: relational_column

record identifier_descriptor =
  id_columns :: "owned_column list"
  id_composite :: bool
  id_generated :: bool

record foreign_key_descriptor =
  fd_owner :: relational_table
  fd_foreignKey :: foreign_key
  fd_localColumns :: "owned_column list"
  fd_referencedTable :: relational_table
  fd_referencedColumns :: "owned_column list"

record resource_descriptor =
  rs_id :: jstring
  rs_table :: relational_table
  rs_route :: jstring
  rs_identifier :: identifier_descriptor
  rs_fields :: "owned_column list"
  rs_foreignKeys :: "foreign_key_descriptor list"
  rs_dependencies :: "jstring list"
  rs_variablePrefix :: jstring

type_synonym table_map = "(jstring, relational_table) jmap"
type_synonym 'a artifact = "artifact_error + 'a"

text \<open>\<open>xs.map\<close>, \<open>xs.filter\<close> and \<open>xs.flatMap\<close> with a function that may throw.\<close>

fun mapE :: "('a \<Rightarrow> 'e + 'b) \<Rightarrow> 'a list \<Rightarrow> 'e + 'b list" where
  "mapE f [] = Inr []"
| "mapE f (x # xs) = bindE (f x) (\<lambda>y. bindE (mapE f xs) (\<lambda>ys. Inr (y # ys)))"

fun filterE :: "('a \<Rightarrow> 'e + bool) \<Rightarrow> 'a list \<Rightarrow> 'e + 'a list" where
  "filterE f [] = Inr []"
| "filterE f (x # xs) = bindE (f x) (\<lambda>b. bindE (filterE f xs) (\<lambda>ys. Inr (if b then x # ys else ys)))"

definition flatMapE :: "('a \<Rightarrow> 'e + 'b list) \<Rightarrow> 'a list \<Rightarrow> 'e + 'b list" where
  "flatMapE f xs = bindE (mapE f xs) (\<lambda>yss. Inr (concat yss))"

section \<open>Comparisons\<close>

definition ownedColumnKey :: "owned_column \<Rightarrow> jstring" where
  "ownedColumnKey c = tb_id (oc_owner c) @ js '':'' @ co_id (oc_column c)"

definition sameColumn :: "owned_column \<Rightarrow> owned_column \<Rightarrow> bool" where
  "sameColumn c d \<longleftrightarrow> tb_id (oc_owner c) = tb_id (oc_owner d) \<and> co_id (oc_column c) = co_id (oc_column d)"

definition compareKeyColumns :: "relational_column \<Rightarrow> relational_column \<Rightarrow> int" where
  "compareKeyColumns l r = (if co_primaryKey l \<noteq> co_primaryKey r then (if co_primaryKey l then -1 else 1)
     else compareUnits (co_id l) (co_id r))"

definition sortedForeignKeys :: "foreign_key list \<Rightarrow> foreign_key list" where
  "sortedForeignKeys = toSorted (byKey compareUnits fk_id)"

section \<open>Hierarchies\<close>

text \<open>The identifier of the parent table that the loop goes on with.\<close>

definition parentOf :: "relational_table \<Rightarrow> jstring option" where
  "parentOf t = (if is_subclass t then parentIdOf t else None)"

text \<open>The loop of \<open>hierarchyTables\<close>: the tables from the root down to the given one. It ends since
  after the first round every table is one of the map, and none is seen twice.\<close>

function hierarchy :: "table_map \<Rightarrow> jstring set \<Rightarrow> relational_table \<Rightarrow> relational_table list artifact" where
  "hierarchy tables seen current =
     (if tb_id current \<in> seen
      then Inl (SpringBootExportArtifactError (js ''INHERITANCE_CYCLE'') (js ''Generated inheritance contains a cycle.''))
      else case parentOf current of None \<Rightarrow> Inr [current]
      | Some parentId \<Rightarrow>
          (case mapGet tables parentId of
             None \<Rightarrow> Inl (SpringBootExportArtifactError (js ''INHERITANCE_PARENT_MISSING'')
               (js ''Generated inheritance parent is missing.''))
           | Some parent \<Rightarrow>
               bindE (hierarchy tables (insert (tb_id current) seen) parent) (\<lambda>ts. Inr (ts @ [current]))))"
  by pat_completeness auto

lemma unseen_tables_le: "card (tb_id ` set (mapValues tables) - insert i seen) \<le> card (tb_id ` set (mapValues tables) - seen)"
  by (rule card_mono) auto

lemma unseen_tables_stored:
  assumes "t \<in> set (mapValues tables)" "tb_id t \<notin> seen"
  shows "card (tb_id ` set (mapValues tables) - insert (tb_id t) seen) < card (tb_id ` set (mapValues tables) - seen)"
proof -
  have "tb_id t \<in> tb_id ` set (mapValues tables) - seen" using assms by blast
  then show ?thesis by (intro psubset_card_mono) auto
qed

termination hierarchy
proof (relation "measures [\<lambda>(tables, seen, t). card (tb_id ` set (mapValues tables) - seen),
    \<lambda>(tables, seen, t). if t \<in> set (mapValues tables) then 0 else 1]")
  fix tables :: table_map and seen and current :: relational_table and parentId parent
  assume "tb_id current \<notin> seen" "mapGet tables parentId = Some parent"
  then show "((tables, insert (tb_id current) seen, parent), tables, seen, current) \<in>
      measures [\<lambda>(tables, seen, t). card (tb_id ` set (mapValues tables) - seen),
        \<lambda>(tables, seen, t). if t \<in> set (mapValues tables) then 0 else 1]"
    using unseen_tables_le [of tables "tb_id current" seen] unseen_tables_stored [of current tables seen]
      mapGet_in_values [of tables parentId parent]
    by (cases "current \<in> set (mapValues tables)") (simp_all add: le_eq_less_or_eq)
qed simp

declare hierarchy.simps [simp del]

definition hierarchyTables :: "table_map \<Rightarrow> relational_table \<Rightarrow> relational_table list artifact" where
  "hierarchyTables tables t = hierarchy tables {} t"

text \<open>\<open>hierarchyTables(table)[0]\<close>; the list has the table itself at least.\<close>

definition rootTable :: "table_map \<Rightarrow> relational_table \<Rightarrow> relational_table artifact" where
  "rootTable tables t = bindE (hierarchyTables tables t) (\<lambda>ts. Inr (hd ts))"

section \<open>Identifiers and fields\<close>

definition columnById :: "relational_table \<Rightarrow> jstring \<Rightarrow> relational_column artifact" where
  "columnById t i = (case find (\<lambda>c. co_id c = i) (tb_columns t) of Some c \<Rightarrow> Inr c
     | None \<Rightarrow> Inl (SpringBootExportArtifactError (js ''COLUMN_MISSING'')
         (js ''Column '' @ i @ js '' is missing from table '' @ tb_id t @ js ''.'')))"

definition ownedColumns :: "relational_table \<Rightarrow> jstring list \<Rightarrow> owned_column list artifact" where
  "ownedColumns t ids = mapE (\<lambda>i. bindE (columnById t i) (\<lambda>c. Inr \<lparr>oc_owner = t, oc_column = c\<rparr>)) ids"

definition identifierDescriptor :: "table_map \<Rightarrow> relational_table \<Rightarrow> identifier_descriptor artifact" where
  "identifierDescriptor tables t =
     bindE (rootTable tables t) (\<lambda>root.
     bindE (ownedColumns root (ky_columnIds (tb_primaryKey root))) (\<lambda>columns.
     if columns = [] then Inl (SpringBootExportArtifactError (js ''PRIMARY_KEY_MISSING'')
       (js ''Table '' @ tb_id t @ js '' has no primary key.''))
     else Inr \<lparr>id_columns = columns, id_composite = length columns > 1,
       id_generated = (length columns = 1 \<and> co_generated (oc_column (hd columns)))\<rparr>))"

definition entityDirectColumns :: "relational_table \<Rightarrow> relational_column list" where
  "entityDirectColumns t = toSorted compareKeyColumns
     (filter (\<lambda>c. \<not> (is_subclass t \<and> co_id c \<in> set (ky_columnIds (tb_primaryKey t)))) (tb_columns t))"

definition entityFields :: "table_map \<Rightarrow> relational_table \<Rightarrow> owned_column list artifact" where
  "entityFields tables t =
     bindE (identifierDescriptor tables t) (\<lambda>identifier.
     bindE (hierarchyTables tables t) (\<lambda>owners.
     Inr (concat (map (\<lambda>owner. filter (\<lambda>c. ownedColumnKey c \<notin> ownedColumnKey ` set (id_columns identifier))
       (map (\<lambda>c. \<lparr>oc_owner = owner, oc_column = c\<rparr>) (entityDirectColumns owner))) owners))))"

section \<open>References\<close>

definition isJoinedInheritanceForeignKey :: "relational_table \<Rightarrow> foreign_key \<Rightarrow> bool" where
  "isJoinedInheritanceForeignKey t k = (case tb_inheritance t of None \<Rightarrow> False
     | Some ih \<Rightarrow> ih_role ih = SubclassRole \<and> ih_parentTableId ih = Some (fk_referencedTableId k)
         \<and> fk_onDelete k = CASCADE \<and> fk_columnIds k = ky_columnIds (tb_primaryKey t)
         \<and> fk_referencedColumnIds k = (case ih_parentColumnIds ih of None \<Rightarrow> [] | Some is \<Rightarrow> is))"

definition foreignKeyDescriptor :: "table_map \<Rightarrow> relational_table \<Rightarrow> foreign_key \<Rightarrow> foreign_key_descriptor artifact" where
  "foreignKeyDescriptor tables owner k = (case mapGet tables (fk_referencedTableId k) of
     None \<Rightarrow> Inl (SpringBootExportArtifactError (js ''FOREIGN_KEY_TARGET_MISSING'')
       (js ''Foreign key '' @ fk_id k @ js '' references a missing table.''))
   | Some referenced \<Rightarrow>
       if length (fk_columnIds k) \<noteq> length (fk_referencedColumnIds k)
       then Inl (SpringBootExportArtifactError (js ''FOREIGN_KEY_COLUMNS_INVALID'')
         (js ''Foreign key '' @ fk_id k @ js '' has a mismatched column count.''))
       else bindE (ownedColumns owner (fk_columnIds k)) (\<lambda>locals.
         bindE (ownedColumns referenced (fk_referencedColumnIds k)) (\<lambda>columns.
         Inr \<lparr>fd_owner = owner, fd_foreignKey = k, fd_localColumns = locals, fd_referencedTable = referenced,
           fd_referencedColumns = columns\<rparr>)))"

definition foreignKeyDescriptors :: "table_map \<Rightarrow> relational_table \<Rightarrow> foreign_key_descriptor list artifact" where
  "foreignKeyDescriptors tables t =
     bindE (hierarchyTables tables t) (flatMapE (\<lambda>owner.
       mapE (foreignKeyDescriptor tables owner)
         (filter (\<lambda>k. \<not> isJoinedInheritanceForeignKey owner k) (sortedForeignKeys (tb_foreignKeys owner)))))"

text \<open>The resource that stands for a table: its own, or for an abstract root that of a concrete
  descendant.\<close>

definition targetResourceFor ::
  "foreign_key_descriptor \<Rightarrow> resource_descriptor list \<Rightarrow> table_map \<Rightarrow> resource_descriptor artifact" where
  "targetResourceFor k resources tables =
     (case find (\<lambda>r. tb_id (rs_table r) = tb_id (fd_referencedTable k)) resources of Some direct \<Rightarrow> Inr direct
      | None \<Rightarrow>
          bindE (filterE (\<lambda>r. bindE (rootTable tables (rs_table r)) (\<lambda>root.
            Inr (tb_id root = tb_id (fd_referencedTable k)))) resources) (\<lambda>descendants.
          case toSorted (byKey compareUnits rs_id) descendants of descendant # _ \<Rightarrow> Inr descendant
          | [] \<Rightarrow> Inl (SpringBootExportArtifactError (js ''FOREIGN_KEY_TARGET_UNEXPOSED'')
              (js ''Foreign key '' @ fk_id (fd_foreignKey k)
                @ js '' references an abstract table without an exposed descendant.''))))"

section \<open>Resources\<close>

text \<open>\<open>physicalName.replaceAll('_', '-')\<close>.\<close>

definition routeOf :: "jstring \<Rightarrow> jstring" where
  "routeOf = map (\<lambda>c. if c = underscore then 0x2D else c)"

definition variablePrefixOf :: "nat \<Rightarrow> relational_table \<Rightarrow> jstring" where
  "variablePrefixOf index t =
     js ''generated_'' @ js_padStart 3 (digit_unit 0) (show_nat (index + 1)) @ js ''_'' @ tb_physicalName t"

definition rawResource :: "table_map \<Rightarrow> nat \<times> relational_table \<Rightarrow> resource_descriptor artifact" where
  "rawResource tables = (\<lambda>(index, t).
     bindE (identifierDescriptor tables t) (\<lambda>identifier.
     bindE (entityFields tables t) (\<lambda>fields.
     bindE (foreignKeyDescriptors tables t) (\<lambda>foreignKeys.
     Inr \<lparr>rs_id = tb_id t, rs_table = t, rs_route = routeOf (tb_physicalName t), rs_identifier = identifier,
       rs_fields = fields, rs_foreignKeys = foreignKeys, rs_dependencies = [],
       rs_variablePrefix = variablePrefixOf index t\<rparr>))))"

definition exposedTables :: "relational_model \<Rightarrow> relational_table list" where
  "exposedTables m = filter (\<lambda>t. tb_isAbstract t \<noteq> Some True) (toSorted (byKey compareUnits tb_id) (rm_tables m))"

definition withDependencies ::
  "resource_descriptor list \<Rightarrow> table_map \<Rightarrow> resource_descriptor \<Rightarrow> resource_descriptor artifact" where
  "withDependencies raw tables r =
     bindE (mapE (\<lambda>k. bindE (targetResourceFor k raw tables) (\<lambda>target. Inr (rs_id target))) (rs_foreignKeys r)) (\<lambda>targets.
     Inr (r\<lparr>rs_dependencies := toSorted compareUnits (unique (filter (\<lambda>i. i \<noteq> rs_id r) targets))\<rparr>))"

definition buildResourceDescriptors :: "relational_model \<Rightarrow> table_map \<Rightarrow> resource_descriptor list artifact" where
  "buildResourceDescriptors m tables =
     bindE (mapE (rawResource tables) (enumerate 0 (exposedTables m))) (\<lambda>raw.
     mapE (withDependencies raw tables) raw)"

section \<open>Dependencies\<close>

definition resourceById :: "resource_descriptor list \<Rightarrow> (jstring, resource_descriptor) jmap" where
  "resourceById rs = foldl (\<lambda>m r. mapSet (rs_id r) r m) [] rs"

lemma resourceById_id: "mapGet (resourceById rs) i = Some r \<Longrightarrow> rs_id r = i \<and> r \<in> set rs"
proof -
  have "mapGet (foldl (\<lambda>m r. mapSet (rs_id r) r m) m rs) i = Some r \<Longrightarrow>
      mapGet m i = Some r \<or> rs_id r = i \<and> r \<in> set rs" for m
    by (induction rs arbitrary: m) (force simp: map_simps split: if_splits)+
  from this [of "[]"] show "mapGet (resourceById rs) i = Some r \<Longrightarrow> rs_id r = i \<and> r \<in> set rs"
    by (simp add: resourceById_def)
qed

text \<open>The resources that are ready, in the order of their identifiers; each is removed from the map and from
  what the others wait for.\<close>

definition readyResources ::
  "resource_descriptor list \<Rightarrow> (jstring, jstring set) jmap \<Rightarrow> resource_descriptor list" where
  "readyResources rs unresolved = toSorted (byKey compareUnits rs_id)
     (List.map_filter (\<lambda>(i, dependencies). if dependencies = {} then mapGet (resourceById rs) i else None) unresolved)"

definition resolved :: "(jstring, jstring set) jmap \<Rightarrow> resource_descriptor \<Rightarrow> (jstring, jstring set) jmap" where
  "resolved unresolved r = map (\<lambda>(i, dependencies). (i, dependencies - {rs_id r})) (mapDelete (rs_id r) unresolved)"

function dependencyLoop ::
  "resource_descriptor list \<Rightarrow> (jstring, jstring set) jmap \<Rightarrow> resource_descriptor list" where
  "dependencyLoop rs unresolved =
     (if unresolved = [] then []
      else let ready = readyResources rs unresolved in
        if ready = [] then toSorted (byKey compareUnits rs_id) (List.map_filter (mapGet (resourceById rs)) (mapKeys unresolved))
        else ready @ dependencyLoop rs (foldl resolved unresolved ready))"
  by pat_completeness auto

lemma resolved_keys: "mapKeys (resolved u r) = filter (\<lambda>i. i \<noteq> rs_id r) (mapKeys u)"
  by (induction u) (auto simp: resolved_def AList.delete_eq split: prod.split)

lemma foldl_resolved_keys: "mapKeys (foldl resolved u rs) = filter (\<lambda>i. i \<notin> rs_id ` set rs) (mapKeys u)"
  by (induction rs arbitrary: u) (simp_all add: resolved_keys conj_commute)

lemma set_readyResources:
  "r \<in> set (readyResources rs u) \<longleftrightarrow> (rs_id r, {}) \<in> set u \<and> mapGet (resourceById rs) (rs_id r) = Some r"
proof -
  have "rs_id r = i" if "mapGet (resourceById rs) i = Some r" for i using resourceById_id [OF that] by blast
  moreover have "r \<in> set (readyResources rs u) \<longleftrightarrow> (\<exists>i. (i, {}) \<in> set u \<and> mapGet (resourceById rs) i = Some r)"
    by (auto simp: readyResources_def List.map_filter_def image_iff split: if_splits)
  ultimately show ?thesis by metis
qed

termination dependencyLoop
proof (relation "measure (\<lambda>(rs, u). length u)")
  fix rs unresolved ready
  assume "unresolved \<noteq> []" "ready = readyResources rs unresolved" "ready \<noteq> []"
  then obtain r where r: "r \<in> set ready" "rs_id r \<in> set (mapKeys unresolved)"
    using set_readyResources [of _ rs unresolved] by (metis fst_conv image_eqI list.set_map list.set_sel(1))
  then have "length (mapKeys (foldl resolved unresolved ready)) < length (mapKeys unresolved)"
    unfolding foldl_resolved_keys by (intro length_filter_less) auto
  then show "((rs, foldl resolved unresolved ready), rs, unresolved) \<in> measure (\<lambda>(rs, u). length u)"
    by simp
qed simp

declare dependencyLoop.simps [simp del]

definition unresolvedOf :: "resource_descriptor list \<Rightarrow> (jstring, jstring set) jmap" where
  "unresolvedOf rs = foldl (\<lambda>m r. mapSet (rs_id r)
     (set (filter (\<lambda>i. mapGet (resourceById rs) i \<noteq> None) (rs_dependencies r))) m) [] rs"

definition dependencyOrder :: "resource_descriptor list \<Rightarrow> resource_descriptor list" where
  "dependencyOrder rs = dependencyLoop rs (unresolvedOf rs)"

section \<open>Cycles\<close>

text \<open>\<open>ids.some((id) => pathExists(id, targetId, resourceById, seen))\<close> with the set \<open>seen\<close> that the
  calls share.\<close>

definition dependenciesOf :: "(jstring, resource_descriptor) jmap \<Rightarrow> jstring \<Rightarrow> jstring list" where
  "dependenciesOf byId i = (case mapGet byId i of None \<Rightarrow> [] | Some r \<Rightarrow> rs_dependencies r)"

function somePath ::
  "(jstring, resource_descriptor) jmap \<Rightarrow> jstring \<Rightarrow> jstring set \<Rightarrow> jstring list \<Rightarrow> bool \<times> jstring set" where
  "somePath byId target seen [] = (False, seen)"
| "somePath byId target seen (i # ids) =
     (case (if i = target then (True, seen)
            else if i \<in> seen then (False, seen)
            else somePath byId target (insert i seen) (dependenciesOf byId i)) of
        (True, seen') \<Rightarrow> (True, seen')
      | (False, seen') \<Rightarrow> somePath byId target seen' ids)"
  by pat_completeness auto

lemma somePath_seen:
  "somePath_dom (byId, target, seen, ids) \<Longrightarrow> seen \<subseteq> snd (somePath byId target seen ids)"
proof (induction rule: somePath.pinduct)
  case (2 byId target seen i ids)
  obtain b s where bs: "(if i = target then (True, seen) else if i \<in> seen then (False, seen)
      else somePath byId target (insert i seen) (dependenciesOf byId i)) = (b, s)" by fastforce
  then have "seen \<subseteq> s" using "2.IH"(1) by (auto split: if_splits)
  moreover have "s \<subseteq> snd (somePath byId target s ids)" if "\<not> b" using "2.IH"(2) [OF bs [symmetric]] that by simp
  ultimately show ?case using "2.hyps" bs by (cases b) (auto simp: somePath.psimps)
qed (simp add: somePath.psimps)

text \<open>A deeper call adds a key of the map to \<open>seen\<close>, or has no dependencies to look at.\<close>

termination somePath
proof (relation "measures [\<lambda>(byId, target, seen, ids). card (set (mapKeys byId) - seen), \<lambda>(byId, target, seen, ids). length ids]")
  fix byId :: "(jstring, resource_descriptor) jmap" and target i :: jstring and seen ids
  assume "i \<noteq> target" "i \<notin> seen"
  show "((byId, target, insert i seen, dependenciesOf byId i), byId, target, seen, i # ids)
      \<in> measures [\<lambda>(byId, target, seen, ids). card (set (mapKeys byId) - seen),
        \<lambda>(byId, target, seen, ids). length ids]"
  proof (cases "mapGet byId i")
    case None
    moreover have "card (set (mapKeys byId) - insert i seen) \<le> card (set (mapKeys byId) - seen)"
      by (rule card_mono) auto
    ultimately show ?thesis by (auto simp: dependenciesOf_def le_eq_less_or_eq)
  next
    case (Some r)
    then have "i \<in> set (mapKeys byId) - seen" using \<open>i \<notin> seen\<close> by (force dest: map_of_SomeD)
    then have "card (set (mapKeys byId) - insert i seen) < card (set (mapKeys byId) - seen)"
      by (intro psubset_card_mono) auto
    then show ?thesis by simp
  qed
next
  fix byId :: "(jstring, resource_descriptor) jmap" and target i :: jstring and seen ids b seen'
  assume call: "(b, seen') = (if i = target then (True, seen) else if i \<in> seen then (False, seen)
      else somePath byId target (insert i seen) (dependenciesOf byId i))" "b = False"
    and dom: "i \<noteq> target \<Longrightarrow> i \<notin> seen \<Longrightarrow> somePath_dom (byId, target, insert i seen, dependenciesOf byId i)"
  then have "seen \<subseteq> seen'"
    using somePath_seen [of byId target "insert i seen" "dependenciesOf byId i"]
    by (auto split: if_splits) (metis snd_conv subsetD)
  then have "card (set (mapKeys byId) - seen') \<le> card (set (mapKeys byId) - seen)"
    by (intro card_mono) auto
  then show "((byId, target, seen', ids), byId, target, seen, i # ids)
      \<in> measures [\<lambda>(byId, target, seen, ids). card (set (mapKeys byId) - seen),
        \<lambda>(byId, target, seen, ids). length ids]"
    by (auto simp: le_eq_less_or_eq)
qed simp

declare somePath.simps [simp del]

definition pathExists :: "jstring \<Rightarrow> jstring \<Rightarrow> (jstring, resource_descriptor) jmap \<Rightarrow> bool" where
  "pathExists startId targetId byId = fst (somePath byId targetId {} [startId])"

definition dependencyCycles :: "resource_descriptor list \<Rightarrow> jstring list" where
  "dependencyCycles rs = toSorted compareUnits (map (\<lambda>r. tb_javaEntityName (rs_table r))
     (filter (\<lambda>r. \<exists>d \<in> set (rs_dependencies r). pathExists d (rs_id r) (resourceById rs)) rs))"

definition isCyclicReference :: "resource_descriptor \<Rightarrow> resource_descriptor \<Rightarrow> resource_descriptor list \<Rightarrow> bool" where
  "isCyclicReference r target rs = pathExists (rs_id target) (rs_id r) (resourceById rs)"

end
