(* ===== verification/Export_Json.thy ===== *)
theory Export_Json
  imports Export_Resources Command_Text_Laws
begin

text \<open>
  The JSON files of an export: \<open>generatedJsonFile\<close> and \<open>sortJson\<close> of
  src/src/modules/generation/spring-boot-export/spring-boot-export.artifacts.ts, and
  \<open>serializeRelationalModel\<close> of src/src/modules/generation/relational-model. The text of a number
  (\<open>showNumber\<close>) and SHA-256 are parameters. An object is the list of its entries in the order in which
  they are written.
\<close>

section \<open>Objects and texts\<close>

abbreviation text_value :: "string \<Rightarrow> json" where
  "text_value s \<equiv> JStr (js s)"

text \<open>\<open>{ ...xs, ...ys }\<close>.\<close>

definition spread :: "(jstring \<times> json) list \<Rightarrow> (jstring \<times> json) list \<Rightarrow> (jstring \<times> json) list" where
  "spread xs ys = foldl (\<lambda>m (k, v). mapSet k v m) xs ys"

definition isRecord :: "json \<Rightarrow> bool" where
  "isRecord v = (case v of JObj kvs \<Rightarrow> True | _ \<Rightarrow> False)"

text \<open>\<open>value[key]\<close> of a record, \<open>None\<close> for \<open>undefined\<close>.\<close>

definition fieldOf :: "jstring \<Rightarrow> json \<Rightarrow> json option" where
  "fieldOf k v = (case v of JObj kvs \<Rightarrow> map_of kvs k | _ \<Rightarrow> None)"

definition sortJson :: "json \<Rightarrow> json" where
  "sortJson = sort_keys"

text \<open>\<open>JSON.stringify(value, null, 2)\<close>.\<close>

fun prettyJson :: "(rat \<Rightarrow> jstring) \<Rightarrow> jstring \<Rightarrow> json \<Rightarrow> jstring" where
  "prettyJson showNumber indent JNull = js ''null''"
| "prettyJson showNumber indent (JBool b) = js (if b then ''true'' else ''false'')"
| "prettyJson showNumber indent (JNum n) = showNumber n"
| "prettyJson showNumber indent (JStr s) = quoteJSON s"
| "prettyJson showNumber indent (JArr xs) = (if xs = [] then js ''[]'' else
     (let inside = [0xA] @ indent @ js ''  '' in
      js ''['' @ inside @ js_join (js '','' @ inside) (map (prettyJson showNumber (indent @ js ''  '')) xs)
        @ [0xA] @ indent @ js '']''))"
| "prettyJson showNumber indent (JObj kvs) = (if kvs = [] then js ''{}'' else
     (let inside = [0xA] @ indent @ js ''  '' in
      js ''{'' @ inside @ js_join (js '','' @ inside)
          (map (\<lambda>(k, v). quoteJSON k @ js '': '' @ prettyJson showNumber (indent @ js ''  '') v) kvs)
        @ [0xA] @ indent @ js ''}''))"

text \<open>\<open>Buffer.byteLength(s, 'utf8')\<close>; a surrogate without partner takes three bytes, as its replacement.\<close>

definition utf8_size :: "nat \<Rightarrow> nat" where
  "utf8_size n = (if n < 0x80 then 1 else if n < 0x800 then 2 else if n < 0x10000 then 3 else 4)"

definition byteLength :: "jstring \<Rightarrow> nat" where
  "byteLength s = sum_list (map utf8_size (code_points s))"

section \<open>Files\<close>

record generated_file =
  gf_path :: jstring
  gf_content :: jstring
  gf_byteLength :: nat
  gf_sha256 :: jstring

definition generatedJsonFile ::
  "(rat \<Rightarrow> jstring) \<Rightarrow> (jstring \<Rightarrow> jstring) \<Rightarrow> jstring \<Rightarrow> json \<Rightarrow> generated_file" where
  "generatedJsonFile showNumber sha256 path v =
     (let content = prettyJson showNumber [] (sortJson v) @ [0xA]
      in \<lparr>gf_path = path, gf_content = content, gf_byteLength = byteLength content, gf_sha256 = sha256 content\<rparr>)"

section \<open>The relational model as JSON\<close>

definition json_strings :: "jstring list \<Rightarrow> json" where
  "json_strings xs = JArr (map JStr xs)"

definition json_traceability :: "traceability \<Rightarrow> json" where
  "json_traceability t = JObj [(js ''sourceIds'', json_strings (tc_sourceIds t)),
     (js ''sourcePaths'', json_strings (tc_sourcePaths t)), (js ''rule'', JStr (tc_rule t))]"

definition json_column :: "relational_column \<Rightarrow> json" where
  "json_column c = JObj ([(js ''id'', JStr (co_id c)), (js ''logicalName'', JStr (co_logicalName c)),
     (js ''physicalName'', JStr (co_physicalName c)), (js ''javaPropertyName'', JStr (co_javaPropertyName c)),
     (js ''javaType'', JStr (co_javaType c)), (js ''postgresType'', JStr (co_postgresType c)),
     (js ''umlType'', JStr (co_umlType c)), (js ''nullable'', JBool (co_nullable c)),
     (js ''primaryKey'', JBool (co_primaryKey c))]
     @ (if co_generated c then [(js ''generated'', text_value ''UUID'')] else [])
     @ jopt (js ''defaultValue'') JStr (co_defaultValue c) @ [(js ''source'', json_traceability (co_source c))])"

definition json_key :: "relational_key \<Rightarrow> json" where
  "json_key k = JObj [(js ''id'', JStr (ky_id k)), (js ''physicalName'', JStr (ky_physicalName k)),
     (js ''columnIds'', json_strings (ky_columnIds k)), (js ''source'', json_traceability (ky_source k))]"

fun on_delete_text :: "on_delete \<Rightarrow> jstring" where
  "on_delete_text NO_ACTION = js ''NO_ACTION''"
| "on_delete_text CASCADE = js ''CASCADE''"
| "on_delete_text SET_NULL = js ''SET_NULL''"

definition json_foreign_key :: "foreign_key \<Rightarrow> json" where
  "json_foreign_key k = JObj ([(js ''id'', JStr (fk_id k)), (js ''physicalName'', JStr (fk_physicalName k)),
     (js ''columnIds'', json_strings (fk_columnIds k)), (js ''referencedTableId'', JStr (fk_referencedTableId k)),
     (js ''referencedColumnIds'', json_strings (fk_referencedColumnIds k))]
     @ jopt (js ''sourceMultiplicity'') JStr (fk_sourceMultiplicity k)
     @ jopt (js ''targetMultiplicity'') JStr (fk_targetMultiplicity k)
     @ [(js ''onDelete'', JStr (on_delete_text (fk_onDelete k))), (js ''source'', json_traceability (fk_source k))])"

definition json_inheritance :: "relational_inheritance \<Rightarrow> json" where
  "json_inheritance i = JObj ([(js ''strategy'', text_value ''JOINED''),
     (js ''role'', text_value (case ih_role i of RootRole \<Rightarrow> ''root'' | SubclassRole \<Rightarrow> ''subclass''))]
     @ jopt (js ''parentTableId'') JStr (ih_parentTableId i)
     @ jopt (js ''parentColumnIds'') json_strings (ih_parentColumnIds i)
     @ [(js ''source'', json_traceability (ih_source i))])"

fun table_kind_text :: "table_kind \<Rightarrow> string" where
  "table_kind_text EntityTable = ''entity''"
| "table_kind_text JoinTable = ''join''"
| "table_kind_text AssociationClassTable = ''association-class''"
| "table_kind_text CollectionTable = ''collection''"

definition json_table :: "relational_table \<Rightarrow> json" where
  "json_table t = JObj ([(js ''id'', JStr (tb_id t)), (js ''logicalName'', JStr (tb_logicalName t)),
     (js ''physicalName'', JStr (tb_physicalName t)), (js ''javaEntityName'', JStr (tb_javaEntityName t)),
     (js ''kind'', text_value (table_kind_text (tb_kind t)))]
     @ jopt (js ''isAbstract'') JBool (tb_isAbstract t)
     @ jopt (js ''sourceClassifierId'') JStr (tb_sourceClassifierId t)
     @ jopt (js ''sourceRelationshipId'') JStr (tb_sourceRelationshipId t)
     @ [(js ''columns'', JArr (map json_column (tb_columns t))), (js ''primaryKey'', json_key (tb_primaryKey t)),
        (js ''foreignKeys'', JArr (map json_foreign_key (tb_foreignKeys t))),
        (js ''uniqueConstraints'', JArr (map json_key (tb_uniqueConstraints t)))]
     @ jopt (js ''inheritance'') json_inheritance (tb_inheritance t)
     @ [(js ''source'', json_traceability (tb_source t))])"

fun severity_text :: "severity \<Rightarrow> string" where
  "severity_text ErrorSeverity = ''ERROR''"
| "severity_text WarningSeverity = ''WARNING''"
| "severity_text InfoSeverity = ''INFO''"

definition json_diagnostic :: "relational_diagnostic \<Rightarrow> json" where
  "json_diagnostic d = JObj ([(js ''severity'', text_value (severity_text (rd_severity d))),
     (js ''code'', JStr (rd_code d)), (js ''message'', JStr (rd_message d))]
     @ jopt (js ''path'') JStr (rd_path d) @ jopt (js ''sourceIds'') json_strings (rd_sourceIds d))"

definition json_relational_model :: "relational_model \<Rightarrow> json" where
  "json_relational_model m = JObj [(js ''schemaVersion'', text_value ''0.1.0''),
     (js ''sourceSchemaVersion'', text_value ''0.1.0''),
     (js ''project'', JObj [(js ''id'', JStr (rm_projectId m)), (js ''name'', JStr (rm_projectName m))]),
     (js ''conventions'', JObj [(js ''naming'', text_value ''snake_case''), (js ''identifierMaxLength'', JNum 63),
        (js ''inheritanceStrategy'', text_value ''JOINED''),
        (js ''identifierStrategy'', text_value ''attribute-id-or-synthetic-uuid'')]),
     (js ''tables'', JArr (map json_table (rm_tables m))),
     (js ''diagnostics'', JArr (map json_diagnostic (rm_diagnostics m)))]"

text \<open>\<open>serializeRelationalModel\<close>: the check of the contract and the text with sorted keys, which
  \<open>stableJson\<close> writes.\<close>

definition serializeRelationalModel ::
  "(relational_model \<Rightarrow> validation_issue list) \<Rightarrow> (rat \<Rightarrow> jstring) \<Rightarrow> relational_model \<Rightarrow> validation_issue list + jstring" where
  "serializeRelationalModel contract showNumber m =
     bindE (assertRelationalModelContract contract m) (\<lambda>_.
     Inr (stableJson showNumber (json_relational_model m) @ [0xA]))"

end
