(* ===== verification/Export_Openapi.thy ===== *)
theory Export_Openapi
  imports Export_Json
begin

text \<open>
  The OpenAPI document of an export,
  src/src/modules/generation/spring-boot-export/spring-boot-export.artifacts.ts: the Java type behind a
  column, the schemas of columns, identifiers and resources, the operations, and the check the document is
  put to before it is written.
\<close>

section \<open>The type of a column\<close>

lemma mapE_cong [fundef_cong]: "xs = ys \<Longrightarrow> (\<And>x. x \<in> set ys \<Longrightarrow> f x = g x) \<Longrightarrow> mapE f xs = mapE g ys"
  by (induction ys arbitrary: xs) auto

lemma bindE_cong [fundef_cong]: "m = n \<Longrightarrow> (\<And>x. n = Inr x \<Longrightarrow> f x = g x) \<Longrightarrow> bindE m f = bindE n g"
  by (cases n) auto

definition columnKey :: "relational_table \<Rightarrow> relational_column \<Rightarrow> jstring" where
  "columnKey t c = tb_id t @ js '':'' @ co_id c"

text \<open>The table and the column a foreign key leads to from a column.\<close>

definition targetColumn :: "table_map \<Rightarrow> relational_column \<Rightarrow> foreign_key \<Rightarrow> (relational_table \<times> relational_column) artifact" where
  "targetColumn tables c k =
     (let missing = Inl (SpringBootExportArtifactError (js ''FOREIGN_KEY_TARGET_MISSING'')
            (js ''Foreign key '' @ fk_id k @ js '' cannot resolve its target column.''));
          index = (case findIndex (\<lambda>i. i = co_id c) (fk_columnIds k) of None \<Rightarrow> length (fk_referencedColumnIds k) | Some n \<Rightarrow> n)
      in case mapGet tables (fk_referencedTableId k) of None \<Rightarrow> missing
         | Some target \<Rightarrow>
             if index < length (fk_referencedColumnIds k) \<and> fk_referencedColumnIds k ! index \<noteq> []
             then bindE (columnById target (fk_referencedColumnIds k ! index)) (\<lambda>column. Inr (target, column))
             else missing)"

text \<open>The keys of all columns of the tables of the map.\<close>

definition column_keys :: "table_map \<Rightarrow> jstring set" where
  "column_keys tables = (\<Union>t \<in> set (mapValues tables). columnKey t ` set (tb_columns t))"

lemma finite_column_keys [simp]: "finite (column_keys tables)"
  by (simp add: column_keys_def)

text \<open>The type over the foreign keys of a column, as deep as they lead; a key that was seen on the way down ends
  the search. After the first call every column is one of the map, and no key is seen twice.\<close>

function scalarJavaType :: "table_map \<Rightarrow> jstring set \<Rightarrow> relational_table \<Rightarrow> relational_column \<Rightarrow> jstring artifact" where
  "scalarJavaType tables seen t c =
     (if columnKey t c \<in> seen then Inr (co_javaType c)
      else bindE (mapE (\<lambda>k. bindE (targetColumn tables c k) (\<lambda>(target, column).
             scalarJavaType tables (insert (columnKey t c) seen) target column))
           (sortedForeignKeys (filter (\<lambda>k. co_id c \<in> set (fk_columnIds k)) (tb_foreignKeys t)))) (\<lambda>types.
         case unique types of [] \<Rightarrow> Inr (co_javaType c) | [j] \<Rightarrow> Inr j
         | _ \<Rightarrow> Inl (SpringBootExportArtifactError (js ''FOREIGN_KEY_TYPE_CONFLICT'')
             (js ''Foreign key column '' @ co_id c @ js '' resolves to conflicting Java types.''))))"
  by pat_completeness auto

lemma columnById_in: "columnById t i = Inr c \<Longrightarrow> c \<in> set (tb_columns t) \<and> co_id c = i"
  by (auto simp: columnById_def find_Some_iff split: option.splits)

lemma targetColumn_in:
  "targetColumn tables c k = Inr (target, column) \<Longrightarrow> target \<in> set (mapValues tables) \<and> column \<in> set (tb_columns target)"
  by (auto simp: targetColumn_def Let_def res_simps columnById_in split: option.splits if_splits)
    (force dest: map_of_SomeD)+

termination scalarJavaType
proof (relation "measures [\<lambda>(tables, seen, t, c). card (column_keys tables - seen),
    \<lambda>(tables, seen, t, c). if t \<in> set (mapValues tables) \<and> c \<in> set (tb_columns t) then 0 else 1]")
  fix tables :: table_map and seen and t target :: relational_table and c column :: relational_column and k z
  assume unseen: "columnKey t c \<notin> seen" and found: "targetColumn tables c k = Inr z" "(target, column) = z"
  have le: "card (column_keys tables - insert (columnKey t c) seen) \<le> card (column_keys tables - seen)"
    by (rule card_mono) auto
  have less: "card (column_keys tables - insert (columnKey t c) seen) < card (column_keys tables - seen)"
    if "t \<in> set (mapValues tables)" "c \<in> set (tb_columns t)"
  proof -
    have "columnKey t c \<in> column_keys tables - seen" using that unseen by (auto simp: column_keys_def)
    then show ?thesis by (intro psubset_card_mono) auto
  qed
  from targetColumn_in [of tables c k target column] found
  have "target \<in> set (mapValues tables)" "column \<in> set (tb_columns target)" by auto
  with le less show "((tables, insert (columnKey t c) seen, target, column), tables, seen, t, c) \<in>
      measures [\<lambda>(tables, seen, t, c). card (column_keys tables - seen),
        \<lambda>(tables, seen, t, c). if t \<in> set (mapValues tables) \<and> c \<in> set (tb_columns t) then 0 else 1]"
    by (auto simp: le_eq_less_or_eq)
qed simp

declare scalarJavaType.simps [simp del]

section \<open>Schemas\<close>

definition foreignKeyExtension :: "table_map \<Rightarrow> foreign_key \<Rightarrow> json" where
  "foreignKeyExtension tables k = JObj ([(js ''onDelete'', JStr (on_delete_text (fk_onDelete k)))]
     @ jopt (js ''referencedTable'') (\<lambda>t. JStr (tb_physicalName t)) (mapGet tables (fk_referencedTableId k)))"

definition scalarSchemas :: "(string \<times> (string \<times> json) list) list" where
  "scalarSchemas =
    [(''UUID'', [(''format'', text_value ''uuid''), (''type'', text_value ''string'')]),
     (''LocalDate'', [(''format'', text_value ''date''), (''type'', text_value ''string'')]),
     (''Instant'', [(''format'', text_value ''date-time''), (''type'', text_value ''string'')]),
     (''LocalDateTime'', [(''format'', text_value ''date-time''), (''type'', text_value ''string'')]),
     (''byte[]'', [(''format'', text_value ''byte''), (''type'', text_value ''string'')]),
     (''Character'', [(''maxLength'', JNum 1), (''minLength'', JNum 1), (''type'', text_value ''string'')]),
     (''Boolean'', [(''type'', text_value ''boolean'')]),
     (''Byte'', [(''format'', text_value ''int32''), (''type'', text_value ''integer'')]),
     (''Short'', [(''format'', text_value ''int32''), (''type'', text_value ''integer'')]),
     (''Integer'', [(''format'', text_value ''int32''), (''type'', text_value ''integer'')]),
     (''Long'', [(''format'', text_value ''int64''), (''type'', text_value ''integer'')]),
     (''BigInteger'', [(''type'', text_value ''integer'')]),
     (''Float'', [(''format'', text_value ''float''), (''type'', text_value ''number'')]),
     (''Double'', [(''format'', text_value ''double''), (''type'', text_value ''number'')]),
     (''BigDecimal'', [(''type'', text_value ''number'')]),
     (''JsonNode'', [])]"

definition scalarSchema :: "jstring \<Rightarrow> (jstring \<times> json) list" where
  "scalarSchema javaType = (case map_of (map (\<lambda>(j, fs). (js j, map (\<lambda>(k, v). (js k, v)) fs)) scalarSchemas) javaType of
     Some schema \<Rightarrow> schema | None \<Rightarrow> [(js ''type'', text_value ''string'')])"

definition relationshipExtension :: "table_map \<Rightarrow> foreign_key list \<Rightarrow> (jstring \<times> json) list" where
  "relationshipExtension tables ks = (case ks of [] \<Rightarrow> [] | [k] \<Rightarrow> [(js ''x-foreign-key'', foreignKeyExtension tables k)]
     | _ \<Rightarrow> [(js ''x-foreign-keys'', JArr (map (foreignKeyExtension tables) ks))])"

definition columnSchema :: "table_map \<Rightarrow> owned_column \<Rightarrow> (jstring \<times> json) list artifact" where
  "columnSchema tables owned =
     (let t = oc_owner owned; c = oc_column owned in
      bindE (scalarJavaType tables {} t c) (\<lambda>javaType.
      let schema = scalarSchema javaType;
          foreignKeys = sortedForeignKeys (filter (\<lambda>k. co_id c \<in> set (fk_columnIds k)
            \<and> \<not> isJoinedInheritanceForeignKey t k) (tb_foreignKeys t));
          extensions = spread [(js ''x-java-type'', JStr javaType), (js ''x-postgres-type'', JStr (co_postgresType c))]
            (relationshipExtension tables foreignKeys)
      in Inr (if \<not> co_nullable c then spread schema extensions
           else spread [(js ''anyOf'', JArr [JObj schema, JObj [(js ''type'', text_value ''null'')]])] extensions)))"

definition namedSchemas :: "table_map \<Rightarrow> owned_column list \<Rightarrow> (jstring \<times> json) list artifact" where
  "namedSchemas tables columns = bindE (mapE (columnSchema tables) columns) (\<lambda>schemas.
     Inr (spread [] (zip (map (\<lambda>c. co_javaPropertyName (oc_column c)) columns) (map JObj schemas))))"

definition identifierSchema :: "identifier_descriptor \<Rightarrow> table_map \<Rightarrow> bool \<Rightarrow> json artifact" where
  "identifierSchema identifier tables generatedRequestId =
     (if \<not> id_composite identifier then
        bindE (columnSchema tables (hd (id_columns identifier))) (\<lambda>schema.
        Inr (JObj (if generatedRequestId then spread schema [(js ''description'',
          text_value ''Optional client value; the database generates this UUID.'')] else schema)))
      else bindE (namedSchemas tables (id_columns identifier)) (\<lambda>properties.
        Inr (JObj [(js ''additionalProperties'', JBool False), (js ''properties'', JObj properties),
          (js ''required'', json_strings (map (\<lambda>c. co_javaPropertyName (oc_column c)) (id_columns identifier))),
          (js ''type'', text_value ''object'')])))"

definition resourceSchema :: "resource_descriptor \<Rightarrow> table_map \<Rightarrow> bool \<Rightarrow> json artifact" where
  "resourceSchema r tables response =
     bindE (identifierSchema (rs_identifier r) tables (\<not> response \<and> id_generated (rs_identifier r))) (\<lambda>identifier.
     bindE (mapE (columnSchema tables) (rs_fields r)) (\<lambda>schemas.
     let name = (\<lambda>c. co_javaPropertyName (oc_column c));
         properties = spread [(js ''id'', identifier)] (zip (map name (rs_fields r)) (map JObj schemas));
         required = (if response \<or> \<not> id_generated (rs_identifier r) then [js ''id''] else [])
           @ map name (filter (\<lambda>c. response \<or> \<not> co_nullable (oc_column c) \<and> co_defaultValue (oc_column c) = None) (rs_fields r))
     in Inr (JObj ([(js ''additionalProperties'', JBool False), (js ''properties'', JObj properties)]
       @ (if required \<noteq> [] then [(js ''required'', json_strings required)] else [])
       @ [(js ''type'', text_value ''object'')]))))"

section \<open>Operations\<close>

datatype resource_operation = CreateOperation | ListOperation | GetOperation | UpdateOperation | DeleteOperation

fun operation_text :: "resource_operation \<Rightarrow> string" where
  "operation_text CreateOperation = ''create''"
| "operation_text ListOperation = ''list''"
| "operation_text GetOperation = ''get''"
| "operation_text UpdateOperation = ''update''"
| "operation_text DeleteOperation = ''delete''"

definition jsonResponse :: "string \<Rightarrow> json \<Rightarrow> json" where
  "jsonResponse description schema = JObj [(js ''content'', JObj [(js ''application/json'', JObj [(js ''schema'', schema)])]),
     (js ''description'', text_value description)]"

definition schemaReference :: "jstring \<Rightarrow> json" where
  "schemaReference name = JObj [(js ''$ref'', JStr (js ''#/components/schemas/'' @ name))]"

definition errorResponses :: "(jstring \<times> json) list" where
  "errorResponses = (let reference = schemaReference (js ''ApiError'') in
     [(js ''400'', jsonResponse ''Invalid identifier or request body.'' reference),
      (js ''404'', jsonResponse ''Resource or referenced relationship was not found.'' reference),
      (js ''409'', jsonResponse ''A database constraint prevented the requested change.'' reference)])"

definition idParameter :: "resource_descriptor \<Rightarrow> json" where
  "idParameter r = JObj [(js ''description'', JStr (if id_composite (rs_identifier r)
       then js ''Comma-separated identifier values in this order: ''
         @ js_join (js '', '') (map (\<lambda>c. co_javaPropertyName (oc_column c)) (id_columns (rs_identifier r))) @ js ''.''
       else js ''Resource identifier.'')),
     (js ''in'', text_value ''path''), (js ''name'', text_value ''id''), (js ''required'', JBool True),
     (js ''schema'', JObj [(js ''type'', text_value ''string'')])]"

definition openApiOperation :: "resource_descriptor \<Rightarrow> resource_operation \<Rightarrow> json" where
  "openApiOperation r op =
     (let name = tb_javaEntityName (rs_table r); response = schemaReference (name @ js ''Response'');
          operationId = (js ''operationId'', JStr (js (operation_text op) @ name));
          tags = (js ''tags'', json_strings [name]); parameters = (js ''parameters'', JArr [idParameter r]);
          summary = (\<lambda>verb noun. (js ''summary'', JStr (js verb @ js '' '' @ name @ js noun))) in
      case op of
        ListOperation \<Rightarrow> JObj [operationId, (js ''responses'', JObj [(js ''200'', JObj [
            (js ''content'', JObj [(js ''application/json'', JObj [(js ''schema'', JObj [(js ''items'', response), (js ''type'', text_value ''array'')])])]),
            (js ''description'', text_value ''Resources returned successfully.'')])]),
          summary ''List'' '' resources.'', tags]
      | GetOperation \<Rightarrow> JObj [operationId, parameters, (js ''responses'', JObj (spread
            [(js ''200'', jsonResponse ''Resource returned successfully.'' response)] errorResponses)),
          summary ''Get one'' '' resource.'', tags]
      | DeleteOperation \<Rightarrow> JObj [operationId, parameters, (js ''responses'', JObj (spread
            [(js ''204'', JObj [(js ''description'', text_value ''Resource deleted successfully.'')])] errorResponses)),
          summary ''Delete one'' '' resource.'', tags]
      | _ \<Rightarrow> JObj ([operationId] @ (if op = UpdateOperation then [parameters] else [])
          @ [(js ''requestBody'', JObj [(js ''content'', JObj [(js ''application/json'',
               JObj [(js ''schema'', schemaReference (name @ js ''Request''))])]), (js ''required'', JBool True)]),
             (js ''responses'', JObj (spread (if op = CreateOperation
               then [(js ''201'', jsonResponse ''Resource created successfully.'' response)]
               else [(js ''200'', jsonResponse ''Resource updated successfully.'' response)]) errorResponses)),
             summary (if op = CreateOperation then ''Create one'' else ''Update one'') '' resource.'', tags]))"

section \<open>The document\<close>

text \<open>What the export reads of a generated project.\<close>

record spring_project =
  sp_groupId :: jstring
  sp_artifactId :: jstring
  sp_packageName :: jstring
  sp_applicationName :: jstring
  sp_generatorVersion :: jstring
  sp_files :: "generated_file list"

definition collectionPath :: "resource_descriptor \<Rightarrow> jstring" where
  "collectionPath r = js ''/api/'' @ rs_route r"

definition itemPath :: "resource_descriptor \<Rightarrow> jstring" where
  "itemPath r = collectionPath r @ js ''/{id}''"

definition resourceSchemas :: "table_map \<Rightarrow> resource_descriptor \<Rightarrow> (jstring \<times> json) list artifact" where
  "resourceSchemas tables r = (let name = tb_javaEntityName (rs_table r) in
     bindE (resourceSchema r tables False) (\<lambda>request.
     bindE (resourceSchema r tables True) (\<lambda>response.
     bindE (identifierSchema (rs_identifier r) tables False) (\<lambda>identifier.
     Inr [(name @ js ''Request'', request), (name @ js ''Response'', response), (name @ js ''Id'', identifier)]))))"

definition resourcePaths :: "resource_descriptor \<Rightarrow> (jstring \<times> json) list" where
  "resourcePaths r =
     [(collectionPath r, JObj [(js ''get'', openApiOperation r ListOperation), (js ''post'', openApiOperation r CreateOperation)]),
      (itemPath r, JObj [(js ''delete'', openApiOperation r DeleteOperation), (js ''get'', openApiOperation r GetOperation),
         (js ''put'', openApiOperation r UpdateOperation)])]"

definition apiErrorSchema :: json where
  "apiErrorSchema = JObj [(js ''additionalProperties'', JBool False),
     (js ''properties'', JObj [(js ''code'', JObj [(js ''type'', text_value ''string'')]),
        (js ''message'', JObj [(js ''type'', text_value ''string'')]),
        (js ''status'', JObj [(js ''maximum'', JNum 599), (js ''minimum'', JNum 100), (js ''type'', text_value ''integer'')])]),
     (js ''required'', json_strings [js ''status'', js ''code'', js ''message'']), (js ''type'', text_value ''object'')]"

definition buildOpenApiDocument :: "spring_project \<Rightarrow> resource_descriptor list \<Rightarrow> table_map \<Rightarrow> json artifact" where
  "buildOpenApiDocument project resources tables =
     bindE (mapE (resourceSchemas tables) resources) (\<lambda>schemas.
     Inr (JObj [(js ''components'', JObj [(js ''schemas'', JObj (spread [(js ''ApiError'', apiErrorSchema)] (concat schemas)))]),
       (js ''info'', JObj [(js ''description'',
            text_value ''Static contract for the deterministic Spring Boot project generated by UML Class Designer.''),
          (js ''title'', JStr (sp_artifactId project @ js '' generated API'')),
          (js ''version'', JStr (sp_generatorVersion project))]),
       (js ''openapi'', text_value ''3.1.0''),
       (js ''paths'', JObj (spread [] (concat (map resourcePaths resources))))]))"

section \<open>The check\<close>

definition recordField :: "jstring \<Rightarrow> json \<Rightarrow> bool" where
  "recordField k v = (case fieldOf k v of None \<Rightarrow> False | Some w \<Rightarrow> isRecord w)"

text \<open>\<open>JSON.stringify\<close> of an array of strings.\<close>

definition stringifyStrings :: "jstring list \<Rightarrow> jstring" where
  "stringifyStrings xs = js ''['' @ js_join (js '','') (map quoteJSON xs) @ js '']''"

definition completeOperations :: "json \<Rightarrow> resource_descriptor \<Rightarrow> bool" where
  "completeOperations paths r = (case (fieldOf (collectionPath r) paths, fieldOf (itemPath r) paths) of
     (Some collection, Some item) \<Rightarrow> isRecord collection \<and> isRecord item \<and> recordField (js ''get'') collection
       \<and> recordField (js ''post'') collection \<and> recordField (js ''get'') item \<and> recordField (js ''put'') item
       \<and> recordField (js ''delete'') item
   | _ \<Rightarrow> False)"

definition assertGeneratedOpenApiDocument :: "json \<Rightarrow> resource_descriptor list \<Rightarrow> unit artifact" where
  "assertGeneratedOpenApiDocument v resources =
     (case (fieldOf (js ''openapi'') v, fieldOf (js ''paths'') v) of
        (Some version, Some paths) \<Rightarrow>
          if \<not> isRecord v \<or> version \<noteq> text_value ''3.1.0'' \<or> \<not> recordField (js ''info'') v \<or> \<not> isRecord paths
          then Inl (SpringBootExportArtifactError (js ''OPENAPI_INVALID'')
            (js ''Generated OpenAPI must be a valid static OpenAPI 3.1 document.''))
          else
            let actualPaths = toSorted compareUnits (case paths of JObj kvs \<Rightarrow> map fst kvs | _ \<Rightarrow> []);
                expectedPaths = toSorted compareUnits (concat (map (\<lambda>r. [collectionPath r, itemPath r]) resources)) in
            if resources \<noteq> [] \<and> stringifyStrings actualPaths \<noteq> stringifyStrings expectedPaths
            then Inl (SpringBootExportArtifactError (js ''OPENAPI_PATHS_INVALID'')
              (js ''Generated OpenAPI paths do not match generated Spring controllers.''))
            else (case find (\<lambda>r. \<not> completeOperations paths r) resources of None \<Rightarrow> Inr ()
              | Some r \<Rightarrow> Inl (SpringBootExportArtifactError (js ''OPENAPI_OPERATIONS_INVALID'')
                  (js ''Generated OpenAPI CRUD operations are incomplete for '' @ tb_javaEntityName (rs_table r) @ js ''.'')))
      | _ \<Rightarrow> Inl (SpringBootExportArtifactError (js ''OPENAPI_INVALID'')
          (js ''Generated OpenAPI must be a valid static OpenAPI 3.1 document.'')))"

end
