(* ===== verification/Export_Postman.thy ===== *)
theory Export_Postman
  imports Export_Openapi
begin

text \<open>
  The Postman collection of an export,
  src/src/modules/generation/spring-boot-export/spring-boot-export.artifacts.ts: example values, the
  variables that later requests take from the responses of earlier ones, the order of the requests, and
  the check the collection is put to; then the manifest and the three files together. An example number is
  an exact rational.
\<close>

section \<open>Variables\<close>

definition isIdentifierColumn :: "resource_descriptor \<Rightarrow> owned_column \<Rightarrow> bool" where
  "isIdentifierColumn r c \<longleftrightarrow> (\<exists>d \<in> set (id_columns (rs_identifier r)). sameColumn d c)"

definition columnVariable :: "resource_descriptor \<Rightarrow> owned_column \<Rightarrow> jstring" where
  "columnVariable r c = rs_variablePrefix r @ js ''_''
     @ (if isIdentifierColumn r c \<and> \<not> id_composite (rs_identifier r) then js ''id'' else co_javaPropertyName (oc_column c))"

definition responsePath :: "resource_descriptor \<Rightarrow> owned_column \<Rightarrow> jstring" where
  "responsePath r c = (if \<not> isIdentifierColumn r c then js ''response.'' @ co_javaPropertyName (oc_column c)
     else if id_composite (rs_identifier r) then js ''response.id.'' @ co_javaPropertyName (oc_column c)
     else js ''response.id'')"

definition placeholder :: "jstring \<Rightarrow> jstring" where
  "placeholder name = js ''{{'' @ name @ js ''}}''"

definition identifierPath :: "resource_descriptor \<Rightarrow> jstring" where
  "identifierPath r = js_join (js '','') (map (\<lambda>c. placeholder (columnVariable r c)) (id_columns (rs_identifier r)))"

definition actionName :: "resource_descriptor \<Rightarrow> resource_operation \<Rightarrow> jstring" where
  "actionName r op = tb_javaEntityName (rs_table r) @ js '' / '' @ js (operation_text op)"

definition actionKey :: "resource_descriptor \<Rightarrow> resource_operation \<Rightarrow> jstring" where
  "actionKey r op = rs_id r @ js '':'' @ js (operation_text op)"

section \<open>Values\<close>

text \<open>\<open>Number(variablePrefix.slice(10, 13))\<close>, the digits of the number of the resource.\<close>

definition ordinalOf :: "resource_descriptor \<Rightarrow> nat" where
  "ordinalOf r = digits_val (take 3 (drop 10 (rs_variablePrefix r)))"

definition exampleValue :: "jstring \<Rightarrow> resource_descriptor \<Rightarrow> relational_column \<Rightarrow> resource_operation \<Rightarrow> json" where
  "exampleValue javaType r c op =
     (let n = ordinalOf r; len = length (co_javaPropertyName c) in
      if javaType = js ''Boolean'' then JBool (op = UpdateOperation)
      else if javaType \<in> set (map js [''Byte'', ''Short'', ''Integer'', ''Long'', ''BigInteger'']) then JNum (of_nat (n * 100 + len))
      else if javaType \<in> set (map js [''Float'', ''Double'', ''BigDecimal'']) then JNum (of_nat n + of_nat len / 100)
      else if javaType = js ''UUID'' then JStr (js ''00000000-0000-4000-8000-'' @ js_padStart 12 (digit_unit 0) (show_nat (n * 100 + len)))
      else if javaType = js ''LocalDate'' then text_value ''2026-01-02''
      else if javaType = js ''Instant'' then text_value ''2026-01-02T03:04:05Z''
      else if javaType = js ''LocalDateTime'' then text_value ''2026-01-02T03:04:05''
      else if javaType = js ''byte[]'' then text_value ''Z2VuZXJhdGVk''
      else if javaType = js ''JsonNode'' then JObj [(js ''source'', text_value ''generated'')]
      else if javaType = js ''Character'' then text_value ''G''
      else JStr (tb_physicalName (rs_table r) @ js ''-'' @ co_javaPropertyName c @ js ''-''
        @ js (if op = UpdateOperation then ''updated'' else ''created'')))"

definition referenceForColumn :: "resource_descriptor \<Rightarrow> owned_column \<Rightarrow> foreign_key_descriptor option" where
  "referenceForColumn r c = find (\<lambda>k. \<exists>d \<in> set (fd_localColumns k). sameColumn d c) (rs_foreignKeys r)"

definition valueForColumn ::
  "resource_descriptor \<Rightarrow> owned_column \<Rightarrow> resource_operation \<Rightarrow> resource_descriptor list \<Rightarrow> table_map \<Rightarrow> json artifact" where
  "valueForColumn r c op resources tables =
     (if op = UpdateOperation \<and> isIdentifierColumn r c then Inr (JStr (placeholder (columnVariable r c)))
      else case referenceForColumn r c of
        Some k \<Rightarrow> bindE (targetResourceFor k resources tables) (\<lambda>target.
          if op = CreateOperation \<and> isCyclicReference r target resources
            \<and> (\<forall>d \<in> set (fd_localColumns k). co_nullable (oc_column d)) then Inr JNull
          else case findIndex (\<lambda>d. sameColumn d c) (fd_localColumns k) of
            Some n \<Rightarrow> if n < length (fd_referencedColumns k)
              then Inr (JStr (placeholder (columnVariable target (fd_referencedColumns k ! n))))
              else Inl (SpringBootExportArtifactError (js ''FOREIGN_KEY_COLUMN_MISSING'')
                (js ''Foreign key '' @ fk_id (fd_foreignKey k) @ js '' cannot resolve '' @ co_id (oc_column c) @ js ''.''))
          | None \<Rightarrow> Inl (SpringBootExportArtifactError (js ''FOREIGN_KEY_COLUMN_MISSING'')
                (js ''Foreign key '' @ fk_id (fd_foreignKey k) @ js '' cannot resolve '' @ co_id (oc_column c) @ js ''.'')))
      | None \<Rightarrow> if co_nullable (oc_column c) then Inr JNull
          else bindE (scalarJavaType tables {} (oc_owner c) (oc_column c)) (\<lambda>javaType.
            Inr (exampleValue javaType r (oc_column c) op)))"

definition namedValues ::
  "resource_descriptor \<Rightarrow> owned_column list \<Rightarrow> resource_operation \<Rightarrow> resource_descriptor list \<Rightarrow> table_map
   \<Rightarrow> (jstring \<times> json) list artifact" where
  "namedValues r columns op resources tables =
     mapE (\<lambda>c. bindE (valueForColumn r c op resources tables) (\<lambda>v. Inr (co_javaPropertyName (oc_column c), v))) columns"

definition requestPayload ::
  "resource_descriptor \<Rightarrow> resource_operation \<Rightarrow> resource_descriptor list \<Rightarrow> table_map \<Rightarrow> json artifact" where
  "requestPayload r op resources tables =
     (let identifier = rs_identifier r in
      bindE (if id_generated identifier then Inr []
        else if id_composite identifier
        then bindE (namedValues r (id_columns identifier) op resources tables) (\<lambda>vs. Inr [(js ''id'', JObj (spread [] vs))])
        else bindE (valueForColumn r (hd (id_columns identifier)) op resources tables) (\<lambda>v. Inr [(js ''id'', v)])) (\<lambda>payload.
      bindE (namedValues r (rs_fields r) op resources tables) (\<lambda>vs. Inr (JObj (spread payload vs)))))"

section \<open>Captured columns\<close>

definition addCaptured :: "owned_column list \<Rightarrow> (jstring, owned_column) jmap \<Rightarrow> (jstring, owned_column) jmap" where
  "addCaptured cs m = foldl (\<lambda>m c. mapSet (ownedColumnKey c) c m) m cs"

type_synonym captures = "(jstring, (jstring, owned_column) jmap) jmap"

definition captureReference ::
  "resource_descriptor list \<Rightarrow> table_map \<Rightarrow> captures \<Rightarrow> foreign_key_descriptor \<Rightarrow> captures artifact" where
  "captureReference resources tables captured k =
     bindE (targetResourceFor k resources tables) (\<lambda>target.
     case mapGet captured (rs_id target) of
       None \<Rightarrow> Inl (SpringBootExportArtifactError (js ''FOREIGN_KEY_TARGET_MISSING'')
         (js ''Foreign key '' @ fk_id (fd_foreignKey k) @ js '' target is not exposed.''))
     | Some columns \<Rightarrow> Inr (mapSet (rs_id target) (addCaptured (fd_referencedColumns k) columns) captured))"

definition captureColumnsByResource ::
  "resource_descriptor list \<Rightarrow> table_map \<Rightarrow> (jstring, owned_column list) jmap artifact" where
  "captureColumnsByResource resources tables =
     bindE (forEntries (\<lambda>_ k captured. captureReference resources tables captured k) 0 (concat (map rs_foreignKeys resources))
       (foldl (\<lambda>m r. mapSet (rs_id r) (addCaptured (id_columns (rs_identifier r)) []) m) [] resources)) (\<lambda>captured.
     Inr (map (\<lambda>(i, columns). (i, toSorted (byKey compareUnits ownedColumnKey) (mapValues columns))) captured))"

section \<open>Requests\<close>

definition postmanTestScript ::
  "resource_descriptor \<Rightarrow> resource_operation \<Rightarrow> nat \<Rightarrow> owned_column list \<Rightarrow> jstring option \<Rightarrow> jstring list" where
  "postmanTestScript r op expectedStatus captured next =
     [js ''pm.test('' @ quoteJSON (js (operation_text op) @ js '' returns '' @ show_nat expectedStatus) @ js '', function () {'',
      js ''  pm.response.to.have.status('' @ show_nat expectedStatus @ js '');'', js ''});'']
     @ (if op \<in> {CreateOperation, UpdateOperation} then js ''const response = pm.response.json();''
          # map (\<lambda>c. js ''pm.collectionVariables.set('' @ quoteJSON (columnVariable r c) @ js '', String('' @ responsePath r c @ js ''));'') captured
        else [])
     @ [js ''pm.execution.setNextRequest('' @ (case next of Some n \<Rightarrow> if n \<noteq> [] then quoteJSON n else js ''null'' | None \<Rightarrow> js ''null'') @ js '');'']"

definition postmanRequest ::
  "(rat \<Rightarrow> jstring) \<Rightarrow> resource_descriptor \<Rightarrow> resource_operation \<Rightarrow> resource_descriptor list \<Rightarrow> table_map
   \<Rightarrow> owned_column list \<Rightarrow> jstring option \<Rightarrow> json artifact" where
  "postmanRequest showNumber r op resources tables captured next =
     (let path = js ''{{baseUrl}}/api/'' @ rs_route r;
          url = (if op \<in> {GetOperation, UpdateOperation, DeleteOperation} then path @ js ''/'' @ identifierPath r else path);
          httpMethod = (case op of CreateOperation \<Rightarrow> ''POST'' | UpdateOperation \<Rightarrow> ''PUT'' | DeleteOperation \<Rightarrow> ''DELETE'' | _ \<Rightarrow> ''GET'');
          expectedStatus = (case op of CreateOperation \<Rightarrow> 201 | DeleteOperation \<Rightarrow> 204 | _ \<Rightarrow> 200);
          start = [(js ''method'', text_value httpMethod), (js ''url'', JStr url)] in
      bindE (if op \<in> {CreateOperation, UpdateOperation}
        then bindE (requestPayload r op resources tables) (\<lambda>payload.
          Inr (start @ [(js ''header'', JArr [JObj [(js ''key'', text_value ''Content-Type''), (js ''type'', text_value ''text''),
              (js ''value'', text_value ''application/json'')]]),
            (js ''body'', JObj [(js ''mode'', text_value ''raw''),
              (js ''options'', JObj [(js ''raw'', JObj [(js ''language'', text_value ''json'')])]),
              (js ''raw'', JStr (prettyJson showNumber [] payload @ [0xA]))])]))
        else Inr start) (\<lambda>request.
      Inr (JObj [(js ''event'', JArr [JObj [(js ''listen'', text_value ''test''),
          (js ''script'', JObj [(js ''exec'', json_strings (postmanTestScript r op expectedStatus captured next)),
             (js ''type'', text_value ''text/javascript'')])]]),
        (js ''name'', JStr (actionName r op)), (js ''request'', JObj request)])))"

section \<open>The collection\<close>

definition actionsOf :: "resource_descriptor list \<Rightarrow> (resource_descriptor \<times> resource_operation) list" where
  "actionsOf ordered = concat (map (\<lambda>op. map (\<lambda>r. (r, op)) ordered)
       [CreateOperation, ListOperation, GetOperation, UpdateOperation]) @ map (\<lambda>r. (r, DeleteOperation)) (rev ordered)"

text \<open>The name of the action after each; the value of the last one is \<open>undefined\<close>.\<close>

definition nextActions :: "(resource_descriptor \<times> resource_operation) list \<Rightarrow> (jstring, jstring option) jmap" where
  "nextActions actions = foldl (\<lambda>m ((r, op), after). mapSet (actionKey r op) after m) []
     (zip actions (map (\<lambda>(r, op). Some (actionName r op)) (tl actions) @ [None]))"

definition postmanSchemaUrl :: jstring where
  "postmanSchemaUrl = js ''https://schema.getpostman.com/json/collection/v2.1.0/collection.json''"

definition crudOperations :: "resource_operation list" where
  "crudOperations = [CreateOperation, ListOperation, GetOperation, UpdateOperation, DeleteOperation]"

definition postmanFolder ::
  "(rat \<Rightarrow> jstring) \<Rightarrow> resource_descriptor list \<Rightarrow> table_map \<Rightarrow> (jstring, owned_column list) jmap
   \<Rightarrow> (jstring, jstring option) jmap \<Rightarrow> resource_descriptor \<Rightarrow> json artifact" where
  "postmanFolder showNumber resources tables captured nextAction r =
     bindE (mapE (\<lambda>op. postmanRequest showNumber r op resources tables
         (case mapGet captured (rs_id r) of None \<Rightarrow> [] | Some cs \<Rightarrow> cs)
         (case mapGet nextAction (actionKey r op) of None \<Rightarrow> None | Some n \<Rightarrow> n)) crudOperations) (\<lambda>requests.
     Inr (JObj [(js ''description'', JStr (js ''CRUD requests for '' @ tb_javaEntityName (rs_table r) @ js ''.'')),
       (js ''item'', JArr requests), (js ''name'', JStr (tb_javaEntityName (rs_table r)))]))"

definition collectionDescription :: "spring_project \<Rightarrow> jstring list \<Rightarrow> jstring" where
  "collectionDescription project cycles = js_join [0xA, 0xA]
     [js ''Deterministic CRUD collection for '' @ sp_artifactId project @ js ''.'',
      js ''Run with Newman after setting the baseUrl collection variable.'',
      (if cycles = [] then js ''Dependencies run parent to child and cleanup runs child to parent.''
       else js ''Cycles detected: '' @ js_join (js '', '') cycles
         @ js ''. Nullable cycle references are created as null and set during update; fully required cycles need a model change because PostgreSQL cannot create the initial rows safely.'')]"

definition buildPostmanCollection ::
  "(rat \<Rightarrow> jstring) \<Rightarrow> spring_project \<Rightarrow> resource_descriptor list \<Rightarrow> table_map \<Rightarrow> json artifact" where
  "buildPostmanCollection showNumber project resources tables =
     (let ordered = dependencyOrder resources; nextAction = nextActions (actionsOf ordered) in
      bindE (captureColumnsByResource resources tables) (\<lambda>captured.
      let cycles = dependencyCycles resources in
      bindE (mapE (postmanFolder showNumber resources tables captured nextAction) ordered) (\<lambda>folders.
      Inr (JObj [(js ''info'', JObj [(js ''description'', JStr (collectionDescription project cycles)),
           (js ''name'', JStr (sp_artifactId project @ js '' generated API'')), (js ''schema'', JStr postmanSchemaUrl)]),
         (js ''item'', JArr folders),
         (js ''variable'', JArr [JObj [(js ''key'', text_value ''baseUrl''), (js ''type'', text_value ''string''),
            (js ''value'', text_value ''http://127.0.0.1:8080'')]])]))))"

section \<open>The check\<close>

definition arrayField :: "jstring \<Rightarrow> json \<Rightarrow> json list option" where
  "arrayField k v = (case fieldOf k v of Some (JArr xs) \<Rightarrow> Some xs | _ \<Rightarrow> None)"

definition isFolderOf :: "resource_descriptor \<Rightarrow> json \<Rightarrow> bool" where
  "isFolderOf r v \<longleftrightarrow> fieldOf (js ''name'') v = Some (JStr (tb_javaEntityName (rs_table r)))"

definition completeFolder :: "json list \<Rightarrow> resource_descriptor \<Rightarrow> bool" where
  "completeFolder items r = (case find (isFolderOf r) items of None \<Rightarrow> False
     | Some folder \<Rightarrow> (case arrayField (js ''item'') folder of None \<Rightarrow> False | Some requests \<Rightarrow> length requests = 5))"

definition assertGeneratedPostmanCollection :: "json \<Rightarrow> resource_descriptor list \<Rightarrow> unit artifact" where
  "assertGeneratedPostmanCollection v resources =
     (case (fieldOf (js ''info'') v, arrayField (js ''variable'') v, arrayField (js ''item'') v) of
        (Some header, Some variables, Some items) \<Rightarrow>
          if fieldOf (js ''schema'') header \<noteq> Some (JStr postmanSchemaUrl)
          then Inl (SpringBootExportArtifactError (js ''POSTMAN_INVALID'')
            (js ''Generated Postman collection must use collection format v2.1.''))
          else if \<not> (case find (\<lambda>c. fieldOf (js ''key'') c = Some (text_value ''baseUrl'')) variables of None \<Rightarrow> False
            | Some c \<Rightarrow> (case fieldOf (js ''value'') c of Some (JStr _) \<Rightarrow> True | _ \<Rightarrow> False))
          then Inl (SpringBootExportArtifactError (js ''POSTMAN_BASE_URL_MISSING'')
            (js ''Generated Postman collection must define a baseUrl variable.''))
          else if resources \<noteq> [] \<and> length items \<noteq> length resources
          then Inl (SpringBootExportArtifactError (js ''POSTMAN_RESOURCE_FOLDERS_INVALID'')
            (js ''Generated Postman collection must include one folder per exposed resource.''))
          else (case find (\<lambda>r. \<not> completeFolder items r) resources of None \<Rightarrow> Inr ()
            | Some r \<Rightarrow> Inl (SpringBootExportArtifactError (js ''POSTMAN_CRUD_INVALID'')
                (js ''Generated Postman CRUD requests are incomplete for '' @ tb_javaEntityName (rs_table r) @ js ''.'')))
      | _ \<Rightarrow> Inl (SpringBootExportArtifactError (js ''POSTMAN_INVALID'')
          (js ''Generated Postman collection must use collection format v2.1.'')))"

section \<open>The files\<close>

definition OPENAPI_PATH :: jstring where "OPENAPI_PATH = js ''openapi/generated-api.openapi.json''"

definition POSTMAN_PATH :: jstring where "POSTMAN_PATH = js ''postman/generated-api.postman_collection.json''"

definition MANIFEST_PATH :: jstring where "MANIFEST_PATH = js ''generation-manifest.json''"

definition compareFiles :: "generated_file \<Rightarrow> generated_file \<Rightarrow> int" where
  "compareFiles = byKey compareUnits gf_path"

text \<open>The loop of \<open>assertArtifactFiles\<close>, with the paths seen and the previous one.\<close>

definition artifactFileStep ::
  "(jstring \<Rightarrow> jstring) \<Rightarrow> nat \<Rightarrow> generated_file \<Rightarrow> jstring set \<times> jstring \<Rightarrow> (jstring set \<times> jstring) artifact" where
  "artifactFileStep sha256 i file = (\<lambda>(paths, previousPath).
     bindE (throwUnless (\<not> (gf_path file \<in> paths \<or> compareUnits previousPath (gf_path file) > 0
         \<or> 0xD \<in> set (gf_content file) \<or> \<not> js_endsWith (gf_content file) [0xA]))
       (SpringBootExportArtifactError (js ''ARTIFACT_FILES_INVALID'') (js ''Generated artifact files are invalid.''))) (\<lambda>_.
     bindE (throwUnless (gf_byteLength file = byteLength (gf_content file) \<and> gf_sha256 file = sha256 (gf_content file))
       (SpringBootExportArtifactError (js ''ARTIFACT_HASH_INVALID'') (js ''Generated artifact file checksum is invalid.''))) (\<lambda>_.
     Inr (insert (gf_path file) paths, gf_path file))))"

definition assertArtifactFiles :: "(jstring \<Rightarrow> jstring) \<Rightarrow> generated_file list \<Rightarrow> unit artifact" where
  "assertArtifactFiles sha256 files = bindE (forEntries (artifactFileStep sha256) 0 files ({}, [])) (\<lambda>_. Inr ())"

record export_artifacts =
  ea_openApi :: generated_file
  ea_postmanCollection :: generated_file
  ea_manifest :: generated_file
  ea_files :: "generated_file list"

definition manifestOf ::
  "(jstring \<Rightarrow> jstring) \<Rightarrow> int \<Rightarrow> spring_project \<Rightarrow> jstring \<Rightarrow> generated_file list \<Rightarrow> json" where
  "manifestOf sha256 documentRevision project serialized checksummedFiles =
     JObj [(js ''applicationName'', JStr (sp_applicationName project)), (js ''artifactId'', JStr (sp_artifactId project)),
       (js ''documentRevision'', JNum (of_int documentRevision)), (js ''generatorVersion'', text_value ''0.1.0''),
       (js ''groupId'', JStr (sp_groupId project)), (js ''openapiPath'', JStr OPENAPI_PATH),
       (js ''packageName'', JStr (sp_packageName project)), (js ''postmanCollectionPath'', JStr POSTMAN_PATH),
       (js ''relationalModelSha256'', JStr (sha256 serialized)), (js ''relationalModelVersion'', text_value ''0.1.0''),
       (js ''sha256'', JObj (spread [] (map (\<lambda>f. (gf_path f, JStr (gf_sha256 f))) checksummedFiles))),
       (js ''springBootGeneratorVersion'', JStr (sp_generatorVersion project))]"

text \<open>The errors of an export: its own, and that of the contract of the relational model.\<close>

datatype export_error = ArtifactFailure artifact_error | ContractFailure "validation_issue list"

definition artifactE :: "'a artifact \<Rightarrow> export_error + 'a" where
  "artifactE m = (case m of Inl e \<Rightarrow> Inl (ArtifactFailure e) | Inr x \<Rightarrow> Inr x)"

definition contractE :: "validation_issue list + 'a \<Rightarrow> export_error + 'a" where
  "contractE m = (case m of Inl e \<Rightarrow> Inl (ContractFailure e) | Inr x \<Rightarrow> Inr x)"

definition generateSpringBootExportArtifacts ::
  "(relational_model \<Rightarrow> validation_issue list) \<Rightarrow> (rat \<Rightarrow> jstring) \<Rightarrow> (jstring \<Rightarrow> jstring)
   \<Rightarrow> relational_model \<Rightarrow> int \<Rightarrow> spring_project \<Rightarrow> export_error + export_artifacts" where
  "generateSpringBootExportArtifacts contract showNumber sha256 m documentRevision project =
     (let tables = tablesById (rm_tables m) in
      bindE (artifactE (throwUnless (0 \<le> documentRevision \<and> documentRevision \<le> 9007199254740991)
        (SpringBootExportArtifactError (js ''DOCUMENT_REVISION_INVALID'')
          (js ''Document revision must be a non-negative integer.'')))) (\<lambda>_.
      bindE (artifactE (buildResourceDescriptors m tables)) (\<lambda>resources.
      bindE (artifactE (buildOpenApiDocument project resources tables)) (\<lambda>openApiDocument.
      bindE (artifactE (assertGeneratedOpenApiDocument openApiDocument resources)) (\<lambda>_.
      bindE (artifactE (buildPostmanCollection showNumber project resources tables)) (\<lambda>postmanCollection.
      bindE (artifactE (assertGeneratedPostmanCollection postmanCollection resources)) (\<lambda>_.
      let openApi = generatedJsonFile showNumber sha256 OPENAPI_PATH openApiDocument;
          postmanFile = generatedJsonFile showNumber sha256 POSTMAN_PATH postmanCollection;
          checksummedFiles = toSorted compareFiles (sp_files project @ [openApi, postmanFile]) in
      bindE (contractE (serializeRelationalModel contract showNumber m)) (\<lambda>serialized.
      let manifest = generatedJsonFile showNumber sha256 MANIFEST_PATH
            (manifestOf sha256 documentRevision project serialized checksummedFiles);
          files = toSorted compareFiles [openApi, postmanFile, manifest] in
      bindE (artifactE (assertArtifactFiles sha256 files)) (\<lambda>_.
      Inr \<lparr>ea_openApi = openApi, ea_postmanCollection = postmanFile, ea_manifest = manifest, ea_files = files\<rparr>)))))))))"

end
