(* ===== verification/Export_Laws.thy ===== *)
theory Export_Laws
  imports Export_Resources Relational_Properties
begin

text \<open>
  Laws of the resources of an export: the search for a path decides reachability, the order of creation
  puts a resource after what it depends on unless a cycle is in the way, and for a consistent schema the
  descriptors exist.
\<close>

section \<open>Paths\<close>

definition depends :: "(jstring, resource_descriptor) jmap \<Rightarrow> (jstring \<times> jstring) set" where
  "depends byId = {(i, j). j \<in> set (dependenciesOf byId i)}"

text \<open>The identifiers a search without success adds to \<open>seen\<close> are closed under dependencies.\<close>

lemma somePath_result:
  "fst (somePath byId target seen ids) \<Longrightarrow> \<exists>i \<in> set ids. (i, target) \<in> (depends byId)\<^sup>*"
  "\<not> fst (somePath byId target seen ids) \<Longrightarrow>
     (let seen' = snd (somePath byId target seen ids) in seen \<subseteq> seen' \<and> set ids \<subseteq> seen'
        \<and> target \<notin> set ids \<and> target \<notin> seen' - seen \<and> depends byId `` (seen' - seen) \<subseteq> seen')"
proof (induction byId target seen ids rule: somePath.induct)
  case (2 byId target seen i ids)
  let ?deep = "somePath byId target (insert i seen) (dependenciesOf byId i)"
  let ?call = "if i = target then (True, seen) else if i \<in> seen then (False, seen) else ?deep"
  obtain b s where bs: "?call = (b, s)" by fastforce
  have step: "somePath byId target seen (i # ids) = (if b then (True, s) else somePath byId target s ids)"
    using bs by (cases b) (simp_all add: somePath.simps)
  have deeper: "\<exists>j \<in> set (dependenciesOf byId i). (j, target) \<in> (depends byId)\<^sup>*"
    if "fst ?deep" "i \<noteq> target" "i \<notin> seen"
    using "2.IH"(1) that by blast
  have found: "(i, target) \<in> (depends byId)\<^sup>*" if b
  proof (cases "i = target")
    case False
    with bs that have "i \<notin> seen" "fst ?deep" by (auto split: if_splits)
    with deeper False show ?thesis by (auto simp: depends_def intro: converse_rtrancl_into_rtrancl)
  qed simp
  have closed: "seen \<subseteq> s" "i \<in> s" "i \<noteq> target" "target \<notin> s - seen" "depends byId `` (s - seen) \<subseteq> s" if "\<not> b"
  proof -
    have "i \<noteq> target" using bs that by (auto split: if_splits)
    moreover have "seen \<subseteq> s \<and> i \<in> s \<and> target \<notin> s - seen \<and> depends byId `` (s - seen) \<subseteq> s"
    proof (cases "i \<in> seen")
      case True
      with bs \<open>i \<noteq> target\<close> show ?thesis by auto
    next
      case False
      with bs that \<open>i \<noteq> target\<close> have "\<not> fst ?deep" "snd ?deep = s" by simp_all
      with "2.IH"(2) [OF \<open>i \<noteq> target\<close> False] have deep: "insert i seen \<subseteq> s" "set (dependenciesOf byId i) \<subseteq> s"
          "target \<notin> s - insert i seen" "depends byId `` (s - insert i seen) \<subseteq> s"
        by (simp_all add: Let_def)
      moreover have "depends byId `` {i} \<subseteq> s" using deep(2) by (auto simp: depends_def)
      ultimately show ?thesis using \<open>i \<noteq> target\<close> by blast
    qed
    ultimately show "seen \<subseteq> s" "i \<in> s" "i \<noteq> target" "target \<notin> s - seen" "depends byId `` (s - seen) \<subseteq> s"
      by blast+
  qed
  {
    case 1
    then show ?case
      using found "2.IH"(3) [OF bs [symmetric]] by (cases b) (auto simp: step)
  next
    case 2
    then have b: "\<not> b" "\<not> fst (somePath byId target s ids)" by (auto simp: step split: if_splits)
    with "2.IH"(4) [OF bs [symmetric]] closed show ?case
      by (simp add: step Let_def) blast
  }
qed (simp_all add: somePath.simps)

lemma pathExists_iff: "pathExists i target byId \<longleftrightarrow> (i, target) \<in> (depends byId)\<^sup>*"
proof
  assume "pathExists i target byId"
  then show "(i, target) \<in> (depends byId)\<^sup>*"
    using somePath_result(1) [of byId target "{}" "[i]"] by (simp add: pathExists_def)
next
  assume path: "(i, target) \<in> (depends byId)\<^sup>*"
  show "pathExists i target byId"
  proof (rule ccontr)
    assume "\<not> pathExists i target byId"
    then obtain s where s: "i \<in> s" "target \<notin> s" "depends byId `` s \<subseteq> s"
      using somePath_result(2) [of byId target "{}" "[i]"] by (auto simp: pathExists_def Let_def)
    from path have "target \<in> s" by (induction rule: rtrancl_induct) (use s in auto)
    with s(2) show False ..
  qed
qed

section \<open>The order of creation\<close>

lemma resourceById_distinct:
  assumes "distinct (map rs_id rs)"
  shows "mapGet (resourceById rs) i = Some r \<longleftrightarrow> r \<in> set rs \<and> rs_id r = i"
proof
  assume "r \<in> set rs \<and> rs_id r = i"
  moreover have "distinct (map rs_id rs) \<Longrightarrow> r \<in> set rs \<Longrightarrow>
      mapGet (foldl (\<lambda>m r. mapSet (rs_id r) r m) m rs) (rs_id r) = Some r" for m
  proof (induction rs arbitrary: m)
    case (Cons q rs)
    have kept: "mapGet (foldl (\<lambda>m r. mapSet (rs_id r) r m) m rs) j = mapGet m j" if "j \<notin> rs_id ` set rs" for m j
      using that by (induction rs arbitrary: m) (simp_all add: map_simps)
    from Cons show ?case by (auto simp: kept map_simps)
  qed simp
  ultimately show "mapGet (resourceById rs) i = Some r" using assms by (auto simp: resourceById_def)
qed (blast dest: resourceById_id)

text \<open>In a finite set where everything has a successor, everything reaches a cycle.\<close>

lemma reaches_cycle:
  assumes "finite K" "\<And>i. i \<in> K \<Longrightarrow> E `` {i} \<inter> K \<noteq> {}" "i \<in> K"
  shows "\<exists>c. (i, c) \<in> E\<^sup>* \<and> (c, c) \<in> E\<^sup>+"
proof (rule ccontr)
  assume none: "\<not> ?thesis"
  let ?R = "{j \<in> K. (i, j) \<in> E\<^sup>*}"
  have "acyclic (E \<inter> ?R \<times> ?R)"
  proof (rule acyclicI, intro allI notI)
    fix c
    assume c: "(c, c) \<in> (E \<inter> ?R \<times> ?R)\<^sup>+"
    then have "c \<in> ?R" by (induction rule: converse_trancl_induct) auto
    moreover have "(c, c) \<in> E\<^sup>+" using c by (rule trancl_mono) blast
    ultimately show False using none by blast
  qed
  moreover have "finite (E \<inter> ?R \<times> ?R)" using assms(1) by simp
  ultimately have "wf ((E \<inter> ?R \<times> ?R)\<inverse>)" by (intro finite_acyclic_wf_converse)
  moreover have "i \<in> ?R" using assms(3) by simp
  ultimately obtain c where c: "c \<in> ?R" "\<And>j. (j, c) \<in> (E \<inter> ?R \<times> ?R)\<inverse> \<Longrightarrow> j \<notin> ?R"
    by (metis (no_types, lifting) wfE_min)
  then obtain j where "(c, j) \<in> E" "j \<in> K" using assms(2) by blast
  with c show False by (auto intro: rtrancl_into_rtrancl)
qed

abbreviation cyclic_from :: "resource_descriptor list \<Rightarrow> jstring \<Rightarrow> bool" where
  "cyclic_from rs i \<equiv> \<exists>c. (i, c) \<in> (depends (resourceById rs))\<^sup>* \<and> (c, c) \<in> (depends (resourceById rs))\<^sup>+"

text \<open>The state of the loop: what waits for what, restricted to the resources that are not yet in order.\<close>

definition waiting :: "resource_descriptor list \<Rightarrow> (jstring, jstring set) jmap \<Rightarrow> bool" where
  "waiting rs u \<longleftrightarrow> distinct (mapKeys u) \<and> set (mapKeys u) \<subseteq> rs_id ` set rs
     \<and> (\<forall>(i, ds) \<in> set u. ds = depends (resourceById rs) `` {i} \<inter> set (mapKeys u))"

lemma resolved_value: "(i, ds) \<in> set (resolved u r) \<longleftrightarrow> i \<noteq> rs_id r \<and> (\<exists>es. (i, es) \<in> set u \<and> ds = es - {rs_id r})"
  by (force simp: resolved_def AList.delete_eq)

lemma foldl_resolved_value:
  "(i, ds) \<in> set (foldl resolved u rs) \<longleftrightarrow> i \<notin> rs_id ` set rs \<and> (\<exists>es. (i, es) \<in> set u \<and> ds = es - rs_id ` set rs)"
  by (induction rs arbitrary: u) (auto simp: resolved_value)

lemma waiting_step:
  assumes "waiting rs u"
  shows "waiting rs (foldl resolved u ready)"
proof -
  have keys: "set (mapKeys (foldl resolved u ready)) = set (mapKeys u) - rs_id ` set ready"
    unfolding foldl_resolved_keys by auto
  have "ds = depends (resourceById rs) `` {i} \<inter> set (mapKeys (foldl resolved u ready))"
    if "(i, ds) \<in> set (foldl resolved u ready)" for i ds
  proof -
    from that obtain es where "(i, es) \<in> set u" "ds = es - rs_id ` set ready"
      unfolding foldl_resolved_value by blast
    moreover from this assms have "es = depends (resourceById rs) `` {i} \<inter> set (mapKeys u)"
      unfolding waiting_def by blast
    ultimately show ?thesis unfolding keys by blast
  qed
  moreover have "distinct (mapKeys (foldl resolved u ready))"
    using assms unfolding foldl_resolved_keys waiting_def by simp
  moreover have "set (mapKeys (foldl resolved u ready)) \<subseteq> rs_id ` set rs"
    using assms keys unfolding waiting_def by blast
  ultimately show ?thesis unfolding waiting_def by blast
qed

text \<open>Everything comes after what it depends on, or reaches a cycle.\<close>

fun placed :: "resource_descriptor list \<Rightarrow> jstring set \<Rightarrow> resource_descriptor list \<Rightarrow> bool" where
  "placed rs before [] \<longleftrightarrow> True"
| "placed rs before (r # xs) \<longleftrightarrow>
     (depends (resourceById rs) `` {rs_id r} \<inter> rs_id ` set rs \<subseteq> before \<or> cyclic_from rs (rs_id r))
     \<and> placed rs (insert (rs_id r) before) xs"

lemma placed_append: "placed rs before (xs @ ys) \<longleftrightarrow> placed rs before xs \<and> placed rs (before \<union> rs_id ` set xs) ys"
  by (induction xs arbitrary: before) (simp_all add: insert_commute Un_commute)

lemma placed_each:
  assumes "\<And>r. r \<in> set xs \<Longrightarrow> depends (resourceById rs) `` {rs_id r} \<inter> rs_id ` set rs \<subseteq> before \<or> cyclic_from rs (rs_id r)"
  shows "before \<subseteq> b \<Longrightarrow> placed rs b xs"
  using assms by (induction xs arbitrary: b) (simp_all, blast+)

lemma ready_ids:
  assumes "distinct (map rs_id rs)" "waiting rs u" "r \<in> set (readyResources rs u)"
  shows "r \<in> set rs" "rs_id r \<in> set (mapKeys u)" "depends (resourceById rs) `` {rs_id r} \<inter> set (mapKeys u) = {}"
proof -
  have r: "(rs_id r, {}) \<in> set u" "mapGet (resourceById rs) (rs_id r) = Some r"
    using assms(3) unfolding set_readyResources by blast+
  then show "r \<in> set rs" using resourceById_id by blast
  show "rs_id r \<in> set (mapKeys u)" using r(1) by force
  show "depends (resourceById rs) `` {rs_id r} \<inter> set (mapKeys u) = {}"
    using r(1) assms(2) unfolding waiting_def by blast
qed

lemma not_ready:
  assumes "distinct (map rs_id rs)" "waiting rs u" "readyResources rs u = []" "i \<in> set (mapKeys u)"
  shows "depends (resourceById rs) `` {i} \<inter> set (mapKeys u) \<noteq> {}"
proof
  assume none: "depends (resourceById rs) `` {i} \<inter> set (mapKeys u) = {}"
  from assms(4) obtain ds where ds: "(i, ds) \<in> set u" by auto
  with assms(2) none have "ds = {}" unfolding waiting_def by blast
  moreover obtain r where "r \<in> set rs" "rs_id r = i" using assms(2,4) unfolding waiting_def by blast
  ultimately have "r \<in> set (readyResources rs u)"
    using ds by (simp add: set_readyResources resourceById_distinct [OF assms(1)])
  with assms(3) show False by simp
qed

lemma found_ids:
  assumes "distinct (map rs_id rs)"
  shows "set ids \<subseteq> rs_id ` set rs \<Longrightarrow> map rs_id (List.map_filter (mapGet (resourceById rs)) ids) = ids"
  by (induction ids) (auto simp: List.map_filter_simps resourceById_distinct [OF assms] split: option.split)

lemma ready_distinct:
  assumes "distinct (map rs_id rs)" "waiting rs u"
  shows "distinct (map rs_id (readyResources rs u))"
proof -
  have "List.map_filter (\<lambda>(i, ds). if ds = {} then mapGet (resourceById rs) i else None) u =
      List.map_filter (mapGet (resourceById rs)) (mapKeys (filter (\<lambda>(i, ds). ds = {}) u))"
    by (induction u) (auto simp: List.map_filter_simps split: option.splits if_splits)
  moreover have "set (mapKeys (filter (\<lambda>(i, ds). ds = {}) u)) \<subseteq> rs_id ` set rs"
    using assms(2) unfolding waiting_def by force
  ultimately have ids: "map rs_id (List.map_filter (\<lambda>(i, ds). if ds = {} then mapGet (resourceById rs) i else None) u) =
      mapKeys (filter (\<lambda>(i, ds). ds = {}) u)"
    by (simp only: found_ids [OF assms(1)])
  have "mset (map rs_id (readyResources rs u)) = mset (mapKeys (filter (\<lambda>(i, ds). ds = {}) u))"
    unfolding readyResources_def ids [symmetric] by (simp only: mset_map mset_toSorted)
  moreover have "distinct (mapKeys (filter (\<lambda>(i, ds). ds = {}) u))"
    using assms(2) unfolding waiting_def by (blast intro: distinct_map_filter)
  ultimately show ?thesis by (metis mset_eq_imp_distinct_iff)
qed

lemma dependencyLoop_order:
  assumes "distinct (map rs_id rs)"
  shows "waiting rs u \<Longrightarrow> distinct (map rs_id (dependencyLoop rs u)) \<and> set (dependencyLoop rs u) \<subseteq> set rs
    \<and> rs_id ` set (dependencyLoop rs u) = set (mapKeys u)
    \<and> placed rs (rs_id ` set rs - set (mapKeys u)) (dependencyLoop rs u)"
  using assms
proof (induction rs u rule: dependencyLoop.induct)
  case (1 rs u)
  note ids = "1.prems"(2) and u = "1.prems"(1)
  let ?ready = "readyResources rs u"
  let ?rest = "dependencyLoop rs (foldl resolved u ?ready)"
  consider "u = []" | "u \<noteq> []" "?ready = []" | "u \<noteq> []" "?ready \<noteq> []" by blast
  then show ?case
  proof cases
    case 1
    then show ?thesis by (simp add: dependencyLoop.simps [of rs "[]"])
  next
    case 2
    let ?left = "List.map_filter (mapGet (resourceById rs)) (mapKeys u)"
    have loop: "dependencyLoop rs u = toSorted (byKey compareUnits rs_id) ?left"
      using 2 by (simp add: dependencyLoop.simps [of rs u])
    have left: "map rs_id ?left = mapKeys u" using found_ids [OF ids] u unfolding waiting_def by blast
    have keys: "rs_id ` set (dependencyLoop rs u) = set (mapKeys u)"
      unfolding loop set_toSorted using left by (metis list.set_map)
    have "mset (map rs_id (dependencyLoop rs u)) = mset (mapKeys u)"
      unfolding loop mset_map mset_toSorted using left by (metis mset_map)
    then have "distinct (map rs_id (dependencyLoop rs u))"
      using u unfolding waiting_def by (metis mset_eq_imp_distinct_iff)
    moreover have "set (dependencyLoop rs u) \<subseteq> set rs"
      unfolding loop by (auto simp: List.map_filter_def dest: resourceById_id)
    moreover have "cyclic_from rs (rs_id r)" if "r \<in> set (dependencyLoop rs u)" for r
      using that keys not_ready [OF ids u 2(2)] by (intro reaches_cycle [of "set (mapKeys u)"]) auto
    then have "placed rs b (dependencyLoop rs u)" for b by (intro placed_each [of _ rs b]) blast+
    ultimately show ?thesis using keys by blast
  next
    case 3
    have loop: "dependencyLoop rs u = ?ready @ ?rest" using 3 by (simp add: dependencyLoop.simps [of rs u] Let_def)
    note IH = "1.IH" [OF 3(1) refl 3(2) waiting_step [OF u] ids]
    have keys: "set (mapKeys (foldl resolved u ?ready)) = set (mapKeys u) - rs_id ` set ?ready"
      unfolding foldl_resolved_keys by auto
    have ready: "rs_id ` set ?ready \<subseteq> set (mapKeys u)" "set ?ready \<subseteq> set rs"
      using ready_ids [OF ids u] by blast+
    have "placed rs (rs_id ` set rs - set (mapKeys u)) ?ready"
      using ready_ids(3) [OF ids u] by (intro placed_each [of _ rs "rs_id ` set rs - set (mapKeys u)"]) blast+
    moreover have "rs_id ` set rs - (set (mapKeys u) - rs_id ` set ?ready) =
        (rs_id ` set rs - set (mapKeys u)) \<union> rs_id ` set ?ready"
      using ready by blast
    ultimately have "placed rs (rs_id ` set rs - set (mapKeys u)) (dependencyLoop rs u)"
      using IH unfolding loop placed_append keys by simp
    moreover have "distinct (map rs_id (dependencyLoop rs u))"
      using IH ready_distinct [OF ids u] unfolding loop keys by auto
    moreover have "rs_id ` set (dependencyLoop rs u) = set (mapKeys u)"
      using IH ready unfolding loop keys by auto
    ultimately show ?thesis using IH ready unfolding loop by auto
  qed
qed

lemma mapSet_new: "k \<notin> set (mapKeys m) \<Longrightarrow> mapSet k v m = m @ [(k, v)]"
  by (induction m) auto

lemma foldl_mapSet_new:
  "distinct (mapKeys m @ map key xs) \<Longrightarrow> foldl (\<lambda>m x. mapSet (key x) (val x) m) m xs = m @ map (\<lambda>x. (key x, val x)) xs"
  by (induction xs arbitrary: m) (auto simp: mapSet_new)

lemma unresolved_waiting:
  assumes "distinct (map rs_id rs)"
  shows "waiting rs (unresolvedOf rs)" "set (mapKeys (unresolvedOf rs)) = rs_id ` set rs"
proof -
  have u: "unresolvedOf rs = map (\<lambda>r. (rs_id r, set (filter (\<lambda>i. mapGet (resourceById rs) i \<noteq> None) (rs_dependencies r)))) rs"
    unfolding unresolvedOf_def using assms by (subst foldl_mapSet_new) simp_all
  then show keys: "set (mapKeys (unresolvedOf rs)) = rs_id ` set rs" by force
  have "set (filter (\<lambda>i. mapGet (resourceById rs) i \<noteq> None) (rs_dependencies r)) =
      depends (resourceById rs) `` {rs_id r} \<inter> rs_id ` set rs" if "r \<in> set rs" for r
  proof -
    have "mapGet (resourceById rs) (rs_id r) = Some r" using that by (simp add: resourceById_distinct [OF assms])
    then have "depends (resourceById rs) `` {rs_id r} = set (rs_dependencies r)"
      by (auto simp: depends_def dependenciesOf_def)
    moreover have "mapGet (resourceById rs) i \<noteq> None \<longleftrightarrow> i \<in> rs_id ` set rs" for i
      by (auto simp: resourceById_distinct [OF assms])
    ultimately show ?thesis by auto
  qed
  then have "\<forall>(i, ds) \<in> set (unresolvedOf rs). ds = depends (resourceById rs) `` {i} \<inter> rs_id ` set rs"
    unfolding u by fastforce
  moreover have "distinct (mapKeys (unresolvedOf rs))" using assms unfolding u by (simp add: comp_def)
  ultimately show "waiting rs (unresolvedOf rs)" unfolding waiting_def keys by blast
qed

lemma dependencyOrder_laws:
  assumes "distinct (map rs_id rs)"
  shows "mset (dependencyOrder rs) = mset rs" "placed rs {} (dependencyOrder rs)"
proof -
  have order: "distinct (map rs_id (dependencyOrder rs))" "set (dependencyOrder rs) \<subseteq> set rs"
    "rs_id ` set (dependencyOrder rs) = rs_id ` set rs" "placed rs {} (dependencyOrder rs)"
    using dependencyLoop_order [OF assms unresolved_waiting(1) [OF assms]] unresolved_waiting(2) [OF assms]
    by (simp_all add: dependencyOrder_def)
  have "set (dependencyOrder rs) = set rs"
  proof
    show "set rs \<subseteq> set (dependencyOrder rs)"
    proof
      fix r assume "r \<in> set rs"
      moreover from this obtain q where "q \<in> set (dependencyOrder rs)" "rs_id q = rs_id r"
        using order(3) by (metis imageE imageI)
      ultimately show "r \<in> set (dependencyOrder rs)"
        using order(2) assms by (metis distinct_map inj_onD subsetD)
    qed
  qed (rule order(2))
  then show "mset (dependencyOrder rs) = mset rs"
    using order(1) assms by (simp add: distinct_map set_eq_iff_mset_eq_distinct)
  show "placed rs {} (dependencyOrder rs)" by (rule order(4))
qed

lemma depends_on:
  assumes "distinct (map rs_id rs)" "r \<in> set rs"
  shows "depends (resourceById rs) `` {rs_id r} = set (rs_dependencies r)"
proof -
  have "mapGet (resourceById rs) (rs_id r) = Some r" using assms(2) by (simp add: resourceById_distinct [OF assms(1)])
  then show ?thesis by (auto simp: depends_def dependenciesOf_def)
qed

section \<open>Descriptors of a consistent schema\<close>

lemma mapE_Inr: "mapE f xs = Inr ys \<longleftrightarrow> list_all2 (\<lambda>x y. f x = Inr y) xs ys"
  by (induction xs arbitrary: ys) (auto simp: res_simps list_all2_Cons1)

lemma mapE_Inl: "mapE f xs = Inl e \<Longrightarrow> \<exists>x \<in> set xs. f x = Inl e"
  by (induction xs) (auto simp: res_simps)

lemma mapE_total:
  assumes "\<And>x. x \<in> set xs \<Longrightarrow> \<exists>y. f x = Inr y"
  obtains ys where "mapE f xs = Inr ys"
proof (cases "mapE f xs")
  case (Inl e)
  from mapE_Inl [OF this] obtain x where "x \<in> set xs" "f x = Inl e" by blast
  with assms [of x] show thesis by simp
qed (rule that)

lemma list_all2_each: "list_all2 P xs ys \<Longrightarrow> y \<in> set ys \<Longrightarrow> \<exists>x \<in> set xs. P x y"
  by (metis in_set_conv_nth list_all2_conv_all_nth)

lemma mapE_each: "mapE f xs = Inr ys \<Longrightarrow> y \<in> set ys \<Longrightarrow> \<exists>x \<in> set xs. f x = Inr y"
  unfolding mapE_Inr by (rule list_all2_each)

lemma filterE_total:
  assumes "\<And>x. x \<in> set xs \<Longrightarrow> f x = Inr (P x)"
  shows "filterE f xs = Inr (filter P xs)"
  using assms by (induction xs) auto

text \<open>A consistent schema whose tables have keys, as the JSON schema of the contract demands.\<close>

definition exportable :: "relational_model \<Rightarrow> bool" where
  "exportable m \<longleftrightarrow> consistent_schema m \<and> (\<forall>t \<in> set (rm_tables m). ky_columnIds (tb_primaryKey t) \<noteq> [])"

abbreviation tables_of :: "relational_model \<Rightarrow> table_map" where
  "tables_of m \<equiv> tablesById (rm_tables m)"

lemma exportableD:
  assumes "exportable m"
  shows "distinct (map tb_id (rm_tables m))" "distinct (map tb_physicalName (rm_tables m))"
    "\<And>t. t \<in> set (rm_tables m) \<Longrightarrow> set (ky_columnIds (tb_primaryKey t)) \<subseteq> columnIds t"
    "\<And>t. t \<in> set (rm_tables m) \<Longrightarrow> ky_columnIds (tb_primaryKey t) \<noteq> []"
    "\<And>t. t \<in> set (rm_tables m) \<Longrightarrow> is_subclass t \<Longrightarrow> reaches_root (rm_tables m) t"
    "\<And>t k. t \<in> set (rm_tables m) \<Longrightarrow> k \<in> set (tb_foreignKeys t) \<Longrightarrow> consistent_reference (rm_tables m) t k"
proof -
  have parts: "consistent_parts (rm_tables m) t" "is_subclass t \<longrightarrow> consistent_subclass (rm_tables m) t"
    if "t \<in> set (rm_tables m)" for t
    using assms that by (simp_all add: exportable_def consistent_schema_def consistent_table_def consistent_inheritance_def)
  show "distinct (map tb_id (rm_tables m))" "distinct (map tb_physicalName (rm_tables m))"
    using assms by (simp_all add: exportable_def consistent_schema_def)
  fix t assume t: "t \<in> set (rm_tables m)"
  note parts = parts [OF t]
  from parts(1) show "set (ky_columnIds (tb_primaryKey t)) \<subseteq> columnIds t"
    unfolding consistent_parts_def columnIds_def by (auto simp: subset_iff image_iff)
  from assms t show "ky_columnIds (tb_primaryKey t) \<noteq> []" by (simp add: exportable_def)
  show "reaches_root (rm_tables m) t" if "is_subclass t" using parts(2) that unfolding consistent_subclass_def by blast
  show "consistent_reference (rm_tables m) t k" if "k \<in> set (tb_foreignKeys t)" for k
    using parts(1) that unfolding consistent_parts_def by blast
qed

lemma hierarchy_climbs:
  assumes "distinct (map tb_id ts)"
  shows "climbs ts n t \<Longrightarrow> t \<in> set ts \<Longrightarrow>
      \<forall>u \<in> set ts. tb_id u \<in> seen \<longrightarrow> is_subclass u \<and> (\<forall>m. climbs ts m u \<longrightarrow> n < m) \<Longrightarrow>
    \<exists>us. hierarchy (tablesById ts) seen t = Inr (us @ [t]) \<and> set us \<subseteq> set ts \<and> \<not> is_subclass (hd (us @ [t]))"
proof (induction n t arbitrary: seen rule: climbs.induct)
  case (climbs_root t u)
  have u: "\<not> is_subclass u" using climbs_root.hyps(4) root_not_subclass by blast
  have "tb_id u \<noteq> tb_id t" using distinct_key_eq [OF assms climbs_root.hyps(3) climbs_root.prems(1)] u climbs_root.hyps(1) by metis
  moreover have "tb_id u \<notin> seen" using u climbs_root by blast
  moreover have "tb_id t \<notin> seen" using climbs.climbs_root [OF climbs_root.hyps] climbs_root.prems by blast
  moreover have "mapGet (tablesById ts) (tb_id u) = Some u"
    using climbs_root.hyps(3) by (simp add: tablesById_Some [OF assms])
  ultimately have "hierarchy (tablesById ts) seen t = Inr ([u] @ [t])"
    using climbs_root.hyps u by (simp add: hierarchy.simps [of _ seen] hierarchy.simps [of _ "insert i s" for i s] parentOf_def)
  with u climbs_root.hyps(3) show ?case by (intro exI [of _ "[u]"]) simp
next
  case (climbs_Suc t u n)
  have t: "climbs ts (Suc n) t" by (rule climbs.climbs_Suc [OF climbs_Suc.hyps])
  have "\<forall>v \<in> set ts. tb_id v \<in> insert (tb_id t) seen \<longrightarrow> is_subclass v \<and> (\<forall>m. climbs ts m v \<longrightarrow> n < m)"
  proof (intro ballI impI)
    fix v assume v: "v \<in> set ts" "tb_id v \<in> insert (tb_id t) seen"
    show "is_subclass v \<and> (\<forall>m. climbs ts m v \<longrightarrow> n < m)"
    proof (cases "tb_id v = tb_id t")
      case True
      then have "v = t" using distinct_key_eq [OF assms v(1) climbs_Suc.prems(1)] by simp
      then show ?thesis using climbs_Suc.hyps(1) climbs_unique [OF assms t] by auto
    next
      case False
      with v climbs_Suc.prems(2) show ?thesis by (metis Suc_lessD insertE)
    qed
  qed
  from climbs_Suc.IH [OF climbs_Suc.hyps(3) this] obtain us where
    us: "hierarchy (tablesById ts) (insert (tb_id t) seen) u = Inr (us @ [u])" "set us \<subseteq> set ts" "\<not> is_subclass (hd (us @ [u]))"
    by blast
  have "tb_id t \<notin> seen" using t climbs_Suc.prems by blast
  moreover have "mapGet (tablesById ts) (tb_id u) = Some u"
    using climbs_Suc.hyps(3) by (simp add: tablesById_Some [OF assms])
  ultimately have "hierarchy (tablesById ts) seen t = Inr ((us @ [u]) @ [t])"
    using climbs_Suc.hyps us(1) by (simp add: hierarchy.simps [of _ seen] parentOf_def)
  with us(2,3) climbs_Suc.hyps(3) show ?case by (intro exI [of _ "us @ [u]"]) (cases us; simp)
qed

lemma hierarchyTables_ok:
  assumes "exportable m" "t \<in> set (rm_tables m)"
  obtains us where "hierarchyTables (tables_of m) t = Inr (us @ [t])" "set us \<subseteq> set (rm_tables m)"
    "\<not> is_subclass (hd (us @ [t]))" "hd (us @ [t]) \<in> set (rm_tables m)"
proof -
  have "\<exists>us. hierarchyTables (tables_of m) t = Inr (us @ [t]) \<and> set us \<subseteq> set (rm_tables m) \<and> \<not> is_subclass (hd (us @ [t]))"
  proof (cases "is_subclass t")
    case True
    with exportableD(5) [OF assms] obtain n where "climbs (rm_tables m) n t" unfolding reaches_root_climbs by blast
    from hierarchy_climbs [OF exportableD(1) [OF assms(1)] this assms(2), of "{}"] show ?thesis
      unfolding hierarchyTables_def by simp
  next
    case False
    then show ?thesis
      by (intro exI [of _ "[]"]) (simp add: hierarchyTables_def hierarchy.simps [of _ "{}"] parentOf_def)
  qed
  then obtain us where us: "hierarchyTables (tables_of m) t = Inr (us @ [t])" "set us \<subseteq> set (rm_tables m)"
    "\<not> is_subclass (hd (us @ [t]))" by blast
  moreover from us(2) assms(2) have "hd (us @ [t]) \<in> set (rm_tables m)" by (cases us) auto
  ultimately show thesis by (rule that)
qed

lemma ownedColumns_ok:
  assumes "set ids \<subseteq> columnIds t"
  obtains cs where "ownedColumns t ids = Inr cs" "map (\<lambda>c. co_id (oc_column c)) cs = ids"
    "\<forall>c \<in> set cs. oc_owner c = t \<and> oc_column c \<in> set (tb_columns t)"
proof -
  have "\<exists>cs. ownedColumns t ids = Inr cs \<and> map (\<lambda>c. co_id (oc_column c)) cs = ids
      \<and> (\<forall>c \<in> set cs. oc_owner c = t \<and> oc_column c \<in> set (tb_columns t))"
    using assms
  proof (induction ids)
    case (Cons i ids)
    then obtain cs where cs: "ownedColumns t ids = Inr cs" "map (\<lambda>c. co_id (oc_column c)) cs = ids"
      "\<forall>c \<in> set cs. oc_owner c = t \<and> oc_column c \<in> set (tb_columns t)" by auto
    have "find (\<lambda>c. co_id c = i) (tb_columns t) \<noteq> None" using Cons.prems by (auto simp: find_None_iff columnIds_def)
    then obtain c where "find (\<lambda>c. co_id c = i) (tb_columns t) = Some c" by blast
    moreover from this have "co_id c = i" "c \<in> set (tb_columns t)" by (auto simp: find_Some_iff)
    ultimately show ?case using cs
      by (intro exI [of _ "\<lparr>oc_owner = t, oc_column = c\<rparr> # cs"]) (simp add: ownedColumns_def columnById_def)
  qed (simp add: ownedColumns_def)
  with that show thesis by blast
qed

lemma rootTable_ok:
  assumes "exportable m" "t \<in> set (rm_tables m)"
  obtains root where "rootTable (tables_of m) t = Inr root" "root \<in> set (rm_tables m)" "\<not> is_subclass root"
proof -
  obtain us where "hierarchyTables (tables_of m) t = Inr (us @ [t])" "hd (us @ [t]) \<in> set (rm_tables m)"
    "\<not> is_subclass (hd (us @ [t]))" by (rule hierarchyTables_ok [OF assms])
  then show thesis by (intro that [of "hd (us @ [t])"]) (simp_all add: rootTable_def)
qed

lemma identifierDescriptor_ok:
  assumes "exportable m" "t \<in> set (rm_tables m)"
  obtains d root where "identifierDescriptor (tables_of m) t = Inr d" "rootTable (tables_of m) t = Inr root"
    "map (\<lambda>c. co_id (oc_column c)) (id_columns d) = ky_columnIds (tb_primaryKey root)" "id_columns d \<noteq> []"
    "\<forall>c \<in> set (id_columns d). oc_owner c = root \<and> oc_column c \<in> set (tb_columns root)"
proof -
  obtain root where root: "rootTable (tables_of m) t = Inr root" "root \<in> set (rm_tables m)"
    by (rule rootTable_ok [OF assms])
  obtain cs where cs: "ownedColumns root (ky_columnIds (tb_primaryKey root)) = Inr cs"
      "map (\<lambda>c. co_id (oc_column c)) cs = ky_columnIds (tb_primaryKey root)"
      "\<forall>c \<in> set cs. oc_owner c = root \<and> oc_column c \<in> set (tb_columns root)"
    by (rule ownedColumns_ok [OF exportableD(3) [OF assms(1) root(2)]])
  moreover from this have "cs \<noteq> []" using exportableD(4) [OF assms(1) root(2)] by auto
  ultimately show thesis using root
    by (intro that [of "\<lparr>id_columns = cs, id_composite = length cs > 1,
       id_generated = (length cs = 1 \<and> co_generated (oc_column (hd cs)))\<rparr>" root])
      (simp_all add: identifierDescriptor_def)
qed

lemma entityFields_ok:
  assumes "exportable m" "t \<in> set (rm_tables m)"
  obtains cs where "entityFields (tables_of m) t = Inr cs"
    "\<forall>c \<in> set cs. oc_owner c \<in> set (rm_tables m) \<and> oc_column c \<in> set (tb_columns (oc_owner c))"
proof -
  obtain d where d: "identifierDescriptor (tables_of m) t = Inr d" by (rule identifierDescriptor_ok [OF assms])
  obtain us where us: "hierarchyTables (tables_of m) t = Inr (us @ [t])" "set us \<subseteq> set (rm_tables m)"
    by (rule hierarchyTables_ok [OF assms])
  have "set (us @ [t]) \<subseteq> set (rm_tables m)" using us(2) assms(2) by simp
  with d us(1) show thesis
    by (intro that) (auto simp: entityFields_def entityDirectColumns_def subset_iff)
qed

text \<open>A reference of the API refers to a table of the schema, with as many columns as its own.\<close>

definition reference_in :: "relational_model \<Rightarrow> foreign_key_descriptor \<Rightarrow> bool" where
  "reference_in m k \<longleftrightarrow> fd_owner k \<in> set (rm_tables m) \<and> fd_foreignKey k \<in> set (tb_foreignKeys (fd_owner k))
     \<and> \<not> isJoinedInheritanceForeignKey (fd_owner k) (fd_foreignKey k)
     \<and> fd_referencedTable k \<in> set (rm_tables m)
     \<and> tb_id (fd_referencedTable k) = fk_referencedTableId (fd_foreignKey k)
     \<and> list_all2 (\<lambda>c d. oc_owner c = fd_owner k \<and> oc_column c \<in> set (tb_columns (fd_owner k))
          \<and> oc_owner d = fd_referencedTable k \<and> oc_column d \<in> set (tb_columns (fd_referencedTable k))
          \<and> co_postgresType (oc_column c) = co_postgresType (oc_column d))
        (fd_localColumns k) (fd_referencedColumns k)"

lemma foreignKeyDescriptor_ok:
  assumes "exportable m" "t \<in> set (rm_tables m)" "k \<in> set (tb_foreignKeys t)" "\<not> isJoinedInheritanceForeignKey t k"
  obtains f where "foreignKeyDescriptor (tables_of m) t k = Inr f" "reference_in m f"
proof -
  note ref = exportableD(6) [OF assms(1-3), unfolded consistent_reference_def]
  then obtain u where u: "u \<in> set (rm_tables m)" "tb_id u = fk_referencedTableId k"
      "set (fk_referencedColumnIds k) \<subseteq> columnIds u"
      and types: "\<forall>(i, j) \<in> set (zip (fk_columnIds k) (fk_referencedColumnIds k)).
               \<forall>c \<in> set (tb_columns t). \<forall>d \<in> set (tb_columns u).
                 co_id c = i \<longrightarrow> co_id d = j \<longrightarrow> co_postgresType c = co_postgresType d"
    by blast
  have found: "mapGet (tables_of m) (fk_referencedTableId k) = Some u"
    using u(1,2) by (simp add: tablesById_Some [OF exportableD(1) [OF assms(1)]])
  have len: "length (fk_columnIds k) = length (fk_referencedColumnIds k)" using ref by blast
  obtain cs where cs: "ownedColumns t (fk_columnIds k) = Inr cs" "map (\<lambda>c. co_id (oc_column c)) cs = fk_columnIds k"
      "\<forall>c \<in> set cs. oc_owner c = t \<and> oc_column c \<in> set (tb_columns t)"
    using ref ownedColumns_ok [of "fk_columnIds k" t] by metis
  obtain ds where ds: "ownedColumns u (fk_referencedColumnIds k) = Inr ds"
      "map (\<lambda>c. co_id (oc_column c)) ds = fk_referencedColumnIds k"
      "\<forall>c \<in> set ds. oc_owner c = u \<and> oc_column c \<in> set (tb_columns u)"
    using u(3) by (rule ownedColumns_ok)
  let ?R = "\<lambda>c d. oc_owner c = t \<and> oc_column c \<in> set (tb_columns t) \<and> oc_owner d = u \<and> oc_column d \<in> set (tb_columns u)
      \<and> co_postgresType (oc_column c) = co_postgresType (oc_column d)"
  have "?R c d" if "(c, d) \<in> set (zip cs ds)" for c d
  proof -
    have "(co_id (oc_column c), co_id (oc_column d)) \<in> set (zip (fk_columnIds k) (fk_referencedColumnIds k))"
      using that unfolding cs(2) [symmetric] ds(2) [symmetric] by (auto simp: zip_map_map)
    with types set_zip_leftD [OF that] set_zip_rightD [OF that] cs(3) ds(3) show ?thesis by blast
  qed
  moreover have "length cs = length ds" using len cs(2) ds(2) by (metis length_map)
  ultimately have "list_all2 ?R cs ds" by (intro list_all2I ballI) auto
  with assms u cs(1) ds(1) len found show thesis
    by (intro that [of "\<lparr>fd_owner = t, fd_foreignKey = k, fd_localColumns = cs, fd_referencedTable = u,
        fd_referencedColumns = ds\<rparr>"]) (simp_all add: foreignKeyDescriptor_def reference_in_def)
qed

lemma foreignKeyDescriptors_ok:
  assumes "exportable m" "t \<in> set (rm_tables m)"
  obtains ks where "foreignKeyDescriptors (tables_of m) t = Inr ks" "\<forall>k \<in> set ks. reference_in m k"
proof -
  obtain us where us: "hierarchyTables (tables_of m) t = Inr (us @ [t])" "set us \<subseteq> set (rm_tables m)"
    by (rule hierarchyTables_ok [OF assms])
  let ?keys = "\<lambda>owner. filter (\<lambda>k. \<not> isJoinedInheritanceForeignKey owner k) (sortedForeignKeys (tb_foreignKeys owner))"
  have each: "\<exists>ks. mapE (foreignKeyDescriptor (tables_of m) u) (?keys u) = Inr ks \<and> (\<forall>k \<in> set ks. reference_in m k)"
    if "u \<in> set (us @ [t])" for u
  proof -
    have u: "u \<in> set (rm_tables m)" using that us(2) assms(2) by auto
    have ok: "\<exists>f. foreignKeyDescriptor (tables_of m) u k = Inr f \<and> reference_in m f" if "k \<in> set (?keys u)" for k
    proof -
      from that have "k \<in> set (tb_foreignKeys u)" "\<not> isJoinedInheritanceForeignKey u k"
        by (simp_all add: sortedForeignKeys_def)
      then show ?thesis by (rule foreignKeyDescriptor_ok [OF assms(1) u]) blast
    qed
    obtain ks where ks: "mapE (foreignKeyDescriptor (tables_of m) u) (?keys u) = Inr ks"
      by (rule mapE_total [of "?keys u" "foreignKeyDescriptor (tables_of m) u"]) (use ok in blast)
    have "reference_in m k" if k: "k \<in> set ks" for k
      using mapE_each [OF ks k] ok by force
    with ks show ?thesis by blast
  qed
  obtain kss where kss: "mapE (\<lambda>u. mapE (foreignKeyDescriptor (tables_of m) u) (?keys u)) (us @ [t]) = Inr kss"
    by (rule mapE_total [of "us @ [t]" "\<lambda>u. mapE (foreignKeyDescriptor (tables_of m) u) (?keys u)"]) (use each in blast)
  have "\<forall>ks \<in> set kss. \<forall>k \<in> set ks. reference_in m k"
    using mapE_each [OF kss] each by fastforce
  with us(1) kss show thesis
    by (intro that [of "concat kss"]) (auto simp: foreignKeyDescriptors_def flatMapE_def)
qed

section \<open>The resources of a consistent schema\<close>

text \<open>A table that a resource stands for: its own, or the concrete descendant of an abstract root.\<close>

definition stands_for :: "relational_model \<Rightarrow> relational_table \<Rightarrow> relational_table \<Rightarrow> bool" where
  "stands_for m t u \<longleftrightarrow> t \<in> set (exposedTables m) \<and> (tb_id t = tb_id u
     \<or> (\<exists>base. rootTable (tables_of m) t = Inr base \<and> tb_id base = tb_id u))"

definition resource_of :: "relational_model \<Rightarrow> relational_table \<Rightarrow> resource_descriptor \<Rightarrow> bool" where
  "resource_of m t r \<longleftrightarrow> rs_id r = tb_id t \<and> rs_table r = t \<and> rs_route r = routeOf (tb_physicalName t)
     \<and> identifierDescriptor (tables_of m) t = Inr (rs_identifier r) \<and> entityFields (tables_of m) t = Inr (rs_fields r)
     \<and> foreignKeyDescriptors (tables_of m) t = Inr (rs_foreignKeys r)"

lemma set_exposedTables: "t \<in> set (exposedTables m) \<longleftrightarrow> t \<in> set (rm_tables m) \<and> tb_isAbstract t \<noteq> Some True"
  by (auto simp: exposedTables_def)

lemma rawResource_ok:
  assumes "exportable m" "t \<in> set (rm_tables m)"
  obtains r where "rawResource (tables_of m) (i, t) = Inr r" "resource_of m t r" "rs_dependencies r = []"
proof -
  obtain d where "identifierDescriptor (tables_of m) t = Inr d" by (rule identifierDescriptor_ok [OF assms])
  moreover obtain cs where "entityFields (tables_of m) t = Inr cs" by (rule entityFields_ok [OF assms])
  moreover obtain ks where "foreignKeyDescriptors (tables_of m) t = Inr ks" by (rule foreignKeyDescriptors_ok [OF assms])
  ultimately show thesis
    by (intro that [of "\<lparr>rs_id = tb_id t, rs_table = t, rs_route = routeOf (tb_physicalName t), rs_identifier = d,
       rs_fields = cs, rs_foreignKeys = ks, rs_dependencies = [], rs_variablePrefix = variablePrefixOf i t\<rparr>"])
      (simp_all add: rawResource_def resource_of_def)
qed

lemma rawResources_ok:
  assumes "exportable m"
  obtains raw where "mapE (rawResource (tables_of m)) (enumerate 0 (exposedTables m)) = Inr raw"
    "list_all2 (resource_of m) (exposedTables m) raw"
proof -
  have each: "\<exists>r. rawResource (tables_of m) z = Inr r \<and> resource_of m (snd z) r"
    if "z \<in> set (enumerate 0 (exposedTables m))" for z
  proof -
    have "snd z \<in> set (exposedTables m)" 
    proof -
      have "snd z \<in> snd ` set (enumerate 0 (exposedTables m))" using that by (rule imageI)
      then show ?thesis by (simp only: set_map [symmetric] map_snd_enumerate)
    qed
    then have "snd z \<in> set (rm_tables m)" unfolding set_exposedTables ..
    then show ?thesis by (rule rawResource_ok [OF assms, of "snd z" "fst z"]) auto
  qed
  obtain raw where raw: "mapE (rawResource (tables_of m)) (enumerate 0 (exposedTables m)) = Inr raw"
    by (rule mapE_total [of "enumerate 0 (exposedTables m)" "rawResource (tables_of m)"]) (use each in blast)
  have "list_all2 (\<lambda>z r. resource_of m (snd z) r) (enumerate 0 (exposedTables m)) raw"
    using raw unfolding mapE_Inr by (rule list.rel_mono_strong) (use each in force)
  then have "list_all2 (resource_of m) (map snd (enumerate 0 (exposedTables m))) raw"
    by (simp only: list_all2_map1)
  with raw show thesis by (intro that) (simp_all only: map_snd_enumerate)
qed

lemma targetResourceFor_ok:
  assumes "exportable m" and raw: "list_all2 (resource_of m) (exposedTables m) raw"
  shows "targetResourceFor k raw (tables_of m) = Inr r \<Longrightarrow> r \<in> set raw"
    "targetResourceFor k raw (tables_of m) = Inl e \<Longrightarrow> (\<exists>message. e = SpringBootExportArtifactError (js ''FOREIGN_KEY_TARGET_UNEXPOSED'') message)
       \<and> \<not> (\<exists>t. stands_for m t (fd_referencedTable k))"
proof -
  have each: "\<exists>base. rootTable (tables_of m) (rs_table q) = Inr base" if q: "q \<in> set raw" for q
  proof -
    obtain t where "t \<in> set (exposedTables m)" "rs_table q = t"
      using list_all2_each [OF raw q] by (auto simp: resource_of_def)
    then show ?thesis using rootTable_ok [OF assms(1), of t] unfolding set_exposedTables by metis
  qed
  let ?P = "\<lambda>q. case rootTable (tables_of m) (rs_table q) of Inl e \<Rightarrow> False | Inr base \<Rightarrow> tb_id base = tb_id (fd_referencedTable k)"
  have descendants: "filterE (\<lambda>q. bindE (rootTable (tables_of m) (rs_table q)) (\<lambda>base.
      Inr (tb_id base = tb_id (fd_referencedTable k)))) raw = Inr (filter ?P raw)"
    by (rule filterE_total) (use each in fastforce)
  show "r \<in> set raw" if "targetResourceFor k raw (tables_of m) = Inr r"
  proof (cases "find (\<lambda>q. tb_id (rs_table q) = tb_id (fd_referencedTable k)) raw")
    case None
    with that descendants obtain rest where "toSorted (byKey compareUnits rs_id) (filter ?P raw) = r # rest"
      by (auto simp: targetResourceFor_def split: list.splits)
    then have "r \<in> set (filter ?P raw)" by (metis list.set_intros(1) set_toSorted)
    then show ?thesis by simp
  next
    case (Some q)
    then have "q \<in> set raw" by (auto simp: find_Some_iff)
    with that Some show ?thesis by (simp add: targetResourceFor_def)
  qed
  show "(\<exists>message. e = SpringBootExportArtifactError (js ''FOREIGN_KEY_TARGET_UNEXPOSED'') message)
      \<and> \<not> (\<exists>t. stands_for m t (fd_referencedTable k))" if "targetResourceFor k raw (tables_of m) = Inl e"
  proof -
    from that have none: "find (\<lambda>q. tb_id (rs_table q) = tb_id (fd_referencedTable k)) raw = None"
        "toSorted (byKey compareUnits rs_id) (filter ?P raw) = []"
        and e: "\<exists>message. e = SpringBootExportArtifactError (js ''FOREIGN_KEY_TARGET_UNEXPOSED'') message"
      using descendants by (auto simp: targetResourceFor_def split: option.splits list.splits)
    from none(2) have "set (filter ?P raw) = {}" by (metis set_toSorted list.set(1))
    then have "\<not> ?P q" if "q \<in> set raw" for q using that by auto
    moreover have "\<exists>q \<in> set raw. rs_table q = t" if "t \<in> set (exposedTables m)" for t
      using that raw by (metis in_set_conv_nth list_all2_conv_all_nth resource_of_def)
    ultimately have "\<not> (\<exists>t. stands_for m t (fd_referencedTable k))"
      using none(1) unfolding stands_for_def find_None_iff by fastforce
    with e show ?thesis by blast
  qed
qed

lemma withDependencies_ok:
  assumes "withDependencies raw tables r = Inr q"
  shows "\<exists>ds. q = r\<lparr>rs_dependencies := ds\<rparr>"
  using assms by (auto simp: withDependencies_def res_simps)

text \<open>Two resources have different routes, since the names of tables have no hyphen.\<close>

lemma routeOf_inject: "0x2D \<notin> set s \<Longrightarrow> 0x2D \<notin> set t \<Longrightarrow> routeOf s = routeOf t \<longleftrightarrow> s = t"
  unfolding routeOf_def by (induction s t rule: list_induct2') auto

lemma physical_no_hyphen: "physical_name s \<Longrightarrow> 0x2D \<notin> set s"
  unfolding physical_name_def is_physical_name_def
  by (auto simp: list_all_iff physical_char_def is_lower_letter_def is_digit_def word_le_nat_alt)

lemma generated_exportable:
  assumes "generateFrom p contract d = Inr m" "readable_multiplicities d"
  shows "exportable m" "\<forall>t \<in> set (rm_tables m). physical_name (tb_physicalName t)"
proof -
  obtain st where st: "build_inv st" "m = toModel p st" and consistent: "consistent_schema m"
    by (rule generated_from [OF assms])
  have ok: "ky_columnIds (tb_primaryKey t) \<noteq> [] \<and> physical_name (tb_physicalName t)" if t: "t \<in> set (rm_tables m)" for t
  proof -
    obtain u where u: "tableAt st (tb_id t) = Some u" "t = normalizeTable p u"
      by (rule table_of_state [OF st(1) t [unfolded st(2)]])
    from table_okD [OF st(1) u(1)] show ?thesis by (simp add: u(2) table_ok_def key_ok_def)
  qed
  with consistent show "exportable m" unfolding exportable_def by blast
  from ok show "\<forall>t \<in> set (rm_tables m). physical_name (tb_physicalName t)" by blast
qed

lemma resources_match:
  "list_all2 (resource_of m) ts rs \<Longrightarrow> map rs_id rs = map tb_id ts \<and> map rs_route rs = map routeOf (map tb_physicalName ts)"
  by (induction rule: list_all2_induct) (simp_all add: resource_of_def)

lemma exposed_distinct:
  assumes "distinct (map f (rm_tables m))"
  shows "distinct (map f (exposedTables m))"
proof -
  have "mset (map f (toSorted (byKey compareUnits tb_id) (rm_tables m))) = mset (map f (rm_tables m))"
    by (simp only: mset_map mset_toSorted)
  then have "distinct (map f (toSorted (byKey compareUnits tb_id) (rm_tables m)))"
    using assms by (metis mset_eq_imp_distinct_iff)
  then show ?thesis unfolding exposedTables_def by (rule distinct_map_filter)
qed

text \<open>An export of a generated model has one resource for every table that is not abstract, under
  different routes, with the identifier of the root of its hierarchy and references to tables of the schema;
  the only error of the descriptors is a reference to a table that no resource stands for.\<close>

lemma generated_resources:
  assumes "generateFrom p contract d = Inr m" "readable_multiplicities d"
  shows "case buildResourceDescriptors m (tables_of m) of
      Inr rs \<Rightarrow> list_all2 (resource_of m) (exposedTables m) rs \<and> distinct (map rs_id rs) \<and> distinct (map rs_route rs)
        \<and> (\<forall>r \<in> set rs. set (rs_dependencies r) \<subseteq> rs_id ` set rs \<and> (\<forall>k \<in> set (rs_foreignKeys r). reference_in m k))
    | Inl (SpringBootExportArtifactError code message) \<Rightarrow> code = js ''FOREIGN_KEY_TARGET_UNEXPOSED''
        \<and> (\<exists>k. reference_in m k \<and> \<not> (\<exists>t. stands_for m t (fd_referencedTable k)))"
proof -
  note m = generated_exportable(1) [OF assms]
  obtain raw where raw: "mapE (rawResource (tables_of m)) (enumerate 0 (exposedTables m)) = Inr raw"
    "list_all2 (resource_of m) (exposedTables m) raw" by (rule rawResources_ok [OF m])
  have refs: "\<forall>k \<in> set (rs_foreignKeys r). reference_in m k" if r: "r \<in> set raw" for r
  proof -
    obtain t where t: "t \<in> set (exposedTables m)" "resource_of m t r" using list_all2_each [OF raw(2) r] by blast
    then have "t \<in> set (rm_tables m)" unfolding set_exposedTables by blast
    from foreignKeyDescriptors_ok [OF m this] t(2) show ?thesis unfolding resource_of_def by (metis sum.inject(2))
  qed
  show ?thesis
  proof (cases "mapE (withDependencies raw (tables_of m)) raw")
    case (Inl e)
    from mapE_Inl [OF this] obtain r where r: "r \<in> set raw" "withDependencies raw (tables_of m) r = Inl e" by blast
    then obtain k where k: "k \<in> set (rs_foreignKeys r)" "targetResourceFor k raw (tables_of m) = Inl e"
      unfolding withDependencies_def by (auto simp: res_simps dest!: mapE_Inl)
    from targetResourceFor_ok(2) [OF m raw(2) k(2)] refs [OF r(1)] k(1) Inl raw(1) show ?thesis
      by (auto simp: buildResourceDescriptors_def intro!: exI [of _ k])
  next
    case (Inr rs)
    have pairs: "list_all2 (\<lambda>r q. \<exists>ds. q = r\<lparr>rs_dependencies := ds\<rparr> \<and> set ds \<subseteq> rs_id ` set raw) raw rs"
      using Inr unfolding mapE_Inr
    proof (rule list.rel_mono_strong)
      fix r q assume "withDependencies raw (tables_of m) r = Inr q"
      then obtain targets where "mapE (\<lambda>k. bindE (targetResourceFor k raw (tables_of m)) (\<lambda>t. Inr (rs_id t))) (rs_foreignKeys r) = Inr targets"
          "q = r\<lparr>rs_dependencies := toSorted compareUnits (unique (filter (\<lambda>i. i \<noteq> rs_id r) targets))\<rparr>"
        unfolding withDependencies_def by (auto simp: res_simps)
      moreover from this(1) have "set targets \<subseteq> rs_id ` set raw"
        using targetResourceFor_ok(1) [OF m raw(2)] by (fastforce simp: res_simps dest!: mapE_each)
      then have "set (toSorted compareUnits (unique (filter (\<lambda>i. i \<noteq> rs_id r) targets))) \<subseteq> rs_id ` set raw"
        by (auto simp: unique_def)
      ultimately show "\<exists>ds. q = r\<lparr>rs_dependencies := ds\<rparr> \<and> set ds \<subseteq> rs_id ` set raw" by blast
    qed
    have same: "list_all2 (resource_of m) (exposedTables m) rs"
      using raw(2) pairs by (rule list_all2_trans [rotated]) (auto simp: resource_of_def)
    have "map rs_id rs = map rs_id raw" using pairs by (induction rule: list_all2_induct) auto
    then have ids: "rs_id ` set rs = rs_id ` set raw" by (metis list.set_map)
    have each: "\<forall>r \<in> set rs. set (rs_dependencies r) \<subseteq> rs_id ` set rs \<and> (\<forall>k \<in> set (rs_foreignKeys r). reference_in m k)"
      using list_all2_each [OF pairs] refs unfolding ids by fastforce
    have "inj_on routeOf (set (map tb_physicalName (exposedTables m)))"
      using generated_exportable(2) [OF assms] set_exposedTables
      by (auto intro!: inj_onI simp: routeOf_inject physical_no_hyphen)
    then have "distinct (map routeOf (map tb_physicalName (exposedTables m)))"
      using exposed_distinct [OF exportableD(2) [OF m]] unfolding distinct_map [of routeOf] by blast
    then have "distinct (map rs_id rs)" "distinct (map rs_route rs)"
      using resources_match [OF same] exposed_distinct [OF exportableD(1) [OF m]] by metis+
    then show ?thesis using same each Inr raw(1) by (simp add: buildResourceDescriptors_def)
  qed
qed

end
