(* ===== verification/Export_Openapi_Laws.thy ===== *)
theory Export_Openapi_Laws
  imports Export_Openapi Export_Laws
begin

text \<open>
  The OpenAPI document of a consistent schema passes its check, and the only thing that can prevent it is a
  column whose foreign keys lead to different Java types.
\<close>

fun codeOf :: "artifact_error \<Rightarrow> jstring" where
  "codeOf (SpringBootExportArtifactError code message) = code"

text \<open>A computation that returns a value with a property, or fails with one of the codes.\<close>

definition yields :: "jstring set \<Rightarrow> ('a \<Rightarrow> bool) \<Rightarrow> 'a artifact \<Rightarrow> bool" where
  "yields codes Q m \<longleftrightarrow> (case m of Inl e \<Rightarrow> codeOf e \<in> codes | Inr x \<Rightarrow> Q x)"

named_theorems yields_rules

lemma yields_simps [simp]: "yields codes Q (Inr x) \<longleftrightarrow> Q x" "yields codes Q (Inl e) \<longleftrightarrow> codeOf e \<in> codes"
  by (simp_all add: yields_def)

lemma yields_bindE: "yields codes P m \<Longrightarrow> (\<And>x. P x \<Longrightarrow> yields codes Q (f x)) \<Longrightarrow> yields codes Q (bindE m f)"
  by (cases m) simp_all

lemma yields_mapE:
  assumes "\<And>x. x \<in> set xs \<Longrightarrow> yields codes (P x) (f x)"
  shows "yields codes (\<lambda>ys. list_all2 P xs ys) (mapE f xs)"
  using assms
proof (induction xs)
  case (Cons x xs)
  then have "yields codes (P x) (f x)" "yields codes (list_all2 P xs) (mapE f xs)" by simp_all
  then show ?case
    by (cases "f x"; cases "mapE f xs") simp_all
qed simp

lemma yields_mono: "yields codes P m \<Longrightarrow> (\<And>x. P x \<Longrightarrow> Q x) \<Longrightarrow> yields codes Q m"
  by (cases m) simp_all

section \<open>Types\<close>

text \<open>No column has an empty identifier; the JSON schema of the contract demands it.\<close>

definition named_columns :: "relational_model \<Rightarrow> bool" where
  "named_columns m \<longleftrightarrow> (\<forall>t \<in> set (rm_tables m). \<forall>c \<in> set (tb_columns t). co_id c \<noteq> [])"

abbreviation conflict :: "jstring set" where
  "conflict \<equiv> {js ''FOREIGN_KEY_TYPE_CONFLICT''}"

lemma targetColumn_ok:
  assumes "exportable m" "named_columns m" "t \<in> set (rm_tables m)" "k \<in> set (tb_foreignKeys t)" "co_id c \<in> set (fk_columnIds k)"
  obtains u d where "targetColumn (tables_of m) c k = Inr (u, d)" "u \<in> set (rm_tables m)" "d \<in> set (tb_columns u)"
proof -
  note ref = exportableD(6) [OF assms(1,3,4), unfolded consistent_reference_def]
  then obtain u where u: "u \<in> set (rm_tables m)" "tb_id u = fk_referencedTableId k" "set (fk_referencedColumnIds k) \<subseteq> columnIds u"
    by blast
  have found: "mapGet (tables_of m) (fk_referencedTableId k) = Some u"
    using u(1,2) by (simp add: tablesById_Some [OF exportableD(1) [OF assms(1)]])
  obtain n where n: "findIndex (\<lambda>i. i = co_id c) (fk_columnIds k) = Some n"
    using assms(5) findIndex_None [of "\<lambda>i. i = co_id c" "fk_columnIds k"] by (metis option.exhaust)
  then have len: "n < length (fk_referencedColumnIds k)" using ref findIndex_Some [OF n] by metis
  let ?j = "fk_referencedColumnIds k ! n"
  have "?j \<in> columnIds u" using u(3) nth_mem [OF len] by blast
  then have "\<not> (\<forall>d \<in> set (tb_columns u). co_id d \<noteq> ?j)" unfolding columnIds_def by force
  then obtain d where d: "find (\<lambda>d. co_id d = ?j) (tb_columns u) = Some d"
    using find_None_iff [of "\<lambda>d. co_id d = ?j" "tb_columns u"] by (metis option.exhaust)
  then have "d \<in> set (tb_columns u)" "co_id d = ?j" by (auto simp: find_Some_iff)
  moreover from this have "?j \<noteq> []" using assms(2) u(1) unfolding named_columns_def by metis
  ultimately show thesis using u(1) d len n found
    by (intro that [of u d]) (simp_all add: targetColumn_def columnById_def)
qed

lemma scalarJavaType_ok:
  assumes "exportable m" "named_columns m"
  shows "t \<in> set (rm_tables m) \<Longrightarrow> yields conflict (\<lambda>_. True) (scalarJavaType (tables_of m) seen t c)"
proof (induction "tables_of m" seen t c rule: scalarJavaType.induct)
  case (1 seen t c)
  let ?keys = "sortedForeignKeys (filter (\<lambda>k. co_id c \<in> set (fk_columnIds k)) (tb_foreignKeys t))"
  show ?case
  proof (cases "columnKey t c \<in> seen")
    case True
    then show ?thesis by (subst scalarJavaType.simps) simp
  next
    case False
    have "yields conflict (\<lambda>_. True) (bindE (targetColumn (tables_of m) c k) (\<lambda>(target, column).
        scalarJavaType (tables_of m) (insert (columnKey t c) seen) target column))" if "k \<in> set ?keys" for k
    proof -
      have "k \<in> set (tb_foreignKeys t)" "co_id c \<in> set (fk_columnIds k)" using that by (simp_all add: sortedForeignKeys_def)
      from targetColumn_ok [OF assms 1(2) this] obtain u d where
        "targetColumn (tables_of m) c k = Inr (u, d)" "u \<in> set (rm_tables m)" by metis
      with 1(1) [OF False that, of "(u, d)" u d] show ?thesis by simp
    qed
    then have "yields conflict (\<lambda>ts. list_all2 (\<lambda>_ _. True) ?keys ts) (mapE (\<lambda>k. bindE (targetColumn (tables_of m) c k)
        (\<lambda>(target, column). scalarJavaType (tables_of m) (insert (columnKey t c) seen) target column)) ?keys)"
      by (rule yields_mapE)
    with False show ?thesis
      by (subst scalarJavaType.simps) (auto intro!: yields_bindE split: list.split)
  qed
qed

section \<open>Schemas\<close>

lemma columnSchema_ok:
  assumes "exportable m" "named_columns m" "oc_owner c \<in> set (rm_tables m)"
  shows "yields conflict (\<lambda>_. True) (columnSchema (tables_of m) c)"
  unfolding columnSchema_def Let_def
  by (rule yields_bindE [OF scalarJavaType_ok [OF assms]]) simp

lemma columnSchemas_ok:
  assumes "exportable m" "named_columns m" "\<forall>c \<in> set cs. oc_owner c \<in> set (rm_tables m)"
  shows "yields conflict (\<lambda>_. True) (mapE (columnSchema (tables_of m)) cs)"
  using assms by (intro yields_mono [OF yields_mapE [where P = "\<lambda>_ _. True"]]) (auto intro: columnSchema_ok)

text \<open>The columns of a resource belong to tables of the schema.\<close>

definition columns_within :: "relational_model \<Rightarrow> resource_descriptor \<Rightarrow> bool" where
  "columns_within m r \<longleftrightarrow> id_columns (rs_identifier r) \<noteq> []
     \<and> (\<forall>c \<in> set (id_columns (rs_identifier r) @ rs_fields r). oc_owner c \<in> set (rm_tables m))"

lemma resource_columns_within:
  assumes "exportable m" "t \<in> set (exposedTables m)" "resource_of m t r"
  shows "columns_within m r"
proof -
  have t: "t \<in> set (rm_tables m)" using assms(2) unfolding set_exposedTables ..
  obtain d base where d: "identifierDescriptor (tables_of m) t = Inr d" "rootTable (tables_of m) t = Inr base"
      "id_columns d \<noteq> []" "\<forall>c \<in> set (id_columns d). oc_owner c = base \<and> oc_column c \<in> set (tb_columns base)"
    by (rule identifierDescriptor_ok [OF assms(1) t])
  obtain base' where "rootTable (tables_of m) t = Inr base'" "base' \<in> set (rm_tables m)"
    by (rule rootTable_ok [OF assms(1) t])
  then have base: "base \<in> set (rm_tables m)" using d(2) by simp
  obtain cs where cs: "entityFields (tables_of m) t = Inr cs"
    "\<forall>c \<in> set cs. oc_owner c \<in> set (rm_tables m) \<and> oc_column c \<in> set (tb_columns (oc_owner c))"
    by (rule entityFields_ok [OF assms(1) t])
  from d cs base assms(3) show ?thesis unfolding columns_within_def resource_of_def by auto
qed

lemma identifierSchema_ok:
  assumes "exportable m" "named_columns m" "columns_within m r"
  shows "yields conflict (\<lambda>_. True) (identifierSchema (rs_identifier r) (tables_of m) b)"
proof (cases "id_composite (rs_identifier r)")
  case True
  have "yields conflict (\<lambda>_. True) (namedSchemas (tables_of m) (id_columns (rs_identifier r)))"
    unfolding namedSchemas_def using assms
    by (intro yields_bindE [OF columnSchemas_ok]) (auto simp: columns_within_def)
  with True show ?thesis by (simp add: identifierSchema_def) (auto intro: yields_bindE)
next
  case False
  have "yields conflict (\<lambda>_. True) (columnSchema (tables_of m) (hd (id_columns (rs_identifier r))))"
    using assms by (intro columnSchema_ok) (auto simp: columns_within_def)
  with False show ?thesis by (simp add: identifierSchema_def) (auto intro: yields_bindE)
qed

lemma resourceSchemas_ok:
  assumes "exportable m" "named_columns m" "columns_within m r"
  shows "yields conflict (\<lambda>_. True) (resourceSchemas (tables_of m) r)"
proof -
  have "yields conflict (\<lambda>_. True) (resourceSchema r (tables_of m) b)" for b
    unfolding resourceSchema_def Let_def using assms
    by (intro yields_bindE [OF identifierSchema_ok] yields_bindE [OF columnSchemas_ok]) (auto simp: columns_within_def)
  then show ?thesis unfolding resourceSchemas_def Let_def
    by (intro yields_bindE [where P = "\<lambda>_. True"] identifierSchema_ok [OF assms]) simp_all
qed

section \<open>Paths\<close>

lemma spread_distinct: "distinct (map fst (xs @ ys)) \<Longrightarrow> spread xs ys = xs @ ys"
proof -
  assume distinct: "distinct (map fst (xs @ ys))"
  have "spread xs ys = foldl (\<lambda>m z. mapSet (fst z) (snd z) m) xs ys"
    unfolding spread_def by (simp add: case_prod_unfold)
  also have "\<dots> = xs @ map (\<lambda>z. (fst z, snd z)) ys" using distinct by (intro foldl_mapSet_new) simp
  finally show ?thesis by simp
qed

definition pathsOf :: "resource_descriptor \<Rightarrow> jstring list" where
  "pathsOf r = [collectionPath r, itemPath r]"

lemma paths_distinct:
  assumes "distinct (map rs_route rs)" "\<forall>r \<in> set rs. 0x2F \<notin> set (rs_route r)"
  shows "distinct (concat (map pathsOf rs))"
proof -
  have inject: "collectionPath r = collectionPath q \<longleftrightarrow> rs_route r = rs_route q"
    "itemPath r = itemPath q \<longleftrightarrow> rs_route r = rs_route q" for r q
    by (simp_all add: collectionPath_def itemPath_def)
  have slash: "0x2F \<in> set (js ''/{id}'')" by (simp add: js_def)
  have differ: "collectionPath r \<noteq> itemPath q" if "0x2F \<notin> set (rs_route r)" for r q
  proof
    assume "collectionPath r = itemPath q"
    then have "rs_route r = rs_route q @ js ''/{id}''" by (simp add: collectionPath_def itemPath_def)
    with that slash show False by simp
  qed
  show ?thesis
    using assms
  proof (induction rs)
    case (Cons r rs)
    have "set (pathsOf r) \<inter> set (concat (map pathsOf rs)) = {}"
      using Cons.prems differ inject by (auto simp: pathsOf_def; metis imageI)
    moreover have "distinct (pathsOf r)" using Cons.prems(2) differ by (simp add: pathsOf_def)
    ultimately show ?case using Cons by simp
  qed simp
qed

lemma keys_resourcePaths: "map fst (concat (map resourcePaths rs)) = concat (map pathsOf rs)"
  by (induction rs) (simp_all add: resourcePaths_def pathsOf_def)

lemma openApiOperation_record: "isRecord (openApiOperation r op)"
  by (cases op) (simp_all add: openApiOperation_def Let_def isRecord_def)

lemma completeOperations_ok:
  assumes "distinct (map fst (concat (map resourcePaths rs)))" "r \<in> set rs"
  shows "completeOperations (JObj (concat (map resourcePaths rs))) r"
proof -
  have "map_of (concat (map resourcePaths rs)) k = Some v" if "(k, v) \<in> set (resourcePaths r)" for k v
    using assms that by (intro map_of_is_SomeI) auto
  then have "map_of (concat (map resourcePaths rs)) (collectionPath r) = Some (JObj [(js ''get'', openApiOperation r ListOperation),
      (js ''post'', openApiOperation r CreateOperation)])"
    "map_of (concat (map resourcePaths rs)) (itemPath r) = Some (JObj [(js ''delete'', openApiOperation r DeleteOperation),
      (js ''get'', openApiOperation r GetOperation), (js ''put'', openApiOperation r UpdateOperation)])"
    by (simp_all add: resourcePaths_def)
  then show ?thesis
    by (simp add: completeOperations_def fieldOf_def recordField_def openApiOperation_record isRecord_def [of "JObj _"])
qed

lemma openapi_check_passes:
  assumes "distinct (map rs_route rs)" "\<forall>r \<in> set rs. 0x2F \<notin> set (rs_route r)"
    and "buildOpenApiDocument project rs tables = Inr document"
  shows "assertGeneratedOpenApiDocument document rs = Inr ()"
proof -
  note distinct = paths_distinct [OF assms(1,2), folded keys_resourcePaths]
  then have paths: "spread [] (concat (map resourcePaths rs)) = concat (map resourcePaths rs)"
    using spread_distinct [of "[]"] by simp
  obtain components info where document: "document = JObj [(js ''components'', components), (js ''info'', JObj info),
      (js ''openapi'', text_value ''3.1.0''), (js ''paths'', JObj (concat (map resourcePaths rs)))]"
    using assms(3) unfolding buildOpenApiDocument_def paths by (auto simp: res_simps)
  have "find (\<lambda>r. \<not> completeOperations (JObj (concat (map resourcePaths rs))) r) rs = None"
    using completeOperations_ok [OF distinct] by (auto simp: find_None_iff)
  moreover have "map fst (concat (map resourcePaths rs)) = concat (map (\<lambda>r. [collectionPath r, itemPath r]) rs)"
    by (simp add: keys_resourcePaths pathsOf_def [abs_def])
  ultimately show ?thesis
    by (simp add: document assertGeneratedOpenApiDocument_def fieldOf_def recordField_def isRecord_def Let_def)
qed

lemma physical_no_slash: "physical_name s \<Longrightarrow> 0x2F \<notin> set (routeOf s)"
  unfolding physical_name_def is_physical_name_def routeOf_def
  by (auto simp: list_all_iff physical_char_def is_lower_letter_def is_digit_def word_le_nat_alt)

end
