(* ===== verification/Export_Postman_Laws.thy ===== *)
theory Export_Postman_Laws
  imports Export_Postman Export_Openapi_Laws
begin

text \<open>
  The Postman collection and the files of a consistent schema pass their checks; a failure can only come from
  a reference to a table no resource stands for, or from conflicting Java types.
\<close>

abbreviation export_codes :: "jstring set" where
  "export_codes \<equiv> {js ''FOREIGN_KEY_TYPE_CONFLICT'', js ''FOREIGN_KEY_TARGET_UNEXPOSED''}"

lemma yields_codes: "yields A Q m \<Longrightarrow> A \<subseteq> B \<Longrightarrow> yields B Q m"
  by (cases m) auto

text \<open>The resources of a schema.\<close>

definition resources_of :: "relational_model \<Rightarrow> resource_descriptor list \<Rightarrow> bool" where
  "resources_of m rs \<longleftrightarrow> list_all2 (resource_of m) (exposedTables m) rs"

lemma resources_ofD:
  assumes "exportable m" "resources_of m rs" "r \<in> set rs"
  shows "columns_within m r" "\<forall>k \<in> set (rs_foreignKeys r). reference_in m k"
proof -
  obtain t where t: "t \<in> set (exposedTables m)" "resource_of m t r"
    using list_all2_each [OF assms(2) [unfolded resources_of_def] assms(3)] by blast
  show "columns_within m r" by (rule resource_columns_within [OF assms(1) t])
  have "t \<in> set (rm_tables m)" using t(1) unfolding set_exposedTables ..
  from foreignKeyDescriptors_ok [OF assms(1) this] t(2)
  show "\<forall>k \<in> set (rs_foreignKeys r). reference_in m k" unfolding resource_of_def by (metis sum.inject(2))
qed

lemma targetResource_yields:
  assumes "exportable m" "resources_of m rs"
  shows "yields export_codes (\<lambda>r. r \<in> set rs) (targetResourceFor k rs (tables_of m))"
proof (cases "targetResourceFor k rs (tables_of m)")
  case (Inl e)
  from targetResourceFor_ok(2) [OF assms(1) assms(2) [unfolded resources_of_def] this] show ?thesis
    by (auto simp: Inl)
next
  case (Inr r)
  from targetResourceFor_ok(1) [OF assms(1) assms(2) [unfolded resources_of_def] this] show ?thesis
    by (simp add: Inr)
qed

section \<open>Values\<close>

lemma valueForColumn_ok:
  assumes "exportable m" "named_columns m" "resources_of m rs" "r \<in> set rs" "oc_owner c \<in> set (rm_tables m)"
  shows "yields export_codes (\<lambda>_. True) (valueForColumn r c op rs (tables_of m))"
proof (cases "op = UpdateOperation \<and> isIdentifierColumn r c")
  case False
  show ?thesis
  proof (cases "referenceForColumn r c")
    case None
    have "yields export_codes (\<lambda>_. True) (scalarJavaType (tables_of m) {} (oc_owner c) (oc_column c))"
      by (rule yields_codes [OF scalarJavaType_ok [OF assms(1,2,5)]]) simp
    with False None show ?thesis by (auto simp: valueForColumn_def intro: yields_bindE)
  next
    case (Some k)
    then have k: "k \<in> set (rs_foreignKeys r)" "\<exists>d \<in> set (fd_localColumns k). sameColumn d c"
      by (auto simp: referenceForColumn_def find_Some_iff)
    then have "reference_in m k" using resources_ofD(2) [OF assms(1,3,4)] by blast
    then have len: "length (fd_localColumns k) = length (fd_referencedColumns k)"
      unfolding reference_in_def by (blast dest: list_all2_lengthD)
    obtain n where n: "findIndex (\<lambda>d. sameColumn d c) (fd_localColumns k) = Some n"
      using k(2) findIndex_None [of "\<lambda>d. sameColumn d c" "fd_localColumns k"] by (metis option.exhaust)
    then have "n < length (fd_referencedColumns k)" using findIndex_Some [OF n] len by simp
    with n False Some show ?thesis
      by (auto simp: valueForColumn_def intro!: yields_bindE [OF targetResource_yields [OF assms(1,3)]])
  qed
qed (simp add: valueForColumn_def)

lemma namedValues_ok:
  assumes "exportable m" "named_columns m" "resources_of m rs" "r \<in> set rs" "\<forall>c \<in> set cs. oc_owner c \<in> set (rm_tables m)"
  shows "yields export_codes (\<lambda>_. True) (namedValues r cs op rs (tables_of m))"
  unfolding namedValues_def
  by (rule yields_mono [OF yields_mapE [where P = "\<lambda>_ _. True"]])
    (use assms in \<open>auto intro!: yields_bindE [OF valueForColumn_ok [OF assms(1-4)]]\<close>)

lemma requestPayload_ok:
  assumes "exportable m" "named_columns m" "resources_of m rs" "r \<in> set rs"
  shows "yields export_codes (\<lambda>_. True) (requestPayload r op rs (tables_of m))"
proof -
  have within: "columns_within m r" by (rule resources_ofD(1) [OF assms(1,3,4)])
  then have owners: "oc_owner (hd (id_columns (rs_identifier r))) \<in> set (rm_tables m)"
    "\<forall>c \<in> set (id_columns (rs_identifier r)). oc_owner c \<in> set (rm_tables m)"
    "\<forall>c \<in> set (rs_fields r). oc_owner c \<in> set (rm_tables m)"
    by (auto simp: columns_within_def)
  have "yields export_codes (\<lambda>_. True) (if id_generated (rs_identifier r) then Inr []
        else if id_composite (rs_identifier r)
        then bindE (namedValues r (id_columns (rs_identifier r)) op rs (tables_of m)) (\<lambda>vs. Inr [(js ''id'', JObj (spread [] vs))])
        else bindE (valueForColumn r (hd (id_columns (rs_identifier r))) op rs (tables_of m)) (\<lambda>v. Inr [(js ''id'', v)]))"
    by (auto intro!: yields_bindE [OF namedValues_ok [OF assms owners(2)]] yields_bindE [OF valueForColumn_ok [OF assms owners(1)]])
  then show ?thesis unfolding requestPayload_def Let_def
    by (rule yields_bindE) (auto intro: yields_bindE [OF namedValues_ok [OF assms owners(3)]])
qed

section \<open>Captured columns\<close>

lemma captureReference_ok:
  assumes "exportable m" "resources_of m rs" "rs_id ` set rs \<subseteq> set (mapKeys captured)"
  shows "yields export_codes (\<lambda>captured'. set (mapKeys captured') = set (mapKeys captured))
    (captureReference rs (tables_of m) captured k)"
  unfolding captureReference_def
proof (rule yields_bindE [OF targetResource_yields [OF assms(1,2)]])
  fix target assume "target \<in> set rs"
  then have key: "rs_id target \<in> set (mapKeys captured)" using assms(3) by blast
  then obtain columns where "mapGet captured (rs_id target) = Some columns"
    by (metis map_of_eq_None_iff list.set_map not_None_eq)
  with key show "yields export_codes (\<lambda>captured'. set (mapKeys captured') = set (mapKeys captured))
      (case mapGet captured (rs_id target) of
       None \<Rightarrow> Inl (SpringBootExportArtifactError (js ''FOREIGN_KEY_TARGET_MISSING'')
         (js ''Foreign key '' @ fk_id (fd_foreignKey k) @ js '' target is not exposed.''))
     | Some columns \<Rightarrow> Inr (mapSet (rs_id target) (addCaptured (fd_referencedColumns k) columns) captured))"
    by (simp add: dom_update insert_absorb)
qed

lemma captureReferences_ok:
  assumes "exportable m" "resources_of m rs"
  shows "rs_id ` set rs \<subseteq> set (mapKeys captured) \<Longrightarrow> yields export_codes (\<lambda>_. True)
    (forEntries (\<lambda>_ k captured. captureReference rs (tables_of m) captured k) i ks captured)"
proof (induction ks arbitrary: i captured)
  case (Cons k ks)
  show ?case unfolding forEntries.simps
  proof (rule yields_bindE [OF captureReference_ok [OF assms Cons.prems]])
    fix captured' :: captures
    assume "set (mapKeys captured') = set (mapKeys captured)"
    then show "yields export_codes (\<lambda>_. True)
        (forEntries (\<lambda>_ k captured. captureReference rs (tables_of m) captured k) (Suc i) ks captured')"
      using Cons.prems by (intro Cons.IH) simp
  qed
qed simp

lemma captureColumns_ok:
  assumes "exportable m" "resources_of m rs" "distinct (map rs_id rs)"
  shows "yields export_codes (\<lambda>_. True) (captureColumnsByResource rs (tables_of m))"
  unfolding captureColumnsByResource_def
  by (rule yields_bindE [OF captureReferences_ok [OF assms(1,2)]]) (use assms(3) in \<open>simp_all add: foldl_mapSet_new\<close>)

section \<open>The collection\<close>

lemma postmanRequest_ok:
  assumes "exportable m" "named_columns m" "resources_of m rs" "r \<in> set rs"
  shows "yields export_codes (\<lambda>_. True) (postmanRequest showNumber r op rs (tables_of m) captured next)"
  unfolding postmanRequest_def Let_def
  by (intro yields_bindE [where P = "\<lambda>_. True"]) (auto intro!: yields_bindE [OF requestPayload_ok [OF assms]])

definition folder_of :: "resource_descriptor \<Rightarrow> json \<Rightarrow> bool" where
  "folder_of r folder \<longleftrightarrow> isFolderOf r folder \<and> (\<exists>requests. arrayField (js ''item'') folder = Some requests \<and> length requests = 5)"

lemma postmanFolder_ok:
  assumes "exportable m" "named_columns m" "resources_of m rs" "r \<in> set rs"
  shows "yields export_codes (folder_of r) (postmanFolder showNumber rs (tables_of m) captured nextAction r)"
  unfolding postmanFolder_def
proof (rule yields_bindE [OF yields_mapE [where P = "\<lambda>_ _. True"]])
  fix requests :: "json list"
  assume "list_all2 (\<lambda>_ _. True) crudOperations requests"
  then have "length requests = 5" by (auto simp: crudOperations_def dest: list_all2_lengthD)
  then show "yields export_codes (folder_of r)
      (Inr (JObj [(js ''description'', JStr (js ''CRUD requests for '' @ tb_javaEntityName (rs_table r) @ js ''.'')),
       (js ''item'', JArr requests), (js ''name'', JStr (tb_javaEntityName (rs_table r)))]))"
    by (simp add: folder_of_def isFolderOf_def arrayField_def fieldOf_def)
qed (rule postmanRequest_ok [OF assms])

lemma buildPostmanCollection_ok:
  assumes "exportable m" "named_columns m" "resources_of m rs" "distinct (map rs_id rs)"
  shows "yields export_codes (\<lambda>v. assertGeneratedPostmanCollection v rs = Inr ())
    (buildPostmanCollection showNumber project rs (tables_of m))"
proof -
  have perm: "mset (dependencyOrder rs) = mset rs" by (rule dependencyOrder_laws(1) [OF assms(4)])
  then have set: "set (dependencyOrder rs) = set rs" by (metis set_mset_mset)
  have passes: "assertGeneratedPostmanCollection (JObj [(js ''info'', JObj [(js ''description'', d), (js ''name'', n),
        (js ''schema'', JStr postmanSchemaUrl)]), (js ''item'', JArr folders),
      (js ''variable'', JArr [JObj [(js ''key'', text_value ''baseUrl''), (js ''type'', text_value ''string''),
        (js ''value'', text_value ''http://127.0.0.1:8080'')]])]) rs = Inr ()"
    if folders: "list_all2 folder_of (dependencyOrder rs) folders" for folders d n
  proof -
    have "length folders = length rs" using list_all2_lengthD [OF folders] perm by (metis size_mset)
    moreover have "completeFolder folders r" if "r \<in> set rs" for r
    proof -
      have "\<exists>f \<in> set folders. isFolderOf r f"
        using folders that set by (metis folder_of_def in_set_conv_nth list_all2_conv_all_nth)
      then obtain f where f: "find (isFolderOf r) folders = Some f" by (metis find_None_iff option.exhaust)
      then have "f \<in> set folders" by (auto simp: find_Some_iff)
      then obtain q where "folder_of q f" using list_all2_each [OF folders] by blast
      with f show ?thesis by (auto simp: completeFolder_def folder_of_def)
    qed
    then have "find (\<lambda>r. \<not> completeFolder folders r) rs = None" by (simp add: find_None_iff)
    ultimately show ?thesis
      by (simp add: assertGeneratedPostmanCollection_def fieldOf_def arrayField_def)
  qed
  have "yields export_codes (list_all2 folder_of (dependencyOrder rs))
      (mapE (postmanFolder showNumber rs (tables_of m) captured nextAction) (dependencyOrder rs))" for captured nextAction
    by (rule yields_mapE) (simp add: set postmanFolder_ok [OF assms(1-3)])
  then show ?thesis
    unfolding buildPostmanCollection_def Let_def
    by (intro yields_bindE [OF captureColumns_ok [OF assms(1,3,4)]] yields_bindE [where P = "list_all2 folder_of (dependencyOrder rs)"])
      (simp_all add: passes)
qed

end
