(* ===== verification/Export_Files.thy ===== *)
theory Export_Files
  imports Export_Postman_Laws
begin

text \<open>The files of an export are in order, end with a newline and carry their length and hash.\<close>

lemma no_return_join: "0xD \<notin> set sep \<Longrightarrow> \<forall>x \<in> set xs. 0xD \<notin> set x \<Longrightarrow> (0xD :: 16 word) \<notin> set (js_join sep xs)"
  by (induction sep xs rule: js_join.induct) auto

lemma no_return_quote: "(0xD :: 16 word) \<notin> set (quoteJSON s)"
proof -
  have hex: "(0xD :: 16 word) \<notin> set (hex4 c)" for c
  proof -
    have digit: "hex_unit n \<noteq> 0xD" if "n < 16" for n
    proof -
      have "n \<in> {0..<16}" using that by simp
      then have "n \<in> set [0..<16]" by simp
      moreover have "list_all (\<lambda>n. hex_unit n \<noteq> 0xD) [0..<16]" by code_simp
      ultimately show ?thesis by (simp add: list_all_iff)
    qed
    have "unat c < 65536" using unsigned_less [of c, where ?'a = nat] by simp
    then have "unat c div 4096 < 16" by simp
    then have "hex_unit (unat c div 4096) \<noteq> 0xD" "hex_unit (unat c div 256 mod 16) \<noteq> 0xD"
      "hex_unit (unat c div 16 mod 16) \<noteq> 0xD" "hex_unit (unat c mod 16) \<noteq> 0xD"
      by (simp_all add: digit)
    then show ?thesis unfolding hex4_def Let_def by (simp only: list.set insert_iff empty_iff not_sym) simp
  qed
  have "(0xD :: 16 word) \<notin> set (escape_unit c)" for c
    using hex [of c] by (auto simp: escape_unit_def js_def split: if_splits)
  moreover have "needs_escape 0xD" by (simp add: needs_escape_def)
  ultimately have "(0xD :: 16 word) \<notin> set (quote_units s)"
  proof (induction s rule: quote_units.induct)
    case (3 c d s)
    then show ?case by (auto simp: is_high_surrogate_def is_low_surrogate_def split: if_splits)
  qed (auto split: if_splits)
  then show ?thesis by (simp add: quoteJSON_def)
qed

lemma no_return_js: "(0xD :: 16 word) \<notin> set (js s) \<longleftrightarrow> CHR 0x0D \<notin> set s"
proof -
  have "(0xD :: 16 word) = of_nat (of_char c) \<longleftrightarrow> c = CHR 0x0D" for c
    using js_char_inj [of "CHR 0x0D" c] by auto
  then show ?thesis by (auto simp: js_def image_iff)
qed

lemma no_return_json:
  assumes "\<And>n. (0xD :: 16 word) \<notin> set (showNumber n)" "0xD \<notin> set indent"
  shows "(0xD :: 16 word) \<notin> set (prettyJson showNumber indent v)"
  using assms
proof (induction showNumber indent v rule: prettyJson.induct)
  case (5 showNumber indent xs)
  have "\<forall>t \<in> set (map (prettyJson showNumber (indent @ js ''  '')) xs). 0xD \<notin> set t"
  proof (cases "xs = []")
    case False
    from 5(1) [OF False refl] show ?thesis using 5(2,3) by (auto simp: no_return_js)
  qed simp
  then show ?case
    using 5(3) no_return_join [of "js '','' @ [0xA] @ indent @ js ''  ''" "map (prettyJson showNumber (indent @ js ''  '')) xs"]
    by (auto simp: Let_def no_return_js)
next
  case (6 showNumber indent kvs)
  let ?entry = "\<lambda>(k, v). quoteJSON k @ js '': '' @ prettyJson showNumber (indent @ js ''  '') v"
  have "\<forall>t \<in> set (map ?entry kvs). 0xD \<notin> set t"
  proof (cases "kvs = []")
    case False
    have "0xD \<notin> set (indent @ js ''  '')" using 6(3) by (simp add: no_return_js)
    then have "0xD \<notin> set (prettyJson showNumber (indent @ js ''  '') v)" if "(k, v) \<in> set kvs" for k v
      by (rule 6(1) [OF False refl that refl 6(2)])
    then show ?thesis by (auto simp: no_return_js no_return_quote)
  qed simp
  then show ?case
    using 6(3) no_return_join [of "js '','' @ [0xA] @ indent @ js ''  ''" "map ?entry kvs"]
    by (auto simp: Let_def no_return_js)
qed (auto simp: no_return_js no_return_quote)


section \<open>The files\<close>

lemma generatedJsonFile_ok:
  assumes "\<And>n. (0xD :: 16 word) \<notin> set (showNumber n)"
  shows "gf_path (generatedJsonFile showNumber sha256 path v) = path"
    "0xD \<notin> set (gf_content (generatedJsonFile showNumber sha256 path v))"
    "js_endsWith (gf_content (generatedJsonFile showNumber sha256 path v)) [0xA]"
    "gf_byteLength (generatedJsonFile showNumber sha256 path v)
      = byteLength (gf_content (generatedJsonFile showNumber sha256 path v))"
    "gf_sha256 (generatedJsonFile showNumber sha256 path v)
      = sha256 (gf_content (generatedJsonFile showNumber sha256 path v))"
  using no_return_json [of showNumber "[]", OF assms]
  by (simp_all add: generatedJsonFile_def Let_def js_endsWith_def)

lemma compare_paths:
  "compareUnits [] MANIFEST_PATH \<le> 0" "compareUnits MANIFEST_PATH OPENAPI_PATH \<le> 0"
  "compareUnits OPENAPI_PATH POSTMAN_PATH \<le> 0" "compareUnits POSTMAN_PATH OPENAPI_PATH > 0"
  "compareUnits OPENAPI_PATH MANIFEST_PATH > 0" "compareUnits POSTMAN_PATH MANIFEST_PATH > 0"
  "OPENAPI_PATH \<noteq> POSTMAN_PATH" "OPENAPI_PATH \<noteq> MANIFEST_PATH" "POSTMAN_PATH \<noteq> MANIFEST_PATH"
  by (simp_all add: OPENAPI_PATH_def POSTMAN_PATH_def MANIFEST_PATH_def js_def)

lemma artifact_files_ok:
  fixes sha256 :: "jstring \<Rightarrow> jstring"
  assumes "\<And>n. (0xD :: 16 word) \<notin> set (showNumber n)"
  defines "gen \<equiv> generatedJsonFile showNumber sha256"
  shows "toSorted compareFiles [gen OPENAPI_PATH v, gen POSTMAN_PATH w, gen MANIFEST_PATH u]
      = [gen MANIFEST_PATH u, gen OPENAPI_PATH v, gen POSTMAN_PATH w]"
    "assertArtifactFiles sha256 [gen MANIFEST_PATH u, gen OPENAPI_PATH v, gen POSTMAN_PATH w] = Inr ()"
proof -
  note facts = generatedJsonFile_ok [of showNumber sha256, OF assms(1), folded gen_def]
  show "toSorted compareFiles [gen OPENAPI_PATH v, gen POSTMAN_PATH w, gen MANIFEST_PATH u]
      = [gen MANIFEST_PATH u, gen OPENAPI_PATH v, gen POSTMAN_PATH w]"
    using compare_paths by (simp add: toSorted_def compareFiles_def byKey_def facts)
  show "assertArtifactFiles sha256 [gen MANIFEST_PATH u, gen OPENAPI_PATH v, gen POSTMAN_PATH w] = Inr ()"
    using compare_paths facts by (simp add: assertArtifactFiles_def artifactFileStep_def throwUnless_def)
qed

section \<open>Exports\<close>

text \<open>An export that returns a value with a property, or fails with one of the codes.\<close>

definition exports :: "('a \<Rightarrow> bool) \<Rightarrow> export_error + 'a \<Rightarrow> bool" where
  "exports Q m \<longleftrightarrow> (case m of Inr x \<Rightarrow> Q x | Inl (ArtifactFailure e) \<Rightarrow> codeOf e \<in> export_codes | Inl (ContractFailure _) \<Rightarrow> False)"

lemma exports_Inr [simp]: "exports Q (Inr x) \<longleftrightarrow> Q x"
  by (simp add: exports_def)

lemma exports_artifact:
  "yields export_codes P m \<Longrightarrow> (\<And>x. m = Inr x \<Longrightarrow> P x \<Longrightarrow> exports Q (f x)) \<Longrightarrow> exports Q (bindE (artifactE m) f)"
  by (cases m) (simp_all add: artifactE_def exports_def)

lemma exports_contract:
  "m = Inr x \<Longrightarrow> exports Q (f x) \<Longrightarrow> exports Q (bindE (contractE m) f)"
  by (simp add: contractE_def)

text \<open>The files of an export: the manifest and the two documents, each with its length and hash.\<close>

definition sound_files :: "(jstring \<Rightarrow> jstring) \<Rightarrow> export_artifacts \<Rightarrow> bool" where
  "sound_files sha256 a \<longleftrightarrow> map gf_path (ea_files a) = [MANIFEST_PATH, OPENAPI_PATH, POSTMAN_PATH]
     \<and> ea_files a = [ea_manifest a, ea_openApi a, ea_postmanCollection a]
     \<and> (\<forall>f \<in> set (ea_files a). gf_byteLength f = byteLength (gf_content f) \<and> gf_sha256 f = sha256 (gf_content f)
          \<and> 0xD \<notin> set (gf_content f))"

lemma export_of_schema:
  assumes "exportable m" "named_columns m" "resources_of m rs" "distinct (map rs_id rs)" "distinct (map rs_route rs)"
    and "\<forall>r \<in> set rs. 0x2F \<notin> set (rs_route r)" "buildResourceDescriptors m (tables_of m) = Inr rs"
    and "assertRelationalModelContract contract m = Inr ()" "0 \<le> revision" "revision \<le> 9007199254740991"
    and "\<And>n. (0xD :: 16 word) \<notin> set (showNumber n)"
  shows "exports (sound_files sha256) (generateSpringBootExportArtifacts contract showNumber sha256 m revision project)"
proof -
  have start: "yields export_codes (\<lambda>_. True) (throwUnless (0 \<le> revision \<and> revision \<le> 9007199254740991) e)" for e
    using assms(9,10) by (simp add: throwUnless_def)
  have found: "yields export_codes (\<lambda>x. x = rs) (buildResourceDescriptors m (tables_of m))"
    by (simp add: assms(7))
  have within: "columns_within m r" if "r \<in> set rs" for r by (rule resources_ofD(1) [OF assms(1,3) that])
  have openapi: "yields export_codes (\<lambda>v. assertGeneratedOpenApiDocument v rs = Inr ()) (buildOpenApiDocument project rs (tables_of m))"
  proof -
    have "yields export_codes (\<lambda>_. True) (mapE (resourceSchemas (tables_of m)) rs)"
      by (intro yields_mono [OF yields_mapE [where P = "\<lambda>_ _. True"]] TrueI
          yields_codes [OF resourceSchemas_ok [OF assms(1,2) within]]) auto
    then have "yields export_codes (\<lambda>_. True) (buildOpenApiDocument project rs (tables_of m))"
      unfolding buildOpenApiDocument_def by (rule yields_bindE) simp
    with openapi_check_passes [OF assms(5,6)] show ?thesis
      by (cases "buildOpenApiDocument project rs (tables_of m)") simp_all
  qed
  note postman = buildPostmanCollection_ok [OF assms(1-4), of showNumber project]
  have serialized: "serializeRelationalModel contract showNumber m = Inr (stableJson showNumber (json_relational_model m) @ [0xA])"
    by (simp add: serializeRelationalModel_def assms(8))
  note files = artifact_files_ok [of showNumber sha256, OF assms(11)]
  note facts = generatedJsonFile_ok [of showNumber sha256, OF assms(11)]
  show ?thesis
    unfolding generateSpringBootExportArtifacts_def Let_def
    by (rule exports_artifact [OF start], rule exports_artifact [OF found], hypsubst, rule exports_artifact [OF openapi],
        rule exports_artifact [where P = "\<lambda>_. True"], simp, rule exports_artifact [OF postman],
        rule exports_artifact [where P = "\<lambda>_. True"], simp, rule exports_contract [OF serialized])
      (simp add: files artifactE_def sound_files_def facts)
qed

end
