(* ===== verification/Export_Examples.thy ===== *)
theory Export_Examples
  imports Export_Openapi_Laws Relational_Determinism
begin

text \<open>
  The resources of two documents: invoices and customers, and invoices of an abstract class between a
  concrete root and a concrete subclass, whose export is refused.
\<close>

section \<open>Invoices\<close>

lemmas run_order = sortedGeneralizations_def compareGeneralizations_def depthOf_def depth.simps depths.simps
  adjacency_def addEdge_def targetsOf_def

lemmas run_resources = buildResourceDescriptors_def exposedTables_def enumerate_eq_zip rawResource_def
  identifierDescriptor_def rootTable_def hierarchyTables_def hierarchy.simps parentOf_def ownedColumns_def
  columnById_def entityFields_def entityDirectColumns_def compareKeyColumns_def ownedColumnKey_def
  foreignKeyDescriptors_def flatMapE_def sortedForeignKeys_def isJoinedInheritanceForeignKey_def
  foreignKeyDescriptor_def withDependencies_def targetResourceFor_def unique_def

lemma billing_resources:
  "\<exists>m rs. generateFrom ascii_platform (\<lambda>_. []) billing = Inr m \<and> named_columns m
     \<and> buildResourceDescriptors m (tables_of m) = Inr rs
     \<and> map (\<lambda>r. (rs_id r, rs_dependencies r)) rs =
       [(js ''table_aa'', []), (js ''table_bb'', [js ''table_aa'']), (js ''table_cc'', [])]"
  by (simp add: billing_def document_of_def class_of_def association_of_def end_of_def run_build run_states run_relationships run_models
    compareUnits_js js_append [symmetric] artifactId_js Let_def is_class_def multiplicities digit_text run_validator run_resources
    named_columns_def)

section \<open>An abstract class in the middle\<close>

text \<open>A customer is an abstract person and a VIP is a customer; invoices refer to their customer. The model is
  generated, but \<open>targetResourceFor\<close> looks for concrete descendants only by the root of their hierarchy.\<close>

definition loyalty :: canonical_model where
  "loyalty = document_of [class_of ''aa'' ''Person'' [], class_of ''bb'' ''Invoice'' [],
       (class_of ''cc'' ''Customer'' [])\<lparr>cl_kind := KClass True\<rparr>, class_of ''dd'' ''Vip'' []]
     [(association_of ''r1'' ''bb'' ''cc'' None)\<lparr>rl_target := end_of ''cc'' ''1''\<rparr>,
      (association_of ''r2'' ''cc'' ''aa'' None)\<lparr>rl_kind := Generalization\<rparr>,
      (association_of ''r3'' ''dd'' ''cc'' None)\<lparr>rl_kind := Generalization\<rparr>] []"

lemma abstract_subclass_is_not_exported:
  "\<exists>m. generateFrom ascii_platform (\<lambda>_. []) loyalty = Inr m
     \<and> buildResourceDescriptors m (tables_of m) = Inl (SpringBootExportArtifactError (js ''FOREIGN_KEY_TARGET_UNEXPOSED'')
         (js ''Foreign key fk_table_bb_column_table_bb_customer_id references an abstract table without an exposed descendant.''))"
  by (simp add: loyalty_def document_of_def class_of_def association_of_def end_of_def run_build run_states run_relationships run_models
    run_order compareUnits_js js_append [symmetric] artifactId_js Let_def is_class_def multiplicities digit_text run_validator
    run_resources)

end
