(* ===== verification/Export_Properties.thy ===== *)
theory Export_Properties
  imports Export_Files Export_Examples
begin

text \<open>
  What an export of a generated model promises: its resources, the order in which they are created, the
  report of cycles, and the files. The examples are those of the invoices.
\<close>

section \<open>Dependencies\<close>

text \<open>C12. The order of creation lists every resource once, and each after the resources it depends on,
  unless it leads to a cycle of dependencies.\<close>

theorem dependencies_are_created_first:
  assumes "distinct (map rs_id rs)"
  shows "mset (dependencyOrder rs) = mset rs
    \<and> (\<forall>before r after. dependencyOrder rs = before @ r # after \<longrightarrow>
         set (rs_dependencies r) \<inter> rs_id ` set rs \<subseteq> rs_id ` set before \<or> cyclic_from rs (rs_id r))"
proof (intro conjI allI impI)
  show order: "mset (dependencyOrder rs) = mset rs" by (rule dependencyOrder_laws(1) [OF assms])
  fix before r after
  assume split: "dependencyOrder rs = before @ r # after"
  then have "r \<in> set (dependencyOrder rs)" by simp
  then have "r \<in> set rs" using order by (metis set_mset_mset)
  with dependencyOrder_laws(2) [OF assms] depends_on [OF assms]
  show "set (rs_dependencies r) \<inter> rs_id ` set rs \<subseteq> rs_id ` set before \<or> cyclic_from rs (rs_id r)"
    unfolding split placed_append by simp
qed

text \<open>C13. The report of cycles names exactly the resources that depend on themselves, over any number of
  others.\<close>

theorem cycles_are_reported:
  assumes "distinct (map rs_id rs)"
  shows "set (dependencyCycles rs) = {tb_javaEntityName (rs_table r) | r. r \<in> set rs
    \<and> (rs_id r, rs_id r) \<in> (depends (resourceById rs))\<^sup>+}"
proof -
  have "(\<exists>d \<in> set (rs_dependencies r). pathExists d (rs_id r) (resourceById rs)) \<longleftrightarrow>
      (rs_id r, rs_id r) \<in> (depends (resourceById rs))\<^sup>+" if "r \<in> set rs" for r
  proof -
    have "d \<in> set (rs_dependencies r) \<longleftrightarrow> (rs_id r, d) \<in> depends (resourceById rs)" for d
      using depends_on [OF assms that] by blast
    then show ?thesis unfolding pathExists_iff trancl_unfold_left by blast
  qed
  then show ?thesis unfolding dependencyCycles_def by auto
qed

section \<open>Resources\<close>

text \<open>C14. An export of a generated model has one resource for every table that is not abstract, under
  different routes, with the identifier of the root of its hierarchy and references to tables of the schema;
  the only error of the descriptors is a reference to a table that no resource stands for.\<close>

theorem generated_models_have_resources:
  assumes "generateFrom p contract d = Inr m" "readable_multiplicities d"
  shows "case buildResourceDescriptors m (tables_of m) of
      Inr rs \<Rightarrow> list_all2 (resource_of m) (exposedTables m) rs \<and> distinct (map rs_id rs) \<and> distinct (map rs_route rs)
        \<and> (\<forall>r \<in> set rs. set (rs_dependencies r) \<subseteq> rs_id ` set rs \<and> (\<forall>k \<in> set (rs_foreignKeys r). reference_in m k))
    | Inl (SpringBootExportArtifactError code message) \<Rightarrow> code = js ''FOREIGN_KEY_TARGET_UNEXPOSED''
        \<and> (\<exists>k. reference_in m k \<and> \<not> (\<exists>t. stands_for m t (fd_referencedTable k)))"
  by (rule generated_resources [OF assms])

section \<open>Files\<close>

lemma generated_contract:
  assumes "generateFrom p contract d = Inr m"
  shows "assertRelationalModelContract contract m = Inr ()"
  using assms by (auto simp: generateFrom_def split: sum.splits build_error.splits if_splits)

text \<open>C15. A generated model is exported: the OpenAPI document and the Postman collection pass their checks,
  the relational model passes its contract, and the three files come in the order of their paths with their
  lengths and hashes. The only failures are a reference to a table that no resource stands for and a column
  whose references lead to different Java types.\<close>

theorem generated_models_are_exported:
  assumes "generateFrom p contract d = Inr m" "readable_multiplicities d" "named_columns m"
    and "0 \<le> revision" "revision \<le> 9007199254740991" "\<And>n. (0xD :: 16 word) \<notin> set (showNumber n)"
  shows "case generateSpringBootExportArtifacts contract showNumber sha256 m revision project of
      Inr a \<Rightarrow> sound_files sha256 a
    | Inl e \<Rightarrow> (\<exists>code message. e = ArtifactFailure (SpringBootExportArtifactError code message)
        \<and> (code = js ''FOREIGN_KEY_TYPE_CONFLICT'' \<or> code = js ''FOREIGN_KEY_TARGET_UNEXPOSED''))"
proof -
  note m = generated_exportable [OF assms(1,2)]
  have contract: "assertRelationalModelContract contract m = Inr ()" by (rule generated_contract [OF assms(1)])
  have "exports (sound_files sha256) (generateSpringBootExportArtifacts contract showNumber sha256 m revision project)"
  proof (cases "buildResourceDescriptors m (tables_of m)")
    case (Inl e)
    moreover have "codeOf e \<in> export_codes"
      using generated_resources [OF assms(1,2)] by (cases e) (simp add: Inl)
    ultimately show ?thesis using assms(4,5)
      by (simp add: generateSpringBootExportArtifacts_def artifactE_def throwUnless_def exports_def)
  next
    case (Inr rs)
    with generated_resources [OF assms(1,2)] have rs: "resources_of m rs" "distinct (map rs_id rs)" "distinct (map rs_route rs)"
      by (simp_all add: resources_of_def)
    have "0x2F \<notin> set (rs_route r)" if "r \<in> set rs" for r
    proof -
      have "\<exists>t \<in> set (exposedTables m). resource_of m t r"
        by (rule list_all2_each [OF rs(1) [unfolded resources_of_def] that])
      then obtain t where "t \<in> set (exposedTables m)" "resource_of m t r" by blast
      then show ?thesis using m(2) physical_no_slash unfolding set_exposedTables resource_of_def by metis
    qed
    then show ?thesis by (intro export_of_schema [OF m(1) assms(3) rs _ Inr contract assms(4-6)]) blast
  qed
  then show ?thesis by (auto simp: exports_def split: sum.splits export_error.splits elim!: codeOf.elims)
qed

section \<open>An export of invoices\<close>

definition example_project :: spring_project where
  "example_project = \<lparr>sp_groupId = js ''com.example'', sp_artifactId = js ''billing'', sp_packageName = js ''com.example.billing'',
     sp_applicationName = js ''Billing'', sp_generatorVersion = js ''0.1.0'', sp_files = []\<rparr>"

lemma billing_export:
  obtains m rs where "generateFrom ascii_platform (\<lambda>_. []) billing = Inr m" "named_columns m"
    "buildResourceDescriptors m (tables_of m) = Inr rs" "length rs = 3" "distinct (map rs_id rs)"
proof -
  from billing_resources obtain m rs where m: "generateFrom ascii_platform (\<lambda>_. []) billing = Inr m" "named_columns m"
      "buildResourceDescriptors m (tables_of m) = Inr rs"
    and rs: "map (\<lambda>r. (rs_id r, rs_dependencies r)) rs =
      [(js ''table_aa'', []), (js ''table_bb'', [js ''table_aa'']), (js ''table_cc'', [])]"
    by (elim exE conjE)
  have "map rs_id rs = map fst (map (\<lambda>r. (rs_id r, rs_dependencies r)) rs)" by simp
  also have "\<dots> = [js ''table_aa'', js ''table_bb'', js ''table_cc'']" by (simp only: rs) simp
  finally have ids: "map rs_id rs = [js ''table_aa'', js ''table_bb'', js ''table_cc'']" .
  from arg_cong [where f = length, OF ids] have "length rs = 3" by simp
  moreover have "distinct (map rs_id rs)" by (simp add: ids)
  ultimately show thesis by (rule that [OF m])
qed

lemma dependencies_are_created_first_witness:
  "\<exists>m rs. generateFrom ascii_platform (\<lambda>_. []) billing = Inr m \<and> buildResourceDescriptors m (tables_of m) = Inr rs
     \<and> length rs = 3 \<and> mset (dependencyOrder rs) = mset rs"
proof (rule billing_export)
  fix m :: relational_model and rs :: "resource_descriptor list"
  assume m: "generateFrom ascii_platform (\<lambda>_. []) billing = Inr m" "buildResourceDescriptors m (tables_of m) = Inr rs"
    "length rs = 3" "distinct (map rs_id rs)"
  with dependencies_are_created_first [OF m(4)] show ?thesis
    by (intro exI [of _ m] exI [of _ rs]) simp
qed

lemma cycles_are_reported_witness:
  "\<exists>m rs. generateFrom ascii_platform (\<lambda>_. []) billing = Inr m \<and> buildResourceDescriptors m (tables_of m) = Inr rs
     \<and> length rs = 3 \<and> set (dependencyCycles rs) = {tb_javaEntityName (rs_table r) | r. r \<in> set rs
         \<and> (rs_id r, rs_id r) \<in> (depends (resourceById rs))\<^sup>+}"
proof (rule billing_export)
  fix m :: relational_model and rs :: "resource_descriptor list"
  assume m: "generateFrom ascii_platform (\<lambda>_. []) billing = Inr m" "buildResourceDescriptors m (tables_of m) = Inr rs"
    "length rs = 3" "distinct (map rs_id rs)"
  then show ?thesis by (intro exI [of _ m] exI [of _ rs] conjI cycles_are_reported [OF m(4)])
qed

lemma generated_models_have_resources_witness:
  "\<exists>m rs. generateFrom ascii_platform (\<lambda>_. []) billing = Inr m \<and> buildResourceDescriptors m (tables_of m) = Inr rs
     \<and> length rs = 3 \<and> distinct (map rs_route rs)"
proof (rule billing_export)
  fix m :: relational_model and rs :: "resource_descriptor list"
  assume m: "generateFrom ascii_platform (\<lambda>_. []) billing = Inr m" "buildResourceDescriptors m (tables_of m) = Inr rs"
    "length rs = 3"
  from generated_models_have_resources [OF m(1) billing_readable] m(2) have "distinct (map rs_route rs)" by simp
  with m show ?thesis by (intro exI [of _ m] exI [of _ rs] conjI)
qed

lemma generated_models_are_exported_witness:
  "\<exists>m. generateFrom ascii_platform (\<lambda>_. []) billing = Inr m
     \<and> (case generateSpringBootExportArtifacts (\<lambda>_. []) (\<lambda>_. js ''0'') (\<lambda>s. s) m 3 example_project of
          Inr a \<Rightarrow> sound_files (\<lambda>s. s) a
        | Inl e \<Rightarrow> (\<exists>code message. e = ArtifactFailure (SpringBootExportArtifactError code message)
            \<and> (code = js ''FOREIGN_KEY_TYPE_CONFLICT'' \<or> code = js ''FOREIGN_KEY_TARGET_UNEXPOSED'')))"
proof (rule billing_export)
  fix m :: relational_model
  assume m: "generateFrom ascii_platform (\<lambda>_. []) billing = Inr m" "named_columns m"
  have ascii: "(0xD :: 16 word) \<notin> set (js ''0'')" by (simp add: js_def)
  with m(1) generated_models_are_exported [OF m(1) billing_readable m(2) _ _ ascii] show ?thesis
    by (intro exI [of _ m] conjI) simp_all
qed

end
