(* ===== verification/Spec2Isabelle.thy ===== *)
theory Spec2Isabelle
  imports Editing_Properties Collaboration_Properties Admission_Properties Auth_Properties Document_Properties
    Gateway_Properties Relational_Determinism Export_Properties
begin

text \<open>
  A model of the server of the UML class designer (a NestJS application, src/src). Users sign in
  (src/src/modules/auth), own projects and invite members (src/src/modules/projects), and edit the class
  diagrams of a project, alone over HTTP or together over a websocket (src/src/modules/uml-domain).

  \<^bold>\<open>How the parts interact.\<close> A stored document is one canonical UML model per revision. A change of it is a
  command: \<open>document-command.service.ts\<close> authorizes it, finds out whether the operation was stored
  already, asks the lock store whether another socket holds an element it needs, runs
  \<open>uml-command.executor.ts\<close> on the current model, has \<open>canonical-model.validation.ts\<close> check
  the result and writes the next revision if the revision it started from is still the current one. Calls
  for one document go through \<open>document-mutation-queue.service.ts\<close>. The gateway
  (\<open>collaboration.gateway.ts\<close>) gives each socket its presence, its locks and its share of the rate
  limiter, and sends what happened to the sockets that joined the document, after asking the database who
  may still see it. Projects and sessions decide who that is. For code generation
  (src/src/modules/generation/relational-model) a document is turned into a relational schema:
  \<open>relational-model.transformer.ts\<close> builds tables in passes over sorted classifiers and relationships,
  \<open>relational-model.validator.ts\<close> checks the result, and
  src/src/modules/generation/spring-boot-export describes the schema as an OpenAPI document and a Postman
  collection.

  \<^bold>\<open>Theories, in the order they build on each other.\<close>

  \<^item> Shared: \<^theory_text>\<open>Js_Prelude\<close> (JavaScript strings as lists of 16-bit words, \<open>Map\<close> as an association list in
    the order of insertion, results with errors, loops that may throw), \<^theory_text>\<open>Indexed_Maps\<close> (maps of
    maps), \<^theory_text>\<open>Async_Programs\<close> (asynchronous functions as programs that run in segments between two
    \<open>await\<close>s, with a calculus of what every segment keeps).
  \<^item> The canonical model: \<^theory_text>\<open>Uml_Model\<close> (the interfaces and unions of \<open>collaboration.types.ts\<close>),
    \<^theory_text>\<open>Canonical_Validation\<close> with \<^theory_text>\<open>Cycle_Check\<close> (\<open>canonical-model.validation.ts\<close>, one definition
    per pass), \<^theory_text>\<open>Well_Formed\<close> (the same contract without loops, and the proof that the two agree),
    \<^theory_text>\<open>Command_Executor\<close> (\<open>uml-command.executor.ts\<close>, one branch of \<open>mutate\<close> per command) with
    \<^theory_text>\<open>Executor_Laws\<close> and \<^theory_text>\<open>Removal_Laws\<close>.
  \<^item> The stores of the process: \<^theory_text>\<open>Lock_Store\<close>, \<^theory_text>\<open>Lock_Laws\<close>, \<^theory_text>\<open>Lock_Refinement\<close>, \<^theory_text>\<open>Lock_Owners\<close>
    (\<open>collaboration-lock.store.ts\<close>, its invariant, the abstract lock table it implements),
    \<^theory_text>\<open>Presence_Store\<close>, \<^theory_text>\<open>Rate_Limiter\<close>, \<^theory_text>\<open>Mutation_Queue\<close>, \<^theory_text>\<open>Export_Quota\<close> (the four services of the same
    names). A store is a record, an operation a function on it.
  \<^item> Accounts: \<^theory_text>\<open>Auth_Tokens\<close>, \<^theory_text>\<open>Auth_Sessions\<close> (\<open>auth.service.ts\<close>,
    \<open>access-token-verifier.service.ts\<close>, \<open>auth-session-maintenance.service.ts\<close>), \<^theory_text>\<open>Auth_Laws\<close> (every
    interleaving of the statements of concurrent requests).
  \<^item> The database and the services on it: \<^theory_text>\<open>Server_Tables\<close> (the tables of src/prisma/schema.prisma and the
    statements several services share), \<^theory_text>\<open>Projects\<close> (\<open>projects.service.ts\<close>, \<open>project-member.guard.ts\<close>),
    \<^theory_text>\<open>Model_Persistence\<close> (\<open>canonical-model.validator.ts\<close>), \<^theory_text>\<open>Documents\<close> (\<open>documents.service.ts\<close>),
    \<^theory_text>\<open>Command_Text\<close> and \<^theory_text>\<open>Document_Commands\<close> (\<open>document-command.service.ts\<close>); their laws are in
    \<^theory_text>\<open>Project_Laws\<close>, \<^theory_text>\<open>Command_Text_Laws\<close> and \<^theory_text>\<open>Document_Laws\<close>, and \<^theory_text>\<open>Document_History\<close> has the steps of
    the server as an inductive relation over all of them.
  \<^item> The gateway: \<^theory_text>\<open>Gateway_State\<close>, \<^theory_text>\<open>Gateway_Broadcast\<close> and \<^theory_text>\<open>Gateway_Handlers\<close> model
    \<open>collaboration.gateway.ts\<close> method by method, \<^theory_text>\<open>Gateway_System\<close> the event loop that runs any number of
    its handlers concurrently. \<^theory_text>\<open>Gateway_Laws\<close>, \<^theory_text>\<open>Gateway_Invariant\<close>, \<^theory_text>\<open>Gateway_Segments\<close>,
    \<^theory_text>\<open>Gateway_Kept\<close>, \<^theory_text>\<open>Gateway_Reachable\<close>, \<^theory_text>\<open>Gateway_Answers\<close> and \<^theory_text>\<open>Gateway_Discretion\<close> (what a
    handler does not tell) carry the proofs.
  \<^item> The relational model: \<^theory_text>\<open>Relational_Names\<close> (identifiers of PostgreSQL and Java), \<^theory_text>\<open>Relational_Model\<close>
    (\<open>relational-model.types.ts\<close> and the fields of \<open>BuildState\<close>), \<^theory_text>\<open>Relational_State\<close> (its
    operations), \<^theory_text>\<open>Relational_Builder\<close>, \<^theory_text>\<open>Relational_Order\<close>, \<^theory_text>\<open>Relational_Passes\<close> and
    \<^theory_text>\<open>Relational_Associations\<close> (the passes of \<open>relational-model.transformer.ts\<close>, one definition per
    function), \<^theory_text>\<open>Relational_Contract\<close> (\<open>relational-model.validator.ts\<close> and
    \<open>generateRelationalModel\<close>). \<^theory_text>\<open>Relational_Laws\<close> and \<^theory_text>\<open>Relational_Kept\<close> carry the invariant of the
    build state through every pass, \<^theory_text>\<open>Relational_Consistency\<close> states the contract of the validator without
    loops, \<^theory_text>\<open>Relational_Determinism\<close> compares the builds of two reordered documents.
  \<^item> The export of a relational model: \<^theory_text>\<open>Export_Resources\<close> (its resources, their order and cycles),
    \<^theory_text>\<open>Export_Json\<close> (JSON files, \<open>serializeRelationalModel\<close>), \<^theory_text>\<open>Export_Openapi\<close> and \<^theory_text>\<open>Export_Postman\<close>
    (the documents, their checks and \<open>generateSpringBootExportArtifacts\<close> of
    \<open>spring-boot-export.artifacts.ts\<close>). \<^theory_text>\<open>Export_Laws\<close> follows the descriptors of a consistent schema,
    \<^theory_text>\<open>Export_Openapi_Laws\<close>, \<^theory_text>\<open>Export_Postman_Laws\<close> and \<^theory_text>\<open>Export_Files\<close> the documents and files.
  \<^item> The properties: \<^theory_text>\<open>Editing_Properties\<close>, \<^theory_text>\<open>Collaboration_Properties\<close>, \<^theory_text>\<open>Admission_Properties\<close>,
    \<^theory_text>\<open>Auth_Properties\<close>, \<^theory_text>\<open>Document_Properties\<close>, \<^theory_text>\<open>Gateway_Properties\<close>,
    \<^theory_text>\<open>Relational_Properties\<close>, the end of \<^theory_text>\<open>Relational_Determinism\<close> and \<^theory_text>\<open>Export_Properties\<close>, on the
    examples of \<^theory_text>\<open>Example_Documents\<close>, \<^theory_text>\<open>Document_Examples\<close>, \<^theory_text>\<open>Gateway_Examples\<close>,
    \<^theory_text>\<open>Relational_Examples\<close> and \<^theory_text>\<open>Export_Examples\<close>.

  \<^bold>\<open>What is shown.\<close> The validator accepts exactly the well formed documents, and its search for cycles is right.
  The executor changes only what a command names, deletes exactly the closure of a classifier, and moving or
  deleting keeps a document acceptable, unless what is deleted is the association class of a relationship
  that stays. Locks are exclusive, expire, and implement a table of locks in force. Presence, rates,
  queues and exports stay within their bounds, and mutations of a document run in order and make progress.
  A refresh token is exchanged once under any interleaving, and a revocation is final. Every document has a
  history without gaps in which each operation is stored once and is the step between its revisions, and
  nobody writes without a session and a membership. In every reachable state of the gateway the stores hold
  connected sockets only, and every request is answered once. No handler or job tells a socket anything about
  a document from which its user is kept out, by a revoked session or a missing membership, all the while it
  runs; a broadcast that has the answer of the database already can be overtaken by a revocation.
  A generated relational model has valid and distinct names, one table per class, foreign keys of the types
  they refer to, and hierarchies with one key type; its validator decides a declarative contract, generation
  fails only with diagnostics, and the order in which the document lists things does not matter. Two
  lemmas of \<^theory_text>\<open>Relational_Examples\<close> show defects: a scalar identifier is stored as a second column, and
  a reference to a joined subclass is refused after its key has changed its type.
  An export has one resource per concrete table under its own route, creates every resource after what it
  depends on, reports exactly the cycles, and its documents and files pass their checks; it can only fail on a
  reference that no resource stands for or on conflicting types. \<^theory_text>\<open>Export_Examples\<close> shows that the first
  happens for a reference to an abstract class in the middle of a hierarchy.

  \<^bold>\<open>Conventions.\<close> Strings are code unit lists, so lengths and comparisons are those of JavaScript. Numbers of
  the canonical model are rationals, since they are only copied and compared. Errors are the left values of a sum. A
  random UUID, a timer identity and the time are arguments. An operation of a store runs to its end without
  interruption, so it reads the clock once. Objects the code compares by reference have numbers or the key
  they are stored under.

  \<^bold>\<open>Time and interleaving.\<close> One SQL statement is one atomic step; a transaction is cut where another one
  can come in between, and the parts get the databases they meet (what an earlier part read may be stale).
  A handler of the gateway is cut at its \<open>await\<close>s, and between two segments any other handler, timer,
  disconnection or change of the database can happen. It sends a query with the clock of one segment, the
  database answers at a moment of its own, and the handler goes on with the answer at a later one; two queries
  under \<open>Promise.all\<close> are answered at two moments, in either order.

  \<^bold>\<open>Bounds and fuel.\<close> The loops of the sources are structural recursions or functions with a measure. The one
  exception is \<open>expire\<close> in \<^theory_text>\<open>Lock_Store\<close> (\<open>expireDocument\<close> emits a change, which lists the locks, which
  expires again): its fuel of two is shown to be enough by \<open>expire_fuel\<close>. Revisions stay below the largest
  32-bit integer column, as the database refuses a larger one.

  \<^bold>\<open>Parameters\<close>, the code that is not in the repository: the JSON schema validator (ajv), locale dependent
  lower casing, the UUID test, the decimal text of a number, SHA-256, HMAC, password hashes, signing and
  checking of access tokens, Unicode decomposition, lower casing and collation of text (the record
  \<open>platform\<close>), the JSON schema of the relational model. Where a theorem relies on one of them, the documented behaviour is a named
  hypothesis, with a witness on a concrete function. socket.io rooms and disconnection are modelled as
  documented: a socket in a room receives what is sent to it, a disconnected one is in no room.

  \<^bold>\<open>Not modelled.\<close> Controllers, DTOs, modules, guards without logic of their own, the configuration and the
  bootstrap only route requests to the services. The Spring Boot generator writes text templates of a
  Java project over the relational model, the archive of an export is written by a library, and the XMI adapter
  reads and writes XML through one; they do not change state of the server. The contract validators are JSON
  schemas for ajv. The syntax error of \<open>BigInt\<close> on a multiplicity that is no number, which the schema excludes, ends a
  command like any other invalid model. Logging, the race of a token verification against its timeout and the
  interval that starts the session cleanup are left out, as they carry no state. Scripts, tests and the contracts of the frontend are not part of the server.
\<close>

end
